(* ===== verification/Niri_Prelude.thy ===== *)
theory Niri_Prelude
  imports Complex_Main "HOL-Library.Word" "HOL-Library.Monad_Syntax"
begin

text \<open>
  Shared material of the development: the machine integers of the sources, the operations of
  Rust's \<^verbatim>\<open>Vec\<close> with their panics, and the reasoning principle for code that may panic.

  A Rust function that can panic (an index out of range, an \<^verbatim>\<open>unwrap\<close> or \<^verbatim>\<open>expect\<close> of
  \<^verbatim>\<open>None\<close>, a failed \<^verbatim>\<open>assert!\<close>) is a function into an option type whose \<^term>\<open>None\<close> is the
  panic. The predicate \<open>runs m P\<close> says that \<open>m\<close> does not panic and that its result satisfies
  \<open>P\<close>: it is the weakest precondition of total correctness, and the equations collected in
  \<open>runs_simps\<close> push it through the code.
\<close>

named_theorems runs_simps \<open>equations that evaluate \<open>runs\<close> over the operations of the model\<close>
named_theorems ipc_defs \<open>definitions of the event stream model\<close>

type_synonym u8 = "8 word"
type_synonym u16 = "16 word"
type_synonym u32 = "32 word"
type_synonym u64 = "64 word"
type_synonym i32 = int


section \<open>Code that may panic\<close>

definition runs :: "'a option \<Rightarrow> ('a \<Rightarrow> bool) \<Rightarrow> bool" where
  "runs m P \<longleftrightarrow> (case m of None \<Rightarrow> False | Some x \<Rightarrow> P x)"

lemma runs_None [simp, runs_simps]: "\<not> runs None P"
  by (simp add: runs_def)

lemma runs_Some [simp, runs_simps]: "runs (Some x) P = P x"
  by (simp add: runs_def)

lemma runs_bind [simp, runs_simps]: "runs (m \<bind> f) P = runs m (\<lambda>x. runs (f x) P)"
  by (cases m) simp_all

lemma runs_if [runs_simps]: "runs (if b then m else n) P = (if b then runs m P else runs n P)"
  by simp

lemma runs_case_prod [simp, runs_simps]:
  "runs (case p of (a, b) \<Rightarrow> f a b) P = (case p of (a, b) \<Rightarrow> runs (f a b) P)"
  by (cases p) simp

lemma runs_case_option [runs_simps]:
  "runs (case x of None \<Rightarrow> m | Some y \<Rightarrow> f y) P =
     (case x of None \<Rightarrow> runs m P | Some y \<Rightarrow> runs (f y) P)"
  by (cases x) simp_all

lemma runs_map_option [simp, runs_simps]: "runs (map_option f m) P = runs m (\<lambda>x. P (f x))"
  by (cases m) simp_all

lemma runs_mono: "runs m P \<Longrightarrow> (\<And>x. m = Some x \<Longrightarrow> P x \<Longrightarrow> Q x) \<Longrightarrow> runs m Q"
  by (cases m) simp_all

lemma runs_conj: "runs m P \<Longrightarrow> runs m Q \<Longrightarrow> runs m (\<lambda>x. P x \<and> Q x)"
  by (cases m) simp_all

lemma runsD: "runs m P \<Longrightarrow> \<exists>x. m = Some x \<and> P x"
  by (cases m) simp_all

lemma runsE: "runs m P \<Longrightarrow> (\<And>x. m = Some x \<Longrightarrow> P x \<Longrightarrow> thesis) \<Longrightarrow> thesis"
  by (cases m) simp_all

lemma runsI: "m = Some x \<Longrightarrow> P x \<Longrightarrow> runs m P"
  by simp

lemma runs_iff: "runs m P \<longleftrightarrow> (\<exists>x. m = Some x \<and> P x)"
  by (cases m) simp_all

text \<open>Running a panicking step over a list, as a \<^verbatim>\<open>for\<close> loop that threads a state does.\<close>

fun for_each :: "('a \<Rightarrow> 's \<Rightarrow> 's option) \<Rightarrow> 'a list \<Rightarrow> 's \<Rightarrow> 's option" where
  "for_each f [] s = Some s"
| "for_each f (x # xs) s = f x s \<bind> for_each f xs"

lemma for_each_append: "for_each f (xs @ ys) s = for_each f xs s \<bind> for_each f ys"
  by (induction xs arbitrary: s) (auto simp: bind_assoc split: Option.bind_splits)

lemma runs_for_each:
  assumes "I [] s"
    and "\<And>ys x zs s. xs = ys @ x # zs \<Longrightarrow> I ys s \<Longrightarrow> runs (f x s) (I (ys @ [x]))"
  shows "runs (for_each f xs s) (I xs)"
proof -
  have "xs = ys @ zs \<Longrightarrow> I ys s \<Longrightarrow> runs (for_each f zs s) (I xs)" for ys zs s
  proof (induction zs arbitrary: ys s)
    case Nil
    then show ?case by simp
  next
    case (Cons z zs)
    have "runs (f z s) (I (ys @ [z]))"
      using assms(2) Cons.prems by blast
    then obtain s' where s': "f z s = Some s'" "I (ys @ [z]) s'"
      by (auto simp: runs_iff)
    then show ?case
      using Cons.IH [of "ys @ [z]" s'] Cons.prems by simp
  qed
  from this [of "[]" xs s] assms(1) show ?thesis by simp
qed


section \<open>Vectors\<close>

text \<open>Indexing, \<^verbatim>\<open>Vec::insert\<close>, \<^verbatim>\<open>Vec::remove\<close>, \<^verbatim>\<open>slice::swap\<close> and \<^verbatim>\<open>Iterator::position\<close>.\<close>

definition vec_get :: "'a list \<Rightarrow> nat \<Rightarrow> 'a option" where
  "vec_get xs i = (if i < length xs then Some (xs ! i) else None)"

definition vec_update :: "nat \<Rightarrow> ('a \<Rightarrow> 'a) \<Rightarrow> 'a list \<Rightarrow> 'a list option" where
  "vec_update i f xs = (if i < length xs then Some (xs[i := f (xs ! i)]) else None)"

definition vec_insert :: "nat \<Rightarrow> 'a \<Rightarrow> 'a list \<Rightarrow> 'a list option" where
  "vec_insert i x xs = (if i \<le> length xs then Some (take i xs @ x # drop i xs) else None)"

definition vec_remove :: "nat \<Rightarrow> 'a list \<Rightarrow> ('a \<times> 'a list) option" where
  "vec_remove i xs =
     (if i < length xs then Some (xs ! i, take i xs @ drop (Suc i) xs) else None)"

definition vec_swap :: "nat \<Rightarrow> nat \<Rightarrow> 'a list \<Rightarrow> 'a list option" where
  "vec_swap i j xs =
     (if i < length xs \<and> j < length xs then Some (xs[i := xs ! j, j := xs ! i]) else None)"

fun vec_position :: "('a \<Rightarrow> bool) \<Rightarrow> 'a list \<Rightarrow> nat option" where
  "vec_position P [] = None"
| "vec_position P (x # xs) = (if P x then Some 0 else map_option Suc (vec_position P xs))"

lemma runs_vec_get [simp, runs_simps]: "runs (vec_get xs i) P \<longleftrightarrow> i < length xs \<and> P (xs ! i)"
  by (simp add: vec_get_def)

lemma runs_vec_update [simp, runs_simps]:
  "runs (vec_update i f xs) P \<longleftrightarrow> i < length xs \<and> P (xs[i := f (xs ! i)])"
  by (simp add: vec_update_def)

lemma runs_vec_insert [simp, runs_simps]:
  "runs (vec_insert i x xs) P \<longleftrightarrow> i \<le> length xs \<and> P (take i xs @ x # drop i xs)"
  by (simp add: vec_insert_def)

lemma runs_vec_remove [simp, runs_simps]:
  "runs (vec_remove i xs) P \<longleftrightarrow> i < length xs \<and> P (xs ! i, take i xs @ drop (Suc i) xs)"
  by (simp add: vec_remove_def)

lemma runs_vec_swap [simp, runs_simps]:
  "runs (vec_swap i j xs) P \<longleftrightarrow>
     i < length xs \<and> j < length xs \<and> P (xs[i := xs ! j, j := xs ! i])"
  by (auto simp: vec_swap_def)

lemma vec_position_SomeD:
  "vec_position P xs = Some i \<Longrightarrow> i < length xs \<and> P (xs ! i) \<and> (\<forall>j < i. \<not> P (xs ! j))"
proof (induction xs arbitrary: i)
  case Nil
  then show ?case by simp
next
  case (Cons x xs)
  show ?case
  proof (cases "P x")
    case True
    with Cons.prems show ?thesis by simp
  next
    case False
    with Cons.prems obtain k where k: "vec_position P xs = Some k" "i = Suc k"
      by auto
    with Cons.IH [of k] False show ?thesis
      by (auto simp: less_Suc_eq_0_disj)
  qed
qed

lemma vec_position_None: "vec_position P xs = None \<longleftrightarrow> (\<forall>x \<in> set xs. \<not> P x)"
  by (induction xs) auto

lemma runs_vec_position [runs_simps]:
  "runs (vec_position P xs) Q \<longleftrightarrow> (\<exists>i. vec_position P xs = Some i \<and> Q i)"
  by (auto simp: runs_iff)


text \<open>Mapping a panicking function over a vector, and \<^verbatim>\<open>Iterator::rposition\<close>.\<close>

fun map_opt :: "('a \<Rightarrow> 'b option) \<Rightarrow> 'a list \<Rightarrow> 'b list option" where
  "map_opt f [] = Some []"
| "map_opt f (x # xs) = do { y \<leftarrow> f x; ys \<leftarrow> map_opt f xs; Some (y # ys) }"

text \<open>A panicking function over a slice \<^verbatim>\<open>xs[lo..hi]\<close> of a vector.\<close>

definition map_slice :: "nat \<Rightarrow> nat \<Rightarrow> ('a \<Rightarrow> 'a option) \<Rightarrow> 'a list \<Rightarrow> 'a list option" where
  "map_slice lo hi f xs =
     (if lo \<le> hi \<and> hi \<le> length xs
      then do { ys \<leftarrow> map_opt f (take (hi - lo) (drop lo xs));
                Some (take lo xs @ ys @ drop hi xs) }
      else None)"

text \<open>A panicking function at one place of a vector.\<close>

definition vec_modify :: "nat \<Rightarrow> ('a \<Rightarrow> 'a option) \<Rightarrow> 'a list \<Rightarrow> 'a list option" where
  "vec_modify i f xs = do { x \<leftarrow> vec_get xs i; y \<leftarrow> f x; Some (xs[i := y]) }"

definition vec_rposition :: "('a \<Rightarrow> bool) \<Rightarrow> 'a list \<Rightarrow> nat option" where
  "vec_rposition P xs = map_option (\<lambda>i. length xs - 1 - i) (vec_position P (rev xs))"

lemma runs_map_opt:
  assumes "\<And>x. x \<in> set xs \<Longrightarrow> runs (f x) (P x)"
  shows "runs (map_opt f xs) (\<lambda>ys. list_all2 P xs ys)"
  using assms
proof (induction xs)
  case Nil
  then show ?case by simp
next
  case (Cons x xs)
  then have "runs (f x) (P x)" "runs (map_opt f xs) (list_all2 P xs)" by simp_all
  then show ?case by (auto simp: runs_iff)
qed

lemma map_opt_Some_conv:
  "map_opt f xs = Some ys \<longleftrightarrow> list_all2 (\<lambda>x y. f x = Some y) xs ys"
  by (induction xs arbitrary: ys) (auto simp: bind_eq_Some_conv list_all2_Cons1)

lemma map_opt_Some [simp]: "map_opt (\<lambda>x. Some (f x)) xs = Some (map f xs)"
  by (induction xs) simp_all

lemma vec_rposition_SomeD: "vec_rposition P xs = Some i \<Longrightarrow> i < length xs \<and> P (xs ! i)"
  using vec_position_SomeD [of P "rev xs"]
  by (auto simp: vec_rposition_def rev_nth dest!: vec_position_SomeD)

end
