(* ===== verification/Ipc_Types.thy ===== *)
theory Ipc_Types
  imports Niri_Prelude
begin

text \<open>
  The data of the IPC protocol (\<^verbatim>\<open>niri-ipc/src/lib.rs\<close>): the structures that the event stream
  carries, the argument types of actions, and their parsers from command-line strings.

  Ids and indices keep their width (\<^typ>\<open>u64\<close>, \<^typ>\<open>u8\<close>, \<^typ>\<open>u16\<close>); a 32-bit signed
  integer is an \<^typ>\<open>int\<close> whose range the parser checks. A floating-point number is a \<^typ>\<open>real\<close>.
  A Rust string is its list of bytes. The parser of floating-point numbers is an argument
  \<open>parse_f64\<close> of the parsers that call it, because its values include infinities and NaN, which
  have no counterpart among the reals.
\<close>

section \<open>Structures of the event stream\<close>

record Timestamp =
  secs :: u64
  nanos :: u32

record WindowLayout =
  pos_in_scrolling_layout :: "(nat \<times> nat) option"
  tile_size_f :: "real \<times> real"
  window_size_f :: "i32 \<times> i32"
  tile_pos_in_workspace_view :: "(real \<times> real) option"
  window_offset_in_tile :: "real \<times> real"

record Window =
  win_id :: u64
  title :: "string option"
  app_id :: "string option"
  win_pid :: "i32 option"
  workspace_id :: "u64 option"
  win_is_focused :: bool
  is_floating :: bool
  win_is_urgent :: bool
  win_layout :: WindowLayout
  focus_timestamp :: "Timestamp option"

record Workspace =
  ws_id :: u64
  ws_idx :: u8
  ws_name :: "string option"
  ws_output :: "string option"
  ws_is_urgent :: bool
  ws_is_active :: bool
  ws_is_focused :: bool
  active_window_id :: "u64 option"

record KeyboardLayouts =
  names :: "string list"
  current_idx :: u8

datatype CastKind = PipeWire | WlrScreencopy

datatype CastTarget = CastNothing | CastOutput string | CastWindow u64

record Cast =
  stream_id :: u64
  session_id :: u64
  kind :: CastKind
  target :: CastTarget
  is_dynamic_target :: bool
  cast_is_active :: bool
  cast_pid :: "i32 option"
  pw_node_id :: "u32 option"

datatype Event =
    WorkspacesChanged "Workspace list"
  | WorkspaceUrgencyChanged u64 bool
  | WorkspaceActivated u64 bool
  | WorkspaceActiveWindowChanged u64 "u64 option"
  | WindowsChanged "Window list"
  | WindowOpenedOrChanged Window
  | WindowClosed u64
  | WindowFocusChanged "u64 option"
  | WindowFocusTimestampChanged u64 "Timestamp option"
  | WindowUrgencyChanged u64 bool
  | WindowLayoutsChanged "(u64 \<times> WindowLayout) list"
  | KeyboardLayoutsChanged KeyboardLayouts
  | KeyboardLayoutSwitched u8
  | OverviewOpenedOrClosed bool
  | ConfigLoaded bool
  | ScreenshotCaptured "string option"
  | CastsChanged "Cast list"
  | CastStartedOrChanged Cast
  | CastStopped u64

text \<open>
  \<^verbatim>\<open>std::time::Duration\<close> is a number of seconds in 64 bits and a number of nanoseconds below
  one billion; \<^verbatim>\<open>Duration::new\<close> carries the excess nanoseconds into the seconds and panics when
  that overflows.
\<close>

record Duration =
  as_secs :: u64
  subsec_nanos :: u32

definition duration_wf :: "Duration \<Rightarrow> bool" where
  "duration_wf d \<longleftrightarrow> unat (subsec_nanos d) < 1000000000"

definition duration_new :: "u64 \<Rightarrow> u32 \<Rightarrow> Duration option" where
  "duration_new s n =
     (if unat n < 1000000000 then Some \<lparr>as_secs = s, subsec_nanos = n\<rparr>
      else if unat s + unat n div 1000000000 < 2 ^ 64
      then Some \<lparr>as_secs = s + of_nat (unat n div 1000000000),
                 subsec_nanos = of_nat (unat n mod 1000000000)\<rparr>
      else None)"

definition timestamp_from_duration :: "Duration \<Rightarrow> Timestamp" where
  "timestamp_from_duration d = \<lparr>secs = as_secs d, nanos = subsec_nanos d\<rparr>"

definition duration_from_timestamp :: "Timestamp \<Rightarrow> Duration option" where
  "duration_from_timestamp t = duration_new (secs t) (nanos t)"


section \<open>Arguments of actions\<close>

datatype SizeChange =
    SetFixed i32
  | SetProportion real
  | AdjustFixed i32
  | AdjustProportion real

datatype PositionChange =
    PosSetFixed real
  | PosSetProportion real
  | PosAdjustFixed real
  | PosAdjustProportion real

datatype WorkspaceReferenceArg = RefId u64 | RefIndex u8 | RefName string

datatype LayoutSwitchTarget = LayoutNext | LayoutPrev | LayoutIndex u8

datatype ColumnDisplay = DisplayNormal | DisplayTabbed

datatype Transform =
  TNormal | T90 | T180 | T270 | TFlipped | TFlipped90 | TFlipped180 | TFlipped270

datatype Layer = Background | Bottom | Top | Overlay

record ConfiguredMode =
  mode_width :: u16
  mode_height :: u16
  refresh :: "real option"

datatype ModeToSet = ModeAutomatic | ModeSpecific ConfiguredMode

datatype HSyncPolarity = PHSync | NHSync

datatype VSyncPolarity = PVSync | NVSync

datatype ScaleToSet = ScaleAutomatic | ScaleSpecific real

record ConfiguredPosition =
  pos_x :: i32
  pos_y :: i32

datatype PositionToSet = PositionAutomatic | PositionSpecific ConfiguredPosition

record VrrToSet =
  vrr :: bool
  on_demand :: bool

record ModelineArgs =
  clock :: real
  hdisplay :: u16
  hsync_start :: u16
  hsync_end :: u16
  htotal :: u16
  vdisplay :: u16
  vsync_start :: u16
  vsync_end :: u16
  vtotal :: u16
  hsync_polarity :: HSyncPolarity
  vsync_polarity :: VSyncPolarity

datatype OutputAction =
    OutputOff
  | OutputOn
  | OutputMode ModeToSet
  | OutputCustomMode ConfiguredMode
  | OutputModeline ModelineArgs
  | OutputScale ScaleToSet
  | OutputTransform Transform
  | OutputPosition PositionToSet
  | OutputVrr VrrToSet


section \<open>Parsers of the standard library\<close>

definition is_digit :: "char \<Rightarrow> bool" where
  "is_digit c \<longleftrightarrow> 48 \<le> (of_char c :: nat) \<and> (of_char c :: nat) \<le> 57"

fun digits_val :: "nat \<Rightarrow> string \<Rightarrow> nat option" where
  "digits_val acc [] = Some acc"
| "digits_val acc (c # cs) =
     (if is_digit c then digits_val (10 * acc + (of_char c - 48)) cs else None)"

definition parse_nat :: "string \<Rightarrow> nat option" where
  "parse_nat s = (if s = [] then None else digits_val 0 s)"

text \<open>\<^verbatim>\<open>str::parse::<i32>\<close>: an optional sign, at least one digit, in range.\<close>

definition parse_i32 :: "string \<Rightarrow> i32 option" where
  "parse_i32 s =
     (case s of
        [] \<Rightarrow> None
      | c # cs \<Rightarrow>
          (let v = (if c = CHR ''-'' then map_option (\<lambda>n. - int n) (parse_nat cs)
                    else if c = CHR ''+'' then map_option int (parse_nat cs)
                    else map_option int (parse_nat s))
           in case v of None \<Rightarrow> None
              | Some i \<Rightarrow> if - (2 ^ 31) \<le> i \<and> i < 2 ^ 31 then Some i else None))"

text \<open>\<^verbatim>\<open>str::parse\<close> at an unsigned type of \<open>w\<close> bits: only a plus sign is accepted.\<close>

definition parse_unsigned :: "nat \<Rightarrow> string \<Rightarrow> nat option" where
  "parse_unsigned w s =
     (let v = (case s of c # cs \<Rightarrow> if c = CHR ''+'' then parse_nat cs else parse_nat s
                       | [] \<Rightarrow> None)
      in case v of None \<Rightarrow> None | Some n \<Rightarrow> if n < 2 ^ w then Some n else None)"

fun split_once :: "char \<Rightarrow> string \<Rightarrow> (string \<times> string) option" where
  "split_once c [] = None"
| "split_once c (x # xs) =
     (if x = c then Some ([], xs)
      else map_option (\<lambda>(a, b). (x # a, b)) (split_once c xs))"

definition to_ascii_lowercase :: "char \<Rightarrow> char" where
  "to_ascii_lowercase c =
     (let n = (of_char c :: nat) in if 65 \<le> n \<and> n \<le> 90 then char_of (n + 32) else c)"

definition eq_ignore_ascii_case :: "string \<Rightarrow> string \<Rightarrow> bool" where
  "eq_ignore_ascii_case s t \<longleftrightarrow> map to_ascii_lowercase s = map to_ascii_lowercase t"


section \<open>Parsers of the action arguments\<close>

definition workspace_reference_from_str :: "string \<Rightarrow> string + WorkspaceReferenceArg" where
  "workspace_reference_from_str s =
     (case parse_i32 s of
        Some index \<Rightarrow>
          (if 0 \<le> index \<and> index \<le> 255 then Inr (RefIndex (of_int index))
           else Inl ''workspace index must be between 0 and 255'')
      | None \<Rightarrow> Inr (RefName s))"

definition starts_with_sign :: "string \<Rightarrow> bool" where
  "starts_with_sign v \<longleftrightarrow> (\<exists>c cs. v = c # cs \<and> (c = CHR ''-'' \<or> c = CHR ''+''))"

lemma starts_with_sign_code [code, simp]:
  "starts_with_sign [] = False"
  "starts_with_sign (c # cs) = (c = CHR ''-'' \<or> c = CHR ''+'')"
  by (auto simp: starts_with_sign_def)

definition parse_or :: "string \<Rightarrow> ('a \<Rightarrow> 'b) \<Rightarrow> 'a option \<Rightarrow> string + 'b" where
  "parse_or err f v = (case v of None \<Rightarrow> Inl err | Some x \<Rightarrow> Inr (f x))"

definition size_change_from_str ::
    "(string \<Rightarrow> real option) \<Rightarrow> string \<Rightarrow> string + SizeChange" where
  "size_change_from_str parse_f64 s =
     (case split_once CHR ''%'' s of
        Some (v, trailing) \<Rightarrow>
          if trailing \<noteq> [] then Inl ''trailing characters after '%' are not allowed''
          else if v = [] then Inl ''value is missing''
          else if starts_with_sign v
          then parse_or ''error parsing value'' AdjustProportion (parse_f64 v)
          else parse_or ''error parsing value'' SetProportion (parse_f64 v)
      | None \<Rightarrow>
          if s = [] then Inl ''value is missing''
          else if starts_with_sign s
          then parse_or ''error parsing value'' AdjustFixed (parse_i32 s)
          else parse_or ''error parsing value'' SetFixed (parse_i32 s))"

definition position_change_from_str ::
    "(string \<Rightarrow> real option) \<Rightarrow> string \<Rightarrow> string + PositionChange" where
  "position_change_from_str parse_f64 s =
     (case split_once CHR ''%'' s of
        Some (v, trailing) \<Rightarrow>
          if trailing \<noteq> [] then Inl ''trailing characters after '%' are not allowed''
          else if v = [] then Inl ''value is missing''
          else if starts_with_sign v
          then parse_or ''error parsing value'' PosAdjustProportion (parse_f64 v)
          else parse_or ''error parsing value'' PosSetProportion (parse_f64 v)
      | None \<Rightarrow>
          if s = [] then Inl ''value is missing''
          else if starts_with_sign s
          then parse_or ''error parsing value'' PosAdjustFixed (parse_f64 s)
          else parse_or ''error parsing value'' PosSetFixed (parse_f64 s))"

definition layout_switch_target_from_str :: "string \<Rightarrow> string + LayoutSwitchTarget" where
  "layout_switch_target_from_str s =
     (if s = ''next'' then Inr LayoutNext
      else if s = ''prev'' then Inr LayoutPrev
      else parse_or ''invalid layout action, can be \"next\", \"prev\" or a layout index''
             (\<lambda>n. LayoutIndex (of_nat n)) (parse_unsigned 8 s))"

definition column_display_from_str :: "string \<Rightarrow> string + ColumnDisplay" where
  "column_display_from_str s =
     (if s = ''normal'' then Inr DisplayNormal
      else if s = ''tabbed'' then Inr DisplayTabbed
      else Inl ''invalid column display, can be \"normal\" or \"tabbed\"'')"

definition transform_from_str :: "string \<Rightarrow> string + Transform" where
  "transform_from_str s =
     (if s = ''normal'' then Inr TNormal
      else if s = ''90'' then Inr T90
      else if s = ''180'' then Inr T180
      else if s = ''270'' then Inr T270
      else if s = ''flipped'' then Inr TFlipped
      else if s = ''flipped-90'' then Inr TFlipped90
      else if s = ''flipped-180'' then Inr TFlipped180
      else if s = ''flipped-270'' then Inr TFlipped270
      else Inl (''invalid transform, can be \"90\", \"180\", \"270\", '' @
                ''\"flipped\", \"flipped-90\", \"flipped-180\" or \"flipped-270\"''))"

definition layer_from_str :: "string \<Rightarrow> string + Layer" where
  "layer_from_str s =
     (if s = ''background'' then Inr Background
      else if s = ''bottom'' then Inr Bottom
      else if s = ''top'' then Inr Top
      else if s = ''overlay'' then Inr Overlay
      else Inl ''invalid layer, can be \"background\", \"bottom\", \"top\" or \"overlay\"'')"

definition configured_mode_from_str ::
    "(string \<Rightarrow> real option) \<Rightarrow> string \<Rightarrow> string + ConfiguredMode" where
  "configured_mode_from_str parse_f64 s =
     (case split_once CHR ''x'' s of
        None \<Rightarrow> Inl ''no 'x' separator found''
      | Some (w, rest) \<Rightarrow>
          (let (h, r) = (case split_once CHR ''@'' rest of
                           Some (h, r) \<Rightarrow> (h, Some r)
                         | None \<Rightarrow> (rest, None))
           in case parse_unsigned 16 w of
                None \<Rightarrow> Inl ''error parsing width''
              | Some w' \<Rightarrow>
                  (case parse_unsigned 16 h of
                     None \<Rightarrow> Inl ''error parsing height''
                   | Some h' \<Rightarrow>
                       (case r of
                          None \<Rightarrow> Inr \<lparr>mode_width = of_nat w', mode_height = of_nat h',
                                       refresh = None\<rparr>
                        | Some r' \<Rightarrow>
                            parse_or ''error parsing refresh rate''
                              (\<lambda>f. \<lparr>mode_width = of_nat w', mode_height = of_nat h',
                                    refresh = Some f\<rparr>)
                              (parse_f64 r')))))"

definition mode_to_set_from_str ::
    "(string \<Rightarrow> real option) \<Rightarrow> string \<Rightarrow> string + ModeToSet" where
  "mode_to_set_from_str parse_f64 s =
     (if eq_ignore_ascii_case s ''auto'' then Inr ModeAutomatic
      else case configured_mode_from_str parse_f64 s of
             Inl e \<Rightarrow> Inl e
           | Inr mode \<Rightarrow> Inr (ModeSpecific mode))"

definition hsync_polarity_from_str :: "string \<Rightarrow> string + HSyncPolarity" where
  "hsync_polarity_from_str s =
     (if s = ''+hsync'' then Inr PHSync
      else if s = ''-hsync'' then Inr NHSync
      else Inl ''invalid horizontal sync polarity, can be \"+hsync\" or \"-hsync'')"

definition vsync_polarity_from_str :: "string \<Rightarrow> string + VSyncPolarity" where
  "vsync_polarity_from_str s =
     (if s = ''+vsync'' then Inr PVSync
      else if s = ''-vsync'' then Inr NVSync
      else Inl ''invalid vertical sync polarity, can be \"+vsync\" or \"-vsync'')"

definition scale_to_set_from_str ::
    "(string \<Rightarrow> real option) \<Rightarrow> string \<Rightarrow> string + ScaleToSet" where
  "scale_to_set_from_str parse_f64 s =
     (if eq_ignore_ascii_case s ''auto'' then Inr ScaleAutomatic
      else parse_or ''error parsing scale'' ScaleSpecific (parse_f64 s))"


section \<open>Validation of output actions\<close>

datatype ValidateError =
    NotBelow string u16 string u16
  | NotPositive string u16
  | RefreshMissing
  | RefreshNotPositive real

definition ensure :: "bool \<Rightarrow> ValidateError \<Rightarrow> (ValidateError + unit) \<Rightarrow> ValidateError + unit" where
  "ensure cond e k = (if cond then k else Inl e)"

fun output_action_validate :: "OutputAction \<Rightarrow> ValidateError + unit" where
  "output_action_validate (OutputModeline m) =
     ensure (hdisplay m < hsync_start m)
       (NotBelow ''hdisplay'' (hdisplay m) ''hsync_start'' (hsync_start m)) (
     ensure (hsync_start m < hsync_end m)
       (NotBelow ''hsync_start'' (hsync_start m) ''hsync_end'' (hsync_end m)) (
     ensure (hsync_end m < htotal m)
       (NotBelow ''hsync_end'' (hsync_end m) ''htotal'' (htotal m)) (
     ensure (0 < htotal m) (NotPositive ''htotal'' (htotal m)) (
     ensure (vdisplay m < vsync_start m)
       (NotBelow ''vdisplay'' (vdisplay m) ''vsync_start'' (vsync_start m)) (
     ensure (vsync_start m < vsync_end m)
       (NotBelow ''vsync_start'' (vsync_start m) ''vsync_end'' (vsync_end m)) (
     ensure (vsync_end m < vtotal m)
       (NotBelow ''vsync_end'' (vsync_end m) ''vtotal'' (vtotal m)) (
     ensure (0 < vtotal m) (NotPositive ''vtotal'' (vtotal m)) (Inr ()))))))))"
| "output_action_validate (OutputCustomMode m) =
     (case refresh m of
        None \<Rightarrow> Inl RefreshMissing
      | Some r \<Rightarrow> if r \<le> 0 then Inl (RefreshNotPositive r) else Inr ())"
| "output_action_validate _ = Inr ()"

section \<open>Round trips\<close>

text \<open>The decimal notation the parsers are for.\<close>

fun show_nat :: "nat \<Rightarrow> string" where
  "show_nat n = (if n < 10 then [char_of (48 + n)] else show_nat (n div 10) @ [char_of (48 + n mod 10)])"

declare show_nat.simps [simp del]

lemma digits_val_append:
  "digits_val acc (s @ t) = Option.bind (digits_val acc s) (\<lambda>a. digits_val a t)"
  by (induction acc s rule: digits_val.induct) simp_all

lemma of_char_digit: "d < 10 \<Longrightarrow> (of_char (char_of (48 + d)) :: nat) = 48 + d"
  by simp

lemma digits_val_show_nat: "digits_val 0 (show_nat n) = Some n"
proof (induction n rule: show_nat.induct)
  case (1 n)
  show ?case
  proof (cases "n < 10")
    case True
    then show ?thesis by (simp add: show_nat.simps [of n] is_digit_def)
  next
    case False
    have "n mod 10 < 10" by simp
    with 1 False show ?thesis
      by (simp add: show_nat.simps [of n] digits_val_append is_digit_def)
  qed
qed

lemma show_nat_digits: "c \<in> set (show_nat n) \<Longrightarrow> is_digit c"
proof (induction n rule: show_nat.induct)
  case (1 n)
  have "n mod 10 < 10" by simp
  with 1 show ?case
    by (cases "n < 10") (auto simp: show_nat.simps [of n] is_digit_def)
qed

lemma show_nat_not_Nil [simp]: "show_nat n \<noteq> []"
  by (simp add: show_nat.simps [of n])

lemma parse_nat_show_nat [simp]: "parse_nat (show_nat n) = Some n"
  by (simp add: parse_nat_def digits_val_show_nat)

lemma show_nat_hd:
  obtains c cs where "show_nat n = c # cs" "is_digit c"
proof (cases "show_nat n")
  case Nil
  then show ?thesis by simp
next
  case (Cons c cs)
  then show ?thesis using that show_nat_digits [of c n] by simp
qed

lemma digit_not_sign: "is_digit c \<Longrightarrow> c \<noteq> CHR ''-''" "is_digit c \<Longrightarrow> c \<noteq> CHR ''+''"
    "is_digit c \<Longrightarrow> c \<noteq> CHR ''%''" "is_digit c \<Longrightarrow> c \<noteq> CHR ''x''" "is_digit c \<Longrightarrow> c \<noteq> CHR ''@''"
  by (auto simp: is_digit_def)

lemma starts_with_sign_show_nat [simp]: "\<not> starts_with_sign (show_nat n)"
  by (rule show_nat_hd [of n]) (simp add: digit_not_sign)

lemma parse_unsigned_show_nat [simp]: "n < 2 ^ w \<Longrightarrow> parse_unsigned w (show_nat n) = Some n"
  using parse_nat_show_nat [of n]
  by (rule_tac show_nat_hd [of n]) (simp add: parse_unsigned_def digit_not_sign)

lemma parse_i32_show_nat [simp]: "n < 2 ^ 31 \<Longrightarrow> parse_i32 (show_nat n) = Some (int n)"
  using parse_nat_show_nat [of n]
  by (rule_tac show_nat_hd [of n]) (simp add: parse_i32_def digit_not_sign)

definition show_int :: "int \<Rightarrow> string" where
  "show_int i = (if 0 \<le> i then ''+'' @ show_nat (nat i) else ''-'' @ show_nat (nat (- i)))"

lemma parse_i32_show_int [simp]:
  "- (2 ^ 31) \<le> i \<Longrightarrow> i < 2 ^ 31 \<Longrightarrow> parse_i32 (show_int i) = Some i"
  by (simp add: show_int_def parse_i32_def)

lemma split_once_absent: "c \<notin> set s \<Longrightarrow> split_once c s = None"
  by (induction s) auto

lemma split_once_first: "c \<notin> set s \<Longrightarrow> split_once c (s @ c # t) = Some (s, t)"
  by (induction s) auto

text \<open>The text of a size change, given a notation for floating-point numbers.\<close>

fun show_size_change :: "(real \<Rightarrow> string) \<Rightarrow> SizeChange \<Rightarrow> string" where
  "show_size_change show_f64 (SetFixed n) = show_nat (nat n)"
| "show_size_change show_f64 (AdjustFixed n) = show_int n"
| "show_size_change show_f64 (SetProportion p) = show_f64 p @ ''%''"
| "show_size_change show_f64 (AdjustProportion p) =
     (if 0 \<le> p then ''+'' @ show_f64 p else show_f64 p) @ ''%''"

fun size_change_range :: "SizeChange \<Rightarrow> bool" where
  "size_change_range (SetFixed n) = (0 \<le> n \<and> n < 2 ^ 31)"
| "size_change_range (AdjustFixed n) = (- (2 ^ 31) \<le> n \<and> n < 2 ^ 31)"
| "size_change_range (SetProportion p) = (0 \<le> p)"
| "size_change_range (AdjustProportion p) = True"

text \<open>A text of a floating-point number that its parser reads back: a minus sign exactly on a negative
  number, an optional plus sign, no percent sign.\<close>

definition f64_text :: "(string \<Rightarrow> real option) \<Rightarrow> string \<Rightarrow> real \<Rightarrow> bool" where
  "f64_text parse_f64 s p \<longleftrightarrow>
     parse_f64 s = Some p \<and> CHR ''%'' \<notin> set s \<and> s \<noteq> [] \<and> starts_with_sign s = (p < 0) \<and>
     (0 \<le> p \<longrightarrow> parse_f64 (CHR ''+'' # s) = Some p)"

text \<open>C38. Every size change can be written and read back: absolute and relative pixel amounts over the
  whole 32-bit range, and percentages, are parsed into exactly the change that was printed. Only a
  negative absolute amount has no text, because a leading sign means a relative change.\<close>

theorem size_change_roundtrip:
  assumes "size_change_range c"
    and "\<And>p. c = SetProportion p \<or> c = AdjustProportion p \<Longrightarrow> f64_text parse_f64 (show_f64 p) p"
  shows "size_change_from_str parse_f64 (show_size_change show_f64 c) = Inr c"
proof -
  have no: "CHR ''%'' \<notin> set (show_nat n)" for n
    using show_nat_digits [of "CHR ''%''" n] by (auto simp: is_digit_def)
  have no_int: "CHR ''%'' \<notin> set (show_int n)" "show_int n \<noteq> []" "starts_with_sign (show_int n)" for n
    using no by (simp_all add: show_int_def)
  have plus: "split_once CHR ''%'' (CHR ''+'' # show_f64 p @ ''%'') = Some (CHR ''+'' # show_f64 p, [])"
    if "CHR ''%'' \<notin> set (show_f64 p)" for p
    using split_once_first [of "CHR ''%''" "CHR ''+'' # show_f64 p" "[]"] that by simp
  show ?thesis
    using assms
    by (cases c) (auto simp: size_change_from_str_def parse_or_def split_once_absent split_once_first
        no no_int f64_text_def plus)
qed

theorem size_change_roundtrip_witness:
  "size_change_from_str (\<lambda>s. if s = ''-2.5'' then Some (- 5 / 2) else None)
     (show_size_change (\<lambda>_. ''-2.5'') (AdjustProportion (- 5 / 2))) = Inr (AdjustProportion (- 5 / 2))"
  by (rule size_change_roundtrip) (simp_all add: f64_text_def)

text \<open>C39. A mode written as width, height and an optional refresh rate (\<open>WxH\<close> or \<open>WxH@R\<close>) is parsed
  back exactly, for every 16-bit width and height.\<close>

theorem configured_mode_roundtrip:
  assumes "\<And>r. refresh m = Some r \<Longrightarrow> parse_f64 (show_f64 r) = Some r"
  shows "configured_mode_from_str parse_f64
       (show_nat (unat (mode_width m)) @ ''x'' @ show_nat (unat (mode_height m)) @
        (case refresh m of None \<Rightarrow> [] | Some r \<Rightarrow> ''@'' @ show_f64 r)) = Inr m"
proof -
  have nx: "CHR ''x'' \<notin> set (show_nat n)" and na: "CHR ''@'' \<notin> set (show_nat n)" for n
    using show_nat_digits [of "CHR ''x''" n] show_nat_digits [of "CHR ''@''" n]
    by (auto simp: is_digit_def)
  have b: "unat w < 2 ^ 16" for w :: u16 using unsigned_less [of w] by simp
  show ?thesis
    using b [of "mode_width m"] b [of "mode_height m"]
    by (cases "refresh m")
       (simp_all add: configured_mode_from_str_def split_once_first split_once_absent nx na
          parse_or_def assms)
qed

theorem configured_mode_roundtrip_witness:
  "configured_mode_from_str (\<lambda>s. if s = ''60'' then Some 60 else None)
     (show_nat (unat (1920 :: u16)) @ ''x'' @ show_nat (unat (1080 :: u16)) @ ''@'' @ ''60'') =
   Inr \<lparr>mode_width = 1920, mode_height = 1080, refresh = Some 60\<rparr>"
  using configured_mode_roundtrip [of "\<lparr>mode_width = 1920, mode_height = 1080, refresh = Some 60\<rparr>"
      "\<lambda>s. if s = ''60'' then Some 60 else None" "\<lambda>_. ''60''"] by simp

text \<open>A timestamp on the wire and the duration it stands for are the same amount of time: a
  duration survives the trip unchanged, and a timestamp with more than a second's worth of
  nanoseconds is normalised without losing any.\<close>

theorem timestamp_duration:
  "(duration_wf d \<longrightarrow> duration_from_timestamp (timestamp_from_duration d) = Some d) \<and>
   (duration_from_timestamp t = Some d' \<longrightarrow>
      duration_wf d' \<and>
      unat (as_secs d') * 1000000000 + unat (subsec_nanos d') =
      unat (secs t) * 1000000000 + unat (nanos t))"
proof -
  have split: "unat (s + word_of_nat (unat n div 1000000000)) * 1000000000 +
        unat (word_of_nat (unat n mod 1000000000) :: u32) = unat s * 1000000000 + unat n \<and>
      unat (word_of_nat (unat n mod 1000000000) :: u32) < 1000000000"
    if "unat s + unat n div 1000000000 < 2 ^ 64" for s :: u64 and n :: u32
  proof -
    have "unat (word_of_nat (unat n mod 1000000000) :: u32) = unat n mod 1000000000"
      by (simp add: unat_of_nat)
    moreover have "unat (s + word_of_nat (unat n div 1000000000)) = unat s + unat n div 1000000000"
      using that by (simp add: unat_word_ariths unat_of_nat)
    ultimately show ?thesis using div_mult_mod_eq [of "unat n" 1000000000]
      by (simp add: add_mult_distrib)
  qed
  show ?thesis
    using split [of "secs t" "nanos t"]
    by (auto simp: duration_wf_def duration_from_timestamp_def timestamp_from_duration_def
        duration_new_def split: if_splits)
qed

theorem timestamp_duration_witness:
  "duration_from_timestamp (timestamp_from_duration \<lparr>as_secs = 3, subsec_nanos = 7\<rparr>) =
     Some \<lparr>as_secs = 3, subsec_nanos = 7\<rparr>"
  using timestamp_duration [of "\<lparr>as_secs = 3, subsec_nanos = 7\<rparr>"] by (simp add: duration_wf_def)

text \<open>C40. A custom modeline is accepted exactly when the four horizontal and the four vertical timings
  increase strictly; the separate checks that the totals are positive can never be the ones that
  fail.\<close>

theorem validate_modeline_iff:
  "(output_action_validate (OutputModeline m) = Inr () \<longleftrightarrow>
      hdisplay m < hsync_start m \<and> hsync_start m < hsync_end m \<and> hsync_end m < htotal m \<and>
      vdisplay m < vsync_start m \<and> vsync_start m < vsync_end m \<and> vsync_end m < vtotal m) \<and>
   output_action_validate (OutputModeline m) \<noteq> Inl (NotPositive what n)"
proof -
  have pos: "a < b \<Longrightarrow> 0 < b" for a b :: u16 using word_gt_0 by fastforce
  show ?thesis by (auto simp: ensure_def dest: pos)
qed

end
