(* ===== verification/Ipc_State.thy ===== *)
theory Ipc_State
  imports Ipc_Types
begin

text \<open>
  The client-side replica of the compositor state (\<^verbatim>\<open>niri-ipc/src/state.rs\<close>): six state parts,
  each with \<open>apply\<close> (consume an event or hand it back) and \<open>replicate\<close> (the events that rebuild
  the part from its default), and their composition \<open>EventStreamState\<close>.

  A \<^verbatim>\<open>HashMap<u64, T>\<close> is a map \<open>u64 \<rightharpoonup> T\<close>. Its iteration order is unspecified, so it is an
  argument \<open>ord\<close> that enumerates a set of keys; the locale \<open>hash_iter\<close> states that it lists every
  key once. A failed \<^verbatim>\<open>expect\<close> is \<^term>\<open>None\<close>; the inner \<^term>\<open>None\<close> of a result is an event that
  was consumed.
\<close>

type_synonym key_order = "u64 set \<Rightarrow> u64 list"

locale hash_iter =
  fixes ord :: key_order
  assumes ord_set: "set (ord A) = A"
    and ord_distinct: "distinct (ord A)"

interpretation sorted_order: hash_iter sorted_list_of_set
  by unfold_locales simp_all


section \<open>Operations of hash maps\<close>

definition hash_values :: "key_order \<Rightarrow> (u64 \<rightharpoonup> 'v) \<Rightarrow> 'v list" where
  "hash_values ord m = map (\<lambda>k. the (m k)) (ord (dom m))"

definition hash_collect :: "('v \<Rightarrow> u64) \<Rightarrow> 'v list \<Rightarrow> (u64 \<rightharpoonup> 'v)" where
  "hash_collect key vs = foldl (\<lambda>m v. m(key v \<mapsto> v)) Map.empty vs"

definition values_mut :: "('v \<Rightarrow> 'v) \<Rightarrow> (u64 \<rightharpoonup> 'v) \<Rightarrow> (u64 \<rightharpoonup> 'v)" where
  "values_mut f m = (\<lambda>k. map_option f (m k))"

text \<open>A loop over the values that updates the first match and breaks.\<close>

definition values_mut_first ::
    "key_order \<Rightarrow> ('v \<Rightarrow> bool) \<Rightarrow> ('v \<Rightarrow> 'v) \<Rightarrow> (u64 \<rightharpoonup> 'v) \<Rightarrow> (u64 \<rightharpoonup> 'v)" where
  "values_mut_first ord P f m =
     (case List.find (\<lambda>k. case m k of None \<Rightarrow> False | Some v \<Rightarrow> P v) (ord (dom m)) of
        None \<Rightarrow> m
      | Some k \<Rightarrow> m(k := map_option f (m k)))"

definition keyed :: "('v \<Rightarrow> u64) \<Rightarrow> (u64 \<rightharpoonup> 'v) \<Rightarrow> bool" where
  "keyed key m \<longleftrightarrow> (\<forall>k v. m k = Some v \<longrightarrow> key v = k)"


section \<open>The state parts\<close>

record WorkspacesState = workspaces :: "u64 \<rightharpoonup> Workspace"
record WindowsState = windows :: "u64 \<rightharpoonup> Window"
record KeyboardLayoutsState = keyboard_layouts :: "KeyboardLayouts option"
record OverviewState = is_open :: bool
record ConfigState = failed :: bool
record CastsState = casts :: "u64 \<rightharpoonup> Cast"

record EventStreamState =
  es_workspaces :: WorkspacesState
  es_windows :: WindowsState
  es_keyboard_layouts :: KeyboardLayoutsState
  es_overview :: OverviewState
  es_config :: ConfigState
  es_casts :: CastsState

definition workspaces_default :: WorkspacesState where
  "workspaces_default = \<lparr>workspaces = Map.empty\<rparr>"

definition windows_default :: WindowsState where
  "windows_default = \<lparr>windows = Map.empty\<rparr>"

definition keyboard_layouts_default :: KeyboardLayoutsState where
  "keyboard_layouts_default = \<lparr>keyboard_layouts = None\<rparr>"

definition overview_default :: OverviewState where
  "overview_default = \<lparr>is_open = False\<rparr>"

definition config_default :: ConfigState where
  "config_default = \<lparr>failed = False\<rparr>"

definition casts_default :: CastsState where
  "casts_default = \<lparr>casts = Map.empty\<rparr>"

definition es_default :: EventStreamState where
  "es_default =
     \<lparr>es_workspaces = workspaces_default, es_windows = windows_default,
      es_keyboard_layouts = keyboard_layouts_default, es_overview = overview_default,
      es_config = config_default, es_casts = casts_default\<rparr>"

type_synonym 's applied = "('s \<times> Event option) option"

subsection \<open>Workspaces\<close>

definition workspaces_replicate :: "key_order \<Rightarrow> WorkspacesState \<Rightarrow> Event list" where
  "workspaces_replicate ord s = [WorkspacesChanged (hash_values ord (workspaces s))]"

definition activate_ws :: "u64 \<Rightarrow> string option \<Rightarrow> bool \<Rightarrow> Workspace \<Rightarrow> Workspace" where
  "activate_ws i out focused ws =
     (let got_activated = (ws_id ws = i);
          ws1 = (if ws_output ws = out then ws\<lparr>ws_is_active := got_activated\<rparr> else ws)
      in if focused then ws1\<lparr>ws_is_focused := got_activated\<rparr> else ws1)"

fun workspaces_apply :: "Event \<Rightarrow> WorkspacesState \<Rightarrow> WorkspacesState applied" where
  "workspaces_apply (WorkspacesChanged wss) s =
     Some (s\<lparr>workspaces := hash_collect ws_id wss\<rparr>, None)"
| "workspaces_apply (WorkspaceUrgencyChanged i urgent) s =
     Some (s\<lparr>workspaces := values_mut
        (\<lambda>ws. if ws_id ws = i then ws\<lparr>ws_is_urgent := urgent\<rparr> else ws) (workspaces s)\<rparr>, None)"
| "workspaces_apply (WorkspaceActivated i focused) s =
     (case workspaces s i of
        None \<Rightarrow> None
      | Some ws \<Rightarrow>
          Some (s\<lparr>workspaces :=
                   values_mut (activate_ws i (ws_output ws) focused) (workspaces s)\<rparr>, None))"
| "workspaces_apply (WorkspaceActiveWindowChanged i w) s =
     (case workspaces s i of
        None \<Rightarrow> None
      | Some ws \<Rightarrow>
          Some (s\<lparr>workspaces := (workspaces s)(i \<mapsto> ws\<lparr>active_window_id := w\<rparr>)\<rparr>, None))"
| "workspaces_apply e s = Some (s, Some e)"

subsection \<open>Windows\<close>

definition windows_replicate :: "key_order \<Rightarrow> WindowsState \<Rightarrow> Event list" where
  "windows_replicate ord s = [WindowsChanged (hash_values ord (windows s))]"

fun apply_layout_changes ::
    "(u64 \<times> WindowLayout) list \<Rightarrow> (u64 \<rightharpoonup> Window) \<Rightarrow> (u64 \<rightharpoonup> Window) option" where
  "apply_layout_changes [] m = Some m"
| "apply_layout_changes ((i, update) # cs) m =
     (case m i of
        None \<Rightarrow> None
      | Some w \<Rightarrow> apply_layout_changes cs (m(i \<mapsto> w\<lparr>win_layout := update\<rparr>)))"

fun windows_apply :: "key_order \<Rightarrow> Event \<Rightarrow> WindowsState \<Rightarrow> WindowsState applied" where
  "windows_apply ord (WindowsChanged ws) s =
     Some (s\<lparr>windows := hash_collect win_id ws\<rparr>, None)"
| "windows_apply ord (WindowOpenedOrChanged w) s =
     (let m = (windows s)(win_id w \<mapsto> w);
          m' = (if win_is_focused w
                then values_mut (\<lambda>v. if win_id v \<noteq> win_id w
                                     then v\<lparr>win_is_focused := False\<rparr> else v) m
                else m)
      in Some (s\<lparr>windows := m'\<rparr>, None))"
| "windows_apply ord (WindowClosed i) s =
     (case windows s i of
        None \<Rightarrow> None
      | Some _ \<Rightarrow> Some (s\<lparr>windows := (windows s)(i := None)\<rparr>, None))"
| "windows_apply ord (WindowFocusChanged i) s =
     Some (s\<lparr>windows := values_mut (\<lambda>v. v\<lparr>win_is_focused := (Some (win_id v) = i)\<rparr>)
                        (windows s)\<rparr>, None)"
| "windows_apply ord (WindowFocusTimestampChanged i t) s =
     Some (s\<lparr>windows := values_mut_first ord (\<lambda>v. win_id v = i)
                        (\<lambda>v. v\<lparr>focus_timestamp := t\<rparr>) (windows s)\<rparr>, None)"
| "windows_apply ord (WindowUrgencyChanged i urgent) s =
     Some (s\<lparr>windows := values_mut_first ord (\<lambda>v. win_id v = i)
                        (\<lambda>v. v\<lparr>win_is_urgent := urgent\<rparr>) (windows s)\<rparr>, None)"
| "windows_apply ord (WindowLayoutsChanged changes) s =
     (case apply_layout_changes changes (windows s) of
        None \<Rightarrow> None
      | Some m \<Rightarrow> Some (s\<lparr>windows := m\<rparr>, None))"
| "windows_apply ord e s = Some (s, Some e)"

subsection \<open>Keyboard layouts, overview, configuration\<close>

definition keyboard_layouts_replicate :: "KeyboardLayoutsState \<Rightarrow> Event list" where
  "keyboard_layouts_replicate s =
     (case keyboard_layouts s of None \<Rightarrow> [] | Some k \<Rightarrow> [KeyboardLayoutsChanged k])"

fun keyboard_layouts_apply :: "Event \<Rightarrow> KeyboardLayoutsState \<Rightarrow> KeyboardLayoutsState applied" where
  "keyboard_layouts_apply (KeyboardLayoutsChanged k) s =
     Some (s\<lparr>keyboard_layouts := Some k\<rparr>, None)"
| "keyboard_layouts_apply (KeyboardLayoutSwitched i) s =
     (case keyboard_layouts s of
        None \<Rightarrow> None
      | Some k \<Rightarrow> Some (s\<lparr>keyboard_layouts := Some (k\<lparr>current_idx := i\<rparr>)\<rparr>, None))"
| "keyboard_layouts_apply e s = Some (s, Some e)"

definition overview_replicate :: "OverviewState \<Rightarrow> Event list" where
  "overview_replicate s = [OverviewOpenedOrClosed (is_open s)]"

fun overview_apply :: "Event \<Rightarrow> OverviewState \<Rightarrow> OverviewState applied" where
  "overview_apply (OverviewOpenedOrClosed b) s = Some (s\<lparr>is_open := b\<rparr>, None)"
| "overview_apply e s = Some (s, Some e)"

definition config_replicate :: "ConfigState \<Rightarrow> Event list" where
  "config_replicate s = [ConfigLoaded (failed s)]"

fun config_apply :: "Event \<Rightarrow> ConfigState \<Rightarrow> ConfigState applied" where
  "config_apply (ConfigLoaded b) s = Some (s\<lparr>failed := b\<rparr>, None)"
| "config_apply e s = Some (s, Some e)"

subsection \<open>Casts\<close>

definition casts_replicate :: "key_order \<Rightarrow> CastsState \<Rightarrow> Event list" where
  "casts_replicate ord s = [CastsChanged (hash_values ord (casts s))]"

fun casts_apply :: "Event \<Rightarrow> CastsState \<Rightarrow> CastsState applied" where
  "casts_apply (CastsChanged cs) s = Some (s\<lparr>casts := hash_collect stream_id cs\<rparr>, None)"
| "casts_apply (CastStartedOrChanged c) s =
     Some (s\<lparr>casts := (casts s)(stream_id c \<mapsto> c)\<rparr>, None)"
| "casts_apply (CastStopped i) s =
     (case casts s i of
        None \<Rightarrow> None
      | Some _ \<Rightarrow> Some (s\<lparr>casts := (casts s)(i := None)\<rparr>, None))"
| "casts_apply e s = Some (s, Some e)"

subsection \<open>The whole state\<close>

definition es_replicate :: "key_order \<Rightarrow> EventStreamState \<Rightarrow> Event list" where
  "es_replicate ord s =
     workspaces_replicate ord (es_workspaces s) @ windows_replicate ord (es_windows s) @
     keyboard_layouts_replicate (es_keyboard_layouts s) @ overview_replicate (es_overview s) @
     config_replicate (es_config s) @ casts_replicate ord (es_casts s)"

text \<open>
  The question mark operator: the next part is tried when the previous one handed the event back.
\<close>

definition try_part ::
    "('p \<Rightarrow> 'p applied) \<Rightarrow> ('s \<Rightarrow> 'p) \<Rightarrow> ('p \<Rightarrow> 's \<Rightarrow> 's) \<Rightarrow>
     (Event \<Rightarrow> 's \<Rightarrow> 's applied) \<Rightarrow> 's \<Rightarrow> 's applied" where
  "try_part app get put k s =
     (case app (get s) of
        None \<Rightarrow> None
      | Some (p, None) \<Rightarrow> Some (put p s, None)
      | Some (p, Some e) \<Rightarrow> k e (put p s))"

definition es_apply :: "key_order \<Rightarrow> Event \<Rightarrow> EventStreamState \<Rightarrow> EventStreamState applied" where
  "es_apply ord e0 =
     try_part (workspaces_apply e0) es_workspaces (\<lambda>p s. s\<lparr>es_workspaces := p\<rparr>) (\<lambda>e1.
     try_part (windows_apply ord e1) es_windows (\<lambda>p s. s\<lparr>es_windows := p\<rparr>) (\<lambda>e2.
     try_part (keyboard_layouts_apply e2) es_keyboard_layouts
       (\<lambda>p s. s\<lparr>es_keyboard_layouts := p\<rparr>) (\<lambda>e3.
     try_part (overview_apply e3) es_overview (\<lambda>p s. s\<lparr>es_overview := p\<rparr>) (\<lambda>e4.
     try_part (config_apply e4) es_config (\<lambda>p s. s\<lparr>es_config := p\<rparr>) (\<lambda>e5.
     try_part (casts_apply e5) es_casts (\<lambda>p s. s\<lparr>es_casts := p\<rparr>) (\<lambda>e6 s.
       Some (s, Some e6)))))))"


section \<open>The interface of a state part\<close>

text \<open>
  The trait \<^verbatim>\<open>EventStreamStatePart\<close> with the contract its documentation gives: \<open>repl\<close> replicates the
  state from default initialization, and an event that a part hands back has not changed it.
\<close>

definition play :: "(Event \<Rightarrow> 's \<Rightarrow> 's applied) \<Rightarrow> Event list \<Rightarrow> 's \<Rightarrow> 's option" where
  "play app = for_each (\<lambda>e s. map_option fst (app e s))"

lemma play_Nil [simp]: "play app [] s = Some s"
  by (simp add: play_def)

lemma play_Cons [simp]: "play app (e # es) s = map_option fst (app e s) \<bind> play app es"
  by (simp add: play_def)

lemma play_append: "play app (es @ fs) s = play app es s \<bind> play app fs"
  by (simp add: play_def for_each_append)

locale state_part =
  fixes init :: 's
    and app :: "Event \<Rightarrow> 's \<Rightarrow> 's applied"
    and repl :: "'s \<Rightarrow> Event list"
    and wf :: "'s \<Rightarrow> bool"
  assumes wf_init: "wf init"
    and wf_app: "wf s \<Longrightarrow> app e s = Some (s', r) \<Longrightarrow> wf s'"
    and app_ignored: "app e s = Some (s', Some e') \<Longrightarrow> s' = s \<and> e' = e"
    and play_repl: "wf s \<Longrightarrow> play app (repl s) init = Some s"
begin

lemma wf_play: "wf s \<Longrightarrow> play app es s = Some s' \<Longrightarrow> wf s'"
proof (induction es arbitrary: s)
  case Nil
  then show ?case by simp
next
  case (Cons e es)
  then obtain t r where "app e s = Some (t, r)" "play app es t = Some s'"
    by (auto simp: bind_eq_Some_conv)
  with Cons show ?case using wf_app by blast
qed

lemma late_join:
  assumes "wf s" and "play app es s = Some s'"
  shows "play app (repl s @ es) init = Some s'"
  using assms by (simp add: play_append play_repl)

lemma repl_init: "play app (repl init) init = Some init"
  by (rule play_repl) (rule wf_init)

end


section \<open>Facts about hash maps\<close>

lemma foldl_upd_map:
  assumes "\<And>k. k \<in> set ks \<Longrightarrow> key (f k) = k"
  shows "foldl (\<lambda>m v. m(key v \<mapsto> v)) m0 (map f ks) =
           (\<lambda>k. if k \<in> set ks then Some (f k) else m0 k)"
  using assms
proof (induction ks arbitrary: m0)
  case Nil
  then show ?case by simp
next
  case (Cons a ks)
  have "foldl (\<lambda>m v. m(key v \<mapsto> v)) (m0(key (f a) \<mapsto> f a)) (map f ks) =
      (\<lambda>k. if k \<in> set ks then Some (f k) else (m0(key (f a) \<mapsto> f a)) k)"
    by (rule Cons.IH) (simp add: Cons.prems)
  also have "\<dots> = (\<lambda>k. if k \<in> set (a # ks) then Some (f k) else m0 k)"
    using Cons.prems [of a] by (auto simp: fun_eq_iff)
  finally show ?case by (simp only: foldl_Cons list.map)
qed

lemma keyed_empty [simp]: "keyed key Map.empty"
  by (simp add: keyed_def)

lemma keyed_upd [intro!]: "keyed key m \<Longrightarrow> key v = k \<Longrightarrow> keyed key (m(k \<mapsto> v))"
  by (simp add: keyed_def)

lemma keyed_del [intro!]: "keyed key m \<Longrightarrow> keyed key (m(k := None))"
  by (simp add: keyed_def)

lemma keyedD: "keyed key m \<Longrightarrow> m k = Some v \<Longrightarrow> key v = k"
  by (simp add: keyed_def)

lemma keyed_foldl: "keyed key m \<Longrightarrow> keyed key (foldl (\<lambda>m v. m(key v \<mapsto> v)) m vs)"
  by (induction vs arbitrary: m) auto

lemma keyed_collect [simp]: "keyed key (hash_collect key vs)"
  by (simp add: hash_collect_def keyed_foldl)

lemma keyed_values_mut [intro!]:
  "keyed key m \<Longrightarrow> (\<And>v. key (f v) = key v) \<Longrightarrow> keyed key (values_mut f m)"
  by (auto simp: keyed_def values_mut_def)

lemma keyed_values_mut_first [intro!]:
  "keyed key m \<Longrightarrow> (\<And>v. key (f v) = key v) \<Longrightarrow> keyed key (values_mut_first ord P f m)"
  by (auto simp: keyed_def values_mut_first_def split: option.splits if_splits)

text \<open>Where keys agree with ids, the loop with a break is a lookup.\<close>

lemma values_mut_first_keyed:
  assumes "hash_iter ord" and "keyed key m"
  shows "values_mut_first ord (\<lambda>v. key v = i) f m = m(i := map_option f (m i))"
proof -
  let ?Q = "\<lambda>k. case m k of None \<Rightarrow> False | Some v \<Rightarrow> key v = i"
  have Q: "?Q k \<longleftrightarrow> k = i \<and> i \<in> dom m" for k
    using assms(2) by (auto simp: keyed_def split: option.splits)
  show ?thesis
  proof (cases "List.find ?Q (ord (dom m))")
    case None
    then have "i \<notin> dom m"
      using Q hash_iter.ord_set [OF assms(1)] by (auto simp: find_None_iff)
    then show ?thesis using None by (auto simp: values_mut_first_def dom_def)
  next
    case (Some k)
    then have "k = i" using Q by (auto simp: find_Some_iff)
    then show ?thesis using Some by (simp add: values_mut_first_def)
  qed
qed

context hash_iter
begin

lemma collect_values: "keyed key m \<Longrightarrow> hash_collect key (hash_values ord m) = m"
  unfolding hash_collect_def hash_values_def
  by (subst foldl_upd_map) (auto simp: keyed_def ord_set fun_eq_iff domIff)

end

section \<open>Every part replicates\<close>

definition ws_wf :: "WorkspacesState \<Rightarrow> bool" where
  "ws_wf s \<longleftrightarrow> keyed ws_id (workspaces s)"

definition win_wf :: "WindowsState \<Rightarrow> bool" where
  "win_wf s \<longleftrightarrow> keyed win_id (windows s)"

definition casts_wf :: "CastsState \<Rightarrow> bool" where
  "casts_wf s \<longleftrightarrow> keyed stream_id (casts s)"

definition es_wf :: "EventStreamState \<Rightarrow> bool" where
  "es_wf s \<longleftrightarrow> ws_wf (es_workspaces s) \<and> win_wf (es_windows s) \<and> casts_wf (es_casts s)"

lemma apply_layout_changes_keyed:
  "keyed win_id m \<Longrightarrow> apply_layout_changes cs m = Some m' \<Longrightarrow> keyed win_id m'"
proof (induction cs m rule: apply_layout_changes.induct)
  case (1 m)
  then show ?case by simp
next
  case (2 i u cs m)
  then obtain w where w: "m i = Some w"
    and rest: "apply_layout_changes cs (m(i \<mapsto> w\<lparr>win_layout := u\<rparr>)) = Some m'"
    by (auto split: option.splits)
  have "win_id (w\<lparr>win_layout := u\<rparr>) = i"
    using keyedD [OF "2.prems"(1) w] by simp
  then have "keyed win_id (m(i \<mapsto> w\<lparr>win_layout := u\<rparr>))"
    by (rule keyed_upd [OF "2.prems"(1)])
  with "2.IH" [OF w] rest show ?case by blast
qed

lemma activate_ws_id [simp]: "ws_id (activate_ws i out f ws) = ws_id ws"
  by (simp add: activate_ws_def Let_def)

interpretation overview_part: state_part overview_default overview_apply overview_replicate "\<lambda>_. True"
proof (unfold_locales, goal_cases)
  case (3 e s s' e')
  then show ?case by (cases e) auto
next
  case (4 s)
  then show ?case by (simp add: overview_replicate_def overview_default_def)
qed simp_all

interpretation config_part: state_part config_default config_apply config_replicate "\<lambda>_. True"
proof (unfold_locales, goal_cases)
  case (3 e s s' e')
  then show ?case by (cases e) auto
next
  case (4 s)
  then show ?case by (simp add: config_replicate_def config_default_def)
qed simp_all

interpretation keyboard_part:
  state_part keyboard_layouts_default keyboard_layouts_apply keyboard_layouts_replicate "\<lambda>_. True"
proof (unfold_locales, goal_cases)
  case (3 e s s' e')
  then show ?case by (cases e) (auto split: option.splits)
next
  case (4 s)
  then show ?case
    by (cases "keyboard_layouts s")
       (simp_all add: keyboard_layouts_replicate_def keyboard_layouts_default_def)
qed simp_all

sublocale hash_iter \<subseteq> workspaces_part:
  state_part workspaces_default workspaces_apply "workspaces_replicate ord" ws_wf
proof (unfold_locales, goal_cases)
  case 1
  then show ?case by (simp add: ws_wf_def workspaces_default_def)
next
  case (2 s e s' r)
  then show ?case by (cases e; auto simp: ws_wf_def split: option.splits; blast dest: keyedD)
next
  case (3 e s s' e')
  then show ?case by (cases e) (auto split: option.splits)
next
  case (4 s)
  then show ?case
    by (simp add: workspaces_replicate_def workspaces_default_def ws_wf_def collect_values)
qed

sublocale hash_iter \<subseteq> windows_part:
  state_part windows_default "windows_apply ord" "windows_replicate ord" win_wf
proof (unfold_locales, goal_cases)
  case 1
  then show ?case by (simp add: win_wf_def windows_default_def)
next
  case (2 s e s' r)
  then show ?case
    by (cases e) (auto simp: win_wf_def Let_def split: option.splits if_splits
                       dest: apply_layout_changes_keyed)
next
  case (3 e s s' e')
  then show ?case by (cases e) (auto split: option.splits simp: Let_def)
next
  case (4 s)
  then show ?case
    by (simp add: windows_replicate_def windows_default_def win_wf_def collect_values)
qed

sublocale hash_iter \<subseteq> casts_part:
  state_part casts_default casts_apply "casts_replicate ord" casts_wf
proof (unfold_locales, goal_cases)
  case 1
  then show ?case by (simp add: casts_wf_def casts_default_def)
next
  case (2 s e s' r)
  then show ?case by (cases e) (auto simp: casts_wf_def split: option.splits)
next
  case (3 e s s' e')
  then show ?case by (cases e) (auto split: option.splits)
next
  case (4 s)
  then show ?case
    by (simp add: casts_replicate_def casts_default_def casts_wf_def collect_values)
qed


lemmas es_apply_simps = es_apply_def try_part_def

sublocale hash_iter \<subseteq> stream:
  state_part es_default "es_apply ord" "es_replicate ord" es_wf
proof (unfold_locales, goal_cases)
  case 1
  then show ?case
    by (simp add: es_wf_def es_default_def workspaces_part.wf_init windows_part.wf_init
        casts_part.wf_init)
next
  case (2 s e s' r)
  then show ?case
    by (auto simp: es_wf_def es_apply_simps
        dest: workspaces_part.wf_app windows_part.wf_app casts_part.wf_app
        split: option.splits prod.splits)
next
  case (3 e s s' e')
  then show ?case
    by (auto simp: es_apply_simps
        dest!: workspaces_part.app_ignored windows_part.app_ignored casts_part.app_ignored
          keyboard_part.app_ignored overview_part.app_ignored config_part.app_ignored
        split: option.splits prod.splits)
next
  case (4 s)
  then show ?case
    by (cases s)
       (simp add: es_wf_def ws_wf_def win_wf_def casts_wf_def es_default_def es_replicate_def
         workspaces_replicate_def windows_replicate_def keyboard_layouts_replicate_def
         overview_replicate_def config_replicate_def casts_replicate_def es_apply_simps
         workspaces_default_def windows_default_def keyboard_layouts_default_def
         overview_default_def config_default_def casts_default_def collect_values
         split: option.split)
qed

context hash_iter
begin

lemma stream_late_join:
  "es_wf s \<Longrightarrow> play (es_apply ord) es s = Some s' \<Longrightarrow>
     play (es_apply ord) (es_replicate ord s @ es) es_default = Some s'"
  by (rule stream.late_join)

lemma stream_wf_play: "es_wf s \<Longrightarrow> play (es_apply ord) es s = Some s' \<Longrightarrow> es_wf s'"
  by (rule stream.wf_play)

end




text \<open>C7. A client that connects at any moment is brought up to date by the replication events:
  playing them from the default state gives exactly the server's state, and playing the events that
  follow keeps the two equal, whatever the iteration order of the hash maps.\<close>

theorem replicate_then_follow:
  assumes "hash_iter ord" and "es_wf s" and "play (es_apply ord) es s = Some s'"
  shows "play (es_apply ord) (es_replicate ord s @ es) es_default = Some s'"
  using hash_iter.stream_late_join [OF assms(1)] assms(2,3) by blast


text \<open>An event is handed back by the state exactly when it is a screenshot notification, which no
  part of the state takes, and then the state is unchanged.\<close>

theorem es_apply_handed_back:
  "es_apply ord e s = Some (s', Some e') \<longleftrightarrow> s' = s \<and> e' = e \<and> (\<exists>p. e = ScreenshotCaptured p)"
  by (cases e) (auto simp: es_apply_simps Let_def split: option.splits)

theorem replicate_then_follow_witness:
  "play (es_apply sorted_list_of_set)
     (es_replicate sorted_list_of_set es_default @ [OverviewOpenedOrClosed True]) es_default =
   Some (es_default\<lparr>es_overview := \<lparr>is_open = True\<rparr>\<rparr>)"
proof (rule replicate_then_follow [OF sorted_order.hash_iter_axioms])
  show "es_wf es_default"
    by (simp add: es_wf_def ws_wf_def win_wf_def casts_wf_def keyed_def es_default_def
        workspaces_default_def windows_default_def casts_default_def)
  show "play (es_apply sorted_list_of_set) [OverviewOpenedOrClosed True] es_default =
      Some (es_default\<lparr>es_overview := \<lparr>is_open = True\<rparr>\<rparr>)"
    by (simp add: es_apply_simps)
qed

end
