(* ===== verification/Ipc_Server.thy ===== *)
theory Ipc_Server
  imports Ipc_State "HOL-Library.Multiset"
begin

text \<open>
  The compositor side of the event stream (\<^verbatim>\<open>src/ipc/server.rs\<close>): the diffing refreshes that
  compare the layout with the replicated state and emit the events that bring it up to date, the
  fan-out of events to the connected clients, and the admission of a new client.

  The bounded channel of a client comes from the crate \<^verbatim>\<open>async_channel\<close>: a client is a channel
  state of some type \<open>'c\<close>, and \<open>try_send\<close> is an argument of the operations that call it. What
  the layout, the windows and the casts expose to the server (\<^verbatim>\<open>Layout::workspaces()\<close>,
  \<^verbatim>\<open>Layout::with_windows()\<close>, the casting state) is given as records of exactly the values the
  server reads.
\<close>

section \<open>What the server reads\<close>

record IpcWs =
  iw_id :: u64
  iw_name :: "string option"
  iw_is_urgent :: bool
  iw_active_window :: "u64 option"

record IpcMon =
  im_output_name :: string
  im_workspaces :: "IpcWs list"
  im_active_workspace_idx :: nat

datatype IpcMonitorSet =
    MonitorsNormal "IpcMon list" nat
  | MonitorsNoOutputs "IpcWs list"

fun layout_workspaces :: "IpcMonitorSet \<Rightarrow> (IpcMon option \<times> nat \<times> IpcWs) list" where
  "layout_workspaces (MonitorsNormal mons active_monitor_idx) =
     concat (map (\<lambda>mon. map (\<lambda>(idx, ws). (Some mon, idx, ws)) (enumerate 0 (im_workspaces mon))) mons)"
| "layout_workspaces (MonitorsNoOutputs wss) =
     map (\<lambda>(idx, ws). (None, idx, ws)) (enumerate 0 wss)"

text \<open>The result is \<^term>\<open>None\<close> when an index is out of range, where the code panics.\<close>

fun layout_active_workspace :: "IpcMonitorSet \<Rightarrow> IpcWs option option" where
  "layout_active_workspace (MonitorsNormal mons active_monitor_idx) =
     do { mon \<leftarrow> vec_get mons active_monitor_idx;
          ws \<leftarrow> vec_get (im_workspaces mon) (im_active_workspace_idx mon);
          Some (Some ws) }"
| "layout_active_workspace (MonitorsNoOutputs wss) = Some None"

record IpcMapped =
  mw_id :: u64
  mw_title :: "string option"
  mw_app_id :: "string option"
  mw_pid :: "i32 option"
  mw_is_focused :: bool
  mw_is_floating :: bool
  mw_is_urgent :: bool
  mw_focus_timestamp :: "Duration option"

type_synonym with_windows_item = "IpcMapped \<times> u64 option \<times> WindowLayout"


section \<open>The server and its clients\<close>

datatype send_result = SendOk | SendClosed | SendFull

type_synonym 'c try_send = "Event \<Rightarrow> 'c \<Rightarrow> send_result \<times> 'c"

record 'c IpcServer =
  event_streams :: "'c list"
  disconnected :: "'c list"
  event_stream_state :: EventStreamState

definition EVENT_STREAM_BUFFER_SIZE :: nat where
  "EVENT_STREAM_BUFFER_SIZE = 64"

text \<open>\<^verbatim>\<open>Vec::swap_remove\<close>: the last element takes the place of the removed one.\<close>

definition swap_remove :: "nat \<Rightarrow> 'a list \<Rightarrow> ('a \<times> 'a list) option" where
  "swap_remove i xs =
     (if i < length xs then Some (xs ! i, butlast (xs[i := last xs])) else None)"

definition send_event :: "'c try_send \<Rightarrow> Event \<Rightarrow> 'c IpcServer \<Rightarrow> 'c IpcServer option" where
  "send_event try_send e srv =
     (let sent = map (try_send e) (event_streams srv);
          streams = map snd sent;
          to_remove = filter (\<lambda>i. fst (sent ! i) \<noteq> SendOk) [0..<length sent]
      in for_each
           (\<lambda>idx srv. map_option
              (\<lambda>(stream, rest). srv\<lparr>event_streams := rest,
                                    disconnected := disconnected srv @ [stream]\<rparr>)
              (swap_remove idx (event_streams srv)))
           (rev to_remove) (srv\<lparr>event_streams := streams\<rparr>))"

text \<open>
  The loop \<^verbatim>\<open>for event in events { state.apply(event.clone()); server.send_event(event); }\<close> on one
  part of the state.
\<close>

definition emit_events ::
    "'c try_send \<Rightarrow> (Event \<Rightarrow> 'p \<Rightarrow> 'p applied) \<Rightarrow> (EventStreamState \<Rightarrow> 'p) \<Rightarrow>
     ('p \<Rightarrow> EventStreamState \<Rightarrow> EventStreamState) \<Rightarrow>
     Event list \<Rightarrow> 'c IpcServer \<Rightarrow> 'c IpcServer option" where
  "emit_events try_send app get put evs srv =
     for_each
       (\<lambda>e srv. do { (p, _) \<leftarrow> app e (get (event_stream_state srv));
                     send_event try_send e
                       (srv\<lparr>event_stream_state := put p (event_stream_state srv)\<rparr>) })
       evs srv"

text \<open>The initial burst and registration of a new event stream client.\<close>

definition add_event_stream ::
    "'c try_send \<Rightarrow> key_order \<Rightarrow> 'c \<Rightarrow> 'c IpcServer \<Rightarrow> 'c IpcServer option" where
  "add_event_stream try_send ord new_chan srv =
     do { c \<leftarrow> for_each
            (\<lambda>e c. case try_send e c of (SendOk, c') \<Rightarrow> Some c' | _ \<Rightarrow> None)
            (es_replicate ord (event_stream_state srv)) new_chan;
          Some (srv\<lparr>event_streams := event_streams srv @ [c]\<rparr>) }"


section \<open>Workspaces\<close>

definition saturating_idx :: "nat \<Rightarrow> u8" where
  "saturating_idx i = (if i + 1 < 256 then of_nat (i + 1) else 255)"

definition ws_is_active_on :: "IpcMon option \<Rightarrow> nat \<Rightarrow> bool" where
  "ws_is_active_on mon idx =
     (case mon of None \<Rightarrow> False | Some m \<Rightarrow> im_active_workspace_idx m = idx)"

definition make_ipc_workspace :: "u64 option \<Rightarrow> IpcMon option \<times> nat \<times> IpcWs \<Rightarrow> Workspace" where
  "make_ipc_workspace focused_ws_id item =
     (case item of (mon, idx, ws) \<Rightarrow>
        \<lparr>ws_id = iw_id ws, ws_idx = saturating_idx idx, ws_name = iw_name ws,
         ws_output = map_option im_output_name mon, ws_is_urgent = iw_is_urgent ws,
         ws_is_active = ws_is_active_on mon idx,
         ws_is_focused = (Some (iw_id ws) = focused_ws_id),
         active_window_id = iw_active_window ws\<rparr>)"

text \<open>
  One round of the loop over the workspaces: \<^term>\<open>None\<close> is the \<^verbatim>\<open>break\<close> that asks for a full
  \<^verbatim>\<open>WorkspacesChanged\<close>, otherwise the individual events of this workspace.
\<close>

definition ws_changes ::
    "(u64 \<rightharpoonup> Workspace) \<Rightarrow> u64 option \<Rightarrow> IpcMon option \<times> nat \<times> IpcWs \<Rightarrow> Event list option" where
  "ws_changes st focused_ws_id item =
     (case item of (mon, idx, ws) \<Rightarrow>
        (case st (iw_id ws) of
           None \<Rightarrow> None
         | Some ipc_ws \<Rightarrow>
             if ws_idx ipc_ws \<noteq> saturating_idx idx
                \<or> ws_name ipc_ws \<noteq> iw_name ws
                \<or> ws_output ipc_ws \<noteq> map_option im_output_name mon
             then None
             else Some (
               (if active_window_id ipc_ws \<noteq> iw_active_window ws
                then [WorkspaceActiveWindowChanged (iw_id ws) (iw_active_window ws)] else []) @
               (if iw_is_urgent ws \<noteq> ws_is_urgent ipc_ws
                then [WorkspaceUrgencyChanged (iw_id ws) (iw_is_urgent ws)] else []) @
               (if Some (iw_id ws) = focused_ws_id \<and> \<not> ws_is_focused ipc_ws
                then [WorkspaceActivated (iw_id ws) True]
                else if ws_is_active_on mon idx \<and> \<not> ws_is_active ipc_ws
                then [WorkspaceActivated (iw_id ws) False] else []))))"

fun ws_scan ::
    "(u64 \<rightharpoonup> Workspace) \<Rightarrow> u64 option \<Rightarrow> (IpcMon option \<times> nat \<times> IpcWs) list \<Rightarrow>
     u64 set \<Rightarrow> Event list \<Rightarrow> bool \<times> u64 set \<times> Event list" where
  "ws_scan st f [] seen events = (False, seen, events)"
| "ws_scan st f (item # items) seen events =
     (let seen' = insert (iw_id (snd (snd item))) seen
      in case ws_changes st f item of
           None \<Rightarrow> (True, seen', events)
         | Some evs \<Rightarrow> ws_scan st f items seen' (events @ evs))"

definition workspace_events ::
    "(u64 \<rightharpoonup> Workspace) \<Rightarrow> u64 option \<Rightarrow> (IpcMon option \<times> nat \<times> IpcWs) list \<Rightarrow> Event list" where
  "workspace_events st focused_ws_id items =
     (case ws_scan st focused_ws_id items {} [] of
        (need_workspaces_changed, seen, events) \<Rightarrow>
          if need_workspaces_changed \<or> \<not> dom st \<subseteq> seen
          then [WorkspacesChanged (map (make_ipc_workspace focused_ws_id) items)]
          else events)"

definition ipc_refresh_workspaces ::
    "'c try_send \<Rightarrow> IpcMonitorSet \<Rightarrow> 'c IpcServer \<Rightarrow> 'c IpcServer option" where
  "ipc_refresh_workspaces try_send lay srv =
     do { active \<leftarrow> layout_active_workspace lay;
          emit_events try_send workspaces_apply es_workspaces (\<lambda>p s. s\<lparr>es_workspaces := p\<rparr>)
            (workspace_events (workspaces (es_workspaces (event_stream_state srv)))
               (map_option iw_id active) (layout_workspaces lay))
            srv }"


section \<open>Windows\<close>

definition make_ipc_window :: "with_windows_item \<Rightarrow> Window" where
  "make_ipc_window item =
     (case item of (mapped, ws, lay) \<Rightarrow>
        \<lparr>win_id = mw_id mapped, title = mw_title mapped, app_id = mw_app_id mapped,
         win_pid = mw_pid mapped, workspace_id = ws, win_is_focused = mw_is_focused mapped,
         is_floating = mw_is_floating mapped, win_is_urgent = mw_is_urgent mapped,
         win_layout = lay,
         focus_timestamp = map_option timestamp_from_duration (mw_focus_timestamp mapped)\<rparr>)"

record win_scan =
  sc_events :: "Event list"
  sc_batch :: "(u64 \<times> WindowLayout) list"
  sc_seen :: "u64 set"
  sc_focused :: "u64 option"

text \<open>The closure passed to \<^verbatim>\<open>with_windows\<close>.\<close>

definition win_visit :: "(u64 \<rightharpoonup> Window) \<Rightarrow> with_windows_item \<Rightarrow> win_scan \<Rightarrow> win_scan" where
  "win_visit st item sc =
     (case item of (mapped, ws, lay) \<Rightarrow>
        let i = mw_id mapped;
            sc = sc\<lparr>sc_seen := insert i (sc_seen sc)\<rparr>;
            sc = (if mw_is_focused mapped then sc\<lparr>sc_focused := Some i\<rparr> else sc)
        in case st i of
             None \<Rightarrow> sc\<lparr>sc_events := sc_events sc @ [WindowOpenedOrChanged (make_ipc_window item)]\<rparr>
           | Some ipc_win \<Rightarrow>
               if workspace_id ipc_win \<noteq> ws \<or> is_floating ipc_win \<noteq> mw_is_floating mapped
                  \<or> title ipc_win \<noteq> mw_title mapped \<or> app_id ipc_win \<noteq> mw_app_id mapped
               then sc\<lparr>sc_events := sc_events sc @ [WindowOpenedOrChanged (make_ipc_window item)]\<rparr>
               else
                 let sc = (if win_layout ipc_win \<noteq> lay
                           then sc\<lparr>sc_batch := sc_batch sc @ [(i, lay)]\<rparr> else sc);
                     sc = (if mw_is_focused mapped \<and> \<not> win_is_focused ipc_win
                           then sc\<lparr>sc_events := sc_events sc @ [WindowFocusChanged (Some i)]\<rparr>
                           else sc);
                     ts = map_option timestamp_from_duration (mw_focus_timestamp mapped);
                     sc = (if ts \<noteq> focus_timestamp ipc_win
                           then sc\<lparr>sc_events := sc_events sc @ [WindowFocusTimestampChanged i ts]\<rparr>
                           else sc)
                 in if mw_is_urgent mapped \<noteq> win_is_urgent ipc_win
                    then sc\<lparr>sc_events :=
                             sc_events sc @ [WindowUrgencyChanged i (mw_is_urgent mapped)]\<rparr>
                    else sc)"

definition window_events ::
    "key_order \<Rightarrow> (u64 \<rightharpoonup> Window) \<Rightarrow> with_windows_item list \<Rightarrow> Event list" where
  "window_events ord st items =
     (let sc = fold (win_visit st) items
                 \<lparr>sc_events = [], sc_batch = [], sc_seen = {}, sc_focused = None\<rparr>;
          closed = map WindowClosed (filter (\<lambda>i. i \<notin> sc_seen sc) (ord (dom st)));
          ipc_focused = filter (\<lambda>i. win_is_focused (the (st i))) (ord (dom st))
      in sc_events sc @
         (if sc_batch sc \<noteq> [] then [WindowLayoutsChanged (sc_batch sc)] else []) @
         closed @
         (if sc_focused sc = None \<and> ipc_focused \<noteq> [] then [WindowFocusChanged None] else []))"

definition ipc_refresh_windows ::
    "'c try_send \<Rightarrow> key_order \<Rightarrow> with_windows_item list \<Rightarrow> 'c IpcServer \<Rightarrow> 'c IpcServer option" where
  "ipc_refresh_windows try_send ord items srv =
     emit_events try_send (windows_apply ord) es_windows (\<lambda>p s. s\<lparr>es_windows := p\<rparr>)
       (window_events ord (windows (es_windows (event_stream_state srv))) items) srv"


section \<open>Overview, keyboard layouts, configuration, screenshots\<close>

definition ipc_refresh_overview :: "'c try_send \<Rightarrow> bool \<Rightarrow> 'c IpcServer \<Rightarrow> 'c IpcServer option" where
  "ipc_refresh_overview try_send layout_open srv =
     (if is_open (es_overview (event_stream_state srv)) = layout_open then Some srv
      else emit_events try_send overview_apply es_overview (\<lambda>p s. s\<lparr>es_overview := p\<rparr>)
             [OverviewOpenedOrClosed layout_open] srv)"

definition ipc_keyboard_layouts_changed ::
    "'c try_send \<Rightarrow> KeyboardLayouts \<Rightarrow> 'c IpcServer \<Rightarrow> 'c IpcServer option" where
  "ipc_keyboard_layouts_changed try_send layouts srv =
     emit_events try_send keyboard_layouts_apply es_keyboard_layouts
       (\<lambda>p s. s\<lparr>es_keyboard_layouts := p\<rparr>) [KeyboardLayoutsChanged layouts] srv"

definition ipc_refresh_keyboard_layout_index ::
    "'c try_send \<Rightarrow> u8 \<Rightarrow> 'c IpcServer \<Rightarrow> 'c IpcServer option" where
  "ipc_refresh_keyboard_layout_index try_send idx srv =
     do { k \<leftarrow> keyboard_layouts (es_keyboard_layouts (event_stream_state srv));
          if current_idx k = idx then Some srv
          else emit_events try_send keyboard_layouts_apply es_keyboard_layouts
                 (\<lambda>p s. s\<lparr>es_keyboard_layouts := p\<rparr>) [KeyboardLayoutSwitched idx] srv }"

definition ipc_refresh_layout ::
    "'c try_send \<Rightarrow> key_order \<Rightarrow> IpcMonitorSet \<Rightarrow> with_windows_item list \<Rightarrow> bool \<Rightarrow>
     'c IpcServer \<Rightarrow> 'c IpcServer option" where
  "ipc_refresh_layout try_send ord lay items layout_open srv =
     do { srv \<leftarrow> ipc_refresh_workspaces try_send lay srv;
          srv \<leftarrow> ipc_refresh_windows try_send ord items srv;
          ipc_refresh_overview try_send layout_open srv }"

definition ipc_config_loaded ::
    "'c try_send \<Rightarrow> key_order \<Rightarrow> bool \<Rightarrow> 'c IpcServer \<Rightarrow> 'c IpcServer option" where
  "ipc_config_loaded try_send ord load_failed srv =
     emit_events try_send (es_apply ord) (\<lambda>s. s) (\<lambda>p s. p) [ConfigLoaded load_failed] srv"

definition ipc_screenshot_taken ::
    "'c try_send \<Rightarrow> key_order \<Rightarrow> string option \<Rightarrow> 'c IpcServer \<Rightarrow> 'c IpcServer option" where
  "ipc_screenshot_taken try_send ord path srv =
     emit_events try_send (es_apply ord) (\<lambda>s. s) (\<lambda>p s. p) [ScreenshotCaptured path] srv"

section \<open>Fan-out to the clients\<close>

lemma mset_swap_remove:
  assumes "i < length xs"
  shows "mset (butlast (xs[i := last xs])) = mset xs - {#xs ! i#}"
proof -
  let ?n = "length xs - 1"
  let ?ys = "xs[i := xs ! ?n, ?n := xs ! i]"
  from assms have ne: "xs \<noteq> []" by auto
  then have last: "last xs = xs ! ?n" by (simp add: last_conv_nth)
  have "mset ?ys = mset xs"
    using assms by (intro mset_swap) auto
  moreover have "?ys = butlast ?ys @ [xs ! i]"
  proof -
    have "?ys \<noteq> []" using ne by simp
    then have "?ys = butlast ?ys @ [last ?ys]" by simp
    moreover have "last ?ys = xs ! i"
      using ne by (simp add: last_conv_nth)
    ultimately show ?thesis by simp
  qed
  moreover have "butlast ?ys = butlast (xs[i := last xs])"
    by (simp add: last butlast_list_update)
  ultimately have "mset xs = mset (butlast (xs[i := last xs]) @ [xs ! i])"
    by metis
  then show ?thesis by simp
qed

lemma take_swap_remove:
  assumes "n < length xs"
  shows "take n (butlast (xs[n := last xs])) = take n xs"
  using assms by (auto simp: butlast_conv_take min_def)

definition drop_stream :: "nat \<Rightarrow> 'c IpcServer \<Rightarrow> 'c IpcServer option" where
  "drop_stream idx srv = map_option
      (\<lambda>(stream, rest). srv\<lparr>event_streams := rest,
                            disconnected := disconnected srv @ [stream]\<rparr>)
      (swap_remove idx (event_streams srv))"

lemma drop_streams:
  assumes "n \<le> length (event_streams srv)"
  shows "\<exists>srv'. for_each drop_stream (rev (filter P [0..<n])) srv = Some srv' \<and>
      event_stream_state srv' = event_stream_state srv \<and>
      disconnected srv' = disconnected srv @ map ((!) (event_streams srv)) (rev (filter P [0..<n])) \<and>
      mset (event_streams srv') =
        mset (event_streams srv) - mset (map ((!) (event_streams srv)) (filter P [0..<n]))"
  using assms
proof (induction n arbitrary: srv)
  case 0
  then show ?case by simp
next
  case (Suc n)
  let ?xs = "event_streams srv"
  show ?case
  proof (cases "P n")
    case False
    with Suc show ?thesis by simp
  next
    case True
    let ?rest = "butlast (?xs[n := last ?xs])"
    let ?srv = "srv\<lparr>event_streams := ?rest, disconnected := disconnected srv @ [?xs ! n]\<rparr>"
    have step: "drop_stream n srv = Some ?srv"
      using Suc.prems by (simp add: drop_stream_def swap_remove_def)
    have same: "map ((!) ?rest) (filter P [0..<n]) = map ((!) ?xs) (filter P [0..<n])"
    proof (rule map_cong [OF refl])
      fix i assume "i \<in> set (filter P [0..<n])"
      then have "i < n" by auto
      then have "?rest ! i = take n ?rest ! i" by simp
      also have "\<dots> = take n ?xs ! i" using Suc.prems take_swap_remove [of n ?xs] by simp
      finally show "?rest ! i = ?xs ! i" using \<open>i < n\<close> by simp
    qed
    have "n \<le> length (event_streams ?srv)" using Suc.prems by simp
    from Suc.IH [OF this] obtain srv' where
      "for_each drop_stream (rev (filter P [0..<n])) ?srv = Some srv'"
      "event_stream_state srv' = event_stream_state ?srv"
      "disconnected srv' = disconnected ?srv @ map ((!) ?rest) (rev (filter P [0..<n]))"
      "mset (event_streams srv') = mset ?rest - mset (map ((!) ?rest) (filter P [0..<n]))"
      by auto
    moreover have "mset ?rest = mset ?xs - {#?xs ! n#}"
      using Suc.prems by (intro mset_swap_remove) simp
    ultimately show ?thesis
      using True step same
      by (intro exI [of _ srv']) (simp add: rev_map [symmetric] diff_diff_add_mset add.commute)
  qed
qed

lemma send_event_drop: "send_event ts e srv =
    (let sent = map (ts e) (event_streams srv)
     in for_each drop_stream (rev (filter (\<lambda>i. fst (sent ! i) \<noteq> SendOk) [0..<length sent]))
          (srv\<lparr>event_streams := map snd sent\<rparr>))"
  by (simp add: send_event_def Let_def drop_stream_def [abs_def])

lemma picked_snd:
  fixes sent :: "('r \<times> 'c) list"
  shows "map ((!) (map snd sent)) (filter (\<lambda>i. P (fst (sent ! i))) [0..<length sent]) =
    map snd (filter (\<lambda>x. P (fst x)) sent)"
proof -
  have "map ((!) (map snd sent)) (filter (\<lambda>i. P (fst (sent ! i))) [0..<length sent]) =
      map snd (map ((!) sent) (filter (\<lambda>i. P (fst (sent ! i))) [0..<length sent]))"
    by (auto intro!: map_cong)
  also have "map ((!) sent) (filter (\<lambda>i. P (fst (sent ! i))) [0..<length sent]) =
      filter (\<lambda>x. P (fst x)) (map ((!) sent) [0..<length sent])"
    by (simp add: filter_map comp_def)
  finally show ?thesis by (simp only: map_nth)
qed

lemma mset_kept:
  fixes sent :: "('r \<times> 'c) list"
  shows "mset (map snd sent) - mset (map snd (filter (\<lambda>x. \<not> ok (fst x)) sent)) =
    mset (map snd (filter (ok \<circ> fst) sent))"
proof -
  have "mset sent = mset (filter (\<lambda>x. \<not> ok (fst x)) sent) + mset (filter (ok \<circ> fst) sent)"
    by (simp add: comp_def)
  then have "image_mset snd (mset sent) =
      image_mset snd (mset (filter (\<lambda>x. \<not> ok (fst x)) sent)) +
      image_mset snd (mset (filter (ok \<circ> fst) sent))"
    by (metis image_mset_union)
  then show ?thesis by simp
qed

text \<open>
  The fan-out never panics, keeps the replicated state, and the clients that remain are exactly
  those whose channel accepted the event.
\<close>

lemma send_event_correct:
  "\<exists>srv'. send_event ts e srv = Some srv' \<and> event_stream_state srv' = event_stream_state srv \<and>
     mset (event_streams srv') =
       mset (map snd (filter (\<lambda>r. fst r = SendOk) (map (ts e) (event_streams srv)))) \<and>
     disconnected srv' = disconnected srv @
       rev (map snd (filter (\<lambda>r. fst r \<noteq> SendOk) (map (ts e) (event_streams srv))))"
proof -
  let ?sent = "map (ts e) (event_streams srv)"
  let ?srv = "srv\<lparr>event_streams := map snd ?sent\<rparr>"
  let ?is = "filter (\<lambda>i. fst (?sent ! i) \<noteq> SendOk) [0..<length ?sent]"
  obtain srv' where "for_each drop_stream (rev ?is) ?srv = Some srv'"
    "event_stream_state srv' = event_stream_state ?srv"
    "disconnected srv' = disconnected srv @ rev (map ((!) (map snd ?sent)) ?is)"
    "mset (event_streams srv') = mset (map snd ?sent) - mset (map ((!) (map snd ?sent)) ?is)"
    using drop_streams [of "length ?sent" ?srv "\<lambda>i. fst (?sent ! i) \<noteq> SendOk"]
    by (auto simp: rev_map)
  then show ?thesis
    unfolding picked_snd [of ?sent "\<lambda>r. r \<noteq> SendOk"] mset_kept [of ?sent "\<lambda>r. r = SendOk"]
    by (intro exI [of _ srv']) (simp add: send_event_drop Let_def comp_def del: map_map)
qed

text \<open>C8. One event is offered once to every connected client and the state is untouched: the
  clients that stay connected are exactly those whose channel accepted it, and exactly the others
  (closed or too slow) are told to disconnect, whatever the positions of the removed entries.\<close>

theorem send_event_fans_out:
  "\<exists>srv'. send_event ts e srv = Some srv' \<and> event_stream_state srv' = event_stream_state srv \<and>
     mset (event_streams srv') =
       mset (map snd (filter (\<lambda>r. fst r = SendOk) (map (ts e) (event_streams srv)))) \<and>
     disconnected srv' = disconnected srv @
       rev (map snd (filter (\<lambda>r. fst r \<noteq> SendOk) (map (ts e) (event_streams srv))))"
  by (rule send_event_correct)

section \<open>Emitting events on a part of the state\<close>

text \<open>A part of the state is read and written through a pair of accessors.\<close>

locale part_access =
  fixes get :: "EventStreamState \<Rightarrow> 'p"
    and put :: "'p \<Rightarrow> EventStreamState \<Rightarrow> EventStreamState"
  assumes get_put: "get (put p s) = p"
    and put_get: "put (get s) s = s"
    and put_put: "put p (put q s) = put p s"
begin

lemma emit_events_state:
  assumes "play app evs (get (event_stream_state srv)) = Some p"
  shows "\<exists>srv'. emit_events ts app get put evs srv = Some srv' \<and>
           event_stream_state srv' = put p (event_stream_state srv)"
  using assms
proof (induction evs arbitrary: srv)
  case Nil
  then show ?case by (auto simp: emit_events_def put_get)
next
  case (Cons e evs)
  then obtain q r where q: "app e (get (event_stream_state srv)) = Some (q, r)"
    and rest: "play app evs q = Some p"
    by (auto simp: bind_eq_Some_conv)
  obtain srv1 where srv1:
    "send_event ts e (srv\<lparr>event_stream_state := put q (event_stream_state srv)\<rparr>) = Some srv1"
    "event_stream_state srv1 = put q (event_stream_state srv)"
    using send_event_correct [of ts e "srv\<lparr>event_stream_state := put q (event_stream_state srv)\<rparr>"]
    by auto
  from Cons.IH [of srv1] rest srv1 show ?case
    by (auto simp: emit_events_def q get_put put_put)
qed

end

interpretation ws_access: part_access es_workspaces "\<lambda>p s. s\<lparr>es_workspaces := p\<rparr>"
  by unfold_locales simp_all

interpretation win_access: part_access es_windows "\<lambda>p s. s\<lparr>es_windows := p\<rparr>"
  by unfold_locales simp_all

interpretation overview_access: part_access es_overview "\<lambda>p s. s\<lparr>es_overview := p\<rparr>"
  by unfold_locales simp_all

interpretation keyboard_access: part_access es_keyboard_layouts "\<lambda>p s. s\<lparr>es_keyboard_layouts := p\<rparr>"
  by unfold_locales simp_all

interpretation whole_access: part_access "\<lambda>s. s" "\<lambda>p s. p"
  by unfold_locales simp_all


section \<open>The workspaces refresh is exact\<close>

abbreviation item_id :: "IpcMon option \<times> nat \<times> IpcWs \<Rightarrow> u64" where
  "item_id x \<equiv> iw_id (snd (snd x))"

definition ws_snapshot ::
    "u64 option \<Rightarrow> (IpcMon option \<times> nat \<times> IpcWs) list \<Rightarrow> (u64 \<rightharpoonup> Workspace)" where
  "ws_snapshot f items = hash_collect ws_id (map (make_ipc_workspace f) items)"

text \<open>Invariants of a replicated workspace map.\<close>

definition ws_inv :: "(u64 \<rightharpoonup> Workspace) \<Rightarrow> bool" where
  "ws_inv m \<longleftrightarrow> keyed ws_id m \<and>
     (\<forall>k k' w w'. m k = Some w \<longrightarrow> m k' = Some w' \<longrightarrow> ws_is_focused w \<longrightarrow> ws_is_focused w' \<longrightarrow> k = k') \<and>
     (\<forall>k k' w w'. m k = Some w \<longrightarrow> m k' = Some w' \<longrightarrow> ws_is_active w \<longrightarrow> ws_is_active w' \<longrightarrow>
        ws_output w = ws_output w' \<longrightarrow> k = k') \<and>
     (\<forall>k w. m k = Some w \<longrightarrow> ws_is_active w \<or> ws_is_focused w \<longrightarrow> ws_output w \<noteq> None)"

text \<open>What the layout guarantees about the monitors it lists.\<close>

fun monitor_set_ok :: "IpcMonitorSet \<Rightarrow> bool" where
  "monitor_set_ok (MonitorsNormal mons a) =
     (a < length mons \<and> distinct (map im_output_name mons) \<and>
      (\<forall>m \<in> set mons. im_active_workspace_idx m < length (im_workspaces m)) \<and>
      distinct (map iw_id (concat (map im_workspaces mons))))"
| "monitor_set_ok (MonitorsNoOutputs wss) = distinct (map iw_id wss)"

text \<open>The abstract view of a list of workspaces that the refresh depends on.\<close>

definition items_ok :: "u64 option \<Rightarrow> (IpcMon option \<times> nat \<times> IpcWs) list \<Rightarrow> bool" where
  "items_ok f items \<longleftrightarrow>
     distinct (map item_id items) \<and>
     (\<forall>x \<in> set items. \<forall>y \<in> set items.
        ws_is_active (make_ipc_workspace f x) \<longrightarrow> ws_is_active (make_ipc_workspace f y) \<longrightarrow>
        ws_output (make_ipc_workspace f x) = ws_output (make_ipc_workspace f y) \<longrightarrow> x = y) \<and>
     (\<forall>x \<in> set items. ws_is_active (make_ipc_workspace f x) \<or> ws_is_focused (make_ipc_workspace f x) \<longrightarrow>
        ws_output (make_ipc_workspace f x) \<noteq> None) \<and>
     (\<forall>x \<in> set items. ws_output (make_ipc_workspace f x) \<noteq> None \<longrightarrow>
        (\<exists>y \<in> set items. ws_is_active (make_ipc_workspace f y) \<and>
           ws_output (make_ipc_workspace f y) = ws_output (make_ipc_workspace f x)) \<and>
        (\<exists>y \<in> set items. ws_is_focused (make_ipc_workspace f y))) \<and>
     (\<forall>x \<in> set items. ws_is_focused (make_ipc_workspace f x) \<longrightarrow> ws_is_active (make_ipc_workspace f x))"

subsection \<open>The effect of an event on one workspace\<close>

fun ws_event :: "Event \<Rightarrow> bool" where
  "ws_event (WorkspaceUrgencyChanged i u) = True"
| "ws_event (WorkspaceActivated i b) = True"
| "ws_event (WorkspaceActiveWindowChanged i w) = True"
| "ws_event _ = False"

fun ws_event_id :: "Event \<Rightarrow> u64" where
  "ws_event_id (WorkspaceUrgencyChanged i u) = i"
| "ws_event_id (WorkspaceActivated i b) = i"
| "ws_event_id (WorkspaceActiveWindowChanged i w) = i"
| "ws_event_id _ = 0"

fun ws_eff :: "(u64 \<Rightarrow> string option) \<Rightarrow> Event \<Rightarrow> Workspace \<Rightarrow> Workspace" where
  "ws_eff out (WorkspaceUrgencyChanged i u) w =
     (if ws_id w = i then w\<lparr>ws_is_urgent := u\<rparr> else w)"
| "ws_eff out (WorkspaceActivated i b) w = activate_ws i (out i) b w"
| "ws_eff out (WorkspaceActiveWindowChanged i a) w =
     (if ws_id w = i then w\<lparr>active_window_id := a\<rparr> else w)"
| "ws_eff out _ w = w"

lemma activate_ws_fields [simp]:
  "ws_idx (activate_ws i out b w) = ws_idx w"
  "ws_name (activate_ws i out b w) = ws_name w"
  "ws_output (activate_ws i out b w) = ws_output w"
  "ws_is_urgent (activate_ws i out b w) = ws_is_urgent w"
  "active_window_id (activate_ws i out b w) = active_window_id w"
  "ws_is_active (activate_ws i out b w) =
     (if ws_output w = out then ws_id w = i else ws_is_active w)"
  "ws_is_focused (activate_ws i out b w) = (if b then ws_id w = i else ws_is_focused w)"
  by (simp_all add: activate_ws_def Let_def)

lemma ws_eff_static [simp]:
  "ws_id (ws_eff out e w) = ws_id w"
  "ws_idx (ws_eff out e w) = ws_idx w"
  "ws_name (ws_eff out e w) = ws_name w"
  "ws_output (ws_eff out e w) = ws_output w"
  by (cases e; simp)+

lemma fold_ws_eff_static [simp]:
  "ws_id (fold (ws_eff out) evs w) = ws_id w"
  "ws_idx (fold (ws_eff out) evs w) = ws_idx w"
  "ws_name (fold (ws_eff out) evs w) = ws_name w"
  "ws_output (fold (ws_eff out) evs w) = ws_output w"
  by (induction evs arbitrary: w) simp_all

lemma workspaces_apply_eff:
  assumes "ws_event e" and "keyed ws_id (workspaces s)" and "ws_event_id e \<in> dom (workspaces s)"
    and "\<And>k w. workspaces s k = Some w \<Longrightarrow> out k = ws_output w"
  shows "map_option fst (workspaces_apply e s) =
           Some \<lparr>workspaces = values_mut (ws_eff out e) (workspaces s)\<rparr>"
proof (cases e)
  case (WorkspaceActivated i b)
  with assms obtain w where "workspaces s i = Some w" "out i = ws_output w" by auto
  then show ?thesis
    using WorkspaceActivated
    by (cases s) (auto simp: values_mut_def fun_eq_iff intro!: option.map_cong)
next
  case (WorkspaceActiveWindowChanged i a)
  with assms obtain w where w: "workspaces s i = Some w" by auto
  have keys: "ws_id v = k" if "workspaces s k = Some v" for k v
    using that assms(2) by (rule keyedD [rotated])
  have "map_option (ws_eff out e) (workspaces s k) =
      ((workspaces s)(i \<mapsto> w\<lparr>active_window_id := a\<rparr>)) k" for k
    using keys [of k] w WorkspaceActiveWindowChanged by (cases "workspaces s k") auto
  with w WorkspaceActiveWindowChanged show ?thesis
    by (cases s) (simp add: values_mut_def fun_eq_iff)
next
  case (WorkspaceUrgencyChanged i u)
  then show ?thesis
    by (cases s) (auto simp: values_mut_def fun_eq_iff intro!: option.map_cong)
qed (use assms(1) in auto)

lemma play_ws_events:
  assumes "\<forall>e \<in> set evs. ws_event e \<and> ws_event_id e \<in> dom (workspaces s)"
    and "keyed ws_id (workspaces s)"
    and "\<And>k w. workspaces s k = Some w \<Longrightarrow> out k = ws_output w"
  shows "play workspaces_apply evs s =
           Some \<lparr>workspaces = values_mut (fold (ws_eff out) evs) (workspaces s)\<rparr>"
  using assms
proof (induction evs arbitrary: s)
  case Nil
  then show ?case by (cases s) (simp add: values_mut_def option.map_ident fun_eq_iff)
next
  case (Cons e evs)
  let ?s = "\<lparr>workspaces = values_mut (ws_eff out e) (workspaces s)\<rparr>"
  have step: "map_option fst (workspaces_apply e s) = Some ?s"
    by (rule workspaces_apply_eff) (use Cons.prems in auto)
  have "play workspaces_apply evs ?s =
      Some \<lparr>workspaces = values_mut (fold (ws_eff out) evs) (workspaces ?s)\<rparr>"
    by (rule Cons.IH) (use Cons.prems in \<open>auto simp: values_mut_def keyed_def dom_def\<close>)
  then show ?case
    by (simp add: step values_mut_def option.map_comp comp_def)
qed


text \<open>
  Each field of a workspace is set, by every event of the list that touches it, to one value: then
  the order of the events does not matter.
\<close>

lemma fold_active_window:
  assumes "\<And>a. WorkspaceActiveWindowChanged (ws_id w) a \<in> set evs \<Longrightarrow> a = t"
  shows "active_window_id (fold (ws_eff out) evs w) =
    (if \<exists>a. WorkspaceActiveWindowChanged (ws_id w) a \<in> set evs then t else active_window_id w)"
  using assms
proof (induction evs arbitrary: w)
  case (Cons e evs)
  have "active_window_id (fold (ws_eff out) evs (ws_eff out e w)) =
    (if \<exists>a. WorkspaceActiveWindowChanged (ws_id w) a \<in> set evs then t
     else active_window_id (ws_eff out e w))"
    by (rule Cons.IH [of "ws_eff out e w", unfolded ws_eff_static]) (use Cons.prems in auto)
  with Cons.prems show ?case by (cases e) auto
qed simp

lemma fold_urgent:
  assumes "\<And>a. WorkspaceUrgencyChanged (ws_id w) a \<in> set evs \<Longrightarrow> a = t"
  shows "ws_is_urgent (fold (ws_eff out) evs w) =
    (if \<exists>a. WorkspaceUrgencyChanged (ws_id w) a \<in> set evs then t else ws_is_urgent w)"
  using assms
proof (induction evs arbitrary: w)
  case (Cons e evs)
  have "ws_is_urgent (fold (ws_eff out) evs (ws_eff out e w)) =
    (if \<exists>a. WorkspaceUrgencyChanged (ws_id w) a \<in> set evs then t
     else ws_is_urgent (ws_eff out e w))"
    by (rule Cons.IH [of "ws_eff out e w", unfolded ws_eff_static]) (use Cons.prems in auto)
  with Cons.prems show ?case by (cases e) auto
qed simp

lemma fold_focused:
  assumes "\<And>i. WorkspaceActivated i True \<in> set evs \<Longrightarrow> f = Some i"
  shows "ws_is_focused (fold (ws_eff out) evs w) =
    (if \<exists>i. WorkspaceActivated i True \<in> set evs then Some (ws_id w) = f else ws_is_focused w)"
  using assms
proof (induction evs arbitrary: w)
  case (Cons e evs)
  have "ws_is_focused (fold (ws_eff out) evs (ws_eff out e w)) =
    (if \<exists>i. WorkspaceActivated i True \<in> set evs then Some (ws_id w) = f
     else ws_is_focused (ws_eff out e w))"
    by (rule Cons.IH [of "ws_eff out e w", unfolded ws_eff_static]) (use Cons.prems in auto)
  with Cons.prems show ?case by (cases e) auto
qed simp

lemma fold_active:
  assumes "\<And>i b. WorkspaceActivated i b \<in> set evs \<Longrightarrow> out i = ws_output w \<Longrightarrow> i = a"
  shows "ws_is_active (fold (ws_eff out) evs w) =
    (if \<exists>i b. WorkspaceActivated i b \<in> set evs \<and> out i = ws_output w then ws_id w = a
     else ws_is_active w)"
  using assms
proof (induction evs arbitrary: w)
  case (Cons e evs)
  have "ws_is_active (fold (ws_eff out) evs (ws_eff out e w)) =
    (if \<exists>i b. WorkspaceActivated i b \<in> set evs \<and> out i = ws_output w then ws_id w = a
     else ws_is_active (ws_eff out e w))"
    by (rule Cons.IH [of "ws_eff out e w", unfolded ws_eff_static]) (use Cons.prems in auto)
  with Cons.prems show ?case by (cases e) (auto split: if_splits)
qed simp

subsection \<open>The events of a round\<close>

lemma ws_scan_False:
  assumes "ws_scan st f items seen evs = (False, seen', evs')"
  shows "seen' = seen \<union> item_id ` set items \<and> (\<forall>x \<in> set items. ws_changes st f x \<noteq> None) \<and>
         set evs' = set evs \<union> (\<Union>x \<in> set items. set (the (ws_changes st f x)))"
  using assms
proof (induction items arbitrary: seen evs)
  case (Cons x items)
  from Cons.prems obtain es where es: "ws_changes st f x = Some es"
    "ws_scan st f items (insert (item_id x) seen) (evs @ es) = (False, seen', evs')"
    by (auto simp: Let_def split: option.splits)
  from Cons.IH [OF es(2)] es(1) show ?case by auto
qed simp

text \<open>What an item contributes, as membership.\<close>

definition contributes :: "u64 option \<Rightarrow> IpcMon option \<times> nat \<times> IpcWs \<Rightarrow> Workspace \<Rightarrow> Event \<Rightarrow> bool" where
  "contributes f x w e \<longleftrightarrow>
     (let t = make_ipc_workspace f x; newly_focused = ws_is_focused t \<and> \<not> ws_is_focused w in
       (e = WorkspaceActiveWindowChanged (item_id x) (active_window_id t) \<and>
          active_window_id w \<noteq> active_window_id t) \<or>
       (e = WorkspaceUrgencyChanged (item_id x) (ws_is_urgent t) \<and>
          ws_is_urgent w \<noteq> ws_is_urgent t) \<or>
       (e = WorkspaceActivated (item_id x) True \<and> newly_focused) \<or>
       (e = WorkspaceActivated (item_id x) False \<and> \<not> newly_focused \<and>
          ws_is_active t \<and> \<not> ws_is_active w))"

definition same_place :: "Workspace \<Rightarrow> Workspace \<Rightarrow> bool" where
  "same_place w t \<longleftrightarrow> ws_idx w = ws_idx t \<and> ws_name w = ws_name t \<and> ws_output w = ws_output t"

lemma ws_changes_Some:
  assumes "ws_changes st f x = Some es"
  shows "\<exists>w. st (item_id x) = Some w \<and> same_place w (make_ipc_workspace f x) \<and>
           (\<forall>e. e \<in> set es \<longleftrightarrow> contributes f x w e)"
  using assms
  by (cases x) (auto simp: ws_changes_def make_ipc_workspace_def contributes_def same_place_def
      Let_def split: option.splits if_splits)

definition clean_scan ::
    "(u64 \<rightharpoonup> Workspace) \<Rightarrow> u64 option \<Rightarrow> (IpcMon option \<times> nat \<times> IpcWs) list \<Rightarrow> Event list \<Rightarrow> bool" where
  "clean_scan st f items evs \<longleftrightarrow> items_ok f items \<and> ws_inv st \<and>
     (\<forall>x \<in> set items. \<exists>w. st (item_id x) = Some w \<and> same_place w (make_ipc_workspace f x)) \<and>
     (\<forall>e. e \<in> set evs \<longleftrightarrow> (\<exists>x \<in> set items. contributes f x (the (st (item_id x))) e))"

lemma clean_scanI:
  assumes "items_ok f items" and "ws_inv st" and scan: "ws_scan st f items {} [] = (False, seen, evs)"
  shows "clean_scan st f items evs"
proof -
  have evs: "set evs = (\<Union>x \<in> set items. set (the (ws_changes st f x)))"
    and some: "\<forall>x \<in> set items. ws_changes st f x \<noteq> None"
    using ws_scan_False [OF scan] by auto
  have each: "(\<exists>w. st (item_id x) = Some w \<and> same_place w (make_ipc_workspace f x)) \<and>
      (\<forall>e. e \<in> set (the (ws_changes st f x)) \<longleftrightarrow> contributes f x (the (st (item_id x))) e)"
    if "x \<in> set items" for x
  proof -
    from some that obtain es where es: "ws_changes st f x = Some es" by blast
    from ws_changes_Some [OF es] obtain w where "st (item_id x) = Some w"
      "same_place w (make_ipc_workspace f x)" "\<forall>e. e \<in> set es \<longleftrightarrow> contributes f x w e"
      by blast
    with es show ?thesis by simp
  qed
  then have "e \<in> set evs \<longleftrightarrow> (\<exists>x \<in> set items. contributes f x (the (st (item_id x))) e)" for e
    unfolding evs by blast
  with assms(1,2) each show ?thesis
    unfolding clean_scan_def by blast
qed

lemma ws_snapshot_lookup:
  assumes "distinct (map item_id items)"
  shows "ws_snapshot f items k = (if k \<in> item_id ` set items
           then Some (make_ipc_workspace f (THE x. x \<in> set items \<and> item_id x = k)) else None)"
proof -
  have id: "ws_id (make_ipc_workspace f x) = item_id x" for x
    by (cases x) (simp add: make_ipc_workspace_def)
  let ?pick = "\<lambda>k. THE x. x \<in> set items \<and> item_id x = k"
  have inj: "x = y" if "x \<in> set items" "y \<in> set items" "item_id x = item_id y" for x y
    using assms that by (auto simp: distinct_map inj_on_def)
  have pick: "?pick (item_id x) = x" if "x \<in> set items" for x
    by (intro the_equality conjI that refl) (use that inj in blast)
  have key: "item_id (?pick k) = k" if "k \<in> set (map item_id items)" for k
  proof -
    from that obtain x where "x \<in> set items" "k = item_id x" by auto
    with pick [of x] show ?thesis by simp
  qed
  have "map (make_ipc_workspace f) items =
      map (\<lambda>k. make_ipc_workspace f (?pick k)) (map item_id items)"
    using pick by simp
  then have "ws_snapshot f items =
      (\<lambda>k. if k \<in> set (map item_id items) then Some (make_ipc_workspace f (?pick k)) else None)"
    unfolding ws_snapshot_def hash_collect_def
    using key by (simp only:, intro foldl_upd_map) (simp only: id)
  then show ?thesis by simp
qed

lemma ws_snapshot_item:
  assumes "distinct (map item_id items)" and "x \<in> set items"
  shows "ws_snapshot f items (item_id x) = Some (make_ipc_workspace f x)"
proof -
  have "(THE y. y \<in> set items \<and> item_id y = item_id x) = x"
    using assms by (intro the_equality) (auto simp: distinct_map inj_on_def)
  with assms show ?thesis by (simp add: ws_snapshot_lookup)
qed

lemma make_ipc_workspace_id [simp]: "ws_id (make_ipc_workspace f x) = item_id x"
  by (cases x) (simp add: make_ipc_workspace_def)

lemma make_ipc_workspace_focused: "ws_is_focused (make_ipc_workspace f x) \<longleftrightarrow> Some (item_id x) = f"
  by (cases x) (simp add: make_ipc_workspace_def)

lemma items_inj: "items_ok f items \<Longrightarrow> x \<in> set items \<Longrightarrow> y \<in> set items \<Longrightarrow> item_id x = item_id y \<Longrightarrow> x = y"
  by (auto simp: items_ok_def distinct_map inj_on_def)

text \<open>The individual events of an unbroken scan bring every field of a workspace to its target.\<close>

lemma scan_active_window:
  assumes "clean_scan st f items evs" and x: "x \<in> set items" and w: "st (item_id x) = Some w"
    and wid: "ws_id w = item_id x"
  shows "active_window_id (fold (ws_eff out) evs w) = active_window_id (make_ipc_workspace f x)"
proof -
  have ev: "WorkspaceActiveWindowChanged (item_id x) a \<in> set evs \<longleftrightarrow>
      a = active_window_id (make_ipc_workspace f x) \<and> active_window_id w \<noteq> a" for a
    using assms items_inj [of f items x] by (fastforce simp: clean_scan_def contributes_def Let_def)
  show ?thesis
    by (subst fold_active_window [of _ _ "active_window_id (make_ipc_workspace f x)"])
       (auto simp: wid ev)
qed

lemma scan_urgent:
  assumes "clean_scan st f items evs" and x: "x \<in> set items" and w: "st (item_id x) = Some w"
    and wid: "ws_id w = item_id x"
  shows "ws_is_urgent (fold (ws_eff out) evs w) = ws_is_urgent (make_ipc_workspace f x)"
proof -
  have ev: "WorkspaceUrgencyChanged (item_id x) a \<in> set evs \<longleftrightarrow>
      a = ws_is_urgent (make_ipc_workspace f x) \<and> ws_is_urgent w \<noteq> a" for a
    using assms items_inj [of f items x] by (fastforce simp: clean_scan_def contributes_def Let_def)
  show ?thesis
    by (subst fold_urgent [of _ _ "ws_is_urgent (make_ipc_workspace f x)"]) (auto simp: wid ev)
qed

lemma scan_focused:
  assumes cl: "clean_scan st f items evs" and x: "x \<in> set items" and w: "st (item_id x) = Some w"
    and wid: "ws_id w = item_id x"
  shows "ws_is_focused (fold (ws_eff out) evs w) = ws_is_focused (make_ipc_workspace f x)"
proof -
  have ev: "WorkspaceActivated i True \<in> set evs \<longleftrightarrow>
      (\<exists>y \<in> set items. i = item_id y \<and> Some i = f \<and> \<not> ws_is_focused (the (st i)))" for i
    using cl by (auto simp: clean_scan_def contributes_def Let_def make_ipc_workspace_focused)
  have unique: "ws_is_focused v \<Longrightarrow> ws_is_focused w \<Longrightarrow> st k = Some v \<Longrightarrow> k = item_id x" for k v
    using cl w by (auto simp: clean_scan_def ws_inv_def)
  have placed: "ws_output w = ws_output (make_ipc_workspace f x)"
    using cl x w by (fastforce simp: clean_scan_def same_place_def)
  have out: "ws_is_focused w \<Longrightarrow> ws_output w \<noteq> None"
    using cl w by (auto simp: clean_scan_def ws_inv_def)
  show ?thesis
  proof (cases "\<exists>i. WorkspaceActivated i True \<in> set evs")
    case True
    then show ?thesis
      by (subst fold_focused [of _ f]) (auto simp: ev wid make_ipc_workspace_focused)
  next
    case False
    have "ws_is_focused w \<longleftrightarrow> Some (item_id x) = f"
    proof
      assume fx: "Some (item_id x) = f"
      then show "ws_is_focused w" using False ev [of "item_id x"] x w by auto
    next
      assume fw: "ws_is_focused w"
      then obtain y where y: "y \<in> set items" "ws_is_focused (make_ipc_workspace f y)"
        using cl x out placed by (auto simp: clean_scan_def items_ok_def)
      then have "ws_is_focused (the (st (item_id y)))"
        using False ev [of "item_id y"] by (auto simp: make_ipc_workspace_focused)
      moreover obtain v where "st (item_id y) = Some v" using cl y(1) by (auto simp: clean_scan_def)
      ultimately show "Some (item_id x) = f"
        using unique fw y(2) by (auto simp: make_ipc_workspace_focused)
    qed
    with False show ?thesis
      by (subst fold_focused [of _ f]) (auto simp: make_ipc_workspace_focused)
  qed
qed


lemma activated_event:
  assumes cl: "clean_scan st f items evs"
  shows "WorkspaceActivated i b \<in> set evs \<Longrightarrow> \<exists>y \<in> set items. i = item_id y \<and>
      ws_is_active (make_ipc_workspace f y)"
    and "y \<in> set items \<Longrightarrow> ws_is_active (make_ipc_workspace f y) \<Longrightarrow>
      \<not> ws_is_active (the (st (item_id y))) \<Longrightarrow> \<exists>b. WorkspaceActivated (item_id y) b \<in> set evs"
proof -
  have ev: "e \<in> set evs \<longleftrightarrow> (\<exists>x \<in> set items. contributes f x (the (st (item_id x))) e)" for e
    using cl by (simp add: clean_scan_def)
  have fa: "ws_is_focused (make_ipc_workspace f y) \<Longrightarrow> ws_is_active (make_ipc_workspace f y)"
    if "y \<in> set items" for y
    using cl that by (simp add: clean_scan_def items_ok_def)
  show "WorkspaceActivated i b \<in> set evs \<Longrightarrow> \<exists>y \<in> set items. i = item_id y \<and>
      ws_is_active (make_ipc_workspace f y)"
    unfolding ev contributes_def Let_def using fa by blast
  assume y: "y \<in> set items" "ws_is_active (make_ipc_workspace f y)"
    "\<not> ws_is_active (the (st (item_id y)))"
  then have "contributes f y (the (st (item_id y)))
      (WorkspaceActivated (item_id y)
         (ws_is_focused (make_ipc_workspace f y) \<and> \<not> ws_is_focused (the (st (item_id y)))))"
    by (simp add: contributes_def Let_def)
  with y(1) show "\<exists>b. WorkspaceActivated (item_id y) b \<in> set evs"
    unfolding ev by blast
qed

lemma scan_active:
  assumes cl: "clean_scan st f items evs" and x: "x \<in> set items" and w: "st (item_id x) = Some w"
    and wid: "ws_id w = item_id x" and out: "\<And>k w. st k = Some w \<Longrightarrow> out k = ws_output w"
  shows "ws_is_active (fold (ws_eff out) evs w) = ws_is_active (make_ipc_workspace f x)"
proof -
  let ?t = "make_ipc_workspace f"
  have placed: "\<exists>v. st (item_id y) = Some v \<and> out (item_id y) = ws_output (?t y)" if "y \<in> set items" for y
    using cl that out by (fastforce simp: clean_scan_def same_place_def)
  have wout: "ws_output w = ws_output (?t x)"
    using placed [OF x] w out [OF w] by simp
  have tout: "ws_output (?t y) \<noteq> None" if "y \<in> set items" "ws_is_active (?t y)" for y
    using cl that by (simp add: clean_scan_def items_ok_def)
  have active_out: "ws_is_active w \<Longrightarrow> ws_output w \<noteq> None"
    using cl w unfolding clean_scan_def ws_inv_def by blast
  have tuniq: "y = z" if "y \<in> set items" "z \<in> set items" "ws_is_active (?t y)" "ws_is_active (?t z)"
      "ws_output (?t y) = ws_output (?t z)" for y z
    using cl that by (simp add: clean_scan_def items_ok_def)
  show ?thesis
  proof (cases "ws_output (?t x)")
    case None
    then have "\<not> ws_is_active (?t x)" "\<not> ws_is_active w"
      using tout [OF x] active_out wout by auto
    moreover have "\<not> (\<exists>i b. WorkspaceActivated i b \<in> set evs \<and> out i = ws_output w)"
    proof
      assume "\<exists>i b. WorkspaceActivated i b \<in> set evs \<and> out i = ws_output w"
      then obtain y where y: "y \<in> set items" "ws_is_active (?t y)" "out (item_id y) = None"
        using activated_event(1) [OF cl] None wout by fastforce
      with placed [OF y(1)] tout [OF y(1,2)] show False by auto
    qed
    ultimately show ?thesis by (subst fold_active [of _ _ _ 0]) auto
  next
    case (Some o1)
    then obtain a where a: "a \<in> set items" "ws_is_active (?t a)" "ws_output (?t a) = ws_output (?t x)"
      using cl x by (fastforce simp: clean_scan_def items_ok_def)
    have only: "i = item_id a" if "WorkspaceActivated i b \<in> set evs" "out i = ws_output w" for i b
    proof -
      from activated_event(1) [OF cl that(1)]
      obtain y where y: "y \<in> set items" "i = item_id y" "ws_is_active (?t y)" by blast
      with that(2) placed [of y] wout a have "y = a" by (intro tuniq) auto
      with y show ?thesis by simp
    qed
    have tx: "ws_is_active (?t x) \<longleftrightarrow> item_id x = item_id a"
      using tuniq [of x a] a x items_inj [of f items x a] cl by (auto simp: clean_scan_def)
    show ?thesis
    proof (cases "\<exists>i b. WorkspaceActivated i b \<in> set evs \<and> out i = ws_output w")
      case True
      then show ?thesis by (subst fold_active [of _ _ _ "item_id a"]) (use only tx wid in auto)
    next
      case False
      obtain v where v: "st (item_id a) = Some v" "out (item_id a) = ws_output w"
        using placed [OF a(1)] a(3) wout by auto
      with False activated_event(2) [OF cl a(1,2)] have "ws_is_active v" by auto
      then have "ws_is_active w \<longleftrightarrow> item_id x = item_id a"
        using cl w v out [OF v(1)] by (auto simp: clean_scan_def ws_inv_def)
      with False tx show ?thesis by (subst fold_active [of _ _ _ "item_id a"]) auto
    qed
  qed
qed

lemma scan_exact:
  assumes cl: "clean_scan st f items evs" and x: "x \<in> set items" and w: "st (item_id x) = Some w"
    and out: "\<And>k w. st k = Some w \<Longrightarrow> out k = ws_output w"
  shows "fold (ws_eff out) evs w = make_ipc_workspace f x"
proof -
  have wid: "ws_id w = item_id x"
    using cl w by (auto simp: clean_scan_def ws_inv_def keyed_def)
  have "same_place w (make_ipc_workspace f x)"
    using cl x w by (auto simp: clean_scan_def)
  then show ?thesis
    using scan_active_window [OF cl x w wid] scan_urgent [OF cl x w wid]
      scan_focused [OF cl x w wid] scan_active [OF cl x w wid out] wid
    by (intro Workspace.equality) (simp_all add: same_place_def)
qed

lemma ws_snapshot_None: "distinct (map item_id items) \<Longrightarrow> k \<notin> item_id ` set items \<Longrightarrow> ws_snapshot f items k = None"
  by (simp add: ws_snapshot_lookup)

lemma ws_snapshot_Some:
  assumes "distinct (map item_id items)" and "ws_snapshot f items k = Some w"
  obtains x where "x \<in> set items" "k = item_id x" "w = make_ipc_workspace f x"
proof -
  from assms ws_snapshot_None obtain x where "x \<in> set items" "k = item_id x" by fastforce
  with assms ws_snapshot_item [OF assms(1), of x f] show ?thesis using that by auto
qed

lemma workspace_events_exact:
  assumes "items_ok f items" and "ws_inv st"
  shows "play workspaces_apply (workspace_events st f items) \<lparr>workspaces = st\<rparr> =
           Some \<lparr>workspaces = ws_snapshot f items\<rparr>"
proof -
  obtain need seen evs where scan: "ws_scan st f items {} [] = (need, seen, evs)"
    by (cases "ws_scan st f items {} []") auto
  show ?thesis
  proof (cases "need \<or> \<not> dom st \<subseteq> seen")
    case True
    then show ?thesis by (auto simp: workspace_events_def scan ws_snapshot_def)
  next
    case False
    then have scan': "ws_scan st f items {} [] = (False, seen, evs)" using scan by simp
    then have cl: "clean_scan st f items evs" by (rule clean_scanI [OF assms])
    have dom: "dom st \<subseteq> item_id ` set items"
      using False ws_scan_False [OF scan'] by auto
    define out where "out k = (case st k of None \<Rightarrow> None | Some w \<Rightarrow> ws_output w)" for k
    have out: "st k = Some w \<Longrightarrow> out k = ws_output w" for k w
      by (simp add: out_def)
    have ev: "e \<in> set evs \<longleftrightarrow> (\<exists>x \<in> set items. contributes f x (the (st (item_id x))) e)" for e
      using cl by (simp add: clean_scan_def)
    have "ws_event e \<and> ws_event_id e \<in> dom st" if "e \<in> set evs" for e
    proof -
      from that ev obtain x where x: "x \<in> set items" "contributes f x (the (st (item_id x))) e"
        by blast
      moreover from cl x(1) have "item_id x \<in> dom st" by (auto simp: clean_scan_def)
      ultimately show ?thesis by (auto simp: contributes_def Let_def)
    qed
    then have "play workspaces_apply evs \<lparr>workspaces = st\<rparr> =
        Some \<lparr>workspaces = values_mut (fold (ws_eff out) evs) st\<rparr>"
      using play_ws_events [of evs "\<lparr>workspaces = st\<rparr>" out] out assms(2) by (simp add: ws_inv_def)
    moreover have "values_mut (fold (ws_eff out) evs) st k = ws_snapshot f items k" for k
    proof (cases "k \<in> item_id ` set items")
      case True
      then obtain x where x: "x \<in> set items" "k = item_id x" by auto
      moreover obtain w where "st (item_id x) = Some w" using cl x by (auto simp: clean_scan_def)
      ultimately show ?thesis
        using scan_exact [OF cl x(1) _ out] ws_snapshot_item [of items x f] assms(1)
        by (simp add: values_mut_def items_ok_def)
    next
      case False
      with dom assms(1) show ?thesis
        by (auto simp: values_mut_def items_ok_def ws_snapshot_None)
    qed
    ultimately show ?thesis
      using False scan by (auto simp: workspace_events_def fun_eq_iff)
  qed
qed

lemma workspace_events_play:
  assumes "items_ok f items" and "ws_inv (workspaces wst)"
  shows "play workspaces_apply (workspace_events (workspaces wst) f items) wst =
           Some \<lparr>workspaces = ws_snapshot f items\<rparr>"
  using workspace_events_exact [OF assms] by (cases wst) simp

lemma ws_snapshot_inv:
  assumes "items_ok f items"
  shows "ws_inv (ws_snapshot f items)"
proof -
  have d: "distinct (map item_id items)" using assms by (simp add: items_ok_def)
  have act: "x = y" if "x \<in> set items" "y \<in> set items" "ws_is_active (make_ipc_workspace f x)"
      "ws_is_active (make_ipc_workspace f y)"
      "ws_output (make_ipc_workspace f x) = ws_output (make_ipc_workspace f y)" for x y
    using assms that by (simp add: items_ok_def)
  have out: "ws_output (make_ipc_workspace f x) \<noteq> None"
    if "x \<in> set items" "ws_is_active (make_ipc_workspace f x) \<or> ws_is_focused (make_ipc_workspace f x)"
    for x using assms that unfolding items_ok_def by blast
  show ?thesis
    unfolding ws_inv_def
  proof (intro conjI allI impI)
    show "keyed ws_id (ws_snapshot f items)" by (simp add: ws_snapshot_def)
  next
    fix k k' w w'
    assume "ws_snapshot f items k = Some w" "ws_snapshot f items k' = Some w'"
      "ws_is_focused w" "ws_is_focused w'"
    then show "k = k'"
      by (elim ws_snapshot_Some [OF d]) (simp add: make_ipc_workspace_focused, metis option.inject)
  next
    fix k k' w w'
    assume "ws_snapshot f items k = Some w" "ws_snapshot f items k' = Some w'"
      "ws_is_active w" "ws_is_active w'" "ws_output w = ws_output w'"
    then show "k = k'"
      by (elim ws_snapshot_Some [OF d]) (metis act)
  next
    fix k w
    assume "ws_snapshot f items k = Some w" "ws_is_active w \<or> ws_is_focused w"
    then show "ws_output w \<noteq> None"
      by (elim ws_snapshot_Some [OF d]) (use out in simp)
  qed
qed

subsection \<open>The layout lists its workspaces consistently\<close>

lemma in_layout_workspaces:
  "x \<in> set (layout_workspaces (MonitorsNormal mons a)) \<longleftrightarrow>
     (\<exists>m \<in> set mons. \<exists>i < length (im_workspaces m). x = (Some m, i, im_workspaces m ! i))"
  by (force simp: in_set_enumerate_eq)

lemma map_iw_id_enumerate: "map (\<lambda>x. iw_id (snd x)) (enumerate n wss) = map iw_id wss"
  by (induction wss arbitrary: n) auto

lemma map_item_id_layout:
  "map item_id (layout_workspaces (MonitorsNormal mons a)) =
     map iw_id (concat (map im_workspaces mons))"
  by (induction mons) (simp_all add: comp_def case_prod_unfold map_iw_id_enumerate)

lemma make_ipc_workspace_on:
  "ws_is_active (make_ipc_workspace f (Some m, i, v)) \<longleftrightarrow> im_active_workspace_idx m = i"
  "ws_output (make_ipc_workspace f (Some m, i, v)) = Some (im_output_name m)"
  "ws_is_focused (make_ipc_workspace f (Some m, i, v)) \<longleftrightarrow> Some (iw_id v) = f"
  by (simp_all add: make_ipc_workspace_def ws_is_active_on_def)

lemma in_layout_workspacesE:
  assumes "x \<in> set (layout_workspaces (MonitorsNormal mons a))"
  obtains m i where "m \<in> set mons" "i < length (im_workspaces m)" "x = (Some m, i, im_workspaces m ! i)"
  using assms unfolding in_layout_workspaces by blast

text \<open>The workspace that is active on the active monitor.\<close>

definition active_item :: "IpcMon \<Rightarrow> IpcMon option \<times> nat \<times> IpcWs" where
  "active_item m = (Some m, im_active_workspace_idx m, im_workspaces m ! im_active_workspace_idx m)"

lemma active_item_in:
  assumes "monitor_set_ok (MonitorsNormal mons a)" and "m \<in> set mons"
  shows "active_item m \<in> set (layout_workspaces (MonitorsNormal mons a))"
  using assms unfolding in_layout_workspaces active_item_def by auto

lemma normal_items_ok:
  assumes ok: "monitor_set_ok (MonitorsNormal mons a)"
  shows "items_ok (Some (item_id (active_item (mons ! a)))) (layout_workspaces (MonitorsNormal mons a))"
    (is "items_ok ?f ?items")
proof -
  have am: "mons ! a \<in> set mons" using ok by simp
  have d: "distinct (map item_id ?items)"
    using ok by (simp only: map_item_id_layout monitor_set_ok.simps)
  have inj: "x = y" if "x \<in> set ?items" "y \<in> set ?items" "item_id x = item_id y" for x y
    using d that by (simp only: distinct_map inj_on_def)
  have same: "m = m'" if "m \<in> set mons" "m' \<in> set mons" "im_output_name m = im_output_name m'" for m m'
    using ok that by (auto simp: distinct_map inj_on_def)
  show ?thesis
    unfolding items_ok_def
  proof (intro conjI ballI impI)
    show "distinct (map item_id ?items)" by (rule d)
  next
    fix x y assume xy: "x \<in> set ?items" "y \<in> set ?items"
      "ws_is_active (make_ipc_workspace ?f x)" "ws_is_active (make_ipc_workspace ?f y)"
      "ws_output (make_ipc_workspace ?f x) = ws_output (make_ipc_workspace ?f y)"
    from xy(1,2) obtain m i m' i' where x: "m \<in> set mons" "x = (Some m, i, im_workspaces m ! i)"
      and y: "m' \<in> set mons" "y = (Some m', i', im_workspaces m' ! i')"
      by (elim in_layout_workspacesE)
    have "m = m'" using xy(5) x y by (intro same) (simp_all add: make_ipc_workspace_on)
    then show "x = y" using xy(3,4) x y by (simp add: make_ipc_workspace_on)
  next
    fix x assume "x \<in> set ?items"
    then show "ws_output (make_ipc_workspace ?f x) \<noteq> None"
      by (elim in_layout_workspacesE) (simp add: make_ipc_workspace_on)
  next
    fix x assume "x \<in> set ?items"
    then show "\<exists>y\<in>set ?items. ws_is_active (make_ipc_workspace ?f y) \<and>
        ws_output (make_ipc_workspace ?f y) = ws_output (make_ipc_workspace ?f x)"
      by (elim in_layout_workspacesE, intro bexI [OF _ active_item_in [OF ok]])
         (simp_all add: make_ipc_workspace_on active_item_def)
  next
    show "\<exists>y\<in>set ?items. ws_is_focused (make_ipc_workspace ?f y)"
      by (intro bexI [OF _ active_item_in [OF ok am]]) (simp add: make_ipc_workspace_focused)
  next
    fix x assume x: "x \<in> set ?items" "ws_is_focused (make_ipc_workspace ?f x)"
    then have "x = active_item (mons ! a)"
      by (intro inj active_item_in [OF ok am]) (simp_all add: make_ipc_workspace_focused)
    then show "ws_is_active (make_ipc_workspace ?f x)"
      by (simp add: active_item_def make_ipc_workspace_on)
  qed
qed

lemma layout_items_ok:
  assumes "monitor_set_ok lay"
  shows "\<exists>active. layout_active_workspace lay = Some active \<and>
           items_ok (map_option iw_id active) (layout_workspaces lay)"
proof (cases lay)
  case (MonitorsNormal mons a)
  with assms normal_items_ok [of mons a] show ?thesis
    by (simp add: vec_get_def active_item_def)
next
  case (MonitorsNoOutputs wss)
  have "map item_id (layout_workspaces lay) = map iw_id wss"
    by (simp add: MonitorsNoOutputs comp_def case_prod_unfold map_iw_id_enumerate)
  moreover have "x \<in> set (layout_workspaces lay) \<Longrightarrow> fst x = None" for x
    by (auto simp: MonitorsNoOutputs)
  ultimately show ?thesis
    using assms
    by (auto simp: MonitorsNoOutputs items_ok_def make_ipc_workspace_def ws_is_active_on_def)
qed

text \<open>
  After a refresh the replicated workspaces are exactly the layout's, and the invariant that the
  next refresh relies on holds again.
\<close>

definition layout_snapshot :: "IpcMonitorSet \<Rightarrow> (u64 \<rightharpoonup> Workspace)" where
  "layout_snapshot lay =
     ws_snapshot (map_option iw_id (the (layout_active_workspace lay))) (layout_workspaces lay)"

lemma refresh_workspaces_state:
  assumes "monitor_set_ok lay" and "ws_inv (workspaces (es_workspaces (event_stream_state srv)))"
  shows "\<exists>srv'. ipc_refresh_workspaces ts lay srv = Some srv' \<and>
     event_stream_state srv' =
       (event_stream_state srv)\<lparr>es_workspaces := \<lparr>workspaces = layout_snapshot lay\<rparr>\<rparr> \<and>
     ws_inv (layout_snapshot lay)"
proof -
  obtain active where active: "layout_active_workspace lay = Some active"
    and ok: "items_ok (map_option iw_id active) (layout_workspaces lay)"
    using layout_items_ok [OF assms(1)] by blast
  have "play workspaces_apply
      (workspace_events (workspaces (es_workspaces (event_stream_state srv)))
        (map_option iw_id active) (layout_workspaces lay))
      (es_workspaces (event_stream_state srv)) = Some \<lparr>workspaces = layout_snapshot lay\<rparr>"
    using workspace_events_play [OF ok assms(2)] by (simp add: layout_snapshot_def active)
  from ws_access.emit_events_state [OF this] show ?thesis
    using ws_snapshot_inv [OF ok]
    by (auto simp: ipc_refresh_workspaces_def active layout_snapshot_def)
qed

end
