(* ===== verification/Ipc_Windows.thy ===== *)
theory Ipc_Windows
  imports Ipc_Server
begin

text \<open>
  The window refresh of the event stream server is exact: applied to the replicated state, the
  events of one refresh turn it into the windows of the layout, in whatever order the hash maps are
  iterated.
\<close>

section \<open>What a scan collects\<close>

abbreviation visit_id :: "with_windows_item \<Rightarrow> u64" where
  "visit_id x \<equiv> mw_id (fst x)"

text \<open>A window that needs a full update.\<close>

definition win_changed :: "(u64 \<rightharpoonup> Window) \<Rightarrow> with_windows_item \<Rightarrow> bool" where
  "win_changed st x = (case st (visit_id x) of
      None \<Rightarrow> True
    | Some w \<Rightarrow> workspace_id w \<noteq> fst (snd x) \<or> is_floating w \<noteq> mw_is_floating (fst x)
        \<or> title w \<noteq> mw_title (fst x) \<or> app_id w \<noteq> mw_app_id (fst x))"

definition win_item_events :: "(u64 \<rightharpoonup> Window) \<Rightarrow> with_windows_item \<Rightarrow> Event list" where
  "win_item_events st x =
     (let i = visit_id x; w = the (st i); t = make_ipc_window x
      in if win_changed st x then [WindowOpenedOrChanged t]
         else (if win_is_focused t \<and> \<not> win_is_focused w then [WindowFocusChanged (Some i)] else []) @
              (if focus_timestamp t \<noteq> focus_timestamp w
               then [WindowFocusTimestampChanged i (focus_timestamp t)] else []) @
              (if win_is_urgent t \<noteq> win_is_urgent w
               then [WindowUrgencyChanged i (win_is_urgent t)] else []))"

definition win_item_batch :: "(u64 \<rightharpoonup> Window) \<Rightarrow> with_windows_item \<Rightarrow> (u64 \<times> WindowLayout) list" where
  "win_item_batch st x =
     (if \<not> win_changed st x \<and> win_layout (the (st (visit_id x))) \<noteq> snd (snd x)
      then [(visit_id x, snd (snd x))] else [])"

lemma make_ipc_window_simps [simp]:
  "win_id (make_ipc_window x) = visit_id x"
  "win_is_focused (make_ipc_window x) = mw_is_focused (fst x)"
  "win_is_urgent (make_ipc_window x) = mw_is_urgent (fst x)"
  "win_layout (make_ipc_window x) = snd (snd x)"
  "win_pid (make_ipc_window x) = mw_pid (fst x)"
  "focus_timestamp (make_ipc_window x) =
     map_option timestamp_from_duration (mw_focus_timestamp (fst x))"
  by (simp_all add: make_ipc_window_def split: prod.splits)

lemma win_visit_eq:
  "win_visit st x sc =
     \<lparr>sc_events = sc_events sc @ win_item_events st x,
      sc_batch = sc_batch sc @ win_item_batch st x,
      sc_seen = insert (visit_id x) (sc_seen sc),
      sc_focused = (if mw_is_focused (fst x) then Some (visit_id x) else sc_focused sc)\<rparr>"
  by (cases x, cases "st (visit_id x)")
     (simp_all add: win_visit_def win_item_events_def win_item_batch_def win_changed_def
        make_ipc_window_def Let_def)

lemma fold_win_visit:
  "sc_events (fold (win_visit st) xs sc) = sc_events sc @ concat (map (win_item_events st) xs)"
  "sc_batch (fold (win_visit st) xs sc) = sc_batch sc @ concat (map (win_item_batch st) xs)"
  "sc_seen (fold (win_visit st) xs sc) = visit_id ` set xs \<union> sc_seen sc"
  by (induction xs arbitrary: sc) (simp_all add: win_visit_eq)

lemma fold_win_visit_focused:
  "sc_focused (fold (win_visit st) xs sc) = None \<longleftrightarrow>
     sc_focused sc = None \<and> (\<forall>x \<in> set xs. \<not> mw_is_focused (fst x))"
  by (induction xs arbitrary: sc) (auto simp: win_visit_eq)

section \<open>The state while the individual events are applied\<close>

definition focused_ids :: "with_windows_item list \<Rightarrow> u64 set" where
  "focused_ids xs = visit_id ` {x \<in> set xs. mw_is_focused (fst x)}"

definition interim_layout :: "(u64 \<rightharpoonup> Window) \<Rightarrow> with_windows_item \<Rightarrow> WindowLayout" where
  "interim_layout st x =
     (if win_changed st x then snd (snd x) else win_layout (the (st (visit_id x))))"

definition interim_window :: "(u64 \<rightharpoonup> Window) \<Rightarrow> bool \<Rightarrow> with_windows_item \<Rightarrow> Window" where
  "interim_window st f x =
     (make_ipc_window x)\<lparr>win_layout := interim_layout st x, win_is_focused := f\<rparr>"

text \<open>Visited windows have their final values but for the layout; the focus is \<open>phi\<close> throughout.\<close>

definition interim ::
    "(u64 \<rightharpoonup> Window) \<Rightarrow> with_windows_item list \<Rightarrow> (u64 \<Rightarrow> bool) \<Rightarrow> (u64 \<rightharpoonup> Window)" where
  "interim st xs phi = (\<lambda>k.
     case List.find (\<lambda>x. visit_id x = k) xs of
       Some x \<Rightarrow> Some (interim_window st (phi k) x)
     | None \<Rightarrow> map_option (\<lambda>w. w\<lparr>win_is_focused := phi k\<rparr>) (st k))"

lemma find_visit_append:
  "List.find P (xs @ ys) = (case List.find P xs of None \<Rightarrow> List.find P ys | Some x \<Rightarrow> Some x)"
  by (induction xs) simp_all

lemma find_visit_None: "k \<notin> visit_id ` set xs \<Longrightarrow> List.find (\<lambda>x. visit_id x = k) xs = None"
  by (metis (mono_tags, lifting) find_None_iff image_eqI)

lemma find_visit_Some: "List.find (\<lambda>x. visit_id x = k) xs = Some x \<Longrightarrow> visit_id x = k"
  by (metis (mono_tags, lifting) find_Some_iff)

lemma interim_cases:
  obtains (visited) x where "visit_id x = k" "\<And>phi. interim st xs phi k = Some (interim_window st (phi k) x)"
  | (unvisited) w where "st k = Some w" "\<And>phi. interim st xs phi k = Some (w\<lparr>win_is_focused := phi k\<rparr>)"
  | (missing) "st k = None" "\<And>phi. interim st xs phi k = None"
proof (cases "List.find (\<lambda>x. visit_id x = k) xs")
  case None
  then show ?thesis
    by (cases "st k") (simp_all add: interim_def unvisited missing)
next
  case (Some x)
  then show ?thesis
    using visited [of x] find_visit_Some [OF Some] by (simp add: interim_def)
qed

lemma interim_unvisited:
  "k \<notin> visit_id ` set xs \<Longrightarrow>
     interim st xs phi k = map_option (\<lambda>w. w\<lparr>win_is_focused := phi k\<rparr>) (st k)"
  by (simp add: interim_def find_visit_None)

lemma interim_snoc:
  assumes "visit_id x \<notin> visit_id ` set xs"
  shows "interim st (xs @ [x]) phi =
           (interim st xs phi)(visit_id x \<mapsto> interim_window st (phi (visit_id x)) x)"
  using assms
  by (auto simp: interim_def find_visit_append find_visit_None fun_eq_iff split: option.split)

lemma win_id_interim_window [simp]: "win_id (interim_window st f x) = visit_id x"
  by (simp add: interim_window_def)

lemma interim_focus [simp]:
  "(interim_window st f x)\<lparr>win_is_focused := g\<rparr> = interim_window st g x"
  by (simp add: interim_window_def)

lemma keyed_interim:
  assumes "keyed win_id st"
  shows "keyed win_id (interim st xs phi)"
  unfolding keyed_def
proof (intro allI impI)
  fix k v
  assume "interim st xs phi k = Some v"
  then show "win_id v = k"
    using keyedD [OF assms, of k] by (cases rule: interim_cases [of k st xs]) auto
qed

lemma interim_refocus:
  assumes "keyed win_id st"
  shows "values_mut (\<lambda>v. v\<lparr>win_is_focused := g (win_id v)\<rparr>) (interim st xs phi) = interim st xs g"
proof
  fix k
  show "values_mut (\<lambda>v. v\<lparr>win_is_focused := g (win_id v)\<rparr>) (interim st xs phi) k = interim st xs g k"
    using keyedD [OF assms, of k]
    by (cases rule: interim_cases [of k st xs]) (simp_all add: values_mut_def)
qed

lemma interim_cong:
  assumes "\<And>k. k \<in> dom (interim st xs phi) \<Longrightarrow> phi k = psi k"
  shows "interim st xs phi = interim st xs psi"
proof
  fix k
  show "interim st xs phi k = interim st xs psi k"
    using assms [of k] by (cases rule: interim_cases [of k st xs]) (auto simp: domIff)
qed

definition was_focused :: "(u64 \<rightharpoonup> Window) \<Rightarrow> u64 \<Rightarrow> bool" where
  "was_focused st k = (case st k of None \<Rightarrow> False | Some w \<Rightarrow> win_is_focused w)"

lemma interim_start: "interim st [] (was_focused st) = st"
  by (auto simp: interim_def was_focused_def fun_eq_iff split: option.split)

definition focus_progress :: "(u64 \<rightharpoonup> Window) \<Rightarrow> with_windows_item list \<Rightarrow> (u64 \<Rightarrow> bool) \<Rightarrow> bool" where
  "focus_progress st xs phi \<longleftrightarrow>
     (if focused_ids xs = {}
      then (\<forall>k. phi k \<longrightarrow> was_focused st k) \<and> (\<forall>k. k \<notin> visit_id ` set xs \<longrightarrow> phi k = was_focused st k)
      else (\<forall>k. phi k \<longleftrightarrow> k \<in> focused_ids xs))"

definition one_focused :: "(u64 \<rightharpoonup> Window) \<Rightarrow> bool" where
  "one_focused st \<longleftrightarrow> (\<forall>k k'. was_focused st k \<longrightarrow> was_focused st k' \<longrightarrow> k = k')"

text \<open>The process id of a window never changes.\<close>

definition same_pid :: "(u64 \<rightharpoonup> Window) \<Rightarrow> with_windows_item \<Rightarrow> bool" where
  "same_pid st x \<longleftrightarrow> (\<forall>w. st (visit_id x) = Some w \<longrightarrow> win_pid w = mw_pid (fst x))"

lemma focused_ids_snoc:
  "focused_ids (xs @ [x]) = focused_ids xs \<union> (if mw_is_focused (fst x) then {visit_id x} else {})"
  unfolding focused_ids_def by (simp add: Collect_disj_eq image_Un conj_disj_distribR) blast

lemma focused_ids_visited: "focused_ids xs \<subseteq> visit_id ` set xs"
  unfolding focused_ids_def by blast

text \<open>The focus after one window.\<close>

definition focus_step ::
    "(u64 \<rightharpoonup> Window) \<Rightarrow> with_windows_item \<Rightarrow> (u64 \<Rightarrow> bool) \<Rightarrow> (u64 \<Rightarrow> bool)" where
  "focus_step st x phi =
     (if mw_is_focused (fst x) \<and> (win_changed st x \<or> \<not> was_focused st (visit_id x))
      then (\<lambda>k. k = visit_id x)
      else if win_changed st x then phi(visit_id x := False) else phi)"

lemma focus_progress_step:
  assumes "focus_progress st xs phi" and "visit_id x \<notin> visit_id ` set xs" and "one_focused st"
    and "mw_is_focused (fst x) \<Longrightarrow> focused_ids xs = {}"
  shows "focus_progress st (xs @ [x]) (focus_step st x phi)"
proof (cases "mw_is_focused (fst x)")
  case True
  with assms(4) have no: "focused_ids xs = {}" by simp
  with assms(1) have phi: "\<forall>k. phi k \<longrightarrow> was_focused st k"
    "\<forall>k. k \<notin> visit_id ` set xs \<longrightarrow> phi k = was_focused st k"
    by (simp_all add: focus_progress_def)
  have "\<not> win_changed st x \<Longrightarrow> was_focused st (visit_id x) \<Longrightarrow> phi k = (k = visit_id x)" for k
  proof -
    assume w: "was_focused st (visit_id x)"
    then have "was_focused st k \<longrightarrow> k = visit_id x"
      using assms(3) unfolding one_focused_def by blast
    moreover have "phi (visit_id x)" using w phi(2) assms(2) by blast
    ultimately show ?thesis using phi(1) by blast
  qed
  with True no show ?thesis
    by (simp add: focus_progress_def focused_ids_snoc focus_step_def)
next
  case False
  show ?thesis
  proof (cases "focused_ids xs = {}")
    case True
    with assms(1) have phi: "\<forall>k. phi k \<longrightarrow> was_focused st k"
      "\<forall>k. k \<notin> visit_id ` set xs \<longrightarrow> phi k = was_focused st k"
      by (simp_all add: focus_progress_def)
    then show ?thesis
      using False True by (simp add: focus_progress_def focused_ids_snoc focus_step_def)
  next
    case nonempty: False
    then have "visit_id x \<notin> focused_ids xs" using assms(2) focused_ids_visited by blast
    with False nonempty assms(1) show ?thesis
      by (simp add: focus_progress_def focused_ids_snoc focus_step_def)
  qed
qed

lemma win_item_unchanged:
  assumes "\<not> win_changed st x" and "same_pid st x" and "keyed win_id st"
  obtains w where "st (visit_id x) = Some w"
    "interim_window st f x =
       w\<lparr>win_is_focused := f,
         focus_timestamp := map_option timestamp_from_duration (mw_focus_timestamp (fst x)),
         win_is_urgent := mw_is_urgent (fst x)\<rparr>"
proof -
  obtain w where w: "st (visit_id x) = Some w"
    using assms(1) by (auto simp: win_changed_def split: option.splits)
  then have "win_id w = visit_id x" "win_pid w = mw_pid (fst x)"
    using assms(2,3) keyedD by (auto simp: same_pid_def)
  with assms(1) w show ?thesis
    by (intro that [OF w])
       (simp add: win_changed_def interim_window_def interim_layout_def make_ipc_window_def
         split: prod.splits)
qed

lemma play_item:
  assumes "hash_iter ord" and k: "keyed win_id st" and new: "visit_id x \<notin> visit_id ` set xs"
    and pid: "same_pid st x"
  shows "play (windows_apply ord) (win_item_events st x) \<lparr>windows = interim st xs phi\<rparr> =
           Some \<lparr>windows = interim st (xs @ [x]) (focus_step st x phi)\<rparr>"
proof (cases "win_changed st x")
  case True
  let ?i = "visit_id x"
  have t: "interim_window st (mw_is_focused (fst x)) x = make_ipc_window x"
    using True by (simp add: interim_window_def interim_layout_def make_ipc_window_def split: prod.splits)
  have keyed: "keyed win_id (interim st (xs @ [x]) psi)" for psi
    by (rule keyed_interim [OF k])
  have drop: "values_mut (\<lambda>v. if win_id v \<noteq> ?i then v\<lparr>win_is_focused := False\<rparr> else v)
      ((interim st xs phi)(?i \<mapsto> make_ipc_window x)) =
      (interim st xs (\<lambda>k. k = ?i))(?i \<mapsto> make_ipc_window x)"
  proof
    fix j
    show "values_mut (\<lambda>v. if win_id v \<noteq> ?i then v\<lparr>win_is_focused := False\<rparr> else v)
        ((interim st xs phi)(?i \<mapsto> make_ipc_window x)) j =
        ((interim st xs (\<lambda>k. k = ?i))(?i \<mapsto> make_ipc_window x)) j"
      using keyedD [OF k, of j]
      by (cases rule: interim_cases [of j st xs]) (simp_all add: values_mut_def)
  qed
  have upd: "(interim st xs (phi(?i := b)))(?i \<mapsto> v) = (interim st xs phi)(?i \<mapsto> v)" for b v
  proof
    fix j
    show "((interim st xs (phi(?i := b)))(?i \<mapsto> v)) j = ((interim st xs phi)(?i \<mapsto> v)) j"
      by (cases rule: interim_cases [of j st xs]) (simp_all add: fun_upd_def)
  qed
  show ?thesis
    using True t drop upd
    by (cases "mw_is_focused (fst x)")
       (simp_all add: win_item_events_def interim_snoc [OF new] focus_step_def Let_def)
next
  case False
  let ?i = "visit_id x"
  let ?psi = "focus_step st x phi"
  let ?m = "interim st xs ?psi"
  obtain w where w: "st ?i = Some w"
    "interim_window st (?psi ?i) x =
       w\<lparr>win_is_focused := ?psi ?i,
         focus_timestamp := map_option timestamp_from_duration (mw_focus_timestamp (fst x)),
         win_is_urgent := mw_is_urgent (fst x)\<rparr>"
    by (rule win_item_unchanged [OF False pid k])
  have m: "?m ?i = Some (w\<lparr>win_is_focused := ?psi ?i\<rparr>)"
    using w new by (simp add: interim_unvisited)
  have foc: "was_focused st ?i = win_is_focused w" by (simp add: was_focused_def w)
  have refocus: "values_mut (\<lambda>v. v\<lparr>win_is_focused := (win_id v = ?i)\<rparr>) (interim st xs phi) =
      interim st xs (\<lambda>k. k = ?i)"
    by (rule interim_refocus [OF k])
  note first = values_mut_first_keyed [OF assms(1), where key = win_id]
  let ?ts = "map_option timestamp_from_duration (mw_focus_timestamp (fst x))"
  let ?v = "w\<lparr>win_is_focused := ?psi ?i\<rparr>"
  have e1: "play (windows_apply ord)
      (if mw_is_focused (fst x) \<and> \<not> win_is_focused w then [WindowFocusChanged (Some ?i)] else [])
      \<lparr>windows = interim st xs phi\<rparr> = Some \<lparr>windows = ?m\<rparr>"
    using False refocus by (simp add: focus_step_def foc)
  have e2: "play (windows_apply ord)
      (if ?ts \<noteq> focus_timestamp w then [WindowFocusTimestampChanged ?i ?ts] else []) \<lparr>windows = ?m\<rparr> =
      Some \<lparr>windows = ?m(?i \<mapsto> ?v\<lparr>focus_timestamp := ?ts\<rparr>)\<rparr>"
    using m by (simp add: first keyed_interim [OF k] fun_upd_idem)
  have "win_id w = ?i" using keyedD [OF k] w by blast
  then have k': "keyed win_id (?m(?i \<mapsto> ?v\<lparr>focus_timestamp := ?ts\<rparr>))"
    using keyed_interim [OF k] by (intro keyed_upd) simp_all
  have e3: "play (windows_apply ord)
      (if mw_is_urgent (fst x) \<noteq> win_is_urgent w
       then [WindowUrgencyChanged ?i (mw_is_urgent (fst x))] else [])
      \<lparr>windows = ?m(?i \<mapsto> ?v\<lparr>focus_timestamp := ?ts\<rparr>)\<rparr> =
      Some \<lparr>windows = ?m(?i \<mapsto> interim_window st (?psi ?i) x)\<rparr>"
    by (simp add: first [OF k'] w(2))
  have evs: "win_item_events st x =
      (if mw_is_focused (fst x) \<and> \<not> win_is_focused w then [WindowFocusChanged (Some ?i)] else []) @
      (if ?ts \<noteq> focus_timestamp w then [WindowFocusTimestampChanged ?i ?ts] else []) @
      (if mw_is_urgent (fst x) \<noteq> win_is_urgent w
       then [WindowUrgencyChanged ?i (mw_is_urgent (fst x))] else [])"
    using False by (simp add: win_item_events_def w(1) Let_def)
  show ?thesis
    by (simp only: evs play_append e1 e2 e3 interim_snoc [OF new] Option.bind.simps)
qed

section \<open>The whole refresh\<close>

text \<open>
  What the layout promises of the windows it lists: distinct ids, at most one focused window, and
  process ids that do not change.
\<close>

definition windows_ok :: "(u64 \<rightharpoonup> Window) \<Rightarrow> with_windows_item list \<Rightarrow> bool" where
  "windows_ok st items \<longleftrightarrow> distinct (map visit_id items) \<and>
     (\<forall>x \<in> set items. \<forall>y \<in> set items. mw_is_focused (fst x) \<longrightarrow> mw_is_focused (fst y) \<longrightarrow> x = y) \<and>
     (\<forall>x \<in> set items. same_pid st x)"

definition win_inv :: "(u64 \<rightharpoonup> Window) \<Rightarrow> bool" where
  "win_inv st \<longleftrightarrow> keyed win_id st \<and> one_focused st"

definition win_snapshot :: "with_windows_item list \<Rightarrow> (u64 \<rightharpoonup> Window)" where
  "win_snapshot items k = map_option make_ipc_window (List.find (\<lambda>x. visit_id x = k) items)"

lemma windows_ok_snoc:
  assumes "windows_ok st (xs @ [x])"
  shows "windows_ok st xs" and "visit_id x \<notin> visit_id ` set xs" and "same_pid st x"
    and "mw_is_focused (fst x) \<Longrightarrow> focused_ids xs = {}"
proof -
  show "windows_ok st xs" using assms unfolding windows_ok_def by simp
  show new: "visit_id x \<notin> visit_id ` set xs" using assms unfolding windows_ok_def by simp
  show "same_pid st x" using assms unfolding windows_ok_def by simp
  show "focused_ids xs = {}" if "mw_is_focused (fst x)"
  proof (rule ccontr)
    assume "focused_ids xs \<noteq> {}"
    then obtain y where y: "y \<in> set xs" "mw_is_focused (fst y)" unfolding focused_ids_def by blast
    then have "x = y" using assms that unfolding windows_ok_def by simp
    with y(1) new show False by blast
  qed
qed

lemma play_items:
  assumes "hash_iter ord" and "win_inv st" and "windows_ok st xs"
  shows "\<exists>phi. play (windows_apply ord) (concat (map (win_item_events st) xs)) \<lparr>windows = st\<rparr> =
           Some \<lparr>windows = interim st xs phi\<rparr> \<and> focus_progress st xs phi"
  using assms(3)
proof (induction xs rule: rev_induct)
  case Nil
  show ?case
    by (rule exI [of _ "was_focused st"]) (simp add: interim_start focus_progress_def focused_ids_def)
next
  case (snoc x xs)
  note ok = windows_ok_snoc [OF snoc.prems]
  from snoc.IH ok(1) obtain phi where
    "play (windows_apply ord) (concat (map (win_item_events st) xs)) \<lparr>windows = st\<rparr> =
       Some \<lparr>windows = interim st xs phi\<rparr>" "focus_progress st xs phi" by blast
  with play_item [OF assms(1) _ ok(2,3)] focus_progress_step [OF _ ok(2) _ ok(4)] assms(2)
  show ?case
    by (intro exI [of _ "focus_step st x phi"]) (simp add: play_append win_inv_def)
qed

lemma apply_layout_changes_eq:
  assumes "distinct (map fst cs)" and "fst ` set cs \<subseteq> dom m"
  shows "apply_layout_changes cs m =
    Some (\<lambda>k. case map_of cs k of None \<Rightarrow> m k | Some l \<Rightarrow> map_option (\<lambda>w. w\<lparr>win_layout := l\<rparr>) (m k))"
  using assms
proof (induction cs m rule: apply_layout_changes.induct)
  case (1 m)
  then show ?case by simp
next
  case (2 i u cs m)
  then obtain w where w: "m i = Some w" by auto
  have no: "map_of cs i = None" using 2 by (simp add: map_of_eq_None_iff)
  have d: "distinct (map fst cs)" "fst ` set cs \<subseteq> dom (m(i \<mapsto> w\<lparr>win_layout := u\<rparr>))"
    using "2.prems" by auto
  show ?case
    using "2.IH" [OF w d] w no by (simp add: fun_eq_iff split: option.split del: fun_upd_apply) simp
qed

lemma batch_ids: "fst ` set (concat (map (win_item_batch st) xs)) \<subseteq> visit_id ` set xs"
  by (induction xs) (auto simp: win_item_batch_def)

lemma distinct_batch:
  "distinct (map visit_id xs) \<Longrightarrow> distinct (map fst (concat (map (win_item_batch st) xs)))"
proof (induction xs)
  case Nil
  then show ?case by simp
next
  case (Cons x xs)
  from Cons.prems have "visit_id x \<notin> visit_id ` set xs" by simp
  then have "visit_id x \<notin> fst ` set (concat (map (win_item_batch st) xs))"
    using batch_ids [of st xs] by (meson subsetD)
  with Cons show ?case by (simp add: win_item_batch_def image_Un image_UN)
qed

lemma batch_lookup:
  assumes "distinct (map visit_id xs)"
  shows "map_of (concat (map (win_item_batch st) xs)) k =
    (case List.find (\<lambda>x. visit_id x = k) xs of
       None \<Rightarrow> None
     | Some x \<Rightarrow> if win_item_batch st x = [] then None else Some (snd (snd x)))"
  using assms
proof (induction xs)
  case Nil
  then show ?case by simp
next
  case (Cons x xs)
  have "List.find (\<lambda>x. visit_id x = k) xs = None" if "visit_id x = k"
    using Cons.prems that by (intro find_visit_None) auto
  then show ?case using Cons by (auto simp: win_item_batch_def map_add_def split: option.split)
qed

lemma play_batch:
  assumes "distinct (map visit_id xs)"
  shows "play (windows_apply ord)
      (if concat (map (win_item_batch st) xs) \<noteq> []
       then [WindowLayoutsChanged (concat (map (win_item_batch st) xs))] else [])
      \<lparr>windows = interim st xs phi\<rparr> =
    Some \<lparr>windows = \<lambda>k. case List.find (\<lambda>x. visit_id x = k) xs of
        Some x \<Rightarrow> Some ((make_ipc_window x)\<lparr>win_is_focused := phi k\<rparr>)
      | None \<Rightarrow> map_option (\<lambda>w. w\<lparr>win_is_focused := phi k\<rparr>) (st k)\<rparr>"
proof -
  let ?B = "concat (map (win_item_batch st) xs)"
  let ?M = "\<lambda>k. case List.find (\<lambda>x. visit_id x = k) xs of
        Some x \<Rightarrow> Some ((make_ipc_window x)\<lparr>win_is_focused := phi k\<rparr>)
      | None \<Rightarrow> map_option (\<lambda>w. w\<lparr>win_is_focused := phi k\<rparr>) (st k)"
  have dom: "k \<in> dom (interim st xs phi)" if "k \<in> visit_id ` set xs" for k
  proof -
    have "List.find (\<lambda>x. visit_id x = k) xs \<noteq> None"
      using that unfolding find_None_iff by blast
    then show ?thesis by (auto simp: interim_def)
  qed
  then have "fst ` set ?B \<subseteq> dom (interim st xs phi)" using batch_ids [of st xs] by fast
  from apply_layout_changes_eq [OF distinct_batch [OF assms] this]
  have "apply_layout_changes ?B (interim st xs phi) = Some ?M"
    by (simp add: batch_lookup [OF assms] interim_def fun_eq_iff interim_window_def
        interim_layout_def win_item_batch_def make_ipc_window_def split: option.split prod.splits)
  then show ?thesis
    by (cases "?B = []") simp_all
qed

lemma play_closed:
  "distinct ids \<Longrightarrow> set ids \<subseteq> dom m \<Longrightarrow>
     play (windows_apply ord) (map WindowClosed ids) \<lparr>windows = m\<rparr> =
       Some \<lparr>windows = m |` (- set ids)\<rparr>"
proof (induction ids arbitrary: m)
  case Nil
  then show ?case by simp
next
  case (Cons i ids)
  then obtain w where "m i = Some w" by auto
  moreover have "set ids \<subseteq> dom (m(i := None))" using Cons.prems by auto
  moreover have "m(i := None) |` (- set ids) = m |` (- set (i # ids))"
    by (auto simp: restrict_map_def fun_eq_iff)
  ultimately show ?case using Cons.IH [of "m(i := None)"] Cons.prems by (simp del: fun_upd_apply restrict_fun_upd)
qed


lemma windows_ok_focus:
  assumes "windows_ok st xs" and "List.find (\<lambda>x. visit_id x = k) xs = Some x"
  shows "k \<in> focused_ids xs \<longleftrightarrow> mw_is_focused (fst x)"
proof -
  have x: "x \<in> set xs" "visit_id x = k"
    using assms(2) find_visit_Some by (metis find_Some_iff nth_mem, blast)
  have inj: "y = x" if "y \<in> set xs" "visit_id y = k" for y
    using assms(1) x that unfolding windows_ok_def distinct_map inj_on_def by blast
  show ?thesis
    using x inj unfolding focused_ids_def by blast
qed

lemma make_ipc_window_refocus:
  "f = mw_is_focused (fst x) \<Longrightarrow> (make_ipc_window x)\<lparr>win_is_focused := f\<rparr> = make_ipc_window x"
  by (simp add: make_ipc_window_def split: prod.splits)

lemma play_last_focus:
  assumes ok: "windows_ok st items" and phi: "focus_progress st items phi"
  shows "play (windows_apply ord)
      (if (\<forall>x \<in> set items. \<not> mw_is_focused (fst x)) \<and> (\<exists>k. was_focused st k)
       then [WindowFocusChanged None] else [])
      \<lparr>windows = \<lambda>k. map_option (\<lambda>x. (make_ipc_window x)\<lparr>win_is_focused := phi k\<rparr>)
        (List.find (\<lambda>x. visit_id x = k) items)\<rparr> = Some \<lparr>windows = win_snapshot items\<rparr>"
    (is "play _ (if ?none \<and> ?some then _ else _) \<lparr>windows = ?N\<rparr> = _")
proof -
  have foc: "k \<in> focused_ids items \<longleftrightarrow> mw_is_focused (fst x)"
    if "List.find (\<lambda>x. visit_id x = k) items = Some x" for k x
    by (rule windows_ok_focus [OF ok that])
  have none: "?none \<longleftrightarrow> focused_ids items = {}" unfolding focused_ids_def by blast
  show ?thesis
  proof (cases "?none \<and> ?some")
    case True
    then have "values_mut (\<lambda>v. v\<lparr>win_is_focused := False\<rparr>) ?N k = win_snapshot items k" for k
      using none foc [of k]
      by (cases "List.find (\<lambda>x. visit_id x = k) items")
         (simp_all add: values_mut_def win_snapshot_def make_ipc_window_refocus)
    with True show ?thesis by (simp add: fun_eq_iff)
  next
    case False
    then have "phi k = (k \<in> focused_ids items)" for k
      using phi none by (auto simp: focus_progress_def split: if_splits)
    then have "?N k = win_snapshot items k" for k
      using foc [of k]
      by (cases "List.find (\<lambda>x. visit_id x = k) items")
         (simp_all add: win_snapshot_def make_ipc_window_refocus)
    then have "?N = win_snapshot items" by (rule ext)
    with False show ?thesis by (simp only: if_False play_Nil)
  qed
qed

lemma window_events_exact:
  assumes "hash_iter ord" and "win_inv st" and "windows_ok st items"
  shows "play (windows_apply ord) (window_events ord st items) \<lparr>windows = st\<rparr> =
           Some \<lparr>windows = win_snapshot items\<rparr>"
proof -
  have d: "distinct (map visit_id items)" using assms(3) by (simp add: windows_ok_def)
  obtain phi where A: "play (windows_apply ord) (concat (map (win_item_events st) items)) \<lparr>windows = st\<rparr> =
      Some \<lparr>windows = interim st items phi\<rparr>" and phi: "focus_progress st items phi"
    using play_items [OF assms] by blast
  let ?M = "\<lambda>k. case List.find (\<lambda>x. visit_id x = k) items of
        Some x \<Rightarrow> Some ((make_ipc_window x)\<lparr>win_is_focused := phi k\<rparr>)
      | None \<Rightarrow> map_option (\<lambda>w. w\<lparr>win_is_focused := phi k\<rparr>) (st k)"
  let ?N = "\<lambda>k. map_option (\<lambda>x. (make_ipc_window x)\<lparr>win_is_focused := phi k\<rparr>)
      (List.find (\<lambda>x. visit_id x = k) items)"
  let ?closed = "filter (\<lambda>i. i \<notin> visit_id ` set items) (ord (dom st))"
  have ids: "k \<in> visit_id ` set items \<longleftrightarrow> List.find (\<lambda>x. visit_id x = k) items \<noteq> None" for k
    unfolding find_None_iff by blast
  have "play (windows_apply ord) (map WindowClosed ?closed) \<lparr>windows = ?M\<rparr> =
      Some \<lparr>windows = ?M |` (- set ?closed)\<rparr>"
    using hash_iter.ord_distinct [OF assms(1)] hash_iter.ord_set [OF assms(1)]
    by (intro play_closed) (auto simp: ids split: option.splits)
  moreover have "?M |` (- set ?closed) = ?N"
    using hash_iter.ord_set [OF assms(1)]
    by (auto simp: restrict_map_def fun_eq_iff ids domIff split: option.splits)
  ultimately have C: "play (windows_apply ord) (map WindowClosed ?closed) \<lparr>windows = ?M\<rparr> =
      Some \<lparr>windows = ?N\<rparr>" by simp
  let ?last = "if (\<forall>x \<in> set items. \<not> mw_is_focused (fst x)) \<and> (\<exists>k. was_focused st k)
      then [WindowFocusChanged None] else []"
  have "play (windows_apply ord) ?last \<lparr>windows = ?N\<rparr> = Some \<lparr>windows = win_snapshot items\<rparr>"
    by (rule play_last_focus [OF assms(3) phi])
  moreover have "window_events ord st items = concat (map (win_item_events st) items) @
      (if concat (map (win_item_batch st) items) \<noteq> []
       then [WindowLayoutsChanged (concat (map (win_item_batch st) items))] else []) @
      map WindowClosed ?closed @ ?last"
  proof -
    have "filter (\<lambda>i. win_is_focused (the (st i))) (ord (dom st)) \<noteq> [] \<longleftrightarrow> (\<exists>k. was_focused st k)"
      using hash_iter.ord_set [OF assms(1)]
      by (force simp: was_focused_def filter_empty_conv split: option.splits)
    then show ?thesis
      by (simp add: window_events_def Let_def fold_win_visit fold_win_visit_focused)
  qed
  ultimately show ?thesis
    by (simp only: play_append A play_batch [OF d] C Option.bind.simps)
qed


lemma win_snapshot_inv:
  assumes "windows_ok st items"
  shows "win_inv (win_snapshot items)"
proof -
  have "keyed win_id (win_snapshot items)"
    unfolding keyed_def
  proof (intro allI impI)
    fix k v
    assume "win_snapshot items k = Some v"
    then show "win_id v = k"
      using find_visit_Some [of k items]
      by (cases "List.find (\<lambda>x. visit_id x = k) items") (simp_all add: win_snapshot_def, force)
  qed
  moreover have "k = k'" if kk: "was_focused (win_snapshot items) k" "was_focused (win_snapshot items) k'" for k k'
  proof -
    from kk obtain x y where
      x: "List.find (\<lambda>x. visit_id x = k) items = Some x" "mw_is_focused (fst x)" and
      y: "List.find (\<lambda>x. visit_id x = k') items = Some y" "mw_is_focused (fst y)"
      by (cases "List.find (\<lambda>x. visit_id x = k) items";
          cases "List.find (\<lambda>x. visit_id x = k') items")
         (simp_all add: was_focused_def win_snapshot_def)
    then have "x \<in> set items" "y \<in> set items" by (metis find_Some_iff nth_mem)+
    then have "x = y" using assms x y unfolding windows_ok_def by blast
    then show "k = k'" using x y find_visit_Some by metis
  qed
  ultimately show ?thesis unfolding win_inv_def one_focused_def by blast
qed

lemma window_events_play:
  assumes "hash_iter ord" and "win_inv (windows w)" and "windows_ok (windows w) items"
  shows "play (windows_apply ord) (window_events ord (windows w) items) w =
           Some \<lparr>windows = win_snapshot items\<rparr>"
  using window_events_exact [OF assms] by (cases w) simp

lemma refresh_windows_state:
  assumes "hash_iter ord" and "win_inv (windows (es_windows (event_stream_state srv)))"
    and "windows_ok (windows (es_windows (event_stream_state srv))) items"
  shows "\<exists>srv'. ipc_refresh_windows ts ord items srv = Some srv' \<and>
     event_stream_state srv' =
       (event_stream_state srv)\<lparr>es_windows := \<lparr>windows = win_snapshot items\<rparr>\<rparr>"
proof -
  from window_events_play [OF assms]
  have "play (windows_apply ord)
      (window_events ord (windows (es_windows (event_stream_state srv))) items)
      (es_windows (event_stream_state srv)) = Some \<lparr>windows = win_snapshot items\<rparr>" .
  from win_access.emit_events_state [OF this] show ?thesis
    by (simp add: ipc_refresh_windows_def)
qed

end
