(* ===== verification/Ipc_Clients.thy ===== *)
theory Ipc_Clients
  imports Ipc_Windows
begin

text \<open>
  What a connected client sees. The log of a client is the sequence of events its channel has
  accepted. The invariant of the server is that playing the log of any connected client from the
  default state gives the server's own state: a client that is too slow is disconnected, never left
  with a gap. Every refresh keeps it and the admission of a new client establishes it.
\<close>

section \<open>Logs\<close>

definition keeps_log :: "'c try_send \<Rightarrow> ('c \<Rightarrow> Event list) \<Rightarrow> bool" where
  "keeps_log try_send lg \<longleftrightarrow>
     (\<forall>e c c'. try_send e c = (SendOk, c') \<longrightarrow> lg c' = lg c @ [e])"

definition server_synced ::
    "key_order \<Rightarrow> ('c \<Rightarrow> Event list) \<Rightarrow> 'c IpcServer \<Rightarrow> bool" where
  "server_synced ord lg srv \<longleftrightarrow> es_wf (event_stream_state srv) \<and>
     (\<forall>c \<in> set (event_streams srv).
        play (es_apply ord) (lg c) es_default = Some (event_stream_state srv))"

lemma send_event_synced:
  assumes "keeps_log ts lg" and "hash_iter ord" and "server_synced ord lg srv"
    and "es_apply ord e (event_stream_state srv) = Some (s', r)"
    and "send_event ts e (srv\<lparr>event_stream_state := s'\<rparr>) = Some srv'"
  shows "server_synced ord lg srv'"
proof -
  have st: "event_stream_state srv' = s'" and
    ms: "mset (event_streams srv') =
       mset (map snd (filter (\<lambda>r. fst r = SendOk) (map (ts e) (event_streams srv))))"
    using send_event_correct [of ts e "srv\<lparr>event_stream_state := s'\<rparr>"] assms(5) by auto
  have "es_wf s'"
    using hash_iter.stream_wf_play [OF assms(2), of "event_stream_state srv" "[e]"] assms(3,4)
    by (simp add: server_synced_def)
  moreover have "play (es_apply ord) (lg c) es_default = Some s'" if "c \<in> set (event_streams srv')" for c
  proof -
    from that have "c \<in> set (map snd (filter (\<lambda>r. fst r = SendOk) (map (ts e) (event_streams srv))))"
      using mset_eq_setD [OF ms] by simp
    then obtain b where b: "b \<in> set (event_streams srv)" "ts e b = (SendOk, c)"
      by auto (metis prod.collapse)
    then have "lg c = lg b @ [e]" using assms(1) by (simp add: keeps_log_def)
    then show ?thesis using assms(3,4) b(1) by (simp add: server_synced_def play_append)
  qed
  ultimately show ?thesis by (simp add: server_synced_def st)
qed

section \<open>Events of one part are events of the stream\<close>

text \<open>
  The server applies an event to one part of its state only; a client applies it to the whole
  state. The law of this interface is that for the events of the part the two agree.
\<close>

locale stream_part = part_access get put
  for get :: "EventStreamState \<Rightarrow> 'p" and put +
  fixes ord :: key_order
    and takes :: "Event \<Rightarrow> bool"
    and app :: "Event \<Rightarrow> 'p \<Rightarrow> 'p applied"
  assumes embed: "takes e \<Longrightarrow> app e (get s) = Some (p, r) \<Longrightarrow>
      \<exists>r'. es_apply ord e s = Some (put p s, r')"
begin

lemma emit_events_synced:
  assumes lg: "keeps_log ts lg" and h: "hash_iter ord"
  shows "server_synced ord lg srv \<Longrightarrow> \<forall>e \<in> set evs. takes e \<Longrightarrow>
    emit_events ts app get put evs srv = Some srv' \<Longrightarrow> server_synced ord lg srv'"
proof (induction evs arbitrary: srv)
  case Nil
  then show ?case by (simp add: emit_events_def)
next
  case (Cons e evs)
  from Cons.prems(3) obtain p r srv1 where
    p: "app e (get (event_stream_state srv)) = Some (p, r)" and
    srv1: "send_event ts e (srv\<lparr>event_stream_state := put p (event_stream_state srv)\<rparr>) = Some srv1" and
    rest: "emit_events ts app get put evs srv1 = Some srv'"
    by (auto simp: emit_events_def bind_eq_Some_conv)
  obtain r' where "es_apply ord e (event_stream_state srv) = Some (put p (event_stream_state srv), r')"
    using embed [OF _ p] Cons.prems(2) by auto
  then have "server_synced ord lg srv1"
    by (rule send_event_synced [OF lg h Cons.prems(1) _ srv1])
  then show ?case using Cons.IH Cons.prems(2) rest by simp
qed

end

fun is_ws_event :: "Event \<Rightarrow> bool" where
  "is_ws_event (WorkspacesChanged w) = True"
| "is_ws_event (WorkspaceUrgencyChanged i u) = True"
| "is_ws_event (WorkspaceActivated i b) = True"
| "is_ws_event (WorkspaceActiveWindowChanged i w) = True"
| "is_ws_event _ = False"

fun is_win_event :: "Event \<Rightarrow> bool" where
  "is_win_event (WindowsChanged w) = True"
| "is_win_event (WindowOpenedOrChanged w) = True"
| "is_win_event (WindowClosed i) = True"
| "is_win_event (WindowFocusChanged i) = True"
| "is_win_event (WindowFocusTimestampChanged i t) = True"
| "is_win_event (WindowUrgencyChanged i u) = True"
| "is_win_event (WindowLayoutsChanged c) = True"
| "is_win_event _ = False"

fun is_kbd_event :: "Event \<Rightarrow> bool" where
  "is_kbd_event (KeyboardLayoutsChanged k) = True"
| "is_kbd_event (KeyboardLayoutSwitched i) = True"
| "is_kbd_event _ = False"

fun is_overview_event :: "Event \<Rightarrow> bool" where
  "is_overview_event (OverviewOpenedOrClosed b) = True"
| "is_overview_event _ = False"

interpretation ws_stream: stream_part es_workspaces "\<lambda>p s. s\<lparr>es_workspaces := p\<rparr>" ord
    is_ws_event workspaces_apply for ord
proof (unfold_locales, goal_cases)
  case (1 e s p r)
  then show ?case by (cases e) (auto simp: es_apply_simps split: option.splits)
qed

interpretation win_stream: stream_part es_windows "\<lambda>p s. s\<lparr>es_windows := p\<rparr>" ord
    is_win_event "windows_apply ord" for ord
proof (unfold_locales, goal_cases)
  case (1 e s p r)
  then show ?case by (cases e) (auto simp: es_apply_simps Let_def split: option.splits)
qed

interpretation kbd_stream: stream_part es_keyboard_layouts "\<lambda>p s. s\<lparr>es_keyboard_layouts := p\<rparr>" ord
    is_kbd_event keyboard_layouts_apply for ord
proof (unfold_locales, goal_cases)
  case (1 e s p r)
  then show ?case by (cases e) (auto simp: es_apply_simps split: option.splits)
qed

interpretation overview_stream: stream_part es_overview "\<lambda>p s. s\<lparr>es_overview := p\<rparr>" ord
    is_overview_event overview_apply for ord
proof (unfold_locales, goal_cases)
  case (1 e s p r)
  then show ?case by (cases e) (auto simp: es_apply_simps split: option.splits)
qed

interpretation whole_stream: stream_part "\<lambda>s. s" "\<lambda>p s. p" ord "\<lambda>_. True" "es_apply ord" for ord
  by unfold_locales blast

lemma ws_changes_events: "ws_changes st f item = Some evs \<Longrightarrow> e \<in> set evs \<Longrightarrow> is_ws_event e"
  by (auto simp: ws_changes_def split: prod.splits option.splits if_splits)

lemma ws_scan_events:
  "ws_scan st f items seen evs = (b, seen', evs') \<Longrightarrow> \<forall>e \<in> set evs. is_ws_event e \<Longrightarrow>
     \<forall>e \<in> set evs'. is_ws_event e"
proof (induction st f items seen evs rule: ws_scan.induct)
  case (1 st f seen evs)
  then show ?case by simp
next
  case (2 st f item items seen evs)
  show ?case
  proof (cases "ws_changes st f item")
    case None
    with 2 show ?thesis by (simp add: Let_def)
  next
    case (Some es)
    then have "\<forall>e \<in> set (evs @ es). is_ws_event e"
      using "2.prems"(2) ws_changes_events [OF Some] by auto
    with 2 Some show ?thesis by (simp add: Let_def)
  qed
qed

lemma workspace_events_ws: "\<forall>e \<in> set (workspace_events st f items). is_ws_event e"
  using ws_scan_events [of st f items "{}" "[]"]
  by (cases "ws_scan st f items {} []") (simp add: workspace_events_def)

lemma window_events_win: "\<forall>e \<in> set (window_events ord st items). is_win_event e"
  by (auto simp: window_events_def Let_def fold_win_visit win_item_events_def split: if_splits)

section \<open>Every refresh keeps the clients in step\<close>

lemma refresh_workspaces_synced:
  "keeps_log ts lg \<Longrightarrow> hash_iter ord \<Longrightarrow> server_synced ord lg srv \<Longrightarrow>
     ipc_refresh_workspaces ts lay srv = Some srv' \<Longrightarrow> server_synced ord lg srv'"
  using ws_stream.emit_events_synced workspace_events_ws
  by (fastforce simp: ipc_refresh_workspaces_def bind_eq_Some_conv)

lemma refresh_windows_synced:
  "keeps_log ts lg \<Longrightarrow> hash_iter ord \<Longrightarrow> server_synced ord lg srv \<Longrightarrow>
     ipc_refresh_windows ts ord items srv = Some srv' \<Longrightarrow> server_synced ord lg srv'"
  unfolding ipc_refresh_windows_def
  by (rule win_stream.emit_events_synced) (simp_all add: window_events_win)

lemma refresh_overview_synced:
  "keeps_log ts lg \<Longrightarrow> hash_iter ord \<Longrightarrow> server_synced ord lg srv \<Longrightarrow>
     ipc_refresh_overview ts b srv = Some srv' \<Longrightarrow> server_synced ord lg srv'"
  using overview_stream.emit_events_synced [of ts lg ord srv "[OverviewOpenedOrClosed b]"]
  by (auto simp: ipc_refresh_overview_def split: if_splits)


lemma refresh_layout_synced:
  assumes "keeps_log ts lg" and "hash_iter ord" and "server_synced ord lg srv"
    and "ipc_refresh_layout ts ord lay items b srv = Some srv'"
  shows "server_synced ord lg srv'"
proof -
  from assms(4) obtain srv1 srv2 where
    "ipc_refresh_workspaces ts lay srv = Some srv1" "ipc_refresh_windows ts ord items srv1 = Some srv2"
    "ipc_refresh_overview ts b srv2 = Some srv'"
    by (auto simp: ipc_refresh_layout_def bind_eq_Some_conv)
  then show ?thesis
    using assms refresh_workspaces_synced refresh_windows_synced refresh_overview_synced by metis
qed

lemma keyboard_synced:
  assumes "keeps_log ts lg" and "hash_iter ord" and "server_synced ord lg srv"
  shows "ipc_keyboard_layouts_changed ts k srv = Some srv' \<Longrightarrow> server_synced ord lg srv'"
    and "ipc_refresh_keyboard_layout_index ts i srv = Some srv' \<Longrightarrow> server_synced ord lg srv'"
  using kbd_stream.emit_events_synced [OF assms, of "[KeyboardLayoutsChanged k]"]
    kbd_stream.emit_events_synced [OF assms, of "[KeyboardLayoutSwitched i]"] assms(3)
  by (auto simp: ipc_keyboard_layouts_changed_def ipc_refresh_keyboard_layout_index_def
      bind_eq_Some_conv split: if_splits)

lemma whole_synced:
  assumes "keeps_log ts lg" and "hash_iter ord" and "server_synced ord lg srv"
  shows "ipc_config_loaded ts ord b srv = Some srv' \<Longrightarrow> server_synced ord lg srv'"
    and "ipc_screenshot_taken ts ord path srv = Some srv' \<Longrightarrow> server_synced ord lg srv'"
  using whole_stream.emit_events_synced [OF assms, of "[ConfigLoaded b]"]
    whole_stream.emit_events_synced [OF assms, of "[ScreenshotCaptured path]"]
  by (auto simp: ipc_config_loaded_def ipc_screenshot_taken_def)

lemma burst_log:
  "keeps_log ts lg \<Longrightarrow>
     for_each (\<lambda>e c. case ts e c of (SendOk, c') \<Rightarrow> Some c' | _ \<Rightarrow> None) evs c = Some c' \<Longrightarrow>
     lg c' = lg c @ evs"
proof (induction evs arbitrary: c)
  case Nil
  then show ?case by simp
next
  case (Cons e evs)
  then obtain c1 where "ts e c = (SendOk, c1)"
    "for_each (\<lambda>e c. case ts e c of (SendOk, c') \<Rightarrow> Some c' | _ \<Rightarrow> None) evs c1 = Some c'"
    by (auto simp: bind_eq_Some_conv split: prod.splits send_result.splits)
  with Cons.IH [of c1] Cons.prems(1) show ?case by (simp add: keeps_log_def)
qed

lemma add_event_stream_synced:
  assumes "keeps_log ts lg" and "hash_iter ord" and "server_synced ord lg srv"
    and "lg new = []" and "add_event_stream ts ord new srv = Some srv'"
  shows "server_synced ord lg srv'"
proof -
  from assms(5) obtain c where
    c: "for_each (\<lambda>e c. case ts e c of (SendOk, c') \<Rightarrow> Some c' | _ \<Rightarrow> None)
          (es_replicate ord (event_stream_state srv)) new = Some c" and
    srv': "srv' = srv\<lparr>event_streams := event_streams srv @ [c]\<rparr>"
    by (auto simp: add_event_stream_def bind_eq_Some_conv)
  have "play (es_apply ord) (lg c) es_default = Some (event_stream_state srv)"
    using hash_iter.stream_late_join [OF assms(2), of "event_stream_state srv" "[]"] assms(3,4)
      burst_log [OF assms(1) c]
    by (simp add: server_synced_def)
  with assms(3) show ?thesis by (auto simp: srv' server_synced_def)
qed

section \<open>The server as a state machine\<close>

definition fresh_server :: "'c IpcServer" where
  "fresh_server = \<lparr>event_streams = [], disconnected = [], event_stream_state = es_default\<rparr>"

text \<open>
  The steps of the server, and \<open>receive\<close>: a client takes events out of its channel, which changes
  the channel but not the log of what it accepted.
\<close>

inductive server_step ::
    "'c try_send \<Rightarrow> key_order \<Rightarrow> ('c \<Rightarrow> Event list) \<Rightarrow> 'c \<Rightarrow> 'c IpcServer \<Rightarrow> 'c IpcServer \<Rightarrow> bool"
  for ts :: "'c try_send" and ord :: key_order and lg :: "'c \<Rightarrow> Event list" and new :: 'c where
  connect: "add_event_stream ts ord new srv = Some srv' \<Longrightarrow> server_step ts ord lg new srv srv'"
| layout: "ipc_refresh_layout ts ord lay items b srv = Some srv' \<Longrightarrow> server_step ts ord lg new srv srv'"
| layouts: "ipc_keyboard_layouts_changed ts k srv = Some srv' \<Longrightarrow> server_step ts ord lg new srv srv'"
| layout_index: "ipc_refresh_keyboard_layout_index ts i srv = Some srv' \<Longrightarrow> server_step ts ord lg new srv srv'"
| config: "ipc_config_loaded ts ord b srv = Some srv' \<Longrightarrow> server_step ts ord lg new srv srv'"
| receive: "list_all2 (\<lambda>c c'. lg c' = lg c) (event_streams srv) cs \<Longrightarrow>
    server_step ts ord lg new srv (srv\<lparr>event_streams := cs\<rparr>)"
| screenshot: "ipc_screenshot_taken ts ord path srv = Some srv' \<Longrightarrow> server_step ts ord lg new srv srv'"

lemma server_step_synced:
  assumes "keeps_log ts lg" and "hash_iter ord" and "lg new = []" and "server_synced ord lg srv"
    and "server_step ts ord lg new srv srv'"
  shows "server_synced ord lg srv'"
  using assms(5)
proof cases
  case connect
  then show ?thesis using add_event_stream_synced [OF assms(1,2,4,3)] by blast
next
  case (layout lay items b)
  then show ?thesis using refresh_layout_synced [OF assms(1,2,4)] by blast
next
  case (receive cs)
  have "\<exists>b \<in> set (event_streams srv). lg c = lg b" if c: "c \<in> set cs" for c
  proof -
    from c obtain i where "i < length cs" "c = cs ! i" unfolding in_set_conv_nth by blast
    with list_all2_nthD2 [OF receive(2), of i] list_all2_lengthD [OF receive(2)]
    show ?thesis by (intro bexI [of _ "event_streams srv ! i"]) simp_all
  qed
  with receive assms(4) show ?thesis by (fastforce simp: server_synced_def)
qed (use keyboard_synced [OF assms(1,2,4)] whole_synced [OF assms(1,2,4)] in blast)+

lemma fresh_server_synced: "server_synced ord lg fresh_server"
  by (simp add: server_synced_def fresh_server_def es_wf_def ws_wf_def win_wf_def casts_wf_def
      es_default_def workspaces_default_def windows_default_def casts_default_def)

text \<open>C1. In every state the event stream server can reach from start-up, through any
  interleaving of new connections, layout refreshes, keyboard, configuration and screenshot events
  and of clients being dropped for being slow, replaying what a connected client has received
  rebuilds exactly the server's state: no client ever misses, repeats or reorders an event.\<close>

theorem clients_in_step:
  assumes "keeps_log ts lg" and "hash_iter ord" and "lg new = []"
    and "(server_step ts ord lg new)\<^sup>*\<^sup>* fresh_server srv"
    and "c \<in> set (event_streams srv)"
  shows "play (es_apply ord) (lg c) es_default = Some (event_stream_state srv)"
proof -
  from assms(4) have "server_synced ord lg srv"
  proof (induction rule: rtranclp_induct)
    case base
    show ?case by (rule fresh_server_synced)
  next
    case (step srv srv')
    then show ?case using server_step_synced [OF assms(1,2,3)] by blast
  qed
  with assms(5) show ?thesis by (simp add: server_synced_def)
qed


section \<open>The layout refresh and the admission of a client\<close>

definition replica_ok :: "EventStreamState \<Rightarrow> bool" where
  "replica_ok s \<longleftrightarrow> ws_inv (workspaces (es_workspaces s)) \<and> win_inv (windows (es_windows s))"

definition layout_view ::
    "IpcMonitorSet \<Rightarrow> with_windows_item list \<Rightarrow> bool \<Rightarrow> EventStreamState \<Rightarrow> EventStreamState" where
  "layout_view lay items ov s =
     s\<lparr>es_workspaces := \<lparr>workspaces = layout_snapshot lay\<rparr>,
       es_windows := \<lparr>windows = win_snapshot items\<rparr>, es_overview := \<lparr>is_open = ov\<rparr>\<rparr>"

lemma refresh_overview_state:
  "\<exists>srv'. ipc_refresh_overview ts b srv = Some srv' \<and>
     event_stream_state srv' = (event_stream_state srv)\<lparr>es_overview := \<lparr>is_open = b\<rparr>\<rparr>"
proof (cases "is_open (es_overview (event_stream_state srv)) = b")
  case True
  then have "es_overview (event_stream_state srv) = \<lparr>is_open = b\<rparr>" by simp
  then show ?thesis
    using True by (cases "event_stream_state srv") (simp add: ipc_refresh_overview_def)
next
  case False
  have "play overview_apply [OverviewOpenedOrClosed b] (es_overview (event_stream_state srv)) =
      Some \<lparr>is_open = b\<rparr>" by simp
  from overview_access.emit_events_state [OF this] False show ?thesis
    by (simp add: ipc_refresh_overview_def)
qed

text \<open>C6. A layout refresh never panics and is exact: whatever the replicated state was, the
  events it emits turn it into the layout's workspaces (with index, output, name, urgency, active
  and focused flags), the layout's windows and the overview flag, and it re-establishes the
  invariant that the next refresh relies on. The layout guarantees distinct ids, valid active
  indices, at most one focused window and constant process ids.\<close>

theorem refresh_layout_exact:
  assumes "hash_iter ord" and "monitor_set_ok lay" and "replica_ok (event_stream_state srv)"
    and "windows_ok (windows (es_windows (event_stream_state srv))) items"
  shows "\<exists>srv'. ipc_refresh_layout ts ord lay items b srv = Some srv' \<and>
     event_stream_state srv' = layout_view lay items b (event_stream_state srv) \<and>
     replica_ok (event_stream_state srv')"
proof -
  obtain srv1 where 1: "ipc_refresh_workspaces ts lay srv = Some srv1"
    "event_stream_state srv1 =
       (event_stream_state srv)\<lparr>es_workspaces := \<lparr>workspaces = layout_snapshot lay\<rparr>\<rparr>"
    "ws_inv (layout_snapshot lay)"
    using refresh_workspaces_state [OF assms(2)] assms(3) by (auto simp: replica_ok_def)
  then obtain srv2 where 2: "ipc_refresh_windows ts ord items srv1 = Some srv2"
    "event_stream_state srv2 =
       (event_stream_state srv1)\<lparr>es_windows := \<lparr>windows = win_snapshot items\<rparr>\<rparr>"
    using refresh_windows_state [OF assms(1), of srv1 items ts] assms(3,4)
    by (auto simp: replica_ok_def)
  obtain srv3 where "ipc_refresh_overview ts b srv2 = Some srv3"
    "event_stream_state srv3 = (event_stream_state srv2)\<lparr>es_overview := \<lparr>is_open = b\<rparr>\<rparr>"
    using refresh_overview_state by blast
  with 1 2 show ?thesis
    using win_snapshot_inv [OF assms(4)]
    by (simp add: ipc_refresh_layout_def layout_view_def replica_ok_def)
qed

text \<open>A bounded channel accepts an event while it is open and below its capacity.\<close>

definition bounded_channel :: "'c try_send \<Rightarrow> ('c \<Rightarrow> nat) \<Rightarrow> nat \<Rightarrow> bool" where
  "bounded_channel ts len cap \<longleftrightarrow>
     (\<forall>e c. len c < cap \<longrightarrow> (\<exists>c'. ts e c = (SendOk, c') \<and> len c' = Suc (len c)))"

lemma burst_fits:
  assumes "bounded_channel ts len cap"
  shows "len c + length evs \<le> cap \<Longrightarrow>
    \<exists>c'. for_each (\<lambda>e c. case ts e c of (SendOk, c') \<Rightarrow> Some c' | _ \<Rightarrow> None) evs c = Some c'"
proof (induction evs arbitrary: c)
  case Nil
  then show ?case by simp
next
  case (Cons e evs)
  then have "len c < cap" by simp
  then obtain c1 where "ts e c = (SendOk, c1)" "len c1 = Suc (len c)"
    using assms unfolding bounded_channel_def by blast
  with Cons.IH [of c1] Cons.prems show ?case by simp
qed

lemma es_replicate_length: "length (es_replicate ord s) \<le> 6"
  by (simp add: es_replicate_def workspaces_replicate_def windows_replicate_def
      keyboard_layouts_replicate_def overview_replicate_def config_replicate_def
      casts_replicate_def split: option.split)

text \<open>C9. The initial burst of events always fits in a new client's buffer, so the
  \<^verbatim>\<open>unwrap\<close> on the first sends cannot panic and the client is registered.\<close>

theorem add_event_stream_succeeds:
  assumes "bounded_channel ts len EVENT_STREAM_BUFFER_SIZE" and "len new = 0"
  shows "\<exists>c. add_event_stream ts ord new srv = Some (srv\<lparr>event_streams := event_streams srv @ [c]\<rparr>)"
proof -
  have "len new + length (es_replicate ord (event_stream_state srv)) \<le> EVENT_STREAM_BUFFER_SIZE"
    using es_replicate_length [of ord "event_stream_state srv"] assms(2)
    by (simp add: EVENT_STREAM_BUFFER_SIZE_def)
  from burst_fits [OF assms(1) this] show ?thesis by (auto simp: add_event_stream_def)
qed

lemma es_default_simps:
  "es_workspaces es_default = \<lparr>workspaces = Map.empty\<rparr>" "es_windows es_default = \<lparr>windows = Map.empty\<rparr>"
  by (simp_all add: es_default_def workspaces_default_def windows_default_def)

lemma es_default_replica_ok: "replica_ok es_default"
  by (simp add: replica_ok_def es_default_simps ws_inv_def win_inv_def keyed_def one_focused_def
      was_focused_def)

theorem clients_in_step_witness:
  "\<exists>srv. (server_step (\<lambda>e c. (SendOk, c @ [e])) sorted_list_of_set (\<lambda>c. c) [])\<^sup>*\<^sup>* fresh_server srv \<and>
     event_streams srv \<noteq> [] \<and>
     play (es_apply sorted_list_of_set) (hd (event_streams srv)) es_default =
       Some (event_stream_state srv)"
proof -
  let ?ts = "\<lambda>e c. (SendOk, c @ [e])"
  let ?c = "es_replicate sorted_list_of_set es_default"
  have burst: "for_each (\<lambda>e c. case ?ts e c of (SendOk, c') \<Rightarrow> Some c' | _ \<Rightarrow> None) es c = Some (c @ es)"
    for es c :: "Event list" by (induction es arbitrary: c) simp_all
  let ?srv = "fresh_server\<lparr>event_streams := [?c]\<rparr>"
  have "add_event_stream ?ts sorted_list_of_set [] fresh_server = Some ?srv"
    using burst [of ?c "[]"] by (simp add: add_event_stream_def fresh_server_def)
  then have step: "server_step ?ts sorted_list_of_set (\<lambda>c. c) [] fresh_server ?srv"
    by (rule server_step.connect)
  then have "play (es_apply sorted_list_of_set) ?c es_default = Some (event_stream_state ?srv)"
    by (intro clients_in_step [where ts = ?ts and new = "[]" and lg = "\<lambda>c. c", of sorted_list_of_set])
       (auto simp: keeps_log_def sorted_order.hash_iter_axioms)
  with step show ?thesis by (intro exI [of _ ?srv]) auto
qed

text \<open>One output with two workspaces and a focused window.\<close>

definition sample_monitors :: IpcMonitorSet where
  "sample_monitors = MonitorsNormal [\<lparr>im_output_name = ''eDP-1'',
     im_workspaces = [\<lparr>iw_id = 1, iw_name = None, iw_is_urgent = False, iw_active_window = Some 7\<rparr>,
                      \<lparr>iw_id = 2, iw_name = Some ''web'', iw_is_urgent = True, iw_active_window = None\<rparr>],
     im_active_workspace_idx = 0\<rparr>] 0"

definition sample_windows :: "with_windows_item list" where
  "sample_windows = [(\<lparr>mw_id = 7, mw_title = None, mw_app_id = None, mw_pid = Some 5,
     mw_is_focused = True, mw_is_floating = False, mw_is_urgent = False, mw_focus_timestamp = None\<rparr>,
     Some 1, \<lparr>pos_in_scrolling_layout = Some (1, 1), tile_size_f = (800, 600), window_size_f = (800, 600),
              tile_pos_in_workspace_view = None, window_offset_in_tile = (0, 0)\<rparr>)]"

theorem refresh_layout_exact_witness:
  "\<exists>srv'. ipc_refresh_layout (\<lambda>e c. (SendOk, c @ [e])) sorted_list_of_set sample_monitors
       sample_windows True (fresh_server :: Event list IpcServer) = Some srv' \<and>
     event_stream_state srv' = layout_view sample_monitors sample_windows True es_default \<and>
     replica_ok (event_stream_state srv')"
proof -
  have "monitor_set_ok sample_monitors" by (simp add: sample_monitors_def)
  moreover have "windows_ok (windows (es_windows es_default)) sample_windows"
    by (simp add: windows_ok_def es_default_simps same_pid_def sample_windows_def)
  ultimately show ?thesis
    using refresh_layout_exact [OF sorted_order.hash_iter_axioms, of sample_monitors fresh_server
        sample_windows "\<lambda>e c. (SendOk, c @ [e])" True] es_default_replica_ok
    by (simp add: fresh_server_def)
qed

theorem add_event_stream_succeeds_witness:
  "\<exists>c. add_event_stream (\<lambda>e c. if length c < 64 then (SendOk, c @ [e]) else (SendFull, c))
       sorted_list_of_set [] fresh_server = Some (fresh_server\<lparr>event_streams := [c :: Event list]\<rparr>)"
  using add_event_stream_succeeds [of "\<lambda>e c. if length c < 64 then (SendOk, c @ [e]) else (SendFull, c)"
      length "[]" sorted_list_of_set fresh_server]
  by (simp add: bounded_channel_def EVENT_STREAM_BUFFER_SIZE_def fresh_server_def)

end
