(* ===== verification/Anim_Clock.thy ===== *)
theory Anim_Clock
  imports Niri_Prelude Complex_Main
begin

text \<open>
  The shareable lazy clock (\<^verbatim>\<open>src/animation/clock.rs\<close>). Floating-point numbers are real numbers and a
  \<^verbatim>\<open>Duration\<close> is a number of nanoseconds up to \<open>DURATION_MAX\<close>; an operation of \<^verbatim>\<open>Duration\<close> that
  panics is \<^term>\<open>None\<close>. What \<^verbatim>\<open>get_monotonic_time()\<close> would return is the argument \<open>sys\<close> of the
  operations that may fetch the time.
\<close>

section \<open>Durations\<close>

type_synonym nanos = nat

definition DURATION_MAX :: nanos where
  "DURATION_MAX = (2 ^ 64 - 1) * 1000000000 + 999999999"

definition from_millis :: "nat \<Rightarrow> nanos" where
  "from_millis ms = ms * 1000000"

definition as_millis :: "nanos \<Rightarrow> nat" where
  "as_millis d = d div 1000000"

definition as_secs_f64 :: "nanos \<Rightarrow> real" where
  "as_secs_f64 d = real d / 1000000000"

definition round_half_even :: "real \<Rightarrow> int" where
  "round_half_even x =
     (let f = \<lfloor>x\<rfloor>; d = x - of_int f
      in if d < 1 / 2 then f else if d > 1 / 2 then f + 1 else if even f then f else f + 1)"

text \<open>\<^verbatim>\<open>Duration::from_secs_f64\<close> panics on a negative argument and on overflow.\<close>

definition from_secs_f64 :: "real \<Rightarrow> nanos option" where
  "from_secs_f64 x =
     (let n = nat (round_half_even (x * 1000000000))
      in if x < 0 \<or> DURATION_MAX < n then None else Some n)"

definition mul_f64 :: "nanos \<Rightarrow> real \<Rightarrow> nanos option" where
  "mul_f64 d r = from_secs_f64 (as_secs_f64 d * r)"

definition saturating_add :: "nanos \<Rightarrow> nanos \<Rightarrow> nanos" where
  "saturating_add a b = min (a + b) DURATION_MAX"


section \<open>Clocks\<close>

record LazyClock =
  lazy_time :: "nanos option"

record AdjustableClock =
  clk_inner :: LazyClock
  clk_current_time :: nanos
  clk_last_seen_time :: nanos
  clk_rate :: real
  clk_complete_instantly :: bool

definition lazy_with_time :: "nanos \<Rightarrow> LazyClock" where
  "lazy_with_time t = \<lparr>lazy_time = Some t\<rparr>"

definition lazy_clear :: "LazyClock \<Rightarrow> LazyClock" where
  "lazy_clear c = c\<lparr>lazy_time := None\<rparr>"

definition lazy_set :: "nanos \<Rightarrow> LazyClock \<Rightarrow> LazyClock" where
  "lazy_set t c = c\<lparr>lazy_time := Some t\<rparr>"

definition lazy_now :: "nanos \<Rightarrow> LazyClock \<Rightarrow> nanos \<times> LazyClock" where
  "lazy_now sys c =
     (case lazy_time c of Some t \<Rightarrow> (t, c) | None \<Rightarrow> (sys, c\<lparr>lazy_time := Some sys\<rparr>))"

definition adjustable_new :: "nanos \<Rightarrow> LazyClock \<Rightarrow> AdjustableClock" where
  "adjustable_new sys c =
     (let (t, c') = lazy_now sys c
      in \<lparr>clk_inner = c', clk_current_time = t, clk_last_seen_time = t, clk_rate = 1, clk_complete_instantly = False\<rparr>)"

definition clock_with_time :: "nanos \<Rightarrow> AdjustableClock" where
  "clock_with_time t = adjustable_new t (lazy_with_time t)"

definition clock_set_rate :: "real \<Rightarrow> AdjustableClock \<Rightarrow> AdjustableClock" where
  "clock_set_rate r c = c\<lparr>clk_rate := max 0 (min r 1000)\<rparr>"

definition clock_set_complete_instantly :: "bool \<Rightarrow> AdjustableClock \<Rightarrow> AdjustableClock" where
  "clock_set_complete_instantly b c = c\<lparr>clk_complete_instantly := b\<rparr>"

definition clock_now :: "nanos \<Rightarrow> AdjustableClock \<Rightarrow> (nanos \<times> AdjustableClock) option" where
  "clock_now sys c =
     (let (t, i) = lazy_now sys (clk_inner c);
          c = c\<lparr>clk_inner := i\<rparr>
      in if clk_last_seen_time c = t then Some (clk_current_time c, c)
         else do {
           cur \<leftarrow> (if clk_last_seen_time c < t
                   then do { delta \<leftarrow> mul_f64 (t - clk_last_seen_time c) (clk_rate c);
                             Some (saturating_add (clk_current_time c) delta) }
                   else do { delta \<leftarrow> mul_f64 (clk_last_seen_time c - t) (clk_rate c);
                             Some (clk_current_time c - delta) });
           Some (cur, c\<lparr>clk_current_time := cur, clk_last_seen_time := t\<rparr>) })"

definition clock_now_unadjusted :: "nanos \<Rightarrow> AdjustableClock \<Rightarrow> nanos \<times> AdjustableClock" where
  "clock_now_unadjusted sys c = (let (t, i) = lazy_now sys (clk_inner c) in (t, c\<lparr>clk_inner := i\<rparr>))"

definition clock_set_unadjusted :: "nanos \<Rightarrow> AdjustableClock \<Rightarrow> AdjustableClock" where
  "clock_set_unadjusted t c = c\<lparr>clk_inner := lazy_set t (clk_inner c)\<rparr>"

definition clock_clear :: "AdjustableClock \<Rightarrow> AdjustableClock" where
  "clock_clear c = c\<lparr>clk_inner := lazy_clear (clk_inner c)\<rparr>"


section \<open>The clock is frozen between clears\<close>

lemma lazy_now_idem:
  "lazy_now sys c = (t, c') \<Longrightarrow> lazy_now sys' c' = (t, c')"
  by (auto simp: lazy_now_def split: option.splits)

text \<open>The clock is frozen until it is cleared or set: once it has been read, every later read
  returns the same time and leaves the clock unchanged, whatever the system's monotonic time is by
  then. All of one event loop cycle therefore sees one time.\<close>

theorem clock_frozen:
  assumes "clock_now sys c = Some (t, c')"
  shows "clock_now sys' c' = Some (t, c') \<and> clock_now_unadjusted sys' c' = (clk_last_seen_time c', c')"
proof -
  obtain u i where ui: "lazy_now sys (clk_inner c) = (u, i)" by fastforce
  then have i: "lazy_now sys' i = (u, i)" by (rule lazy_now_idem)
  from assms ui have "clk_last_seen_time c' = u" "clk_current_time c' = t" "clk_inner c' = i"
    by (auto simp: clock_now_def Let_def bind_eq_Some_conv split: if_splits)
  with i show ?thesis by (cases c') (simp add: clock_now_def clock_now_unadjusted_def Let_def)
qed

lemma round_half_even_int [simp]: "round_half_even (of_int n) = n"
  by (simp add: round_half_even_def)

lemma round_half_even_nat [simp]: "round_half_even (real n) = int n"
  using round_half_even_int [of "int n"] by simp

lemma round_half_even_mono: "x \<le> y \<Longrightarrow> round_half_even x \<le> round_half_even y"
  unfolding round_half_even_def Let_def by (smt (verit) floor_mono of_int_floor_le floor_less_iff)

lemma mul_f64_one: "d \<le> DURATION_MAX \<Longrightarrow> mul_f64 d 1 = Some d"
  by (simp add: mul_f64_def from_secs_f64_def as_secs_f64_def Let_def)


lemma mul_f64_Some:
  assumes "0 \<le> r" and "real d * r \<le> real DURATION_MAX"
  shows "mul_f64 d r = Some (nat (round_half_even (real d * r)))"
proof -
  have "round_half_even (real d * r) \<le> int DURATION_MAX"
    using round_half_even_mono [OF assms(2)] by simp
  moreover have "0 \<le> real d / 1000000000 * r" using assms(1) by simp
  ultimately show ?thesis
    by (simp add: mul_f64_def from_secs_f64_def as_secs_f64_def Let_def)
qed

lemma round_half_even_nonneg: "0 \<le> x \<Longrightarrow> 0 \<le> round_half_even x"
  using round_half_even_mono [of 0 x] round_half_even_int [of 0] by simp

text \<open>C37. Time that passes on the system advances the clock by the elapsed time scaled by the rate,
  rounded to a nanosecond, and time that goes back rewinds it by as much; the read returns the new time
  of the clock, which it remembers together with the time of the system, and changes nothing else. It
  never panics for a rate in the range that \<^verbatim>\<open>set_rate\<close> clamps to, as long as the scaled time is
  representable.\<close>

theorem clock_advances_by_rate:
  assumes "0 \<le> r" and "real (if s < t then t - s else s - t) * r \<le> real DURATION_MAX"
    and "lazy_now sys i = (t, i')"
    and "now = (if s < t then saturating_add cur (nat (round_half_even (real (t - s) * r)))
                else cur - nat (round_half_even (real (s - t) * r)))"
  shows "clock_now sys \<lparr>clk_inner = i, clk_current_time = cur, clk_last_seen_time = s, clk_rate = r,
             clk_complete_instantly = b\<rparr> =
       Some (now, \<lparr>clk_inner = i', clk_current_time = now, clk_last_seen_time = t, clk_rate = r,
             clk_complete_instantly = b\<rparr>)"
proof (cases s t rule: linorder_cases)
  case less
  then show ?thesis using assms(2-4) mul_f64_Some [OF assms(1), of "t - s"] by (simp add: clock_now_def)
next
  case equal
  then have "now = cur" using assms(4) round_half_even_int [of 0] by simp
  then show ?thesis using equal assms(3) by (simp add: clock_now_def)
next
  case greater
  then have "\<not> s < t" "s \<noteq> t" by simp_all
  then show ?thesis using assms(2-4) mul_f64_Some [OF assms(1), of "s - t"] by (simp add: clock_now_def)
qed

theorem clock_frozen_witness:
  "clock_now 99 (\<lparr>clk_inner = \<lparr>lazy_time = Some 30\<rparr>, clk_current_time = 25, clk_last_seen_time = 30,
       clk_rate = 1, clk_complete_instantly = False\<rparr>) =
     Some (25, \<lparr>clk_inner = \<lparr>lazy_time = Some 30\<rparr>, clk_current_time = 25, clk_last_seen_time = 30,
       clk_rate = 1, clk_complete_instantly = False\<rparr>)"
  using clock_frozen [of 7 "\<lparr>clk_inner = \<lparr>lazy_time = Some 30\<rparr>, clk_current_time = 5, clk_last_seen_time = 10,
       clk_rate = 1, clk_complete_instantly = False\<rparr>" 25
      "\<lparr>clk_inner = \<lparr>lazy_time = Some 30\<rparr>, clk_current_time = 25, clk_last_seen_time = 30,
       clk_rate = 1, clk_complete_instantly = False\<rparr>" 99]
  by (simp add: clock_now_def lazy_now_def Let_def mul_f64_one DURATION_MAX_def saturating_add_def)

theorem clock_advances_by_rate_witness:
  "clock_now 30 \<lparr>clk_inner = \<lparr>lazy_time = None\<rparr>, clk_current_time = 5, clk_last_seen_time = 10, clk_rate = 2,
       clk_complete_instantly = False\<rparr> =
     Some (45, \<lparr>clk_inner = \<lparr>lazy_time = Some 30\<rparr>, clk_current_time = 45, clk_last_seen_time = 30, clk_rate = 2,
       clk_complete_instantly = False\<rparr>)"
  by (rule clock_advances_by_rate)
    (use round_half_even_int [of 40] in \<open>simp_all add: DURATION_MAX_def saturating_add_def lazy_now_def\<close>)

end
