(* ===== verification/Anim_Animation.thy ===== *)
theory Anim_Animation
  imports Anim_Clock
begin

text \<open>
  Animations (\<^verbatim>\<open>src/animation/mod.rs\<close>), springs (\<^verbatim>\<open>spring.rs\<close>) and cubic Bezier easing
  (\<^verbatim>\<open>bezier.rs\<close>). An animation holds a handle to the shared clock; what it reads from it, and the two
  easing functions that come from the crate \<^verbatim>\<open>keyframe\<close>, are the record \<open>AnimEnv\<close> that every
  operation takes. The sum of a start time and a duration is not bounded here: it overflows only for
  the duration \<^verbatim>\<open>Duration::MAX\<close> of an undamped spring.
\<close>

section \<open>Data\<close>

record AnimEnv =
  av_now :: nanos
  av_now_unadjusted :: nanos
  av_rate :: real
  av_complete_instantly :: bool
  av_ease_out_quad :: "real \<Rightarrow> real"
  av_ease_out_cubic :: "real \<Rightarrow> real"

record CubicBezier =
  cb_x1 :: real
  cb_y1 :: real
  cb_x2 :: real
  cb_y2 :: real

datatype Curve = Linear | EaseOutQuad | EaseOutCubic | EaseOutExpo | CurveCubicBezier CubicBezier

record SpringParams =
  sp_damping :: real
  sp_mass :: real
  sp_stiffness :: real
  sp_epsilon :: real

record Spring =
  sg_from :: real
  sg_to :: real
  sg_initial_velocity :: real
  sg_params :: SpringParams

datatype Kind =
    KindEasing Curve
  | KindSpring Spring
  | KindDeceleration real real

record Animation =
  an_from :: real
  an_to :: real
  an_initial_velocity :: real
  an_is_off :: bool
  an_duration :: nanos
  an_clamped_duration :: nanos
  an_start_time :: nanos
  an_kind :: Kind

text \<open>The configuration of an animation (\<^verbatim>\<open>niri-config/src/animations.rs\<close>).\<close>

datatype ConfigCurve =
  CfgLinear | CfgEaseOutQuad | CfgEaseOutCubic | CfgEaseOutExpo | CfgCubicBezier real real real real

record EasingParams =
  ep_duration_ms :: u32
  ep_curve :: ConfigCurve

record CfgSpringParams =
  csp_damping_ratio :: real
  csp_stiffness :: u32
  csp_epsilon :: real

datatype ConfigKind = CfgEasing EasingParams | CfgSpring CfgSpringParams

record AnimConfig =
  ac_off :: bool
  ac_kind :: ConfigKind


section \<open>Cubic Bezier easing\<close>

definition F64_EPSILON :: real where "F64_EPSILON = 1 / 2 ^ 52"
definition F32_EPSILON :: real where "F32_EPSILON = 1 / 2 ^ 23"

definition x_for_t :: "CubicBezier \<Rightarrow> real \<Rightarrow> real" where
  "x_for_t b t =
     (let omt = 1 - t in 3 * omt * omt * t * cb_x1 b + 3 * omt * t * t * cb_x2 b + t * t * t)"

definition y_for_t :: "CubicBezier \<Rightarrow> real \<Rightarrow> real" where
  "y_for_t b t =
     (let omt = 1 - t in 3 * omt * omt * t * cb_y1 b + 3 * omt * t * t * cb_y2 b + t * t * t)"

text \<open>The bisection; the first argument counts the rounds left.\<close>

fun bisect_t :: "nat \<Rightarrow> CubicBezier \<Rightarrow> real \<Rightarrow> real \<Rightarrow> real \<Rightarrow> real" where
  "bisect_t 0 b x min_t max_t = (min_t + max_t) / 2"
| "bisect_t (Suc n) b x min_t max_t =
     (let guess_t = (min_t + max_t) / 2
      in if x < x_for_t b guess_t then bisect_t n b x min_t guess_t
         else bisect_t n b x guess_t max_t)"

definition t_for_x :: "CubicBezier \<Rightarrow> real \<Rightarrow> real" where
  "t_for_x b x = bisect_t 31 b x 0 1"

definition bezier_y :: "CubicBezier \<Rightarrow> real \<Rightarrow> real" where
  "bezier_y b x =
     (if x \<le> F64_EPSILON then 0 else if 1 - F64_EPSILON \<le> x then 1 else y_for_t b (t_for_x b x))"

fun curve_y :: "AnimEnv \<Rightarrow> Curve \<Rightarrow> real \<Rightarrow> real" where
  "curve_y ev Linear x = x"
| "curve_y ev EaseOutQuad x = av_ease_out_quad ev x"
| "curve_y ev EaseOutCubic x = av_ease_out_cubic ev x"
| "curve_y ev EaseOutExpo x = 1 - 2 powr (- 10 * x)"
| "curve_y ev (CurveCubicBezier b) x = bezier_y b x"

fun curve_from_config :: "ConfigCurve \<Rightarrow> Curve" where
  "curve_from_config CfgLinear = Linear"
| "curve_from_config CfgEaseOutQuad = EaseOutQuad"
| "curve_from_config CfgEaseOutCubic = EaseOutCubic"
| "curve_from_config CfgEaseOutExpo = EaseOutExpo"
| "curve_from_config (CfgCubicBezier a b c d) =
     CurveCubicBezier \<lparr>cb_x1 = a, cb_y1 = b, cb_x2 = c, cb_y2 = d\<rparr>"


section \<open>Springs\<close>

definition spring_params_new :: "real \<Rightarrow> real \<Rightarrow> real \<Rightarrow> SpringParams" where
  "spring_params_new damping_ratio stiffness epsilon =
     (let damping_ratio = max damping_ratio 0;
          stiffness = max stiffness 0;
          epsilon = max epsilon 0;
          mass = 1;
          critical_damping = 2 * sqrt (mass * stiffness);
          damping = damping_ratio * critical_damping
      in \<lparr>sp_damping = damping, sp_mass = mass, sp_stiffness = stiffness, sp_epsilon = epsilon\<rparr>)"

definition spring_beta :: "Spring \<Rightarrow> real" where
  "spring_beta s = sp_damping (sg_params s) / (2 * sp_mass (sg_params s))"

definition spring_omega0 :: "Spring \<Rightarrow> real" where
  "spring_omega0 s = sqrt (sp_stiffness (sg_params s) / sp_mass (sg_params s))"

text \<open>The position of the spring after \<open>t\<close> seconds.\<close>

definition oscillate :: "Spring \<Rightarrow> real \<Rightarrow> real" where
  "oscillate s t =
     (let v0 = sg_initial_velocity s;
          beta = spring_beta s;
          omega0 = spring_omega0 s;
          x0 = sg_from s - sg_to s;
          envelope = exp (- beta * t)
      in if \<bar>beta - omega0\<bar> \<le> F32_EPSILON
         then sg_to s + envelope * (x0 + (beta * x0 + v0) * t)
         else if beta < omega0
         then let omega1 = sqrt (omega0 * omega0 - beta * beta)
              in sg_to s + envelope *
                   (x0 * cos (omega1 * t) + (beta * x0 + v0) / omega1 * sin (omega1 * t))
         else let omega2 = sqrt (beta * beta - omega0 * omega0)
              in sg_to s + envelope *
                   (x0 * cosh (omega2 * t) + (beta * x0 + v0) / omega2 * sinh (omega2 * t)))"

definition spring_value_at :: "Spring \<Rightarrow> nanos \<Rightarrow> real" where
  "spring_value_at s t = oscillate s (as_secs_f64 t)"

text \<open>
  Newton's method for the overdamped spring. A zero slope makes the next position infinite, which
  the loop detects. The first argument is the number of rounds left of the 1001 the counter allows.
\<close>

definition newton_slope :: "Spring \<Rightarrow> real \<Rightarrow> real \<Rightarrow> real" where
  "newton_slope s x0 y0 = (oscillate s (x0 + 1 / 1000) - y0) / (1 / 1000)"

fun newton :: "nat \<Rightarrow> Spring \<Rightarrow> real \<Rightarrow> real \<Rightarrow> nanos option" where
  "newton n s x y =
     (if \<bar>sg_to s - y\<bar> > sp_epsilon (sg_params s)
      then (case n of
              0 \<Rightarrow> Some 0
            | Suc n' \<Rightarrow>
                let m = newton_slope s x y
                in if m = 0 then from_secs_f64 x
                   else let x' = (sg_to s - y + m * x) / m in newton n' s x' (oscillate s x'))
      else from_secs_f64 x)"

declare newton.simps [simp del]

text \<open>
  The time until the spring is at rest; \<^term>\<open>None\<close> where \<^verbatim>\<open>Duration::from_secs_f64\<close> panics, as it
  does on the infinite and undefined values that a zero epsilon or a flat first slope lead to.
\<close>

definition spring_duration :: "Spring \<Rightarrow> nanos option" where
  "spring_duration s =
     (let beta = spring_beta s
      in if \<bar>beta\<bar> \<le> F64_EPSILON \<or> beta < 0 then Some DURATION_MAX
         else if \<bar>sg_to s - sg_from s\<bar> \<le> F64_EPSILON then Some 0
         else if sp_epsilon (sg_params s) \<le> 0 then None
         else
           let omega0 = spring_omega0 s;
               x0 = - ln (sp_epsilon (sg_params s)) / beta
           in if \<bar>beta - omega0\<bar> \<le> F32_EPSILON \<or> beta < omega0 then from_secs_f64 x0
              else let y0 = oscillate s x0;
                       m = newton_slope s x0 y0
                   in if m = 0 then None
                      else let x' = (sg_to s - y0 + m * x0) / m
                           in newton 1001 s x' (oscillate s x'))"

text \<open>The time of the first crossing of the target, searched in steps of a millisecond.\<close>

definition spring_before_target :: "Spring \<Rightarrow> real \<Rightarrow> bool" where
  "spring_before_target s y \<longleftrightarrow>
     (sg_to s - sg_from s > F64_EPSILON \<and> sg_to s - y > sp_epsilon (sg_params s)) \<or>
     (sg_from s - sg_to s > F64_EPSILON \<and> y - sg_to s > sp_epsilon (sg_params s))"

fun first_crossing :: "nat \<Rightarrow> Spring \<Rightarrow> nat \<Rightarrow> nanos option" where
  "first_crossing n s i =
     (if spring_before_target s (oscillate s (real i / 1000))
      then (case n of 0 \<Rightarrow> None | Suc n' \<Rightarrow> first_crossing n' s (i + 1))
      else Some (from_millis i))"

declare first_crossing.simps [simp del]

definition spring_clamped_duration :: "Spring \<Rightarrow> nanos option" where
  "spring_clamped_duration s =
     (let beta = spring_beta s
      in if \<bar>beta\<bar> \<le> F64_EPSILON \<or> beta < 0 then Some DURATION_MAX
         else if \<bar>sg_to s - sg_from s\<bar> \<le> F64_EPSILON then Some 0
         else first_crossing 3000 s 1)"


section \<open>Animations\<close>

definition anim_ease :: "AnimEnv \<Rightarrow> real \<Rightarrow> real \<Rightarrow> real \<Rightarrow> nat \<Rightarrow> Curve \<Rightarrow> Animation" where
  "anim_ease ev from to initial_velocity duration_ms curve =
     (let duration = from_millis duration_ms
      in \<lparr>an_from = from, an_to = to, an_initial_velocity = initial_velocity, an_is_off = False,
          an_duration = duration, an_clamped_duration = duration, an_start_time = av_now ev,
          an_kind = KindEasing curve\<rparr>)"

definition anim_spring :: "AnimEnv \<Rightarrow> Spring \<Rightarrow> Animation option" where
  "anim_spring ev s =
     do { duration \<leftarrow> spring_duration s;
          let clamped_duration = (case spring_clamped_duration s of Some d \<Rightarrow> d | None \<Rightarrow> duration);
          Some \<lparr>an_from = sg_from s, an_to = sg_to s, an_initial_velocity = sg_initial_velocity s,
                an_is_off = False, an_duration = duration, an_clamped_duration = clamped_duration,
                an_start_time = av_now ev, an_kind = KindSpring s\<rparr> }"

definition anim_decelerate :: "AnimEnv \<Rightarrow> real \<Rightarrow> real \<Rightarrow> real \<Rightarrow> real \<Rightarrow> Animation option" where
  "anim_decelerate ev from initial_velocity deceleration_rate threshold =
     do { let coeff = 1000 * ln deceleration_rate;
          let duration_s = (if initial_velocity = 0 then 0
                            else ln (- coeff * threshold / \<bar>initial_velocity\<bar>) / coeff);
          duration \<leftarrow> from_secs_f64 duration_s;
          Some \<lparr>an_from = from, an_to = from - initial_velocity / coeff,
                an_initial_velocity = initial_velocity, an_is_off = False, an_duration = duration,
                an_clamped_duration = duration, an_start_time = av_now ev,
                an_kind = KindDeceleration initial_velocity deceleration_rate\<rparr> }"

definition anim_replace_config :: "AnimEnv \<Rightarrow> AnimConfig \<Rightarrow> Animation \<Rightarrow> Animation option" where
  "anim_replace_config ev config a =
     (let a = a\<lparr>an_is_off := ac_off config\<rparr>
      in if ac_off config then Some (a\<lparr>an_duration := 0, an_clamped_duration := 0\<rparr>)
         else do {
           let start_time = an_start_time a;
           a' \<leftarrow> (case ac_kind config of
                     CfgSpring p \<Rightarrow>
                       anim_spring ev
                         \<lparr>sg_from = an_from a, sg_to = an_to a,
                          sg_initial_velocity = an_initial_velocity a,
                          sg_params = spring_params_new (csp_damping_ratio p)
                            (real (unat (csp_stiffness p))) (csp_epsilon p)\<rparr>
                   | CfgEasing p \<Rightarrow>
                       Some (anim_ease ev (an_from a) (an_to a) (an_initial_velocity a)
                         (unat (ep_duration_ms p)) (curve_from_config (ep_curve p))));
           Some (a'\<lparr>an_start_time := start_time\<rparr>) })"

definition scaled_velocity :: "AnimEnv \<Rightarrow> real \<Rightarrow> real" where
  "scaled_velocity ev v = v / max (av_rate ev) (1 / 1000)"

definition anim_new :: "AnimEnv \<Rightarrow> real \<Rightarrow> real \<Rightarrow> real \<Rightarrow> AnimConfig \<Rightarrow> Animation option" where
  "anim_new ev from to initial_velocity config =
     (let rv = anim_ease ev from to (scaled_velocity ev initial_velocity) 0 EaseOutCubic
      in if ac_off config then Some (rv\<lparr>an_is_off := True\<rparr>)
         else anim_replace_config ev config rv)"

definition anim_restarted :: "AnimEnv \<Rightarrow> real \<Rightarrow> real \<Rightarrow> real \<Rightarrow> Animation \<Rightarrow> Animation option" where
  "anim_restarted ev from to initial_velocity a =
     (if an_is_off a then Some a
      else case an_kind a of
             KindEasing curve \<Rightarrow>
               Some (anim_ease ev from to (scaled_velocity ev initial_velocity)
                 (as_millis (an_duration a)) curve)
           | KindSpring spring \<Rightarrow>
               anim_spring ev \<lparr>sg_from = from, sg_to = to,
                 sg_initial_velocity = an_initial_velocity a, sg_params = sg_params spring\<rparr>
           | KindDeceleration v deceleration_rate \<Rightarrow>
               anim_decelerate ev from v deceleration_rate (1 / 1000))"

definition anim_is_done :: "AnimEnv \<Rightarrow> Animation \<Rightarrow> bool" where
  "anim_is_done ev a \<longleftrightarrow> av_complete_instantly ev \<or> av_now ev \<ge> an_start_time a + an_duration a"

definition anim_is_clamped_done :: "AnimEnv \<Rightarrow> Animation \<Rightarrow> bool" where
  "anim_is_clamped_done ev a \<longleftrightarrow>
     av_complete_instantly ev \<or> av_now ev \<ge> an_start_time a + an_clamped_duration a"

definition clampf :: "real \<Rightarrow> real \<Rightarrow> real \<Rightarrow> real" where
  "clampf lo hi x = max lo (min x hi)"

definition anim_value_at :: "AnimEnv \<Rightarrow> nanos \<Rightarrow> Animation \<Rightarrow> real" where
  "anim_value_at ev t a =
     (if t \<le> an_start_time a then an_from a
      else if an_start_time a + an_duration a \<le> t then an_to a
      else if av_complete_instantly ev then an_to a
      else
        let passed = t - an_start_time a
        in case an_kind a of
             KindEasing curve \<Rightarrow>
               let x = clampf 0 1 (as_secs_f64 passed / as_secs_f64 (an_duration a))
               in curve_y ev curve x * (an_to a - an_from a) + an_from a
           | KindSpring spring \<Rightarrow>
               let v = spring_value_at spring passed;
                   range = (an_to a - an_from a) * 10;
                   lo = an_from a - range;
                   hi = an_to a + range
               in if an_from a \<le> an_to a then clampf lo hi v else clampf hi lo v
           | KindDeceleration v deceleration_rate \<Rightarrow>
               let coeff = 1000 * ln deceleration_rate
               in an_from a +
                  (deceleration_rate powr (1000 * as_secs_f64 passed) - 1) / coeff * v)"

definition anim_value :: "AnimEnv \<Rightarrow> Animation \<Rightarrow> real" where
  "anim_value ev a = anim_value_at ev (av_now ev) a"

definition anim_clamped_value :: "AnimEnv \<Rightarrow> Animation \<Rightarrow> real" where
  "anim_clamped_value ev a = (if anim_is_clamped_done ev a then an_to a else anim_value ev a)"

definition anim_end_time :: "Animation \<Rightarrow> nanos" where
  "anim_end_time a = an_start_time a + an_duration a"

definition anim_offset :: "real \<Rightarrow> Animation \<Rightarrow> Animation" where
  "anim_offset d a =
     (let a = a\<lparr>an_from := an_from a + d, an_to := an_to a + d\<rparr>
      in case an_kind a of
           KindSpring s \<Rightarrow>
             a\<lparr>an_kind := KindSpring (s\<lparr>sg_from := sg_from s + d, sg_to := sg_to s + d\<rparr>)\<rparr>
         | _ \<Rightarrow> a)"



section \<open>Values of an animation\<close>





lemma bisect_near:
  assumes "x_for_t b min_t \<le> x" and "x \<le> x_for_t b max_t" and "min_t \<le> max_t"
  shows "\<exists>t. min_t \<le> t \<and> t \<le> max_t \<and> x_for_t b t = x \<and>
           \<bar>bisect_t n b x min_t max_t - t\<bar> \<le> (max_t - min_t) / 2 ^ Suc n"
  using assms
proof (induction n arbitrary: min_t max_t)
  case 0
  have "continuous_on {min_t..max_t} (x_for_t b)"
    unfolding x_for_t_def Let_def by (intro continuous_intros)
  then obtain t where "min_t \<le> t" "t \<le> max_t" "x_for_t b t = x"
    using IVT' [of "x_for_t b" min_t x max_t] 0 by blast
  then show ?case by (intro exI [of _ t]) (auto simp: abs_le_iff field_simps)
next
  case (Suc n)
  let ?g = "(min_t + max_t) / 2"
  have g: "min_t \<le> ?g" "?g \<le> max_t" using Suc.prems by simp_all
  show ?case
  proof (cases "x < x_for_t b ?g")
    case True
    with Suc.IH [of min_t ?g] Suc.prems g obtain t where
      "min_t \<le> t" "t \<le> ?g" "x_for_t b t = x"
      "\<bar>bisect_t n b x min_t ?g - t\<bar> \<le> (?g - min_t) / 2 ^ Suc n" by auto
    with True g show ?thesis by (intro exI [of _ t]) (simp add: Let_def field_simps)
  next
    case False
    with Suc.IH [of ?g max_t] Suc.prems g obtain t where
      "?g \<le> t" "t \<le> max_t" "x_for_t b t = x"
      "\<bar>bisect_t n b x ?g max_t - t\<bar> \<le> (max_t - ?g) / 2 ^ Suc n" by auto
    with False g show ?thesis by (intro exI [of _ t]) (simp add: Let_def field_simps)
  qed
qed

text \<open>C36. The bisection of the cubic Bezier easing solves the curve's equation: for an abscissa in
  the unit interval it returns a parameter within \<open>2^-32\<close> of one whose abscissa is exactly the
  requested one.\<close>

theorem t_for_x_solves:
  assumes "0 \<le> x" and "x \<le> 1"
  shows "\<exists>t. 0 \<le> t \<and> t \<le> 1 \<and> x_for_t b t = x \<and> \<bar>t_for_x b x - t\<bar> \<le> 1 / 2 ^ 32"
proof -
  have "x_for_t b 0 \<le> x" "x \<le> x_for_t b 1" using assms by (simp_all add: x_for_t_def)
  from bisect_near [OF this, of 31] show ?thesis by (simp add: t_for_x_def)
qed






lemma oscillate_offset:
  "oscillate (s\<lparr>sg_from := sg_from s + d, sg_to := sg_to s + d\<rparr>) t = oscillate s t + d"
  by (simp add: oscillate_def spring_beta_def spring_omega0_def Let_def)

lemma clampf_offset: "clampf (lo + d) (hi + d) (x + d) = clampf lo hi x + (d::real)"
  by (simp add: clampf_def max_def min_def)

lemma clampf_offset': "clampf (lo + d - e) (hi + d + e) (x + d) = clampf (lo - e) (hi + e) x + (d::real)"
  using clampf_offset [of "lo - e" d "hi + e" x] by (simp add: algebra_simps)

text \<open>C33. Offsetting a running animation shifts its whole trajectory, past and future, by the given
  amount and changes nothing else: the view can be re-based on another column without a jump,
  whatever the kind of the animation.\<close>

theorem anim_offset_shifts:
  "anim_value_at ev t (anim_offset d a) = anim_value_at ev t a + d \<and>
   anim_is_done ev (anim_offset d a) = anim_is_done ev a \<and>
   anim_end_time (anim_offset d a) = anim_end_time a"
proof (cases "an_kind a")
  case (KindSpring s)
  have "(an_to a + d - (an_from a + d)) * 10 = (an_to a - an_from a) * 10" by simp
  moreover have "an_to a + d + (an_to a - an_from a) * 10 = an_to a + d - - ((an_to a - an_from a) * 10)"
    "an_from a + d - (an_to a - an_from a) * 10 = an_from a + d + - ((an_to a - an_from a) * 10)"
    by simp_all
  ultimately show ?thesis
    using KindSpring clampf_offset' [of "an_from a" d "(an_to a - an_from a) * 10" "an_to a"]
      clampf_offset' [of "an_to a" d "- ((an_to a - an_from a) * 10)" "an_from a"]
    by (simp add: anim_offset_def anim_value_at_def anim_is_done_def anim_end_time_def Let_def
        spring_value_at_def oscillate_offset)
qed (simp_all add: anim_offset_def anim_value_at_def anim_is_done_def anim_end_time_def Let_def
       algebra_simps)

lemma anim_done_value: "anim_is_done ev a \<Longrightarrow> av_now ev > an_start_time a \<Longrightarrow> anim_value ev a = an_to a"
  by (auto simp: anim_is_done_def anim_value_def anim_value_at_def)

text \<open>An animation that has finished shows its target once time has passed since its start, and
  clamping never changes that.\<close>

theorem finished_animation_shows_target:
  assumes "anim_is_done ev a" and "an_start_time a < av_now ev"
  shows "anim_value ev a = an_to a \<and> anim_clamped_value ev a = an_to a"
  using anim_done_value [OF assms] by (simp add: anim_clamped_value_def)

text \<open>Restarting an animation that is turned off returns the old animation unchanged: the
  requested start and end values are ignored, so the restarted animation still ends at the previous
  target.\<close>

theorem restarted_off_ignores_target:
  assumes "an_is_off a"
  shows "anim_restarted ev from to v a = Some a"
  using assms by (simp add: anim_restarted_def)

section \<open>Which animations can be created and restarted\<close>

text \<open>
  A spring duration is computed for every pair of end points: true of every spring that is not
  overdamped and has an epsilon between 0 and 1.
\<close>

definition spring_params_ok :: "SpringParams \<Rightarrow> bool" where
  "spring_params_ok p \<longleftrightarrow>
     (\<forall>f t v. spring_duration
        \<lparr>sg_from = f, sg_to = t, sg_initial_velocity = v, sg_params = p\<rparr> \<noteq> None)"

fun anim_kind_ok :: "Kind \<Rightarrow> bool" where
  "anim_kind_ok (KindEasing c) = True"
| "anim_kind_ok (KindSpring s) = spring_params_ok (sg_params s)"
| "anim_kind_ok (KindDeceleration v r) = False"

definition anim_ok :: "Animation \<Rightarrow> bool" where
  "anim_ok a \<longleftrightarrow> an_is_off a \<or> anim_kind_ok (an_kind a)"

definition anim_config_ok :: "AnimConfig \<Rightarrow> bool" where
  "anim_config_ok c \<longleftrightarrow> ac_off c \<or>
     (case ac_kind c of
        CfgEasing p \<Rightarrow> True
      | CfgSpring p \<Rightarrow> spring_params_ok (spring_params_new (csp_damping_ratio p)
                        (real (unat (csp_stiffness p))) (csp_epsilon p)))"

lemma runs_anim_spring:
  "spring_params_ok (sg_params s) \<Longrightarrow> runs (anim_spring ev s) (\<lambda>a. anim_kind_ok (an_kind a) \<and>
     an_from a = sg_from s \<and> an_to a = sg_to s)"
proof -
  assume ok: "spring_params_ok (sg_params s)"
  then have "spring_duration s \<noteq> None" by (cases s) (simp add: spring_params_ok_def)
  then obtain d where "spring_duration s = Some d" by blast
  with ok show ?thesis by (simp add: anim_spring_def Let_def)
qed

lemma runs_anim_new:
  assumes "anim_config_ok c"
  shows "runs (anim_new ev f t v c) (\<lambda>a. anim_ok a \<and> an_from a = f \<and> an_to a = t)"
proof (cases "ac_off c")
  case True
  then show ?thesis by (simp add: anim_new_def anim_ok_def anim_ease_def Let_def)
next
  case on: False
  show ?thesis
  proof (cases "ac_kind c")
    case (CfgEasing p)
    with on show ?thesis
      by (simp add: anim_new_def anim_replace_config_def anim_ok_def anim_ease_def Let_def)
  next
    case (CfgSpring p)
    with on assms show ?thesis
      by (auto simp: anim_new_def anim_replace_config_def anim_ok_def anim_ease_def Let_def
          anim_config_ok_def intro!: runs_mono [OF runs_anim_spring])
  qed
qed

lemma runs_anim_restarted:
  "anim_ok a \<Longrightarrow> runs (anim_restarted ev f t v a) anim_ok"
  by (cases "an_kind a")
     (auto simp: anim_ok_def anim_restarted_def anim_ease_def Let_def
       intro!: runs_mono [OF runs_anim_spring])

lemma anim_ok_offset [simp]: "anim_ok (anim_offset d a) = anim_ok a"
  by (cases "an_kind a") (simp_all add: anim_ok_def anim_offset_def Let_def)

lemma spring_x0_bounds:
  assumes "1 / 10 \<le> r" and "1 \<le> k" and "1 / 100000 \<le> e" and "e \<le> 1 / 10"
  shows "0 \<le> - ln e / (r * sqrt k)" and "- ln e / (r * sqrt k) \<le> 1000000"
proof -
  have b: "1 / 10 \<le> r * sqrt k"
    using mult_mono [of "1/10" r 1 "sqrt k"] assms by simp
  have e: "0 < e" using assms by simp
  have "ln (1 / e) \<le> 1 / e - 1" using e by (intro ln_le_minus_one) simp
  moreover have "1 / e \<le> 100000" using assms e by (simp add: field_simps)
  ultimately have le: "- ln e \<le> 100000" using e by (simp add: ln_div)
  have nn: "0 \<le> - ln e" using assms e by simp
  show "0 \<le> - ln e / (r * sqrt k)" using nn b by (intro divide_nonneg_pos) linarith+
  have "- ln e \<le> 1000000 * (r * sqrt k)" using le b by linarith
  moreover have "0 < r * sqrt k" using b by linarith
  ultimately show "- ln e / (r * sqrt k) \<le> 1000000" using pos_divide_le_eq by blast
qed

lemma spring_params_new_ok:
  assumes "1 / 10 \<le> r" and "r \<le> 1" and "1 \<le> k" and "1 / 100000 \<le> e" and "e \<le> 1 / 10"
  shows "spring_params_ok (spring_params_new r k e)"
proof -
  have p: "spring_params_new r k e =
      \<lparr>sp_damping = r * (2 * sqrt k), sp_mass = 1, sp_stiffness = k, sp_epsilon = e\<rparr>"
    using assms by (simp add: spring_params_new_def Let_def)
  have b: "r * sqrt k \<le> sqrt k" using assms by (simp add: mult_le_cancel_right1)
  have e: "0 < e" using assms by simp
  have x0: "0 \<le> - ln e / (r * sqrt k)" "- ln e / (r * sqrt k) \<le> 1000000"
    using spring_x0_bounds [of r k e] assms by simp_all
  have "round_half_even (- ln e / (r * sqrt k) * 1000000000) \<le> round_half_even (real 1000000000000000)"
    using mult_right_mono [OF x0(2), of 1000000000] by (intro round_half_even_mono) simp
  then have "from_secs_f64 (- ln e / (r * sqrt k)) \<noteq> None"
    using x0 by (simp add: from_secs_f64_def Let_def DURATION_MAX_def del: of_nat_numeral)
  moreover have "\<bar>r * sqrt k - sqrt k\<bar> \<le> F32_EPSILON \<or> r * sqrt k < sqrt k"
  proof (cases "r * sqrt k < sqrt k")
    case False
    then have "r * sqrt k - sqrt k = 0" using b by linarith
    then have "\<bar>r * sqrt k - sqrt k\<bar> \<le> F32_EPSILON"
      by (simp only: abs_zero) (simp add: F32_EPSILON_def)
    then show ?thesis by blast
  qed blast
  ultimately show ?thesis
    using e by (simp add: spring_params_ok_def spring_duration_def spring_beta_def spring_omega0_def p Let_def)
qed

text \<open>C35. Creating a spring animation never panics, for any end points and initial velocity, when
  the spring is configured within the ranges the parser accepts and is not overdamped (a damping
  ratio of at most 1, like all the defaults).\<close>

theorem configured_spring_ok:
  assumes "1 / 10 \<le> r" and "r \<le> 1" and "1 \<le> unat (k :: u32)"
    and "1 / 100000 \<le> e" and "e \<le> 1 / 10"
  shows "\<exists>a. anim_new ev from to v
           \<lparr>ac_off = False, ac_kind = CfgSpring \<lparr>csp_damping_ratio = r, csp_stiffness = k, csp_epsilon = e\<rparr>\<rparr> =
         Some a \<and> an_from a = from \<and> an_to a = to"
proof -
  have "1 \<le> real (unat k)" using assms(3) by linarith
  then have "spring_params_ok (spring_params_new r (real (unat k)) e)"
    using assms by (intro spring_params_new_ok)
  then have "anim_config_ok \<lparr>ac_off = False,
      ac_kind = CfgSpring \<lparr>csp_damping_ratio = r, csp_stiffness = k, csp_epsilon = e\<rparr>\<rparr>"
    by (simp add: anim_config_ok_def)
  from runsD [OF runs_anim_new [OF this]] show ?thesis by blast
qed

text \<open>An environment with a running clock and the easing functions of the crate.\<close>

definition sample_anim_env :: AnimEnv where
  "sample_anim_env = \<lparr>av_now = 2000, av_now_unadjusted = 2000, av_rate = 1,
     av_complete_instantly = False, av_ease_out_quad = (\<lambda>x. - x * (x - 2)),
     av_ease_out_cubic = (\<lambda>x. (x - 1) ^ 3 + 1)\<rparr>"

definition sample_easing :: Animation where
  "sample_easing = \<lparr>an_from = 0, an_to = 10, an_initial_velocity = 0, an_is_off = False,
     an_duration = 1000, an_clamped_duration = 1000, an_start_time = 500, an_kind = KindEasing Linear\<rparr>"


theorem t_for_x_solves_witness:
  "\<exists>t. 0 \<le> t \<and> t \<le> 1 \<and> x_for_t \<lparr>cb_x1 = 1 / 4, cb_y1 = 0, cb_x2 = 1 / 2, cb_y2 = 1\<rparr> t = 1 / 3 \<and>
     \<bar>t_for_x \<lparr>cb_x1 = 1 / 4, cb_y1 = 0, cb_x2 = 1 / 2, cb_y2 = 1\<rparr> (1 / 3) - t\<bar> \<le> 1 / 2 ^ 32"
  by (rule t_for_x_solves) simp_all


theorem finished_animation_shows_target_witness:
  "anim_value sample_anim_env sample_easing = 10 \<and> anim_clamped_value sample_anim_env sample_easing = 10"
  using finished_animation_shows_target [of sample_anim_env sample_easing]
  by (simp add: sample_easing_def sample_anim_env_def anim_is_done_def anim_end_time_def)

theorem restarted_off_ignores_target_witness:
  "anim_restarted sample_anim_env 3 7 0 (sample_easing\<lparr>an_is_off := True\<rparr>) =
     Some (sample_easing\<lparr>an_is_off := True\<rparr>)"
  by (rule restarted_off_ignores_target) simp

theorem configured_spring_ok_witness:
  "\<exists>a. anim_new sample_anim_env 0 100 20 \<lparr>ac_off = False,
       ac_kind = CfgSpring \<lparr>csp_damping_ratio = 1, csp_stiffness = 800, csp_epsilon = 1 / 10000\<rparr>\<rparr> =
     Some a \<and> an_from a = 0 \<and> an_to a = 100"
  by (rule configured_spring_ok) simp_all

end
