(* ===== verification/Layout_Types.thy ===== *)
theory Layout_Types
  imports Anim_Animation Ipc_Types
begin

text \<open>
  What the layout is built on: geometry, the part of the configuration the layout reads
  (\<^verbatim>\<open>niri-config\<close>), the sizing modes, the trait \<^verbatim>\<open>LayoutElement\<close> (\<^verbatim>\<open>src/layout/mod.rs\<close>) and the rounding
  helpers of \<^verbatim>\<open>src/utils/mod.rs\<close>.

  The trait is the record \<open>LayoutEnv\<close> of the functions an element provides, together with what the
  layout takes from outside: the clock, and the coordinate conversions of \<^verbatim>\<open>smithay\<close>. Colours,
  gradients, shadows and everything else that only rendering reads are left out. The identity of a
  \<^verbatim>\<open>Transaction\<close> is not tracked, only whether an element takes part in one.
\<close>

section \<open>Geometry\<close>

record Point =
  px :: real
  py :: real

record Size =
  sw :: real
  sh :: real

record Rect =
  r_loc :: Point
  r_size :: Size

record ISize =
  iw :: i32
  ih :: i32

definition point_zero :: Point where "point_zero = \<lparr>px = 0, py = 0\<rparr>"
definition size_zero :: Size where "size_zero = \<lparr>sw = 0, sh = 0\<rparr>"

definition point_add :: "Point \<Rightarrow> Point \<Rightarrow> Point" where
  "point_add a b = \<lparr>px = px a + px b, py = py a + py b\<rparr>"

definition point_sub :: "Point \<Rightarrow> Point \<Rightarrow> Point" where
  "point_sub a b = \<lparr>px = px a - px b, py = py a - py b\<rparr>"

definition size_to_point :: "Size \<Rightarrow> Point" where
  "size_to_point s = \<lparr>px = sw s, py = sh s\<rparr>"

definition isize_to_f64 :: "ISize \<Rightarrow> Size" where
  "isize_to_f64 s = \<lparr>sw = of_int (iw s), sh = of_int (ih s)\<rparr>"

text \<open>\<^verbatim>\<open>f64::round\<close> rounds half away from zero.\<close>

definition f64_round :: "real \<Rightarrow> real" where
  "f64_round x = of_int (if 0 \<le> x then \<lfloor>x + 1 / 2\<rfloor> else \<lceil>x - 1 / 2\<rceil>)"

definition round_logical_in_physical :: "real \<Rightarrow> real \<Rightarrow> real" where
  "round_logical_in_physical scale logical = f64_round (logical * scale) / scale"

definition round_logical_in_physical_max1 :: "real \<Rightarrow> real \<Rightarrow> real" where
  "round_logical_in_physical_max1 scale logical =
     (if logical = 0 then 0 else f64_round (max (logical * scale) 1) / scale)"

section \<open>Configuration\<close>

record Border =
  b_off :: bool
  b_width :: real

record BorderRule =
  br_off :: bool
  br_on :: bool
  br_width :: "real option"

definition border_merge_with :: "BorderRule \<Rightarrow> Border \<Rightarrow> Border" where
  "border_merge_with part b =
     (let off = (b_off b \<or> br_off part);
          off = (if br_on part then False else off)
      in \<lparr>b_off = off, b_width = (case br_width part of None \<Rightarrow> b_width b | Some w \<Rightarrow> w)\<rparr>)"

datatype TabIndicatorPosition = TabLeft | TabRight | TabTop | TabBottom

record TabIndicatorConfig =
  tc_off :: bool
  tc_hide_when_single_tab :: bool
  tc_place_within_column :: bool
  tc_gap :: real
  tc_width :: real
  tc_position :: TabIndicatorPosition

datatype PresetSize = PresetProportion real | PresetFixed i32

fun size_change_from_preset :: "PresetSize \<Rightarrow> SizeChange" where
  "size_change_from_preset (PresetProportion p) = SetProportion (p * 100)"
| "size_change_from_preset (PresetFixed f) = SetFixed f"

datatype CenterFocusedColumn = CenterNever | CenterAlways | CenterOnOverflow

record Struts =
  st_left :: real
  st_right :: real
  st_top :: real
  st_bottom :: real

record LayoutConfig =
  lc_border :: Border
  lc_tab_indicator :: TabIndicatorConfig
  lc_preset_column_widths :: "PresetSize list"
  lc_default_column_width :: "PresetSize option"
  lc_preset_window_heights :: "PresetSize list"
  lc_center_focused_column :: CenterFocusedColumn
  lc_always_center_single_column :: bool
  lc_empty_workspace_above_first :: bool
  lc_default_column_display :: ColumnDisplay
  lc_gaps :: real
  lc_struts :: Struts

record AnimationsConfig =
  acs_window_open :: AnimConfig
  acs_window_close :: AnimConfig
  acs_horizontal_view_movement :: AnimConfig
  acs_window_movement :: AnimConfig
  acs_window_resize :: AnimConfig

record DndEdgeViewScroll =
  dv_trigger_width :: real
  dv_delay_ms :: u16
  dv_max_speed :: real

record Options =
  op_layout :: LayoutConfig
  op_animations :: AnimationsConfig
  op_dnd_edge_view_scroll :: DndEdgeViewScroll

definition options_adjusted_for_scale :: "real \<Rightarrow> Options \<Rightarrow> Options" where
  "options_adjusted_for_scale scale opts =
     opts\<lparr>op_layout := (op_layout opts)
         \<lparr>lc_gaps := round_logical_in_physical_max1 scale (lc_gaps (op_layout opts))\<rparr>\<rparr>"

abbreviation opt_gaps :: "Options \<Rightarrow> real" where
  "opt_gaps opts \<equiv> lc_gaps (op_layout opts)"

section \<open>Elements\<close>

datatype SizingMode = Normal | Maximized | Fullscreen

abbreviation is_normal :: "SizingMode \<Rightarrow> bool" where "is_normal m \<equiv> m = Normal"
abbreviation is_maximized :: "SizingMode \<Rightarrow> bool" where "is_maximized m \<equiv> m = Maximized"
abbreviation is_fullscreen :: "SizingMode \<Rightarrow> bool" where "is_fullscreen m \<equiv> m = Fullscreen"

text \<open>The bit set \<^verbatim>\<open>ResizeEdge\<close>.\<close>

record ResizeEdge =
  edge_top :: bool
  edge_bottom :: bool
  edge_left :: bool
  edge_right :: bool

record InteractiveResizeData =
  ird_edges :: ResizeEdge

text \<open>Where a floating window opens: offsets from an edge or a corner of the working area.\<close>

datatype RelativeTo = RTopLeft | RTopRight | RBottomLeft | RBottomRight | RTop | RBottom | RLeft | RRight

record FloatingPosition =
  fp_x :: real
  fp_y :: real
  fp_relative_to :: RelativeTo

record WindowRules =
  wr_border :: BorderRule
  wr_default_column_display :: "ColumnDisplay option"
  wr_baba_is_float :: "bool option"
  wr_default_floating_position :: "FloatingPosition option"
  wr_min_width :: "u16 option"
  wr_min_height :: "u16 option"
  wr_max_width :: "u16 option"
  wr_max_height :: "u16 option"

record ('w, 'id) LayoutEnv =
  le_anim :: AnimEnv
  le_round :: "real \<Rightarrow> real \<Rightarrow> real"
  le_ceil :: "real \<Rightarrow> real \<Rightarrow> real"
  le_i32_floor :: "real \<Rightarrow> i32"
  le_i32_round :: "real \<Rightarrow> i32"
  el_id :: "'w \<Rightarrow> 'id"
  el_update_config :: "'w \<Rightarrow> 'w"
  el_size :: "'w \<Rightarrow> ISize"
  el_request_size :: "ISize \<Rightarrow> SizingMode \<Rightarrow> bool \<Rightarrow> bool \<Rightarrow> 'w \<Rightarrow> 'w"
  el_min_size :: "'w \<Rightarrow> ISize"
  el_max_size :: "'w \<Rightarrow> ISize"
  el_sizing_mode :: "'w \<Rightarrow> SizingMode"
  el_pending_sizing_mode :: "'w \<Rightarrow> SizingMode"
  el_requested_size :: "'w \<Rightarrow> ISize option"
  el_expected_size :: "'w \<Rightarrow> ISize option"
  el_rules :: "'w \<Rightarrow> WindowRules"
  el_take_animation_snapshot :: "'w \<Rightarrow> Size option \<times> 'w"
  el_set_interactive_resize :: "InteractiveResizeData option \<Rightarrow> 'w \<Rightarrow> 'w"
  el_cancel_interactive_resize :: "'w \<Rightarrow> 'w"
  el_interactive_resize_data :: "'w \<Rightarrow> InteractiveResizeData option"
  el_on_commit :: "nat \<Rightarrow> 'w \<Rightarrow> 'w"
  el_request_size_once :: "ISize \<Rightarrow> bool \<Rightarrow> 'w \<Rightarrow> 'w"
  el_is_child_of :: "'w \<Rightarrow> 'w \<Rightarrow> bool"

definition round_size :: "('w, 'id) LayoutEnv \<Rightarrow> real \<Rightarrow> Size \<Rightarrow> Size" where
  "round_size E scale s = \<lparr>sw = le_round E scale (sw s), sh = le_round E scale (sh s)\<rparr>"

definition round_point :: "('w, 'id) LayoutEnv \<Rightarrow> real \<Rightarrow> Point \<Rightarrow> Point" where
  "round_point E scale p = \<lparr>px = le_round E scale (px p), py = le_round E scale (py p)\<rparr>"

definition size_to_i32_floor :: "('w, 'id) LayoutEnv \<Rightarrow> Size \<Rightarrow> ISize" where
  "size_to_i32_floor E s = \<lparr>iw = le_i32_floor E (sw s), ih = le_i32_floor E (sh s)\<rparr>"

definition size_to_i32_round :: "('w, 'id) LayoutEnv \<Rightarrow> Size \<Rightarrow> ISize" where
  "size_to_i32_round E s = \<lparr>iw = le_i32_round E (sw s), ih = le_i32_round E (sh s)\<rparr>"

section \<open>The contract of an element\<close>

text \<open>
  What the documentation of the trait promises: the id is fixed; a size request changes the pending
  sizing mode and the requested size at once and nothing that the element currently shows; taking
  the animation snapshot and updating the configuration change nothing the layout reads; the
  interactive resize setters change only the resize data; a commit changes what the element shows,
  not what was requested of it. None of them changes of whom the element is a child.
\<close>

definition same_family :: "('w, 'id) LayoutEnv \<Rightarrow> 'w \<Rightarrow> 'w \<Rightarrow> bool" where
  "same_family E w w' \<longleftrightarrow> (\<forall>v. el_is_child_of E w' v = el_is_child_of E w v \<and>
     el_is_child_of E v w' = el_is_child_of E v w)"

definition same_look :: "('w, 'id) LayoutEnv \<Rightarrow> 'w \<Rightarrow> 'w \<Rightarrow> bool" where
  "same_look E w w' \<longleftrightarrow> el_id E w' = el_id E w \<and> el_size E w' = el_size E w \<and>
     el_min_size E w' = el_min_size E w \<and> el_max_size E w' = el_max_size E w \<and>
     el_sizing_mode E w' = el_sizing_mode E w \<and> el_rules E w' = el_rules E w \<and>
     same_family E w w'"

definition same_requests :: "('w, 'id) LayoutEnv \<Rightarrow> 'w \<Rightarrow> 'w \<Rightarrow> bool" where
  "same_requests E w w' \<longleftrightarrow> el_pending_sizing_mode E w' = el_pending_sizing_mode E w \<and>
     el_requested_size E w' = el_requested_size E w"

locale layout_element =
  fixes E :: "('w, 'id) LayoutEnv"
  assumes request_look: "same_look E w (el_request_size E s m an tr w)"
    and request_resize: "el_interactive_resize_data E (el_request_size E s m an tr w) =
          el_interactive_resize_data E w"
    and request_pending: "el_pending_sizing_mode E (el_request_size E s m an tr w) = m"
    and request_size: "el_requested_size E (el_request_size E s m an tr w) = Some s"
    and config_look: "same_look E w (el_update_config E w) \<and> same_requests E w (el_update_config E w) \<and>
          el_interactive_resize_data E (el_update_config E w) = el_interactive_resize_data E w"
    and snapshot_look: "el_take_animation_snapshot E w = (sn, w') \<Longrightarrow>
          same_look E w w' \<and> same_requests E w w' \<and>
          el_interactive_resize_data E w' = el_interactive_resize_data E w"
    and set_resize_look: "same_look E w (el_set_interactive_resize E d w) \<and>
          same_requests E w (el_set_interactive_resize E d w)"
    and cancel_resize_look: "same_look E w (el_cancel_interactive_resize E w) \<and>
          same_requests E w (el_cancel_interactive_resize E w)"
    and commit_id: "el_id E (el_on_commit E n w) = el_id E w"
    and commit_requests: "same_requests E w (el_on_commit E n w)"
    and commit_family: "same_family E w (el_on_commit E n w)"
    and once_look: "same_look E w (el_request_size_once E s an w)"
    and once_resize: "el_interactive_resize_data E (el_request_size_once E s an w) =
          el_interactive_resize_data E w"
    and once_pending: "el_pending_sizing_mode E (el_request_size_once E s an w) = Normal"

lemma same_family_refl [simp]: "same_family E w w"
  by (simp add: same_family_def)

lemma same_family_trans: "same_family E u v \<Longrightarrow> same_family E v w \<Longrightarrow> same_family E u w"
  by (simp add: same_family_def)

section \<open>The element of the property tests\<close>

text \<open>
  \<^verbatim>\<open>TestWindow\<close> (\<^verbatim>\<open>src/layout/tests.rs\<close>), the element on which the layout's own randomised tests check
  \<^verbatim>\<open>verify_invariants\<close> after every operation. Its \<^verbatim>\<open>expected_size\<close> is the default of the trait.
\<close>

record TestWindow =
  tw_id :: nat
  tw_parent_id :: "nat option"
  tw_bbox_size :: ISize
  tw_initial_size :: ISize
  tw_requested_size :: "ISize option"
  tw_forced_size :: "ISize option"
  tw_min_size :: ISize
  tw_max_size :: ISize
  tw_pending_sizing_mode :: SizingMode
  tw_sizing_mode :: SizingMode
  tw_is_windowed_fullscreen :: bool
  tw_is_pending_windowed_fullscreen :: bool
  tw_animate_next_configure :: bool
  tw_animation_snapshot :: "Size option"
  tw_rules :: WindowRules

definition tw_request_size :: "ISize \<Rightarrow> SizingMode \<Rightarrow> bool \<Rightarrow> bool \<Rightarrow> TestWindow \<Rightarrow> TestWindow" where
  "tw_request_size sz mode animate transaction w =
     (let w = (if tw_requested_size w \<noteq> Some sz
               then w\<lparr>tw_requested_size := Some sz, tw_animate_next_configure := True\<rparr> else w);
          w = w\<lparr>tw_pending_sizing_mode := mode\<rparr>
      in if is_fullscreen mode then w\<lparr>tw_is_pending_windowed_fullscreen := False\<rparr> else w)"

definition default_expected_size :: "SizingMode \<Rightarrow> ISize option \<Rightarrow> ISize \<Rightarrow> ISize option" where
  "default_expected_size mode requested current =
     (if is_fullscreen mode then None
      else
        let requested = (case requested of Some r \<Rightarrow> r | None \<Rightarrow> \<lparr>iw = 0, ih = 0\<rparr>);
            requested = (if iw requested = 0 then requested\<lparr>iw := iw current\<rparr> else requested)
        in Some (if ih requested = 0 then requested\<lparr>ih := ih current\<rparr> else requested))"

text \<open>The window answers the pending requests; the assertions on the size are the \<^term>\<open>None\<close> case.\<close>

definition tw_communicate :: "TestWindow \<Rightarrow> (bool \<times> TestWindow) option" where
  "tw_communicate w =
     do { let sz = (case tw_forced_size w of Some s \<Rightarrow> Some s | None \<Rightarrow> tw_requested_size w);
          (changed, w) \<leftarrow>
            (case sz of
               None \<Rightarrow> Some (False, w)
             | Some sz \<Rightarrow>
                 if iw sz < 0 \<or> ih sz < 0 then None
                 else
                   let new_size = tw_initial_size w;
                       new_size = (if iw sz \<noteq> 0 then new_size\<lparr>iw := iw sz\<rparr> else new_size);
                       new_size = (if ih sz \<noteq> 0 then new_size\<lparr>ih := ih sz\<rparr> else new_size)
                   in if tw_bbox_size w \<noteq> new_size
                      then
                        let w = (if tw_animate_next_configure w
                                 then w\<lparr>tw_animation_snapshot := Some (isize_to_f64 (tw_bbox_size w))\<rparr>
                                 else w)
                        in Some (True, w\<lparr>tw_bbox_size := new_size\<rparr>)
                      else Some (False, w));
          let w = w\<lparr>tw_animate_next_configure := False\<rparr>;
          let (changed, w) = (if tw_sizing_mode w \<noteq> tw_pending_sizing_mode w
                              then (True, w\<lparr>tw_sizing_mode := tw_pending_sizing_mode w\<rparr>)
                              else (changed, w));
          let (changed, w) =
            (if tw_is_windowed_fullscreen w \<noteq> tw_is_pending_windowed_fullscreen w
             then (True, w\<lparr>tw_is_windowed_fullscreen := tw_is_pending_windowed_fullscreen w\<rparr>)
             else (changed, w));
          Some (changed, w) }"

definition test_env ::
    "AnimEnv \<Rightarrow> (real \<Rightarrow> real \<Rightarrow> real) \<Rightarrow> (real \<Rightarrow> real \<Rightarrow> real) \<Rightarrow> (real \<Rightarrow> i32) \<Rightarrow> (real \<Rightarrow> i32) \<Rightarrow>
     (TestWindow, nat) LayoutEnv" where
  "test_env ev rnd cl i32_floor i32_round =
     \<lparr>le_anim = ev, le_round = rnd, le_ceil = cl, le_i32_floor = i32_floor,
      le_i32_round = i32_round, el_id = tw_id, el_update_config = (\<lambda>w. w),
      el_size = tw_bbox_size, el_request_size = tw_request_size,
      el_min_size = tw_min_size, el_max_size = tw_max_size,
      el_sizing_mode = tw_sizing_mode, el_pending_sizing_mode = tw_pending_sizing_mode,
      el_requested_size = tw_requested_size,
      el_expected_size = (\<lambda>w. default_expected_size (tw_sizing_mode w) (tw_requested_size w) (tw_bbox_size w)),
      el_rules = tw_rules,
      el_take_animation_snapshot =
        (\<lambda>w. (tw_animation_snapshot w, w\<lparr>tw_animation_snapshot := None\<rparr>)),
      el_set_interactive_resize = (\<lambda>d w. w), el_cancel_interactive_resize = (\<lambda>w. w),
      el_interactive_resize_data = (\<lambda>w. None), el_on_commit = (\<lambda>n w. w),
      el_request_size_once = (\<lambda>s animate. tw_request_size s Normal animate False),
      el_is_child_of = (\<lambda>w v. tw_parent_id w = Some (tw_id v))\<rparr>"

interpretation test_window: layout_element "test_env ev rnd cl i32_floor i32_round"
  for ev rnd cl i32_floor i32_round
  by unfold_locales
     (auto simp: test_env_def same_look_def same_requests_def same_family_def tw_request_size_def Let_def)

end
