(* ===== verification/Layout_Tile.thy ===== *)
theory Layout_Tile
  imports Layout_Types
begin

text \<open>
  A tile: a window with its decorations (\<^verbatim>\<open>src/layout/tile.rs\<close>). The fields and operations that only
  rendering uses (shadow, focus ring, snapshots, offscreen buffers, corner radii) are left out; of the
  border only its configuration matters here.
\<close>

section \<open>Data\<close>

record MoveAnimation =
  mv_anim :: Animation
  mv_from :: real

record ResizeAnimation =
  rz_anim :: Animation
  rz_size_from :: Size
  rz_tile_size_from :: Size
  rz_fullscreen_progress :: "Animation option"
  rz_expanded_progress :: "Animation option"

record AlphaAnimation =
  al_anim :: Animation
  al_hold_after_done :: bool

record 'w Tile =
  tl_window :: 'w
  tl_border :: Border
  tl_sizing_mode :: SizingMode
  tl_restore_to_floating :: bool
  tl_floating_window_size :: "ISize option"
  tl_floating_pos :: "Point option"
  tl_floating_preset_width_idx :: "nat option"
  tl_floating_preset_height_idx :: "nat option"
  tl_open_animation :: "Animation option"
  tl_resize_animation :: "ResizeAnimation option"
  tl_move_x_animation :: "MoveAnimation option"
  tl_move_y_animation :: "MoveAnimation option"
  tl_alpha_animation :: "AlphaAnimation option"
  tl_interactive_move_offset :: Point
  tl_view_size :: Size
  tl_scale :: real
  tl_options :: Options

definition RESIZE_ANIMATION_THRESHOLD :: real where
  "RESIZE_ANIMATION_THRESHOLD = 10"

section \<open>Construction and configuration\<close>

definition tile_new :: "('w, 'id) LayoutEnv \<Rightarrow> 'w \<Rightarrow> Size \<Rightarrow> real \<Rightarrow> Options \<Rightarrow> 'w Tile" where
  "tile_new E window view_size scale options =
     \<lparr>tl_window = window,
      tl_border = border_merge_with (wr_border (el_rules E window)) (lc_border (op_layout options)),
      tl_sizing_mode = el_sizing_mode E window, tl_restore_to_floating = False,
      tl_floating_window_size = None, tl_floating_pos = None,
      tl_floating_preset_width_idx = None, tl_floating_preset_height_idx = None,
      tl_open_animation = None, tl_resize_animation = None, tl_move_x_animation = None,
      tl_move_y_animation = None, tl_alpha_animation = None,
      tl_interactive_move_offset = point_zero, tl_view_size = view_size, tl_scale = scale,
      tl_options = options\<rparr>"

text \<open>The border of a tile, with its width rounded to physical pixels.\<close>

definition tile_update_border :: "('w, 'id) LayoutEnv \<Rightarrow> 'w Tile \<Rightarrow> 'w Tile" where
  "tile_update_border E t =
     (let border = border_merge_with (wr_border (el_rules E (tl_window t)))
                     (lc_border (op_layout (tl_options t)))
      in t\<lparr>tl_border := border\<lparr>b_width := round_logical_in_physical_max1 (tl_scale t) (b_width border)\<rparr>\<rparr>)"

definition tile_update_config ::
    "('w, 'id) LayoutEnv \<Rightarrow> Size \<Rightarrow> real \<Rightarrow> Options \<Rightarrow> 'w Tile \<Rightarrow> 'w Tile" where
  "tile_update_config E view_size scale options t =
     (let t = (if lc_preset_column_widths (op_layout (tl_options t)) \<noteq>
                  lc_preset_column_widths (op_layout options)
               then t\<lparr>tl_floating_preset_width_idx := None\<rparr> else t);
          t = (if lc_preset_window_heights (op_layout (tl_options t)) \<noteq>
                  lc_preset_window_heights (op_layout options)
               then t\<lparr>tl_floating_preset_height_idx := None\<rparr> else t);
          t = t\<lparr>tl_view_size := view_size, tl_scale := scale, tl_options := options\<rparr>;
          t = tile_update_border E t
      in t\<lparr>tl_window := el_update_config E (tl_window t)\<rparr>)"

section \<open>Sizes\<close>

definition effective_border_width :: "'w Tile \<Rightarrow> real option" where
  "effective_border_width t =
     (if \<not> is_normal (tl_sizing_mode t) then None
      else if b_off (tl_border t) then None
      else Some (b_width (tl_border t)))"

definition window_size :: "('w, 'id) LayoutEnv \<Rightarrow> 'w Tile \<Rightarrow> Size" where
  "window_size E t = round_size E (tl_scale t) (isize_to_f64 (el_size E (tl_window t)))"

definition window_expected_or_current_size :: "('w, 'id) LayoutEnv \<Rightarrow> 'w Tile \<Rightarrow> Size" where
  "window_expected_or_current_size E t =
     (let size = (case el_expected_size E (tl_window t) of
                    Some s \<Rightarrow> s | None \<Rightarrow> el_size E (tl_window t))
      in round_size E (tl_scale t) (isize_to_f64 size))"

text \<open>The window size extended to the size of the tile.\<close>

definition tile_size_of :: "'w Tile \<Rightarrow> Size \<Rightarrow> Size" where
  "tile_size_of t s =
     (if is_fullscreen (tl_sizing_mode t)
      then \<lparr>sw = max (sw s) (sw (tl_view_size t)), sh = max (sh s) (sh (tl_view_size t))\<rparr>
      else case effective_border_width t of
             Some width \<Rightarrow> \<lparr>sw = sw s + width * 2, sh = sh s + width * 2\<rparr>
           | None \<Rightarrow> s)"

definition tile_size :: "('w, 'id) LayoutEnv \<Rightarrow> 'w Tile \<Rightarrow> Size" where
  "tile_size E t = tile_size_of t (window_size E t)"

definition tile_expected_or_current_size :: "('w, 'id) LayoutEnv \<Rightarrow> 'w Tile \<Rightarrow> Size" where
  "tile_expected_or_current_size E t = tile_size_of t (window_expected_or_current_size E t)"

definition animated_size ::
    "('w, 'id) LayoutEnv \<Rightarrow> real \<Rightarrow> real \<Rightarrow> Size \<Rightarrow> Size \<Rightarrow> Size" where
  "animated_size E scale val size_from s =
     round_size E scale \<lparr>sw = max 1 (sw size_from + (sw s - sw size_from) * val),
                         sh = max 1 (sh size_from + (sh s - sh size_from) * val)\<rparr>"

definition animated_window_size :: "('w, 'id) LayoutEnv \<Rightarrow> 'w Tile \<Rightarrow> Size" where
  "animated_window_size E t =
     (case tl_resize_animation t of
        None \<Rightarrow> window_size E t
      | Some r \<Rightarrow> animated_size E (tl_scale t) (anim_value (le_anim E) (rz_anim r))
                    (rz_size_from r) (window_size E t))"

definition animated_tile_size :: "('w, 'id) LayoutEnv \<Rightarrow> 'w Tile \<Rightarrow> Size" where
  "animated_tile_size E t =
     (case tl_resize_animation t of
        None \<Rightarrow> tile_size E t
      | Some r \<Rightarrow> animated_size E (tl_scale t) (anim_value (le_anim E) (rz_anim r))
                    (rz_tile_size_from r) (tile_size E t))"

definition window_loc :: "('w, 'id) LayoutEnv \<Rightarrow> 'w Tile \<Rightarrow> Point" where
  "window_loc E t =
     (let ws = animated_window_size E t;
          ts = animated_tile_size E t
      in round_point E (tl_scale t) \<lparr>px = (sw ts - sw ws) / 2, py = (sh ts - sh ws) / 2\<rparr>)"

definition tile_width_for_window_width :: "'w Tile \<Rightarrow> real \<Rightarrow> real" where
  "tile_width_for_window_width t s =
     (if b_off (tl_border t) then s else s + b_width (tl_border t) * 2)"

definition tile_height_for_window_height :: "'w Tile \<Rightarrow> real \<Rightarrow> real" where
  "tile_height_for_window_height t s =
     (if b_off (tl_border t) then s else s + b_width (tl_border t) * 2)"

definition window_width_for_tile_width :: "'w Tile \<Rightarrow> real \<Rightarrow> real" where
  "window_width_for_tile_width t s =
     (if b_off (tl_border t) then s else s - b_width (tl_border t) * 2)"

definition window_height_for_tile_height :: "'w Tile \<Rightarrow> real \<Rightarrow> real" where
  "window_height_for_tile_height t s =
     (if b_off (tl_border t) then s else s - b_width (tl_border t) * 2)"

definition min_size_nonfullscreen :: "('w, 'id) LayoutEnv \<Rightarrow> 'w Tile \<Rightarrow> Size" where
  "min_size_nonfullscreen E t =
     (let s = isize_to_f64 (el_min_size E (tl_window t))
      in if b_off (tl_border t) then s
         else let width = b_width (tl_border t)
              in \<lparr>sw = max 1 (sw s) + width * 2, sh = max 1 (sh s) + width * 2\<rparr>)"

definition max_size_nonfullscreen :: "('w, 'id) LayoutEnv \<Rightarrow> 'w Tile \<Rightarrow> Size" where
  "max_size_nonfullscreen E t =
     (let s = isize_to_f64 (el_max_size E (tl_window t))
      in if b_off (tl_border t) then s
         else let width = b_width (tl_border t)
              in \<lparr>sw = (if sw s > 0 then sw s + width * 2 else sw s),
                  sh = (if sh s > 0 then sh s + width * 2 else sh s)\<rparr>)"

definition ipc_layout_template :: "('w, 'id) LayoutEnv \<Rightarrow> 'w Tile \<Rightarrow> WindowLayout" where
  "ipc_layout_template E t =
     (let ts = tile_size E t; ws = el_size E (tl_window t); loc = window_loc E t
      in \<lparr>pos_in_scrolling_layout = None, tile_size_f = (sw ts, sh ts),
          window_size_f = (iw ws, ih ws), tile_pos_in_workspace_view = None,
          window_offset_in_tile = (px loc, py loc)\<rparr>)"

section \<open>Size requests\<close>

definition request_tile_size ::
    "('w, 'id) LayoutEnv \<Rightarrow> Size \<Rightarrow> bool \<Rightarrow> bool \<Rightarrow> 'w Tile \<Rightarrow> 'w Tile" where
  "request_tile_size E s animate transaction t =
     (let s = (if b_off (tl_border t) then s
               else let width = b_width (tl_border t)
                    in \<lparr>sw = max 1 (sw s - width * 2), sh = max 1 (sh s - width * 2)\<rparr>)
      in t\<lparr>tl_window :=
            el_request_size E (size_to_i32_floor E s) Normal animate transaction (tl_window t)\<rparr>)"

definition request_maximized ::
    "('w, 'id) LayoutEnv \<Rightarrow> Size \<Rightarrow> bool \<Rightarrow> bool \<Rightarrow> 'w Tile \<Rightarrow> 'w Tile" where
  "request_maximized E s animate transaction t =
     t\<lparr>tl_window :=
        el_request_size E (size_to_i32_round E s) Maximized animate transaction (tl_window t)\<rparr>"

definition request_fullscreen ::
    "('w, 'id) LayoutEnv \<Rightarrow> bool \<Rightarrow> bool \<Rightarrow> 'w Tile \<Rightarrow> 'w Tile" where
  "request_fullscreen E animate transaction t =
     t\<lparr>tl_window := el_request_size E (size_to_i32_round E (tl_view_size t)) Fullscreen
                     animate transaction (tl_window t)\<rparr>"

section \<open>Animations\<close>

definition unless_done :: "AnimEnv \<Rightarrow> ('a \<Rightarrow> Animation) \<Rightarrow> 'a option \<Rightarrow> 'a option" where
  "unless_done ev anim x =
     (case x of None \<Rightarrow> None | Some a \<Rightarrow> if anim_is_done ev (anim a) then None else Some a)"

definition tile_advance_animations :: "('w, 'id) LayoutEnv \<Rightarrow> 'w Tile \<Rightarrow> 'w Tile" where
  "tile_advance_animations E t =
     (let ev = le_anim E
      in t\<lparr>tl_open_animation := unless_done ev (\<lambda>a. a) (tl_open_animation t),
           tl_resize_animation := unless_done ev rz_anim (tl_resize_animation t),
           tl_move_x_animation := unless_done ev mv_anim (tl_move_x_animation t),
           tl_move_y_animation := unless_done ev mv_anim (tl_move_y_animation t),
           tl_alpha_animation :=
             (case tl_alpha_animation t of
                None \<Rightarrow> None
              | Some al \<Rightarrow> if \<not> al_hold_after_done al \<and> anim_is_done ev (al_anim al)
                           then None else Some al)\<rparr>)"

definition tile_are_transitions_ongoing :: "('w, 'id) LayoutEnv \<Rightarrow> 'w Tile \<Rightarrow> bool" where
  "tile_are_transitions_ongoing E t \<longleftrightarrow>
     tl_open_animation t \<noteq> None \<or> tl_resize_animation t \<noteq> None \<or>
     tl_move_x_animation t \<noteq> None \<or> tl_move_y_animation t \<noteq> None \<or>
     (case tl_alpha_animation t of None \<Rightarrow> False
      | Some al \<Rightarrow> \<not> anim_is_done (le_anim E) (al_anim al))"

definition tile_are_animations_ongoing :: "('w, 'id) LayoutEnv \<Rightarrow> 'w Tile \<Rightarrow> bool" where
  "tile_are_animations_ongoing E t \<longleftrightarrow>
     tile_are_transitions_ongoing E t \<or> wr_baba_is_float (el_rules E (tl_window t)) = Some True"

definition move_offset :: "('w, 'id) LayoutEnv \<Rightarrow> MoveAnimation option \<Rightarrow> real" where
  "move_offset E m =
     (case m of None \<Rightarrow> 0 | Some mv \<Rightarrow> mv_from mv * anim_value (le_anim E) (mv_anim mv))"

definition tile_render_offset :: "('w, 'id) LayoutEnv \<Rightarrow> 'w Tile \<Rightarrow> Point" where
  "tile_render_offset E t =
     point_add \<lparr>px = move_offset E (tl_move_x_animation t), py = move_offset E (tl_move_y_animation t)\<rparr>
       (tl_interactive_move_offset t)"

definition tile_start_open_animation :: "('w, 'id) LayoutEnv \<Rightarrow> 'w Tile \<Rightarrow> 'w Tile option" where
  "tile_start_open_animation E t =
     do { a \<leftarrow> anim_new (le_anim E) 0 1 0 (acs_window_open (op_animations (tl_options t)));
          Some (t\<lparr>tl_open_animation := Some a\<rparr>) }"

text \<open>An ongoing movement keeps its configuration and is restarted.\<close>

definition move_from ::
    "('w, 'id) LayoutEnv \<Rightarrow> MoveAnimation option \<Rightarrow> real \<Rightarrow> AnimConfig \<Rightarrow> MoveAnimation option" where
  "move_from E m from config =
     do { a \<leftarrow> (case m of
                   Some mv \<Rightarrow> anim_restarted (le_anim E) 1 0 0 (mv_anim mv)
                 | None \<Rightarrow> anim_new (le_anim E) 1 0 0 config);
          Some \<lparr>mv_anim = a, mv_from = from\<rparr> }"

definition animate_move_x_from_with_config ::
    "('w, 'id) LayoutEnv \<Rightarrow> real \<Rightarrow> AnimConfig \<Rightarrow> 'w Tile \<Rightarrow> 'w Tile option" where
  "animate_move_x_from_with_config E from config t =
     do { m \<leftarrow> move_from E (tl_move_x_animation t) (from + px (tile_render_offset E t)) config;
          Some (t\<lparr>tl_move_x_animation := Some m\<rparr>) }"

definition animate_move_y_from_with_config ::
    "('w, 'id) LayoutEnv \<Rightarrow> real \<Rightarrow> AnimConfig \<Rightarrow> 'w Tile \<Rightarrow> 'w Tile option" where
  "animate_move_y_from_with_config E from config t =
     do { m \<leftarrow> move_from E (tl_move_y_animation t) (from + py (tile_render_offset E t)) config;
          Some (t\<lparr>tl_move_y_animation := Some m\<rparr>) }"

abbreviation tile_movement_config :: "'w Tile \<Rightarrow> AnimConfig" where
  "tile_movement_config t \<equiv> acs_window_movement (op_animations (tl_options t))"

definition animate_move_x_from :: "('w, 'id) LayoutEnv \<Rightarrow> real \<Rightarrow> 'w Tile \<Rightarrow> 'w Tile option" where
  "animate_move_x_from E from t =
     animate_move_x_from_with_config E from (tile_movement_config t) t"

definition animate_move_y_from :: "('w, 'id) LayoutEnv \<Rightarrow> real \<Rightarrow> 'w Tile \<Rightarrow> 'w Tile option" where
  "animate_move_y_from E from t =
     animate_move_y_from_with_config E from (tile_movement_config t) t"

definition animate_move_from :: "('w, 'id) LayoutEnv \<Rightarrow> Point \<Rightarrow> 'w Tile \<Rightarrow> 'w Tile option" where
  "animate_move_from E from t = animate_move_x_from E (px from) t \<bind> animate_move_y_from E (py from)"

definition offset_move_anim :: "('w, 'id) LayoutEnv \<Rightarrow> real \<Rightarrow> MoveAnimation option \<Rightarrow> MoveAnimation option" where
  "offset_move_anim E offset m =
     (case m of
        None \<Rightarrow> None
      | Some mv \<Rightarrow>
          let v = anim_value (le_anim E) (mv_anim mv)
          in Some (if v > 1 / 1000 then mv\<lparr>mv_from := mv_from mv + offset / v\<rparr> else mv))"

definition offset_move_y_anim_current :: "('w, 'id) LayoutEnv \<Rightarrow> real \<Rightarrow> 'w Tile \<Rightarrow> 'w Tile" where
  "offset_move_y_anim_current E offset t =
     t\<lparr>tl_move_y_animation := offset_move_anim E offset (tl_move_y_animation t)\<rparr>"

definition stop_move_animations :: "'w Tile \<Rightarrow> 'w Tile" where
  "stop_move_animations t = t\<lparr>tl_move_x_animation := None, tl_move_y_animation := None\<rparr>"

definition animate_alpha ::
    "('w, 'id) LayoutEnv \<Rightarrow> real \<Rightarrow> real \<Rightarrow> AnimConfig \<Rightarrow> 'w Tile \<Rightarrow> 'w Tile option" where
  "animate_alpha E from to config t =
     do { let current = (case tl_alpha_animation t of
                           Some al \<Rightarrow> anim_clamped_value (le_anim E) (al_anim al)
                         | None \<Rightarrow> clampf 0 1 from);
          a \<leftarrow> anim_new (le_anim E) current (clampf 0 1 to) 0 config;
          Some (t\<lparr>tl_alpha_animation := Some \<lparr>al_anim = a, al_hold_after_done = False\<rparr>\<rparr>) }"

definition ensure_alpha_animates_to_1 :: "'w Tile \<Rightarrow> 'w Tile" where
  "ensure_alpha_animates_to_1 t =
     (case tl_alpha_animation t of
        None \<Rightarrow> t
      | Some al \<Rightarrow> if an_to (al_anim al) \<noteq> 1 then t\<lparr>tl_alpha_animation := None\<rparr> else t)"

definition hold_alpha_animation_after_done :: "'w Tile \<Rightarrow> 'w Tile" where
  "hold_alpha_animation_after_done t =
     t\<lparr>tl_alpha_animation := map_option (\<lambda>al. al\<lparr>al_hold_after_done := True\<rparr>) (tl_alpha_animation t)\<rparr>"

definition fullscreen_progress :: "('w, 'id) LayoutEnv \<Rightarrow> 'w Tile \<Rightarrow> real" where
  "fullscreen_progress E t =
     (case Option.bind (tl_resize_animation t) rz_fullscreen_progress of
        Some a \<Rightarrow> clampf 0 1 (anim_clamped_value (le_anim E) a)
      | None \<Rightarrow> if is_fullscreen (tl_sizing_mode t) then 1 else 0)"

definition expanded_progress :: "('w, 'id) LayoutEnv \<Rightarrow> 'w Tile \<Rightarrow> real" where
  "expanded_progress E t =
     (case Option.bind (tl_resize_animation t) rz_expanded_progress of
        Some a \<Rightarrow> clampf 0 1 (anim_clamped_value (le_anim E) a)
      | None \<Rightarrow> if is_normal (tl_sizing_mode t) then 0 else 1)"

section \<open>The window has changed\<close>

text \<open>
  Where a resize animation starts from: the size of the snapshot, or, when a resize was already
  running, its current interpolated size.
\<close>

record ResizeStart =
  rs_size :: Size
  rs_tile_size :: Size
  rs_fullscreen :: real
  rs_expanded :: real

definition snapshot_tile_size :: "SizingMode \<Rightarrow> 'w Tile \<Rightarrow> Size \<Rightarrow> Size" where
  "snapshot_tile_size prev_mode t s =
     (if is_fullscreen prev_mode
      then \<lparr>sw = max (sw s) (sw (tl_view_size t)), sh = max (sh s) (sh (tl_view_size t))\<rparr>
      else if is_normal prev_mode \<and> \<not> b_off (tl_border t)
      then \<lparr>sw = sw s + b_width (tl_border t) * 2, sh = sh s + b_width (tl_border t) * 2\<rparr>
      else s)"

definition interpolate :: "real \<Rightarrow> Size \<Rightarrow> Size \<Rightarrow> Size" where
  "interpolate val from to =
     \<lparr>sw = sw from + (sw to - sw from) * val, sh = sh from + (sh to - sh from) * val\<rparr>"

definition resize_start ::
    "('w, 'id) LayoutEnv \<Rightarrow> SizingMode \<Rightarrow> Size \<Rightarrow> 'w Tile \<Rightarrow> ResizeStart" where
  "resize_start E prev_mode animate_from t =
     (let ev = le_anim E;
          tile_size = snapshot_tile_size prev_mode t animate_from;
          fullscreen = (if is_fullscreen prev_mode then 1 else 0);
          expanded = (if is_normal prev_mode then 0 else 1)
      in case tl_resize_animation t of
           Some r \<Rightarrow>
             let val = anim_value ev (rz_anim r)
             in \<lparr>rs_size = interpolate val (rz_size_from r) animate_from,
                 rs_tile_size = interpolate val (rz_tile_size_from r) tile_size,
                 rs_fullscreen = (case rz_fullscreen_progress r of
                    Some a \<Rightarrow> clampf 0 1 (anim_clamped_value ev a) | None \<Rightarrow> fullscreen),
                 rs_expanded = (case rz_expanded_progress r of
                    Some a \<Rightarrow> clampf 0 1 (anim_clamped_value ev a) | None \<Rightarrow> expanded)\<rparr>
         | None \<Rightarrow>
             \<lparr>rs_size = animate_from, rs_tile_size = tile_size, rs_fullscreen = fullscreen,
              rs_expanded = expanded\<rparr>)"

definition max_change :: "Size \<Rightarrow> Size \<Rightarrow> real" where
  "max_change a b = max \<bar>sw a - sw b\<bar> \<bar>sh a - sh b\<bar>"

definition tile_start_resize ::
    "('w, 'id) LayoutEnv \<Rightarrow> ResizeStart \<Rightarrow> 'w Tile \<Rightarrow> 'w Tile option" where
  "tile_start_resize E rs t =
     (let change = max (max_change (isize_to_f64 (el_size E (tl_window t))) (rs_size rs))
                       (max_change (tile_size E t) (rs_tile_size rs))
      in if change > RESIZE_ANIMATION_THRESHOLD
         then do {
           a \<leftarrow> anim_new (le_anim E) 0 1 0 (acs_window_resize (op_animations (tl_options t)));
           let fullscreen_to = (if is_fullscreen (tl_sizing_mode t) then 1 else 0);
           let expanded_to = (if is_normal (tl_sizing_mode t) then 0 else 1);
           fp \<leftarrow> (if rs_fullscreen rs \<noteq> fullscreen_to
                   then map_option Some (anim_restarted (le_anim E) (rs_fullscreen rs) fullscreen_to 0 a)
                   else Some None);
           ep \<leftarrow> (if rs_expanded rs \<noteq> expanded_to
                   then map_option Some (anim_restarted (le_anim E) (rs_expanded rs) expanded_to 0 a)
                   else Some None);
           Some (t\<lparr>tl_resize_animation := Some
             \<lparr>rz_anim = a, rz_size_from = rs_size rs, rz_tile_size_from = rs_tile_size rs,
              rz_fullscreen_progress = fp, rz_expanded_progress = ep\<rparr>\<rparr>) }
         else Some (t\<lparr>tl_resize_animation := None\<rparr>))"

definition tile_update_window :: "('w, 'id) LayoutEnv \<Rightarrow> 'w Tile \<Rightarrow> 'w Tile option" where
  "tile_update_window E t =
     do { let prev_sizing_mode = tl_sizing_mode t;
          let t = t\<lparr>tl_sizing_mode := el_sizing_mode E (tl_window t)\<rparr>;
          let (snapshot, w) = el_take_animation_snapshot E (tl_window t);
          let t = t\<lparr>tl_window := w\<rparr>;
          t \<leftarrow> (case snapshot of
                   None \<Rightarrow> Some t
                 | Some animate_from \<Rightarrow>
                     tile_start_resize E (resize_start E prev_sizing_mode animate_from t)
                       (t\<lparr>tl_resize_animation := None\<rparr>));
          Some (tile_update_border E t) }"

section \<open>Well-formed tiles\<close>

definition animations_config_ok :: "AnimationsConfig \<Rightarrow> bool" where
  "animations_config_ok c \<longleftrightarrow> anim_config_ok (acs_window_open c) \<and> anim_config_ok (acs_window_close c) \<and>
     anim_config_ok (acs_horizontal_view_movement c) \<and> anim_config_ok (acs_window_movement c) \<and>
     anim_config_ok (acs_window_resize c)"

definition options_ok :: "Options \<Rightarrow> bool" where
  "options_ok opts \<longleftrightarrow> animations_config_ok (op_animations opts) \<and> 0 \<le> opt_gaps opts \<and>
     lc_preset_column_widths (op_layout opts) \<noteq> [] \<and> lc_preset_window_heights (op_layout opts) \<noteq> []"

abbreviation option_ok :: "('a \<Rightarrow> bool) \<Rightarrow> 'a option \<Rightarrow> bool" where
  "option_ok P x \<equiv> (case x of None \<Rightarrow> True | Some a \<Rightarrow> P a)"

definition resize_ok :: "ResizeAnimation \<Rightarrow> bool" where
  "resize_ok r \<longleftrightarrow> anim_ok (rz_anim r) \<and> option_ok anim_ok (rz_fullscreen_progress r) \<and>
     option_ok anim_ok (rz_expanded_progress r)"

text \<open>The selected floating presets exist.\<close>

definition presets_ok :: "'w Tile \<Rightarrow> bool" where
  "presets_ok t \<longleftrightarrow>
     option_ok (\<lambda>i. i < length (lc_preset_column_widths (op_layout (tl_options t)))) (tl_floating_preset_width_idx t) \<and>
     option_ok (\<lambda>i. i < length (lc_preset_window_heights (op_layout (tl_options t)))) (tl_floating_preset_height_idx t)"

lemma presets_ok_update [simp]:
  "presets_ok (t\<lparr>tl_window := w\<rparr>) = presets_ok t"
  "presets_ok (t\<lparr>tl_border := b\<rparr>) = presets_ok t"
  "presets_ok (t\<lparr>tl_sizing_mode := m\<rparr>) = presets_ok t"
  "presets_ok (t\<lparr>tl_restore_to_floating := rf\<rparr>) = presets_ok t"
  "presets_ok (t\<lparr>tl_floating_window_size := ws\<rparr>) = presets_ok t"
  "presets_ok (t\<lparr>tl_floating_pos := p\<rparr>) = presets_ok t"
  "presets_ok (t\<lparr>tl_open_animation := oa\<rparr>) = presets_ok t"
  "presets_ok (t\<lparr>tl_resize_animation := ra\<rparr>) = presets_ok t"
  "presets_ok (t\<lparr>tl_move_x_animation := mx\<rparr>) = presets_ok t"
  "presets_ok (t\<lparr>tl_move_y_animation := my\<rparr>) = presets_ok t"
  "presets_ok (t\<lparr>tl_alpha_animation := al\<rparr>) = presets_ok t"
  "presets_ok (t\<lparr>tl_interactive_move_offset := io\<rparr>) = presets_ok t"
  "presets_ok (t\<lparr>tl_view_size := vs\<rparr>) = presets_ok t"
  "presets_ok (t\<lparr>tl_scale := sc\<rparr>) = presets_ok t"
  by (simp_all add: presets_ok_def split: option.split)

definition tile_ok :: "('w, 'id) LayoutEnv \<Rightarrow> 'w Tile \<Rightarrow> bool" where
  "tile_ok E t \<longleftrightarrow> tl_sizing_mode t = el_sizing_mode E (tl_window t) \<and> options_ok (tl_options t) \<and>
     presets_ok t \<and> option_ok anim_ok (tl_open_animation t) \<and> option_ok resize_ok (tl_resize_animation t) \<and>
     option_ok (\<lambda>m. anim_ok (mv_anim m)) (tl_move_x_animation t) \<and>
     option_ok (\<lambda>m. anim_ok (mv_anim m)) (tl_move_y_animation t) \<and>
     option_ok (\<lambda>al. anim_ok (al_anim al)) (tl_alpha_animation t)"

text \<open>Two tiles that differ in their animations and their floating state only.\<close>

definition tile_same :: "'w Tile \<Rightarrow> 'w Tile \<Rightarrow> bool" where
  "tile_same t t' \<longleftrightarrow> tl_window t' = tl_window t \<and> tl_border t' = tl_border t \<and>
     tl_sizing_mode t' = tl_sizing_mode t \<and> tl_view_size t' = tl_view_size t \<and>
     tl_scale t' = tl_scale t \<and> tl_options t' = tl_options t"

text \<open>Two tiles of the same size, whatever is requested of their windows.\<close>

definition tile_frame :: "('w, 'id) LayoutEnv \<Rightarrow> 'w Tile \<Rightarrow> 'w Tile \<Rightarrow> bool" where
  "tile_frame E t t' \<longleftrightarrow> same_look E (tl_window t) (tl_window t') \<and>
     tl_border t' = tl_border t \<and> tl_sizing_mode t' = tl_sizing_mode t \<and>
     tl_view_size t' = tl_view_size t \<and> tl_scale t' = tl_scale t \<and> tl_options t' = tl_options t"

lemma same_look_refl [simp]: "same_look E w w"
  by (simp add: same_look_def)

lemma tile_same_refl [simp]: "tile_same t t"
  by (simp add: tile_same_def)

lemma tile_same_trans: "tile_same t u \<Longrightarrow> tile_same u v \<Longrightarrow> tile_same t v"
  by (simp add: tile_same_def)

lemma tile_same_frame: "tile_same t t' \<Longrightarrow> tile_frame E t t'"
  by (simp add: tile_same_def tile_frame_def)

lemma tile_frame_refl [simp]: "tile_frame E t t"
  by (simp add: tile_frame_def)

lemma tile_frame_trans: "tile_frame E t u \<Longrightarrow> tile_frame E u v \<Longrightarrow> tile_frame E t v"
  by (auto simp: tile_frame_def same_look_def intro: same_family_trans)

lemma tile_size_frame: "tile_frame E t t' \<Longrightarrow> tile_size E t' = tile_size E t"
  by (simp add: tile_frame_def same_look_def tile_size_def tile_size_of_def window_size_def
      effective_border_width_def)

lemma options_ok_anims:
  assumes "options_ok opts"
  shows "anim_config_ok (acs_window_open (op_animations opts))"
    and "anim_config_ok (acs_window_close (op_animations opts))"
    and "anim_config_ok (acs_horizontal_view_movement (op_animations opts))"
    and "anim_config_ok (acs_window_movement (op_animations opts))"
    and "anim_config_ok (acs_window_resize (op_animations opts))"
  using assms by (simp_all add: options_ok_def animations_config_ok_def)

text \<open>
  An operation that only changes animations: it never panics and gives a well-formed tile that is
  otherwise the same.
\<close>

abbreviation animates :: "('w, 'id) LayoutEnv \<Rightarrow> ('w Tile \<Rightarrow> 'w Tile option) \<Rightarrow> 'w Tile \<Rightarrow> bool" where
  "animates E f t \<equiv> runs (f t) (\<lambda>t'. tile_ok E t' \<and> tile_same t t')"

lemma tile_start_open_ok: "tile_ok E t \<Longrightarrow> animates E (tile_start_open_animation E) t"
  using runs_anim_new [OF options_ok_anims(1), of "tl_options t" "le_anim E" 0 1 0]
  by (auto simp: tile_start_open_animation_def tile_ok_def tile_same_def elim!: runs_mono)

lemma move_from_ok:
  "option_ok (\<lambda>m. anim_ok (mv_anim m)) m \<Longrightarrow> anim_config_ok c \<Longrightarrow>
     runs (move_from E m f c) (\<lambda>mv. anim_ok (mv_anim mv))"
  using runs_anim_new [of c "le_anim E" 1 0 0] runs_anim_restarted [of _ "le_anim E" 1 0 0]
  by (cases m) (auto simp: move_from_def elim!: runs_mono)

lemma animate_move_x_ok:
  "tile_ok E t \<Longrightarrow> anim_config_ok c \<Longrightarrow> animates E (animate_move_x_from_with_config E f c) t"
  using move_from_ok [of "tl_move_x_animation t" c E "f + px (tile_render_offset E t)"]
  by (auto simp: animate_move_x_from_with_config_def tile_ok_def tile_same_def elim!: runs_mono)

lemma animate_move_y_ok:
  "tile_ok E t \<Longrightarrow> anim_config_ok c \<Longrightarrow> animates E (animate_move_y_from_with_config E f c) t"
  using move_from_ok [of "tl_move_y_animation t" c E "f + py (tile_render_offset E t)"]
  by (auto simp: animate_move_y_from_with_config_def tile_ok_def tile_same_def elim!: runs_mono)

lemma tile_ok_options: "tile_ok E t \<Longrightarrow> options_ok (tl_options t)"
  by (simp add: tile_ok_def)

lemma animate_move_y_from_ok: "tile_ok E t \<Longrightarrow> animates E (animate_move_y_from E f) t"
  unfolding animate_move_y_from_def
  by (rule animate_move_y_ok) (simp_all add: tile_ok_options options_ok_anims)

lemma animate_move_from_ok: "tile_ok E t \<Longrightarrow> animates E (animate_move_from E p) t"
  unfolding animate_move_from_def animate_move_x_from_def runs_bind
  by (rule runs_mono [OF animate_move_x_ok])
     (auto simp: tile_ok_options options_ok_anims
       intro: runs_mono [OF animate_move_y_from_ok] tile_same_trans)

lemma animate_alpha_ok:
  "tile_ok E t \<Longrightarrow> anim_config_ok c \<Longrightarrow> animates E (animate_alpha E f to c) t"
  by (auto simp: animate_alpha_def Let_def tile_ok_def tile_same_def
      intro!: runs_mono [OF runs_anim_new])

lemma ensure_alpha_ok:
  "tile_ok E t \<Longrightarrow> tile_ok E (ensure_alpha_animates_to_1 t) \<and> tile_same t (ensure_alpha_animates_to_1 t)"
  by (auto simp: ensure_alpha_animates_to_1_def tile_ok_def tile_same_def split: option.splits)

lemma offset_move_y_ok:
  "tile_ok E t \<Longrightarrow> tile_ok E (offset_move_y_anim_current E d t) \<and>
     tile_same t (offset_move_y_anim_current E d t)"
  by (auto simp: offset_move_y_anim_current_def offset_move_anim_def tile_ok_def tile_same_def Let_def
      split: option.splits)

lemma unless_done_ok: "option_ok P x \<Longrightarrow> option_ok P (unless_done ev f x)"
  by (auto simp: unless_done_def split: option.splits)

lemma tile_advance_ok:
  "tile_ok E t \<Longrightarrow> tile_ok E (tile_advance_animations E t) \<and> tile_same t (tile_advance_animations E t)"
  by (auto simp: tile_advance_animations_def tile_ok_def tile_same_def Let_def unless_done_ok
      split: option.splits)

text \<open>The sizing mode that was requested last, together with a size.\<close>

definition requested_as :: "('w, 'id) LayoutEnv \<Rightarrow> SizingMode \<Rightarrow> 'w Tile \<Rightarrow> bool" where
  "requested_as E m t \<longleftrightarrow> el_pending_sizing_mode E (tl_window t) = m \<and>
     el_requested_size E (tl_window t) \<noteq> None"

context layout_element
begin

text \<open>A size request keeps the frame and sets the pending mode.\<close>

lemma requests_ok:
  assumes "tile_ok E t"
  shows "tile_ok E (request_tile_size E s an tr t) \<and> tile_frame E t (request_tile_size E s an tr t) \<and>
           requested_as E Normal (request_tile_size E s an tr t)"
    and "tile_ok E (request_maximized E s an tr t) \<and> tile_frame E t (request_maximized E s an tr t) \<and>
           requested_as E Maximized (request_maximized E s an tr t)"
    and "tile_ok E (request_fullscreen E an tr t) \<and> tile_frame E t (request_fullscreen E an tr t) \<and>
           requested_as E Fullscreen (request_fullscreen E an tr t)"
  using assms request_look [unfolded same_look_def]
  by (auto simp: tile_ok_def tile_frame_def requested_as_def request_tile_size_def request_maximized_def
      request_fullscreen_def Let_def request_look request_pending request_size)

lemma tile_update_config_ok:
  assumes "tile_ok E t" and "options_ok opts"
  shows "tile_ok E (tile_update_config E vs sc opts t) \<and>
     tl_view_size (tile_update_config E vs sc opts t) = vs \<and>
     tl_scale (tile_update_config E vs sc opts t) = sc \<and>
     tl_options (tile_update_config E vs sc opts t) = opts \<and>
     el_id E (tl_window (tile_update_config E vs sc opts t)) = el_id E (tl_window t) \<and>
     (requested_as E m (tile_update_config E vs sc opts t) \<longleftrightarrow> requested_as E m t) \<and>
     el_rules E (tl_window (tile_update_config E vs sc opts t)) = el_rules E (tl_window t)"
proof -
  have "presets_ok (tile_update_config E vs sc opts t)"
    using assms(1) by (auto simp: tile_ok_def presets_ok_def tile_update_config_def tile_update_border_def Let_def
        split: option.splits)
  then show ?thesis
    using assms config_look
    by (auto simp: tile_ok_def tile_update_config_def tile_update_border_def Let_def requested_as_def
        same_look_def same_requests_def)
qed

lemma start_resize_ok:
  assumes "tile_ok E t"
  shows "runs (tile_start_resize E rs (t\<lparr>tl_resize_animation := None\<rparr>))
           (\<lambda>t'. tile_ok E t' \<and> tile_same t t')"
  using assms runs_anim_new [OF options_ok_anims(5) [OF tile_ok_options [OF assms]], of "le_anim E" 0 1 0]
  by (auto simp: tile_start_resize_def Let_def tile_ok_def tile_same_def resize_ok_def
      elim!: runs_mono intro!: runs_mono [OF runs_anim_restarted])

lemma tile_update_window_ok:
  assumes "tile_ok E (t\<lparr>tl_sizing_mode := el_sizing_mode E (tl_window t)\<rparr>)"
  shows "runs (tile_update_window E t) (\<lambda>t'. tile_ok E t' \<and> tl_view_size t' = tl_view_size t \<and>
     tl_scale t' = tl_scale t \<and> tl_options t' = tl_options t \<and>
     el_id E (tl_window t') = el_id E (tl_window t) \<and> (\<forall>m. requested_as E m t' \<longleftrightarrow> requested_as E m t))"
proof -
  obtain sn w where sn: "el_take_animation_snapshot E (tl_window t) = (sn, w)" by fastforce
  let ?t = "t\<lparr>tl_sizing_mode := el_sizing_mode E (tl_window t), tl_window := w\<rparr>"
  have w: "same_look E (tl_window t) w" "same_requests E (tl_window t) w"
    using snapshot_look [OF sn] by simp_all
  have ok: "tile_ok E ?t" using assms w by (simp add: tile_ok_def same_look_def)
  let ?Q = "\<lambda>t'. tile_ok E t' \<and> tl_view_size t' = tl_view_size t \<and>
     tl_scale t' = tl_scale t \<and> tl_options t' = tl_options t \<and>
     el_id E (tl_window t') = el_id E (tl_window t) \<and> (\<forall>m. requested_as E m t' \<longleftrightarrow> requested_as E m t)"
  have fin: "?Q (tile_update_border E t')" if "tile_ok E t'" "tile_same ?t t'" for t'
    using that w by (auto simp: tile_ok_def tile_update_border_def Let_def tile_same_def
        same_look_def same_requests_def requested_as_def)
  have "runs (case sn of None \<Rightarrow> Some ?t
      | Some a \<Rightarrow> tile_start_resize E (resize_start E (tl_sizing_mode t) a ?t)
          (?t\<lparr>tl_resize_animation := None\<rparr>)) (\<lambda>t'. tile_ok E t' \<and> tile_same ?t t')"
    using start_resize_ok [OF ok] ok by (cases sn) simp_all
  then have "runs (case sn of None \<Rightarrow> Some ?t
      | Some a \<Rightarrow> tile_start_resize E (resize_start E (tl_sizing_mode t) a ?t)
          (?t\<lparr>tl_resize_animation := None\<rparr>)) (\<lambda>t'. ?Q (tile_update_border E t'))"
    by (rule runs_mono) (use fin in blast)
  then show ?thesis by (simp add: tile_update_window_def sn Let_def)
qed

end

end
