(* ===== verification/Layout_Column.thy ===== *)
theory Layout_Column
  imports Layout_Tile
begin

text \<open>
  A column of tiles (\<^verbatim>\<open>Column\<close> in \<^verbatim>\<open>src/layout/scrolling.rs\<close>): its tiles with the cached per-tile data,
  the width and height bookkeeping, the distribution of the working area's height over the tiles,
  and the operations on the active tile. An operation that can panic returns an option. Of the tab
  indicator (\<^verbatim>\<open>src/layout/tab_indicator.rs\<close>) the parts that affect the layout are modelled.
\<close>

section \<open>Data\<close>

datatype ColumnWidth = Proportion real | Fixed real

datatype WindowHeight = HAuto real | HFixed real | HPreset nat

datatype ResolvedSize = ResolvedTile real | ResolvedWindow real

record TileData =
  td_height :: WindowHeight
  td_size :: Size
  td_resizing_left :: bool

record TabIndicator =
  ti_open_anim :: "Animation option"
  ti_config :: TabIndicatorConfig

record 'w Column =
  c_tiles :: "'w Tile list"
  c_data :: "TileData list"
  c_active_tile_idx :: nat
  c_width :: ColumnWidth
  c_preset_width_idx :: "nat option"
  c_is_full_width :: bool
  c_is_pending_fullscreen :: bool
  c_is_pending_maximized :: bool
  c_display_mode :: ColumnDisplay
  c_tab_indicator :: TabIndicator
  c_move_animation :: "MoveAnimation option"
  c_view_size :: Size
  c_working_area :: Rect
  c_parent_area :: Rect
  c_scale :: real
  c_options :: Options

abbreviation auto_1 :: WindowHeight where "auto_1 \<equiv> HAuto 1"

fun is_auto :: "WindowHeight \<Rightarrow> bool" where
  "is_auto (HAuto w) = True"
| "is_auto _ = False"

fun column_width_from_preset :: "PresetSize \<Rightarrow> ColumnWidth" where
  "column_width_from_preset (PresetProportion p) = Proportion (clampf 0 10000 p)"
| "column_width_from_preset (PresetFixed f) = Fixed (of_int (max 1 (min f 100000)))"

section \<open>Tile data and tab indicator\<close>

definition tile_data_update :: "('w, 'id) LayoutEnv \<Rightarrow> 'w Tile \<Rightarrow> TileData \<Rightarrow> TileData" where
  "tile_data_update E t d =
     d\<lparr>td_size := tile_size E t,
       td_resizing_left :=
         (case el_interactive_resize_data E (tl_window t) of
            None \<Rightarrow> False | Some data \<Rightarrow> edge_left (ird_edges data))\<rparr>"

definition tile_data_new :: "('w, 'id) LayoutEnv \<Rightarrow> 'w Tile \<Rightarrow> WindowHeight \<Rightarrow> TileData" where
  "tile_data_new E t h =
     tile_data_update E t \<lparr>td_height = h, td_size = size_zero, td_resizing_left = False\<rparr>"

definition tab_extra_size :: "TabIndicator \<Rightarrow> nat \<Rightarrow> real \<Rightarrow> Size" where
  "tab_extra_size ti tab_count scale =
     (let c = ti_config ti
      in if tc_off c \<or> \<not> tc_place_within_column c \<or> (tc_hide_when_single_tab c \<and> tab_count = 1)
         then size_zero
         else
           let width = round_logical_in_physical scale (tc_width c);
               gap = round_logical_in_physical scale (tc_gap c);
               size = max 0 (width + gap)
           in if tc_position c \<in> {TabLeft, TabRight} then \<lparr>sw = size, sh = 0\<rparr>
              else \<lparr>sw = 0, sh = size\<rparr>)"

definition tab_content_offset :: "TabIndicator \<Rightarrow> nat \<Rightarrow> real \<Rightarrow> Point" where
  "tab_content_offset ti tab_count scale =
     (if tc_position (ti_config ti) \<in> {TabLeft, TabTop}
      then size_to_point (tab_extra_size ti tab_count scale) else point_zero)"

definition tab_start_open_animation ::
    "('w, 'id) LayoutEnv \<Rightarrow> AnimConfig \<Rightarrow> TabIndicator \<Rightarrow> TabIndicator option" where
  "tab_start_open_animation E config ti =
     do { a \<leftarrow> anim_new (le_anim E) 0 1 0 config; Some (ti\<lparr>ti_open_anim := Some a\<rparr>) }"

definition tab_advance_animations :: "('w, 'id) LayoutEnv \<Rightarrow> TabIndicator \<Rightarrow> TabIndicator" where
  "tab_advance_animations E ti =
     ti\<lparr>ti_open_anim := unless_done (le_anim E) (\<lambda>a. a) (ti_open_anim ti)\<rparr>"

section \<open>Sizing mode, positions and offsets\<close>

definition column_pending_sizing_mode :: "'w Column \<Rightarrow> SizingMode" where
  "column_pending_sizing_mode c =
     (if c_is_pending_fullscreen c then Fullscreen
      else if c_is_pending_maximized c then Maximized else Normal)"

definition column_sizing_mode :: "'w Column \<Rightarrow> SizingMode" where
  "column_sizing_mode c =
     (if \<exists>t \<in> set (c_tiles c). tl_sizing_mode t = Fullscreen then Fullscreen
      else if \<exists>t \<in> set (c_tiles c). tl_sizing_mode t = Maximized then Maximized
      else Normal)"

definition is_tabbed :: "'w Column \<Rightarrow> bool" where
  "is_tabbed c \<longleftrightarrow> c_display_mode c = DisplayTabbed"

definition column_contains :: "('w, 'id) LayoutEnv \<Rightarrow> 'id \<Rightarrow> 'w Column \<Rightarrow> bool" where
  "column_contains E i c \<longleftrightarrow> (\<exists>t \<in> set (c_tiles c). el_id E (tl_window t) = i)"

definition column_position :: "('w, 'id) LayoutEnv \<Rightarrow> 'id \<Rightarrow> 'w Column \<Rightarrow> nat option" where
  "column_position E i c = vec_position (\<lambda>t. el_id E (tl_window t) = i) (c_tiles c)"

definition column_extra_size :: "'w Column \<Rightarrow> Size" where
  "column_extra_size c =
     (if is_tabbed c then tab_extra_size (c_tab_indicator c) (length (c_tiles c)) (c_scale c)
      else size_zero)"

text \<open>\<^verbatim>\<open>max()\<close> of an iterator of numbers; \<^term>\<open>None\<close> when there are none.\<close>

fun max_opt :: "real list \<Rightarrow> real option" where
  "max_opt [] = None"
| "max_opt (x # xs) = Some (foldl max x xs)"

definition column_px_width :: "'w Column \<Rightarrow> real option" where
  "column_px_width c =
     do { tiles_width \<leftarrow> max_opt (map (\<lambda>d. sw (td_size d)) (c_data c));
          Some (if is_tabbed c \<and> is_normal (column_sizing_mode c)
                then tiles_width +
                     sw (tab_extra_size (c_tab_indicator c) (length (c_tiles c)) (c_scale c))
                else tiles_width) }"

definition tiles_origin :: "'w Column \<Rightarrow> Point" where
  "tiles_origin c =
     (case column_sizing_mode c of
        Maximized \<Rightarrow> \<lparr>px = 0, py = py (r_loc (c_parent_area c))\<rparr>
      | Fullscreen \<Rightarrow> point_zero
      | Normal \<Rightarrow>
          let origin = \<lparr>px = 0, py = py (r_loc (c_working_area c)) + opt_gaps (c_options c)\<rparr>
          in if is_tabbed c
             then point_add origin
                    (tab_content_offset (c_tab_indicator c) (length (c_tiles c)) (c_scale c))
             else origin)"

fun offsets_from :: "bool \<Rightarrow> bool \<Rightarrow> real \<Rightarrow> real \<Rightarrow> Point \<Rightarrow> TileData list \<Rightarrow> Point list" where
  "offsets_from center tabbed gaps tiles_width origin [] = []"
| "offsets_from center tabbed gaps tiles_width origin (d # ds) =
     (let pos = (if center then origin\<lparr>px := px origin + (tiles_width - sw (td_size d)) / 2\<rparr>
                 else if td_resizing_left d then origin\<lparr>px := px origin + (tiles_width - sw (td_size d))\<rparr>
                 else origin);
          next = (if tabbed then origin else origin\<lparr>py := py origin + (sh (td_size d) + gaps)\<rparr>)
      in pos # offsets_from center tabbed gaps tiles_width next ds)"

text \<open>The positions of the tiles, and one past the last tile.\<close>

definition tile_offsets :: "'w Column \<Rightarrow> Point list" where
  "tile_offsets c =
     (let center = (lc_center_focused_column (op_layout (c_options c)) = CenterAlways);
          tiles_width = (case max_opt (map (\<lambda>d. sw (td_size d)) (c_data c)) of
                           Some w \<Rightarrow> w | None \<Rightarrow> 0);
          dummy = \<lparr>td_height = auto_1, td_size = size_zero, td_resizing_left = False\<rparr>
      in offsets_from center (is_tabbed c) (opt_gaps (c_options c)) tiles_width (tiles_origin c)
           (c_data c @ [dummy]))"

definition tile_offset :: "nat \<Rightarrow> 'w Column \<Rightarrow> Point option" where
  "tile_offset i c = vec_get (tile_offsets c) i"

section \<open>Resolving sizes\<close>

fun resolve_preset_size :: "PresetSize \<Rightarrow> Options \<Rightarrow> real \<Rightarrow> real \<Rightarrow> ResolvedSize" where
  "resolve_preset_size (PresetProportion p) opts view_size extra_size =
     ResolvedTile ((view_size - opt_gaps opts) * p - opt_gaps opts - extra_size)"
| "resolve_preset_size (PresetFixed w) opts view_size extra_size = ResolvedWindow (of_int w)"

definition resolve_preset_width :: "'w Column \<Rightarrow> PresetSize \<Rightarrow> ResolvedSize" where
  "resolve_preset_width c preset =
     resolve_preset_size preset (c_options c) (sw (r_size (c_working_area c))) (sw (column_extra_size c))"

definition resolve_preset_height :: "'w Column \<Rightarrow> PresetSize \<Rightarrow> ResolvedSize" where
  "resolve_preset_height c preset =
     resolve_preset_size preset (c_options c) (sh (r_size (c_working_area c))) (sh (column_extra_size c))"

fun resolve_column_width :: "'w Column \<Rightarrow> ColumnWidth \<Rightarrow> real" where
  "resolve_column_width c (Proportion p) =
     (let gaps = opt_gaps (c_options c)
      in (sw (r_size (c_working_area c)) - gaps) * p - gaps - sw (column_extra_size c))"
| "resolve_column_width c (Fixed w) = w"

section \<open>Distributing the height\<close>

definition column_min_sizes :: "('w, 'id) LayoutEnv \<Rightarrow> 'w Column \<Rightarrow> Size list" where
  "column_min_sizes E c =
     map (\<lambda>t. let s = min_size_nonfullscreen E t in \<lparr>sw = max (sw s) 1, sh = max (sh s) 1\<rparr>)
       (c_tiles c)"

definition column_max_sizes :: "('w, 'id) LayoutEnv \<Rightarrow> 'w Column \<Rightarrow> Size list" where
  "column_max_sizes E c = map (max_size_nonfullscreen E) (c_tiles c)"

definition column_request_width :: "('w, 'id) LayoutEnv \<Rightarrow> 'w Column \<Rightarrow> real option" where
  "column_request_width E c =
     do { min_width \<leftarrow> max_opt (map sw (column_min_sizes E c));
          let max_width =
            (case max_opt (map uminus (filter (\<lambda>w. w \<noteq> 0) (map sw (column_max_sizes E c)))) of
               Some m \<Rightarrow> - m | None \<Rightarrow> 2147483647);
          let max_width = max max_width min_width;
          let width = resolve_column_width c (if c_is_full_width c then Proportion 1 else c_width c);
          Some (max (min width max_width) min_width) }"

definition column_max_tile_height :: "'w Column \<Rightarrow> real" where
  "column_max_tile_height c =
     sh (r_size (c_working_area c)) - opt_gaps (c_options c) * 2 - sh (column_extra_size c)"

text \<open>The other windows' minimum heights bound the height of the one window that is not automatic.\<close>

definition max_non_auto_window_height :: "('w, 'id) LayoutEnv \<Rightarrow> 'w Column \<Rightarrow> real option option" where
  "max_non_auto_window_height E c =
     (if length (c_tiles c) > 1 \<and> \<not> is_tabbed c
      then case vec_position (\<lambda>d. \<not> is_auto (td_height d)) (c_data c) of
             None \<Rightarrow> Some None
           | Some i \<Rightarrow>
               do { let taken = sum_list (map (\<lambda>(idx, m). sh m + opt_gaps (c_options c))
                      (filter (\<lambda>(idx, m). idx \<noteq> i) (enumerate 0 (column_min_sizes E c))));
                    t \<leftarrow> vec_get (c_tiles c) i;
                    let height_left = column_max_tile_height c - taken;
                    Some (Some (max 1 (f64_round (window_height_for_tile_height t height_left)))) }
      else Some None)"

fun initial_height :: "'w Column \<Rightarrow> real option \<Rightarrow> 'w Tile \<Rightarrow> WindowHeight \<Rightarrow> WindowHeight option" where
  "initial_height c mx t (HAuto w) = Some (HAuto w)"
| "initial_height c mx t (HFixed height) =
     (let h = max (f64_round height) 1;
          h = (case mx of
                 Some m \<Rightarrow> min h m
               | None \<Rightarrow> min h (f64_round (window_height_for_tile_height t (column_max_tile_height c))))
      in Some (HFixed (tile_height_for_window_height t h)))"
| "initial_height c mx t (HPreset idx) =
     do { preset \<leftarrow> vec_get (lc_preset_window_heights (op_layout (c_options c))) idx;
          let h = (case resolve_preset_height c preset of
                     ResolvedTile h \<Rightarrow> window_height_for_tile_height t h
                   | ResolvedWindow h \<Rightarrow> h);
          let h = clampf 1 100000 (f64_round h);
          let h = (case mx of Some m \<Rightarrow> min h m | None \<Rightarrow> h);
          Some (HFixed (tile_height_for_window_height t h)) }"

fun first_fixed :: "WindowHeight list \<Rightarrow> real option" where
  "first_fixed [] = None"
| "first_fixed (HFixed h # hs) = Some h"
| "first_fixed (_ # hs) = first_fixed hs"

text \<open>In tabbed mode all tiles have the height of the only fixed one.\<close>

definition tabbed_heights :: "'w Column \<Rightarrow> Size list \<Rightarrow> WindowHeight list \<Rightarrow> WindowHeight list option" where
  "tabbed_heights c min_size hs =
     (if is_tabbed c
      then do {
        let h = (case first_fixed hs of Some h \<Rightarrow> h | None \<Rightarrow> column_max_tile_height c);
        min_height \<leftarrow> max_opt (map sh min_size);
        let min_height = min (column_max_tile_height c) min_height;
        Some (replicate (length hs) (HFixed (max h min_height))) }
      else Some hs)"

text \<open>
  Fixing the tiles with an exact height and taking the fixed heights off what is left. The counter
  of automatic tiles is decremented with a check, as its type is unsigned.
\<close>

fun subtract_fixed ::
    "(WindowHeight \<times> Size \<times> Size) list \<Rightarrow> real \<Rightarrow> nat \<Rightarrow> (WindowHeight list \<times> real \<times> nat) option" where
  "subtract_fixed [] height_left left = Some ([], height_left, left)"
| "subtract_fixed ((h, mn, mx) # xs) height_left left =
     (let h = (if sh mn = sh mx then HFixed (sh mn) else h)
      in case h of
           HFixed v \<Rightarrow>
             if left = 0 then None
             else
               let v = (if sh mx > 0 then min v (sh mx) else v);
                   v = max v (sh mn)
               in map_option (\<lambda>(hs, r). (HFixed v # hs, r))
                    (subtract_fixed xs (height_left - v) (left - 1))
         | _ \<Rightarrow> map_option (\<lambda>(hs, r). (h # hs, r)) (subtract_fixed xs height_left left))"

fun auto_weight :: "WindowHeight \<Rightarrow> real option" where
  "auto_weight (HAuto w) = Some w"
| "auto_weight _ = None"

definition total_auto_weight :: "WindowHeight list \<Rightarrow> real" where
  "total_auto_weight hs = sum_list (map (\<lambda>h. case auto_weight h of Some w \<Rightarrow> w | None \<Rightarrow> 0) hs)"

text \<open>The auto height of a tile, with the window's height rounded to a whole pixel.\<close>

definition round_auto :: "'w Tile \<Rightarrow> real \<Rightarrow> real" where
  "round_auto t auto =
     tile_height_for_window_height t (max (f64_round (window_height_for_tile_height t auto)) 1)"

text \<open>
  One pass over the automatic tiles: the first one whose share is below its minimum height, with its
  index, weight and minimum, or \<^term>\<open>None\<close> when all fit. A preset height here is \<^verbatim>\<open>unreachable!()\<close>.
\<close>

fun first_short ::
    "nat \<Rightarrow> (WindowHeight \<times> 'w Tile \<times> real) list \<Rightarrow> real \<Rightarrow> real \<Rightarrow> (nat \<times> real \<times> real) option option" where
  "first_short i [] height_left total_weight = Some None"
| "first_short i ((h, t, mn) # xs) height_left total_weight =
     (case h of
        HPreset p \<Rightarrow> None
      | HFixed v \<Rightarrow> first_short (Suc i) xs height_left total_weight
      | HAuto weight \<Rightarrow>
          let auto = height_left * (weight / total_weight)
          in if mn > auto then Some (Some (i, weight, mn))
             else first_short (Suc i) xs (height_left - round_auto t auto) (total_weight - weight))"

fun fill_auto ::
    "(WindowHeight \<times> 'w Tile) list \<Rightarrow> real \<Rightarrow> real \<Rightarrow> nat \<Rightarrow> (WindowHeight list \<times> nat) option" where
  "fill_auto [] height_left total_weight left = Some ([], left)"
| "fill_auto ((h, t) # xs) height_left total_weight left =
     (case h of
        HPreset p \<Rightarrow> None
      | HFixed v \<Rightarrow> map_option (\<lambda>(hs, r). (HFixed v # hs, r)) (fill_auto xs height_left total_weight left)
      | HAuto weight \<Rightarrow>
          if left = 0 then None
          else
            let auto = round_auto t (height_left * (weight / total_weight))
            in map_option (\<lambda>(hs, r). (HFixed auto # hs, r))
                 (fill_auto xs (height_left - auto) (total_weight - weight) (left - 1)))"

fun distribute ::
    "nat \<Rightarrow> 'w Tile list \<Rightarrow> real list \<Rightarrow> WindowHeight list \<Rightarrow> real \<Rightarrow> real \<Rightarrow> WindowHeight list option" where
  "distribute 0 tiles mins hs height_left total_weight = Some hs"
| "distribute (Suc left) tiles mins hs height_left total_weight =
     do { short \<leftarrow> first_short 0 (zip hs (zip tiles mins)) height_left total_weight;
          case short of
            Some (i, weight, mn) \<Rightarrow>
              distribute left tiles mins (hs[i := HFixed mn]) (height_left - mn) (total_weight - weight)
          | None \<Rightarrow>
              do { (hs, left) \<leftarrow> fill_auto (zip hs tiles) height_left total_weight (Suc left);
                   if left = 0 then Some hs else None } }"

fun fixed_height :: "WindowHeight \<Rightarrow> real option" where
  "fixed_height (HFixed h) = Some h"
| "fixed_height _ = None"

text \<open>The heights of all tiles of a column in the normal sizing mode.\<close>

definition column_heights :: "('w, 'id) LayoutEnv \<Rightarrow> 'w Column \<Rightarrow> real list option" where
  "column_heights E c =
     do { let min_size = column_min_sizes E c;
          let max_size = column_max_sizes E c;
          mx \<leftarrow> max_non_auto_window_height E c;
          hs \<leftarrow> map_opt (\<lambda>(t, d). initial_height c mx t (td_height d)) (zip (c_tiles c) (c_data c));
          hs \<leftarrow> tabbed_heights c min_size hs;
          let gaps_left = opt_gaps (c_options c) * real (length (c_tiles c) + 1);
          (hs, height_left, auto_tiles_left) \<leftarrow>
            subtract_fixed (zip hs (zip min_size max_size))
              (sh (r_size (c_working_area c)) - gaps_left) (length (c_tiles c));
          hs \<leftarrow> distribute auto_tiles_left (c_tiles c) (map sh min_size) hs height_left
                  (total_auto_weight hs);
          map_opt fixed_height hs }"

text \<open>In tabbed mode, only the visible window takes part in the transaction.\<close>

definition in_transaction :: "'w Column \<Rightarrow> nat \<Rightarrow> bool" where
  "in_transaction c i \<longleftrightarrow> \<not> (is_tabbed c \<and> i \<noteq> c_active_tile_idx c)"

definition update_tile_sizes :: "('w, 'id) LayoutEnv \<Rightarrow> bool \<Rightarrow> 'w Column \<Rightarrow> 'w Column option" where
  "update_tile_sizes E animate c =
     (case column_pending_sizing_mode c of
        Fullscreen \<Rightarrow>
          Some (c\<lparr>c_tiles := map (\<lambda>(i, t). request_fullscreen E animate (in_transaction c i) t)
                              (enumerate 0 (c_tiles c))\<rparr>)
      | Maximized \<Rightarrow>
          Some (c\<lparr>c_tiles := map (\<lambda>(i, t). request_maximized E (r_size (c_parent_area c)) animate
                                             (in_transaction c i) t)
                              (enumerate 0 (c_tiles c))\<rparr>)
      | Normal \<Rightarrow>
          do { width \<leftarrow> column_request_width E c;
               heights \<leftarrow> column_heights E c;
               Some (c\<lparr>c_tiles := map (\<lambda>(i, t, h). request_tile_size E \<lparr>sw = width, sh = h\<rparr> animate
                                                    (in_transaction c i) t)
                                   (enumerate 0 (zip (c_tiles c) heights))\<rparr>) })"

section \<open>Operations\<close>

definition column_add_tile_at :: "('w, 'id) LayoutEnv \<Rightarrow> nat \<Rightarrow> 'w Tile \<Rightarrow> 'w Column \<Rightarrow> 'w Column option" where
  "column_add_tile_at E idx tile c =
     do { let tile = tile_update_config E (c_view_size c) (c_scale c) (c_options c) tile;
          let prev_offsets = take (length (c_tiles c)) (tile_offsets c);
          let c = (if \<not> is_tabbed c
                   then c\<lparr>c_is_pending_fullscreen := False, c_is_pending_maximized := False\<rparr> else c);
          ds \<leftarrow> vec_insert idx (tile_data_new E tile auto_1) (c_data c);
          ts \<leftarrow> vec_insert idx tile (c_tiles c);
          c \<leftarrow> update_tile_sizes E True (c\<lparr>c_data := ds, c_tiles := ts\<rparr>);
          prev_offsets \<leftarrow> vec_insert idx point_zero prev_offsets;
          ts \<leftarrow> map_opt (\<lambda>(i, t, offset, prev).
                   if i = idx then Some t else animate_move_from E (point_sub prev offset) t)
                 (enumerate 0 (zip (c_tiles c) (zip (tile_offsets c) prev_offsets)));
          Some (c\<lparr>c_tiles := ts\<rparr>) }"

definition convert_heights_to_auto :: "('w, 'id) LayoutEnv \<Rightarrow> 'w Column \<Rightarrow> 'w Column option" where
  "convert_heights_to_auto E c =
     do { let heights = map (\<lambda>t. sh (tile_size E t)) (c_tiles c);
          let sorted = sort heights;
          median \<leftarrow> vec_get sorted (length sorted div 2);
          Some (c\<lparr>c_data := map (\<lambda>(d, h). d\<lparr>td_height := HAuto (h / median)\<rparr>)
                             (zip (c_data c) heights)\<rparr>) }"

definition column_update_config ::
    "('w, 'id) LayoutEnv \<Rightarrow> Size \<Rightarrow> Rect \<Rightarrow> Rect \<Rightarrow> real \<Rightarrow> Options \<Rightarrow> 'w Column \<Rightarrow> 'w Column option" where
  "column_update_config E view_size working_area parent_area scale options c =
     do { let old = op_layout (c_options c);
          let new = op_layout options;
          let update_sizes = (c_view_size c \<noteq> view_size \<or> c_working_area c \<noteq> working_area
                              \<or> c_parent_area c \<noteq> parent_area);
          let c = (if lc_preset_column_widths old \<noteq> lc_preset_column_widths new
                   then c\<lparr>c_preset_width_idx := None\<rparr> else c);
          c \<leftarrow> (if lc_preset_window_heights old \<noteq> lc_preset_window_heights new
                 then convert_heights_to_auto E c else Some c);
          let update_sizes = (update_sizes
                              \<or> lc_preset_window_heights old \<noteq> lc_preset_window_heights new
                              \<or> lc_gaps old \<noteq> lc_gaps new
                              \<or> b_off (lc_border old) \<noteq> b_off (lc_border new)
                              \<or> b_width (lc_border old) \<noteq> b_width (lc_border new)
                              \<or> lc_tab_indicator old \<noteq> lc_tab_indicator new);
          let tiles = map (tile_update_config E view_size scale options) (c_tiles c);
          let c = c\<lparr>c_tiles := tiles,
                    c_data := map (\<lambda>(t, d). tile_data_update E t d) (zip tiles (c_data c)),
                    c_tab_indicator := (c_tab_indicator c)\<lparr>ti_config := lc_tab_indicator new\<rparr>,
                    c_view_size := view_size, c_working_area := working_area,
                    c_parent_area := parent_area, c_scale := scale, c_options := options\<rparr>;
          if update_sizes then update_tile_sizes E False c else Some c }"

definition column_advance_animations :: "('w, 'id) LayoutEnv \<Rightarrow> 'w Column \<Rightarrow> 'w Column" where
  "column_advance_animations E c =
     c\<lparr>c_move_animation := unless_done (le_anim E) mv_anim (c_move_animation c),
       c_tiles := map (tile_advance_animations E) (c_tiles c),
       c_tab_indicator := tab_advance_animations E (c_tab_indicator c)\<rparr>"

definition column_are_animations_ongoing :: "('w, 'id) LayoutEnv \<Rightarrow> 'w Column \<Rightarrow> bool" where
  "column_are_animations_ongoing E c \<longleftrightarrow> c_move_animation c \<noteq> None \<or>
     ti_open_anim (c_tab_indicator c) \<noteq> None \<or>
     (\<exists>t \<in> set (c_tiles c). tile_are_animations_ongoing E t)"

definition column_are_transitions_ongoing :: "('w, 'id) LayoutEnv \<Rightarrow> 'w Column \<Rightarrow> bool" where
  "column_are_transitions_ongoing E c \<longleftrightarrow> c_move_animation c \<noteq> None \<or>
     ti_open_anim (c_tab_indicator c) \<noteq> None \<or>
     (\<exists>t \<in> set (c_tiles c). tile_are_transitions_ongoing E t)"

definition column_render_offset :: "('w, 'id) LayoutEnv \<Rightarrow> 'w Column \<Rightarrow> Point" where
  "column_render_offset E c = \<lparr>px = move_offset E (c_move_animation c), py = 0\<rparr>"

definition column_animate_move_from_with_config ::
    "('w, 'id) LayoutEnv \<Rightarrow> real \<Rightarrow> AnimConfig \<Rightarrow> 'w Column \<Rightarrow> 'w Column option" where
  "column_animate_move_from_with_config E from_x_offset config c =
     do { a \<leftarrow> anim_new (le_anim E) 1 0 0 config;
          Some (c\<lparr>c_move_animation :=
            Some \<lparr>mv_anim = a, mv_from = from_x_offset + move_offset E (c_move_animation c)\<rparr>\<rparr>) }"

abbreviation column_movement_config :: "'w Column \<Rightarrow> AnimConfig" where
  "column_movement_config c \<equiv> acs_window_movement (op_animations (c_options c))"

definition column_animate_move_from :: "('w, 'id) LayoutEnv \<Rightarrow> real \<Rightarrow> 'w Column \<Rightarrow> 'w Column option" where
  "column_animate_move_from E from_x_offset c =
     column_animate_move_from_with_config E from_x_offset (column_movement_config c) c"

definition column_offset_move_anim_current :: "('w, 'id) LayoutEnv \<Rightarrow> real \<Rightarrow> 'w Column \<Rightarrow> 'w Column" where
  "column_offset_move_anim_current E offset c =
     c\<lparr>c_move_animation := offset_move_anim E offset (c_move_animation c)\<rparr>"

definition column_activate_idx :: "nat \<Rightarrow> 'w Column \<Rightarrow> (bool \<times> 'w Column) option" where
  "column_activate_idx idx c =
     (if c_active_tile_idx c = idx then Some (False, c)
      else do { let c = c\<lparr>c_active_tile_idx := idx\<rparr>;
                ts \<leftarrow> vec_update idx ensure_alpha_animates_to_1 (c_tiles c);
                Some (True, c\<lparr>c_tiles := ts\<rparr>) })"

definition column_activate_window :: "('w, 'id) LayoutEnv \<Rightarrow> 'id \<Rightarrow> 'w Column \<Rightarrow> 'w Column option" where
  "column_activate_window E i c =
     do { idx \<leftarrow> column_position E i c; map_option snd (column_activate_idx idx c) }"

text \<open>The element has committed; the tiles below move in tandem with the resize.\<close>

definition shift_tiles_below :: "('w, 'id) LayoutEnv \<Rightarrow> nat \<Rightarrow> bool \<Rightarrow> real \<Rightarrow> 'w Column \<Rightarrow> 'w Column option" where
  "shift_tiles_below E tile_idx resizing offset c =
     (if \<not> is_tabbed c \<and> offset \<noteq> 0
      then do {
        below \<leftarrow> (if resizing
                   then map_opt (animate_move_y_from_with_config E offset
                          (acs_window_resize (op_animations (c_options c))))
                          (drop (tile_idx + 1) (c_tiles c))
                   else Some (map (offset_move_y_anim_current E offset)
                          (drop (tile_idx + 1) (c_tiles c))));
        Some (c\<lparr>c_tiles := take (tile_idx + 1) (c_tiles c) @ below\<rparr>) }
      else Some c)"

definition column_update_window :: "('w, 'id) LayoutEnv \<Rightarrow> 'id \<Rightarrow> 'w Column \<Rightarrow> 'w Column option" where
  "column_update_window E i c =
     do { tile_idx \<leftarrow> column_position E i c;
          d \<leftarrow> vec_get (c_data c) tile_idx;
          let prev_height = sh (td_size d);
          t \<leftarrow> vec_get (c_tiles c) tile_idx;
          t \<leftarrow> tile_update_window E t;
          let c = c\<lparr>c_tiles := (c_tiles c)[tile_idx := t],
                    c_data := (c_data c)[tile_idx := tile_data_update E t d]\<rparr>;
          shift_tiles_below E tile_idx (tl_resize_animation t \<noteq> None)
            (prev_height - sh (tile_size E t)) c }"

subsection \<open>Focus and movement within the column\<close>

definition column_focus_index :: "u8 \<Rightarrow> 'w Column \<Rightarrow> 'w Column option" where
  "column_focus_index index c =
     (if c_tiles c = [] then None
      else map_option snd (column_activate_idx (min (unat index - 1) (length (c_tiles c) - 1)) c))"

definition column_focus_up :: "'w Column \<Rightarrow> (bool \<times> 'w Column) option" where
  "column_focus_up c = column_activate_idx (c_active_tile_idx c - 1) c"

definition column_focus_down :: "'w Column \<Rightarrow> (bool \<times> 'w Column) option" where
  "column_focus_down c =
     (if c_tiles c = [] then None
      else column_activate_idx (min (c_active_tile_idx c + 1) (length (c_tiles c) - 1)) c)"

definition column_focus_top :: "'w Column \<Rightarrow> 'w Column option" where
  "column_focus_top c = map_option snd (column_activate_idx 0 c)"

definition column_focus_bottom :: "'w Column \<Rightarrow> 'w Column option" where
  "column_focus_bottom c =
     (if c_tiles c = [] then None
      else map_option snd (column_activate_idx (length (c_tiles c) - 1) c))"

definition column_swap_active :: "nat \<Rightarrow> 'w Column \<Rightarrow> 'w Column option" where
  "column_swap_active new_idx c =
     do { ts \<leftarrow> vec_swap (c_active_tile_idx c) new_idx (c_tiles c);
          ds \<leftarrow> vec_swap (c_active_tile_idx c) new_idx (c_data c);
          Some (c\<lparr>c_tiles := ts, c_data := ds, c_active_tile_idx := new_idx\<rparr>) }"

definition animate_tile_y ::
    "('w, 'id) LayoutEnv \<Rightarrow> nat \<Rightarrow> real \<Rightarrow> 'w Column \<Rightarrow> 'w Column option" where
  "animate_tile_y E i from c =
     do { t \<leftarrow> vec_get (c_tiles c) i;
          t \<leftarrow> animate_move_y_from E from t;
          Some (c\<lparr>c_tiles := (c_tiles c)[i := t]\<rparr>) }"

definition column_move_up :: "('w, 'id) LayoutEnv \<Rightarrow> 'w Column \<Rightarrow> (bool \<times> 'w Column) option" where
  "column_move_up E c =
     (let new_idx = c_active_tile_idx c - 1
      in if c_active_tile_idx c = new_idx then Some (False, c)
         else do {
           active \<leftarrow> vec_get (tile_offsets c) (c_active_tile_idx c);
           nxt \<leftarrow> vec_get (tile_offsets c) (c_active_tile_idx c + 1);
           c \<leftarrow> column_swap_active new_idx c;
           new_active \<leftarrow> tile_offset new_idx c;
           c \<leftarrow> animate_tile_y E new_idx (py active - py new_active) c;
           c \<leftarrow> animate_tile_y E (new_idx + 1) (py active - py nxt) c;
           Some (True, c) })"

definition column_move_down :: "('w, 'id) LayoutEnv \<Rightarrow> 'w Column \<Rightarrow> (bool \<times> 'w Column) option" where
  "column_move_down E c =
     (if c_tiles c = [] then None
      else
        let new_idx = min (c_active_tile_idx c + 1) (length (c_tiles c) - 1)
        in if c_active_tile_idx c = new_idx then Some (False, c)
           else do {
             active \<leftarrow> vec_get (tile_offsets c) (c_active_tile_idx c);
             nxt \<leftarrow> vec_get (tile_offsets c) (c_active_tile_idx c + 1);
             c \<leftarrow> column_swap_active new_idx c;
             new_active \<leftarrow> tile_offset new_idx c;
             c \<leftarrow> animate_tile_y E new_idx (py active - py new_active) c;
             c \<leftarrow> (if new_idx = 0 then None
                    else animate_tile_y E (new_idx - 1) (py nxt - py active) c);
             Some (True, c) })"

subsection \<open>Sizes\<close>

abbreviation idx_or_active :: "nat option \<Rightarrow> 'w Column \<Rightarrow> nat" where
  "idx_or_active i c \<equiv> (case i of Some n \<Rightarrow> n | None \<Rightarrow> c_active_tile_idx c)"

definition changed_width :: "'w Column \<Rightarrow> ColumnWidth \<Rightarrow> SizeChange \<Rightarrow> nat option \<Rightarrow> ColumnWidth option" where
  "changed_width c current change tile_idx =
     (let current_px = resolve_column_width c current
      in case change of
           SetFixed fixed \<Rightarrow>
             do { t \<leftarrow> vec_get (c_tiles c) (idx_or_active tile_idx c);
                  Some (Fixed (clampf 1 100000 (tile_width_for_window_width t (of_int fixed)))) }
         | SetProportion proportion \<Rightarrow> Some (Proportion (clampf 0 10000 (proportion / 100)))
         | AdjustFixed delta \<Rightarrow> Some (Fixed (clampf 1 100000 (current_px + of_int delta)))
         | AdjustProportion delta \<Rightarrow>
             (case current of
                Proportion p \<Rightarrow> Some (Proportion (clampf 0 10000 (p + delta / 100)))
              | Fixed _ \<Rightarrow>
                  let gaps = opt_gaps (c_options c);
                      full = sw (r_size (c_working_area c)) - gaps;
                      current = (if full = 0 then 1
                                 else (current_px + gaps + sw (column_extra_size c)) / full)
                  in Some (Proportion (clampf 0 10000 (current + delta / 100)))))"

definition column_set_column_width ::
    "('w, 'id) LayoutEnv \<Rightarrow> SizeChange \<Rightarrow> nat option \<Rightarrow> bool \<Rightarrow> 'w Column \<Rightarrow> 'w Column option" where
  "column_set_column_width E change tile_idx animate c =
     do { let current = (if c_is_full_width c \<or> c_is_pending_maximized c then Proportion 1 else c_width c);
          width \<leftarrow> changed_width c current change tile_idx;
          update_tile_sizes E animate
            (c\<lparr>c_width := width, c_preset_width_idx := None, c_is_full_width := False,
               c_is_pending_maximized := False\<rparr>) }"

definition column_toggle_width ::
    "('w, 'id) LayoutEnv \<Rightarrow> nat option \<Rightarrow> bool \<Rightarrow> 'w Column \<Rightarrow> 'w Column option" where
  "column_toggle_width E tile_idx forwards c =
     do { let tile_idx = idx_or_active tile_idx c;
          let preset_idx = (if c_is_full_width c \<or> c_is_pending_maximized c then None
                            else c_preset_width_idx c);
          let presets = lc_preset_column_widths (op_layout (c_options c));
          let len = length presets;
          preset_idx \<leftarrow>
            (case preset_idx of
               Some idx \<Rightarrow>
                 if len = 0 then None
                 else Some ((idx + (if forwards then 1 else len - 1)) mod len)
             | None \<Rightarrow>
                 do { t \<leftarrow> vec_get (c_tiles c) tile_idx;
                      let current_window = sw (window_expected_or_current_size E t);
                      let current_tile = sw (tile_expected_or_current_size E t);
                      let resolved = map (resolve_preset_width c) presets;
                      if forwards
                      then Some (case vec_position (\<lambda>r. case r of
                                         ResolvedTile v \<Rightarrow> current_tile + 1 < v
                                       | ResolvedWindow v \<Rightarrow> current_window + 1 < v) resolved of
                                   Some i \<Rightarrow> i | None \<Rightarrow> 0)
                      else (case vec_rposition (\<lambda>r. case r of
                                    ResolvedTile v \<Rightarrow> v + 1 < current_tile
                                  | ResolvedWindow v \<Rightarrow> v + 1 < current_window) resolved of
                              Some i \<Rightarrow> Some i
                            | None \<Rightarrow> if len = 0 then None else Some (len - 1)) });
          preset \<leftarrow> vec_get presets preset_idx;
          c \<leftarrow> column_set_column_width E (size_change_from_preset preset) (Some tile_idx) True c;
          Some (c\<lparr>c_preset_width_idx := Some preset_idx\<rparr>) }"

definition column_toggle_full_width :: "('w, 'id) LayoutEnv \<Rightarrow> 'w Column \<Rightarrow> 'w Column option" where
  "column_toggle_full_width E c =
     update_tile_sizes E True
       (if c_is_pending_maximized c
        then c\<lparr>c_is_pending_maximized := False, c_is_full_width := False\<rparr>
        else c\<lparr>c_is_full_width := \<not> c_is_full_width c\<rparr>)"

text \<open>All heights become automatic unless the window is the one that is not.\<close>

definition start_height_change :: "('w, 'id) LayoutEnv \<Rightarrow> nat \<Rightarrow> 'w Column \<Rightarrow> 'w Column option" where
  "start_height_change E i c =
     do { d \<leftarrow> vec_get (c_data c) i;
          if is_auto (td_height d) then convert_heights_to_auto E c else Some c }"

definition set_tile_height :: "nat \<Rightarrow> WindowHeight \<Rightarrow> 'w Column \<Rightarrow> 'w Column option" where
  "set_tile_height i h c =
     do { ds \<leftarrow> vec_update i (\<lambda>d. d\<lparr>td_height := h\<rparr>) (c_data c); Some (c\<lparr>c_data := ds\<rparr>) }"

definition changed_window_height ::
    "('w, 'id) LayoutEnv \<Rightarrow> 'w Column \<Rightarrow> SizeChange \<Rightarrow> nat \<Rightarrow> 'w Tile \<Rightarrow> WindowHeight \<Rightarrow> real" where
  "changed_window_height E c change tile_idx t current =
     (let current_window_px = (case current of HFixed h \<Rightarrow> h | _ \<Rightarrow> sh (window_size E t));
          current_tile_px = tile_height_for_window_height t current_window_px;
          working_size = sh (r_size (c_working_area c));
          gaps = opt_gaps (c_options c);
          extra_size = sh (column_extra_size c);
          full = working_size - gaps;
          current_prop = (if full = 0 then 1 else (current_tile_px + gaps) / full);
          h = (case change of
                 SetFixed fixed \<Rightarrow> of_int fixed
               | SetProportion p \<Rightarrow>
                   window_height_for_tile_height t ((working_size - gaps) * (p / 100) - gaps - extra_size)
               | AdjustFixed delta \<Rightarrow> current_window_px + of_int delta
               | AdjustProportion delta \<Rightarrow>
                   window_height_for_tile_height t
                     ((working_size - gaps) * (current_prop + delta / 100) - gaps - extra_size));
          min_height_taken =
            (if is_tabbed c then 0
             else sum_list (map (\<lambda>(idx, t). max 1 (sh (min_size_nonfullscreen E t)) + gaps)
                    (filter (\<lambda>(idx, t). idx \<noteq> tile_idx) (enumerate 0 (c_tiles c)))));
          height_left = working_size - extra_size - gaps - min_height_taken - gaps;
          height_left = max 1 (window_height_for_tile_height t height_left);
          h = min height_left h;
          min_h = ih (el_min_size E (tl_window t));
          max_h = ih (el_max_size E (tl_window t));
          h = (if max_h > 0 then min h (of_int max_h) else h);
          h = (if min_h > 0 then max h (of_int min_h) else h)
      in clampf 1 100000 h)"

definition column_set_window_height ::
    "('w, 'id) LayoutEnv \<Rightarrow> SizeChange \<Rightarrow> nat option \<Rightarrow> bool \<Rightarrow> 'w Column \<Rightarrow> 'w Column option" where
  "column_set_window_height E change tile_idx animate c =
     do { let tile_idx = idx_or_active tile_idx c;
          c \<leftarrow> start_height_change E tile_idx c;
          d \<leftarrow> vec_get (c_data c) tile_idx;
          t \<leftarrow> vec_get (c_tiles c) tile_idx;
          c \<leftarrow> set_tile_height tile_idx
                 (HFixed (changed_window_height E c change tile_idx t (td_height d))) c;
          update_tile_sizes E animate (c\<lparr>c_is_pending_maximized := False\<rparr>) }"

definition column_reset_window_height ::
    "('w, 'id) LayoutEnv \<Rightarrow> nat option \<Rightarrow> 'w Column \<Rightarrow> 'w Column option" where
  "column_reset_window_height E tile_idx c =
     do { c \<leftarrow> (if is_tabbed c
                 then Some (c\<lparr>c_data := map (\<lambda>d. d\<lparr>td_height := auto_1\<rparr>) (c_data c)\<rparr>)
                 else set_tile_height (idx_or_active tile_idx c) auto_1 c);
          update_tile_sizes E True c }"

text \<open>The preset the height cycles to: the neighbour of the current preset, and from another
height the first preset above (the last preset below) the current height.\<close>

definition next_height_preset ::
    "bool \<Rightarrow> WindowHeight \<Rightarrow> bool \<Rightarrow> real \<Rightarrow> real list \<Rightarrow> nat option" where
  "next_height_preset forwards h maximized current resolved =
     (let len = length resolved
      in case (h, maximized) of
           (HPreset idx, False) \<Rightarrow>
             if len = 0 then None
             else Some ((idx + (if forwards then 1 else len - 1)) mod len)
         | _ \<Rightarrow>
             if forwards
             then Some (case vec_position (\<lambda>r. current + 1 < r) resolved of
                          Some i \<Rightarrow> i | None \<Rightarrow> 0)
             else (case vec_rposition (\<lambda>r. r + 1 < current) resolved of
                     Some i \<Rightarrow> Some i
                   | None \<Rightarrow> if len = 0 then None else Some (len - 1)))"

definition column_toggle_window_height ::
    "('w, 'id) LayoutEnv \<Rightarrow> nat option \<Rightarrow> bool \<Rightarrow> 'w Column \<Rightarrow> 'w Column option" where
  "column_toggle_window_height E tile_idx forwards c =
     do { let tile_idx = idx_or_active tile_idx c;
          c \<leftarrow> start_height_change E tile_idx c;
          let presets = lc_preset_window_heights (op_layout (c_options c));
          d \<leftarrow> vec_get (c_data c) tile_idx;
          t \<leftarrow> vec_get (c_tiles c) tile_idx;
          let current = sh (td_size d);
          let resolved = map (\<lambda>preset.
                let h = (case resolve_preset_height c preset of
                           ResolvedTile h \<Rightarrow> window_height_for_tile_height t h
                         | ResolvedWindow h \<Rightarrow> h)
                in tile_height_for_window_height t (clampf 1 100000 (f64_round h))) presets;
          preset_idx \<leftarrow> next_height_preset forwards (td_height d) (c_is_pending_maximized c) current resolved;
          c \<leftarrow> set_tile_height tile_idx (HPreset preset_idx) c;
          update_tile_sizes E True (c\<lparr>c_is_pending_maximized := False\<rparr>) }"

subsection \<open>Fullscreen, maximized, display mode\<close>

definition column_set_fullscreen :: "('w, 'id) LayoutEnv \<Rightarrow> bool \<Rightarrow> 'w Column \<Rightarrow> 'w Column option" where
  "column_set_fullscreen E is_fs c =
     (if c_is_pending_fullscreen c = is_fs then Some c
      else if is_fs \<and> \<not> (length (c_tiles c) = 1 \<or> is_tabbed c) then None
      else update_tile_sizes E True (c\<lparr>c_is_pending_fullscreen := is_fs\<rparr>))"

definition column_set_maximized :: "('w, 'id) LayoutEnv \<Rightarrow> bool \<Rightarrow> 'w Column \<Rightarrow> 'w Column option" where
  "column_set_maximized E maximize c =
     (if c_is_pending_maximized c = maximize then Some c
      else if maximize \<and> \<not> (length (c_tiles c) = 1 \<or> is_tabbed c) then None
      else update_tile_sizes E True (c\<lparr>c_is_pending_maximized := maximize\<rparr>))"

definition column_set_column_display ::
    "('w, 'id) LayoutEnv \<Rightarrow> ColumnDisplay \<Rightarrow> 'w Column \<Rightarrow> 'w Column option" where
  "column_set_column_display E display c =
     (if c_display_mode c = display then Some c
      else do {
        let prev_origin = tiles_origin c;
        let new_origin = tiles_origin (c\<lparr>c_display_mode := display\<rparr>);
        let origin_delta = point_sub prev_origin new_origin;
        let c = c\<lparr>c_display_mode := DisplayNormal\<rparr>;
        ts \<leftarrow> map_opt (\<lambda>(t, pos).
                let y_delta = py pos - py prev_origin;
                    y_delta = (if display = DisplayNormal then - y_delta else y_delta)
                in animate_move_from E (origin_delta\<lparr>py := py origin_delta + y_delta\<rparr>) t)
              (zip (c_tiles c) (tile_offsets c));
        ts \<leftarrow> map_opt (\<lambda>(i, t).
                if i \<noteq> c_active_tile_idx c
                then (if display = DisplayTabbed
                      then animate_alpha E 1 0 (column_movement_config c) t
                      else animate_alpha E 0 1 (column_movement_config c) t)
                else Some t)
              (enumerate 0 ts);
        ti \<leftarrow> (if display = DisplayTabbed
                then tab_start_open_animation E (column_movement_config c) (c_tab_indicator c)
                else Some (c_tab_indicator c));
        update_tile_sizes E True
          (c\<lparr>c_tiles := ts, c_tab_indicator := ti, c_display_mode := display\<rparr>) })"

text \<open>A column around one tile.\<close>

definition column_new_with_tile ::
    "('w, 'id) LayoutEnv \<Rightarrow> 'w Tile \<Rightarrow> Size \<Rightarrow> Rect \<Rightarrow> Rect \<Rightarrow> real \<Rightarrow> ColumnWidth \<Rightarrow> bool \<Rightarrow>
     'w Column option" where
  "column_new_with_tile E tile view_size working_area parent_area scale width is_full_width =
     do { let options = tl_options tile;
          let display_mode =
            (case wr_default_column_display (el_rules E (tl_window tile)) of
               Some m \<Rightarrow> m | None \<Rightarrow> lc_default_column_display (op_layout options));
          let rv = \<lparr>c_tiles = [], c_data = [], c_active_tile_idx = 0, c_width = width,
               c_preset_width_idx = vec_position (\<lambda>p. width = column_width_from_preset p)
                 (lc_preset_column_widths (op_layout options)),
               c_is_full_width = is_full_width, c_is_pending_fullscreen = False,
               c_is_pending_maximized = False, c_display_mode = display_mode,
               c_tab_indicator = \<lparr>ti_open_anim = None, ti_config = lc_tab_indicator (op_layout options)\<rparr>,
               c_move_animation = None, c_view_size = view_size, c_working_area = working_area,
               c_parent_area = parent_area, c_scale = scale, c_options = options\<rparr>;
          let pending = el_pending_sizing_mode E (tl_window tile);
          rv \<leftarrow> column_add_tile_at E 0 tile rv;
          rv \<leftarrow> (case pending of
                    Normal \<Rightarrow> Some rv
                  | Maximized \<Rightarrow> column_set_maximized E True rv
                  | Fullscreen \<Rightarrow> column_set_fullscreen E True rv);
          if display_mode = DisplayTabbed
             \<and> \<not> tc_hide_when_single_tab (lc_tab_indicator (op_layout (c_options rv)))
             \<and> is_normal (column_sizing_mode rv)
          then do { ti \<leftarrow> tab_start_open_animation E (column_movement_config rv) (c_tab_indicator rv);
                    Some (rv\<lparr>c_tab_indicator := ti\<rparr>) }
          else Some rv }"

definition column_start_open_animation ::
    "('w, 'id) LayoutEnv \<Rightarrow> 'id \<Rightarrow> 'w Column \<Rightarrow> (bool \<times> 'w Column) option" where
  "column_start_open_animation E i c =
     (case column_position E i c of
        None \<Rightarrow> Some (False, c)
      | Some idx \<Rightarrow>
          do { t \<leftarrow> vec_get (c_tiles c) idx;
               t \<leftarrow> tile_start_open_animation E t;
               let c = c\<lparr>c_tiles := (c_tiles c)[idx := t]\<rparr>;
               ti \<leftarrow> (if is_tabbed c \<and> is_normal (column_sizing_mode c) \<and> length (c_tiles c) = 1
                          \<and> \<not> tc_hide_when_single_tab (ti_config (c_tab_indicator c))
                       then tab_start_open_animation E (acs_window_open (op_animations (c_options c)))
                              (c_tab_indicator c)
                       else Some (c_tab_indicator c));
               Some (True, c\<lparr>c_tab_indicator := ti\<rparr>) })"

text \<open>Every window of the column gives up its interactive resize.\<close>

definition column_cancel_resize :: "('w, 'id) LayoutEnv \<Rightarrow> 'w Column \<Rightarrow> 'w Column" where
  "column_cancel_resize E c =
     c\<lparr>c_tiles := map (\<lambda>t. t\<lparr>tl_window := el_cancel_interactive_resize E (tl_window t)\<rparr>) (c_tiles c)\<rparr>"

end
