(* ===== verification/Input_Swipe.thy ===== *)
theory Input_Swipe
  imports Anim_Clock
begin

text \<open>
  The tracker of a touchpad or drag gesture (\<^verbatim>\<open>src/input/swipe_tracker.rs\<close>): the position, and a short
  history of readings from which the velocity and the end of the decelerating movement are computed.
  The overflow of a \<^verbatim>\<open>Duration\<close> and the subtraction of a later from an earlier one panic.
\<close>

section \<open>The tracker\<close>

definition HISTORY_LIMIT :: nanos where "HISTORY_LIMIT = from_millis 150"

definition DECELERATION_TOUCHPAD :: real where "DECELERATION_TOUCHPAD = 0.997"

record SwipeEvent =
  sv_delta :: real
  sv_timestamp :: nanos

record SwipeTracker =
  sw_history :: "SwipeEvent list"
  sw_pos :: real

definition swipe_new :: SwipeTracker where
  "swipe_new = \<lparr>sw_history = [], sw_pos = 0\<rparr>"

definition duration_add :: "nanos \<Rightarrow> nanos \<Rightarrow> nanos option" where
  "duration_add a b = (if a + b \<le> DURATION_MAX then Some (a + b) else None)"

definition duration_sub :: "nanos \<Rightarrow> nanos \<Rightarrow> nanos option" where
  "duration_sub a b = (if b \<le> a then Some (a - b) else None)"

text \<open>Readings leave at the front while they are older than the limit.\<close>

fun trim_events :: "nanos \<Rightarrow> SwipeEvent list \<Rightarrow> SwipeEvent list option" where
  "trim_events timestamp [] = Some []"
| "trim_events timestamp (first # rest) =
     do { limit \<leftarrow> duration_add (sv_timestamp first) HISTORY_LIMIT;
          if timestamp \<le> limit then Some (first # rest) else trim_events timestamp rest }"

definition swipe_trim_history :: "SwipeTracker \<Rightarrow> SwipeTracker option" where
  "swipe_trim_history t =
     (if sw_history t = [] then Some t
      else do { h \<leftarrow> trim_events (sv_timestamp (last (sw_history t))) (sw_history t);
                Some (t\<lparr>sw_history := h\<rparr>) })"

definition swipe_push :: "real \<Rightarrow> nanos \<Rightarrow> SwipeTracker \<Rightarrow> SwipeTracker option" where
  "swipe_push delta timestamp t =
     (if sw_history t \<noteq> [] \<and> timestamp < sv_timestamp (last (sw_history t)) then Some t
      else swipe_trim_history
             (t\<lparr>sw_history := sw_history t @ [\<lparr>sv_delta = delta, sv_timestamp = timestamp\<rparr>],
                sw_pos := sw_pos t + delta\<rparr>))"

definition swipe_velocity :: "SwipeTracker \<Rightarrow> real option" where
  "swipe_velocity t =
     (if sw_history t = [] then Some 0
      else do {
        total \<leftarrow> duration_sub (sv_timestamp (last (sw_history t))) (sv_timestamp (hd (sw_history t)));
        let total_time = as_secs_f64 total;
        Some (if total_time = 0 then 0 else sum_list (map sv_delta (sw_history t)) / total_time) })"

definition swipe_projected_end_pos :: "SwipeTracker \<Rightarrow> real option" where
  "swipe_projected_end_pos t =
     do { vel \<leftarrow> swipe_velocity t;
          Some (sw_pos t - vel / (1000 * ln DECELERATION_TOUCHPAD)) }"

section \<open>The history is ordered and short\<close>

abbreviation times :: "SwipeEvent list \<Rightarrow> nanos list" where
  "times h \<equiv> map sv_timestamp h"

definition swipe_inv :: "SwipeTracker \<Rightarrow> bool" where
  "swipe_inv t \<longleftrightarrow> sorted (times (sw_history t)) \<and>
     (\<forall>e \<in> set (sw_history t). sv_timestamp e + HISTORY_LIMIT \<le> DURATION_MAX \<and>
        sv_timestamp (last (sw_history t)) \<le> sv_timestamp e + HISTORY_LIMIT)"

text \<open>
  Trimming an ordered history succeeds, keeps its last reading, and keeps exactly the readings of
  the last 150 ms.
\<close>

lemma trim_events_ok:
  assumes "sorted (times h)" and "\<forall>e \<in> set h. sv_timestamp e + HISTORY_LIMIT \<le> DURATION_MAX"
  shows "trim_events ts h = Some (filter (\<lambda>e. ts \<le> sv_timestamp e + HISTORY_LIMIT) h)"
  using assms
proof (induction h)
  case Nil
  then show ?case by simp
next
  case (Cons e h)
  have "filter (\<lambda>e. ts \<le> sv_timestamp e + HISTORY_LIMIT) h = h" if "ts \<le> sv_timestamp e + HISTORY_LIMIT"
    using that Cons.prems(1) by (intro filter_True) force
  with Cons show ?case by (simp add: duration_add_def)
qed

lemma sorted_times_le_last: "sorted (times h) \<Longrightarrow> e \<in> set h \<Longrightarrow> sv_timestamp e \<le> sv_timestamp (last h)"
  by (induction h) (auto split: if_splits)

lemma sorted_times_hd: "sorted (times h) \<Longrightarrow> h \<noteq> [] \<Longrightarrow> sv_timestamp (hd h) \<le> sv_timestamp (last h)"
  by (rule sorted_times_le_last) simp_all

lemma swipe_new_inv: "swipe_inv swipe_new"
  by (simp add: swipe_inv_def swipe_new_def)

text \<open>A reading that is not older than the last one.\<close>

lemma swipe_push_accepts:
  assumes inv: "swipe_inv t" and ts: "ts + HISTORY_LIMIT \<le> DURATION_MAX"
    and new: "sw_history t \<noteq> [] \<Longrightarrow> sv_timestamp (last (sw_history t)) \<le> ts"
  shows "runs (swipe_push d ts t) (\<lambda>t'. swipe_inv t' \<and> sw_pos t' = sw_pos t + d \<and>
     sw_history t' = filter (\<lambda>e. ts \<le> sv_timestamp e + HISTORY_LIMIT) (sw_history t) @
        [\<lparr>sv_delta = d, sv_timestamp = ts\<rparr>])"
proof -
  let ?h = "sw_history t @ [\<lparr>sv_delta = d, sv_timestamp = ts\<rparr>]"
  have sorted: "sorted (times ?h)"
    using inv new sorted_times_le_last [of "sw_history t"]
    by (fastforce simp: swipe_inv_def sorted_append)
  have fits: "\<forall>e \<in> set ?h. sv_timestamp e + HISTORY_LIMIT \<le> DURATION_MAX"
    using inv ts by (auto simp: swipe_inv_def)
  let ?f = "filter (\<lambda>e. ts \<le> sv_timestamp e + HISTORY_LIMIT) ?h"
  have "sorted (times ?f)" using sorted by (simp only: sorted_wrt_filter sorted_wrt_map)
  with fits trim_events_ok [OF sorted fits, of ts] new show ?thesis
    by (cases "sw_history t = []")
       (auto simp: swipe_push_def swipe_trim_history_def swipe_inv_def)
qed

lemma swipe_push_ok:
  assumes "swipe_inv t" and "ts + HISTORY_LIMIT \<le> DURATION_MAX"
  shows "runs (swipe_push d ts t) (\<lambda>t'. swipe_inv t')"
proof (cases "sw_history t \<noteq> [] \<and> ts < sv_timestamp (last (sw_history t))")
  case True
  with assms show ?thesis by (simp add: swipe_push_def)
next
  case False
  then show ?thesis by (intro runs_mono [OF swipe_push_accepts [OF assms]]) auto
qed

lemma swipe_velocity_ok: "swipe_inv t \<Longrightarrow> runs (swipe_velocity t) (\<lambda>_. True)"
  using sorted_times_hd [of "sw_history t"]
  by (auto simp: swipe_velocity_def swipe_inv_def duration_sub_def Let_def)

lemma swipe_projected_ok: "swipe_inv t \<Longrightarrow> runs (swipe_projected_end_pos t) (\<lambda>_. True)"
  using swipe_velocity_ok [of t] by (auto simp: swipe_projected_end_pos_def elim!: runs_mono)

text \<open>A whole gesture: the readings are pushed one after the other.\<close>

definition swipe_run :: "(real \<times> nanos) list \<Rightarrow> SwipeTracker option" where
  "swipe_run evs = for_each (\<lambda>(d, ts). swipe_push d ts) evs swipe_new"

lemma swipe_run_state:
  assumes "sorted (map snd evs)" and "\<forall>(d, ts) \<in> set evs. ts + HISTORY_LIMIT \<le> DURATION_MAX"
  shows "runs (swipe_run evs) (\<lambda>t. swipe_inv t \<and> sw_pos t = sum_list (map fst evs) \<and>
     sw_history t = map (\<lambda>(d, ts). \<lparr>sv_delta = d, sv_timestamp = ts\<rparr>)
       (filter (\<lambda>(d, ts). snd (last evs) \<le> ts + HISTORY_LIMIT) evs))" (is "runs _ (?I evs)")
  unfolding swipe_run_def
proof (rule runs_for_each)
  show "?I [] swipe_new" by (simp add: swipe_new_inv) (simp add: swipe_new_def)
  fix ys x zs t assume evs: "evs = ys @ x # zs" and I: "?I ys t"
  obtain d ts where x: "x = (d, ts)" by (cases x)
  have le: "ts' \<le> ts" if "(d', ts') \<in> set ys" for d' ts'
    using assms(1) that by (force simp: evs x sorted_append)
  have fit: "ts + HISTORY_LIMIT \<le> DURATION_MAX" using assms(2) by (simp add: evs x)
  have hist: "sw_history t \<noteq> [] \<Longrightarrow> sv_timestamp (last (sw_history t)) \<le> ts"
    using I le by (auto simp: last_map dest!: last_in_set)
  have keep: "filter (\<lambda>(d, u). snd (last ys) \<le> u + HISTORY_LIMIT \<and> ts \<le> u + HISTORY_LIMIT) ys =
      filter (\<lambda>(d, u). ts \<le> u + HISTORY_LIMIT) ys"
    using le [of "fst (last ys)" "snd (last ys)"] by (cases "ys = []") (auto intro!: filter_cong)
  show "runs ((\<lambda>(d, ts). swipe_push d ts) x t) (?I (ys @ [x]))"
    using I keep
    by (auto simp: x filter_map o_def case_prod_unfold split_def conj_commute
        intro!: runs_mono [OF swipe_push_accepts [OF _ fit hist]])
qed

text \<open>C31. A gesture whose readings arrive in order never panics: the position is the sum of all the
  deltas, and the history consists of exactly the readings of the last 150 ms, in order.\<close>

theorem swipe_run_exact:
  assumes "sorted (map snd evs)" and "\<forall>(d, ts) \<in> set evs. ts + HISTORY_LIMIT \<le> DURATION_MAX"
  shows "\<exists>t. swipe_run evs = Some t \<and> sw_pos t = sum_list (map fst evs) \<and>
     sw_history t = map (\<lambda>(d, ts). \<lparr>sv_delta = d, sv_timestamp = ts\<rparr>)
       (filter (\<lambda>(d, ts). snd (last evs) \<le> ts + HISTORY_LIMIT) evs)"
  using swipe_run_state [OF assms] by (auto simp: runs_iff)

theorem swipe_run_exact_witness:
  "\<exists>t. swipe_run [(1, 0), (2, 100), (3, 200000000)] = Some t \<and> sw_pos t = 6 \<and>
     sw_history t = [\<lparr>sv_delta = 3, sv_timestamp = 200000000\<rparr>]"
  using swipe_run_exact [of "[(1, 0), (2, 100), (3, 200000000)]"]
  by (simp add: HISTORY_LIMIT_def from_millis_def DURATION_MAX_def)

lemma ln_deceleration: "ln DECELERATION_TOUCHPAD < 0"
  by (simp add: DECELERATION_TOUCHPAD_def)

text \<open>The projected end lies in the direction of the velocity.\<close>

lemma projected_end_ahead:
  assumes "swipe_velocity t = Some v" and "swipe_projected_end_pos t = Some p"
  shows "sgn (p - sw_pos t) = sgn v"
  using assms ln_deceleration
  by (auto simp: swipe_projected_end_pos_def sgn_divide sgn_mult)

end
