(* ===== verification/Layout_Scrolling.thy ===== *)
theory Layout_Scrolling
  imports Layout_Column Input_Swipe
begin

text \<open>
  The scrolling layout of a workspace (\<^verbatim>\<open>ScrollingSpace\<close> in \<^verbatim>\<open>src/layout/scrolling.rs\<close>): a strip of columns
  with a cached width each, the active column, the view offset relative to it and the interactive
  resize. The windows in a closing animation are only drawn and are left out, as is rendering.
\<close>

section \<open>Data\<close>

record ColumnData =
  cd_width :: real

record ViewGesture =
  vg_current_view_offset :: real
  vg_animation :: "Animation option"
  vg_tracker :: SwipeTracker
  vg_delta_from_tracker :: real
  vg_stationary_view_offset :: real
  vg_is_touchpad :: bool
  vg_dnd_last_event_time :: "nanos option"
  vg_dnd_nonzero_start_time :: "nanos option"

datatype ViewOffset = VStatic real | VAnimation Animation | VGesture ViewGesture

record 'id InteractiveResize =
  ir_window :: 'id
  ir_original_window_size :: Size
  ir_data :: InteractiveResizeData

record ('w, 'id) Space =
  sp_columns :: "'w Column list"
  sp_data :: "ColumnData list"
  sp_active_column_idx :: nat
  sp_interactive_resize :: "'id InteractiveResize option"
  sp_view_offset :: ViewOffset
  sp_activate_prev_column_on_removal :: "real option"
  sp_view_offset_to_restore :: "real option"
  sp_view_size :: Size
  sp_working_area :: Rect
  sp_parent_area :: Rect
  sp_scale :: real
  sp_options :: Options

record 'w RemovedTile =
  rm_tile :: "'w Tile"
  rm_width :: ColumnWidth
  rm_is_full_width :: bool
  rm_is_floating :: bool

datatype InsertPosition = NewColumn nat | InColumn nat nat | Floating

datatype ScrollDirection = ScrollLeft | ScrollRight

definition VIEW_GESTURE_WORKING_AREA_MOVEMENT :: real where
  "VIEW_GESTURE_WORKING_AREA_MOVEMENT = 1200"

abbreviation view_movement_config :: "('w, 'id) Space \<Rightarrow> AnimConfig" where
  "view_movement_config s \<equiv> acs_horizontal_view_movement (op_animations (sp_options s))"

abbreviation space_movement_config :: "('w, 'id) Space \<Rightarrow> AnimConfig" where
  "space_movement_config s \<equiv> acs_window_movement (op_animations (sp_options s))"

abbreviation space_gaps :: "('w, 'id) Space \<Rightarrow> real" where
  "space_gaps s \<equiv> opt_gaps (sp_options s)"

section \<open>Areas\<close>

definition compute_working_area :: "('w, 'id) LayoutEnv \<Rightarrow> Rect \<Rightarrow> real \<Rightarrow> Struts \<Rightarrow> Rect" where
  "compute_working_area E parent_area scale struts =
     (let w = max 0 (sw (r_size parent_area) - st_left struts - st_right struts);
          x = px (r_loc parent_area) + st_left struts;
          h = max 0 (sh (r_size parent_area) - st_top struts - st_bottom struts);
          y = py (r_loc parent_area) + st_top struts;
          loc = \<lparr>px = le_ceil E scale x, py = le_ceil E scale y\<rparr>;
          dw = min w (px loc - x);
          dh = min h (py loc - y)
      in \<lparr>r_loc = loc, r_size = \<lparr>sw = w - dw, sh = h - dh\<rparr>\<rparr>)"

definition compute_toplevel_bounds ::
    "('w, 'id) LayoutEnv \<Rightarrow> Border \<Rightarrow> Size \<Rightarrow> Size \<Rightarrow> real \<Rightarrow> ISize" where
  "compute_toplevel_bounds E b working_area_size extra_size gaps =
     (let border = (if b_off b then 0 else b_width b * 2)
      in size_to_i32_floor E
           \<lparr>sw = max (sw working_area_size - gaps * 2 - sw extra_size - border) 1,
            sh = max (sh working_area_size - gaps * 2 - sh extra_size - border) 1\<rparr>)"

section \<open>View offsets\<close>

fun vo_current :: "('w, 'id) LayoutEnv \<Rightarrow> ViewOffset \<Rightarrow> real" where
  "vo_current E (VStatic offset) = offset"
| "vo_current E (VAnimation anim) = anim_value (le_anim E) anim"
| "vo_current E (VGesture g) =
     vg_current_view_offset g +
     (case vg_animation g of None \<Rightarrow> 0 | Some anim \<Rightarrow> anim_value (le_anim E) anim)"

fun vo_target :: "ViewOffset \<Rightarrow> real" where
  "vo_target (VStatic offset) = offset"
| "vo_target (VAnimation anim) = an_to anim"
| "vo_target (VGesture g) = vg_current_view_offset g"

fun vo_stationary :: "ViewOffset \<Rightarrow> real" where
  "vo_stationary (VStatic offset) = offset"
| "vo_stationary (VAnimation anim) = an_to anim"
| "vo_stationary (VGesture g) = vg_stationary_view_offset g"

fun vo_is_static :: "ViewOffset \<Rightarrow> bool" where
  "vo_is_static (VStatic offset) = True"
| "vo_is_static _ = False"

fun vo_is_gesture :: "ViewOffset \<Rightarrow> bool" where
  "vo_is_gesture (VGesture g) = True"
| "vo_is_gesture _ = False"

fun vo_is_dnd_scroll :: "ViewOffset \<Rightarrow> bool" where
  "vo_is_dnd_scroll (VGesture g) = (vg_dnd_last_event_time g \<noteq> None)"
| "vo_is_dnd_scroll _ = False"

fun vo_is_animation_ongoing :: "ViewOffset \<Rightarrow> bool" where
  "vo_is_animation_ongoing (VStatic offset) = False"
| "vo_is_animation_ongoing (VAnimation anim) = True"
| "vo_is_animation_ongoing (VGesture g) = (vg_animation g \<noteq> None)"

fun vo_offset :: "real \<Rightarrow> ViewOffset \<Rightarrow> ViewOffset" where
  "vo_offset delta (VStatic offset) = VStatic (offset + delta)"
| "vo_offset delta (VAnimation anim) = VAnimation (anim_offset delta anim)"
| "vo_offset delta (VGesture g) =
     VGesture (g\<lparr>vg_stationary_view_offset := vg_stationary_view_offset g + delta,
                vg_delta_from_tracker := vg_delta_from_tracker g + delta,
                vg_current_view_offset := vg_current_view_offset g + delta\<rparr>)"

fun vo_cancel_gesture :: "ViewOffset \<Rightarrow> ViewOffset" where
  "vo_cancel_gesture (VGesture g) = VStatic (vg_current_view_offset g)"
| "vo_cancel_gesture vo = vo"

definition vo_stop_anim_and_gesture :: "('w, 'id) LayoutEnv \<Rightarrow> ViewOffset \<Rightarrow> ViewOffset" where
  "vo_stop_anim_and_gesture E vo = VStatic (vo_current E vo)"

definition gesture_animate_from ::
    "('w, 'id) LayoutEnv \<Rightarrow> real \<Rightarrow> AnimConfig \<Rightarrow> ViewGesture \<Rightarrow> ViewGesture option" where
  "gesture_animate_from E from config g =
     do { let current = (case vg_animation g of None \<Rightarrow> 0 | Some a \<Rightarrow> anim_value (le_anim E) a);
          a \<leftarrow> anim_new (le_anim E) (from + current) 0 0 config;
          Some (g\<lparr>vg_animation := Some a\<rparr>) }"

definition column_data_update :: "'w Column \<Rightarrow> ColumnData \<Rightarrow> ColumnData option" where
  "column_data_update c d = do { w \<leftarrow> column_px_width c; Some (d\<lparr>cd_width := w\<rparr>) }"

definition column_data_new :: "'w Column \<Rightarrow> ColumnData option" where
  "column_data_new c = column_data_update c \<lparr>cd_width = 0\<rparr>"

section \<open>The position of the columns and of the view\<close>

fun xs_from :: "real \<Rightarrow> real \<Rightarrow> ColumnData list \<Rightarrow> real list" where
  "xs_from gaps x [] = []"
| "xs_from gaps x (d # ds) = x # xs_from gaps (x + (cd_width d + gaps)) ds"

text \<open>The left edge of every column, and one past the last column.\<close>

definition column_xs :: "('w, 'id) Space \<Rightarrow> real list" where
  "column_xs s = xs_from (space_gaps s) 0 (sp_data s @ [\<lparr>cd_width = 0\<rparr>])"

definition column_x :: "nat \<Rightarrow> ('w, 'id) Space \<Rightarrow> real option" where
  "column_x column_idx s = vec_get (column_xs s) column_idx"

definition view_pos :: "('w, 'id) LayoutEnv \<Rightarrow> ('w, 'id) Space \<Rightarrow> real option" where
  "view_pos E s =
     do { x \<leftarrow> column_x (sp_active_column_idx s) s; Some (x + vo_current E (sp_view_offset s)) }"

definition target_view_pos :: "('w, 'id) Space \<Rightarrow> real option" where
  "target_view_pos s =
     do { x \<leftarrow> column_x (sp_active_column_idx s) s; Some (x + vo_target (sp_view_offset s)) }"

definition is_centering_focused_column :: "('w, 'id) Space \<Rightarrow> bool" where
  "is_centering_focused_column s \<longleftrightarrow>
     lc_center_focused_column (op_layout (sp_options s)) = CenterAlways \<or>
     (lc_always_center_single_column (op_layout (sp_options s)) \<and> length (sp_columns s) \<le> 1)"

text \<open>\<^verbatim>\<open>f64::clamp\<close> panics when the lower bound exceeds the upper one.\<close>

definition clamp_checked :: "real \<Rightarrow> real \<Rightarrow> real \<Rightarrow> real option" where
  "clamp_checked lo hi x = (if lo \<le> hi then Some (clampf lo hi x) else None)"

definition compute_new_view_offset ::
    "real \<Rightarrow> real \<Rightarrow> real \<Rightarrow> real \<Rightarrow> real \<Rightarrow> real option" where
  "compute_new_view_offset cur_x view_width new_col_x new_col_width gaps =
     (if view_width \<le> new_col_width then Some 0
      else do {
        padding \<leftarrow> clamp_checked 0 gaps ((view_width - new_col_width) / 2);
        let new_x = new_col_x - padding;
        let new_right_x = new_col_x + new_col_width + padding;
        if cur_x \<le> new_x \<and> new_right_x \<le> cur_x + view_width
        then Some (- (new_col_x - cur_x))
        else
          let dist_to_left = \<bar>cur_x - new_x\<bar>;
              dist_to_right = \<bar>(cur_x + view_width) - new_right_x\<bar>
          in if dist_to_left \<le> dist_to_right then Some (- padding)
             else Some (- (view_width - padding - new_col_width)) })"

definition compute_new_view_offset_fit ::
    "real option \<Rightarrow> real \<Rightarrow> real \<Rightarrow> SizingMode \<Rightarrow> ('w, 'id) Space \<Rightarrow> real option" where
  "compute_new_view_offset_fit target_x col_x width mode s =
     (if is_fullscreen mode then Some 0
      else do {
        let (area, padding) = (if is_maximized mode then (sp_parent_area s, 0)
                               else (sp_working_area s, space_gaps s));
        target_x \<leftarrow> (case target_x of Some x \<Rightarrow> Some x | None \<Rightarrow> target_view_pos s);
        new_offset \<leftarrow> compute_new_view_offset (target_x + px (r_loc area)) (sw (r_size area)) col_x
                       width padding;
        Some (new_offset - px (r_loc area)) })"

definition compute_new_view_offset_centered ::
    "real option \<Rightarrow> real \<Rightarrow> real \<Rightarrow> SizingMode \<Rightarrow> ('w, 'id) Space \<Rightarrow> real option" where
  "compute_new_view_offset_centered target_x col_x width mode s =
     (if is_fullscreen mode then compute_new_view_offset_fit target_x col_x width mode s
      else
        let area = (if is_maximized mode then sp_parent_area s else sp_working_area s)
        in if sw (r_size area) \<le> width
           then compute_new_view_offset_fit target_x col_x width mode s
           else Some (- (sw (r_size area) - width) / 2 - px (r_loc area)))"

definition for_column_fit :: "real option \<Rightarrow> nat \<Rightarrow> ('w, 'id) Space \<Rightarrow> real option" where
  "for_column_fit target_x idx s =
     do { col \<leftarrow> vec_get (sp_columns s) idx;
          x \<leftarrow> column_x idx s;
          w \<leftarrow> column_px_width col;
          compute_new_view_offset_fit target_x x w (column_sizing_mode col) s }"

definition for_column_centered :: "real option \<Rightarrow> nat \<Rightarrow> ('w, 'id) Space \<Rightarrow> real option" where
  "for_column_centered target_x idx s =
     do { col \<leftarrow> vec_get (sp_columns s) idx;
          x \<leftarrow> column_x idx s;
          w \<leftarrow> column_px_width col;
          compute_new_view_offset_centered target_x x w (column_sizing_mode col) s }"

text \<open>The column is centered when it does not fit in view together with its neighbour.\<close>

definition for_column_on_overflow :: "real option \<Rightarrow> nat \<Rightarrow> nat \<Rightarrow> ('w, 'id) Space \<Rightarrow> real option" where
  "for_column_on_overflow target_x idx prev_idx s =
     (if prev_idx = idx then for_column_fit target_x idx s
      else do {
        let source_idx = (if prev_idx > idx then min (idx + 1) (length (sp_columns s) - 1) else idx - 1);
        source_col_x \<leftarrow> column_x source_idx s;
        source_col \<leftarrow> vec_get (sp_columns s) source_idx;
        source_col_width \<leftarrow> column_px_width source_col;
        target_col_x \<leftarrow> column_x idx s;
        target_col \<leftarrow> vec_get (sp_columns s) idx;
        target_col_width \<leftarrow> column_px_width target_col;
        let total_width =
          (if source_col_x < target_col_x then target_col_x - source_col_x + target_col_width
           else source_col_x - target_col_x + source_col_width) + space_gaps s * 2;
        if total_width \<le> sw (r_size (sp_working_area s))
        then for_column_fit target_x idx s
        else for_column_centered target_x idx s })"

definition compute_new_view_offset_for_column ::
    "real option \<Rightarrow> nat \<Rightarrow> nat option \<Rightarrow> ('w, 'id) Space \<Rightarrow> real option" where
  "compute_new_view_offset_for_column target_x idx prev_idx s =
     (if is_centering_focused_column s then for_column_centered target_x idx s
      else case lc_center_focused_column (op_layout (sp_options s)) of
        CenterAlways \<Rightarrow> for_column_centered target_x idx s
      | CenterOnOverflow \<Rightarrow>
          (case prev_idx of
             None \<Rightarrow> for_column_fit target_x idx s
           | Some prev_idx \<Rightarrow> for_column_on_overflow target_x idx prev_idx s)
      | CenterNever \<Rightarrow> for_column_fit target_x idx s)"

section \<open>Moving the view\<close>

definition vo_animate_to ::
    "('w, 'id) LayoutEnv \<Rightarrow> real \<Rightarrow> real \<Rightarrow> AnimConfig \<Rightarrow> ViewOffset \<Rightarrow> ViewOffset option" where
  "vo_animate_to E pixel new_view_offset config vo =
     (let to_diff = new_view_offset - vo_target vo;
          animate = map_option VAnimation
                      (anim_new (le_anim E) (vo_current E vo) new_view_offset 0 config)
      in if \<bar>to_diff\<bar> < pixel then Some (vo_offset to_diff vo)
         else case vo of
           VGesture g \<Rightarrow>
             if vg_dnd_last_event_time g \<noteq> None
             then do {
               let current_pos = vg_current_view_offset g - vg_delta_from_tracker g;
               let offset_delta = new_view_offset - vg_current_view_offset g;
               g \<leftarrow> gesture_animate_from E (- offset_delta) config
                      (g\<lparr>vg_stationary_view_offset := new_view_offset,
                         vg_delta_from_tracker := new_view_offset - current_pos,
                         vg_current_view_offset := new_view_offset\<rparr>);
               Some (VGesture g) }
             else animate
         | _ \<Rightarrow> animate)"

definition animate_view_offset_with_config ::
    "('w, 'id) LayoutEnv \<Rightarrow> nat \<Rightarrow> real \<Rightarrow> AnimConfig \<Rightarrow> ('w, 'id) Space \<Rightarrow> ('w, 'id) Space option" where
  "animate_view_offset_with_config E idx new_view_offset config s =
     do { new_col_x \<leftarrow> column_x idx s;
          old_col_x \<leftarrow> column_x (sp_active_column_idx s) s;
          vo \<leftarrow> vo_animate_to E (1 / sp_scale s) new_view_offset config
                  (vo_offset (old_col_x - new_col_x) (sp_view_offset s));
          Some (s\<lparr>sp_view_offset := vo\<rparr>) }"

definition animate_view_offset ::
    "('w, 'id) LayoutEnv \<Rightarrow> nat \<Rightarrow> real \<Rightarrow> ('w, 'id) Space \<Rightarrow> ('w, 'id) Space option" where
  "animate_view_offset E idx new_view_offset s =
     animate_view_offset_with_config E idx new_view_offset (view_movement_config s) s"

definition animate_view_offset_to_column_centered ::
    "('w, 'id) LayoutEnv \<Rightarrow> real option \<Rightarrow> nat \<Rightarrow> AnimConfig \<Rightarrow> ('w, 'id) Space \<Rightarrow> ('w, 'id) Space option" where
  "animate_view_offset_to_column_centered E target_x idx config s =
     do { o' \<leftarrow> for_column_centered target_x idx s;
          animate_view_offset_with_config E idx o' config s }"

definition animate_view_offset_to_column_with_config ::
    "('w, 'id) LayoutEnv \<Rightarrow> real option \<Rightarrow> nat \<Rightarrow> nat option \<Rightarrow> AnimConfig \<Rightarrow> ('w, 'id) Space \<Rightarrow>
     ('w, 'id) Space option" where
  "animate_view_offset_to_column_with_config E target_x idx prev_idx config s =
     do { o' \<leftarrow> compute_new_view_offset_for_column target_x idx prev_idx s;
          animate_view_offset_with_config E idx o' config s }"

definition animate_view_offset_to_column ::
    "('w, 'id) LayoutEnv \<Rightarrow> real option \<Rightarrow> nat \<Rightarrow> nat option \<Rightarrow> ('w, 'id) Space \<Rightarrow> ('w, 'id) Space option" where
  "animate_view_offset_to_column E target_x idx prev_idx s =
     animate_view_offset_to_column_with_config E target_x idx prev_idx (view_movement_config s) s"

definition activate_column_with_anim_config ::
    "('w, 'id) LayoutEnv \<Rightarrow> nat \<Rightarrow> AnimConfig \<Rightarrow> ('w, 'id) Space \<Rightarrow> ('w, 'id) Space option" where
  "activate_column_with_anim_config E idx config s =
     (if sp_active_column_idx s = idx \<and>
         (sp_columns s = [] \<or> \<not> vo_is_dnd_scroll (sp_view_offset s))
      then Some s
      else do {
        s \<leftarrow> animate_view_offset_to_column_with_config E None idx (Some (sp_active_column_idx s)) config s;
        Some (if sp_active_column_idx s \<noteq> idx
              then s\<lparr>sp_active_column_idx := idx, sp_activate_prev_column_on_removal := None,
                     sp_view_offset_to_restore := None, sp_interactive_resize := None\<rparr>
              else s) })"

definition activate_column ::
    "('w, 'id) LayoutEnv \<Rightarrow> nat \<Rightarrow> ('w, 'id) Space \<Rightarrow> ('w, 'id) Space option" where
  "activate_column E idx s = activate_column_with_anim_config E idx (view_movement_config s) s"

section \<open>Construction, configuration and time\<close>

definition space_new :: "('w, 'id) LayoutEnv \<Rightarrow> Size \<Rightarrow> Rect \<Rightarrow> real \<Rightarrow> Options \<Rightarrow> ('w, 'id) Space" where
  "space_new E view_size parent_area scale opts =
     \<lparr>sp_columns = [], sp_data = [], sp_active_column_idx = 0, sp_interactive_resize = None,
      sp_view_offset = VStatic 0, sp_activate_prev_column_on_removal = None,
      sp_view_offset_to_restore = None, sp_view_size = view_size,
      sp_working_area = compute_working_area E parent_area scale (lc_struts (op_layout opts)),
      sp_parent_area = parent_area, sp_scale = scale, sp_options = opts\<rparr>"

definition space_update_config ::
    "('w, 'id) LayoutEnv \<Rightarrow> Size \<Rightarrow> Rect \<Rightarrow> real \<Rightarrow> Options \<Rightarrow> ('w, 'id) Space \<Rightarrow> ('w, 'id) Space option" where
  "space_update_config E view_size parent_area scale opts s =
     do { let working_area = compute_working_area E parent_area scale (lc_struts (op_layout opts));
          cds \<leftarrow> map_opt (\<lambda>(c, d). do {
                   c \<leftarrow> column_update_config E view_size working_area parent_area scale opts c;
                   d \<leftarrow> column_data_update c d;
                   Some (c, d) }) (zip (sp_columns s) (sp_data s));
          let s = s\<lparr>sp_columns := map fst cds, sp_data := map snd cds, sp_view_size := view_size,
                    sp_working_area := working_area, sp_parent_area := parent_area,
                    sp_scale := scale, sp_options := opts\<rparr>;
          if sp_columns s \<noteq> [] \<and> \<not> vo_is_gesture (sp_view_offset s)
          then animate_view_offset_to_column E None (sp_active_column_idx s) None s
          else Some s }"

definition gesture_advance :: "('w, 'id) LayoutEnv \<Rightarrow> ViewGesture \<Rightarrow> ViewGesture" where
  "gesture_advance E g =
     (let now = av_now_unadjusted (le_anim E);
          g = (if vg_dnd_last_event_time g \<noteq> None \<and> vg_dnd_last_event_time g \<noteq> Some now
               then g\<lparr>vg_dnd_last_event_time := Some now, vg_dnd_nonzero_start_time := None\<rparr>
               else g)
      in g\<lparr>vg_animation := unless_done (le_anim E) (\<lambda>a. a) (vg_animation g)\<rparr>)"

fun vo_advance :: "('w, 'id) LayoutEnv \<Rightarrow> ViewOffset \<Rightarrow> ViewOffset" where
  "vo_advance E (VAnimation anim) =
     (if anim_is_done (le_anim E) anim then VStatic (an_to anim) else VAnimation anim)"
| "vo_advance E (VGesture g) = VGesture (gesture_advance E g)"
| "vo_advance E vo = vo"

definition space_advance_animations :: "('w, 'id) LayoutEnv \<Rightarrow> ('w, 'id) Space \<Rightarrow> ('w, 'id) Space" where
  "space_advance_animations E s =
     s\<lparr>sp_view_offset := vo_advance E (sp_view_offset s),
       sp_columns := map (column_advance_animations E) (sp_columns s)\<rparr>"

definition space_are_animations_ongoing :: "('w, 'id) LayoutEnv \<Rightarrow> ('w, 'id) Space \<Rightarrow> bool" where
  "space_are_animations_ongoing E s \<longleftrightarrow> vo_is_animation_ongoing (sp_view_offset s) \<or>
     (\<exists>c \<in> set (sp_columns s). column_are_animations_ongoing E c)"

definition space_are_transitions_ongoing :: "('w, 'id) LayoutEnv \<Rightarrow> ('w, 'id) Space \<Rightarrow> bool" where
  "space_are_transitions_ongoing E s \<longleftrightarrow> \<not> vo_is_static (sp_view_offset s) \<or>
     (\<exists>c \<in> set (sp_columns s). column_are_transitions_ongoing E c)"

definition space_tiles :: "('w, 'id) Space \<Rightarrow> 'w Tile list" where
  "space_tiles s = concat (map c_tiles (sp_columns s))"

definition space_active_window :: "('w, 'id) Space \<Rightarrow> 'w option option" where
  "space_active_window s =
     (if sp_columns s = [] then Some None
      else do { col \<leftarrow> vec_get (sp_columns s) (sp_active_column_idx s);
                t \<leftarrow> vec_get (c_tiles col) (c_active_tile_idx col);
                Some (Some (tl_window t)) })"

definition space_is_active_pending_fullscreen :: "('w, 'id) Space \<Rightarrow> bool option" where
  "space_is_active_pending_fullscreen s =
     (if sp_columns s = [] then Some False
      else do { col \<leftarrow> vec_get (sp_columns s) (sp_active_column_idx s);
                Some (is_fullscreen (column_pending_sizing_mode col)) })"

section \<open>Adding\<close>

text \<open>One column changes; its cached width follows where the code says so.\<close>

definition with_column ::
    "nat \<Rightarrow> ('w Column \<Rightarrow> 'w Column option) \<Rightarrow> ('w, 'id) Space \<Rightarrow> ('w, 'id) Space option" where
  "with_column i f s = do { cs \<leftarrow> vec_modify i f (sp_columns s); Some (s\<lparr>sp_columns := cs\<rparr>) }"

definition update_data :: "nat \<Rightarrow> ('w, 'id) Space \<Rightarrow> ('w, 'id) Space option" where
  "update_data i s =
     do { c \<leftarrow> vec_get (sp_columns s) i;
          ds \<leftarrow> vec_modify i (column_data_update c) (sp_data s);
          Some (s\<lparr>sp_data := ds\<rparr>) }"

definition animate_columns ::
    "('w, 'id) LayoutEnv \<Rightarrow> nat \<Rightarrow> nat \<Rightarrow> real \<Rightarrow> AnimConfig \<Rightarrow> ('w, 'id) Space \<Rightarrow> ('w, 'id) Space option" where
  "animate_columns E lo hi offset config s =
     do { cs \<leftarrow> map_slice lo hi (column_animate_move_from_with_config E offset config) (sp_columns s);
          Some (s\<lparr>sp_columns := cs\<rparr>) }"

text \<open>Activating the column just added.\<close>

definition activate_added ::
    "('w, 'id) LayoutEnv \<Rightarrow> nat \<Rightarrow> bool \<Rightarrow> AnimConfig option \<Rightarrow> ('w, 'id) Space \<Rightarrow> ('w, 'id) Space option" where
  "activate_added E idx was_empty anim_config s =
     do { s \<leftarrow> (if was_empty
                then do {
                  let s = s\<lparr>sp_view_offset := VStatic 0\<rparr>;
                  o' \<leftarrow> compute_new_view_offset_for_column None idx None s;
                  Some (s\<lparr>sp_view_offset := VStatic o'\<rparr>) }
                else Some s);
          let prev_offset = (if \<not> was_empty \<and> idx = sp_active_column_idx s + 1
                             then Some (vo_stationary (sp_view_offset s)) else None);
          let anim_config = (case anim_config of Some a \<Rightarrow> a | None \<Rightarrow> view_movement_config s);
          s \<leftarrow> activate_column_with_anim_config E idx anim_config s;
          Some (s\<lparr>sp_activate_prev_column_on_removal := prev_offset\<rparr>) }"

definition add_column ::
    "('w, 'id) LayoutEnv \<Rightarrow> nat option \<Rightarrow> 'w Column \<Rightarrow> bool \<Rightarrow> AnimConfig option \<Rightarrow> ('w, 'id) Space \<Rightarrow>
     ('w, 'id) Space option" where
  "add_column E idx column activate anim_config s =
     do { let was_empty = (sp_columns s = []);
          let idx = (case idx of Some i \<Rightarrow> i
                     | None \<Rightarrow> if was_empty then 0 else sp_active_column_idx s + 1);
          column \<leftarrow> column_update_config E (sp_view_size s) (sp_working_area s) (sp_parent_area s)
                      (sp_scale s) (sp_options s) column;
          d \<leftarrow> column_data_new column;
          ds \<leftarrow> vec_insert idx d (sp_data s);
          cs \<leftarrow> vec_insert idx column (sp_columns s);
          let s = s\<lparr>sp_data := ds, sp_columns := cs,
                    sp_active_column_idx :=
                      (if \<not> was_empty \<and> idx \<le> sp_active_column_idx s then sp_active_column_idx s + 1
                       else sp_active_column_idx s)\<rparr>;
          next_x \<leftarrow> column_x (idx + 1) s;
          this_x \<leftarrow> column_x idx s;
          let offset = next_x - this_x;
          let config = (case anim_config of Some a \<Rightarrow> a | None \<Rightarrow> space_movement_config s);
          s \<leftarrow> (if sp_active_column_idx s \<le> idx
                then animate_columns E (idx + 1) (length (sp_columns s)) (- offset) config s
                else animate_columns E 0 idx offset config s);
          if activate then activate_added E idx was_empty anim_config s else Some s }"

definition add_tile ::
    "('w, 'id) LayoutEnv \<Rightarrow> nat option \<Rightarrow> 'w Tile \<Rightarrow> bool \<Rightarrow> ColumnWidth \<Rightarrow> bool \<Rightarrow> AnimConfig option \<Rightarrow>
     ('w, 'id) Space \<Rightarrow> ('w, 'id) Space option" where
  "add_tile E col_idx tile activate width is_full_width anim_config s =
     do { column \<leftarrow> column_new_with_tile E tile (sp_view_size s) (sp_working_area s) (sp_parent_area s)
                      (sp_scale s) width is_full_width;
          add_column E col_idx column activate anim_config s }"

definition fade_out_tile ::
    "('w, 'id) LayoutEnv \<Rightarrow> AnimConfig \<Rightarrow> nat \<Rightarrow> 'w Column \<Rightarrow> 'w Column option" where
  "fade_out_tile E config i c =
     do { ts \<leftarrow> vec_modify i (animate_alpha E 1 0 config) (c_tiles c); Some (c\<lparr>c_tiles := ts\<rparr>) }"

definition add_tile_to_column ::
    "('w, 'id) LayoutEnv \<Rightarrow> nat \<Rightarrow> nat option \<Rightarrow> 'w Tile \<Rightarrow> bool \<Rightarrow> ('w, 'id) Space \<Rightarrow>
     ('w, 'id) Space option" where
  "add_tile_to_column E col_idx tile_idx tile activate s =
     do { prev_next_x \<leftarrow> column_x (col_idx + 1) s;
          target \<leftarrow> vec_get (sp_columns s) col_idx;
          let tile_idx = (case tile_idx of Some i \<Rightarrow> i | None \<Rightarrow> length (c_tiles target));
          let prev_active_tile_idx = c_active_tile_idx target;
          s \<leftarrow> with_column col_idx (column_add_tile_at E tile_idx tile) s;
          s \<leftarrow> update_data col_idx s;
          let bump = (tile_idx \<le> prev_active_tile_idx);
          s \<leftarrow> with_column col_idx
                 (\<lambda>c. Some (if bump then c\<lparr>c_active_tile_idx := c_active_tile_idx c + 1\<rparr> else c)) s;
          let prev_active_tile_idx = (if bump then prev_active_tile_idx + 1 else prev_active_tile_idx);
          s \<leftarrow> (if activate
                then do {
                  s \<leftarrow> with_column col_idx (\<lambda>c. map_option snd (column_activate_idx tile_idx c)) s;
                  if sp_active_column_idx s \<noteq> col_idx then activate_column E col_idx s else Some s }
                else Some s);
          s \<leftarrow> with_column col_idx
                 (\<lambda>c. if is_tabbed c
                      then if c_active_tile_idx c = tile_idx
                           then fade_out_tile E (space_movement_config s) prev_active_tile_idx c
                           else fade_out_tile E (space_movement_config s) tile_idx c
                      else Some c) s;
          next_x \<leftarrow> column_x (col_idx + 1) s;
          let offset = next_x - prev_next_x;
          if sp_active_column_idx s \<le> col_idx
          then do { cs \<leftarrow> map_slice (col_idx + 1) (length (sp_columns s))
                          (column_animate_move_from E (- offset)) (sp_columns s);
                    Some (s\<lparr>sp_columns := cs\<rparr>) }
          else do { cs \<leftarrow> map_slice 0 (col_idx + 1) (column_animate_move_from E offset) (sp_columns s);
                    Some (s\<lparr>sp_columns := cs\<rparr>) } }"

definition space_column_of :: "('w, 'id) LayoutEnv \<Rightarrow> 'id \<Rightarrow> ('w, 'id) Space \<Rightarrow> nat option" where
  "space_column_of E i s = vec_position (column_contains E i) (sp_columns s)"

definition add_tile_right_of ::
    "('w, 'id) LayoutEnv \<Rightarrow> 'id \<Rightarrow> 'w Tile \<Rightarrow> bool \<Rightarrow> ColumnWidth \<Rightarrow> bool \<Rightarrow> ('w, 'id) Space \<Rightarrow>
     ('w, 'id) Space option" where
  "add_tile_right_of E right_of tile activate width is_full_width s =
     do { right_of_idx \<leftarrow> space_column_of E right_of s;
          add_tile E (Some (right_of_idx + 1)) tile activate width is_full_width None s }"

section \<open>Removing\<close>

text \<open>What referred to a removed column is forgotten.\<close>

definition forget_column ::
    "('w, 'id) LayoutEnv \<Rightarrow> nat \<Rightarrow> 'w Column \<Rightarrow> ('w, 'id) Space \<Rightarrow> ('w, 'id) Space" where
  "forget_column E column_idx column s =
     (let s = (case sp_interactive_resize s of
                 None \<Rightarrow> s
               | Some resize \<Rightarrow> if column_contains E (ir_window resize) column
                               then s\<lparr>sp_interactive_resize := None\<rparr> else s);
          s = (if column_idx + 1 = sp_active_column_idx s
               then s\<lparr>sp_activate_prev_column_on_removal := None\<rparr> else s)
      in if column_idx = sp_active_column_idx s then s\<lparr>sp_view_offset_to_restore := None\<rparr> else s)"

text \<open>The column to activate after a removal.\<close>

definition activate_neighbour ::
    "('w, 'id) LayoutEnv \<Rightarrow> nat \<Rightarrow> AnimConfig \<Rightarrow> ('w, 'id) Space \<Rightarrow> ('w, 'id) Space option" where
  "activate_neighbour E column_idx view_config s =
     (if column_idx < sp_active_column_idx s
      then Some (s\<lparr>sp_active_column_idx := sp_active_column_idx s - 1,
                   sp_activate_prev_column_on_removal := None\<rparr>)
      else if column_idx = sp_active_column_idx s \<and> sp_activate_prev_column_on_removal s \<noteq> None
      then (if 0 < column_idx
            then do {
              prev_offset \<leftarrow> sp_activate_prev_column_on_removal s;
              s \<leftarrow> activate_column_with_anim_config E (sp_active_column_idx s - 1) view_config s;
              s \<leftarrow> animate_view_offset_with_config E (sp_active_column_idx s) prev_offset view_config s;
              animate_view_offset_to_column_with_config E None (sp_active_column_idx s) None view_config s }
            else Some s)
      else activate_column_with_anim_config E
             (min (sp_active_column_idx s) (length (sp_columns s) - 1)) view_config s)"

definition remove_column_by_idx ::
    "('w, 'id) LayoutEnv \<Rightarrow> nat \<Rightarrow> AnimConfig option \<Rightarrow> ('w, 'id) Space \<Rightarrow>
     ('w Column \<times> ('w, 'id) Space) option" where
  "remove_column_by_idx E column_idx anim_config s =
     do { let movement_config = (case anim_config of Some a \<Rightarrow> a | None \<Rightarrow> space_movement_config s);
          next_x \<leftarrow> column_x (column_idx + 1) s;
          this_x \<leftarrow> column_x column_idx s;
          let offset = next_x - this_x;
          s \<leftarrow> (if sp_active_column_idx s \<le> column_idx
                then animate_columns E (column_idx + 1) (length (sp_columns s)) offset movement_config s
                else animate_columns E 0 column_idx (- offset) movement_config s);
          (column, cs) \<leftarrow> vec_remove column_idx (sp_columns s);
          (_, ds) \<leftarrow> vec_remove column_idx (sp_data s);
          let s = s\<lparr>sp_columns := cs, sp_data := ds\<rparr>;
          let s = forget_column E column_idx column s;
          if sp_columns s = [] then Some (column, s)
          else do {
            let view_config = (case anim_config of Some a \<Rightarrow> a | None \<Rightarrow> view_movement_config s);
            s \<leftarrow> activate_neighbour E column_idx view_config s;
            Some (column, s) } }"

text \<open>The part of \<^verbatim>\<open>remove_tile_by_idx\<close> that works on the column.\<close>

definition reset_single_weight :: "TileData list \<Rightarrow> TileData list" where
  "reset_single_weight ds =
     (case ds of
        [d] \<Rightarrow> (case td_height d of HAuto weight \<Rightarrow> [d\<lparr>td_height := HAuto 1\<rparr>] | _ \<Rightarrow> [d])
      | _ \<Rightarrow> ds)"

definition activate_after_removal :: "nat \<Rightarrow> 'w Column \<Rightarrow> 'w Column option" where
  "activate_after_removal tile_idx c =
     (if tile_idx < c_active_tile_idx c then Some (c\<lparr>c_active_tile_idx := c_active_tile_idx c - 1\<rparr>)
      else if tile_idx = c_active_tile_idx c
      then if tile_idx = length (c_tiles c) then map_option snd (column_activate_idx (tile_idx - 1) c)
           else do { ts \<leftarrow> vec_update tile_idx ensure_alpha_animates_to_1 (c_tiles c);
                     Some (c\<lparr>c_tiles := ts\<rparr>) }
      else Some c)"

definition remove_from_column ::
    "('w, 'id) LayoutEnv \<Rightarrow> nat \<Rightarrow> AnimConfig \<Rightarrow> 'w Column \<Rightarrow> ('w Tile \<times> 'w Column) option" where
  "remove_from_column E tile_idx movement_config c =
     do { below \<leftarrow> tile_offset (tile_idx + 1) c;
          this \<leftarrow> tile_offset tile_idx c;
          let offset_y = py below - py this;
          ts \<leftarrow> map_slice (tile_idx + 1) (length (c_tiles c)) (animate_move_y_from E offset_y) (c_tiles c);
          ts \<leftarrow> (if is_tabbed c \<and> tile_idx \<noteq> c_active_tile_idx c
                 then vec_modify tile_idx (animate_alpha E 0 1 movement_config) ts else Some ts);
          (tile, ts) \<leftarrow> vec_remove tile_idx ts;
          (_, ds) \<leftarrow> vec_remove tile_idx (c_data c);
          c \<leftarrow> activate_after_removal tile_idx (c\<lparr>c_tiles := ts, c_data := reset_single_weight ds\<rparr>);
          c \<leftarrow> update_tile_sizes E True c;
          Some (tile, c) }"

definition forget_tile ::
    "('w, 'id) LayoutEnv \<Rightarrow> nat \<Rightarrow> bool \<Rightarrow> 'w Tile \<Rightarrow> 'w Column \<Rightarrow> ('w, 'id) Space \<Rightarrow> ('w, 'id) Space" where
  "forget_tile E column_idx was_normal tile column s =
     (let s = (if column_idx = sp_active_column_idx s \<and> \<not> was_normal \<and>
                  is_normal (column_sizing_mode column)
               then s\<lparr>sp_view_offset_to_restore := None\<rparr> else s)
      in case sp_interactive_resize s of
           None \<Rightarrow> s
         | Some resize \<Rightarrow> if el_id E (tl_window tile) = ir_window resize
                         then s\<lparr>sp_interactive_resize := None\<rparr> else s)"

definition remove_tile_by_idx ::
    "('w, 'id) LayoutEnv \<Rightarrow> nat \<Rightarrow> nat \<Rightarrow> AnimConfig option \<Rightarrow> ('w, 'id) Space \<Rightarrow>
     ('w RemovedTile \<times> ('w, 'id) Space) option" where
  "remove_tile_by_idx E column_idx tile_idx anim_config s =
     do { column \<leftarrow> vec_get (sp_columns s) column_idx;
          if length (c_tiles column) = 1
          then do {
            (column, s) \<leftarrow> remove_column_by_idx E column_idx anim_config s;
            (tile, _) \<leftarrow> vec_remove tile_idx (c_tiles column);
            Some (\<lparr>rm_tile = tile, rm_width = c_width column, rm_is_full_width = c_is_full_width column,
                   rm_is_floating = False\<rparr>, s) }
          else do {
            d \<leftarrow> vec_get (sp_data s) column_idx;
            let prev_width = cd_width d;
            let movement_config = (case anim_config of Some a \<Rightarrow> a | None \<Rightarrow> space_movement_config s);
            let was_normal = is_normal (column_sizing_mode column);
            (tile, column) \<leftarrow> remove_from_column E tile_idx movement_config column;
            let s = forget_tile E column_idx was_normal tile column s;
            s \<leftarrow> update_data column_idx (s\<lparr>sp_columns := (sp_columns s)[column_idx := column]\<rparr>);
            width \<leftarrow> column_px_width column;
            let offset = prev_width - width;
            s \<leftarrow> (if sp_active_column_idx s \<le> column_idx
                  then animate_columns E (column_idx + 1) (length (sp_columns s)) offset movement_config s
                  else animate_columns E 0 (column_idx + 1) (- offset) movement_config s);
            Some (\<lparr>rm_tile = tile, rm_width = c_width column, rm_is_full_width = c_is_full_width column,
                   rm_is_floating = False\<rparr>, s) } }"

definition remove_active_tile ::
    "('w, 'id) LayoutEnv \<Rightarrow> ('w, 'id) Space \<Rightarrow> ('w RemovedTile option \<times> ('w, 'id) Space) option" where
  "remove_active_tile E s =
     (if sp_columns s = [] then Some (None, s)
      else do { column \<leftarrow> vec_get (sp_columns s) (sp_active_column_idx s);
                (r, s) \<leftarrow> remove_tile_by_idx E (sp_active_column_idx s) (c_active_tile_idx column) None s;
                Some (Some r, s) })"

definition remove_tile ::
    "('w, 'id) LayoutEnv \<Rightarrow> 'id \<Rightarrow> ('w, 'id) Space \<Rightarrow> ('w RemovedTile \<times> ('w, 'id) Space) option" where
  "remove_tile E window s =
     do { column_idx \<leftarrow> space_column_of E window s;
          column \<leftarrow> vec_get (sp_columns s) column_idx;
          tile_idx \<leftarrow> column_position E window column;
          remove_tile_by_idx E column_idx tile_idx None s }"

definition remove_active_column ::
    "('w, 'id) LayoutEnv \<Rightarrow> ('w, 'id) Space \<Rightarrow> ('w Column option \<times> ('w, 'id) Space) option" where
  "remove_active_column E s =
     (if sp_columns s = [] then Some (None, s)
      else do { (c, s) \<leftarrow> remove_column_by_idx E (sp_active_column_idx s) None s; Some (Some c, s) })"

end
