(* ===== verification/Layout_Scrolling_Actions.thy ===== *)
theory Layout_Scrolling_Actions
  imports Layout_Scrolling
begin

text \<open>
  The actions on the scrolling layout (\<^verbatim>\<open>src/layout/scrolling.rs\<close>): commits of windows, focus, moving
  columns and windows, display modes, widths and heights, and interactive resizing.
\<close>

section \<open>Commits\<close>

abbreviation set_window :: "'w \<Rightarrow> 'w Tile \<Rightarrow> 'w Tile" where
  "set_window w t \<equiv> t\<lparr>tl_window := w\<rparr>"

text \<open>The columns beside a column that changed its width move in tandem.\<close>

definition move_in_tandem ::
    "('w, 'id) LayoutEnv \<Rightarrow> nat \<Rightarrow> bool \<Rightarrow> real \<Rightarrow> ('w, 'id) Space \<Rightarrow> ('w, 'id) Space option" where
  "move_in_tandem E col_idx resizing offset s =
     (if offset = 0 then Some s
      else do {
        let move = (\<lambda>offset c. if resizing
             then column_animate_move_from_with_config E offset
                    (acs_window_resize (op_animations (sp_options s))) c
             else Some (column_offset_move_anim_current E offset c));
        cs \<leftarrow> (if sp_active_column_idx s \<le> col_idx
               then map_slice (col_idx + 1) (length (sp_columns s)) (move offset) (sp_columns s)
               else map_slice 0 (col_idx + 1) (move (- offset)) (sp_columns s));
        Some (s\<lparr>sp_columns := cs\<rparr>) })"

text \<open>The view follows an interactive resize of the active column.\<close>

definition follow_resize ::
    "nat \<Rightarrow> real \<Rightarrow> InteractiveResizeData option \<Rightarrow> ('w, 'id) Space \<Rightarrow> ('w, 'id) Space option" where
  "follow_resize col_idx offset resize s =
     (case (if offset \<noteq> 0 then resize else None) of
        None \<Rightarrow> Some s
      | Some resize \<Rightarrow> do {
          let s = s\<lparr>sp_view_offset := vo_cancel_gesture (sp_view_offset s)\<rparr>;
          d \<leftarrow> vec_get (sp_data s) col_idx;
          let offset =
            (if is_centering_focused_column s
             then - (sw (r_size (sp_working_area s)) - cd_width d) / 2 -
                  px (r_loc (sp_working_area s)) - vo_target (sp_view_offset s)
             else if edge_left (ird_edges resize) then - offset else 0);
          Some (s\<lparr>sp_view_offset := vo_offset offset (sp_view_offset s)\<rparr>) })"

text \<open>What happens to the view when the column of the commit is active.\<close>

definition update_active_view ::
    "('w, 'id) LayoutEnv \<Rightarrow> nat \<Rightarrow> bool \<Rightarrow> bool \<Rightarrow> real \<Rightarrow> InteractiveResizeData option \<Rightarrow>
     ('w, 'id) Space \<Rightarrow> ('w, 'id) Space option" where
  "update_active_view E col_idx was_normal resizing offset resize s =
     do { s \<leftarrow> follow_resize col_idx offset resize s;
          col \<leftarrow> vec_get (sp_columns s) col_idx;
          let is_normal = is_normal (column_sizing_mode col);
          let s = (if was_normal \<and> \<not> is_normal
                   then s\<lparr>sp_view_offset_to_restore := Some (vo_stationary (sp_view_offset s))\<rparr> else s);
          let (unfullscreen_offset, s) =
            (if \<not> was_normal \<and> is_normal
             then (sp_view_offset_to_restore s, s\<lparr>sp_view_offset_to_restore := None\<rparr>)
             else (None, s));
          if sp_interactive_resize s = None \<and> \<not> vo_is_gesture (sp_view_offset s)
          then do {
            let config = (if resizing then acs_window_resize (op_animations (sp_options s))
                          else view_movement_config s);
            s \<leftarrow> (case unfullscreen_offset of
                    None \<Rightarrow> Some s
                  | Some prev_offset \<Rightarrow> animate_view_offset_with_config E col_idx prev_offset config s);
            animate_view_offset_to_column_with_config E None col_idx None config s }
          else Some s }"

definition update_window ::
    "('w, 'id) LayoutEnv \<Rightarrow> 'id \<Rightarrow> nat option \<Rightarrow> ('w, 'id) Space \<Rightarrow> ('w, 'id) Space option" where
  "update_window E window serial s =
     do { col_idx \<leftarrow> space_column_of E window s;
          column \<leftarrow> vec_get (sp_columns s) col_idx;
          let was_normal = is_normal (column_sizing_mode column);
          let prev_origin = tiles_origin column;
          tile_idx \<leftarrow> column_position E window column;
          tile \<leftarrow> vec_get (c_tiles column) tile_idx;
          let resize = el_interactive_resize_data E (tl_window tile);
          let tile = (case serial of None \<Rightarrow> tile
                      | Some n \<Rightarrow> set_window (el_on_commit E n (tl_window tile)) tile);
          let column = column\<lparr>c_tiles := (c_tiles column)[tile_idx := tile]\<rparr>;
          d \<leftarrow> vec_get (sp_data s) col_idx;
          let prev_width = cd_width d;
          column \<leftarrow> column_update_window E window column;
          s \<leftarrow> update_data col_idx (s\<lparr>sp_columns := (sp_columns s)[col_idx := column]\<rparr>);
          s \<leftarrow> with_column col_idx (update_tile_sizes E False) s;
          d \<leftarrow> vec_get (sp_data s) col_idx;
          let offset = prev_width - cd_width d;
          column \<leftarrow> vec_get (sp_columns s) col_idx;
          tile \<leftarrow> vec_get (c_tiles column) tile_idx;
          let resizing = (tl_resize_animation tile \<noteq> None);
          s \<leftarrow> move_in_tandem E col_idx resizing offset s;
          s \<leftarrow> with_column col_idx (\<lambda>column.
                 let origin_delta = point_sub prev_origin (tiles_origin column)
                 in if origin_delta \<noteq> point_zero
                    then do { ts \<leftarrow> map_opt (animate_move_from E origin_delta) (c_tiles column);
                              Some (column\<lparr>c_tiles := ts\<rparr>) }
                    else Some column) s;
          if col_idx = sp_active_column_idx s
          then update_active_view E col_idx was_normal resizing offset resize s
          else Some s }"

definition scroll_amount_to_activate :: "('w, 'id) LayoutEnv \<Rightarrow> 'id \<Rightarrow> ('w, 'id) Space \<Rightarrow> real option" where
  "scroll_amount_to_activate E window s =
     do { column_idx \<leftarrow> space_column_of E window s;
          if sp_active_column_idx s = column_idx then Some 0
          else do {
            target_x \<leftarrow> target_view_pos s;
            new_view_offset \<leftarrow> compute_new_view_offset_for_column (Some target_x) column_idx
                                (Some (sp_active_column_idx s)) s;
            new_col_x \<leftarrow> column_x column_idx s;
            let from_view_offset = target_x - new_col_x;
            Some (\<bar>from_view_offset - new_view_offset\<bar> / sw (r_size (sp_working_area s))) } }"

section \<open>Focus\<close>

definition activate_window ::
    "('w, 'id) LayoutEnv \<Rightarrow> 'id \<Rightarrow> ('w, 'id) Space \<Rightarrow> (bool \<times> ('w, 'id) Space) option" where
  "activate_window E window s =
     (case space_column_of E window s of
        None \<Rightarrow> Some (False, s)
      | Some column_idx \<Rightarrow> do {
          s \<leftarrow> with_column column_idx (column_activate_window E window) s;
          s \<leftarrow> activate_column E column_idx s;
          Some (True, s) })"

fun first_open ::
    "('w, 'id) LayoutEnv \<Rightarrow> 'id \<Rightarrow> 'w Column list \<Rightarrow> (bool \<times> 'w Column list) option" where
  "first_open E i [] = Some (False, [])"
| "first_open E i (c # cs) =
     do { (b, c) \<leftarrow> column_start_open_animation E i c;
          if b then Some (True, c # cs)
          else do { (b, cs) \<leftarrow> first_open E i cs; Some (b, c # cs) } }"

definition space_start_open_animation ::
    "('w, 'id) LayoutEnv \<Rightarrow> 'id \<Rightarrow> ('w, 'id) Space \<Rightarrow> (bool \<times> ('w, 'id) Space) option" where
  "space_start_open_animation E i s =
     do { (b, cs) \<leftarrow> first_open E i (sp_columns s); Some (b, s\<lparr>sp_columns := cs\<rparr>) }"

definition focus_left :: "('w, 'id) LayoutEnv \<Rightarrow> ('w, 'id) Space \<Rightarrow> (bool \<times> ('w, 'id) Space) option" where
  "focus_left E s =
     (if sp_active_column_idx s = 0 then Some (False, s)
      else map_option (Pair True) (activate_column E (sp_active_column_idx s - 1) s))"

definition focus_right :: "('w, 'id) LayoutEnv \<Rightarrow> ('w, 'id) Space \<Rightarrow> (bool \<times> ('w, 'id) Space) option" where
  "focus_right E s =
     (if sp_active_column_idx s + 1 \<ge> length (sp_columns s) then Some (False, s)
      else map_option (Pair True) (activate_column E (sp_active_column_idx s + 1) s))"

definition focus_column_first :: "('w, 'id) LayoutEnv \<Rightarrow> ('w, 'id) Space \<Rightarrow> ('w, 'id) Space option" where
  "focus_column_first E s = activate_column E 0 s"

definition focus_column_last :: "('w, 'id) LayoutEnv \<Rightarrow> ('w, 'id) Space \<Rightarrow> ('w, 'id) Space option" where
  "focus_column_last E s =
     (if sp_columns s = [] then Some s else activate_column E (length (sp_columns s) - 1) s)"

definition focus_column :: "('w, 'id) LayoutEnv \<Rightarrow> nat \<Rightarrow> ('w, 'id) Space \<Rightarrow> ('w, 'id) Space option" where
  "focus_column E index s =
     (if sp_columns s = [] then Some s
      else activate_column E (min (index - 1) (length (sp_columns s) - 1)) s)"

text \<open>An operation on the active column, and one that says whether it did anything.\<close>

definition on_active ::
    "('w Column \<Rightarrow> 'w Column option) \<Rightarrow> ('w, 'id) Space \<Rightarrow> ('w, 'id) Space option" where
  "on_active f s =
     (if sp_columns s = [] then Some s else with_column (sp_active_column_idx s) f s)"

definition on_active_bool ::
    "('w Column \<Rightarrow> (bool \<times> 'w Column) option) \<Rightarrow> ('w, 'id) Space \<Rightarrow> (bool \<times> ('w, 'id) Space) option" where
  "on_active_bool f s =
     (if sp_columns s = [] then Some (False, s)
      else do { c \<leftarrow> vec_get (sp_columns s) (sp_active_column_idx s);
                (b, c) \<leftarrow> f c;
                Some (b, s\<lparr>sp_columns := (sp_columns s)[sp_active_column_idx s := c]\<rparr>) })"

definition focus_window_in_column :: "u8 \<Rightarrow> ('w, 'id) Space \<Rightarrow> ('w, 'id) Space option" where
  "focus_window_in_column index s = on_active (column_focus_index index) s"

definition focus_down :: "('w, 'id) Space \<Rightarrow> (bool \<times> ('w, 'id) Space) option" where
  "focus_down s = on_active_bool column_focus_down s"

definition focus_up :: "('w, 'id) Space \<Rightarrow> (bool \<times> ('w, 'id) Space) option" where
  "focus_up s = on_active_bool column_focus_up s"

definition focus_down_or_left :: "('w, 'id) LayoutEnv \<Rightarrow> ('w, 'id) Space \<Rightarrow> ('w, 'id) Space option" where
  "focus_down_or_left E s =
     (if sp_columns s = [] then Some s
      else do { (b, s) \<leftarrow> focus_down s; if b then Some s else map_option snd (focus_left E s) })"

definition focus_down_or_right :: "('w, 'id) LayoutEnv \<Rightarrow> ('w, 'id) Space \<Rightarrow> ('w, 'id) Space option" where
  "focus_down_or_right E s =
     (if sp_columns s = [] then Some s
      else do { (b, s) \<leftarrow> focus_down s; if b then Some s else map_option snd (focus_right E s) })"

definition focus_up_or_left :: "('w, 'id) LayoutEnv \<Rightarrow> ('w, 'id) Space \<Rightarrow> ('w, 'id) Space option" where
  "focus_up_or_left E s =
     (if sp_columns s = [] then Some s
      else do { (b, s) \<leftarrow> focus_up s; if b then Some s else map_option snd (focus_left E s) })"

definition focus_up_or_right :: "('w, 'id) LayoutEnv \<Rightarrow> ('w, 'id) Space \<Rightarrow> ('w, 'id) Space option" where
  "focus_up_or_right E s =
     (if sp_columns s = [] then Some s
      else do { (b, s) \<leftarrow> focus_up s; if b then Some s else map_option snd (focus_right E s) })"

definition focus_top :: "('w, 'id) Space \<Rightarrow> ('w, 'id) Space option" where
  "focus_top s = on_active column_focus_top s"

definition focus_bottom :: "('w, 'id) Space \<Rightarrow> ('w, 'id) Space option" where
  "focus_bottom s = on_active column_focus_bottom s"

section \<open>Moving columns\<close>

text \<open>The interactive resize ends when its window is in the given column.\<close>

definition cancel_resize_of :: "('w, 'id) LayoutEnv \<Rightarrow> 'w Column \<Rightarrow> ('w, 'id) Space \<Rightarrow> ('w, 'id) Space" where
  "cancel_resize_of E column s =
     (case sp_interactive_resize s of
        None \<Rightarrow> s
      | Some resize \<Rightarrow> if column_contains E (ir_window resize) column
                      then s\<lparr>sp_interactive_resize := None\<rparr> else s)"

definition cancel_resize_at :: "('w, 'id) LayoutEnv \<Rightarrow> nat \<Rightarrow> ('w, 'id) Space \<Rightarrow> ('w, 'id) Space option" where
  "cancel_resize_at E i s =
     do { c \<leftarrow> vec_get (sp_columns s) i;
          Some ((cancel_resize_of E c s)\<lparr>sp_columns := (sp_columns s)[i := column_cancel_resize E c]\<rparr>) }"

definition move_column_to :: "('w, 'id) LayoutEnv \<Rightarrow> nat \<Rightarrow> ('w, 'id) Space \<Rightarrow> ('w, 'id) Space option" where
  "move_column_to E new_idx s =
     (if sp_active_column_idx s = new_idx then Some s
      else do {
        current_col_x \<leftarrow> column_x (sp_active_column_idx s) s;
        next_col_x \<leftarrow> column_x (sp_active_column_idx s + 1) s;
        (column, cs) \<leftarrow> vec_remove (sp_active_column_idx s) (sp_columns s);
        (d, ds) \<leftarrow> vec_remove (sp_active_column_idx s) (sp_data s);
        let s = cancel_resize_of E column s;
        cs \<leftarrow> vec_insert new_idx (column_cancel_resize E column) cs;
        ds \<leftarrow> vec_insert new_idx d ds;
        let s = s\<lparr>sp_columns := cs, sp_data := ds\<rparr>;
        x \<leftarrow> column_x (sp_active_column_idx s) s;
        let view_offset_delta = - x + current_col_x;
        let s = s\<lparr>sp_view_offset := vo_offset view_offset_delta (sp_view_offset s)\<rparr>;
        new_col_x \<leftarrow> column_x new_idx s;
        s \<leftarrow> with_column new_idx (column_animate_move_from E (current_col_x - new_col_x)) s;
        let others_x_offset = next_col_x - current_col_x;
        cs \<leftarrow> (if sp_active_column_idx s < new_idx
               then map_slice (sp_active_column_idx s) new_idx
                      (column_animate_move_from E others_x_offset) (sp_columns s)
               else map_slice (new_idx + 1) (sp_active_column_idx s + 1)
                      (column_animate_move_from E (- others_x_offset)) (sp_columns s));
        activate_column_with_anim_config E new_idx (space_movement_config s) (s\<lparr>sp_columns := cs\<rparr>) })"

definition move_column_to_index :: "('w, 'id) LayoutEnv \<Rightarrow> nat \<Rightarrow> ('w, 'id) Space \<Rightarrow> ('w, 'id) Space option" where
  "move_column_to_index E index s =
     (if sp_columns s = [] then Some s
      else move_column_to E (min (index - 1) (length (sp_columns s) - 1)) s)"

definition move_left :: "('w, 'id) LayoutEnv \<Rightarrow> ('w, 'id) Space \<Rightarrow> (bool \<times> ('w, 'id) Space) option" where
  "move_left E s =
     (if sp_active_column_idx s = 0 then Some (False, s)
      else map_option (Pair True) (move_column_to E (sp_active_column_idx s - 1) s))"

definition move_right :: "('w, 'id) LayoutEnv \<Rightarrow> ('w, 'id) Space \<Rightarrow> (bool \<times> ('w, 'id) Space) option" where
  "move_right E s =
     (if sp_active_column_idx s + 1 \<ge> length (sp_columns s) then Some (False, s)
      else map_option (Pair True) (move_column_to E (sp_active_column_idx s + 1) s))"

definition move_column_to_first :: "('w, 'id) LayoutEnv \<Rightarrow> ('w, 'id) Space \<Rightarrow> ('w, 'id) Space option" where
  "move_column_to_first E s = move_column_to E 0 s"

definition move_column_to_last :: "('w, 'id) LayoutEnv \<Rightarrow> ('w, 'id) Space \<Rightarrow> ('w, 'id) Space option" where
  "move_column_to_last E s =
     (if sp_columns s = [] then Some s else move_column_to E (length (sp_columns s) - 1) s)"

definition move_down :: "('w, 'id) LayoutEnv \<Rightarrow> ('w, 'id) Space \<Rightarrow> (bool \<times> ('w, 'id) Space) option" where
  "move_down E s = on_active_bool (column_move_down E) s"

definition move_up :: "('w, 'id) LayoutEnv \<Rightarrow> ('w, 'id) Space \<Rightarrow> (bool \<times> ('w, 'id) Space) option" where
  "move_up E s = on_active_bool (column_move_up E) s"

section \<open>Moving windows between columns\<close>

text \<open>The column and tile an action refers to.\<close>

definition source_of ::
    "('w, 'id) LayoutEnv \<Rightarrow> 'id option \<Rightarrow> ('w, 'id) Space \<Rightarrow> (nat \<times> nat) option" where
  "source_of E window s =
     (case window of
        Some window \<Rightarrow> do {
          col_idx \<leftarrow> space_column_of E window s;
          col \<leftarrow> vec_get (sp_columns s) col_idx;
          tile_idx \<leftarrow> column_position E window col;
          Some (col_idx, tile_idx) }
      | None \<Rightarrow> do {
          col \<leftarrow> vec_get (sp_columns s) (sp_active_column_idx s);
          Some (sp_active_column_idx s, c_active_tile_idx col) })"

text \<open>The last tile of a column, and the first one, animate from an offset.\<close>

definition animate_tile ::
    "('w, 'id) LayoutEnv \<Rightarrow> nat \<Rightarrow> Point \<Rightarrow> 'w Column \<Rightarrow> 'w Column option" where
  "animate_tile E i offset c =
     do { ts \<leftarrow> vec_modify i (animate_move_from E offset) (c_tiles c); Some (c\<lparr>c_tiles := ts\<rparr>) }"

definition consume_or_expel_window_left ::
    "('w, 'id) LayoutEnv \<Rightarrow> 'id option \<Rightarrow> ('w, 'id) Space \<Rightarrow> ('w, 'id) Space option" where
  "consume_or_expel_window_left E window s =
     (if sp_columns s = [] then Some s
      else do {
        (source_col_idx, source_tile_idx) \<leftarrow> source_of E window s;
        source_column \<leftarrow> vec_get (sp_columns s) source_col_idx;
        prev_off \<leftarrow> tile_offset source_tile_idx source_column;
        let source_tile_was_active = (sp_active_column_idx s = source_col_idx \<and>
                                      c_active_tile_idx source_column = source_tile_idx);
        if length (c_tiles source_column) = 1
        then
          if source_col_idx = 0 then Some s
          else do {
            let target_column_idx = source_col_idx - 1;
            source_x \<leftarrow> column_x source_col_idx s;
            target_x \<leftarrow> column_x target_column_idx s;
            target_d \<leftarrow> vec_get (sp_data s) target_column_idx;
            source_d \<leftarrow> vec_get (sp_data s) source_col_idx;
            let offset_x = (if sp_active_column_idx s \<le> source_col_idx then source_x - target_x
                            else max 0 (cd_width target_d - cd_width source_d));
            let s = (if source_tile_was_active
                     then s\<lparr>sp_activate_prev_column_on_removal :=
                            (case sp_activate_prev_column_on_removal s of
                               Some x \<Rightarrow> Some x
                             | None \<Rightarrow> Some (vo_stationary (sp_view_offset s) + offset_x))\<rparr>
                     else s);
            let offset = \<lparr>px = offset_x + px (column_render_offset E source_column), py = 0\<rparr>;
            (removed, s) \<leftarrow> remove_tile_by_idx E source_col_idx 0 (Some (space_movement_config s)) s;
            s \<leftarrow> add_tile_to_column E target_column_idx None (rm_tile removed) source_tile_was_active s;
            target \<leftarrow> vec_get (sp_columns s) target_column_idx;
            new_off \<leftarrow> tile_offset (length (c_tiles target) - 1) target;
            let offset = offset\<lparr>px := px offset - px (column_render_offset E target)\<rparr>;
            with_column target_column_idx
              (animate_tile E (length (c_tiles target) - 1) (point_add offset (point_sub prev_off new_off))) s }
        else do {
          let offset = \<lparr>px = px (column_render_offset E source_column), py = 0\<rparr>;
          (removed, s) \<leftarrow> remove_tile_by_idx E source_col_idx source_tile_idx None s;
          let target_column_idx = source_col_idx;
          s \<leftarrow> add_tile E (Some target_column_idx) (rm_tile removed) source_tile_was_active
                 (rm_width removed) (rm_is_full_width removed) (Some (space_movement_config s)) s;
          let s = (if source_tile_was_active then s\<lparr>sp_activate_prev_column_on_removal := None\<rparr> else s);
          next_x \<leftarrow> column_x (target_column_idx + 1) s;
          this_x \<leftarrow> column_x target_column_idx s;
          let offset = (if target_column_idx \<le> sp_active_column_idx s
                        then offset\<lparr>px := px offset + (next_x - this_x)\<rparr> else offset);
          new_col \<leftarrow> vec_get (sp_columns s) target_column_idx;
          new_off \<leftarrow> tile_offset 0 new_col;
          with_column target_column_idx (animate_tile E 0 (point_add offset (point_sub prev_off new_off))) s } })"

definition consume_or_expel_window_right ::
    "('w, 'id) LayoutEnv \<Rightarrow> 'id option \<Rightarrow> ('w, 'id) Space \<Rightarrow> ('w, 'id) Space option" where
  "consume_or_expel_window_right E window s =
     (if sp_columns s = [] then Some s
      else do {
        (source_col_idx, source_tile_idx) \<leftarrow> source_of E window s;
        cur_x \<leftarrow> column_x source_col_idx s;
        source_column \<leftarrow> vec_get (sp_columns s) source_col_idx;
        let offset = \<lparr>px = px (column_render_offset E source_column), py = 0\<rparr>;
        prev_off \<leftarrow> tile_offset source_tile_idx source_column;
        let source_tile_was_active = (sp_active_column_idx s = source_col_idx \<and>
                                      c_active_tile_idx source_column = source_tile_idx);
        if length (c_tiles source_column) = 1
        then
          if source_col_idx + 1 = length (sp_columns s) then Some s
          else do {
            let target_column_idx = source_col_idx;
            next_x \<leftarrow> column_x (source_col_idx + 1) s;
            next_col \<leftarrow> vec_get (sp_columns s) (source_col_idx + 1);
            let offset = offset\<lparr>px := px offset + (cur_x - next_x) - px (column_render_offset E next_col)\<rparr>;
            let s = (if source_tile_was_active then s\<lparr>sp_activate_prev_column_on_removal := None\<rparr> else s);
            (removed, s) \<leftarrow> remove_tile_by_idx E source_col_idx 0 (Some (space_movement_config s)) s;
            s \<leftarrow> add_tile_to_column E target_column_idx None (rm_tile removed) source_tile_was_active s;
            target \<leftarrow> vec_get (sp_columns s) target_column_idx;
            new_off \<leftarrow> tile_offset (length (c_tiles target) - 1) target;
            with_column target_column_idx
              (animate_tile E (length (c_tiles target) - 1) (point_add offset (point_sub prev_off new_off))) s }
        else do {
          d \<leftarrow> vec_get (sp_data s) source_col_idx;
          let prev_width = cd_width d;
          (removed, s) \<leftarrow> remove_tile_by_idx E source_col_idx source_tile_idx None s;
          let target_column_idx = source_col_idx + 1;
          s \<leftarrow> add_tile E (Some target_column_idx) (rm_tile removed) source_tile_was_active
                 (rm_width removed) (rm_is_full_width removed) (Some (space_movement_config s)) s;
          this_x \<leftarrow> column_x target_column_idx s;
          d \<leftarrow> vec_get (sp_data s) target_column_idx;
          let offset = offset\<lparr>px := px offset +
            (if sp_active_column_idx s \<le> target_column_idx then cur_x - this_x
             else - max 0 (prev_width - cd_width d))\<rparr>;
          new_col \<leftarrow> vec_get (sp_columns s) target_column_idx;
          new_off \<leftarrow> tile_offset 0 new_col;
          with_column target_column_idx (animate_tile E 0 (point_add offset (point_sub prev_off new_off))) s } })"

definition consume_into_column ::
    "('w, 'id) LayoutEnv \<Rightarrow> ('w, 'id) Space \<Rightarrow> ('w, 'id) Space option" where
  "consume_into_column E s =
     (if length (sp_columns s) < 2 then Some s
      else if sp_active_column_idx s = length (sp_columns s) - 1 then Some s
      else do {
        let target_column_idx = sp_active_column_idx s;
        let source_column_idx = sp_active_column_idx s + 1;
        source_x \<leftarrow> column_x source_column_idx s;
        source \<leftarrow> vec_get (sp_columns s) source_column_idx;
        target_x \<leftarrow> column_x target_column_idx s;
        let offset = \<lparr>px = source_x + px (column_render_offset E source) - target_x, py = 0\<rparr>;
        prev_off \<leftarrow> tile_offset 0 source;
        (removed, s) \<leftarrow> remove_tile_by_idx E source_column_idx 0 None s;
        s \<leftarrow> add_tile_to_column E target_column_idx None (rm_tile removed) False s;
        target \<leftarrow> vec_get (sp_columns s) target_column_idx;
        new_off \<leftarrow> tile_offset (length (c_tiles target) - 1) target;
        let offset = point_add offset (point_sub prev_off new_off);
        let offset = offset\<lparr>px := px offset - px (column_render_offset E target)\<rparr>;
        with_column target_column_idx (animate_tile E (length (c_tiles target) - 1) offset) s })"

definition expel_from_column ::
    "('w, 'id) LayoutEnv \<Rightarrow> ('w, 'id) Space \<Rightarrow> ('w, 'id) Space option" where
  "expel_from_column E s =
     (if sp_columns s = [] then Some s
      else do {
        let source_col_idx = sp_active_column_idx s;
        let target_col_idx = sp_active_column_idx s + 1;
        cur_x \<leftarrow> column_x source_col_idx s;
        source_column \<leftarrow> vec_get (sp_columns s) (sp_active_column_idx s);
        if length (c_tiles source_column) = 1 then Some s
        else do {
          let source_tile_idx = length (c_tiles source_column) - 1;
          prev_off \<leftarrow> tile_offset source_tile_idx source_column;
          (removed, s) \<leftarrow> remove_tile_by_idx E source_col_idx source_tile_idx None s;
          s \<leftarrow> add_tile E (Some target_col_idx) (rm_tile removed) False (rm_width removed)
                 (rm_is_full_width removed) (Some (space_movement_config s)) s;
          this_x \<leftarrow> column_x target_col_idx s;
          let offset = \<lparr>px = px (column_render_offset E source_column) + (cur_x - this_x), py = 0\<rparr>;
          new_col \<leftarrow> vec_get (sp_columns s) target_col_idx;
          new_off \<leftarrow> tile_offset 0 new_col;
          with_column target_col_idx (animate_tile E 0 (point_add offset (point_sub prev_off new_off))) s } })"

definition set_active_tile :: "nat \<Rightarrow> 'w Column \<Rightarrow> 'w Column option" where
  "set_active_tile i c = Some (c\<lparr>c_active_tile_idx := i\<rparr>)"

text \<open>The swapped tiles animate from each other's places.\<close>

definition animate_swapped ::
    "('w, 'id) LayoutEnv \<Rightarrow> (nat \<times> nat) \<Rightarrow> (nat \<times> nat) \<Rightarrow> Point \<Rightarrow> Point \<Rightarrow> ('w, 'id) Space \<Rightarrow>
     ('w, 'id) Space option" where
  "animate_swapped E = (\<lambda>(source_col, source_tile) (target_col, target_tile) source_pt target_pt s. do {
     s \<leftarrow> with_column target_col (\<lambda>c. do {
            ts \<leftarrow> vec_modify target_tile (\<lambda>t. do {
                    t \<leftarrow> animate_move_from E (point_sub source_pt target_pt) t;
                    Some (ensure_alpha_animates_to_1 t) }) (c_tiles c);
            Some (c\<lparr>c_tiles := ts\<rparr>) }) s;
     with_column source_col (\<lambda>c. do {
            ts \<leftarrow> vec_modify source_tile (\<lambda>t. do {
                    t \<leftarrow> animate_move_from E (point_sub target_pt source_pt) (stop_move_animations t);
                    Some (ensure_alpha_animates_to_1 t) }) (c_tiles c);
            Some (c\<lparr>c_tiles := ts\<rparr>) }) s })"

definition swap_window_in_direction ::
    "('w, 'id) LayoutEnv \<Rightarrow> ScrollDirection \<Rightarrow> ('w, 'id) Space \<Rightarrow> ('w, 'id) Space option" where
  "swap_window_in_direction E direction s =
     (if sp_columns s = [] then Some s
      else if direction = ScrollLeft \<and> sp_active_column_idx s = 0 then Some s
      else if direction = ScrollRight \<and> sp_active_column_idx s = length (sp_columns s) - 1 then Some s
      else do {
        let source_column_idx = sp_active_column_idx s;
        let target_column_idx = (case direction of ScrollLeft \<Rightarrow> sp_active_column_idx s - 1
                                 | ScrollRight \<Rightarrow> sp_active_column_idx s + 1);
        source \<leftarrow> vec_get (sp_columns s) source_column_idx;
        target \<leftarrow> vec_get (sp_columns s) target_column_idx;
        if length (c_tiles source) = 1 \<and> length (c_tiles target) = 1
        then move_column_to E target_column_idx s
        else do {
          let source_tile_idx = c_active_tile_idx source;
          let target_tile_idx = c_active_tile_idx target;
          let source_column_drained = (length (c_tiles source) = 1);
          source_off \<leftarrow> tile_offset source_tile_idx source;
          target_off \<leftarrow> tile_offset target_tile_idx target;
          source_x \<leftarrow> column_x source_column_idx s;
          target_x \<leftarrow> column_x target_column_idx s;
          let source_pt = point_add (point_add (column_render_offset E source) source_off)
                            \<lparr>px = source_x, py = 0\<rparr>;
          let target_pt = point_add (point_add (column_render_offset E target) target_off)
                            \<lparr>px = target_x, py = 0\<rparr>;
          (source_removed, s) \<leftarrow> remove_tile_by_idx E source_column_idx source_tile_idx None s;
          let adjusted_target_column_idx =
            (if direction = ScrollRight \<and> source_column_drained then target_column_idx - 1
             else target_column_idx);
          s \<leftarrow> add_tile_to_column E adjusted_target_column_idx (Some target_tile_idx)
                 (rm_tile source_removed) False s;
          (target_removed, s) \<leftarrow> remove_tile_by_idx E adjusted_target_column_idx (target_tile_idx + 1) None s;
          s \<leftarrow> (if source_column_drained
                then add_tile E (Some source_column_idx) (rm_tile target_removed) True
                       (rm_width source_removed) (rm_is_full_width source_removed) None s
                else add_tile_to_column E source_column_idx (Some source_tile_idx)
                       (rm_tile target_removed) False s);
          s \<leftarrow> with_column source_column_idx (set_active_tile source_tile_idx) s;
          s \<leftarrow> with_column target_column_idx (set_active_tile target_tile_idx) s;
          s \<leftarrow> animate_swapped E (source_column_idx, source_tile_idx) (target_column_idx, target_tile_idx)
                 source_pt target_pt s;
          activate_column E target_column_idx s } })"

section \<open>Sizing modes and display modes\<close>

text \<open>
  \<^verbatim>\<open>set_fullscreen\<close> and \<^verbatim>\<open>set_maximized\<close> are the same code on two flags; both expel the window from a
  column with other windows first.
\<close>

definition set_sizing ::
    "('w, 'id) LayoutEnv \<Rightarrow> ('w Column \<Rightarrow> bool) \<Rightarrow> (bool \<Rightarrow> 'w Column \<Rightarrow> 'w Column option) \<Rightarrow>
     'id \<Rightarrow> bool \<Rightarrow> ('w, 'id) Space \<Rightarrow> (bool \<times> ('w, 'id) Space) option" where
  "set_sizing E pending set_mode window b s =
     do { col_idx \<leftarrow> space_column_of E window s;
          col \<leftarrow> vec_get (sp_columns s) col_idx;
          if b = pending col then Some (False, s)
          else do {
            s \<leftarrow> cancel_resize_at E col_idx s;
            (col_idx, s) \<leftarrow> (if b \<and> length (c_tiles col) > 1 \<and> \<not> is_tabbed col
                             then do { s \<leftarrow> consume_or_expel_window_right E (Some window) s;
                                       Some (col_idx + 1, s) }
                             else Some (col_idx, s));
            s \<leftarrow> with_column col_idx (set_mode b) s;
            s \<leftarrow> update_data col_idx s;
            Some (True, s) } }"

definition set_fullscreen ::
    "('w, 'id) LayoutEnv \<Rightarrow> 'id \<Rightarrow> bool \<Rightarrow> ('w, 'id) Space \<Rightarrow> (bool \<times> ('w, 'id) Space) option" where
  "set_fullscreen E = set_sizing E c_is_pending_fullscreen (column_set_fullscreen E)"

definition set_maximized ::
    "('w, 'id) LayoutEnv \<Rightarrow> 'id \<Rightarrow> bool \<Rightarrow> ('w, 'id) Space \<Rightarrow> (bool \<times> ('w, 'id) Space) option" where
  "set_maximized E = set_sizing E c_is_pending_maximized (column_set_maximized E)"

definition set_column_display ::
    "('w, 'id) LayoutEnv \<Rightarrow> ColumnDisplay \<Rightarrow> ('w, 'id) Space \<Rightarrow> ('w, 'id) Space option" where
  "set_column_display E display s =
     (if sp_columns s = [] then Some s
      else do {
        let i = sp_active_column_idx s;
        col \<leftarrow> vec_get (sp_columns s) i;
        if c_display_mode col = display then Some s
        else do {
          s \<leftarrow> cancel_resize_at E i s;
          s \<leftarrow> with_column i (column_set_column_display E display) s;
          s \<leftarrow> update_data i s;
          s \<leftarrow> with_column i (update_tile_sizes E True) s;
          col \<leftarrow> vec_get (sp_columns s) i;
          if \<not> is_tabbed col \<and> length (c_tiles col) > 1
          then do {
            t \<leftarrow> vec_get (c_tiles col) (c_active_tile_idx col);
            let window = el_id E (tl_window t);
            (_, s) \<leftarrow> set_fullscreen E window False s;
            (_, s) \<leftarrow> set_maximized E window False s;
            Some s }
          else Some s } })"

definition toggle_column_tabbed_display ::
    "('w, 'id) LayoutEnv \<Rightarrow> ('w, 'id) Space \<Rightarrow> ('w, 'id) Space option" where
  "toggle_column_tabbed_display E s =
     (if sp_columns s = [] then Some s
      else do {
        col \<leftarrow> vec_get (sp_columns s) (sp_active_column_idx s);
        set_column_display E (case c_display_mode col of DisplayNormal \<Rightarrow> DisplayTabbed
                              | DisplayTabbed \<Rightarrow> DisplayNormal) s })"

section \<open>Centering and aligning\<close>

definition center_column :: "('w, 'id) LayoutEnv \<Rightarrow> ('w, 'id) Space \<Rightarrow> ('w, 'id) Space option" where
  "center_column E s =
     (if sp_columns s = [] then Some s
      else do {
        s \<leftarrow> animate_view_offset_to_column_centered E None (sp_active_column_idx s)
               (view_movement_config s) s;
        cancel_resize_at E (sp_active_column_idx s) s })"

definition center_window ::
    "('w, 'id) LayoutEnv \<Rightarrow> 'id option \<Rightarrow> ('w, 'id) Space \<Rightarrow> ('w, 'id) Space option" where
  "center_window E window s =
     (if sp_columns s = [] then Some s
      else do {
        col_idx \<leftarrow> (case window of Some w \<Rightarrow> space_column_of E w s
                    | None \<Rightarrow> Some (sp_active_column_idx s));
        if col_idx \<noteq> sp_active_column_idx s then Some s else center_column E s })"

text \<open>
  The loop over the columns that are fully inside the working area: the left edge of the leftmost
  one, the left edge of the active one, the width they take, and whether another one was counted.
\<close>

record VisibleColumns =
  vc_leftmost_col_x :: "real option"
  vc_active_col_x :: "real option"
  vc_width_taken :: real
  vc_counted_non_active :: bool

fun visible_columns ::
    "real \<Rightarrow> real \<Rightarrow> real \<Rightarrow> real \<Rightarrow> nat \<Rightarrow> (nat \<times> real \<times> ColumnData) list \<Rightarrow> VisibleColumns \<Rightarrow> VisibleColumns" where
  "visible_columns view_x working_x working_w gap active [] v = v"
| "visible_columns view_x working_x working_w gap active ((idx, col_x, d) # rest) v =
     (if col_x < view_x + working_x + gap
      then visible_columns view_x working_x working_w gap active rest v
      else
        let v = v\<lparr>vc_leftmost_col_x := (case vc_leftmost_col_x v of Some x \<Rightarrow> Some x | None \<Rightarrow> Some col_x)\<rparr>;
            width = cd_width d
        in if view_x + working_x + working_w < col_x + width + gap then v
           else
             let v = (if idx = active then v\<lparr>vc_active_col_x := Some col_x\<rparr>
                      else v\<lparr>vc_counted_non_active := True\<rparr>)
             in visible_columns view_x working_x working_w gap active rest
                  (v\<lparr>vc_width_taken := vc_width_taken v + (width + gap)\<rparr>))"

definition space_visible_columns :: "real \<Rightarrow> ('w, 'id) Space \<Rightarrow> VisibleColumns" where
  "space_visible_columns view_x s =
     visible_columns view_x (px (r_loc (sp_working_area s))) (sw (r_size (sp_working_area s)))
       (space_gaps s) (sp_active_column_idx s)
       (enumerate 0 (zip (column_xs s) (sp_data s)))
       \<lparr>vc_leftmost_col_x = None, vc_active_col_x = None, vc_width_taken = 0, vc_counted_non_active = False\<rparr>"

definition center_visible_columns :: "('w, 'id) LayoutEnv \<Rightarrow> ('w, 'id) Space \<Rightarrow> ('w, 'id) Space option" where
  "center_visible_columns E s =
     (if sp_columns s = [] then Some s
      else if is_centering_focused_column s then Some s
      else do {
        view_x \<leftarrow> target_view_pos s;
        let v = space_visible_columns view_x s;
        (case vc_active_col_x v of
           None \<Rightarrow> Some s
         | Some active_col_x \<Rightarrow> do {
             s \<leftarrow> cancel_resize_at E (sp_active_column_idx s) s;
             let free_space = sw (r_size (sp_working_area s)) - vc_width_taken v + space_gaps s;
             leftmost_col_x \<leftarrow> vc_leftmost_col_x v;
             let new_view_x = leftmost_col_x - free_space / 2 - px (r_loc (sp_working_area s));
             s \<leftarrow> animate_view_offset E (sp_active_column_idx s) (new_view_x - active_col_x) s;
             animate_view_offset_to_column E None (sp_active_column_idx s) None s }) })"

definition align_visible_columns_left :: "('w, 'id) LayoutEnv \<Rightarrow> ('w, 'id) Space \<Rightarrow> ('w, 'id) Space option" where
  "align_visible_columns_left E s =
     (if sp_columns s = [] then Some s
      else if is_centering_focused_column s then Some s
      else do {
        view_x \<leftarrow> target_view_pos s;
        let v = space_visible_columns view_x s;
        (case (vc_leftmost_col_x v, vc_active_col_x v) of
           (Some leftmost_col_x, Some active_col_x) \<Rightarrow> do {
             s \<leftarrow> cancel_resize_at E (sp_active_column_idx s) s;
             let new_view_x = leftmost_col_x - px (r_loc (sp_working_area s)) - space_gaps s;
             s \<leftarrow> animate_view_offset E (sp_active_column_idx s) (new_view_x - active_col_x) s;
             animate_view_offset_to_column E None (sp_active_column_idx s) None s }
         | _ \<Rightarrow> Some s) })"

section \<open>Widths and heights\<close>

text \<open>A resize of a column by an action ends its interactive resize.\<close>

definition resize_active ::
    "('w, 'id) LayoutEnv \<Rightarrow> ('w Column \<Rightarrow> 'w Column option) \<Rightarrow> ('w, 'id) Space \<Rightarrow> ('w, 'id) Space option" where
  "resize_active E f s =
     (if sp_columns s = [] then Some s
      else do { s \<leftarrow> with_column (sp_active_column_idx s) f s;
                cancel_resize_at E (sp_active_column_idx s) s })"

definition resize_window ::
    "('w, 'id) LayoutEnv \<Rightarrow> 'id option \<Rightarrow> (nat option \<Rightarrow> 'w Column \<Rightarrow> 'w Column option) \<Rightarrow>
     ('w, 'id) Space \<Rightarrow> ('w, 'id) Space option" where
  "resize_window E window f s =
     (if sp_columns s = [] then Some s
      else do {
        (col_idx, tile_idx) \<leftarrow> (case window of
            Some w \<Rightarrow> do { (ci, ti) \<leftarrow> source_of E (Some w) s; Some (ci, Some ti) }
          | None \<Rightarrow> Some (sp_active_column_idx s, None));
        s \<leftarrow> with_column col_idx (f tile_idx) s;
        cancel_resize_at E col_idx s })"

definition toggle_width :: "('w, 'id) LayoutEnv \<Rightarrow> bool \<Rightarrow> ('w, 'id) Space \<Rightarrow> ('w, 'id) Space option" where
  "toggle_width E forwards s = resize_active E (column_toggle_width E None forwards) s"

definition toggle_full_width :: "('w, 'id) LayoutEnv \<Rightarrow> ('w, 'id) Space \<Rightarrow> ('w, 'id) Space option" where
  "toggle_full_width E s = resize_active E (column_toggle_full_width E) s"

definition set_window_width ::
    "('w, 'id) LayoutEnv \<Rightarrow> 'id option \<Rightarrow> SizeChange \<Rightarrow> ('w, 'id) Space \<Rightarrow> ('w, 'id) Space option" where
  "set_window_width E window change s =
     resize_window E window (\<lambda>ti. column_set_column_width E change ti True) s"

definition set_window_height ::
    "('w, 'id) LayoutEnv \<Rightarrow> 'id option \<Rightarrow> SizeChange \<Rightarrow> ('w, 'id) Space \<Rightarrow> ('w, 'id) Space option" where
  "set_window_height E window change s =
     resize_window E window (\<lambda>ti. column_set_window_height E change ti True) s"

definition reset_window_height ::
    "('w, 'id) LayoutEnv \<Rightarrow> 'id option \<Rightarrow> ('w, 'id) Space \<Rightarrow> ('w, 'id) Space option" where
  "reset_window_height E window s = resize_window E window (column_reset_window_height E) s"

definition toggle_window_width ::
    "('w, 'id) LayoutEnv \<Rightarrow> 'id option \<Rightarrow> bool \<Rightarrow> ('w, 'id) Space \<Rightarrow> ('w, 'id) Space option" where
  "toggle_window_width E window forwards s =
     resize_window E window (\<lambda>ti. column_toggle_width E ti forwards) s"

definition toggle_window_height ::
    "('w, 'id) LayoutEnv \<Rightarrow> 'id option \<Rightarrow> bool \<Rightarrow> ('w, 'id) Space \<Rightarrow> ('w, 'id) Space option" where
  "toggle_window_height E window forwards s =
     resize_window E window (\<lambda>ti. column_toggle_window_height E ti forwards) s"

definition expand_column_to_available_width ::
    "('w, 'id) LayoutEnv \<Rightarrow> ('w, 'id) Space \<Rightarrow> ('w, 'id) Space option" where
  "expand_column_to_available_width E s =
     (if sp_columns s = [] then Some s
      else do {
        let i = sp_active_column_idx s;
        col \<leftarrow> vec_get (sp_columns s) i;
        if \<not> is_normal (column_pending_sizing_mode col) \<or> c_is_full_width col then Some s
        else if is_centering_focused_column s
        then do { s \<leftarrow> with_column i (column_toggle_full_width E) s; cancel_resize_at E i s }
        else do {
          view_x \<leftarrow> target_view_pos s;
          let v = space_visible_columns view_x s;
          let gap = space_gaps s;
          (case vc_active_col_x v of
             None \<Rightarrow> Some s
           | Some active_col_x \<Rightarrow> do {
               let available_width = sw (r_size (sp_working_area s)) - gap - vc_width_taken v -
                                     sw (column_extra_size col);
               if available_width \<le> 0 then Some s
               else do {
                 s \<leftarrow> cancel_resize_at E i s;
                 if \<not> vc_counted_non_active v then with_column i (column_toggle_full_width E) s
                 else do {
                   d \<leftarrow> vec_get (sp_data s) i;
                   s \<leftarrow> with_column i (\<lambda>c. update_tile_sizes E True
                          (c\<lparr>c_width := Fixed (cd_width d + available_width), c_preset_width_idx := None,
                             c_is_full_width := False\<rparr>)) s;
                   leftmost_col_x \<leftarrow> vc_leftmost_col_x v;
                   let new_view_x = leftmost_col_x - gap - px (r_loc (sp_working_area s));
                   s \<leftarrow> animate_view_offset E i (new_view_x - active_col_x) s;
                   animate_view_offset_to_column E None i None s } } }) } })"

section \<open>Interactive resizing\<close>

definition interactive_resize_begin ::
    "('w, 'id) LayoutEnv \<Rightarrow> 'id \<Rightarrow> ResizeEdge \<Rightarrow> ('w, 'id) Space \<Rightarrow> (bool \<times> ('w, 'id) Space) option" where
  "interactive_resize_begin E window edges s =
     (if sp_interactive_resize s \<noteq> None then Some (False, s)
      else do {
        (col_idx, tile_idx) \<leftarrow> source_of E (Some window) s;
        col \<leftarrow> vec_get (sp_columns s) col_idx;
        if \<not> is_normal (column_pending_sizing_mode col) then Some (False, s)
        else do {
          tile \<leftarrow> vec_get (c_tiles col) tile_idx;
          Some (True, s\<lparr>sp_interactive_resize :=
                          Some \<lparr>ir_window = window, ir_original_window_size = window_size E tile,
                                ir_data = \<lparr>ird_edges = edges\<rparr>\<rparr>,
                        sp_view_offset := vo_stop_anim_and_gesture E (sp_view_offset s)\<rparr>) } })"

definition interactive_resize_update ::
    "('w, 'id) LayoutEnv \<Rightarrow> 'id \<Rightarrow> Point \<Rightarrow> ('w, 'id) Space \<Rightarrow> (bool \<times> ('w, 'id) Space) option" where
  "interactive_resize_update E window delta s =
     (case sp_interactive_resize s of
        None \<Rightarrow> Some (False, s)
      | Some resize \<Rightarrow>
          if window \<noteq> ir_window resize then Some (False, s)
          else do {
            (col_idx, tile_idx) \<leftarrow> source_of E (Some window) s;
            let edges = ird_edges (ir_data resize);
            s \<leftarrow> (if edge_left edges \<or> edge_right edges
                  then do {
                    let dx = (if edge_left edges then - px delta else px delta);
                    let dx = (if is_centering_focused_column s then dx * 2 else dx);
                    let window_width = le_i32_round E (sw (ir_original_window_size resize) + dx);
                    with_column col_idx
                      (column_set_column_width E (SetFixed window_width) (Some tile_idx) False) s }
                  else Some s);
            s \<leftarrow> (if (edge_top edges \<or> edge_bottom edges) \<and> \<not> (edge_top edges \<and> tile_idx = 0)
                  then do {
                    let dy = (if edge_top edges then - py delta else py delta);
                    let window_height = le_i32_round E (sh (ir_original_window_size resize) + dy);
                    with_column col_idx
                      (column_set_window_height E (SetFixed window_height) (Some tile_idx) False) s }
                  else Some s);
            Some (True, s) })"

definition interactive_resize_end ::
    "('w, 'id) LayoutEnv \<Rightarrow> 'id option \<Rightarrow> ('w, 'id) Space \<Rightarrow> ('w, 'id) Space option" where
  "interactive_resize_end E window s =
     (case sp_interactive_resize s of
        None \<Rightarrow> Some s
      | Some resize \<Rightarrow>
          (case window of
             None \<Rightarrow> Some (s\<lparr>sp_interactive_resize := None\<rparr>)
           | Some window \<Rightarrow>
               if window \<noteq> ir_window resize then Some s
               else do {
                 col \<leftarrow> vec_get (sp_columns s) (sp_active_column_idx s);
                 s \<leftarrow> (if column_contains E window col
                       then animate_view_offset_to_column E None (sp_active_column_idx s) None s
                       else Some s);
                 Some (s\<lparr>sp_interactive_resize := None\<rparr>) }))"

end
