(* ===== verification/Layout_Scrolling_Gesture.thy ===== *)
theory Layout_Scrolling_Gesture
  imports Layout_Scrolling_Actions
begin

text \<open>
  Scrolling the view by a gesture (\<^verbatim>\<open>src/layout/scrolling.rs\<close>): touchpad swipes and drag-and-drop
  scrolling move the view offset, and the end of a gesture snaps the view to a column. Also the
  place where a dragged window would be inserted.
\<close>

section \<open>Gestures\<close>

definition gesture_new :: "('w, 'id) LayoutEnv \<Rightarrow> bool \<Rightarrow> nanos option \<Rightarrow> ViewOffset \<Rightarrow> ViewGesture" where
  "gesture_new E is_touchpad dnd_last_event_time vo =
     \<lparr>vg_current_view_offset = vo_current E vo, vg_animation = None, vg_tracker = swipe_new,
      vg_delta_from_tracker = vo_current E vo, vg_stationary_view_offset = vo_stationary vo,
      vg_is_touchpad = is_touchpad, vg_dnd_last_event_time = dnd_last_event_time,
      vg_dnd_nonzero_start_time = None\<rparr>"

definition view_offset_gesture_begin ::
    "('w, 'id) LayoutEnv \<Rightarrow> bool \<Rightarrow> ('w, 'id) Space \<Rightarrow> ('w, 'id) Space" where
  "view_offset_gesture_begin E is_touchpad s =
     (if sp_columns s = [] \<or> sp_interactive_resize s \<noteq> None then s
      else s\<lparr>sp_view_offset := VGesture (gesture_new E is_touchpad None (sp_view_offset s))\<rparr>)"

definition dnd_scroll_gesture_begin ::
    "('w, 'id) LayoutEnv \<Rightarrow> ('w, 'id) Space \<Rightarrow> ('w, 'id) Space" where
  "dnd_scroll_gesture_begin E s =
     (if vo_is_dnd_scroll (sp_view_offset s) then s
      else s\<lparr>sp_view_offset :=
               VGesture (gesture_new E False (Some (av_now_unadjusted (le_anim E))) (sp_view_offset s)),
             sp_interactive_resize := None\<rparr>)"

definition gesture_norm_factor :: "('w, 'id) Space \<Rightarrow> ViewGesture \<Rightarrow> real" where
  "gesture_norm_factor s g =
     (if vg_is_touchpad g
      then sw (r_size (sp_working_area s)) / VIEW_GESTURE_WORKING_AREA_MOVEMENT else 1)"

definition view_offset_gesture_update ::
    "real \<Rightarrow> nanos \<Rightarrow> bool \<Rightarrow> ('w, 'id) Space \<Rightarrow> (bool option \<times> ('w, 'id) Space) option" where
  "view_offset_gesture_update delta_x timestamp is_touchpad s =
     (case sp_view_offset s of
        VGesture g \<Rightarrow>
          if vg_is_touchpad g \<noteq> is_touchpad \<or> vg_dnd_last_event_time g \<noteq> None then Some (None, s)
          else do {
            tr \<leftarrow> swipe_push delta_x timestamp (vg_tracker g);
            let pos = sw_pos tr * gesture_norm_factor s g;
            Some (Some True, s\<lparr>sp_view_offset :=
              VGesture (g\<lparr>vg_tracker := tr,
                         vg_current_view_offset := pos + vg_delta_from_tracker g\<rparr>)\<rparr>) }
      | _ \<Rightarrow> Some (None, s))"

text \<open>The left edges by summing the widths, and the range the view offset is kept in.\<close>

definition sum_widths :: "('w, 'id) Space \<Rightarrow> 'w Column list \<Rightarrow> real option" where
  "sum_widths s cs =
     do { ws \<leftarrow> map_opt column_px_width cs;
          Some (foldl (\<lambda>col_x w. col_x + w + space_gaps s) 0 ws) }"

definition dnd_scroll_range :: "('w, 'id) Space \<Rightarrow> (real \<times> real) option" where
  "dnd_scroll_range s =
     (if sp_columns s = [] then Some (0, 0)
      else do {
        let last_col_idx = length (sp_columns s) - 1;
        last_col_x \<leftarrow> sum_widths s (take last_col_idx (sp_columns s));
        d \<leftarrow> vec_get (sp_data s) last_col_idx;
        active_col_x \<leftarrow> sum_widths s (take (sp_active_column_idx s) (sp_columns s));
        Some (- sw (r_size (sp_working_area s)) - active_col_x,
              last_col_x + cd_width d - px (r_loc (sp_working_area s)) - active_col_x) })"

definition dnd_scroll_gesture_scroll ::
    "('w, 'id) LayoutEnv \<Rightarrow> real \<Rightarrow> ('w, 'id) Space \<Rightarrow> (bool \<times> ('w, 'id) Space) option" where
  "dnd_scroll_gesture_scroll E delta s =
     (case sp_view_offset s of
        VGesture g \<Rightarrow>
          (case vg_dnd_last_event_time g of
             None \<Rightarrow> Some (False, s)
           | Some last_time \<Rightarrow>
               let config = op_dnd_edge_view_scroll (sp_options s);
                   now = av_now_unadjusted (le_anim E);
                   g = g\<lparr>vg_dnd_last_event_time := Some now\<rparr>
               in if delta = 0
                  then Some (False, s\<lparr>sp_view_offset := VGesture (g\<lparr>vg_dnd_nonzero_start_time := None\<rparr>)\<rparr>)
                  else
                    let nonzero_start = (case vg_dnd_nonzero_start_time g of Some t \<Rightarrow> t | None \<Rightarrow> now);
                        g = g\<lparr>vg_dnd_nonzero_start_time := Some nonzero_start\<rparr>;
                        delay = from_millis (unat (dv_delay_ms config))
                    in if now - nonzero_start < delay
                       then Some (True, s\<lparr>sp_view_offset := VGesture g\<rparr>)
                       else do {
                         let time_delta = as_secs_f64 (now - last_time);
                         tr \<leftarrow> swipe_push (delta * time_delta * dv_max_speed config) now (vg_tracker g);
                         let view_offset = sw_pos tr + vg_delta_from_tracker g;
                         (leftmost, rightmost) \<leftarrow> dnd_scroll_range s;
                         clamped \<leftarrow> clamp_checked (min leftmost rightmost) (max leftmost rightmost) view_offset;
                         Some (True, s\<lparr>sp_view_offset :=
                           VGesture (g\<lparr>vg_tracker := tr,
                                      vg_delta_from_tracker := vg_delta_from_tracker g + (clamped - view_offset),
                                      vg_current_view_offset := clamped\<rparr>)\<rparr>) })
      | _ \<Rightarrow> Some (False, s))"

section \<open>Snapping\<close>

text \<open>A snapping point: a view position and the column to activate for it.\<close>

type_synonym Snap = "real \<times> nat"

abbreviation mode_area :: "('w, 'id) Space \<Rightarrow> SizingMode \<Rightarrow> Rect" where
  "mode_area s mode \<equiv> (if is_maximized mode then sp_parent_area s else sp_working_area s)"

fun centered_snaps :: "('w, 'id) Space \<Rightarrow> nat \<Rightarrow> real \<Rightarrow> 'w Column list \<Rightarrow> Snap list option" where
  "centered_snaps s col_idx col_x [] = Some []"
| "centered_snaps s col_idx col_x (col # rest) =
     do { col_w \<leftarrow> column_px_width col;
          let mode = column_sizing_mode col;
          let area = mode_area s mode;
          let left_strut = px (r_loc area);
          let view_pos = (if is_fullscreen mode then col_x
                          else if sw (r_size area) \<le> col_w then col_x - left_strut
                          else col_x - (sw (r_size area) - col_w) / 2 - left_strut);
          snaps \<leftarrow> centered_snaps s (col_idx + 1) (col_x + (col_w + space_gaps s)) rest;
          Some ((view_pos, col_idx) # snaps) }"

text \<open>The closure \<^verbatim>\<open>snap_points\<close>: where the view aligns with the left and right edge of a column.\<close>

definition snap_points ::
    "('w, 'id) Space \<Rightarrow> real \<Rightarrow> 'w Column \<Rightarrow> real option \<Rightarrow> real option \<Rightarrow> (real \<times> real) option" where
  "snap_points s col_x col prev_col_w next_col_w =
     do { col_w \<leftarrow> column_px_width col;
          let mode = column_sizing_mode col;
          let area = mode_area s mode;
          let left_strut = px (r_loc area);
          let right_strut = sw (sp_view_size s) - sw (r_size area) - px (r_loc area);
          if is_fullscreen mode then Some (col_x, col_x + col_w)
          else do {
            padding \<leftarrow> (if is_maximized mode then Some 0
                        else clamp_checked 0 (space_gaps s) ((sw (r_size area) - col_w) / 2));
            let center = (if sw (r_size area) \<le> col_w then col_x - left_strut
                          else col_x - (sw (r_size area) - col_w) / 2 - left_strut);
            let is_overflowing = (\<lambda>adj. case adj of
                 None \<Rightarrow> False
               | Some adj_col_w \<Rightarrow>
                   lc_center_focused_column (op_layout (sp_options s)) = CenterOnOverflow \<and>
                   adj_col_w + 3 * space_gaps s + col_w > sw (r_size area));
            Some (if is_overflowing next_col_w then center else col_x - padding - left_strut,
                  if is_overflowing prev_col_w then center + sw (sp_view_size s)
                  else col_x + col_w + padding + right_strut) } }"

text \<open>The width of a column that may not exist.\<close>

definition width_at :: "('w, 'id) Space \<Rightarrow> nat \<Rightarrow> real option option" where
  "width_at s i =
     (if i < length (sp_columns s) then map_option Some (column_px_width (sp_columns s ! i)) else Some None)"

definition prev_width :: "('w, 'id) Space \<Rightarrow> nat \<Rightarrow> real option option" where
  "prev_width s i = (if i = 0 then Some None else width_at s (i - 1))"

fun column_snaps ::
    "('w, 'id) Space \<Rightarrow> real \<Rightarrow> real \<Rightarrow> nat \<Rightarrow> real \<Rightarrow> 'w Column list \<Rightarrow> Snap list option" where
  "column_snaps s leftmost_snap rightmost_snap col_idx col_x [] = Some []"
| "column_snaps s leftmost_snap rightmost_snap col_idx col_x (col # rest) =
     do { pw \<leftarrow> prev_width s col_idx;
          nw \<leftarrow> width_at s (col_idx + 1);
          (left, right) \<leftarrow> snap_points s col_x col pw nw;
          let right = right - sw (sp_view_size s);
          col_w \<leftarrow> column_px_width col;
          snaps \<leftarrow> column_snaps s leftmost_snap rightmost_snap (col_idx + 1)
                    (col_x + (col_w + space_gaps s)) rest;
          Some ((if leftmost_snap < left \<and> left < rightmost_snap then [(left, col_idx)] else []) @
                (if leftmost_snap < right \<and> right < rightmost_snap then [(right, col_idx)] else []) @
                snaps) }"

definition snapping_points :: "('w, 'id) Space \<Rightarrow> Snap list option" where
  "snapping_points s =
     (if is_centering_focused_column s then centered_snaps s 0 0 (sp_columns s)
      else do {
        first \<leftarrow> vec_get (sp_columns s) 0;
        nw \<leftarrow> width_at s 1;
        (leftmost_snap, _) \<leftarrow> snap_points s 0 first None nw;
        let last_col_idx = length (sp_columns s) - 1;
        last_col_x \<leftarrow> sum_widths s (take last_col_idx (sp_columns s));
        last \<leftarrow> vec_get (sp_columns s) last_col_idx;
        pw \<leftarrow> prev_width s last_col_idx;
        (_, right) \<leftarrow> snap_points s last_col_x last pw None;
        let rightmost_snap = right - sw (sp_view_size s);
        snaps \<leftarrow> column_snaps s leftmost_snap rightmost_snap 0 0 (sp_columns s);
        Some ((leftmost_snap, 0) # (rightmost_snap, last_col_idx) # snaps) })"

text \<open>\<^verbatim>\<open>min_by_key\<close> returns the first of the least elements.\<close>

fun min_by :: "('a \<Rightarrow> real) \<Rightarrow> 'a list \<Rightarrow> 'a option" where
  "min_by f [] = None"
| "min_by f (x # xs) =
     (case min_by f xs of None \<Rightarrow> Some x | Some y \<Rightarrow> Some (if f x \<le> f y then x else y))"

text \<open>
  From the column of the snapping point, the furthest column in the direction of the gesture that is
  still fully visible: \<open>stops\<close> says whether a column is not.
\<close>

fun furthest :: "(nat \<Rightarrow> bool option) \<Rightarrow> nat \<Rightarrow> nat list \<Rightarrow> nat option" where
  "furthest stops new_col_idx [] = Some new_col_idx"
| "furthest stops new_col_idx (i # is) =
     do { b \<leftarrow> stops i; if b then Some new_col_idx else furthest stops i is }"

definition hidden_right :: "('w, 'id) Space \<Rightarrow> real \<Rightarrow> nat \<Rightarrow> bool option" where
  "hidden_right s snap_pos col_idx =
     do { col \<leftarrow> vec_get (sp_columns s) col_idx;
          col_x \<leftarrow> column_x col_idx s;
          col_w \<leftarrow> column_px_width col;
          let mode = column_sizing_mode col;
          let area = mode_area s mode;
          if is_fullscreen mode then Some (snap_pos + sw (sp_view_size s) < col_x + col_w)
          else do {
            padding \<leftarrow> (if is_maximized mode then Some 0
                        else clamp_checked 0 (space_gaps s) ((sw (r_size area) - col_w) / 2));
            Some (snap_pos + px (r_loc area) + sw (r_size area) < col_x + col_w + padding) } }"

definition hidden_left :: "('w, 'id) Space \<Rightarrow> real \<Rightarrow> nat \<Rightarrow> bool option" where
  "hidden_left s snap_pos col_idx =
     do { col \<leftarrow> vec_get (sp_columns s) col_idx;
          col_x \<leftarrow> column_x col_idx s;
          col_w \<leftarrow> column_px_width col;
          let mode = column_sizing_mode col;
          let area = mode_area s mode;
          if is_fullscreen mode then Some (col_x < snap_pos)
          else do {
            padding \<leftarrow> (if is_maximized mode then Some 0
                        else clamp_checked 0 (space_gaps s) ((sw (r_size area) - col_w) / 2));
            Some (col_x - padding < snap_pos + px (r_loc area)) } }"

text \<open>The snapping point a gesture ends at, and the column it activates.\<close>

definition gesture_snap ::
    "real \<Rightarrow> real \<Rightarrow> ('w, 'id) Space \<Rightarrow> (real \<times> nat) option" where
  "gesture_snap current_view_offset target_view_offset s =
     do { snaps \<leftarrow> snapping_points s;
          let snaps = sort_key fst snaps;
          active_col_x \<leftarrow> column_x (sp_active_column_idx s) s;
          let target_view_pos = active_col_x + target_view_offset;
          (snap_pos, col_idx) \<leftarrow> min_by (\<lambda>(p, _). \<bar>p - target_view_pos\<bar>) snaps;
          new_col_idx \<leftarrow>
            (if is_centering_focused_column s then Some col_idx
             else if target_view_offset \<ge> current_view_offset
             then furthest (hidden_right s snap_pos) col_idx [col_idx + 1 ..< length (sp_columns s)]
             else furthest (hidden_left s snap_pos) col_idx (rev [0 ..< col_idx]));
          Some (snap_pos, new_col_idx) }"

definition view_offset_gesture_end ::
    "('w, 'id) LayoutEnv \<Rightarrow> bool option \<Rightarrow> ('w, 'id) Space \<Rightarrow> (bool \<times> ('w, 'id) Space) option" where
  "view_offset_gesture_end E is_touchpad s =
     (case sp_view_offset s of
        VGesture g \<Rightarrow>
          if (case is_touchpad of None \<Rightarrow> False | Some x \<Rightarrow> vg_is_touchpad g \<noteq> x) then Some (False, s)
          else do {
            tr \<leftarrow> swipe_push 0 (av_now_unadjusted (le_anim E)) (vg_tracker g);
            let norm_factor = gesture_norm_factor s g;
            vel \<leftarrow> swipe_velocity tr;
            let velocity = vel * norm_factor;
            let pos = sw_pos tr * norm_factor;
            let current_view_offset = pos + vg_delta_from_tracker g;
            if sp_columns s = []
            then Some (True, s\<lparr>sp_view_offset := VStatic current_view_offset\<rparr>)
            else do {
              end_pos \<leftarrow> swipe_projected_end_pos tr;
              let target_view_offset = end_pos * norm_factor + vg_delta_from_tracker g;
              (snap_pos, new_col_idx) \<leftarrow> gesture_snap current_view_offset target_view_offset s;
              active_col_x \<leftarrow> column_x (sp_active_column_idx s) s;
              new_col_x \<leftarrow> column_x new_col_idx s;
              let delta = active_col_x - new_col_x;
              let s = (if sp_active_column_idx s \<noteq> new_col_idx
                       then s\<lparr>sp_view_offset_to_restore := None\<rparr> else s);
              let s = s\<lparr>sp_active_column_idx := new_col_idx\<rparr>;
              a \<leftarrow> anim_new (le_anim E) (current_view_offset + delta) (snap_pos - new_col_x) velocity
                     (view_movement_config s);
              s \<leftarrow> animate_view_offset_to_column E None new_col_idx None (s\<lparr>sp_view_offset := VAnimation a\<rparr>);
              Some (True, s) } }
      | _ \<Rightarrow> Some (False, s))"

definition dnd_scroll_gesture_end ::
    "('w, 'id) LayoutEnv \<Rightarrow> ('w, 'id) Space \<Rightarrow> ('w, 'id) Space option" where
  "dnd_scroll_gesture_end E s =
     (case sp_view_offset s of
        VGesture g \<Rightarrow>
          if vg_dnd_last_event_time g \<noteq> None \<and> sw_pos (vg_tracker g) = 0
          then do {
            let s = s\<lparr>sp_view_offset :=
                       (case vg_animation g of
                          Some anim \<Rightarrow> VAnimation (anim_offset (vg_current_view_offset g) anim)
                        | None \<Rightarrow> VStatic (vg_delta_from_tracker g))\<rparr>;
            if sp_columns s \<noteq> []
            then animate_view_offset_to_column E None (sp_active_column_idx s) None s
            else Some s }
          else map_option snd (view_offset_gesture_end E None s)
      | _ \<Rightarrow> Some s)"

section \<open>Inserting a dragged window\<close>

definition insert_position ::
    "('w, 'id) LayoutEnv \<Rightarrow> Point \<Rightarrow> ('w, 'id) Space \<Rightarrow> InsertPosition option" where
  "insert_position E pos s =
     (if sp_columns s = [] then Some (NewColumn 0)
      else do {
        vp \<leftarrow> view_pos E s;
        let x = px pos + vp + space_gaps s / 2;
        let y = py pos + space_gaps s / 2;
        if x < 0 then Some (NewColumn 0)
        else do {
          let xs = enumerate 0 (column_xs s);
          (closest_col_idx, col_x) \<leftarrow> min_by (\<lambda>(_, col_x). \<bar>col_x - x\<bar>) xs;
          let before = takeWhile (\<lambda>(_, col_x). col_x \<le> x) xs;
          let col_idx = (if before = [] then 0 else fst (last before));
          if col_idx = length (sp_columns s) then Some (NewColumn closest_col_idx)
          else do {
            col \<leftarrow> vec_get (sp_columns s) col_idx;
            (closest_tile_idx, tile_y) \<leftarrow>
              (if is_tabbed col
               then do {
                 top \<leftarrow> tile_offset (c_active_tile_idx col) col;
                 d \<leftarrow> vec_get (c_data col) (c_active_tile_idx col);
                 let bottom = py top + sh (td_size d);
                 Some (if \<bar>py top - y\<bar> \<le> \<bar>bottom - y\<bar> then (c_active_tile_idx col, py top)
                       else (c_active_tile_idx col + 1, bottom)) }
               else min_by (\<lambda>(_, tile_y). \<bar>tile_y - y\<bar>) (enumerate 0 (map py (tile_offsets col))));
            let vert_dist = \<bar>col_x - x\<bar>;
            let hor_dist = \<bar>tile_y - y\<bar>;
            Some (if vert_dist \<le> hor_dist then NewColumn closest_col_idx
                  else InColumn col_idx closest_tile_idx) } } })"

text \<open>
  The outer option is a panic; the inner one is \<^verbatim>\<open>None\<close> of the code. In a column, an index equal to the
  number of columns passes the range check and the indexing panics.
\<close>

definition insert_hint_area ::
    "('w, 'id) LayoutEnv \<Rightarrow> InsertPosition \<Rightarrow> ('w, 'id) Space \<Rightarrow> Rect option option" where
  "insert_hint_area E position s =
     do { area \<leftarrow>
            (case position of
               NewColumn column_index \<Rightarrow>
                 (let size = \<lparr>sw = 300, sh = sh (r_size (sp_working_area s)) - space_gaps s * 2\<rparr>;
                      y = py (r_loc (sp_working_area s)) + space_gaps s
                  in if column_index = 0 \<or> column_index = length (sp_columns s)
                     then do {
                       x \<leftarrow> column_x column_index s;
                       let x = (if column_index = 0 \<and> sp_columns s \<noteq> [] then x - (sw size + space_gaps s)
                                else x);
                       Some (Some \<lparr>r_loc = \<lparr>px = x, py = y\<rparr>, r_size = size\<rparr>) }
                     else if column_index > length (sp_columns s) then Some None
                     else do {
                       x \<leftarrow> column_x column_index s;
                       Some (Some \<lparr>r_loc = \<lparr>px = x - sw size / 2 - space_gaps s / 2, py = y\<rparr>,
                                   r_size = size\<rparr>) })
             | InColumn column_index tile_index \<Rightarrow>
                 if column_index > length (sp_columns s) then Some None
                 else do {
                   col \<leftarrow> vec_get (sp_columns s) column_index;
                   if tile_index > length (c_tiles col) then Some None
                   else do {
                     (height, y) \<leftarrow>
                       (if is_tabbed col
                        then do {
                          top \<leftarrow> tile_offset (c_active_tile_idx col) col;
                          d \<leftarrow> vec_get (c_data col) (c_active_tile_idx col);
                          let bottom = py top + sh (td_size d);
                          Some (if tile_index \<le> c_active_tile_idx col then (150, py top)
                                else (150, bottom - 150)) }
                        else do {
                          top \<leftarrow> tile_offset tile_index col;
                          Some (if tile_index = 0 then (150, py top)
                                else if tile_index = length (c_tiles col)
                                then (150, py top - space_gaps s - 150)
                                else (300, py top - space_gaps s / 2 - 150)) });
                     let extra_w = (if is_tabbed col \<and> is_normal (column_sizing_mode col)
                                    then sw (tab_extra_size (c_tab_indicator col) (length (c_tiles col))
                                               (c_scale col))
                                    else 0);
                     d \<leftarrow> vec_get (sp_data s) column_index;
                     x \<leftarrow> column_x column_index s;
                     Some (Some \<lparr>r_loc = \<lparr>px = x + px (tiles_origin col), py = y\<rparr>,
                                 r_size = \<lparr>sw = cd_width d - extra_w, sh = height\<rparr>\<rparr>) } }
             | Floating \<Rightarrow> Some None);
          (case area of
             None \<Rightarrow> Some None
           | Some area \<Rightarrow> do {
               shift \<leftarrow>
                 (if sp_columns s = []
                  then if is_centering_focused_column s
                       then compute_new_view_offset_centered (Some 0) 0 (sw (r_size area)) Normal s
                       else compute_new_view_offset_fit (Some 0) 0 (sw (r_size area)) Normal s
                  else view_pos E s);
               Some (Some (area\<lparr>r_loc := (r_loc area)\<lparr>px := px (r_loc area) - shift\<rparr>\<rparr>)) }) }"

end
