(* ===== verification/Layout_Column_Inv.thy ===== *)
theory Layout_Column_Inv
  imports Layout_Column
begin

text \<open>
  The invariant of a column (\<^verbatim>\<open>Column::verify_invariants\<close>) and why requesting the tile sizes never
  panics: the loop that distributes the height over the automatic tiles completes, whatever the
  minimum and maximum sizes of the windows are.
\<close>

section \<open>The height distribution always completes\<close>

lemma runs_map_opt_all:
  assumes "\<And>x. x \<in> set xs \<Longrightarrow> runs (f x) P"
  shows "runs (map_opt f xs) (\<lambda>ys. length ys = length xs \<and> (\<forall>y \<in> set ys. P y))"
  using assms
proof (induction xs)
  case Nil
  then show ?case by simp
next
  case (Cons x xs)
  then have "runs (f x) P" "runs (map_opt f xs) (\<lambda>ys. length ys = length xs \<and> (\<forall>y \<in> set ys. P y))"
    by simp_all
  then show ?case by (auto simp: runs_iff)
qed

abbreviation n_auto :: "WindowHeight list \<Rightarrow> nat" where
  "n_auto hs \<equiv> length (filter is_auto hs)"

abbreviation no_preset :: "WindowHeight list \<Rightarrow> bool" where
  "no_preset hs \<equiv> \<forall>h \<in> set hs. \<forall>p. h \<noteq> HPreset p"

abbreviation all_fixed :: "WindowHeight list \<Rightarrow> bool" where
  "all_fixed hs \<equiv> \<forall>h \<in> set hs. \<exists>v. h = HFixed v"

lemma all_fixed_iff: "all_fixed hs \<longleftrightarrow> no_preset hs \<and> n_auto hs = 0"
  by (induction hs) (auto, (metis is_auto.elims(3))+)

lemma n_auto_update:
  "i < length hs \<Longrightarrow> hs ! i = HAuto w \<Longrightarrow> n_auto (hs[i := HFixed v]) = n_auto hs - 1 \<and> 0 < n_auto hs"
proof (induction hs arbitrary: i)
  case Nil
  then show ?case by simp
next
  case (Cons h hs)
  then show ?case by (cases i) auto
qed

text \<open>
  What a pass finds: nothing, or an automatic tile whose minimum height is above its share.
\<close>

lemma first_short_total:
  assumes "no_preset hs" and "length tiles = length hs" and "length mins = length hs"
  shows "\<exists>r. first_short k (zip hs (zip tiles mins)) hl tw = Some r \<and>
           (\<forall>i w mn. r = Some (i, w, mn) \<longrightarrow>
              k \<le> i \<and> i - k < length hs \<and> hs ! (i - k) = HAuto w \<and> mn = mins ! (i - k))"
  using assms
proof (induction hs arbitrary: tiles mins k hl tw)
  case Nil
  then show ?case by simp
next
  case (Cons h hs)
  then obtain t ts m ms where tm: "tiles = t # ts" "mins = m # ms"
    by (metis length_Suc_conv)
  have IH: "\<exists>r. first_short (Suc k) (zip hs (zip ts ms)) hl' tw' = Some r \<and>
           (\<forall>i w mn. r = Some (i, w, mn) \<longrightarrow>
              Suc k \<le> i \<and> i - Suc k < length hs \<and> hs ! (i - Suc k) = HAuto w \<and> mn = ms ! (i - Suc k))"
    for hl' tw'
    using Cons tm by simp
  have shift: "k \<le> i \<and> i - k < length (h # hs) \<and> (h # hs) ! (i - k) = HAuto w \<and> mn = mins ! (i - k)"
    if "Suc k \<le> i \<and> i - Suc k < length hs \<and> hs ! (i - Suc k) = HAuto w \<and> mn = ms ! (i - Suc k)"
    for i w mn
  proof -
    have "i - k = Suc (i - Suc k)" using that by linarith
    then show ?thesis using that tm by simp
  qed
  show ?case
  proof (cases h)
    case (HAuto w)
    then show ?thesis
      using IH [of "hl - round_auto t (hl * (w / tw))" "tw - w"] shift tm by (auto simp: Let_def)
  next
    case (HFixed v)
    then show ?thesis using IH [of hl tw] shift tm by auto
  next
    case (HPreset p)
    then show ?thesis using Cons.prems by simp
  qed
qed

lemma fill_auto_total:
  assumes "no_preset hs" and "length tiles = length hs" and "left = n_auto hs"
  shows "\<exists>hs'. fill_auto (zip hs tiles) hl tw left = Some (hs', 0) \<and> length hs' = length hs \<and>
           all_fixed hs' \<and> (\<forall>i < length hs. \<forall>v. hs ! i = HFixed v \<longrightarrow> hs' ! i = HFixed v)"
  using assms
proof (induction hs arbitrary: tiles hl tw left)
  case Nil
  then show ?case by simp
next
  case (Cons h hs)
  then obtain t ts where t: "tiles = t # ts" by (metis length_Suc_conv)
  show ?case
  proof (cases h)
    case (HAuto w)
    let ?a = "round_auto t (hl * (w / tw))"
    obtain hs' where "fill_auto (zip hs ts) (hl - ?a) (tw - w) (left - 1) = Some (hs', 0)"
      "length hs' = length hs" "all_fixed hs'" "\<forall>i < length hs. \<forall>v. hs ! i = HFixed v \<longrightarrow> hs' ! i = HFixed v"
      using Cons.IH [of ts "left - 1" "hl - ?a" "tw - w"] Cons.prems t HAuto by auto
    then show ?thesis using HAuto t Cons.prems
      by (intro exI [of _ "HFixed ?a # hs'"]) (auto simp: Let_def less_Suc_eq_0_disj)
  next
    case (HFixed v)
    obtain hs' where "fill_auto (zip hs ts) hl tw left = Some (hs', 0)"
      "length hs' = length hs" "all_fixed hs'" "\<forall>i < length hs. \<forall>v. hs ! i = HFixed v \<longrightarrow> hs' ! i = HFixed v"
      using Cons.IH [of ts left hl tw] Cons.prems t HFixed by auto
    then show ?thesis using HFixed t
      by (intro exI [of _ "HFixed v # hs'"]) (auto simp: less_Suc_eq_0_disj)
  next
    case (HPreset p)
    then show ?thesis using Cons.prems by simp
  qed
qed

lemma distribute_total:
  assumes "no_preset hs" and "length tiles = length hs" and "length mins = length hs"
    and "n_auto hs = left"
  shows "\<exists>hs'. distribute left tiles mins hs hl tw = Some hs' \<and> length hs' = length hs \<and>
           all_fixed hs' \<and> (\<forall>i < length hs. \<forall>v. hs ! i = HFixed v \<longrightarrow> hs' ! i = HFixed v)"
  using assms
proof (induction left arbitrary: hs hl tw)
  case 0
  then show ?case using all_fixed_iff [of hs] by auto
next
  case (Suc left)
  obtain r where r: "first_short 0 (zip hs (zip tiles mins)) hl tw = Some r"
    "\<forall>i w mn. r = Some (i, w, mn) \<longrightarrow> i < length hs \<and> hs ! i = HAuto w \<and> mn = mins ! i"
    using first_short_total [OF Suc.prems(1-3), of 0 hl tw] by auto
  show ?case
  proof (cases r)
    case None
    obtain hs' where "fill_auto (zip hs tiles) hl tw (Suc left) = Some (hs', 0)"
      "length hs' = length hs" "all_fixed hs'" "\<forall>i < length hs. \<forall>v. hs ! i = HFixed v \<longrightarrow> hs' ! i = HFixed v"
      using fill_auto_total [OF Suc.prems(1,2), of "Suc left" hl tw] Suc.prems(4) by auto
    then show ?thesis using r None by auto
  next
    case (Some x)
    obtain i w mn where x: "x = (i, w, mn)" by (cases x)
    with r Some have i: "i < length hs" "hs ! i = HAuto w" by auto
    let ?hs = "hs[i := HFixed mn]"
    have "no_preset ?hs"
      using Suc.prems(1) by (auto dest!: set_update_subset_insert [THEN subsetD])
    moreover have "n_auto ?hs = left" using n_auto_update [OF i, of mn] Suc.prems(4) by simp
    ultimately obtain hs' where hs': "distribute left tiles mins ?hs (hl - mn) (tw - w) = Some hs'"
      "length hs' = length hs" "all_fixed hs'"
      "\<forall>j < length hs. \<forall>v. ?hs ! j = HFixed v \<longrightarrow> hs' ! j = HFixed v"
      using Suc.IH [of ?hs "hl - mn" "tw - w"] Suc.prems by auto
    have "\<forall>j < length hs. \<forall>v. hs ! j = HFixed v \<longrightarrow> hs' ! j = HFixed v"
      using hs'(4) i by (metis WindowHeight.distinct(1) nth_list_update_neq)
    with hs' r Some x show ?thesis by auto
  qed
qed

lemma subtract_fixed_total:
  assumes "no_preset hs" and "length mn = length hs" and "length mx = length hs" and "length hs \<le> left"
  shows "\<exists>hs' r. subtract_fixed (zip hs (zip mn mx)) hl left = Some (hs', r, left - (length hs - n_auto hs')) \<and>
           length hs' = length hs \<and> no_preset hs'"
  using assms
proof (induction hs arbitrary: mn mx hl left)
  case Nil
  then show ?case by simp
next
  case (Cons h hs)
  then obtain a mn' b mx' where m: "mn = a # mn'" "mx = b # mx'" by (metis length_Suc_conv)
  have le: "n_auto xs \<le> length xs" for xs by simp
  define h' where "h' = (if sh a = sh b then HFixed (sh a) else h)"
  have eq: "subtract_fixed (zip (h # hs) (zip mn mx)) hl left =
      (case h' of HFixed v \<Rightarrow>
             if left = 0 then None
             else let v = (if sh b > 0 then min v (sh b) else v); v = max v (sh a)
               in map_option (\<lambda>(hs, r). (HFixed v # hs, r)) (subtract_fixed (zip hs (zip mn' mx')) (hl - v) (left - 1))
         | _ \<Rightarrow> map_option (\<lambda>(hs, r). (h' # hs, r)) (subtract_fixed (zip hs (zip mn' mx')) hl left))"
    by (cases "sh a = sh b"; cases h; simp add: m h'_def Let_def)
  show ?case
  proof (cases h')
    case (HFixed v)
    define v' where "v' = max (if sh b > 0 then min v (sh b) else v) (sh a)"
    have "length hs \<le> left - 1" using Cons.prems(4) by simp
    with Cons.IH [of mn' mx' "left - 1" "hl - v'"] Cons.prems m obtain hs' r where
      IH: "subtract_fixed (zip hs (zip mn' mx')) (hl - v') (left - 1) =
         Some (hs', r, left - 1 - (length hs - n_auto hs'))" "length hs' = length hs" "no_preset hs'" by auto
    have "left \<noteq> 0" using Cons.prems by simp
    moreover have "left - 1 - (length hs - n_auto hs') = left - (length (h # hs) - n_auto (HFixed v' # hs'))"
      using Cons.prems(4) le [of hs'] IH(2) by simp
    ultimately have "subtract_fixed (zip (h # hs) (zip mn mx)) hl left =
        Some (HFixed v' # hs', r, left - (length (h # hs) - n_auto (HFixed v' # hs')))"
      by (simp only: eq HFixed WindowHeight.case if_False Let_def v'_def [symmetric] IH(1) option.map prod.case)
    with IH show ?thesis by (intro exI [of _ "HFixed v' # hs'"] exI [of _ r]) simp
  next
    case (HAuto w)
    from Cons.IH [of mn' mx' left hl] Cons.prems m obtain hs' r where
      IH: "subtract_fixed (zip hs (zip mn' mx')) hl left =
         Some (hs', r, left - (length hs - n_auto hs'))" "length hs' = length hs" "no_preset hs'" by auto
    have "left - (length hs - n_auto hs') = left - (length (h # hs) - n_auto (HAuto w # hs'))"
      by simp
    then have "subtract_fixed (zip (h # hs) (zip mn mx)) hl left =
        Some (HAuto w # hs', r, left - (length (h # hs) - n_auto (HAuto w # hs')))"
      by (simp only: eq HAuto WindowHeight.case IH(1) option.map prod.case)
    with IH show ?thesis by (intro exI [of _ "HAuto w # hs'"] exI [of _ r]) simp
  next
    case (HPreset p)
    then show ?thesis using Cons.prems by (auto simp: h'_def split: if_splits)
  qed
qed


section \<open>The invariant of a column\<close>

definition td_fresh :: "('w, 'id) LayoutEnv \<Rightarrow> 'w Tile \<Rightarrow> TileData \<Rightarrow> bool" where
  "td_fresh E t d \<longleftrightarrow> td_size d = tile_size E t"

definition height_ok :: "'w Column \<Rightarrow> WindowHeight \<Rightarrow> bool" where
  "height_ok c h \<longleftrightarrow>
     (\<forall>i. h = HPreset i \<longrightarrow> i < length (lc_preset_window_heights (op_layout (c_options c))))"

definition one_sized :: "TileData list \<Rightarrow> bool" where
  "one_sized ds \<longleftrightarrow> (\<forall>i < length ds. \<forall>j < length ds.
     \<not> is_auto (td_height (ds ! i)) \<longrightarrow> \<not> is_auto (td_height (ds ! j)) \<longrightarrow> i = j)"

text \<open>The tile belongs to the column: same options, scale and view size, data up to date.\<close>

definition tile_in :: "('w, 'id) LayoutEnv \<Rightarrow> 'w Column \<Rightarrow> 'w Tile \<Rightarrow> TileData \<Rightarrow> bool" where
  "tile_in E c t d \<longleftrightarrow> tile_ok E t \<and> tl_options t = c_options c \<and> tl_scale t = c_scale c \<and>
     tl_view_size t = c_view_size c \<and> td_fresh E t d \<and> height_ok c (td_height d)"

text \<open>
  What \<^verbatim>\<open>Column::verify_invariants\<close> asserts, in layers: \<open>column_parts\<close>, which an empty column
  under construction satisfies too; \<open>column_core\<close>, all that requesting sizes relies on; \<open>column_pre\<close>, in addition only a single or tabbed window may be expanded; and
  \<open>column_inv\<close>, in addition every tile was asked for the pending sizing mode. The cached size of a
  tile must be up to date; the cached flag of a resize by the left edge is not part of it (see
  \<open>Layout_Scrolling\<close>).
\<close>

definition column_parts :: "('w, 'id) LayoutEnv \<Rightarrow> 'w Column \<Rightarrow> bool" where
  "column_parts E c \<longleftrightarrow>
     (\<forall>i. c_preset_width_idx c = Some i \<longrightarrow> i < length (lc_preset_column_widths (op_layout (c_options c)))) \<and>
     one_sized (c_data c) \<and> options_ok (c_options c) \<and>
     list_all2 (tile_in E c) (c_tiles c) (c_data c)"

definition column_core :: "('w, 'id) LayoutEnv \<Rightarrow> 'w Column \<Rightarrow> bool" where
  "column_core E c \<longleftrightarrow> column_parts E c \<and>
     c_tiles c \<noteq> [] \<and> c_active_tile_idx c < length (c_tiles c) \<and>
     (length (c_tiles c) = 1 \<longrightarrow> (\<forall>w. td_height (c_data c ! 0) = HAuto w \<longrightarrow> w = 1))"

lemmas column_core_defs = column_core_def column_parts_def

definition column_pre :: "('w, 'id) LayoutEnv \<Rightarrow> 'w Column \<Rightarrow> bool" where
  "column_pre E c \<longleftrightarrow> column_core E c \<and>
     (column_pending_sizing_mode c \<noteq> Normal \<longrightarrow> length (c_tiles c) = 1 \<or> is_tabbed c)"

lemmas column_pre_defs = column_pre_def column_core_defs

definition column_inv :: "('w, 'id) LayoutEnv \<Rightarrow> 'w Column \<Rightarrow> bool" where
  "column_inv E c \<longleftrightarrow> column_pre E c \<and>
     (\<forall>t \<in> set (c_tiles c). requested_as E (column_pending_sizing_mode c) t)"

lemma column_inv_pre: "column_inv E c \<Longrightarrow> column_pre E c"
  by (simp add: column_inv_def)

lemma max_opt_None [simp]: "max_opt xs = None \<longleftrightarrow> xs = []"
  by (cases xs) simp_all

lemma column_core_length: "column_core E c \<Longrightarrow> length (c_data c) = length (c_tiles c)"
  unfolding column_core_defs using list_all2_lengthD by metis

lemma column_pre_core: "column_pre E c \<Longrightarrow> column_core E c"
  by (simp add: column_pre_def)

lemmas column_pre_length = column_core_length [OF column_pre_core]

lemma initial_height_total:
  assumes "height_ok c h"
  shows "\<exists>h'. initial_height c mx t h = Some h' \<and> (\<forall>p. h' \<noteq> HPreset p)"
  using assms by (cases h) (auto simp: height_ok_def vec_get_def Let_def)

lemma max_non_auto_total:
  assumes "length (c_data c) = length (c_tiles c)"
  shows "\<exists>mx. max_non_auto_window_height E c = Some mx"
proof (cases "vec_position (\<lambda>d. \<not> is_auto (td_height d)) (c_data c)")
  case None
  then show ?thesis by (simp add: max_non_auto_window_height_def)
next
  case (Some i)
  then have "i < length (c_tiles c)" using vec_position_SomeD assms by metis
  then show ?thesis by (simp add: max_non_auto_window_height_def Some vec_get_def Let_def)
qed

lemma tabbed_heights_total:
  assumes "no_preset hs" and "mins \<noteq> []"
  shows "\<exists>hs'. tabbed_heights c mins hs = Some hs' \<and> length hs' = length hs \<and> no_preset hs'"
proof (cases "is_tabbed c")
  case True
  obtain m where "max_opt (map sh mins) = Some m"
    using max_opt_None [of "map sh mins"] assms(2) by fastforce
  with True show ?thesis by (simp add: tabbed_heights_def Let_def)
next
  case False
  with assms show ?thesis by (simp add: tabbed_heights_def)
qed

text \<open>The distribution never panics: every tile gets a height.\<close>

lemma column_heights_total:
  assumes "column_core E c"
  shows "\<exists>hs. column_heights E c = Some hs \<and> length hs = length (c_tiles c)"
proof -
  let ?n = "length (c_tiles c)"
  have len: "length (c_data c) = ?n" by (rule column_core_length [OF assms])
  have ne: "?n > 0" using assms by (simp add: column_core_defs)
  obtain mx where mx: "max_non_auto_window_height E c = Some mx"
    using max_non_auto_total [OF len] by blast
  have "runs (map_opt (\<lambda>(t, d). initial_height c mx t (td_height d)) (zip (c_tiles c) (c_data c)))
      (\<lambda>hs. length hs = length (zip (c_tiles c) (c_data c)) \<and> no_preset hs)"
  proof (rule runs_map_opt_all)
    fix td assume td: "td \<in> set (zip (c_tiles c) (c_data c))"
    obtain t d where [simp]: "td = (t, d)" by (cases td)
    have "tile_in E c t d"
      using assms td by (auto simp: column_core_defs list_all2_iff)
    then show "runs ((\<lambda>(t, d). initial_height c mx t (td_height d)) td) (\<lambda>h. \<forall>p. h \<noteq> HPreset p)"
      using initial_height_total [of c "td_height d" mx t] by (auto simp: tile_in_def)
  qed
  then obtain hs0 where hs0: "map_opt (\<lambda>(t, d). initial_height c mx t (td_height d)) (zip (c_tiles c) (c_data c)) = Some hs0"
    "length hs0 = ?n" "no_preset hs0"
    using len by (auto simp: runs_iff)
  have ms: "length (column_min_sizes E c) = ?n" "length (column_max_sizes E c) = ?n"
    by (simp_all add: column_min_sizes_def column_max_sizes_def)
  have mne: "column_min_sizes E c \<noteq> []" using ms ne by (metis length_greater_0_conv)
  obtain hs1 where hs1: "tabbed_heights c (column_min_sizes E c) hs0 = Some hs1"
    "length hs1 = ?n" "no_preset hs1"
    using tabbed_heights_total [OF hs0(3) mne] hs0(2) by auto
  obtain hs2 hl where hs2:
    "subtract_fixed (zip hs1 (zip (column_min_sizes E c) (column_max_sizes E c)))
       (sh (r_size (c_working_area c)) - opt_gaps (c_options c) * real (?n + 1)) ?n =
       Some (hs2, hl, ?n - (?n - n_auto hs2))" "length hs2 = ?n" "no_preset hs2"
  proof -
    have "length (column_min_sizes E c) = length hs1" "length (column_max_sizes E c) = length hs1"
      "length hs1 \<le> ?n" using ms hs1(2) by simp_all
    from subtract_fixed_total [OF hs1(3) this] hs1(2) show ?thesis using that by metis
  qed
  have "n_auto hs2 \<le> ?n" using hs2(2) by (metis length_filter_le)
  then have left: "?n - (?n - n_auto hs2) = n_auto hs2" by simp
  obtain hs3 where hs3: "distribute (n_auto hs2) (c_tiles c) (map sh (column_min_sizes E c)) hs2 hl
      (total_auto_weight hs2) = Some hs3" "length hs3 = ?n" "all_fixed hs3"
  proof -
    have "length (c_tiles c) = length hs2" "length (map sh (column_min_sizes E c)) = length hs2"
      using ms hs2(2) by simp_all
    from distribute_total [OF hs2(3) this refl] hs2(2) show ?thesis using that by metis
  qed
  have "runs (map_opt fixed_height hs3) (\<lambda>hs. list_all2 (\<lambda>_ _. True) hs3 hs)"
    using hs3(3) by (intro runs_map_opt) auto
  then obtain hs where "map_opt fixed_height hs3 = Some hs" "length hs = ?n"
    using hs3(2) by (auto simp: runs_iff dest: list_all2_lengthD)
  with mx hs0 hs1 hs2 hs3 show ?thesis
    by (simp add: column_heights_def Let_def left)
qed


lemma column_request_width_total:
  assumes "c_tiles c \<noteq> []"
  shows "\<exists>w. column_request_width E c = Some w"
proof -
  have "map sw (column_min_sizes E c) \<noteq> []" using assms by (simp add: column_min_sizes_def)
  then obtain m where "max_opt (map sw (column_min_sizes E c)) = Some m"
    using max_opt_None by (metis not_None_eq)
  then show ?thesis by (simp add: column_request_width_def Let_def)
qed

lemma td_fresh_frame: "tile_frame E t t' \<Longrightarrow> td_fresh E t' d = td_fresh E t d"
  by (simp add: td_fresh_def tile_size_frame)

lemma tile_in_frame: "tile_in E c t d \<Longrightarrow> tile_ok E t' \<Longrightarrow> tile_frame E t t' \<Longrightarrow> tile_in E c t' d"
  using td_fresh_frame [of E t t' d] by (simp add: tile_in_def) (simp add: tile_frame_def)

text \<open>Replacing tiles by tiles of the same frame keeps the invariant.\<close>

lemma column_sizing_mode_frame:
  "list_all2 (tile_frame E) (c_tiles c) ts \<Longrightarrow>
     column_sizing_mode (c\<lparr>c_tiles := ts\<rparr>) = column_sizing_mode c"
proof -
  assume f: "list_all2 (tile_frame E) (c_tiles c) ts"
  have "(\<exists>t \<in> set ts. tl_sizing_mode t = m) \<longleftrightarrow> (\<exists>t \<in> set (c_tiles c). tl_sizing_mode t = m)" for m
    using f unfolding tile_frame_def by (induction rule: list_all2_induct) auto
  then show ?thesis by (simp add: column_sizing_mode_def)
qed

lemma column_core_frame:
  assumes "column_core E c" and "list_all2 (\<lambda>t t'. tile_ok E t' \<and> tile_frame E t t') (c_tiles c) ts"
  shows "column_core E (c\<lparr>c_tiles := ts\<rparr>)"
proof -
  have len: "length ts = length (c_tiles c)" using assms(2) list_all2_lengthD by metis
  have "list_all2 (tile_in E c) ts (c_data c)"
    using assms unfolding column_core_defs list_all2_conv_all_nth
    by (metis len tile_in_frame)
  moreover have "tile_in E (c\<lparr>c_tiles := ts\<rparr>) = tile_in E c"
    by (simp add: fun_eq_iff tile_in_def height_ok_def)
  ultimately show ?thesis using assms(1) len by (auto simp: column_core_defs)
qed

lemma column_pre_frame:
  assumes "column_pre E c" and "list_all2 (\<lambda>t t'. tile_ok E t' \<and> tile_frame E t t') (c_tiles c) ts"
  shows "column_pre E (c\<lparr>c_tiles := ts\<rparr>)"
  using column_core_frame [OF column_pre_core [OF assms(1)] assms(2)] assms list_all2_lengthD [OF assms(2)]
  by (simp add: column_pre_def column_pending_sizing_mode_def is_tabbed_def)

text \<open>What \<open>update_tile_sizes\<close> leaves alone: everything but the requests on the windows.\<close>

definition column_requested :: "('w, 'id) LayoutEnv \<Rightarrow> 'w Column \<Rightarrow> 'w Column \<Rightarrow> bool" where
  "column_requested E c c' \<longleftrightarrow> (\<exists>ts. c' = c\<lparr>c_tiles := ts\<rparr> \<and>
     list_all2 (\<lambda>t t'. tile_ok E t' \<and> tile_frame E t t' \<and>
       requested_as E (column_pending_sizing_mode c) t') (c_tiles c) ts)"

lemma column_requestedI:
  assumes "length ts = length (c_tiles c)"
    and "\<And>i. i < length (c_tiles c) \<Longrightarrow> tile_ok E (ts ! i) \<and> tile_frame E (c_tiles c ! i) (ts ! i) \<and>
           requested_as E (column_pending_sizing_mode c) (ts ! i)"
  shows "column_requested E c (c\<lparr>c_tiles := ts\<rparr>)"
  unfolding column_requested_def list_all2_conv_all_nth
  using assms by (intro exI [of _ ts]) simp

context layout_element
begin

lemma pending_mode_simps [simp]:
  "column_pending_sizing_mode (c\<lparr>c_tiles := ts\<rparr>) = column_pending_sizing_mode c"
  "column_pending_sizing_mode (c\<lparr>c_data := ds\<rparr>) = column_pending_sizing_mode c"
  "column_pending_sizing_mode (c\<lparr>c_active_tile_idx := i\<rparr>) = column_pending_sizing_mode c"
  "column_pending_sizing_mode (c\<lparr>c_tab_indicator := ti\<rparr>) = column_pending_sizing_mode c"
  "column_pending_sizing_mode (c\<lparr>c_move_animation := ma\<rparr>) = column_pending_sizing_mode c"
  "column_pending_sizing_mode (c\<lparr>c_preset_width_idx := pw\<rparr>) = column_pending_sizing_mode c"
  by (simp_all add: column_pending_sizing_mode_def)

lemma column_requested_inv:
  assumes "column_pre E c" and "column_requested E c c'"
  shows "column_inv E c'"
proof -
  obtain ts where ts: "c' = c\<lparr>c_tiles := ts\<rparr>"
    "list_all2 (\<lambda>t t'. tile_ok E t' \<and> tile_frame E t t' \<and>
       requested_as E (column_pending_sizing_mode c) t') (c_tiles c) ts"
    using assms(2) by (auto simp: column_requested_def)
  have "column_pre E c'"
    unfolding ts(1) by (rule column_pre_frame [OF assms(1)]) (rule list_all2_mono [OF ts(2)], simp)
  moreover have "\<forall>t \<in> set ts. requested_as E (column_pending_sizing_mode c) t"
    using ts(2) unfolding list_all2_conv_all_nth by (metis in_set_conv_nth)
  ultimately show ?thesis by (simp add: column_inv_def ts(1))
qed

lemma update_tile_sizes_requested:
  assumes "column_core E c"
  shows "runs (update_tile_sizes E an c) (column_requested E c)"
proof -
  have ok: "i < length (c_tiles c) \<Longrightarrow> tile_ok E (c_tiles c ! i)" for i
    using assms by (auto simp: column_core_defs list_all2_conv_all_nth tile_in_def)
  show ?thesis
  proof (cases "column_pending_sizing_mode c")
    case Fullscreen
    have "column_requested E c (c\<lparr>c_tiles := map (\<lambda>(i, t). request_fullscreen E an (in_transaction c i) t)
        (enumerate 0 (c_tiles c))\<rparr>)"
      using ok requests_ok(3) by (intro column_requestedI) (simp_all add: nth_enumerate_eq Fullscreen)
    with Fullscreen show ?thesis by (simp add: update_tile_sizes_def)
  next
    case Maximized
    have "column_requested E c (c\<lparr>c_tiles := map (\<lambda>(i, t). request_maximized E (r_size (c_parent_area c)) an (in_transaction c i) t)
        (enumerate 0 (c_tiles c))\<rparr>)"
      using ok requests_ok(2) by (intro column_requestedI) (simp_all add: nth_enumerate_eq Maximized)
    with Maximized show ?thesis by (simp add: update_tile_sizes_def)
  next
    case Normal
    obtain w where w: "column_request_width E c = Some w"
      using column_request_width_total [of c E] assms by (auto simp: column_core_defs)
    obtain hs where hs: "column_heights E c = Some hs" "length hs = length (c_tiles c)"
      using column_heights_total [OF assms] by blast
    have "column_requested E c (c\<lparr>c_tiles := map (\<lambda>(i, t, h). request_tile_size E \<lparr>sw = w, sh = h\<rparr> an
        (in_transaction c i) t) (enumerate 0 (zip (c_tiles c) hs))\<rparr>)"
      using ok requests_ok(1) hs(2) by (intro column_requestedI) (simp_all add: nth_enumerate_eq Normal)
    with Normal w hs show ?thesis by (simp add: update_tile_sizes_def)
  qed
qed

lemma update_tile_sizes_ok:
  assumes "column_pre E c"
  shows "runs (update_tile_sizes E an c) (\<lambda>c'. column_inv E c' \<and> column_requested E c c')"
  by (rule runs_mono [OF update_tile_sizes_requested [OF column_pre_core [OF assms]]])
     (simp add: column_requested_inv [OF assms])

end

end
