(* ===== verification/Layout_Column_Ops.thy ===== *)
theory Layout_Column_Ops
  imports Layout_Column_Inv "HOL-Library.Multiset"
begin

text \<open>
  Every operation of a column runs without a panic, keeps the invariant and the windows of the
  column, for every implementation of the element interface.
\<close>

section \<open>Every operation keeps the invariant\<close>

lemma runs_map_opt_nth:
  assumes "\<And>i. i < length xs \<Longrightarrow> runs (f (xs ! i)) (P i)"
  shows "runs (map_opt f xs) (\<lambda>ys. length ys = length xs \<and> (\<forall>i < length xs. P i (ys ! i)))"
  using assms
proof (induction xs arbitrary: P)
  case Nil
  then show ?case by simp
next
  case (Cons x xs)
  have "runs (f x) (P 0)" using Cons.prems [of 0] by simp
  moreover have "runs (map_opt f xs) (\<lambda>ys. length ys = length xs \<and> (\<forall>i < length xs. P (Suc i) (ys ! i)))"
    using Cons.prems [of "Suc i" for i] by (intro Cons.IH) simp
  ultimately show ?case by (auto simp: runs_iff less_Suc_eq_0_disj)
qed

abbreviation column_ids :: "('w, 'id) LayoutEnv \<Rightarrow> 'w Column \<Rightarrow> 'id list" where
  "column_ids E c \<equiv> map (\<lambda>t. el_id E (tl_window t)) (c_tiles c)"

text \<open>What the width of a column depends on.\<close>

lemma max_opt_mset:
  assumes "mset xs = mset ys"
  shows "max_opt xs = max_opt ys"
proof -
  have fold: "foldl max a zs = Max (insert a (set zs))" for a :: real and zs
  proof (induction zs arbitrary: a)
    case Nil
    then show ?case by simp
  next
    case (Cons z zs)
    then show ?case by (cases "set zs = {}") (simp_all add: max.assoc)
  qed
  have "max_opt zs = (if zs = [] then None else Some (Max (set zs)))" for zs
    by (cases zs) (simp_all add: fold)
  then show ?thesis using assms mset_eq_setD [OF assms] by (metis mset_zero_iff)
qed

lemma column_px_width_cong:
  assumes "mset (map (\<lambda>d. sw (td_size d)) (c_data c')) = mset (map (\<lambda>d. sw (td_size d)) (c_data c))"
    and "c_display_mode c' = c_display_mode c" and "column_sizing_mode c' = column_sizing_mode c"
    and "ti_config (c_tab_indicator c') = ti_config (c_tab_indicator c)"
    and "length (c_tiles c') = length (c_tiles c)" and "c_scale c' = c_scale c"
  shows "column_px_width c' = column_px_width c"
proof -
  have "tab_extra_size (c_tab_indicator c') n x = tab_extra_size (c_tab_indicator c) n x" for n x
    using assms(4) by (simp add: tab_extra_size_def)
  then show ?thesis
    using assms(2-) max_opt_mset [OF assms(1)]
    by (simp only: column_px_width_def is_tabbed_def)
qed

lemma column_sizing_mode_simps [simp]:
  "column_sizing_mode (c\<lparr>c_data := ds\<rparr>) = column_sizing_mode c"
  "column_sizing_mode (c\<lparr>c_active_tile_idx := i\<rparr>) = column_sizing_mode c"
  "column_sizing_mode (c\<lparr>c_width := w\<rparr>) = column_sizing_mode c"
  "column_sizing_mode (c\<lparr>c_preset_width_idx := p\<rparr>) = column_sizing_mode c"
  "column_sizing_mode (c\<lparr>c_is_full_width := b\<rparr>) = column_sizing_mode c"
  "column_sizing_mode (c\<lparr>c_is_pending_fullscreen := b\<rparr>) = column_sizing_mode c"
  "column_sizing_mode (c\<lparr>c_is_pending_maximized := b\<rparr>) = column_sizing_mode c"
  "column_sizing_mode (c\<lparr>c_display_mode := dm\<rparr>) = column_sizing_mode c"
  "column_sizing_mode (c\<lparr>c_tab_indicator := ti\<rparr>) = column_sizing_mode c"
  "column_sizing_mode (c\<lparr>c_move_animation := ma\<rparr>) = column_sizing_mode c"
  by (simp_all add: column_sizing_mode_def)

lemma column_px_width_simps [simp]:
  "column_px_width (c\<lparr>c_active_tile_idx := i\<rparr>) = column_px_width c"
  "column_px_width (c\<lparr>c_width := w\<rparr>) = column_px_width c"
  "column_px_width (c\<lparr>c_preset_width_idx := p\<rparr>) = column_px_width c"
  "column_px_width (c\<lparr>c_is_full_width := b\<rparr>) = column_px_width c"
  "column_px_width (c\<lparr>c_is_pending_fullscreen := b\<rparr>) = column_px_width c"
  "column_px_width (c\<lparr>c_is_pending_maximized := b\<rparr>) = column_px_width c"
  "column_px_width (c\<lparr>c_move_animation := ma\<rparr>) = column_px_width c"
  by (rule column_px_width_cong; simp)+

lemma column_px_width_frame:
  "list_all2 (tile_frame E) (c_tiles c) ts \<Longrightarrow> column_px_width (c\<lparr>c_tiles := ts\<rparr>) = column_px_width c"
  using column_sizing_mode_frame [of E c ts] list_all2_lengthD [of "tile_frame E" "c_tiles c" ts]
  by (intro column_px_width_cong) simp_all

text \<open>The environment of a column, which its own operations never change. Most of them only request
  sizes and move the focus, so the width and the sizing mode stay what they were.\<close>

definition column_fixed :: "'w Column \<Rightarrow> 'w Column \<Rightarrow> bool" where
  "column_fixed c c' \<longleftrightarrow> c_options c' = c_options c \<and> c_scale c' = c_scale c \<and>
     c_view_size c' = c_view_size c \<and> c_working_area c' = c_working_area c \<and>
     c_parent_area c' = c_parent_area c"

definition column_env :: "'w Column \<Rightarrow> 'w Column \<Rightarrow> bool" where
  "column_env c c' \<longleftrightarrow> column_fixed c c' \<and>
     column_px_width c' = column_px_width c \<and> column_sizing_mode c' = column_sizing_mode c"

lemma column_fixed_refl [simp]: "column_fixed c c"
  by (simp add: column_fixed_def)

lemma column_fixed_trans: "column_fixed a b \<Longrightarrow> column_fixed b c \<Longrightarrow> column_fixed a c"
  by (simp add: column_fixed_def)

lemmas column_env_defs = column_env_def column_fixed_def

lemma column_env_refl [simp]: "column_env c c"
  by (simp add: column_env_defs)

lemma column_env_trans: "column_env a b \<Longrightarrow> column_env b c \<Longrightarrow> column_env a c"
  by (simp add: column_env_defs)

text \<open>An operation that keeps the invariant, the environment, and the windows in their order.\<close>

abbreviation column_op :: "('w, 'id) LayoutEnv \<Rightarrow> 'w Column \<Rightarrow> 'w Column \<Rightarrow> bool" where
  "column_op E c c' \<equiv> column_inv E c' \<and> column_env c c' \<and> column_ids E c' = column_ids E c"

lemma column_requested_ids:
  assumes "column_requested E c c'"
  shows "column_ids E c' = column_ids E c" and "column_env c c'" and "c_data c' = c_data c"
    and "c_active_tile_idx c' = c_active_tile_idx c" and "c_display_mode c' = c_display_mode c"
    and "column_sizing_mode c' = column_sizing_mode c"
    and "c_tab_indicator c' = c_tab_indicator c" and "length (c_tiles c') = length (c_tiles c)"
    and "c_preset_width_idx c' = c_preset_width_idx c" and "c_move_animation c' = c_move_animation c"
proof -
  obtain ts where ts: "c' = c\<lparr>c_tiles := ts\<rparr>"
    "list_all2 (\<lambda>t t'. tile_ok E t' \<and> tile_frame E t t' \<and>
       requested_as E (column_pending_sizing_mode c) t') (c_tiles c) ts"
    using assms by (auto simp: column_requested_def)
  have "length ts = length (c_tiles c)" using list_all2_lengthD [OF ts(2)] by simp
  moreover have "el_id E (tl_window (ts ! i)) = el_id E (tl_window (c_tiles c ! i))"
    if "i < length (c_tiles c)" for i
    using ts(2) that by (simp add: list_all2_conv_all_nth tile_frame_def same_look_def)
  ultimately show "column_ids E c' = column_ids E c" unfolding ts(1) by (intro nth_equalityI) simp_all
  show "column_sizing_mode c' = column_sizing_mode c"
    unfolding ts(1) by (rule column_sizing_mode_frame [of E]) (rule list_all2_mono [OF ts(2)], simp)
  show "length (c_tiles c') = length (c_tiles c)" using list_all2_lengthD [OF ts(2)] ts(1) by simp
  have "list_all2 (tile_frame E) (c_tiles c) ts" by (rule list_all2_mono [OF ts(2)]) simp
  then show "column_env c c'"
    using column_px_width_frame [of E c ts] column_sizing_mode_frame [of E c ts]
    by (simp add: column_env_defs ts(1))
qed (use assms in \<open>auto simp: column_requested_def\<close>)

lemma column_inv_same:
  assumes "column_inv E c" and "length ts = length (c_tiles c)"
    and "\<And>i. i < length (c_tiles c) \<Longrightarrow> tile_ok E (ts ! i) \<and> tile_same (c_tiles c ! i) (ts ! i)"
  shows "column_op E c (c\<lparr>c_tiles := ts\<rparr>)"
proof -
  have f: "list_all2 (\<lambda>t t'. tile_ok E t' \<and> tile_frame E t t') (c_tiles c) ts"
    using assms(2,3) tile_same_frame by (auto simp: list_all2_conv_all_nth)
  then have f': "list_all2 (tile_frame E) (c_tiles c) ts" by (rule list_all2_mono) simp
  have "\<forall>t \<in> set ts. requested_as E (column_pending_sizing_mode c) t"
  proof
    fix t assume "t \<in> set ts"
    then obtain i where "i < length ts" "t = ts ! i" by (metis in_set_conv_nth)
    with assms show "requested_as E (column_pending_sizing_mode c) t"
      by (auto simp: column_inv_def requested_as_def tile_same_def)
  qed
  moreover have "map (\<lambda>t. el_id E (tl_window t)) ts = column_ids E c"
    using assms(2,3) by (intro nth_equalityI) (auto simp: tile_same_def)
  ultimately show ?thesis
    using column_pre_frame [OF column_inv_pre [OF assms(1)] f] column_px_width_frame [OF f']
      column_sizing_mode_frame [OF f']
    by (simp add: column_inv_def column_env_defs)
qed

lemma column_invD:
  assumes "column_inv E c"
  shows "c_tiles c \<noteq> []" and "c_active_tile_idx c < length (c_tiles c)"
    and "length (c_data c) = length (c_tiles c)" and "options_ok (c_options c)"
    and "i < length (c_tiles c) \<Longrightarrow> tile_ok E (c_tiles c ! i)"
    and "i < length (c_tiles c) \<Longrightarrow> tile_in E c (c_tiles c ! i) (c_data c ! i)"
  using assms column_pre_length [OF column_inv_pre [OF assms]]
  by (auto simp: column_inv_def column_pre_defs list_all2_conv_all_nth tile_in_def)

text \<open>Fields that the invariant does not read.\<close>

lemma column_inv_cosmetic [simp]:
  "column_inv E (c\<lparr>c_move_animation := m\<rparr>) = column_inv E c"
  "column_inv E (c\<lparr>c_tab_indicator := ti\<rparr>) = column_inv E c"
  by (simp_all add: column_inv_def column_pre_defs column_pending_sizing_mode_def is_tabbed_def
      tile_in_def [abs_def] height_ok_def)

lemma update_tile_ok:
  assumes "column_inv E c" and "i < length (c_tiles c)" and "tile_ok E t" and "tile_same (c_tiles c ! i) t"
  shows "column_op E c (c\<lparr>c_tiles := (c_tiles c)[i := t]\<rparr>)"
  using assms column_invD(5) [OF assms(1)]
  by (intro column_inv_same) (auto simp: nth_list_update)

lemma column_inv_active:
  assumes "column_inv E c" and "idx < length (c_tiles c)"
  shows "column_op E c (c\<lparr>c_active_tile_idx := idx\<rparr>)"
  using assms
  by (auto simp: column_inv_def column_pre_defs column_pending_sizing_mode_def is_tabbed_def
      tile_in_def [abs_def] height_ok_def column_env_defs)

lemma column_activate_idx_ok:
  assumes "column_inv E c" and "idx < length (c_tiles c)"
  shows "runs (column_activate_idx idx c) (\<lambda>(b, c'). column_op E c c' \<and> c_active_tile_idx c' = idx)"
proof (cases "c_active_tile_idx c = idx")
  case True
  with assms show ?thesis by (simp add: column_activate_idx_def)
next
  case False
  let ?t = "ensure_alpha_animates_to_1 (c_tiles c ! idx)"
  have "column_op E c (c\<lparr>c_tiles := (c_tiles c)[idx := ?t]\<rparr>)"
    using ensure_alpha_ok column_invD(5) [OF assms(1)] assms by (intro update_tile_ok) blast+
  then have "column_op E c ((c\<lparr>c_tiles := (c_tiles c)[idx := ?t]\<rparr>)\<lparr>c_active_tile_idx := idx\<rparr>)"
    using column_inv_active [of E "c\<lparr>c_tiles := (c_tiles c)[idx := ?t]\<rparr>" idx] assms(2) column_env_trans
    by force
  then have "column_op E c (c\<lparr>c_active_tile_idx := idx, c_tiles := (c_tiles c)[idx := ?t]\<rparr>)"
    by (cases c) simp
  with False assms(2) show ?thesis by (simp add: column_activate_idx_def)
qed

lemma column_animate_move_ok:
  assumes "anim_config_ok cfg" and "column_inv E c"
  shows "runs (column_animate_move_from_with_config E d cfg c)
    (\<lambda>c'. column_op E c c' \<and> (\<exists>m. c' = c\<lparr>c_move_animation := m\<rparr>))"
  using runs_anim_new [OF assms(1), of "le_anim E" 1 0 0] assms(2)
  by (auto simp: column_animate_move_from_with_config_def column_env_defs elim!: runs_mono)

lemma tab_start_open_ok: "anim_config_ok cfg \<Longrightarrow> runs (tab_start_open_animation E cfg ti) (\<lambda>_. True)"
  using runs_anim_new [of cfg "le_anim E" 0 1 0]
  by (auto simp: tab_start_open_animation_def elim!: runs_mono)

lemma column_focus_ok:
  assumes "column_inv E c"
  shows "runs (column_focus_up c) (\<lambda>(b, c'). column_op E c c' \<and> c_active_tile_idx c' = c_active_tile_idx c - 1)"
    and "runs (column_focus_down c) (\<lambda>(b, c'). column_op E c c' \<and>
           c_active_tile_idx c' = min (c_active_tile_idx c + 1) (length (c_tiles c) - 1))"
    and "runs (column_focus_top c) (\<lambda>c'. column_op E c c' \<and> c_active_tile_idx c' = 0)"
    and "runs (column_focus_bottom c) (\<lambda>c'. column_op E c c' \<and> c_active_tile_idx c' = length (c_tiles c) - 1)"
    and "runs (column_focus_index n c) (\<lambda>c'. column_op E c c' \<and>
           c_active_tile_idx c' = min (unat n - 1) (length (c_tiles c) - 1))"
proof -
  have ne: "c_tiles c \<noteq> []" "c_active_tile_idx c < length (c_tiles c)"
    using column_invD [OF assms] by auto
  have lt: "c_active_tile_idx c - 1 < length (c_tiles c)" "0 < length (c_tiles c)"
    "min k (length (c_tiles c) - 1) < length (c_tiles c)" "length (c_tiles c) - 1 < length (c_tiles c)" for k
    using ne by (auto simp: min_def)
  note act = column_activate_idx_ok [OF assms]
  show "runs (column_focus_up c) (\<lambda>(b, c'). column_op E c c' \<and> c_active_tile_idx c' = c_active_tile_idx c - 1)"
    unfolding column_focus_up_def by (rule act [OF lt(1)])
  show "runs (column_focus_down c) (\<lambda>(b, c'). column_op E c c' \<and>
           c_active_tile_idx c' = min (c_active_tile_idx c + 1) (length (c_tiles c) - 1))"
    using ne act [OF lt(3)] by (simp add: column_focus_down_def)
  show "runs (column_focus_top c) (\<lambda>c'. column_op E c c' \<and> c_active_tile_idx c' = 0)"
    using act [OF lt(2)] by (simp add: column_focus_top_def case_prod_unfold)
  show "runs (column_focus_bottom c) (\<lambda>c'. column_op E c c' \<and> c_active_tile_idx c' = length (c_tiles c) - 1)"
    using ne act [OF lt(4)] by (simp add: column_focus_bottom_def case_prod_unfold)
  show "runs (column_focus_index n c) (\<lambda>c'. column_op E c c' \<and>
           c_active_tile_idx c' = min (unat n - 1) (length (c_tiles c) - 1))"
    using ne act [OF lt(3)] by (simp add: column_focus_index_def case_prod_unfold)
qed

subsection \<open>Moving a tile within its column\<close>

lemma length_offsets_from [simp]: "length (offsets_from ce ta g w p ds) = length ds"
  by (induction ce ta g w p ds rule: offsets_from.induct) (simp_all add: Let_def)

lemma length_tile_offsets [simp]: "length (tile_offsets c) = length (c_data c) + 1"
  by (simp add: tile_offsets_def Let_def)

abbreviation swapped :: "nat \<Rightarrow> nat \<Rightarrow> 'a list \<Rightarrow> 'a list" where
  "swapped i j xs \<equiv> xs[i := xs ! j, j := xs ! i]"

lemma swapped_nth:
  "i < length xs \<Longrightarrow> j < length xs \<Longrightarrow> k < length xs \<Longrightarrow>
     swapped i j xs ! k = xs ! (if k = j then i else if k = i then j else k)"
  by (simp add: nth_list_update)

lemma one_sized_swapped:
  assumes "one_sized ds" and "i < length ds" and "j < length ds"
  shows "one_sized (swapped i j ds)"
  unfolding one_sized_def
proof (intro allI impI)
  fix a b
  let ?s = "\<lambda>k. if k = j then i else if k = i then j else k"
  assume ab: "a < length (swapped i j ds)" "b < length (swapped i j ds)"
    "\<not> is_auto (td_height (swapped i j ds ! a))" "\<not> is_auto (td_height (swapped i j ds ! b))"
  then have "?s a = ?s b"
    using assms(1) unfolding one_sized_def
    by (auto simp: swapped_nth assms(2,3) intro!: assms(2,3))
  then show "a = b" by (auto split: if_splits)
qed

lemma column_swap_ok:
  assumes "column_inv E c" and "j < length (c_tiles c)"
  shows "runs (column_swap_active j c) (\<lambda>c'. column_inv E c' \<and> column_env c c' \<and>
     c_active_tile_idx c' = j \<and> column_ids E c' = swapped (c_active_tile_idx c) j (column_ids E c))"
proof -
  let ?i = "c_active_tile_idx c"
  note D = column_invD [OF assms(1)]
  let ?c = "c\<lparr>c_tiles := swapped ?i j (c_tiles c), c_data := swapped ?i j (c_data c), c_active_tile_idx := j\<rparr>"
  have same: "tile_in E ?c = tile_in E c" by (simp add: fun_eq_iff tile_in_def height_ok_def)
  have "list_all2 (tile_in E ?c) (swapped ?i j (c_tiles c)) (swapped ?i j (c_data c))"
    unfolding same list_all2_conv_all_nth
    using D assms(2) by (auto simp: swapped_nth)
  moreover have "one_sized (swapped ?i j (c_data c))"
    using assms D by (intro one_sized_swapped) (auto simp: column_inv_def column_pre_defs)
  moreover have "length (c_tiles c) = 1 \<Longrightarrow> swapped ?i j (c_data c) = c_data c"
    using D assms(2) by (cases "c_data c") auto
  moreover have "set (swapped ?i j (c_tiles c)) = set (c_tiles c)"
    using D(2) assms(2) by (rule set_swap)
  ultimately have inv: "column_inv E ?c" and sm: "column_sizing_mode ?c = column_sizing_mode c"
    using assms by (auto simp: column_inv_def column_pre_defs column_pending_sizing_mode_def is_tabbed_def
        column_sizing_mode_def)
  have "mset (map (\<lambda>d. sw (td_size d)) (swapped ?i j (c_data c))) = mset (map (\<lambda>d. sw (td_size d)) (c_data c))"
    using D(2,3) assms(2) by (simp only: mset_map) (subst mset_swap, simp_all)
  then have "column_px_width ?c = column_px_width c"
    using sm by (intro column_px_width_cong) simp_all
  moreover have "column_ids E ?c = swapped ?i j (column_ids E c)"
    using D(2) assms(2) by (simp add: map_update)
  ultimately show ?thesis
    using D assms(2) inv sm by (simp add: column_swap_active_def column_env_defs)
qed

lemma animate_tile_y_ok:
  assumes "column_inv E c" and "i < length (c_tiles c)"
  shows "runs (animate_tile_y E i f c) (\<lambda>c'. column_op E c c' \<and>
     c_active_tile_idx c' = c_active_tile_idx c \<and> c_data c' = c_data c)"
  using animate_move_y_from_ok [OF column_invD(5) [OF assms], of f] update_tile_ok [OF assms] assms(2)
  by (auto simp: animate_tile_y_def elim!: runs_mono)

lemma column_move_ok:
  assumes "column_inv E c"
  shows "runs (column_move_up E c) (\<lambda>(b, c'). column_inv E c' \<and> column_env c c' \<and>
      (b \<longleftrightarrow> 0 < c_active_tile_idx c) \<and> c_active_tile_idx c' = c_active_tile_idx c - 1 \<and>
      column_ids E c' = swapped (c_active_tile_idx c) (c_active_tile_idx c - 1) (column_ids E c))"
    and "runs (column_move_down E c) (\<lambda>(b, c'). column_inv E c' \<and> column_env c c' \<and>
      (b \<longleftrightarrow> c_active_tile_idx c + 1 < length (c_tiles c)) \<and>
      c_active_tile_idx c' = min (c_active_tile_idx c + 1) (length (c_tiles c) - 1) \<and>
      column_ids E c' = swapped (c_active_tile_idx c) (min (c_active_tile_idx c + 1) (length (c_tiles c) - 1))
        (column_ids E c))"
proof -
  let ?i = "c_active_tile_idx c"
  note D = column_invD [OF assms]
  have step: "runs (do { c \<leftarrow> column_swap_active j c;
         new_active \<leftarrow> tile_offset j c;
         c \<leftarrow> animate_tile_y E j (f new_active) c;
         c \<leftarrow> animate_tile_y E k g c;
         Some (True, c) })
      (\<lambda>(b, c'). column_inv E c' \<and> column_env c c' \<and> b \<and> c_active_tile_idx c' = j \<and>
        column_ids E c' = swapped ?i j (column_ids E c))"
    if jk: "j < length (c_tiles c)" "k < length (c_tiles c)" for j k f g
  proof -
    have "runs (column_swap_active j c) (\<lambda>c1. column_inv E c1 \<and> column_env c c1 \<and>
       c_active_tile_idx c1 = j \<and> column_ids E c1 = swapped ?i j (column_ids E c))"
      by (rule column_swap_ok [OF assms jk(1)])
    then obtain c1 where c1: "column_swap_active j c = Some c1" "column_inv E c1" "column_env c c1"
       "c_active_tile_idx c1 = j" "column_ids E c1 = swapped ?i j (column_ids E c)"
      by (auto simp: runs_iff)
    have len1: "length (c_tiles c1) = length (c_tiles c)"
      using arg_cong [OF c1(5), of length] by simp
    obtain p where p: "tile_offset j c1 = Some p"
      using column_invD(3) [OF c1(2)] len1 jk(1) by (auto simp: tile_offset_def vec_get_def)
    obtain c2 where c2: "animate_tile_y E j (f p) c1 = Some c2" "column_op E c1 c2"
      "c_active_tile_idx c2 = j"
      using animate_tile_y_ok [OF c1(2), of j "f p"] jk len1 c1(4) by (auto simp: runs_iff)
    have len2: "length (c_tiles c2) = length (c_tiles c)"
      using c2(2) len1 by (metis length_map)
    obtain c3 where c3: "animate_tile_y E k g c2 = Some c3" "column_op E c2 c3" "c_active_tile_idx c3 = j"
      using animate_tile_y_ok [of E c2 k g] c2 jk len2 by (auto simp: runs_iff)
    show ?thesis
      using c1 p c2 c3 column_env_trans by simp blast
  qed
  have off: "vec_get (tile_offsets c) ?i \<noteq> None" "vec_get (tile_offsets c) (Suc ?i) \<noteq> None"
    using D by (simp_all add: vec_get_def)
  have nil: "swapped ?i ?i (column_ids E c) = column_ids E c" by simp
  show "runs (column_move_up E c) (\<lambda>(b, c'). column_inv E c' \<and> column_env c c' \<and>
      (b \<longleftrightarrow> 0 < ?i) \<and> c_active_tile_idx c' = ?i - 1 \<and>
      column_ids E c' = swapped ?i (?i - 1) (column_ids E c))"
  proof (cases "?i = 0")
    case True
    then show ?thesis using assms nil by (simp add: column_move_up_def Let_def)
  next
    case False
    then show ?thesis
      using off step [of "?i - 1" "?i - 1 + 1"] D(2,3)
      by (auto simp: column_move_up_def Let_def elim!: runs_mono)
  qed
  show "runs (column_move_down E c) (\<lambda>(b, c'). column_inv E c' \<and> column_env c c' \<and>
      (b \<longleftrightarrow> ?i + 1 < length (c_tiles c)) \<and> c_active_tile_idx c' = min (?i + 1) (length (c_tiles c) - 1) \<and>
      column_ids E c' = swapped ?i (min (?i + 1) (length (c_tiles c) - 1)) (column_ids E c))"
  proof (cases "?i + 1 < length (c_tiles c)")
    case False
    then have "min (?i + 1) (length (c_tiles c) - 1) = ?i" using D(2) by simp
    then show ?thesis using assms nil False D(1) by (simp add: column_move_down_def Let_def)
  next
    case True
    then have m: "min (?i + 1) (length (c_tiles c) - 1) = ?i + 1" by simp
    then show ?thesis
      using off step [of "?i + 1" "?i + 1 - 1"] D(1,2,3) True
      by (auto simp: column_move_down_def Let_def elim!: runs_mono)
  qed
qed

subsection \<open>Widths and heights\<close>

lemma set_presets_ok:
  "options_ok (c_options c) \<Longrightarrow>
     0 < length (lc_preset_column_widths (op_layout (c_options c))) \<and>
     0 < length (lc_preset_window_heights (op_layout (c_options c)))"
  by (simp add: options_ok_def)

context layout_element
begin

text \<open>An operation that ends in \<open>update_tile_sizes\<close>.\<close>

lemma then_update_sizes:
  assumes "column_pre E c1" and "column_env c c1" and "column_ids E c1 = column_ids E c"
  shows "runs (update_tile_sizes E an c1) (\<lambda>c'. column_op E c c' \<and>
     c_data c' = c_data c1 \<and> c_active_tile_idx c' = c_active_tile_idx c1)"
proof (rule runs_mono [OF update_tile_sizes_ok [OF assms(1)]])
  fix c'
  assume "column_inv E c' \<and> column_requested E c1 c'"
  then show "column_op E c c' \<and> c_data c' = c_data c1 \<and> c_active_tile_idx c' = c_active_tile_idx c1"
    using column_requested_ids [of E c1 c'] column_env_trans [OF assms(2)] assms(3) by auto
qed

text \<open>Changing the width bookkeeping or leaving the maximized state keeps \<open>column_pre\<close>.\<close>

lemma column_pre_width:
  assumes "column_pre E c"
  shows "column_pre E (c\<lparr>c_width := w, c_preset_width_idx := None, c_is_full_width := f,
           c_is_pending_maximized := False\<rparr>)"
    and "column_pre E (c\<lparr>c_is_pending_maximized := False\<rparr>)"
    and "column_pre E (c\<lparr>c_is_full_width := f\<rparr>)"
    and "i < length (lc_preset_column_widths (op_layout (c_options c))) \<Longrightarrow>
           column_pre E (c\<lparr>c_preset_width_idx := Some i\<rparr>)"
  using assms
  by (auto simp: column_pre_defs column_pending_sizing_mode_def is_tabbed_def tile_in_def [abs_def]
      height_ok_def split: if_splits)

lemma column_set_column_width_ok:
  assumes "column_inv E c" and "\<And>i. ti = Some i \<Longrightarrow> i < length (c_tiles c)"
  shows "runs (column_set_column_width E ch ti an c)
     (\<lambda>c'. column_op E c c' \<and> c_active_tile_idx c' = c_active_tile_idx c)"
proof -
  note D = column_invD [OF assms(1)]
  have "idx_or_active ti c < length (c_tiles c)" using assms D by (auto split: option.splits)
  then have "\<exists>w. changed_width c cur ch ti = Some w" for cur
    by (cases ch; cases cur) (simp_all add: changed_width_def vec_get_def Let_def)
  then obtain w where w: "changed_width c (if c_is_full_width c \<or> c_is_pending_maximized c then Proportion 1 else c_width c) ch ti = Some w"
    by blast
  show ?thesis
    unfolding column_set_column_width_def Let_def w
    by (simp, rule runs_mono [OF then_update_sizes [OF column_pre_width(1) [OF column_inv_pre [OF assms(1)]], of c]])
       (simp_all add: column_env_defs)
qed

lemma column_inv_preset:
  assumes "column_inv E c" and "i < length (lc_preset_column_widths (op_layout (c_options c)))"
  shows "column_op E c (c\<lparr>c_preset_width_idx := Some i\<rparr>)"
  using assms column_pre_width(4) [OF column_inv_pre [OF assms(1)] assms(2)]
  by (simp add: column_inv_def column_env_defs)

lemma column_toggle_width_ok:
  assumes "column_inv E c" and "\<And>i. ti = Some i \<Longrightarrow> i < length (c_tiles c)"
  shows "runs (column_toggle_width E ti fw c)
     (\<lambda>c'. column_op E c c' \<and> c_active_tile_idx c' = c_active_tile_idx c)"
proof -
  note D = column_invD [OF assms(1)]
  let ?ps = "lc_preset_column_widths (op_layout (c_options c))"
  have len: "0 < length ?ps" using set_presets_ok [OF D(4)] by simp
  have idx: "idx_or_active ti c < length (c_tiles c)" using assms D by (auto split: option.splits)
  let ?pick = "\<lambda>pi. (case pi of
               Some idx \<Rightarrow> if length ?ps = 0 then None
                 else Some ((idx + (if fw then 1 else length ?ps - 1)) mod length ?ps)
             | None \<Rightarrow>
                 do { t \<leftarrow> vec_get (c_tiles c) (idx_or_active ti c);
                      let current_window = sw (window_expected_or_current_size E t);
                      let current_tile = sw (tile_expected_or_current_size E t);
                      let resolved = map (resolve_preset_width c) ?ps;
                      if fw
                      then Some (case vec_position (\<lambda>r. case r of
                                         ResolvedTile v \<Rightarrow> current_tile + 1 < v
                                       | ResolvedWindow v \<Rightarrow> current_window + 1 < v) resolved of
                                   Some i \<Rightarrow> i | None \<Rightarrow> 0)
                      else (case vec_rposition (\<lambda>r. case r of
                                    ResolvedTile v \<Rightarrow> v + 1 < current_tile
                                  | ResolvedWindow v \<Rightarrow> v + 1 < current_window) resolved of
                              Some i \<Rightarrow> Some i
                            | None \<Rightarrow> if length ?ps = 0 then None else Some (length ?ps - 1)) })"
  have pick: "runs (?pick pi) (\<lambda>i. i < length ?ps)" for pi
    using len idx by (auto simp: Let_def split: option.split dest: vec_position_SomeD vec_rposition_SomeD)
  show ?thesis
    unfolding column_toggle_width_def Let_def [of "idx_or_active ti c"] Let_def [of ?ps] Let_def [of "length ?ps"]
      Let_def [of "if c_is_full_width c \<or> c_is_pending_maximized c then None else c_preset_width_idx c"] runs_bind
  proof (rule runs_mono [OF pick])
    fix i assume i: "i < length ?ps"
    have "runs (column_set_column_width E (size_change_from_preset (?ps ! i)) (Some (idx_or_active ti c)) True c)
       (\<lambda>c'. column_op E c c' \<and> c_active_tile_idx c' = c_active_tile_idx c)"
      by (rule column_set_column_width_ok [OF assms(1)]) (use idx in simp)
    then show "runs (vec_get ?ps i) (\<lambda>preset. runs (column_set_column_width E (size_change_from_preset preset)
        (Some (idx_or_active ti c)) True c) (\<lambda>c'. runs (Some (c'\<lparr>c_preset_width_idx := Some i\<rparr>))
          (\<lambda>c'. column_op E c c' \<and> c_active_tile_idx c' = c_active_tile_idx c)))"
      using i by (auto elim!: runs_mono simp: column_env_defs
          intro: column_inv_preset [THEN conjunct1])
  qed
qed

lemma column_toggle_full_width_ok:
  assumes "column_inv E c"
  shows "runs (column_toggle_full_width E c)
     (\<lambda>c'. column_op E c c' \<and> c_active_tile_idx c' = c_active_tile_idx c)"
proof -
  let ?c = "if c_is_pending_maximized c
        then c\<lparr>c_is_pending_maximized := False, c_is_full_width := False\<rparr>
        else c\<lparr>c_is_full_width := \<not> c_is_full_width c\<rparr>"
  have "column_pre E ?c" using column_pre_width(2,3) [OF column_inv_pre [OF assms]] column_pre_width(3)
    by auto
  then show ?thesis
    unfolding column_toggle_full_width_def
    by (rule runs_mono [OF then_update_sizes [of _ c]]) (auto simp: column_env_defs)
qed

end

context layout_element
begin

text \<open>Only heights change: the rest of the data stays up to date.\<close>

definition reheighted :: "TileData list \<Rightarrow> TileData list \<Rightarrow> bool" where
  "reheighted ds ds' \<longleftrightarrow> list_all2 (\<lambda>d d'. td_size d' = td_size d \<and>
     td_resizing_left d' = td_resizing_left d) ds ds'"

lemma reheighted_length: "reheighted ds ds' \<Longrightarrow> length ds' = length ds"
  unfolding reheighted_def by (rule sym) (rule list_all2_lengthD)

lemma td_fresh_reheight: "td_size d' = td_size d \<Longrightarrow> td_fresh E t d' = td_fresh E t d"
  by (simp add: td_fresh_def)

lemma column_env_reheight:
  assumes "reheighted (c_data c) ds"
  shows "column_env c (c\<lparr>c_data := ds\<rparr>)"
proof -
  have "map (\<lambda>d. sw (td_size d)) ds = map (\<lambda>d. sw (td_size d)) (c_data c)"
    using assms by (intro nth_equalityI) (auto simp: reheighted_def list_all2_conv_all_nth)
  then have "column_px_width (c\<lparr>c_data := ds\<rparr>) = column_px_width c"
    by (intro column_px_width_cong) simp_all
  then show ?thesis by (simp add: column_env_defs)
qed

lemma column_pre_reheight:
  assumes "column_pre E c" and "reheighted (c_data c) ds"
    and "\<And>i. i < length ds \<Longrightarrow> height_ok c (td_height (ds ! i))" and "one_sized ds"
    and "length (c_tiles c) = 1 \<Longrightarrow> \<forall>w. td_height (ds ! 0) = HAuto w \<longrightarrow> w = 1"
  shows "column_pre E (c\<lparr>c_data := ds\<rparr>)"
proof -
  have len: "length ds = length (c_tiles c)"
    using reheighted_length [OF assms(2)] column_pre_length [OF assms(1)] by simp
  have "tile_in E c (c_tiles c ! i) (ds ! i)" if "i < length ds" for i
  proof -
    have "td_fresh E (c_tiles c ! i) (ds ! i) = td_fresh E (c_tiles c ! i) (c_data c ! i)"
      using assms(2) that by (intro td_fresh_reheight) (auto simp: reheighted_def list_all2_conv_all_nth)
    with assms(1,3) that len show ?thesis
      by (auto simp: column_pre_defs list_all2_conv_all_nth tile_in_def)
  qed
  then have "list_all2 (tile_in E c) (c_tiles c) ds" using len by (simp add: list_all2_conv_all_nth)
  moreover have "tile_in E (c\<lparr>c_data := ds\<rparr>) = tile_in E c"
    by (simp add: fun_eq_iff tile_in_def height_ok_def)
  ultimately show ?thesis
    using assms by (auto simp: column_pre_defs is_tabbed_def)
qed

lemma convert_heights_ok:
  assumes "c_tiles c \<noteq> []" and "length (c_data c) = length (c_tiles c)"
  shows "runs (convert_heights_to_auto E c) (\<lambda>c'. \<exists>ds. c' = c\<lparr>c_data := ds\<rparr> \<and> reheighted (c_data c) ds \<and>
     (\<forall>d \<in> set ds. is_auto (td_height d)))"
proof -
  have "length (c_tiles c) div 2 < length (c_tiles c)" using assms(1) by (simp add: div_less_dividend)
  then show ?thesis
    using assms(2)
    by (auto simp: convert_heights_to_auto_def Let_def reheighted_def list_all2_conv_all_nth
        in_set_conv_nth intro!: exI)
qed

lemma start_height_change_ok:
  assumes "column_inv E c" and "i < length (c_tiles c)"
  shows "runs (start_height_change E i c) (\<lambda>c'. \<exists>ds. c' = c\<lparr>c_data := ds\<rparr> \<and> reheighted (c_data c) ds \<and>
     (\<forall>j < length ds. height_ok c (td_height (ds ! j))) \<and>
     (\<forall>j < length ds. j \<noteq> i \<longrightarrow> is_auto (td_height (ds ! j))))"
proof (cases "is_auto (td_height (c_data c ! i))")
  case True
  note D = column_invD [OF assms(1)]
  show ?thesis
    using True D(3) assms(2)
    by (auto simp: start_height_change_def intro!: runs_mono [OF convert_heights_ok [OF D(1,3)]])
       (metis height_ok_def is_auto.simps(3) nth_mem)
next
  case False
  note D = column_invD [OF assms(1)]
  have "one_sized (c_data c)" using assms(1) by (simp add: column_inv_def column_pre_defs)
  then have "\<forall>j < length (c_data c). j \<noteq> i \<longrightarrow> is_auto (td_height (c_data c ! j))"
    using False D(3) assms(2) unfolding one_sized_def by metis
  moreover have "\<forall>j < length (c_data c). height_ok c (td_height (c_data c ! j))"
    using D(3,6) by (simp add: tile_in_def)
  moreover have "reheighted (c_data c) (c_data c)"
    by (simp add: reheighted_def list_all2_conv_all_nth)
  ultimately show ?thesis
    using False D(3) assms(2) by (auto simp: start_height_change_def intro!: exI [of _ "c_data c"])
qed

text \<open>Giving one window a height that is not automatic.\<close>

lemma set_one_height:
  assumes inv: "column_inv E c" and i: "i < length (c_tiles c)"
    and ds: "reheighted (c_data c) ds" "\<forall>j < length ds. height_ok c (td_height (ds ! j))"
      "\<forall>j < length ds. j \<noteq> i \<longrightarrow> is_auto (td_height (ds ! j))"
    and h: "\<not> is_auto h" "height_ok c h"
  shows "runs (do { c \<leftarrow> set_tile_height i h (c\<lparr>c_data := ds\<rparr>);
                    update_tile_sizes E an (c\<lparr>c_is_pending_maximized := False\<rparr>) })
     (\<lambda>c'. column_op E c c' \<and> c_active_tile_idx c' = c_active_tile_idx c)"
proof -
  note D = column_invD [OF inv]
  have len: "length ds = length (c_tiles c)"
    using reheighted_length [OF ds(1)] D(3) by simp
  let ?ds = "ds[i := (ds ! i)\<lparr>td_height := h\<rparr>]"
  have re: "reheighted (c_data c) ?ds"
    using ds(1) len D(3) i by (auto simp: reheighted_def list_all2_conv_all_nth nth_list_update)
  have "column_pre E (c\<lparr>c_data := ?ds\<rparr>)"
  proof (rule column_pre_reheight [OF column_inv_pre [OF inv] re])
    show "height_ok c (td_height (?ds ! j))" if "j < length ?ds" for j
      using that ds(2) h(2) by (cases "j = i") simp_all
    show "one_sized ?ds"
      using ds(3) len i unfolding one_sized_def by (metis length_list_update nth_list_update_neq)
    show "\<forall>w. td_height (?ds ! 0) = HAuto w \<longrightarrow> w = 1" if "length (c_tiles c) = 1"
      using that i len h(1) by auto
  qed
  from column_pre_width(2) [OF this]
  have "runs (update_tile_sizes E an (c\<lparr>c_data := ?ds, c_is_pending_maximized := False\<rparr>))
     (\<lambda>c'. column_op E c c' \<and> c_active_tile_idx c' = c_active_tile_idx c)"
    using column_env_reheight [OF re]
    by - (rule runs_mono [OF then_update_sizes [of _ c]], auto simp: column_env_defs)
  then show ?thesis using i len by (simp add: set_tile_height_def)
qed

lemma column_set_window_height_ok:
  assumes "column_inv E c" and "\<And>i. ti = Some i \<Longrightarrow> i < length (c_tiles c)"
  shows "runs (column_set_window_height E ch ti an c)
     (\<lambda>c'. column_op E c c' \<and> c_active_tile_idx c' = c_active_tile_idx c)"
proof -
  note D = column_invD [OF assms(1)]
  let ?i = "idx_or_active ti c"
  have i: "?i < length (c_tiles c)" using assms D by (auto split: option.splits)
  show ?thesis
    unfolding column_set_window_height_def Let_def runs_bind
  proof (rule runs_mono [OF start_height_change_ok [OF assms(1) i]], elim exE conjE)
    fix c1 ds
    assume c1: "c1 = c\<lparr>c_data := ds\<rparr>" and ds: "reheighted (c_data c) ds"
      "\<forall>j < length ds. height_ok c (td_height (ds ! j))"
      "\<forall>j < length ds. j \<noteq> ?i \<longrightarrow> is_auto (td_height (ds ! j))"
    have len: "length ds = length (c_tiles c)"
      using reheighted_length [OF ds(1)] D(3) by simp
    show "runs (vec_get (c_data c1) ?i) (\<lambda>d. runs (vec_get (c_tiles c1) ?i) (\<lambda>t.
        runs (set_tile_height ?i (HFixed (changed_window_height E c1 ch ?i t (td_height d))) c1)
         (\<lambda>c2. runs (update_tile_sizes E an (c2\<lparr>c_is_pending_maximized := False\<rparr>))
           (\<lambda>c'. column_op E c c' \<and> c_active_tile_idx c' = c_active_tile_idx c))))"
      using set_one_height [OF assms(1) i ds, of "HFixed v" an for v] i len
      by (simp add: c1 height_ok_def)
  qed
qed

end

lemma next_height_preset_ok:
  "0 < length rs \<Longrightarrow> runs (next_height_preset fw h b cur rs) (\<lambda>p. p < length rs)"
  by (auto simp: next_height_preset_def Let_def split: option.split WindowHeight.split bool.split
      dest: vec_position_SomeD vec_rposition_SomeD)

context layout_element
begin

lemma column_toggle_window_height_ok:
  assumes "column_inv E c" and "\<And>i. ti = Some i \<Longrightarrow> i < length (c_tiles c)"
  shows "runs (column_toggle_window_height E ti fw c)
     (\<lambda>c'. column_op E c c' \<and> c_active_tile_idx c' = c_active_tile_idx c)"
proof -
  note D = column_invD [OF assms(1)]
  let ?i = "idx_or_active ti c"
  let ?ps = "lc_preset_window_heights (op_layout (c_options c))"
  have i: "?i < length (c_tiles c)" using assms D by (auto split: option.splits)
  have len: "0 < length ?ps" using set_presets_ok [OF D(4)] by simp
  show ?thesis
    unfolding column_toggle_window_height_def Let_def [of ?i] runs_bind
  proof (rule runs_mono [OF start_height_change_ok [OF assms(1) i]], elim exE conjE)
    fix c1 ds
    assume c1: "c1 = c\<lparr>c_data := ds\<rparr>" and ds: "reheighted (c_data c) ds"
      "\<forall>j < length ds. height_ok c (td_height (ds ! j))"
      "\<forall>j < length ds. j \<noteq> ?i \<longrightarrow> is_auto (td_height (ds ! j))"
    have ld: "length ds = length (c_tiles c)" using reheighted_length [OF ds(1)] D(3) by simp
    have set: "runs (set_tile_height ?i (HPreset p) c1)
         (\<lambda>c2. runs (update_tile_sizes E True (c2\<lparr>c_is_pending_maximized := False\<rparr>))
           (\<lambda>c'. column_op E c c' \<and> c_active_tile_idx c' = c_active_tile_idx c))" if "p < length ?ps" for p
      using set_one_height [OF assms(1) i ds, of "HPreset p" True] that by (simp add: c1 height_ok_def)
    show "runs (let presets = lc_preset_window_heights (op_layout (c_options c1))
      in do { d \<leftarrow> vec_get (c_data c1) ?i;
          t \<leftarrow> vec_get (c_tiles c1) ?i;
          let current = sh (td_size d);
          let resolved = map (\<lambda>preset.
                let h = (case resolve_preset_height c1 preset of
                           ResolvedTile h \<Rightarrow> window_height_for_tile_height t h
                         | ResolvedWindow h \<Rightarrow> h)
                in tile_height_for_window_height t (clampf 1 100000 (f64_round h))) presets;
          preset_idx \<leftarrow> next_height_preset fw (td_height d) (c_is_pending_maximized c1) current resolved;
          c \<leftarrow> set_tile_height ?i (HPreset preset_idx) c1;
          update_tile_sizes E True (c\<lparr>c_is_pending_maximized := False\<rparr>) })
      (\<lambda>c'. column_op E c c' \<and> c_active_tile_idx c' = c_active_tile_idx c)"
      using i ld len by (simp add: Let_def c1) (rule runs_mono [OF next_height_preset_ok], simp, use set in \<open>simp add: c1\<close>)
  qed
qed

lemma one_sized_auto_update:
  assumes "one_sized ds" shows "one_sized (ds[i := d\<lparr>td_height := auto_1\<rparr>])"
proof -
  have "\<not> is_auto (td_height (ds[i := d\<lparr>td_height := auto_1\<rparr>] ! k)) \<Longrightarrow> k < length ds \<Longrightarrow>
      \<not> is_auto (td_height (ds ! k))" for k
    by (cases "k = i") simp_all
  then show ?thesis using assms unfolding one_sized_def by simp
qed

lemma one_sized_all_auto: "one_sized (map (\<lambda>d. d\<lparr>td_height := auto_1\<rparr>) ds)"
  by (simp add: one_sized_def)

lemma column_reset_window_height_ok:
  assumes "column_inv E c" and "\<And>i. ti = Some i \<Longrightarrow> i < length (c_tiles c)"
  shows "runs (column_reset_window_height E ti c)
     (\<lambda>c'. column_op E c c' \<and> c_active_tile_idx c' = c_active_tile_idx c)"
proof -
  note D = column_invD [OF assms(1)]
  let ?i = "idx_or_active ti c"
  have i: "?i < length (c_tiles c)" using assms D by (auto split: option.splits)
  let ?ds = "if is_tabbed c then map (\<lambda>d. d\<lparr>td_height := auto_1\<rparr>) (c_data c)
             else (c_data c)[?i := (c_data c ! ?i)\<lparr>td_height := auto_1\<rparr>]"
  have "one_sized (c_data c)" using assms(1) by (simp add: column_inv_def column_pre_defs)
  then have one: "one_sized ?ds"
    using one_sized_auto_update one_sized_all_auto by auto
  have re: "reheighted (c_data c) ?ds"
    using i D(3) by (cases "is_tabbed c")
      (simp_all add: reheighted_def list_all2_conv_all_nth nth_list_update)
  have "column_pre E (c\<lparr>c_data := ?ds\<rparr>)"
  proof (rule column_pre_reheight [OF column_inv_pre [OF assms(1)] re _ one])
    show "height_ok c (td_height (?ds ! j))" if "j < length ?ds" for j
      using that i D(3,6) by (auto simp: nth_list_update tile_in_def height_ok_def split: if_splits)
    show "\<forall>w. td_height (?ds ! 0) = HAuto w \<longrightarrow> w = 1" if "length (c_tiles c) = 1"
      using that i D(3) by (cases "c_data c") auto
  qed
  then have "runs (update_tile_sizes E True (c\<lparr>c_data := ?ds\<rparr>))
     (\<lambda>c'. column_op E c c' \<and> c_active_tile_idx c' = c_active_tile_idx c)"
    by (rule runs_mono [OF then_update_sizes [OF _ column_env_reheight [OF re]]]) auto
  then show ?thesis
    using i D(3) by (simp add: column_reset_window_height_def set_tile_height_def split: if_splits)
qed

subsection \<open>Fullscreen, maximized, display mode\<close>

lemma column_set_modes_ok:
  assumes "column_inv E c"
  shows "b \<longrightarrow> length (c_tiles c) = 1 \<or> is_tabbed c \<Longrightarrow> runs (column_set_fullscreen E b c)
      (\<lambda>c'. column_op E c c' \<and> c_active_tile_idx c' = c_active_tile_idx c)"
    and "b \<longrightarrow> length (c_tiles c) = 1 \<or> is_tabbed c \<Longrightarrow> runs (column_set_maximized E b c)
      (\<lambda>c'. column_op E c c' \<and> c_active_tile_idx c' = c_active_tile_idx c)"
proof -
  have pre: "column_pre E (c\<lparr>c_is_pending_fullscreen := b\<rparr>)" "column_pre E (c\<lparr>c_is_pending_maximized := b\<rparr>)"
    if "b \<longrightarrow> length (c_tiles c) = 1 \<or> is_tabbed c"
    using column_inv_pre [OF assms] that
    by (auto simp: column_pre_defs column_pending_sizing_mode_def is_tabbed_def tile_in_def [abs_def]
        height_ok_def split: if_splits)
  note go = runs_mono [OF then_update_sizes [of _ c]]
  show "runs (column_set_fullscreen E b c)
      (\<lambda>c'. column_op E c c' \<and> c_active_tile_idx c' = c_active_tile_idx c)"
    if "b \<longrightarrow> length (c_tiles c) = 1 \<or> is_tabbed c"
    using that assms go [OF pre(1) [OF that], of True]
    by (auto simp: column_set_fullscreen_def column_env_defs)
  show "runs (column_set_maximized E b c)
      (\<lambda>c'. column_op E c c' \<and> c_active_tile_idx c' = c_active_tile_idx c)"
    if "b \<longrightarrow> length (c_tiles c) = 1 \<or> is_tabbed c"
    using that assms go [OF pre(2) [OF that], of True]
    by (auto simp: column_set_maximized_def column_env_defs)
qed

end

section \<open>Operations that change what the column shows\<close>

lemma column_px_width_tab [simp]:
  "ti_config ti = ti_config (c_tab_indicator c) \<Longrightarrow> column_px_width (c\<lparr>c_tab_indicator := ti\<rparr>) = column_px_width c"
  by (rule column_px_width_cong) simp_all

lemma tab_advance_config [simp]: "ti_config (tab_advance_animations E ti) = ti_config ti"
  by (simp add: tab_advance_animations_def)

lemma column_advance_ok:
  assumes "column_inv E c"
  shows "column_op E c (column_advance_animations E c)"
proof -
  let ?c = "c\<lparr>c_move_animation := unless_done (le_anim E) mv_anim (c_move_animation c)\<rparr>"
  have inv: "column_inv E ?c" using assms by simp
  have "column_op E ?c (?c\<lparr>c_tiles := map (tile_advance_animations E) (c_tiles c)\<rparr>)"
    by (rule column_inv_same [OF inv])
       (use column_invD(5) [OF inv] tile_advance_ok [of E] in \<open>simp_all\<close>)
  then show ?thesis
    by (simp add: column_advance_animations_def column_env_defs)
qed

lemma column_tab_open_ok:
  assumes "column_inv E c" and "anim_config_ok cfg"
  shows "runs (tab_start_open_animation E cfg (c_tab_indicator c))
     (\<lambda>ti. column_op E c (c\<lparr>c_tab_indicator := ti\<rparr>))"
  using assms runs_anim_new [OF assms(2), of "le_anim E" 0 1 0]
  by (auto simp: tab_start_open_animation_def column_env_defs elim!: runs_mono)

lemma column_position_SomeD:
  "column_position E i c = Some k \<Longrightarrow> k < length (c_tiles c) \<and> el_id E (tl_window (c_tiles c ! k)) = i"
  unfolding column_position_def by (drule vec_position_SomeD) simp

lemma column_start_open_ok:
  assumes "column_inv E c"
  shows "runs (column_start_open_animation E i c) (\<lambda>(b, c'). column_op E c c')"
proof (cases "column_position E i c")
  case None
  with assms show ?thesis by (simp add: column_start_open_animation_def)
next
  case (Some k)
  note k = column_position_SomeD [OF Some]
  note opts = column_invD(4) [OF assms]
  have "animates E (tile_start_open_animation E) (c_tiles c ! k)"
    using k column_invD(5) [OF assms] by (intro tile_start_open_ok) simp
  then show ?thesis
    unfolding column_start_open_animation_def Some option.case runs_bind runs_vec_get
  proof (intro conjI, use k in simp, elim runs_mono)
    fix t assume "tile_ok E t \<and> tile_same (c_tiles c ! k) t"
    then have op: "column_op E c (c\<lparr>c_tiles := (c_tiles c)[k := t]\<rparr>)"
      using k by (intro update_tile_ok [OF assms]) simp_all
    let ?c = "c\<lparr>c_tiles := (c_tiles c)[k := t]\<rparr>"
    have "runs (tab_start_open_animation E (acs_window_open (op_animations (c_options c))) (c_tab_indicator ?c))
        (\<lambda>ti. column_op E c (?c\<lparr>c_tab_indicator := ti\<rparr>))"
      by (rule runs_mono [OF column_tab_open_ok [of E ?c, OF _ options_ok_anims(1) [OF opts]]])
         (use op column_env_trans [of c ?c] in auto)
    with op show "runs (let c = ?c in do {
           ti \<leftarrow> (if is_tabbed c \<and> is_normal (column_sizing_mode c) \<and> length (c_tiles c) = 1
                          \<and> \<not> tc_hide_when_single_tab (ti_config (c_tab_indicator c))
                       then tab_start_open_animation E (acs_window_open (op_animations (c_options c)))
                              (c_tab_indicator c)
                       else Some (c_tab_indicator c));
           Some (True, c\<lparr>c_tab_indicator := ti\<rparr>) }) (\<lambda>(b, c'). column_op E c c')"
      by (simp add: Let_def)
  qed
qed

context layout_element
begin

text \<open>Replacing windows by windows that show and were asked for the same.\<close>

lemma column_inv_windows:
  assumes "column_inv E c" and "length ts = length (c_tiles c)"
    and "\<And>i. i < length (c_tiles c) \<Longrightarrow> tile_ok E (ts ! i) \<and> tile_frame E (c_tiles c ! i) (ts ! i) \<and>
      same_requests E (tl_window (c_tiles c ! i)) (tl_window (ts ! i))"
  shows "column_op E c (c\<lparr>c_tiles := ts\<rparr>)"
proof -
  have req: "requested_as E (column_pending_sizing_mode c) (c_tiles c ! i)" if "i < length (c_tiles c)" for i
    using assms(1) that by (simp add: column_inv_def)
  have "column_requested E c (c\<lparr>c_tiles := ts\<rparr>)"
    using assms(2,3) req by (intro column_requestedI) (auto simp: requested_as_def same_requests_def)
  moreover from this have "column_inv E (c\<lparr>c_tiles := ts\<rparr>)"
  proof -
    have f: "list_all2 (\<lambda>t t'. tile_ok E t' \<and> tile_frame E t t') (c_tiles c) ts"
      using assms(2,3) by (simp add: list_all2_conv_all_nth)
    have "\<forall>t \<in> set ts. requested_as E (column_pending_sizing_mode c) t"
      using assms(2,3) req by (auto simp: in_set_conv_nth requested_as_def same_requests_def)
    with column_pre_frame [OF column_inv_pre [OF assms(1)] f] show ?thesis
      by (simp add: column_inv_def)
  qed
  ultimately show ?thesis using column_requested_ids(1,2) by blast
qed

lemma column_cancel_resize_ok: "column_inv E c \<Longrightarrow> column_op E c (column_cancel_resize E c)"
  unfolding column_cancel_resize_def
  using column_invD(5) [of E c] cancel_resize_look
  by (intro column_inv_windows) (auto simp: tile_ok_def tile_frame_def same_look_def)

end

text \<open>Inserting into a list.\<close>

abbreviation list_insert :: "nat \<Rightarrow> 'a \<Rightarrow> 'a list \<Rightarrow> 'a list" where
  "list_insert i x xs \<equiv> take i xs @ x # drop i xs"

lemma list_insert_nth:
  "i \<le> length xs \<Longrightarrow> k < Suc (length xs) \<Longrightarrow>
     list_insert i x xs ! k = (if k < i then xs ! k else if k = i then x else xs ! (k - 1))"
  by (auto simp: nth_append nth_Cons min_def split: nat.split intro!: arg_cong [of _ _ "nth xs"])

lemma set_list_insert: "set (list_insert i x xs) = insert x (set xs)"
proof -
  have "set (take i xs) \<union> set (drop i xs) = set xs" by (metis append_take_drop_id set_append)
  then show ?thesis by auto
qed

lemma column_is_normal: "is_normal (column_sizing_mode c) \<longleftrightarrow> (\<forall>t \<in> set (c_tiles c). tl_sizing_mode t = Normal)"
proof -
  have "m = Normal \<longleftrightarrow> m \<noteq> Fullscreen \<and> m \<noteq> Maximized" for m by (cases m) simp_all
  then show ?thesis by (auto simp: column_sizing_mode_def)
qed

lemma one_sized_insert:
  assumes "one_sized ds" and "is_auto (td_height d)" and "i \<le> length ds"
  shows "one_sized (list_insert i d ds)"
  unfolding one_sized_def
proof (intro allI impI)
  fix a b
  assume a: "a < length (list_insert i d ds)" "\<not> is_auto (td_height (list_insert i d ds ! a))"
    and b: "b < length (list_insert i d ds)" "\<not> is_auto (td_height (list_insert i d ds ! b))"
  let ?s = "\<lambda>k. if k < i then k else k - 1"
  have *: "k \<noteq> i \<and> ?s k < length ds \<and> \<not> is_auto (td_height (ds ! ?s k))"
    if "k < length (list_insert i d ds)" "\<not> is_auto (td_height (list_insert i d ds ! k))" for k
    using that assms(2,3) by (auto simp: list_insert_nth split: if_splits)
  have "?s a = ?s b"
    using * [OF a] * [OF b] assms(1) unfolding one_sized_def by blast
  then show "a = b" using * [OF a] * [OF b] by (auto split: if_splits)
qed

lemma list_all2_insert:
  "list_all2 P xs ys \<Longrightarrow> P x y \<Longrightarrow> list_all2 P (list_insert i x xs) (list_insert i y ys)"
  by (auto intro!: list_all2_appendI list_all2_takeI list_all2_dropI)

lemma tile_data_new_fresh: "td_fresh E t (tile_data_new E t h)" "td_height (tile_data_new E t h) = h"
  by (simp_all add: td_fresh_def tile_data_new_def tile_data_update_def)

lemma enumerate_zip_nth:
  "i < length xs \<Longrightarrow> i < length ys \<Longrightarrow> i < length zs \<Longrightarrow>
     enumerate 0 (zip xs (zip ys zs)) ! i = (i, xs ! i, ys ! i, zs ! i)"
  by (simp add: nth_enumerate_eq)

text \<open>A column with one more window at a given place.\<close>

definition column_added :: "('w, 'id) LayoutEnv \<Rightarrow> nat \<Rightarrow> 'id \<Rightarrow> 'w Column \<Rightarrow> 'w Column \<Rightarrow> bool" where
  "column_added E idx i c c' \<longleftrightarrow> column_inv E c' \<and> column_fixed c c' \<and>
     c_active_tile_idx c' = c_active_tile_idx c \<and> c_display_mode c' = c_display_mode c \<and>
     c_tab_indicator c' = c_tab_indicator c \<and>
     column_ids E c' = list_insert idx i (column_ids E c) \<and>
     (\<not> is_normal (column_sizing_mode c) \<longrightarrow> \<not> is_normal (column_sizing_mode c'))"

context layout_element
begin

text \<open>The other tiles move from where they were.\<close>

lemma column_animate_others_ok:
  assumes c1: "column_inv E c1" and n: "length prev = length (c_tiles c1)"
  shows "runs (map_opt (\<lambda>(i, t, offset, prev). if i = idx then Some t else animate_move_from E (point_sub prev offset) t)
      (enumerate 0 (zip (c_tiles c1) (zip (tile_offsets c1) prev))))
      (\<lambda>ts. column_op E c1 (c1\<lparr>c_tiles := ts\<rparr>))"
proof -
  let ?xs = "enumerate 0 (zip (c_tiles c1) (zip (tile_offsets c1) prev))"
  let ?move = "\<lambda>(i, t, offset, prev). if i = idx then Some t else animate_move_from E (point_sub prev offset) t"
  have l: "length ?xs = length (c_tiles c1)" using n column_invD(3) [OF c1] by simp
  have "runs (map_opt ?move ?xs) (\<lambda>ts. length ts = length ?xs \<and>
     (\<forall>i < length ?xs. tile_ok E (ts ! i) \<and> tile_same (c_tiles c1 ! i) (ts ! i)))"
  proof (rule runs_map_opt_nth)
    fix i assume "i < length ?xs"
    then have i: "i < length (c_tiles c1)" unfolding l .
    then have e: "?xs ! i = (i, c_tiles c1 ! i, tile_offsets c1 ! i, prev ! i)"
      using n column_invD(3) [OF c1] by (intro enumerate_zip_nth) simp_all
    show "runs (?move (?xs ! i)) (\<lambda>t. tile_ok E t \<and> tile_same (c_tiles c1 ! i) t)"
      unfolding e using column_invD(5) [OF c1 i] by (auto simp: animate_move_from_ok)
  qed
  then show ?thesis unfolding l by (rule runs_mono) (use column_inv_same [OF c1] in blast)
qed

lemma column_add_tile_at_ok:
  assumes parts: "column_parts E c" and idx: "idx \<le> length (c_tiles c)"
    and act: "c_active_tile_idx c \<le> length (c_tiles c)"
    and t: "tile_ok E tile"
  shows "runs (column_add_tile_at E idx tile c) (column_added E idx (el_id E (tl_window tile)) c)"
proof -
  let ?t = "tile_update_config E (c_view_size c) (c_scale c) (c_options c) tile"
  let ?d = "tile_data_new E ?t auto_1"
  let ?c0 = "if \<not> is_tabbed c then c\<lparr>c_is_pending_fullscreen := False, c_is_pending_maximized := False\<rparr> else c"
  let ?c = "?c0\<lparr>c_data := list_insert idx ?d (c_data c), c_tiles := list_insert idx ?t (c_tiles c)\<rparr>"
  have opts: "options_ok (c_options c)" and len: "length (c_data c) = length (c_tiles c)"
    using parts by (auto simp: column_parts_def dest: list_all2_lengthD)
  note tc = tile_update_config_ok [OF t opts, of "c_view_size c" "c_scale c"]
  have tin: "tile_in E ?c = tile_in E c" by (simp add: fun_eq_iff tile_in_def height_ok_def)
  have "tile_in E c ?t ?d"
    using tc by (simp add: tile_in_def tile_data_new_fresh height_ok_def)
  then have all: "list_all2 (tile_in E c) (list_insert idx ?t (c_tiles c)) (list_insert idx ?d (c_data c))"
    using parts by (intro list_all2_insert) (simp_all add: column_parts_def)
  have one: "one_sized (list_insert idx ?d (c_data c))"
    using parts idx len by (intro one_sized_insert) (simp_all add: column_parts_def tile_data_new_fresh)
  have w: "td_height (list_insert idx ?d (c_data c) ! 0) = auto_1" if "length (list_insert idx ?t (c_tiles c)) = 1"
    using that len idx by (simp add: tile_data_new_fresh)
  have core: "column_core E ?c"
    using parts all one w act idx by (simp add: column_core_defs tin)
  have pre: "column_pre E ?c"
    using core by (simp add: column_pre_def column_pending_sizing_mode_def is_tabbed_def)
  have ids: "column_ids E ?c = list_insert idx (el_id E (tl_window tile)) (column_ids E c)"
    using tc by (simp add: take_map drop_map)
  have tiles: "c_tiles ?c = list_insert idx ?t (c_tiles c)" by simp
  have sm: "\<not> is_normal (column_sizing_mode c) \<longrightarrow> \<not> is_normal (column_sizing_mode ?c)"
    unfolding column_is_normal tiles set_list_insert by simp
  have fx: "column_fixed c ?c" by (simp add: column_fixed_def)
  have upd: "runs (update_tile_sizes E True ?c) (\<lambda>c'. column_inv E c' \<and> column_requested E ?c c')"
    by (rule update_tile_sizes_ok [OF pre])
  let ?prev = "list_insert idx point_zero (take (length (c_tiles c)) (tile_offsets c))"
  let ?move = "\<lambda>(i, t, offset, prev). if i = idx then Some t else animate_move_from E (point_sub prev offset) t"
  have eq: "column_add_tile_at E idx tile c = do {
      c1 \<leftarrow> update_tile_sizes E True ?c;
      ts \<leftarrow> map_opt ?move (enumerate 0 (zip (c_tiles c1) (zip (tile_offsets c1) ?prev)));
      Some (c1\<lparr>c_tiles := ts\<rparr>) }"
    using idx len
    by (cases "is_tabbed c") (simp_all add: column_add_tile_at_def Let_def vec_insert_def)
  show ?thesis
    unfolding eq runs_bind runs_Some
  proof (rule runs_mono [OF upd], elim conjE)
    fix c1 assume c1: "column_inv E c1" "column_requested E ?c c1"
    note R = column_requested_ids [OF c1(2)]
    have n: "length ?prev = length (c_tiles c1)" using R(8) idx len by simp
    show "runs (map_opt ?move (enumerate 0 (zip (c_tiles c1) (zip (tile_offsets c1) ?prev))))
        (\<lambda>ts. column_added E idx (el_id E (tl_window tile)) c (c1\<lparr>c_tiles := ts\<rparr>))"
    proof (rule runs_mono [OF column_animate_others_ok [OF c1(1) n]])
      fix ts assume op: "column_op E c1 (c1\<lparr>c_tiles := ts\<rparr>)"
      have "column_fixed c (c1\<lparr>c_tiles := ts\<rparr>)"
        using op R(2) fx by (auto simp: column_env_def intro: column_fixed_trans)
      moreover have "column_sizing_mode (c1\<lparr>c_tiles := ts\<rparr>) = column_sizing_mode ?c"
        using op R(2) by (simp add: column_env_def)
      ultimately show "column_added E idx (el_id E (tl_window tile)) c (c1\<lparr>c_tiles := ts\<rparr>)"
        using op R(1,4,5,7) ids sm by (simp add: column_added_def)
    qed
  qed
qed

end

text \<open>No tile is flat; the height weights are ratios of tile heights.\<close>

definition column_tall :: "('w, 'id) LayoutEnv \<Rightarrow> 'w Column \<Rightarrow> bool" where
  "column_tall E c \<longleftrightarrow> (\<forall>t \<in> set (c_tiles c). 0 < sh (tile_size E t))"

definition reconfigurable :: "('w, 'id) LayoutEnv \<Rightarrow> Options \<Rightarrow> 'w Column \<Rightarrow> bool" where
  "reconfigurable E opts c \<longleftrightarrow> column_tall E c \<or>
     lc_preset_window_heights (op_layout (c_options c)) = lc_preset_window_heights (op_layout opts)"

context layout_element
begin

lemma column_new_with_tile_ok:
  assumes t: "tile_ok E tile"
  shows "runs (column_new_with_tile E tile vs wa pa sc width fw) (\<lambda>c'. column_inv E c' \<and>
     c_options c' = tl_options tile \<and> c_scale c' = sc \<and> c_view_size c' = vs \<and>
     c_working_area c' = wa \<and> c_parent_area c' = pa \<and> c_active_tile_idx c' = 0 \<and>
     column_ids E c' = [el_id E (tl_window tile)])"
proof -
  let ?opts = "tl_options tile"
  let ?dm = "case wr_default_column_display (el_rules E (tl_window tile)) of
               Some m \<Rightarrow> m | None \<Rightarrow> lc_default_column_display (op_layout ?opts)"
  let ?rv = "\<lparr>c_tiles = [], c_data = [], c_active_tile_idx = 0, c_width = width,
               c_preset_width_idx = vec_position (\<lambda>p. width = column_width_from_preset p)
                 (lc_preset_column_widths (op_layout ?opts)),
               c_is_full_width = fw, c_is_pending_fullscreen = False,
               c_is_pending_maximized = False, c_display_mode = ?dm,
               c_tab_indicator = \<lparr>ti_open_anim = None, ti_config = lc_tab_indicator (op_layout ?opts)\<rparr>,
               c_move_animation = None, c_view_size = vs, c_working_area = wa,
               c_parent_area = pa, c_scale = sc, c_options = ?opts\<rparr>"
  let ?P = "\<lambda>c'. column_inv E c' \<and> column_fixed ?rv c' \<and> c_active_tile_idx c' = 0 \<and>
     column_ids E c' = [el_id E (tl_window tile)]"
  have opts: "options_ok ?opts" using t by (rule tile_ok_options)
  have "column_parts E ?rv"
    using opts by (auto simp: column_parts_def one_sized_def dest: vec_position_SomeD)
  from column_add_tile_at_ok [OF this, of 0 tile] t
  have add: "runs (column_add_tile_at E 0 tile ?rv) ?P"
    by (auto simp: column_added_def elim: runs_mono)
  have mode: "runs (case m of Normal \<Rightarrow> Some rv | Maximized \<Rightarrow> column_set_maximized E True rv
        | Fullscreen \<Rightarrow> column_set_fullscreen E True rv) ?P" if "?P rv" for m rv
  proof -
    have one: "True \<longrightarrow> length (c_tiles rv) = 1 \<or> is_tabbed rv" using that by (auto dest: arg_cong [of _ _ length])
    show ?thesis
      using that column_set_modes_ok [of rv True, OF _ one]
      by (cases m) (auto elim!: runs_mono simp: column_env_def intro: column_fixed_trans)
  qed
  have tab: "runs (tab_start_open_animation E (column_movement_config rv) (c_tab_indicator rv))
      (\<lambda>ti. ?P (rv\<lparr>c_tab_indicator := ti\<rparr>))" if "?P rv" for rv
    using that opts column_tab_open_ok [of E rv "column_movement_config rv"]
    by (auto simp: column_env_def column_fixed_def options_ok_anims elim!: runs_mono)
  have "runs (column_new_with_tile E tile vs wa pa sc width fw) ?P"
    unfolding column_new_with_tile_def Let_def runs_bind
    by (rule runs_mono [OF add], rule runs_mono [OF mode]) (use tab in auto)
  then show ?thesis by (rule runs_mono) (simp add: column_fixed_def)
qed

text \<open>Clearing the stored preset heights when the presets change.\<close>

lemma clear_presets_ok:
  assumes inv: "column_inv E c" and tall: "reconfigurable E opts c"
  shows "runs (if lc_preset_window_heights (op_layout (c_options c)) \<noteq> lc_preset_window_heights (op_layout opts)
        then convert_heights_to_auto E (c\<lparr>c_preset_width_idx := p\<rparr>) else Some (c\<lparr>c_preset_width_idx := p\<rparr>))
     (\<lambda>c'. \<exists>ds. c' = c\<lparr>c_preset_width_idx := p, c_data := ds\<rparr> \<and> length ds = length (c_tiles c) \<and> one_sized ds \<and>
        (\<forall>d \<in> set ds. \<forall>i. td_height d = HPreset i \<longrightarrow> i < length (lc_preset_window_heights (op_layout opts))) \<and>
        (length (c_tiles c) = 1 \<longrightarrow> (\<forall>w. td_height (ds ! 0) = HAuto w \<longrightarrow> w = 1)))"
    (is "runs ?m ?Q")
proof (cases "lc_preset_window_heights (op_layout (c_options c)) = lc_preset_window_heights (op_layout opts)")
  case True
  have "\<forall>d \<in> set (c_data c). \<forall>i. td_height d = HPreset i \<longrightarrow> i < length (lc_preset_window_heights (op_layout opts))"
    using column_invD(3,6) [OF inv] True by (auto simp: in_set_conv_nth tile_in_def height_ok_def)
  with True inv column_invD(3) [OF inv] show ?thesis
    by (auto simp: column_inv_def column_pre_defs intro!: exI [of _ "c_data c"])
next
  case False
  let ?hs = "map (\<lambda>t. sh (tile_size E t)) (c_tiles c)"
  let ?ds = "map (\<lambda>(d, h). d\<lparr>td_height := HAuto (h / (sort ?hs ! (length ?hs div 2)))\<rparr>) (zip (c_data c) ?hs)"
  note D = column_invD [OF inv]
  have m: "length ?hs div 2 < length (sort ?hs)" using D(1) by (simp add: div_less_dividend)
  have one: "one_sized ?ds" by (auto simp: one_sized_def)
  have "td_height (?ds ! 0) = HAuto w \<longrightarrow> w = 1" if len: "length (c_tiles c) = 1" for w
  proof -
    obtain t where t: "c_tiles c = [t]" using len by (auto simp: length_Suc_conv)
    then obtain d where "c_data c = [d]" using D(3) by (auto simp: length_Suc_conv)
    with t tall False show ?thesis by (simp add: column_tall_def reconfigurable_def)
  qed
  then have "?Q (c\<lparr>c_preset_width_idx := p, c_data := ?ds\<rparr>)"
    using D(3) one by (intro exI [of _ ?ds]) auto
  moreover have "?m = Some (c\<lparr>c_preset_width_idx := p, c_data := ?ds\<rparr>)"
    using False m by (simp add: convert_heights_to_auto_def Let_def vec_get_def)
  ultimately show ?thesis by (simp only: runs_Some)
qed

text \<open>A column whose configuration changes: the tiles take the new configuration over.\<close>

lemma column_reconfigured:
  assumes inv: "column_inv E c" and opts: "options_ok opts"
    and ds: "length ds = length (c_tiles c)" "one_sized ds"
      "\<forall>d \<in> set ds. \<forall>i. td_height d = HPreset i \<longrightarrow> i < length (lc_preset_window_heights (op_layout opts))"
      "length (c_tiles c) = 1 \<longrightarrow> (\<forall>w. td_height (ds ! 0) = HAuto w \<longrightarrow> w = 1)"
    and p: "\<And>i. p = Some i \<Longrightarrow> i < length (lc_preset_column_widths (op_layout opts))"
    and ts: "ts = map (tile_update_config E vs sc opts) (c_tiles c)"
  shows "column_inv E (c\<lparr>c_preset_width_idx := p, c_tiles := ts,
      c_data := map (\<lambda>(t, d). tile_data_update E t d) (zip ts ds),
      c_tab_indicator := ti, c_view_size := vs, c_working_area := wa, c_parent_area := pa,
      c_scale := sc, c_options := opts\<rparr>)" (is "column_inv E ?c")
proof -
  note D = column_invD [OF inv]
  note tc = tile_update_config_ok [OF D(5) opts, of _ vs sc]
  have h: "td_height (tile_data_update E t d) = td_height d" for t d
    by (simp add: tile_data_update_def)
  have "list_all2 (tile_in E ?c) ts (c_data ?c)"
    unfolding list_all2_conv_all_nth
  proof (intro conjI allI impI)
    show "length ts = length (c_data ?c)" using ds(1) ts by simp
    fix i assume "i < length ts"
    then have i: "i < length (c_tiles c)" by (simp add: ts)
    have "ds ! i \<in> set ds" using i ds(1) by simp
    then have "height_ok ?c (td_height (ds ! i))" using ds(3) by (auto simp: height_ok_def)
    with tc [OF i] i ds(1) show "tile_in E ?c (ts ! i) (c_data ?c ! i)"
      by (simp add: ts tile_in_def h) (simp add: td_fresh_def tile_data_update_def)
  qed
  moreover have "one_sized (c_data ?c)"
    using ds(1,2) ts by (simp add: one_sized_def h)
  moreover have "\<forall>w. td_height (c_data ?c ! 0) = HAuto w \<longrightarrow> w = 1" if "length ts = 1"
    using that ds(1,4) by (simp add: ts h)
  ultimately have pre: "column_pre E ?c"
    using inv D opts p by (auto simp: column_inv_def column_pre_defs column_pending_sizing_mode_def is_tabbed_def ts)
  have "\<forall>t \<in> set ts. requested_as E (column_pending_sizing_mode c) t"
    using inv tc nth_mem [of _ "c_tiles c"] by (auto simp: column_inv_def ts in_set_conv_nth)
  moreover have "column_pending_sizing_mode ?c = column_pending_sizing_mode c"
    by (simp add: column_pending_sizing_mode_def)
  ultimately show ?thesis using pre by (simp add: column_inv_def)
qed

lemma tile_update_config_id [simp]:
  "el_id E (tl_window (tile_update_config E vs sc opts t)) = el_id E (tl_window t)"
  "tl_sizing_mode (tile_update_config E vs sc opts t) = tl_sizing_mode t"
  using config_look by (auto simp: tile_update_config_def tile_update_border_def Let_def same_look_def)

lemma column_update_config_ok:
  assumes inv: "column_inv E c" and opts: "options_ok opts"
    and tall: "reconfigurable E opts c"
  shows "runs (column_update_config E vs wa pa sc opts c) (\<lambda>c'. column_inv E c' \<and>
     c_options c' = opts \<and> c_scale c' = sc \<and> c_view_size c' = vs \<and> c_working_area c' = wa \<and>
     c_parent_area c' = pa \<and> c_active_tile_idx c' = c_active_tile_idx c \<and>
     column_ids E c' = column_ids E c \<and> column_sizing_mode c' = column_sizing_mode c)"
    (is "runs ?m ?Q")
proof -
  define p where "p = (if lc_preset_column_widths (op_layout (c_options c)) \<noteq> lc_preset_column_widths (op_layout opts)
            then None else c_preset_width_idx c)"
  let ?ts = "map (tile_update_config E vs sc opts) (c_tiles c)"
  let ?c' = "\<lambda>ds. c\<lparr>c_preset_width_idx := p, c_tiles := ?ts,
      c_data := map (\<lambda>(t, d). tile_data_update E t d) (zip ?ts ds),
      c_tab_indicator := (c_tab_indicator c)\<lparr>ti_config := lc_tab_indicator (op_layout opts)\<rparr>,
      c_view_size := vs, c_working_area := wa, c_parent_area := pa, c_scale := sc, c_options := opts\<rparr>"
  have p_ok: "i < length (lc_preset_column_widths (op_layout opts))" if "p = Some i" for i
    using that inv by (auto simp: p_def column_inv_def column_pre_defs split: if_splits)
  have ids: "column_ids E (?c' ds) = column_ids E c" for ds
    by simp
  have sm: "column_sizing_mode (?c' ds) = column_sizing_mode c" for ds
    by (simp add: column_sizing_mode_def)
  have fin: "runs (update_tile_sizes E False (?c' ds)) ?Q" if "column_inv E (?c' ds)" for ds
    by (rule runs_mono [OF update_tile_sizes_ok [OF column_inv_pre [OF that]]], elim conjE)
       (use ids sm in \<open>auto dest: column_requested_ids simp: column_env_defs\<close>)
  have eq: "(if lc_preset_column_widths (op_layout (c_options c)) \<noteq> lc_preset_column_widths (op_layout opts)
      then c\<lparr>c_preset_width_idx := None\<rparr> else c) = c\<lparr>c_preset_width_idx := p\<rparr>"
    by (cases c) (simp add: p_def)
  from runsD [OF clear_presets_ok [OF inv tall, of p]] obtain ds where
    m: "(if lc_preset_window_heights (op_layout (c_options c)) \<noteq> lc_preset_window_heights (op_layout opts)
        then convert_heights_to_auto E (c\<lparr>c_preset_width_idx := p\<rparr>)
        else Some (c\<lparr>c_preset_width_idx := p\<rparr>)) = Some (c\<lparr>c_preset_width_idx := p, c_data := ds\<rparr>)"
    and ds: "length ds = length (c_tiles c)" "one_sized ds"
      "\<forall>d \<in> set ds. \<forall>i. td_height d = HPreset i \<longrightarrow> i < length (lc_preset_window_heights (op_layout opts))"
      "length (c_tiles c) = 1 \<longrightarrow> (\<forall>w. td_height (ds ! 0) = HAuto w \<longrightarrow> w = 1)"
    by (elim exE conjE) (rule that, simp_all only: simp_thms)
  have inv': "column_inv E (?c' ds)"
    by (rule column_reconfigured [OF inv opts ds p_ok refl])
  show ?thesis
    unfolding column_update_config_def Let_def eq m using fin [OF inv'] inv' ids [of ds] sm [of ds] by simp
qed

end

lemma vec_position_map: "vec_position P (map f xs) = vec_position (\<lambda>x. P (f x)) xs"
  by (induction xs) simp_all

lemma column_position_ids: "column_position E i c = vec_position (\<lambda>j. j = i) (column_ids E c)"
  by (simp add: column_position_def vec_position_map)

text \<open>The tiles below a place animate.\<close>

lemma column_tail_ok:
  assumes inv: "column_inv E c" and f: "\<And>t. tile_ok E t \<Longrightarrow> animates E f t"
  shows "runs (map_opt f (drop k (c_tiles c))) (\<lambda>ts. column_op E c (c\<lparr>c_tiles := take k (c_tiles c) @ ts\<rparr>))"
proof -
  note D = column_invD(5) [OF inv]
  have "runs (map_opt f (drop k (c_tiles c))) (\<lambda>ts. length ts = length (drop k (c_tiles c)) \<and>
      (\<forall>j < length (drop k (c_tiles c)). tile_ok E (ts ! j) \<and> tile_same (drop k (c_tiles c) ! j) (ts ! j)))"
    using D f by (intro runs_map_opt_nth) simp
  then show ?thesis
  proof (rule runs_mono, elim conjE)
    fix ts
    assume ts: "length ts = length (drop k (c_tiles c))"
      "\<forall>j < length (drop k (c_tiles c)). tile_ok E (ts ! j) \<and> tile_same (drop k (c_tiles c) ! j) (ts ! j)"
    show "column_op E c (c\<lparr>c_tiles := take k (c_tiles c) @ ts\<rparr>)"
    proof (rule column_inv_same [OF inv])
      show "length (take k (c_tiles c) @ ts) = length (c_tiles c)" using ts(1) by simp
      fix j assume j: "j < length (c_tiles c)"
      show "tile_ok E ((take k (c_tiles c) @ ts) ! j) \<and>
          tile_same (c_tiles c ! j) ((take k (c_tiles c) @ ts) ! j)"
        using D [OF j] j ts(1) ts(2) [rule_format, of "j - k"]
        by (auto simp: nth_append min_def split: if_splits)
    qed
  qed
qed

text \<open>The window at a place has changed by itself: it commits a new state.\<close>

definition column_with_window :: "nat \<Rightarrow> 'w \<Rightarrow> 'w Column \<Rightarrow> 'w Column" where
  "column_with_window i w c = c\<lparr>c_tiles := (c_tiles c)[i := (c_tiles c ! i)\<lparr>tl_window := w\<rparr>]\<rparr>"

context layout_element
begin

lemma column_window_committed:
  assumes inv: "column_inv E c" and i: "i < length (c_tiles c)"
    and w: "el_id E w = el_id E (tl_window (c_tiles c ! i))" "same_requests E (tl_window (c_tiles c ! i)) w"
    and t: "tile_ok E t" "tl_view_size t = tl_view_size (c_tiles c ! i)" "tl_scale t = tl_scale (c_tiles c ! i)"
      "tl_options t = tl_options (c_tiles c ! i)" "el_id E (tl_window t) = el_id E w"
      "\<forall>m. requested_as E m t \<longleftrightarrow> requested_as E m ((c_tiles c ! i)\<lparr>tl_window := w\<rparr>)"
  shows "column_inv E (c\<lparr>c_tiles := (c_tiles c)[i := t],
           c_data := (c_data c)[i := tile_data_update E t (c_data c ! i)]\<rparr>)" (is "column_inv E ?c")
    and "column_ids E (c\<lparr>c_tiles := (c_tiles c)[i := t],
           c_data := (c_data c)[i := tile_data_update E t (c_data c ! i)]\<rparr>) = column_ids E c"
proof -
  note D = column_invD [OF inv]
  let ?ds = "(c_data c)[i := tile_data_update E t (c_data c ! i)]"
  have h: "td_height (?ds ! k) = td_height (c_data c ! k)" if "k < length (c_data c)" for k
    using that by (cases "k = i") (simp_all add: tile_data_update_def)
  have "tile_in E c ((c_tiles c)[i := t] ! k) (?ds ! k)" if "k < length (c_tiles c)" for k
    using D(6) [OF that] D(3) i t(1-4) that
    by (cases "k = i") (simp_all add: tile_in_def td_fresh_def tile_data_update_def)
  then have "list_all2 (tile_in E c) ((c_tiles c)[i := t]) ?ds"
    using D(3) by (simp add: list_all2_conv_all_nth)
  moreover have "tile_in E ?c = tile_in E c" by (simp add: fun_eq_iff tile_in_def height_ok_def)
  moreover have "one_sized ?ds"
    using inv h by (simp add: column_inv_def column_pre_defs one_sized_def)
  moreover have "\<forall>w. td_height (?ds ! 0) = HAuto w \<longrightarrow> w = 1" if "length (c_tiles c) = 1"
    using inv h [of 0] that D(3) by (simp add: column_inv_def column_pre_defs)
  ultimately have pre: "column_pre E ?c"
    using inv by (simp add: column_inv_def column_pre_defs is_tabbed_def column_pending_sizing_mode_def)
  have "requested_as E (column_pending_sizing_mode c) t"
    using inv i w(2) t(6) nth_mem [OF i] by (auto simp: column_inv_def requested_as_def same_requests_def)
  then have "\<forall>t' \<in> set ((c_tiles c)[i := t]). requested_as E (column_pending_sizing_mode c) t'"
    using inv by (auto simp: column_inv_def dest: set_update_subset_insert [THEN subsetD])
  with pre show "column_inv E ?c" by (simp add: column_inv_def)
  show "column_ids E ?c = column_ids E c"
    using i w(1) t(5) by (intro nth_equalityI) (auto simp: nth_list_update)
qed

lemma shift_tiles_below_ok:
  assumes inv: "column_inv E c"
  shows "runs (shift_tiles_below E i r off c) (\<lambda>c'. column_op E c c' \<and> c_active_tile_idx c' = c_active_tile_idx c)"
proof -
  have cfg: "anim_config_ok (acs_window_resize (op_animations (c_options c)))"
    by (rule options_ok_anims(5) [OF column_invD(4) [OF inv]])
  have a: "runs (map_opt (animate_move_y_from_with_config E off
            (acs_window_resize (op_animations (c_options c)))) (drop (i + 1) (c_tiles c)))
          (\<lambda>ts. column_op E c (c\<lparr>c_tiles := take (i + 1) (c_tiles c) @ ts\<rparr>))"
    by (rule column_tail_ok [OF inv]) (rule animate_move_y_ok [OF _ cfg])
  have b: "runs (map_opt (\<lambda>u. Some (offset_move_y_anim_current E off u)) (drop (i + 1) (c_tiles c)))
          (\<lambda>ts. column_op E c (c\<lparr>c_tiles := take (i + 1) (c_tiles c) @ ts\<rparr>))"
    by (rule column_tail_ok [OF inv]) (simp add: offset_move_y_ok)
  show ?thesis
    unfolding shift_tiles_below_def using a b inv by simp
qed

lemma column_update_window_ok:
  assumes inv: "column_inv E c" and i: "i < length (c_tiles c)"
    and pos: "column_position E (el_id E w) c = Some i" and w: "same_requests E (tl_window (c_tiles c ! i)) w"
  shows "runs (column_update_window E (el_id E w) (column_with_window i w c)) (\<lambda>c'. column_inv E c' \<and>
     column_fixed c c' \<and> column_ids E c' = column_ids E c \<and> c_active_tile_idx c' = c_active_tile_idx c)"
proof -
  note D = column_invD [OF inv]
  have id: "el_id E w = el_id E (tl_window (c_tiles c ! i))" using column_position_SomeD [OF pos] by simp
  let ?c = "column_with_window i w c"
  let ?t = "(c_tiles c ! i)\<lparr>tl_window := w\<rparr>"
  have ids: "map (\<lambda>t. el_id E (tl_window t)) (c_tiles ?c) = column_ids E c"
    using i id by (intro nth_equalityI) (auto simp: column_with_window_def nth_list_update)
  have pos': "column_position E (el_id E w) ?c = Some i"
    using pos ids by (simp only: column_position_ids)
  have ok: "tile_ok E (?t\<lparr>tl_sizing_mode := el_sizing_mode E (tl_window ?t)\<rparr>)"
    using D(5) [OF i] by (simp add: tile_ok_def)
  let ?c1 = "\<lambda>t. c\<lparr>c_tiles := (c_tiles c)[i := t], c_data := (c_data c)[i := tile_data_update E t (c_data c ! i)]\<rparr>"
  have "runs (tile_update_window E ?t) (\<lambda>t. column_inv E (?c1 t) \<and> column_ids E (?c1 t) = column_ids E c)"
    by (rule runs_mono [OF tile_update_window_ok [OF ok]])
       (use column_window_committed [OF inv i id w] in auto)
  then obtain t where t: "tile_update_window E ?t = Some t" "column_inv E (?c1 t)"
    "column_ids E (?c1 t) = column_ids E c"
    by (rule runsE) blast
  obtain c' where c': "shift_tiles_below E i (tl_resize_animation t \<noteq> None)
      (sh (td_size (c_data c ! i)) - sh (tile_size E t)) (?c1 t) = Some c'"
    "column_op E (?c1 t) c'" "c_active_tile_idx c' = c_active_tile_idx c"
    using runsD [OF shift_tiles_below_ok [OF t(2), of i "tl_resize_animation t \<noteq> None"
        "sh (td_size (c_data c ! i)) - sh (tile_size E t)"]] by auto
  have eq: "column_update_window E (el_id E w) ?c = Some c'"
    unfolding column_update_window_def Let_def pos' using i D(3) t(1) c'(1)
    by (simp add: column_with_window_def vec_get_def)
  have "column_fixed c (?c1 t)" by (simp add: column_fixed_def)
  with c'(2,3) t(3) show ?thesis
    unfolding eq using column_fixed_trans [of c "?c1 t" c'] by (simp add: column_env_def)
qed

end

end
