(* ===== verification/Layout_Scrolling_Inv.thy ===== *)
theory Layout_Scrolling_Inv
  imports Layout_Scrolling_Gesture Layout_Column_Ops
begin

text \<open>
  The invariant of the scrolling layout, after \<^verbatim>\<open>ScrollingSpace::verify_invariants\<close>, and the parts of
  the operations that only move the view and animate: they never panic and keep everything else.
\<close>

section \<open>The invariant\<close>

definition column_fits :: "('w, 'id) LayoutEnv \<Rightarrow> ('w, 'id) Space \<Rightarrow> 'w Column \<Rightarrow> bool" where
  "column_fits E s c \<longleftrightarrow> column_inv E c \<and> c_options c = sp_options s \<and> c_scale c = sp_scale s \<and>
     c_view_size c = sp_view_size s \<and> c_working_area c = sp_working_area s \<and>
     c_parent_area c = sp_parent_area s"

definition cols_ok :: "('w, 'id) LayoutEnv \<Rightarrow> ('w, 'id) Space \<Rightarrow> bool" where
  "cols_ok E s \<longleftrightarrow>
     list_all2 (\<lambda>c d. column_fits E s c \<and> column_px_width c = Some (cd_width d)) (sp_columns s) (sp_data s)"

fun vo_ok :: "ViewOffset \<Rightarrow> bool" where
  "vo_ok (VGesture g) = swipe_inv (vg_tracker g)"
| "vo_ok _ = True"

text \<open>
  In layers: \<open>space_parts\<close>, which also holds while the active index is being adjusted, \<open>space_core\<close>,
  with a valid active column, and \<open>space_inv\<close>, in addition on the saved offset and the interactive
  resize.
\<close>

definition space_parts :: "('w, 'id) LayoutEnv \<Rightarrow> ('w, 'id) Space \<Rightarrow> bool" where
  "space_parts E s \<longleftrightarrow> options_ok (sp_options s) \<and> cols_ok E s \<and> vo_ok (sp_view_offset s) \<and>
     sp_working_area s = compute_working_area E (sp_parent_area s) (sp_scale s) (lc_struts (op_layout (sp_options s)))"

definition space_core :: "('w, 'id) LayoutEnv \<Rightarrow> ('w, 'id) Space \<Rightarrow> bool" where
  "space_core E s \<longleftrightarrow> space_parts E s \<and>
     (if sp_columns s = [] then sp_active_column_idx s = 0
      else sp_active_column_idx s < length (sp_columns s))"

definition restore_ok :: "('w, 'id) Space \<Rightarrow> bool" where
  "restore_ok s \<longleftrightarrow> (sp_view_offset_to_restore s \<noteq> None \<longrightarrow> sp_columns s \<noteq> [] \<and>
     \<not> is_normal (column_sizing_mode (sp_columns s ! sp_active_column_idx s)))"

definition resize_present :: "('w, 'id) LayoutEnv \<Rightarrow> ('w, 'id) Space \<Rightarrow> bool" where
  "resize_present E s \<longleftrightarrow> (case sp_interactive_resize s of None \<Rightarrow> True
     | Some r \<Rightarrow> \<exists>c \<in> set (sp_columns s). column_contains E (ir_window r) c)"

definition space_inv :: "('w, 'id) LayoutEnv \<Rightarrow> ('w, 'id) Space \<Rightarrow> bool" where
  "space_inv E s \<longleftrightarrow> space_core E s \<and> restore_ok s \<and> resize_present E s"

definition space_env :: "('w, 'id) Space \<Rightarrow> ('w, 'id) Space \<Rightarrow> bool" where
  "space_env s s' \<longleftrightarrow> sp_view_size s' = sp_view_size s \<and> sp_working_area s' = sp_working_area s \<and>
     sp_parent_area s' = sp_parent_area s \<and> sp_scale s' = sp_scale s \<and> sp_options s' = sp_options s"

lemma space_env_refl [simp]: "space_env s s"
  by (simp add: space_env_def)

lemma space_env_trans: "space_env a b \<Longrightarrow> space_env b c \<Longrightarrow> space_env a c"
  by (simp add: space_env_def)

lemma column_fits_env: "space_env s s' \<Longrightarrow> column_fits E s' = column_fits E s"
  by (simp add: fun_eq_iff column_fits_def space_env_def)

lemma space_partsD:
  assumes "space_parts E s"
  shows "options_ok (sp_options s)" and "length (sp_data s) = length (sp_columns s)"
    and "i < length (sp_columns s) \<Longrightarrow> column_inv E (sp_columns s ! i)"
    and "i < length (sp_columns s) \<Longrightarrow> column_fits E s (sp_columns s ! i)"
    and "i < length (sp_columns s) \<Longrightarrow> column_px_width (sp_columns s ! i) = Some (cd_width (sp_data s ! i))"
    and "0 \<le> space_gaps s" and "anim_config_ok (view_movement_config s)"
    and "anim_config_ok (space_movement_config s)"
    and "anim_config_ok (acs_window_resize (op_animations (sp_options s)))"
  using assms
  by (auto simp: space_parts_def cols_ok_def column_fits_def list_all2_conv_all_nth options_ok_anims
      options_ok_def [of "sp_options s"])

lemma space_inv_core: "space_inv E s \<Longrightarrow> space_core E s"
  by (simp add: space_inv_def)

lemma space_core_parts: "space_core E s \<Longrightarrow> space_parts E s"
  by (simp add: space_core_def)

lemmas space_inv_parts = space_core_parts [OF space_inv_core]

lemma space_core_active: "space_core E s \<Longrightarrow> sp_columns s \<noteq> [] \<Longrightarrow> sp_active_column_idx s < length (sp_columns s)"
  by (simp add: space_core_def)

lemma space_core_active_le: "space_core E s \<Longrightarrow> sp_active_column_idx s \<le> length (sp_columns s)"
  by (auto simp: space_core_def split: if_splits)

section \<open>Positions\<close>

lemma length_xs_from [simp]: "length (xs_from g x ds) = length ds"
  by (induction ds arbitrary: x) simp_all

lemma length_column_xs [simp]: "length (column_xs s) = length (sp_data s) + 1"
  by (simp add: column_xs_def)

lemma runs_column_x [simp]:
  assumes "space_parts E s"
  shows "runs (column_x i s) P \<longleftrightarrow> i \<le> length (sp_columns s) \<and> P (column_xs s ! i)"
  using space_partsD(2) [OF assms] by (auto simp: column_x_def less_Suc_eq_le)

lemma column_x_Some:
  assumes "space_parts E s" and "i \<le> length (sp_columns s)"
  shows "column_x i s = Some (column_xs s ! i)"
  using runs_column_x [OF assms(1), of i "\<lambda>x. x = column_xs s ! i"] assms(2) by (auto simp: runs_iff)

lemma xs_from_nth:
  "i < length ds \<Longrightarrow> xs_from g x ds ! i = x + sum_list (map (\<lambda>d. cd_width d + g) (take i ds))"
proof (induction ds arbitrary: x i)
  case Nil
  then show ?case by simp
next
  case (Cons d ds)
  then show ?case by (cases i) (simp_all add: algebra_simps)
qed

text \<open>A column starts where the columns before it and the gaps after them end.\<close>

lemma column_xs_nth:
  "i \<le> length (sp_data s) \<Longrightarrow>
     column_xs s ! i = sum_list (map (\<lambda>d. cd_width d + space_gaps s) (take i (sp_data s)))"
  by (simp add: column_xs_def xs_from_nth)

lemma target_view_pos_Some:
  assumes "space_parts E s" and "sp_active_column_idx s \<le> length (sp_columns s)"
  shows "target_view_pos s = Some (column_xs s ! sp_active_column_idx s + vo_target (sp_view_offset s))"
  using column_x_Some [OF assms] by (simp add: target_view_pos_def)

section \<open>New view offsets\<close>

text \<open>
  A column of width \<open>w\<close> at \<open>x\<close> is inside an area of width \<open>aw\<close> whose left edge is at \<open>ax\<close>.
\<close>

definition inside :: "real \<Rightarrow> real \<Rightarrow> real \<Rightarrow> real \<Rightarrow> bool" where
  "inside ax aw x w \<longleftrightarrow> ax \<le> x \<and> x + w \<le> ax + aw"

lemma compute_new_view_offset_ok:
  assumes "0 \<le> gaps"
  shows "runs (compute_new_view_offset cur_x view_width x w gaps)
    (\<lambda>o'. (w \<le> view_width \<longrightarrow> inside (x + o') view_width x w) \<and> (view_width < w \<longrightarrow> o' = 0))"
proof (cases "view_width \<le> w")
  case True
  then show ?thesis by (auto simp: compute_new_view_offset_def inside_def)
next
  case False
  define p where "p = clampf 0 gaps ((view_width - w) / 2)"
  have p: "0 \<le> p" "2 * p \<le> view_width - w"
    using False assms by (auto simp: p_def clampf_def min_def)
  have "clamp_checked 0 gaps ((view_width - w) / 2) = Some p"
    using assms by (simp add: clamp_checked_def p_def)
  with False p show ?thesis
    by (auto simp: compute_new_view_offset_def Let_def inside_def)
qed

text \<open>The offset at which a column of width \<open>w\<close> at \<open>x\<close> is entirely in view, in the given sizing mode.\<close>

definition in_view :: "('w, 'id) Space \<Rightarrow> SizingMode \<Rightarrow> real \<Rightarrow> real \<Rightarrow> real \<Rightarrow> bool" where
  "in_view s mode x w o' \<longleftrightarrow>
     (is_fullscreen mode \<longrightarrow> o' = 0) \<and>
     (\<not> is_fullscreen mode \<and> w \<le> sw (r_size (mode_area s mode)) \<longrightarrow>
        inside (x + o' + px (r_loc (mode_area s mode))) (sw (r_size (mode_area s mode))) x w)"

abbreviation shows_column :: "('w, 'id) Space \<Rightarrow> nat \<Rightarrow> real \<Rightarrow> bool" where
  "shows_column s idx \<equiv>
     in_view s (column_sizing_mode (sp_columns s ! idx)) (column_xs s ! idx) (cd_width (sp_data s ! idx))"

lemma for_fit_ok:
  assumes "space_parts E s" and "sp_active_column_idx s \<le> length (sp_columns s)"
  shows "runs (compute_new_view_offset_fit tx x w mode s) (in_view s mode x w)"
proof (cases "is_fullscreen mode")
  case True
  then show ?thesis by (simp add: compute_new_view_offset_fit_def in_view_def)
next
  case False
  have "\<exists>t. (case tx of Some x \<Rightarrow> Some x | None \<Rightarrow> target_view_pos s) = Some t"
    using target_view_pos_Some [OF assms] by (cases tx) simp_all
  then obtain t where "(case tx of Some x \<Rightarrow> Some x | None \<Rightarrow> target_view_pos s) = Some t" ..
  with False space_partsD(6) [OF assms(1)] show ?thesis
    by (auto simp: compute_new_view_offset_fit_def case_prod_unfold Let_def inside_def in_view_def
        intro!: runs_mono [OF compute_new_view_offset_ok])
qed

lemma for_centered_ok:
  assumes "space_parts E s" and "sp_active_column_idx s \<le> length (sp_columns s)"
  shows "runs (compute_new_view_offset_centered tx x w mode s) (in_view s mode x w)"
proof (cases "is_fullscreen mode \<or> sw (r_size (mode_area s mode)) \<le> w")
  case True
  then have "compute_new_view_offset_centered tx x w mode s = compute_new_view_offset_fit tx x w mode s"
    by (auto simp: compute_new_view_offset_centered_def Let_def split: if_splits)
  with for_fit_ok [OF assms] show ?thesis by simp
next
  case False
  then show ?thesis
    by (auto simp: compute_new_view_offset_centered_def Let_def inside_def in_view_def field_simps)
qed

lemma for_column_ok:
  assumes "space_parts E s" and "sp_active_column_idx s \<le> length (sp_columns s)"
    and "idx < length (sp_columns s)"
  shows "runs (for_column_fit tx idx s) (shows_column s idx)"
    and "runs (for_column_centered tx idx s) (shows_column s idx)"
  using for_fit_ok [OF assms(1,2)] for_centered_ok [OF assms(1,2)] assms(3)
    space_partsD(5) [OF assms(1,3)] column_x_Some [OF assms(1)]
  by (simp_all add: for_column_fit_def for_column_centered_def)

lemma for_column_on_overflow_ok:
  assumes "space_parts E s" and "sp_active_column_idx s \<le> length (sp_columns s)"
    and "idx < length (sp_columns s)"
  shows "runs (for_column_on_overflow tx idx prev s) (shows_column s idx)"
proof -
  define i where "i = (if prev > idx then min (idx + 1) (length (sp_columns s) - 1) else idx - 1)"
  have i: "i < length (sp_columns s)" using assms(3) by (auto simp: i_def)
  note w = space_partsD(5) [OF assms(1) i] space_partsD(5) [OF assms(1,3)]
    column_x_Some [OF assms(1) less_imp_le [OF i]] column_x_Some [OF assms(1) less_imp_le [OF assms(3)]]
  show ?thesis
    using for_column_ok [OF assms] i assms(3)
    by (simp add: for_column_on_overflow_def Let_def w flip: i_def)
qed

lemma compute_for_column_ok:
  assumes "space_parts E s" and "sp_active_column_idx s \<le> length (sp_columns s)"
    and "idx < length (sp_columns s)"
  shows "runs (compute_new_view_offset_for_column tx idx prev s) (shows_column s idx)"
  unfolding compute_new_view_offset_for_column_def
  using for_column_ok [OF assms] for_column_on_overflow_ok [OF assms]
  by (simp split: CenterFocusedColumn.split option.split)

section \<open>The layout as a grid of windows\<close>

text \<open>
  What the scrolling layout promises: a strip of columns, each a list of windows with an active one,
  an active column, and whether removing the active column goes back to the previous one.
\<close>

record 'id Grid =
  g_cols :: "('id list \<times> nat) list"
  g_active :: nat
  g_prev :: bool

definition column_cell :: "('w, 'id) LayoutEnv \<Rightarrow> 'w Column \<Rightarrow> 'id list \<times> nat" where
  "column_cell E c = (column_ids E c, c_active_tile_idx c)"

definition grid :: "('w, 'id) LayoutEnv \<Rightarrow> ('w, 'id) Space \<Rightarrow> 'id Grid" where
  "grid E s = \<lparr>g_cols = map (column_cell E) (sp_columns s), g_active = sp_active_column_idx s,
     g_prev = (sp_activate_prev_column_on_removal s \<noteq> None)\<rparr>"

lemma grid_simps [simp]:
  "g_cols (grid E s) = map (column_cell E) (sp_columns s)"
  "g_active (grid E s) = sp_active_column_idx s"
  "g_prev (grid E s) = (sp_activate_prev_column_on_removal s \<noteq> None)"
  by (simp_all add: grid_def)

lemma column_contains_cell: "column_contains E i c \<longleftrightarrow> i \<in> set (fst (column_cell E c))"
  by (auto simp: column_contains_def column_cell_def)

lemma column_cell_length: "column_cell E c' = column_cell E c \<Longrightarrow> length (c_tiles c') = length (c_tiles c)"
  by (auto simp: column_cell_def dest: map_eq_imp_length_eq)

section \<open>Cosmetic changes\<close>

text \<open>
  A cosmetic change of a column animates it or asks its windows for sizes; one of the space does so
  with its columns and moves the view.
\<close>

definition column_cosmetic :: "('w, 'id) LayoutEnv \<Rightarrow> 'w Column \<Rightarrow> 'w Column \<Rightarrow> bool" where
  "column_cosmetic E c c' \<longleftrightarrow> column_inv E c' \<and> column_env c c' \<and> column_cell E c' = column_cell E c"

lemma column_cosmeticI: "column_op E c c' \<Longrightarrow> c_active_tile_idx c' = c_active_tile_idx c \<Longrightarrow> column_cosmetic E c c'"
  by (simp add: column_cosmetic_def column_cell_def)

lemma column_cosmetic_refl: "column_inv E c \<Longrightarrow> column_cosmetic E c c"
  by (simp add: column_cosmetic_def)

lemma column_cosmetic_trans: "column_cosmetic E a b \<Longrightarrow> column_cosmetic E b c \<Longrightarrow> column_cosmetic E a c"
  by (auto simp: column_cosmetic_def intro: column_env_trans)

definition space_cosmetic :: "('w, 'id) LayoutEnv \<Rightarrow> ('w, 'id) Space \<Rightarrow> ('w, 'id) Space \<Rightarrow> bool" where
  "space_cosmetic E s s' \<longleftrightarrow> space_env s s' \<and> sp_data s' = sp_data s \<and>
     sp_active_column_idx s' = sp_active_column_idx s \<and>
     sp_interactive_resize s' = sp_interactive_resize s \<and>
     sp_activate_prev_column_on_removal s' = sp_activate_prev_column_on_removal s \<and>
     sp_view_offset_to_restore s' = sp_view_offset_to_restore s \<and>
     vo_ok (sp_view_offset s') \<and>
     list_all2 (column_cosmetic E) (sp_columns s) (sp_columns s')"

lemma space_cosmetic_refl:
  assumes "space_parts E s" shows "space_cosmetic E s s"
proof -
  have "list_all2 (column_cosmetic E) (sp_columns s) (sp_columns s)"
    using space_partsD(3) [OF assms] by (simp add: list_all2_conv_all_nth column_cosmetic_refl)
  with assms show ?thesis by (simp add: space_cosmetic_def space_parts_def)
qed

lemma space_cosmetic_trans:
  assumes "space_cosmetic E a b" and "space_cosmetic E b c" shows "space_cosmetic E a c"
proof -
  have "list_all2 (column_cosmetic E) (sp_columns a) (sp_columns c)"
    using assms list_all2_trans [OF column_cosmetic_trans [of E]] by (auto simp: space_cosmetic_def)
  with assms show ?thesis by (auto simp: space_cosmetic_def intro: space_env_trans)
qed

lemma space_cosmeticD:
  assumes "space_cosmetic E s s'"
  shows "length (sp_columns s') = length (sp_columns s)" and "space_env s s'"
    and "i < length (sp_columns s) \<Longrightarrow> column_cosmetic E (sp_columns s ! i) (sp_columns s' ! i)"
    and "i < length (sp_columns s) \<Longrightarrow> column_sizing_mode (sp_columns s' ! i) = column_sizing_mode (sp_columns s ! i)"
    and "map (column_cell E) (sp_columns s') = map (column_cell E) (sp_columns s)"
    and "sp_columns s' = [] \<longleftrightarrow> sp_columns s = []" and "sp_active_column_idx s' = sp_active_column_idx s"
    and "grid E s' = grid E s" and "sp_interactive_resize s' = sp_interactive_resize s"
    and "sp_view_offset_to_restore s' = sp_view_offset_to_restore s" and "sp_data s' = sp_data s"
proof -
  show len: "length (sp_columns s') = length (sp_columns s)"
    using assms list_all2_lengthD by (metis space_cosmetic_def)
  show nth: "i < length (sp_columns s) \<Longrightarrow> column_cosmetic E (sp_columns s ! i) (sp_columns s' ! i)" for i
    using assms by (simp add: space_cosmetic_def list_all2_conv_all_nth)
  show "i < length (sp_columns s) \<Longrightarrow> column_sizing_mode (sp_columns s' ! i) = column_sizing_mode (sp_columns s ! i)"
    using nth [of i] by (simp add: column_cosmetic_def column_env_def)
  show cells: "map (column_cell E) (sp_columns s') = map (column_cell E) (sp_columns s)"
    using len nth by (intro nth_equalityI) (simp_all add: column_cosmetic_def)
  show "sp_columns s' = [] \<longleftrightarrow> sp_columns s = []" using len by (metis length_0_conv)
  show "grid E s' = grid E s" using cells assms by (simp add: grid_def space_cosmetic_def)
qed (use assms in \<open>simp_all add: space_cosmetic_def\<close>)

lemma space_cosmetic_parts:
  assumes "space_cosmetic E s s'" and "space_parts E s"
  shows "space_parts E s'"
proof -
  note D = space_cosmeticD [OF assms(1)]
  have "column_fits E s' (sp_columns s' ! i) \<and> column_px_width (sp_columns s' ! i) = Some (cd_width (sp_data s' ! i))"
    if i: "i < length (sp_columns s)" for i
    using D(3) [OF i] space_partsD(4,5) [OF assms(2) i] D(11)
    by (simp add: column_fits_env [OF D(2)]) (simp add: column_fits_def column_cosmetic_def column_env_defs)
  with assms D(1) show ?thesis
    by (simp add: space_parts_def space_cosmetic_def space_env_def cols_ok_def list_all2_conv_all_nth)
qed

lemma space_cosmetic_core: "space_cosmetic E s s' \<Longrightarrow> space_core E s \<Longrightarrow> space_core E s'"
  using space_cosmetic_parts [of E s s'] space_cosmeticD [of E s s'] by (simp add: space_core_def)

lemma space_cosmetic_restore:
  assumes "space_cosmetic E s s'" and "space_core E s" and "restore_ok s" shows "restore_ok s'"
  using assms(3) space_cosmeticD [OF assms(1)] space_core_active [OF assms(2)]
  by (simp add: restore_ok_def)

lemma resize_present_cells:
  "resize_present E s \<longleftrightarrow> (case sp_interactive_resize s of None \<Rightarrow> True
     | Some r \<Rightarrow> ir_window r \<in> set (concat (map fst (map (column_cell E) (sp_columns s)))))"
  by (auto simp: resize_present_def column_contains_cell split: option.split)

lemma space_cosmetic_resize:
  assumes "space_cosmetic E s s'" and "resize_present E s" shows "resize_present E s'"
  using assms(2) space_cosmeticD(5,9) [OF assms(1)] by (simp only: resize_present_cells)

lemma space_cosmetic_inv: "space_cosmetic E s s' \<Longrightarrow> space_inv E s \<Longrightarrow> space_inv E s'"
  using space_cosmetic_core space_cosmetic_restore space_cosmetic_resize
  by (metis space_inv_def)

text \<open>The view.\<close>

lemma space_cosmetic_view: "space_parts E s \<Longrightarrow> vo_ok vo \<Longrightarrow> space_cosmetic E s (s\<lparr>sp_view_offset := vo\<rparr>)"
  using space_cosmetic_refl [of E s] by (simp add: space_cosmetic_def space_env_def)

text \<open>One column.\<close>

lemma space_cosmetic_column:
  assumes "space_parts E s" and "i < length (sp_columns s)" and "column_cosmetic E (sp_columns s ! i) c"
  shows "space_cosmetic E s (s\<lparr>sp_columns := (sp_columns s)[i := c]\<rparr>)"
proof -
  have "column_cosmetic E (sp_columns s ! j) ((sp_columns s)[i := c] ! j)" if "j < length (sp_columns s)" for j
    using that assms(2,3) space_partsD(3) [OF assms(1) that]
    by (cases "j = i") (simp_all add: column_cosmetic_refl)
  with assms(1) show ?thesis
    by (simp add: space_cosmetic_def space_env_def space_parts_def list_all2_conv_all_nth)
qed

lemma with_column_cosmetic:
  assumes "space_parts E s" and "i < length (sp_columns s)"
    and "runs (f (sp_columns s ! i)) (column_cosmetic E (sp_columns s ! i))"
  shows "runs (with_column i f s) (space_cosmetic E s)"
  using assms(2,3)
  by (auto simp: with_column_def vec_modify_def elim!: runs_mono intro: space_cosmetic_column [OF assms(1,2)])

text \<open>A slice of the columns.\<close>

lemma map_slice_cosmetic:
  assumes parts: "space_parts E s" and "lo \<le> hi" and "hi \<le> length (sp_columns s)"
    and f: "\<And>c. column_fits E s c \<Longrightarrow> runs (f c) (column_cosmetic E c)"
  shows "runs (map_slice lo hi f (sp_columns s)) (\<lambda>cs. space_cosmetic E s (s\<lparr>sp_columns := cs\<rparr>))"
proof -
  let ?cs = "sp_columns s"
  have "\<And>c. c \<in> set (take (hi - lo) (drop lo ?cs)) \<Longrightarrow> column_fits E s c"
    using space_partsD(4) [OF parts] by (metis in_set_conv_nth in_set_dropD in_set_takeD)
  then have "runs (map_opt f (take (hi - lo) (drop lo ?cs)))
      (\<lambda>ys. list_all2 (column_cosmetic E) (take (hi - lo) (drop lo ?cs)) ys)"
    using f by (intro runs_map_opt) blast
  moreover have "list_all2 (column_cosmetic E) ?cs (take lo ?cs @ ys @ drop hi ?cs)"
    if "list_all2 (column_cosmetic E) (take (hi - lo) (drop lo ?cs)) ys" for ys
  proof -
    have refl: "list_all2 (column_cosmetic E) ?cs ?cs"
      using space_cosmetic_refl [OF parts] by (simp add: space_cosmetic_def)
    have split: "?cs = take lo ?cs @ take (hi - lo) (drop lo ?cs) @ drop hi ?cs"
      using assms(2) by (metis append_take_drop_id drop_drop le_add_diff_inverse2)
    show ?thesis
      by (subst split, intro list_all2_appendI that list_all2_takeI list_all2_dropI refl)
  qed
  ultimately show ?thesis
    using assms(2,3) parts
    by (auto simp: map_slice_def space_cosmetic_def space_env_def space_parts_def elim!: runs_mono)
qed

lemma column_animate_cosmetic:
  "anim_config_ok cfg \<Longrightarrow> column_inv E c \<Longrightarrow>
     runs (column_animate_move_from_with_config E d cfg c) (column_cosmetic E c)"
  by (rule runs_mono [OF column_animate_move_ok]) (auto intro: column_cosmeticI)

lemma column_animate_move_from_cosmetic:
  assumes "column_inv E c" shows "runs (column_animate_move_from E d c) (column_cosmetic E c)"
  using column_animate_cosmetic [OF options_ok_anims(4) [OF column_invD(4) [OF assms]] assms]
  by (simp add: column_animate_move_from_def)

lemma animate_columns_ok:
  assumes "space_parts E s" and "lo \<le> hi" and "hi \<le> length (sp_columns s)" and "anim_config_ok cfg"
  shows "runs (animate_columns E lo hi d cfg s) (space_cosmetic E s)"
  using map_slice_cosmetic [OF assms(1-3) column_animate_cosmetic [OF assms(4)]]
  by (simp add: animate_columns_def column_fits_def)

section \<open>Moving the view and activating a column\<close>

lemma vo_ok_offset [simp]: "vo_ok (vo_offset d vo) = vo_ok vo"
  by (cases vo) simp_all

lemma anim_offset_to [simp]: "an_to (anim_offset d a) = an_to a + d"
  by (simp add: anim_offset_def Let_def split: Kind.splits)

lemma vo_target_offset [simp]: "vo_target (vo_offset d vo) = vo_target vo + d"
  by (cases vo) simp_all

lemma gesture_animate_ok:
  "anim_config_ok cfg \<Longrightarrow> runs (gesture_animate_from E x cfg g) (\<lambda>g'. vg_tracker g' = vg_tracker g \<and>
     vg_current_view_offset g' = vg_current_view_offset g)"
  unfolding gesture_animate_from_def Let_def
  by (auto intro!: runs_mono [OF runs_anim_new])

lemma vo_animate_ok:
  assumes "vo_ok vo" and cfg: "anim_config_ok cfg"
  shows "runs (vo_animate_to E p o' cfg vo) (\<lambda>vo. vo_ok vo \<and> vo_target vo = o')"
proof -
  have new: "runs (map_option VAnimation (anim_new (le_anim E) (vo_current E vo) o' 0 cfg))
      (\<lambda>vo. vo_ok vo \<and> vo_target vo = o')" for vo
    by (auto intro!: runs_mono [OF runs_anim_new [OF cfg]])
  show ?thesis
    unfolding vo_animate_to_def Let_def using assms(1) new [of vo]
    by (cases vo) (auto intro!: runs_mono [OF gesture_animate_ok [OF cfg]])
qed

lemma animate_view_ok:
  assumes parts: "space_parts E s" and a: "sp_active_column_idx s \<le> length (sp_columns s)"
    and i: "idx \<le> length (sp_columns s)" and cfg: "anim_config_ok cfg"
  shows "runs (animate_view_offset_with_config E idx o' cfg s) (\<lambda>s'. space_cosmetic E s s' \<and>
     sp_columns s' = sp_columns s \<and> vo_target (sp_view_offset s') = o')"
  unfolding animate_view_offset_with_config_def
  using parts column_x_Some [OF parts a] column_x_Some [OF parts i] space_cosmetic_view [OF parts]
  by (auto simp: space_parts_def intro!: runs_mono [OF vo_animate_ok [OF _ cfg]])

lemma animate_view_to_column_ok:
  assumes "space_parts E s" and "sp_active_column_idx s \<le> length (sp_columns s)"
    and "idx < length (sp_columns s)" and "anim_config_ok cfg"
  shows "runs (animate_view_offset_to_column_with_config E tx idx prev cfg s) (\<lambda>s'. space_cosmetic E s s' \<and>
     sp_columns s' = sp_columns s \<and> shows_column s idx (vo_target (sp_view_offset s')))"
    and "runs (animate_view_offset_to_column_centered E tx idx cfg s) (\<lambda>s'. space_cosmetic E s s' \<and>
     sp_columns s' = sp_columns s \<and> shows_column s idx (vo_target (sp_view_offset s')))"
proof -
  note go = animate_view_ok [OF assms(1,2) less_imp_le [OF assms(3)] assms(4)]
  show "runs (animate_view_offset_to_column_with_config E tx idx prev cfg s) (\<lambda>s'. space_cosmetic E s s' \<and>
     sp_columns s' = sp_columns s \<and> shows_column s idx (vo_target (sp_view_offset s')))"
    unfolding animate_view_offset_to_column_with_config_def runs_bind
    by (rule runs_mono [OF compute_for_column_ok [OF assms(1-3)]], rule runs_mono [OF go]) simp
  show "runs (animate_view_offset_to_column_centered E tx idx cfg s) (\<lambda>s'. space_cosmetic E s s' \<and>
     sp_columns s' = sp_columns s \<and> shows_column s idx (vo_target (sp_view_offset s')))"
    unfolding animate_view_offset_to_column_centered_def runs_bind
    by (rule runs_mono [OF for_column_ok(2) [OF assms(1-3)]], rule runs_mono [OF go]) simp
qed

lemma resize_present_cong:
  "sp_columns s' = sp_columns s \<Longrightarrow> sp_interactive_resize s' = sp_interactive_resize s \<Longrightarrow>
     resize_present E s' = resize_present E s"
  by (simp add: resize_present_def split: option.split)

text \<open>The columns stay; the active one changes, and with it what refers to it.\<close>

definition space_activated :: "nat \<Rightarrow> ('w, 'id) Space \<Rightarrow> ('w, 'id) Space \<Rightarrow> bool" where
  "space_activated idx s s' \<longleftrightarrow> space_env s s' \<and> sp_columns s' = sp_columns s \<and> sp_data s' = sp_data s \<and>
     sp_active_column_idx s' = idx \<and> vo_ok (sp_view_offset s') \<and>
     (if idx = sp_active_column_idx s
      then sp_interactive_resize s' = sp_interactive_resize s \<and>
           sp_activate_prev_column_on_removal s' = sp_activate_prev_column_on_removal s \<and>
           sp_view_offset_to_restore s' = sp_view_offset_to_restore s
      else sp_interactive_resize s' = None \<and> sp_activate_prev_column_on_removal s' = None \<and>
           sp_view_offset_to_restore s' = None \<and>
           shows_column s idx (vo_target (sp_view_offset s')))"

lemma activate_column_config_ok:
  assumes parts: "space_parts E s" and a: "sp_active_column_idx s \<le> length (sp_columns s)"
    and i: "idx < length (sp_columns s)" and cfg: "anim_config_ok cfg"
  shows "runs (activate_column_with_anim_config E idx cfg s) (space_activated idx s)"
proof (cases "sp_active_column_idx s = idx \<and> (sp_columns s = [] \<or> \<not> vo_is_dnd_scroll (sp_view_offset s))")
  case True
  with parts show ?thesis
    by (simp add: activate_column_with_anim_config_def space_activated_def space_parts_def)
next
  case False
  then show ?thesis
    unfolding activate_column_with_anim_config_def
    by (simp only: if_False runs_bind, intro runs_mono [OF animate_view_to_column_ok(1) [OF parts a i cfg]])
       (simp add: space_activated_def space_cosmetic_def space_env_def)
qed

lemma activate_column_ok:
  assumes "space_core E s" and "idx < length (sp_columns s)"
  shows "runs (activate_column E idx s) (space_activated idx s)"
  using activate_column_config_ok [OF space_core_parts [OF assms(1)] space_core_active_le [OF assms(1)] assms(2)]
    space_partsD(7) [OF space_core_parts [OF assms(1)]]
  by (simp add: activate_column_def)

definition g_activate :: "nat \<Rightarrow> 'id Grid \<Rightarrow> 'id Grid" where
  "g_activate idx g = (if idx = g_active g then g else g\<lparr>g_active := idx, g_prev := False\<rparr>)"

lemma space_activatedD:
  assumes "space_activated idx s s'"
  shows "space_env s s'" and "sp_columns s' = sp_columns s" and "sp_data s' = sp_data s"
    and "sp_active_column_idx s' = idx" and "grid E s' = g_activate idx (grid E s)"
    and "space_parts E s \<Longrightarrow> space_parts E s'"
proof -
  have env: "space_env s s'" using assms by (simp add: space_activated_def)
  show "grid E s' = g_activate idx (grid E s)"
    using assms by (auto simp: space_activated_def g_activate_def grid_def)
  show "space_parts E s \<Longrightarrow> space_parts E s'"
    using assms env
    by (simp add: space_parts_def space_activated_def cols_ok_def column_fits_env [OF env])
       (simp add: space_env_def)
qed (use assms in \<open>simp_all add: space_activated_def\<close>)

lemma space_activated_core:
  "space_activated idx s s' \<Longrightarrow> space_parts E s \<Longrightarrow> idx < length (sp_columns s) \<Longrightarrow> space_core E s'"
  using space_activatedD [of idx s s'] by (auto simp: space_core_def)

lemma space_activated_inv:
  assumes "space_activated idx s s'" and "space_inv E s" and "idx < length (sp_columns s)"
  shows "space_inv E s'"
proof -
  have core: "space_core E s'"
    by (rule space_activated_core [OF assms(1) space_inv_parts [OF assms(2)] assms(3)])
  show ?thesis
  proof (cases "idx = sp_active_column_idx s")
    case True
    with core assms(1,2) resize_present_cong [of s' s E] show ?thesis
      by (simp add: space_inv_def space_activated_def restore_ok_def)
  next
    case False
    with core assms(1) show ?thesis
      by (simp add: space_inv_def space_activated_def restore_ok_def resize_present_def)
  qed
qed

section \<open>Removing a tile from a column\<close>

abbreviation list_remove :: "nat \<Rightarrow> 'a list \<Rightarrow> 'a list" where
  "list_remove i xs \<equiv> take i xs @ drop (Suc i) xs"

lemma list_remove_nth:
  "i < length xs \<Longrightarrow> k < length xs - 1 \<Longrightarrow> list_remove i xs ! k = xs ! (if k < i then k else Suc k)"
  by (auto simp: nth_append min_def)

lemma length_list_remove: "i < length xs \<Longrightarrow> length (list_remove i xs) = length xs - 1"
  by simp

lemma set_list_remove: "set (list_remove i xs) \<subseteq> set xs"
  using set_take_subset set_drop_subset by fastforce

text \<open>The active window after the removal of the one at a place.\<close>

fun cell_remove :: "nat \<Rightarrow> 'id list \<times> nat \<Rightarrow> 'id list \<times> nat" where
  "cell_remove i (ids, a) =
     (list_remove i ids,
      if i < a then a - 1 else if i = a \<and> i = length ids - 1 then i - 1 else a)"

lemma one_sized_remove:
  assumes one: "one_sized ds" and i: "i < length ds" shows "one_sized (list_remove i ds)"
  unfolding one_sized_def
proof (intro allI impI)
  let ?k = "\<lambda>j. if j < i then j else Suc j"
  fix j k
  assume j: "j < length (list_remove i ds)" and k: "k < length (list_remove i ds)"
    and h: "\<not> is_auto (td_height (list_remove i ds ! j))" "\<not> is_auto (td_height (list_remove i ds ! k))"
  have j': "j < length ds - 1" and k': "k < length ds - 1" using i j k by simp_all
  then have jk: "?k j < length ds" "?k k < length ds" by auto
  have "\<not> is_auto (td_height (ds ! ?k j))" "\<not> is_auto (td_height (ds ! ?k k))"
    using h unfolding list_remove_nth [OF i j'] list_remove_nth [OF i k'] .
  with jk one have "?k j = ?k k" unfolding one_sized_def by blast
  then show "j = k" by (auto split: if_splits)
qed

lemma reset_single_weight_simps:
  "length (reset_single_weight ds) = length ds"
  "length ds \<noteq> 1 \<Longrightarrow> reset_single_weight ds = ds"
  "one_sized ds \<Longrightarrow> one_sized (reset_single_weight ds)"
  "length ds = 1 \<Longrightarrow> td_height (reset_single_weight ds ! 0) = HAuto w \<Longrightarrow> w = 1"
  by (auto simp: reset_single_weight_def one_sized_def split: list.split WindowHeight.split
      WindowHeight.splits list.splits)

lemma tile_in_reset:
  "list_all2 (tile_in E c) ts ds \<Longrightarrow> list_all2 (tile_in E c) ts (reset_single_weight ds)"
  by (auto simp: reset_single_weight_def tile_in_def td_fresh_def height_ok_def list_all2_Cons2
      split: list.split WindowHeight.split)

lemma tile_in_same: "tile_in E c t d \<Longrightarrow> tile_ok E t' \<Longrightarrow> tile_same t t' \<Longrightarrow> tile_in E c t' d"
  using tile_size_frame [OF tile_same_frame, of t t' E]
  by (simp add: tile_in_def tile_same_def td_fresh_def)

abbreviation tiles_same :: "('w, 'id) LayoutEnv \<Rightarrow> 'w Tile list \<Rightarrow> 'w Tile list \<Rightarrow> bool" where
  "tiles_same E \<equiv> list_all2 (\<lambda>t t'. tile_ok E t' \<and> tile_same t t')"

lemma tiles_same_ids:
  "tiles_same E ts ts' \<Longrightarrow> map (\<lambda>t. el_id E (tl_window t)) ts' = map (\<lambda>t. el_id E (tl_window t)) ts"
  by (induction rule: list_all2_induct) (simp_all add: tile_same_def)

lemma tiles_same_mode:
  "tiles_same E ts ts' \<Longrightarrow> map tl_sizing_mode ts' = map tl_sizing_mode ts"
  by (induction rule: list_all2_induct) (simp_all add: tile_same_def)

lemma column_pre_removed:
  assumes inv: "column_inv E c" and n: "1 < length (c_tiles c)" and i: "i < length (c_tiles c)"
    and ts: "tiles_same E (list_remove i (c_tiles c)) ts" and a: "a < length (c_tiles c) - 1"
  shows "column_pre E (c\<lparr>c_tiles := ts, c_data := reset_single_weight (list_remove i (c_data c)),
           c_active_tile_idx := a\<rparr>)" (is "column_pre E ?c")
proof -
  note D = column_invD [OF inv]
  let ?ds = "list_remove i (c_data c)"
  have len: "length ts = length (c_tiles c) - 1" "length ?ds = length (c_tiles c) - 1"
    using list_all2_lengthD [OF ts] i D(3) by simp_all
  have "list_all2 (tile_in E c) (c_tiles c) (c_data c)"
    using inv by (simp add: column_inv_def column_pre_defs)
  then have "list_all2 (tile_in E c) (list_remove i (c_tiles c)) ?ds"
    by (intro list_all2_appendI list_all2_takeI list_all2_dropI)
  then have "list_all2 (tile_in E c) ts ?ds"
    using ts tile_in_same unfolding list_all2_conv_all_nth by metis
  moreover have "tile_in E ?c = tile_in E c" by (simp add: fun_eq_iff tile_in_def height_ok_def)
  moreover have "one_sized ?ds"
    using inv i D(3) by (intro one_sized_remove) (simp_all add: column_inv_def column_pre_defs)
  moreover have "\<forall>w. td_height (reset_single_weight ?ds ! 0) = HAuto w \<longrightarrow> w = 1" if "length ts = 1"
    using reset_single_weight_simps(4) [of ?ds] len that by simp
  ultimately show ?thesis
    using inv n a len tile_in_reset reset_single_weight_simps(3) [of ?ds]
    by (auto simp: column_inv_def column_pre_defs column_pending_sizing_mode_def is_tabbed_def)
qed

lemma tiles_same_refl: "\<forall>t \<in> set ts. tile_ok E t \<Longrightarrow> tiles_same E ts ts"
  by (simp add: list_all2_same)

lemma tiles_same_update:
  assumes "\<forall>t \<in> set ts. tile_ok E t" and "k < length ts" and "tile_ok E t" and "tile_same (ts ! k) t"
  shows "tiles_same E ts (ts[k := t])"
  using assms by (auto simp: list_all2_conv_all_nth nth_list_update)

lemma activate_after_removal_ok:
  assumes ok: "\<forall>t \<in> set (c_tiles c). tile_ok E t" and n: "c_tiles c \<noteq> []"
    and i: "i \<le> length (c_tiles c)"
    and a: "a = (if i < c_active_tile_idx c then c_active_tile_idx c - 1
         else if i = c_active_tile_idx c \<and> i = length (c_tiles c) then i - 1 else c_active_tile_idx c)"
  shows "runs (activate_after_removal i c)
     (\<lambda>c'. \<exists>ts. c' = c\<lparr>c_tiles := ts, c_active_tile_idx := a\<rparr> \<and> tiles_same E (c_tiles c) ts)"
proof -
  have refl: "tiles_same E (c_tiles c) (c_tiles c)" using ok by (rule tiles_same_refl)
  have alpha: "tiles_same E (c_tiles c) ((c_tiles c)[k := ensure_alpha_animates_to_1 (c_tiles c ! k)])"
    if "k < length (c_tiles c)" for k
    using that ok ensure_alpha_ok [of E "c_tiles c ! k"] nth_mem [OF that] by (intro tiles_same_update) auto
  consider "i < c_active_tile_idx c" | "i = c_active_tile_idx c" "i = length (c_tiles c)"
    | "i = c_active_tile_idx c" "i < length (c_tiles c)" | "i > c_active_tile_idx c"
    using i by linarith
  then show ?thesis
  proof cases
    case 1
    then show ?thesis using refl by (auto simp: a activate_after_removal_def intro!: exI [of _ "c_tiles c"])
  next
    case 2
    then have "i - 1 < length (c_tiles c)" "i \<noteq> i - 1" using n length_greater_0_conv [of "c_tiles c"] by linarith+
    with 2 alpha [of "i - 1"] show ?thesis
      by (auto simp: a activate_after_removal_def column_activate_idx_def vec_update_def
          intro!: exI [of _ "(c_tiles c)[i - 1 := ensure_alpha_animates_to_1 (c_tiles c ! (i - 1))]"])
  next
    case 3
    with alpha [of i] show ?thesis
      by (auto simp: a activate_after_removal_def vec_update_def
          intro!: exI [of _ "(c_tiles c)[i := ensure_alpha_animates_to_1 (c_tiles c ! i)]"])
  next
    case 4
    then show ?thesis using refl by (auto simp: a activate_after_removal_def intro!: exI [of _ "c_tiles c"])
  qed
qed

text \<open>The tiles below move up, and a hidden tab that leaves fades in.\<close>

lemma map_slice_tiles:
  assumes ok: "\<forall>t \<in> set ts. tile_ok E t" and "lo \<le> hi" and "hi \<le> length ts"
    and f: "\<And>t. tile_ok E t \<Longrightarrow> animates E f t"
  shows "runs (map_slice lo hi f ts) (tiles_same E ts)"
proof -
  have "runs (map_opt f (take (hi - lo) (drop lo ts))) (tiles_same E (take (hi - lo) (drop lo ts)))"
    using ok f by (intro runs_map_opt) (auto dest: in_set_takeD in_set_dropD)
  moreover have "tiles_same E ts (take lo ts @ us @ drop hi ts)"
    if "tiles_same E (take (hi - lo) (drop lo ts)) us" for us
  proof -
    have split: "ts = take lo ts @ take (hi - lo) (drop lo ts) @ drop hi ts"
      using assms(2) by (metis append_take_drop_id drop_drop le_add_diff_inverse2)
    show ?thesis
      by (subst split, intro list_all2_appendI that list_all2_takeI list_all2_dropI tiles_same_refl ok)
  qed
  ultimately show ?thesis using assms(2,3) by (auto simp: map_slice_def elim!: runs_mono)
qed

lemma tiles_same_trans: "tiles_same E ts us \<Longrightarrow> tiles_same E us vs \<Longrightarrow> tiles_same E ts vs"
  by (rule list_all2_trans) (auto intro: tile_same_trans)

lemma tiles_same_ok: "tiles_same E ts us \<Longrightarrow> \<forall>t \<in> set us. tile_ok E t"
  by (auto simp: list_all2_conv_all_nth in_set_conv_nth)

lemma vec_modify_tiles:
  assumes ok: "\<forall>t \<in> set ts. tile_ok E t" and "i < length ts"
    and f: "\<And>t. tile_ok E t \<Longrightarrow> animates E f t"
  shows "runs (vec_modify i f ts) (tiles_same E ts)"
  using assms(2) f [of "ts ! i"] ok
  by (auto simp: vec_modify_def elim!: runs_mono intro!: tiles_same_update)

text \<open>What is left after a removal.\<close>

definition column_removed :: "('w, 'id) LayoutEnv \<Rightarrow> nat \<Rightarrow> 'w Column \<Rightarrow> 'w Tile \<Rightarrow> 'w Column \<Rightarrow> bool" where
  "column_removed E i c t c' \<longleftrightarrow> column_inv E c' \<and> column_fixed c c' \<and>
     column_cell E c' = cell_remove i (column_cell E c) \<and> tile_ok E t \<and> tl_options t = c_options c \<and>
     tl_scale t = c_scale c \<and> tl_view_size t = c_view_size c \<and>
     el_id E (tl_window t) = column_ids E c ! i"

context layout_element
begin

lemma remove_from_column_ok:
  assumes inv: "column_inv E c" and n: "1 < length (c_tiles c)" and i: "i < length (c_tiles c)"
    and cfg: "anim_config_ok cfg"
  shows "runs (remove_from_column E i cfg c) (\<lambda>(t, c'). column_removed E i c t c')"
proof -
  note D = column_invD [OF inv]
  have ok: "\<forall>t \<in> set (c_tiles c). tile_ok E t" using D(5) by (metis in_set_conv_nth)
  have off: "tile_offset k c = Some (tile_offsets c ! k)" if "k \<le> length (c_tiles c)" for k
    using that D(3) by (simp add: tile_offset_def vec_get_def)
  have "runs (map_slice (i + 1) (length (c_tiles c))
      (animate_move_y_from E (py (tile_offsets c ! (i + 1)) - py (tile_offsets c ! i))) (c_tiles c))
      (tiles_same E (c_tiles c))"
    by (rule map_slice_tiles [OF ok]) (use i animate_move_y_from_ok in simp_all)
  then obtain ts1 where ts1: "map_slice (i + 1) (length (c_tiles c))
      (animate_move_y_from E (py (tile_offsets c ! (i + 1)) - py (tile_offsets c ! i))) (c_tiles c) = Some ts1"
    "tiles_same E (c_tiles c) ts1"
    by (rule runsE)
  have len1: "length ts1 = length (c_tiles c)" using list_all2_lengthD [OF ts1(2)] by simp
  have "runs (if is_tabbed c \<and> i \<noteq> c_active_tile_idx c then vec_modify i (animate_alpha E 0 1 cfg) ts1
        else Some ts1) (tiles_same E ts1)"
    using vec_modify_tiles [OF tiles_same_ok [OF ts1(2)], of i "animate_alpha E 0 1 cfg",
        OF _ animate_alpha_ok [OF _ cfg]] i len1
      tiles_same_refl [OF tiles_same_ok [OF ts1(2)]] by simp
  then obtain ts2 where ts2: "(if is_tabbed c \<and> i \<noteq> c_active_tile_idx c
        then vec_modify i (animate_alpha E 0 1 cfg) ts1 else Some ts1) = Some ts2"
    "tiles_same E (c_tiles c) ts2"
    by (rule runsE) (use tiles_same_trans [OF ts1(2)] in blast)
  have len2: "length ts2 = length (c_tiles c)" using list_all2_lengthD [OF ts2(2)] by simp
  define us where "us = list_remove i ts2"
  have rem: "tiles_same E (list_remove i (c_tiles c)) us"
    unfolding us_def using ts2(2) by (intro list_all2_appendI list_all2_takeI list_all2_dropI)
  have us: "length us = length (c_tiles c) - 1" "us \<noteq> []" using len2 i n by (auto simp: us_def)
  let ?c2 = "c\<lparr>c_tiles := us, c_data := reset_single_weight (list_remove i (c_data c))\<rparr>"
  define a where "a = (if i < c_active_tile_idx c then c_active_tile_idx c - 1
     else if i = c_active_tile_idx c \<and> i = length (c_tiles c) - 1 then i - 1 else c_active_tile_idx c)"
  have "runs (activate_after_removal i ?c2) (\<lambda>c'. \<exists>ts. c' = ?c2\<lparr>c_tiles := ts, c_active_tile_idx := a\<rparr> \<and>
      tiles_same E us ts)"
  proof -
    have a': "a = (if i < c_active_tile_idx ?c2 then c_active_tile_idx ?c2 - 1
        else if i = c_active_tile_idx ?c2 \<and> i = length (c_tiles ?c2) then i - 1 else c_active_tile_idx ?c2)"
      using us(1) by (simp add: a_def)
    show ?thesis
      using activate_after_removal_ok [OF _ _ _ a', of E] tiles_same_ok [OF rem] us i by simp
  qed
  then obtain ts3 where ts3: "activate_after_removal i ?c2 = Some (?c2\<lparr>c_tiles := ts3, c_active_tile_idx := a\<rparr>)"
    "tiles_same E us ts3"
    by (rule runsE) blast
  define c3 where "c3 = c\<lparr>c_tiles := ts3, c_data := reset_single_weight (list_remove i (c_data c)),
    c_active_tile_idx := a\<rparr>"
  have c3': "?c2\<lparr>c_tiles := ts3, c_active_tile_idx := a\<rparr> = c3" by (simp add: c3_def)
  have same: "tiles_same E (list_remove i (c_tiles c)) ts3" by (rule tiles_same_trans [OF rem ts3(2)])
  have a: "a < length (c_tiles c) - 1" using i n D(2) by (auto simp: a_def)
  have pre: "column_pre E c3" unfolding c3_def by (rule column_pre_removed [OF inv n i same a])
  obtain c4 where c4: "update_tile_sizes E True c3 = Some c4" "column_inv E c4" "column_requested E c3 c4"
    using runsD [OF update_tile_sizes_ok [OF pre]] by blast
  have t: "tile_ok E (ts2 ! i)" "tile_same (c_tiles c ! i) (ts2 ! i)"
    using ts2(2) i by (auto simp: list_all2_conv_all_nth)
  have ids: "column_ids E c3 = list_remove i (column_ids E c)"
    using tiles_same_ids [OF same] by (simp add: c3_def take_map drop_map)
  have "column_removed E i c (ts2 ! i) c4"
    unfolding column_removed_def
  proof (intro conjI)
    show "column_inv E c4" by fact
    show "column_fixed c c4"
      using column_requested_ids(2) [OF c4(3)] by (simp add: column_env_defs c3_def)
    show "column_cell E c4 = cell_remove i (column_cell E c)"
      using column_requested_ids(1,4) [OF c4(3)] ids by (simp add: column_cell_def) (simp add: c3_def a_def)
  qed (use t D(6) [OF i] i in \<open>simp_all add: tile_same_def tile_in_def\<close>)
  moreover have "remove_from_column E i cfg c = Some (ts2 ! i, c4)"
    unfolding remove_from_column_def
    using off i len2 D(3) ts1(1) ts2(1) ts3(1) c4(1) c3'
    by (simp add: vec_remove_def us_def)
  ultimately show ?thesis by simp
qed

end

section \<open>Which fields the invariant reads\<close>

lemma column_fits_fields [simp]:
  "column_fits E (s\<lparr>sp_columns := cs\<rparr>) = column_fits E s"
  "column_fits E (s\<lparr>sp_data := ds\<rparr>) = column_fits E s"
  "column_fits E (s\<lparr>sp_active_column_idx := a\<rparr>) = column_fits E s"
  "column_fits E (s\<lparr>sp_interactive_resize := r\<rparr>) = column_fits E s"
  "column_fits E (s\<lparr>sp_view_offset := vo\<rparr>) = column_fits E s"
  "column_fits E (s\<lparr>sp_activate_prev_column_on_removal := p\<rparr>) = column_fits E s"
  "column_fits E (s\<lparr>sp_view_offset_to_restore := x\<rparr>) = column_fits E s"
  by (simp_all add: fun_eq_iff column_fits_def)

lemma space_parts_fields [simp]:
  "space_parts E (s\<lparr>sp_active_column_idx := a\<rparr>) = space_parts E s"
  "space_parts E (s\<lparr>sp_interactive_resize := r\<rparr>) = space_parts E s"
  "space_parts E (s\<lparr>sp_activate_prev_column_on_removal := p\<rparr>) = space_parts E s"
  "space_parts E (s\<lparr>sp_view_offset_to_restore := x\<rparr>) = space_parts E s"
  by (simp_all add: space_parts_def cols_ok_def)

lemma space_core_fields [simp]:
  "space_core E (s\<lparr>sp_interactive_resize := r\<rparr>) = space_core E s"
  "space_core E (s\<lparr>sp_activate_prev_column_on_removal := p\<rparr>) = space_core E s"
  "space_core E (s\<lparr>sp_view_offset_to_restore := x\<rparr>) = space_core E s"
  by (simp_all add: space_core_def)

lemma restore_ok_fields [simp]:
  "restore_ok (s\<lparr>sp_data := ds\<rparr>) = restore_ok s"
  "restore_ok (s\<lparr>sp_interactive_resize := r\<rparr>) = restore_ok s"
  "restore_ok (s\<lparr>sp_view_offset := vo\<rparr>) = restore_ok s"
  "restore_ok (s\<lparr>sp_activate_prev_column_on_removal := p\<rparr>) = restore_ok s"
  "restore_ok (s\<lparr>sp_view_offset_to_restore := None\<rparr>)"
  by (simp_all add: restore_ok_def)

lemma resize_present_fields [simp]:
  "resize_present E (s\<lparr>sp_data := ds\<rparr>) = resize_present E s"
  "resize_present E (s\<lparr>sp_active_column_idx := a\<rparr>) = resize_present E s"
  "resize_present E (s\<lparr>sp_view_offset := vo\<rparr>) = resize_present E s"
  "resize_present E (s\<lparr>sp_activate_prev_column_on_removal := p\<rparr>) = resize_present E s"
  "resize_present E (s\<lparr>sp_view_offset_to_restore := x\<rparr>) = resize_present E s"
  "resize_present E (s\<lparr>sp_interactive_resize := None\<rparr>)"
  by (simp_all add: resize_present_def split: option.split)

lemma space_inv_fields [simp]:
  "space_inv E (s\<lparr>sp_activate_prev_column_on_removal := p\<rparr>) = space_inv E s"
  "space_inv E s \<Longrightarrow> space_inv E (s\<lparr>sp_view_offset_to_restore := None\<rparr>)"
  "space_inv E s \<Longrightarrow> space_inv E (s\<lparr>sp_interactive_resize := None\<rparr>)"
  by (simp_all add: space_inv_def)

lemma grid_fields [simp]:
  "grid E (s\<lparr>sp_data := ds\<rparr>) = grid E s"
  "grid E (s\<lparr>sp_interactive_resize := r\<rparr>) = grid E s"
  "grid E (s\<lparr>sp_view_offset := vo\<rparr>) = grid E s"
  "grid E (s\<lparr>sp_view_offset_to_restore := x\<rparr>) = grid E s"
  "grid E (s\<lparr>sp_columns := cs\<rparr>) = (grid E s)\<lparr>g_cols := map (column_cell E) cs\<rparr>"
  "grid E (s\<lparr>sp_active_column_idx := a\<rparr>) = (grid E s)\<lparr>g_active := a\<rparr>"
  "grid E (s\<lparr>sp_activate_prev_column_on_removal := p\<rparr>) = (grid E s)\<lparr>g_prev := (p \<noteq> None)\<rparr>"
  by (simp_all add: grid_def)

lemma space_env_fields [simp]:
  "space_env s (t\<lparr>sp_columns := cs\<rparr>) = space_env s t"
  "space_env s (t\<lparr>sp_data := ds\<rparr>) = space_env s t"
  "space_env s (t\<lparr>sp_active_column_idx := a\<rparr>) = space_env s t"
  "space_env s (t\<lparr>sp_interactive_resize := r\<rparr>) = space_env s t"
  "space_env s (t\<lparr>sp_view_offset := vo\<rparr>) = space_env s t"
  "space_env s (t\<lparr>sp_activate_prev_column_on_removal := p\<rparr>) = space_env s t"
  "space_env s (t\<lparr>sp_view_offset_to_restore := x\<rparr>) = space_env s t"
  by (simp_all add: space_env_def)

end
