(* ===== verification/Layout_Scrolling_Ops.thy ===== *)
theory Layout_Scrolling_Ops
  imports Layout_Scrolling_Inv
begin

text \<open>
  The operations that change which windows are where: they never panic, keep the invariant, and act
  on the grid of windows as the abstract operations say.
\<close>

section \<open>Replacing a column\<close>

lemma column_px_width_total: "column_inv E c \<Longrightarrow> \<exists>w. column_px_width c = Some w"
  using column_invD(1,3) [of E c] by (cases "c_data c") (simp_all add: column_px_width_def)

lemma column_data_ok:
  assumes "column_inv E c"
  shows "runs (column_data_update c d) (\<lambda>d'. column_px_width c = Some (cd_width d'))"
  using column_px_width_total [OF assms] by (auto simp: column_data_update_def)

lemma column_fits_fixed: "column_fits E s c \<Longrightarrow> column_inv E c' \<Longrightarrow> column_fixed c c' \<Longrightarrow> column_fits E s c'"
  by (simp add: column_fits_def column_fixed_def)

lemma cols_ok_update:
  assumes "cols_ok E s" and "column_fits E s c" and "column_px_width c = Some (cd_width d)"
  shows "cols_ok E (s\<lparr>sp_columns := (sp_columns s)[i := c], sp_data := (sp_data s)[i := d]\<rparr>)"
proof -
  have fits: "column_fits E (s\<lparr>sp_columns := cs, sp_data := ds\<rparr>) = column_fits E s" for cs ds
    by (rule column_fits_env) (simp add: space_env_def)
  show ?thesis
    using assms unfolding cols_ok_def fits by (simp add: list_all2_update_cong)
qed

lemma update_data_ok:
  assumes parts: "space_parts E s" and i: "i < length (sp_columns s)"
    and c: "column_inv E c" "column_fixed (sp_columns s ! i) c"
  shows "runs (update_data i (s\<lparr>sp_columns := (sp_columns s)[i := c]\<rparr>)) (\<lambda>s'. \<exists>d.
     s' = s\<lparr>sp_columns := (sp_columns s)[i := c], sp_data := (sp_data s)[i := d]\<rparr> \<and> space_parts E s')"
proof -
  note D = space_partsD [OF parts]
  have fits: "column_fits E s c" by (rule column_fits_fixed [OF D(4) [OF i] c])
  obtain d where d: "column_data_update c (sp_data s ! i) = Some d" "column_px_width c = Some (cd_width d)"
    by (rule runsE [OF column_data_ok [OF c(1), of "sp_data s ! i"]])
  have "space_parts E (s\<lparr>sp_columns := (sp_columns s)[i := c], sp_data := (sp_data s)[i := d]\<rparr>)"
    using parts cols_ok_update [OF _ fits d(2)] by (simp add: space_parts_def)
  with d(1) i D(2) show ?thesis
    by (auto simp: update_data_def vec_get_def vec_modify_def)
qed

text \<open>An operation on one column whose cached width is then updated.\<close>

lemma with_column_data:
  assumes parts: "space_parts E s" and i: "i < length (sp_columns s)"
    and f: "runs (f (sp_columns s ! i)) (\<lambda>c. column_inv E c \<and> column_fixed (sp_columns s ! i) c \<and> Q c)"
  shows "runs (do { s \<leftarrow> with_column i f s; update_data i s }) (\<lambda>s'. \<exists>c d. Q c \<and>
     s' = s\<lparr>sp_columns := (sp_columns s)[i := c], sp_data := (sp_data s)[i := d]\<rparr> \<and> space_parts E s')"
proof -
  obtain c where c: "f (sp_columns s ! i) = Some c" "column_inv E c" "column_fixed (sp_columns s ! i) c" "Q c"
    using f by (auto simp: runs_iff)
  then have "runs (update_data i (s\<lparr>sp_columns := (sp_columns s)[i := c]\<rparr>)) (\<lambda>s'. \<exists>c d. Q c \<and>
     s' = s\<lparr>sp_columns := (sp_columns s)[i := c], sp_data := (sp_data s)[i := d]\<rparr> \<and> space_parts E s')"
    using update_data_ok [OF parts i c(2,3)] by (auto elim!: runs_mono)
  with c(1) i show ?thesis by (simp add: with_column_def vec_modify_def vec_get_def)
qed

section \<open>Adding a column\<close>

definition g_add :: "nat \<Rightarrow> ('id list \<times> nat) \<Rightarrow> bool \<Rightarrow> 'id Grid \<Rightarrow> 'id Grid" where
  "g_add idx cell activate g =
     (let was_empty = (g_cols g = []);
          a = (if \<not> was_empty \<and> idx \<le> g_active g then g_active g + 1 else g_active g);
          g' = g\<lparr>g_cols := list_insert idx cell (g_cols g), g_active := a\<rparr>
      in if activate then (g_activate idx g')\<lparr>g_prev := \<not> was_empty \<and> idx = a + 1\<rparr> else g')"

lemma space_parts_insert:
  assumes parts: "space_parts E s" and c: "column_fits E s c" "column_px_width c = Some (cd_width d)"
    and i: "i \<le> length (sp_columns s)"
  shows "space_parts E (s\<lparr>sp_data := list_insert i d (sp_data s), sp_columns := list_insert i c (sp_columns s),
     sp_active_column_idx := a\<rparr>)" (is "space_parts E ?s")
proof -
  have fits: "column_fits E ?s = column_fits E s" by (rule column_fits_env) (simp add: space_env_def)
  have "list_all2 (\<lambda>c d. column_fits E s c \<and> column_px_width c = Some (cd_width d))
      (list_insert i c (sp_columns s)) (list_insert i d (sp_data s))"
    using parts c by (intro list_all2_insert) (simp_all add: space_parts_def cols_ok_def)
  with parts show ?thesis unfolding space_parts_def cols_ok_def fits by simp
qed

lemma list_insert_active_nth:
  assumes "a < length xs" and "i \<le> length xs"
  shows "list_insert i x xs ! (if i \<le> a then a + 1 else a) = xs ! a"
  using assms by (auto simp: nth_append min_def)

text \<open>Inserting a column keeps the active one active.\<close>

lemma space_inserted_inv:
  assumes inv: "space_inv E s" and c: "column_fits E s c" "column_px_width c = Some (cd_width d)"
    and i: "i \<le> length (sp_columns s)"
    and a: "a = (if sp_columns s \<noteq> [] \<and> i \<le> sp_active_column_idx s then sp_active_column_idx s + 1
                 else sp_active_column_idx s)"
  shows "space_inv E (s\<lparr>sp_data := list_insert i d (sp_data s), sp_columns := list_insert i c (sp_columns s),
     sp_active_column_idx := a\<rparr>)" (is "space_inv E ?s")
proof -
  have parts: "space_parts E ?s" by (rule space_parts_insert [OF space_inv_parts [OF inv] c i])
  have core: "space_core E ?s"
    using inv parts a i by (auto simp: space_inv_def space_core_def split: if_splits)
  have "restore_ok ?s"
  proof (cases "sp_view_offset_to_restore s = None")
    case True
    then show ?thesis by (simp add: restore_ok_def)
  next
    case False
    then have ne: "sp_columns s \<noteq> []" and m: "\<not> is_normal (column_sizing_mode (sp_columns s ! sp_active_column_idx s))"
      using inv by (auto simp: space_inv_def restore_ok_def)
    have "list_insert i c (sp_columns s) ! a = sp_columns s ! sp_active_column_idx s"
      using list_insert_active_nth [OF space_core_active [OF space_inv_core [OF inv] ne] i, of c] ne a by simp
    with m show ?thesis by (simp add: restore_ok_def)
  qed
  moreover have "resize_present E ?s"
    using inv set_take_subset [of i "sp_columns s"]
    by (auto simp: space_inv_def resize_present_def split: option.splits dest: in_set_takeD in_set_dropD)
       (metis Un_iff append_take_drop_id set_append)
  ultimately show ?thesis using core by (simp add: space_inv_def)
qed

lemma grid_inserted:
  assumes "a = (if sp_columns s \<noteq> [] \<and> i \<le> sp_active_column_idx s then sp_active_column_idx s + 1
                 else sp_active_column_idx s)"
  shows "grid E (s\<lparr>sp_data := ds, sp_columns := list_insert i c (sp_columns s), sp_active_column_idx := a\<rparr>) =
     g_add i (column_cell E c) False (grid E s)"
  using assms by (simp add: g_add_def Let_def take_map drop_map)

abbreviation config_or :: "AnimConfig option \<Rightarrow> AnimConfig \<Rightarrow> AnimConfig" where
  "config_or ac cfg \<equiv> (case ac of Some a \<Rightarrow> a | None \<Rightarrow> cfg)"

text \<open>The tail of \<^verbatim>\<open>add_column\<close>: activating the new column.\<close>

lemma add_column_activate_ok:
  assumes inv: "space_inv E s" and i: "idx < length (sp_columns s)" and cfg: "option_ok anim_config_ok ac"
  shows "runs (activate_added E idx was_empty ac s) (\<lambda>s'. space_inv E s' \<and> space_env s s' \<and>
      grid E s' = (g_activate idx (grid E s))\<lparr>g_prev := \<not> was_empty \<and> idx = sp_active_column_idx s + 1\<rparr>)"
    (is "runs _ ?Q")
proof -
  let ?view = "if was_empty
      then do {
        let s = s\<lparr>sp_view_offset := VStatic 0\<rparr>;
        o' \<leftarrow> compute_new_view_offset_for_column None idx None s;
        Some (s\<lparr>sp_view_offset := VStatic o'\<rparr>) }
      else Some s"
  let ?rest = "\<lambda>s. do {
      let prev_offset = (if \<not> was_empty \<and> idx = sp_active_column_idx s + 1
                         then Some (vo_stationary (sp_view_offset s)) else None);
      let anim_config = config_or ac (view_movement_config s);
      s \<leftarrow> activate_column_with_anim_config E idx anim_config s;
      Some (s\<lparr>sp_activate_prev_column_on_removal := prev_offset\<rparr>) }"
  have rest: "runs (?rest t) ?Q" if t: "space_cosmetic E s t" for t
  proof -
    note T = space_cosmeticD [OF t]
    have tinv: "space_inv E t" by (rule space_cosmetic_inv [OF t inv])
    have ti: "idx < length (sp_columns t)" using i T(1) by simp
    have tcfg: "anim_config_ok (config_or ac (view_movement_config t))"
      using cfg space_partsD(7) [OF space_inv_parts [OF tinv]] by (cases ac) simp_all
    note act = activate_column_config_ok [OF space_inv_parts [OF tinv]
        space_core_active_le [OF space_inv_core [OF tinv]] ti tcfg]
    have "?Q (u\<lparr>sp_activate_prev_column_on_removal := p\<rparr>)"
      if u: "space_activated idx t u"
        and p: "p = (if \<not> was_empty \<and> idx = sp_active_column_idx t + 1 then Some x else None)" for u p x
    proof (intro conjI)
      show "space_inv E (u\<lparr>sp_activate_prev_column_on_removal := p\<rparr>)"
        using space_activated_inv [OF u tinv ti] by simp
      show "space_env s (u\<lparr>sp_activate_prev_column_on_removal := p\<rparr>)"
        using space_env_trans [OF T(2) space_activatedD(1) [OF u]] by simp
      show "grid E (u\<lparr>sp_activate_prev_column_on_removal := p\<rparr>) =
          (g_activate idx (grid E s))\<lparr>g_prev := \<not> was_empty \<and> idx = sp_active_column_idx s + 1\<rparr>"
        using space_activatedD(5) [OF u, of E] T(7,8) p by simp
    qed
    then show ?thesis unfolding Let_def runs_bind by (intro runs_mono [OF act]) simp
  qed
  have "runs ?view (space_cosmetic E s)"
  proof (cases was_empty)
    case False
    then show ?thesis by (simp add: space_cosmetic_refl [OF space_inv_parts [OF inv]])
  next
    case True
    let ?s = "s\<lparr>sp_view_offset := VStatic 0\<rparr>"
    have cos: "space_cosmetic E s (s\<lparr>sp_view_offset := VStatic x\<rparr>)" for x
      by (rule space_cosmetic_view [OF space_inv_parts [OF inv]]) simp
    have "runs (compute_new_view_offset_for_column None idx None ?s) (\<lambda>_. True)"
      by (rule runs_mono [OF compute_for_column_ok])
         (use space_cosmetic_parts [OF cos space_inv_parts [OF inv]]
            space_core_active_le [OF space_inv_core [OF inv]] i in simp_all)
    with True cos show ?thesis by (simp add: Let_def)
  qed
  then show ?thesis unfolding activate_added_def runs_bind by (rule runs_mono) (rule rest)
qed

abbreviation insert_idx :: "nat option \<Rightarrow> ('w, 'id) Space \<Rightarrow> nat" where
  "insert_idx idx s \<equiv> (case idx of Some i \<Rightarrow> i
     | None \<Rightarrow> if sp_columns s = [] then 0 else sp_active_column_idx s + 1)"

context layout_element
begin

lemma add_column_ok:
  assumes inv: "space_inv E s" and c: "column_inv E c" "reconfigurable E (sp_options s) c"
    and i: "insert_idx idx s \<le> length (sp_columns s)" and cfg: "option_ok anim_config_ok ac"
  shows "runs (add_column E idx c act ac s) (\<lambda>s'. space_inv E s' \<and> space_env s s' \<and>
     grid E s' = g_add (insert_idx idx s) (column_cell E c) act (grid E s))"
proof -
  note P = space_partsD [OF space_inv_parts [OF inv]]
  define k where "k = insert_idx idx s"
  have k: "k \<le> length (sp_columns s)" using i by (simp add: k_def)
  obtain c' where c': "column_update_config E (sp_view_size s) (sp_working_area s) (sp_parent_area s)
      (sp_scale s) (sp_options s) c = Some c'" "column_fits E s c'" "column_cell E c' = column_cell E c"
    using runsD [OF column_update_config_ok [OF c(1) P(1) c(2), of "sp_view_size s" "sp_working_area s"
        "sp_parent_area s" "sp_scale s"]]
    by (auto simp: column_fits_def column_cell_def)
  have inv_c': "column_inv E c'" using c'(2) by (simp add: column_fits_def)
  obtain d where d: "column_data_new c' = Some d" "column_px_width c' = Some (cd_width d)"
    using runsD [OF column_data_ok [OF inv_c', of "\<lparr>cd_width = 0\<rparr>"]] by (auto simp: column_data_new_def)
  define a where "a = (if sp_columns s \<noteq> [] \<and> k \<le> sp_active_column_idx s then sp_active_column_idx s + 1
                 else sp_active_column_idx s)"
  define s1 where "s1 = s\<lparr>sp_data := list_insert k d (sp_data s), sp_columns := list_insert k c' (sp_columns s),
     sp_active_column_idx := a\<rparr>"
  have inv1: "space_inv E s1" unfolding s1_def by (rule space_inserted_inv [OF inv c'(2) d(2) k a_def])
  have g1: "grid E s1 = g_add k (column_cell E c) False (grid E s)"
    unfolding s1_def using grid_inserted [OF a_def] c'(3) by simp
  have n1: "length (sp_columns s1) = Suc (length (sp_columns s))" using k by (simp add: s1_def)
  note parts1 = space_inv_parts [OF inv1]
  have conf: "anim_config_ok (config_or ac (space_movement_config s1))"
    using cfg space_partsD(8) [OF parts1] by (cases ac) simp_all
  have "runs (if sp_active_column_idx s1 \<le> k
      then animate_columns E (k + 1) (length (sp_columns s1)) f (config_or ac (space_movement_config s1)) s1
      else animate_columns E 0 k g (config_or ac (space_movement_config s1)) s1) (space_cosmetic E s1)" for f g
    using k n1 by (auto intro!: animate_columns_ok [OF parts1 _ _ conf])
  then obtain s2 where s2: "(if sp_active_column_idx s1 \<le> k
      then animate_columns E (k + 1) (length (sp_columns s1)) (- (column_xs s1 ! (k + 1) - column_xs s1 ! k))
             (config_or ac (space_movement_config s1)) s1
      else animate_columns E 0 k (column_xs s1 ! (k + 1) - column_xs s1 ! k)
             (config_or ac (space_movement_config s1)) s1) = Some s2" "space_cosmetic E s1 s2"
    by (rule runsE)
  note S2 = space_cosmeticD [OF s2(2)]
  have env: "space_env s s2" using S2(2) space_env_trans [of s s1 s2] by (simp add: s1_def)
  have inv2: "space_inv E s2" by (rule space_cosmetic_inv [OF s2(2) inv1])
  have g2: "grid E s2 = g_add k (column_cell E c) False (grid E s)" using S2(8) g1 by simp
  have a2: "sp_active_column_idx s2 = a" using S2(7) by (simp add: s1_def)
  have add: "g_add k x True g = (g_activate k (g_add k x False g))
      \<lparr>g_prev := g_cols g \<noteq> [] \<and> k = g_active (g_add k x False g) + 1\<rparr>" for x and g :: "'id Grid"
    by (simp add: g_add_def Let_def)
  have "runs (activate_added E k (sp_columns s = []) ac s2) (\<lambda>s'. space_inv E s' \<and> space_env s s' \<and>
      grid E s' = g_add k (column_cell E c) True (grid E s))"
  proof (rule runs_mono [OF add_column_activate_ok [OF inv2 _ cfg]], goal_cases)
    case 1
    then show ?case using k n1 S2(1) by simp
  next
    case (2 s')
    have "g_active (g_add k (column_cell E c) False (grid E s)) = a"
      by (simp add: g_add_def Let_def a_def)
    with 2 show ?case using space_env_trans [OF env] by (simp add: add a2 g2)
  qed
  then have tail: "runs (if act then activate_added E k (sp_columns s = []) ac s2 else Some s2)
      (\<lambda>s'. space_inv E s' \<and> space_env s s' \<and> grid E s' = g_add k (column_cell E c) act (grid E s))"
    using inv2 env g2 by (cases act) simp_all
  have x: "column_x (k + 1) s1 = Some (column_xs s1 ! (k + 1))" "column_x k s1 = Some (column_xs s1 ! k)"
    using column_x_Some [OF parts1] k n1 by simp_all
  have "add_column E idx c act ac s = (if act then activate_added E k (sp_columns s = []) ac s2 else Some s2)"
  proof -
    have ins: "vec_insert k d (sp_data s) = Some (list_insert k d (sp_data s))"
      "vec_insert k c' (sp_columns s) = Some (list_insert k c' (sp_columns s))"
      using k P(2) by (simp_all add: vec_insert_def)
    have eq: "s\<lparr>sp_data := list_insert k d (sp_data s), sp_columns := list_insert k c' (sp_columns s),
       sp_active_column_idx := (if \<not> (sp_columns s = []) \<and> k \<le> sp_active_column_idx s
         then sp_active_column_idx s + 1 else sp_active_column_idx s)\<rparr> = s1"
      by (simp only: s1_def a_def)
    show ?thesis
      unfolding add_column_def Let_def k_def [symmetric]
      by (simp only: c'(1) d(1) ins Option.bind.bind_lunit eq x s2(1))
  qed
  with tail show ?thesis by (simp only: k_def)
qed

end

text \<open>A column is replaced by one that shows at least the same windows.\<close>

lemma space_inv_replace:
  assumes inv: "space_inv E s" and i: "i < length (sp_columns s)"
    and parts: "space_parts E (s\<lparr>sp_columns := (sp_columns s)[i := c], sp_data := ds\<rparr>)"
    and ids: "set (column_ids E (sp_columns s ! i)) \<subseteq> set (column_ids E c)"
    and mode: "\<not> is_normal (column_sizing_mode (sp_columns s ! i)) \<Longrightarrow> \<not> is_normal (column_sizing_mode c)"
  shows "space_inv E (s\<lparr>sp_columns := (sp_columns s)[i := c], sp_data := ds\<rparr>)" (is "space_inv E ?s")
proof -
  have "space_core E ?s" using inv parts by (auto simp: space_inv_def space_core_def)
  moreover have "restore_ok ?s"
    using inv mode i by (auto simp: space_inv_def restore_ok_def nth_list_update)
  moreover have "resize_present E ?s"
  proof -
    have "\<exists>c' \<in> set ((sp_columns s)[i := c]). column_contains E w c'"
      if ex: "\<exists>c' \<in> set (sp_columns s). column_contains E w c'" for w
    proof -
      obtain j where j: "j < length (sp_columns s)" "column_contains E w (sp_columns s ! j)"
        using ex by (auto simp: in_set_conv_nth)
      have "column_contains E w ((sp_columns s)[i := c] ! j)"
        using j ids by (cases "j = i") (auto simp: column_contains_cell column_cell_def)
      with j(1) show ?thesis by (metis length_list_update nth_mem)
    qed
    then show ?thesis using inv by (auto simp: space_inv_def resize_present_def split: option.splits)
  qed
  ultimately show ?thesis by (simp add: space_inv_def)
qed

lemma column_cell_active [simp]:
  "column_cell E (c\<lparr>c_active_tile_idx := i\<rparr>) = (fst (column_cell E c), i)"
  by (simp add: column_cell_def)

text \<open>An operation on one column that keeps its width and its windows.\<close>

lemma with_column_op:
  assumes inv: "space_inv E s" and i: "i < length (sp_columns s)"
    and f: "runs (f (sp_columns s ! i)) (\<lambda>c. column_inv E c \<and> column_env (sp_columns s ! i) c \<and>
       set (fst (column_cell E c)) = set (fst (column_cell E (sp_columns s ! i))) \<and> Q c)"
  shows "runs (with_column i f s) (\<lambda>s'. \<exists>c. Q c \<and> s' = s\<lparr>sp_columns := (sp_columns s)[i := c]\<rparr> \<and> space_inv E s')"
proof -
  obtain c where c: "f (sp_columns s ! i) = Some c" "column_inv E c" "column_env (sp_columns s ! i) c"
    "set (fst (column_cell E c)) = set (fst (column_cell E (sp_columns s ! i)))" "Q c"
    using f by (auto simp: runs_iff)
  note P = space_partsD [OF space_inv_parts [OF inv]]
  have fits: "column_fits E s c"
    using c(2,3) by (intro column_fits_fixed [OF P(4) [OF i]]) (simp_all add: column_env_def)
  have "column_px_width c = Some (cd_width (sp_data s ! i))"
    using c(3) P(5) [OF i] by (simp add: column_env_def)
  from cols_ok_update [OF _ fits this, of i] have
    "space_parts E (s\<lparr>sp_columns := (sp_columns s)[i := c], sp_data := sp_data s\<rparr>)"
    using space_inv_parts [OF inv] by (simp add: space_parts_def)
  then have "space_inv E (s\<lparr>sp_columns := (sp_columns s)[i := c], sp_data := sp_data s\<rparr>)"
    using c(3,4) by (intro space_inv_replace [OF inv i]) (auto simp: column_env_def column_cell_def)
  with c(1,5) i show ?thesis by (auto simp: with_column_def vec_modify_def vec_get_def)
qed

lemma vec_modify_cosmetic:
  assumes inv: "column_inv E c" and i: "i < length (c_tiles c)" and f: "\<And>t. tile_ok E t \<Longrightarrow> animates E f t"
  shows "runs (vec_modify i f (c_tiles c)) (\<lambda>ts. column_cosmetic E c (c\<lparr>c_tiles := ts\<rparr>))"
  using f [OF column_invD(5) [OF inv i]] i
  by (auto simp: vec_modify_def elim!: runs_mono intro!: column_cosmeticI update_tile_ok [OF inv i])

lemma column_cells_update:
  "map (column_cell E) (cs[i := c]) = (map (column_cell E) cs)[i := column_cell E c]"
  by (simp add: map_update)

section \<open>Adding a tile\<close>

definition tile_fits :: "('w, 'id) LayoutEnv \<Rightarrow> ('w, 'id) Space \<Rightarrow> 'w Tile \<Rightarrow> bool" where
  "tile_fits E s t \<longleftrightarrow> tile_ok E t \<and>
     lc_preset_window_heights (op_layout (tl_options t)) = lc_preset_window_heights (op_layout (sp_options s))"

lemma tile_fits_env: "space_env s s' \<Longrightarrow> tile_fits E s' = tile_fits E s"
  by (simp add: fun_eq_iff tile_fits_def space_env_def)

definition g_add_to :: "nat \<Rightarrow> nat option \<Rightarrow> 'id \<Rightarrow> bool \<Rightarrow> 'id Grid \<Rightarrow> 'id Grid" where
  "g_add_to ci ti w activate g =
     (let (ids, a) = g_cols g ! ci;
          ti = (case ti of Some i \<Rightarrow> i | None \<Rightarrow> length ids);
          a' = (if activate then ti else if ti \<le> a then a + 1 else a);
          g' = g\<lparr>g_cols := (g_cols g)[ci := (list_insert ti w ids, a')]\<rparr>
      in if activate then g_activate ci g' else g')"

context layout_element
begin

lemma add_tile_ok:
  assumes inv: "space_inv E s" and t: "tile_fits E s t"
    and i: "insert_idx idx s \<le> length (sp_columns s)" and cfg: "option_ok anim_config_ok ac"
  shows "runs (add_tile E idx t act w fw ac s) (\<lambda>s'. space_inv E s' \<and> space_env s s' \<and>
     grid E s' = g_add (insert_idx idx s) ([el_id E (tl_window t)], 0) act (grid E s))"
proof -
  have "tile_ok E t" using t by (simp add: tile_fits_def)
  from runsD [OF column_new_with_tile_ok [OF this, of "sp_view_size s" "sp_working_area s" "sp_parent_area s"
        "sp_scale s" w fw]]
  obtain c where c: "column_new_with_tile E t (sp_view_size s) (sp_working_area s) (sp_parent_area s)
      (sp_scale s) w fw = Some c" "column_inv E c" "c_options c = tl_options t"
    "column_cell E c = ([el_id E (tl_window t)], 0)"
    by (auto simp: column_cell_def)
  have "reconfigurable E (sp_options s) c" using t c(3) by (simp add: reconfigurable_def tile_fits_def)
  from add_column_ok [OF inv c(2) this i cfg, of act] c show ?thesis by (simp add: add_tile_def)
qed

lemma fade_out_ok:
  "column_inv E c \<Longrightarrow> i < length (c_tiles c) \<Longrightarrow> anim_config_ok cfg \<Longrightarrow>
     runs (fade_out_tile E cfg i c) (column_cosmetic E c)"
  using vec_modify_cosmetic [of E c i "animate_alpha E 1 0 cfg"] animate_alpha_ok [of E _ cfg]
  by (simp add: fade_out_tile_def)

text \<open>The tile is inserted, the cached width follows, and the active index keeps its window.\<close>

lemma insert_tile_ok:
  assumes inv: "space_inv E s" and ci: "ci < length (sp_columns s)" and t: "tile_ok E t"
    and ti: "ti \<le> length (c_tiles (sp_columns s ! ci))"
  shows "runs (do { s \<leftarrow> with_column ci (column_add_tile_at E ti t) s;
                    s \<leftarrow> update_data ci s;
                    with_column ci (\<lambda>c. Some (if b then c\<lparr>c_active_tile_idx := c_active_tile_idx c + 1\<rparr> else c)) s })
     (\<lambda>s'. \<exists>c ds. column_cell E c = (list_insert ti (el_id E (tl_window t)) (column_ids E (sp_columns s ! ci)),
          if b then c_active_tile_idx (sp_columns s ! ci) + 1 else c_active_tile_idx (sp_columns s ! ci)) \<and>
        s' = s\<lparr>sp_columns := (sp_columns s)[ci := c], sp_data := ds\<rparr> \<and> space_inv E s')"
proof -
  note P = space_partsD [OF space_inv_parts [OF inv]]
  let ?c = "sp_columns s ! ci"
  note D = column_invD [OF P(3) [OF ci]]
  have "column_parts E ?c" using P(3) [OF ci] by (simp add: column_inv_def column_pre_def column_core_def)
  from column_add_tile_at_ok [OF this ti _ t] D(2)
  have add: "runs (column_add_tile_at E ti t ?c) (\<lambda>c. column_inv E c \<and> column_fixed ?c c \<and>
      column_added E ti (el_id E (tl_window t)) ?c c)"
    by (auto simp: column_added_def elim!: runs_mono)
  obtain s1 c1 d1 where s1: "do { s \<leftarrow> with_column ci (column_add_tile_at E ti t) s; update_data ci s } = Some s1"
    "s1 = s\<lparr>sp_columns := (sp_columns s)[ci := c1], sp_data := (sp_data s)[ci := d1]\<rparr>"
    "space_parts E s1" "column_added E ti (el_id E (tl_window t)) ?c c1"
    using runsD [OF with_column_data [OF space_inv_parts [OF inv] ci, where f = "column_add_tile_at E ti t"
        and Q = "column_added E ti (el_id E (tl_window t)) ?c", OF add]] by blast
  have inv1: "space_inv E s1"
    unfolding s1(2)
  proof (rule space_inv_replace [OF inv ci s1(3) [unfolded s1(2)]])
    have "column_ids E c1 = list_insert ti (el_id E (tl_window t)) (column_ids E ?c)"
      using s1(4) by (simp only: column_added_def)
    then show "set (column_ids E ?c) \<subseteq> set (column_ids E c1)" using set_list_insert by (metis subset_insertI)
  qed (use s1(4) in \<open>simp add: column_added_def\<close>)
  have c1: "column_inv E c1" "length (c_tiles c1) = Suc (length (c_tiles ?c))"
    "c_active_tile_idx c1 = c_active_tile_idx ?c" "sp_columns s1 ! ci = c1"
    using s1(2,4) ti ci by (auto simp: column_added_def dest: arg_cong [of _ _ length])
  let ?f = "\<lambda>c. Some (if b then c\<lparr>c_active_tile_idx := c_active_tile_idx c + 1\<rparr> else c)"
  have ci1: "ci < length (sp_columns s1)" using ci s1(2) by simp
  have cell1: "column_cell E c1 = (list_insert ti (el_id E (tl_window t)) (column_ids E ?c), c_active_tile_idx ?c)"
    using s1(4) by (simp only: column_added_def column_cell_def)
  have "runs (?f c1) (\<lambda>c. column_inv E c \<and> column_env c1 c \<and>
      set (fst (column_cell E c)) = set (fst (column_cell E c1)) \<and>
      column_cell E c = (list_insert ti (el_id E (tl_window t)) (column_ids E ?c),
          if b then c_active_tile_idx ?c + 1 else c_active_tile_idx ?c))"
    using column_inv_active [OF c1(1), of "Suc (c_active_tile_idx c1)"] c1 D(2) cell1 by simp
  then have "runs (with_column ci ?f s1) (\<lambda>s'. \<exists>c.
      column_cell E c = (list_insert ti (el_id E (tl_window t)) (column_ids E ?c),
          if b then c_active_tile_idx ?c + 1 else c_active_tile_idx ?c) \<and>
      s' = s1\<lparr>sp_columns := (sp_columns s1)[ci := c]\<rparr> \<and> space_inv E s')"
    unfolding c1(4) [symmetric] by (rule with_column_op [OF inv1 ci1])
  then obtain c s2 where c: "with_column ci ?f s1 = Some s2" "space_inv E s2"
      "column_cell E c = (list_insert ti (el_id E (tl_window t)) (column_ids E ?c),
          if b then c_active_tile_idx ?c + 1 else c_active_tile_idx ?c)"
      "s2 = s1\<lparr>sp_columns := (sp_columns s1)[ci := c]\<rparr>"
    by (elim runsE exE conjE) blast
  have "s2 = s\<lparr>sp_columns := (sp_columns s)[ci := c], sp_data := (sp_data s)[ci := d1]\<rparr>"
    unfolding c(4) s1(2) by simp
  with c(1-3) show ?thesis
    unfolding bind_assoc [symmetric] s1(1) Option.bind.bind_lunit by (intro runsI) blast+
qed

end

text \<open>Activating a window of a column, and the column.\<close>

definition g_focus :: "nat \<Rightarrow> nat \<Rightarrow> 'id Grid \<Rightarrow> 'id Grid" where
  "g_focus ci ti g = g_activate ci (g\<lparr>g_cols := (g_cols g)[ci := (fst (g_cols g ! ci), ti)]\<rparr>)"

lemma grid_length: "grid E s' = g \<Longrightarrow> length (sp_columns s') = length (g_cols g)"
  by auto

lemma column_cell_ids:
  "column_ids E c' = column_ids E c \<Longrightarrow> column_cell E c' = (fst (column_cell E c), c_active_tile_idx c')"
  by (simp add: column_cell_def)

lemma focus_in_column_ok:
  assumes inv: "space_inv E s" and ci: "ci < length (sp_columns s)"
    and ti: "ti < length (c_tiles (sp_columns s ! ci))"
  shows "runs (with_column ci (\<lambda>c. map_option snd (column_activate_idx ti c)) s) (\<lambda>s'. space_inv E s' \<and>
     space_env s s' \<and> sp_active_column_idx s' = sp_active_column_idx s \<and>
     grid E s' = (grid E s)\<lparr>g_cols := (g_cols (grid E s))[ci := (fst (g_cols (grid E s) ! ci), ti)]\<rparr>)"
proof -
  have "runs (map_option snd (column_activate_idx ti (sp_columns s ! ci))) (\<lambda>c. column_inv E c \<and>
      column_env (sp_columns s ! ci) c \<and>
      set (fst (column_cell E c)) = set (fst (column_cell E (sp_columns s ! ci))) \<and>
      column_cell E c = (fst (column_cell E (sp_columns s ! ci)), ti))"
    using column_activate_idx_ok [OF space_partsD(3) [OF space_inv_parts [OF inv] ci] ti]
    unfolding runs_map_option by (rule runs_mono) (simp add: case_prod_unfold, metis column_cell_ids fst_conv)
  from with_column_op [OF inv ci, where f = "\<lambda>c. map_option snd (column_activate_idx ti c)", OF this]
  show ?thesis by (rule runs_mono) (use ci in \<open>auto simp: column_cells_update\<close>)
qed

lemma activate_column_inv:
  assumes "space_inv E s" and "idx < length (sp_columns s)"
  shows "runs (activate_column E idx s) (\<lambda>s'. space_inv E s' \<and> space_env s s' \<and>
     grid E s' = g_activate idx (grid E s))"
  by (rule runs_mono [OF activate_column_ok [OF space_inv_core [OF assms(1)] assms(2)]])
     (intro conjI; erule space_activated_inv [OF _ assms] space_activatedD)

lemma focus_both_ok:
  assumes inv: "space_inv E s" and ci: "ci < length (sp_columns s)"
    and ti: "ti < length (c_tiles (sp_columns s ! ci))"
  shows "runs (do { s \<leftarrow> with_column ci (\<lambda>c. map_option snd (column_activate_idx ti c)) s;
                    activate_column E ci s })
       (\<lambda>s'. space_inv E s' \<and> space_env s s' \<and> grid E s' = g_focus ci ti (grid E s))"
    and "runs (do { s \<leftarrow> with_column ci (\<lambda>c. map_option snd (column_activate_idx ti c)) s;
                    if sp_active_column_idx s \<noteq> ci then activate_column E ci s else Some s })
       (\<lambda>s'. space_inv E s' \<and> space_env s s' \<and> grid E s' = g_focus ci ti (grid E s))"
proof -
  let ?g = "(grid E s)\<lparr>g_cols := (g_cols (grid E s))[ci := (fst (g_cols (grid E s) ! ci), ti)]\<rparr>"
  have act: "runs (activate_column E ci t) (\<lambda>s'. space_inv E s' \<and> space_env s s' \<and> grid E s' = g_focus ci ti (grid E s))"
    if "space_inv E t" "space_env s t" "grid E t = ?g" for t
    by (rule runs_mono [OF activate_column_inv [OF that(1)]])
       (use that ci grid_length [OF that(3)] space_env_trans [OF that(2)] in \<open>auto simp: g_focus_def\<close>)
  have no: "g_focus ci ti (grid E s) = ?g" if "sp_active_column_idx s = ci"
    using that by (simp add: g_focus_def g_activate_def)
  note go = runs_mono [OF focus_in_column_ok [OF assms]]
  show "runs (do { s \<leftarrow> with_column ci (\<lambda>c. map_option snd (column_activate_idx ti c)) s;
                    activate_column E ci s })
       (\<lambda>s'. space_inv E s' \<and> space_env s s' \<and> grid E s' = g_focus ci ti (grid E s))"
    unfolding runs_bind by (rule go) (use act in blast)
  show "runs (do { s \<leftarrow> with_column ci (\<lambda>c. map_option snd (column_activate_idx ti c)) s;
                    if sp_active_column_idx s \<noteq> ci then activate_column E ci s else Some s })
       (\<lambda>s'. space_inv E s' \<and> space_env s s' \<and> grid E s' = g_focus ci ti (grid E s))"
    unfolding runs_bind
  proof (rule go, elim conjE)
    fix t assume t: "space_inv E t" "space_env s t" "sp_active_column_idx t = sp_active_column_idx s" "grid E t = ?g"
    show "runs (if sp_active_column_idx t \<noteq> ci then activate_column E ci t else Some t)
       (\<lambda>s'. space_inv E s' \<and> space_env s s' \<and> grid E s' = g_focus ci ti (grid E s))"
      using act [OF t(1,2,4)] t no by (cases "sp_active_column_idx t = ci") simp_all
  qed
qed

text \<open>The animations at the end of \<^verbatim>\<open>add_tile_to_column\<close>.\<close>

lemma add_tile_animations_ok:
  assumes inv: "space_inv E s" and ci: "ci < length (sp_columns s)"
    and ti: "ti < length (c_tiles (sp_columns s ! ci))" and pa: "pa < length (c_tiles (sp_columns s ! ci))"
    and cfg: "anim_config_ok cfg"
  shows "runs (do {
      s \<leftarrow> with_column ci (\<lambda>c. if is_tabbed c
             then if c_active_tile_idx c = ti then fade_out_tile E cfg pa c else fade_out_tile E cfg ti c
             else Some c) s;
      next_x \<leftarrow> column_x (ci + 1) s;
      let offset = next_x - prev_next_x;
      if sp_active_column_idx s \<le> ci
      then do { cs \<leftarrow> map_slice (ci + 1) (length (sp_columns s)) (column_animate_move_from E (- offset)) (sp_columns s);
                Some (s\<lparr>sp_columns := cs\<rparr>) }
      else do { cs \<leftarrow> map_slice 0 (ci + 1) (column_animate_move_from E offset) (sp_columns s);
                Some (s\<lparr>sp_columns := cs\<rparr>) } }) (space_cosmetic E s)"
proof -
  note P = space_partsD [OF space_inv_parts [OF inv]]
  note cinv = P(3) [OF ci]
  have fade: "runs (fade_out_tile E cfg k (sp_columns s ! ci)) (column_cosmetic E (sp_columns s ! ci))"
    if "k < length (c_tiles (sp_columns s ! ci))" for k
    unfolding fade_out_tile_def
    using vec_modify_cosmetic [OF cinv that animate_alpha_ok [OF _ cfg]] by simp
  have 1: "runs (with_column ci (\<lambda>c. if is_tabbed c
             then if c_active_tile_idx c = ti then fade_out_tile E cfg pa c else fade_out_tile E cfg ti c
             else Some c) s) (space_cosmetic E s)"
    by (rule with_column_cosmetic [OF space_inv_parts [OF inv] ci])
       (simp add: fade [OF ti] fade [OF pa] column_cosmetic_refl [OF cinv])
  have anim: "runs (map_slice lo hi (column_animate_move_from E d) (sp_columns t))
      (\<lambda>cs. space_cosmetic E s (t\<lparr>sp_columns := cs\<rparr>))"
    if t: "space_cosmetic E s t" and "lo \<le> hi" "hi \<le> length (sp_columns t)" for t lo hi d
    by (rule runs_mono [OF map_slice_cosmetic [OF space_cosmetic_parts [OF t space_inv_parts [OF inv]] that(2,3)
          column_animate_move_from_cosmetic]])
       (auto simp: column_fits_def intro: space_cosmetic_trans [OF t])
  show ?thesis
    unfolding runs_bind
  proof (rule runs_mono [OF 1])
    fix t assume t: "space_cosmetic E s t"
    have "ci < length (sp_columns t)" using ci space_cosmeticD(1) [OF t] by simp
    then show "runs (column_x (ci + 1) t) (\<lambda>x. runs (let offset = x - prev_next_x
       in if sp_active_column_idx t \<le> ci
          then do { cs \<leftarrow> map_slice (ci + 1) (length (sp_columns t)) (column_animate_move_from E (- offset)) (sp_columns t);
                    Some (t\<lparr>sp_columns := cs\<rparr>) }
          else do { cs \<leftarrow> map_slice 0 (ci + 1) (column_animate_move_from E offset) (sp_columns t);
                    Some (t\<lparr>sp_columns := cs\<rparr>) }) (space_cosmetic E s))"
      using anim [OF t] by (simp add: runs_column_x [OF space_cosmetic_parts [OF t space_inv_parts [OF inv]]] Let_def)
  qed
qed

lemma runs_seq: "runs m I \<Longrightarrow> (\<And>s. I s \<Longrightarrow> runs (rest s) Q) \<Longrightarrow> runs (m \<bind> rest) Q"
  by (cases m) simp_all

lemma runs_seq3:
  "runs (do { s \<leftarrow> m1; s \<leftarrow> m2 s; m3 s }) I \<Longrightarrow> (\<And>s. I s \<Longrightarrow> runs (rest s) Q) \<Longrightarrow>
     runs (do { s \<leftarrow> m1; s \<leftarrow> m2 s; s \<leftarrow> m3 s; rest s }) Q"
  unfolding bind_assoc [symmetric] by (rule runs_seq)

context layout_element
begin

lemma add_tile_to_column_ok:
  assumes inv: "space_inv E s" and ci: "ci < length (sp_columns s)" and t: "tile_ok E t"
    and ti: "option_ok (\<lambda>i. i \<le> length (c_tiles (sp_columns s ! ci))) ti"
  shows "runs (add_tile_to_column E ci ti t act s) (\<lambda>s'. space_inv E s' \<and> space_env s s' \<and>
     grid E s' = g_add_to ci ti (el_id E (tl_window t)) act (grid E s))"
proof -
  let ?c = "sp_columns s ! ci"
  let ?w = "el_id E (tl_window t)"
  note P = space_partsD [OF space_inv_parts [OF inv]]
  define k where "k = (case ti of Some i \<Rightarrow> i | None \<Rightarrow> length (c_tiles ?c))"
  have k: "k \<le> length (c_tiles ?c)" using ti by (cases ti) (simp_all add: k_def)
  define a where "a = c_active_tile_idx ?c"
  have a: "a < length (c_tiles ?c)" using column_invD(2) [OF P(3) [OF ci]] by (simp add: a_def)
  define b where "b = (k \<le> a)"
  define pa where "pa = (if b then a + 1 else a)"
  define ids where "ids = list_insert k ?w (column_ids E ?c)"
  have len_ids: "length ids = Suc (length (c_tiles ?c))" using k by (simp add: ids_def)
  let ?f = "\<lambda>c. Some (if b then c\<lparr>c_active_tile_idx := c_active_tile_idx c + 1\<rparr> else c)"
  obtain s1 c1 ds where s1: "do { s \<leftarrow> with_column ci (column_add_tile_at E k t) s;
                    s \<leftarrow> update_data ci s; with_column ci ?f s } = Some s1"
    "column_cell E c1 = (ids, pa)"
    "s1 = s\<lparr>sp_columns := (sp_columns s)[ci := c1], sp_data := ds\<rparr>" "space_inv E s1"
    using runsD [OF insert_tile_ok [OF inv ci t k, of b]] by (auto simp: ids_def pa_def a_def)
  have g1: "grid E s1 = (grid E s)\<lparr>g_cols := (g_cols (grid E s))[ci := (ids, pa)]\<rparr>"
    unfolding s1(3) using s1(2) by (simp add: column_cells_update)
  have ci1: "ci < length (sp_columns s1)" using ci s1(3) by simp
  have tiles1: "length (c_tiles (sp_columns s1 ! ci)) = length ids"
    using s1(2,3) ci by (auto simp: column_cell_def)
  have env1: "space_env s s1" unfolding s1(3) by simp
  let ?g = "g_add_to ci ti ?w act (grid E s)"
  have ti_ids: "(case ti of Some i \<Rightarrow> i | None \<Rightarrow> length (column_ids E ?c)) = k" by (simp add: k_def split: option.split)
  have cell: "map (column_cell E) (sp_columns s) ! ci = (column_ids E ?c, a)"
    using ci by (simp add: column_cell_def a_def)
  have g_eq: "?g = (if act then g_focus ci k (grid E s1) else grid E s1)"
    unfolding g1 g_add_to_def g_focus_def
    using ci by (simp add: cell ti_ids ids_def [symmetric] pa_def b_def)
  have "runs (if act then do {
        s \<leftarrow> with_column ci (\<lambda>c. map_option snd (column_activate_idx k c)) s1;
        if sp_active_column_idx s \<noteq> ci then activate_column E ci s else Some s } else Some s1)
      (\<lambda>s'. space_inv E s' \<and> space_env s s' \<and> grid E s' = ?g)"
  proof (cases act)
    case True
    then show ?thesis
      using focus_both_ok(2) [OF s1(4) ci1, of k] tiles1 len_ids k space_env_trans [OF env1] g_eq
      by (auto elim!: runs_mono)
  next
    case False
    then show ?thesis using s1(4) env1 g_eq by simp
  qed
  then obtain s2 where s2: "(if act then do {
        s \<leftarrow> with_column ci (\<lambda>c. map_option snd (column_activate_idx k c)) s1;
        if sp_active_column_idx s \<noteq> ci then activate_column E ci s else Some s } else Some s1) = Some s2"
    "space_inv E s2" "space_env s s2" "grid E s2 = ?g"
    by (rule runsE) blast
  have ci2: "ci < length (sp_columns s2)"
    using grid_length [OF s2(4)] ci by (auto simp: g_add_to_def Let_def g_activate_def split: prod.split)
  have "fst (column_cell E (sp_columns s2 ! ci)) = ids"
  proof -
    have "column_cell E (sp_columns s2 ! ci) = g_cols ?g ! ci" using s2(4) ci2 by (metis grid_simps(1) nth_map)
    then show ?thesis
      using ci by (simp add: g_eq g1 g_focus_def g_activate_def)
  qed
  then have tiles2: "length (c_tiles (sp_columns s2 ! ci)) = length ids" by (auto simp: column_cell_def)
  have x: "column_x (ci + 1) s = Some (column_xs s ! (ci + 1))"
    using column_x_Some [OF space_inv_parts [OF inv]] ci by simp
  have conf: "anim_config_ok (space_movement_config s2)"
    using space_partsD(8) [OF space_inv_parts [OF s2(2)]] .
  have ti2: "k < length (c_tiles (sp_columns s2 ! ci))" "pa < length (c_tiles (sp_columns s2 ! ci))"
    using tiles2 len_ids k a by (simp_all add: pa_def)
  note tail = add_tile_animations_ok [OF s2(2) ci2 ti2 conf, unfolded Let_def]
  have fin: "space_inv E s' \<and> space_env s s' \<and> grid E s' = ?g" if "space_cosmetic E s2 s'" for s'
    using space_cosmetic_inv [OF that s2(2)] space_cosmeticD(2,8) [OF that] space_env_trans [OF s2(3)] s2(4) by simp
  have eq: "vec_get (sp_columns s) ci = Some ?c" using ci by (simp add: vec_get_def)
  show ?thesis
    unfolding add_tile_to_column_def Let_def x eq Option.bind.bind_lunit
      k_def [symmetric] a_def [symmetric] b_def [symmetric] pa_def [symmetric]
    by (rule runs_seq3 [OF runsI [where P = "\<lambda>u. u = s1", OF s1(1) refl]])
       (simp only: s2(1) Option.bind.bind_lunit, rule runs_mono [OF tail], rule fin)
qed

end

section \<open>Removing a column\<close>

lemma g_activate_simps [simp]:
  "g_cols (g_activate k g) = g_cols g" "g_active (g_activate k g) = k"
  by (simp_all add: g_activate_def)

definition g_neighbour :: "nat \<Rightarrow> 'id Grid \<Rightarrow> 'id Grid" where
  "g_neighbour i g =
     (if i < g_active g then g\<lparr>g_active := g_active g - 1, g_prev := False\<rparr>
      else if i = g_active g \<and> g_prev g then (if 0 < i then g_activate (g_active g - 1) g else g)
      else g_activate (min (g_active g) (length (g_cols g) - 1)) g)"

definition g_remove_col :: "nat \<Rightarrow> 'id Grid \<Rightarrow> 'id Grid" where
  "g_remove_col i g =
     (let g = g\<lparr>g_cols := list_remove i (g_cols g),
                g_prev := (if i + 1 = g_active g then False else g_prev g)\<rparr>
      in if g_cols g = [] then g else g_neighbour i g)"

lemma space_activated_inv':
  assumes "space_activated idx s s'" and "space_parts E s" and "idx < length (sp_columns s)"
    and "resize_present E s" and "idx = sp_active_column_idx s \<Longrightarrow> restore_ok s"
  shows "space_inv E s'"
proof -
  have core: "space_core E s'" by (rule space_activated_core [OF assms(1-3)])
  show ?thesis
    using core assms(1,4,5) resize_present_cong [of s' s E]
    by (cases "idx = sp_active_column_idx s")
       (simp_all add: space_inv_def space_activated_def restore_ok_def resize_present_def)
qed

lemma forget_column_simps [simp]:
  "sp_columns (forget_column E i c s) = sp_columns s"
  "sp_data (forget_column E i c s) = sp_data s"
  "sp_active_column_idx (forget_column E i c s) = sp_active_column_idx s"
  "sp_view_offset (forget_column E i c s) = sp_view_offset s"
  "sp_activate_prev_column_on_removal (forget_column E i c s) =
     (if i + 1 = sp_active_column_idx s then None else sp_activate_prev_column_on_removal s)"
  "sp_view_offset_to_restore (forget_column E i c s) =
     (if i = sp_active_column_idx s then None else sp_view_offset_to_restore s)"
  "sp_options (forget_column E i c s) = sp_options s"
  "space_env t (forget_column E i c s) = space_env t s"
  "space_parts E' (forget_column E i c s) = space_parts E' s"
  by (auto simp: forget_column_def Let_def split: option.split)

lemma forget_column_resize:
  assumes "resize_present E s" and "c = sp_columns s ! i" and "i < length (sp_columns s)"
  shows "resize_present E (forget_column E i c (s\<lparr>sp_columns := list_remove i (sp_columns s), sp_data := ds\<rparr>))"
proof (cases "sp_interactive_resize s")
  case None
  then show ?thesis by (simp add: forget_column_def Let_def resize_present_def)
next
  case (Some r)
  have "set (sp_columns s) = insert c (set (list_remove i (sp_columns s)))"
    using assms(2,3) by (metis append_take_drop_id Cons_nth_drop_Suc list.simps(15) set_append Un_insert_right)
  with Some assms(1) show ?thesis
    by (auto simp: forget_column_def Let_def resize_present_def)
qed

lemma space_parts_remove:
  assumes "space_parts E s"
  shows "space_parts E (s\<lparr>sp_columns := list_remove i (sp_columns s), sp_data := list_remove i (sp_data s)\<rparr>)"
  using assms unfolding space_parts_def cols_ok_def
  by (auto intro!: list_all2_appendI list_all2_takeI list_all2_dropI)

lemma list_remove_active:
  "i < a \<Longrightarrow> a < length xs \<Longrightarrow> list_remove i xs ! (a - 1) = xs ! a"
  "a < i \<Longrightarrow> i < length xs \<Longrightarrow> list_remove i xs ! a = xs ! a"
  by (auto simp: nth_append min_def)

lemma reshow_ok:
  assumes core: "space_core E u" and ne: "sp_columns u \<noteq> []" and cfg: "anim_config_ok cfg"
  shows "runs (do { s \<leftarrow> animate_view_offset_with_config E (sp_active_column_idx u) p cfg u;
       animate_view_offset_to_column_with_config E None (sp_active_column_idx s) None cfg s }) (space_cosmetic E u)"
proof (rule runs_seq [OF animate_view_ok [OF space_core_parts [OF core] space_core_active_le [OF core]
      space_core_active_le [OF core] cfg]], elim conjE)
  fix v assume v: "space_cosmetic E u v"
  have "space_core E v" by (rule space_cosmetic_core [OF v core])
  moreover have "sp_columns v \<noteq> []" using ne space_cosmeticD(6) [OF v] by simp
  ultimately show "runs (animate_view_offset_to_column_with_config E None (sp_active_column_idx v) None cfg v)
      (space_cosmetic E u)"
    by (intro runs_mono [OF animate_view_to_column_ok(1) [OF space_core_parts _ space_core_active cfg]])
       (auto intro: space_cosmetic_trans [OF v] space_core_active_le)
qed

lemma activate_neighbour_ok:
  assumes parts: "space_parts E t" and res: "resize_present E t" and ne: "sp_columns t \<noteq> []"
    and i: "i \<le> length (sp_columns t)" and a: "sp_active_column_idx t \<le> length (sp_columns t)"
    and restore: "i = sp_active_column_idx t \<Longrightarrow> sp_view_offset_to_restore t = None"
      "i < sp_active_column_idx t \<Longrightarrow> restore_ok (t\<lparr>sp_active_column_idx := sp_active_column_idx t - 1\<rparr>)"
      "sp_active_column_idx t < i \<Longrightarrow> restore_ok t"
    and cfg: "anim_config_ok cfg"
  shows "runs (activate_neighbour E i cfg t) (\<lambda>s'. space_inv E s' \<and> space_env t s' \<and>
     grid E s' = g_neighbour i (grid E t))"
proof -
  let ?a = "sp_active_column_idx t"
  have restore': "restore_ok t" if "?a \<le> i"
    using that restore(1,3) by (cases "i = ?a") (simp_all add: restore_ok_def)
  have act: "runs (activate_column_with_anim_config E k cfg t) (\<lambda>s'. space_inv E s' \<and> space_env t s' \<and>
     grid E s' = g_activate k (grid E t) \<and> sp_active_column_idx s' = k)"
    if "k < length (sp_columns t)" "?a \<le> i" for k
    by (rule runs_mono [OF activate_column_config_ok [OF parts a that(1) cfg]])
       (intro conjI; erule space_activated_inv' [OF _ parts that(1) res restore' [OF that(2)]] space_activatedD)
  consider "i < ?a" | "?a \<le> i" "i = ?a \<and> sp_activate_prev_column_on_removal t \<noteq> None" "0 < i"
    | "?a \<le> i" "i = ?a \<and> sp_activate_prev_column_on_removal t \<noteq> None" "i = 0"
    | "?a \<le> i" "\<not> (i = ?a \<and> sp_activate_prev_column_on_removal t \<noteq> None)"
    by linarith
  then show ?thesis
  proof cases
    case 1
    then have "space_inv E (t\<lparr>sp_active_column_idx := ?a - 1\<rparr>)"
      using parts ne a restore(2) res by (auto simp: space_inv_def space_core_def)
    with 1 show ?thesis by (auto simp: activate_neighbour_def g_neighbour_def)
  next
    case 2
    then obtain p where p: "sp_activate_prev_column_on_removal t = Some p" by auto
    have k: "?a - 1 < length (sp_columns t)" using 2 a by linarith
    have eq: "activate_neighbour E i cfg t = do {
        s \<leftarrow> activate_column_with_anim_config E (?a - 1) cfg t;
        s \<leftarrow> animate_view_offset_with_config E (sp_active_column_idx s) p cfg s;
        animate_view_offset_to_column_with_config E None (sp_active_column_idx s) None cfg s }"
      "g_neighbour i (grid E t) = g_activate (?a - 1) (grid E t)"
      using 2 by (simp_all add: activate_neighbour_def g_neighbour_def p)
    show ?thesis
      unfolding eq
    proof (rule runs_seq [OF act [OF k 2(1)]], elim conjE)
      fix u
      assume u: "space_inv E u" "space_env t u" "grid E u = g_activate (?a - 1) (grid E t)"
      have "sp_columns u \<noteq> []" using ne grid_length [OF u(3)] by auto
      then have "runs (do { s \<leftarrow> animate_view_offset_with_config E (sp_active_column_idx u) p cfg u;
          animate_view_offset_to_column_with_config E None (sp_active_column_idx s) None cfg s }) (space_cosmetic E u)"
        by (rule reshow_ok [OF space_inv_core [OF u(1)] _ cfg])
      then show "runs (do { s \<leftarrow> animate_view_offset_with_config E (sp_active_column_idx u) p cfg u;
          animate_view_offset_to_column_with_config E None (sp_active_column_idx s) None cfg s })
          (\<lambda>s'. space_inv E s' \<and> space_env t s' \<and> grid E s' = g_activate (?a - 1) (grid E t))"
        by (rule runs_mono)
           (use u space_cosmetic_inv space_cosmeticD(2,8) space_env_trans in \<open>metis\<close>)
    qed
  next
    case 3
    then have "space_inv E t" using parts ne restore' res by (auto simp: space_inv_def space_core_def)
    with 3 show ?thesis by (auto simp: activate_neighbour_def g_neighbour_def)
  next
    case 4
    have "min ?a (length (sp_columns t) - 1) < length (sp_columns t)" using ne by (cases "sp_columns t") auto
    from act [OF this 4(1)] 4 show ?thesis
      by (auto simp: activate_neighbour_def g_neighbour_def elim!: runs_mono)
  qed
qed

lemma remove_column_ok:
  assumes inv: "space_inv E s" and i: "i < length (sp_columns s)" and cfg: "option_ok anim_config_ok ac"
  shows "runs (remove_column_by_idx E i ac s) (\<lambda>(c, s'). space_inv E s' \<and> space_env s s' \<and>
     grid E s' = g_remove_col i (grid E s) \<and> column_cosmetic E (sp_columns s ! i) c)"
proof -
  note parts = space_inv_parts [OF inv]
  have conf: "anim_config_ok (config_or ac (space_movement_config s))"
    using cfg space_partsD(8) [OF parts] by (cases ac) simp_all
  have "runs (if sp_active_column_idx s \<le> i
      then animate_columns E (i + 1) (length (sp_columns s)) d (config_or ac (space_movement_config s)) s
      else animate_columns E 0 i d' (config_or ac (space_movement_config s)) s) (space_cosmetic E s)" for d d'
    using i by (auto intro!: animate_columns_ok [OF parts _ _ conf])
  then obtain s1 where s1: "(if sp_active_column_idx s \<le> i
      then animate_columns E (i + 1) (length (sp_columns s)) (column_xs s ! (i + 1) - column_xs s ! i)
             (config_or ac (space_movement_config s)) s
      else animate_columns E 0 i (- (column_xs s ! (i + 1) - column_xs s ! i))
             (config_or ac (space_movement_config s)) s) = Some s1" "space_cosmetic E s s1"
    by (rule runsE)
  note S1 = space_cosmeticD [OF s1(2)]
  have inv1: "space_inv E s1" by (rule space_cosmetic_inv [OF s1(2) inv])
  have i1: "i < length (sp_columns s1)" using i S1(1) by simp
  define c where "c = sp_columns s1 ! i"
  have cos: "column_cosmetic E (sp_columns s ! i) c" using S1(3) [OF i] by (simp add: c_def)
  define t where "t = forget_column E i c (s1\<lparr>sp_columns := list_remove i (sp_columns s1),
     sp_data := list_remove i (sp_data s1)\<rparr>)"
  have tparts: "space_parts E t"
    unfolding t_def using space_parts_remove [OF space_inv_parts [OF inv1]] by simp
  have tres: "resize_present E t"
    unfolding t_def using inv1 c_def i1 by (intro forget_column_resize) (simp_all add: space_inv_def)
  have tenv: "space_env s t" unfolding t_def using S1(2) by simp
  have tcols: "sp_columns t = list_remove i (sp_columns s1)" by (simp add: t_def)
  have ta: "sp_active_column_idx t = sp_active_column_idx s" using S1(7) by (simp add: t_def)
  have tg: "grid E t = (grid E s)\<lparr>g_cols := list_remove i (g_cols (grid E s)),
      g_prev := (if i + 1 = sp_active_column_idx s then False else g_prev (grid E s))\<rparr>"
    using S1(5,7,8) unfolding t_def by (simp add: grid_def flip: take_map drop_map)
  have "g_remove_col i (grid E s) = (let g = grid E t in if g_cols g = [] then g else g_neighbour i g)"
    by (simp only: g_remove_col_def tg grid_simps(2))
  then have tg': "g_remove_col i (grid E s) = (if sp_columns t = [] then grid E t else g_neighbour i (grid E t))"
    by (simp add: Let_def)
  have tlen: "length (sp_columns t) = length (sp_columns s) - 1" using i1 S1(1) by (simp add: tcols)
  have a: "sp_active_column_idx s < length (sp_columns s)"
    using space_core_active [OF space_inv_core [OF inv]] i by force
  have restore1: "restore_ok s1" using inv1 by (simp add: space_inv_def)
  have tail: "runs (if sp_columns t = [] then Some (c, t) else do {
      s \<leftarrow> activate_neighbour E i (config_or ac (view_movement_config t)) t; Some (c, s) })
      (\<lambda>(c, s'). space_inv E s' \<and> space_env s s' \<and>
         grid E s' = g_remove_col i (grid E s) \<and> column_cosmetic E (sp_columns s ! i) c)"
  proof (cases "sp_columns t = []")
    case True
    then have "i = 0" "sp_active_column_idx s = 0" using tlen i a by auto
    with True have "space_inv E t"
      using tparts tres S1(7) by (simp add: space_inv_def space_core_def restore_ok_def t_def)
    with True tenv cos tg' show ?thesis by simp
  next
    case False
    have conf: "anim_config_ok (config_or ac (view_movement_config t))"
      using cfg space_partsD(7) [OF tparts] by (cases ac) simp_all
    have "runs (activate_neighbour E i (config_or ac (view_movement_config t)) t) (\<lambda>s'. space_inv E s' \<and>
        space_env t s' \<and> grid E s' = g_neighbour i (grid E t))"
    proof (rule activate_neighbour_ok [OF tparts tres False _ _ _ _ _ conf])
      show "i \<le> length (sp_columns t)" "sp_active_column_idx t \<le> length (sp_columns t)"
        using tlen i a ta by simp_all
      show "sp_view_offset_to_restore t = None" if "i = sp_active_column_idx t"
        using that ta S1(7) by (simp add: t_def)
      show "restore_ok (t\<lparr>sp_active_column_idx := sp_active_column_idx t - 1\<rparr>)" if "i < sp_active_column_idx t"
        using restore1 False that ta S1(1,7) a list_remove_active(1) [of i "sp_active_column_idx s" "sp_columns s1"]
        by (auto simp: restore_ok_def t_def)
      show "restore_ok t" if "sp_active_column_idx t < i"
        using restore1 False that ta S1(7) i1 list_remove_active(2) [of "sp_active_column_idx s" i "sp_columns s1"]
        by (auto simp: restore_ok_def t_def)
    qed
    then show ?thesis
      using False tg' cos space_env_trans [OF tenv] by (auto elim!: runs_mono)
  qed
  have x: "column_x (i + 1) s = Some (column_xs s ! (i + 1))" "column_x i s = Some (column_xs s ! i)"
    using column_x_Some [OF parts] i by simp_all
  have rem: "vec_remove i (sp_columns s1) = Some (c, list_remove i (sp_columns s1))"
    "vec_remove i (sp_data s1) = Some (sp_data s1 ! i, list_remove i (sp_data s1))"
    using i1 space_partsD(2) [OF space_inv_parts [OF inv1]] by (simp_all add: vec_remove_def c_def)
  show ?thesis
    using tail unfolding remove_column_by_idx_def Let_def x Option.bind.bind_lunit s1(1) rem prod.case
      t_def [symmetric] .
qed

section \<open>Removing a tile\<close>

definition g_remove_tile :: "nat \<Rightarrow> nat \<Rightarrow> 'id Grid \<Rightarrow> 'id Grid" where
  "g_remove_tile ci ti g =
     (if length (fst (g_cols g ! ci)) = 1 then g_remove_col ci g
      else g\<lparr>g_cols := (g_cols g)[ci := cell_remove ti (g_cols g ! ci)]\<rparr>)"

lemma forget_tile_simps [simp]:
  "sp_columns (forget_tile E i n t c s) = sp_columns s"
  "sp_data (forget_tile E i n t c s) = sp_data s"
  "sp_active_column_idx (forget_tile E i n t c s) = sp_active_column_idx s"
  "sp_activate_prev_column_on_removal (forget_tile E i n t c s) = sp_activate_prev_column_on_removal s"
  "sp_view_offset_to_restore (forget_tile E i n t c s) =
     (if i = sp_active_column_idx s \<and> \<not> n \<and> is_normal (column_sizing_mode c) then None
      else sp_view_offset_to_restore s)"
  "sp_interactive_resize (forget_tile E i n t c s) =
     (case sp_interactive_resize s of None \<Rightarrow> None
      | Some r \<Rightarrow> if el_id E (tl_window t) = ir_window r then None else Some r)"
  "space_env u (forget_tile E i n t c s) = space_env u s"
  "space_parts E' (forget_tile E i n t c s) = space_parts E' s"
  "grid E' (forget_tile E i n t c s) = grid E' s"
  by (auto simp: forget_tile_def Let_def split: option.split)

lemma list_remove_mem: "i < length xs \<Longrightarrow> x \<in> set xs \<Longrightarrow> x \<noteq> xs ! i \<Longrightarrow> x \<in> set (list_remove i xs)"
  by (metis append_take_drop_id Cons_nth_drop_Suc set_ConsD set_append Un_iff)

text \<open>The invariant after a tile has left a column.\<close>

lemma space_inv_tile_removed:
  assumes inv: "space_inv E s" and ci: "ci < length (sp_columns s)"
    and rem: "column_removed E ti (sp_columns s ! ci) t c" and ti: "ti < length (c_tiles (sp_columns s ! ci))"
    and s': "s' = (forget_tile E ci (is_normal (column_sizing_mode (sp_columns s ! ci))) t c s)
               \<lparr>sp_columns := (sp_columns s)[ci := c], sp_data := ds\<rparr>"
    and parts: "space_parts E s'"
  shows "space_inv E s'"
proof -
  have "space_core E s'" using inv parts ci by (auto simp: space_inv_def space_core_def s')
  moreover have "restore_ok s'"
    using inv ci by (auto simp: space_inv_def restore_ok_def s' nth_list_update split: if_splits)
  moreover have "resize_present E s'"
  proof (cases "sp_interactive_resize s'")
    case None
    then show ?thesis by (simp add: resize_present_def)
  next
    case (Some r)
    then have r: "sp_interactive_resize s = Some r" "el_id E (tl_window t) \<noteq> ir_window r"
      by (auto simp: s' split: option.splits if_splits)
    obtain j where j: "j < length (sp_columns s)" "column_contains E (ir_window r) (sp_columns s ! j)"
      using inv r(1) by (auto simp: space_inv_def resize_present_def in_set_conv_nth)
    have "column_contains E (ir_window r) ((sp_columns s)[ci := c] ! j)"
    proof (cases "j = ci")
      case True
      have ids: "fst (column_cell E c) = list_remove ti (column_ids E (sp_columns s ! ci))"
        using rem by (simp add: column_removed_def column_cell_def)
      have "ir_window r \<in> set (column_ids E (sp_columns s ! ci))"
        using j(2) True by (simp add: column_contains_cell column_cell_def)
      moreover have "ir_window r \<noteq> column_ids E (sp_columns s ! ci) ! ti"
        using r(2) rem by (simp add: column_removed_def)
      ultimately have "ir_window r \<in> set (fst (column_cell E c))"
        unfolding ids using ti by (intro list_remove_mem) simp_all
      with True ci show ?thesis by (simp add: column_contains_cell)
    next
      case False
      with j(2) show ?thesis by simp
    qed
    moreover have "j < length (sp_columns s')" using j(1) by (simp add: s')
    ultimately show ?thesis
      using Some by (auto simp: resize_present_def s' intro: bexI [OF _ nth_mem])
  qed
  ultimately show ?thesis by (simp add: space_inv_def)
qed

context layout_element
begin

lemma remove_tile_by_idx_ok:
  assumes inv: "space_inv E s" and ci: "ci < length (sp_columns s)"
    and ti: "ti < length (c_tiles (sp_columns s ! ci))" and cfg: "option_ok anim_config_ok ac"
  shows "runs (remove_tile_by_idx E ci ti ac s) (\<lambda>(r, s'). space_inv E s' \<and> space_env s s' \<and>
     grid E s' = g_remove_tile ci ti (grid E s) \<and> tile_fits E s (rm_tile r) \<and>
     el_id E (tl_window (rm_tile r)) = column_ids E (sp_columns s ! ci) ! ti)"
proof -
  let ?c = "sp_columns s ! ci"
  note P = space_partsD [OF space_inv_parts [OF inv]]
  have get: "vec_get (sp_columns s) ci = Some ?c" "vec_get (sp_data s) ci = Some (sp_data s ! ci)"
    using ci P(2) by (simp_all add: vec_get_def)
  have len: "length (fst (g_cols (grid E s) ! ci)) = length (c_tiles ?c)"
    using ci by (simp add: column_cell_def)
  show ?thesis
  proof (cases "length (c_tiles ?c) = 1")
    case True
    have fin: "runs (vec_remove ti (c_tiles c)) (\<lambda>(t, _). tile_fits E s t \<and>
        el_id E (tl_window t) = column_ids E ?c ! ti)" if c: "column_cosmetic E ?c c" for c
    proof -
      have eq: "column_ids E c = column_ids E ?c" "column_inv E c" "c_options c = sp_options s"
        using c P(4) [OF ci] by (auto simp: column_cosmetic_def column_cell_def column_env_defs column_fits_def)
      have tl: "ti < length (c_tiles c)" using ti arg_cong [OF eq(1), of length] by simp
      have "column_ids E c ! ti = el_id E (tl_window (c_tiles c ! ti))" using tl by simp
      with eq(1) column_invD(6) [OF eq(2) tl] eq(3) tl show ?thesis
        by (simp add: tile_in_def tile_fits_def)
    qed
    show ?thesis
      unfolding remove_tile_by_idx_def get(1) Option.bind.bind_lunit g_remove_tile_def len
      using True fin by (auto simp: case_prod_unfold elim!: runs_mono
          intro!: runs_mono [OF remove_column_ok [OF inv ci cfg]])
  next
    case False
    have n: "1 < length (c_tiles ?c)" using False ti by linarith
    define cfg' where "cfg' = config_or ac (space_movement_config s)"
    have conf: "anim_config_ok cfg'" using cfg P(8) by (cases ac) (simp_all add: cfg'_def)
    obtain t c where tc: "remove_from_column E ti cfg' ?c = Some (t, c)" "column_removed E ti ?c t c"
      using runsD [OF remove_from_column_ok [OF P(3) [OF ci] n ti conf]] by auto
    define u where "u = forget_tile E ci (is_normal (column_sizing_mode ?c)) t c s"
    have uparts: "space_parts E u" using space_inv_parts [OF inv] by (simp add: u_def)
    have ucols: "sp_columns u = sp_columns s" "sp_data u = sp_data s" "sp_active_column_idx u = sp_active_column_idx s"
      by (simp_all add: u_def)
    have cinv: "column_inv E c" "column_fixed ?c c" using tc(2) by (simp_all add: column_removed_def)
    obtain v d where v: "update_data ci (u\<lparr>sp_columns := (sp_columns u)[ci := c]\<rparr>) = Some v"
      "v = u\<lparr>sp_columns := (sp_columns u)[ci := c], sp_data := (sp_data u)[ci := d]\<rparr>" "space_parts E v"
      using runsD [OF update_data_ok [OF uparts, of ci c]] ci cinv ucols by auto
    have vinv: "space_inv E v"
      by (rule space_inv_tile_removed [OF inv ci tc(2) ti _ v(3)]) (simp add: v(2) ucols, simp add: u_def)
    have vg: "grid E v = g_remove_tile ci ti (grid E s)"
      using tc(2) ci False len
      by (simp add: v(2) ucols u_def g_remove_tile_def column_cells_update column_removed_def)
    have venv: "space_env s v" by (simp add: v(2) u_def)
    obtain w where w: "column_px_width c = Some w" using column_px_width_total [OF cinv(1)] ..
    have vlen: "ci < length (sp_columns v)" using ci by (simp add: v(2) ucols)
    have anim: "runs (animate_columns E lo hi x cfg' v) (\<lambda>s'. space_inv E s' \<and> space_env s s' \<and>
        grid E s' = g_remove_tile ci ti (grid E s))" if "lo \<le> hi" "hi \<le> length (sp_columns v)" for lo hi x
      by (rule runs_mono [OF animate_columns_ok [OF v(3) that conf]])
         (use space_cosmetic_inv [OF _ vinv] space_cosmeticD(2,8) space_env_trans [OF venv] vg in metis)
    have fits: "tile_fits E s t \<and> el_id E (tl_window t) = column_ids E ?c ! ti"
      using tc(2) P(4) [OF ci] by (simp add: column_removed_def tile_fits_def column_fits_def)
    show ?thesis
      unfolding remove_tile_by_idx_def get Option.bind.bind_lunit Let_def cfg'_def [symmetric] tc(1) prod.case
        u_def [symmetric] v(1) w
      using False fits vlen by (simp add: anim)
  qed
qed

end

end
