(* ===== verification/Layout_Scrolling_Refine.thy ===== *)
theory Layout_Scrolling_Refine
  imports Layout_Scrolling_Ops
begin

text \<open>
  Every action of the scrolling layout refines an operation on the grid of windows: it never panics,
  keeps the invariant, and the windows and the focus end up where the abstract operation puts them.
\<close>

section \<open>Refinement\<close>

text \<open>
  An action refines an operation on the grid when it runs to an end in every state that satisfies the
  invariant, keeps the invariant and the environment, and acts on the grid as the operation says.
\<close>

definition acts :: "('w, 'id) LayoutEnv \<Rightarrow> ('w, 'id) Space \<Rightarrow> ('id Grid \<Rightarrow> 'id Grid) \<Rightarrow> ('w, 'id) Space \<Rightarrow> bool" where
  "acts E s f s' \<longleftrightarrow> space_inv E s' \<and> space_env s s' \<and> grid E s' = f (grid E s)"

lemma acts_cosmetic:
  assumes "space_inv E s" and "space_cosmetic E s s'" shows "acts E s id s'"
  using space_cosmetic_inv [OF assms(2,1)] space_cosmeticD(2,8) [OF assms(2)] by (simp add: acts_def)

lemma acts_refl: "space_inv E s \<Longrightarrow> acts E s id s"
  by (simp add: acts_def)

lemma acts_trans: "acts E s f t \<Longrightarrow> acts E t g u \<Longrightarrow> acts E s (\<lambda>x. g (f x)) u"
  by (auto simp: acts_def intro: space_env_trans)

lemma runs_acts_seq:
  assumes "runs m (acts E s f)" and "\<And>t. acts E s f t \<Longrightarrow> runs (rest t) (acts E t g)"
  shows "runs (m \<bind> rest) (acts E s (\<lambda>x. g (f x)))"
proof -
  have "runs (rest t) (acts E s (\<lambda>x. g (f x)))" if "acts E s f t" for t
    by (rule runs_mono [OF assms(2) [OF that] acts_trans [OF that]])
  then show ?thesis unfolding runs_bind by (rule runs_mono [OF assms(1)])
qed

lemma acts_then_cosmetic:
  assumes "acts E s f t" and "runs m (space_cosmetic E t)" shows "runs m (acts E s f)"
  by (rule runs_mono [OF assms(2)])
     (use assms(1) space_cosmetic_inv space_cosmeticD(2,8) space_env_trans in \<open>metis acts_def\<close>)

lemma acts_inv: "acts E s f t \<Longrightarrow> space_inv E t"
  by (simp add: acts_def)

lemma acts_length: "acts E s f t \<Longrightarrow> length (sp_columns t) = length (g_cols (f (grid E s)))"
  by (auto simp: acts_def dest: grid_length)

lemma acts_cell:
  assumes "acts E s f t" and "i < length (sp_columns t)"
  shows "column_cell E (sp_columns t ! i) = g_cols (f (grid E s)) ! i"
  using assms by (metis acts_def grid_simps(1) nth_map)

lemma column_tiles_cell: "length (c_tiles c) = length (fst (column_cell E c))"
  by (simp add: column_cell_def)

section \<open>Focus\<close>

lemma activate_column_acts:
  "space_inv E s \<Longrightarrow> idx < length (sp_columns s) \<Longrightarrow> runs (activate_column E idx s) (acts E s (g_activate idx))"
  by (rule runs_mono [OF activate_column_inv]) (simp_all add: acts_def)

lemma runs_Pair: "runs m P \<Longrightarrow> runs (map_option (Pair b) m) (\<lambda>(b', s). b' = b \<and> P s)"
  by (cases m) simp_all

definition g_focus_left :: "'id Grid \<Rightarrow> 'id Grid" where
  "g_focus_left g = (if g_active g = 0 then g else g_activate (g_active g - 1) g)"

definition g_focus_right :: "'id Grid \<Rightarrow> 'id Grid" where
  "g_focus_right g = (if g_active g + 1 \<ge> length (g_cols g) then g else g_activate (g_active g + 1) g)"

lemma focus_left_acts:
  assumes "space_inv E s"
  shows "runs (focus_left E s) (\<lambda>(b, s'). b = (sp_active_column_idx s \<noteq> 0) \<and> acts E s g_focus_left s')"
proof (cases "sp_active_column_idx s = 0")
  case True
  with assms show ?thesis by (simp add: focus_left_def g_focus_left_def acts_def)
next
  case False
  have "sp_columns s \<noteq> []" using assms False by (auto simp: space_inv_def space_core_def)
  then have "sp_active_column_idx s - 1 < length (sp_columns s)"
    using space_core_active [OF space_inv_core [OF assms]] by linarith
  from runs_Pair [OF activate_column_acts [OF assms this], of True] False show ?thesis
    by (simp add: focus_left_def g_focus_left_def acts_def)
qed

lemma focus_right_acts:
  assumes "space_inv E s"
  shows "runs (focus_right E s) (\<lambda>(b, s'). b = (sp_active_column_idx s + 1 < length (sp_columns s)) \<and>
     acts E s g_focus_right s')"
proof (cases "sp_active_column_idx s + 1 < length (sp_columns s)")
  case True
  from runs_Pair [OF activate_column_acts [OF assms True], of True] True show ?thesis
    by (simp add: focus_right_def g_focus_right_def acts_def)
next
  case False
  with assms show ?thesis by (simp add: focus_right_def g_focus_right_def acts_def)
qed

definition g_focus_column :: "nat \<Rightarrow> 'id Grid \<Rightarrow> 'id Grid" where
  "g_focus_column index g =
     (if g_cols g = [] then g else g_activate (min (index - 1) (length (g_cols g) - 1)) g)"

lemma focus_column_acts:
  assumes "space_inv E s"
  shows "runs (focus_column E n s) (acts E s (g_focus_column n))"
    and "runs (focus_column_first E s) (acts E s (g_focus_column 1))"
    and "runs (focus_column_last E s) (acts E s (\<lambda>g. g_focus_column (length (g_cols g)) g))"
proof -
  have "runs (focus_column E n s) (acts E s (g_focus_column n)) \<and>
    runs (focus_column_first E s) (acts E s (g_focus_column 1)) \<and>
    runs (focus_column_last E s) (acts E s (\<lambda>g. g_focus_column (length (g_cols g)) g))"
  proof (cases "sp_columns s = []")
    case True
    then have "sp_active_column_idx s = 0" using assms by (auto simp: space_inv_def space_core_def)
    with assms True show ?thesis
      by (simp add: focus_column_def focus_column_first_def focus_column_last_def g_focus_column_def acts_def
          activate_column_def activate_column_with_anim_config_def)
  next
    case False
    then have "k \<le> length (sp_columns s) - 1 \<Longrightarrow> k < length (sp_columns s)" for k
      by (cases "sp_columns s") auto
    then have "runs (activate_column E (min (k - 1) (length (sp_columns s) - 1)) s) (acts E s (g_focus_column k))" for k
      using False by (intro runs_mono [OF activate_column_acts [OF assms]]) (simp_all add: acts_def g_focus_column_def)
    note focus = this
    have "runs (activate_column E (length (sp_columns s) - 1) s)
        (acts E s (\<lambda>g. g_focus_column (length (g_cols g)) g))"
      using runs_mono [OF focus [of "length (sp_columns s)"], of "acts E s (\<lambda>g. g_focus_column (length (g_cols g)) g)"]
      by (simp add: acts_def)
    with focus [of n] focus [of 1] False show ?thesis
      by (simp add: focus_column_def focus_column_first_def focus_column_last_def)
  qed
  then show "runs (focus_column E n s) (acts E s (g_focus_column n))"
    "runs (focus_column_first E s) (acts E s (g_focus_column 1))"
    "runs (focus_column_last E s) (acts E s (\<lambda>g. g_focus_column (length (g_cols g)) g))"
    by blast+
qed

text \<open>The column and tile of a window, or the active ones.\<close>

fun g_source :: "'id option \<Rightarrow> 'id Grid \<Rightarrow> (nat \<times> nat) option" where
  "g_source None g = Some (g_active g, snd (g_cols g ! g_active g))"
| "g_source (Some w) g =
     do { ci \<leftarrow> vec_position (\<lambda>cell. w \<in> set (fst cell)) (g_cols g);
          ti \<leftarrow> vec_position (\<lambda>j. j = w) (fst (g_cols g ! ci));
          Some (ci, ti) }"

lemma space_column_of_grid: "space_column_of E w s = vec_position (\<lambda>cell. w \<in> set (fst cell)) (map (column_cell E) (sp_columns s))"
  by (simp add: space_column_of_def vec_position_map column_contains_cell [abs_def])

lemma source_of_grid:
  assumes "space_inv E s" and "sp_columns s \<noteq> []"
  shows "source_of E w s = g_source w (grid E s)"
proof (cases w)
  case None
  then show ?thesis
    using space_core_active [OF space_inv_core [OF assms(1)] assms(2)]
    by (simp add: source_of_def vec_get_def column_cell_def)
next
  case (Some i)
  show ?thesis
  proof (cases "space_column_of E i s")
    case None
    with Some show ?thesis by (simp add: source_of_def space_column_of_grid)
  next
    case (Some ci)
    then have "ci < length (sp_columns s)" by (simp add: space_column_of_def vec_position_SomeD)
    with Some \<open>w = Some i\<close> show ?thesis
      by (simp add: source_of_def column_position_ids vec_get_def column_cell_def space_column_of_grid)
  qed
qed

lemma source_of_bounds:
  assumes inv: "space_inv E s" and ne: "sp_columns s \<noteq> []" and src: "source_of E w s = Some (ci, ti)"
  shows "ci < length (sp_columns s)" and "ti < length (c_tiles (sp_columns s ! ci))"
proof -
  note P = space_partsD [OF space_inv_parts [OF inv]]
  show ci: "ci < length (sp_columns s)"
    using src space_core_active [OF space_inv_core [OF inv] ne]
    by (cases w) (auto simp: source_of_def vec_get_def space_column_of_def bind_eq_Some_conv split: if_splits
        dest: vec_position_SomeD)
  show "ti < length (c_tiles (sp_columns s ! ci))"
    using src column_invD(2) [OF P(3) [OF ci]] column_position_SomeD [of E _ "sp_columns s ! ci" ti]
    by (cases w) (auto simp: source_of_def vec_get_def bind_eq_Some_conv split: if_splits)
qed

text \<open>A window that the space has is found.\<close>

definition space_has :: "('w, 'id) LayoutEnv \<Rightarrow> 'id \<Rightarrow> ('w, 'id) Space \<Rightarrow> bool" where
  "space_has E w s \<longleftrightarrow> (\<exists>c \<in> set (sp_columns s). column_contains E w c)"

lemma source_of_has:
  assumes "space_inv E s" and "sp_columns s \<noteq> []" and "option_ok (\<lambda>w. space_has E w s) w"
  obtains ci ti where "source_of E w s = Some (ci, ti)"
proof (cases w)
  case None
  with that show ?thesis
    using space_core_active [OF space_inv_core [OF assms(1)] assms(2)] by (simp add: source_of_def vec_get_def)
next
  case (Some i)
  then have "space_column_of E i s \<noteq> None"
    using assms(3) by (auto simp: space_column_of_def vec_position_None space_has_def)
  then obtain ci where ci: "space_column_of E i s = Some ci" by blast
  then have c: "ci < length (sp_columns s)" "column_contains E i (sp_columns s ! ci)"
    using vec_position_SomeD [of "column_contains E i" "sp_columns s" ci] by (simp_all add: space_column_of_def)
  then have "column_position E i (sp_columns s ! ci) \<noteq> None"
    by (auto simp: column_position_def vec_position_None column_contains_def)
  with Some ci c(1) that show ?thesis by (auto simp: source_of_def vec_get_def)
qed

text \<open>An operation on the active column.\<close>

definition g_on_active :: "('id list \<times> nat \<Rightarrow> 'id list \<times> nat) \<Rightarrow> 'id Grid \<Rightarrow> 'id Grid" where
  "g_on_active h g =
     (if g_cols g = [] then g else g\<lparr>g_cols := (g_cols g)[g_active g := h (g_cols g ! g_active g)]\<rparr>)"

definition cell_op :: "('w, 'id) LayoutEnv \<Rightarrow> ('id list \<times> nat \<Rightarrow> 'id list \<times> nat) \<Rightarrow> 'w Column \<Rightarrow> 'w Column \<Rightarrow> bool" where
  "cell_op E h c c' \<longleftrightarrow> column_inv E c' \<and> column_env c c' \<and> column_cell E c' = h (column_cell E c) \<and>
     set (fst (h (column_cell E c))) = set (fst (column_cell E c))"

lemma with_column_acts:
  assumes inv: "space_inv E s" and i: "i < length (sp_columns s)"
    and f: "runs (f (sp_columns s ! i)) (cell_op E h (sp_columns s ! i))"
  shows "runs (with_column i f s)
    (acts E s (\<lambda>g. g\<lparr>g_cols := (g_cols g)[i := h (g_cols g ! i)]\<rparr>))"
proof -
  have "runs (f (sp_columns s ! i)) (\<lambda>c. column_inv E c \<and> column_env (sp_columns s ! i) c \<and>
       set (fst (column_cell E c)) = set (fst (column_cell E (sp_columns s ! i))) \<and>
       column_cell E c = h (column_cell E (sp_columns s ! i)))"
    by (rule runs_mono [OF f]) (simp add: cell_op_def)
  from with_column_op [OF inv i, where f = f, OF this] show ?thesis
    by (rule runs_mono) (use i in \<open>auto simp: acts_def column_cells_update\<close>)
qed

lemma on_active_acts:
  assumes inv: "space_inv E s" and f: "\<And>c. column_inv E c \<Longrightarrow> runs (f c) (cell_op E h c)"
  shows "runs (on_active f s) (acts E s (g_on_active h))"
proof (cases "sp_columns s = []")
  case True
  with inv show ?thesis by (simp add: on_active_def acts_def g_on_active_def)
next
  case False
  note a = space_core_active [OF space_inv_core [OF inv] False]
  have "runs (with_column (sp_active_column_idx s) f s)
      (acts E s (\<lambda>g. g\<lparr>g_cols := (g_cols g)[sp_active_column_idx s := h (g_cols g ! sp_active_column_idx s)]\<rparr>))"
    by (rule with_column_acts [OF inv a]) (rule f [OF space_partsD(3) [OF space_inv_parts [OF inv] a]])
  then show ?thesis
    using False by (auto simp: on_active_def acts_def g_on_active_def elim!: runs_mono)
qed

lemma on_active_bool_snd: "map_option snd (on_active_bool f s) = on_active (\<lambda>c. map_option snd (f c)) s"
  by (simp add: on_active_bool_def on_active_def with_column_def vec_modify_def case_prod_unfold
      map_option_bind map_conv_bind_option comp_def split: option.split)

fun cell_up :: "'id list \<times> nat \<Rightarrow> 'id list \<times> nat" where "cell_up (ids, a) = (ids, a - 1)"
fun cell_down :: "'id list \<times> nat \<Rightarrow> 'id list \<times> nat" where "cell_down (ids, a) = (ids, min (a + 1) (length ids - 1))"
fun cell_index :: "nat \<Rightarrow> 'id list \<times> nat \<Rightarrow> 'id list \<times> nat" where "cell_index n (ids, a) = (ids, min (n - 1) (length ids - 1))"
fun cell_bottom :: "'id list \<times> nat \<Rightarrow> 'id list \<times> nat" where "cell_bottom (ids, a) = (ids, length ids - 1)"
fun cell_move_up :: "'id list \<times> nat \<Rightarrow> 'id list \<times> nat" where
  "cell_move_up (ids, a) = (swapped a (a - 1) ids, a - 1)"
fun cell_move_down :: "'id list \<times> nat \<Rightarrow> 'id list \<times> nat" where
  "cell_move_down (ids, a) = (swapped a (min (a + 1) (length ids - 1)) ids, min (a + 1) (length ids - 1))"

lemma cell_op_focus:
  "column_op E c c' \<Longrightarrow> h (column_cell E c) = (column_ids E c, c_active_tile_idx c') \<Longrightarrow> cell_op E h c c'"
  by (simp add: cell_op_def column_cell_def)

lemma cell_op_move:
  "column_inv E c' \<Longrightarrow> column_env c c' \<Longrightarrow> column_ids E c' = ids \<Longrightarrow>
     h (column_ids E c, c_active_tile_idx c) = (ids, c_active_tile_idx c') \<Longrightarrow> set ids = set (column_ids E c) \<Longrightarrow>
     cell_op E h c c'"
  by (simp add: cell_op_def column_cell_def)

lemma swapped_set: "i < length xs \<Longrightarrow> j < length xs \<Longrightarrow> set (swapped i j xs) = set xs"
  by (rule set_swap)

lemma column_focus_cells:
  assumes "column_inv E c"
  shows "runs (map_option snd (column_focus_up c)) (cell_op E cell_up c)"
    and "runs (map_option snd (column_focus_down c)) (cell_op E cell_down c)"
    and "runs (column_focus_top c) (cell_op E (cell_index 0) c)"
    and "runs (column_focus_bottom c) (cell_op E cell_bottom c)"
    and "runs (column_focus_index n c) (cell_op E (cell_index (unat n)) c)"
  unfolding runs_map_option
  by (rule runs_mono [OF column_focus_ok(1) [OF assms]], simp add: case_prod_unfold cell_op_def column_cell_def)
     (rule runs_mono [OF column_focus_ok(2) [OF assms]], simp add: case_prod_unfold cell_op_def column_cell_def,
      rule runs_mono [OF column_focus_ok(3) [OF assms]], simp add: cell_op_def column_cell_def,
      rule runs_mono [OF column_focus_ok(4) [OF assms]], simp add: cell_op_def column_cell_def,
      rule runs_mono [OF column_focus_ok(5) [OF assms]], simp add: cell_op_def column_cell_def)

lemma column_move_cells:
  assumes "column_inv E c"
  shows "runs (map_option snd (column_move_up E c)) (cell_op E cell_move_up c)"
    and "runs (map_option snd (column_move_down E c)) (cell_op E cell_move_down c)"
proof -
  have a: "c_active_tile_idx c < length (column_ids E c)" using column_invD(2) [OF assms] by simp
  have up: "set (swapped (c_active_tile_idx c) (c_active_tile_idx c - 1) (column_ids E c)) = set (column_ids E c)"
    using a by (intro swapped_set) linarith+
  show "runs (map_option snd (column_move_up E c)) (cell_op E cell_move_up c)"
    unfolding runs_map_option
    by (rule runs_mono [OF column_move_ok(1) [OF assms]], simp only: case_prod_unfold, elim conjE,
        rule cell_op_move [OF _ _ _ _ up]) simp_all
  have down: "set (swapped (c_active_tile_idx c) (min (c_active_tile_idx c + 1) (length (c_tiles c) - 1))
      (column_ids E c)) = set (column_ids E c)"
    using a by (intro swapped_set) (auto simp: min_def)
  show "runs (map_option snd (column_move_down E c)) (cell_op E cell_move_down c)"
    unfolding runs_map_option
    by (rule runs_mono [OF column_move_ok(2) [OF assms]], simp only: case_prod_unfold, elim conjE,
        rule cell_op_move [OF _ _ _ _ down]) simp_all
qed

lemma focus_vertical_acts:
  assumes "space_inv E s"
  shows "runs (map_option snd (focus_up s)) (acts E s (g_on_active cell_up))"
    and "runs (map_option snd (focus_down s)) (acts E s (g_on_active cell_down))"
    and "runs (focus_top s) (acts E s (g_on_active (cell_index 0)))"
    and "runs (focus_bottom s) (acts E s (g_on_active cell_bottom))"
    and "runs (focus_window_in_column n s) (acts E s (g_on_active (cell_index (unat n))))"
    and "runs (map_option snd (move_up E s)) (acts E s (g_on_active cell_move_up))"
    and "runs (map_option snd (move_down E s)) (acts E s (g_on_active cell_move_down))"
  unfolding focus_up_def focus_down_def focus_top_def focus_bottom_def focus_window_in_column_def
    move_up_def move_down_def on_active_bool_snd
  by (rule on_active_acts [OF assms]; erule column_focus_cells column_move_cells)+

section \<open>Ending a resize\<close>

lemma column_cancel_resize_active [simp]: "c_active_tile_idx (column_cancel_resize E c) = c_active_tile_idx c"
  by (simp add: column_cancel_resize_def)

lemma cancel_resize_of_cases: "cancel_resize_of E c s = s \<or> cancel_resize_of E c s = s\<lparr>sp_interactive_resize := None\<rparr>"
  by (simp add: cancel_resize_of_def split: option.split)

lemma acts_idD:
  assumes "acts E s id t"
  shows "space_inv E t" and "space_env s t" and "grid E t = grid E s"
    and "sp_active_column_idx t = sp_active_column_idx s" and "length (sp_columns t) = length (sp_columns s)"
    and "sp_columns t = [] \<longleftrightarrow> sp_columns s = []"
    and "map (column_cell E) (sp_columns t) = map (column_cell E) (sp_columns s)"
proof -
  have g: "grid E t = grid E s" using assms by (simp add: acts_def)
  show "length (sp_columns t) = length (sp_columns s)"
    using grid_length [OF g] by simp
  show "sp_active_column_idx t = sp_active_column_idx s"
    "map (column_cell E) (sp_columns t) = map (column_cell E) (sp_columns s)"
    using arg_cong [OF g, of g_active] arg_cong [OF g, of g_cols] by simp_all
  show "sp_columns t = [] \<longleftrightarrow> sp_columns s = []" using grid_length [OF g] by auto
qed (use assms in \<open>simp_all add: acts_def\<close>)

lemma runs_acts_id:
  assumes "runs m (acts E s id)" and "\<And>t. acts E s id t \<Longrightarrow> runs (rest t) (acts E t g)"
  shows "runs (m \<bind> rest) (acts E s g)"
  using runs_acts_seq [OF assms] by simp

text \<open>The condition that an action targets a window the space has.\<close>

definition targets :: "('w, 'id) LayoutEnv \<Rightarrow> ('w, 'id) Space \<Rightarrow> 'id option \<Rightarrow> bool" where
  "targets E s w \<longleftrightarrow> (case w of None \<Rightarrow> True | Some i \<Rightarrow> space_has E i s)"

context layout_element
begin

lemma cancel_resize_column_cosmetic: "column_inv E c \<Longrightarrow> column_cosmetic E c (column_cancel_resize E c)"
  by (rule column_cosmeticI [OF column_cancel_resize_ok]) simp_all

lemma cancel_resize_at_acts:
  assumes inv: "space_inv E s" and i: "i < length (sp_columns s)"
  shows "runs (cancel_resize_at E i s) (acts E s id)"
proof -
  let ?c = "sp_columns s ! i"
  let ?t = "s\<lparr>sp_columns := (sp_columns s)[i := column_cancel_resize E ?c]\<rparr>"
  note parts = space_inv_parts [OF inv]
  have "space_cosmetic E s ?t"
    by (rule space_cosmetic_column [OF parts i cancel_resize_column_cosmetic [OF space_partsD(3) [OF parts i]]])
  then have t: "acts E s id ?t" by (rule acts_cosmetic [OF inv])
  then have "acts E s id (?t\<lparr>sp_interactive_resize := None\<rparr>)"
    by (simp add: acts_def)
  moreover define u where "u = (cancel_resize_of E ?c s)\<lparr>sp_columns := (sp_columns s)[i := column_cancel_resize E ?c]\<rparr>"
  moreover have "u = ?t \<or> u = ?t\<lparr>sp_interactive_resize := None\<rparr>"
    using cancel_resize_of_cases [of E ?c s] by (auto simp: u_def)
  ultimately show ?thesis using t i by (auto simp: cancel_resize_at_def vec_get_def)
qed

lemma resize_then_cancel_acts:
  assumes inv: "space_inv E s" and i: "i < length (sp_columns s)"
    and f: "runs (f (sp_columns s ! i)) (\<lambda>c'. column_op E (sp_columns s ! i) c' \<and>
      c_active_tile_idx c' = c_active_tile_idx (sp_columns s ! i))"
    and k: "\<And>t. acts E s id t \<Longrightarrow> k t = i"
  shows "runs (do { s \<leftarrow> with_column i f s; cancel_resize_at E (k s) s }) (acts E s id)"
proof -
  have "runs (f (sp_columns s ! i)) (column_cosmetic E (sp_columns s ! i))"
    by (rule runs_mono [OF f]) (auto intro: column_cosmeticI)
  from with_column_cosmetic [OF space_inv_parts [OF inv] i, where f = f, OF this]
  have "runs (with_column i f s) (acts E s id)"
    by (rule runs_mono) (rule acts_cosmetic [OF inv])
  then show ?thesis
    by (rule runs_acts_id) (use i k in \<open>auto intro!: cancel_resize_at_acts dest: acts_idD\<close>)
qed

lemma resize_active_acts:
  assumes inv: "space_inv E s"
    and f: "\<And>c. column_inv E c \<Longrightarrow> runs (f c) (\<lambda>c'. column_op E c c' \<and> c_active_tile_idx c' = c_active_tile_idx c)"
  shows "runs (resize_active E f s) (acts E s id)"
proof (cases "sp_columns s = []")
  case True
  with inv show ?thesis by (simp add: resize_active_def acts_refl)
next
  case False
  note a = space_core_active [OF space_inv_core [OF inv] False]
  show ?thesis
    unfolding resize_active_def using False
    by (simp only: if_False, intro resize_then_cancel_acts [OF inv a]
        f [OF space_partsD(3) [OF space_inv_parts [OF inv] a]] acts_idD(4))
qed

lemma resize_window_acts:
  assumes inv: "space_inv E s" and w: "targets E s w"
    and f: "\<And>c ti. column_inv E c \<Longrightarrow> (\<And>i. ti = Some i \<Longrightarrow> i < length (c_tiles c)) \<Longrightarrow>
       runs (f ti c) (\<lambda>c'. column_op E c c' \<and> c_active_tile_idx c' = c_active_tile_idx c)"
  shows "runs (resize_window E w f s) (acts E s id)"
proof (cases "sp_columns s = []")
  case True
  with inv show ?thesis by (simp add: resize_window_def acts_refl)
next
  case ne: False
  note a = space_core_active [OF space_inv_core [OF inv] ne]
  note P = space_partsD(3) [OF space_inv_parts [OF inv]]
  show ?thesis
  proof (cases w)
    case None
    have "runs (do { s \<leftarrow> with_column (sp_active_column_idx s) (f None) s;
        cancel_resize_at E (sp_active_column_idx s0) s }) (acts E s id)" if "s0 = s" for s0
      by (intro resize_then_cancel_acts [OF inv a] f [OF P [OF a]]) (use that in simp_all)
    with ne None show ?thesis by (simp add: resize_window_def)
  next
    case (Some i)
    have "option_ok (\<lambda>w. space_has E w s) (Some i)" using w Some by (simp add: targets_def)
    then obtain ci ti where src: "source_of E (Some i) s = Some (ci, ti)" by (rule source_of_has [OF inv ne])
    note b = source_of_bounds [OF inv ne src]
    have "runs (do { s \<leftarrow> with_column ci (f (Some ti)) s; cancel_resize_at E ci s }) (acts E s id)"
      by (intro resize_then_cancel_acts [OF inv b(1)] f [OF P [OF b(1)]]) (use b(2) in simp_all)
    with ne Some src show ?thesis by (simp add: resize_window_def)
  qed
qed

lemma resize_actions_act:
  assumes "space_inv E s" and "targets E s w"
  shows "runs (toggle_width E fw s) (acts E s id)"
    and "runs (toggle_full_width E s) (acts E s id)"
    and "runs (set_window_width E w ch s) (acts E s id)"
    and "runs (set_window_height E w ch s) (acts E s id)"
    and "runs (reset_window_height E w s) (acts E s id)"
    and "runs (toggle_window_width E w fw s) (acts E s id)"
    and "runs (toggle_window_height E w fw s) (acts E s id)"
  unfolding toggle_width_def toggle_full_width_def set_window_width_def set_window_height_def
    reset_window_height_def toggle_window_width_def toggle_window_height_def
  by ((rule resize_active_acts [OF assms(1)] resize_window_acts [OF assms];
       rule column_toggle_width_ok column_toggle_full_width_ok column_set_column_width_ok
         column_set_window_height_ok column_reset_window_height_ok column_toggle_window_height_ok; simp)+)

end

section \<open>Activating a window\<close>

definition g_activate_window :: "'id \<Rightarrow> 'id Grid \<Rightarrow> 'id Grid" where
  "g_activate_window w g = (case g_source (Some w) g of None \<Rightarrow> g | Some (ci, ti) \<Rightarrow> g_focus ci ti g)"

lemma activate_window_acts:
  assumes inv: "space_inv E s"
  shows "runs (activate_window E w s) (\<lambda>(b, s'). b = space_has E w s \<and> acts E s (g_activate_window w) s')"
proof (cases "space_column_of E w s")
  case None
  then have no: "\<not> space_has E w s" by (simp add: space_column_of_def vec_position_None space_has_def)
  from None have "g_source (Some w) (grid E s) = None" by (simp add: space_column_of_grid)
  with None no inv show ?thesis by (simp add: activate_window_def acts_def g_activate_window_def)
next
  case (Some ci)
  then have ci: "ci < length (sp_columns s)" "column_contains E w (sp_columns s ! ci)"
    using vec_position_SomeD [of "column_contains E w" "sp_columns s" ci] by (simp_all add: space_column_of_def)
  then have has: "space_has E w s" by (auto simp: space_has_def)
  have ne: "sp_columns s \<noteq> []" using ci by auto
  obtain ti where pos: "column_position E w (sp_columns s ! ci) = Some ti"
    using ci(2) by (cases "column_position E w (sp_columns s ! ci)")
      (auto simp: column_position_def vec_position_None column_contains_def)
  have src: "source_of E (Some w) s = Some (ci, ti)" using Some pos ci(1) by (simp add: source_of_def vec_get_def)
  note b = source_of_bounds [OF inv ne src]
  have "with_column ci (column_activate_window E w) s = with_column ci (\<lambda>c. map_option snd (column_activate_idx ti c)) s"
    using pos ci(1) by (simp add: with_column_def vec_modify_def vec_get_def column_activate_window_def)
  moreover have "g_activate_window w (grid E s) = g_focus ci ti (grid E s)"
    using src source_of_grid [OF inv ne, of "Some w"] by (simp add: g_activate_window_def)
  moreover note focus_both_ok(1) [OF inv b]
  ultimately show ?thesis using Some has
    by (simp add: activate_window_def acts_def)
qed

section \<open>The view\<close>

lemma space_column_of_has: "space_has E w s \<longleftrightarrow> (\<exists>ci. space_column_of E w s = Some ci)"
  using vec_position_None [of "column_contains E w" "sp_columns s"]
  by (auto simp: space_has_def space_column_of_def simp flip: not_None_eq)

lemma visible_columns_leftmost:
  "(vc_active_col_x v \<noteq> None \<Longrightarrow> vc_leftmost_col_x v \<noteq> None) \<Longrightarrow>
   vc_active_col_x (visible_columns vx wx ww gap a cs v) \<noteq> None \<Longrightarrow>
   vc_leftmost_col_x (visible_columns vx wx ww gap a cs v) \<noteq> None"
proof (induction cs arbitrary: v)
  case (Cons c cs)
  then show ?case by (cases c) (auto simp: Let_def split: option.splits if_splits)
qed simp

lemma space_visible_leftmost:
  assumes "vc_active_col_x (space_visible_columns x s) = Some ax"
  obtains lx where "vc_leftmost_col_x (space_visible_columns x s) = Some lx"
proof -
  have "vc_leftmost_col_x (space_visible_columns x s) \<noteq> None"
    unfolding space_visible_columns_def
    by (rule visible_columns_leftmost) (use assms in \<open>simp_all add: space_visible_columns_def\<close>)
  with that show ?thesis by blast
qed

lemma reshow_acts:
  assumes inv: "space_inv E s" and ne: "sp_columns s \<noteq> []" and i: "i = sp_active_column_idx s"
    and k: "\<And>t. acts E s id t \<Longrightarrow> k t = sp_active_column_idx t"
  shows "runs (do { s \<leftarrow> animate_view_offset E i p s; animate_view_offset_to_column E None (k s) None s })
     (acts E s id)"
proof -
  have view: "runs (animate_view_offset E i p s) (acts E s id)"
    unfolding animate_view_offset_def i
    by (rule runs_mono [OF animate_view_ok [OF space_inv_parts [OF inv] space_core_active_le [OF space_inv_core [OF inv]]
          space_core_active_le [OF space_inv_core [OF inv]] space_partsD(7) [OF space_inv_parts [OF inv]]]])
       (auto intro: acts_cosmetic [OF inv])
  have "runs (animate_view_offset_to_column E None (k t) None t) (acts E t id)" if t: "acts E s id t" for t
  proof -
    note T = acts_idD [OF t]
    have a: "k t < length (sp_columns t)"
      using space_core_active [OF space_inv_core [OF T(1)]] T(6) ne k [OF t] by simp
    show ?thesis
      unfolding animate_view_offset_to_column_def
      by (rule runs_mono [OF animate_view_to_column_ok(1) [OF space_inv_parts [OF T(1)]
            space_core_active_le [OF space_inv_core [OF T(1)]] a space_partsD(7) [OF space_inv_parts [OF T(1)]]]])
         (auto intro: acts_cosmetic [OF T(1)])
  qed
  with view show ?thesis by (rule runs_acts_id)
qed

context layout_element
begin

lemma center_column_acts:
  assumes inv: "space_inv E s"
  shows "runs (center_column E s) (acts E s id)"
proof (cases "sp_columns s = []")
  case True
  with inv show ?thesis by (simp add: center_column_def acts_refl)
next
  case False
  note a = space_core_active [OF space_inv_core [OF inv] False]
  have "runs (animate_view_offset_to_column_centered E None (sp_active_column_idx s) (view_movement_config s) s)
      (acts E s id)"
    by (rule runs_mono [OF animate_view_to_column_ok(2) [OF space_inv_parts [OF inv]
          space_core_active_le [OF space_inv_core [OF inv]] a space_partsD(7) [OF space_inv_parts [OF inv]]]])
       (auto intro: acts_cosmetic [OF inv])
  then show ?thesis
    unfolding center_column_def using False
    by (simp only: if_False) (rule runs_acts_id, use a in \<open>auto simp: acts_idD intro!: cancel_resize_at_acts acts_idD(1)\<close>)
qed

lemma center_window_acts:
  assumes inv: "space_inv E s" and w: "targets E s w"
  shows "runs (center_window E w s) (acts E s id)"
proof (cases "sp_columns s = []")
  case True
  with inv show ?thesis by (simp add: center_window_def acts_refl)
next
  case False
  have "\<exists>ci. (case w of Some w \<Rightarrow> space_column_of E w s | None \<Rightarrow> Some (sp_active_column_idx s)) = Some ci"
    using w space_column_of_has [of E _ s] by (cases w) (simp_all add: targets_def)
  then obtain ci where "(case w of Some w \<Rightarrow> space_column_of E w s | None \<Rightarrow> Some (sp_active_column_idx s)) = Some ci" ..
  with False center_column_acts [OF inv] inv show ?thesis by (simp add: center_window_def acts_refl)
qed

lemma align_visible_acts:
  assumes inv: "space_inv E s"
  shows "runs (center_visible_columns E s) (acts E s id)"
    and "runs (align_visible_columns_left E s) (acts E s id)"
proof -
  let ?goal = "\<lambda>f. runs (f E s) (acts E s id)"
  have "?goal center_visible_columns \<and> ?goal align_visible_columns_left"
  proof (cases "sp_columns s = [] \<or> is_centering_focused_column s")
    case True
    with inv show ?thesis
      by (auto simp: center_visible_columns_def align_visible_columns_left_def acts_refl)
  next
    case False
    then have ne: "sp_columns s \<noteq> []" by simp
    note a = space_core_active [OF space_inv_core [OF inv] ne]
    obtain x where x: "target_view_pos s = Some x"
      using target_view_pos_Some [OF space_inv_parts [OF inv]] a by simp
    let ?v = "space_visible_columns x s"
    show ?thesis
    proof (cases "vc_active_col_x ?v")
      case None
      with False x inv show ?thesis
        by (simp add: center_visible_columns_def align_visible_columns_left_def acts_refl Let_def split: option.split)
    next
      case (Some ax)
      then obtain lx where lx: "vc_leftmost_col_x ?v = Some lx" by (rule space_visible_leftmost)
      have rest: "runs (do { s \<leftarrow> animate_view_offset E (sp_active_column_idx t) p t;
          animate_view_offset_to_column E None (sp_active_column_idx s) None s }) (acts E t id)"
        if "acts E s id t" for t p
        using acts_idD [OF that] ne by (intro reshow_acts) simp_all
      have "runs (do { s \<leftarrow> cancel_resize_at E (sp_active_column_idx s) s;
          s \<leftarrow> animate_view_offset E (sp_active_column_idx s) (p s) s;
          animate_view_offset_to_column E None (sp_active_column_idx s) None s }) (acts E s id)" for p
        by (rule runs_acts_id [OF cancel_resize_at_acts [OF inv a] rest])
      with False x Some lx show ?thesis
        by (simp add: center_visible_columns_def align_visible_columns_left_def Let_def)
    qed
  qed
  then show "?goal center_visible_columns" "?goal align_visible_columns_left" by blast+
qed

end

section \<open>Interactive resizing\<close>

lemma with_column_cosmetic_acts:
  assumes inv: "space_inv E s" and i: "i < length (sp_columns s)"
    and f: "runs (f (sp_columns s ! i)) (\<lambda>c'. column_op E (sp_columns s ! i) c' \<and>
      c_active_tile_idx c' = c_active_tile_idx (sp_columns s ! i))"
  shows "runs (with_column i f s) (acts E s id)"
proof -
  have "runs (f (sp_columns s ! i)) (column_cosmetic E (sp_columns s ! i))"
    by (rule runs_mono [OF f]) (auto intro: column_cosmeticI)
  from with_column_cosmetic [OF space_inv_parts [OF inv] i, where f = f, OF this] show ?thesis
    by (rule runs_mono) (rule acts_cosmetic [OF inv])
qed

lemma acts_id_tiles:
  assumes "acts E s id t" and "i < length (sp_columns s)"
  shows "length (c_tiles (sp_columns t ! i)) = length (c_tiles (sp_columns s ! i))"
  using acts_cell [OF assms(1)] assms acts_idD(5) [OF assms(1)]
  by (metis column_tiles_cell grid_simps(1) id_apply nth_map)

lemma interactive_resize_begin_acts:
  assumes inv: "space_inv E s" and w: "space_has E w s"
  shows "runs (interactive_resize_begin E w edges s) (\<lambda>(b, s'). acts E s id s' \<and>
     (b \<longrightarrow> sp_interactive_resize s = None \<and> (\<exists>r. sp_interactive_resize s' = Some r \<and> ir_window r = w)))"
proof (cases "sp_interactive_resize s = None")
  case False
  with inv show ?thesis by (simp add: interactive_resize_begin_def acts_refl)
next
  case True
  have ne: "sp_columns s \<noteq> []" using w by (auto simp: space_has_def)
  have "option_ok (\<lambda>w. space_has E w s) (Some w)" using w by simp
  then obtain ci ti where src: "source_of E (Some w) s = Some (ci, ti)" by (rule source_of_has [OF inv ne])
  note b = source_of_bounds [OF inv ne src]
  have "acts E s id (s\<lparr>sp_interactive_resize := Some r, sp_view_offset := VStatic x\<rparr>)" if "ir_window r = w" for r x
  proof -
    have "space_inv E (s\<lparr>sp_view_offset := VStatic x\<rparr>)"
      by (rule space_cosmetic_inv [OF space_cosmetic_view [OF space_inv_parts [OF inv]] inv]) simp
    then have "space_inv E ((s\<lparr>sp_view_offset := VStatic x\<rparr>)\<lparr>sp_interactive_resize := Some r\<rparr>)"
      using w that by (simp add: space_inv_def resize_present_def space_has_def)
    moreover have "(s\<lparr>sp_view_offset := VStatic x\<rparr>)\<lparr>sp_interactive_resize := Some r\<rparr> =
        (s\<lparr>sp_interactive_resize := Some r, sp_view_offset := VStatic x\<rparr>)" by simp
    ultimately have "space_inv E (s\<lparr>sp_interactive_resize := Some r, sp_view_offset := VStatic x\<rparr>)" by (simp only:)
    then show ?thesis by (simp add: acts_def)
  qed
  with True src b inv show ?thesis
    by (simp add: interactive_resize_begin_def vec_get_def vo_stop_anim_and_gesture_def acts_refl)
qed

lemma resize_present_has: "space_inv E s \<Longrightarrow> sp_interactive_resize s = Some r \<Longrightarrow> space_has E (ir_window r) s"
  by (simp add: space_inv_def resize_present_def space_has_def)

lemma interactive_resize_end_acts:
  assumes inv: "space_inv E s"
  shows "runs (interactive_resize_end E w s) (\<lambda>s'. acts E s id s' \<and>
     (sp_interactive_resize s' = None \<or> s' = s))"
proof (cases "sp_interactive_resize s")
  case None
  with inv show ?thesis by (simp add: interactive_resize_end_def acts_refl)
next
  case (Some r)
  have drop: "acts E s id (s'\<lparr>sp_interactive_resize := None\<rparr>)" if "acts E s id s'" for s'
    using that by (simp add: acts_def)
  show ?thesis
  proof (cases w)
    case None
    with Some drop [OF acts_refl [OF inv]] show ?thesis by (simp add: interactive_resize_end_def)
  next
    case (Some i)
    have ne: "sp_columns s \<noteq> []"
      using resize_present_has [OF inv \<open>sp_interactive_resize s = Some r\<close>] by (auto simp: space_has_def)
    note a = space_core_active [OF space_inv_core [OF inv] ne]
    have "runs (animate_view_offset_to_column E None (sp_active_column_idx s) None s) (acts E s id)"
      unfolding animate_view_offset_to_column_def
      by (rule runs_mono [OF animate_view_to_column_ok(1) [OF space_inv_parts [OF inv]
            space_core_active_le [OF space_inv_core [OF inv]] a space_partsD(7) [OF space_inv_parts [OF inv]]]])
         (auto intro: acts_cosmetic [OF inv])
    then have "runs (animate_view_offset_to_column E None (sp_active_column_idx s) None s)
        (\<lambda>s'. acts E s id (s'\<lparr>sp_interactive_resize := None\<rparr>))"
      by (rule runs_mono) (rule drop)
    with Some \<open>sp_interactive_resize s = Some r\<close> a drop [OF acts_refl [OF inv]] acts_refl [OF inv] show ?thesis
      by (auto simp: interactive_resize_end_def vec_get_def)
  qed
qed

context layout_element
begin

lemma interactive_resize_update_acts:
  assumes inv: "space_inv E s"
  shows "runs (interactive_resize_update E w delta s) (\<lambda>(b, s'). acts E s id s')"
proof (cases "\<exists>r. sp_interactive_resize s = Some r \<and> ir_window r = w")
  case False
  then show ?thesis using inv by (auto simp: interactive_resize_update_def acts_refl split: option.split)
next
  case True
  then obtain r where r: "sp_interactive_resize s = Some r" "ir_window r = w" by blast
  have has: "space_has E w s" using resize_present_has [OF inv r(1)] r(2) by simp
  have ne: "sp_columns s \<noteq> []" using has by (auto simp: space_has_def)
  have "option_ok (\<lambda>w. space_has E w s) (Some w)" using has by simp
  then obtain ci ti where src: "source_of E (Some w) s = Some (ci, ti)" by (rule source_of_has [OF inv ne])
  note b = source_of_bounds [OF inv ne src]
  have width: "runs (if c then with_column ci (column_set_column_width E ch (Some ti) False) s else Some s)
      (acts E s id)" for c ch
    using column_set_column_width_ok [OF space_partsD(3) [OF space_inv_parts [OF inv] b(1)], of "Some ti" ch False] b
    by (auto intro!: with_column_cosmetic_acts [OF inv b(1)] acts_refl [OF inv])
  have height: "runs (if c then with_column ci (column_set_window_height E ch (Some ti) False) t else Some t)
      (acts E t id)" if t: "acts E s id t" for c ch t
  proof -
    note T = acts_idD [OF t]
    have ci: "ci < length (sp_columns t)" using b(1) T(5) by simp
    have ti: "ti < length (c_tiles (sp_columns t ! ci))" using b acts_id_tiles [OF t] by simp
    show ?thesis
      using column_set_window_height_ok [OF space_partsD(3) [OF space_inv_parts [OF T(1)] ci], of "Some ti" ch False] ti
      by (auto intro!: with_column_cosmetic_acts [OF T(1) ci] acts_refl [OF T(1)])
  qed
  define w1 where "w1 = (if edge_left (ird_edges (ir_data r)) \<or> edge_right (ird_edges (ir_data r))
      then do {
        let dx = (if edge_left (ird_edges (ir_data r)) then - px delta else px delta);
        let dx = (if is_centering_focused_column s then dx * 2 else dx);
        let window_width = le_i32_round E (sw (ir_original_window_size r) + dx);
        with_column ci (column_set_column_width E (SetFixed window_width) (Some ti) False) s }
      else Some s)"
  have w1: "runs w1 (acts E s id)" unfolding w1_def Let_def by (rule width)
  have height': "runs (if c then with_column ci (column_set_window_height E ch (Some ti) False) t else Some t)
      (acts E s id)" if t: "acts E s id t" for c ch t
    by (rule runs_mono [OF height [OF t]]) (use acts_trans [OF t, of id] in \<open>simp add: id_def\<close>)
  have "runs (do { s \<leftarrow> w1; s \<leftarrow> (if c s then with_column ci (column_set_window_height E (ch s) (Some ti) False) s else Some s);
      Some (True, s) }) (\<lambda>(b, s'). acts E s id s')" for c ch
    by (rule runs_seq [OF w1], rule runs_seq [OF height'], assumption) simp
  from this [of "\<lambda>_. (edge_top (ird_edges (ir_data r)) \<or> edge_bottom (ird_edges (ir_data r))) \<and>
      \<not> (edge_top (ird_edges (ir_data r)) \<and> ti = 0)"
    "\<lambda>_. SetFixed (le_i32_round E (sh (ir_original_window_size r) +
       (if edge_top (ird_edges (ir_data r)) then - py delta else py delta)))"]
  have "runs (do { s \<leftarrow> w1;
      s \<leftarrow> (if (edge_top (ird_edges (ir_data r)) \<or> edge_bottom (ird_edges (ir_data r))) \<and>
              \<not> (edge_top (ird_edges (ir_data r)) \<and> ti = 0)
            then with_column ci (column_set_window_height E (SetFixed (le_i32_round E (sh (ir_original_window_size r) +
                 (if edge_top (ird_edges (ir_data r)) then - py delta else py delta)))) (Some ti) False) s
            else Some s);
      Some (True, s) }) (\<lambda>(b, s'). acts E s id s')" .
  moreover have "interactive_resize_update E w delta s = do { s \<leftarrow> w1;
      s \<leftarrow> (if (edge_top (ird_edges (ir_data r)) \<or> edge_bottom (ird_edges (ir_data r))) \<and>
              \<not> (edge_top (ird_edges (ir_data r)) \<and> ti = 0)
            then with_column ci (column_set_window_height E (SetFixed (le_i32_round E (sh (ir_original_window_size r) +
                 (if edge_top (ird_edges (ir_data r)) then - py delta else py delta)))) (Some ti) False) s
            else Some s);
      Some (True, s) }"
    unfolding interactive_resize_update_def w1_def r(1) option.case src Option.bind.bind_lunit prod.case Let_def
    by (simp only: r(2) simp_thms if_False)
  ultimately show ?thesis by (simp only:)
qed

end

section \<open>Filling the free space\<close>

context layout_element
begin

lemma column_set_fixed_width_ok:
  assumes inv: "column_inv E c"
  shows "runs (update_tile_sizes E an (c\<lparr>c_width := w, c_preset_width_idx := None, c_is_full_width := False\<rparr>))
     (\<lambda>c'. column_op E c c' \<and> c_active_tile_idx c' = c_active_tile_idx c)"
proof -
  let ?c = "c\<lparr>c_width := w, c_preset_width_idx := None, c_is_full_width := False\<rparr>"
  have "column_pre E ?c"
    using column_inv_pre [OF inv]
    by (auto simp: column_pre_defs column_pending_sizing_mode_def is_tabbed_def tile_in_def [abs_def]
        height_ok_def split: if_splits)
  then show ?thesis
    by (intro runs_mono [OF then_update_sizes [of ?c c]]) (simp_all add: column_env_defs)
qed

lemma expand_column_acts:
  assumes inv: "space_inv E s"
  shows "runs (expand_column_to_available_width E s) (acts E s id)"
proof (cases "sp_columns s = []")
  case True
  with inv show ?thesis by (simp add: expand_column_to_available_width_def acts_refl)
next
  case ne: False
  let ?i = "sp_active_column_idx s" and ?c = "sp_columns s ! sp_active_column_idx s"
  note a = space_core_active [OF space_inv_core [OF inv] ne]
  have full: "runs (with_column i (column_toggle_full_width E) t) (acts E t id)"
    if "space_inv E t" "i < length (sp_columns t)" for t i
    by (rule with_column_cosmetic_acts [OF that])
       (rule column_toggle_full_width_ok [OF space_partsD(3) [OF space_inv_parts [OF that(1)] that(2)]])
  obtain x where x: "target_view_pos s = Some x"
    using target_view_pos_Some [OF space_inv_parts [OF inv]] a by simp
  let ?v = "space_visible_columns x s"
  have get: "vec_get (sp_columns s) ?i = Some ?c" using a by (simp add: vec_get_def)
  consider "\<not> is_normal (column_pending_sizing_mode ?c) \<or> c_is_full_width ?c"
    | "is_normal (column_pending_sizing_mode ?c)" "\<not> c_is_full_width ?c" "is_centering_focused_column s"
    | "is_normal (column_pending_sizing_mode ?c)" "\<not> c_is_full_width ?c" "\<not> is_centering_focused_column s"
    by blast
  then show ?thesis
  proof cases
    case 1
    with ne get inv show ?thesis by (simp add: expand_column_to_available_width_def acts_refl)
  next
    case 2
    have "runs (do { s \<leftarrow> with_column ?i (column_toggle_full_width E) s; cancel_resize_at E ?i s }) (acts E s id)"
      by (rule resize_then_cancel_acts [OF inv a])
         (rule column_toggle_full_width_ok [OF space_partsD(3) [OF space_inv_parts [OF inv] a]], rule refl)
    with 2 ne get show ?thesis by (simp add: expand_column_to_available_width_def Let_def)
  next
    case 3
    show ?thesis
    proof (cases "vc_active_col_x ?v")
      case None
      with 3 ne get x inv show ?thesis by (simp add: expand_column_to_available_width_def Let_def acts_refl)
    next
      case (Some ax)
      then obtain lx where lx: "vc_leftmost_col_x ?v = Some lx" by (rule space_visible_leftmost)
      have grow: "runs (do { d \<leftarrow> vec_get (sp_data t) ?i;
           s \<leftarrow> with_column ?i (\<lambda>c. update_tile_sizes E True
                          (c\<lparr>c_width := Fixed (cd_width d + aw), c_preset_width_idx := None,
                             c_is_full_width := False\<rparr>)) t;
           s \<leftarrow> animate_view_offset E ?i (p s) s;
           animate_view_offset_to_column E None ?i None s }) (acts E t id)" if t: "acts E s id t" for t aw p
      proof -
        note T = acts_idD [OF t]
        have i: "?i < length (sp_columns t)" using a T(5) by simp
        have d: "vec_get (sp_data t) ?i = Some (sp_data t ! ?i)"
          using i space_partsD(2) [OF space_inv_parts [OF T(1)]] by (simp add: vec_get_def)
        have "runs (with_column ?i (\<lambda>c. update_tile_sizes E True
                          (c\<lparr>c_width := w, c_preset_width_idx := None, c_is_full_width := False\<rparr>)) t) (acts E t id)" for w
          by (rule with_column_cosmetic_acts [OF T(1) i])
             (rule column_set_fixed_width_ok [OF space_partsD(3) [OF space_inv_parts [OF T(1)] i]])
        moreover have "runs (do { s \<leftarrow> animate_view_offset E ?i (p u) u;
            animate_view_offset_to_column E None ?i None s }) (acts E u id)" if u: "acts E t id u" for u
          using acts_idD [OF u] T ne by (intro reshow_acts) (simp_all add: acts_idD)
        ultimately show ?thesis unfolding d Option.bind.bind_lunit by (rule runs_acts_id)
      qed
      have "runs (do { s \<leftarrow> cancel_resize_at E ?i s;
          if \<not> vc_counted_non_active ?v then with_column ?i (column_toggle_full_width E) s
          else do { d \<leftarrow> vec_get (sp_data s) ?i;
           s \<leftarrow> with_column ?i (\<lambda>c. update_tile_sizes E True
                          (c\<lparr>c_width := Fixed (cd_width d + aw), c_preset_width_idx := None,
                             c_is_full_width := False\<rparr>)) s;
           s \<leftarrow> animate_view_offset E ?i (p s) s;
           animate_view_offset_to_column E None ?i None s } }) (acts E s id)" for aw p
      proof (rule runs_acts_id [OF cancel_resize_at_acts [OF inv a]])
        fix t assume t: "acts E s id t"
        have i: "?i < length (sp_columns t)" using a acts_idD(5) [OF t] by simp
        show "runs (if \<not> vc_counted_non_active ?v then with_column ?i (column_toggle_full_width E) t
          else do { d \<leftarrow> vec_get (sp_data t) ?i;
           s \<leftarrow> with_column ?i (\<lambda>c. update_tile_sizes E True
                          (c\<lparr>c_width := Fixed (cd_width d + aw), c_preset_width_idx := None,
                             c_is_full_width := False\<rparr>)) t;
           s \<leftarrow> animate_view_offset E ?i (p s) s;
           animate_view_offset_to_column E None ?i None s }) (acts E t id)"
          by (cases "vc_counted_non_active ?v"; simp only: simp_thms if_True if_False)
             (rule grow [OF t], rule full [OF acts_idD(1) [OF t] i])
      qed
      note go = this
      show ?thesis
        unfolding expand_column_to_available_width_def Let_def get x Some lx Option.bind.bind_lunit option.case
        by (cases "sw (r_size (sp_working_area s)) - space_gaps s - vc_width_taken ?v - sw (column_extra_size ?c) \<le> 0";
            simp only: ne 3 simp_thms if_True if_False runs_Some acts_refl [OF inv]; rule go)
    qed
  qed
qed

end

section \<open>Animations\<close>

lemma column_start_open_active:
  "column_start_open_animation E i c = Some (b, c') \<Longrightarrow> c_active_tile_idx c' = c_active_tile_idx c"
  by (auto simp: column_start_open_animation_def Let_def bind_eq_Some_conv split: option.splits)

lemma column_start_open_cosmetic:
  assumes "column_inv E c"
  shows "runs (column_start_open_animation E i c) (\<lambda>(b, c'). column_cosmetic E c c')"
  by (rule runs_mono [OF column_start_open_ok [OF assms]])
     (auto intro: column_cosmeticI dest: column_start_open_active)

lemma first_open_ok:
  assumes "\<And>c. c \<in> set cs \<Longrightarrow> column_inv E c"
  shows "runs (first_open E i cs) (\<lambda>(b, cs'). list_all2 (column_cosmetic E) cs cs')"
  using assms
proof (induction cs)
  case (Cons c cs)
  have refl: "list_all2 (column_cosmetic E) cs cs"
    using Cons.prems by (intro list.rel_refl_strong) (auto intro: column_cosmetic_refl)
  have "runs (column_start_open_animation E i c) (\<lambda>(b, c'). column_cosmetic E c c')"
    using Cons.prems by (intro column_start_open_cosmetic) simp
  then obtain b c' where c: "column_start_open_animation E i c = Some (b, c')" "column_cosmetic E c c'"
    by (auto elim!: runsE)
  obtain b' cs' where cs: "first_open E i cs = Some (b', cs')" "list_all2 (column_cosmetic E) cs cs'"
    using Cons by (auto elim!: runsE)
  show ?case using c cs refl by simp
qed simp

lemma space_cosmetic_columns:
  assumes "space_parts E s" and "list_all2 (column_cosmetic E) (sp_columns s) cs"
  shows "space_cosmetic E s (s\<lparr>sp_columns := cs\<rparr>)"
  using assms by (simp add: space_cosmetic_def space_parts_def)

lemma space_start_open_acts:
  assumes inv: "space_inv E s"
  shows "runs (space_start_open_animation E i s) (\<lambda>(b, s'). acts E s id s')"
proof -
  have "\<And>c. c \<in> set (sp_columns s) \<Longrightarrow> column_inv E c"
    using space_partsD(3) [OF space_inv_parts [OF inv]] by (auto simp: in_set_conv_nth)
  then have "runs (first_open E i (sp_columns s)) (\<lambda>(b, cs'). list_all2 (column_cosmetic E) (sp_columns s) cs')"
    by (rule first_open_ok)
  then obtain b cs where "first_open E i (sp_columns s) = Some (b, cs)"
    "list_all2 (column_cosmetic E) (sp_columns s) cs"
    by (auto elim!: runsE)
  with acts_cosmetic [OF inv space_cosmetic_columns [OF space_inv_parts [OF inv]]] show ?thesis
    by (simp add: space_start_open_animation_def)
qed

lemma vo_ok_advance: "vo_ok vo \<Longrightarrow> vo_ok (vo_advance E vo)"
  by (cases vo) (simp_all add: gesture_advance_def Let_def split: option.split)

lemma column_advance_active [simp]: "c_active_tile_idx (column_advance_animations E c) = c_active_tile_idx c"
  by (simp add: column_advance_animations_def Let_def)

lemma space_advance_acts:
  assumes inv: "space_inv E s"
  shows "acts E s id (space_advance_animations E s)"
proof -
  note parts = space_inv_parts [OF inv]
  have "list_all2 (column_cosmetic E) (sp_columns s) (map (column_advance_animations E) (sp_columns s))"
    using space_partsD(3) [OF parts]
    by (auto simp: list_all2_conv_all_nth intro!: column_cosmeticI column_advance_ok)
  moreover have "vo_ok (vo_advance E (sp_view_offset s))"
    using parts by (simp add: space_parts_def vo_ok_advance)
  ultimately have "space_cosmetic E s (space_advance_animations E s)"
    by (simp add: space_cosmetic_def space_advance_animations_def)
  then show ?thesis by (rule acts_cosmetic [OF inv])
qed

section \<open>Moving columns\<close>

definition g_move_col :: "nat \<Rightarrow> 'id Grid \<Rightarrow> 'id Grid" where
  "g_move_col n g =
     (if g_active g = n then g
      else g\<lparr>g_cols := list_insert n (g_cols g ! g_active g) (list_remove (g_active g) (g_cols g)),
             g_active := n, g_prev := False\<rparr>)"

lemma list_remove_set: "i < length xs \<Longrightarrow> insert (xs ! i) (set (list_remove i xs)) = set xs"
  by (metis append_take_drop_id Cons_nth_drop_Suc list.simps(15) set_append Un_insert_right)

lemma list_move_map: "map f (list_insert n x (list_remove i xs)) = list_insert n (f x) (list_remove i (map f xs))"
  by (simp add: take_map drop_map)

lemma space_cosmetic_fits:
  assumes "space_parts E s" and "i < length (sp_columns s)" and "column_cosmetic E (sp_columns s ! i) c"
  shows "column_fits E s c" and "column_px_width c = Some (cd_width (sp_data s ! i))"
  using assms space_partsD(4,5) [OF assms(1,2)]
  by (auto simp: column_cosmetic_def column_env_def intro: column_fits_fixed)

context layout_element
begin

text \<open>The active column is taken out and put back at another place.\<close>

lemma space_moved:
  assumes inv: "space_inv E s" and a: "sp_active_column_idx s < length (sp_columns s)"
    and n: "n < length (sp_columns s)" and c: "c = sp_columns s ! sp_active_column_idx s"
    and cs: "cs = list_insert n (column_cancel_resize E c) (list_remove (sp_active_column_idx s) (sp_columns s))"
    and ds: "ds = list_insert n (sp_data s ! sp_active_column_idx s) (list_remove (sp_active_column_idx s) (sp_data s))"
    and t: "t = (cancel_resize_of E c s)\<lparr>sp_columns := cs, sp_data := ds\<rparr>"
  shows "space_parts E t" and "resize_present E t" and "space_env s t" and "length (sp_columns t) = length (sp_columns s)"
    and "sp_active_column_idx t = sp_active_column_idx s"
    and "map (column_cell E) (sp_columns t) = list_insert n (column_cell E c)
      (list_remove (sp_active_column_idx s) (map (column_cell E) (sp_columns s)))"
proof -
  let ?a = "sp_active_column_idx s"
  note parts = space_inv_parts [OF inv]
  have u: "cancel_resize_of E c s = s \<or> cancel_resize_of E c s = s\<lparr>sp_interactive_resize := None\<rparr>"
    by (rule cancel_resize_of_cases)
  have cos: "column_cosmetic E c (column_cancel_resize E c)"
    using space_partsD(3) [OF parts a] c by (intro cancel_resize_column_cosmetic) simp
  have len: "length cs = length (sp_columns s)" using a n by (simp add: cs)
  let ?r = "s\<lparr>sp_columns := list_remove ?a (sp_columns s), sp_data := list_remove ?a (sp_data s)\<rparr>"
  have "space_parts E (?r\<lparr>sp_data := ds, sp_columns := cs, sp_active_column_idx := ?a\<rparr>)"
    using space_parts_insert [OF space_parts_remove [OF parts, of ?a], where c = "column_cancel_resize E c"
        and d = "sp_data s ! ?a" and i = n and a = ?a]
      space_cosmetic_fits [OF parts a cos [unfolded c]] n a
    by (simp add: cs ds c)
  then have p: "space_parts E (s\<lparr>sp_data := ds, sp_columns := cs\<rparr>)" by simp
  have "t = s\<lparr>sp_data := ds, sp_columns := cs\<rparr> \<or>
      t = (s\<lparr>sp_data := ds, sp_columns := cs\<rparr>)\<lparr>sp_interactive_resize := None\<rparr>"
    using u t by auto
  with p show "space_parts E t" by (elim disjE) (simp_all only: space_parts_fields)
  show "space_env s t" using u t by auto
  show "length (sp_columns t) = length (sp_columns s)" using len t by simp
  show "sp_active_column_idx t = ?a" using u t by auto
  show cells: "map (column_cell E) (sp_columns t) = list_insert n (column_cell E c)
      (list_remove (sp_active_column_idx s) (map (column_cell E) (sp_columns s)))"
  proof -
    have "sp_columns t = cs" using t by simp
    then show ?thesis using cos by (simp only: cs list_move_map column_cosmetic_def)
  qed
  have set: "set (map (column_cell E) (sp_columns t)) = set (map (column_cell E) (sp_columns s))"
    unfolding cells set_list_insert using list_remove_set [of ?a "map (column_cell E) (sp_columns s)"] a c by simp
  have "resize_present E s" using inv by (simp add: space_inv_def)
  then have "case sp_interactive_resize s of None \<Rightarrow> True
     | Some r \<Rightarrow> ir_window r \<in> set (concat (map fst (map (column_cell E) (sp_columns t))))"
    unfolding resize_present_cells set_concat set_map [of fst] set by simp
  then show "resize_present E t" unfolding resize_present_cells using u t by (auto split: option.splits)
qed

lemma move_column_to_acts:
  assumes inv: "space_inv E s" and ne: "sp_columns s \<noteq> []" and n: "n < length (sp_columns s)"
  shows "runs (move_column_to E n s) (acts E s (g_move_col n))"
proof (cases "sp_active_column_idx s = n")
  case True
  with inv show ?thesis by (simp add: move_column_to_def g_move_col_def acts_def)
next
  case False
  let ?a = "sp_active_column_idx s"
  note parts = space_inv_parts [OF inv]
  note a = space_core_active [OF space_inv_core [OF inv] ne]
  define c where "c = sp_columns s ! ?a"
  define cs where "cs = list_insert n (column_cancel_resize E c) (list_remove ?a (sp_columns s))"
  define ds where "ds = list_insert n (sp_data s ! ?a) (list_remove ?a (sp_data s))"
  define t where "t = (cancel_resize_of E c s)\<lparr>sp_columns := cs, sp_data := ds\<rparr>"
  note T = space_moved [OF inv a n c_def cs_def ds_def t_def]
  have x: "column_x i s = Some (column_xs s ! i)" if "i \<le> length (sp_columns s)" for i
    by (rule column_x_Some [OF parts that])
  have xt: "column_x i t = Some (column_xs t ! i)" if "i \<le> length (sp_columns s)" for i
    using column_x_Some [OF T(1)] that T(4) by simp
  define u where "u = t\<lparr>sp_view_offset := vo_offset (- column_xs t ! ?a + column_xs s ! ?a) (sp_view_offset t)\<rparr>"
  have u: "space_cosmetic E t u"
    unfolding u_def using T(1) by (intro space_cosmetic_view) (simp_all add: space_parts_def)
  note uparts = space_cosmetic_parts [OF u T(1)]
  have ulen: "length (sp_columns u) = length (sp_columns s)" using T(4) space_cosmeticD(1) [OF u] by simp
  have xu: "column_x i u = Some (column_xs u ! i)" if "i \<le> length (sp_columns s)" for i
    using column_x_Some [OF uparts] that ulen by simp
  have "runs (with_column n (column_animate_move_from E d) u) (space_cosmetic E u)" for d
    using n ulen space_partsD(3) [OF uparts, of n]
    by (intro with_column_cosmetic [OF uparts] column_animate_move_from_cosmetic) simp_all
  then obtain v where v: "with_column n (column_animate_move_from E (column_xs s ! ?a - column_xs u ! n)) u = Some v"
    "space_cosmetic E u v"
    by (rule runsE)
  note vparts = space_cosmetic_parts [OF v(2) uparts]
  have vlen: "length (sp_columns v) = length (sp_columns s)" using ulen space_cosmeticD(1) [OF v(2)] by simp
  have va: "sp_active_column_idx v = ?a" using T(5) space_cosmeticD(7) [OF u] space_cosmeticD(7) [OF v(2)] by simp
  have slice: "runs (map_slice lo hi (column_animate_move_from E d) (sp_columns v))
      (\<lambda>cs. space_cosmetic E v (v\<lparr>sp_columns := cs\<rparr>))" if "lo \<le> hi" "hi \<le> length (sp_columns s)" for lo hi d
    by (rule map_slice_cosmetic [OF vparts that(1)])
       (use that vlen in \<open>simp_all add: column_fits_def column_animate_move_from_cosmetic\<close>)
  let ?m = "if ?a < n then map_slice ?a n (column_animate_move_from E (column_xs s ! (?a + 1) - column_xs s ! ?a)) (sp_columns v)
      else map_slice (n + 1) (?a + 1) (column_animate_move_from E (- (column_xs s ! (?a + 1) - column_xs s ! ?a))) (sp_columns v)"
  have "runs ?m (\<lambda>cs. space_cosmetic E v (v\<lparr>sp_columns := cs\<rparr>))"
    using slice [of ?a n] slice [of "n + 1" "?a + 1"] n a by auto
  then obtain ws where ws: "?m = Some ws" "space_cosmetic E v (v\<lparr>sp_columns := ws\<rparr>)" by (rule runsE)
  let ?w = "v\<lparr>sp_columns := ws\<rparr>"
  have w: "space_cosmetic E t ?w" by (rule space_cosmetic_trans [OF space_cosmetic_trans [OF u v(2)] ws(2)])
  note W = space_cosmeticD [OF w]
  have act: "runs (activate_column_with_anim_config E n (space_movement_config v) ?w) (acts E s (g_move_col n))"
  proof (rule runs_mono [OF activate_column_config_ok])
    show wparts: "space_parts E ?w" by (rule space_cosmetic_parts [OF w T(1)])
    show "sp_active_column_idx ?w \<le> length (sp_columns ?w)" "n < length (sp_columns ?w)"
      using va a n vlen space_cosmeticD(1) [OF ws(2)] by simp_all
    show "anim_config_ok (space_movement_config v)" by (rule space_partsD(8) [OF vparts])
    fix s' assume s': "space_activated n ?w s'"
    have "space_inv E s'"
      by (rule space_activated_inv' [OF s' wparts \<open>n < length (sp_columns ?w)\<close>
            space_cosmetic_resize [OF w T(2)]]) (use va False in simp)
    moreover have "space_env s s'" using T(3) W(2) space_activatedD(1) [OF s'] by (metis space_env_trans)
    moreover have "grid E s' = g_move_col n (grid E s)"
      using space_activatedD(5) [OF s', of E] W(5,7) T(5,6) False a
      by (simp add: g_activate_def g_move_col_def c_def grid_def)
    ultimately show "acts E s (g_move_col n) s'" by (simp add: acts_def)
  qed
  have rem: "vec_remove ?a (sp_columns s) = Some (c, list_remove ?a (sp_columns s))"
    "vec_remove ?a (sp_data s) = Some (sp_data s ! ?a, list_remove ?a (sp_data s))"
    using a space_partsD(2) [OF parts] by (simp_all add: vec_remove_def c_def)
  have ins: "vec_insert n (column_cancel_resize E c) (list_remove ?a (sp_columns s)) = Some cs"
    "vec_insert n (sp_data s ! ?a) (list_remove ?a (sp_data s)) = Some ds"
    using a n space_partsD(2) [OF parts] by (simp_all add: vec_insert_def cs_def ds_def)
  have ua: "sp_active_column_idx u = ?a" using T(5) space_cosmeticD(7) [OF u] by simp
  have xs: "column_x ?a s = Some (column_xs s ! ?a)" "column_x (?a + 1) s = Some (column_xs s ! (?a + 1))"
    "column_x ?a t = Some (column_xs t ! ?a)" "column_x n u = Some (column_xs u ! n)"
    using a n by (simp_all add: x xt xu)
  show ?thesis
    unfolding move_column_to_def Let_def
    using False act
    by (simp only: if_False xs rem ins prod.case Option.bind.bind_lunit t_def [symmetric] T(5) u_def [symmetric] v(1) va ws(1))
qed

end

lemma move_columns_act:
  assumes el: "layout_element E" and inv: "space_inv E s"
  shows "runs (move_column_to_index E k s) (acts E s (\<lambda>g. if g_cols g = [] then g
           else g_move_col (min (k - 1) (length (g_cols g) - 1)) g))"
    and "runs (move_left E s) (\<lambda>(b, s'). b = (sp_active_column_idx s \<noteq> 0) \<and>
           acts E s (\<lambda>g. if g_active g = 0 then g else g_move_col (g_active g - 1) g) s')"
    and "runs (move_right E s) (\<lambda>(b, s'). b = (sp_active_column_idx s + 1 < length (sp_columns s)) \<and>
           acts E s (\<lambda>g. if g_active g + 1 \<ge> length (g_cols g) then g else g_move_col (g_active g + 1) g) s')"
    and "runs (move_column_to_first E s) (acts E s (\<lambda>g. if g_cols g = [] then g else g_move_col 0 g))"
    and "runs (move_column_to_last E s) (acts E s (\<lambda>g. if g_cols g = [] then g
           else g_move_col (length (g_cols g) - 1) g))"
proof -
  note core = space_inv_core [OF inv]
  have move: "runs (move_column_to E n s) (acts E s h)"
    if "n < length (sp_columns s)" "h (grid E s) = g_move_col n (grid E s)" for n h
    by (rule runs_mono [OF layout_element.move_column_to_acts [OF el inv _ that(1)]])
       (use that in \<open>auto simp: acts_def\<close>)
  have stay: "acts E s h s" if "h (grid E s) = grid E s" for h using inv that by (simp add: acts_def)
  have last: "sp_columns s \<noteq> [] \<Longrightarrow> min k (length (sp_columns s) - Suc 0) < length (sp_columns s)" for k
    by (cases "sp_columns s") auto
  show "runs (move_column_to_index E k s) (acts E s (\<lambda>g. if g_cols g = [] then g
           else g_move_col (min (k - 1) (length (g_cols g) - 1)) g))"
    by (auto simp: move_column_to_index_def intro!: stay move last)
  show "runs (move_left E s) (\<lambda>(b, s'). b = (sp_active_column_idx s \<noteq> 0) \<and>
           acts E s (\<lambda>g. if g_active g = 0 then g else g_move_col (g_active g - 1) g) s')"
    using core by (auto simp: move_left_def space_core_def split: if_splits intro!: stay move)
  show "runs (move_right E s) (\<lambda>(b, s'). b = (sp_active_column_idx s + 1 < length (sp_columns s)) \<and>
           acts E s (\<lambda>g. if g_active g + 1 \<ge> length (g_cols g) then g else g_move_col (g_active g + 1) g) s')"
    by (auto simp: move_right_def intro!: stay move)
  show "runs (move_column_to_first E s) (acts E s (\<lambda>g. if g_cols g = [] then g else g_move_col 0 g))"
  proof (cases "sp_columns s = []")
    case True
    then have "move_column_to E 0 s = Some s" using core by (simp add: move_column_to_def space_core_def)
    with True show ?thesis by (auto simp: move_column_to_first_def intro!: stay)
  qed (auto simp: move_column_to_first_def intro!: move)
  show "runs (move_column_to_last E s) (acts E s (\<lambda>g. if g_cols g = [] then g
           else g_move_col (length (g_cols g) - 1) g))"
    using last [of "length (sp_columns s)"] by (auto simp: move_column_to_last_def intro!: stay move)
qed

section \<open>Moving windows between columns\<close>

lemma g_remove_col_cols [simp]: "g_cols (g_remove_col i g) = list_remove i (g_cols g)"
  by (simp add: g_remove_col_def Let_def g_neighbour_def)

lemma g_remove_tile_cols:
  "g_cols (g_remove_tile ci ti g) = (if length (fst (g_cols g ! ci)) = 1 then list_remove ci (g_cols g)
     else (g_cols g)[ci := cell_remove ti (g_cols g ! ci)])"
  by (simp add: g_remove_tile_def)

lemma tile_offset_Some:
  "column_inv E c \<Longrightarrow> i \<le> length (c_tiles c) \<Longrightarrow> tile_offset i c = Some (tile_offsets c ! i)"
  using column_invD(3) [of E c] by (simp add: tile_offset_def vec_get_def)

lemma animate_tile_acts:
  assumes inv: "space_inv E s" and ci: "ci < length (sp_columns s)" and i: "i < length (c_tiles (sp_columns s ! ci))"
  shows "runs (with_column ci (animate_tile E i off) s) (acts E s id)"
proof -
  have "runs (animate_tile E i off (sp_columns s ! ci)) (column_cosmetic E (sp_columns s ! ci))"
    using vec_modify_cosmetic [OF space_partsD(3) [OF space_inv_parts [OF inv] ci] i, of "animate_move_from E off"]
    by (simp add: animate_tile_def animate_move_from_ok)
  from with_column_cosmetic [OF space_inv_parts [OF inv] ci, where f = "animate_tile E i off", OF this]
  show ?thesis by (rule runs_mono) (rule acts_cosmetic [OF inv])
qed

lemma column_cell_tiles: "length (c_tiles (sp_columns s ! ci)) = length (fst (map (column_cell E) (sp_columns s) ! ci))"
  if "ci < length (sp_columns s)"
  using that by (simp add: column_cell_def)

text \<open>The end of every move: the positions are read, and the tile animates from its old place.\<close>

lemma settle_acts:
  assumes inv: "space_inv E s" and ci: "ci < length (sp_columns s)" and i: "i < length (c_tiles (sp_columns s ! ci))"
  shows "runs (do { new_off \<leftarrow> tile_offset i (sp_columns s ! ci); with_column ci (animate_tile E i (off new_off)) s })
    (acts E s id)"
  using i animate_tile_acts [OF inv ci i]
  by (simp add: tile_offset_Some [OF space_partsD(3) [OF space_inv_parts [OF inv] ci]])

definition tile_taken :: "('w, 'id) LayoutEnv \<Rightarrow> ('w, 'id) Space \<Rightarrow> 'id \<Rightarrow> 'w RemovedTile \<Rightarrow> bool" where
  "tile_taken E s w r \<longleftrightarrow> tile_fits E s (rm_tile r) \<and> el_id E (tl_window (rm_tile r)) = w"

context layout_element
begin

lemma remove_tile_acts:
  assumes "space_inv E s" and "ci < length (sp_columns s)"
    and "ti < length (c_tiles (sp_columns s ! ci))" and "option_ok anim_config_ok ac"
  shows "runs (remove_tile_by_idx E ci ti ac s) (\<lambda>(r, s'). acts E s (g_remove_tile ci ti) s' \<and>
     tile_taken E s (column_ids E (sp_columns s ! ci) ! ti) r)"
  by (rule runs_mono [OF remove_tile_by_idx_ok [OF assms]]) (auto simp: acts_def tile_taken_def)

lemma add_tile_to_acts:
  assumes "space_inv E s" and "ci < length (sp_columns s)" and "tile_taken E s' w r"
    and "option_ok (\<lambda>i. i \<le> length (c_tiles (sp_columns s ! ci))) ti"
  shows "runs (add_tile_to_column E ci ti (rm_tile r) act s) (acts E s (g_add_to ci ti w act))"
  using assms(3)
  by (intro runs_mono [OF add_tile_to_column_ok [OF assms(1,2) _ assms(4)]])
     (auto simp: acts_def tile_taken_def tile_fits_def)

lemma add_tile_acts:
  assumes inv: "space_inv E s" and k: "k \<le> length (sp_columns s)" and r: "tile_taken E s' w r" "space_env s' s"
    and cfg: "option_ok anim_config_ok ac"
  shows "runs (add_tile E (Some k) (rm_tile r) act wd fw ac s) (acts E s (g_add k ([w], 0) act))"
proof -
  have "tile_fits E s (rm_tile r)" using r tile_fits_env [OF r(2)] by (simp add: tile_taken_def)
  from add_tile_ok [OF inv this _ cfg, of "Some k" act wd fw] k r(1) show ?thesis
    by (auto simp: acts_def tile_taken_def elim!: runs_mono)
qed

end

lemma acts_weaken: "acts E s f s' \<Longrightarrow> f (grid E s) = h (grid E s) \<Longrightarrow> acts E s h s'"
  by (simp add: acts_def)

definition g_set_prev :: "bool \<Rightarrow> bool \<Rightarrow> 'id Grid \<Rightarrow> 'id Grid" where
  "g_set_prev c b g = (if c then g\<lparr>g_prev := b\<rparr> else g)"

lemma g_set_prev_simps [simp]:
  "g_cols (g_set_prev c b g) = g_cols g" "g_active (g_set_prev c b g) = g_active g"
  by (simp_all add: g_set_prev_def)

lemma acts_set_prev:
  assumes "space_inv E s"
  shows "acts E s (g_set_prev c (p \<noteq> None)) (if c then s\<lparr>sp_activate_prev_column_on_removal := p\<rparr> else s)"
  using assms by (simp add: acts_def g_set_prev_def)

lemma g_add_length:
  "length (g_cols (g_add_to k ti w act g)) = length (g_cols g)"
  "k \<le> length (g_cols g) \<Longrightarrow> length (g_cols (g_add k c act g)) = Suc (length (g_cols g))"
  by (simp_all add: g_add_to_def g_add_def Let_def split: prod.split)

text \<open>A window leaves its column and joins another one, or gets a column of its own.\<close>

definition g_join :: "nat \<Rightarrow> nat \<Rightarrow> nat \<Rightarrow> bool \<Rightarrow> 'id Grid \<Rightarrow> 'id Grid" where
  "g_join ci ti k act g = g_add_to k None (fst (g_cols g ! ci) ! ti) act (g_remove_tile ci ti g)"

definition g_expel :: "nat \<Rightarrow> nat \<Rightarrow> nat \<Rightarrow> bool \<Rightarrow> 'id Grid \<Rightarrow> 'id Grid" where
  "g_expel ci ti k act g = g_add k ([fst (g_cols g ! ci) ! ti], 0) act (g_remove_tile ci ti g)"

context layout_element
begin

lemma join_acts:
  assumes inv: "space_inv E s" and ci: "ci < length (sp_columns s)"
    and ti: "ti < length (c_tiles (sp_columns s ! ci))" and ac: "option_ok anim_config_ok ac"
    and tci: "tci < length (g_cols (g_remove_tile ci ti (grid E s)))"
  shows "runs (do { (removed, s) \<leftarrow> remove_tile_by_idx E ci ti ac s;
                    s \<leftarrow> add_tile_to_column E tci None (rm_tile removed) act s;
                    target \<leftarrow> vec_get (sp_columns s) tci;
                    new_off \<leftarrow> tile_offset (length (c_tiles target) - 1) target;
                    with_column tci (animate_tile E (length (c_tiles target) - 1) (off s target new_off)) s })
     (acts E s (g_join ci ti tci act))"
proof -
  obtain r s2 where s2: "remove_tile_by_idx E ci ti ac s = Some (r, s2)" "acts E s (g_remove_tile ci ti) s2"
    "tile_taken E s (column_ids E (sp_columns s ! ci) ! ti) r"
    using remove_tile_acts [OF inv ci ti ac] by (auto elim!: runsE)
  have tci2: "tci < length (sp_columns s2)" using tci acts_length [OF s2(2)] by simp
  obtain s3 where s3: "add_tile_to_column E tci None (rm_tile r) act s2 = Some s3"
    "acts E s2 (g_add_to tci None (column_ids E (sp_columns s ! ci) ! ti) act) s3"
    using add_tile_to_acts [OF acts_inv [OF s2(2)] tci2 s2(3), of None act] by (auto elim!: runsE)
  have tci3: "tci < length (sp_columns s3)" using tci2 acts_length [OF s3(2)] by (simp add: g_add_length)
  have ids: "column_ids E (sp_columns s ! ci) = fst (g_cols (grid E s) ! ci)"
    using ci by (simp add: column_cell_def)
  have s: "acts E s (g_join ci ti tci act) s3"
    by (rule acts_weaken [OF acts_trans [OF s2(2) s3(2)]]) (simp only: g_join_def ids)
  have "c_tiles (sp_columns s3 ! tci) \<noteq> []"
    using column_invD(1) space_partsD(3) [OF space_inv_parts [OF acts_inv [OF s3(2)]] tci3] by blast
  then have i: "length (c_tiles (sp_columns s3 ! tci)) - 1 < length (c_tiles (sp_columns s3 ! tci))" by simp
  have get: "vec_get (sp_columns s3) tci = Some (sp_columns s3 ! tci)" using tci3 by (simp add: vec_get_def)
  show ?thesis
    unfolding s2(1) s3(1) get Option.bind.bind_lunit prod.case
    by (rule runs_mono [OF settle_acts [OF acts_inv [OF s3(2)] tci3 i]])
       (use acts_trans [OF s, of id] in \<open>simp add: acts_def\<close>)
qed

lemma expel_acts:
  assumes inv: "space_inv E s" and ci: "ci < length (sp_columns s)"
    and ti: "ti < length (c_tiles (sp_columns s ! ci))" and n: "length (c_tiles (sp_columns s ! ci)) \<noteq> 1"
    and k: "k \<le> length (sp_columns s)"
    and rest: "\<And>t. space_inv E t \<Longrightarrow> space_env s t \<Longrightarrow> k < length (sp_columns t) \<Longrightarrow> runs (rest t) (acts E t h)"
  shows "runs (do { (removed, s) \<leftarrow> remove_tile_by_idx E ci ti None s;
                    s \<leftarrow> add_tile E (Some k) (rm_tile removed) act (rm_width removed) (rm_is_full_width removed)
                           (Some (space_movement_config s)) s;
                    rest s })
     (acts E s (\<lambda>g. h (g_expel ci ti k act g)))"
proof -
  have ac: "option_ok anim_config_ok None" by simp
  obtain r s2 where s2: "remove_tile_by_idx E ci ti None s = Some (r, s2)" "acts E s (g_remove_tile ci ti) s2"
    "tile_taken E s (column_ids E (sp_columns s ! ci) ! ti) r"
    using remove_tile_acts [OF inv ci ti ac] by (auto elim!: runsE)
  have len2: "length (sp_columns s2) = length (sp_columns s)"
    using acts_length [OF s2(2)] n ci by (simp add: g_remove_tile_cols column_cell_def)
  have env: "space_env s s2" using s2(2) by (simp add: acts_def)
  have ac2: "option_ok anim_config_ok (Some (space_movement_config s2))"
    using space_partsD(8) [OF space_inv_parts [OF acts_inv [OF s2(2)]]] by simp
  obtain s3 where s3: "add_tile E (Some k) (rm_tile r) act (rm_width r) (rm_is_full_width r)
        (Some (space_movement_config s2)) s2 = Some s3"
    "acts E s2 (g_add k ([column_ids E (sp_columns s ! ci) ! ti], 0) act) s3"
    using add_tile_acts [OF acts_inv [OF s2(2)] _ s2(3) env ac2, of k act "rm_width r" "rm_is_full_width r"] k len2
    by (auto elim!: runsE)
  have k3: "k < length (sp_columns s3)" using k len2 acts_length [OF s3(2)] by (simp add: g_add_length)
  have ids: "column_ids E (sp_columns s ! ci) = fst (g_cols (grid E s) ! ci)"
    using ci by (simp add: column_cell_def)
  have s: "acts E s (g_expel ci ti k act) s3"
    by (rule acts_weaken [OF acts_trans [OF s2(2) s3(2)]]) (simp only: g_expel_def ids)
  have "space_env s s3" using s by (simp add: acts_def)
  show ?thesis
    unfolding s2(1) s3(1) Option.bind.bind_lunit prod.case
    by (rule runs_mono [OF rest [OF acts_inv [OF s3(2)] \<open>space_env s s3\<close> k3]]) (rule acts_trans [OF s])
qed

end

definition g_consume_or_expel_left :: "'id option \<Rightarrow> 'id Grid \<Rightarrow> 'id Grid" where
  "g_consume_or_expel_left w g =
     (case (if g_cols g = [] then None else g_source w g) of
        None \<Rightarrow> g
      | Some (ci, ti) \<Rightarrow>
          let was_active = (g_active g = ci \<and> snd (g_cols g ! ci) = ti) in
          if length (fst (g_cols g ! ci)) = 1
          then if ci = 0 then g else g_join ci 0 (ci - 1) was_active (g_set_prev was_active True g)
          else g_set_prev was_active False (g_expel ci ti ci was_active g))"

definition g_consume_or_expel_right :: "'id option \<Rightarrow> 'id Grid \<Rightarrow> 'id Grid" where
  "g_consume_or_expel_right w g =
     (case (if g_cols g = [] then None else g_source w g) of
        None \<Rightarrow> g
      | Some (ci, ti) \<Rightarrow>
          let was_active = (g_active g = ci \<and> snd (g_cols g ! ci) = ti) in
          if length (fst (g_cols g ! ci)) = 1
          then if ci + 1 = length (g_cols g) then g else g_join ci 0 ci was_active (g_set_prev was_active False g)
          else g_expel ci ti (ci + 1) was_active g)"

lemma acts_then_id:
  assumes "acts E s f t" and "runs m (acts E t id)" shows "runs m (acts E s f)"
  by (rule runs_mono [OF assms(2)], rule acts_weaken [OF acts_trans [OF assms(1), of id]]) simp_all

lemma vec_get_Some: "i < length xs \<Longrightarrow> vec_get xs i = Some (xs ! i)"
  by (simp add: vec_get_def)

lemma space_reads:
  assumes "space_parts E s"
  shows "i \<le> length (sp_columns s) \<Longrightarrow> column_x i s = Some (column_xs s ! i)"
    and "i < length (sp_columns s) \<Longrightarrow> vec_get (sp_columns s) i = Some (sp_columns s ! i)"
    and "i < length (sp_columns s) \<Longrightarrow> vec_get (sp_data s) i = Some (sp_data s ! i)"
  using column_x_Some [OF assms] space_partsD(2) [OF assms] by (simp_all add: vec_get_def)

lemma option_bind_eq: "m = Some x \<Longrightarrow> m \<bind> f = f x"
  by simp

context layout_element
begin

lemma consume_or_expel_left_acts:
  assumes inv: "space_inv E s" and w: "targets E s w"
  shows "runs (consume_or_expel_window_left E w s) (acts E s (g_consume_or_expel_left w))"
proof (cases "sp_columns s = []")
  case True
  with inv show ?thesis by (simp add: consume_or_expel_window_left_def acts_def g_consume_or_expel_left_def)
next
  case ne: False
  obtain ci ti where src: "source_of E w s = Some (ci, ti)"
    using source_of_has [OF inv ne] w unfolding targets_def by metis
  note b = source_of_bounds [OF inv ne src]
  note parts = space_inv_parts [OF inv]
  note R = space_reads [OF parts]
  let ?c = "sp_columns s ! ci"
  define was where "was \<longleftrightarrow> sp_active_column_idx s = ci \<and> c_active_tile_idx ?c = ti"
  have gs: "g_source w (grid E s) = Some (ci, ti)" using src source_of_grid [OF inv ne] by simp
  have off: "tile_offset ti ?c = Some (tile_offsets ?c ! ti)"
    using b by (intro tile_offset_Some [OF space_partsD(3) [OF parts]]) simp_all
  have len: "length (column_ids E ?c) = length (c_tiles ?c)" by simp
  show ?thesis
  proof (cases "length (c_tiles ?c) = 1")
    case one: True
    have g: "g_consume_or_expel_left w (grid E s) = (if ci = 0 then grid E s
        else g_join ci 0 (ci - 1) was (g_set_prev was True (grid E s)))"
      using ne one b(1) gs by (simp add: g_consume_or_expel_left_def was_def Let_def column_cell_def)
    show ?thesis
    proof (cases "ci = 0")
      case True
      have "acts E s (g_consume_or_expel_left w) s" using inv g True by (simp add: acts_def)
      with True ne src R(2) [OF b(1)] off one show ?thesis by (simp add: consume_or_expel_window_left_def)
    next
      case False
      have join: "runs (do { (removed, s) \<leftarrow> remove_tile_by_idx E ci 0 (Some (space_movement_config t)) t;
                    s \<leftarrow> add_tile_to_column E (ci - 1) None (rm_tile removed) was s;
                    target \<leftarrow> vec_get (sp_columns s) (ci - 1);
                    new_off \<leftarrow> tile_offset (length (c_tiles target) - 1) target;
                    with_column (ci - 1) (animate_tile E (length (c_tiles target) - 1) (o' s target new_off)) s })
         (acts E s (g_consume_or_expel_left w))"
        if t: "t = (if was then s\<lparr>sp_activate_prev_column_on_removal := q\<rparr> else s)" and q: "q \<noteq> None" for t q o'
      proof -
        have a: "acts E s (g_set_prev was True) t" using acts_set_prev [OF inv, of was q] t q by simp
        have cols: "sp_columns t = sp_columns s" using t by simp
        have "ci - 1 < length (g_cols (g_remove_tile ci 0 (grid E t)))"
          using b(1) one False cols by (simp add: g_remove_tile_cols column_cell_def)
        then show ?thesis
          by (intro runs_mono [OF join_acts [OF acts_inv [OF a]]] acts_weaken [OF acts_trans [OF a]])
             (use b one cols g False space_partsD(8) [OF space_inv_parts [OF acts_inv [OF a]]] in simp_all)
      qed
      have x: "column_x ci s = Some (column_xs s ! ci)" "column_x (ci - 1) s = Some (column_xs s ! (ci - 1))"
        "vec_get (sp_columns s) ci = Some ?c" "vec_get (sp_data s) (ci - 1) = Some (sp_data s ! (ci - 1))"
        "vec_get (sp_data s) ci = Some (sp_data s ! ci)"
        using R b(1) by simp_all
      show ?thesis
        unfolding consume_or_expel_window_left_def src x off Option.bind.bind_lunit prod.case Let_def was_def [symmetric]
          if_not_P [OF ne] if_P [OF one] if_not_P [OF False]
        by (rule join [OF refl]) (simp split: option.split)
    qed
  next
    case more: False
    have g: "g_consume_or_expel_left w (grid E s) = g_set_prev was False (g_expel ci ti ci was (grid E s))"
      using ne more b(1) gs by (simp add: g_consume_or_expel_left_def was_def Let_def column_cell_def)
    have settle: "runs (do { next_x \<leftarrow> column_x (ci + 1) u; this_x \<leftarrow> column_x ci u;
          new_col \<leftarrow> vec_get (sp_columns u) ci; new_off \<leftarrow> tile_offset 0 new_col;
          with_column ci (animate_tile E 0 (o' next_x this_x new_off)) u }) (acts E t (g_set_prev was False))"
      if t: "space_inv E t" "ci < length (sp_columns t)"
        and u: "u = (if was then t\<lparr>sp_activate_prev_column_on_removal := None\<rparr> else t)" for t u o'
    proof -
      have a: "acts E t (g_set_prev was False) u" using acts_set_prev [OF t(1), of was None] u by simp
      have ci: "ci < length (sp_columns u)" using t u by simp
      have "0 < length (c_tiles (sp_columns u ! ci))"
        using column_invD(1) space_partsD(3) [OF space_inv_parts [OF acts_inv [OF a]] ci] by blast
      note settle = settle_acts [OF acts_inv [OF a] ci this]
      show ?thesis
        by (rule acts_then_id [OF a])
           (use ci in \<open>simp add: space_reads [OF space_inv_parts [OF acts_inv [OF a]]] settle del: runs_bind\<close>)
    qed
    have x: "vec_get (sp_columns s) ci = Some ?c" using R b(1) by simp
    show ?thesis
      unfolding consume_or_expel_window_left_def src x off Option.bind.bind_lunit prod.case Let_def was_def [symmetric]
        if_not_P [OF ne] if_not_P [OF more]
      by (rule runs_mono [OF expel_acts [OF inv b more]], use b(1) in simp)
         (rule settle, simp_all add: acts_def g)
  qed
qed

end

definition g_consume_into :: "'id Grid \<Rightarrow> 'id Grid" where
  "g_consume_into g =
     (if length (g_cols g) < 2 \<or> g_active g = length (g_cols g) - 1 then g
      else g_join (g_active g + 1) 0 (g_active g) False g)"

definition g_expel_from :: "'id Grid \<Rightarrow> 'id Grid" where
  "g_expel_from g =
     (if g_cols g = [] \<or> length (fst (g_cols g ! g_active g)) = 1 then g
      else g_expel (g_active g) (length (fst (g_cols g ! g_active g)) - 1) (g_active g + 1) False g)"

lemma column_nonempty: "space_inv E s \<Longrightarrow> i < length (sp_columns s) \<Longrightarrow> 0 < length (c_tiles (sp_columns s ! i))"
  using column_invD(1) [OF space_partsD(3) [OF space_inv_parts]] by blast

lemma g_remove_tile_length:
  "ci < length (g_cols g) \<Longrightarrow> length (g_cols (g_remove_tile ci ti g)) =
     (if length (fst (g_cols g ! ci)) = 1 then length (g_cols g) - 1 else length (g_cols g))"
  by (simp add: g_remove_tile_cols)

lemma grid_tiles: "ci < length (sp_columns s) \<Longrightarrow> length (fst (g_cols (grid E s) ! ci)) = length (c_tiles (sp_columns s ! ci))"
  by (simp add: column_cell_def)

context layout_element
begin

text \<open>The window settles in the column it has just got.\<close>

lemma settle_new_acts:
  assumes "space_inv E t" and "k < length (sp_columns t)"
  shows "runs (do { new_col \<leftarrow> vec_get (sp_columns t) k; new_off \<leftarrow> tile_offset 0 new_col;
      with_column k (animate_tile E 0 (off new_off)) t }) (acts E t id)"
  using settle_acts [OF assms column_nonempty [OF assms]] assms(2) by (simp add: vec_get_def)

lemma consume_or_expel_right_acts:
  assumes inv: "space_inv E s" and w: "targets E s w"
  shows "runs (consume_or_expel_window_right E w s) (acts E s (g_consume_or_expel_right w))"
proof (cases "sp_columns s = []")
  case True
  with inv show ?thesis by (simp add: consume_or_expel_window_right_def acts_def g_consume_or_expel_right_def)
next
  case ne: False
  obtain ci ti where src: "source_of E w s = Some (ci, ti)"
    using source_of_has [OF inv ne] w unfolding targets_def by metis
  note b = source_of_bounds [OF inv ne src]
  note parts = space_inv_parts [OF inv]
  note R = space_reads [OF parts]
  let ?c = "sp_columns s ! ci"
  define was where "was \<longleftrightarrow> sp_active_column_idx s = ci \<and> c_active_tile_idx ?c = ti"
  have gs: "g_source w (grid E s) = Some (ci, ti)" using src source_of_grid [OF inv ne] by simp
  have off: "tile_offset ti ?c = Some (tile_offsets ?c ! ti)"
    using b by (intro tile_offset_Some [OF space_partsD(3) [OF parts]]) simp_all
  have x: "column_x ci s = Some (column_xs s ! ci)" "vec_get (sp_columns s) ci = Some ?c"
    "vec_get (sp_data s) ci = Some (sp_data s ! ci)"
    using R b(1) by simp_all
  show ?thesis
  proof (cases "length (c_tiles ?c) = 1")
    case one: True
    have g: "g_consume_or_expel_right w (grid E s) = (if ci + 1 = length (sp_columns s) then grid E s
        else g_join ci 0 ci was (g_set_prev was False (grid E s)))"
      using ne one b(1) gs by (simp add: g_consume_or_expel_right_def was_def Let_def column_cell_def)
    show ?thesis
    proof (cases "ci + 1 = length (sp_columns s)")
      case True
      have "acts E s (g_consume_or_expel_right w) s" using inv g True by (simp add: acts_def)
      with True ne src x off one show ?thesis by (simp add: consume_or_expel_window_right_def)
    next
      case False
      have join: "runs (do { (removed, s) \<leftarrow> remove_tile_by_idx E ci 0 (Some (space_movement_config t)) t;
                    s \<leftarrow> add_tile_to_column E ci None (rm_tile removed) was s;
                    target \<leftarrow> vec_get (sp_columns s) ci;
                    new_off \<leftarrow> tile_offset (length (c_tiles target) - 1) target;
                    with_column ci (animate_tile E (length (c_tiles target) - 1) (o' s target new_off)) s })
         (acts E s (g_consume_or_expel_right w))"
        if t: "t = (if was then s\<lparr>sp_activate_prev_column_on_removal := None\<rparr> else s)" for t o'
      proof -
        have a: "acts E s (g_set_prev was False) t" using acts_set_prev [OF inv, of was None] t by simp
        have cols: "sp_columns t = sp_columns s" using t by simp
        have "ci < length (g_cols (g_remove_tile ci 0 (grid E t)))"
          using b(1) one False cols by (simp add: g_remove_tile_cols column_cell_def)
        then show ?thesis
          by (intro runs_mono [OF join_acts [OF acts_inv [OF a]]] acts_weaken [OF acts_trans [OF a]])
             (use b one cols g False space_partsD(8) [OF space_inv_parts [OF acts_inv [OF a]]] in simp_all)
      qed
      have x': "column_x (ci + 1) s = Some (column_xs s ! (ci + 1))"
        "vec_get (sp_columns s) (ci + 1) = Some (sp_columns s ! (ci + 1))"
        using R b(1) False by simp_all
      show ?thesis
        unfolding consume_or_expel_window_right_def src x x' off Option.bind.bind_lunit prod.case Let_def was_def [symmetric]
          if_not_P [OF ne] if_P [OF one] if_not_P [OF False]
        by (rule join [OF refl])
    qed
  next
    case more: False
    have g: "g_consume_or_expel_right w (grid E s) = g_expel ci ti (ci + 1) was (grid E s)"
      using ne more b(1) gs by (simp add: g_consume_or_expel_right_def was_def Let_def column_cell_def)
    have settle: "runs (do { this_x \<leftarrow> column_x (ci + 1) t; d \<leftarrow> vec_get (sp_data t) (ci + 1);
          new_col \<leftarrow> vec_get (sp_columns t) (ci + 1); new_off \<leftarrow> tile_offset 0 new_col;
          with_column (ci + 1) (animate_tile E 0 (o' this_x d new_off)) t }) (acts E t id)"
      if t: "space_inv E t" "ci + 1 < length (sp_columns t)" for t o'
      unfolding space_reads(1) [OF space_inv_parts [OF t(1)] less_imp_le [OF t(2)]]
        space_reads(3) [OF space_inv_parts [OF t(1)] t(2)] Option.bind.bind_lunit
      by (rule settle_new_acts [OF t])
    show ?thesis
      unfolding consume_or_expel_window_right_def src x off Option.bind.bind_lunit prod.case Let_def was_def [symmetric]
        if_not_P [OF ne] if_not_P [OF more]
      by (rule runs_mono [OF expel_acts [OF inv b more]], use b(1) in simp)
         (rule settle, simp_all add: acts_def g)
  qed
qed

lemma consume_into_acts:
  assumes inv: "space_inv E s"
  shows "runs (consume_into_column E s) (acts E s g_consume_into)"
proof -
  let ?a = "sp_active_column_idx s"
  consider "length (sp_columns s) < 2" | "\<not> length (sp_columns s) < 2" "?a = length (sp_columns s) - 1"
    | "\<not> length (sp_columns s) < 2" "?a \<noteq> length (sp_columns s) - 1" by blast
  then show ?thesis
  proof cases
    case 1
    with inv show ?thesis by (simp add: consume_into_column_def acts_def g_consume_into_def)
  next
    case 2
    with inv show ?thesis by (simp add: consume_into_column_def acts_def g_consume_into_def)
  next
    case 3
    have ne: "sp_columns s \<noteq> []" using 3 by auto
    note a = space_core_active [OF space_inv_core [OF inv] ne]
    have src: "?a + 1 < length (sp_columns s)" using 3 a by linarith
    note parts = space_inv_parts [OF inv]
    note R = space_reads [OF parts]
    let ?c = "sp_columns s ! (?a + 1)"
    have x: "column_x (?a + 1) s = Some (column_xs s ! (?a + 1))" "vec_get (sp_columns s) (?a + 1) = Some ?c"
      "column_x ?a s = Some (column_xs s ! ?a)" using R src a by simp_all
    have off: "tile_offset 0 ?c = Some (tile_offsets ?c ! 0)"
      by (rule tile_offset_Some [OF space_partsD(3) [OF parts src]]) simp
    have "?a < length (g_cols (g_remove_tile (?a + 1) 0 (grid E s)))"
      using a src by (auto simp: g_remove_tile_length)
    then have join: "runs (do { (removed, s) \<leftarrow> remove_tile_by_idx E (?a + 1) 0 None s;
                    s \<leftarrow> add_tile_to_column E ?a None (rm_tile removed) False s;
                    target \<leftarrow> vec_get (sp_columns s) ?a;
                    new_off \<leftarrow> tile_offset (length (c_tiles target) - 1) target;
                    with_column ?a (animate_tile E (length (c_tiles target) - 1) (o' s target new_off)) s })
         (acts E s (g_join (?a + 1) 0 ?a False))" for o'
      by (intro join_acts [OF inv src column_nonempty [OF inv src]]) simp_all
    have "runs (consume_into_column E s) (acts E s (g_join (?a + 1) 0 ?a False))"
      unfolding consume_into_column_def Let_def x off Option.bind.bind_lunit if_not_P [OF 3(1)] if_not_P [OF 3(2)]
      by (rule join)
    then show ?thesis
      by (rule runs_mono) (use 3 in \<open>simp add: acts_def g_consume_into_def\<close>)
  qed
qed

lemma expel_from_acts:
  assumes inv: "space_inv E s"
  shows "runs (expel_from_column E s) (acts E s g_expel_from)"
proof (cases "sp_columns s = []")
  case True
  with inv show ?thesis by (simp add: expel_from_column_def acts_def g_expel_from_def)
next
  case ne: False
  let ?a = "sp_active_column_idx s" and ?c = "sp_columns s ! sp_active_column_idx s"
  note a = space_core_active [OF space_inv_core [OF inv] ne]
  note parts = space_inv_parts [OF inv]
  note R = space_reads [OF parts]
  have x: "column_x ?a s = Some (column_xs s ! ?a)" "vec_get (sp_columns s) ?a = Some ?c"
    using R a by simp_all
  show ?thesis
  proof (cases "length (c_tiles ?c) = 1")
    case True
    with ne x inv a show ?thesis
      by (simp add: expel_from_column_def acts_def g_expel_from_def Let_def column_cell_def)
  next
    case more: False
    have ti: "length (c_tiles ?c) - 1 < length (c_tiles ?c)" using column_nonempty [OF inv a] by simp
    have off: "tile_offset (length (c_tiles ?c) - 1) ?c = Some (tile_offsets ?c ! (length (c_tiles ?c) - 1))"
      by (rule tile_offset_Some [OF space_partsD(3) [OF parts a]]) simp
    have settle: "runs (do { this_x \<leftarrow> column_x (?a + 1) t;
          new_col \<leftarrow> vec_get (sp_columns t) (?a + 1); new_off \<leftarrow> tile_offset 0 new_col;
          with_column (?a + 1) (animate_tile E 0 (o' this_x new_off)) t }) (acts E t id)"
      if t: "space_inv E t" "?a + 1 < length (sp_columns t)" for t o'
      unfolding space_reads(1) [OF space_inv_parts [OF t(1)] less_imp_le [OF t(2)]] Option.bind.bind_lunit
      by (rule settle_new_acts [OF t])
    have "runs (expel_from_column E s)
        (acts E s (\<lambda>g. id (g_expel ?a (length (c_tiles ?c) - 1) (?a + 1) False g)))"
      unfolding expel_from_column_def Let_def x off Option.bind.bind_lunit if_not_P [OF ne] if_not_P [OF more]
      by (rule expel_acts [OF inv a ti more]) (use a in simp, rule settle)
    then show ?thesis
      by (rule runs_mono) (use ne more a in \<open>simp add: acts_def g_expel_from_def column_cell_def\<close>)
  qed
qed

end

section \<open>Swapping windows\<close>

definition g_set_active :: "nat \<Rightarrow> nat \<Rightarrow> 'id Grid \<Rightarrow> 'id Grid" where
  "g_set_active ci ti g = g\<lparr>g_cols := (g_cols g)[ci := (fst (g_cols g ! ci), ti)]\<rparr>"

text \<open>What the code does to the grid, step by step.\<close>

definition g_swap_tiles :: "bool \<Rightarrow> nat \<Rightarrow> nat \<Rightarrow> 'id Grid \<Rightarrow> 'id Grid" where
  "g_swap_tiles right sc tc g =
     (let (sids, sa) = g_cols g ! sc; (tids, ta) = g_cols g ! tc;
          drained = (length sids = 1);
          atc = (if right \<and> drained then tc - 1 else tc);
          g = g_remove_tile sc sa g;
          g = g_add_to atc (Some ta) (sids ! sa) False g;
          g = g_remove_tile atc (ta + 1) g;
          g = (if drained then g_add sc ([tids ! ta], 0) True g else g_add_to sc (Some sa) (tids ! ta) False g)
      in g_activate tc (g_set_active tc ta (g_set_active sc sa g)))"

definition g_swap :: "ScrollDirection \<Rightarrow> 'id Grid \<Rightarrow> 'id Grid" where
  "g_swap d g =
     (if g_cols g = [] \<or> d = ScrollLeft \<and> g_active g = 0 \<or> d = ScrollRight \<and> g_active g = length (g_cols g) - 1 then g
      else
        let sc = g_active g; tc = (case d of ScrollLeft \<Rightarrow> sc - 1 | ScrollRight \<Rightarrow> sc + 1)
        in if length (fst (g_cols g ! sc)) = 1 \<and> length (fst (g_cols g ! tc)) = 1 then g_move_col tc g
           else g_swap_tiles (d = ScrollRight) sc tc g)"

lemma g_add_to_cols:
  "g_cols (g_add_to ci (Some ti) w False g) =
     (g_cols g)[ci := (list_insert ti w (fst (g_cols g ! ci)),
        if ti \<le> snd (g_cols g ! ci) then snd (g_cols g ! ci) + 1 else snd (g_cols g ! ci))]"
  by (simp add: g_add_to_def Let_def case_prod_unfold)

lemma g_add_cols: "g_cols (g_add idx c a g) = list_insert idx c (g_cols g)"
  by (simp add: g_add_def Let_def)

lemma g_set_active_cols [simp]:
  "g_cols (g_set_active ci ti g) = (g_cols g)[ci := (fst (g_cols g ! ci), ti)]"
  by (simp add: g_set_active_def)

lemma list_insert_remove_same: "i < length xs \<Longrightarrow> list_insert i x (list_remove i xs) = xs[i := x]"
  by (simp add: upd_conv_take_nth_drop min_def)

lemma list_remove_insert_next:
  "i < length xs \<Longrightarrow> list_remove (Suc i) (list_insert i x xs) = xs[i := x]"
  by (simp add: upd_conv_take_nth_drop min_def Cons_nth_drop_Suc [symmetric])

lemma list_update_remove:
  assumes "i < length xs" and "j < length xs" and "i \<noteq> j"
  shows "list_insert i y ((list_remove i xs)[if i < j then j - 1 else j := x]) = xs[i := y, j := x]"
proof -
  have "list_insert i y (list_remove i (xs[j := x])) = xs[j := x, i := y]"
    using assms by (intro list_insert_remove_same) simp
  moreover have "(list_remove i xs)[if i < j then j - 1 else j := x] = list_remove i (xs[j := x])"
    using assms by (intro nth_equalityI) (auto simp: nth_append nth_list_update min_def)
  ultimately show ?thesis using assms(3) by (simp add: list_update_swap)
qed

text \<open>What all of this amounts to: the two active windows change places, and the moved one stays in focus.\<close>

lemma g_swap_steps:
  assumes g: "sc < length (g_cols g)" "tc < length (g_cols g)" "tc = (if right then sc + 1 else sc - 1)" "sc \<noteq> tc"
    and s: "g_cols g ! sc = (sids, sa)" "sa < length sids" and t: "g_cols g ! tc = (tids, ta)" "ta < length tids"
    and many: "\<not> (length sids = 1 \<and> length tids = 1)"
    and atc_def: "atc = (if right \<and> length sids = 1 then tc - 1 else tc)"
    and g1_def: "g1 = g_remove_tile sc sa g" and g2_def: "g2 = g_add_to atc (Some ta) (sids ! sa) False g1"
    and g3_def: "g3 = g_remove_tile atc (ta + 1) g2"
    and g4_def: "g4 = (if length sids = 1 then g_add sc ([tids ! ta], 0) True g3 else g_add_to sc (Some sa) (tids ! ta) False g3)"
  shows "atc < length (g_cols g1) \<and> g_cols g1 ! atc = (tids, ta)"
    and "g_cols g2 = (g_cols g1)[atc := (list_insert ta (sids ! sa) tids, ta + 1)]"
    and "\<exists>a. g_cols g3 = (g_cols g1)[atc := (tids[ta := sids ! sa], a)]"
    and "\<exists>a b. g_cols g4 = (g_cols g)[sc := (sids[sa := tids ! ta], a), tc := (tids[ta := sids ! sa], b)]"
proof -
  show atc: "atc < length (g_cols g1) \<and> g_cols g1 ! atc = (tids, ta)"
  proof (cases "length sids = 1")
    case True
    have at: "atc = (if sc < tc then tc - 1 else tc)" using g(3,4) True by (auto simp: atc_def)
    have "atc < length (g_cols g) - 1" using g at by (auto split: if_splits)
    moreover have "list_remove sc (g_cols g) ! atc = g_cols g ! tc"
      using list_remove_nth [OF g(1) calculation] at g(4) by (auto split: if_splits)
    ultimately show ?thesis
      using True g(1) t(1) length_list_remove [OF g(1)] by (simp only: g1_def g_remove_tile_cols s(1) fst_conv simp_thms if_True)
  next
    case False
    then show ?thesis using g(2,4) t(1) by (simp add: g1_def g_remove_tile_cols s(1) atc_def)
  qed
  show g2: "g_cols g2 = (g_cols g1)[atc := (list_insert ta (sids ! sa) tids, ta + 1)]"
    by (simp add: g2_def g_add_to_cols atc)
  have "length (fst (g_cols g2 ! atc)) \<noteq> 1" using t(2) atc by (auto simp: g2)
  then have "g_cols g3 = (g_cols g2)[atc := cell_remove (ta + 1) (g_cols g2 ! atc)]"
    by (simp add: g3_def g_remove_tile_cols)
  moreover have "fst (cell_remove (ta + 1) (g_cols g2 ! atc)) = tids[ta := sids ! sa]"
    using atc t(2) by (simp add: g2 list_remove_insert_next del: take_append drop_append)
  ultimately obtain a3 where g3: "g_cols g3 = (g_cols g1)[atc := (tids[ta := sids ! sa], a3)]"
    by (simp add: g2) (metis prod.collapse)
  show "\<exists>a. g_cols g3 = (g_cols g1)[atc := (tids[ta := sids ! sa], a)]" using g3 ..
  show "\<exists>a b. g_cols g4 = (g_cols g)[sc := (sids[sa := tids ! ta], a), tc := (tids[ta := sids ! sa], b)]"
  proof (cases "length sids = 1")
    case True
    then have sids: "sids = [sids ! sa]" "sa = 0" using s(2) by (cases sids; simp)+
    have g1: "g_cols g1 = list_remove sc (g_cols g)" using True by (simp add: g1_def g_remove_tile_cols s(1))
    have "atc = (if sc < tc then tc - 1 else tc)" using g(3,4) True by (auto simp: atc_def)
    then have "g_cols g4 = (g_cols g)[sc := ([tids ! ta], 0), tc := (tids[ta := sids ! sa], a3)]"
      using True list_update_remove [OF g(1,2,4)] by (simp only: g4_def g_add_cols g3 g1 simp_thms if_True)
    moreover have "sids[sa := tids ! ta] = [tids ! ta]" using sids by (metis list_update_code(2))
    ultimately show ?thesis by metis
  next
    case False
    then have at: "atc = tc" by (simp add: atc_def)
    have g1: "g_cols g1 = (g_cols g)[sc := cell_remove sa (sids, sa)]" using False by (simp add: g1_def g_remove_tile_cols s(1))
    have "list_insert sa (tids ! ta) (list_remove sa sids) = sids[sa := tids ! ta]"
      by (rule list_insert_remove_same [OF s(2)])
    moreover have "(cs::('a list \<times> nat) list)[tc := u, sc := v] = cs[sc := v, tc := u]" for cs u v
      using g(4) by (simp add: list_update_swap)
    ultimately show ?thesis
      using False g(1,4) at by (auto simp: g4_def g_add_to_cols g3 g1)
  qed
qed

lemma g_swap_tiles_cols:
  assumes g: "sc < length (g_cols g)" "tc < length (g_cols g)" "tc = (if right then sc + 1 else sc - 1)" "sc \<noteq> tc"
    and s: "g_cols g ! sc = (sids, sa)" "sa < length sids" and t: "g_cols g ! tc = (tids, ta)" "ta < length tids"
    and many: "\<not> (length sids = 1 \<and> length tids = 1)"
  shows "g_cols (g_swap_tiles right sc tc g) = (g_cols g)[sc := (sids[sa := tids ! ta], sa), tc := (tids[ta := sids ! sa], ta)]"
    and "g_active (g_swap_tiles right sc tc g) = tc"
  using g_swap_steps(4) [OF assms refl refl refl refl refl] g(1,2,4)
  by (auto simp: g_swap_tiles_def s t Let_def list_update_swap)

context layout_element
begin

lemma set_active_tile_acts:
  assumes inv: "space_inv E s" and ci: "ci < length (sp_columns s)" and ti: "ti < length (c_tiles (sp_columns s ! ci))"
  shows "runs (with_column ci (set_active_tile ti) s) (acts E s (g_set_active ci ti))"
proof -
  have "runs (set_active_tile ti (sp_columns s ! ci)) (cell_op E (\<lambda>c. (fst c, ti)) (sp_columns s ! ci))"
    using column_inv_active [OF space_partsD(3) [OF space_inv_parts [OF inv] ci] ti]
    by (simp add: set_active_tile_def cell_op_def)
  from with_column_acts [OF inv ci, where f = "set_active_tile ti", OF this] show ?thesis
    by (rule runs_mono) (simp add: acts_def g_set_active_def)
qed

lemma animate_swapped_acts:
  assumes inv: "space_inv E s" and sc: "sc < length (sp_columns s)" "st < length (c_tiles (sp_columns s ! sc))"
    and tc: "tc < length (sp_columns s)" "tt < length (c_tiles (sp_columns s ! tc))"
  shows "runs (animate_swapped E (sc, st) (tc, tt) p q s) (acts E s id)"
proof -
  have tile: "runs (with_column ci (\<lambda>c. do { ts \<leftarrow> vec_modify i f (c_tiles c); Some (c\<lparr>c_tiles := ts\<rparr>) }) u) (acts E u id)"
    if u: "space_inv E u" "ci < length (sp_columns u)" "i < length (c_tiles (sp_columns u ! ci))"
      and f: "\<And>t. tile_ok E t \<Longrightarrow> animates E f t" for u ci i f
  proof -
    have "runs (do { ts \<leftarrow> vec_modify i f (c_tiles (sp_columns u ! ci)); Some ((sp_columns u ! ci)\<lparr>c_tiles := ts\<rparr>) })
        (column_cosmetic E (sp_columns u ! ci))"
      using vec_modify_cosmetic [OF space_partsD(3) [OF space_inv_parts [OF u(1)] u(2)] u(3) f] by simp
    from with_column_cosmetic [OF space_inv_parts [OF u(1)] u(2),
        where f = "\<lambda>c. do { ts \<leftarrow> vec_modify i f (c_tiles c); Some (c\<lparr>c_tiles := ts\<rparr>) }", OF this]
    show ?thesis by (rule runs_mono) (rule acts_cosmetic [OF u(1)])
  qed
  have f1: "animates E (\<lambda>t. do { t \<leftarrow> animate_move_from E x t; Some (ensure_alpha_animates_to_1 t) }) t"
    if "tile_ok E t" for t x
    using animate_move_from_ok [OF that, of x] ensure_alpha_ok
    by (auto elim!: runs_mono) (auto simp: tile_same_def)
  have f2: "animates E (\<lambda>t. do { t \<leftarrow> animate_move_from E x (stop_move_animations t); Some (ensure_alpha_animates_to_1 t) }) t"
    if "tile_ok E t" for t x
  proof -
    have stop: "tile_ok E (stop_move_animations t)" "tile_same t (stop_move_animations t)"
      using that by (simp_all add: stop_move_animations_def tile_ok_def tile_same_def)
    show ?thesis
      by (rule runs_mono [OF f1 [OF stop(1), of x]]) (use stop(2) in \<open>auto simp: tile_same_def\<close>)
  qed
  show ?thesis
    unfolding animate_swapped_def prod.case
  proof (rule runs_acts_id [OF tile [OF inv tc f1]])
    fix t assume t: "acts E s id t"
    show "runs (with_column sc (\<lambda>c. do {
            ts \<leftarrow> vec_modify st (\<lambda>t. do {
                    t \<leftarrow> animate_move_from E (point_sub q p) (stop_move_animations t);
                    Some (ensure_alpha_animates_to_1 t) }) (c_tiles c);
            Some (c\<lparr>c_tiles := ts\<rparr>) }) t) (acts E t id)"
      by (rule tile [OF acts_inv [OF t] _ _ f2]) (use sc acts_idD(5) [OF t] acts_id_tiles [OF t sc(1)] in simp_all)
  qed
qed

text \<open>The windows of a column of the grid bound the indices of its tiles.\<close>

lemma acts_bounds:
  assumes "acts E s f t" and "g_cols (f (grid E s)) = cs" and "i < length cs"
  shows "i < length (sp_columns t)" and "length (c_tiles (sp_columns t ! i)) = length (fst (cs ! i))"
proof -
  show i: "i < length (sp_columns t)" using acts_length [OF assms(1)] assms(2,3) by simp
  show "length (c_tiles (sp_columns t ! i)) = length (fst (cs ! i))"
    using acts_cell [OF assms(1) i] assms(2) by (simp add: column_tiles_cell [of _ E])
qed

lemma swap_tiles_acts:
  assumes inv: "space_inv E s" and sc: "sc < length (sp_columns s)" and tc: "tc < length (sp_columns s)"
    and dir: "tc = (if right then sc + 1 else sc - 1)" "sc \<noteq> tc"
    and many: "\<not> (length (c_tiles (sp_columns s ! sc)) = 1 \<and> length (c_tiles (sp_columns s ! tc)) = 1)"
  shows "runs (do {
          let drained = (length (c_tiles (sp_columns s ! sc)) = 1);
          let sa = c_active_tile_idx (sp_columns s ! sc);
          let ta = c_active_tile_idx (sp_columns s ! tc);
          (r, s) \<leftarrow> remove_tile_by_idx E sc sa None s;
          let atc = (if right \<and> drained then tc - 1 else tc);
          s \<leftarrow> add_tile_to_column E atc (Some ta) (rm_tile r) False s;
          (q, s) \<leftarrow> remove_tile_by_idx E atc (ta + 1) None s;
          s \<leftarrow> (if drained then add_tile E (Some sc) (rm_tile q) True (rm_width r) (rm_is_full_width r) None s
                else add_tile_to_column E sc (Some sa) (rm_tile q) False s);
          s \<leftarrow> with_column sc (set_active_tile sa) s;
          s \<leftarrow> with_column tc (set_active_tile ta) s;
          s \<leftarrow> animate_swapped E (sc, sa) (tc, ta) x y s;
          activate_column E tc s }) (acts E s (g_swap_tiles right sc tc))"
proof -
  let ?S = "sp_columns s ! sc" and ?T = "sp_columns s ! tc"
  define sa ta drained atc where "sa = c_active_tile_idx ?S" and "ta = c_active_tile_idx ?T"
    and "drained = (length (c_tiles ?S) = 1)" and "atc = (if right \<and> drained then tc - 1 else tc)"
  define sids tids where "sids = column_ids E ?S" and "tids = column_ids E ?T"
  note P = space_partsD(3) [OF space_inv_parts [OF inv]]
  let ?g = "grid E s"
  define g1 g2 g3 g4 where "g1 = g_remove_tile sc sa ?g" and "g2 = g_add_to atc (Some ta) (sids ! sa) False g1"
    and "g3 = g_remove_tile atc (ta + 1) g2"
    and "g4 = (if length sids = 1 then g_add sc ([tids ! ta], 0) True g3 else g_add_to sc (Some sa) (tids ! ta) False g3)"
  have S: "g_cols ?g ! sc = (sids, sa)" "sa < length sids" "sa < length (c_tiles ?S)" "length sids = length (c_tiles ?S)"
    using sc column_invD(2) [OF P [OF sc]] by (simp_all add: sids_def sa_def column_cell_def)
  have T: "g_cols ?g ! tc = (tids, ta)" "ta < length tids" "length tids = length (c_tiles ?T)"
    using tc column_invD(2) [OF P [OF tc]] by (simp_all add: tids_def ta_def column_cell_def)
  have len: "sc < length (g_cols ?g)" "tc < length (g_cols ?g)" using sc tc by simp_all
  have m: "\<not> (length sids = 1 \<and> length tids = 1)" using many S(4) T(3) by simp
  have atc': "atc = (if right \<and> length sids = 1 then tc - 1 else tc)" using S(4) by (simp add: atc_def drained_def)
  note steps = g_swap_steps [OF len dir S(1,2) T(1,2) m atc' g1_def g2_def g3_def g4_def]
  have none: "option_ok anim_config_ok None" by simp
  obtain r s1 where s1: "remove_tile_by_idx E sc sa None s = Some (r, s1)" "acts E s (g_remove_tile sc sa) s1"
    "tile_taken E s (sids ! sa) r"
    using remove_tile_acts [OF inv sc S(3) none] by (auto simp: sids_def elim!: runsE)
  have a1: "acts E s (\<lambda>_. g1) s1" using s1(2) by (simp add: acts_def g1_def)
  have atc1: "atc < length (sp_columns s1)" "length (c_tiles (sp_columns s1 ! atc)) = length tids"
    using acts_bounds [OF a1 refl] steps(1) by simp_all
  obtain s2 where s2: "add_tile_to_column E atc (Some ta) (rm_tile r) False s1 = Some s2"
    "acts E s1 (g_add_to atc (Some ta) (sids ! sa) False) s2"
    using runsD [OF add_tile_to_acts [OF acts_inv [OF a1] atc1(1) s1(3), of "Some ta" False]] atc1(2) T(2) by auto
  have a2: "acts E s (\<lambda>_. g2) s2" using acts_trans [OF a1 s2(2)] by (simp add: g2_def)
  have "atc < length (g_cols g2)" using steps(1,2) by simp
  then have atc2: "atc < length (sp_columns s2)" "ta + 1 < length (c_tiles (sp_columns s2 ! atc))"
    using acts_bounds [OF a2 refl] steps(1,2) T(2) by simp_all
  have id2: "column_ids E (sp_columns s2 ! atc) ! (ta + 1) = tids ! ta"
  proof -
    have "column_cell E (sp_columns s2 ! atc) = g_cols g2 ! atc" by (rule acts_cell [OF a2 atc2(1)])
    then have "column_ids E (sp_columns s2 ! atc) = list_insert ta (sids ! sa) tids"
      using steps(1,2) by (simp add: column_cell_def)
    moreover have "list_insert ta (sids ! sa) tids ! (ta + 1) = tids ! ta"
      by (subst list_insert_nth) (use T(2) in simp_all)
    ultimately show ?thesis by (simp only:)
  qed
  obtain q s3 where s3: "remove_tile_by_idx E atc (ta + 1) None s2 = Some (q, s3)"
    "acts E s2 (g_remove_tile atc (ta + 1)) s3" "tile_taken E s2 (tids ! ta) q"
    using runsD [OF remove_tile_acts [OF acts_inv [OF a2] atc2 none]] id2 by auto
  have a3: "acts E s (\<lambda>_. g3) s3" using acts_trans [OF a2 s3(2)] by (simp add: g3_def)
  have env23: "space_env s2 s3" using s3(2) by (simp add: acts_def)
  have "runs (if drained then add_tile E (Some sc) (rm_tile q) True (rm_width r) (rm_is_full_width r) None s3
      else add_tile_to_column E sc (Some sa) (rm_tile q) False s3) (acts E s (\<lambda>_. g4))"
  proof (cases drained)
    case True
    have "sc \<le> length (sp_columns s3)"
      using acts_length [OF a3] steps(1,3) g1_def True len S(1,4) by (auto simp: g_remove_tile_length drained_def)
    from add_tile_acts [OF acts_inv [OF a3] this s3(3) env23 none, of True "rm_width r" "rm_is_full_width r"] True
    show ?thesis using S(4) by (auto simp: drained_def g4_def elim!: runs_mono dest: acts_trans [OF a3])
  next
    case False
    have atc: "atc = tc" using False by (simp add: atc_def)
    have g3: "sc < length (g_cols g3)" "length (fst (g_cols g3 ! sc)) = length sids - 1"
      using steps(3) False S len dir(2) atc by (auto simp: g1_def g_remove_tile_cols drained_def length_list_remove)
    have "sc < length (sp_columns s3)" "sa \<le> length (c_tiles (sp_columns s3 ! sc))"
      using acts_bounds [OF a3 refl] g3 S(2) by simp_all
    from add_tile_to_acts [OF acts_inv [OF a3] this(1) s3(3), of "Some sa" False] this(2) False
    show ?thesis using S(4) by (auto simp: drained_def g4_def elim!: runs_mono dest: acts_trans [OF a3])
  qed
  then obtain s4 where s4: "(if drained then add_tile E (Some sc) (rm_tile q) True (rm_width r) (rm_is_full_width r) None s3
      else add_tile_to_column E sc (Some sa) (rm_tile q) False s3) = Some s4" "acts E s (\<lambda>_. g4) s4"
    by (rule runsE)
  obtain a b where g4: "g_cols g4 = (g_cols ?g)[sc := (sids[sa := tids ! ta], a), tc := (tids[ta := sids ! sa], b)]"
    using steps(4) by blast
  have B: "sc < length (sp_columns s4)" "length (c_tiles (sp_columns s4 ! sc)) = length sids"
    "tc < length (sp_columns s4)" "length (c_tiles (sp_columns s4 ! tc)) = length tids"
    using acts_bounds [OF s4(2) g4] len dir(2) by simp_all
  have sa4: "sa < length (c_tiles (sp_columns s4 ! sc))" using B(2) S(2) by simp
  obtain s5 where s5: "with_column sc (set_active_tile sa) s4 = Some s5" "acts E s4 (g_set_active sc sa) s5"
    by (rule runsE [OF set_active_tile_acts [OF acts_inv [OF s4(2)] B(1) sa4]])
  have a5: "acts E s (\<lambda>_. g_set_active sc sa g4) s5" using acts_trans [OF s4(2) s5(2)] by simp
  have c5: "g_cols (g_set_active sc sa g4) = (g_cols ?g)[sc := (sids[sa := tids ! ta], sa), tc := (tids[ta := sids ! sa], b)]"
    using g4 len dir(2) by (simp add: list_update_swap)
  have B5: "tc < length (sp_columns s5)" "ta < length (c_tiles (sp_columns s5 ! tc))"
    using acts_bounds [OF a5 c5, of tc] len T(2) by simp_all
  obtain s6 where s6: "with_column tc (set_active_tile ta) s5 = Some s6" "acts E s5 (g_set_active tc ta) s6"
    by (rule runsE [OF set_active_tile_acts [OF acts_inv [OF a5] B5]])
  have a6: "acts E s (\<lambda>_. g_set_active tc ta (g_set_active sc sa g4)) s6" using acts_trans [OF a5 s6(2)] by simp
  have c6: "g_cols (g_set_active tc ta (g_set_active sc sa g4)) =
      (g_cols ?g)[sc := (sids[sa := tids ! ta], sa), tc := (tids[ta := sids ! sa], ta)]"
    unfolding g_set_active_cols [of tc] c5 using len by simp
  have B6: "sc < length (sp_columns s6)" "sa < length (c_tiles (sp_columns s6 ! sc))"
    "tc < length (sp_columns s6)" "ta < length (c_tiles (sp_columns s6 ! tc))"
    using acts_bounds [OF a6 c6] len dir(2) S(2) T(2) by simp_all
  obtain s7 where s7: "animate_swapped E (sc, sa) (tc, ta) x y s6 = Some s7" "acts E s6 id s7"
    by (rule runsE [OF animate_swapped_acts [OF acts_inv [OF a6] B6]])
  have a7: "acts E s (\<lambda>_. g_set_active tc ta (g_set_active sc sa g4)) s7" using acts_trans [OF a6 s7(2)] by simp
  have tc7: "tc < length (sp_columns s7)" using B6(3) acts_idD(5) [OF s7(2)] by simp
  have fin: "acts E s (g_swap_tiles right sc tc) s8" if "acts E s7 (g_activate tc) s8" for s8
  proof (rule acts_weaken [OF acts_trans [OF a7 that]])
    show "g_activate tc (g_set_active tc ta (g_set_active sc sa g4)) = g_swap_tiles right sc tc ?g"
      by (simp add: g_swap_tiles_def S(1) T(1) Let_def g4_def g3_def g2_def g1_def atc' del: grid_simps)
  qed
  have "runs (activate_column E tc s7) (acts E s (g_swap_tiles right sc tc))"
    by (rule runs_mono [OF activate_column_acts [OF acts_inv [OF a7] tc7]]) (rule fin)
  then show ?thesis
    unfolding Let_def sa_def [symmetric] ta_def [symmetric] drained_def [symmetric] atc_def [symmetric]
      s1(1) s2(1) s3(1) s4(1) s5(1) s6(1) s7(1) Option.bind.bind_lunit prod.case .
qed

end

lemma acts_id_trans: "acts E s f t \<Longrightarrow> acts E t id u \<Longrightarrow> acts E s f u"
  using acts_trans [of E s f t id u] by simp

context layout_element
begin

lemma swap_acts:
  assumes inv: "space_inv E s"
  shows "runs (swap_window_in_direction E d s) (acts E s (g_swap d))"
proof -
  let ?sc = "sp_active_column_idx s"
  let ?tc = "case d of ScrollLeft \<Rightarrow> ?sc - 1 | ScrollRight \<Rightarrow> ?sc + 1"
  consider "sp_columns s = []" | "sp_columns s \<noteq> []" "d = ScrollLeft \<and> ?sc = 0"
    | "sp_columns s \<noteq> []" "d = ScrollRight \<and> ?sc = length (sp_columns s) - 1"
    | "sp_columns s \<noteq> []" "\<not> (d = ScrollLeft \<and> ?sc = 0)" "\<not> (d = ScrollRight \<and> ?sc = length (sp_columns s) - 1)"
    by blast
  then show ?thesis
  proof cases
    case 4
    note parts = space_inv_parts [OF inv]
    note sc = space_core_active [OF space_inv_core [OF inv] 4(1)]
    have tc: "?tc < length (sp_columns s)" "?sc \<noteq> ?tc" using 4 sc by (cases d; auto)+
    have dir: "?tc = (if d = ScrollRight then ?sc + 1 else ?sc - 1)" by (cases d) simp_all
    let ?S = "sp_columns s ! ?sc" and ?T = "sp_columns s ! ?tc"
    have get: "vec_get (sp_columns s) ?sc = Some ?S" "vec_get (sp_columns s) ?tc = Some ?T"
      using sc tc by (simp_all add: vec_get_def)
    have lens: "length (fst (map (column_cell E) (sp_columns s) ! ?sc)) = length (c_tiles ?S)"
      "length (fst (map (column_cell E) (sp_columns s) ! ?tc)) = length (c_tiles ?T)"
      using sc tc(1) by (simp_all add: column_cell_def)
    have g: "g_swap d (grid E s) = (if length (c_tiles ?S) = 1 \<and> length (c_tiles ?T) = 1 then g_move_col ?tc (grid E s)
        else g_swap_tiles (d = ScrollRight) ?sc ?tc (grid E s))"
    proof -
      have c: "\<not> (g_cols (grid E s) = [] \<or> d = ScrollLeft \<and> g_active (grid E s) = 0 \<or>
          d = ScrollRight \<and> g_active (grid E s) = length (g_cols (grid E s)) - 1)"
        using 4 by auto
      show ?thesis unfolding g_swap_def if_not_P [OF c] unfolding Let_def grid_simps lens ..
    qed
    show ?thesis
    proof (cases "length (c_tiles ?S) = 1 \<and> length (c_tiles ?T) = 1")
      case True
      have "runs (move_column_to E ?tc s) (acts E s (g_swap d))"
        by (rule runs_mono [OF move_column_to_acts [OF inv 4(1) tc(1)]]) (use g True in \<open>simp add: acts_def\<close>)
      then show ?thesis
        unfolding swap_window_in_direction_def Let_def if_not_P [OF 4(1)] if_not_P [OF 4(2)] if_not_P [OF 4(3)]
          get Option.bind.bind_lunit if_P [OF True] .
    next
      case False
      have off: "tile_offset (c_active_tile_idx c) c = Some (tile_offsets c ! c_active_tile_idx c)"
        if "column_inv E c" for c
        using column_invD(2) [OF that] by (intro tile_offset_Some [OF that]) simp
      note off' = off [OF space_partsD(3) [OF parts sc]] off [OF space_partsD(3) [OF parts tc(1)]]
      note x = space_reads(1) [OF parts less_imp_le [OF sc]] space_reads(1) [OF parts less_imp_le [OF tc(1)]]
      note swap = swap_tiles_acts [OF inv sc tc(1) dir tc(2) False, unfolded Let_def]
      have "runs (swap_window_in_direction E d s) (acts E s (g_swap_tiles (d = ScrollRight) ?sc ?tc))"
        unfolding swap_window_in_direction_def Let_def if_not_P [OF 4(1)] if_not_P [OF 4(2)] if_not_P [OF 4(3)]
          get Option.bind.bind_lunit if_not_P [OF False] off' x
        by (rule swap)
      then show ?thesis by (rule runs_mono) (use g [unfolded if_not_P [OF False]] in \<open>simp add: acts_def\<close>)
    qed
  qed (use inv in \<open>simp_all add: swap_window_in_direction_def acts_def g_swap_def\<close>)
qed

text \<open>Updating the cached width of a column whose width has not changed.\<close>

lemma update_data_acts:
  assumes inv: "space_inv E s" and i: "i < length (sp_columns s)"
  shows "runs (update_data i s) (acts E s id)"
proof -
  note P = space_partsD [OF space_inv_parts [OF inv]]
  have "s\<lparr>sp_columns := (sp_columns s)[i := sp_columns s ! i]\<rparr> = s" by simp
  with update_data_ok [OF space_inv_parts [OF inv] i P(3) [OF i]] have
    "runs (update_data i s) (\<lambda>s'. \<exists>d. s' = s\<lparr>sp_columns := sp_columns s, sp_data := (sp_data s)[i := d]\<rparr> \<and> space_parts E s')"
    by simp
  then show ?thesis
  proof (rule runs_mono, elim exE conjE)
    fix s' d
    assume s': "s' = s\<lparr>sp_columns := sp_columns s, sp_data := (sp_data s)[i := d]\<rparr>" and parts: "space_parts E s'"
    have "space_inv E s'"
      using inv parts by (simp add: space_inv_def space_core_def s')
    then show "acts E s id s'" by (simp add: acts_def s')
  qed
qed

lemma set_sizing_acts:
  assumes inv: "space_inv E s" and has: "space_has E w s"
    and mode: "\<And>b c. column_inv E c \<Longrightarrow> b \<longrightarrow> length (c_tiles c) = 1 \<or> is_tabbed c \<Longrightarrow>
       runs (set_mode b c) (\<lambda>c'. column_op E c c' \<and> c_active_tile_idx c' = c_active_tile_idx c)"
  shows "runs (set_sizing E pend set_mode w b s) (\<lambda>(changed, s').
     acts E s id s' \<or> b \<and> changed \<and> acts E s (g_consume_or_expel_right (Some w)) s')"
proof -
  obtain ci where ci: "space_column_of E w s = Some ci" using has by (auto simp: space_column_of_has)
  then have c: "ci < length (sp_columns s)" "column_contains E w (sp_columns s ! ci)"
    using vec_position_SomeD [of "column_contains E w" "sp_columns s" ci] by (simp_all add: space_column_of_def)
  have ne: "sp_columns s \<noteq> []" using c(1) by auto
  let ?c = "sp_columns s ! ci"
  have get: "vec_get (sp_columns s) ci = Some ?c" using c(1) by (simp add: vec_get_def)
  show ?thesis
  proof (cases "b = pend ?c")
    case True
    with ci get inv show ?thesis by (simp add: set_sizing_def acts_refl)
  next
    case False
    have set: "runs (do { s \<leftarrow> with_column k (set_mode b) t; s \<leftarrow> update_data k s; Some (True, s) })
        (\<lambda>(b, s'). b \<and> acts E t id s')"
      if t: "space_inv E t" "k < length (sp_columns t)"
        and k: "b \<longrightarrow> length (c_tiles (sp_columns t ! k)) = 1 \<or> is_tabbed (sp_columns t ! k)" for t k
    proof -
      have "runs (with_column k (set_mode b) t) (acts E t id)"
        by (rule with_column_cosmetic_acts [OF t], rule mode [OF space_partsD(3) [OF space_inv_parts [OF t(1)] t(2)] k])
      then have "runs (do { s \<leftarrow> with_column k (set_mode b) t; update_data k s }) (acts E t id)"
        by (rule runs_acts_id) (use t in \<open>auto intro!: update_data_acts simp: acts_idD intro: acts_idD(1)\<close>)
      then show ?thesis by simp
    qed
    obtain s1 where s1: "cancel_resize_at E ci s = Some s1" "acts E s id s1"
      "sp_columns s1 ! ci = column_cancel_resize E ?c"
      using runsD [OF cancel_resize_at_acts [OF inv c(1)]] c(1) get
      by (auto simp: cancel_resize_at_def)
    note I1 = acts_idD [OF s1(2)]
    have c1: "ci < length (sp_columns s1)" "length (c_tiles (sp_columns s1 ! ci)) = length (c_tiles ?c)"
      "is_tabbed (sp_columns s1 ! ci) = is_tabbed ?c"
      using c(1) I1(5) s1(3) by (simp_all add: column_cancel_resize_def is_tabbed_def)
    have has1: "targets E s1 (Some w)"
    proof -
      have "column_cell E (sp_columns s1 ! ci) = column_cell E ?c" using acts_cell [OF s1(2) c1(1)] c(1) by simp
      then show ?thesis using c c1(1) by (auto simp: targets_def space_has_def column_contains_cell intro!: bexI [OF _ nth_mem])
    qed
    show ?thesis
    proof (cases "b \<and> length (c_tiles ?c) > 1 \<and> \<not> is_tabbed ?c")
      case False
      have "b \<longrightarrow> length (c_tiles (sp_columns s1 ! ci)) = 1 \<or> is_tabbed (sp_columns s1 ! ci)"
      proof -
        have "length (c_tiles ?c) = 1 \<or> length (c_tiles ?c) > 1" using column_nonempty [OF inv c(1)] by linarith
        with False c1 show ?thesis by auto
      qed
      from set [OF I1(1) c1(1) this] have
        "runs (do { s \<leftarrow> with_column ci (set_mode b) s1; s \<leftarrow> update_data ci s; Some (True, s) }) (\<lambda>(b, s'). acts E s id s')"
        by (rule runs_mono) (auto dest: acts_id_trans [OF s1(2)])
      then show ?thesis
        unfolding set_sizing_def ci get s1(1) Option.bind.bind_lunit if_not_P [OF \<open>b \<noteq> pend ?c\<close>] if_not_P [OF False]
          prod.case
        by (rule runs_mono) auto
    next
      case True
      obtain s2 where s2: "consume_or_expel_window_right E (Some w) s1 = Some s2"
        "acts E s1 (g_consume_or_expel_right (Some w)) s2"
        by (rule runsE [OF consume_or_expel_right_acts [OF I1(1) has1]])
      have a2: "acts E s (g_consume_or_expel_right (Some w)) s2"
        using acts_trans [OF s1(2) s2(2)] by simp
      have "option_ok (\<lambda>w. space_has E w s) (Some w)" using has by simp
      then obtain ci' ti where src': "source_of E (Some w) s = Some (ci', ti)" by (rule source_of_has [OF inv ne])
      have "ci' = ci" using src' ci get by (auto simp: source_of_def bind_eq_Some_conv)
      then have src: "g_source (Some w) (grid E s) = Some (ci, ti)"
        using src' source_of_grid [OF inv ne, of "Some w"] by simp
      have "length (fst (g_cols (grid E s) ! ci)) \<noteq> 1" using True grid_tiles [OF c(1), of E] by simp
      then have g: "g_consume_or_expel_right (Some w) (grid E s) = g_expel ci ti (ci + 1)
          (g_active (grid E s) = ci \<and> snd (g_cols (grid E s) ! ci) = ti) (grid E s)"
        using ne src by (simp add: g_consume_or_expel_right_def Let_def)
      have k: "ci + 1 < length (g_cols (g_expel ci ti (ci + 1) x (grid E s))) \<and>
          fst (g_cols (g_expel ci ti (ci + 1) x (grid E s)) ! (ci + 1)) = [fst (g_cols (grid E s) ! ci) ! ti]" for x
        using c(1) True grid_tiles [OF c(1), of E]
        by (simp add: g_expel_def g_add_cols g_remove_tile_cols nth_append)
      have b2: "ci + 1 < length (sp_columns s2)" "length (c_tiles (sp_columns s2 ! (ci + 1))) = 1"
        using acts_bounds [OF a2 refl, of "ci + 1"] k unfolding g by auto
      from set [OF acts_inv [OF a2] b2(1)] b2(2) have
        "runs (do { s \<leftarrow> with_column (ci + 1) (set_mode b) s2; s \<leftarrow> update_data (ci + 1) s; Some (True, s) })
          (\<lambda>(b, s'). b \<and> acts E s (g_consume_or_expel_right (Some w)) s')"
        by (auto elim!: runs_mono dest: acts_trans [OF a2])
      then show ?thesis
        unfolding set_sizing_def ci get s1(1) Option.bind.bind_lunit if_not_P [OF \<open>b \<noteq> pend ?c\<close>] if_P [OF True] s2(1)
          prod.case
        by (rule runs_mono) (use True in auto)
    qed
  qed
qed

lemma set_modes_act:
  assumes "space_inv E s" and "space_has E w s"
  shows "runs (set_fullscreen E w b s) (\<lambda>(changed, s').
     acts E s id s' \<or> b \<and> changed \<and> acts E s (g_consume_or_expel_right (Some w)) s')"
    and "runs (set_maximized E w b s) (\<lambda>(changed, s').
     acts E s id s' \<or> b \<and> changed \<and> acts E s (g_consume_or_expel_right (Some w)) s')"
  unfolding set_fullscreen_def set_maximized_def
  by (rule set_sizing_acts [OF assms column_set_modes_ok(1)]; assumption)
     (rule set_sizing_acts [OF assms column_set_modes_ok(2)]; assumption)

end

end
