(* ===== verification/Layout_Scrolling_Snap.thy ===== *)
theory Layout_Scrolling_Snap
  imports Layout_Scrolling_Refine
begin

text \<open>
  The gestures of the scrolling layout never panic and keep the invariant; the end of a gesture snaps
  to an existing column (\<^verbatim>\<open>src/layout/scrolling.rs\<close>).
\<close>

definition clock_fits :: "('w, 'id) LayoutEnv \<Rightarrow> bool" where
  "clock_fits E \<longleftrightarrow> av_now_unadjusted (le_anim E) + HISTORY_LIMIT \<le> DURATION_MAX"

section \<open>Beginning and moving\<close>

lemma acts_view:
  assumes "space_inv E s" and "vo_ok vo" shows "acts E s id (s\<lparr>sp_view_offset := vo\<rparr>)"
  by (rule acts_cosmetic [OF assms(1) space_cosmetic_view [OF space_inv_parts [OF assms(1)] assms(2)]])

lemma acts_no_resize: "acts E s f t \<Longrightarrow> acts E s f (t\<lparr>sp_interactive_resize := None\<rparr>)"
  by (simp add: acts_def)

lemma gesture_new_ok: "vo_ok (VGesture (gesture_new E b t vo))"
  by (simp add: gesture_new_def swipe_new_inv)

lemma space_vo_ok: "space_inv E s \<Longrightarrow> vo_ok (sp_view_offset s)"
  by (simp add: space_inv_def space_core_def space_parts_def)

lemma gesture_begin_acts:
  assumes "space_inv E s"
  shows "acts E s id (view_offset_gesture_begin E b s)" and "acts E s id (dnd_scroll_gesture_begin E s)"
proof -
  show "acts E s id (view_offset_gesture_begin E b s)"
    unfolding view_offset_gesture_begin_def
    using acts_view [OF assms gesture_new_ok [of E b None "sp_view_offset s"]] acts_refl [OF assms] by simp
  have "acts E s id ((s\<lparr>sp_view_offset := VGesture (gesture_new E False (Some (av_now_unadjusted (le_anim E)))
      (sp_view_offset s))\<rparr>)\<lparr>sp_interactive_resize := None\<rparr>)"
    by (rule acts_no_resize [OF acts_view [OF assms gesture_new_ok]])
  then show "acts E s id (dnd_scroll_gesture_begin E s)"
    unfolding dnd_scroll_gesture_begin_def using acts_refl [OF assms] by simp
qed

lemma gesture_update_acts:
  assumes inv: "space_inv E s" and ts: "ts + HISTORY_LIMIT \<le> DURATION_MAX"
  shows "runs (view_offset_gesture_update d ts b s) (\<lambda>(_, s'). acts E s id s')"
proof (cases "sp_view_offset s")
  case (VGesture g)
  have "swipe_inv (vg_tracker g)" using space_vo_ok [OF inv] VGesture by simp
  note push = swipe_push_ok [OF this ts]
  show ?thesis
    unfolding view_offset_gesture_update_def VGesture ViewOffset.case
    using acts_refl [OF inv]
    by (auto simp: Let_def runs_if intro!: runs_mono [OF push] acts_view [OF inv])
qed (simp_all add: view_offset_gesture_update_def acts_refl inv)

lemma sum_widths_ok:
  assumes "\<forall>c \<in> set cs. column_inv E c" shows "runs (sum_widths s cs) (\<lambda>_. True)"
proof -
  have "\<exists>ws. map_opt column_px_width cs = Some ws"
    using assms by (induction cs) (auto dest: column_px_width_total)
  then show ?thesis by (auto simp: sum_widths_def)
qed

lemma space_columns_inv: "space_parts E s \<Longrightarrow> \<forall>c \<in> set (sp_columns s). column_inv E c"
  using space_partsD(3) by (metis in_set_conv_nth)

lemma dnd_scroll_range_ok:
  assumes "space_inv E s" shows "runs (dnd_scroll_range s) (\<lambda>_. True)"
proof -
  note P = space_inv_parts [OF assms]
  have "runs (sum_widths s (take k (sp_columns s))) (\<lambda>_. True)" for k
    by (rule sum_widths_ok [where E = E]) (use space_columns_inv [OF P] in \<open>auto dest: in_set_takeD\<close>)
  then show ?thesis
    using space_partsD(2) [OF P]
    by (auto simp: dnd_scroll_range_def Let_def runs_if intro!: runs_mono)
qed

lemma dnd_scroll_acts:
  assumes inv: "space_inv E s" and clock: "clock_fits E"
  shows "runs (dnd_scroll_gesture_scroll E delta s) (\<lambda>(_, s'). acts E s id s')"
proof (cases "sp_view_offset s")
  case (VGesture g)
  have sw: "swipe_inv (vg_tracker g)" using space_vo_ok [OF inv] VGesture by simp
  show ?thesis
  proof (cases "vg_dnd_last_event_time g")
    case None
    then show ?thesis
      by (simp add: dnd_scroll_gesture_scroll_def VGesture acts_refl inv)
  next
    case (Some t)
    note push = swipe_push_ok [OF sw clock [unfolded clock_fits_def]]
    have clamp: "runs (clamp_checked (min a b) (max a b) x) (\<lambda>_. True)" for a b x
      by (simp add: clamp_checked_def)
    show ?thesis
      unfolding dnd_scroll_gesture_scroll_def VGesture ViewOffset.case Some option.case Let_def
      using acts_view [OF inv] sw
      by (auto simp: runs_if intro!: runs_mono [OF push] runs_mono [OF dnd_scroll_range_ok [OF inv]]
          runs_mono [OF clamp])
  qed
qed (simp_all add: dnd_scroll_gesture_scroll_def acts_refl inv)

section \<open>Snapping\<close>

lemma centered_snaps_ok:
  assumes "\<forall>c \<in> set cs. column_inv E c"
  shows "runs (centered_snaps s i x cs) (\<lambda>snaps. length snaps = length cs \<and>
     (\<forall>(p, k) \<in> set snaps. i \<le> k \<and> k < i + length cs))"
  using assms
proof (induction cs arbitrary: i x)
  case (Cons c cs)
  obtain w where w: "column_px_width c = Some w"
    using Cons.prems column_px_width_total [of E c] by auto
  have ih: "runs (centered_snaps s (i + 1) y cs) (\<lambda>snaps. length snaps = length cs \<and>
     (\<forall>(p, k) \<in> set snaps. i + 1 \<le> k \<and> k < i + 1 + length cs))" for y
    by (rule Cons.IH) (use Cons.prems in simp)
  show ?case
    unfolding centered_snaps.simps Let_def runs_bind w runs_Some
    by (rule runs_mono [OF ih]) auto
qed simp

lemma padding_gaps_ok:
  assumes "0 \<le> g"
  shows "runs (if m then Some 0 else clamp_checked 0 g x) (\<lambda>_. True)"
  using assms by (simp add: clamp_checked_def)

lemma snap_points_ok:
  assumes "column_inv E c" and "0 \<le> space_gaps s"
  shows "runs (snap_points s x c pw nw) (\<lambda>_. True)"
proof -
  obtain w where w: "column_px_width c = Some w"
    using assms(1) column_px_width_total [of E c] by auto
  show ?thesis
    unfolding snap_points_def w Option.bind.bind_lunit Let_def
    using padding_gaps_ok [OF assms(2)] by (auto simp: runs_if elim!: runs_mono)
qed

lemma width_at_ok:
  assumes "space_parts E s" shows "runs (width_at s i) (\<lambda>_. True)"
  using space_partsD(3) [OF assms, of i] column_px_width_total [of E "sp_columns s ! i"]
  by (auto simp: width_at_def)

lemma prev_width_ok:
  assumes "space_parts E s" shows "runs (prev_width s i) (\<lambda>_. True)"
  using width_at_ok [OF assms] by (simp add: prev_width_def)

lemma column_snaps_ok:
  assumes "space_parts E s" and "\<forall>c \<in> set cs. column_inv E c"
  shows "runs (column_snaps s l r i x cs) (\<lambda>snaps. \<forall>(p, k) \<in> set snaps. i \<le> k \<and> k < i + length cs)"
  using assms(2)
proof (induction cs arbitrary: i x)
  case (Cons c cs)
  obtain w where w: "column_px_width c = Some w"
    using Cons.prems column_px_width_total [of E c] by auto
  have ih: "runs (column_snaps s l r (i + 1) y cs) (\<lambda>snaps. \<forall>(p, k) \<in> set snaps. i + 1 \<le> k \<and> k < i + 1 + length cs)" for y
    by (rule Cons.IH) (use Cons.prems in simp)
  have sp: "runs (snap_points s x c pw nw) (\<lambda>_. True)" for pw nw
    by (rule snap_points_ok [where E = E]) (use Cons.prems space_partsD(6) [OF assms(1)] in simp_all)
  have nonempty: "\<And>P. (\<forall>(p, k) \<in> set (xs @ ys @ zs). P k) \<longleftrightarrow>
      (\<forall>(p, k) \<in> set xs. P k) \<and> (\<forall>(p, k) \<in> set ys. P k) \<and> (\<forall>(p, k) \<in> set zs. P k)" for xs ys zs :: "Snap list"
    by auto
  show ?case
    unfolding column_snaps.simps Let_def runs_bind runs_case_prod
    apply (rule runs_mono [OF prev_width_ok [OF assms(1)]])
    apply (rule runs_mono [OF width_at_ok [OF assms(1)]])
    apply (rule runs_mono [OF sp])
    apply (simp only: w runs_Some split_def)
    apply (rule runs_mono [OF ih])
    apply auto
    done
qed simp

lemma snapping_points_ok:
  assumes "space_parts E s" and "sp_columns s \<noteq> []"
  shows "runs (snapping_points s) (\<lambda>snaps. snaps \<noteq> [] \<and> (\<forall>(p, k) \<in> set snaps. k < length (sp_columns s)))"
proof -
  note cols = space_columns_inv [OF assms(1)]
  have len: "0 < length (sp_columns s)" using assms(2) by simp
  have last: "length (sp_columns s) - 1 < length (sp_columns s)" using len by simp
  have sp: "runs (snap_points s x (sp_columns s ! k) pw nw) (\<lambda>_. True)" if "k < length (sp_columns s)" for x k pw nw
    by (rule snap_points_ok [OF space_partsD(3) [OF assms(1) that] space_partsD(6) [OF assms(1)]])
  have sw: "runs (sum_widths s (take k (sp_columns s))) (\<lambda>_. True)" for k
    by (rule sum_widths_ok [where E = E]) (use cols in \<open>auto dest: in_set_takeD\<close>)
  have cent: "runs (centered_snaps s 0 0 (sp_columns s))
     (\<lambda>snaps. snaps \<noteq> [] \<and> (\<forall>(p, k) \<in> set snaps. k < length (sp_columns s)))"
    by (rule runs_mono [OF centered_snaps_ok [OF cols]]) (use len in auto)
  show ?thesis
    unfolding snapping_points_def
  proof (cases "is_centering_focused_column s", simp_all only: if_True if_False cent)
    case False
    show "runs (do {
        first \<leftarrow> vec_get (sp_columns s) 0;
        nw \<leftarrow> width_at s 1;
        (leftmost_snap, _) \<leftarrow> snap_points s 0 first None nw;
        let last_col_idx = length (sp_columns s) - 1;
        last_col_x \<leftarrow> sum_widths s (take last_col_idx (sp_columns s));
        last \<leftarrow> vec_get (sp_columns s) last_col_idx;
        pw \<leftarrow> prev_width s last_col_idx;
        (_, right) \<leftarrow> snap_points s last_col_x last pw None;
        let rightmost_snap = right - sw (sp_view_size s);
        snaps \<leftarrow> column_snaps s leftmost_snap rightmost_snap 0 0 (sp_columns s);
        Some ((leftmost_snap, 0) # (rightmost_snap, last_col_idx) # snaps) })
      (\<lambda>snaps. snaps \<noteq> [] \<and> (\<forall>(p, k) \<in> set snaps. k < length (sp_columns s)))"
      unfolding Let_def runs_bind runs_case_prod runs_vec_get
      apply (rule conjI [OF len])
      apply (rule runs_mono [OF width_at_ok [OF assms(1)]])
      apply (rule runs_mono [OF sp [OF len]])
      apply (unfold split_def runs_bind runs_vec_get)
      apply (rule runs_mono [OF sw])
      apply (rule conjI [OF last])
      apply (rule runs_mono [OF prev_width_ok [OF assms(1)]])
      apply (rule runs_mono [OF sp [OF last]])
      apply (rule runs_mono [OF column_snaps_ok [OF assms(1) cols]])
      using len last by (auto simp: split_def)
  qed
qed

lemma min_by_set: "min_by f xs = Some y \<Longrightarrow> y \<in> set xs"
  by (induction xs arbitrary: y) (auto split: option.splits if_splits)

lemma min_by_mem: "xs \<noteq> [] \<Longrightarrow> \<exists>x \<in> set xs. min_by f xs = Some x"
  by (cases "min_by f xs") (auto dest: min_by_set simp: neq_Nil_conv split: option.splits)

lemma furthest_ok:
  assumes "\<And>i. i \<in> set is \<Longrightarrow> runs (stops i) (\<lambda>_. True)"
  shows "runs (furthest stops k is) (\<lambda>r. r = k \<or> r \<in> set is)"
  using assms
proof (induction "is" arbitrary: k)
  case (Cons i "is")
  have "runs (furthest stops i is) (\<lambda>r. r = i \<or> r \<in> set is)" by (rule Cons.IH) (use Cons.prems in simp)
  then show ?case
    using Cons.prems [of i] by (auto simp: runs_if elim!: runs_mono)
qed simp

lemma hidden_ok:
  assumes "space_parts E s" and "i < length (sp_columns s)"
  shows "runs (hidden_right s p i) (\<lambda>_. True)" and "runs (hidden_left s p i) (\<lambda>_. True)"
proof -
  note w = space_partsD(5) [OF assms]
  note x = column_x_Some [OF assms(1) less_imp_le [OF assms(2)]]
  note g = padding_gaps_ok [OF space_partsD(6) [OF assms(1)]]
  have get: "vec_get (sp_columns s) i = Some (sp_columns s ! i)" using assms(2) by (simp add: vec_get_def)
  show "runs (hidden_right s p i) (\<lambda>_. True)"
    unfolding hidden_right_def get x w Option.bind.bind_lunit Let_def
    using g by (auto simp: runs_if elim!: runs_mono)
  show "runs (hidden_left s p i) (\<lambda>_. True)"
    unfolding hidden_left_def get x w Option.bind.bind_lunit Let_def
    using g by (auto simp: runs_if elim!: runs_mono)
qed

lemma gesture_snap_ok:
  assumes "space_core E s" and "sp_columns s \<noteq> []"
  shows "runs (gesture_snap c t s) (\<lambda>(p, k). k < length (sp_columns s))"
proof -
  note P = space_core_parts [OF assms(1)]
  note x = column_x_Some [OF P space_core_active_le [OF assms(1)]]
  show ?thesis
    unfolding gesture_snap_def runs_bind
  proof (rule runs_mono [OF snapping_points_ok [OF P assms(2)]], elim conjE)
    fix snaps :: "Snap list"
    assume ne: "snaps \<noteq> []" and b: "\<forall>(p, k) \<in> set snaps. k < length (sp_columns s)"
    let ?f = "\<lambda>(p, _). \<bar>p - (column_xs s ! sp_active_column_idx s + t)\<bar>"
    have "sort_key fst snaps \<noteq> []" using ne by (metis set_empty set_sort)
    from min_by_mem [OF this, of ?f] b obtain p k where
      m: "min_by ?f (sort_key fst snaps) = Some (p, k)" and k: "k < length (sp_columns s)" by auto
    have R: "runs (furthest (hidden_right s p) k [k + 1 ..< length (sp_columns s)]) (\<lambda>r. r < length (sp_columns s))"
      by (rule runs_mono [OF furthest_ok]) (use k in \<open>auto intro: hidden_ok [OF P]\<close>)
    have L: "runs (furthest (hidden_left s p) k (rev [0 ..< k])) (\<lambda>r. r < length (sp_columns s))"
      by (rule runs_mono [OF furthest_ok]) (use k in \<open>auto intro: hidden_ok [OF P]\<close>)
    show "runs (let snaps = sort_key fst snaps in do {
          active_col_x \<leftarrow> column_x (sp_active_column_idx s) s;
          let target_view_pos = active_col_x + t;
          (snap_pos, col_idx) \<leftarrow> min_by (\<lambda>(p, _). \<bar>p - target_view_pos\<bar>) snaps;
          new_col_idx \<leftarrow>
            (if is_centering_focused_column s then Some col_idx
             else if t \<ge> c
             then furthest (hidden_right s snap_pos) col_idx [col_idx + 1 ..< length (sp_columns s)]
             else furthest (hidden_left s snap_pos) col_idx (rev [0 ..< col_idx]));
          Some (snap_pos, new_col_idx) }) (\<lambda>(p, k). k < length (sp_columns s))"
      unfolding Let_def x Option.bind.bind_lunit m prod.case runs_bind runs_if runs_Some
      using k R L by simp
  qed
qed

section \<open>The end of a gesture\<close>

text \<open>
  A gesture may end at another column. Unlike every other change of focus this one keeps the note
  that the previous column is to be activated on removal.
\<close>

definition g_end_at :: "nat \<Rightarrow> 'id Grid \<Rightarrow> 'id Grid" where
  "g_end_at k g = g\<lparr>g_active := k\<rparr>"

lemma space_core_end_at:
  assumes "space_inv E s" and "k < length (sp_columns s)"
  shows "acts E s (g_end_at k) (s\<lparr>sp_active_column_idx := k,
     sp_view_offset_to_restore := (if sp_active_column_idx s \<noteq> k then None else sp_view_offset_to_restore s)\<rparr>)"
  using assms space_partsD(2) [OF space_inv_parts [OF assms(1)]]
  by (auto simp: acts_def g_end_at_def grid_def space_inv_def space_core_def restore_ok_def
      resize_present_cong [of _ s E] space_parts_def cols_ok_def column_fits_def space_env_def
      resize_present_def list_all2_conv_all_nth split: option.split)

lemma animate_to_column_acts:
  assumes inv: "space_inv E s" and k: "k < length (sp_columns s)"
  shows "runs (animate_view_offset_to_column E None k None s)
    (\<lambda>s'. acts E s id s' \<and> sp_columns s' = sp_columns s \<and> shows_column s k (vo_target (sp_view_offset s')))"
proof -
  note P = space_inv_parts [OF inv]
  show ?thesis
    unfolding animate_view_offset_to_column_def
    by (rule runs_mono [OF animate_view_to_column_ok(1) [OF P space_core_active_le [OF space_inv_core [OF inv]] k
          space_partsD(7) [OF P]]])
       (auto intro: acts_cosmetic [OF inv])
qed

lemma gesture_end_acts:
  assumes inv: "space_inv E s" and clock: "clock_fits E"
  shows "runs (view_offset_gesture_end E b s) (\<lambda>(_, s').
     acts E s id s' \<or> (\<exists>k < length (sp_columns s). acts E s (g_end_at k) s'))"
proof (cases "sp_view_offset s")
  case (VGesture g)
  have sw: "swipe_inv (vg_tracker g)" using space_vo_ok [OF inv] VGesture by simp
  note push = swipe_push_ok [OF sw clock [unfolded clock_fits_def]]
  note P = space_inv_parts [OF inv]
  note core = space_inv_core [OF inv]
  have main: "runs (do {
        (snap_pos, new_col_idx) \<leftarrow> gesture_snap c t s;
        active_col_x \<leftarrow> column_x (sp_active_column_idx s) s;
        new_col_x \<leftarrow> column_x new_col_idx s;
        let delta = active_col_x - new_col_x;
        let s = (if sp_active_column_idx s \<noteq> new_col_idx
                 then s\<lparr>sp_view_offset_to_restore := None\<rparr> else s);
        let s = s\<lparr>sp_active_column_idx := new_col_idx\<rparr>;
        a \<leftarrow> anim_new (le_anim E) (c + delta) (snap_pos - new_col_x) v (view_movement_config s);
        s \<leftarrow> animate_view_offset_to_column E None new_col_idx None (s\<lparr>sp_view_offset := VAnimation a\<rparr>);
        Some (True, s) })
     (\<lambda>(_, s'). acts E s id s' \<or> (\<exists>k < length (sp_columns s). acts E s (g_end_at k) s'))"
    if ne: "sp_columns s \<noteq> []" for c t v
  proof (rule runs_seq [OF gesture_snap_ok [OF core ne]], erule case_prodE, simp only: prod.case)
    fix p k assume k: "k < length (sp_columns s)"
    define u where "u = s\<lparr>sp_active_column_idx := k,
       sp_view_offset_to_restore := (if sp_active_column_idx s \<noteq> k then None else sp_view_offset_to_restore s)\<rparr>"
    have u: "acts E s (g_end_at k) u" unfolding u_def by (rule space_core_end_at [OF inv k])
    have eq: "(if sp_active_column_idx s \<noteq> k then s\<lparr>sp_view_offset_to_restore := None\<rparr> else s)
        \<lparr>sp_active_column_idx := k\<rparr> = u"
      by (simp add: u_def)
    have ku: "k < length (sp_columns (u\<lparr>sp_view_offset := VAnimation a\<rparr>))" for a using k by (simp add: u_def)
    have ua: "acts E u id (u\<lparr>sp_view_offset := VAnimation a\<rparr>)" for a
      by (rule acts_view [OF acts_inv [OF u]]) simp
    have cfg: "anim_config_ok (view_movement_config u)"
      by (rule space_partsD(7) [OF space_inv_parts [OF acts_inv [OF u]]])
    have fin: "runs (animate_view_offset_to_column E None k None (u\<lparr>sp_view_offset := VAnimation a\<rparr>))
        (acts E s (g_end_at k))" for a
      by (rule runs_mono [OF animate_to_column_acts [OF acts_inv [OF ua] ku]])
         (elim conjE, rule acts_id_trans [OF acts_id_trans [OF u ua]])
    have x: "column_x k s = Some (column_xs s ! k)"
      "column_x (sp_active_column_idx s) s = Some (column_xs s ! sp_active_column_idx s)"
      using column_x_Some [OF P] k space_core_active_le [OF core] by simp_all
    show "runs (do {
        active_col_x \<leftarrow> column_x (sp_active_column_idx s) s;
        new_col_x \<leftarrow> column_x k s;
        let delta = active_col_x - new_col_x;
        let s = (if sp_active_column_idx s \<noteq> k
                 then s\<lparr>sp_view_offset_to_restore := None\<rparr> else s);
        let s = s\<lparr>sp_active_column_idx := k\<rparr>;
        a \<leftarrow> anim_new (le_anim E) (c + delta) (p - new_col_x) v (view_movement_config s);
        s \<leftarrow> animate_view_offset_to_column E None k None (s\<lparr>sp_view_offset := VAnimation a\<rparr>);
        Some (True, s) })
     (\<lambda>(_, s'). acts E s id s' \<or> (\<exists>k < length (sp_columns s). acts E s (g_end_at k) s'))"
      unfolding x Option.bind.bind_lunit Let_def eq runs_bind runs_Some
      by (rule runs_mono [OF runs_anim_new [OF cfg]], rule runs_mono [OF fin]) (use k in auto)
  qed
  have static: "acts E s id (s\<lparr>sp_view_offset := VStatic c\<rparr>)" for c by (rule acts_view [OF inv]) simp
  have no: "runs (Some (False, s)) (\<lambda>(_, s').
     acts E s id s' \<or> (\<exists>k < length (sp_columns s). acts E s (g_end_at k) s'))"
    using acts_refl [OF inv] by simp
  show ?thesis
    unfolding view_offset_gesture_end_def VGesture ViewOffset.case runs_if
  proof (intro if_bool_eq_conj [THEN iffD2] conjI impI no)
    show "runs (do {
            tr \<leftarrow> swipe_push 0 (av_now_unadjusted (le_anim E)) (vg_tracker g);
            let norm_factor = gesture_norm_factor s g;
            vel \<leftarrow> swipe_velocity tr;
            let velocity = vel * norm_factor;
            let pos = sw_pos tr * norm_factor;
            let current_view_offset = pos + vg_delta_from_tracker g;
            if sp_columns s = []
            then Some (True, s\<lparr>sp_view_offset := VStatic current_view_offset\<rparr>)
            else do {
              end_pos \<leftarrow> swipe_projected_end_pos tr;
              let target_view_offset = end_pos * norm_factor + vg_delta_from_tracker g;
              (snap_pos, new_col_idx) \<leftarrow> gesture_snap current_view_offset target_view_offset s;
              active_col_x \<leftarrow> column_x (sp_active_column_idx s) s;
              new_col_x \<leftarrow> column_x new_col_idx s;
              let delta = active_col_x - new_col_x;
              let s = (if sp_active_column_idx s \<noteq> new_col_idx
                       then s\<lparr>sp_view_offset_to_restore := None\<rparr> else s);
              let s = s\<lparr>sp_active_column_idx := new_col_idx\<rparr>;
              a \<leftarrow> anim_new (le_anim E) (current_view_offset + delta) (snap_pos - new_col_x) velocity
                     (view_movement_config s);
              s \<leftarrow> animate_view_offset_to_column E None new_col_idx None (s\<lparr>sp_view_offset := VAnimation a\<rparr>);
              Some (True, s) } })
     (\<lambda>(_, s'). acts E s id s' \<or> (\<exists>k < length (sp_columns s). acts E s (g_end_at k) s'))"
    proof (rule runs_seq [OF push], unfold Let_def, rule runs_seq [OF swipe_velocity_ok], assumption)
      fix tr vel assume tr: "swipe_inv tr"
      note m = main [unfolded Let_def]
      show "runs (if sp_columns s = []
            then Some (True, s\<lparr>sp_view_offset := VStatic (sw_pos tr * gesture_norm_factor s g + vg_delta_from_tracker g)\<rparr>)
            else do {
              end_pos \<leftarrow> swipe_projected_end_pos tr;
              (snap_pos, new_col_idx) \<leftarrow> gesture_snap (sw_pos tr * gesture_norm_factor s g + vg_delta_from_tracker g)
                 (end_pos * gesture_norm_factor s g + vg_delta_from_tracker g) s;
              active_col_x \<leftarrow> column_x (sp_active_column_idx s) s;
              new_col_x \<leftarrow> column_x new_col_idx s;
              a \<leftarrow> anim_new (le_anim E)
                    (sw_pos tr * gesture_norm_factor s g + vg_delta_from_tracker g + (active_col_x - new_col_x))
                    (snap_pos - new_col_x) (vel * gesture_norm_factor s g)
                    (view_movement_config ((if sp_active_column_idx s \<noteq> new_col_idx
                       then s\<lparr>sp_view_offset_to_restore := None\<rparr> else s)\<lparr>sp_active_column_idx := new_col_idx\<rparr>));
              s \<leftarrow> animate_view_offset_to_column E None new_col_idx None
                    (((if sp_active_column_idx s \<noteq> new_col_idx
                       then s\<lparr>sp_view_offset_to_restore := None\<rparr> else s)\<lparr>sp_active_column_idx := new_col_idx\<rparr>)
                      \<lparr>sp_view_offset := VAnimation a\<rparr>);
              Some (True, s) })
         (\<lambda>(_, s'). acts E s id s' \<or> (\<exists>k < length (sp_columns s). acts E s (g_end_at k) s'))"
      proof (cases "sp_columns s = []")
        case True
        then show ?thesis using static by simp
      next
        case False
        show ?thesis
          unfolding if_not_P [OF False]
          by (rule runs_seq [OF swipe_projected_ok [OF tr] m [OF False]])
      qed
    qed
  qed
qed (simp_all add: view_offset_gesture_end_def acts_refl inv)

lemma dnd_scroll_end_acts:
  assumes inv: "space_inv E s" and clock: "clock_fits E"
  shows "runs (dnd_scroll_gesture_end E s) (\<lambda>s'.
     acts E s id s' \<or> (\<exists>k < length (sp_columns s). acts E s (g_end_at k) s'))"
proof (cases "sp_view_offset s")
  case (VGesture g)
  define u where "u = s\<lparr>sp_view_offset := (case vg_animation g of
     Some anim \<Rightarrow> VAnimation (anim_offset (vg_current_view_offset g) anim)
   | None \<Rightarrow> VStatic (vg_delta_from_tracker g))\<rparr>"
  have u: "acts E s id u" unfolding u_def by (rule acts_view [OF inv]) (simp split: option.split)
  have "runs (animate_view_offset_to_column E None (sp_active_column_idx u) None u) (acts E s id)"
    if "sp_columns u \<noteq> []"
    by (rule runs_mono [OF animate_to_column_acts [OF acts_inv [OF u]
          space_core_active [OF space_inv_core [OF acts_inv [OF u]] that]]])
       (elim conjE, rule acts_id_trans [OF u])
  then have a: "runs (if sp_columns u \<noteq> [] then animate_view_offset_to_column E None (sp_active_column_idx u) None u
      else Some u) (acts E s id)"
    using u by simp
  have e: "runs (map_option snd (view_offset_gesture_end E None s)) (\<lambda>s'.
     acts E s id s' \<or> (\<exists>k < length (sp_columns s). acts E s (g_end_at k) s'))"
    unfolding runs_map_option by (rule runs_mono [OF gesture_end_acts [OF inv clock]]) (simp only: split_def)
  show ?thesis
    unfolding dnd_scroll_gesture_end_def VGesture ViewOffset.case Let_def runs_if
    unfolding VGesture [symmetric] u_def [symmetric] runs_if [symmetric]
    by (rule if_split [THEN iffD2], intro conjI impI, rule runs_mono [OF a], rule disjI1, assumption, rule e)
qed (simp_all add: dnd_scroll_gesture_end_def acts_refl inv)

end
