(* ===== verification/Layout_Scrolling_Commit.thy ===== *)
theory Layout_Scrolling_Commit
  imports Layout_Scrolling_Snap
begin

text \<open>
  What comes from outside: the commit of a window and a new configuration
  (\<^verbatim>\<open>ScrollingSpace::update_window\<close>, \<^verbatim>\<open>update_config\<close>). Neither panics, both keep the invariant and
  neither moves a window or the focus.
\<close>

section \<open>A commit\<close>

text \<open>
  While a commit is processed, a saved offset may belong to a column that is back to normal. The rest
  of the invariant holds all along.
\<close>

definition committed :: "('w, 'id) LayoutEnv \<Rightarrow> ('w, 'id) Space \<Rightarrow> ('w, 'id) Space \<Rightarrow> bool" where
  "committed E s s' \<longleftrightarrow> space_core E s' \<and> resize_present E s' \<and> space_env s s' \<and> grid E s' = grid E s \<and>
     sp_interactive_resize s' = sp_interactive_resize s \<and>
     sp_view_offset_to_restore s' = sp_view_offset_to_restore s"

lemma committed_cosmetic:
  assumes "committed E s t" and "space_cosmetic E t u" shows "committed E s u"
proof -
  note D = space_cosmeticD [OF assms(2)]
  have u: "sp_interactive_resize u = sp_interactive_resize t"
    "sp_view_offset_to_restore u = sp_view_offset_to_restore t" "space_env t u"
    using assms(2) by (simp_all add: space_cosmetic_def)
  show ?thesis
    using assms(1) u D(8) space_cosmetic_core [OF assms(2)] space_cosmetic_resize [OF assms(2)]
      space_env_trans [of s t u]
    by (simp add: committed_def)
qed

lemma committed_acts:
  assumes "committed E s t" and "acts E t id u" shows "acts E s id u"
  using assms space_env_trans [of s t u] by (simp add: committed_def acts_def)

lemma committed_restored:
  assumes "committed E s t" and "restore_ok t" shows "acts E s id t"
  using assms by (simp add: committed_def acts_def space_inv_def)

text \<open>The changed column with its new width.\<close>

lemma committed_column:
  assumes inv: "space_inv E s" and i: "i < length (sp_columns s)"
    and c: "column_inv E c" "column_fixed (sp_columns s ! i) c" "column_cell E c = column_cell E (sp_columns s ! i)"
  shows "runs (update_data i (s\<lparr>sp_columns := (sp_columns s)[i := c]\<rparr>)) (\<lambda>t. committed E s t \<and>
     (\<exists>ds. t = s\<lparr>sp_columns := (sp_columns s)[i := c], sp_data := ds\<rparr>))"
proof (rule runs_mono [OF update_data_ok [OF space_inv_parts [OF inv] i c(1,2)]], elim exE conjE)
  fix t d assume t: "t = s\<lparr>sp_columns := (sp_columns s)[i := c], sp_data := (sp_data s)[i := d]\<rparr>"
    and parts: "space_parts E t"
  have cells: "map (column_cell E) ((sp_columns s)[i := c]) = map (column_cell E) (sp_columns s)"
    using c(3) i by (simp add: column_cells_update map_update list_update_same_conv)
  have "space_core E t" using inv parts by (auto simp: space_inv_def space_core_def t)
  moreover have "grid E t = grid E s" unfolding t by (simp add: grid_def cells)
  moreover have "resize_present E t"
  proof -
    have sel: "sp_columns t = (sp_columns s)[i := c]" "sp_interactive_resize t = sp_interactive_resize s"
      by (simp_all add: t)
    show ?thesis using inv by (simp only: space_inv_def resize_present_cells sel cells)
  qed
  ultimately show "committed E s t \<and> (\<exists>ds. t = s\<lparr>sp_columns := (sp_columns s)[i := c], sp_data := ds\<rparr>)"
    by (auto simp: committed_def t space_env_def)
qed

lemma follow_resize_ok:
  assumes "space_core E s" and "ci < length (sp_columns s)"
  shows "runs (follow_resize ci off r s) (\<lambda>s'. \<exists>vo. vo_ok vo \<and> s' = s\<lparr>sp_view_offset := vo\<rparr>)"
proof -
  have vo: "vo_ok (sp_view_offset s)" using assms(1) by (simp add: space_core_def space_parts_def)
  then have c: "vo_ok (vo_cancel_gesture (sp_view_offset s))" by (cases "sp_view_offset s") simp_all
  have len: "ci < length (sp_data s)" using assms space_partsD(2) [OF space_core_parts] by metis
  show ?thesis
  proof (cases "if off \<noteq> 0 then r else None")
    case None
    with vo show ?thesis by (simp add: follow_resize_def) (metis Space.surjective Space.update_convs(5))
  next
    case (Some a)
    define vo where "vo = vo_offset (if is_centering_focused_column s
        then - (sw (r_size (sp_working_area s)) - cd_width (sp_data s ! ci)) / 2 -
             px (r_loc (sp_working_area s)) - vo_target (vo_cancel_gesture (sp_view_offset s))
        else if edge_left (ird_edges a) then - off else 0) (vo_cancel_gesture (sp_view_offset s))"
    have "follow_resize ci off r s = Some (s\<lparr>sp_view_offset := vo\<rparr>)"
      using Some len by (simp add: follow_resize_def Let_def vec_get_def vo_def is_centering_focused_column_def)
    moreover have "vo_ok vo" using c by (simp add: vo_def)
    ultimately show ?thesis by auto
  qed
qed

lemma space_core_offset [simp]:
  "vo_ok vo \<Longrightarrow> space_core E s \<Longrightarrow> space_core E (s\<lparr>sp_view_offset := vo\<rparr>)"
  by (rule space_cosmetic_core [OF space_cosmetic_view [OF space_core_parts]])

lemma update_active_view_ok:
  assumes core: "space_core E s" and res: "resize_present E s" and ne: "sp_columns s \<noteq> []"
    and was: "sp_view_offset_to_restore s \<noteq> None \<Longrightarrow> \<not> was_normal"
  shows "runs (update_active_view E (sp_active_column_idx s) was_normal b off r s) (acts E s id)"
proof -
  let ?a = "sp_active_column_idx s"
  have a: "?a < length (sp_columns s)" by (rule space_core_active [OF core ne])
  obtain vo where f: "follow_resize ?a off r s = Some (s\<lparr>sp_view_offset := vo\<rparr>)" and vo: "vo_ok vo"
    using runsD [OF follow_resize_ok [OF core a, of off r]] by auto
  define n where "n = is_normal (column_sizing_mode (sp_columns s ! ?a))"
  define rest where "rest = (if was_normal \<and> \<not> n then Some (vo_stationary vo)
     else if \<not> was_normal \<and> n then None else sp_view_offset_to_restore s)"
  define u where "u = s\<lparr>sp_view_offset := vo, sp_view_offset_to_restore := rest\<rparr>"
  define un where "un = (if \<not> was_normal \<and> n then sp_view_offset_to_restore s else None)"
  define cfg where "cfg = (if b then acs_window_resize (op_animations (sp_options u)) else view_movement_config u)"
  have core_u: "space_core E u" using core vo by (simp add: u_def)
  have rest: "rest \<noteq> None \<Longrightarrow> \<not> n" using was by (auto simp: rest_def split: if_splits)
  then have "restore_ok u" using ne by (auto simp: u_def n_def restore_ok_def)
  moreover have "resize_present E u" using res resize_present_cong [of u s E] by (simp add: u_def)
  ultimately have inv: "space_inv E u" using core_u by (simp add: space_inv_def)
  then have u: "acts E s id u" by (simp add: acts_def u_def grid_def space_env_def)
  have cfg_ok: "anim_config_ok cfg"
    using space_partsD(7,9) [OF space_inv_parts [OF inv]] by (simp add: cfg_def)
  have au: "?a = sp_active_column_idx u" "sp_columns u = sp_columns s" by (simp_all add: u_def)
  have first: "runs (case un of None \<Rightarrow> Some u
      | Some prev_offset \<Rightarrow> animate_view_offset_with_config E ?a prev_offset cfg u) (acts E s id)"
  proof (cases un)
    case (Some p)
    show ?thesis
      unfolding Some option.case
      by (rule runs_mono [OF animate_view_ok [OF space_inv_parts [OF inv] space_core_active_le [OF core_u] _ cfg_ok]])
         (use a au in \<open>auto intro: acts_id_trans [OF u acts_cosmetic [OF inv]]\<close>)
  qed (simp add: u)
  have second: "runs (animate_view_offset_to_column_with_config E None ?a None cfg t) (acts E s id)"
    if t: "acts E s id t" for t
  proof -
    note it = acts_inv [OF t]
    show ?thesis
      by (rule runs_mono [OF animate_view_to_column_ok(1) [OF space_inv_parts [OF it]
            space_core_active_le [OF space_inv_core [OF it]] _ cfg_ok]])
         (use a acts_idD(5) [OF t] in \<open>auto intro: acts_id_trans [OF t acts_cosmetic [OF it]]\<close>)
  qed
  have eq: "update_active_view E ?a was_normal b off r s =
      (if sp_interactive_resize u = None \<and> \<not> vo_is_gesture (sp_view_offset u)
       then do { t \<leftarrow> (case un of None \<Rightarrow> Some u
                        | Some prev_offset \<Rightarrow> animate_view_offset_with_config E ?a prev_offset cfg u);
                 animate_view_offset_to_column_with_config E None ?a None cfg t }
       else Some u)"
  proof -
    define s0 where "s0 = s\<lparr>sp_view_offset := vo\<rparr>"
    have get: "vec_get (sp_columns s0) ?a = Some (sp_columns s ! ?a)" using a by (simp add: vec_get_def s0_def)
    have pair: "(if \<not> was_normal \<and> n
        then (sp_view_offset_to_restore (if was_normal \<and> \<not> n
                then s0\<lparr>sp_view_offset_to_restore := Some (vo_stationary (sp_view_offset s0))\<rparr> else s0),
              (if was_normal \<and> \<not> n
                then s0\<lparr>sp_view_offset_to_restore := Some (vo_stationary (sp_view_offset s0))\<rparr> else s0)
                 \<lparr>sp_view_offset_to_restore := None\<rparr>)
        else (None, if was_normal \<and> \<not> n
                then s0\<lparr>sp_view_offset_to_restore := Some (vo_stationary (sp_view_offset s0))\<rparr> else s0)) = (un, u)"
      by (cases was_normal; cases n) (simp_all add: s0_def u_def rest_def un_def)
    show ?thesis
      unfolding update_active_view_def f [folded s0_def] Option.bind.bind_lunit get Let_def n_def [symmetric]
        pair prod.case cfg_def ..
  qed
  show ?thesis
    unfolding eq using u runs_seq [OF first second] by simp
qed

context layout_element
begin

lemma commit_column_ok:
  assumes inv: "column_inv E c" and pos: "column_position E i c = Some k"
  shows "runs (column_update_window E i (c\<lparr>c_tiles := (c_tiles c)[k := (case serial of
       None \<Rightarrow> c_tiles c ! k | Some n \<Rightarrow> set_window (el_on_commit E n (tl_window (c_tiles c ! k))) (c_tiles c ! k))]\<rparr>))
     (\<lambda>c'. column_inv E c' \<and> column_fixed c c' \<and> column_cell E c' = column_cell E c)"
proof -
  note k = column_position_SomeD [OF pos]
  define w where "w = (case serial of None \<Rightarrow> tl_window (c_tiles c ! k)
     | Some n \<Rightarrow> el_on_commit E n (tl_window (c_tiles c ! k)))"
  have id: "el_id E w = i" using k by (simp add: w_def commit_id split: option.split)
  have req: "same_requests E (tl_window (c_tiles c ! k)) w"
    using commit_requests by (simp add: w_def same_requests_def split: option.split)
  have eq: "c\<lparr>c_tiles := (c_tiles c)[k := (case serial of
       None \<Rightarrow> c_tiles c ! k | Some n \<Rightarrow> set_window (el_on_commit E n (tl_window (c_tiles c ! k))) (c_tiles c ! k))]\<rparr> =
     column_with_window k w c"
    by (simp add: column_with_window_def w_def split: option.split)
  show ?thesis
    unfolding eq using column_update_window_ok [OF inv _ _ req, unfolded id, OF conjunct1 [OF k] pos]
    by (rule runs_mono) (simp add: column_cell_def)
qed

lemma tile_sizes_cosmetic:
  assumes "column_inv E c" shows "runs (update_tile_sizes E an c) (column_cosmetic E c)"
  by (rule runs_mono [OF update_tile_sizes_ok [OF column_inv_pre [OF assms]]])
     (auto dest: column_requested_ids intro!: column_cosmeticI)

lemma move_in_tandem_ok:
  assumes parts: "space_parts E s" and i: "i < length (sp_columns s)"
  shows "runs (move_in_tandem E i r off s) (space_cosmetic E s)"
proof -
  define move where "move = (\<lambda>off c. if r then column_animate_move_from_with_config E off
       (acs_window_resize (op_animations (sp_options s))) c else Some (column_offset_move_anim_current E off c))"
  have f: "runs (move d c) (column_cosmetic E c)" if "column_fits E s c" for d c
  proof -
    have c: "column_inv E c" using that by (simp add: column_fits_def)
    have "column_cosmetic E c (column_offset_move_anim_current E d c)"
      using c by (intro column_cosmeticI) (simp_all add: column_offset_move_anim_current_def column_env_defs)
    with column_animate_cosmetic [OF space_partsD(9) [OF parts] c] show ?thesis by (simp add: move_def)
  qed
  have "runs (map_slice lo hi (move d) (sp_columns s)) (\<lambda>cs. space_cosmetic E s (s\<lparr>sp_columns := cs\<rparr>))"
    if "lo \<le> hi" "hi \<le> length (sp_columns s)" for lo hi d
    by (rule map_slice_cosmetic [OF parts that f])
  then show ?thesis
    using i space_cosmetic_refl [OF parts]
    by (simp add: move_in_tandem_def Let_def move_def [symmetric] runs_if)
qed

lemma move_tiles_cosmetic:
  assumes "column_inv E c"
  shows "runs (if p \<noteq> point_zero
      then do { ts \<leftarrow> map_opt (animate_move_from E p) (c_tiles c); Some (c\<lparr>c_tiles := ts\<rparr>) }
      else Some c) (column_cosmetic E c)"
proof -
  have "runs (map_opt (animate_move_from E p) (drop 0 (c_tiles c)))
      (\<lambda>ts. column_op E c (c\<lparr>c_tiles := take 0 (c_tiles c) @ ts\<rparr>))"
    by (rule column_tail_ok [OF assms]) (rule animate_move_from_ok)
  then have "runs (map_opt (animate_move_from E p) (c_tiles c)) (\<lambda>ts. column_cosmetic E c (c\<lparr>c_tiles := ts\<rparr>))"
    unfolding drop_0 by (rule runs_mono) (auto intro: column_cosmeticI)
  then show ?thesis using column_cosmetic_refl [OF assms] by (simp add: runs_if)
qed

lemma update_window_acts:
  assumes inv: "space_inv E s" and has: "space_has E w s"
  shows "runs (update_window E w serial s) (acts E s id)"
proof -
  note P = space_partsD [OF space_inv_parts [OF inv]]
  obtain i where i: "space_column_of E w s = Some i" using has by (auto simp: space_column_of_has)
  then have il: "i < length (sp_columns s)" and ic: "column_contains E w (sp_columns s ! i)"
    using vec_position_SomeD [of "column_contains E w" "sp_columns s" i] by (simp_all add: space_column_of_def)
  let ?c = "sp_columns s ! i"
  obtain k where k: "column_position E w ?c = Some k"
    using ic vec_position_None [of "\<lambda>t. el_id E (tl_window t) = w" "c_tiles ?c"]
    by (auto simp: column_contains_def column_position_def simp flip: not_None_eq)
  note kl = conjunct1 [OF column_position_SomeD [OF k]]
  obtain c1 where c1: "column_update_window E w (?c\<lparr>c_tiles := (c_tiles ?c)[k := (case serial of
       None \<Rightarrow> c_tiles ?c ! k | Some n \<Rightarrow> set_window (el_on_commit E n (tl_window (c_tiles ?c ! k))) (c_tiles ?c ! k))]\<rparr>) =
       Some c1" "column_inv E c1" "column_fixed ?c c1" "column_cell E c1 = column_cell E ?c"
    using runsD [OF commit_column_ok [OF P(3) [OF il] k, of serial]] by auto
  obtain s1 ds where s1: "update_data i (s\<lparr>sp_columns := (sp_columns s)[i := c1]\<rparr>) = Some s1"
    "committed E s s1" "s1 = s\<lparr>sp_columns := (sp_columns s)[i := c1], sp_data := ds\<rparr>"
    using runsD [OF committed_column [OF inv il c1(2-4)]] by auto
  have core1: "space_core E s1" using s1(2) by (simp add: committed_def)
  note parts1 = space_core_parts [OF core1]
  have i1: "i < length (sp_columns s1)" using il s1(3) by simp
  have cos: "runs (with_column i f t) (space_cosmetic E s1)"
    if t: "space_cosmetic E s1 t" and f: "\<And>c. column_inv E c \<Longrightarrow> runs (f c) (column_cosmetic E c)" for f t
  proof -
    have p: "space_parts E t" by (rule space_cosmetic_parts [OF t parts1])
    have it: "i < length (sp_columns t)" using i1 space_cosmeticD(1) [OF t] by simp
    show ?thesis
      by (rule runs_mono, rule with_column_cosmetic [OF p it], rule f [OF space_partsD(3) [OF p it]])
         (rule space_cosmetic_trans [OF t])
  qed
  obtain s2 where s2: "with_column i (update_tile_sizes E False) s1 = Some s2" "space_cosmetic E s1 s2"
    by (rule runsE [OF cos [OF space_cosmetic_refl [OF parts1] tile_sizes_cosmetic]])
  note D2 = space_cosmeticD [OF s2(2)]
  have i2: "i < length (sp_columns s2)" using i1 D2(1) by simp
  have parts2: "space_parts E s2" by (rule space_cosmetic_parts [OF s2(2) parts1])
  have k2: "vec_get (c_tiles (sp_columns s2 ! i)) k = Some (c_tiles (sp_columns s2 ! i) ! k)"
  proof -
    have "column_cell E (sp_columns s2 ! i) = column_cell E ?c"
      using D2(3) [OF i1] c1(4) il s1(3) by (simp add: column_cosmetic_def)
    then have "length (c_tiles (sp_columns s2 ! i)) = length (c_tiles ?c)" by (rule column_cell_length)
    with kl show ?thesis by (simp add: vec_get_def)
  qed
  define off where "off = cd_width (sp_data s ! i) - cd_width (sp_data s2 ! i)"
  define r where "r = (tl_resize_animation (c_tiles (sp_columns s2 ! i) ! k) \<noteq> None)"
  obtain s3 where s3: "move_in_tandem E i r off s2 = Some s3" "space_cosmetic E s2 s3"
    by (rule runsE [OF move_in_tandem_ok [OF parts2 i2]])
  note s13 = space_cosmetic_trans [OF s2(2) s3(2)]
  define mv where "mv = (\<lambda>column. let origin_delta = point_sub (tiles_origin ?c) (tiles_origin column)
                 in if origin_delta \<noteq> point_zero
                    then do { ts \<leftarrow> map_opt (animate_move_from E origin_delta) (c_tiles column);
                              Some (column\<lparr>c_tiles := ts\<rparr>) }
                    else Some column)"
  have mv: "runs (mv c) (column_cosmetic E c)" if "column_inv E c" for c
    unfolding mv_def Let_def by (rule move_tiles_cosmetic [OF that])
  obtain s4 where s4: "with_column i mv s3 = Some s4" "space_cosmetic E s1 s4"
    by (rule runsE [OF cos [OF s13 mv]])
  note D4 = space_cosmeticD [OF s4(2)]
  note com = committed_cosmetic [OF s1(2) s4(2)]
  define was where "was = is_normal (column_sizing_mode ?c)"
  have a4: "sp_active_column_idx s4 = sp_active_column_idx s" using D4(7) s1(3) by simp
  have ne4: "sp_columns s4 \<noteq> []" using D4(1) i1 by auto
  have fin: "runs (if i = sp_active_column_idx s4
      then update_active_view E i was r off (el_interactive_resize_data E (tl_window (c_tiles ?c ! k))) s4
      else Some s4) (acts E s id)"
  proof (cases "i = sp_active_column_idx s4")
    case True
    have "runs (update_active_view E (sp_active_column_idx s4) was r off
        (el_interactive_resize_data E (tl_window (c_tiles ?c ! k))) s4) (acts E s4 id)"
    proof (rule update_active_view_ok [OF _ _ ne4])
      show "space_core E s4" "resize_present E s4" using com by (simp_all add: committed_def)
      assume "sp_view_offset_to_restore s4 \<noteq> None"
      then have "sp_view_offset_to_restore s \<noteq> None" using com by (simp add: committed_def)
      then show "\<not> was" using inv True a4 by (simp add: was_def space_inv_def restore_ok_def)
    qed
    then show ?thesis using True committed_acts [OF com] by (auto elim!: runs_mono)
  next
    case False
    have al: "sp_active_column_idx s < length (sp_columns s)"
      by (rule space_core_active [OF space_inv_core [OF inv]]) (use il in auto)
    have "column_sizing_mode (sp_columns s4 ! sp_active_column_idx s) =
        column_sizing_mode (sp_columns s ! sp_active_column_idx s)"
      using D4(4) [of "sp_active_column_idx s"] al False a4 s1(3) by simp
    then have "restore_ok s4"
      using inv com ne4 a4 by (auto simp: space_inv_def restore_ok_def committed_def)
    with False committed_restored [OF com] show ?thesis by simp
  qed
  have get: "vec_get (sp_columns s) i = Some ?c" "vec_get (c_tiles ?c) k = Some (c_tiles ?c ! k)"
    "vec_get (sp_data s) i = Some (sp_data s ! i)" "vec_get (sp_data s2) i = Some (sp_data s2 ! i)"
    "vec_get (sp_columns s2) i = Some (sp_columns s2 ! i)"
    using il kl P(2) i2 space_partsD(2) [OF parts2] by (simp_all add: vec_get_def)
  show ?thesis
    unfolding update_window_def i Option.bind.bind_lunit get k Let_def c1(1) s1(1) s2(1) k2
      off_def [symmetric] r_def [symmetric] s3(1) was_def [symmetric]
    unfolding mv_def [unfolded Let_def, symmetric] s4(1) Option.bind.bind_lunit
    by (rule fin)
qed

end

section \<open>A new configuration\<close>

lemma space_new_inv: "options_ok opts \<Longrightarrow> space_inv E (space_new E vs pa sc opts)"
  by (simp add: space_new_def space_inv_def space_core_def space_parts_def cols_ok_def restore_ok_def
      resize_present_def)

lemma grid_new: "grid E (space_new E vs pa sc opts) = \<lparr>g_cols = [], g_active = 0, g_prev = False\<rparr>"
  by (simp add: space_new_def grid_def)

definition space_reconfigured ::
    "Size \<Rightarrow> Rect \<Rightarrow> real \<Rightarrow> Options \<Rightarrow> ('w, 'id) Space \<Rightarrow> bool" where
  "space_reconfigured vs pa sc opts s \<longleftrightarrow> sp_view_size s = vs \<and> sp_parent_area s = pa \<and> sp_scale s = sc \<and>
     sp_options s = opts"

context layout_element
begin

lemma update_columns_ok:
  assumes parts: "space_parts E s" and opts: "options_ok opts"
    and tall: "\<forall>c \<in> set (sp_columns s). reconfigurable E opts c"
  shows "runs (map_opt (\<lambda>(c, d). do {
            c \<leftarrow> column_update_config E vs wa pa sc opts c;
            d \<leftarrow> column_data_update c d;
            Some (c, d) }) (zip (sp_columns s) (sp_data s)))
     (\<lambda>cds. list_all2 (\<lambda>(c0, _) (c, d). column_inv E c \<and> c_options c = opts \<and> c_scale c = sc \<and>
        c_view_size c = vs \<and> c_working_area c = wa \<and> c_parent_area c = pa \<and>
        column_cell E c = column_cell E c0 \<and> column_sizing_mode c = column_sizing_mode c0 \<and>
        column_px_width c = Some (cd_width d)) (zip (sp_columns s) (sp_data s)) cds)"
proof (rule runs_map_opt)
  fix x assume x: "x \<in> set (zip (sp_columns s) (sp_data s))"
  obtain c0 d0 where x0: "x = (c0, d0)" by (cases x)
  have c0: "c0 \<in> set (sp_columns s)" using x x0 by (auto dest: set_zip_leftD)
  then have inv: "column_inv E c0" using space_columns_inv [OF parts] by blast
  have "runs (do { c \<leftarrow> column_update_config E vs wa pa sc opts c0; d \<leftarrow> column_data_update c d0; Some (c, d) })
     (\<lambda>(c, d). column_inv E c \<and> c_options c = opts \<and> c_scale c = sc \<and>
        c_view_size c = vs \<and> c_working_area c = wa \<and> c_parent_area c = pa \<and>
        column_cell E c = column_cell E c0 \<and> column_sizing_mode c = column_sizing_mode c0 \<and>
        column_px_width c = Some (cd_width d))"
  proof (rule runs_seq [OF column_update_config_ok [OF inv opts bspec [OF tall c0], of vs wa pa sc]])
    fix c
    assume c: "column_inv E c \<and> c_options c = opts \<and> c_scale c = sc \<and> c_view_size c = vs \<and>
      c_working_area c = wa \<and> c_parent_area c = pa \<and> c_active_tile_idx c = c_active_tile_idx c0 \<and>
      column_ids E c = column_ids E c0 \<and> column_sizing_mode c = column_sizing_mode c0"
    then show "runs (do { d \<leftarrow> column_data_update c d0; Some (c, d) })
     (\<lambda>(c, d). column_inv E c \<and> c_options c = opts \<and> c_scale c = sc \<and>
        c_view_size c = vs \<and> c_working_area c = wa \<and> c_parent_area c = pa \<and>
        column_cell E c = column_cell E c0 \<and> column_sizing_mode c = column_sizing_mode c0 \<and>
        column_px_width c = Some (cd_width d))"
      by (intro runs_seq [OF column_data_ok [of E c d0]]) (simp_all add: column_cell_def)
  qed
  then show "runs (case x of (c, d) \<Rightarrow> do {
            c \<leftarrow> column_update_config E vs wa pa sc opts c;
            d \<leftarrow> column_data_update c d;
            Some (c, d) }) ((\<lambda>(c0, _) (c, d). column_inv E c \<and> c_options c = opts \<and> c_scale c = sc \<and>
        c_view_size c = vs \<and> c_working_area c = wa \<and> c_parent_area c = pa \<and>
        column_cell E c = column_cell E c0 \<and> column_sizing_mode c = column_sizing_mode c0 \<and>
        column_px_width c = Some (cd_width d)) x)"
    by (simp add: x0)
qed

lemma space_update_config_ok:
  assumes inv: "space_inv E s" and opts: "options_ok opts"
    and tall: "\<forall>c \<in> set (sp_columns s). reconfigurable E opts c"
  shows "runs (space_update_config E vs pa sc opts s) (\<lambda>s'. space_inv E s' \<and>
     grid E s' = grid E s \<and> space_reconfigured vs pa sc opts s')"
proof -
  note parts = space_inv_parts [OF inv]
  note P = space_partsD [OF parts]
  define wa where "wa = compute_working_area E pa sc (lc_struts (op_layout opts))"
  obtain cds where m: "map_opt (\<lambda>(c, d). do {
            c \<leftarrow> column_update_config E vs wa pa sc opts c;
            d \<leftarrow> column_data_update c d;
            Some (c, d) }) (zip (sp_columns s) (sp_data s)) = Some cds"
    and all: "list_all2 (\<lambda>(c0, _) (c, d). column_inv E c \<and> c_options c = opts \<and> c_scale c = sc \<and>
        c_view_size c = vs \<and> c_working_area c = wa \<and> c_parent_area c = pa \<and>
        column_cell E c = column_cell E c0 \<and> column_sizing_mode c = column_sizing_mode c0 \<and>
        column_px_width c = Some (cd_width d)) (zip (sp_columns s) (sp_data s)) cds"
    by (rule runsE [OF update_columns_ok [OF parts opts tall]])
  define u where "u = s\<lparr>sp_columns := map fst cds, sp_data := map snd cds, sp_view_size := vs,
     sp_working_area := wa, sp_parent_area := pa, sp_scale := sc, sp_options := opts\<rparr>"
  have len: "length cds = length (sp_columns s)" using list_all2_lengthD [OF all] P(2) by simp
  have nth: "column_inv E (fst (cds ! i)) \<and> c_options (fst (cds ! i)) = opts \<and> c_scale (fst (cds ! i)) = sc \<and>
        c_view_size (fst (cds ! i)) = vs \<and> c_working_area (fst (cds ! i)) = wa \<and>
        c_parent_area (fst (cds ! i)) = pa \<and>
        column_cell E (fst (cds ! i)) = column_cell E (sp_columns s ! i) \<and>
        column_sizing_mode (fst (cds ! i)) = column_sizing_mode (sp_columns s ! i) \<and>
        column_px_width (fst (cds ! i)) = Some (cd_width (snd (cds ! i)))" if "i < length (sp_columns s)" for i
    using list_all2_nthD2 [OF all, of i] that len P(2) by (simp add: split_def)
  have cells: "map (column_cell E) (map fst cds) = map (column_cell E) (sp_columns s)"
    using len nth by (intro nth_equalityI) simp_all
  have active: "if sp_columns u = [] then sp_active_column_idx u = 0
      else sp_active_column_idx u < length (sp_columns u)"
    using space_inv_core [OF inv] len by (auto simp: u_def space_core_def split: if_splits)
  have "space_parts E u"
    using parts nth len opts
    by (simp add: u_def wa_def space_parts_def cols_ok_def column_fits_def list_all2_conv_all_nth)
  with active have core: "space_core E u" by (simp add: space_core_def)
  have sel: "sp_columns u = map fst cds" "sp_interactive_resize u = sp_interactive_resize s" by (simp_all add: u_def)
  have "resize_present E u"
    using inv by (simp only: space_inv_def resize_present_cells sel cells)
  moreover have "restore_ok u"
  proof -
    have m: "column_sizing_mode (map fst cds ! sp_active_column_idx s) =
        column_sizing_mode (sp_columns s ! sp_active_column_idx s)" if "sp_columns s \<noteq> []"
      using nth space_core_active [OF space_inv_core [OF inv] that] len by simp
    have "map fst cds = [] \<longleftrightarrow> sp_columns s = []" using len by auto
    then show ?thesis using inv m by (auto simp: u_def restore_ok_def space_inv_def)
  qed
  ultimately have inv_u: "space_inv E u" using core by (simp add: space_inv_def)
  have g: "grid E u = grid E s" using cells by (simp add: u_def grid_def)
  have r: "space_reconfigured vs pa sc opts u" by (simp add: u_def space_reconfigured_def)
  have "runs (animate_view_offset_to_column E None (sp_active_column_idx u) None u) (\<lambda>s'. space_inv E s' \<and>
     grid E s' = grid E s \<and> space_reconfigured vs pa sc opts s')" if "sp_columns u \<noteq> []"
    by (rule runs_mono [OF animate_to_column_acts [OF inv_u space_core_active [OF core that]]])
       (use g r in \<open>auto simp: acts_def space_reconfigured_def space_env_def\<close>)
  then have "runs (if sp_columns u \<noteq> [] \<and> \<not> vo_is_gesture (sp_view_offset u)
      then animate_view_offset_to_column E None (sp_active_column_idx u) None u
      else Some u) (\<lambda>s'. space_inv E s' \<and> grid E s' = grid E s \<and> space_reconfigured vs pa sc opts s')"
    using inv_u g r by simp
  then show ?thesis
    unfolding space_update_config_def Let_def wa_def [symmetric] m Option.bind.bind_lunit u_def [symmetric] .
qed

end

end
