(* ===== verification/Layout_Scrolling_Windows.thy ===== *)
theory Layout_Scrolling_Windows
  imports Layout_Scrolling_Commit "HOL-Library.Multiset"
begin

text \<open>
  The windows of the scrolling layout as a multiset: what the operations on the grid add to it, take
  from it, or leave as it is.
\<close>

definition g_windows :: "'id Grid \<Rightarrow> 'id multiset" where
  "g_windows g = mset (concat (map fst (g_cols g)))"

definition windows :: "('w, 'id) LayoutEnv \<Rightarrow> ('w, 'id) Space \<Rightarrow> 'id multiset" where
  "windows E s = mset (map (\<lambda>t. el_id E (tl_window t)) (space_tiles s))"

lemma windows_grid: "windows E s = g_windows (grid E s)"
  by (simp add: windows_def g_windows_def space_tiles_def map_concat column_cell_def comp_def)

text \<open>The grids that occur.\<close>

definition g_ok :: "'id Grid \<Rightarrow> bool" where
  "g_ok g \<longleftrightarrow> (g_cols g \<noteq> [] \<longrightarrow> g_active g < length (g_cols g)) \<and>
     (\<forall>cell \<in> set (g_cols g). snd cell < length (fst cell))"

lemma grid_ok: "space_inv E s \<Longrightarrow> g_ok (grid E s)"
  using space_core_active [OF space_inv_core] space_columns_inv [OF space_inv_parts] column_invD(2)
  by (fastforce simp: g_ok_def column_cell_def)

lemma g_okD:
  "g_ok g \<Longrightarrow> i < length (g_cols g) \<Longrightarrow> snd (g_cols g ! i) < length (fst (g_cols g ! i))"
  "g_ok g \<Longrightarrow> g_cols g \<noteq> [] \<Longrightarrow> g_active g < length (g_cols g)"
  by (simp_all add: g_ok_def)

section \<open>Lists of columns\<close>

abbreviation ws :: "('id list \<times> nat) list \<Rightarrow> 'id multiset" where
  "ws cs \<equiv> mset (concat (map fst cs))"

lemma ws_insert: "ws (list_insert i c cs) = mset (fst c) + ws cs"
proof -
  have "ws cs = ws (take i cs) + ws (drop i cs)"
    by (metis append_take_drop_id concat_append map_append mset_append)
  then show ?thesis by simp
qed

lemma ws_remove:
  assumes "i < length cs" shows "ws cs = mset (fst (cs ! i)) + ws (list_remove i cs)"
proof -
  have "ws cs = ws (take i cs @ cs ! i # drop (Suc i) cs)" using id_take_nth_drop [OF assms] by metis
  then show ?thesis by simp
qed

lemma ws_update: "i < length cs \<Longrightarrow> ws (cs[i := c]) + mset (fst (cs ! i)) = ws cs + mset (fst c)"
  using ws_insert [of i "list_remove i cs" c] ws_remove [of i cs]
  by (simp add: upd_conv_take_nth_drop)

lemma ws_update_same: "i < length cs \<Longrightarrow> mset (fst c) = mset (fst (cs ! i)) \<Longrightarrow> ws (cs[i := c]) = ws cs"
  using ws_update [of i cs c] by simp

lemma mset_insert: "mset (list_insert i x xs) = add_mset x (mset xs)"
  by (metis append_take_drop_id mset.simps(2) mset_append union_mset_add_mset_right)

lemma mset_remove: "i < length xs \<Longrightarrow> mset xs = add_mset (xs ! i) (mset (list_remove i xs))"
  by (metis id_take_nth_drop mset.simps(2) mset_append union_mset_add_mset_right)

section \<open>Operations that keep the windows\<close>

lemma g_windows_cols: "g_cols g' = g_cols g \<Longrightarrow> g_windows g' = g_windows g"
  by (simp add: g_windows_def)

lemma g_windows_focus [simp]:
  "g_windows (g_activate i g) = g_windows g" "g_windows (g_focus_left g) = g_windows g"
  "g_windows (g_focus_right g) = g_windows g" "g_windows (g_focus_column n g) = g_windows g"
  "g_windows (g_set_prev c b g) = g_windows g" "g_windows (g_end_at k g) = g_windows g"
  by (simp_all add: g_windows_def g_focus_left_def g_focus_right_def g_focus_column_def g_activate_def g_end_at_def)

lemma g_windows_on_active:
  assumes "g_ok g" and "\<And>cell. snd cell < length (fst cell) \<Longrightarrow> mset (fst (h cell)) = mset (fst cell)"
  shows "g_windows (g_on_active h g) = g_windows g"
  using assms g_okD [OF assms(1)] by (simp add: g_windows_def g_on_active_def ws_update_same)

lemma g_windows_move_col:
  assumes "g_ok g" and "g_cols g \<noteq> []" shows "g_windows (g_move_col n g) = g_windows g"
  using ws_insert [of n "list_remove (g_active g) (g_cols g)" "g_cols g ! g_active g"]
    ws_remove [OF g_okD(2) [OF assms]]
  by (simp add: g_windows_def g_move_col_def)

section \<open>Adding and removing\<close>

lemma g_windows_add: "g_windows (g_add k cell act g) = mset (fst cell) + g_windows g"
  using ws_insert [of k "g_cols g" cell] by (simp add: g_windows_def g_add_cols)

lemma g_windows_add_to:
  assumes "k < length (g_cols g)" shows "g_windows (g_add_to k ti w act g) = add_mset w (g_windows g)"
proof -
  obtain ids a where c: "g_cols g ! k = (ids, a)" by (cases "g_cols g ! k")
  define i where "i = (case ti of Some i \<Rightarrow> i | None \<Rightarrow> length ids)"
  define b where "b = (if act then i else if i \<le> a then a + 1 else a)"
  have b: "g_cols (g_add_to k ti w act g) = (g_cols g)[k := (list_insert i w ids, b)]"
    unfolding g_add_to_def c prod.case Let_def i_def [symmetric] b_def [symmetric] by simp
  have "g_windows (g_add_to k ti w act g) + mset ids = g_windows g + mset (list_insert i w ids)"
    using ws_update [OF assms, of "(list_insert i w ids, b)"] c by (simp only: g_windows_def b fst_conv)
  then show ?thesis unfolding mset_insert by simp
qed

lemma g_windows_remove_tile:
  assumes "ci < length (g_cols g)" and "ti < length (fst (g_cols g ! ci))"
  shows "g_windows g = add_mset (fst (g_cols g ! ci) ! ti) (g_windows (g_remove_tile ci ti g))"
proof -
  obtain ids a where c: "g_cols g ! ci = (ids, a)" by (cases "g_cols g ! ci")
  show ?thesis
  proof (cases "length ids = 1")
    case True
    then have "mset ids = {#ids ! ti#}" using assms(2) c by (auto simp: length_Suc_conv)
    with True c ws_remove [OF assms(1)] show ?thesis
      by (simp add: g_windows_def g_remove_tile_cols)
  next
    case False
    have "fst (cell_remove ti (ids, a)) = list_remove ti ids" by simp
    with False c ws_update [OF assms(1), of "cell_remove ti (ids, a)"] mset_remove [of ti ids] assms(2) show ?thesis
      by (simp add: g_windows_def g_remove_tile_cols)
  qed
qed

lemma g_windows_join:
  assumes "ci < length (g_cols g)" and "ti < length (fst (g_cols g ! ci))"
    and "k < length (g_cols (g_remove_tile ci ti g))"
  shows "g_windows (g_join ci ti k act g) = g_windows g"
  using g_windows_remove_tile [OF assms(1,2)] by (simp add: g_join_def g_windows_add_to [OF assms(3)])

lemma g_windows_expel:
  assumes "ci < length (g_cols g)" and "ti < length (fst (g_cols g ! ci))"
  shows "g_windows (g_expel ci ti k act g) = g_windows g"
  using g_windows_remove_tile [OF assms] by (simp add: g_expel_def g_windows_add)

section \<open>The composed operations\<close>

lemma g_source_bounds:
  assumes "g_ok g" and "g_cols g \<noteq> []" and "g_source w g = Some (ci, ti)"
  shows "ci < length (g_cols g)" and "ti < length (fst (g_cols g ! ci))"
  using assms(3) g_okD [OF assms(1)] assms(2)
  by (cases w; auto simp: bind_eq_Some_conv dest: vec_position_SomeD)+

lemma g_windows_consume_or_expel:
  assumes "g_ok g"
  shows "g_windows (g_consume_or_expel_left w g) = g_windows g"
    and "g_windows (g_consume_or_expel_right w g) = g_windows g"
proof -
  have "g_windows (g_consume_or_expel_left w g) = g_windows g \<and> g_windows (g_consume_or_expel_right w g) = g_windows g"
  proof (cases "if g_cols g = [] then None else g_source w g")
    case None
    then show ?thesis by (simp add: g_consume_or_expel_left_def g_consume_or_expel_right_def)
  next
    case (Some p)
    obtain ci ti where p: "p = (ci, ti)" by (cases p)
    have ne: "g_cols g \<noteq> []" and src: "g_source w g = Some (ci, ti)" using Some p by (auto split: if_splits)
    note b = g_source_bounds [OF assms ne src]
    have len: "length (g_cols (g_remove_tile ci 0 (g_set_prev c d g))) = length (g_cols g) - 1"
      if "length (fst (g_cols g ! ci)) = 1" for c d
      using g_remove_tile_length [of ci "g_set_prev c d g" 0] b(1) that by simp
    have j: "g_windows (g_join ci 0 k act (g_set_prev c d g)) = g_windows g"
      if "length (fst (g_cols g ! ci)) = 1" "k < length (g_cols g) - 1" for k act c d
      using g_windows_join [of ci "g_set_prev c d g" 0 k act] b(1) that len by simp
    show ?thesis
      using b j g_windows_expel [OF b]
      by (simp add: g_consume_or_expel_left_def g_consume_or_expel_right_def ne src Let_def split: option.split)
  qed
  then show "g_windows (g_consume_or_expel_left w g) = g_windows g"
    "g_windows (g_consume_or_expel_right w g) = g_windows g" by simp_all
qed

lemma g_windows_consume_into:
  assumes "g_ok g" shows "g_windows (g_consume_into g) = g_windows g"
proof (cases "length (g_cols g) < 2 \<or> g_active g = length (g_cols g) - 1")
  case False
  then have b: "g_active g + 1 < length (g_cols g)" using g_okD(2) [OF assms] by force
  have t: "0 < length (fst (g_cols g ! (g_active g + 1)))" using g_okD(1) [OF assms b] by linarith
  have "g_active g < length (g_cols (g_remove_tile (g_active g + 1) 0 g))"
    using b by (simp only: g_remove_tile_length split: if_split) linarith
  with False g_windows_join [OF b t] show ?thesis by (simp add: g_consume_into_def)
qed (simp add: g_consume_into_def)

lemma g_windows_expel_from:
  assumes "g_ok g" shows "g_windows (g_expel_from g) = g_windows g"
proof (cases "g_cols g = [] \<or> length (fst (g_cols g ! g_active g)) = 1")
  case False
  then have a: "g_active g < length (g_cols g)" using g_okD(2) [OF assms] by simp
  then have "length (fst (g_cols g ! g_active g)) - 1 < length (fst (g_cols g ! g_active g))"
    using g_okD(1) [OF assms a] by linarith
  with False g_windows_expel [OF a] show ?thesis by (simp add: g_expel_from_def)
qed (simp add: g_expel_from_def)

lemma mset_replace:
  "i < length xs \<Longrightarrow> add_mset (xs ! i) (mset (xs[i := y])) = add_mset y (mset xs)"
  by (simp add: mset_update)

lemma exchange:
  fixes A B G :: "'a multiset"
  assumes "A + S = G + S'" and "B + T = A + T'" and "add_mset x S' = add_mset y S" and "add_mset y T' = add_mset x T"
  shows "B = G"
proof (rule multiset_eqI)
  fix a
  show "count B a = count G a"
    using arg_cong [OF assms(1), of "\<lambda>M. count M a"] arg_cong [OF assms(2), of "\<lambda>M. count M a"]
      arg_cong [OF assms(3), of "\<lambda>M. count M a"] arg_cong [OF assms(4), of "\<lambda>M. count M a"]
    by (cases "x = a"; cases "y = a") simp_all
qed

lemma g_windows_swap:
  assumes "g_ok g" shows "g_windows (g_swap d g) = g_windows g"
proof (cases "g_cols g = [] \<or> d = ScrollLeft \<and> g_active g = 0 \<or> d = ScrollRight \<and> g_active g = length (g_cols g) - 1")
  case True
  then show ?thesis by (simp add: g_swap_def)
next
  case False
  define sc where "sc = g_active g"
  define tc where "tc = (case d of ScrollLeft \<Rightarrow> sc - 1 | ScrollRight \<Rightarrow> sc + 1)"
  have ne: "g_cols g \<noteq> []" using False by simp
  have b: "sc < length (g_cols g)" "tc < length (g_cols g)" "sc \<noteq> tc" "tc = (if d = ScrollRight then sc + 1 else sc - 1)"
    using g_okD(2) [OF assms ne] False by (cases d; auto simp: sc_def tc_def)+
  obtain sids sa tids ta where c: "g_cols g ! sc = (sids, sa)" "g_cols g ! tc = (tids, ta)"
    by (metis surj_pair)
  have a: "sa < length sids" "ta < length tids"
    using g_okD(1) [OF assms b(1)] g_okD(1) [OF assms b(2)] c by simp_all
  have sw: "g_swap d g = (if length sids = 1 \<and> length tids = 1 then g_move_col tc g
      else g_swap_tiles (d = ScrollRight) sc tc g)"
    unfolding g_swap_def Let_def sc_def [symmetric] tc_def [symmetric] c fst_conv if_not_P [OF False [folded sc_def]] ..
  show ?thesis
  proof (cases "length sids = 1 \<and> length tids = 1")
    case True
    then show ?thesis using g_windows_move_col [OF assms ne, of tc] by (simp add: sw)
  next
    case many: False
    let ?x = "sids ! sa" and ?y = "tids ! ta"
    let ?cs = "(g_cols g)[sc := (sids[sa := ?y], sa)]"
    have w: "g_windows (g_swap d g) = ws (?cs[tc := (tids[ta := ?x], ta)])"
      using g_swap_tiles_cols(1) [OF b(1,2,4,3) c(1) a(1) c(2) a(2) many]
      by (simp only: g_windows_def sw if_not_P [OF many])
    have e1: "ws ?cs + mset sids = ws (g_cols g) + mset (sids[sa := ?y])"
      using ws_update [OF b(1), of "(sids[sa := ?y], sa)"] c by simp
    have e2: "ws (?cs[tc := (tids[ta := ?x], ta)]) + mset tids = ws ?cs + mset (tids[ta := ?x])"
      using ws_update [of tc ?cs "(tids[ta := ?x], ta)"] b c by simp
    have "g_windows (g_swap d g) = ws (g_cols g)"
      unfolding w by (rule exchange [OF e1 e2 mset_replace [OF a(1)] mset_replace [OF a(2)]])
    then show ?thesis by (simp add: g_windows_def)
  qed
qed

end
