(* ===== verification/Layout_Scrolling_Display.thy ===== *)
theory Layout_Scrolling_Display
  imports Layout_Scrolling_Windows
begin

text \<open>
  Changing the display mode of a column. A tabbed column may be fullscreen or maximized with several
  windows in it, a normal one may not: between the switch to the normal display and the two repairs
  that leave fullscreen and maximized, the invariant of the column does not hold. The operation is
  therefore followed at the level of what does hold in between (\<open>column_shown\<close>, \<open>reshown\<close>).
\<close>

section \<open>The column\<close>

definition column_shown :: "('w, 'id) LayoutEnv \<Rightarrow> 'w Column \<Rightarrow> 'w Column \<Rightarrow> bool" where
  "column_shown E c c' \<longleftrightarrow> column_core E c' \<and> column_fixed c c' \<and>
     column_sizing_mode c' = column_sizing_mode c \<and> column_cell E c' = column_cell E c \<and>
     (\<forall>t \<in> set (c_tiles c'). requested_as E (column_pending_sizing_mode c') t)"

definition modes :: "'w Column \<Rightarrow> ColumnDisplay \<times> bool \<times> bool" where
  "modes c = (c_display_mode c, c_is_pending_fullscreen c, c_is_pending_maximized c)"

lemma column_shown_refl: "column_inv E c \<Longrightarrow> column_shown E c c"
  by (simp add: column_shown_def column_inv_def column_pre_def)

lemma column_shown_trans: "column_shown E a b \<Longrightarrow> column_shown E b c \<Longrightarrow> column_shown E a c"
  by (auto simp: column_shown_def intro: column_fixed_trans)

lemma column_shown_inv:
  "column_shown E a c \<Longrightarrow> column_pending_sizing_mode c = Normal \<or> length (c_tiles c) = 1 \<or> is_tabbed c \<Longrightarrow>
     column_inv E c"
  by (auto simp: column_shown_def column_inv_def column_pre_def)

lemma column_core_modes [simp]:
  "column_core E (c\<lparr>c_display_mode := d\<rparr>) = column_core E c"
  "column_core E (c\<lparr>c_tab_indicator := ti\<rparr>) = column_core E c"
  "column_core E (c\<lparr>c_is_pending_fullscreen := b\<rparr>) = column_core E c"
  "column_core E (c\<lparr>c_is_pending_maximized := b\<rparr>) = column_core E c"
  by (simp_all add: column_core_defs tile_in_def [abs_def] height_ok_def)

lemma column_requested_shown:
  assumes "column_core E c" and "column_requested E c c'"
  shows "column_shown E c c'" and "modes c' = modes c"
proof -
  obtain ts where ts: "c' = c\<lparr>c_tiles := ts\<rparr>"
    "list_all2 (\<lambda>t t'. tile_ok E t' \<and> tile_frame E t t' \<and>
       requested_as E (column_pending_sizing_mode c) t') (c_tiles c) ts"
    using assms(2) by (auto simp: column_requested_def)
  have "column_core E c'"
    unfolding ts(1) by (rule column_core_frame [OF assms(1)]) (rule list_all2_mono [OF ts(2)], simp)
  moreover have "\<forall>t \<in> set ts. requested_as E (column_pending_sizing_mode c) t"
    using ts(2) unfolding list_all2_conv_all_nth by (metis in_set_conv_nth)
  moreover have "column_pending_sizing_mode c' = column_pending_sizing_mode c"
    by (simp add: ts(1) column_pending_sizing_mode_def)
  ultimately show "column_shown E c c'"
    using column_requested_ids(1,2,4) [OF assms(2)]
    by (simp add: column_shown_def column_env_def column_cell_def ts(1))
  show "modes c' = modes c" by (simp add: modes_def ts(1))
qed

context layout_element
begin

lemma sizes_shown:
  assumes "column_core E c"
  shows "runs (update_tile_sizes E an c) (\<lambda>c'. column_shown E c c' \<and> modes c' = modes c \<and>
     column_px_width c' = column_px_width c)"
  by (rule runs_mono [OF update_tile_sizes_requested [OF assms]])
     (simp add: column_requested_shown [OF assms] column_requested_ids(2) [unfolded column_env_def])

lemma display_shown:
  assumes inv: "column_inv E c" and d: "c_display_mode c \<noteq> d"
  shows "runs (column_set_column_display E d c) (\<lambda>c'. column_shown E c c' \<and>
     modes c' = (d, c_is_pending_fullscreen c, c_is_pending_maximized c))"
proof -
  note D = column_invD [OF inv]
  note cfg = options_ok_anims(4) [OF D(4)]
  let ?same = "\<lambda>ts. length ts = length (c_tiles c) \<and>
     (\<forall>i < length (c_tiles c). tile_ok E (ts ! i) \<and> tile_same (c_tiles c ! i) (ts ! i))"
  have moves: "runs (map_opt (\<lambda>(t, pos). animate_move_from E (p pos) t) (zip ts ys)) ?same"
    if "ts = c_tiles c" "length ys = length (c_tiles c) + 1" for p ts and ys :: "Point list"
  proof -
    have "runs (map_opt (\<lambda>(t, pos). animate_move_from E (p pos) t) (zip ts ys))
        (\<lambda>us. length us = length (zip ts ys) \<and>
          (\<forall>i < length (zip ts ys). tile_ok E (us ! i) \<and> tile_same (c_tiles c ! i) (us ! i)))"
      by (rule runs_map_opt_nth) (use animate_move_from_ok [OF D(5)] that in simp)
    then show ?thesis by (rule runs_mono) (use that in auto)
  qed
  have fades: "runs (map_opt (\<lambda>(i, t). if i \<noteq> a then (if b then animate_alpha E x y cfg t else animate_alpha E y x cfg t)
       else Some t) (enumerate 0 ts)) ?same"
    if ts: "?same ts" and cfg: "anim_config_ok cfg" for ts a b x y cfg
  proof -
    have "runs (map_opt (\<lambda>(i, t). if i \<noteq> a then (if b then animate_alpha E x y cfg t else animate_alpha E y x cfg t)
        else Some t) (enumerate 0 ts))
        (\<lambda>us. length us = length (enumerate 0 ts) \<and>
          (\<forall>i < length (enumerate 0 ts). tile_ok E (us ! i) \<and> tile_same (ts ! i) (us ! i)))"
      by (rule runs_map_opt_nth) (use ts in \<open>auto simp: nth_enumerate_eq intro!: animate_alpha_ok [OF _ cfg]\<close>)
    then show ?thesis by (rule runs_mono) (use ts in \<open>auto intro: tile_same_trans\<close>)
  qed
  have fin: "runs (update_tile_sizes E True (c\<lparr>c_tiles := ts, c_tab_indicator := ti, c_display_mode := d\<rparr>))
      (\<lambda>c'. column_shown E c c' \<and> modes c' = (d, c_is_pending_fullscreen c, c_is_pending_maximized c))"
    if ts: "?same ts" for ts ti
  proof -
    let ?c = "c\<lparr>c_tiles := ts, c_tab_indicator := ti, c_display_mode := d\<rparr>"
    have op: "column_op E c (c\<lparr>c_tiles := ts\<rparr>)" by (rule column_inv_same [OF inv]) (use ts in simp_all)
    then have "column_core E (c\<lparr>c_tiles := ts\<rparr>)" by (simp add: column_inv_def column_pre_def)
    then have core: "column_core E ?c"
      by simp
    have frame: "column_shown E c c'" if "column_shown E ?c c'" for c'
      using that op by (simp add: column_shown_def column_env_defs column_cell_def)
    show ?thesis
      by (rule runs_mono [OF sizes_shown [OF core]]) (use frame in \<open>auto simp: modes_def\<close>)
  qed
  have ti: "runs (if b then tab_start_open_animation E cfg k else Some k) (\<lambda>_. True)"
    if "anim_config_ok cfg" for b cfg k
    using tab_start_open_ok [OF that, of E k] by simp
  show ?thesis
    unfolding column_set_column_display_def if_not_P [OF d] Let_def runs_bind
    by (rule runs_mono [OF moves], simp, simp add: D(3), rule runs_mono [OF fades], assumption, simp add: cfg,
      rule runs_mono [OF ti], simp add: cfg) (use fin in simp)
qed

lemma unset_shown:
  assumes c: "column_shown E a c"
  shows "runs (column_set_fullscreen E False c) (\<lambda>c'. column_shown E c c' \<and> modes c' = (c_display_mode c, False, c_is_pending_maximized c))"
    and "runs (column_set_maximized E False c) (\<lambda>c'. column_shown E c c' \<and> modes c' = (c_display_mode c, c_is_pending_fullscreen c, False))"
proof -
  have core: "column_core E (c\<lparr>c_is_pending_fullscreen := False\<rparr>)" "column_core E (c\<lparr>c_is_pending_maximized := False\<rparr>)"
    and refl: "column_shown E c c"
    using c by (simp_all add: column_shown_def)
  have frame: "column_shown E c c'"
    if "column_shown E (c\<lparr>c_is_pending_fullscreen := False\<rparr>) c' \<or> column_shown E (c\<lparr>c_is_pending_maximized := False\<rparr>) c'" for c'
    using that by (auto simp: column_shown_def column_fixed_def column_cell_def)
  show "runs (column_set_fullscreen E False c) (\<lambda>c'. column_shown E c c' \<and> modes c' = (c_display_mode c, False, c_is_pending_maximized c))"
    using runs_mono [OF sizes_shown [OF core(1), of True],
        of "\<lambda>c'. column_shown E c c' \<and> modes c' = (c_display_mode c, False, c_is_pending_maximized c)"] frame refl
    by (auto simp: column_set_fullscreen_def modes_def)
  show "runs (column_set_maximized E False c) (\<lambda>c'. column_shown E c c' \<and> modes c' = (c_display_mode c, c_is_pending_fullscreen c, False))"
    using runs_mono [OF sizes_shown [OF core(2), of True],
        of "\<lambda>c'. column_shown E c c' \<and> modes c' = (c_display_mode c, c_is_pending_fullscreen c, False)"] frame refl
    by (auto simp: column_set_maximized_def modes_def)
qed

lemma cancel_shown:
  assumes c: "column_shown E a c"
  shows "column_shown E c (column_cancel_resize E c)" and "modes (column_cancel_resize E c) = modes c"
    and "column_px_width (column_cancel_resize E c) = column_px_width c"
proof -
  let ?ts = "map (\<lambda>t. t\<lparr>tl_window := el_cancel_interactive_resize E (tl_window t)\<rparr>) (c_tiles c)"
  have ok: "t \<in> set (c_tiles c) \<Longrightarrow> tile_ok E t" for t
    using c by (auto simp: column_shown_def column_core_defs tile_in_def list_all2_conv_all_nth in_set_conv_nth)
  have "column_requested E c (c\<lparr>c_tiles := ?ts\<rparr>)"
    using c ok cancel_resize_look
    by (intro column_requestedI)
      (auto simp: column_shown_def requested_as_def same_requests_def tile_ok_def tile_frame_def same_look_def)
  then have "column_requested E c (column_cancel_resize E c)" by (simp add: column_cancel_resize_def)
  from column_requested_shown [OF _ this] column_requested_ids(2) [OF this]
  show "column_shown E c (column_cancel_resize E c)" "modes (column_cancel_resize E c) = modes c"
    "column_px_width (column_cancel_resize E c) = column_px_width c"
    using c by (simp_all add: column_shown_def column_env_def)
qed

end

section \<open>The layout\<close>

text \<open>No window is in the layout twice.\<close>

definition windows_once :: "('w, 'id) LayoutEnv \<Rightarrow> ('w, 'id) Space \<Rightarrow> bool" where
  "windows_once E s \<longleftrightarrow> (\<forall>i. count (windows E s) i \<le> 1)"

lemma windows_once_distinct: "windows_once E s \<longleftrightarrow> distinct (concat (map (column_ids E) (sp_columns s)))"
proof -
  have "windows E s = mset (concat (map (column_ids E) (sp_columns s)))"
    by (simp add: windows_def space_tiles_def map_concat comp_def)
  moreover have "count (mset xs) i \<le> 1 \<longleftrightarrow> count (mset xs) i = (if i \<in> set xs then 1 else 0)" for i and xs :: "'b list"
    using count_eq_zero_iff [of "mset xs" i] by (cases "i \<in> set xs") (auto simp: le_Suc_eq)
  ultimately show ?thesis by (simp add: windows_once_def distinct_count_atmost_1)
qed

lemma windows_once_same: "windows E s' = windows E s \<Longrightarrow> windows_once E s' = windows_once E s"
  by (simp add: windows_once_def)

lemma concat_once:
  assumes "distinct (concat xss)" and "i < length xss" and "j < length xss"
    and "x \<in> set (xss ! i)" and "x \<in> set (xss ! j)"
  shows "i = j"
  using assms
proof (induction xss arbitrary: i j)
  case (Cons xs xss)
  show ?case
  proof (cases i; cases j)
    fix k assume "i = 0" "j = Suc k"
    then show ?thesis using Cons.prems by (auto dest: nth_mem)
  next
    fix k assume "i = Suc k" "j = 0"
    then show ?thesis using Cons.prems by (auto dest: nth_mem)
  next
    fix k l assume "i = Suc k" "j = Suc l"
    then show ?thesis using Cons.IH [of k l] Cons.prems by simp
  qed simp
qed simp

text \<open>Between the steps: one column is reshown, its cached width is up to date, a resize may be gone.\<close>

definition reshown ::
    "('w, 'id) LayoutEnv \<Rightarrow> ('w, 'id) Space \<Rightarrow> nat \<Rightarrow> ('w Column \<Rightarrow> bool) \<Rightarrow> ('w, 'id) Space \<Rightarrow> bool" where
  "reshown E s i Q t \<longleftrightarrow> (\<exists>c d ir. t = s\<lparr>sp_columns := (sp_columns s)[i := c], sp_data := (sp_data s)[i := d],
       sp_interactive_resize := ir\<rparr> \<and> column_shown E (sp_columns s ! i) c \<and>
     column_px_width c = Some (cd_width d) \<and> (ir = None \<or> ir = sp_interactive_resize s) \<and> Q c)"

lemma column_core_width: "column_core E c \<Longrightarrow> \<exists>w. column_px_width c = Some w"
  using column_core_length [of E c] by (cases "c_data c") (auto simp: column_core_def column_px_width_def)

lemma reshown_step:
  assumes t: "reshown E s i Q t" and i: "i < length (sp_columns s)" "length (sp_data s) = length (sp_columns s)"
    and f: "\<And>c. column_shown E (sp_columns s ! i) c \<Longrightarrow> Q c \<Longrightarrow> runs (f c) (\<lambda>c'. column_shown E c c' \<and> R c')"
  shows "runs (do { t \<leftarrow> with_column i f t; update_data i t }) (reshown E s i R)"
proof -
  obtain c d ir where t': "t = s\<lparr>sp_columns := (sp_columns s)[i := c], sp_data := (sp_data s)[i := d],
       sp_interactive_resize := ir\<rparr>" "column_shown E (sp_columns s ! i) c" "ir = None \<or> ir = sp_interactive_resize s" "Q c"
    using t by (auto simp: reshown_def)
  obtain c' where c': "f c = Some c'" "column_shown E c c'" "R c'" using f [OF t'(2,4)] by (auto simp: runs_iff)
  obtain w where w: "column_px_width c' = Some w"
    using column_core_width [of E c'] c'(2) by (auto simp: column_shown_def)
  have "do { t \<leftarrow> with_column i f t; update_data i t } = Some (s\<lparr>sp_columns := (sp_columns s)[i := c'],
      sp_data := (sp_data s)[i := d\<lparr>cd_width := w\<rparr>], sp_interactive_resize := ir\<rparr>)"
    using i c'(1) w by (simp add: t'(1) with_column_def update_data_def vec_modify_def vec_get_def column_data_update_def)
  moreover have "reshown E s i R (s\<lparr>sp_columns := (sp_columns s)[i := c'],
      sp_data := (sp_data s)[i := d\<lparr>cd_width := w\<rparr>], sp_interactive_resize := ir\<rparr>)"
    unfolding reshown_def using column_shown_trans [OF t'(2) c'(2)] w t'(3) c'(3)
    by (intro exI [of _ c'] exI [of _ "d\<lparr>cd_width := w\<rparr>"] exI [of _ ir]) simp
  ultimately show ?thesis by simp
qed

text \<open>A step that leaves the width alone needs no update of the cached one.\<close>

lemma reshown_same_width:
  assumes t: "reshown E s i Q t" and i: "i < length (sp_columns s)"
    and f: "\<And>c. column_shown E (sp_columns s ! i) c \<Longrightarrow> Q c \<Longrightarrow>
       runs (f c) (\<lambda>c'. column_shown E c c' \<and> R c' \<and> column_px_width c' = column_px_width c)"
  shows "runs (with_column i f t) (reshown E s i R)"
proof -
  obtain c d ir where t': "t = s\<lparr>sp_columns := (sp_columns s)[i := c], sp_data := (sp_data s)[i := d],
       sp_interactive_resize := ir\<rparr>" "column_shown E (sp_columns s ! i) c" "column_px_width c = Some (cd_width d)"
    "ir = None \<or> ir = sp_interactive_resize s" "Q c"
    using t by (auto simp: reshown_def)
  obtain c' where c': "f c = Some c'" "column_shown E c c'" "R c'" "column_px_width c' = column_px_width c"
    using f [OF t'(2,5)] by (auto simp: runs_iff)
  have "with_column i f t = Some (s\<lparr>sp_columns := (sp_columns s)[i := c'], sp_data := (sp_data s)[i := d],
       sp_interactive_resize := ir\<rparr>)"
    using i c'(1) by (simp add: t'(1) with_column_def vec_modify_def vec_get_def)
  moreover have "reshown E s i R (s\<lparr>sp_columns := (sp_columns s)[i := c'], sp_data := (sp_data s)[i := d],
       sp_interactive_resize := ir\<rparr>)"
    unfolding reshown_def using column_shown_trans [OF t'(2) c'(2)] t'(3,4) c'(3,4)
    by (intro exI [of _ c'] exI [of _ d] exI [of _ ir]) simp
  ultimately show ?thesis by simp
qed

lemma reshown_column:
  assumes "reshown E s i Q t" and "i < length (sp_columns s)"
  shows "length (sp_columns t) = length (sp_columns s)" and "column_shown E (sp_columns s ! i) (sp_columns t ! i)"
    and "Q (sp_columns t ! i)" and "map (column_ids E) (sp_columns t) = map (column_ids E) (sp_columns s)"
proof -
  obtain c d ir where t: "t = s\<lparr>sp_columns := (sp_columns s)[i := c], sp_data := (sp_data s)[i := d],
       sp_interactive_resize := ir\<rparr>" "column_shown E (sp_columns s ! i) c" "Q c"
    using assms(1) by (auto simp: reshown_def)
  then show "length (sp_columns t) = length (sp_columns s)" "column_shown E (sp_columns s ! i) (sp_columns t ! i)"
    "Q (sp_columns t ! i)" using assms(2) by simp_all
  have "column_ids E c = column_ids E (sp_columns s ! i)"
    using t(2) by (simp add: column_shown_def column_cell_def)
  then have "(map (column_ids E) (sp_columns s))[i := column_ids E c] = map (column_ids E) (sp_columns s)"
    using assms(2) by (metis list_update_id nth_map)
  then show "map (column_ids E) (sp_columns t) = map (column_ids E) (sp_columns s)" by (simp add: t(1) map_update)
qed

lemma reshown_column_of:
  assumes t: "reshown E s i Q t" and i: "i < length (sp_columns s)" and once: "windows_once E s"
    and w: "w \<in> set (column_ids E (sp_columns s ! i))"
  shows "space_column_of E w t = Some i"
proof -
  note T = reshown_column [OF t i]
  let ?idss = "map (column_ids E) (sp_columns s)"
  have mem: "column_contains E w (sp_columns t ! j) \<longleftrightarrow> w \<in> set (?idss ! j)" if "j < length (sp_columns s)" for j
  proof -
    have "column_ids E (sp_columns t ! j) = ?idss ! j" using T(4) T(1) that by (metis nth_map)
    then show ?thesis by (simp add: column_contains_cell column_cell_def)
  qed
  have has: "column_contains E w (sp_columns t ! i)" using mem [OF i] w i by simp
  obtain k where k: "space_column_of E w t = Some k"
    using has T(1) i vec_position_None [of "column_contains E w" "sp_columns t"]
    by (cases "space_column_of E w t") (auto simp: space_column_of_def)
  then have "k < length (sp_columns t)" "column_contains E w (sp_columns t ! k)"
    using vec_position_SomeD [of "column_contains E w" "sp_columns t" k] by (simp_all add: space_column_of_def)
  then have "k < length ?idss" "w \<in> set (?idss ! k)" using mem [of k] T(1) by simp_all
  moreover have "w \<in> set (?idss ! i)" using w i by simp
  ultimately have "k = i"
    using concat_once [OF once [unfolded windows_once_distinct], of k i] i by (simp del: nth_map)
  then show ?thesis using k by simp
qed

lemma reshown_acts:
  assumes inv: "space_inv E s" and i: "i < length (sp_columns s)"
    and t: "reshown E s i (\<lambda>c. column_pending_sizing_mode c = Normal \<or> length (c_tiles c) = 1 \<or> is_tabbed c) t"
  shows "acts E s id t"
proof -
  let ?c = "sp_columns s ! i"
  obtain c d ir where t': "t = s\<lparr>sp_columns := (sp_columns s)[i := c], sp_data := (sp_data s)[i := d],
       sp_interactive_resize := ir\<rparr>" "column_shown E ?c c" "column_px_width c = Some (cd_width d)"
    "ir = None \<or> ir = sp_interactive_resize s" "column_pending_sizing_mode c = Normal \<or> length (c_tiles c) = 1 \<or> is_tabbed c"
    using t by (auto simp: reshown_def)
  note P = space_partsD [OF space_inv_parts [OF inv]]
  have fits: "column_fits E s c"
    using t'(2) by (intro column_fits_fixed [OF P(4) [OF i] column_shown_inv [OF t'(2,5)]]) (simp add: column_shown_def)
  let ?t = "s\<lparr>sp_columns := (sp_columns s)[i := c], sp_data := (sp_data s)[i := d]\<rparr>"
  have "space_parts E ?t" using cols_ok_update [OF _ fits t'(3), of i] space_inv_parts [OF inv] by (simp add: space_parts_def)
  then have inv': "space_inv E ?t"
    using t'(2) by (intro space_inv_replace [OF inv i]) (simp_all add: column_shown_def column_cell_def)
  have "(map (column_cell E) (sp_columns s))[i := column_cell E c] = map (column_cell E) (sp_columns s)"
    using t'(2) i by (intro list_update_same_conv [THEN iffD2]) (simp_all add: column_shown_def)
  then have g: "grid E ?t = grid E s" by (simp add: column_cells_update)
  have "acts E s id ?t" using inv' g by (simp add: acts_def)
  moreover have "acts E s id (?t\<lparr>sp_interactive_resize := None\<rparr>)" using calculation by (simp add: acts_def)
  moreover have "t = ?t\<lparr>sp_interactive_resize := ir\<rparr>" by (simp add: t'(1))
  moreover have "?t = ?t\<lparr>sp_interactive_resize := sp_interactive_resize s\<rparr>" by simp
  ultimately show ?thesis using t'(4) by metis
qed

context layout_element
begin

lemma reshown_cancel:
  assumes t: "reshown E s i Q t" and i: "i < length (sp_columns s)"
    and Q: "\<And>c c'. column_shown E c c' \<Longrightarrow> modes c' = modes c \<Longrightarrow> Q c \<Longrightarrow> Q c'"
  shows "runs (cancel_resize_at E i t) (reshown E s i Q)"
proof -
  obtain c d ir where t': "t = s\<lparr>sp_columns := (sp_columns s)[i := c], sp_data := (sp_data s)[i := d],
       sp_interactive_resize := ir\<rparr>" "column_shown E (sp_columns s ! i) c" "column_px_width c = Some (cd_width d)"
    "ir = None \<or> ir = sp_interactive_resize s" "Q c"
    using t by (auto simp: reshown_def)
  note C = cancel_shown [OF t'(2)]
  define u where "u = (cancel_resize_of E c t)\<lparr>sp_columns := (sp_columns t)[i := column_cancel_resize E c]\<rparr>"
  have "cancel_resize_at E i t = Some u" using i by (simp add: cancel_resize_at_def vec_get_def t'(1) u_def)
  moreover have "\<exists>ir'. u = s\<lparr>sp_columns := (sp_columns s)[i := column_cancel_resize E c], sp_data := (sp_data s)[i := d],
       sp_interactive_resize := ir'\<rparr> \<and> (ir' = None \<or> ir' = sp_interactive_resize s)"
    using cancel_resize_of_cases [of E c t] t'(4) by (cases s) (auto simp: u_def t'(1))
  then have "reshown E s i Q u"
    unfolding reshown_def using column_shown_trans [OF t'(2) C(1)] C(3) t'(3) Q [OF C(1,2) t'(5)] by auto
  ultimately show ?thesis by simp
qed

text \<open>Leaving fullscreen or maximized, on a column whose invariant may not hold.\<close>

lemma reshown_unset:
  assumes t: "reshown E s i Q t" and i: "i < length (sp_columns s)" "length (sp_data s) = length (sp_columns s)"
    and once: "windows_once E s" and w: "w \<in> set (column_ids E (sp_columns s ! i))"
    and Q: "\<And>c c'. column_shown E c c' \<Longrightarrow> modes c' = modes c \<Longrightarrow> Q c \<Longrightarrow> Q c'"
    and unset: "\<And>c. column_shown E (sp_columns s ! i) c \<Longrightarrow> Q c \<Longrightarrow> runs (set_mode False c) (\<lambda>c'. column_shown E c c' \<and> R c')"
    and idle: "\<And>c. Q c \<Longrightarrow> \<not> pend c \<Longrightarrow> R c"
  shows "runs (set_sizing E pend set_mode w False t) (\<lambda>(b, u). reshown E s i R u)"
proof -
  note T = reshown_column [OF t i(1)]
  have col: "space_column_of E w t = Some i" "vec_get (sp_columns t) i = Some (sp_columns t ! i)"
    using reshown_column_of [OF t i(1) once w] T(1) i(1) by (simp_all add: vec_get_def)
  show ?thesis
  proof (cases "pend (sp_columns t ! i)")
    case False
    then have "reshown E s i R t" using t idle T(3) i(1) unfolding reshown_def by fastforce
    then show ?thesis using False col by (simp add: set_sizing_def)
  next
    case True
    have "runs (do { t \<leftarrow> cancel_resize_at E i t; t \<leftarrow> with_column i (set_mode False) t; update_data i t }) (reshown E s i R)"
      unfolding runs_bind [of "cancel_resize_at E i t"]
      by (rule runs_mono [OF reshown_cancel [OF t i(1) Q]], assumption+) (rule reshown_step [OF _ i unset])
    then show ?thesis using True col by (simp add: set_sizing_def)
  qed
qed

lemma set_column_display_acts:
  assumes inv: "space_inv E s" and once: "windows_once E s"
  shows "runs (set_column_display E d s) (acts E s id)"
proof (cases "sp_columns s = []")
  case True
  then show ?thesis using inv by (simp add: set_column_display_def acts_refl)
next
  case False
  let ?i = "sp_active_column_idx s"
  let ?c = "sp_columns s ! ?i"
  have i: "?i < length (sp_columns s)" by (rule space_core_active [OF space_inv_core [OF inv] False])
  note P = space_partsD [OF space_inv_parts [OF inv]]
  note D = column_invD [OF P(3) [OF i]]
  show ?thesis
  proof (cases "c_display_mode ?c = d")
    case True
    then show ?thesis using inv False i by (simp add: set_column_display_def acts_refl vec_get_def)
  next
    case ne: False
    have i2: "length (sp_data s) = length (sp_columns s)" by (rule P(2))
    let ?Q = "\<lambda>c. modes c = modes ?c \<and> column_inv E c"
    let ?R = "\<lambda>f m c. modes c = (d, f, m)"
    let ?f = "c_is_pending_fullscreen ?c" and ?m = "c_is_pending_maximized ?c"
    have t0: "reshown E s ?i ?Q s"
      unfolding reshown_def using column_shown_refl [OF P(3) [OF i]] P(3,5) [OF i] i i2
      by (intro exI [of _ ?c] exI [of _ "sp_data s ! ?i"] exI [of _ "sp_interactive_resize s"]) simp
    have Qs: "?Q c'" if "column_shown E c c'" "modes c' = modes c" "?Q c" for c c'
    proof -
      have "length (c_tiles c') = length (c_tiles c)"
        using that(1) by (simp add: column_shown_def column_tiles_cell [of _ E])
      then show ?thesis
        using column_shown_inv [OF that(1)] that(2,3)
        by (auto simp: modes_def column_inv_def column_pre_def column_pending_sizing_mode_def is_tabbed_def)
    qed
    have "runs (cancel_resize_at E ?i s) (reshown E s ?i ?Q)"
      by (rule reshown_cancel [OF t0 i]) (rule Qs)
    then obtain s1 where
      s1: "cancel_resize_at E ?i s = Some s1" "reshown E s ?i ?Q s1" by (rule runsE)
    have disp: "runs (column_set_column_display E d c) (\<lambda>c'. column_shown E c c' \<and> ?R ?f ?m c')" if "?Q c" for c
      using display_shown [of c d] that ne by (auto simp: modes_def)
    obtain s2 where s2: "do { t \<leftarrow> with_column ?i (column_set_column_display E d) s1; update_data ?i t } = Some s2"
      "reshown E s ?i (?R ?f ?m) s2"
      using reshown_step [OF s1(2) i i2, of "column_set_column_display E d" "?R ?f ?m"] disp by (auto simp: runs_iff)
    have "runs (update_tile_sizes E True c) (\<lambda>c'. column_shown E c c' \<and> ?R ?f ?m c' \<and> column_px_width c' = column_px_width c)"
      if "column_shown E ?c c" "?R ?f ?m c" for c
      using sizes_shown [of c True] that by (simp add: column_shown_def)
    from reshown_same_width [OF s2(2) i, of "update_tile_sizes E True" "?R ?f ?m", OF this]
    obtain s3 where s3: "with_column ?i (update_tile_sizes E True) s2 = Some s3" "reshown E s ?i (?R ?f ?m) s3"
      by (auto simp: runs_iff)
    let ?col = "sp_columns s3 ! ?i"
    note T = reshown_column [OF s3(2) i]
    have get: "vec_get (sp_columns s3) ?i = Some ?col" using T(1) i by (simp add: vec_get_def)
    have cell: "column_cell E ?col = column_cell E ?c" using T(2) by (simp add: column_shown_def)
    have len: "length (c_tiles ?col) = length (c_tiles ?c)" and act: "c_active_tile_idx ?col = c_active_tile_idx ?c"
      using cell by (auto simp: column_cell_def dest: arg_cong [of _ _ length])
    have fin: "acts E s id t" if "reshown E s ?i R t" "\<And>c. column_shown E ?c c \<Longrightarrow> R c \<Longrightarrow>
        column_pending_sizing_mode c = Normal \<or> length (c_tiles c) = 1 \<or> is_tabbed c" for R t
      by (rule reshown_acts [OF inv i]) (use that in \<open>fastforce simp: reshown_def\<close>)
    have start: "set_column_display E d s = do { col \<leftarrow> vec_get (sp_columns s3) ?i;
        if \<not> is_tabbed col \<and> length (c_tiles col) > 1
        then do { t \<leftarrow> vec_get (c_tiles col) (c_active_tile_idx col);
                  (_, s) \<leftarrow> set_fullscreen E (el_id E (tl_window t)) False s3;
                  (_, s) \<leftarrow> set_maximized E (el_id E (tl_window t)) False s;
                  Some s }
        else Some s3 }"
      using False i ne s1(1) s2(1) s3(1)
      by (simp add: set_column_display_def vec_get_def Let_def flip: bind_assoc) (simp add: bind_assoc)?
    show ?thesis
    proof (cases "\<not> is_tabbed ?col \<and> length (c_tiles ?col) > 1")
      case nt: False
      have "d = DisplayTabbed \<or> length (c_tiles ?c) = 1"
      proof (cases d)
        case DisplayNormal
        moreover have "length (c_tiles ?c) \<noteq> 0" using D(1) by simp
        moreover have "\<not> is_tabbed ?col" using DisplayNormal T(3) by (simp add: modes_def is_tabbed_def)
        ultimately show ?thesis using nt len by linarith
      qed simp
      moreover have "length (c_tiles c) = length (c_tiles ?c)" if "column_shown E ?c c" for c
        using that by (simp add: column_shown_def column_tiles_cell [of _ E])
      ultimately have "acts E s id s3" by (intro fin [OF s3(2)]) (auto simp: modes_def is_tabbed_def)
      then show ?thesis unfolding start get using nt by auto
    next
      case nt: True
      let ?w = "el_id E (tl_window (c_tiles ?col ! c_active_tile_idx ?col))"
      have al: "c_active_tile_idx ?col < length (c_tiles ?col)" using act len D(2) by simp
      have w: "?w \<in> set (column_ids E ?c)"
      proof -
        have "?w \<in> set (column_ids E ?col)" using al by simp
        moreover have "column_ids E ?col = column_ids E ?c" using cell by (simp add: column_cell_def)
        ultimately show ?thesis by simp
      qed
      obtain b s4 where s4: "set_fullscreen E ?w False s3 = Some (b, s4)" "reshown E s ?i (?R False ?m) s4"
        using reshown_unset [OF s3(2) i i2 once w, of "column_set_fullscreen E" "?R False ?m" c_is_pending_fullscreen]
          unset_shown(1) by (fastforce simp: set_fullscreen_def modes_def runs_iff)
      obtain b' s5 where s5: "set_maximized E ?w False s4 = Some (b', s5)" "reshown E s ?i (?R False False) s5"
        using reshown_unset [OF s4(2) i i2 once w, of "column_set_maximized E" "?R False False" c_is_pending_maximized]
          unset_shown(2) by (fastforce simp: set_maximized_def modes_def runs_iff)
      have "acts E s id s5" by (rule fin [OF s5(2)]) (simp add: modes_def column_pending_sizing_mode_def)
      then show ?thesis unfolding start get using nt al s4(1) s5(1) by (simp add: vec_get_def)
    qed
  qed
qed

lemma toggle_tabbed_acts:
  assumes inv: "space_inv E s" and once: "windows_once E s"
  shows "runs (toggle_column_tabbed_display E s) (acts E s id)"
  using set_column_display_acts [OF assms] space_core_active [OF space_inv_core [OF inv]] inv
  by (auto simp: toggle_column_tabbed_display_def acts_refl)

end

end
