(* ===== verification/Layout_Scrolling_Run.thy ===== *)
theory Layout_Scrolling_Run
  imports Layout_Scrolling_Display
begin

text \<open>
  The scrolling layout as a whole: the actions on its windows as a datatype, what the callers ensure
  for each, and the states that are reachable from the empty layout.
\<close>

section \<open>The actions\<close>

datatype 'id SpaceAction =
    DoFocusLeft | DoFocusRight | DoFocusColumn nat | DoFocusFirst | DoFocusLast | DoFocusUp
  | DoFocusDown | DoFocusTop | DoFocusBottom | DoFocusWindowInColumn u8 | DoFocusDownOrLeft
  | DoFocusDownOrRight | DoFocusUpOrLeft | DoFocusUpOrRight | DoActivateWindow "'id" | DoMoveLeft
  | DoMoveRight | DoMoveColumnToIndex nat | DoMoveColumnToFirst | DoMoveColumnToLast | DoMoveUp
  | DoMoveDown | DoConsumeOrExpelLeft "'id option" | DoConsumeOrExpelRight "'id option"
  | DoConsumeInto | DoExpelFrom | DoSwapInDirection ScrollDirection | DoSetFullscreen "'id" bool
  | DoSetMaximized "'id" bool | DoCenterColumn | DoCenterWindow "'id option" | DoCenterVisible
  | DoAlignVisibleLeft | DoToggleWidth bool | DoToggleFullWidth
  | DoSetWidth "'id option" SizeChange | DoSetHeight "'id option" SizeChange
  | DoResetHeight "'id option" | DoToggleWindowWidth "'id option" bool
  | DoToggleWindowHeight "'id option" bool | DoExpandWidth | DoResizeBegin "'id" ResizeEdge
  | DoResizeUpdate "'id" Point | DoResizeEnd "'id option" | DoGestureBegin bool
  | DoGestureUpdate real nanos bool | DoGestureEnd "bool option" | DoDndBegin | DoDndScroll real
  | DoDndEnd | DoStartOpen "'id" | DoAdvance | DoCommit "'id" "nat option"
  | DoSetColumnDisplay ColumnDisplay | DoToggleTabbed

fun run_space :: "('w, 'id) LayoutEnv \<Rightarrow> 'id SpaceAction \<Rightarrow> ('w, 'id) Space \<Rightarrow> ('w, 'id) Space option" where
  "run_space E DoFocusLeft s = map_option snd (focus_left E s)"
| "run_space E DoFocusRight s = map_option snd (focus_right E s)"
| "run_space E (DoFocusColumn n) s = focus_column E n s"
| "run_space E DoFocusFirst s = focus_column_first E s"
| "run_space E DoFocusLast s = focus_column_last E s"
| "run_space E DoFocusUp s = map_option snd (focus_up s)"
| "run_space E DoFocusDown s = map_option snd (focus_down s)"
| "run_space E DoFocusTop s = focus_top s"
| "run_space E DoFocusBottom s = focus_bottom s"
| "run_space E (DoFocusWindowInColumn k) s = focus_window_in_column k s"
| "run_space E DoFocusDownOrLeft s = focus_down_or_left E s"
| "run_space E DoFocusDownOrRight s = focus_down_or_right E s"
| "run_space E DoFocusUpOrLeft s = focus_up_or_left E s"
| "run_space E DoFocusUpOrRight s = focus_up_or_right E s"
| "run_space E (DoActivateWindow w) s = map_option snd (activate_window E w s)"
| "run_space E DoMoveLeft s = map_option snd (move_left E s)"
| "run_space E DoMoveRight s = map_option snd (move_right E s)"
| "run_space E (DoMoveColumnToIndex n) s = move_column_to_index E n s"
| "run_space E DoMoveColumnToFirst s = move_column_to_first E s"
| "run_space E DoMoveColumnToLast s = move_column_to_last E s"
| "run_space E DoMoveUp s = map_option snd (move_up E s)"
| "run_space E DoMoveDown s = map_option snd (move_down E s)"
| "run_space E (DoConsumeOrExpelLeft ow) s = consume_or_expel_window_left E ow s"
| "run_space E (DoConsumeOrExpelRight ow) s = consume_or_expel_window_right E ow s"
| "run_space E DoConsumeInto s = consume_into_column E s"
| "run_space E DoExpelFrom s = expel_from_column E s"
| "run_space E (DoSwapInDirection d) s = swap_window_in_direction E d s"
| "run_space E (DoSetFullscreen w b) s = map_option snd (set_fullscreen E w b s)"
| "run_space E (DoSetMaximized w b) s = map_option snd (set_maximized E w b s)"
| "run_space E DoCenterColumn s = center_column E s"
| "run_space E (DoCenterWindow ow) s = center_window E ow s"
| "run_space E DoCenterVisible s = center_visible_columns E s"
| "run_space E DoAlignVisibleLeft s = align_visible_columns_left E s"
| "run_space E (DoToggleWidth b) s = toggle_width E b s"
| "run_space E DoToggleFullWidth s = toggle_full_width E s"
| "run_space E (DoSetWidth ow ch) s = set_window_width E ow ch s"
| "run_space E (DoSetHeight ow ch) s = set_window_height E ow ch s"
| "run_space E (DoResetHeight ow) s = reset_window_height E ow s"
| "run_space E (DoToggleWindowWidth ow b) s = toggle_window_width E ow b s"
| "run_space E (DoToggleWindowHeight ow b) s = toggle_window_height E ow b s"
| "run_space E DoExpandWidth s = expand_column_to_available_width E s"
| "run_space E (DoResizeBegin w edges) s = map_option snd (interactive_resize_begin E w edges s)"
| "run_space E (DoResizeUpdate w p) s = map_option snd (interactive_resize_update E w p s)"
| "run_space E (DoResizeEnd ow) s = interactive_resize_end E ow s"
| "run_space E (DoGestureBegin b) s = Some (view_offset_gesture_begin E b s)"
| "run_space E (DoGestureUpdate x t b) s = map_option snd (view_offset_gesture_update x t b s)"
| "run_space E (DoGestureEnd ob) s = map_option snd (view_offset_gesture_end E ob s)"
| "run_space E DoDndBegin s = Some (dnd_scroll_gesture_begin E s)"
| "run_space E (DoDndScroll x) s = map_option snd (dnd_scroll_gesture_scroll E x s)"
| "run_space E DoDndEnd s = dnd_scroll_gesture_end E s"
| "run_space E (DoStartOpen w) s = map_option snd (space_start_open_animation E w s)"
| "run_space E DoAdvance s = Some (space_advance_animations E s)"
| "run_space E (DoCommit w serial) s = update_window E w serial s"
| "run_space E (DoSetColumnDisplay d) s = set_column_display E d s"
| "run_space E DoToggleTabbed s = toggle_column_tabbed_display E s"

text \<open>
  The windows an action names are in the layout, and the timestamps are not within 150 ms of the end
  of \<^verbatim>\<open>Duration\<close>. A change of the display mode looks a window up by its id after the column has
  changed, so no window may be in the layout twice (a workspace never holds one twice, see
  \<^verbatim>\<open>Layout_Workspace_Inv\<close>). Nothing else is asked of the caller.
\<close>

fun space_allows :: "('w, 'id) LayoutEnv \<Rightarrow> 'id SpaceAction \<Rightarrow> ('w, 'id) Space \<Rightarrow> bool" where
  "space_allows E (DoConsumeOrExpelLeft ow) s = targets E s ow"
| "space_allows E (DoConsumeOrExpelRight ow) s = targets E s ow"
| "space_allows E (DoSetFullscreen w b) s = space_has E w s"
| "space_allows E (DoSetMaximized w b) s = space_has E w s"
| "space_allows E (DoCenterWindow ow) s = targets E s ow"
| "space_allows E (DoSetWidth ow ch) s = targets E s ow"
| "space_allows E (DoSetHeight ow ch) s = targets E s ow"
| "space_allows E (DoResetHeight ow) s = targets E s ow"
| "space_allows E (DoToggleWindowWidth ow b) s = targets E s ow"
| "space_allows E (DoToggleWindowHeight ow b) s = targets E s ow"
| "space_allows E (DoResizeBegin w edges) s = space_has E w s"
| "space_allows E (DoGestureUpdate x t b) s = (t + HISTORY_LIMIT \<le> DURATION_MAX)"
| "space_allows E (DoGestureEnd ob) s = clock_fits E"
| "space_allows E (DoDndScroll x) s = clock_fits E"
| "space_allows E DoDndEnd s = clock_fits E"
| "space_allows E (DoCommit w serial) s = space_has E w s"
| "space_allows E (DoSetColumnDisplay d) s = windows_once E s"
| "space_allows E DoToggleTabbed s = windows_once E s"
| "space_allows E a s = True"

section \<open>Every action is safe\<close>

definition keeps :: "('w, 'id) LayoutEnv \<Rightarrow> ('w, 'id) Space \<Rightarrow> ('w, 'id) Space \<Rightarrow> bool" where
  "keeps E s s' \<longleftrightarrow> space_inv E s' \<and> space_env s s' \<and> windows E s' = windows E s"

lemma keeps_trans: "keeps E a b \<Longrightarrow> keeps E b c \<Longrightarrow> keeps E a c"
  by (auto simp: keeps_def intro: space_env_trans)

lemma keeps_refl: "space_inv E s \<Longrightarrow> keeps E s s"
  by (simp add: keeps_def)

lemma keeps_acts: "acts E s f s' \<Longrightarrow> g_windows (f (grid E s)) = g_windows (grid E s) \<Longrightarrow> keeps E s s'"
  by (simp add: keeps_def acts_def windows_grid)

lemma keeps_id: "acts E s id s' \<Longrightarrow> keeps E s s'"
  by (simp add: keeps_def acts_def windows_grid)

lemma runs_keeps:
  "runs m (acts E s f) \<Longrightarrow> g_windows (f (grid E s)) = g_windows (grid E s) \<Longrightarrow> runs m (keeps E s)"
  by (erule runs_mono) (rule keeps_acts)

lemma runs_keeps_id: "runs m (acts E s id) \<Longrightarrow> runs m (keeps E s)"
  by (erule runs_mono) (rule keeps_id)

lemma runs_keeps_snd:
  assumes "runs m (\<lambda>(b, s'). P b s' \<and> acts E s f s')" and "g_windows (f (grid E s)) = g_windows (grid E s)"
  shows "runs (map_option snd m) (keeps E s)"
  unfolding runs_map_option by (rule runs_mono [OF assms(1)]) (auto intro: keeps_acts [where f = f] assms(2))

lemma runs_keeps_snd_id:
  assumes "runs m (\<lambda>(b, s'). acts E s id s')" shows "runs (map_option snd m) (keeps E s)"
  unfolding runs_map_option by (rule runs_mono [OF assms]) (auto intro: keeps_id)

lemma focus_keeps:
  assumes "space_inv E s"
  shows "runs (map_option snd (focus_left E s)) (keeps E s)" and "runs (map_option snd (focus_right E s)) (keeps E s)"
    and "runs (focus_column E n s) (keeps E s)" and "runs (focus_column_first E s) (keeps E s)"
    and "runs (focus_column_last E s) (keeps E s)"
    and "runs (map_option snd (activate_window E w s)) (keeps E s)"
proof -
  show "runs (map_option snd (focus_left E s)) (keeps E s)" "runs (map_option snd (focus_right E s)) (keeps E s)"
    by (rule runs_keeps_snd [OF focus_left_acts [OF assms]] runs_keeps_snd [OF focus_right_acts [OF assms]]; simp)+
  show "runs (focus_column E n s) (keeps E s)" "runs (focus_column_first E s) (keeps E s)"
    "runs (focus_column_last E s) (keeps E s)"
    by (rule runs_keeps [OF focus_column_acts(1) [OF assms]] runs_keeps [OF focus_column_acts(2) [OF assms]]
        runs_keeps [OF focus_column_acts(3) [OF assms]]; simp)+
  have "g_windows (g_activate_window w (grid E s)) = g_windows (grid E s)"
    using ws_update_same [of _ "g_cols (grid E s)"]
    by (auto simp: g_activate_window_def g_focus_def g_windows_def bind_eq_Some_conv dest!: vec_position_SomeD
        split: option.split)
  then show "runs (map_option snd (activate_window E w s)) (keeps E s)"
    by (rule runs_keeps_snd [OF activate_window_acts [OF assms]])
qed

lemma swapped_mset: "i < length xs \<Longrightarrow> j < length xs \<Longrightarrow> mset (swapped i j xs) = mset xs"
  by (rule mset_swap)

lemma vertical_keeps:
  assumes "space_inv E s"
  shows "runs (map_option snd (focus_up s)) (keeps E s)" and "runs (map_option snd (focus_down s)) (keeps E s)"
    and "runs (focus_top s) (keeps E s)" and "runs (focus_bottom s) (keeps E s)"
    and "runs (focus_window_in_column k s) (keeps E s)"
    and "runs (map_option snd (move_up E s)) (keeps E s)" and "runs (map_option snd (move_down E s)) (keeps E s)"
proof -
  note A = focus_vertical_acts [OF assms] and W = g_windows_on_active [OF grid_ok [OF assms]]
  show "runs (map_option snd (focus_up s)) (keeps E s)" "runs (map_option snd (focus_down s)) (keeps E s)"
    "runs (focus_top s) (keeps E s)" "runs (focus_bottom s) (keeps E s)" "runs (focus_window_in_column k s) (keeps E s)"
    by (rule runs_keeps [OF A(1)] runs_keeps [OF A(2)] runs_keeps [OF A(3)] runs_keeps [OF A(4)]
        runs_keeps [OF A(5)], rule W, force)+
  show "runs (map_option snd (move_up E s)) (keeps E s)"
    by (rule runs_keeps [OF A(6)], rule W) (auto simp: swapped_mset)
  show "runs (map_option snd (move_down E s)) (keeps E s)"
    by (rule runs_keeps [OF A(7)], rule W) (auto simp: swapped_mset)
qed

lemma runs_snd_pair: "runs (map_option snd m) P \<Longrightarrow> runs m (\<lambda>(b, s'). P s')"
  by (simp add: split_def)

lemma focus_or_keeps:
  assumes "space_inv E s"
  shows "runs (focus_down_or_left E s) (keeps E s)" and "runs (focus_down_or_right E s) (keeps E s)"
    and "runs (focus_up_or_left E s) (keeps E s)" and "runs (focus_up_or_right E s) (keeps E s)"
proof -
  have go: "runs (if sp_columns s = [] then Some s
      else do { (b, s) \<leftarrow> m; if b then Some s else map_option snd (f s) }) (keeps E s)"
    if m: "runs (map_option snd m) (keeps E s)"
      and f: "\<And>t. space_inv E t \<Longrightarrow> runs (map_option snd (f t)) (keeps E t)" for m f
  proof -
    have "runs (do { (b, s) \<leftarrow> m; if b then Some s else map_option snd (f s) }) (keeps E s)"
    proof (rule runs_seq [OF runs_snd_pair [OF m]], erule case_prodE, simp only: prod.case)
      fix b t assume t: "keeps E s t"
      then have "space_inv E t" by (simp add: keeps_def)
      then have "runs (map_option snd (f t)) (keeps E s)"
        by (intro runs_mono [OF f]) (auto intro: keeps_trans [OF t])
      then show "runs (if b then Some t else map_option snd (f t)) (keeps E s)" using t by simp
    qed
    then show ?thesis using keeps_refl [OF assms] by simp
  qed
  show "runs (focus_down_or_left E s) (keeps E s)" "runs (focus_down_or_right E s) (keeps E s)"
    "runs (focus_up_or_left E s) (keeps E s)" "runs (focus_up_or_right E s) (keeps E s)"
    unfolding focus_down_or_left_def focus_down_or_right_def focus_up_or_left_def focus_up_or_right_def
    by (rule go; rule vertical_keeps [OF assms] focus_keeps; assumption)+
qed

lemma gesture_keeps:
  assumes inv: "space_inv E s"
  shows "clock_fits E \<Longrightarrow> runs (map_option snd (view_offset_gesture_end E ob s)) (keeps E s)"
    and "clock_fits E \<Longrightarrow> runs (dnd_scroll_gesture_end E s) (keeps E s)"
    and "clock_fits E \<Longrightarrow> runs (map_option snd (dnd_scroll_gesture_scroll E x s)) (keeps E s)"
    and "t + HISTORY_LIMIT \<le> DURATION_MAX \<Longrightarrow> runs (map_option snd (view_offset_gesture_update x t b s)) (keeps E s)"
proof -
  have e: "keeps E s s'" if "acts E s id s' \<or> (\<exists>k < length (sp_columns s). acts E s (g_end_at k) s')" for s'
    using that by (auto intro: keeps_id keeps_acts)
  show "clock_fits E \<Longrightarrow> runs (map_option snd (view_offset_gesture_end E ob s)) (keeps E s)"
    unfolding runs_map_option by (rule runs_mono [OF gesture_end_acts [OF inv]]) (auto intro: e)
  show "clock_fits E \<Longrightarrow> runs (dnd_scroll_gesture_end E s) (keeps E s)"
    by (rule runs_mono [OF dnd_scroll_end_acts [OF inv]]) (auto intro: e)
  show "clock_fits E \<Longrightarrow> runs (map_option snd (dnd_scroll_gesture_scroll E x s)) (keeps E s)"
    by (rule runs_keeps_snd_id, rule runs_mono [OF dnd_scroll_acts [OF inv]]) auto
  show "t + HISTORY_LIMIT \<le> DURATION_MAX \<Longrightarrow> runs (map_option snd (view_offset_gesture_update x t b s)) (keeps E s)"
    by (rule runs_keeps_snd_id, rule runs_mono [OF gesture_update_acts [OF inv]]) auto
qed

lemma move_keeps:
  assumes el: "layout_element E" and inv: "space_inv E s"
  shows "runs (map_option snd (move_left E s)) (keeps E s)" and "runs (map_option snd (move_right E s)) (keeps E s)"
    and "runs (move_column_to_index E n s) (keeps E s)" and "runs (move_column_to_first E s) (keeps E s)"
    and "runs (move_column_to_last E s) (keeps E s)"
proof -
  have ne: "g_cols (grid E s) \<noteq> [] \<Longrightarrow> g_windows (g_move_col k (grid E s)) = g_windows (grid E s)" for k
    by (rule g_windows_move_col [OF grid_ok [OF inv]])
  have "g_cols (grid E s) \<noteq> [] \<or> g_active (grid E s) = 0"
    using space_inv_core [OF inv] by (auto simp: space_core_def)
  then have l: "g_windows (if g_active (grid E s) = 0 then grid E s else g_move_col (g_active (grid E s) - 1) (grid E s)) =
      g_windows (grid E s)"
    using ne by auto
  have r: "g_windows (if g_active (grid E s) + 1 \<ge> length (g_cols (grid E s)) then grid E s
      else g_move_col (g_active (grid E s) + 1) (grid E s)) = g_windows (grid E s)"
    using ne by (cases "sp_columns s = []") simp_all
  note M = move_columns_act [OF el inv]
  show "runs (map_option snd (move_left E s)) (keeps E s)" by (rule runs_keeps_snd [OF M(2) l])
  show "runs (map_option snd (move_right E s)) (keeps E s)" by (rule runs_keeps_snd [OF M(3) r])
  show "runs (move_column_to_index E n s) (keeps E s)" "runs (move_column_to_first E s) (keeps E s)"
    "runs (move_column_to_last E s) (keeps E s)"
    by (rule runs_keeps [OF M(1)] runs_keeps [OF M(4)] runs_keeps [OF M(5)]; use ne in simp)+
qed

context layout_element
begin

lemma set_modes_keep:
  assumes inv: "space_inv E s" and w: "space_has E w s"
  shows "runs (map_option snd (set_fullscreen E w b s)) (keeps E s)"
    and "runs (map_option snd (set_maximized E w b s)) (keeps E s)"
proof -
  have k: "keeps E s s'" if "acts E s id s' \<or> b \<and> c \<and> acts E s (g_consume_or_expel_right (Some w)) s'" for c s'
    using that
  proof (elim disjE conjE)
    assume "acts E s (g_consume_or_expel_right (Some w)) s'"
    then show ?thesis by (rule keeps_acts) (rule g_windows_consume_or_expel(2) [OF grid_ok [OF inv]])
  qed (rule keeps_id)
  show "runs (map_option snd (set_fullscreen E w b s)) (keeps E s)"
    unfolding runs_map_option by (rule runs_mono [OF set_modes_act(1) [OF inv w]], simp only: split_def, rule k)
  show "runs (map_option snd (set_maximized E w b s)) (keeps E s)"
    unfolding runs_map_option by (rule runs_mono [OF set_modes_act(2) [OF inv w]], simp only: split_def, rule k)
qed

lemma consume_keeps:
  assumes inv: "space_inv E s"
  shows "targets E s ow \<Longrightarrow> runs (consume_or_expel_window_left E ow s) (keeps E s)"
    and "targets E s ow \<Longrightarrow> runs (consume_or_expel_window_right E ow s) (keeps E s)"
    and "runs (consume_into_column E s) (keeps E s)" and "runs (expel_from_column E s) (keeps E s)"
    and "runs (swap_window_in_direction E d s) (keeps E s)"
  by (rule runs_keeps [OF consume_or_expel_left_acts [OF inv]] runs_keeps [OF consume_or_expel_right_acts [OF inv]]
      runs_keeps [OF consume_into_acts [OF inv]] runs_keeps [OF expel_from_acts [OF inv]]
      runs_keeps [OF swap_acts [OF inv]];
    simp add: g_windows_consume_or_expel g_windows_consume_into g_windows_expel_from g_windows_swap grid_ok inv)+

lemma resize_keeps:
  assumes inv: "space_inv E s"
  shows "space_has E w s \<Longrightarrow> runs (map_option snd (interactive_resize_begin E w edges s)) (keeps E s)"
    and "runs (map_option snd (interactive_resize_update E w p s)) (keeps E s)"
    and "runs (interactive_resize_end E ow s) (keeps E s)"
    and "runs (map_option snd (space_start_open_animation E w s)) (keeps E s)"
proof -
  show "space_has E w s \<Longrightarrow> runs (map_option snd (interactive_resize_begin E w edges s)) (keeps E s)"
    by (rule runs_keeps_snd_id, rule runs_mono [OF interactive_resize_begin_acts [OF inv]]) auto
  show "runs (map_option snd (interactive_resize_update E w p s)) (keeps E s)"
    by (rule runs_keeps_snd_id [OF interactive_resize_update_acts [OF inv]])
  show "runs (interactive_resize_end E ow s) (keeps E s)"
    by (rule runs_keeps_id, rule runs_mono [OF interactive_resize_end_acts [OF inv]]) auto
  show "runs (map_option snd (space_start_open_animation E w s)) (keeps E s)"
    by (rule runs_keeps_snd_id [OF space_start_open_acts [OF inv]])
qed

lemma view_keeps:
  assumes inv: "space_inv E s"
  shows "runs (center_column E s) (keeps E s)" and "runs (center_visible_columns E s) (keeps E s)"
    and "runs (align_visible_columns_left E s) (keeps E s)" and "runs (expand_column_to_available_width E s) (keeps E s)"
    and "runs (toggle_width E b s) (keeps E s)" and "runs (toggle_full_width E s) (keeps E s)"
    and "targets E s ow \<Longrightarrow> runs (center_window E ow s) (keeps E s)"
    and "targets E s ow \<Longrightarrow> runs (set_window_width E ow ch s) (keeps E s)"
    and "targets E s ow \<Longrightarrow> runs (set_window_height E ow ch s) (keeps E s)"
    and "targets E s ow \<Longrightarrow> runs (reset_window_height E ow s) (keeps E s)"
    and "targets E s ow \<Longrightarrow> runs (toggle_window_width E ow b s) (keeps E s)"
    and "targets E s ow \<Longrightarrow> runs (toggle_window_height E ow b s) (keeps E s)"
    and "space_has E w s \<Longrightarrow> runs (update_window E w serial s) (keeps E s)"
proof -
  have none: "targets E s None" by (simp add: targets_def)
  show "runs (toggle_width E b s) (keeps E s)" "runs (toggle_full_width E s) (keeps E s)"
    by (rule runs_keeps_id [OF resize_actions_act(1) [OF inv none]]
        runs_keeps_id [OF resize_actions_act(2) [OF inv none]])+
qed (rule runs_keeps_id; rule center_column_acts align_visible_acts expand_column_acts center_window_acts
    resize_actions_act update_window_acts; (assumption | rule inv))+

lemma display_keeps:
  assumes inv: "space_inv E s"
  shows "windows_once E s \<Longrightarrow> runs (set_column_display E d s) (keeps E s)"
    and "windows_once E s \<Longrightarrow> runs (toggle_column_tabbed_display E s) (keeps E s)"
  by (rule runs_keeps_id, rule set_column_display_acts toggle_tabbed_acts; (assumption | rule inv))+

lemma run_space_keeps:
  assumes inv: "space_inv E s" and ok: "space_allows E a s"
  shows "runs (run_space E a s) (keeps E s)"
proof -
  have el: "layout_element E" by unfold_locales
  note k = focus_keeps [OF inv] vertical_keeps [OF inv] focus_or_keeps [OF inv] move_keeps [OF el inv]
    consume_keeps [OF inv] set_modes_keep [OF inv] resize_keeps [OF inv] view_keeps [OF inv]
    gesture_keeps [OF inv] display_keeps [OF inv]
  note g = keeps_id [OF gesture_begin_acts(1) [OF inv]] keeps_id [OF gesture_begin_acts(2) [OF inv]]
    keeps_id [OF space_advance_acts [OF inv]]
  show ?thesis
    by (insert ok, cases a; simp only: run_space.simps space_allows.simps runs_Some g; (rule k; assumption)?)
qed

end

end
