(* ===== verification/Layout_Scrolling_Props.thy ===== *)
theory Layout_Scrolling_Props
  imports Layout_Scrolling_Run
begin

text \<open>
  The properties of the scrolling layout, over its reachable states, and a sample environment on which
  they are exercised: the test window of the repository with animations off.
\<close>

section \<open>Reachable states\<close>

text \<open>
  From an empty layout with a valid configuration, by any action, by adding a window or a column,
  by removing one, and by changing the configuration. The presets of a new configuration may differ
  from the old ones only while no tile has height 0 (\<^term>\<open>reconfigurable\<close>): otherwise the median by
  which the heights are converted may be 0.
\<close>

inductive space_reachable :: "('w, 'id) LayoutEnv \<Rightarrow> ('w, 'id) Space \<Rightarrow> bool" for E where
  new: "options_ok opts \<Longrightarrow> space_reachable E (space_new E vs pa sc opts)"
| act: "space_reachable E s \<Longrightarrow> space_allows E a s \<Longrightarrow> run_space E a s = Some s' \<Longrightarrow> space_reachable E s'"
| add: "space_reachable E s \<Longrightarrow> tile_fits E s t \<Longrightarrow> insert_idx idx s \<le> length (sp_columns s) \<Longrightarrow>
     option_ok anim_config_ok ac \<Longrightarrow> add_tile E idx t activate w fw ac s = Some s' \<Longrightarrow> space_reachable E s'"
| add_to: "space_reachable E s \<Longrightarrow> ci < length (sp_columns s) \<Longrightarrow> tile_ok E t \<Longrightarrow>
     option_ok (\<lambda>i. i \<le> length (c_tiles (sp_columns s ! ci))) ti \<Longrightarrow>
     add_tile_to_column E ci ti t activate s = Some s' \<Longrightarrow> space_reachable E s'"
| add_right: "space_reachable E s \<Longrightarrow> tile_fits E s t \<Longrightarrow>
     add_tile_right_of E i t activate w fw s = Some s' \<Longrightarrow> space_reachable E s'"
| add_column: "space_reachable E s \<Longrightarrow> column_inv E c \<Longrightarrow> reconfigurable E (sp_options s) c \<Longrightarrow>
     insert_idx idx s \<le> length (sp_columns s) \<Longrightarrow> option_ok anim_config_ok ac \<Longrightarrow>
     add_column E idx c activate ac s = Some s' \<Longrightarrow> space_reachable E s'"
| remove: "space_reachable E s \<Longrightarrow> remove_tile E i s = Some (r, s') \<Longrightarrow> space_reachable E s'"
| remove_active: "space_reachable E s \<Longrightarrow> remove_active_tile E s = Some (ro, s') \<Longrightarrow> space_reachable E s'"
| remove_column: "space_reachable E s \<Longrightarrow> remove_active_column E s = Some (co, s') \<Longrightarrow> space_reachable E s'"
| configure: "space_reachable E s \<Longrightarrow> options_ok opts \<Longrightarrow> \<forall>c \<in> set (sp_columns s). reconfigurable E opts c \<Longrightarrow>
     space_update_config E vs pa sc opts s = Some s' \<Longrightarrow> space_reachable E s'"

lemma runs_SomeD: "runs m P \<Longrightarrow> m = Some x \<Longrightarrow> P x"
  by simp

text \<open>Removing: the window that is named, the active one, or the active column.\<close>

context layout_element
begin

lemma remove_tile_ok:
  assumes inv: "space_inv E s" and has: "space_has E w s"
  shows "runs (remove_tile E w s) (\<lambda>(r, s'). space_inv E s' \<and> space_env s s' \<and>
     el_id E (tl_window (rm_tile r)) = w \<and> windows E s = add_mset w (windows E s'))"
proof -
  obtain ci where ci: "space_column_of E w s = Some ci" using has by (auto simp: space_column_of_has)
  then have cl: "ci < length (sp_columns s)" and cc: "column_contains E w (sp_columns s ! ci)"
    using vec_position_SomeD [of "column_contains E w" "sp_columns s" ci] by (simp_all add: space_column_of_def)
  obtain ti where ti: "column_position E w (sp_columns s ! ci) = Some ti"
    using cc vec_position_None [of "\<lambda>t. el_id E (tl_window t) = w" "c_tiles (sp_columns s ! ci)"]
    by (auto simp: column_contains_def column_position_def simp flip: not_None_eq)
  note tl = column_position_SomeD [OF ti]
  have ids: "fst (g_cols (grid E s) ! ci) ! ti = w" using cl tl by (simp add: column_cell_def)
  have b: "ci < length (g_cols (grid E s))" "ti < length (fst (g_cols (grid E s) ! ci))"
    using cl tl by (simp_all add: column_cell_def)
  have w: "column_ids E (sp_columns s ! ci) ! ti = w" using tl by simp
  have "runs (remove_tile_by_idx E ci ti None s) (\<lambda>(r, s'). space_inv E s' \<and> space_env s s' \<and>
     el_id E (tl_window (rm_tile r)) = w \<and> windows E s = add_mset w (windows E s'))"
    by (rule runs_mono [OF remove_tile_acts [OF inv cl conjunct1 [OF tl]]])
       (use g_windows_remove_tile [OF b] ids w in \<open>auto simp: acts_def tile_taken_def windows_grid\<close>)
  then show ?thesis using ci cl ti by (simp add: remove_tile_def vec_get_def)
qed

lemma remove_active_ok:
  assumes inv: "space_inv E s"
  shows "runs (remove_active_tile E s) (\<lambda>(ro, s'). space_inv E s')"
    and "runs (remove_active_column E s) (\<lambda>(co, s'). space_inv E s')"
proof -
  have "runs (remove_active_tile E s) (\<lambda>(ro, s'). space_inv E s') \<and>
      runs (remove_active_column E s) (\<lambda>(co, s'). space_inv E s')"
  proof (cases "sp_columns s = []")
    case False
    note a = space_core_active [OF space_inv_core [OF inv] False]
    note t = column_invD(2) [OF space_partsD(3) [OF space_inv_parts [OF inv] a]]
    have "runs (remove_tile_by_idx E (sp_active_column_idx s) (c_active_tile_idx (sp_columns s ! sp_active_column_idx s))
        None s) (\<lambda>(r, s'). space_inv E s')"
      by (rule runs_mono [OF remove_tile_acts [OF inv a t]]) (auto dest: acts_inv)
    moreover have "runs (remove_column_by_idx E (sp_active_column_idx s) None s) (\<lambda>(c, s'). space_inv E s')"
      by (rule runs_mono [OF remove_column_ok [OF inv a]]) auto
    ultimately show ?thesis
      using False a
      by (auto simp: remove_active_tile_def remove_active_column_def vec_get_def split_def elim!: runs_mono)
  qed (simp add: remove_active_tile_def remove_active_column_def inv)
  then show "runs (remove_active_tile E s) (\<lambda>(ro, s'). space_inv E s')"
    "runs (remove_active_column E s) (\<lambda>(co, s'). space_inv E s')" by simp_all
qed

lemma reachable_inv: "space_reachable E s \<Longrightarrow> space_inv E s"
proof (induction rule: space_reachable.induct)
  case (new opts vs pa sc)
  then show ?case by (rule space_new_inv)
next
  case (act s a s')
  from runs_SomeD [OF run_space_keeps [OF act.IH act.hyps(2)] act.hyps(3)] show ?case by (simp add: keeps_def)
next
  case (add s t idx ac activate w fw s')
  from runs_SomeD [OF add_tile_ok [OF add.IH add.hyps(2-4)] add.hyps(5)] show ?case by simp
next
  case (add_to s ci t ti activate s')
  from runs_SomeD [OF add_tile_to_column_ok [OF add_to.IH add_to.hyps(2-4)] add_to.hyps(5)] show ?case by simp
next
  case (add_right s t i activate w fw s')
  then obtain k where k: "space_column_of E i s = Some k"
    "add_tile E (Some (k + 1)) t activate w fw None s = Some s'"
    by (auto simp: add_tile_right_of_def bind_eq_Some_conv)
  then have "insert_idx (Some (k + 1)) s \<le> length (sp_columns s)"
    using vec_position_SomeD [of "column_contains E i" "sp_columns s" k] by (simp add: space_column_of_def)
  from runs_SomeD [OF add_tile_ok [OF add_right.IH add_right.hyps(2) this] k(2)] show ?case by simp
next
  case (add_column s c idx ac activate s')
  from runs_SomeD [OF add_column_ok [OF add_column.IH add_column.hyps(2-5)] add_column.hyps(6)] show ?case by simp
next
  case (remove s i r s')
  then have "space_has E i s" by (auto simp: remove_tile_def bind_eq_Some_conv space_column_of_has)
  from runs_SomeD [OF remove_tile_ok [OF remove.IH this] remove.hyps(2)] show ?case by simp
next
  case (remove_active s ro s')
  from runs_SomeD [OF remove_active_ok(1) [OF remove_active.IH] remove_active.hyps(2)] show ?case by simp
next
  case (remove_column s co s')
  from runs_SomeD [OF remove_active_ok(2) [OF remove_column.IH] remove_column.hyps(2)] show ?case by simp
next
  case (configure s opts vs pa sc s')
  from runs_SomeD [OF space_update_config_ok [OF configure.IH configure.hyps(2,3)] configure.hyps(4)] show ?case by simp
qed

end

section \<open>A sample\<close>

definition no_anim :: AnimConfig where
  "no_anim = \<lparr>ac_off = True, ac_kind = CfgEasing \<lparr>ep_duration_ms = 0, ep_curve = CfgLinear\<rparr>\<rparr>"

definition sample_layout :: LayoutConfig where
  "sample_layout =
     \<lparr>lc_border = \<lparr>b_off = True, b_width = 4\<rparr>,
      lc_tab_indicator = \<lparr>tc_off = True, tc_hide_when_single_tab = False, tc_place_within_column = False,
        tc_gap = 5, tc_width = 4, tc_position = TabLeft\<rparr>,
      lc_preset_column_widths = [PresetProportion (1 / 2)], lc_default_column_width = Some (PresetProportion (1 / 2)),
      lc_preset_window_heights = [PresetProportion (1 / 2)],
      lc_center_focused_column = CenterNever, lc_always_center_single_column = False,
      lc_empty_workspace_above_first = False,
      lc_default_column_display = DisplayNormal, lc_gaps = 16,
      lc_struts = \<lparr>st_left = 0, st_right = 0, st_top = 0, st_bottom = 0\<rparr>\<rparr>"

definition sample_options :: Options where
  "sample_options =
     \<lparr>op_layout = sample_layout,
      op_animations = \<lparr>acs_window_open = no_anim, acs_window_close = no_anim, acs_horizontal_view_movement = no_anim,
        acs_window_movement = no_anim, acs_window_resize = no_anim\<rparr>,
      op_dnd_edge_view_scroll = \<lparr>dv_trigger_width = 30, dv_delay_ms = 100, dv_max_speed = 1500\<rparr>\<rparr>"

definition sample_env :: "(TestWindow, nat) LayoutEnv" where
  "sample_env = test_env sample_anim_env round_logical_in_physical round_logical_in_physical floor floor"

definition sample_window :: "nat \<Rightarrow> TestWindow" where
  "sample_window i =
     \<lparr>tw_id = i, tw_parent_id = None, tw_bbox_size = \<lparr>iw = 100, ih = 200\<rparr>, tw_initial_size = \<lparr>iw = 100, ih = 200\<rparr>,
      tw_requested_size = None, tw_forced_size = None, tw_min_size = \<lparr>iw = 0, ih = 0\<rparr>,
      tw_max_size = \<lparr>iw = 0, ih = 0\<rparr>, tw_pending_sizing_mode = Normal, tw_sizing_mode = Normal,
      tw_is_windowed_fullscreen = False, tw_is_pending_windowed_fullscreen = False,
      tw_animate_next_configure = False, tw_animation_snapshot = None,
      tw_rules = \<lparr>wr_border = \<lparr>br_off = False, br_on = False, br_width = None\<rparr>,
        wr_default_column_display = None, wr_baba_is_float = None, wr_default_floating_position = None,
        wr_min_width = None, wr_min_height = None, wr_max_width = None, wr_max_height = None\<rparr>\<rparr>"

abbreviation sample_size :: Size where "sample_size \<equiv> \<lparr>sw = 1280, sh = 720\<rparr>"
abbreviation sample_area :: Rect where "sample_area \<equiv> \<lparr>r_loc = point_zero, r_size = sample_size\<rparr>"

definition sample_tile :: "nat \<Rightarrow> TestWindow Tile" where
  "sample_tile i = tile_new sample_env (sample_window i) sample_size 1 sample_options"

definition sample_space :: "(TestWindow, nat) Space" where
  "sample_space = space_new sample_env sample_size sample_area 1 sample_options"

lemma sample_element: "layout_element sample_env"
  unfolding sample_env_def by unfold_locales

interpretation sample: layout_element sample_env
  by (rule sample_element)

lemma sample_options_ok: "options_ok sample_options"
  by (simp add: options_ok_def animations_config_ok_def anim_config_ok_def sample_options_def sample_layout_def
      no_anim_def)

lemma sample_reachable: "space_reachable sample_env sample_space"
  unfolding sample_space_def by (rule space_reachable.new [OF sample_options_ok])

lemma sample_tile_ok: "tile_ok sample_env (sample_tile i)" "el_id sample_env (tl_window (sample_tile i)) = i"
  using sample_options_ok
  by (simp_all add: tile_ok_def presets_ok_def sample_tile_def tile_new_def sample_env_def test_env_def sample_window_def)

lemma sample_tile_fits: "space_reachable sample_env s \<Longrightarrow> sp_options s = sample_options \<Longrightarrow>
    tile_fits sample_env s (sample_tile i)"
  using sample_tile_ok by (simp add: tile_fits_def sample_tile_def tile_new_def)

text \<open>A reachable layout with windows 1 and 2 in two columns, the second one active.\<close>

lemma sample_two:
  obtains s where "space_reachable sample_env s" and "windows sample_env s = {#1, 2#}"
    and "grid sample_env s = \<lparr>g_cols = [([1], 0), ([2], 0)], g_active = 1, g_prev = True\<rparr>"
    and "sp_options s = sample_options"
proof -
  note inv0 = sample.reachable_inv [OF sample_reachable]
  have o: "sp_options sample_space = sample_options" by (simp add: sample_space_def space_new_def)
  have g0: "grid sample_env sample_space = \<lparr>g_cols = [], g_active = 0, g_prev = False\<rparr>"
    unfolding sample_space_def by (rule grid_new)
  have ac: "option_ok anim_config_ok None" by simp
  have i0: "insert_idx (Some 0) sample_space \<le> length (sp_columns sample_space)" by simp
  obtain s1 where s1: "add_tile sample_env (Some 0) (sample_tile 1) True (Proportion (1/2)) False None sample_space = Some s1"
    "space_inv sample_env s1" "space_env sample_space s1"
    "grid sample_env s1 = g_add 0 ([1], 0) True (grid sample_env sample_space)"
    using runsD [OF sample.add_tile_ok [OF inv0 sample_tile_fits [OF sample_reachable o] i0 ac]] sample_tile_ok(2) by fastforce
  have r1: "space_reachable sample_env s1"
    by (rule space_reachable.add [OF sample_reachable sample_tile_fits [OF sample_reachable o] i0 ac s1(1)])
  have o1: "sp_options s1 = sample_options" using s1(3) o by (simp add: space_env_def)
  have g1: "grid sample_env s1 = \<lparr>g_cols = [([1], 0)], g_active = 0, g_prev = False\<rparr>"
    by (simp add: s1(4) g0 g_add_def g_activate_def)
  have i1: "insert_idx (Some 1) s1 \<le> length (sp_columns s1)" using grid_length [OF g1] by simp
  obtain s2 where s2: "add_tile sample_env (Some 1) (sample_tile 2) True (Proportion (1/2)) False None s1 = Some s2"
    "space_inv sample_env s2" "space_env s1 s2"
    "grid sample_env s2 = g_add 1 ([2], 0) True (grid sample_env s1)"
    using runsD [OF sample.add_tile_ok [OF s1(2) sample_tile_fits [OF r1 o1] i1 ac]] sample_tile_ok(2) by fastforce
  have r2: "space_reachable sample_env s2"
    by (rule space_reachable.add [OF r1 sample_tile_fits [OF r1 o1] i1 ac s2(1)])
  have g2: "grid sample_env s2 = \<lparr>g_cols = [([1], 0), ([2], 0)], g_active = 1, g_prev = True\<rparr>"
    by (simp add: s2(4) g1 g_add_def g_activate_def)
  moreover have "windows sample_env s2 = {#1, 2#}" by (simp add: windows_grid g2 g_windows_def)
  moreover have "sp_options s2 = sample_options" using s2(3) o1 by (simp add: space_env_def)
  ultimately show thesis using that r2 by blast
qed

end
