(* ===== verification/Layout_Scrolling_Claims.thy ===== *)
theory Layout_Scrolling_Claims
  imports Layout_Scrolling_Props
begin

text \<open>
  What the scrolling layout guarantees: its invariant, that no action panics, what adding, removing,
  moving and swapping do, where the view ends up, and two places where the code does not do what it
  says.
\<close>

section \<open>Safety\<close>

text \<open>C2. In every reachable state of the scrolling layout its invariant holds: what
  \<^verbatim>\<open>verify_invariants\<close> asserts on the columns, their cached widths, the active indices, the saved
  view offset and the interactive resize, whatever actions, insertions, removals and changes of the
  configuration came before. The steps are all the actions, those that change the display mode of a
  column included, and all that adds, removes or configures. They suppose that a window which an action
  names is present, that no window is present twice when a display mode is changed, that the tiles that
  are added have the preset heights of the layout, that timestamps are more than 150 ms below the largest
  \<^verbatim>\<open>Duration\<close>, and that new preset heights do not meet a tile of height 0.\<close>

theorem scrolling_invariant:
  assumes "layout_element E" and "space_reachable E s"
  shows "space_inv E s"
  by (rule layout_element.reachable_inv [OF assms])

theorem scrolling_invariant_witness:
  "\<exists>s. space_reachable sample_env s \<and> windows sample_env s = {#1, 2#} \<and> space_inv sample_env s"
  by (rule sample_two) (use scrolling_invariant [OF sample_element] in blast)

text \<open>C3. No action panics in a reachable state, and none of them loses, duplicates or adds a window
  or changes the environment of the layout: focusing, moving, consuming, expelling, swapping, resizing,
  fullscreening, switching a column between the normal and the tabbed display, gestures, animations and
  the commits of windows. What \<^term>\<open>space_allows\<close> asks of the caller: a window that the action names is
  in the layout, no window is in the layout twice when a display mode is changed, and timestamps are
  more than 150 ms below the largest \<^verbatim>\<open>Duration\<close>.\<close>

theorem space_actions_never_panic:
  assumes "layout_element E" and "space_reachable E s" and "space_allows E a s"
  shows "\<exists>s'. run_space E a s = Some s' \<and> windows E s' = windows E s \<and> space_env s s'"
  using layout_element.run_space_keeps [OF assms(1) layout_element.reachable_inv [OF assms(1,2)] assms(3)]
  by (auto simp: runs_iff keeps_def)

theorem space_actions_never_panic_witness:
  "\<exists>s s'. windows sample_env s = {#1, 2#} \<and> run_space sample_env (DoSetColumnDisplay DisplayTabbed) s = Some s' \<and>
     windows sample_env s' = {#1, 2#}"
proof (rule sample_two)
  fix s assume s: "space_reachable sample_env s" "windows sample_env s = {#1, 2#}"
  have "space_allows sample_env (DoSetColumnDisplay DisplayTabbed) s" by (simp add: windows_once_def s(2))
  from space_actions_never_panic [OF sample_element s(1) this] show ?thesis using s(2) by auto
qed

section \<open>Adding and removing\<close>

lemma grid_ids: "map fst (g_cols (grid E s)) = map (column_ids E) (sp_columns s)"
  by (simp add: column_cell_def comp_def)



text \<open>The active window.\<close>

definition active_id :: "('w, 'id) LayoutEnv \<Rightarrow> ('w, 'id) Space \<Rightarrow> 'id option" where
  "active_id E s = (case space_active_window s of Some (Some w) \<Rightarrow> Some (el_id E w) | _ \<Rightarrow> None)"

definition g_active_id :: "'id Grid \<Rightarrow> 'id option" where
  "g_active_id g = (if g_cols g = [] then None
     else Some (fst (g_cols g ! g_active g) ! snd (g_cols g ! g_active g)))"

lemma active_id_grid: "space_inv E s \<Longrightarrow> active_id E s = g_active_id (grid E s)"
  using space_core_active [OF space_inv_core, of E s]
    column_invD(2) [OF space_partsD(3) [OF space_inv_parts], of E s "sp_active_column_idx s"]
  by (auto simp: active_id_def g_active_id_def space_active_window_def vec_get_def column_cell_def)

lemma remove_cell_active:
  assumes "a < length ids" and "ti < length ids" and "ti \<noteq> a" and "cell_remove ti (ids, a) = (ids', a')"
  shows "ids' ! a' = ids ! a"
proof -
  have e: "ids' = list_remove ti ids" "a' = (if ti < a then a - 1 else a)"
    using assms(3,4) by (auto split: if_splits)
  have "a' < length ids - 1" using assms(1-3) e(2) by (auto split: if_splits)
  from list_remove_nth [OF assms(2) this] show ?thesis using e assms(3) by (auto split: if_splits)
qed

lemma g_remove_keeps_active:
  assumes g: "g_ok g" and b: "ci < length (g_cols g)" "ti < length (fst (g_cols g ! ci))"
    and other: "g_active_id g \<noteq> Some (fst (g_cols g ! ci) ! ti)"
  shows "g_active_id (g_remove_tile ci ti g) = g_active_id g"
proof (cases "length (fst (g_cols g ! ci)) = 1")
  case False
  obtain ids a where c: "g_cols g ! ci = (ids, a)" by (cases "g_cols g ! ci")
  obtain ids' a' where c': "cell_remove ti (ids, a) = (ids', a')" by (cases "cell_remove ti (ids, a)")
  have "a < length ids" using g_okD(1) [OF g b(1)] c by simp
  moreover have "ci = g_active g \<Longrightarrow> ti \<noteq> a" using other c b(1) by (cases "g_cols g") (auto simp: g_active_id_def)
  ultimately have "ci = g_active g \<Longrightarrow> ids' ! a' = ids ! a" using remove_cell_active [OF _ _ _ c'] b(2) c by simp
  with False b(1) c c' show ?thesis
    by (cases "ci = g_active g") (auto simp: g_remove_tile_def g_active_id_def)
next
  case True
  have ne: "g_cols g \<noteq> []" using b by auto
  have a: "g_active g < length (g_cols g)" by (rule g_okD(2) [OF g ne])
  have "ti = 0" using True b(2) by simp
  moreover have "snd (g_cols g ! ci) = 0" using g_okD(1) [OF g b(1)] True by simp
  ultimately have nca: "ci \<noteq> g_active g" using other ne by (auto simp: g_active_id_def)
  define k where "k = (if ci < g_active g then g_active g - 1 else g_active g)"
  have k: "k < length (g_cols g) - 1" using a b(1) nca by (auto simp: k_def)
  have "list_remove ci (g_cols g) ! k = g_cols g ! g_active g"
    using list_remove_nth [OF b(1) k] nca by (auto simp: k_def split: if_splits)
  moreover have "list_remove ci (g_cols g) \<noteq> []" using k length_list_remove [OF b(1)] by (metis list.size(3) not_less_zero)
  moreover have "g_active (g_remove_col ci g) = k"
  proof -
    define L where "L = list_remove ci (g_cols g)"
    have L: "L \<noteq> []" "length L = length (g_cols g) - 1"
      using calculation(2) length_list_remove [OF b(1)] by (simp_all only: L_def not_False_eq_True)
    show ?thesis
      unfolding g_remove_col_def L_def [symmetric] Let_def
      using L k nca by (cases "ci < g_active g") (simp_all add: g_neighbour_def k_def g_activate_def min_def)
  qed
  ultimately show ?thesis using True ne by (simp add: g_remove_tile_def g_active_id_def)
qed

text \<open>C10. Removing a window that is in the layout never panics, hands back a tile of that window, and
  takes exactly that window away; if another window was active, it stays the active one.\<close>

theorem remove_tile_exact:
  assumes "layout_element E" and "space_reachable E s" and "space_has E w s"
  shows "\<exists>r s'. remove_tile E w s = Some (r, s') \<and> el_id E (tl_window (rm_tile r)) = w \<and>
     windows E s = add_mset w (windows E s') \<and>
     (active_id E s \<noteq> Some w \<longrightarrow> active_id E s' = active_id E s)"
proof -
  note inv = layout_element.reachable_inv [OF assms(1,2)]
  obtain ci where ci: "space_column_of E w s = Some ci" using assms(3) by (auto simp: space_column_of_has)
  obtain r s' where r: "remove_tile E w s = Some (r, s')" "space_inv E s'"
      "el_id E (tl_window (rm_tile r)) = w" "windows E s = add_mset w (windows E s')"
    using layout_element.remove_tile_ok [OF assms(1) inv assms(3)] by (auto simp: runs_iff)
  obtain ti where cl: "ci < length (sp_columns s)" and ti: "column_position E w (sp_columns s ! ci) = Some ti"
    and rm: "remove_tile_by_idx E ci ti None s = Some (r, s')"
    using r(1) ci by (auto simp: remove_tile_def vec_get_def bind_eq_Some_conv split: if_splits)
  note tl = column_position_SomeD [OF ti]
  have ac: "option_ok anim_config_ok None" by simp
  have "grid E s' = g_remove_tile ci ti (grid E s)"
    using runs_SomeD [OF layout_element.remove_tile_acts [OF assms(1) inv cl conjunct1 [OF tl] ac] rm]
    by (simp add: acts_def)
  moreover have "ci < length (g_cols (grid E s))" "ti < length (fst (g_cols (grid E s) ! ci))"
    "fst (g_cols (grid E s) ! ci) ! ti = w"
    using cl tl by (simp_all add: column_cell_def)
  ultimately have "active_id E s \<noteq> Some w \<Longrightarrow> active_id E s' = active_id E s"
    using g_remove_keeps_active [OF grid_ok [OF inv], of ci ti]
    by (simp only: active_id_grid [OF inv] active_id_grid [OF r(2)] simp_thms)
  with r show ?thesis by blast
qed

theorem remove_tile_exact_witness:
  "\<exists>s r s'. windows sample_env s = {#1, 2#} \<and> remove_tile sample_env 1 s = Some (r, s') \<and>
     windows sample_env s' = {#2#} \<and> active_id sample_env s' = Some 2"
proof (rule sample_two)
  fix s assume s: "space_reachable sample_env s" "windows sample_env s = {#1, 2#}"
    "grid sample_env s = \<lparr>g_cols = [([1], 0), ([2], 0)], g_active = 1, g_prev = True\<rparr>"
  have inv: "space_inv sample_env s" by (rule sample.reachable_inv [OF s(1)])
  have a: "active_id sample_env s = Some 2" by (simp add: active_id_grid [OF inv] s(3) g_active_id_def)
  have "\<exists>c \<in> set (map (column_cell sample_env) (sp_columns s)). 1 \<in> set (fst c)"
    using arg_cong [OF s(3), of g_cols] by simp
  then have has: "space_has sample_env 1 s"
    by (auto simp: space_has_def column_contains_cell)
  obtain r s' where r: "remove_tile sample_env 1 s = Some (r, s')" "windows sample_env s = add_mset 1 (windows sample_env s')"
    "active_id sample_env s \<noteq> Some 1 \<longrightarrow> active_id sample_env s' = active_id sample_env s"
    using remove_tile_exact [OF sample_element s(1) has] by blast
  then have "windows sample_env s' = {#2#}" using s(2) by simp
  moreover have "active_id sample_env s' = Some 2" using r(3) a by simp
  ultimately show ?thesis using s(2) r(1) by blast
qed

section \<open>Focus and the view\<close>

text \<open>C24. After a change of focus to another column, the view settles where that column is entirely in
  the working area (in the whole output when it is maximized), as far as it fits; a fullscreen column
  starts at the left edge of the view.\<close>

theorem focus_shows_column:
  assumes "layout_element E" and "space_reachable E s" and "idx < length (sp_columns s)"
    and "idx \<noteq> sp_active_column_idx s"
  shows "\<exists>s'. activate_column E idx s = Some s' \<and> sp_active_column_idx s' = idx \<and>
     (let mode = column_sizing_mode (sp_columns s ! idx); area = mode_area s mode;
          x = column_xs s ! idx; w = cd_width (sp_data s ! idx); offset = vo_target (sp_view_offset s')
      in if is_fullscreen mode then offset = 0
         else w \<le> sw (r_size area) \<longrightarrow>
           x + offset + px (r_loc area) \<le> x \<and>
           x + w \<le> x + offset + px (r_loc area) + sw (r_size area))"
  using activate_column_ok [OF space_inv_core [OF layout_element.reachable_inv [OF assms(1,2)]] assms(3)] assms(4)
  by (auto simp: runs_iff space_activated_def in_view_def inside_def Let_def)

theorem focus_shows_column_witness:
  "\<exists>s s'. windows sample_env s = {#1, 2#} \<and> activate_column sample_env 0 s = Some s' \<and> sp_active_column_idx s' = 0"
proof (rule sample_two)
  fix s assume s: "space_reachable sample_env s" "windows sample_env s = {#1, 2#}"
    "grid sample_env s = \<lparr>g_cols = [([1], 0), ([2], 0)], g_active = 1, g_prev = True\<rparr>"
  have "length (sp_columns s) = 2" "sp_active_column_idx s = 1"
    using grid_length [OF s(3)] arg_cong [OF s(3), of g_active] by simp_all
  then show ?thesis using focus_shows_column [OF sample_element s(1), of 0] s(2) by auto
qed

text \<open>C29. A column starts where the widths of the columns before it, each followed by a gap, add up: the
  incremental computation of the positions agrees with the sum, for every column and for the end.\<close>

theorem column_x_is_prefix_sum:
  assumes "layout_element E" and "space_reachable E s" and "i \<le> length (sp_columns s)"
  shows "column_x i s = Some (\<Sum>d \<leftarrow> take i (sp_data s). cd_width d + space_gaps s)"
proof -
  note parts = space_inv_parts [OF layout_element.reachable_inv [OF assms(1,2)]]
  show ?thesis
    using column_x_Some [OF parts assms(3)] column_xs_nth [of i s] space_partsD(2) [OF parts] assms(3) by simp
qed

theorem column_x_is_prefix_sum_witness:
  "\<exists>s. windows sample_env s = {#1, 2#} \<and>
     column_x 1 s = Some (cd_width (sp_data s ! 0) + space_gaps s)"
proof (rule sample_two)
  fix s assume s: "space_reachable sample_env s" "windows sample_env s = {#1, 2#}"
    "grid sample_env s = \<lparr>g_cols = [([1], 0), ([2], 0)], g_active = 1, g_prev = True\<rparr>"
  have n: "length (sp_columns s) = 2" using grid_length [OF s(3)] by simp
  then have "length (sp_data s) = 2"
    using space_partsD(2) [OF space_inv_parts [OF sample.reachable_inv [OF s(1)]]] by simp
  then have "take 1 (sp_data s) = [sp_data s ! 0]" by (simp add: take_Suc_conv_app_nth)
  then show ?thesis using column_x_is_prefix_sum [OF sample_element s(1), of 1] n s(2) by auto
qed

section \<open>Moving and swapping\<close>

lemma list_remove_insert_same: "i \<le> length xs \<Longrightarrow> list_remove i (list_insert i x xs) = xs"
  by (simp add: min_def)

lemma g_move_back:
  assumes "0 < g_active g" and "g_active g < length (g_cols g)"
  shows "g_cols (g_move_col (g_active g) (g_move_col (g_active g - 1) g)) = g_cols g"
    and "g_active (g_move_col (g_active g) (g_move_col (g_active g - 1) g)) = g_active g"
    and "g_active (g_move_col (g_active g - 1) g) = g_active g - 1"
    and "length (g_cols (g_move_col (g_active g - 1) g)) = length (g_cols g)"
proof -
  let ?a = "g_active g" and ?L = "list_remove (g_active g) (g_cols g)" and ?x = "g_cols g ! g_active g"
  have l: "?a - 1 < length ?L" using assms length_list_remove [OF assms(2)] by linarith
  have m: "g_cols (g_move_col (?a - 1) g) = list_insert (?a - 1) ?x ?L" "g_active (g_move_col (?a - 1) g) = ?a - 1"
    using assms(1) by (simp_all add: g_move_col_def)
  define u where "u = g_move_col (?a - 1) g"
  have u: "g_cols u = list_insert (?a - 1) ?x ?L" "g_active u = ?a - 1" by (simp_all only: u_def m)
  have e1: "g_cols u ! g_active u = ?x" unfolding u using l by (simp add: nth_append del: take_append)
  have e2: "list_remove (g_active u) (g_cols u) = ?L"
    unfolding u by (rule list_remove_insert_same [OF less_imp_le [OF l]])
  have e3: "list_insert ?a ?x ?L = g_cols g"
    using assms(2) list_insert_remove_same [OF assms(2), of ?x] by simp
  have "g_active u \<noteq> ?a" using u(2) assms(1) by simp
  then have e: "g_cols (g_move_col ?a u) = list_insert ?a (g_cols u ! g_active u) (list_remove (g_active u) (g_cols u))"
    by (simp add: g_move_col_def del: take_append drop_append)
  show "g_cols (g_move_col ?a (g_move_col (?a - 1) g)) = g_cols g"
    unfolding u_def [symmetric] e e1 e2 by (rule e3)
  show "g_active (g_move_col ?a (g_move_col (?a - 1) g)) = ?a"
    unfolding u_def [symmetric] using u(2) assms(1) by (simp add: g_move_col_def)
  show "g_active (g_move_col (?a - 1) g) = ?a - 1" by (rule m(2))
  show "length (g_cols (g_move_col (?a - 1) g)) = length (g_cols g)"
  proof -
    have "length (list_insert (?a - 1) ?x ?L) = Suc (length ?L)" using l by (simp del: take_append drop_append)
    then show ?thesis unfolding m(1) using l length_list_remove [OF assms(2)] assms(2) by linarith
  qed
qed

text \<open>C28. Moving the active column to the left and then to the right again restores the order of the
  columns and the focus.\<close>

theorem move_left_right:
  assumes "layout_element E" and "space_reachable E s" and "0 < sp_active_column_idx s"
  shows "\<exists>s1 s2. move_left E s = Some (True, s1) \<and> sp_active_column_idx s1 = sp_active_column_idx s - 1 \<and>
     move_right E s1 = Some (True, s2) \<and>
     map (column_ids E) (sp_columns s2) = map (column_ids E) (sp_columns s) \<and>
     sp_active_column_idx s2 = sp_active_column_idx s"
proof -
  note inv = layout_element.reachable_inv [OF assms(1,2)]
  have a: "sp_active_column_idx s < length (sp_columns s)"
    using space_inv_core [OF inv] assms(3) by (auto simp: space_core_def split: if_splits)
  note g = g_move_back [of "grid E s", unfolded grid_simps length_map, OF assms(3) a]
  obtain s1 where s1: "move_left E s = Some (True, s1)"
    "acts E s (\<lambda>g. if g_active g = 0 then g else g_move_col (g_active g - 1) g) s1"
    using move_columns_act(2) [OF assms(1) inv] assms(3) by (auto simp: runs_iff)
  have g1: "grid E s1 = g_move_col (sp_active_column_idx s - 1) (grid E s)"
    using s1(2) assms(3) by (simp add: acts_def)
  have a1: "sp_active_column_idx s1 = sp_active_column_idx s - 1" "length (sp_columns s1) = length (sp_columns s)"
    using arg_cong [OF g1, of g_active] grid_length [OF g1] g(3,4) by simp_all
  obtain s2 where s2: "move_right E s1 = Some (True, s2)"
    "acts E s1 (\<lambda>g. if g_active g + 1 \<ge> length (g_cols g) then g else g_move_col (g_active g + 1) g) s2"
    using move_columns_act(3) [OF assms(1) acts_inv [OF s1(2)]] assms(3) a a1 by (auto simp: runs_iff)
  have g2: "grid E s2 = g_move_col (sp_active_column_idx s) (g_move_col (sp_active_column_idx s - 1) (grid E s))"
  proof -
    have c: "\<not> length (g_cols (grid E s1)) \<le> g_active (grid E s1) + 1" and k: "g_active (grid E s1) + 1 = sp_active_column_idx s"
      using assms(3) a a1 by simp_all
    show ?thesis using s2(2) unfolding acts_def unfolding if_not_P [OF c] unfolding k unfolding g1 by (elim conjE)
  qed
  have "map fst (g_cols (grid E s2)) = map fst (g_cols (grid E s))" unfolding g2 grid_simps(1) g(1) ..
  then have "map (column_ids E) (sp_columns s2) = map (column_ids E) (sp_columns s)" by (simp only: grid_ids)
  moreover have "sp_active_column_idx s2 = sp_active_column_idx s"
    using arg_cong [OF g2, of g_active] g(2) by simp
  ultimately show ?thesis using s1(1) s2(1) a1(1) by blast
qed

theorem move_left_right_witness:
  "\<exists>s s1 s2. windows sample_env s = {#1, 2#} \<and> move_left sample_env s = Some (True, s1) \<and>
     move_right sample_env s1 = Some (True, s2) \<and> sp_active_column_idx s2 = 1"
proof (rule sample_two)
  fix s assume s: "space_reachable sample_env s" "windows sample_env s = {#1, 2#}"
    "grid sample_env s = \<lparr>g_cols = [([1], 0), ([2], 0)], g_active = 1, g_prev = True\<rparr>"
  have "sp_active_column_idx s = 1" using arg_cong [OF s(3), of g_active] by simp
  then show ?thesis using move_left_right [OF sample_element s(1)] s(2) by auto
qed

text \<open>Moving a column by one place exchanges two neighbours.\<close>

lemma list_move_neighbour:
  assumes "i + 1 < length xs"
  shows "list_insert (i + 1) (xs ! i) (list_remove i xs) = xs[i := xs ! (i + 1), i + 1 := xs ! i]"
    and "list_insert i (xs ! (i + 1)) (list_remove (i + 1) xs) = xs[i := xs ! (i + 1), i + 1 := xs ! i]"
proof -
  obtain A x y B where xs: "xs = A @ x # y # B" "length A = i"
    using assms that [of "take i xs" "xs ! i" "xs ! (i + 1)" "drop (i + 2) xs"]
    by (simp add: Cons_nth_drop_Suc)
  show "list_insert (i + 1) (xs ! i) (list_remove i xs) = xs[i := xs ! (i + 1), i + 1 := xs ! i]"
    and "list_insert i (xs ! (i + 1)) (list_remove (i + 1) xs) = xs[i := xs ! (i + 1), i + 1 := xs ! i]"
    using xs(2) by (simp_all add: xs(1) nth_append list_update_append)
qed

lemma g_move_col_neighbour:
  assumes "sc < length (g_cols g)" and "tc < length (g_cols g)" and "g_active g = sc" and "sc \<noteq> tc"
    and "tc = (if right then sc + 1 else sc - 1)"
  shows "g_cols (g_move_col tc g) = (g_cols g)[sc := g_cols g ! tc, tc := g_cols g ! sc]"
    and "g_active (g_move_col tc g) = tc"
proof -
  have m: "g_cols (g_move_col tc g) = list_insert tc (g_cols g ! sc) (list_remove sc (g_cols g))"
    using assms(3,4) by (simp add: g_move_col_def)
  show "g_active (g_move_col tc g) = tc" using assms(3,4) by (simp add: g_move_col_def)
  show "g_cols (g_move_col tc g) = (g_cols g)[sc := g_cols g ! tc, tc := g_cols g ! sc]"
  proof (cases right)
    case True
    then show ?thesis unfolding m using list_move_neighbour(1) [of sc "g_cols g"] assms(2,5) by simp
  next
    case False
    then have "sc = tc + 1" using assms(4,5) by simp
    then show ?thesis
      unfolding m using list_move_neighbour(2) [of tc "g_cols g"] assms(1) by (simp add: list_update_swap [of tc])
  qed
qed

text \<open>C23. Swapping windows with the neighbouring column exchanges the two active windows, whatever the
  sizes of the two columns - with one window in each of them the code moves the whole column instead:
  each takes the other's place, every other window stays, and the moved
  window remains in focus.\<close>

theorem swap_exchanges:
  assumes "layout_element E" and "space_reachable E s"
    and "tc = (if d = ScrollRight then sc + 1 else sc - 1)" and "sc = sp_active_column_idx s"
    and "d = ScrollLeft \<Longrightarrow> 0 < sc" and "tc < length (sp_columns s)"
    and "sa = c_active_tile_idx (sp_columns s ! sc)" and "ta = c_active_tile_idx (sp_columns s ! tc)"
  shows "\<exists>s'. swap_window_in_direction E d s = Some s' \<and> sp_active_column_idx s' = tc \<and>
     map (column_ids E) (sp_columns s') = (map (column_ids E) (sp_columns s))
       [sc := (column_ids E (sp_columns s ! sc))[sa := column_ids E (sp_columns s ! tc) ! ta],
        tc := (column_ids E (sp_columns s ! tc))[ta := column_ids E (sp_columns s ! sc) ! sa]] \<and>
     active_id E s' = active_id E s"
proof -
  note inv = layout_element.reachable_inv [OF assms(1,2)]
  have ne: "sp_columns s \<noteq> []" using assms(6) by auto
  have sc: "sc < length (sp_columns s)" using space_core_active [OF space_inv_core [OF inv] ne] assms(4) by simp
  note ok = grid_ok [OF inv]
  let ?g = "grid E s"
  define sids where "sids = column_ids E (sp_columns s ! sc)"
  define tids where "tids = column_ids E (sp_columns s ! tc)"
  have c: "g_cols ?g ! sc = (sids, sa)" "g_cols ?g ! tc = (tids, ta)"
    using sc assms(6-8) by (simp_all add: column_cell_def sids_def tids_def)
  have b: "sc < length (g_cols ?g)" "tc < length (g_cols ?g)" using sc assms(6) by simp_all
  have sct: "sc \<noteq> tc" using assms(3,5) by (cases d) auto
  have l: "sa < length sids" "ta < length tids" using g_okD(1) [OF ok b(1)] g_okD(1) [OF ok b(2)] c by simp_all
  obtain s' where s': "swap_window_in_direction E d s = Some s'" "acts E s (g_swap d) s'"
    using layout_element.swap_acts [OF assms(1) inv] by (auto simp: runs_iff)
  have far: "\<not> (g_cols ?g = [] \<or> d = ScrollLeft \<and> g_active ?g = 0 \<or> d = ScrollRight \<and> g_active ?g = length (g_cols ?g) - 1)"
    using ne assms(3-6) by auto
  have tcd: "(case d of ScrollLeft \<Rightarrow> sc - 1 | ScrollRight \<Rightarrow> sc + 1) = tc" using assms(3) by (cases d) simp_all
  have a: "g_active ?g = sc" using assms(4) by simp
  have "g_swap d ?g = (if length sids = 1 \<and> length tids = 1 then g_move_col tc ?g
      else g_swap_tiles (d = ScrollRight) sc tc ?g)"
    unfolding g_swap_def if_not_P [OF far] unfolding Let_def a tcd c fst_conv ..
  then have gs: "grid E s' = (if length sids = 1 \<and> length tids = 1 then g_move_col tc ?g
      else g_swap_tiles (d = ScrollRight) sc tc ?g)" using s'(2) by (simp add: acts_def)
  have sw: "g_cols (grid E s') = (g_cols ?g)[sc := (sids[sa := tids ! ta], sa), tc := (tids[ta := sids ! sa], ta)] \<and>
      g_active (grid E s') = tc"
  proof (cases "length sids = 1 \<and> length tids = 1")
    case True
    then obtain x y where xy: "sids = [x]" "tids = [y]" by (auto simp: length_Suc_conv)
    then have i: "sa = 0" "ta = 0" using l by simp_all
    show ?thesis
      using g_move_col_neighbour [OF b a sct assms(3)] unfolding gs if_P [OF True] c unfolding xy i by simp
  next
    case False
    show ?thesis
      using g_swap_tiles_cols [OF b assms(3) sct c(1) l(1) c(2) l(2) False] unfolding gs if_not_P [OF False] by blast
  qed
  note sw = conjunct1 [OF sw] conjunct2 [OF sw]
  have "map fst (g_cols (grid E s')) = (map fst (g_cols ?g))[sc := sids[sa := tids ! ta], tc := tids[ta := sids ! sa]]"
    by (simp only: sw(1) map_update fst_conv)
  then have ids: "map (column_ids E) (sp_columns s') = (map (column_ids E) (sp_columns s))
      [sc := sids[sa := tids ! ta], tc := tids[ta := sids ! sa]]"
    by (simp only: grid_ids)
  have "g_cols (grid E s') \<noteq> []" using far unfolding sw(1) by (simp del: grid_simps)
  moreover have "g_cols (grid E s') ! tc = (tids[ta := sids ! sa], ta)"
    unfolding sw(1) by (rule nth_list_update_eq) (simp only: length_list_update b(2))
  ultimately have "g_active_id (grid E s') = Some (sids ! sa)" using l(2) by (simp add: g_active_id_def sw(2) del: grid_simps)
  moreover have "g_active_id ?g = Some (sids ! sa)" using far c(1) a by (simp add: g_active_id_def del: grid_simps)
  ultimately have "active_id E s' = active_id E s"
    by (simp only: active_id_grid [OF inv] active_id_grid [OF acts_inv [OF s'(2)]])
  with s'(1) ids sw(2) show ?thesis by (auto simp: sids_def tids_def)
qed

text \<open>A reachable layout with two windows in the first column and one in the second, active one.\<close>

lemma sample_three:
  obtains s where "space_reachable sample_env s"
    and "grid sample_env s = \<lparr>g_cols = [([1, 3], 0), ([2], 0)], g_active = 1, g_prev = True\<rparr>"
proof (rule sample_two)
  fix s assume s: "space_reachable sample_env s"
    "grid sample_env s = \<lparr>g_cols = [([1], 0), ([2], 0)], g_active = 1, g_prev = True\<rparr>"
  have ci: "0 < length (sp_columns s)" using grid_length [OF s(2)] by simp
  have ti: "option_ok (\<lambda>i. i \<le> length (c_tiles (sp_columns s ! 0))) None" by simp
  obtain s' where s': "add_tile_to_column sample_env 0 None (sample_tile 3) False s = Some s'"
    "grid sample_env s' = g_add_to 0 None 3 False (grid sample_env s)"
    using sample.add_tile_to_column_ok [OF sample.reachable_inv [OF s(1)] ci sample_tile_ok(1) ti, of 3 False]
    by (auto simp: runs_iff sample_tile_ok(2))
  have "space_reachable sample_env s'" by (rule space_reachable.add_to [OF s(1) ci sample_tile_ok(1) ti s'(1)])
  moreover have "grid sample_env s' = \<lparr>g_cols = [([1, 3], 0), ([2], 0)], g_active = 1, g_prev = True\<rparr>"
    by (simp add: s'(2) s(2) g_add_to_def)
  ultimately show thesis by (rule that)
qed

theorem swap_exchanges_witness:
  "\<exists>s s'. space_reachable sample_env s \<and> map (column_ids sample_env) (sp_columns s) = [[1, 3], [2]] \<and>
     swap_window_in_direction sample_env ScrollLeft s = Some s' \<and>
     map (column_ids sample_env) (sp_columns s') = [[2, 3], [1]]"
proof (rule sample_three)
  fix s assume s: "space_reachable sample_env s"
    "grid sample_env s = \<lparr>g_cols = [([1, 3], 0), ([2], 0)], g_active = 1, g_prev = True\<rparr>"
  have ids: "map (column_ids sample_env) (sp_columns s) = [[1, 3], [2]]" using grid_ids [of sample_env s] by (simp add: s(2))
  have n: "length (sp_columns s) = 2" and a: "sp_active_column_idx s = 1"
    using grid_length [OF s(2)] arg_cong [OF s(2), of g_active] by simp_all
  have cells: "map (column_cell sample_env) (sp_columns s) = [([1, 3], 0), ([2], 0)]"
    using arg_cong [OF s(2), of g_cols] by simp
  have "column_cell sample_env (sp_columns s ! 0) = ([1, 3], 0)" "column_cell sample_env (sp_columns s ! 1) = ([2], 0)"
    using arg_cong [OF cells, of "\<lambda>xs. xs ! 0"] arg_cong [OF cells, of "\<lambda>xs. xs ! 1"] n by simp_all
  then have c: "column_ids sample_env (sp_columns s ! 0) = [1, 3]" "c_active_tile_idx (sp_columns s ! 0) = 0"
    "column_ids sample_env (sp_columns s ! 1) = [2]" "c_active_tile_idx (sp_columns s ! 1) = 0"
    by (simp_all add: column_cell_def)
  have i: "0 < length (sp_columns s)" using n by simp
  obtain s' where "swap_window_in_direction sample_env ScrollLeft s = Some s'"
    "map (column_ids sample_env) (sp_columns s') = [[1, 3], [2]][1 := [2][0 := [1, 3] ! 0], 0 := [1, 3][0 := [2] ! 0]]"
    using swap_exchanges [OF sample_element s(1), of 0 ScrollLeft 1 0 0] a i unfolding c ids by auto
  with s(1) ids show ?thesis by auto
qed

section \<open>Gestures, commits and configuration\<close>

text \<open>Ending a scroll gesture never panics and moves no window. It may move the focus to the column
  it snaps to; unlike every other change of focus, it then leaves the note that the previous column
  is to be activated when the active one is removed.\<close>

theorem gesture_end_keeps_note:
  assumes "layout_element E" and "space_reachable E s" and "clock_fits E"
  shows "\<exists>b s'. view_offset_gesture_end E touchpad s = Some (b, s') \<and>
     map (column_ids E) (sp_columns s') = map (column_ids E) (sp_columns s) \<and>
     (sp_columns s' \<noteq> [] \<longrightarrow> sp_active_column_idx s' < length (sp_columns s')) \<and>
     (sp_activate_prev_column_on_removal s' \<noteq> None \<longleftrightarrow> sp_activate_prev_column_on_removal s \<noteq> None)"
proof -
  note inv = layout_element.reachable_inv [OF assms(1,2)]
  obtain b s' where s': "view_offset_gesture_end E touchpad s = Some (b, s')"
    "acts E s id s' \<or> (\<exists>k < length (sp_columns s). acts E s (g_end_at k) s')"
    using gesture_end_acts [OF inv assms(3), of touchpad] by (auto simp only: runs_iff split_paired_Ex prod.case)
  obtain f where f: "acts E s f s'" "g_cols (f (grid E s)) = g_cols (grid E s)" "g_prev (f (grid E s)) = g_prev (grid E s)"
    using s'(2) by (auto simp: g_end_at_def)
  have "grid E s' = f (grid E s)" using f(1) by (simp add: acts_def)
  then have g: "g_cols (grid E s') = g_cols (grid E s)" "g_prev (grid E s') = g_prev (grid E s)" by (simp_all only: f)
  have "map (column_ids E) (sp_columns s') = map (column_ids E) (sp_columns s)"
    using arg_cong [OF g(1), of "map fst"] by (simp only: grid_ids)
  moreover have "sp_columns s' \<noteq> [] \<Longrightarrow> sp_active_column_idx s' < length (sp_columns s')"
    by (rule space_core_active [OF space_inv_core [OF acts_inv [OF f(1)]]])
  ultimately show ?thesis using s'(1) g(2) by auto
qed

theorem gesture_end_keeps_note_witness:
  "\<exists>s b s'. windows sample_env s = {#1, 2#} \<and>
     view_offset_gesture_end sample_env None (view_offset_gesture_begin sample_env True s) = Some (b, s') \<and>
     map (column_ids sample_env) (sp_columns s') = [[1], [2]] \<and> sp_activate_prev_column_on_removal s' \<noteq> None"
proof (rule sample_two)
  fix s assume s: "space_reachable sample_env s" "windows sample_env s = {#1, 2#}"
    "grid sample_env s = \<lparr>g_cols = [([1], 0), ([2], 0)], g_active = 1, g_prev = True\<rparr>"
  let ?t = "view_offset_gesture_begin sample_env True s"
  have t: "space_reachable sample_env ?t"
    by (rule space_reachable.act [OF s(1), of "DoGestureBegin True"]) simp_all
  have "sp_columns ?t = sp_columns s" "sp_activate_prev_column_on_removal ?t = sp_activate_prev_column_on_removal s"
    by (simp_all add: view_offset_gesture_begin_def)
  moreover have "map (column_ids sample_env) (sp_columns s) = [[1], [2]]" using grid_ids [of sample_env s] by (simp add: s(3))
  moreover have "sp_activate_prev_column_on_removal s \<noteq> None" using arg_cong [OF s(3), of g_prev] by simp
  moreover have "clock_fits sample_env"
    by (simp add: clock_fits_def sample_env_def test_env_def sample_anim_env_def HISTORY_LIMIT_def from_millis_def
        DURATION_MAX_def)
  ultimately show ?thesis
    using gesture_end_keeps_note [OF sample_element t, of None] s(2) by auto
qed

text \<open>The commit of a window never panics and leaves every window where it is and the focus as it is,
  even when it changes the size or the sizing mode of the window; the invariant, with the saved view
  offset of a fullscreen column, holds again afterwards.\<close>

theorem commit_keeps_layout:
  assumes "layout_element E" and "space_reachable E s" and "space_has E w s"
  shows "\<exists>s'. update_window E w serial s = Some s' \<and> grid E s' = grid E s \<and> space_inv E s'"
  using layout_element.update_window_acts [OF assms(1) layout_element.reachable_inv [OF assms(1,2)] assms(3)]
  by (auto simp: runs_iff acts_def)

theorem commit_keeps_layout_witness:
  "\<exists>s s'. update_window sample_env 1 (Some 7) s = Some s' \<and>
     grid sample_env s' = \<lparr>g_cols = [([1], 0), ([2], 0)], g_active = 1, g_prev = True\<rparr>"
proof (rule sample_two)
  fix s assume s: "space_reachable sample_env s"
    "grid sample_env s = \<lparr>g_cols = [([1], 0), ([2], 0)], g_active = 1, g_prev = True\<rparr>"
  have "\<exists>c \<in> set (map (column_cell sample_env) (sp_columns s)). 1 \<in> set (fst c)"
    using arg_cong [OF s(2), of g_cols] by simp
  then have "space_has sample_env 1 s" by (auto simp: space_has_def column_contains_cell)
  then show ?thesis using commit_keeps_layout [OF sample_element s(1), of 1 "Some 7"] s(2) by auto
qed




text \<open>C30. The hint for inserting a window into a column panics for the column index one past the end:
  the check compares with \<open>>\<close> where it needs \<open>\<ge>\<close>.\<close>

theorem insert_hint_past_end_panics:
  "insert_hint_area E (InColumn (length (sp_columns s)) tile_index) s = None"
  by (simp add: insert_hint_area_def vec_get_def)

section \<open>Heights and animations\<close>

text \<open>C27. The loop that distributes the height of a column among its tiles ends: within as many rounds as
  there are automatic tiles it has given every tile a fixed height, and it leaves those that had one
  as they were.\<close>

theorem distribute_terminates:
  assumes "\<forall>h \<in> set hs. \<forall>p. h \<noteq> HPreset p" and "length tiles = length hs" and "length mins = length hs"
  shows "\<exists>hs'. distribute (length (filter is_auto hs)) tiles mins hs height_left total_weight = Some hs' \<and>
     length hs' = length hs \<and> (\<forall>h \<in> set hs'. \<exists>v. h = HFixed v) \<and>
     (\<forall>i < length hs. \<forall>v. hs ! i = HFixed v \<longrightarrow> hs' ! i = HFixed v)"
  by (rule distribute_total [OF assms refl])

theorem distribute_terminates_witness:
  "\<exists>hs'. distribute 2 [sample_tile 1, sample_tile 2, sample_tile 3] [10, 400, 10] [HAuto 1, HAuto 1, HFixed 50] 500 2 =
     Some hs' \<and> length hs' = 3 \<and> hs' ! 2 = HFixed 50"
  using distribute_terminates [of "[HAuto 1, HAuto 1, HFixed 50]" "[sample_tile 1, sample_tile 2, sample_tile 3]"
      "[10, 400, 10]" 500 2]
  by (force simp: numeral_2_eq_2)

text \<open>The environment at another time of the animation clock.\<close>

definition at_time :: "nanos \<Rightarrow> ('w, 'id) LayoutEnv \<Rightarrow> ('w, 'id) LayoutEnv" where
  "at_time n E = E\<lparr>le_anim := (le_anim E)\<lparr>av_now := n\<rparr>\<rparr>"

lemma eventually_done: "eventually (\<lambda>n. anim_is_done (le_anim (at_time n E)) a) sequentially"
  unfolding eventually_sequentially anim_is_done_def at_time_def by auto

lemma eventually_unless_done:
  "eventually (\<lambda>n. unless_done (le_anim (at_time n E)) f x = None) sequentially"
proof (cases x)
  case (Some a)
  show ?thesis by (rule eventually_mono [OF eventually_done [of E "f a"]]) (simp add: unless_done_def Some)
qed (simp add: unless_done_def)

lemma eventually_tile_settled:
  "eventually (\<lambda>n. \<not> tile_are_transitions_ongoing (at_time n E) (tile_advance_animations (at_time n E) t)) sequentially"
proof -
  have al: "eventually (\<lambda>n. case tl_alpha_animation t of None \<Rightarrow> True
      | Some al \<Rightarrow> anim_is_done (le_anim (at_time n E)) (al_anim al)) sequentially"
    using eventually_done by (cases "tl_alpha_animation t") simp_all
  show ?thesis
    by (rule eventually_mono [OF eventually_conj [OF eventually_conj [OF eventually_conj [OF
            eventually_unless_done [of E "\<lambda>a. a" "tl_open_animation t"]
            eventually_unless_done [of E rz_anim "tl_resize_animation t"]]
            eventually_conj [OF eventually_unless_done [of E mv_anim "tl_move_x_animation t"]
            eventually_unless_done [of E mv_anim "tl_move_y_animation t"]]] al]])
       (auto simp: tile_are_transitions_ongoing_def tile_advance_animations_def Let_def split: option.splits if_splits)
qed

lemma eventually_column_settled:
  "eventually (\<lambda>n. \<not> column_are_transitions_ongoing (at_time n E) (column_advance_animations (at_time n E) c)) sequentially"
proof -
  have "eventually (\<lambda>n. \<forall>t \<in> set (c_tiles c).
      \<not> tile_are_transitions_ongoing (at_time n E) (tile_advance_animations (at_time n E) t)) sequentially"
    by (intro eventually_ball_finite ballI eventually_tile_settled) simp
  then show ?thesis
    by (rule eventually_mono [OF eventually_conj [OF eventually_conj [OF
            eventually_unless_done [of E mv_anim "c_move_animation c"]
            eventually_unless_done [of E "\<lambda>a. a" "ti_open_anim (c_tab_indicator c)"]]]])
       (auto simp: column_are_transitions_ongoing_def column_advance_animations_def tab_advance_animations_def)
qed

text \<open>C26. Every animation comes to an end: from some time on, advancing the animations of the scrolling
  layout leaves none of its transitions running, whatever was moving, opening, resizing or fading;
  only a gesture that is still in progress keeps the view from being static.\<close>

theorem transitions_end:
  "\<exists>T. \<forall>n \<ge> T. space_are_transitions_ongoing (at_time n E) (space_advance_animations (at_time n E) s) =
     vo_is_gesture (sp_view_offset s)"
proof -
  have "eventually (\<lambda>n. \<forall>c \<in> set (sp_columns s).
      \<not> column_are_transitions_ongoing (at_time n E) (column_advance_animations (at_time n E) c)) sequentially"
    by (intro eventually_ball_finite ballI eventually_column_settled) simp
  moreover have "eventually (\<lambda>n. vo_is_static (vo_advance (at_time n E) (sp_view_offset s)) \<longleftrightarrow>
      \<not> vo_is_gesture (sp_view_offset s)) sequentially"
  proof (cases "sp_view_offset s")
    case (VAnimation a)
    show ?thesis by (rule eventually_mono [OF eventually_done [of E a]]) (simp add: VAnimation)
  qed simp_all
  ultimately have "eventually (\<lambda>n. space_are_transitions_ongoing (at_time n E)
      (space_advance_animations (at_time n E) s) = vo_is_gesture (sp_view_offset s)) sequentially"
    by (rule eventually_mono [OF eventually_conj])
       (auto simp: space_are_transitions_ongoing_def space_advance_animations_def)
  then show ?thesis by (simp add: eventually_sequentially)
qed

theorem transitions_end_witness:
  "\<exists>T. \<not> space_are_transitions_ongoing (at_time T sample_env)
     (space_advance_animations (at_time T sample_env) sample_space)"
  using transitions_end [of sample_env sample_space] by (auto simp: sample_space_def space_new_def)

end
