(* ===== verification/Layout_Floating.thy ===== *)
theory Layout_Floating
  imports Layout_Scrolling_Gesture
begin

text \<open>
  The floating layout (\<^verbatim>\<open>src/layout/floating.rs\<close>) with the size and placement helpers of
  \<^verbatim>\<open>src/utils/mod.rs\<close>: tiles in stacking order, topmost first, each with its position relative to the
  working area. Closing windows, shaders and rendering are left out; so is \<^verbatim>\<open>refresh\<close>, which only
  passes the state on to the windows. A function that panics is \<^term>\<open>None\<close>.
\<close>

section \<open>Helpers\<close>

definition ensure_min_max_size :: "i32 \<Rightarrow> i32 \<Rightarrow> i32 \<Rightarrow> i32" where
  "ensure_min_max_size x min_size max_size =
     (let x = (if max_size > 0 then min x max_size else x)
      in if min_size > 0 then max x min_size else x)"

definition ensure_min_max_size_maybe_zero :: "i32 \<Rightarrow> i32 \<Rightarrow> i32 \<Rightarrow> i32" where
  "ensure_min_max_size_maybe_zero x min_size max_size =
     (if x \<noteq> 0 then ensure_min_max_size x min_size max_size
      else if min_size > 0 \<and> min_size = max_size then min_size
      else 0)"

definition clamp_preferring_top_left_in_area :: "Rect \<Rightarrow> Rect \<Rightarrow> Rect" where
  "clamp_preferring_top_left_in_area area rect =
     (let x = min (px (r_loc rect)) (px (r_loc area) + sw (r_size area) - sw (r_size rect));
          y = min (py (r_loc rect)) (py (r_loc area) + sh (r_size area) - sh (r_size rect))
      in rect\<lparr>r_loc := \<lparr>px = max x (px (r_loc area)), py = max y (py (r_loc area))\<rparr>\<rparr>)"

definition center_preferring_top_left_in_area :: "Rect \<Rightarrow> Size \<Rightarrow> Point" where
  "center_preferring_top_left_in_area area tile_sz =
     point_add (r_loc area)
       \<lparr>px = max ((sw (r_size area) - sw tile_sz) / 2) 0, py = max ((sh (r_size area) - sh tile_sz) / 2) 0\<rparr>"

text \<open>The conversion \<^verbatim>\<open>as i32\<close> truncates and saturates; the addition of \<^verbatim>\<open>i32\<close> saturates.\<close>

definition I32_MAX :: i32 where "I32_MAX = 2 ^ 31 - 1"
definition I32_MIN :: i32 where "I32_MIN = - (2 ^ 31)"

definition f64_as_i32 :: "real \<Rightarrow> i32" where
  "f64_as_i32 x = max I32_MIN (min I32_MAX (if 0 \<le> x then \<lfloor>x\<rfloor> else \<lceil>x\<rceil>))"

definition i32_saturating_add :: "i32 \<Rightarrow> i32 \<Rightarrow> i32" where
  "i32_saturating_add a b = max I32_MIN (min I32_MAX (a + b))"

text \<open>\<^verbatim>\<open>max_by\<close> returns the last of the greatest elements.\<close>

fun max_by :: "('a \<Rightarrow> real) \<Rightarrow> 'a list \<Rightarrow> 'a option" where
  "max_by f [] = None"
| "max_by f (x # xs) =
     (case max_by f xs of None \<Rightarrow> Some x | Some y \<Rightarrow> Some (if f y < f x then x else y))"

definition DIRECTIONAL_MOVE_PX :: real where
  "DIRECTIONAL_MOVE_PX = 50"

section \<open>The data of a tile\<close>

record FloatingData =
  fd_pos :: Point
  fd_logical_pos :: Point
  fd_size :: Size
  fd_working_area :: Rect

definition data_scale_by_working_area :: "Rect \<Rightarrow> Point \<Rightarrow> Point" where
  "data_scale_by_working_area area pos =
     point_add \<lparr>px = px pos * sw (r_size area), py = py pos * sh (r_size area)\<rparr> (r_loc area)"

definition logical_to_size_frac_in_working_area :: "Rect \<Rightarrow> Point \<Rightarrow> Point" where
  "logical_to_size_frac_in_working_area area logical_pos =
     (let pos = point_sub logical_pos (r_loc area)
      in \<lparr>px = px pos / max (sw (r_size area)) 1, py = py pos / max (sh (r_size area)) 1\<rparr>)"

text \<open>A window may leave the working area only so far that a part of it stays visible.\<close>

definition keep_on_screen :: "Rect \<Rightarrow> Size \<Rightarrow> Point \<Rightarrow> Point" where
  "keep_on_screen area tile_sz logical_pos =
     (let min_on_screen_hor = clampf 10 75 (sw tile_sz / 4);
          min_on_screen_ver = clampf 10 75 (sh tile_sz / 4);
          max_off_screen_hor = max 0 (sw tile_sz - min_on_screen_hor);
          max_off_screen_ver = max 0 (sh tile_sz - min_on_screen_ver);
          p = point_sub logical_pos (r_loc area);
          p = \<lparr>px = max (px p) (- max_off_screen_hor), py = max (py p) (- max_off_screen_ver)\<rparr>;
          p = \<lparr>px = min (px p) (sw (r_size area) - sw tile_sz + max_off_screen_hor),
               py = min (py p) (sh (r_size area) - sh tile_sz + max_off_screen_ver)\<rparr>
      in point_add p (r_loc area))"

definition recompute_logical_pos :: "FloatingData \<Rightarrow> FloatingData" where
  "recompute_logical_pos d =
     d\<lparr>fd_logical_pos := keep_on_screen (fd_working_area d) (fd_size d)
         (data_scale_by_working_area (fd_working_area d) (fd_pos d))\<rparr>"

definition data_update_config :: "Rect \<Rightarrow> FloatingData \<Rightarrow> FloatingData" where
  "data_update_config working_area d =
     (if fd_working_area d = working_area then d
      else recompute_logical_pos (d\<lparr>fd_working_area := working_area\<rparr>))"

definition data_update :: "('w, 'id) LayoutEnv \<Rightarrow> 'w Tile \<Rightarrow> FloatingData \<Rightarrow> FloatingData" where
  "data_update E t d =
     (let size = tile_size E t
      in if fd_size d = size then d else recompute_logical_pos (d\<lparr>fd_size := size\<rparr>))"

definition set_logical_pos :: "Point \<Rightarrow> FloatingData \<Rightarrow> FloatingData" where
  "set_logical_pos logical_pos d =
     recompute_logical_pos
       (d\<lparr>fd_pos := logical_to_size_frac_in_working_area (fd_working_area d) logical_pos\<rparr>)"

definition data_new :: "('w, 'id) LayoutEnv \<Rightarrow> Rect \<Rightarrow> 'w Tile \<Rightarrow> Point \<Rightarrow> FloatingData" where
  "data_new E working_area t logical_pos =
     set_logical_pos logical_pos (data_update E t
       \<lparr>fd_pos = point_zero, fd_logical_pos = point_zero, fd_size = size_zero,
        fd_working_area = working_area\<rparr>)"

definition data_center :: "FloatingData \<Rightarrow> Point" where
  "data_center d = point_add (fd_logical_pos d) \<lparr>px = sw (fd_size d) / 2, py = sh (fd_size d) / 2\<rparr>"

section \<open>The floating space\<close>

record ('w, 'id) FloatingSpace =
  fl_tiles :: "'w Tile list"
  fl_data :: "FloatingData list"
  fl_active_window_id :: "'id option"
  fl_interactive_resize :: "'id InteractiveResize option"
  fl_view_size :: Size
  fl_working_area :: Rect
  fl_scale :: real
  fl_options :: Options

definition floating_new :: "Size \<Rightarrow> Rect \<Rightarrow> real \<Rightarrow> Options \<Rightarrow> ('w, 'id) FloatingSpace" where
  "floating_new view_size working_area scale opts =
     \<lparr>fl_tiles = [], fl_data = [], fl_active_window_id = None, fl_interactive_resize = None,
      fl_view_size = view_size, fl_working_area = working_area, fl_scale = scale, fl_options = opts\<rparr>"

text \<open>\<^verbatim>\<open>zip\<close> runs as far as the shorter of the two vectors; the rest keeps its state.\<close>

definition floating_update_config ::
    "('w, 'id) LayoutEnv \<Rightarrow> Size \<Rightarrow> Rect \<Rightarrow> real \<Rightarrow> Options \<Rightarrow> ('w, 'id) FloatingSpace \<Rightarrow>
     ('w, 'id) FloatingSpace" where
  "floating_update_config E view_size working_area scale opts s =
     (let n = min (length (fl_tiles s)) (length (fl_data s));
          pairs = map (\<lambda>(t, d). let t = tile_update_config E view_size scale opts t
                                in (t, data_update_config working_area (data_update E t d)))
                    (zip (fl_tiles s) (fl_data s))
      in s\<lparr>fl_tiles := map fst pairs @ drop n (fl_tiles s), fl_data := map snd pairs @ drop n (fl_data s),
           fl_view_size := view_size, fl_working_area := working_area, fl_scale := scale,
           fl_options := opts\<rparr>)"

definition floating_advance_animations ::
    "('w, 'id) LayoutEnv \<Rightarrow> ('w, 'id) FloatingSpace \<Rightarrow> ('w, 'id) FloatingSpace" where
  "floating_advance_animations E s = s\<lparr>fl_tiles := map (tile_advance_animations E) (fl_tiles s)\<rparr>"

definition floating_are_animations_ongoing ::
    "('w, 'id) LayoutEnv \<Rightarrow> ('w, 'id) FloatingSpace \<Rightarrow> bool" where
  "floating_are_animations_ongoing E s \<longleftrightarrow> list_ex (tile_are_animations_ongoing E) (fl_tiles s)"

definition floating_are_transitions_ongoing ::
    "('w, 'id) LayoutEnv \<Rightarrow> ('w, 'id) FloatingSpace \<Rightarrow> bool" where
  "floating_are_transitions_ongoing E s \<longleftrightarrow> list_ex (tile_are_transitions_ongoing E) (fl_tiles s)"

definition tiles_with_offsets :: "('w, 'id) FloatingSpace \<Rightarrow> ('w Tile \<times> Point) list" where
  "tiles_with_offsets s = zip (fl_tiles s) (map fd_logical_pos (fl_data s))"

definition floating_tiles_with_render_positions ::
    "('w, 'id) LayoutEnv \<Rightarrow> ('w, 'id) FloatingSpace \<Rightarrow> ('w Tile \<times> Point) list" where
  "floating_tiles_with_render_positions E s =
     map (\<lambda>(t, offset). (t, round_point E (fl_scale s) (point_add offset (tile_render_offset E t))))
       (tiles_with_offsets s)"

definition floating_tiles_with_ipc_layouts ::
    "('w, 'id) LayoutEnv \<Rightarrow> ('w, 'id) FloatingSpace \<Rightarrow> ('w Tile \<times> WindowLayout) list" where
  "floating_tiles_with_ipc_layouts E s =
     map (\<lambda>(t, offset). let pos = round_point E (fl_scale s) offset
            in (t, (ipc_layout_template E t)\<lparr>tile_pos_in_workspace_view := Some (px pos, py pos)\<rparr>))
       (tiles_with_offsets s)"

definition floating_toplevel_bounds :: "('w, 'id) LayoutEnv \<Rightarrow> Border \<Rightarrow> Size \<Rightarrow> ISize" where
  "floating_toplevel_bounds E b working_area_size =
     (let border = (if b_off b then 0 else b_width b * 2)
      in size_to_i32_floor E \<lparr>sw = max (sw working_area_size - border) 1,
                              sh = max (sh working_area_size - border) 1\<rparr>)"

definition floating_new_window_toplevel_bounds ::
    "('w, 'id) LayoutEnv \<Rightarrow> WindowRules \<Rightarrow> ('w, 'id) FloatingSpace \<Rightarrow> ISize" where
  "floating_new_window_toplevel_bounds E rules s =
     floating_toplevel_bounds E
       (border_merge_with (wr_border rules) (lc_border (op_layout (fl_options s))))
       (r_size (fl_working_area s))"

text \<open>\<^verbatim>\<open>Rectangle::intersection\<close> is \<^verbatim>\<open>smithay\<close>'s: the parameter \<open>isect\<close>.\<close>

definition active_window_visual_rectangle ::
    "('w, 'id) LayoutEnv \<Rightarrow> (Rect \<Rightarrow> Rect \<Rightarrow> Rect option) \<Rightarrow> ('w, 'id) FloatingSpace \<Rightarrow> Rect option" where
  "active_window_visual_rectangle E isect s =
     (case tiles_with_offsets s of
        [] \<Rightarrow> None
      | (t, offset) # _ \<Rightarrow>
          isect (fl_working_area s)
            \<lparr>r_loc = point_add offset (window_loc E t), r_size = window_size E t\<rparr>)"

definition floating_idx_of :: "('w, 'id) LayoutEnv \<Rightarrow> 'id \<Rightarrow> ('w, 'id) FloatingSpace \<Rightarrow> nat option" where
  "floating_idx_of E i s = vec_position (\<lambda>t. el_id E (tl_window t) = i) (fl_tiles s)"

definition floating_contains :: "('w, 'id) LayoutEnv \<Rightarrow> 'id \<Rightarrow> ('w, 'id) FloatingSpace \<Rightarrow> bool" where
  "floating_contains E i s \<longleftrightarrow> floating_idx_of E i s \<noteq> None"

definition floating_has_window :: "('w, 'id) LayoutEnv \<Rightarrow> 'id \<Rightarrow> ('w, 'id) FloatingSpace \<Rightarrow> bool" where
  "floating_has_window E i s \<longleftrightarrow> list_ex (\<lambda>t. el_id E (tl_window t) = i) (fl_tiles s)"

definition floating_active_window :: "('w, 'id) LayoutEnv \<Rightarrow> ('w, 'id) FloatingSpace \<Rightarrow> 'w option" where
  "floating_active_window E s =
     do { i \<leftarrow> fl_active_window_id s;
          map_option tl_window (List.find (\<lambda>t. el_id E (tl_window t) = i) (fl_tiles s)) }"

definition floating_popup_target_rect ::
    "('w, 'id) LayoutEnv \<Rightarrow> 'id \<Rightarrow> ('w, 'id) FloatingSpace \<Rightarrow> Rect option" where
  "floating_popup_target_rect E i s =
     map_option (\<lambda>(t, pos). (fl_working_area s)
         \<lparr>r_loc := point_sub (point_sub (r_loc (fl_working_area s)) pos) (window_loc E t)\<rparr>)
       (List.find (\<lambda>(t, pos). el_id E (tl_window t) = i) (tiles_with_offsets s))"

section \<open>Placement\<close>

definition clamp_within_working_area :: "Point \<Rightarrow> Size \<Rightarrow> ('w, 'id) FloatingSpace \<Rightarrow> Point" where
  "clamp_within_working_area pos tile_sz s =
     r_loc (clamp_preferring_top_left_in_area (fl_working_area s) \<lparr>r_loc = pos, r_size = tile_sz\<rparr>)"

definition scale_by_working_area :: "Point \<Rightarrow> ('w, 'id) FloatingSpace \<Rightarrow> Point" where
  "scale_by_working_area pos s = data_scale_by_working_area (fl_working_area s) pos"

definition logical_to_size_frac :: "Point \<Rightarrow> ('w, 'id) FloatingSpace \<Rightarrow> Point" where
  "logical_to_size_frac logical_pos s =
     logical_to_size_frac_in_working_area (fl_working_area s) logical_pos"

text \<open>The position that a window rule asks for, from the edge or corner it names.\<close>

definition default_tile_pos :: "Rect \<Rightarrow> Size \<Rightarrow> FloatingPosition \<Rightarrow> Point" where
  "default_tile_pos area tile_sz pos =
     (let to = fp_relative_to pos;
          x = (if to = RTopRight \<or> to = RBottomRight \<or> to = RRight
               then sw (r_size area) - sw tile_sz - fp_x pos else fp_x pos);
          y = (if to = RBottomLeft \<or> to = RBottomRight \<or> to = RBottom
               then sh (r_size area) - sh tile_sz - fp_y pos else fp_y pos);
          x = (if to = RTop \<or> to = RBottom then x + (sw (r_size area) / 2 - sw tile_sz / 2) else x);
          y = (if to = RLeft \<or> to = RRight then y + (sh (r_size area) / 2 - sh tile_sz / 2) else y)
      in point_add \<lparr>px = x, py = y\<rparr> (r_loc area))"

definition stored_or_default_tile_pos ::
    "('w, 'id) LayoutEnv \<Rightarrow> 'w Tile \<Rightarrow> ('w, 'id) FloatingSpace \<Rightarrow> Point option" where
  "stored_or_default_tile_pos E t s =
     (case tl_floating_pos t of
        Some pos \<Rightarrow> Some (scale_by_working_area pos s)
      | None \<Rightarrow> map_option (default_tile_pos (fl_working_area s) (tile_size E t))
                  (wr_default_floating_position (el_rules E (tl_window t))))"

section \<open>Stacking order\<close>

definition raise_window :: "nat \<Rightarrow> nat \<Rightarrow> ('w, 'id) FloatingSpace \<Rightarrow> ('w, 'id) FloatingSpace option" where
  "raise_window from_idx to_idx s =
     (if to_idx \<le> from_idx
      then do {
        (t, ts) \<leftarrow> vec_remove from_idx (fl_tiles s);
        (d, ds) \<leftarrow> vec_remove from_idx (fl_data s);
        ts \<leftarrow> vec_insert to_idx t ts;
        ds \<leftarrow> vec_insert to_idx d ds;
        Some (s\<lparr>fl_tiles := ts, fl_data := ds\<rparr>) }
      else None)"

text \<open>The walk over the tiles below, back to front, that collects the descendants of a window.\<close>

fun walk_descendants ::
    "('w, 'id) LayoutEnv \<Rightarrow> 'w Tile list \<Rightarrow> 'w \<Rightarrow> nat list \<Rightarrow> nat list \<Rightarrow> nat list" where
  "walk_descendants E tiles win [] descendants = descendants"
| "walk_descendants E tiles win (i # is) descendants =
     (let win_below = tl_window (tiles ! i)
      in if el_is_child_of E win_below win \<or>
            list_ex (\<lambda>j. el_is_child_of E win_below (tl_window (tiles ! j))) descendants
         then walk_descendants E tiles win is (descendants @ [i])
         else walk_descendants E tiles win is descendants)"

fun raise_all :: "nat list \<Rightarrow> nat \<Rightarrow> ('w, 'id) FloatingSpace \<Rightarrow> ('w, 'id) FloatingSpace option" where
  "raise_all [] idx s = Some s"
| "raise_all (i # is) idx s = raise_window i idx s \<bind> raise_all is (idx + 1)"

definition bring_up_descendants_of ::
    "('w, 'id) LayoutEnv \<Rightarrow> nat \<Rightarrow> ('w, 'id) FloatingSpace \<Rightarrow> ('w, 'id) FloatingSpace option" where
  "bring_up_descendants_of E idx s =
     do { t \<leftarrow> vec_get (fl_tiles s) idx;
          let descendants = walk_descendants E (fl_tiles s) (tl_window t)
                (rev [idx + 1..<length (fl_tiles s)]) [];
          raise_all (rev descendants) idx s }"

definition descendants_added ::
    "('w, 'id) LayoutEnv \<Rightarrow> 'id \<Rightarrow> ('w, 'id) FloatingSpace \<Rightarrow> (bool \<times> ('w, 'id) FloatingSpace) option" where
  "descendants_added E i s =
     (case floating_idx_of E i s of
        None \<Rightarrow> Some (False, s)
      | Some idx \<Rightarrow> do { s \<leftarrow> bring_up_descendants_of E idx s; Some (True, s) })"

section \<open>Adding and removing\<close>

text \<open>The size asked of a window that becomes floating.\<close>

definition restored_size :: "('w, 'id) LayoutEnv \<Rightarrow> 'w Tile \<Rightarrow> ISize" where
  "restored_size E t =
     (let win = tl_window t;
          zero = \<lparr>iw = 0, ih = 0\<rparr>;
          or_default = (\<lambda>x. case x of Some s \<Rightarrow> s | None \<Rightarrow> zero);
          size = (if \<not> is_normal (el_pending_sizing_mode E win)
                  then or_default (tl_floating_window_size t)
                  else case tl_floating_window_size t of
                         Some s \<Rightarrow> s | None \<Rightarrow> or_default (el_expected_size E win));
          min_size = el_min_size E win;
          max_size = el_max_size E win
      in \<lparr>iw = ensure_min_max_size_maybe_zero (iw size) (iw min_size) (iw max_size),
          ih = ensure_min_max_size_maybe_zero (ih size) (ih min_size) (ih max_size)\<rparr>)"

definition floating_add_tile_at ::
    "('w, 'id) LayoutEnv \<Rightarrow> nat \<Rightarrow> 'w Tile \<Rightarrow> bool \<Rightarrow> ('w, 'id) FloatingSpace \<Rightarrow>
     ('w, 'id) FloatingSpace option" where
  "floating_add_tile_at E idx t activate s =
     do { let t = tile_update_config E (fl_view_size s) (fl_scale s) (fl_options s) t;
          let t = t\<lparr>tl_window := el_request_size_once E (restored_size E t) True (tl_window t)\<rparr>;
          let win = tl_window t;
          let s = (if activate \<or> fl_tiles s = []
                   then s\<lparr>fl_active_window_id := Some (el_id E win)\<rparr> else s);
          let idx = (case vec_position (\<lambda>tile_above. el_is_child_of E win (tl_window tile_above))
                             (take idx (fl_tiles s)) of
                       Some i \<Rightarrow> i | None \<Rightarrow> idx);
          let pos = (case stored_or_default_tile_pos E t s of
                       Some pos \<Rightarrow> pos
                     | None \<Rightarrow> center_preferring_top_left_in_area (fl_working_area s) (tile_size E t));
          let data = data_new E (fl_working_area s) t pos;
          ds \<leftarrow> vec_insert idx data (fl_data s);
          ts \<leftarrow> vec_insert idx t (fl_tiles s);
          bring_up_descendants_of E idx (s\<lparr>fl_data := ds, fl_tiles := ts\<rparr>) }"

definition floating_add_tile ::
    "('w, 'id) LayoutEnv \<Rightarrow> 'w Tile \<Rightarrow> bool \<Rightarrow> ('w, 'id) FloatingSpace \<Rightarrow> ('w, 'id) FloatingSpace option" where
  "floating_add_tile E t activate s = floating_add_tile_at E 0 t activate s"

definition floating_add_tile_above ::
    "('w, 'id) LayoutEnv \<Rightarrow> 'id \<Rightarrow> 'w Tile \<Rightarrow> bool \<Rightarrow> ('w, 'id) FloatingSpace \<Rightarrow>
     ('w, 'id) FloatingSpace option" where
  "floating_add_tile_above E above_id t activate s =
     do { idx \<leftarrow> floating_idx_of E above_id s;
          d \<leftarrow> vec_get (fl_data s) idx;
          let size = tile_size E t;
          let diff = point_sub (size_to_point (fd_size d)) (size_to_point size);
          let pos = point_add (fd_logical_pos d) \<lparr>px = px diff / 2, py = py diff / 2\<rparr>;
          let pos = clamp_within_working_area pos size s;
          floating_add_tile_at E idx (t\<lparr>tl_floating_pos := Some (logical_to_size_frac pos s)\<rparr>) activate s }"

text \<open>What is left of the space, and the tile with its floating size and position stored.\<close>

definition forget_floating ::
    "('w, 'id) LayoutEnv \<Rightarrow> 'w Tile \<Rightarrow> ('w, 'id) FloatingSpace \<Rightarrow> ('w, 'id) FloatingSpace" where
  "forget_floating E t s =
     (let i = el_id E (tl_window t);
          s = (case fl_tiles s of
                 [] \<Rightarrow> s\<lparr>fl_active_window_id := None\<rparr>
               | topmost # _ \<Rightarrow> if Some i = fl_active_window_id s
                            then s\<lparr>fl_active_window_id := Some (el_id E (tl_window topmost))\<rparr> else s)
      in case fl_interactive_resize s of
           Some resize \<Rightarrow> if i = ir_window resize then s\<lparr>fl_interactive_resize := None\<rparr> else s
         | None \<Rightarrow> s)"

definition store_floating :: "('w, 'id) LayoutEnv \<Rightarrow> FloatingData \<Rightarrow> 'w Tile \<Rightarrow> 'w Tile" where
  "store_floating E d t =
     (let t = (case el_expected_size E (tl_window t) of
                 Some sz \<Rightarrow> t\<lparr>tl_floating_window_size := Some sz\<rparr> | None \<Rightarrow> t)
      in t\<lparr>tl_floating_pos := Some (fd_pos d)\<rparr>)"

definition floating_remove_tile_by_idx ::
    "('w, 'id) LayoutEnv \<Rightarrow> nat \<Rightarrow> ('w, 'id) FloatingSpace \<Rightarrow>
     ('w RemovedTile \<times> ('w, 'id) FloatingSpace) option" where
  "floating_remove_tile_by_idx E idx s =
     do { (t, ts) \<leftarrow> vec_remove idx (fl_tiles s);
          (d, ds) \<leftarrow> vec_remove idx (fl_data s);
          let s = forget_floating E t (s\<lparr>fl_tiles := ts, fl_data := ds\<rparr>);
          let t = store_floating E d t;
          Some (\<lparr>rm_tile = t, rm_width = Fixed (sw (tile_expected_or_current_size E t)),
                 rm_is_full_width = False, rm_is_floating = True\<rparr>, s) }"

definition floating_remove_tile ::
    "('w, 'id) LayoutEnv \<Rightarrow> 'id \<Rightarrow> ('w, 'id) FloatingSpace \<Rightarrow>
     ('w RemovedTile \<times> ('w, 'id) FloatingSpace) option" where
  "floating_remove_tile E i s =
     do { idx \<leftarrow> floating_idx_of E i s; floating_remove_tile_by_idx E idx s }"

definition floating_remove_active_tile ::
    "('w, 'id) LayoutEnv \<Rightarrow> ('w, 'id) FloatingSpace \<Rightarrow>
     ('w RemovedTile option \<times> ('w, 'id) FloatingSpace) option" where
  "floating_remove_active_tile E s =
     (case fl_active_window_id s of
        None \<Rightarrow> Some (None, s)
      | Some i \<Rightarrow> do { (r, s) \<leftarrow> floating_remove_tile E i s; Some (Some r, s) })"

section \<open>Activating and focusing\<close>

definition activate_window_without_raising ::
    "('w, 'id) LayoutEnv \<Rightarrow> 'id \<Rightarrow> ('w, 'id) FloatingSpace \<Rightarrow> bool \<times> ('w, 'id) FloatingSpace" where
  "activate_window_without_raising E i s =
     (if \<not> floating_contains E i s then (False, s)
      else (True, s\<lparr>fl_active_window_id := Some i\<rparr>))"

definition floating_activate_window ::
    "('w, 'id) LayoutEnv \<Rightarrow> 'id \<Rightarrow> ('w, 'id) FloatingSpace \<Rightarrow> (bool \<times> ('w, 'id) FloatingSpace) option" where
  "floating_activate_window E i s =
     (case floating_idx_of E i s of
        None \<Rightarrow> Some (False, s)
      | Some idx \<Rightarrow>
          do { s \<leftarrow> raise_window idx 0 s;
               s \<leftarrow> bring_up_descendants_of E 0 (s\<lparr>fl_active_window_id := Some i\<rparr>);
               Some (True, s) })"

definition focus_directional ::
    "('w, 'id) LayoutEnv \<Rightarrow> (Point \<Rightarrow> Point \<Rightarrow> real) \<Rightarrow> ('w, 'id) FloatingSpace \<Rightarrow>
     (bool \<times> ('w, 'id) FloatingSpace) option" where
  "focus_directional E distance s =
     (case fl_active_window_id s of
        None \<Rightarrow> Some (False, s)
      | Some active_id \<Rightarrow>
          do { active_idx \<leftarrow> floating_idx_of E active_id s;
               d \<leftarrow> vec_get (fl_data s) active_idx;
               let center = data_center d;
               let others = filter (\<lambda>(t, d). el_id E (tl_window t) \<noteq> active_id)
                              (zip (fl_tiles s) (fl_data s));
               let dists = filter (\<lambda>(t, dist). 0 < dist)
                             (map (\<lambda>(t, d). (t, distance center (data_center d))) others);
               case min_by snd dists of
                 Some (t, _) \<Rightarrow>
                   do { (_, s) \<leftarrow> floating_activate_window E (el_id E (tl_window t)) s; Some (True, s) }
               | None \<Rightarrow> Some (False, s) })"

definition floating_focus_left ::
    "('w, 'id) LayoutEnv \<Rightarrow> ('w, 'id) FloatingSpace \<Rightarrow> (bool \<times> ('w, 'id) FloatingSpace) option" where
  "floating_focus_left E s = focus_directional E (\<lambda>focus other. px focus - px other) s"

definition floating_focus_right ::
    "('w, 'id) LayoutEnv \<Rightarrow> ('w, 'id) FloatingSpace \<Rightarrow> (bool \<times> ('w, 'id) FloatingSpace) option" where
  "floating_focus_right E s = focus_directional E (\<lambda>focus other. px other - px focus) s"

definition floating_focus_up ::
    "('w, 'id) LayoutEnv \<Rightarrow> ('w, 'id) FloatingSpace \<Rightarrow> (bool \<times> ('w, 'id) FloatingSpace) option" where
  "floating_focus_up E s = focus_directional E (\<lambda>focus other. py focus - py other) s"

definition floating_focus_down ::
    "('w, 'id) LayoutEnv \<Rightarrow> ('w, 'id) FloatingSpace \<Rightarrow> (bool \<times> ('w, 'id) FloatingSpace) option" where
  "floating_focus_down E s = focus_directional E (\<lambda>focus other. py other - py focus) s"

definition activate_found ::
    "('w, 'id) LayoutEnv \<Rightarrow> ('w Tile \<times> Point) option \<Rightarrow> ('w, 'id) FloatingSpace \<Rightarrow>
     ('w, 'id) FloatingSpace option" where
  "activate_found E result s =
     (case result of
        Some (t, _) \<Rightarrow> map_option snd (floating_activate_window E (el_id E (tl_window t)) s)
      | None \<Rightarrow> Some s)"

definition focus_leftmost ::
    "('w, 'id) LayoutEnv \<Rightarrow> ('w, 'id) FloatingSpace \<Rightarrow> ('w, 'id) FloatingSpace option" where
  "focus_leftmost E s = activate_found E (min_by (\<lambda>(_, pos). px pos) (tiles_with_offsets s)) s"

definition focus_rightmost ::
    "('w, 'id) LayoutEnv \<Rightarrow> ('w, 'id) FloatingSpace \<Rightarrow> ('w, 'id) FloatingSpace option" where
  "focus_rightmost E s = activate_found E (max_by (\<lambda>(_, pos). px pos) (tiles_with_offsets s)) s"

definition focus_topmost ::
    "('w, 'id) LayoutEnv \<Rightarrow> ('w, 'id) FloatingSpace \<Rightarrow> ('w, 'id) FloatingSpace option" where
  "focus_topmost E s = activate_found E (min_by (\<lambda>(_, pos). py pos) (tiles_with_offsets s)) s"

definition focus_bottommost ::
    "('w, 'id) LayoutEnv \<Rightarrow> ('w, 'id) FloatingSpace \<Rightarrow> ('w, 'id) FloatingSpace option" where
  "focus_bottommost E s = activate_found E (max_by (\<lambda>(_, pos). py pos) (tiles_with_offsets s)) s"

definition floating_start_open_animation ::
    "('w, 'id) LayoutEnv \<Rightarrow> 'id \<Rightarrow> ('w, 'id) FloatingSpace \<Rightarrow> (bool \<times> ('w, 'id) FloatingSpace) option" where
  "floating_start_open_animation E i s =
     (case floating_idx_of E i s of
        None \<Rightarrow> Some (False, s)
      | Some idx \<Rightarrow>
          do { ts \<leftarrow> vec_modify idx (tile_start_open_animation E) (fl_tiles s);
               Some (True, s\<lparr>fl_tiles := ts\<rparr>) })"

section \<open>Sizes\<close>

fun resolve_floating_preset :: "PresetSize \<Rightarrow> real \<Rightarrow> ResolvedSize" where
  "resolve_floating_preset (PresetProportion p) view_size = ResolvedTile (view_size * p)"
| "resolve_floating_preset (PresetFixed f) view_size = ResolvedWindow (of_int f)"

definition floating_new_window_size ::
    "PresetSize option \<Rightarrow> PresetSize option \<Rightarrow> WindowRules \<Rightarrow> ('w, 'id) FloatingSpace \<Rightarrow> ISize" where
  "floating_new_window_size width height rules s =
     (let border = border_merge_with (wr_border rules) (lc_border (op_layout (fl_options s)));
          resolve = (\<lambda>preset area.
            case preset of
              None \<Rightarrow> 0
            | Some p \<Rightarrow>
                (let v = (case resolve_floating_preset p area of
                            ResolvedTile v \<Rightarrow> if b_off border then v else v - b_width border * 2
                          | ResolvedWindow v \<Rightarrow> v)
                 in max 1 (f64_as_i32 (of_int \<lfloor>v\<rfloor>))))
      in \<lparr>iw = resolve width (sw (r_size (fl_working_area s))),
          ih = resolve height (sh (r_size (fl_working_area s)))\<rparr>)"

text \<open>
  The width or height of a window after a change, before its minimum and maximum apply; \<open>to_window\<close>
  turns the size of the tile into the size of the window.
\<close>

definition changed_floating_size :: "SizeChange \<Rightarrow> real \<Rightarrow> i32 \<Rightarrow> real \<Rightarrow> (real \<Rightarrow> real) \<Rightarrow> i32" where
  "changed_floating_size change available current_window current_tile to_window =
     (let v = (case change of
                 SetFixed n \<Rightarrow> of_int n
               | SetProportion p \<Rightarrow> to_window (available * clampf 0 10000 (p / 100))
               | AdjustFixed delta \<Rightarrow> of_int (i32_saturating_add current_window delta)
               | AdjustProportion delta \<Rightarrow>
                   to_window (available * clampf 0 10000 (current_tile / available + delta / 100)))
      in f64_as_i32 (clampf 1 100000 (f64_round v)))"

definition expected_or_zero :: "('w, 'id) LayoutEnv \<Rightarrow> 'w \<Rightarrow> ISize" where
  "expected_or_zero E win = (case el_expected_size E win of Some s \<Rightarrow> s | None \<Rightarrow> \<lparr>iw = 0, ih = 0\<rparr>)"

definition expected_or_current :: "('w, 'id) LayoutEnv \<Rightarrow> 'w \<Rightarrow> ISize" where
  "expected_or_current E win = (case el_expected_size E win of Some s \<Rightarrow> s | None \<Rightarrow> el_size E win)"

definition resize_floating_width ::
    "('w, 'id) LayoutEnv \<Rightarrow> real \<Rightarrow> SizeChange \<Rightarrow> bool \<Rightarrow> 'w Tile \<Rightarrow> 'w Tile" where
  "resize_floating_width E available change animate t =
     (let t = t\<lparr>tl_floating_preset_width_idx := None\<rparr>;
          win = tl_window t;
          win_width = changed_floating_size change available (iw (expected_or_current E win))
                        (sw (tile_expected_or_current_size E t)) (window_width_for_tile_width t);
          min_size = el_min_size E win;
          max_size = el_max_size E win;
          win_width = ensure_min_max_size win_width (iw min_size) (iw max_size);
          win_height = ensure_min_max_size (ih (expected_or_zero E win)) (ih min_size) (ih max_size)
      in t\<lparr>tl_window := el_request_size_once E \<lparr>iw = win_width, ih = win_height\<rparr> animate win\<rparr>)"

definition resize_floating_height ::
    "('w, 'id) LayoutEnv \<Rightarrow> real \<Rightarrow> SizeChange \<Rightarrow> bool \<Rightarrow> 'w Tile \<Rightarrow> 'w Tile" where
  "resize_floating_height E available change animate t =
     (let t = t\<lparr>tl_floating_preset_height_idx := None\<rparr>;
          win = tl_window t;
          win_height = changed_floating_size change available (ih (expected_or_current E win))
                         (sh (tile_expected_or_current_size E t)) (window_height_for_tile_height t);
          min_size = el_min_size E win;
          max_size = el_max_size E win;
          win_height = ensure_min_max_size win_height (ih min_size) (ih max_size);
          win_width = ensure_min_max_size (iw (expected_or_zero E win)) (iw min_size) (iw max_size)
      in t\<lparr>tl_window := el_request_size_once E \<lparr>iw = win_width, ih = win_height\<rparr> animate win\<rparr>)"

text \<open>The window an action is about: the one it names, or the active one.\<close>

definition id_or_active :: "'id option \<Rightarrow> ('w, 'id) FloatingSpace \<Rightarrow> 'id option" where
  "id_or_active i s = (case i of Some i \<Rightarrow> Some i | None \<Rightarrow> fl_active_window_id s)"

definition floating_set_window_width ::
    "('w, 'id) LayoutEnv \<Rightarrow> 'id option \<Rightarrow> SizeChange \<Rightarrow> bool \<Rightarrow> ('w, 'id) FloatingSpace \<Rightarrow>
     ('w, 'id) FloatingSpace option" where
  "floating_set_window_width E i change animate s =
     (case id_or_active i s of
        None \<Rightarrow> Some s
      | Some i \<Rightarrow>
          do { idx \<leftarrow> floating_idx_of E i s;
               ts \<leftarrow> vec_update idx
                       (resize_floating_width E (sw (r_size (fl_working_area s))) change animate) (fl_tiles s);
               Some (s\<lparr>fl_tiles := ts\<rparr>) })"

definition floating_set_window_height ::
    "('w, 'id) LayoutEnv \<Rightarrow> 'id option \<Rightarrow> SizeChange \<Rightarrow> bool \<Rightarrow> ('w, 'id) FloatingSpace \<Rightarrow>
     ('w, 'id) FloatingSpace option" where
  "floating_set_window_height E i change animate s =
     (case id_or_active i s of
        None \<Rightarrow> Some s
      | Some i \<Rightarrow>
          do { idx \<leftarrow> floating_idx_of E i s;
               ts \<leftarrow> vec_update idx
                       (resize_floating_height E (sh (r_size (fl_working_area s))) change animate) (fl_tiles s);
               Some (s\<lparr>fl_tiles := ts\<rparr>) })"

definition floating_interactive_resize_end ::
    "'id option \<Rightarrow> ('w, 'id) FloatingSpace \<Rightarrow> ('w, 'id) FloatingSpace" where
  "floating_interactive_resize_end window s =
     (case fl_interactive_resize s of
        None \<Rightarrow> s
      | Some resize \<Rightarrow>
          (case window of
             None \<Rightarrow> s\<lparr>fl_interactive_resize := None\<rparr>
           | Some window \<Rightarrow> if window \<noteq> ir_window resize then s
                            else s\<lparr>fl_interactive_resize := None\<rparr>))"

text \<open>The preset that toggling goes to; an empty list of presets panics.\<close>

definition next_floating_preset ::
    "bool \<Rightarrow> nat option \<Rightarrow> real \<Rightarrow> real \<Rightarrow> ResolvedSize list \<Rightarrow> nat option" where
  "next_floating_preset forwards preset_idx current_window current_tile resolved =
     (let len = length resolved
      in case preset_idx of
           Some idx \<Rightarrow>
             if len = 0 then None else Some ((idx + (if forwards then 1 else len - 1)) mod len)
         | None \<Rightarrow>
             if forwards
             then Some (case vec_position (\<lambda>r. case r of
                                ResolvedTile v \<Rightarrow> current_tile + 1 < v
                              | ResolvedWindow v \<Rightarrow> current_window + 1 < v) resolved of
                          Some i \<Rightarrow> i | None \<Rightarrow> 0)
             else (case vec_rposition (\<lambda>r. case r of
                           ResolvedTile v \<Rightarrow> v + 1 < current_tile
                         | ResolvedWindow v \<Rightarrow> v + 1 < current_window) resolved of
                     Some i \<Rightarrow> Some i
                   | None \<Rightarrow> if len = 0 then None else Some (len - 1)))"

definition floating_toggle_window_width ::
    "('w, 'id) LayoutEnv \<Rightarrow> 'id option \<Rightarrow> bool \<Rightarrow> ('w, 'id) FloatingSpace \<Rightarrow>
     ('w, 'id) FloatingSpace option" where
  "floating_toggle_window_width E i forwards s =
     (case id_or_active i s of
        None \<Rightarrow> Some s
      | Some i \<Rightarrow>
          do { idx \<leftarrow> floating_idx_of E i s;
               t \<leftarrow> vec_get (fl_tiles s) idx;
               let available_size = sw (r_size (fl_working_area s));
               let presets = lc_preset_column_widths (op_layout (fl_options s));
               preset_idx \<leftarrow> next_floating_preset forwards (tl_floating_preset_width_idx t)
                   (sw (window_expected_or_current_size E t)) (sw (tile_expected_or_current_size E t))
                   (map (\<lambda>p. resolve_floating_preset p available_size) presets);
               preset \<leftarrow> vec_get presets preset_idx;
               s \<leftarrow> floating_set_window_width E (Some i) (size_change_from_preset preset) True s;
               ts \<leftarrow> vec_update idx (\<lambda>t. t\<lparr>tl_floating_preset_width_idx := Some preset_idx\<rparr>) (fl_tiles s);
               Some (floating_interactive_resize_end (Some i) (s\<lparr>fl_tiles := ts\<rparr>)) })"

definition floating_toggle_window_height ::
    "('w, 'id) LayoutEnv \<Rightarrow> 'id option \<Rightarrow> bool \<Rightarrow> ('w, 'id) FloatingSpace \<Rightarrow>
     ('w, 'id) FloatingSpace option" where
  "floating_toggle_window_height E i forwards s =
     (case id_or_active i s of
        None \<Rightarrow> Some s
      | Some i \<Rightarrow>
          do { idx \<leftarrow> floating_idx_of E i s;
               t \<leftarrow> vec_get (fl_tiles s) idx;
               let available_size = sh (r_size (fl_working_area s));
               let presets = lc_preset_window_heights (op_layout (fl_options s));
               preset_idx \<leftarrow> next_floating_preset forwards (tl_floating_preset_height_idx t)
                   (sh (window_expected_or_current_size E t)) (sh (tile_expected_or_current_size E t))
                   (map (\<lambda>p. resolve_floating_preset p available_size) presets);
               preset \<leftarrow> vec_get presets preset_idx;
               s \<leftarrow> floating_set_window_height E (Some i) (size_change_from_preset preset) True s;
               ts \<leftarrow> vec_update idx (\<lambda>t. t\<lparr>tl_floating_preset_height_idx := Some preset_idx\<rparr>) (fl_tiles s);
               Some (floating_interactive_resize_end (Some i) (s\<lparr>fl_tiles := ts\<rparr>)) })"

section \<open>Interactive resizing\<close>

definition floating_interactive_resize_begin ::
    "('w, 'id) LayoutEnv \<Rightarrow> 'id \<Rightarrow> ResizeEdge \<Rightarrow> ('w, 'id) FloatingSpace \<Rightarrow>
     (bool \<times> ('w, 'id) FloatingSpace) option" where
  "floating_interactive_resize_begin E window edges s =
     (if fl_interactive_resize s \<noteq> None then Some (False, s)
      else do {
        t \<leftarrow> List.find (\<lambda>t. el_id E (tl_window t) = window) (fl_tiles s);
        Some (True, s\<lparr>fl_interactive_resize :=
                        Some \<lparr>ir_window = window, ir_original_window_size = window_size E t,
                              ir_data = \<lparr>ird_edges = edges\<rparr>\<rparr>\<rparr>) })"

definition floating_interactive_resize_update ::
    "('w, 'id) LayoutEnv \<Rightarrow> 'id \<Rightarrow> Point \<Rightarrow> ('w, 'id) FloatingSpace \<Rightarrow>
     (bool \<times> ('w, 'id) FloatingSpace) option" where
  "floating_interactive_resize_update E window delta s =
     (case fl_interactive_resize s of
        None \<Rightarrow> Some (False, s)
      | Some resize \<Rightarrow>
          if window \<noteq> ir_window resize then Some (False, s)
          else do {
            let original = ir_original_window_size resize;
            let edges = ird_edges (ir_data resize);
            s \<leftarrow> (if edge_left edges \<or> edge_right edges
                  then let dx = (if edge_left edges then - px delta else px delta);
                           window_width = f64_as_i32 (f64_round (sw original + dx))
                       in floating_set_window_width E (Some window) (SetFixed window_width) False s
                  else Some s);
            s \<leftarrow> (if edge_top edges \<or> edge_bottom edges
                  then let dy = (if edge_top edges then - py delta else py delta);
                           window_height = f64_as_i32 (f64_round (sh original + dy))
                       in floating_set_window_height E (Some window) (SetFixed window_height) False s
                  else Some s);
            Some (True, s) })"

section \<open>Moving\<close>

definition move_and_animate ::
    "('w, 'id) LayoutEnv \<Rightarrow> nat \<Rightarrow> Point \<Rightarrow> ('w, 'id) FloatingSpace \<Rightarrow> ('w, 'id) FloatingSpace option" where
  "move_and_animate E idx new_pos s =
     do { t \<leftarrow> vec_get (fl_tiles s) idx;
          d \<leftarrow> vec_get (fl_data s) idx;
          let prev_pos = fd_logical_pos d;
          let d = set_logical_pos new_pos d;
          let diff = point_sub prev_pos (fd_logical_pos d);
          t \<leftarrow> (if px diff * px diff + py diff * py diff > 10 * 10
                then animate_move_from E diff t else Some t);
          Some (s\<lparr>fl_tiles := (fl_tiles s)[idx := t], fl_data := (fl_data s)[idx := d]\<rparr>) }"

definition floating_move_to ::
    "('w, 'id) LayoutEnv \<Rightarrow> nat \<Rightarrow> Point \<Rightarrow> bool \<Rightarrow> ('w, 'id) FloatingSpace \<Rightarrow>
     ('w, 'id) FloatingSpace option" where
  "floating_move_to E idx new_pos animate s =
     do { s \<leftarrow> (if animate then move_and_animate E idx new_pos s
                else do { ds \<leftarrow> vec_update idx (set_logical_pos new_pos) (fl_data s);
                          Some (s\<lparr>fl_data := ds\<rparr>) });
          Some (floating_interactive_resize_end None s) }"

definition floating_move_by ::
    "('w, 'id) LayoutEnv \<Rightarrow> Point \<Rightarrow> ('w, 'id) FloatingSpace \<Rightarrow> ('w, 'id) FloatingSpace option" where
  "floating_move_by E amount s =
     (case fl_active_window_id s of
        None \<Rightarrow> Some s
      | Some active_id \<Rightarrow>
          do { idx \<leftarrow> floating_idx_of E active_id s;
               d \<leftarrow> vec_get (fl_data s) idx;
               floating_move_to E idx (point_add (fd_logical_pos d) amount) True s })"

definition floating_move_left ::
    "('w, 'id) LayoutEnv \<Rightarrow> ('w, 'id) FloatingSpace \<Rightarrow> ('w, 'id) FloatingSpace option" where
  "floating_move_left E s = floating_move_by E \<lparr>px = - DIRECTIONAL_MOVE_PX, py = 0\<rparr> s"

definition floating_move_right ::
    "('w, 'id) LayoutEnv \<Rightarrow> ('w, 'id) FloatingSpace \<Rightarrow> ('w, 'id) FloatingSpace option" where
  "floating_move_right E s = floating_move_by E \<lparr>px = DIRECTIONAL_MOVE_PX, py = 0\<rparr> s"

definition floating_move_up ::
    "('w, 'id) LayoutEnv \<Rightarrow> ('w, 'id) FloatingSpace \<Rightarrow> ('w, 'id) FloatingSpace option" where
  "floating_move_up E s = floating_move_by E \<lparr>px = 0, py = - DIRECTIONAL_MOVE_PX\<rparr> s"

definition floating_move_down ::
    "('w, 'id) LayoutEnv \<Rightarrow> ('w, 'id) FloatingSpace \<Rightarrow> ('w, 'id) FloatingSpace option" where
  "floating_move_down E s = floating_move_by E \<lparr>px = 0, py = DIRECTIONAL_MOVE_PX\<rparr> s"

fun moved_coordinate :: "PositionChange \<Rightarrow> real \<Rightarrow> real \<Rightarrow> real \<Rightarrow> real" where
  "moved_coordinate (PosSetFixed x) pos available loc = x + loc"
| "moved_coordinate (PosSetProportion p) pos available loc = available * clampf 0 10000 (p / 100) + loc"
| "moved_coordinate (PosAdjustFixed x) pos available loc = pos + x"
| "moved_coordinate (PosAdjustProportion p) pos available loc =
     available * clampf 0 10000 ((pos - loc) / max available 1 + p / 100) + loc"

definition floating_move_window ::
    "('w, 'id) LayoutEnv \<Rightarrow> 'id option \<Rightarrow> PositionChange \<Rightarrow> PositionChange \<Rightarrow> bool \<Rightarrow>
     ('w, 'id) FloatingSpace \<Rightarrow> ('w, 'id) FloatingSpace option" where
  "floating_move_window E i x y animate s =
     (case id_or_active i s of
        None \<Rightarrow> Some s
      | Some i \<Rightarrow>
          do { idx \<leftarrow> floating_idx_of E i s;
               d \<leftarrow> vec_get (fl_data s) idx;
               let area = fl_working_area s;
               let pos = fd_logical_pos d;
               let pos = \<lparr>px = moved_coordinate x (px pos) (sw (r_size area)) (px (r_loc area)),
                          py = moved_coordinate y (py pos) (sh (r_size area)) (py (r_loc area))\<rparr>;
               floating_move_to E idx pos animate s })"

definition floating_center_window ::
    "('w, 'id) LayoutEnv \<Rightarrow> 'id option \<Rightarrow> ('w, 'id) FloatingSpace \<Rightarrow> ('w, 'id) FloatingSpace option" where
  "floating_center_window E i s =
     (case id_or_active i s of
        None \<Rightarrow> Some s
      | Some i \<Rightarrow>
          do { idx \<leftarrow> floating_idx_of E i s;
               d \<leftarrow> vec_get (fl_data s) idx;
               floating_move_to E idx
                 (center_preferring_top_left_in_area (fl_working_area s) (fd_size d)) True s })"

section \<open>Commits\<close>

text \<open>A resize by the left or top edge moves the window by as much as it has shrunk.\<close>

definition follow_edges :: "InteractiveResizeData option \<Rightarrow> Size \<Rightarrow> FloatingData \<Rightarrow> FloatingData" where
  "follow_edges resize prev_size d =
     (case resize of
        None \<Rightarrow> d
      | Some r \<Rightarrow>
          let offset = \<lparr>px = (if edge_left (ird_edges r) then sw prev_size - sw (fd_size d) else 0),
                        py = (if edge_top (ird_edges r) then sh prev_size - sh (fd_size d) else 0)\<rparr>
          in set_logical_pos (point_add (fd_logical_pos d) offset) d)"

definition floating_update_window ::
    "('w, 'id) LayoutEnv \<Rightarrow> 'id \<Rightarrow> nat option \<Rightarrow> ('w, 'id) FloatingSpace \<Rightarrow>
     (bool \<times> ('w, 'id) FloatingSpace) option" where
  "floating_update_window E i serial s =
     (case floating_idx_of E i s of
        None \<Rightarrow> Some (False, s)
      | Some idx \<Rightarrow>
          do { t \<leftarrow> vec_get (fl_tiles s) idx;
               d \<leftarrow> vec_get (fl_data s) idx;
               let resize = el_interactive_resize_data E (tl_window t);
               let t = (case serial of
                          Some n \<Rightarrow> t\<lparr>tl_window := el_on_commit E n (tl_window t)\<rparr> | None \<Rightarrow> t);
               t \<leftarrow> tile_update_window E t;
               let d = follow_edges resize (fd_size d) (data_update E t d);
               Some (True, s\<lparr>fl_tiles := (fl_tiles s)[idx := t], fl_data := (fl_data s)[idx := d]\<rparr>) })"

end
