(* ===== verification/Layout_Floating_Stack.thy ===== *)
theory Layout_Floating_Stack
  imports Layout_Floating "HOL-Library.Multiset"
begin

text \<open>
  The stacking order of the floating layout: what the loop of \<open>bring_up_descendants_of\<close> does to the
  vector of tiles, and that it leaves every window above its parent.
\<close>

section \<open>Raising a selection\<close>

text \<open>A selection of a list is given by a flag for each element; \<open>marks\<close> are its indices.\<close>

fun sel :: "bool list \<Rightarrow> 'a list \<Rightarrow> 'a list" where
  "sel (b # fs) (x # xs) = (if b then x # sel fs xs else sel fs xs)"
| "sel _ _ = []"

abbreviation unsel :: "bool list \<Rightarrow> 'a list \<Rightarrow> 'a list" where
  "unsel fs \<equiv> sel (map Not fs)"

fun marks :: "nat \<Rightarrow> bool list \<Rightarrow> nat list" where
  "marks k [] = []"
| "marks k (b # fs) = (if b then k # marks (k + 1) fs else marks (k + 1) fs)"

lemma sel_map: "sel fs (map f xs) = map f (sel fs xs)"
  by (induction fs xs rule: sel.induct) auto

lemma zip_sel: "length xs = length ys \<Longrightarrow> zip (sel fs xs) (sel fs ys) = sel fs (zip xs ys)"
proof (induction fs xs arbitrary: ys rule: sel.induct)
  case (1 b fs x xs)
  then obtain y ys0 where "ys = y # ys0" "length xs = length ys0" by (cases ys) simp_all
  then show ?case using "1.IH" by simp
qed simp_all

lemma set_sel: "set (sel fs xs) \<subseteq> set xs"
  by (induction fs xs rule: sel.induct) auto

lemma mset_sel: "length fs = length xs \<Longrightarrow> mset (sel fs xs) + mset (unsel fs xs) = mset xs"
  by (induction fs xs rule: list_induct2) auto

lemma sel_or_unsel: "length fs = length xs \<Longrightarrow> x \<in> set xs \<Longrightarrow> x \<in> set (sel fs xs) \<or> x \<in> set (unsel fs xs)"
  by (induction fs xs rule: list_induct2) auto

lemma sorted_wrt_sel: "sorted_wrt R xs \<Longrightarrow> sorted_wrt R (sel fs xs)"
proof (induction fs xs rule: sel.induct)
  case (1 b fs x xs)
  then show ?case using set_sel [of fs xs] by auto
qed simp_all

lemma list_all2_sel: "list_all2 P xs ys \<Longrightarrow> list_all2 P (sel fs xs) (sel fs ys)"
  by (induction fs xs arbitrary: ys rule: sel.induct) (auto simp: list_all2_Cons1)

lemma ex_nat_zero_or: "(\<exists>i :: nat. P i) \<longleftrightarrow> P 0 \<or> (\<exists>i. P (Suc i))"
  by (metis not0_implies_Suc)

lemma set_marks: "set (marks k fs) = {k + i |i. i < length fs \<and> fs ! i}"
proof (induction fs arbitrary: k)
  case Nil
  then show ?case by simp
next
  case (Cons b fs)
  have "(\<exists>i. y = k + i \<and> i < length (b # fs) \<and> (b # fs) ! i) \<longleftrightarrow>
      b \<and> y = k \<or> (\<exists>i. y = k + 1 + i \<and> i < length fs \<and> fs ! i)" for y
    by (subst ex_nat_zero_or) auto
  then show ?case using Cons.IH [of "k + 1"] by auto
qed

lemma set_sel_nth: "length fs = length xs \<Longrightarrow> set (sel fs xs) = {xs ! i |i. i < length xs \<and> fs ! i}"
proof (induction fs xs rule: list_induct2)
  case Nil
  then show ?case by simp
next
  case (Cons b fs x xs)
  have "(\<exists>i. y = (x # xs) ! i \<and> i < length (x # xs) \<and> (b # fs) ! i) \<longleftrightarrow>
      b \<and> y = x \<or> (\<exists>i. y = xs ! i \<and> i < length xs \<and> fs ! i)" for y
    by (subst ex_nat_zero_or) auto
  then show ?case using Cons.IH by auto
qed

lemma raise_window_split:
  assumes "fl_tiles s = A @ M @ t # B" and "fl_data s = A' @ M' @ d # B'"
    and "length A' = length A" and "length M' = length M"
  shows "raise_window (length A + length M) (length A) s =
    Some (s\<lparr>fl_tiles := A @ t # M @ B, fl_data := A' @ d # M' @ B'\<rparr>)"
proof -
  have r: "vec_remove (length A + length M) (A @ M @ t # B) = Some (t, A @ M @ B)" for A M B :: "'x list" and t
    by (simp add: vec_remove_def nth_append)
  have i: "vec_insert (length A) t (A @ M) = Some (A @ t # M)" for A M :: "'x list" and t
    by (simp add: vec_insert_def)
  have "vec_remove (length A + length M) (fl_data s) = Some (d, A' @ M' @ B')"
    "vec_insert (length A) d (A' @ (M' @ B')) = Some (A' @ d # M' @ B')"
    using r [of A' M' d B'] i [of A' d "M' @ B'"] assms by simp_all
  then show ?thesis
    using r [of A M t B] i [of A t "M @ B"] assms(1) by (simp add: raise_window_def)
qed

lemma raise_all_split:
  assumes "fl_tiles s = A @ M @ ts" and "fl_data s = A' @ M' @ ds"
    and "length A' = length A" and "length M' = length M"
    and "length fs = length ts" and "length ds = length ts"
  shows "raise_all (marks (length A + length M) fs) (length A) s =
    Some (s\<lparr>fl_tiles := A @ sel fs ts @ M @ unsel fs ts, fl_data := A' @ sel fs ds @ M' @ unsel fs ds\<rparr>)"
  using assms
proof (induction fs arbitrary: A A' M M' ts ds s)
  case Nil
  then show ?case by simp
next
  case (Cons b fs)
  then obtain t ts0 where t: "ts = t # ts0" by (cases ts) simp_all
  with Cons.prems obtain d ds0 where "ds = d # ds0" by (cases ds) simp_all
  with t have td: "ts = t # ts0" "ds = d # ds0" by simp_all
  show ?case
  proof (cases b)
    case True
    let ?s = "s\<lparr>fl_tiles := A @ t # M @ ts0, fl_data := A' @ d # M' @ ds0\<rparr>"
    have "raise_window (length A + length M) (length A) s = Some ?s"
      using raise_window_split [of s A M t ts0 A' M' d ds0] Cons.prems td by simp
    moreover have "raise_all (marks (length (A @ [t]) + length M) fs) (length (A @ [t])) ?s =
        Some (?s\<lparr>fl_tiles := (A @ [t]) @ sel fs ts0 @ M @ unsel fs ts0,
                 fl_data := (A' @ [d]) @ sel fs ds0 @ M' @ unsel fs ds0\<rparr>)"
      by (rule Cons.IH) (use Cons.prems td in simp_all)
    ultimately show ?thesis using True td by simp
  next
    case False
    have "raise_all (marks (length A + length (M @ [t])) fs) (length A) s =
        Some (s\<lparr>fl_tiles := A @ sel fs ts0 @ (M @ [t]) @ unsel fs ts0,
                fl_data := A' @ sel fs ds0 @ (M' @ [d]) @ unsel fs ds0\<rparr>)"
      by (rule Cons.IH) (use Cons.prems td in simp_all)
    then show ?thesis using False td by simp
  qed
qed

section \<open>The descendants\<close>

text \<open>The flags of the windows below \<open>win\<close> that descend from it, computed from the back.\<close>

fun kin_flags :: "('w, 'id) LayoutEnv \<Rightarrow> 'w \<Rightarrow> 'w list \<Rightarrow> bool list" where
  "kin_flags E win [] = []"
| "kin_flags E win (v # vs) =
     (let fs = kin_flags E win vs
      in (el_is_child_of E v win \<or> (\<exists>u \<in> set (sel fs vs). el_is_child_of E v u)) # fs)"

lemma length_kin_flags [simp]: "length (kin_flags E win vs) = length vs"
  by (induction vs) (simp_all add: Let_def)

lemma walk_append:
  "walk_descendants E tiles win (xs @ ys) ds = walk_descendants E tiles win ys (walk_descendants E tiles win xs ds)"
  by (induction xs arbitrary: ds) (simp_all add: Let_def)

lemma walk_is_marks:
  "k \<le> length tiles \<Longrightarrow> walk_descendants E tiles win (rev [k..<length tiles]) [] =
     rev (marks k (kin_flags E win (map tl_window (drop k tiles))))"
proof (induction "length tiles - k" arbitrary: k)
  case 0
  then show ?case by simp
next
  case (Suc n)
  then have k: "k < length tiles" by simp
  let ?vs = "map tl_window (drop (k + 1) tiles)" and ?fs = "kin_flags E win (map tl_window (drop (k + 1) tiles))"
  let ?P = "\<lambda>u. el_is_child_of E (tl_window (tiles ! k)) u"
  have ih: "walk_descendants E tiles win (rev [k + 1..<length tiles]) [] = rev (marks (k + 1) ?fs)"
    using Suc.hyps Suc.prems by simp
  have up: "rev [k..<length tiles] = rev [k + 1..<length tiles] @ [k]"
    using k by (simp add: upt_conv_Cons)
  have d: "drop k tiles = tiles ! k # drop (k + 1) tiles" using k by (simp add: Cons_nth_drop_Suc)
  have "list_ex (\<lambda>j. ?P (tl_window (tiles ! j))) (rev (marks (k + 1) ?fs)) \<longleftrightarrow>
      (\<exists>i < length ?vs. ?fs ! i \<and> ?P (tl_window (tiles ! (k + 1 + i))))"
    by (auto simp: list_ex_iff set_marks)
  also have "\<dots> \<longleftrightarrow> (\<exists>u \<in> set (sel ?fs ?vs). ?P u)"
    by (auto simp: set_sel_nth)
  finally have ex: "list_ex (\<lambda>j. ?P (tl_window (tiles ! j))) (rev (marks (k + 1) ?fs)) \<longleftrightarrow>
      (\<exists>u \<in> set (sel ?fs ?vs). ?P u)" .
  show ?case
    unfolding up walk_append ih d list.map kin_flags.simps walk_descendants.simps Let_def ex by simp
qed

text \<open>What bringing up the descendants of the tile at an index makes of the tiles and their data.\<close>

lemma bring_up_split:
  assumes ts: "fl_tiles s = A @ t # B" and ds: "fl_data s = A' @ d # B'"
    and len: "length A' = length A" "length B' = length B"
    and fs: "fs = kin_flags E (tl_window t) (map tl_window B)"
  shows "bring_up_descendants_of E (length A) s =
    Some (s\<lparr>fl_tiles := A @ sel fs B @ t # unsel fs B, fl_data := A' @ sel fs B' @ d # unsel fs B'\<rparr>)"
proof -
  have "walk_descendants E (fl_tiles s) (tl_window t) (rev [length A + 1..<length (fl_tiles s)]) [] =
      rev (marks (length A + 1) fs)"
    using walk_is_marks [of "length A + 1" "fl_tiles s" E "tl_window t"] ts fs by simp
  moreover have "vec_get (fl_tiles s) (length A) = Some t" using ts by (simp add: vec_get_def)
  moreover have "raise_all (marks (length A + 1) fs) (length A) s =
      Some (s\<lparr>fl_tiles := A @ sel fs B @ t # unsel fs B, fl_data := A' @ sel fs B' @ d # unsel fs B'\<rparr>)"
    using raise_all_split [of s A "[t]" B A' "[d]" B' fs] ts ds len fs by simp
  ultimately show ?thesis by (simp add: bring_up_descendants_of_def)
qed

section \<open>Children above their parents\<close>

definition stacked :: "('w, 'id) LayoutEnv \<Rightarrow> 'w list \<Rightarrow> bool" where
  "stacked E ws \<longleftrightarrow> sorted_wrt (\<lambda>a b. \<not> el_is_child_of E b a) ws"

text \<open>The child relation between the windows of a list has no cycle: it decreases a rank of their ids.\<close>

definition kin_ok :: "('w, 'id) LayoutEnv \<Rightarrow> 'w list \<Rightarrow> bool" where
  "kin_ok E ws \<longleftrightarrow> (\<exists>rank :: 'id \<Rightarrow> nat. \<forall>v \<in> set ws. \<forall>w \<in> set ws.
     el_is_child_of E v w \<longrightarrow> rank (el_id E w) < rank (el_id E v))"

lemma kin_ok_subset: "kin_ok E ws \<Longrightarrow> set vs \<subseteq> set ws \<Longrightarrow> kin_ok E vs"
  unfolding kin_ok_def by blast

lemma kin_ranked:
  assumes "\<forall>v \<in> set (win # vs). \<forall>w \<in> set (win # vs). el_is_child_of E v w \<longrightarrow> rank (el_id E w) < (rank (el_id E v) :: nat)"
    and "u \<in> set (sel (kin_flags E win vs) vs)"
  shows "rank (el_id E win) < rank (el_id E u)"
  using assms
proof (induction vs arbitrary: u)
  case Nil
  then show ?case by simp
next
  case (Cons v vs)
  let ?fs = "kin_flags E win vs"
  have ih: "x \<in> set (sel ?fs vs) \<Longrightarrow> rank (el_id E win) < rank (el_id E x)" for x
    using Cons.IH Cons.prems(1) by simp
  show ?case
  proof (cases "u \<in> set (sel ?fs vs)")
    case False
    then have u: "u = v" "el_is_child_of E v win \<or> (\<exists>x \<in> set (sel ?fs vs). el_is_child_of E v x)"
      using Cons.prems(2) by (auto simp: Let_def split: if_splits)
    from u(2) show ?thesis
    proof
      assume "el_is_child_of E v win"
      then show ?thesis using Cons.prems(1) u(1) by simp
    next
      assume "\<exists>x \<in> set (sel ?fs vs). el_is_child_of E v x"
      then obtain x where x: "x \<in> set (sel ?fs vs)" "el_is_child_of E v x" by blast
      then have "rank (el_id E x) < rank (el_id E v)"
        using Cons.prems(1) set_sel [of ?fs vs] by auto
      then show ?thesis using ih [OF x(1)] u(1) by simp
    qed
  qed (rule ih)
qed

lemma kin_not_parent:
  assumes "kin_ok E (win # vs)" and "u \<in> set (sel (kin_flags E win vs) vs)"
  shows "\<not> el_is_child_of E win u"
proof
  assume c: "el_is_child_of E win u"
  obtain rank :: "'b \<Rightarrow> nat" where r: "\<forall>v \<in> set (win # vs). \<forall>w \<in> set (win # vs).
      el_is_child_of E v w \<longrightarrow> rank (el_id E w) < rank (el_id E v)"
    using assms(1) unfolding kin_ok_def by blast
  have "u \<in> set vs" using assms(2) set_sel [of "kin_flags E win vs" vs] by blast
  then have "rank (el_id E u) < rank (el_id E win)" using r c by simp
  with kin_ranked [OF r assms(2)] show False by simp
qed

text \<open>The windows that are left are not children of the ones that are raised.\<close>

lemma kin_complete:
  assumes "stacked E vs" and "v \<in> set (unsel (kin_flags E win vs) vs)"
  shows "\<not> el_is_child_of E v win \<and> (\<forall>u \<in> set (sel (kin_flags E win vs) vs). \<not> el_is_child_of E v u)"
  using assms
proof (induction vs)
  case Nil
  then show ?case by simp
next
  case (Cons w vs)
  let ?fs = "kin_flags E win vs"
  have st: "stacked E vs" "\<forall>b \<in> set vs. \<not> el_is_child_of E b w"
    using Cons.prems(1) by (simp_all add: stacked_def)
  show ?case
  proof (cases "v \<in> set (unsel ?fs vs)")
    case True
    then have "v \<in> set vs" using set_sel [of "map Not ?fs" vs] by blast
    then show ?thesis using Cons.IH [OF st(1) True] st(2) by (auto simp: Let_def)
  next
    case False
    then have "v = w" "\<not> (el_is_child_of E w win \<or> (\<exists>x \<in> set (sel ?fs vs). el_is_child_of E w x))"
      using Cons.prems(2) by (auto simp: Let_def split: if_splits)
    then show ?thesis by (auto simp: Let_def)
  qed
qed

text \<open>
  Bringing up the descendants of a window gives a stacking order when only that window may have been
  below a child of its own.
\<close>

lemma stacked_bring_up:
  assumes ab: "stacked E (A @ B)" and aw: "\<forall>a \<in> set A. \<not> el_is_child_of E win a"
    and kin: "kin_ok E (win # B)" and fs: "fs = kin_flags E win B"
  shows "stacked E (A @ sel fs B @ win # unsel fs B)"
proof -
  have s: "stacked E A" "stacked E B" "\<forall>a \<in> set A. \<forall>b \<in> set B. \<not> el_is_child_of E b a"
    using ab by (simp_all add: stacked_def sorted_wrt_append)
  have "sorted_wrt (\<lambda>a b. \<not> el_is_child_of E b a) (sel fs B)" "sorted_wrt (\<lambda>a b. \<not> el_is_child_of E b a) (unsel fs B)"
    using s(2) by (simp_all add: stacked_def sorted_wrt_sel)
  moreover have "set (sel fs B) \<subseteq> set B" "set (unsel fs B) \<subseteq> set B" by (rule set_sel)+
  ultimately show ?thesis
    unfolding stacked_def
    using s aw kin_not_parent [OF kin] kin_complete [OF s(2), where win = win] fs
    by (auto simp: sorted_wrt_append stacked_def)
qed

section \<open>The descendants are all of them\<close>

text \<open>The windows of a list that descend from \<open>win\<close>.\<close>

inductive descends :: "('w, 'id) LayoutEnv \<Rightarrow> 'w list \<Rightarrow> 'w \<Rightarrow> 'w \<Rightarrow> bool" for E vs win where
  child: "v \<in> set vs \<Longrightarrow> el_is_child_of E v win \<Longrightarrow> descends E vs win v"
| grandchild: "v \<in> set vs \<Longrightarrow> descends E vs win u \<Longrightarrow> el_is_child_of E v u \<Longrightarrow> descends E vs win v"

lemma descends_mono: "descends E vs win v \<Longrightarrow> set vs \<subseteq> set ws \<Longrightarrow> descends E ws win v"
  by (induction rule: descends.induct) (auto intro: descends.intros)

lemma kin_descends: "u \<in> set (sel (kin_flags E win vs) vs) \<Longrightarrow> descends E vs win u"
proof (induction vs arbitrary: u)
  case Nil
  then show ?case by simp
next
  case (Cons v vs)
  have m: "descends E vs win x \<Longrightarrow> descends E (v # vs) win x" for x
    by (erule descends_mono) auto
  have v: "descends E (v # vs) win v"
    if "el_is_child_of E v win \<or> (\<exists>x \<in> set (sel (kin_flags E win vs) vs). el_is_child_of E v x)"
    using that
  proof
    assume "\<exists>x \<in> set (sel (kin_flags E win vs) vs). el_is_child_of E v x"
    then obtain x where x: "x \<in> set (sel (kin_flags E win vs) vs)" "el_is_child_of E v x" by blast
    show ?thesis by (rule descends.grandchild [OF _ m [OF Cons.IH [OF x(1)]] x(2)]) simp
  qed (auto intro: descends.child)
  from Cons v m show ?case by (auto simp: Let_def split: if_splits)
qed

lemma kin_exact:
  assumes "stacked E vs"
  shows "set (sel (kin_flags E win vs) vs) = {v. descends E vs win v}"
proof (intro set_eqI iffI)
  fix v assume "v \<in> {v. descends E vs win v}"
  then have "descends E vs win v" by simp
  then show "v \<in> set (sel (kin_flags E win vs) vs)"
  proof (induction rule: descends.induct)
    case (child v)
    then have "v \<in> set (sel (kin_flags E win vs) vs) \<or> v \<in> set (unsel (kin_flags E win vs) vs)"
      by (intro sel_or_unsel) simp_all
    then show ?case using kin_complete [OF assms, of v win] child by blast
  next
    case (grandchild v u)
    then have "v \<in> set (sel (kin_flags E win vs) vs) \<or> v \<in> set (unsel (kin_flags E win vs) vs)"
      by (intro sel_or_unsel) simp_all
    then show ?case using kin_complete [OF assms, of v win] grandchild by blast
  qed
qed (simp add: kin_descends)

end
