(* ===== verification/Layout_Floating_Inv.thy ===== *)
theory Layout_Floating_Inv
  imports Layout_Floating_Stack
begin

text \<open>
  The invariant of the floating layout, the assertions of its \<^verbatim>\<open>verify_invariants\<close> with the
  well-formedness of its tiles, and that every operation keeps it and does not panic.
\<close>

section \<open>The invariant\<close>

definition data_ok :: "('w, 'id) LayoutEnv \<Rightarrow> Rect \<Rightarrow> 'w Tile \<Rightarrow> FloatingData \<Rightarrow> bool" where
  "data_ok E area t d \<longleftrightarrow> fd_size d = tile_size E t \<and> fd_working_area d = area \<and>
     recompute_logical_pos d = d"

definition floating_tile_ok :: "('w, 'id) LayoutEnv \<Rightarrow> ('w, 'id) FloatingSpace \<Rightarrow> 'w Tile \<Rightarrow> bool" where
  "floating_tile_ok E s t \<longleftrightarrow> tile_ok E t \<and> tl_options t = fl_options s \<and>
     tl_view_size t = fl_view_size s \<and> tl_scale t = fl_scale s \<and>
     is_normal (el_pending_sizing_mode E (tl_window t))"

definition floating_ids :: "('w, 'id) LayoutEnv \<Rightarrow> ('w, 'id) FloatingSpace \<Rightarrow> 'id list" where
  "floating_ids E s = map (\<lambda>t. el_id E (tl_window t)) (fl_tiles s)"

definition floating_core :: "('w, 'id) LayoutEnv \<Rightarrow> ('w, 'id) FloatingSpace \<Rightarrow> bool" where
  "floating_core E s \<longleftrightarrow> options_ok (fl_options s) \<and> (\<forall>t \<in> set (fl_tiles s). floating_tile_ok E s t) \<and>
     list_all2 (data_ok E (fl_working_area s)) (fl_tiles s) (fl_data s) \<and> distinct (floating_ids E s) \<and>
     (case fl_active_window_id s of None \<Rightarrow> fl_tiles s = [] | Some i \<Rightarrow> i \<in> set (floating_ids E s)) \<and>
     option_ok (\<lambda>r. ir_window r \<in> set (floating_ids E s)) (fl_interactive_resize s) \<and>
     kin_ok E (map tl_window (fl_tiles s))"

definition floating_inv :: "('w, 'id) LayoutEnv \<Rightarrow> ('w, 'id) FloatingSpace \<Rightarrow> bool" where
  "floating_inv E s \<longleftrightarrow> floating_core E s \<and> stacked E (map tl_window (fl_tiles s))"

text \<open>What no operation but a change of configuration changes.\<close>

definition floating_env :: "('w, 'id) FloatingSpace \<Rightarrow> ('w, 'id) FloatingSpace \<Rightarrow> bool" where
  "floating_env s s' \<longleftrightarrow> fl_view_size s' = fl_view_size s \<and> fl_working_area s' = fl_working_area s \<and>
     fl_scale s' = fl_scale s \<and> fl_options s' = fl_options s"

lemma floating_env_refl [simp]: "floating_env s s"
  by (simp add: floating_env_def)

lemma floating_env_trans: "floating_env s t \<Longrightarrow> floating_env t u \<Longrightarrow> floating_env s u"
  by (simp add: floating_env_def)

lemma floating_tile_ok_env: "floating_env s s' \<Longrightarrow> floating_tile_ok E s' t = floating_tile_ok E s t"
  by (auto simp: floating_env_def floating_tile_ok_def)

lemma floating_invD:
  assumes "floating_inv E s"
  shows "options_ok (fl_options s)" "\<And>t. t \<in> set (fl_tiles s) \<Longrightarrow> floating_tile_ok E s t"
    "list_all2 (data_ok E (fl_working_area s)) (fl_tiles s) (fl_data s)"
    "length (fl_data s) = length (fl_tiles s)" "distinct (floating_ids E s)"
    "kin_ok E (map tl_window (fl_tiles s))" "stacked E (map tl_window (fl_tiles s))"
    "floating_core E s"
  using assms by (auto simp: floating_inv_def floating_core_def dest: list_all2_lengthD)

lemma floating_active_ids:
  "floating_core E s \<Longrightarrow> fl_active_window_id s = Some i \<Longrightarrow> i \<in> set (floating_ids E s)"
  by (simp add: floating_core_def)

lemma floating_resize_ids:
  "floating_core E s \<Longrightarrow> fl_interactive_resize s = Some r \<Longrightarrow> ir_window r \<in> set (floating_ids E s)"
  by (simp add: floating_core_def)

lemma idx_of_mem:
  "i \<in> set (floating_ids E s) \<longleftrightarrow> (\<exists>k. floating_idx_of E i s = Some k)"
  using vec_position_None [of "\<lambda>t. el_id E (tl_window t) = i" "fl_tiles s"]
  by (auto simp: floating_idx_of_def floating_ids_def)

lemma idx_ofD:
  assumes "floating_idx_of E i s = Some k"
  shows "k < length (fl_tiles s)" and "el_id E (tl_window (fl_tiles s ! k)) = i"
  using vec_position_SomeD [of "\<lambda>t. el_id E (tl_window t) = i" "fl_tiles s" k] assms
  by (simp_all add: floating_idx_of_def)

section \<open>Cached data\<close>

lemma recompute_idem [simp]: "recompute_logical_pos (recompute_logical_pos d) = recompute_logical_pos d"
  by (simp add: recompute_logical_pos_def)

lemma recompute_fields [simp]:
  "fd_size (recompute_logical_pos d) = fd_size d" "fd_working_area (recompute_logical_pos d) = fd_working_area d"
  "fd_pos (recompute_logical_pos d) = fd_pos d"
  by (simp_all add: recompute_logical_pos_def)

lemma set_logical_pos_fields [simp]:
  "fd_size (set_logical_pos p d) = fd_size d" "fd_working_area (set_logical_pos p d) = fd_working_area d"
  "recompute_logical_pos (set_logical_pos p d) = set_logical_pos p d"
  by (simp_all add: set_logical_pos_def)

lemma data_update_fields [simp]:
  "fd_size (data_update E t d) = tile_size E t" "fd_working_area (data_update E t d) = fd_working_area d"
  "fd_pos (data_update E t d) = fd_pos d"
  by (simp_all add: data_update_def Let_def)

lemma data_ok_set_pos: "data_ok E area t d \<Longrightarrow> data_ok E area t (set_logical_pos p d)"
  by (simp add: data_ok_def)

lemma data_ok_new: "data_ok E area t (data_new E area t p)"
  by (simp add: data_ok_def data_new_def)

lemma data_ok_update: "data_ok E area t d \<Longrightarrow> data_ok E area t' (data_update E t' d)"
  by (simp add: data_ok_def data_update_def Let_def)

lemma data_ok_update_config:
  "data_ok E area t d \<Longrightarrow> data_ok E area' t' (data_update_config area' (data_update E t' d))"
  by (auto simp: data_ok_def data_update_def data_update_config_def Let_def)

lemma data_ok_follow: "data_ok E area t d \<Longrightarrow> data_ok E area t (follow_edges r p d)"
  by (auto simp: follow_edges_def Let_def data_ok_set_pos split: option.split)

lemma data_ok_frame: "tile_frame E t t' \<Longrightarrow> data_ok E area t d \<Longrightarrow> data_ok E area t' d"
  by (simp add: data_ok_def tile_size_frame)

section \<open>Changing tiles in place\<close>

definition same_kin :: "('w, 'id) LayoutEnv \<Rightarrow> 'w Tile \<Rightarrow> 'w Tile \<Rightarrow> bool" where
  "same_kin E t t' \<longleftrightarrow> el_id E (tl_window t') = el_id E (tl_window t) \<and>
     same_family E (tl_window t) (tl_window t')"

lemma same_kin_refl [simp]: "same_kin E t t"
  by (simp add: same_kin_def)

lemma tile_frame_kin: "tile_frame E t t' \<Longrightarrow> same_kin E t t'"
  by (simp add: tile_frame_def same_look_def same_kin_def)

lemma same_kin_child:
  "same_kin E a a' \<Longrightarrow> same_kin E b b' \<Longrightarrow>
     el_is_child_of E (tl_window b') (tl_window a') = el_is_child_of E (tl_window b) (tl_window a)"
  by (simp add: same_kin_def same_family_def)

lemma same_kin_ids:
  "list_all2 (same_kin E) ts ts' \<Longrightarrow> map (\<lambda>t. el_id E (tl_window t)) ts' = map (\<lambda>t. el_id E (tl_window t)) ts"
  by (induction rule: list_all2_induct) (simp_all add: same_kin_def)

lemma same_kin_stacked:
  assumes "list_all2 (same_kin E) ts ts'"
  shows "stacked E (map tl_window ts') = stacked E (map tl_window ts)"
proof -
  have len: "length ts' = length ts" using list_all2_lengthD [OF assms] by simp
  have p: "el_is_child_of E (tl_window (ts' ! j)) (tl_window (ts' ! i)) =
      el_is_child_of E (tl_window (ts ! j)) (tl_window (ts ! i))" if "i < j" "j < length ts" for i j
    by (rule same_kin_child; rule list_all2_nthD [OF assms]) (use that in simp_all)
  show ?thesis
    unfolding stacked_def sorted_wrt_iff_nth_less using p len by auto
qed

lemma list_all2_mem: "list_all2 P xs ys \<Longrightarrow> y \<in> set ys \<Longrightarrow> \<exists>x \<in> set xs. P x y"
  by (induction rule: list_all2_induct) auto

lemma same_kin_kin_ok:
  assumes k: "list_all2 (same_kin E) ts ts'" and ok: "kin_ok E (map tl_window ts)"
  shows "kin_ok E (map tl_window ts')"
proof -
  obtain rank :: "'b \<Rightarrow> nat" where r: "\<forall>v \<in> set ts. \<forall>w \<in> set ts. el_is_child_of E (tl_window v) (tl_window w) \<longrightarrow>
      rank (el_id E (tl_window w)) < rank (el_id E (tl_window v))"
    using ok unfolding kin_ok_def by auto
  have "rank (el_id E (tl_window w')) < rank (el_id E (tl_window v'))"
    if v': "v' \<in> set ts'" and w': "w' \<in> set ts'" and c: "el_is_child_of E (tl_window v') (tl_window w')" for v' w'
  proof -
    obtain v where v: "v \<in> set ts" "same_kin E v v'" using list_all2_mem [OF k v'] by blast
    obtain w where w: "w \<in> set ts" "same_kin E w w'" using list_all2_mem [OF k w'] by blast
    have "el_is_child_of E (tl_window v) (tl_window w)" using c same_kin_child [OF w(2) v(2)] by simp
    then show ?thesis using r v w by (simp add: same_kin_def)
  qed
  then show ?thesis unfolding kin_ok_def by auto
qed

text \<open>
  Well-formed tiles with the same windows in the same places, with their data up to date, keep the
  invariant; the configuration may change.
\<close>

lemma floating_inv_tiles:
  assumes inv: "floating_inv E s" and kin: "list_all2 (same_kin E) (fl_tiles s) (fl_tiles s')"
    and opts: "options_ok (fl_options s')" and ok: "\<forall>t \<in> set (fl_tiles s'). floating_tile_ok E s' t"
    and data: "list_all2 (data_ok E (fl_working_area s')) (fl_tiles s') (fl_data s')"
    and act: "fl_active_window_id s' = fl_active_window_id s"
    and res: "fl_interactive_resize s' = fl_interactive_resize s"
  shows "floating_inv E s' \<and> floating_ids E s' = floating_ids E s"
proof -
  have ids: "floating_ids E s' = floating_ids E s"
    using same_kin_ids [OF kin] by (simp add: floating_ids_def)
  have e: "fl_tiles s' = [] \<longleftrightarrow> fl_tiles s = []" using list_all2_lengthD [OF kin] by auto
  have "kin_ok E (map tl_window (fl_tiles s'))" "stacked E (map tl_window (fl_tiles s'))"
    using same_kin_kin_ok [OF kin] same_kin_stacked [OF kin] floating_invD(6,7) [OF inv] by simp_all
  then show ?thesis
    using floating_invD(8) [OF inv] ids e opts ok data act res
    by (cases "fl_active_window_id s"; cases "fl_interactive_resize s") (simp_all add: floating_inv_def floating_core_def)
qed

definition floating_keeps :: "('w, 'id) LayoutEnv \<Rightarrow> ('w, 'id) FloatingSpace \<Rightarrow> ('w, 'id) FloatingSpace \<Rightarrow> bool" where
  "floating_keeps E s s' \<longleftrightarrow> floating_inv E s' \<and> floating_env s s' \<and>
     mset (floating_ids E s') = mset (floating_ids E s)"

lemma floating_keeps_refl: "floating_inv E s \<Longrightarrow> floating_keeps E s s"
  by (simp add: floating_keeps_def)

lemma floating_keeps_trans: "floating_keeps E s t \<Longrightarrow> floating_keeps E t u \<Longrightarrow> floating_keeps E s u"
  by (auto simp: floating_keeps_def intro: floating_env_trans)

lemma floating_keeps_mem: "floating_keeps E s s' \<Longrightarrow> set (floating_ids E s') = set (floating_ids E s)"
  unfolding floating_keeps_def by (metis set_mset_mset)

text \<open>The operations that keep the invariant, the configuration and the order of the windows.\<close>

definition floating_steady :: "('w, 'id) LayoutEnv \<Rightarrow> ('w, 'id) FloatingSpace \<Rightarrow> ('w, 'id) FloatingSpace \<Rightarrow> bool" where
  "floating_steady E s s' \<longleftrightarrow> floating_inv E s' \<and> floating_env s s' \<and>
     floating_ids E s' = floating_ids E s \<and> fl_active_window_id s' = fl_active_window_id s"

lemma floating_steady_keeps: "floating_steady E s s' \<Longrightarrow> floating_keeps E s s'"
  by (simp add: floating_keeps_def floating_steady_def)

lemma floating_steady_refl: "floating_inv E s \<Longrightarrow> floating_steady E s s"
  by (simp add: floating_steady_def)

lemma floating_steady_trans: "floating_steady E s t \<Longrightarrow> floating_steady E t u \<Longrightarrow> floating_steady E s u"
  by (auto simp: floating_steady_def intro: floating_env_trans)

lemma floating_set_tile:
  assumes inv: "floating_inv E s" and k: "k < length (fl_tiles s)"
    and kin: "same_kin E (fl_tiles s ! k) t" and ok: "floating_tile_ok E s t"
    and d: "data_ok E (fl_working_area s) t d"
  shows "floating_steady E s (s\<lparr>fl_tiles := (fl_tiles s)[k := t], fl_data := (fl_data s)[k := d]\<rparr>)"
proof -
  let ?s = "s\<lparr>fl_tiles := (fl_tiles s)[k := t], fl_data := (fl_data s)[k := d]\<rparr>"
  have e: "floating_env s ?s" by (simp add: floating_env_def)
  have "list_all2 (same_kin E) (fl_tiles s) (fl_tiles ?s)"
    using list_all2_update_cong [OF list_all2_refl [of "same_kin E" "fl_tiles s"] kin, of k] by simp
  moreover have "\<forall>t \<in> set (fl_tiles ?s). floating_tile_ok E ?s t"
    using floating_invD(2) [OF inv] ok set_update_subset_insert [of "fl_tiles s" k t]
    unfolding floating_tile_ok_env [OF e] by auto
  moreover have "list_all2 (data_ok E (fl_working_area ?s)) (fl_tiles ?s) (fl_data ?s)"
    using floating_invD(3) [OF inv] d by (simp add: list_all2_update_cong)
  ultimately show ?thesis
    using floating_inv_tiles [OF inv, of ?s] floating_invD(1) [OF inv] e by (simp add: floating_steady_def)
qed

lemma floating_set_tile_only:
  assumes inv: "floating_inv E s" and k: "k < length (fl_tiles s)"
    and fr: "tile_frame E (fl_tiles s ! k) t" and ok: "floating_tile_ok E s t"
  shows "floating_steady E s (s\<lparr>fl_tiles := (fl_tiles s)[k := t]\<rparr>)"
proof -
  have "data_ok E (fl_working_area s) (fl_tiles s ! k) (fl_data s ! k)"
    using floating_invD(3) [OF inv] k by (simp add: list_all2_conv_all_nth)
  then have "floating_steady E s (s\<lparr>fl_tiles := (fl_tiles s)[k := t], fl_data := (fl_data s)[k := fl_data s ! k]\<rparr>)"
    by (intro floating_set_tile [OF inv k tile_frame_kin [OF fr] ok]) (rule data_ok_frame [OF fr])
  then show ?thesis by simp
qed

lemma floating_tile_at:
  assumes "floating_inv E s" and "k < length (fl_tiles s)"
  shows "floating_tile_ok E s (fl_tiles s ! k)" and "tile_ok E (fl_tiles s ! k)"
    and "data_ok E (fl_working_area s) (fl_tiles s ! k) (fl_data s ! k)"
    and "k < length (fl_data s)"
  using floating_invD(2) [OF assms(1), of "fl_tiles s ! k"] floating_invD(3,4) [OF assms(1)] assms(2)
  by (simp_all add: floating_tile_ok_def list_all2_conv_all_nth)

lemma floating_resize_none:
  "floating_inv E s \<Longrightarrow> floating_inv E (s\<lparr>fl_interactive_resize := None\<rparr>)"
  by (cases "fl_active_window_id s")
     (auto simp: floating_inv_def floating_core_def floating_tile_ok_def floating_ids_def)

lemma floating_resize_end_ok:
  "floating_inv E s \<Longrightarrow> floating_steady E s (floating_interactive_resize_end ow s)"
  using floating_resize_none [of E s]
  by (auto simp: floating_interactive_resize_end_def floating_steady_def floating_env_def floating_ids_def
      split: option.split)

end
