(* ===== verification/Layout_Floating_Ops.thy ===== *)
theory Layout_Floating_Ops
  imports Layout_Floating_Inv
begin

text \<open>
  Every operation of the floating layout keeps its invariant and does not panic; what it does to the
  windows and their order.
\<close>

section \<open>Raising windows\<close>

lemma floating_core_perm:
  assumes core: "floating_core E s" and perm: "mset ts = mset (fl_tiles s)"
    and data: "list_all2 (data_ok E (fl_working_area s)) ts ds"
  shows "floating_core E (s\<lparr>fl_tiles := ts, fl_data := ds\<rparr>)"
    and "mset (floating_ids E (s\<lparr>fl_tiles := ts, fl_data := ds\<rparr>)) = mset (floating_ids E s)"
proof -
  let ?s = "s\<lparr>fl_tiles := ts, fl_data := ds\<rparr>"
  have st: "set ts = set (fl_tiles s)" using perm by (rule mset_eq_setD)
  have m: "mset (floating_ids E ?s) = mset (floating_ids E s)" using perm by (simp add: floating_ids_def)
  then have ids: "set (floating_ids E ?s) = set (floating_ids E s)" "distinct (floating_ids E ?s) = distinct (floating_ids E s)"
    by (rule mset_eq_setD, rule mset_eq_imp_distinct_iff)
  have e: "ts = [] \<longleftrightarrow> fl_tiles s = []" using st by (metis set_empty)
  have "kin_ok E (map tl_window ts)"
    by (rule kin_ok_subset [where ws = "map tl_window (fl_tiles s)"]) (use core st in \<open>simp_all add: floating_core_def\<close>)
  then show "floating_core E ?s"
    using core data st ids e
    by (cases "fl_active_window_id s"; cases "fl_interactive_resize s")
       (simp_all add: floating_core_def floating_tile_ok_def)
  show "mset (floating_ids E ?s) = mset (floating_ids E s)" by (rule m)
qed

lemma floating_core_active:
  "floating_core E s \<Longrightarrow> i \<in> set (floating_ids E s) \<Longrightarrow> floating_core E (s\<lparr>fl_active_window_id := Some i\<rparr>)"
  by (cases "fl_interactive_resize s") (auto simp: floating_core_def floating_tile_ok_def floating_ids_def)

definition floating_pairs :: "('w, 'id) FloatingSpace \<Rightarrow> ('w Tile \<times> FloatingData) list" where
  "floating_pairs s = zip (fl_tiles s) (fl_data s)"

lemma length_sel: "length xs = length ys \<Longrightarrow> length (sel fs xs) = length (sel fs ys)"
proof (induction fs xs arbitrary: ys rule: sel.induct)
  case (1 b fs x xs)
  then obtain y ys0 where "ys = y # ys0" "length xs = length ys0" by (cases ys) simp_all
  then show ?case using "1.IH" by simp
qed simp_all

lemma stacked_remove: "stacked E (A @ w # B) \<Longrightarrow> stacked E (A @ B)"
  by (simp add: stacked_def sorted_wrt_append)

text \<open>
  The window at an index, raised to a place above it, with its descendants brought up: the tiles that
  follow that place.
\<close>

lemma bring_up_ok:
  assumes core: "floating_core E s" and ts: "fl_tiles s = A @ t # B"
    and st: "stacked E (map tl_window (A @ B))" and up: "\<forall>a \<in> set A. \<not> el_is_child_of E (tl_window t) (tl_window a)"
    and fs: "fs = kin_flags E (tl_window t) (map tl_window B)"
  shows "runs (bring_up_descendants_of E (length A) s) (\<lambda>s'. floating_inv E s' \<and> floating_env s s' \<and>
     mset (floating_ids E s') = mset (floating_ids E s) \<and> fl_active_window_id s' = fl_active_window_id s \<and>
     fl_tiles s' = A @ sel fs B @ t # unsel fs B \<and> mset (floating_pairs s') = mset (floating_pairs s))"
proof -
  have data: "list_all2 (data_ok E (fl_working_area s)) (A @ t # B) (fl_data s)"
    using core ts by (simp add: floating_core_def)
  then obtain A' d B' where ds: "fl_data s = A' @ d # B'"
    "list_all2 (data_ok E (fl_working_area s)) A A'" "data_ok E (fl_working_area s) t d"
    "list_all2 (data_ok E (fl_working_area s)) B B'"
    by (auto simp: list_all2_append1 list_all2_Cons1)
  note len = list_all2_lengthD [OF ds(2), symmetric] list_all2_lengthD [OF ds(4), symmetric]
  let ?ts = "A @ sel fs B @ t # unsel fs B" and ?ds = "A' @ sel fs B' @ d # unsel fs B'"
  have run: "bring_up_descendants_of E (length A) s = Some (s\<lparr>fl_tiles := ?ts, fl_data := ?ds\<rparr>)"
    by (rule bring_up_split [OF ts ds(1) len fs])
  have perm: "mset ?ts = mset (fl_tiles s)"
    using mset_sel [of fs B] fs ts by (simp add: ac_simps)
  have al: "list_all2 (data_ok E (fl_working_area s)) ?ts ?ds"
    using ds by (simp add: list_all2_appendI list_all2_sel)
  have "kin_ok E (tl_window t # map tl_window B)"
    by (rule kin_ok_subset [where ws = "map tl_window (fl_tiles s)"]) (use core ts in \<open>auto simp: floating_core_def\<close>)
  then have "stacked E (map tl_window ?ts)"
    using stacked_bring_up [of E "map tl_window A" "map tl_window B" "tl_window t" fs] st up fs
    by (simp add: sel_map)
  moreover have "mset (zip ?ts ?ds) = mset (zip (fl_tiles s) (fl_data s))"
  proof -
    have "mset (sel fs (zip B B')) + mset (unsel fs (zip B B')) = mset (zip B B')"
      using fs len by (intro mset_sel) simp
    then show ?thesis
      using len by (simp add: ts ds(1) zip_sel length_sel [OF len(2)] ac_simps)
  qed
  ultimately show ?thesis
    using floating_core_perm [OF core perm al]
    by (simp add: run floating_inv_def floating_env_def floating_pairs_def)
qed

lemma floating_activate_split:
  assumes inv: "floating_inv E s" and ts: "fl_tiles s = A @ t # B"
    and i: "floating_idx_of E i s = Some (length A)"
    and fs: "fs = kin_flags E (tl_window t) (map tl_window (A @ B))"
  shows "runs (floating_activate_window E i s) (\<lambda>(b, s'). b \<and> floating_keeps E s s' \<and>
     fl_active_window_id s' = Some i \<and> fl_tiles s' = sel fs (A @ B) @ t # unsel fs (A @ B))"
proof -
  have data: "list_all2 (data_ok E (fl_working_area s)) (A @ t # B) (fl_data s)"
    using floating_invD(3) [OF inv] ts by simp
  then obtain A' d B' where ds: "fl_data s = A' @ d # B'"
    "list_all2 (data_ok E (fl_working_area s)) A A'" "data_ok E (fl_working_area s) t d"
    "list_all2 (data_ok E (fl_working_area s)) B B'"
    by (auto simp: list_all2_append1 list_all2_Cons1)
  let ?s = "s\<lparr>fl_tiles := t # A @ B, fl_data := d # A' @ B'\<rparr>"
  have "raise_window (length A) 0 s = Some ?s"
    using raise_window_split [of s "[]" A t B "[]" A' d B'] ts ds list_all2_lengthD [OF ds(2)] by simp
  moreover have core: "floating_core E ?s" and ids: "mset (floating_ids E ?s) = mset (floating_ids E s)"
    by (rule floating_core_perm [OF floating_invD(8) [OF inv]]; use ts ds in \<open>simp add: list_all2_appendI\<close>)+
  have mem: "i \<in> set (floating_ids E ?s)"
    using i idx_of_mem [of i E s] mset_eq_setD [OF ids] by blast
  then have "floating_core E (?s\<lparr>fl_active_window_id := Some i\<rparr>)"
    by (rule floating_core_active [OF core])
  moreover have "stacked E (map tl_window (A @ B))"
    using floating_invD(7) [OF inv] ts by (simp add: stacked_remove)
  moreover have m: "mset (floating_ids E (?s\<lparr>fl_active_window_id := Some i\<rparr>)) = mset (floating_ids E s)"
    using ids by (simp add: floating_ids_def)
  ultimately have "runs (bring_up_descendants_of E (length ([] :: 'a Tile list)) (?s\<lparr>fl_active_window_id := Some i\<rparr>))
      (\<lambda>s'. floating_keeps E s s' \<and> fl_active_window_id s' = Some i \<and>
        fl_tiles s' = sel fs (A @ B) @ t # unsel fs (A @ B))"
    by (intro runs_mono [OF bring_up_ok [where A = "[]" and B = "A @ B" and t = t, OF _ _ _ _ fs]])
       (simp_all add: floating_keeps_def floating_env_def)
  then show ?thesis
    using \<open>raise_window (length A) 0 s = Some ?s\<close> by (simp add: floating_activate_window_def i)
qed

lemma floating_idx_split:
  assumes "floating_idx_of E i s = Some k"
  obtains A t B where "fl_tiles s = A @ t # B" and "k = length A" and "el_id E (tl_window t) = i"
proof -
  note k = idx_ofD [OF assms]
  show thesis
    by (rule that [of "take k (fl_tiles s)" "fl_tiles s ! k" "drop (Suc k) (fl_tiles s)"])
       (use k id_take_nth_drop [OF k(1)] in \<open>simp_all\<close>)
qed

lemma floating_activate_ok:
  assumes inv: "floating_inv E s"
  shows "runs (floating_activate_window E i s) (\<lambda>(b, s'). floating_keeps E s s' \<and>
     (if i \<in> set (floating_ids E s) then b \<and> fl_active_window_id s' = Some i else \<not> b \<and> s' = s))"
proof (cases "floating_idx_of E i s")
  case None
  then show ?thesis using idx_of_mem [of i E s] inv by (simp add: floating_activate_window_def floating_keeps_refl)
next
  case (Some k)
  then obtain A t B where sp: "fl_tiles s = A @ t # B" "k = length A" by (rule floating_idx_split)
  have "i \<in> set (floating_ids E s)" using Some idx_of_mem [of i E s] by blast
  then show ?thesis
    by (intro runs_mono [OF floating_activate_split [OF inv sp(1) Some [unfolded sp(2)] refl]]) auto
qed

lemma descendants_added_ok:
  assumes inv: "floating_inv E s"
  shows "runs (descendants_added E i s) (\<lambda>(b, s'). floating_keeps E s s' \<and>
     (b \<longleftrightarrow> i \<in> set (floating_ids E s)) \<and> fl_active_window_id s' = fl_active_window_id s)"
proof (cases "floating_idx_of E i s")
  case None
  then show ?thesis using idx_of_mem [of i E s] inv by (simp add: descendants_added_def floating_keeps_refl)
next
  case (Some k)
  then obtain A t B where sp: "fl_tiles s = A @ t # B" "k = length A" by (rule floating_idx_split)
  have "i \<in> set (floating_ids E s)" using Some idx_of_mem [of i E s] by blast
  moreover have "stacked E (map tl_window (A @ B))" "\<forall>a \<in> set A. \<not> el_is_child_of E (tl_window t) (tl_window a)"
    using floating_invD(7) [OF inv] sp by (auto simp: stacked_def sorted_wrt_append)
  moreover from this have "runs (bring_up_descendants_of E k s) (\<lambda>s'. floating_keeps E s s' \<and>
      fl_active_window_id s' = fl_active_window_id s)"
    unfolding sp(2) floating_keeps_def
    by (intro runs_mono [OF bring_up_ok [OF floating_invD(8) [OF inv] sp(1) _ _ refl]]) simp_all
  ultimately show ?thesis
    using Some by (simp add: descendants_added_def)
qed

section \<open>Adding and removing\<close>

lemma first_parent_above:
  fixes ts :: "'w Tile list" and E :: "('w, 'id) LayoutEnv" and win :: 'w
  assumes "k \<le> length ts"
  defines "j \<equiv> (case vec_position (\<lambda>t. el_is_child_of E win (tl_window t)) (take k ts) of Some i \<Rightarrow> i | None \<Rightarrow> k)"
  shows "j \<le> length ts" and "\<forall>a \<in> set (take j ts). \<not> el_is_child_of E win (tl_window a)"
proof -
  have "j \<le> length ts \<and> (\<forall>a \<in> set (take j ts). \<not> el_is_child_of E win (tl_window a))"
  proof (cases "vec_position (\<lambda>t. el_is_child_of E win (tl_window t)) (take k ts)")
    case None
    then show ?thesis using assms(1) vec_position_None [of "\<lambda>t. el_is_child_of E win (tl_window t)" "take k ts"]
      by (simp add: j_def)
  next
    case (Some i)
    note i = vec_position_SomeD [OF Some]
    then show ?thesis using Some by (auto simp: j_def in_set_conv_nth)
  qed
  then show "j \<le> length ts" "\<forall>a \<in> set (take j ts). \<not> el_is_child_of E win (tl_window a)" by simp_all
qed

lemma floating_coreI:
  "options_ok (fl_options s) \<Longrightarrow> \<forall>t \<in> set (fl_tiles s). floating_tile_ok E s t \<Longrightarrow>
    list_all2 (data_ok E (fl_working_area s)) (fl_tiles s) (fl_data s) \<Longrightarrow> distinct (floating_ids E s) \<Longrightarrow>
    case fl_active_window_id s of None \<Rightarrow> fl_tiles s = [] | Some i \<Rightarrow> i \<in> set (floating_ids E s) \<Longrightarrow>
    option_ok (\<lambda>r. ir_window r \<in> set (floating_ids E s)) (fl_interactive_resize s) \<Longrightarrow>
    kin_ok E (map tl_window (fl_tiles s)) \<Longrightarrow> floating_core E s"
  by (simp add: floating_core_def)

lemma floating_core_insert:
  assumes core: "floating_core E s" and t: "floating_tile_ok E s t" and d: "data_ok E (fl_working_area s) t d"
    and new: "el_id E (tl_window t) \<notin> set (floating_ids E s)"
    and kin: "kin_ok E (tl_window t # map tl_window (fl_tiles s))"
    and ts: "fl_tiles s = A @ B" "fl_tiles s' = A @ t # B"
    and ds: "fl_data s = A' @ B'" "fl_data s' = A' @ d # B'" and len: "length A' = length A"
    and act: "fl_active_window_id s' =
      (if activate \<or> fl_tiles s = [] then Some (el_id E (tl_window t)) else fl_active_window_id s)"
    and res: "fl_interactive_resize s' = fl_interactive_resize s" and env: "floating_env s s'"
  shows "floating_core E s'"
proof (rule floating_coreI)
  have ids: "set (floating_ids E s') = insert (el_id E (tl_window t)) (set (floating_ids E s))"
    using ts by (auto simp: floating_ids_def)
  show "options_ok (fl_options s')" using core env by (simp add: floating_core_def floating_env_def)
  show "\<forall>u \<in> set (fl_tiles s'). floating_tile_ok E s' u"
    using core t ts unfolding floating_tile_ok_env [OF env] by (auto simp: floating_core_def)
  have "list_all2 (data_ok E (fl_working_area s)) A A'" "list_all2 (data_ok E (fl_working_area s)) B B'"
    using core ts ds len by (simp_all add: floating_core_def list_all2_append)
  then show "list_all2 (data_ok E (fl_working_area s')) (fl_tiles s') (fl_data s')"
    using ts ds d env by (simp add: list_all2_appendI floating_env_def)
  show "distinct (floating_ids E s')"
    using new core ts by (auto simp: floating_ids_def floating_core_def)
  show "case fl_active_window_id s' of None \<Rightarrow> fl_tiles s' = [] | Some i \<Rightarrow> i \<in> set (floating_ids E s')"
    using core act ids by (auto simp: floating_core_def split: option.splits)
  show "option_ok (\<lambda>r. ir_window r \<in> set (floating_ids E s')) (fl_interactive_resize s')"
    using core ids res by (auto simp: floating_core_def split: option.splits)
  show "kin_ok E (map tl_window (fl_tiles s'))"
    by (rule kin_ok_subset [OF kin]) (use ts in auto)
qed

context layout_element
begin

lemma request_once_ok:
  assumes "tile_ok E t"
  shows "tile_ok E (t\<lparr>tl_window := el_request_size_once E sz an (tl_window t)\<rparr>)"
    and "tile_frame E t (t\<lparr>tl_window := el_request_size_once E sz an (tl_window t)\<rparr>)"
  using assms once_look [unfolded same_look_def, of sz an "tl_window t"]
  by (simp_all add: tile_ok_def tile_frame_def same_look_def)

lemma tile_update_config_kin: "same_kin E t (tile_update_config E vs sc opts t)"
  using config_look [unfolded same_look_def]
  by (simp add: same_kin_def tile_update_config_def tile_update_border_def Let_def)

lemma same_kin_trans: "same_kin E t u \<Longrightarrow> same_kin E u v \<Longrightarrow> same_kin E t v"
  by (auto simp: same_kin_def intro: same_family_trans)

lemma same_kin_cons_ok:
  fixes ts :: "'w Tile list"
  assumes "same_kin E t t'" and "kin_ok E (tl_window t # map tl_window ts)"
  shows "kin_ok E (tl_window t' # map tl_window ts)"
  using same_kin_kin_ok [of E "t # ts" "t' # ts"] assms by (simp add: list_all2_refl)

end

definition placed_as :: "('w, 'id) LayoutEnv \<Rightarrow> ('w, 'id) FloatingSpace \<Rightarrow> 'w Tile \<Rightarrow> 'w Tile \<Rightarrow> FloatingData \<Rightarrow> bool" where
  "placed_as E s t v d \<longleftrightarrow> same_kin E t v \<and> floating_tile_ok E s v \<and> data_ok E (fl_working_area s) v d \<and>
     (\<forall>p. tl_floating_pos t = Some p \<longrightarrow> d = data_new E (fl_working_area s) v (scale_by_working_area p s))"

context layout_element
begin

lemma floating_add_tile_at_full:
  assumes inv: "floating_inv E s" and k: "k \<le> length (fl_tiles s)" and t: "tile_ok E t"
    and new: "el_id E (tl_window t) \<notin> set (floating_ids E s)"
    and kin: "kin_ok E (tl_window t # map tl_window (fl_tiles s))"
  shows "runs (floating_add_tile_at E k t activate s) (\<lambda>s'. floating_inv E s' \<and> floating_env s s' \<and>
     mset (floating_ids E s') = add_mset (el_id E (tl_window t)) (mset (floating_ids E s)) \<and>
     fl_active_window_id s' =
       (if activate \<or> fl_tiles s = [] then Some (el_id E (tl_window t)) else fl_active_window_id s) \<and>
     (\<exists>v d. placed_as E s t v d \<and> mset (floating_pairs s') = add_mset (v, d) (mset (floating_pairs s))))"
proof -
  define u where "u = tile_update_config E (fl_view_size s) (fl_scale s) (fl_options s) t"
  define v where "v = u\<lparr>tl_window := el_request_size_once E (restored_size E u) True (tl_window u)\<rparr>"
  note u = tile_update_config_ok [OF t floating_invD(1) [OF inv], of "fl_view_size s" "fl_scale s", folded u_def]
  have "tile_ok E u" using u by simp
  note v = request_once_ok [OF this, of "restored_size E u" True, folded v_def]
  have vk: "same_kin E t v"
    by (rule same_kin_trans [OF _ tile_frame_kin [OF v(2)]]) (simp add: u_def tile_update_config_kin)
  then have vi: "el_id E (tl_window v) = el_id E (tl_window t)" by (simp add: same_kin_def)
  have vok: "floating_tile_ok E s v"
    using u v(1) once_pending by (simp add: floating_tile_ok_def v_def)
  define s1 where "s1 = (if activate \<or> fl_tiles s = []
      then s\<lparr>fl_active_window_id := Some (el_id E (tl_window v))\<rparr> else s)"
  define j where "j = (case vec_position (\<lambda>a. el_is_child_of E (tl_window v) (tl_window a)) (take k (fl_tiles s)) of
      Some i \<Rightarrow> i | None \<Rightarrow> k)"
  note j = first_parent_above [OF k, of E "tl_window v", folded j_def]
  define A where "A = take j (fl_tiles s)"
  define B where "B = drop j (fl_tiles s)"
  define A' where "A' = take j (fl_data s)"
  define B' where "B' = drop j (fl_data s)"
  have sp: "fl_tiles s = A @ B" "fl_data s = A' @ B'" "length A' = length A" "length A = j"
    using j(1) floating_invD(4) [OF inv] by (simp_all add: A_def B_def A'_def B'_def)
  define d where "d = data_new E (fl_working_area s1) v
      (case stored_or_default_tile_pos E v s1 of Some pos \<Rightarrow> pos
       | None \<Rightarrow> center_preferring_top_left_in_area (fl_working_area s1) (tile_size E v))"
  define s2 where "s2 = s\<lparr>fl_tiles := A @ v # B, fl_data := A' @ d # B',
      fl_active_window_id := (if activate \<or> fl_tiles s = [] then Some (el_id E (tl_window v))
                              else fl_active_window_id s)\<rparr>"
  have fs1: "fl_tiles s1 = fl_tiles s" "fl_data s1 = fl_data s" "fl_working_area s1 = fl_working_area s"
    by (simp_all add: s1_def)
  have "vec_insert j d (fl_data s1) = Some (A' @ d # B')" "vec_insert j v (fl_tiles s1) = Some (A @ v # B)"
    using j(1) floating_invD(4) [OF inv] by (simp_all add: vec_insert_def A_def B_def A'_def B'_def fs1)
  moreover have s12: "s1\<lparr>fl_data := A' @ d # B', fl_tiles := A @ v # B\<rparr> = s2"
    by (rule FloatingSpace.equality) (simp_all add: s1_def s2_def)
  ultimately have run: "floating_add_tile_at E k t activate s = bring_up_descendants_of E j s2"
    unfolding floating_add_tile_at_def Let_def u_def [symmetric] v_def [symmetric] s1_def [symmetric] fs1(1)
      j_def [symmetric] d_def [symmetric]
    by (simp add: s12)
  have d: "data_ok E (fl_working_area s) v d" by (simp add: d_def data_ok_new fs1)
  have core: "floating_core E s2"
    by (rule floating_core_insert [OF floating_invD(8) [OF inv] vok d _ same_kin_cons_ok [OF vk kin] sp(1) _ sp(2) _ sp(3)])
       (use new vi in \<open>simp_all add: s2_def floating_env_def\<close>)
  have st: "stacked E (map tl_window (A @ B))" using floating_invD(7) [OF inv] sp(1) by simp
  have tl: "fl_tiles s2 = A @ v # B" by (simp add: s2_def)
  have up: "\<forall>a \<in> set A. \<not> el_is_child_of E (tl_window v) (tl_window a)" using j(2) by (simp add: A_def)
  have e2: "floating_env s s2" by (simp add: s2_def floating_env_def)
  have m2: "mset (floating_ids E s2) = add_mset (el_id E (tl_window t)) (mset (floating_ids E s))"
    using sp(1) tl vi by (simp add: floating_ids_def)
  have a2: "fl_active_window_id s2 =
      (if activate \<or> fl_tiles s = [] then Some (el_id E (tl_window t)) else fl_active_window_id s)"
    by (simp add: s2_def vi)
  have "stored_or_default_tile_pos E v s1 = Some (scale_by_working_area p s)" if "tl_floating_pos t = Some p" for p
    using that fs1 by (simp add: stored_or_default_tile_pos_def v_def u_def tile_update_config_def
        tile_update_border_def Let_def scale_by_working_area_def)
  then have pl: "placed_as E s t v d"
    using vk vok d by (simp add: placed_as_def d_def fs1)
  have p2: "mset (floating_pairs s2) = add_mset (v, d) (mset (floating_pairs s))"
    using sp by (simp add: floating_pairs_def s2_def)
  show ?thesis
    unfolding run
    by (rule runs_mono [OF bring_up_ok [OF core tl st up refl, unfolded sp(4)]])
       (use floating_env_trans [OF e2] m2 a2 pl p2 in auto)
qed

lemma floating_add_tile_at_ok:
  assumes "floating_inv E s" and "k \<le> length (fl_tiles s)" and "tile_ok E t"
    and "el_id E (tl_window t) \<notin> set (floating_ids E s)"
    and "kin_ok E (tl_window t # map tl_window (fl_tiles s))"
  shows "runs (floating_add_tile_at E k t activate s) (\<lambda>s'. floating_inv E s' \<and> floating_env s s' \<and>
     mset (floating_ids E s') = add_mset (el_id E (tl_window t)) (mset (floating_ids E s)) \<and>
     fl_active_window_id s' =
       (if activate \<or> fl_tiles s = [] then Some (el_id E (tl_window t)) else fl_active_window_id s))"
  by (rule runs_mono [OF floating_add_tile_at_full [OF assms]]) blast

end

lemma store_floating_ok:
  "tile_ok E t \<Longrightarrow> tile_ok E (store_floating E d t)"
  "tl_window (store_floating E d t) = tl_window t"
  "tl_floating_pos (store_floating E d t) = Some (fd_pos d)"
  by (simp_all add: store_floating_def Let_def tile_ok_def split: option.split)

lemma forget_floating_fields [simp]:
  "fl_tiles (forget_floating E t s) = fl_tiles s" "fl_data (forget_floating E t s) = fl_data s"
  "floating_env s (forget_floating E t s)"
  by (auto simp: forget_floating_def Let_def floating_env_def split: list.split option.split)

lemma forget_floating_state:
  "fl_active_window_id (forget_floating E t s) =
     (case fl_tiles s of [] \<Rightarrow> None
      | u # _ \<Rightarrow> if fl_active_window_id s = Some (el_id E (tl_window t)) then Some (el_id E (tl_window u))
                 else fl_active_window_id s)"
  "fl_interactive_resize (forget_floating E t s) =
     (case fl_interactive_resize s of
        Some r \<Rightarrow> if ir_window r = el_id E (tl_window t) then None else Some r | None \<Rightarrow> None)"
  by (auto simp: forget_floating_def Let_def split: list.split option.split)

lemma floating_remove_ok:
  assumes inv: "floating_inv E s" and i: "i \<in> set (floating_ids E s)"
  shows "runs (floating_remove_tile E i s) (\<lambda>(r, s'). floating_inv E s' \<and> floating_env s s' \<and>
     floating_ids E s' = remove1 i (floating_ids E s) \<and> tile_ok E (rm_tile r) \<and> rm_is_floating r \<and>
     el_id E (tl_window (rm_tile r)) = i \<and>
     (fl_active_window_id s \<noteq> Some i \<longrightarrow> fl_active_window_id s' = fl_active_window_id s) \<and>
     (\<exists>k. floating_idx_of E i s = Some k \<and> tl_window (rm_tile r) = tl_window (fl_tiles s ! k) \<and>
        tl_floating_pos (rm_tile r) = Some (fd_pos (fl_data s ! k)) \<and>
        fl_tiles s' = take k (fl_tiles s) @ drop (Suc k) (fl_tiles s)))"
proof -
  obtain k where k: "floating_idx_of E i s = Some k" using i idx_of_mem [of i E s] by blast
  then obtain A t B where sp: "fl_tiles s = A @ t # B" "k = length A" "el_id E (tl_window t) = i"
    by (rule floating_idx_split)
  have data: "list_all2 (data_ok E (fl_working_area s)) (A @ t # B) (fl_data s)"
    using floating_invD(3) [OF inv] sp by simp
  then obtain A' d B' where ds: "fl_data s = A' @ d # B'"
    "list_all2 (data_ok E (fl_working_area s)) A A'" "list_all2 (data_ok E (fl_working_area s)) B B'"
    by (auto simp: list_all2_append1 list_all2_Cons1)
  have len: "length A' = length A" using list_all2_lengthD [OF ds(2)] by simp
  define s1 where "s1 = s\<lparr>fl_tiles := A @ B, fl_data := A' @ B'\<rparr>"
  define s2 where "s2 = forget_floating E t s1"
  have run: "floating_remove_tile E i s =
      Some (\<lparr>rm_tile = store_floating E d t,
             rm_width = Fixed (sw (tile_expected_or_current_size E (store_floating E d t))),
             rm_is_full_width = False, rm_is_floating = True\<rparr>, s2)"
    using k sp ds len by (simp add: floating_remove_tile_def floating_remove_tile_by_idx_def vec_remove_def
        nth_append s2_def s1_def Let_def)
  have env: "floating_env s s2"
    using forget_floating_fields(3) [of s1 E t] by (simp add: s2_def s1_def floating_env_def)
  have dist: "distinct (floating_ids E s)" by (rule floating_invD(5) [OF inv])
  have old: "floating_ids E s = map (\<lambda>t. el_id E (tl_window t)) A @ i # map (\<lambda>t. el_id E (tl_window t)) B"
    using sp by (simp add: floating_ids_def)
  have "i \<notin> set (map (\<lambda>t. el_id E (tl_window t)) A)" using dist unfolding old by auto
  then have ids: "floating_ids E s2 = remove1 i (floating_ids E s)"
    unfolding old by (simp add: floating_ids_def s2_def s1_def remove1_append)
  have iset: "set (floating_ids E s2) = set (floating_ids E s) - {i}"
    using ids set_remove1_eq [OF dist] by simp
  have tl: "fl_tiles s2 = A @ B" "fl_data s2 = A' @ B'" by (simp_all add: s2_def s1_def)
  note c = floating_invD(8) [OF inv]
  have act: "case fl_active_window_id s2 of None \<Rightarrow> fl_tiles s2 = [] | Some j \<Rightarrow> j \<in> set (floating_ids E s2)"
  proof (cases "A @ B")
    case Nil
    then show ?thesis by (simp add: s2_def forget_floating_state s1_def)
  next
    case (Cons u us)
    then have "el_id E (tl_window u) \<in> set (floating_ids E s2)" using tl by (simp add: floating_ids_def)
    moreover obtain j where j: "fl_active_window_id s = Some j" "j \<in> set (floating_ids E s)"
      using c sp by (auto simp: floating_core_def split: option.splits)
    ultimately show ?thesis
      using Cons iset sp(3) by (auto simp: s2_def forget_floating_state s1_def)
  qed
  have res: "option_ok (\<lambda>r. ir_window r \<in> set (floating_ids E s2)) (fl_interactive_resize s2)"
    using c iset sp(3) by (auto simp: s2_def forget_floating_state s1_def floating_core_def split: option.splits)
  have tok: "\<forall>u \<in> set (fl_tiles s2). floating_tile_ok E s2 u"
    using floating_invD(2) [OF inv] sp(1) tl by (auto simp: floating_tile_ok_env [OF env])
  have dat: "list_all2 (data_ok E (fl_working_area s2)) (fl_tiles s2) (fl_data s2)"
    using ds env tl by (simp add: floating_env_def list_all2_appendI)
  have kin: "kin_ok E (map tl_window (fl_tiles s2))"
    by (rule kin_ok_subset [OF floating_invD(6) [OF inv]]) (use sp(1) tl in auto)
  have "stacked E (map tl_window (fl_tiles s2))"
    using floating_invD(7) [OF inv] sp(1) tl by (simp add: stacked_remove)
  then have "floating_inv E s2"
    using act res tok dat kin ids dist env floating_invD(1) [OF inv]
    by (simp add: floating_inv_def floating_core_def floating_env_def)
  moreover have "tile_ok E t" using floating_invD(2) [OF inv, of t] sp(1) by (simp add: floating_tile_ok_def)
  moreover have "fl_active_window_id s \<noteq> Some i \<longrightarrow> fl_active_window_id s2 = fl_active_window_id s"
    using c sp act
    by (auto simp: s2_def forget_floating_state s1_def floating_core_def floating_ids_def split: list.splits option.splits)
  moreover have "fl_tiles s ! k = t" "fl_data s ! k = d" "A @ B = take k (fl_tiles s) @ drop (Suc k) (fl_tiles s)"
    using sp ds(1) len by (simp_all add: nth_append)
  ultimately show ?thesis
    using env ids sp(3) k tl(1) by (simp add: run store_floating_ok)
qed

end
