(* ===== verification/Layout_Floating_Run.thy ===== *)
theory Layout_Floating_Run
  imports Layout_Floating_Ops Layout_Scrolling_Props
begin

text \<open>
  The remaining operations of the floating layout - sizes, moves, commits, interactive resizing, focus,
  configuration - and the actions on it as a datatype: none panics, and each keeps the invariant and
  the windows.
\<close>

section \<open>One tile\<close>

definition floating_targets :: "('w, 'id) LayoutEnv \<Rightarrow> 'id option \<Rightarrow> ('w, 'id) FloatingSpace \<Rightarrow> bool" where
  "floating_targets E i s \<longleftrightarrow> (case i of None \<Rightarrow> True | Some j \<Rightarrow> j \<in> set (floating_ids E s))"

lemma target_cases:
  assumes "floating_inv E s" and "floating_targets E i s"
  obtains "id_or_active i s = None"
  | j k where "id_or_active i s = Some j" and "floating_idx_of E j s = Some k" and "k < length (fl_tiles s)"
      and "j \<in> set (floating_ids E s)"
proof (cases "id_or_active i s")
  case (Some j)
  then have j: "j \<in> set (floating_ids E s)"
    using assms floating_active_ids [OF floating_invD(8) [OF assms(1)]]
    by (auto simp: id_or_active_def floating_targets_def split: option.splits)
  then obtain k where "floating_idx_of E j s = Some k" using idx_of_mem [of j E s] by blast
  then show thesis using that(2) Some j idx_ofD(1) [of E j s k] by blast
qed (rule that(1))

lemma presets_ok_None [simp]:
  "presets_ok t \<Longrightarrow> presets_ok (t\<lparr>tl_floating_preset_width_idx := None\<rparr>)"
  "presets_ok t \<Longrightarrow> presets_ok (t\<lparr>tl_floating_preset_height_idx := None\<rparr>)"
  by (auto simp: presets_ok_def split: option.splits)

lemma presets_ok_Some:
  "presets_ok t \<Longrightarrow> n < length (lc_preset_column_widths (op_layout (tl_options t))) \<Longrightarrow>
     presets_ok (t\<lparr>tl_floating_preset_width_idx := Some n\<rparr>)"
  "presets_ok t \<Longrightarrow> n < length (lc_preset_window_heights (op_layout (tl_options t))) \<Longrightarrow>
     presets_ok (t\<lparr>tl_floating_preset_height_idx := Some n\<rparr>)"
  by (auto simp: presets_ok_def split: option.splits)

lemma next_floating_preset_ok:
  assumes "resolved \<noteq> []"
  shows "runs (next_floating_preset forwards idx cw ct resolved) (\<lambda>n. n < length resolved)"
proof -
  have p: "option_ok (\<lambda>i. i < length resolved) (vec_position P resolved)"
    "option_ok (\<lambda>i. i < length resolved) (vec_rposition P resolved)" for P
    by (auto split: option.split dest: vec_position_SomeD vec_rposition_SomeD)
  have "0 < length resolved" using assms by simp
  then show ?thesis
    using p [of "\<lambda>r. case r of ResolvedTile v \<Rightarrow> ct + 1 < v | ResolvedWindow v \<Rightarrow> cw + 1 < v"]
      p [of "\<lambda>r. case r of ResolvedTile v \<Rightarrow> v + 1 < ct | ResolvedWindow v \<Rightarrow> v + 1 < cw"]
    by (auto simp: next_floating_preset_def Let_def runs_case_option split: option.splits)
qed

context layout_element
begin

lemma resize_floating_ok:
  assumes "floating_tile_ok E s t"
  shows "floating_tile_ok E s (resize_floating_width E av ch an t) \<and> tile_frame E t (resize_floating_width E av ch an t)"
    and "floating_tile_ok E s (resize_floating_height E av ch an t) \<and> tile_frame E t (resize_floating_height E av ch an t)"
  using assms once_look [unfolded same_look_def]
  by (auto simp: floating_tile_ok_def resize_floating_width_def resize_floating_height_def Let_def
      tile_ok_def tile_frame_def same_look_def once_pending)

lemma set_window_width_ok:
  assumes inv: "floating_inv E s" and i: "floating_targets E i s"
  shows "runs (floating_set_window_width E i ch an s) (floating_steady E s)"
proof (cases rule: target_cases [OF inv i])
  case (2 j k)
  then show ?thesis
    using floating_set_tile_only [OF inv 2(3)] resize_floating_ok(1) [OF floating_tile_at(1) [OF inv 2(3)]]
    by (simp add: floating_set_window_width_def)
qed (simp add: floating_set_window_width_def floating_steady_refl inv)

lemma set_window_height_ok:
  assumes inv: "floating_inv E s" and i: "floating_targets E i s"
  shows "runs (floating_set_window_height E i ch an s) (floating_steady E s)"
proof (cases rule: target_cases [OF inv i])
  case (2 j k)
  then show ?thesis
    using floating_set_tile_only [OF inv 2(3)] resize_floating_ok(2) [OF floating_tile_at(1) [OF inv 2(3)]]
    by (simp add: floating_set_window_height_def)
qed (simp add: floating_set_window_height_def floating_steady_refl inv)

lemma steady_idx: "floating_steady E s s' \<Longrightarrow> floating_idx_of E j s' = floating_idx_of E j s"
proof -
  have "vec_position (\<lambda>t. el_id E (tl_window t) = j) ts = vec_position (\<lambda>i. i = j) (map (\<lambda>t. el_id E (tl_window t)) ts)"
    for ts :: "'w Tile list" by (induction ts) simp_all
  then show "floating_steady E s s' \<Longrightarrow> floating_idx_of E j s' = floating_idx_of E j s"
    by (simp add: floating_steady_def floating_idx_of_def floating_ids_def)
qed

lemma steady_targets: "floating_steady E s s' \<Longrightarrow> floating_targets E i s' = floating_targets E i s"
  unfolding floating_steady_def floating_targets_def by (simp cong: option.case_cong)

lemma steady_length: "floating_steady E s s' \<Longrightarrow> length (fl_tiles s') = length (fl_tiles s)"
  unfolding floating_steady_def floating_ids_def by (metis length_map)

lemma set_preset_ok:
  assumes inv: "floating_inv E s" and k: "k < length (fl_tiles s)"
  shows "n < length (lc_preset_column_widths (op_layout (fl_options s))) \<Longrightarrow>
      floating_steady E s (s\<lparr>fl_tiles := (fl_tiles s)[k := (fl_tiles s ! k)\<lparr>tl_floating_preset_width_idx := Some n\<rparr>]\<rparr>)"
    and "n < length (lc_preset_window_heights (op_layout (fl_options s))) \<Longrightarrow>
      floating_steady E s (s\<lparr>fl_tiles := (fl_tiles s)[k := (fl_tiles s ! k)\<lparr>tl_floating_preset_height_idx := Some n\<rparr>]\<rparr>)"
  using floating_tile_at(1) [OF inv k]
  by (auto intro!: floating_set_tile_only [OF inv k] presets_ok_Some
      simp: tile_frame_def floating_tile_ok_def tile_ok_def)

lemma toggle_window_width_ok:
  assumes inv: "floating_inv E s" and i: "floating_targets E i s"
  shows "runs (floating_toggle_window_width E i forwards s) (floating_steady E s)"
proof (cases rule: target_cases [OF inv i])
  case (2 j k)
  let ?ps = "lc_preset_column_widths (op_layout (fl_options s))"
  let ?rs = "map (\<lambda>p. resolve_floating_preset p (sw (r_size (fl_working_area s)))) ?ps"
  have "?rs \<noteq> []" using floating_invD(1) [OF inv] by (simp add: options_ok_def)
  note nx = next_floating_preset_ok [OF this, of forwards]
  have t: "floating_targets E (Some j) s" using 2 by (simp add: floating_targets_def)
  have fin: "k < length (fl_tiles s') \<and> floating_steady E s (floating_interactive_resize_end (Some j)
        (s'\<lparr>fl_tiles := (fl_tiles s')[k := (fl_tiles s' ! k)\<lparr>tl_floating_preset_width_idx := Some n\<rparr>]\<rparr>))"
    if n: "n < length ?ps" and s': "floating_steady E s s'" for n s'
  proof -
    have k': "k < length (fl_tiles s')" using steady_length [OF s'] 2(3) by simp
    have "floating_inv E s'" "fl_options s' = fl_options s"
      using s' by (simp_all add: floating_steady_def floating_env_def)
    then have a: "floating_steady E s'
        (s'\<lparr>fl_tiles := (fl_tiles s')[k := (fl_tiles s' ! k)\<lparr>tl_floating_preset_width_idx := Some n\<rparr>]\<rparr>)"
      using set_preset_ok(1) [of s' k n] k' n by simp
    then show ?thesis
      using floating_steady_trans [OF s' floating_steady_trans [OF a floating_resize_end_ok]] k'
      by (simp add: floating_steady_def)
  qed
  show ?thesis
    using 2
    by (auto simp: floating_toggle_window_width_def Let_def intro!: runs_mono [OF nx]
        runs_mono [OF set_window_width_ok [OF inv t]] dest: fin)
qed (simp add: floating_toggle_window_width_def floating_steady_refl inv)

lemma toggle_window_height_ok:
  assumes inv: "floating_inv E s" and i: "floating_targets E i s"
  shows "runs (floating_toggle_window_height E i forwards s) (floating_steady E s)"
proof (cases rule: target_cases [OF inv i])
  case (2 j k)
  let ?ps = "lc_preset_window_heights (op_layout (fl_options s))"
  let ?rs = "map (\<lambda>p. resolve_floating_preset p (sh (r_size (fl_working_area s)))) ?ps"
  have "?rs \<noteq> []" using floating_invD(1) [OF inv] by (simp add: options_ok_def)
  note nx = next_floating_preset_ok [OF this, of forwards]
  have t: "floating_targets E (Some j) s" using 2 by (simp add: floating_targets_def)
  have fin: "k < length (fl_tiles s') \<and> floating_steady E s (floating_interactive_resize_end (Some j)
        (s'\<lparr>fl_tiles := (fl_tiles s')[k := (fl_tiles s' ! k)\<lparr>tl_floating_preset_height_idx := Some n\<rparr>]\<rparr>))"
    if n: "n < length ?ps" and s': "floating_steady E s s'" for n s'
  proof -
    have k': "k < length (fl_tiles s')" using steady_length [OF s'] 2(3) by simp
    have "floating_inv E s'" "fl_options s' = fl_options s"
      using s' by (simp_all add: floating_steady_def floating_env_def)
    then have a: "floating_steady E s'
        (s'\<lparr>fl_tiles := (fl_tiles s')[k := (fl_tiles s' ! k)\<lparr>tl_floating_preset_height_idx := Some n\<rparr>]\<rparr>)"
      using set_preset_ok(2) [of s' k n] k' n by simp
    then show ?thesis
      using floating_steady_trans [OF s' floating_steady_trans [OF a floating_resize_end_ok]] k'
      by (simp add: floating_steady_def)
  qed
  show ?thesis
    using 2
    by (auto simp: floating_toggle_window_height_def Let_def intro!: runs_mono [OF nx]
        runs_mono [OF set_window_height_ok [OF inv t]] dest: fin)
qed (simp add: floating_toggle_window_height_def floating_steady_refl inv)

end

section \<open>Moves, commits and interactive resizing\<close>

lemma animate_move_presets:
  "animate_move_from E p t = Some t' \<Longrightarrow> tl_window t' = tl_window t"
  by (auto simp: animate_move_from_def animate_move_x_from_def animate_move_y_from_def bind_eq_Some_conv
      animate_move_x_from_with_config_def animate_move_y_from_with_config_def)

lemma floating_tile_ok_same:
  "floating_tile_ok E s t \<Longrightarrow> tile_ok E t' \<Longrightarrow> tile_same t t' \<Longrightarrow> floating_tile_ok E s t'"
  by (simp add: floating_tile_ok_def tile_same_def)

lemma move_and_animate_ok:
  assumes inv: "floating_inv E s" and k: "k < length (fl_tiles s)"
  shows "runs (move_and_animate E k p s) (floating_steady E s)"
proof -
  note t = floating_tile_at [OF inv k]
  have "runs (if c then animate_move_from E q (fl_tiles s ! k) else Some (fl_tiles s ! k))
      (\<lambda>u. tile_ok E u \<and> tile_same (fl_tiles s ! k) u)" for c q
    using animate_move_from_ok [OF t(2)] t(2) by simp
  moreover have "floating_steady E s (s\<lparr>fl_tiles := (fl_tiles s)[k := u],
        fl_data := (fl_data s)[k := set_logical_pos p (fl_data s ! k)]\<rparr>)"
    if "tile_ok E u \<and> tile_same (fl_tiles s ! k) u" for u
  proof -
    have fr: "tile_frame E (fl_tiles s ! k) u" using that tile_same_frame by blast
    show ?thesis
      by (rule floating_set_tile [OF inv k tile_frame_kin [OF fr]])
         (use that t fr floating_tile_ok_same in \<open>auto intro: data_ok_set_pos data_ok_frame\<close>)
  qed
  ultimately have "runs (if c then animate_move_from E q (fl_tiles s ! k) else Some (fl_tiles s ! k))
      (\<lambda>u. floating_steady E s (s\<lparr>fl_tiles := (fl_tiles s)[k := u],
        fl_data := (fl_data s)[k := set_logical_pos p (fl_data s ! k)]\<rparr>))" for c q
    by (blast intro: runs_mono)
  then show ?thesis
    using k t(4) by (simp add: move_and_animate_def Let_def split del: if_split)
qed

lemma set_pos_steady:
  assumes inv: "floating_inv E s" and k: "k < length (fl_tiles s)"
  shows "floating_steady E s (s\<lparr>fl_data := (fl_data s)[k := set_logical_pos p (fl_data s ! k)]\<rparr>)"
proof -
  note t = floating_tile_at [OF inv k]
  have "floating_steady E s (s\<lparr>fl_tiles := (fl_tiles s)[k := fl_tiles s ! k],
      fl_data := (fl_data s)[k := set_logical_pos p (fl_data s ! k)]\<rparr>)"
    by (rule floating_set_tile [OF inv k _ t(1) data_ok_set_pos [OF t(3)]]) simp
  then show ?thesis by simp
qed

lemma floating_move_to_ok:
  assumes inv: "floating_inv E s" and k: "k < length (fl_tiles s)"
  shows "runs (floating_move_to E k p animate s) (floating_steady E s)"
proof -
  have e: "floating_steady E s (floating_interactive_resize_end None s')" if "floating_steady E s s'" for s'
    by (rule floating_steady_trans [OF that floating_resize_end_ok]) (use that in \<open>simp add: floating_steady_def\<close>)
  show ?thesis
    using set_pos_steady [OF inv k] floating_tile_at(4) [OF inv k]
    by (auto simp: floating_move_to_def intro!: runs_mono [OF move_and_animate_ok [OF inv k]] e)
qed

lemma floating_move_ok:
  assumes inv: "floating_inv E s"
  shows "runs (floating_move_by E amount s) (floating_steady E s)"
    and "floating_targets E i s \<Longrightarrow> runs (floating_move_window E i x y animate s) (floating_steady E s)"
    and "floating_targets E i s \<Longrightarrow> runs (floating_center_window E i s) (floating_steady E s)"
proof -
  have n: "floating_targets E None s" by (simp add: floating_targets_def)
  show "runs (floating_move_by E amount s) (floating_steady E s)"
    by (cases rule: target_cases [OF inv n])
       (use floating_move_to_ok [OF inv] floating_tile_at(4) [OF inv] inv in
         \<open>simp_all add: floating_move_by_def id_or_active_def floating_steady_refl\<close>)
  assume i: "floating_targets E i s"
  show "runs (floating_move_window E i x y animate s) (floating_steady E s)"
    "runs (floating_center_window E i s) (floating_steady E s)"
    by (cases rule: target_cases [OF inv i];
        use floating_move_to_ok [OF inv] floating_tile_at(4) [OF inv] inv in
         \<open>simp add: floating_move_window_def floating_center_window_def Let_def floating_steady_refl\<close>)+
qed

lemma floating_advance_ok:
  assumes inv: "floating_inv E s"
  shows "floating_steady E s (floating_advance_animations E s)"
proof -
  let ?s = "floating_advance_animations E s" and ?f = "tile_advance_animations E"
  have a: "floating_tile_ok E s (?f t)" "tile_frame E t (?f t)" if "t \<in> set (fl_tiles s)" for t
    using floating_invD(2) [OF inv that] tile_advance_ok [of E t] tile_same_frame [of t "?f t" E]
      floating_tile_ok_same [of E s t "?f t"] by (simp_all add: floating_tile_ok_def)
  have e: "floating_env s ?s" by (simp add: floating_env_def floating_advance_animations_def)
  have "floating_inv E ?s \<and> floating_ids E ?s = floating_ids E s"
  proof (rule floating_inv_tiles [OF inv])
    show "list_all2 (same_kin E) (fl_tiles s) (fl_tiles ?s)"
      using tile_frame_kin [OF a(2)] by (auto simp: floating_advance_animations_def list_all2_conv_all_nth)
    show "\<forall>t \<in> set (fl_tiles ?s). floating_tile_ok E ?s t"
      using a unfolding floating_tile_ok_env [OF e] by (auto simp: floating_advance_animations_def)
    show "list_all2 (data_ok E (fl_working_area ?s)) (fl_tiles ?s) (fl_data ?s)"
      using floating_invD(3) [OF inv] data_ok_frame [OF a(2)]
      by (auto simp: floating_advance_animations_def list_all2_conv_all_nth)
  qed (use floating_invD(1) [OF inv] in \<open>simp_all add: floating_advance_animations_def\<close>)
  then show ?thesis using e by (simp add: floating_steady_def floating_advance_animations_def)
qed

lemma floating_start_open_ok:
  assumes inv: "floating_inv E s"
  shows "runs (floating_start_open_animation E i s) (\<lambda>(b, s'). floating_steady E s s' \<and>
     b = (i \<in> set (floating_ids E s)))"
proof (cases "floating_idx_of E i s")
  case None
  then show ?thesis using inv idx_of_mem [of i E s] by (simp add: floating_start_open_animation_def floating_steady_refl)
next
  case (Some k)
  then have k: "k < length (fl_tiles s)" "i \<in> set (floating_ids E s)"
    using idx_ofD(1) [OF Some] idx_of_mem [of i E s] by auto
  note t = floating_tile_at [OF inv k(1)]
  have "floating_steady E s (s\<lparr>fl_tiles := (fl_tiles s)[k := u]\<rparr>)"
    if "tile_ok E u \<and> tile_same (fl_tiles s ! k) u" for u
    using floating_set_tile_only [OF inv k(1)] that tile_same_frame floating_tile_ok_same [OF t(1)] by blast
  then show ?thesis
    using runs_mono [OF tile_start_open_ok [OF t(2)]] k Some
    by (auto simp: floating_start_open_animation_def vec_modify_def elim!: runs_mono
        intro!: runs_mono [OF tile_start_open_ok [OF t(2)]])
qed

lemma floating_resize_begin_ok:
  assumes inv: "floating_inv E s" and i: "i \<in> set (floating_ids E s)"
  shows "runs (floating_interactive_resize_begin E i edges s) (\<lambda>(b, s'). floating_steady E s s')"
proof -
  obtain t where "List.find (\<lambda>t. el_id E (tl_window t) = i) (fl_tiles s) = Some t"
    using i find_None_iff [of "\<lambda>t. el_id E (tl_window t) = i" "fl_tiles s"] by (auto simp: floating_ids_def)
  moreover have "floating_inv E (s\<lparr>fl_interactive_resize := Some r\<rparr>)" if "ir_window r = i" for r
    using inv i that
    by (cases "fl_active_window_id s")
       (auto simp: floating_inv_def floating_core_def floating_tile_ok_def floating_ids_def)
  ultimately show ?thesis
    using inv by (simp add: floating_interactive_resize_begin_def floating_steady_refl)
      (simp add: floating_steady_def floating_env_def floating_ids_def)
qed

context layout_element
begin

lemma floating_resize_update_ok:
  assumes inv: "floating_inv E s"
  shows "runs (floating_interactive_resize_update E i delta s) (\<lambda>(b, s'). floating_steady E s s')"
proof (cases "fl_interactive_resize s")
  case None
  then show ?thesis using inv by (simp add: floating_interactive_resize_update_def floating_steady_refl)
next
  case (Some r)
  show ?thesis
  proof (cases "i = ir_window r")
    case True
    then have i: "floating_targets E (Some i) s"
      using floating_resize_ids [OF floating_invD(8) [OF inv] Some] by (simp add: floating_targets_def)
    have w: "runs (if c then floating_set_window_width E (Some i) ch an s else Some s) (floating_steady E s)" for c ch an
      using set_window_width_ok [OF inv i] floating_steady_refl [OF inv] by simp
    have h: "runs (if c then floating_set_window_height E (Some i) ch an s' else Some s') (floating_steady E s)"
      if s': "floating_steady E s s'" for c ch an s'
    proof -
      have "floating_inv E s'" "floating_targets E (Some i) s'"
        using s' i steady_targets [OF s'] by (simp_all add: floating_steady_def)
      then show ?thesis
        using runs_mono [OF set_window_height_ok floating_steady_trans [OF s']] s' by simp
    qed
    show ?thesis
      unfolding floating_interactive_resize_update_def Let_def
      using Some True by (simp split del: if_split)
        (rule runs_mono [OF w], rule runs_mono [OF h], assumption, assumption)
  qed (use Some inv in \<open>simp add: floating_interactive_resize_update_def floating_steady_refl\<close>)
qed

lemma tile_update_window_kin:
  "tile_update_window E t = Some t' \<Longrightarrow> same_kin E t t' \<and>
     el_pending_sizing_mode E (tl_window t') = el_pending_sizing_mode E (tl_window t)"
proof -
  have s: "tile_start_resize E rs u = Some u' \<Longrightarrow> tl_window u' = tl_window u" for rs u u'
    by (auto simp: tile_start_resize_def Let_def bind_eq_Some_conv split: if_splits)
  show "tile_update_window E t = Some t' \<Longrightarrow> same_kin E t t' \<and>
      el_pending_sizing_mode E (tl_window t') = el_pending_sizing_mode E (tl_window t)"
    by (auto simp: tile_update_window_def tile_update_border_def Let_def bind_eq_Some_conv same_kin_def
        same_look_def same_requests_def split: option.splits prod.splits dest!: snapshot_look s)
qed

lemma floating_commit_ok:
  assumes inv: "floating_inv E s"
  shows "runs (floating_update_window E i serial s) (\<lambda>(b, s'). floating_steady E s s' \<and>
     b = (i \<in> set (floating_ids E s)))"
proof (cases "floating_idx_of E i s")
  case None
  then show ?thesis using inv idx_of_mem [of i E s] by (simp add: floating_update_window_def floating_steady_refl)
next
  case (Some k)
  then have k: "k < length (fl_tiles s)" "i \<in> set (floating_ids E s)"
    using idx_ofD(1) [OF Some] idx_of_mem [of i E s] by auto
  note t = floating_tile_at [OF inv k(1)]
  define u where "u = (case serial of Some n \<Rightarrow>
      (fl_tiles s ! k)\<lparr>tl_window := el_on_commit E n (tl_window (fl_tiles s ! k))\<rparr> | None \<Rightarrow> fl_tiles s ! k)"
  have uk: "same_kin E (fl_tiles s ! k) u"
    using commit_id commit_family by (simp add: u_def same_kin_def split: option.split)
  have up: "el_pending_sizing_mode E (tl_window u) = Normal" "tl_options u = fl_options s"
    "tl_view_size u = fl_view_size s" "tl_scale u = fl_scale s"
    using t(1) commit_requests
    by (simp_all add: u_def same_requests_def floating_tile_ok_def split: option.split)
  have ok: "tile_ok E (u\<lparr>tl_sizing_mode := el_sizing_mode E (tl_window u)\<rparr>)"
    using t(2) by (cases serial) (simp_all add: u_def tile_ok_def)
  let ?d = "\<lambda>v. follow_edges (el_interactive_resize_data E (tl_window (fl_tiles s ! k)))
      (fd_size (fl_data s ! k)) (data_update E v (fl_data s ! k))"
  have fin: "floating_steady E s (s\<lparr>fl_tiles := (fl_tiles s)[k := v], fl_data := (fl_data s)[k := ?d v]\<rparr>)"
    if v: "tile_update_window E u = Some v" and o: "tile_ok E v \<and> tl_view_size v = tl_view_size u \<and>
      tl_scale v = tl_scale u \<and> tl_options v = tl_options u" for v
    by (rule floating_set_tile [OF inv k(1)])
       (use tile_update_window_kin [OF v] o up t(3) in
        \<open>auto intro: same_kin_trans [OF uk] simp: floating_tile_ok_def data_ok_follow data_ok_update\<close>)
  have "runs (tile_update_window E u)
      (\<lambda>v. floating_steady E s (s\<lparr>fl_tiles := (fl_tiles s)[k := v], fl_data := (fl_data s)[k := ?d v]\<rparr>))"
    by (rule runs_mono [OF tile_update_window_ok [OF ok]]) (use fin in blast)
  then show ?thesis
    using k Some t(4) by (simp add: floating_update_window_def Let_def u_def)
qed

end

section \<open>Configuration and focus\<close>

lemma map_pairs:
  "length xs = length ys \<Longrightarrow> map fst (map (\<lambda>(x, y). (f x, g (f x) y)) (zip xs ys)) = map f xs"
  "length xs = length ys \<Longrightarrow> map snd (map (\<lambda>(x, y). (f x, g (f x) y)) (zip xs ys)) = map2 (\<lambda>x y. g (f x) y) xs ys"
  by (induction xs ys rule: list_induct2) simp_all

context layout_element
begin

lemma floating_update_config_ok:
  assumes inv: "floating_inv E s" and opts: "options_ok opts"
  shows "floating_inv E (floating_update_config E vs wa sc opts s)"
    and "floating_ids E (floating_update_config E vs wa sc opts s) = floating_ids E s"
proof -
  let ?f = "tile_update_config E vs sc opts" and ?g = "\<lambda>u d. data_update_config wa (data_update E u d)"
  define s' where "s' = floating_update_config E vs wa sc opts s"
  have len: "length (fl_data s) = length (fl_tiles s)" by (rule floating_invD(4) [OF inv])
  have s': "fl_tiles s' = map ?f (fl_tiles s)" "fl_data s' = map2 (\<lambda>t d. ?g (?f t) d) (fl_tiles s) (fl_data s)"
    "fl_options s' = opts" "fl_view_size s' = vs" "fl_scale s' = sc" "fl_working_area s' = wa"
    "fl_active_window_id s' = fl_active_window_id s" "fl_interactive_resize s' = fl_interactive_resize s"
    using map_pairs [OF len [symmetric], of ?f ?g] len
    by (simp_all add: s'_def floating_update_config_def Let_def)
  have p: "el_pending_sizing_mode E (tl_window (?f t)) = el_pending_sizing_mode E (tl_window t)" for t
    using config_look by (simp add: tile_update_config_def tile_update_border_def Let_def same_requests_def)
  have "floating_inv E s' \<and> floating_ids E s' = floating_ids E s"
  proof (rule floating_inv_tiles [OF inv])
    show "list_all2 (same_kin E) (fl_tiles s) (fl_tiles s')"
      using tile_update_config_kin by (simp add: s' list_all2_conv_all_nth)
    show "\<forall>t \<in> set (fl_tiles s'). floating_tile_ok E s' t"
      using floating_invD(2) [OF inv] tile_update_config_ok [OF _ opts] p
      by (auto simp: s' floating_tile_ok_def)
    show "list_all2 (data_ok E (fl_working_area s')) (fl_tiles s') (fl_data s')"
      using data_ok_update_config [OF floating_tile_at(3) [OF inv]] len
      by (simp add: s' list_all2_conv_all_nth)
  qed (use opts in \<open>simp_all add: s'\<close>)
  then show "floating_inv E (floating_update_config E vs wa sc opts s)"
    "floating_ids E (floating_update_config E vs wa sc opts s) = floating_ids E s"
    by (simp_all add: s'_def)
qed

end

lemma floating_new_inv: "options_ok opts \<Longrightarrow> floating_inv E (floating_new vs wa sc opts)"
  by (simp add: floating_inv_def floating_core_def floating_new_def floating_ids_def kin_ok_def stacked_def)

lemma focus_directional_ok:
  assumes inv: "floating_inv E s"
  shows "runs (focus_directional E distance s) (\<lambda>(b, s'). floating_keeps E s s')"
proof (cases "fl_active_window_id s")
  case None
  then show ?thesis using inv by (simp add: focus_directional_def floating_keeps_refl)
next
  case (Some i)
  then have "i \<in> set (floating_ids E s)" using floating_active_ids [OF floating_invD(8) [OF inv]] by simp
  then obtain k where k: "floating_idx_of E i s = Some k" using idx_of_mem [of i E s] by blast
  then have "k < length (fl_data s)" using idx_ofD(1) floating_invD(4) [OF inv] by fastforce
  then show ?thesis
    using Some k floating_keeps_refl [OF inv]
    by (auto simp: focus_directional_def Let_def runs_case_option split: option.split
        intro!: runs_mono [OF floating_activate_ok [OF inv]])
qed

lemma activate_found_ok:
  assumes "floating_inv E s" shows "runs (activate_found E r s) (floating_keeps E s)"
  using floating_keeps_refl [OF assms]
  by (auto simp: activate_found_def split: option.split intro!: runs_mono [OF floating_activate_ok [OF assms]])

end
