(* ===== verification/Layout_Floating_Reach.thy ===== *)
theory Layout_Floating_Reach
  imports Layout_Floating_Run
begin

text \<open>
  The floating layout as a whole: the actions on it as a datatype, what the callers ensure for each,
  windows that change their parent, and the states that are reachable from the empty layout.
\<close>

section \<open>The actions\<close>

datatype 'id FloatingAction =
    FlActivate "'id" | FlActivateWithoutRaising "'id" | FlFocusLeft | FlFocusRight | FlFocusUp | FlFocusDown
  | FlFocusLeftmost | FlFocusRightmost | FlFocusTopmost | FlFocusBottommost
  | FlMoveLeft | FlMoveRight | FlMoveUp | FlMoveDown
  | FlMoveWindow "'id option" PositionChange PositionChange bool | FlCenterWindow "'id option"
  | FlSetWidth "'id option" SizeChange bool | FlSetHeight "'id option" SizeChange bool
  | FlToggleWidth "'id option" bool | FlToggleHeight "'id option" bool
  | FlResizeBegin "'id" ResizeEdge | FlResizeUpdate "'id" Point | FlResizeEnd "'id option"
  | FlStartOpen "'id" | FlAdvance | FlCommit "'id" "nat option" | FlDescendantsAdded "'id"

fun run_floating ::
    "('w, 'id) LayoutEnv \<Rightarrow> 'id FloatingAction \<Rightarrow> ('w, 'id) FloatingSpace \<Rightarrow> ('w, 'id) FloatingSpace option" where
  "run_floating E (FlActivate i) s = map_option snd (floating_activate_window E i s)"
| "run_floating E (FlActivateWithoutRaising i) s = Some (snd (activate_window_without_raising E i s))"
| "run_floating E FlFocusLeft s = map_option snd (floating_focus_left E s)"
| "run_floating E FlFocusRight s = map_option snd (floating_focus_right E s)"
| "run_floating E FlFocusUp s = map_option snd (floating_focus_up E s)"
| "run_floating E FlFocusDown s = map_option snd (floating_focus_down E s)"
| "run_floating E FlFocusLeftmost s = focus_leftmost E s"
| "run_floating E FlFocusRightmost s = focus_rightmost E s"
| "run_floating E FlFocusTopmost s = focus_topmost E s"
| "run_floating E FlFocusBottommost s = focus_bottommost E s"
| "run_floating E FlMoveLeft s = floating_move_left E s"
| "run_floating E FlMoveRight s = floating_move_right E s"
| "run_floating E FlMoveUp s = floating_move_up E s"
| "run_floating E FlMoveDown s = floating_move_down E s"
| "run_floating E (FlMoveWindow i x y animate) s = floating_move_window E i x y animate s"
| "run_floating E (FlCenterWindow i) s = floating_center_window E i s"
| "run_floating E (FlSetWidth i ch animate) s = floating_set_window_width E i ch animate s"
| "run_floating E (FlSetHeight i ch animate) s = floating_set_window_height E i ch animate s"
| "run_floating E (FlToggleWidth i forwards) s = floating_toggle_window_width E i forwards s"
| "run_floating E (FlToggleHeight i forwards) s = floating_toggle_window_height E i forwards s"
| "run_floating E (FlResizeBegin i edges) s = map_option snd (floating_interactive_resize_begin E i edges s)"
| "run_floating E (FlResizeUpdate i delta) s = map_option snd (floating_interactive_resize_update E i delta s)"
| "run_floating E (FlResizeEnd i) s = Some (floating_interactive_resize_end i s)"
| "run_floating E (FlStartOpen i) s = map_option snd (floating_start_open_animation E i s)"
| "run_floating E FlAdvance s = Some (floating_advance_animations E s)"
| "run_floating E (FlCommit i serial) s = map_option snd (floating_update_window E i serial s)"
| "run_floating E (FlDescendantsAdded i) s = map_option snd (descendants_added E i s)"

text \<open>The windows that an action on sizes or positions names are in the layout.\<close>

fun floating_allows :: "('w, 'id) LayoutEnv \<Rightarrow> 'id FloatingAction \<Rightarrow> ('w, 'id) FloatingSpace \<Rightarrow> bool" where
  "floating_allows E (FlMoveWindow i x y animate) s = floating_targets E i s"
| "floating_allows E (FlCenterWindow i) s = floating_targets E i s"
| "floating_allows E (FlSetWidth i ch animate) s = floating_targets E i s"
| "floating_allows E (FlSetHeight i ch animate) s = floating_targets E i s"
| "floating_allows E (FlToggleWidth i forwards) s = floating_targets E i s"
| "floating_allows E (FlToggleHeight i forwards) s = floating_targets E i s"
| "floating_allows E (FlResizeBegin i edges) s = (i \<in> set (floating_ids E s))"
| "floating_allows E a s = True"

lemma without_raising_keeps:
  assumes inv: "floating_inv E s"
  shows "floating_keeps E s (snd (activate_window_without_raising E i s))"
proof (cases "i \<in> set (floating_ids E s)")
  case True
  then have "floating_inv E (s\<lparr>fl_active_window_id := Some i\<rparr>)"
    using floating_core_active [OF floating_invD(8) [OF inv] True] floating_invD(7) [OF inv]
    by (simp add: floating_inv_def)
  moreover have "floating_contains E i s" using True idx_of_mem [of i E s] by (auto simp: floating_contains_def)
  ultimately show ?thesis
    by (simp add: activate_window_without_raising_def floating_keeps_def floating_env_def floating_ids_def)
next
  case False
  then have "\<not> floating_contains E i s" using idx_of_mem [of i E s] by (auto simp: floating_contains_def)
  then show ?thesis using floating_keeps_refl [OF inv] by (simp add: activate_window_without_raising_def)
qed

lemma runs_steady_keeps: "runs m (floating_steady E s) \<Longrightarrow> runs m (floating_keeps E s)"
  by (erule runs_mono) (rule floating_steady_keeps)

lemma runs_snd_keeps: "runs m (\<lambda>(b, s'). P b s' \<and> Q b s') \<Longrightarrow> (\<And>b s'. P b s' \<Longrightarrow> R s') \<Longrightarrow> runs (map_option snd m) R"
  by (auto elim!: runs_mono)

lemma runs_snd_pairs: "runs m (\<lambda>(b, s'). P s') \<Longrightarrow> runs (map_option snd m) P"
  by (auto elim!: runs_mono)

context layout_element
begin

lemma run_floating_keeps:
  assumes inv: "floating_inv E s" and ok: "floating_allows E a s"
  shows "runs (run_floating E a s) (floating_keeps E s)"
proof -
  note focus = floating_focus_left_def floating_focus_right_def floating_focus_up_def floating_focus_down_def
    focus_leftmost_def focus_rightmost_def focus_topmost_def focus_bottommost_def
    floating_move_left_def floating_move_right_def floating_move_up_def floating_move_down_def
  note go = activate_found_ok [OF inv] runs_snd_pairs [OF focus_directional_ok [OF inv]]
    runs_steady_keeps [OF floating_move_ok(1) [OF inv]] runs_steady_keeps [OF floating_move_ok(2) [OF inv]]
    runs_steady_keeps [OF floating_move_ok(3) [OF inv]] runs_steady_keeps [OF set_window_width_ok [OF inv]]
    runs_steady_keeps [OF set_window_height_ok [OF inv]] runs_steady_keeps [OF toggle_window_width_ok [OF inv]]
    runs_steady_keeps [OF toggle_window_height_ok [OF inv]]
    runs_steady_keeps [OF runs_snd_pairs [OF floating_resize_begin_ok [OF inv]]]
    runs_steady_keeps [OF runs_snd_pairs [OF floating_resize_update_ok [OF inv]]]
  have st: "floating_keeps E s (floating_interactive_resize_end i s)" "floating_keeps E s (floating_advance_animations E s)" for i
    using floating_resize_end_ok [OF inv] floating_advance_ok [OF inv] by (simp_all add: floating_steady_keeps)
  have pairs: "runs (map_option snd (floating_activate_window E i s)) (floating_keeps E s)"
    "runs (map_option snd (descendants_added E i s)) (floating_keeps E s)"
    "runs (map_option snd (floating_start_open_animation E i s)) (floating_keeps E s)"
    "runs (map_option snd (floating_update_window E i serial s)) (floating_keeps E s)" for i serial
    by (rule runs_snd_keeps [OF floating_activate_ok [OF inv]] runs_snd_keeps [OF descendants_added_ok [OF inv]]
        runs_snd_keeps [OF floating_start_open_ok [OF inv]] runs_snd_keeps [OF floating_commit_ok [OF inv]];
        simp add: floating_steady_keeps)+
  show ?thesis
    by (insert ok, cases a; simp only: run_floating.simps floating_allows.simps runs_Some st
        without_raising_keeps [OF inv] pairs focus; (rule go; assumption?)?)
qed

end

section \<open>Windows that change their parent\<close>

text \<open>
  A client gives its window a new parent, with id \<open>p\<close>, or none; nothing else of the window changes.
  Wayland forbids cycles, so that the relation stays acyclic (\<^term>\<open>kin_ok\<close>).
\<close>

definition new_parent :: "('w, 'id) LayoutEnv \<Rightarrow> 'id option \<Rightarrow> 'w \<Rightarrow> 'w \<Rightarrow> bool" where
  "new_parent E p w w' \<longleftrightarrow> el_id E w' = el_id E w \<and> el_size E w' = el_size E w \<and>
     el_min_size E w' = el_min_size E w \<and> el_max_size E w' = el_max_size E w \<and>
     el_sizing_mode E w' = el_sizing_mode E w \<and> el_rules E w' = el_rules E w \<and> same_requests E w w' \<and>
     (\<forall>v. el_is_child_of E v w' = el_is_child_of E v w) \<and>
     (\<forall>v. el_is_child_of E w' v \<longrightarrow> p = Some (el_id E v)) \<and> p \<noteq> Some (el_id E w)"

text \<open>The change, and the call of \<^verbatim>\<open>descendants_added\<close> for the new parent that follows it.\<close>

definition reparent :: "('w, 'id) LayoutEnv \<Rightarrow> nat \<Rightarrow> 'w \<Rightarrow> ('w, 'id) FloatingSpace \<Rightarrow> ('w, 'id) FloatingSpace" where
  "reparent E k w s = s\<lparr>fl_tiles := (fl_tiles s)[k := (fl_tiles s ! k)\<lparr>tl_window := w\<rparr>]\<rparr>"

definition floating_reparent ::
    "('w, 'id) LayoutEnv \<Rightarrow> nat \<Rightarrow> 'w \<Rightarrow> 'id option \<Rightarrow> ('w, 'id) FloatingSpace \<Rightarrow>
     ('w, 'id) FloatingSpace option" where
  "floating_reparent E k w p s =
     (case p of None \<Rightarrow> Some (reparent E k w s)
      | Some p \<Rightarrow> map_option snd (descendants_added E p (reparent E k w s)))"

lemma reparent_core:
  assumes inv: "floating_inv E s" and k: "k < length (fl_tiles s)"
    and w: "new_parent E p (tl_window (fl_tiles s ! k)) w" and kin: "kin_ok E (map tl_window (fl_tiles (reparent E k w s)))"
  shows "floating_core E (reparent E k w s) \<and> floating_ids E (reparent E k w s) = floating_ids E s"
proof -
  define s' where "s' = reparent E k w s"
  let ?t = "(fl_tiles s ! k)\<lparr>tl_window := w\<rparr>"
  have tl: "fl_tiles s' = (fl_tiles s)[k := ?t]" "fl_data s' = fl_data s" "floating_env s s'"
    "fl_active_window_id s' = fl_active_window_id s" "fl_interactive_resize s' = fl_interactive_resize s"
    by (simp_all add: s'_def reparent_def floating_env_def)
  note t = floating_tile_at [OF inv k]
  have ids: "floating_ids E s' = floating_ids E s"
    using w k by (simp add: floating_ids_def tl map_update new_parent_def list_update_same_conv)
  have ok: "floating_tile_ok E s ?t" and d: "tile_size E ?t = tile_size E (fl_tiles s ! k)"
    using t(1) w
    by (auto simp: floating_tile_ok_def tile_ok_def new_parent_def same_requests_def tile_size_def
        tile_size_of_def window_size_def effective_border_width_def)
  have "floating_core E s'"
  proof (rule floating_coreI)
    show "\<forall>t \<in> set (fl_tiles s'). floating_tile_ok E s' t"
      using floating_invD(2) [OF inv] ok set_update_subset_insert [of "fl_tiles s" k ?t]
      unfolding floating_tile_ok_env [OF tl(3)] tl(1) by blast
    have "data_ok E (fl_working_area s) ?t (fl_data s ! k)" using t(3) d by (simp add: data_ok_def)
    then have "list_all2 (data_ok E (fl_working_area s)) ((fl_tiles s)[k := ?t]) ((fl_data s)[k := fl_data s ! k])"
      by (rule list_all2_update_cong [OF floating_invD(3) [OF inv]])
    then show "list_all2 (data_ok E (fl_working_area s')) (fl_tiles s') (fl_data s')"
      using tl by (simp add: floating_env_def)
    show "kin_ok E (map tl_window (fl_tiles s'))" using kin by (simp add: s'_def)
    show "case fl_active_window_id s' of None \<Rightarrow> fl_tiles s' = [] | Some i \<Rightarrow> i \<in> set (floating_ids E s')"
      using floating_invD(8) [OF inv] ids tl by (auto simp: floating_core_def split: option.splits)
    show "option_ok (\<lambda>r. ir_window r \<in> set (floating_ids E s')) (fl_interactive_resize s')"
      using floating_invD(8) [OF inv] ids tl by (auto simp: floating_core_def split: option.splits)
  qed (use floating_invD(1,5) [OF inv] ids tl in \<open>simp_all add: floating_env_def\<close>)
  then show ?thesis using ids by (simp add: s'_def)
qed

text \<open>Only the pair of the window and its new parent may be out of order.\<close>

lemma reparent_order:
  assumes inv: "floating_inv E s" and k: "k < length (fl_tiles s)"
    and w: "new_parent E p (tl_window (fl_tiles s ! k)) w"
  shows "sorted_wrt (\<lambda>a b. \<not> el_is_child_of E (tl_window b) (tl_window a) \<or> p = Some (el_id E (tl_window a)))
     (fl_tiles (reparent E k w s))"
proof -
  let ?ts = "fl_tiles s" and ?ts' = "fl_tiles (reparent E k w s)"
  have old: "\<not> el_is_child_of E (tl_window (?ts ! n)) (tl_window (?ts ! m))" if "m < n" "n < length ?ts" for m n
    using floating_invD(7) [OF inv] that by (simp add: stacked_def sorted_wrt_iff_nth_less)
  have "\<not> el_is_child_of E (tl_window (?ts' ! n)) (tl_window (?ts' ! m)) \<or> p = Some (el_id E (tl_window (?ts' ! m)))"
    if mn: "m < n" "n < length ?ts" for m n
  proof (cases "n = k")
    case True
    then have "tl_window (?ts' ! n) = w" using k by (simp add: reparent_def)
    then show ?thesis using w by (auto simp: new_parent_def)
  next
    case False
    then have n: "?ts' ! n = ?ts ! n" by (simp add: reparent_def)
    show ?thesis
    proof (cases "m = k")
      case True
      then have "tl_window (?ts' ! m) = w" using k by (simp add: reparent_def)
      then show ?thesis using w old [OF mn] n True by (simp add: new_parent_def)
    next
      case False
      then show ?thesis using old [OF mn] n by (simp add: reparent_def)
    qed
  qed
  then show ?thesis by (simp add: sorted_wrt_iff_nth_less reparent_def)
qed

lemma floating_reparent_ok:
  assumes inv: "floating_inv E s" and k: "k < length (fl_tiles s)"
    and w: "new_parent E p (tl_window (fl_tiles s ! k)) w" and kin: "kin_ok E (map tl_window (fl_tiles (reparent E k w s)))"
  shows "runs (floating_reparent E k w p s) (floating_keeps E s)"
proof -
  define s' where "s' = reparent E k w s"
  have core: "floating_core E s'" and ids: "floating_ids E s' = floating_ids E s"
    using reparent_core [OF inv k w kin] by (simp_all add: s'_def)
  have env: "floating_env s s'" by (simp add: s'_def reparent_def floating_env_def)
  note ord = reparent_order [OF inv k w, folded s'_def]
  have free: "floating_keeps E s s'" if "\<forall>t \<in> set (fl_tiles s'). p \<noteq> Some (el_id E (tl_window t))"
  proof -
    have "stacked E (map tl_window (fl_tiles s'))"
      unfolding stacked_def sorted_wrt_map
      by (rule sorted_wrt_mono_rel [OF _ ord]) (use that in blast)
    then show ?thesis using core ids env by (simp add: floating_keeps_def floating_inv_def)
  qed
  show ?thesis
  proof (cases p)
    case None
    then show ?thesis using free by (simp add: floating_reparent_def s'_def)
  next
    case (Some q)
    show ?thesis
    proof (cases "floating_idx_of E q s'")
      case None
      then have "\<forall>t \<in> set (fl_tiles s'). p \<noteq> Some (el_id E (tl_window t))"
        using idx_of_mem [of q E s'] Some by (auto simp: floating_ids_def)
      then show ?thesis using free Some None by (simp add: floating_reparent_def descendants_added_def s'_def)
    next
      case (Some n)
      then obtain A t B where sp: "fl_tiles s' = A @ t # B" "n = length A" "el_id E (tl_window t) = q"
        by (rule floating_idx_split)
      have "distinct (floating_ids E s')" using core by (simp add: floating_core_def)
      then have other: "\<forall>u \<in> set A \<union> set B. p \<noteq> Some (el_id E (tl_window u))"
        using sp \<open>p = Some q\<close> by (auto simp: floating_ids_def)
      let ?R = "\<lambda>a b. \<not> el_is_child_of E (tl_window b) (tl_window a) \<or> p = Some (el_id E (tl_window a))"
      have ab: "sorted_wrt ?R (A @ B)" and up: "\<forall>a \<in> set A. ?R a t"
        using ord sp(1) by (auto simp: sorted_wrt_append)
      have "stacked E (map tl_window (A @ B))"
        unfolding stacked_def sorted_wrt_map
        by (rule sorted_wrt_mono_rel [OF _ ab]) (use other in auto)
      moreover have "\<forall>a \<in> set A. \<not> el_is_child_of E (tl_window t) (tl_window a)"
        using up other by blast
      ultimately have "runs (bring_up_descendants_of E n s') (floating_keeps E s)"
        unfolding sp(2)
        by (intro runs_mono [OF bring_up_ok [OF core sp(1) _ _ refl]])
           (simp_all add: floating_keeps_def ids floating_env_trans [OF env])
      then show ?thesis
        using Some \<open>p = Some q\<close> by (simp add: floating_reparent_def descendants_added_def s'_def)
    qed
  qed
qed

section \<open>Reachable states\<close>

inductive floating_reachable :: "('w, 'id) LayoutEnv \<Rightarrow> ('w, 'id) FloatingSpace \<Rightarrow> bool" for E where
  new: "options_ok opts \<Longrightarrow> floating_reachable E (floating_new vs wa sc opts)"
| act: "floating_reachable E s \<Longrightarrow> floating_allows E a s \<Longrightarrow> run_floating E a s = Some s' \<Longrightarrow>
     floating_reachable E s'"
| add: "floating_reachable E s \<Longrightarrow> tile_ok E t \<Longrightarrow> el_id E (tl_window t) \<notin> set (floating_ids E s) \<Longrightarrow>
     kin_ok E (tl_window t # map tl_window (fl_tiles s)) \<Longrightarrow>
     floating_add_tile E t activate s = Some s' \<Longrightarrow> floating_reachable E s'"
| add_above: "floating_reachable E s \<Longrightarrow> tile_ok E t \<Longrightarrow> el_id E (tl_window t) \<notin> set (floating_ids E s) \<Longrightarrow>
     kin_ok E (tl_window t # map tl_window (fl_tiles s)) \<Longrightarrow>
     floating_add_tile_above E i t activate s = Some s' \<Longrightarrow> floating_reachable E s'"
| remove: "floating_reachable E s \<Longrightarrow> floating_remove_tile E i s = Some (r, s') \<Longrightarrow> floating_reachable E s'"
| remove_active: "floating_reachable E s \<Longrightarrow> floating_remove_active_tile E s = Some (ro, s') \<Longrightarrow>
     floating_reachable E s'"
| configure: "floating_reachable E s \<Longrightarrow> options_ok opts \<Longrightarrow>
     floating_reachable E (floating_update_config E vs wa sc opts s)"
| reparent: "floating_reachable E s \<Longrightarrow> k < length (fl_tiles s) \<Longrightarrow>
     new_parent E p (tl_window (fl_tiles s ! k)) w \<Longrightarrow> kin_ok E (map tl_window (fl_tiles (reparent E k w s))) \<Longrightarrow>
     floating_reparent E k w p s = Some s' \<Longrightarrow> floating_reachable E s'"

context layout_element
begin

lemma floating_add_tile_above_ok:
  assumes inv: "floating_inv E s" and i: "i \<in> set (floating_ids E s)" and t: "tile_ok E t"
    and new: "el_id E (tl_window t) \<notin> set (floating_ids E s)"
    and kin: "kin_ok E (tl_window t # map tl_window (fl_tiles s))"
  shows "runs (floating_add_tile_above E i t activate s) (\<lambda>s'. floating_inv E s' \<and> floating_env s s' \<and>
     mset (floating_ids E s') = add_mset (el_id E (tl_window t)) (mset (floating_ids E s)) \<and>
     fl_active_window_id s' =
       (if activate \<or> fl_tiles s = [] then Some (el_id E (tl_window t)) else fl_active_window_id s))"
proof -
  obtain k where k: "floating_idx_of E i s = Some k" using i idx_of_mem [of i E s] by blast
  then have kl: "k < length (fl_tiles s)" by (rule idx_ofD)
  have t': "tile_ok E (t\<lparr>tl_floating_pos := q\<rparr>)" for q using t by (simp add: tile_ok_def)
  have "runs (floating_add_tile_at E k (t\<lparr>tl_floating_pos := q\<rparr>) activate s) (\<lambda>s'. floating_inv E s' \<and>
     floating_env s s' \<and> mset (floating_ids E s') = add_mset (el_id E (tl_window t)) (mset (floating_ids E s)) \<and>
     fl_active_window_id s' =
       (if activate \<or> fl_tiles s = [] then Some (el_id E (tl_window t)) else fl_active_window_id s))" for q
    using floating_add_tile_at_ok [OF inv less_imp_le [OF kl] t', of q activate] new kin
    by (simp split del: if_split cong: if_cong)
  then show ?thesis
    using k kl floating_tile_at(4) [OF inv kl]
    by (simp add: floating_add_tile_above_def Let_def split del: if_split)
qed

lemma floating_remove_active_ok:
  assumes inv: "floating_inv E s"
  shows "runs (floating_remove_active_tile E s) (\<lambda>(ro, s'). floating_inv E s')"
proof (cases "fl_active_window_id s")
  case (Some i)
  then have "i \<in> set (floating_ids E s)" using floating_active_ids [OF floating_invD(8) [OF inv]] by simp
  then show ?thesis
    using Some by (auto simp: floating_remove_active_tile_def intro!: runs_mono [OF floating_remove_ok [OF inv]])
qed (simp add: floating_remove_active_tile_def inv)

lemma floating_reachable_inv: "floating_reachable E s \<Longrightarrow> floating_inv E s"
proof (induction rule: floating_reachable.induct)
  case (new opts vs wa sc)
  then show ?case by (rule floating_new_inv)
next
  case (act s a s')
  from runs_SomeD [OF run_floating_keeps [OF act.IH act.hyps(2)] act.hyps(3)] show ?case by (simp add: floating_keeps_def)
next
  case (add s t activate s')
  from runs_SomeD [OF floating_add_tile_at_ok [OF add.IH le0 add.hyps(2-4)] add.hyps(5) [unfolded floating_add_tile_def]]
  show ?case by simp
next
  case (add_above s t i activate s')
  then have "i \<in> set (floating_ids E s)" by (auto simp: floating_add_tile_above_def bind_eq_Some_conv idx_of_mem)
  from runs_SomeD [OF floating_add_tile_above_ok [OF add_above.IH this add_above.hyps(2-4)] add_above.hyps(5)]
  show ?case by simp
next
  case (remove s i r s')
  then have "i \<in> set (floating_ids E s)" by (auto simp: floating_remove_tile_def bind_eq_Some_conv idx_of_mem)
  from runs_SomeD [OF floating_remove_ok [OF remove.IH this] remove.hyps(2)] show ?case by simp
next
  case (remove_active s ro s')
  from runs_SomeD [OF floating_remove_active_ok [OF remove_active.IH] remove_active.hyps(2)] show ?case by simp
next
  case (configure s opts vs wa sc)
  show ?case by (rule floating_update_config_ok(1) [OF configure.IH configure.hyps(2)])
next
  case (reparent s k p w s')
  from runs_SomeD [OF floating_reparent_ok [OF reparent.IH reparent.hyps(2-4)] reparent.hyps(5)]
  show ?case by (simp add: floating_keeps_def)
qed

end

end
