(* ===== verification/Layout_Floating_Claims.thy ===== *)
theory Layout_Floating_Claims
  imports Layout_Floating_Reach
begin

text \<open>
  The properties of the floating layout over its reachable states, each with a witness on a sample with
  a dialog window above its parent.
\<close>

section \<open>The family of a window\<close>

lemma sel_filter:
  "sel (map P xs) xs = filter P xs" "unsel (map P xs) xs = filter (\<lambda>x. \<not> P x) xs"
  by (induction xs) simp_all

lemma flags_of_set: "length fs = length xs \<Longrightarrow> distinct xs \<Longrightarrow> fs = map (\<lambda>x. x \<in> set (sel fs xs)) xs"
proof (induction fs xs rule: list_induct2)
  case (Cons b fs x xs)
  then have x: "x \<notin> set (sel fs xs)" using set_sel [of fs xs] by auto
  have "y \<in> set (sel (b # fs) (x # xs)) \<longleftrightarrow> y \<in> set (sel fs xs)" if "y \<in> set xs" for y
    using Cons.prems that by auto
  then have m: "map (\<lambda>y. y \<in> set (sel (b # fs) (x # xs))) xs = map (\<lambda>y. y \<in> set (sel fs xs)) xs"
    by (intro map_cong) simp_all
  have h: "x \<in> set (sel (b # fs) (x # xs)) \<longleftrightarrow> b" using x by simp
  have "fs = map (\<lambda>y. y \<in> set (sel fs xs)) xs" using Cons.IH Cons.prems by simp
  then show ?case unfolding list.map h m by simp
qed simp

lemma kin_flags_descends:
  assumes "stacked E vs" and "distinct vs"
  shows "kin_flags E win vs = map (descends E vs win) vs"
proof -
  have "kin_flags E win vs = map (\<lambda>v. v \<in> set (sel (kin_flags E win vs) vs)) vs"
    by (rule flags_of_set [OF _ assms(2)]) simp
  then show ?thesis unfolding kin_exact [OF assms(1)] by simp
qed

lemma distinct_windows: "distinct (floating_ids E s) \<Longrightarrow> distinct (map tl_window (fl_tiles s))"
  unfolding floating_ids_def by (induction "fl_tiles s" arbitrary: s) (auto simp: distinct_map inj_on_def)

lemma distinct_map_neq: "distinct (map f (A @ t # B)) \<Longrightarrow> u \<in> set A \<union> set B \<Longrightarrow> f u \<noteq> f t"
  by (simp add: image_iff) metis

lemma activate_family:
  assumes inv: "floating_inv E s" and i: "i \<in> set (floating_ids E s)"
  defines "others \<equiv> filter (\<lambda>t. el_id E (tl_window t) \<noteq> i) (fl_tiles s)"
  shows "\<exists>s' t. floating_activate_window E i s = Some (True, s') \<and> fl_active_window_id s' = Some i \<and>
     t \<in> set (fl_tiles s) \<and> el_id E (tl_window t) = i \<and>
     fl_tiles s' =
       filter (\<lambda>u. descends E (map tl_window others) (tl_window t) (tl_window u)) others @ t #
       filter (\<lambda>u. \<not> descends E (map tl_window others) (tl_window t) (tl_window u)) others"
proof -
  obtain k where k: "floating_idx_of E i s = Some k" using i idx_of_mem [of i E s] by blast
  then obtain A t B where sp: "fl_tiles s = A @ t # B" "k = length A" "el_id E (tl_window t) = i"
    by (rule floating_idx_split)
  have dist: "distinct (floating_ids E s)" by (rule floating_invD(5) [OF inv])
  have "el_id E (tl_window u) \<noteq> i" if "u \<in> set A \<union> set B" for u
    using distinct_map_neq [OF dist [unfolded floating_ids_def sp(1)] that] sp(3) by simp
  then have o: "others = A @ B" unfolding others_def sp(1) by (auto simp: sp(3) filter_id_conv)
  have "stacked E (map tl_window others)" "distinct (map tl_window others)"
    using floating_invD(7) [OF inv] distinct_windows [OF dist] unfolding o sp(1) by (auto simp: stacked_remove)
  then have fs: "kin_flags E (tl_window t) (map tl_window (A @ B)) =
      map (\<lambda>u. descends E (map tl_window others) (tl_window t) (tl_window u)) others"
    by (simp add: kin_flags_descends flip: o)
  from runsD [OF floating_activate_split [OF inv sp(1) k [unfolded sp(2)] fs [symmetric]]]
  obtain s' where "floating_activate_window E i s = Some (True, s')" "fl_active_window_id s' = Some i"
    "fl_tiles s' = sel (map (\<lambda>u. descends E (map tl_window others) (tl_window t) (tl_window u)) others) others @ t #
      unsel (map (\<lambda>u. descends E (map tl_window others) (tl_window t) (tl_window u)) others) others"
    unfolding o by auto
  then show ?thesis using sp by (intro exI [of _ s'] exI [of _ t]) (simp add: sel_filter del: map_map)
qed

section \<open>A sample\<close>

definition sample_dialog :: "nat \<Rightarrow> nat \<Rightarrow> TestWindow Tile" where
  "sample_dialog p i =
     tile_new sample_env ((sample_window i)\<lparr>tw_parent_id := Some p\<rparr>) sample_size 1 sample_options"

definition sample_floating :: "(TestWindow, nat) FloatingSpace" where
  "sample_floating = floating_new sample_size sample_area 1 sample_options"

lemma sample_env_kin: "el_is_child_of sample_env v w \<longleftrightarrow> tw_parent_id v = Some (tw_id w)"
  "el_id sample_env = tw_id"
  by (simp_all add: sample_env_def test_env_def)

lemma sample_dialog_ok:
  "tile_ok sample_env (sample_dialog p i)" "el_id sample_env (tl_window (sample_dialog p i)) = i"
  "tw_parent_id (tl_window (sample_dialog p i)) = Some p"
  using sample_options_ok
  by (simp_all add: tile_ok_def presets_ok_def sample_dialog_def tile_new_def sample_env_def test_env_def sample_window_def)

text \<open>A reachable layout with window 1 and its dialog 2, which was inserted above it.\<close>

lemma sample_family:
  obtains s where "floating_reachable sample_env s" and "floating_ids sample_env s = [2, 1]"
    and "fl_active_window_id s = Some 1" and "fl_working_area s = sample_area"
proof -
  have r0: "floating_reachable sample_env sample_floating"
    unfolding sample_floating_def by (rule floating_reachable.new [OF sample_options_ok])
  note inv0 = sample.floating_reachable_inv [OF r0]
  have k0: "kin_ok sample_env (tl_window (sample_tile 1) # map tl_window (fl_tiles sample_floating))"
    by (auto simp: kin_ok_def sample_env_kin sample_tile_def tile_new_def sample_window_def sample_floating_def
        floating_new_def)
  have e: "fl_tiles sample_floating = []" "floating_ids sample_env sample_floating = []"
    by (simp_all add: sample_floating_def floating_new_def floating_ids_def)
  obtain s1 v d where s1: "floating_add_tile sample_env (sample_tile 1) True sample_floating = Some s1"
    "floating_env sample_floating s1" "floating_ids sample_env s1 = [1]" "fl_active_window_id s1 = Some 1"
    "same_kin sample_env (sample_tile 1) v" "mset (floating_pairs s1) = {#(v, d)#}" "floating_inv sample_env s1"
    using runsD [OF layout_element.floating_add_tile_at_full [OF sample_element inv0 le0 sample_tile_ok(1) [of 1] _ k0, of True]]
      sample_tile_ok(2) [of 1] e by (auto simp: floating_add_tile_def placed_as_def floating_pairs_def)
  have r1: "floating_reachable sample_env s1"
    by (rule floating_reachable.add [OF r0 sample_tile_ok(1) _ k0 s1(1)]) (simp add: e)
  have t1: "fl_tiles s1 = [v]"
    using s1(6) list_all2_lengthD [OF floating_invD(3) [OF s1(7)]] 
    by (cases "fl_tiles s1"; cases "fl_data s1") (auto simp: floating_pairs_def)
  have k1: "kin_ok sample_env (tl_window (sample_dialog 1 2) # map tl_window (fl_tiles s1))"
  proof -
    have "\<not> el_is_child_of sample_env (tl_window v) w" for w
      using s1(5) by (simp add: same_kin_def same_family_def sample_env_kin sample_tile_def tile_new_def sample_window_def)
    moreover have "\<not> el_is_child_of sample_env (tl_window (sample_dialog 1 2)) (tl_window (sample_dialog 1 2))"
      using sample_dialog_ok(2,3) [of 1 2] by (simp add: sample_env_kin)
    moreover have "el_id sample_env (tl_window v) = 1" using s1(3) t1 by (simp add: floating_ids_def)
    ultimately show ?thesis
      using sample_dialog_ok(2) [of 1 2] unfolding kin_ok_def t1 by (intro exI [of _ id]) auto
  qed
  obtain s2 u e where s2: "floating_add_tile sample_env (sample_dialog 1 2) False s1 = Some s2"
    "floating_env s1 s2" "mset (floating_ids sample_env s2) = {#1, 2#}" "fl_active_window_id s2 = Some 1"
    "same_kin sample_env (sample_dialog 1 2) u" "mset (floating_pairs s2) = {#(u, e), (v, d)#}"
    "floating_inv sample_env s2"
    using runsD [OF layout_element.floating_add_tile_at_full [OF sample_element s1(7) le0 sample_dialog_ok(1) [of 1 2] _ k1, of False]]
      sample_dialog_ok(2) [of 1 2] s1 t1 by (auto simp: floating_add_tile_def placed_as_def)
  have r2: "floating_reachable sample_env s2"
    by (rule floating_reachable.add [OF r1 sample_dialog_ok(1) _ k1 s2(1)]) (use sample_dialog_ok(2) [of 1 2] s1(3) in simp)
  have v1: "el_id sample_env (tl_window v) = 1" and u2: "el_id sample_env (tl_window u) = 2"
    using s1(5) s2(5) sample_tile_ok(2) [of 1] sample_dialog_ok(2) [of 1 2] by (simp_all add: same_kin_def)
  have child: "el_is_child_of sample_env (tl_window u) (tl_window v)"
  proof -
    have "el_is_child_of sample_env (tl_window u) w = el_is_child_of sample_env (tl_window (sample_dialog 1 2)) w" for w
      using s2(5) by (simp add: same_kin_def same_family_def)
    from this [of "tl_window v"] show ?thesis using v1 sample_dialog_ok(3) [of 1 2] by (simp add: sample_env_kin)
  qed
  have "mset (map fst (floating_pairs s2)) = {#u, v#}" using s2(6) by simp
  then have "mset (fl_tiles s2) = {#u, v#}"
    using floating_invD(4) [OF s2(7)] by (simp add: floating_pairs_def)
  moreover from this have "length (fl_tiles s2) = 2" by (metis size_mset size_add_mset size_empty One_nat_def Suc_1)
  ultimately have "fl_tiles s2 = [u, v] \<or> fl_tiles s2 = [v, u]"
    by (auto simp: length_Suc_conv numeral_2_eq_2 add_eq_conv_ex)
  then have "fl_tiles s2 = [u, v]"
    using floating_invD(7) [OF s2(7)] child by (auto simp: stacked_def)
  then have "floating_ids sample_env s2 = [2, 1]" using v1 u2 by (simp add: floating_ids_def)
  moreover have "fl_working_area s2 = sample_area"
    using s1(2) s2(2) by (simp add: floating_env_def sample_floating_def floating_new_def)
  ultimately show thesis using that r2 s2(4) by blast
qed

section \<open>The properties\<close>

text \<open>C12. In every reachable state of the floating layout its invariant holds, what its
  \<^verbatim>\<open>verify_invariants\<close> asserts: one cached position per tile, up to date and within the limits, an
  active window exactly when there is one, valid presets, no maximized or fullscreen window, an
  interactive resize only of a present window, and every child stacked above its parent - also after
  windows changed their parents.\<close>

theorem floating_invariant:
  assumes "layout_element E" and "floating_reachable E s"
  shows "floating_inv E s"
  by (rule layout_element.floating_reachable_inv [OF assms])

theorem floating_invariant_witness:
  "\<exists>s. floating_ids sample_env s = [2, 1] \<and> floating_inv sample_env s"
  by (rule sample_family) (use floating_invariant [OF sample_element] in blast)

text \<open>C13. No action on the floating layout panics in a reachable state, and none of them loses,
  duplicates or adds a window or changes the environment of the layout.\<close>

theorem floating_actions_never_panic:
  assumes "layout_element E" and "floating_reachable E s" and "floating_allows E a s"
  shows "\<exists>s'. run_floating E a s = Some s' \<and> mset (floating_ids E s') = mset (floating_ids E s) \<and>
     floating_env s s'"
  using layout_element.run_floating_keeps [OF assms(1) layout_element.floating_reachable_inv [OF assms(1,2)] assms(3)]
  by (auto simp: runs_iff floating_keeps_def)

theorem floating_actions_never_panic_witness:
  "\<exists>s s'. floating_ids sample_env s = [2, 1] \<and> run_floating sample_env (FlToggleWidth (Some 2) False) s = Some s' \<and>
     mset (floating_ids sample_env s') = {#1, 2#}"
proof (rule sample_family)
  fix s assume s: "floating_reachable sample_env s" "floating_ids sample_env s = [2, 1]"
  then have a: "floating_allows sample_env (FlToggleWidth (Some 2) False) s" by (simp add: floating_targets_def)
  show ?thesis using floating_actions_never_panic [OF sample_element s(1) a] s(2) by (auto simp: add_mset_commute)
qed

text \<open>C16. Activating a window brings it to the top together with its whole family: first its
  descendants, in their order, then the window, then all the others, in their order.\<close>

theorem activate_raises_family:
  assumes "layout_element E" and "floating_reachable E s" and "i \<in> set (floating_ids E s)"
    and "others = filter (\<lambda>t. el_id E (tl_window t) \<noteq> i) (fl_tiles s)"
  shows "\<exists>s' t. floating_activate_window E i s = Some (True, s') \<and> fl_active_window_id s' = Some i \<and>
     t \<in> set (fl_tiles s) \<and> el_id E (tl_window t) = i \<and>
     fl_tiles s' =
       filter (\<lambda>u. descends E (map tl_window others) (tl_window t) (tl_window u)) others @ t #
       filter (\<lambda>u. \<not> descends E (map tl_window others) (tl_window t) (tl_window u)) others"
  unfolding assms(4)
  by (rule activate_family [OF layout_element.floating_reachable_inv [OF assms(1,2)] assms(3)])

theorem activate_raises_family_witness:
  "\<exists>s s'. floating_ids sample_env s = [2, 1] \<and> floating_activate_window sample_env 2 s = Some (True, s') \<and>
     fl_active_window_id s' = Some 2"
proof (rule sample_family)
  fix s assume s: "floating_reachable sample_env s" "floating_ids sample_env s = [2, 1]"
  show ?thesis using activate_raises_family [OF sample_element s(1) _ refl, of 2] s(2) by auto
qed

text \<open>C17. When a window of the layout gets a new parent, or none, and \<^verbatim>\<open>descendants_added\<close> is called for
  the parent, the layout does not panic and the stacking order is restored: every child is above its
  parent again.\<close>

theorem reparent_restores_order:
  assumes "layout_element E" and "floating_reachable E s" and "k < length (fl_tiles s)"
    and "new_parent E p (tl_window (fl_tiles s ! k)) w" and "kin_ok E (map tl_window (fl_tiles (reparent E k w s)))"
  shows "\<exists>s'. floating_reparent E k w p s = Some s' \<and>
     mset (floating_ids E s') = mset (floating_ids E s) \<and>
     (\<forall>n < length (fl_tiles s'). \<forall>m < n.
        \<not> el_is_child_of E (tl_window (fl_tiles s' ! n)) (tl_window (fl_tiles s' ! m)))"
proof -
  have "runs (floating_reparent E k w p s) (floating_keeps E s)"
    by (rule floating_reparent_ok [OF layout_element.floating_reachable_inv [OF assms(1,2)] assms(3-5)])
  then obtain s' where s': "floating_reparent E k w p s = Some s'" "floating_keeps E s s'" by (auto simp: runs_iff)
  have "stacked E (map tl_window (fl_tiles s'))"
    using s'(2) floating_invD(7) by (auto simp: floating_keeps_def)
  then show ?thesis
    using s' by (auto simp: floating_keeps_def stacked_def sorted_wrt_iff_nth_less)
qed

text \<open>The dialog of the sample gives up its parent.\<close>

theorem reparent_restores_order_witness:
  "\<exists>s w s'. floating_ids sample_env s = [2, 1] \<and> floating_reparent sample_env 0 w None s = Some s' \<and>
     mset (floating_ids sample_env s') = {#1, 2#}"
proof (rule sample_family)
  fix s assume s: "floating_reachable sample_env s" "floating_ids sample_env s = [2, 1]"
  note inv = sample.floating_reachable_inv [OF s(1)]
  have len: "length (fl_tiles s) = 2" using s(2) unfolding floating_ids_def by (metis length_map length_Cons list.size(3) Suc_1 One_nat_def)
  define w where "w = (tl_window (fl_tiles s ! 0))\<lparr>tw_parent_id := None\<rparr>"
  have np: "new_parent sample_env None (tl_window (fl_tiles s ! 0)) w"
    by (simp add: new_parent_def w_def same_requests_def sample_env_def test_env_def default_expected_size_def)
  obtain rank :: "nat \<Rightarrow> nat" where rank: "\<forall>v \<in> set (map tl_window (fl_tiles s)). \<forall>u \<in> set (map tl_window (fl_tiles s)).
      el_is_child_of sample_env v u \<longrightarrow> rank (el_id sample_env u) < rank (el_id sample_env v)"
    using floating_invD(6) [OF inv] unfolding kin_ok_def by blast
  obtain t0 t1 where ts: "fl_tiles s = [t0, t1]" using len by (auto simp: length_Suc_conv numeral_2_eq_2)
  have "kin_ok sample_env (map tl_window (fl_tiles (reparent sample_env 0 w s)))"
    unfolding kin_ok_def using rank
    by (intro exI [of _ rank]) (auto simp: reparent_def ts sample_env_kin w_def)
  then show ?thesis
    using reparent_restores_order [OF sample_element s(1) _ np] len s(2) by (auto simp: add_mset_commute)
qed

lemma off_screen:
  fixes w W p shown :: real
  assumes "shown \<le> W"
  shows "min w shown \<le> min (max p (- max 0 (w - shown))) (W - w + max 0 (w - shown)) + w"
    and "min (max p (- max 0 (w - shown))) (W - w + max 0 (w - shown)) \<le> W - min w shown"
  using assms by (auto simp: min_def max_def)

lemma clampf_le: "lo \<le> hi \<Longrightarrow> clampf lo hi x \<le> hi"
  by (simp add: clampf_def)

lemma keep_on_screen_visible:
  assumes "75 \<le> sw (r_size area)" and "75 \<le> sh (r_size area)"
  shows "px (r_loc area) + min (sw z) (clampf 10 75 (sw z / 4)) \<le> px (keep_on_screen area z p) + sw z"
    and "px (keep_on_screen area z p) + min (sw z) (clampf 10 75 (sw z / 4)) \<le> px (r_loc area) + sw (r_size area)"
    and "py (r_loc area) + min (sh z) (clampf 10 75 (sh z / 4)) \<le> py (keep_on_screen area z p) + sh z"
    and "py (keep_on_screen area z p) + min (sh z) (clampf 10 75 (sh z / 4)) \<le> py (r_loc area) + sh (r_size area)"
proof -
  define cw where "cw = clampf 10 75 (sw z / 4)"
  define ch where "ch = clampf 10 75 (sh z / 4)"
  have c: "cw \<le> sw (r_size area)" "ch \<le> sh (r_size area)"
    using assms clampf_le [of 10 75 "sw z / 4"] clampf_le [of 10 75 "sh z / 4"] by (simp_all add: cw_def ch_def)
  have k: "px (keep_on_screen area z p) = px (r_loc area) +
      min (max (px p - px (r_loc area)) (- max 0 (sw z - cw))) (sw (r_size area) - sw z + max 0 (sw z - cw))"
    "py (keep_on_screen area z p) = py (r_loc area) +
      min (max (py p - py (r_loc area)) (- max 0 (sh z - ch))) (sh (r_size area) - sh z + max 0 (sh z - ch))"
    by (simp_all add: keep_on_screen_def Let_def point_add_def point_sub_def cw_def ch_def)
  define mx where "mx = min (max (px p - px (r_loc area)) (- max 0 (sw z - cw))) (sw (r_size area) - sw z + max 0 (sw z - cw))"
  define my where "my = min (max (py p - py (r_loc area)) (- max 0 (sh z - ch))) (sh (r_size area) - sh z + max 0 (sh z - ch))"
  note o = off_screen [OF c(1), where w = "sw z" and p = "px p - px (r_loc area)", folded mx_def]
    off_screen [OF c(2), where w = "sh z" and p = "py p - py (r_loc area)", folded my_def]
  show "px (r_loc area) + min (sw z) (clampf 10 75 (sw z / 4)) \<le> px (keep_on_screen area z p) + sw z"
    "px (keep_on_screen area z p) + min (sw z) (clampf 10 75 (sw z / 4)) \<le> px (r_loc area) + sw (r_size area)"
    "py (r_loc area) + min (sh z) (clampf 10 75 (sh z / 4)) \<le> py (keep_on_screen area z p) + sh z"
    "py (keep_on_screen area z p) + min (sh z) (clampf 10 75 (sh z / 4)) \<le> py (r_loc area) + sh (r_size area)"
    unfolding k cw_def [symmetric] ch_def [symmetric] mx_def [symmetric] my_def [symmetric]
    by (insert o, simp_all only: add.assoc add_left_mono add_le_cancel_left le_diff_eq)
qed

text \<open>C18. A floating window cannot be moved out of sight: whatever was done to it, at least a quarter of
  its width and height, within 10 to 75 logical pixels, stays inside a working area of at least 75 by
  75 pixels (a window smaller than that stays inside entirely).\<close>

theorem window_stays_visible:
  assumes "layout_element E" and "floating_reachable E s" and "k < length (fl_tiles s)"
    and "area = fl_working_area s" and "75 \<le> sw (r_size area)" and "75 \<le> sh (r_size area)"
    and "pos = fd_logical_pos (fl_data s ! k)" and "z = tile_size E (fl_tiles s ! k)"
  shows "px (r_loc area) + min (sw z) (clampf 10 75 (sw z / 4)) \<le> px pos + sw z \<and>
     px pos + min (sw z) (clampf 10 75 (sw z / 4)) \<le> px (r_loc area) + sw (r_size area) \<and>
     py (r_loc area) + min (sh z) (clampf 10 75 (sh z / 4)) \<le> py pos + sh z \<and>
     py pos + min (sh z) (clampf 10 75 (sh z / 4)) \<le> py (r_loc area) + sh (r_size area)"
proof -
  have d: "data_ok E area (fl_tiles s ! k) (fl_data s ! k)"
    using floating_tile_at(3) [OF layout_element.floating_reachable_inv [OF assms(1,2)] assms(3)] assms(4) by simp
  then have "fd_logical_pos (fl_data s ! k) = fd_logical_pos (recompute_logical_pos (fl_data s ! k))"
    by (simp add: data_ok_def)
  then have "pos = keep_on_screen area z (data_scale_by_working_area area (fd_pos (fl_data s ! k)))"
    using d assms(7,8) by (simp add: recompute_logical_pos_def data_ok_def)
  then show ?thesis using keep_on_screen_visible [OF assms(5,6)] by blast
qed

theorem window_stays_visible_witness:
  "\<exists>s k. floating_ids sample_env s = [2, 1] \<and>
     px (fd_logical_pos (fl_data s ! k)) + min (sw (tile_size sample_env (fl_tiles s ! k)))
       (clampf 10 75 (sw (tile_size sample_env (fl_tiles s ! k)) / 4)) \<le> 1280"
proof (rule sample_family)
  fix s assume s: "floating_reachable sample_env s" "floating_ids sample_env s = [2, 1]" "fl_working_area s = sample_area"
  have k: "0 < length (fl_tiles s)" using s(2) by (auto simp: floating_ids_def)
  show ?thesis
    using window_stays_visible [OF sample_element s(1) k s(3) [symmetric] _ _ refl refl] s(2)
    by (intro exI [of _ s] exI [of _ 0]) (simp add: point_zero_def)
qed

lemma size_frac_scale:
  "1 \<le> sw (r_size area) \<Longrightarrow> 1 \<le> sh (r_size area) \<Longrightarrow>
    logical_to_size_frac_in_working_area area (data_scale_by_working_area area p) = p"
  by (simp add: logical_to_size_frac_in_working_area_def data_scale_by_working_area_def Let_def point_add_def
      point_sub_def max_def)

lemma idx_of_nth:
  assumes "distinct (floating_ids E s)" and "k < length (fl_tiles s)"
  shows "floating_idx_of E (el_id E (tl_window (fl_tiles s ! k))) s = Some k"
proof -
  let ?i = "el_id E (tl_window (fl_tiles s ! k))"
  have "?i \<in> set (floating_ids E s)" using assms(2) by (auto simp: floating_ids_def)
  then obtain n where n: "floating_idx_of E ?i s = Some n" using idx_of_mem [of ?i E s] by blast
  then have "n = k" using idx_ofD [OF n] assms
    by (auto simp: floating_ids_def distinct_conv_nth)
  then show ?thesis using n by simp
qed

lemma data_ok_unique:
  assumes "data_ok E area t d" and "data_ok E area u e" and "fd_size d = fd_size e" and "fd_pos d = fd_pos e"
  shows "d = e"
proof -
  have "recompute_logical_pos d = recompute_logical_pos e"
    using assms unfolding data_ok_def recompute_logical_pos_def by (intro FloatingData.equality) simp_all
  then show ?thesis using assms(1,2) by (simp add: data_ok_def)
qed

text \<open>C19. A window that leaves the floating layout and comes back is where it was: its position relative
  to the working area is the same, and when its size is the same, so is its position on the screen.\<close>

theorem refloat_keeps_position:
  assumes "layout_element E" and "floating_reachable E s" and "floating_idx_of E i s = Some k"
    and "1 \<le> sw (r_size (fl_working_area s))" and "1 \<le> sh (r_size (fl_working_area s))"
  shows "\<exists>r s' s'' k'. floating_remove_tile E i s = Some (r, s') \<and>
     floating_add_tile E (rm_tile r) activate s' = Some s'' \<and> floating_idx_of E i s'' = Some k' \<and>
     fd_pos (fl_data s'' ! k') = fd_pos (fl_data s ! k) \<and>
     (fd_size (fl_data s'' ! k') = fd_size (fl_data s ! k) \<longrightarrow> fl_data s'' ! k' = fl_data s ! k)"
proof -
  note inv = layout_element.floating_reachable_inv [OF assms(1,2)]
  have i: "i \<in> set (floating_ids E s)" using assms(3) idx_of_mem [of i E s] by blast
  obtain r s' where rm: "floating_remove_tile E i s = Some (r, s')" "floating_inv E s'" "floating_env s s'"
    "floating_ids E s' = remove1 i (floating_ids E s)" "tile_ok E (rm_tile r)" "el_id E (tl_window (rm_tile r)) = i"
    "tl_window (rm_tile r) = tl_window (fl_tiles s ! k)" "tl_floating_pos (rm_tile r) = Some (fd_pos (fl_data s ! k))"
    "fl_tiles s' = take k (fl_tiles s) @ drop (Suc k) (fl_tiles s)"
  proof -
    from runsD [OF floating_remove_ok [OF inv i]] obtain p where p: "floating_remove_tile E i s = Some p"
      "case p of (r, s') \<Rightarrow> floating_inv E s' \<and> floating_env s s' \<and>
        floating_ids E s' = remove1 i (floating_ids E s) \<and> tile_ok E (rm_tile r) \<and> rm_is_floating r \<and>
        el_id E (tl_window (rm_tile r)) = i \<and>
        (fl_active_window_id s \<noteq> Some i \<longrightarrow> fl_active_window_id s' = fl_active_window_id s) \<and>
        (\<exists>k. floating_idx_of E i s = Some k \<and> tl_window (rm_tile r) = tl_window (fl_tiles s ! k) \<and>
           tl_floating_pos (rm_tile r) = Some (fd_pos (fl_data s ! k)) \<and>
           fl_tiles s' = take k (fl_tiles s) @ drop (Suc k) (fl_tiles s))" by blast
    obtain r s' where rs: "p = (r, s')" by (cases p)
    show thesis
      by (insert p(2), unfold rs prod.case, elim conjE exE, rule that [of r s'])
         (use p(1) assms(3) rs in simp_all)
  qed
  have k: "k < length (fl_tiles s)" by (rule idx_ofD(1) [OF assms(3)])
  have new: "el_id E (tl_window (rm_tile r)) \<notin> set (floating_ids E s')"
    using rm(4,6) floating_invD(5) [OF inv] by simp
  have kin: "kin_ok E (tl_window (rm_tile r) # map tl_window (fl_tiles s'))"
    by (rule kin_ok_subset [OF floating_invD(6) [OF inv]])
       (use k set_take_subset [of k "fl_tiles s"] set_drop_subset [of "Suc k" "fl_tiles s"] in \<open>auto simp: rm(7,9)\<close>)
  obtain s'' v d where ad: "floating_add_tile E (rm_tile r) activate s' = Some s''" "floating_inv E s''"
    "floating_env s' s''" "placed_as E s' (rm_tile r) v d" "mset (floating_pairs s'') = add_mset (v, d) (mset (floating_pairs s'))"
    using runsD [OF layout_element.floating_add_tile_at_full [OF assms(1) rm(2) le0 rm(5) new kin, of activate]]
    by (auto simp: floating_add_tile_def)
  have area: "fl_working_area s'' = fl_working_area s" "fl_working_area s' = fl_working_area s"
    using rm(3) ad(3) by (simp_all add: floating_env_def)
  have "(v, d) \<in># mset (floating_pairs s'')" using ad(5) by simp
  then have "(v, d) \<in> set (zip (fl_tiles s'') (fl_data s''))" by (simp add: floating_pairs_def)
  then obtain n where n: "n < length (fl_tiles s'')" "fl_tiles s'' ! n = v" "fl_data s'' ! n = d"
    by (auto simp: set_zip)
  have "el_id E (tl_window v) = i" using ad(4) rm(6) by (simp add: placed_as_def same_kin_def)
  then have idx: "floating_idx_of E i s'' = Some n"
    using idx_of_nth [OF floating_invD(5) [OF ad(2)] n(1)] n(2) by simp
  have "d = data_new E (fl_working_area s) v (data_scale_by_working_area (fl_working_area s) (fd_pos (fl_data s ! k)))"
    using ad(4) rm(8) area(2) by (simp add: placed_as_def scale_by_working_area_def)
  then have pos: "fd_pos d = fd_pos (fl_data s ! k)"
    using size_frac_scale [OF assms(4,5)] by (simp add: data_new_def set_logical_pos_def)
  note old = floating_tile_at(3) [OF inv k]
  have "data_ok E (fl_working_area s) v d" using ad(4) area(2) by (simp add: placed_as_def)
  then have "d = fl_data s ! k" if "fd_size d = fd_size (fl_data s ! k)"
    using data_ok_unique [OF _ old that pos] by blast
  then show ?thesis using rm(1) ad(1) idx pos n(3)
    by (rule_tac exI [of _ r], rule_tac exI [of _ s'], rule_tac exI [of _ s''], rule_tac exI [of _ n]) simp
qed

theorem refloat_keeps_position_witness:
  "\<exists>s r s' s''. floating_ids sample_env s = [2, 1] \<and> floating_remove_tile sample_env 2 s = Some (r, s') \<and>
     floating_add_tile sample_env (rm_tile r) True s' = Some s''"
proof (rule sample_family)
  fix s assume s: "floating_reachable sample_env s" "floating_ids sample_env s = [2, 1]" "fl_working_area s = sample_area"
  then obtain k where k: "floating_idx_of sample_env 2 s = Some k" using idx_of_mem [of 2 sample_env s] by auto
  show ?thesis using refloat_keeps_position [OF sample_element s(1) k, of True] s(2,3) by auto
qed

lemma min_by_None: "min_by f xs = None \<longleftrightarrow> xs = []"
  by (cases xs) (auto split: option.splits)

lemma min_by_least: "min_by f xs = Some y \<Longrightarrow> x \<in> set xs \<Longrightarrow> f y \<le> f x"
proof (induction xs arbitrary: y)
  case (Cons z xs)
  show ?case
  proof (cases "min_by f xs")
    case None
    then have "xs = []" using min_by_None [of f xs] by simp
    then show ?thesis using Cons.prems by simp
  next
    case (Some v)
    then have v: "y = (if f z \<le> f v then z else v)" using Cons.prems(1) by simp
    show ?thesis
    proof (cases "x = z")
      case False
      then have "f v \<le> f x" using Cons.IH [OF Some] Cons.prems(2) by simp
      then show ?thesis using v by auto
    qed (use v in auto)
  qed
qed simp

text \<open>C22. Focusing in a direction activates, of the windows whose centres lie in that direction, one that
  is nearest along it, and does nothing exactly when there is none.\<close>

theorem focus_picks_nearest:
  assumes "layout_element E" and "floating_reachable E s" and "fl_active_window_id s = Some i"
    and "floating_idx_of E i s = Some a"
    and "ahead = {k. k < length (fl_tiles s) \<and> k \<noteq> a \<and> 0 < distance (data_center (fl_data s ! a)) (data_center (fl_data s ! k))}"
  shows "if ahead = {} then focus_directional E distance s = Some (False, s)
     else \<exists>k \<in> ahead. \<exists>s'. focus_directional E distance s = Some (True, s') \<and>
       fl_active_window_id s' = Some (el_id E (tl_window (fl_tiles s ! k))) \<and>
       (\<forall>m \<in> ahead. distance (data_center (fl_data s ! a)) (data_center (fl_data s ! k)) \<le>
                     distance (data_center (fl_data s ! a)) (data_center (fl_data s ! m)))"
proof -
  note inv = layout_element.floating_reachable_inv [OF assms(1,2)]
  define D where "D = (\<lambda>k. distance (data_center (fl_data s ! a)) (data_center (fl_data s ! k)))"
  have a: "a < length (fl_tiles s)" "el_id E (tl_window (fl_tiles s ! a)) = i" by (rule idx_ofD [OF assms(4)])+
  have len: "length (fl_data s) = length (fl_tiles s)" by (rule floating_invD(4) [OF inv])
  have ne: "el_id E (tl_window (fl_tiles s ! k)) = i \<longleftrightarrow> k = a" if "k < length (fl_tiles s)" for k
  proof
    assume e: "el_id E (tl_window (fl_tiles s ! k)) = i"
    then show "k = a" using idx_of_nth [OF floating_invD(5) [OF inv] that, unfolded e] assms(4) by simp
  qed (simp only: a)
  define cs where "cs = filter (\<lambda>(t, dist). 0 < dist) (map (\<lambda>(t, d). (t, distance (data_center (fl_data s ! a)) (data_center d)))
      (filter (\<lambda>(t, d). el_id E (tl_window t) \<noteq> i) (zip (fl_tiles s) (fl_data s))))"
  have cs: "set cs = (\<lambda>k. (fl_tiles s ! k, D k)) ` ahead"
  proof -
    have "set cs = {(fl_tiles s ! k, D k) |k. k < length (fl_tiles s) \<and> el_id E (tl_window (fl_tiles s ! k)) \<noteq> i \<and> 0 < D k}"
      using len by (auto simp: cs_def set_zip D_def)
    also have "\<dots> = {(fl_tiles s ! k, D k) |k. k \<in> ahead}"
      using ne unfolding assms(5) D_def mem_Collect_eq by blast
    finally show ?thesis by blast
  qed
  have run: "focus_directional E distance s = (case min_by snd cs of
      Some (t, _) \<Rightarrow> do { (_, s) \<leftarrow> floating_activate_window E (el_id E (tl_window t)) s; Some (True, s) }
    | None \<Rightarrow> Some (False, s))"
    using assms(3,4) a(1) len by (simp add: focus_directional_def Let_def vec_get_def cs_def)
  show ?thesis
  proof (cases "min_by snd cs")
    case None
    then have "ahead = {}" using cs min_by_None [of snd cs] by auto
    then show ?thesis using run None by simp
  next
    case (Some x)
    then obtain k where k: "k \<in> ahead" "x = (fl_tiles s ! k, D k)" using cs min_by_set [OF Some] by auto
    have least: "D k \<le> D m" if "m \<in> ahead" for m
      using min_by_least [OF Some, of "(fl_tiles s ! m, D m)"] cs that k(2) by auto
    have "el_id E (tl_window (fl_tiles s ! k)) \<in> set (floating_ids E s)"
      using k(1) assms(5) by (auto simp: floating_ids_def)
    then obtain s' where "floating_activate_window E (el_id E (tl_window (fl_tiles s ! k))) s = Some (True, s')"
      "fl_active_window_id s' = Some (el_id E (tl_window (fl_tiles s ! k)))"
      using runsD [OF floating_activate_ok [OF inv, of "el_id E (tl_window (fl_tiles s ! k))"]] by auto
    then show ?thesis using run Some k least unfolding D_def by auto
  qed
qed

theorem focus_picks_nearest_witness:
  "\<exists>s s'. floating_ids sample_env s = [2, 1] \<and> focus_directional sample_env (\<lambda>_ _. 1) s = Some (True, s') \<and>
     fl_active_window_id s' = Some 2"
proof (rule sample_family)
  fix s assume s: "floating_reachable sample_env s" "floating_ids sample_env s = [2, 1]" "fl_active_window_id s = Some 1"
  obtain t0 t1 where ts: "fl_tiles s = [t0, t1]" "el_id sample_env (tl_window t0) = 2" "el_id sample_env (tl_window t1) = 1"
    using s(2) by (auto simp: floating_ids_def)
  have i: "floating_idx_of sample_env 1 s = Some 1" by (simp add: floating_idx_of_def ts)
  have e: "{k. k < length (fl_tiles s) \<and> k \<noteq> 1 \<and> 0 < (1 :: real)} = {0}" by (auto simp: ts)
  show ?thesis
    using focus_picks_nearest [OF sample_element s(1,3) i refl, of "\<lambda>_ _. 1"] s(2) ts unfolding e by auto
qed

end
