(* ===== verification/Layout_Scrolling_View.thy ===== *)
theory Layout_Scrolling_View
  imports Layout_Floating
begin

text \<open>
  What the scrolling layout tells its workspace (\<^verbatim>\<open>src/layout/scrolling.rs\<close>): where its tiles are drawn,
  in the order in which they are drawn, the layouts it reports over IPC, and the sizes it proposes
  to windows that are about to open. None of these changes the layout.
\<close>

section \<open>Rendering order\<close>

text \<open>The active item first, then the others in their order; \<^verbatim>\<open>split_at\<close> panics where there is no active item.\<close>

definition in_render_order :: "nat \<Rightarrow> 'a list \<Rightarrow> 'a list option" where
  "in_render_order active xs =
     do { x \<leftarrow> vec_get xs active; Some (x # take active xs @ drop (active + 1) xs) }"

definition column_xs_in_render_order :: "('w, 'id) Space \<Rightarrow> real list option" where
  "column_xs_in_render_order s = in_render_order (sp_active_column_idx s) (column_xs s)"

definition columns_in_render_order :: "('w, 'id) Space \<Rightarrow> ((nat \<times> 'w Column) \<times> real) list option" where
  "columns_in_render_order s =
     do { offsets \<leftarrow> column_xs_in_render_order s;
          columns \<leftarrow> (if sp_columns s = [] then Some []
                     else in_render_order (sp_active_column_idx s) (enumerate 0 (sp_columns s)));
          Some (zip columns offsets) }"

text \<open>The tiles of a column with their indices, their offsets and whether they are visible.\<close>

definition tiles_in_render_order :: "'w Column \<Rightarrow> (nat \<times> 'w Tile \<times> Point \<times> bool) list option" where
  "tiles_in_render_order c =
     do { offsets \<leftarrow> in_render_order (c_active_tile_idx c) (tile_offsets c);
          ts \<leftarrow> in_render_order (c_active_tile_idx c) (enumerate 0 (c_tiles c));
          Some (map (\<lambda>((i, t), off). (i, t, off, i = c_active_tile_idx c \<or> \<not> is_tabbed c)) (zip ts offsets)) }"

text \<open>
  The tiles with the indices of their columns and their own, and their positions, rounded to physical
  pixels if asked for. The variants of the code for shared and for mutable tiles take from it what
  they return.
\<close>

definition positioned_column ::
    "('w, 'id) LayoutEnv \<Rightarrow> bool \<Rightarrow> real \<Rightarrow> real \<Rightarrow> (nat \<times> 'w Column) \<times> real \<Rightarrow>
     ((nat \<times> nat) \<times> 'w Tile \<times> Point \<times> bool) list option" where
  "positioned_column E rnd scale view_x = (\<lambda>((ci, c), col_x).
     do { ts \<leftarrow> tiles_in_render_order c;
          let base = point_add \<lparr>px = - view_x + col_x, py = 0\<rparr> (column_render_offset E c);
          Some (map (\<lambda>(ti, t, off, visible).
                  let pos = point_add (point_add base off) (tile_render_offset E t)
                  in ((ci, ti), t, if rnd then round_point E scale pos else pos, visible)) ts) })"

definition positioned_tiles ::
    "('w, 'id) LayoutEnv \<Rightarrow> bool \<Rightarrow> ('w, 'id) Space \<Rightarrow>
     ((nat \<times> nat) \<times> 'w Tile \<times> Point \<times> bool) list option" where
  "positioned_tiles E rnd s =
     do { view_x \<leftarrow> view_pos E s;
          columns \<leftarrow> columns_in_render_order s;
          tss \<leftarrow> map_opt (positioned_column E rnd (sp_scale s) view_x) columns;
          Some (concat tss) }"

definition space_tiles_with_render_positions ::
    "('w, 'id) LayoutEnv \<Rightarrow> ('w, 'id) Space \<Rightarrow> ('w Tile \<times> Point \<times> bool) list option" where
  "space_tiles_with_render_positions E s = map_option (map snd) (positioned_tiles E True s)"

definition space_tiles_with_render_positions_mut ::
    "('w, 'id) LayoutEnv \<Rightarrow> bool \<Rightarrow> ('w, 'id) Space \<Rightarrow> ((nat \<times> nat) \<times> 'w Tile \<times> Point) list option" where
  "space_tiles_with_render_positions_mut E rnd s =
     map_option (map (\<lambda>(i, t, pos, visible). (i, t, pos))) (positioned_tiles E rnd s)"

definition space_tiles_with_ipc_layouts ::
    "('w, 'id) LayoutEnv \<Rightarrow> ('w, 'id) Space \<Rightarrow> ('w Tile \<times> WindowLayout) list" where
  "space_tiles_with_ipc_layouts E s =
     concat (map (\<lambda>(col_idx, col).
       map (\<lambda>(tile_idx, t). (t, (ipc_layout_template E t)
              \<lparr>pos_in_scrolling_layout := Some (col_idx + 1, tile_idx + 1)\<rparr>))
         (enumerate 0 (c_tiles col))) (enumerate 0 (sp_columns s)))"

definition render_above_top_layer :: "('w, 'id) Space \<Rightarrow> bool option" where
  "render_above_top_layer s =
     (if sp_columns s = [] then Some False
      else if \<not> vo_is_static (sp_view_offset s) then Some False
      else do { col \<leftarrow> vec_get (sp_columns s) (sp_active_column_idx s);
                Some (is_fullscreen (column_sizing_mode col)) })"

text \<open>\<^verbatim>\<open>Rectangle::intersection\<close> is \<^verbatim>\<open>smithay\<close>'s: the parameter \<open>isect\<close>.\<close>

definition space_active_window_visual_rectangle ::
    "('w, 'id) LayoutEnv \<Rightarrow> (Rect \<Rightarrow> Rect \<Rightarrow> Rect option) \<Rightarrow> ('w, 'id) Space \<Rightarrow> Rect option option" where
  "space_active_window_visual_rectangle E isect s =
     (case vec_get (sp_columns s) (sp_active_column_idx s) of
        None \<Rightarrow> Some None
      | Some col \<Rightarrow>
          do { t \<leftarrow> vec_get (c_tiles col) (c_active_tile_idx col);
               off \<leftarrow> tile_offset (c_active_tile_idx col) col;
               let window_pos = point_add (point_add \<lparr>px = - vo_target (sp_view_offset s), py = 0\<rparr> off)
                                  (window_loc E t);
               Some (isect \<lparr>r_loc = point_zero, r_size = sp_view_size s\<rparr>
                       \<lparr>r_loc = window_pos, r_size = window_size E t\<rparr>) })"

definition space_popup_target_rect ::
    "('w, 'id) LayoutEnv \<Rightarrow> 'id \<Rightarrow> ('w, 'id) Space \<Rightarrow> Rect option" where
  "space_popup_target_rect E i s =
     map_option (\<lambda>(t, pos). \<lparr>r_loc = \<lparr>px = 0, py = py (r_loc (sp_parent_area s)) - py pos - py (window_loc E t)\<rparr>,
                            r_size = \<lparr>sw = sw (window_size E t), sh = sh (r_size (sp_parent_area s))\<rparr>\<rparr>)
       (List.find (\<lambda>(t, pos). el_id E (tl_window t) = i)
         (concat (map (\<lambda>c. zip (c_tiles c) (tile_offsets c)) (sp_columns s))))"

section \<open>Sizes of new windows\<close>

text \<open>The extra size of the tab indicator if a window opens in a tabbed column.\<close>

definition new_window_extra_size :: "WindowRules \<Rightarrow> ('w, 'id) Space \<Rightarrow> Size" where
  "new_window_extra_size rules s =
     (let layout = op_layout (sp_options s);
          display = (case wr_default_column_display rules of
                       Some d \<Rightarrow> d | None \<Rightarrow> lc_default_column_display layout)
      in if display = DisplayTabbed
         then tab_extra_size \<lparr>ti_open_anim = None, ti_config = lc_tab_indicator layout\<rparr> 1 (sp_scale s)
         else size_zero)"

definition space_new_window_toplevel_bounds ::
    "('w, 'id) LayoutEnv \<Rightarrow> WindowRules \<Rightarrow> ('w, 'id) Space \<Rightarrow> ISize" where
  "space_new_window_toplevel_bounds E rules s =
     compute_toplevel_bounds E (border_merge_with (wr_border rules) (lc_border (op_layout (sp_options s))))
       (r_size (sp_working_area s)) (new_window_extra_size rules s) (opt_gaps (sp_options s))"

definition resolved_window_size :: "Border \<Rightarrow> ResolvedSize \<Rightarrow> real" where
  "resolved_window_size border resolved =
     (case resolved of
        ResolvedTile v \<Rightarrow> if b_off border then v else v - b_width border * 2
      | ResolvedWindow v \<Rightarrow> v)"

definition space_new_window_size ::
    "PresetSize option \<Rightarrow> PresetSize option \<Rightarrow> WindowRules \<Rightarrow> ('w, 'id) Space \<Rightarrow> ISize" where
  "space_new_window_size width height rules s =
     (let border = border_merge_with (wr_border rules) (lc_border (op_layout (sp_options s)));
          extra = new_window_extra_size rules s;
          working_size = r_size (sp_working_area s);
          w = (case width of
                 None \<Rightarrow> 0
               | Some p \<Rightarrow>
                   max 1 (f64_as_i32 (of_int
                     \<lfloor>resolved_window_size border (resolve_preset_size p (sp_options s) (sw working_size) (sw extra))\<rfloor>)));
          full_height = sh working_size - opt_gaps (sp_options s) * 2;
          full_height = (if b_off border then full_height else full_height - b_width border * 2);
          h = (case height of
                 None \<Rightarrow> full_height
               | Some p \<Rightarrow>
                   min (resolved_window_size border (resolve_preset_size p (sp_options s) (sh working_size) (sh extra)))
                     full_height)
      in \<lparr>iw = w, ih = max (f64_as_i32 (of_int \<lfloor>h\<rfloor>)) 1\<rparr>)"

end
