(* ===== verification/Config_Layout.thy ===== *)
theory Config_Layout
  imports Layout_Tile
begin

text \<open>
  The merging of the layout configuration (\<^verbatim>\<open>niri-config/src/layout.rs\<close>, \<^verbatim>\<open>niri-config/src/appearance.rs\<close>):
  outputs and workspaces override parts of the global layout section. A part is a record of options,
  \<^term>\<open>None\<close> where the user wrote nothing; \<^verbatim>\<open>Flag\<close> and \<^verbatim>\<open>FloatOrInt\<close> are wrappers of \<^verbatim>\<open>bool\<close> and \<^verbatim>\<open>f64\<close>. Colours,
  gradients, shadows and what else only rendering reads are left out, as in the options themselves.
\<close>

section \<open>Parts\<close>

record TabIndicatorPart =
  tp_off :: bool
  tp_on :: bool
  tp_hide_when_single_tab :: "bool option"
  tp_place_within_column :: "bool option"
  tp_gap :: "real option"
  tp_width :: "real option"
  tp_position :: "TabIndicatorPosition option"

record LayoutPart =
  lp_border :: "BorderRule option"
  lp_tab_indicator :: "TabIndicatorPart option"
  lp_preset_column_widths :: "PresetSize list option"
  lp_default_column_width :: "PresetSize option option"
  lp_preset_window_heights :: "PresetSize list option"
  lp_center_focused_column :: "CenterFocusedColumn option"
  lp_always_center_single_column :: "bool option"
  lp_empty_workspace_above_first :: "bool option"
  lp_default_column_display :: "ColumnDisplay option"
  lp_gaps :: "real option"
  lp_struts :: "Struts option"

section \<open>Merging\<close>

text \<open>The macros \<^verbatim>\<open>merge!\<close> (on flags and numbers) and \<^verbatim>\<open>merge_clone!\<close>: a field that is set replaces the value.\<close>

definition merge_field :: "'a option \<Rightarrow> 'a \<Rightarrow> 'a" where
  "merge_field part x = (case part of None \<Rightarrow> x | Some y \<Rightarrow> y)"

text \<open>The macro \<^verbatim>\<open>merge!\<close> on a field whose type has a part of its own.\<close>

definition merge_part :: "('p \<Rightarrow> 'a \<Rightarrow> 'a) \<Rightarrow> 'p option \<Rightarrow> 'a \<Rightarrow> 'a" where
  "merge_part merge part x = (case part of None \<Rightarrow> x | Some p \<Rightarrow> merge p x)"

definition tab_indicator_merge_with :: "TabIndicatorPart \<Rightarrow> TabIndicatorConfig \<Rightarrow> TabIndicatorConfig" where
  "tab_indicator_merge_with part c =
     (let off = (tc_off c \<or> tp_off part);
          off = (if tp_on part then False else off)
      in \<lparr>tc_off = off,
          tc_hide_when_single_tab = merge_field (tp_hide_when_single_tab part) (tc_hide_when_single_tab c),
          tc_place_within_column = merge_field (tp_place_within_column part) (tc_place_within_column c),
          tc_gap = merge_field (tp_gap part) (tc_gap c), tc_width = merge_field (tp_width part) (tc_width c),
          tc_position = merge_field (tp_position part) (tc_position c)\<rparr>)"

text \<open>The preset sizes of \<^verbatim>\<open>Layout::default()\<close>, the same for widths and heights.\<close>

definition default_presets :: "PresetSize list" where
  "default_presets = [PresetProportion (1 / 3), PresetProportion (1 / 2), PresetProportion (2 / 3)]"

definition layout_default :: "Border \<Rightarrow> TabIndicatorConfig \<Rightarrow> LayoutConfig" where
  "layout_default border tabs =
     \<lparr>lc_border = border, lc_tab_indicator = tabs, lc_preset_column_widths = default_presets,
      lc_default_column_width = Some (PresetProportion (1 / 2)), lc_preset_window_heights = default_presets,
      lc_center_focused_column = CenterNever, lc_always_center_single_column = False,
      lc_empty_workspace_above_first = False, lc_default_column_display = DisplayNormal, lc_gaps = 16,
      lc_struts = \<lparr>st_left = 0, st_right = 0, st_top = 0, st_bottom = 0\<rparr>\<rparr>"

definition layout_merge_with :: "LayoutPart \<Rightarrow> LayoutConfig \<Rightarrow> LayoutConfig" where
  "layout_merge_with part c =
     (let c = c\<lparr>lc_border := merge_part border_merge_with (lp_border part) (lc_border c),
                lc_tab_indicator := merge_part tab_indicator_merge_with (lp_tab_indicator part) (lc_tab_indicator c),
                lc_always_center_single_column :=
                  merge_field (lp_always_center_single_column part) (lc_always_center_single_column c),
                lc_empty_workspace_above_first :=
                  merge_field (lp_empty_workspace_above_first part) (lc_empty_workspace_above_first c),
                lc_gaps := merge_field (lp_gaps part) (lc_gaps c)\<rparr>;
          c = c\<lparr>lc_preset_column_widths := merge_field (lp_preset_column_widths part) (lc_preset_column_widths c),
                lc_preset_window_heights := merge_field (lp_preset_window_heights part) (lc_preset_window_heights c),
                lc_center_focused_column := merge_field (lp_center_focused_column part) (lc_center_focused_column c),
                lc_default_column_display :=
                  merge_field (lp_default_column_display part) (lc_default_column_display c),
                lc_struts := merge_field (lp_struts part) (lc_struts c)\<rparr>;
          c = (case lp_default_column_width part of None \<Rightarrow> c | Some x \<Rightarrow> c\<lparr>lc_default_column_width := x\<rparr>);
          c = (if lc_preset_column_widths c = [] then c\<lparr>lc_preset_column_widths := default_presets\<rparr> else c)
      in if lc_preset_window_heights c = [] then c\<lparr>lc_preset_window_heights := default_presets\<rparr> else c)"

text \<open>\<^verbatim>\<open>Options::with_merged_layout\<close>, and what outputs and workspaces make of the options of their parent.\<close>

definition with_merged_layout :: "LayoutPart option \<Rightarrow> Options \<Rightarrow> Options" where
  "with_merged_layout part opts =
     (case part of None \<Rightarrow> opts | Some p \<Rightarrow> opts\<lparr>op_layout := layout_merge_with p (op_layout opts)\<rparr>)"

section \<open>Merging is well-behaved\<close>

text \<open>What the parser promises of a part: a gap is not negative.\<close>

definition layout_part_ok :: "LayoutPart \<Rightarrow> bool" where
  "layout_part_ok p \<longleftrightarrow> option_ok (\<lambda>g. 0 \<le> g) (lp_gaps p)"

lemma default_presets_nonempty [simp]: "default_presets \<noteq> []"
  by (simp add: default_presets_def)

lemma layout_merge_fields:
  "lc_preset_column_widths (layout_merge_with p c) \<noteq> []"
  "lc_preset_window_heights (layout_merge_with p c) \<noteq> []"
  "lc_gaps (layout_merge_with p c) = merge_field (lp_gaps p) (lc_gaps c)"
  by (auto simp: layout_merge_with_def Let_def split: option.split)

lemma merged_options_ok:
  assumes "options_ok opts" and "option_ok layout_part_ok part"
  shows "options_ok (with_merged_layout part opts)"
  using assms
  by (cases part)
     (auto simp: options_ok_def with_merged_layout_def layout_merge_fields layout_part_ok_def merge_field_def
       split: option.splits)

lemma round_max1_nonneg:
  assumes "0 < scale" and "0 \<le> g" shows "0 \<le> round_logical_in_physical_max1 scale g"
proof -
  have "0 \<le> f64_round x" if "1 \<le> x" for x using that by (simp add: f64_round_def)
  then show ?thesis using assms by (simp add: round_logical_in_physical_max1_def)
qed

lemma adjusted_options_ok:
  "options_ok opts \<Longrightarrow> 0 < scale \<Longrightarrow> options_ok (options_adjusted_for_scale scale opts)"
  by (simp add: options_ok_def options_adjusted_for_scale_def round_max1_nonneg)

text \<open>Merging the same part again changes nothing.\<close>

lemma border_merge_idem: "border_merge_with p (border_merge_with p b) = border_merge_with p b"
  by (auto simp: border_merge_with_def Let_def split: option.split)

lemma tab_indicator_merge_idem:
  "tab_indicator_merge_with p (tab_indicator_merge_with p c) = tab_indicator_merge_with p c"
  by (auto simp: tab_indicator_merge_with_def Let_def merge_field_def split: option.split)

lemma merge_field_idem [simp]: "merge_field p (merge_field p x) = merge_field p x"
  by (simp add: merge_field_def split: option.split)

lemma merge_part_idem:
  "(\<And>p x. merge p (merge p x) = merge p x) \<Longrightarrow> merge_part merge part (merge_part merge part x) = merge_part merge part x"
  by (simp add: merge_part_def split: option.split)

lemma merge_field_simps: "merge_field None x = x" "merge_field (Some y) x = y"
  by (simp_all add: merge_field_def)

lemma layout_merge_sel:
  "lc_border (layout_merge_with p c) = merge_part border_merge_with (lp_border p) (lc_border c)"
  "lc_tab_indicator (layout_merge_with p c) =
     merge_part tab_indicator_merge_with (lp_tab_indicator p) (lc_tab_indicator c)"
  "lc_preset_column_widths (layout_merge_with p c) =
     (let x = merge_field (lp_preset_column_widths p) (lc_preset_column_widths c) in if x = [] then default_presets else x)"
  "lc_default_column_width (layout_merge_with p c) = merge_field (lp_default_column_width p) (lc_default_column_width c)"
  "lc_preset_window_heights (layout_merge_with p c) =
     (let x = merge_field (lp_preset_window_heights p) (lc_preset_window_heights c) in if x = [] then default_presets else x)"
  "lc_center_focused_column (layout_merge_with p c) = merge_field (lp_center_focused_column p) (lc_center_focused_column c)"
  "lc_always_center_single_column (layout_merge_with p c) =
     merge_field (lp_always_center_single_column p) (lc_always_center_single_column c)"
  "lc_empty_workspace_above_first (layout_merge_with p c) =
     merge_field (lp_empty_workspace_above_first p) (lc_empty_workspace_above_first c)"
  "lc_default_column_display (layout_merge_with p c) =
     merge_field (lp_default_column_display p) (lc_default_column_display c)"
  "lc_struts (layout_merge_with p c) = merge_field (lp_struts p) (lc_struts c)"
  by (cases "merge_field (lp_preset_column_widths p) (lc_preset_column_widths c) = []";
      cases "merge_field (lp_preset_window_heights p) (lc_preset_window_heights c) = []";
      cases "lp_default_column_width p"; simp add: layout_merge_with_def merge_field_simps)+

lemma merged_presets_idem:
  "(let x = merge_field q (let x = merge_field q ys in if x = [] then default_presets else x)
    in if x = [] then default_presets else x) =
   (let x = merge_field q ys in if x = [] then default_presets else x)"
  by (cases q) (simp_all add: merge_field_def Let_def)

lemma border_part_idem:
  "merge_part border_merge_with q (merge_part border_merge_with q b) = merge_part border_merge_with q b"
  by (rule merge_part_idem) (rule border_merge_idem)

lemma tabs_part_idem:
  "merge_part tab_indicator_merge_with q (merge_part tab_indicator_merge_with q c) =
   merge_part tab_indicator_merge_with q c"
  by (rule merge_part_idem) (rule tab_indicator_merge_idem)

lemma layout_merge_idem: "layout_merge_with p (layout_merge_with p c) = layout_merge_with p c"
  by (rule LayoutConfig.equality)
     (simp_all add: layout_merge_sel layout_merge_fields(3) merged_presets_idem border_part_idem tabs_part_idem)

section \<open>Nested parts\<close>

text \<open>
  The options of a workspace come from the global section, the part of its output and its own part, in
  this order. What the innermost part that says something about a field has decided, out of the value
  \<open>x\<close> that the field had before:
\<close>

definition innermost :: "('p \<Rightarrow> 'a option) \<Rightarrow> 'p list \<Rightarrow> 'a \<Rightarrow> 'a" where
  "innermost f ps x = last (x # List.map_filter f ps)"

lemma innermost_simps [simp]:
  "innermost f [] x = x" "innermost f (ps @ [p]) x = merge_field (f p) (innermost f ps x)"
  by (simp_all add: innermost_def map_filter_def merge_field_def split: option.split)

lemma innermost_Cons [simp]: "innermost f (p # ps) x = innermost f ps (merge_field (f p) x)"
  by (simp add: innermost_def map_filter_def merge_field_def split: option.split)

text \<open>The flags \<open>on\<close> and \<open>off\<close> of a part; \<open>on\<close> wins over \<open>off\<close>.\<close>

definition switched_off :: "bool \<Rightarrow> bool \<Rightarrow> bool option" where
  "switched_off on off = (if on then Some False else if off then Some True else None)"

text \<open>An empty list of preset sizes stands for the default ones.\<close>

definition or_default :: "PresetSize list \<Rightarrow> PresetSize list" where
  "or_default xs = (if xs = [] then default_presets else xs)"

definition border_decided :: "LayoutPart list \<Rightarrow> Border \<Rightarrow> Border \<Rightarrow> bool" where
  "border_decided ps b b' \<longleftrightarrow>
     b_off b' = innermost (\<lambda>p. Option.bind (lp_border p) (\<lambda>r. switched_off (br_on r) (br_off r))) ps (b_off b) \<and>
     b_width b' = innermost (\<lambda>p. Option.bind (lp_border p) br_width) ps (b_width b)"

definition tabs_decided :: "LayoutPart list \<Rightarrow> TabIndicatorConfig \<Rightarrow> TabIndicatorConfig \<Rightarrow> bool" where
  "tabs_decided ps t t' \<longleftrightarrow>
     (let tab = (\<lambda>p. lp_tab_indicator p)
      in tc_off t' = innermost (\<lambda>p. Option.bind (tab p) (\<lambda>r. switched_off (tp_on r) (tp_off r))) ps (tc_off t) \<and>
         tc_hide_when_single_tab t' =
           innermost (\<lambda>p. Option.bind (tab p) tp_hide_when_single_tab) ps (tc_hide_when_single_tab t) \<and>
         tc_place_within_column t' =
           innermost (\<lambda>p. Option.bind (tab p) tp_place_within_column) ps (tc_place_within_column t) \<and>
         tc_gap t' = innermost (\<lambda>p. Option.bind (tab p) tp_gap) ps (tc_gap t) \<and>
         tc_width t' = innermost (\<lambda>p. Option.bind (tab p) tp_width) ps (tc_width t) \<and>
         tc_position t' = innermost (\<lambda>p. Option.bind (tab p) tp_position) ps (tc_position t))"

definition presets_decided :: "LayoutPart list \<Rightarrow> LayoutConfig \<Rightarrow> LayoutConfig \<Rightarrow> bool" where
  "presets_decided ps c c' \<longleftrightarrow>
     lc_preset_column_widths c' =
       innermost (\<lambda>p. map_option or_default (lp_preset_column_widths p)) ps (lc_preset_column_widths c) \<and>
     lc_default_column_width c' = innermost lp_default_column_width ps (lc_default_column_width c) \<and>
     lc_preset_window_heights c' =
       innermost (\<lambda>p. map_option or_default (lp_preset_window_heights p)) ps (lc_preset_window_heights c)"

definition layout_decided :: "LayoutPart list \<Rightarrow> LayoutConfig \<Rightarrow> LayoutConfig \<Rightarrow> bool" where
  "layout_decided ps c c' \<longleftrightarrow>
     border_decided ps (lc_border c) (lc_border c') \<and> tabs_decided ps (lc_tab_indicator c) (lc_tab_indicator c') \<and>
     presets_decided ps c c' \<and>
     lc_center_focused_column c' = innermost lp_center_focused_column ps (lc_center_focused_column c) \<and>
     lc_always_center_single_column c' =
       innermost lp_always_center_single_column ps (lc_always_center_single_column c) \<and>
     lc_empty_workspace_above_first c' =
       innermost lp_empty_workspace_above_first ps (lc_empty_workspace_above_first c) \<and>
     lc_default_column_display c' = innermost lp_default_column_display ps (lc_default_column_display c) \<and>
     lc_gaps c' = innermost lp_gaps ps (lc_gaps c) \<and> lc_struts c' = innermost lp_struts ps (lc_struts c)"

lemmas decided_defs = border_decided_def tabs_decided_def presets_decided_def layout_decided_def Let_def

lemma layout_decided_step:
  assumes d: "layout_decided ps c c'"
    and ne: "lc_preset_column_widths c' \<noteq> []" "lc_preset_window_heights c' \<noteq> []"
  shows "layout_decided (ps @ [p]) c (layout_merge_with p c')"
proof -
  have "border_decided (ps @ [p]) (lc_border c) (lc_border (layout_merge_with p c'))"
    using d by (auto simp: decided_defs layout_merge_sel merge_part_def border_merge_with_def merge_field_def
        switched_off_def split: option.split)
  moreover have "tabs_decided (ps @ [p]) (lc_tab_indicator c) (lc_tab_indicator (layout_merge_with p c'))"
    using d by (auto simp: decided_defs layout_merge_sel merge_part_def tab_indicator_merge_with_def merge_field_def
        switched_off_def split: option.split)
  moreover have "presets_decided (ps @ [p]) c (layout_merge_with p c')"
    using d ne by (auto simp: decided_defs layout_merge_sel merge_field_def or_default_def split: option.split)
  ultimately show ?thesis
    using d by (simp add: layout_decided_def layout_merge_sel layout_merge_fields(3))
qed

text \<open>The parts from the outermost to the innermost.\<close>

definition merge_parts :: "LayoutPart list \<Rightarrow> Options \<Rightarrow> Options" where
  "merge_parts ps opts = fold (\<lambda>p. with_merged_layout (Some p)) ps opts"

lemma merge_parts_ok:
  assumes "options_ok opts" and "\<forall>p \<in> set ps. layout_part_ok p"
  shows "options_ok (merge_parts ps opts) \<and> layout_decided ps (op_layout opts) (op_layout (merge_parts ps opts)) \<and>
     op_animations (merge_parts ps opts) = op_animations opts \<and>
     op_dnd_edge_view_scroll (merge_parts ps opts) = op_dnd_edge_view_scroll opts"
  using assms(2)
proof (induction ps rule: rev_induct)
  case Nil
  then show ?case using assms(1) by (simp add: merge_parts_def decided_defs)
next
  case (snoc p ps)
  let ?o = "merge_parts ps opts"
  have eq: "merge_parts (ps @ [p]) opts = with_merged_layout (Some p) ?o" by (simp add: merge_parts_def)
  have ih: "options_ok ?o" "layout_decided ps (op_layout opts) (op_layout ?o)"
    "op_animations ?o = op_animations opts" "op_dnd_edge_view_scroll ?o = op_dnd_edge_view_scroll opts"
    using snoc by simp_all
  have "options_ok (with_merged_layout (Some p) ?o)" using merged_options_ok [OF ih(1), of "Some p"] snoc.prems by simp
  moreover have "layout_decided (ps @ [p]) (op_layout opts) (layout_merge_with p (op_layout ?o))"
    using ih(1) by (intro layout_decided_step [OF ih(2)]) (simp_all add: options_ok_def)
  ultimately show ?case using ih(3,4) by (simp add: eq with_merged_layout_def)
qed

end
