(* ===== verification/Config_Output.thy ===== *)
theory Config_Output
  imports Ipc_Types
begin

text \<open>
  The names of outputs (\<^verbatim>\<open>niri-config/src/output.rs\<close>): how an output is matched against the name in a
  configuration or a request, by connector or by manufacturer, model and serial. Strings are lists
  of bytes; a slice that would cut a character in two cannot be equal to a field, so that \<^verbatim>\<open>get\<close>
  failing there and the comparison failing are the same.
\<close>

record OutputName =
  on_connector :: string
  on_make :: "string option"
  on_model :: "string option"
  on_serial :: "string option"

definition or_unknown :: "string option \<Rightarrow> string" where
  "or_unknown s = (case s of None \<Rightarrow> ''Unknown'' | Some x \<Rightarrow> x)"

definition missing_mms :: "OutputName \<Rightarrow> bool" where
  "missing_mms n \<longleftrightarrow> on_make n = None \<and> on_model n = None \<and> on_serial n = None"

definition format_description :: "OutputName \<Rightarrow> string" where
  "format_description n =
     or_unknown (on_make n) @ '' - '' @ or_unknown (on_model n) @ '' - '' @ on_connector n"

definition format_make_model_serial :: "OutputName \<Rightarrow> string" where
  "format_make_model_serial n =
     or_unknown (on_make n) @ '' '' @ or_unknown (on_model n) @ '' '' @ or_unknown (on_serial n)"

definition format_make_model_serial_or_connector :: "OutputName \<Rightarrow> string" where
  "format_make_model_serial_or_connector n =
     (if missing_mms n then on_connector n else format_make_model_serial n)"

text \<open>
  The name of an output of the IPC protocol. Its inverse reading of \<^verbatim>\<open>Unknown\<close> is the one of
  \<^verbatim>\<open>from_ipc_output\<close>.
\<close>

definition unless_unknown :: "string \<Rightarrow> string option" where
  "unless_unknown s = (if s \<noteq> ''Unknown'' then Some s else None)"

definition from_ipc_output :: "string \<Rightarrow> string \<Rightarrow> string \<Rightarrow> string option \<Rightarrow> OutputName" where
  "from_ipc_output name mk md sr =
     \<lparr>on_connector = name, on_make = unless_unknown mk, on_model = unless_unknown md, on_serial = sr\<rparr>"

text \<open>
  One step of \<^verbatim>\<open>matches\<close>: the target has to go on with the field, and what remains is returned; then the
  separating space is taken off.
\<close>

definition take_field :: "string \<Rightarrow> string \<Rightarrow> string option" where
  "take_field field tgt =
     (if length tgt < length field then None
      else if eq_ignore_ascii_case (take (length field) tgt) field then Some (drop (length field) tgt)
      else None)"

definition take_space :: "string \<Rightarrow> string option" where
  "take_space tgt = (case tgt of c # rest \<Rightarrow> if c = CHR '' '' then Some rest else None | [] \<Rightarrow> None)"

definition output_matches :: "OutputName \<Rightarrow> string \<Rightarrow> bool" where
  "output_matches n tgt \<longleftrightarrow>
     (if eq_ignore_ascii_case tgt (on_connector n) then True
      else if missing_mms n then False
      else
        case (do { rest \<leftarrow> take_field (or_unknown (on_make n)) tgt;
                   rest \<leftarrow> take_space rest;
                   rest \<leftarrow> take_field (or_unknown (on_model n)) rest;
                   take_space rest }) of
          None \<Rightarrow> False
        | Some rest \<Rightarrow> eq_ignore_ascii_case rest (or_unknown (on_serial n)))"

text \<open>\<^verbatim>\<open>Outputs::find\<close>: the first entry of the configuration that matches.\<close>

definition outputs_find :: "OutputName \<Rightarrow> ('a \<Rightarrow> string) \<Rightarrow> 'a list \<Rightarrow> 'a option" where
  "outputs_find n name_of os = find (\<lambda>o'. output_matches n (name_of o')) os"

section \<open>Matching\<close>

lemma eq_ignore_refl [simp]: "eq_ignore_ascii_case s s"
  by (simp add: eq_ignore_ascii_case_def)

lemma eq_ignore_length: "eq_ignore_ascii_case s t \<Longrightarrow> length s = length t"
  unfolding eq_ignore_ascii_case_def by (drule map_eq_imp_length_eq) simp

lemma eq_ignore_append:
  "length a = length b \<Longrightarrow>
     eq_ignore_ascii_case (a @ s) (b @ t) \<longleftrightarrow> eq_ignore_ascii_case a b \<and> eq_ignore_ascii_case s t"
  by (simp add: eq_ignore_ascii_case_def)

lemma take_field_iff:
  "take_field f t = Some r \<longleftrightarrow> (\<exists>p. t = p @ r \<and> eq_ignore_ascii_case p f)"
proof
  assume "take_field f t = Some r"
  then have "t = take (length f) t @ r" "eq_ignore_ascii_case (take (length f) t) f"
    by (auto simp: take_field_def split: if_splits)
  then show "\<exists>p. t = p @ r \<and> eq_ignore_ascii_case p f" by blast
next
  assume "\<exists>p. t = p @ r \<and> eq_ignore_ascii_case p f"
  then show "take_field f t = Some r"
    using eq_ignore_length by (fastforce simp: take_field_def)
qed

lemma take_space_iff: "take_space t = Some r \<longleftrightarrow> t = CHR '' '' # r"
  by (cases t) (auto simp: take_space_def)

text \<open>
  A name matches exactly its connector and, when any of the three is known, its manufacturer, model
  and serial, up to ASCII case.
\<close>

lemma eq_ignore_append_iff:
  "eq_ignore_ascii_case t (a @ b) \<longleftrightarrow>
     (\<exists>p r. t = p @ r \<and> eq_ignore_ascii_case p a \<and> eq_ignore_ascii_case r b)"
  unfolding eq_ignore_ascii_case_def map_append map_eq_append_conv by metis

lemma eq_ignore_space:
  "eq_ignore_ascii_case t (CHR '' '' # b) \<longleftrightarrow> (\<exists>r. t = CHR '' '' # r \<and> eq_ignore_ascii_case r b)"
proof -
  have sp: "to_ascii_lowercase c = to_ascii_lowercase (CHR '' '') \<longleftrightarrow> c = CHR '' ''" for c
  proof -
    have "of_char (to_ascii_lowercase c) = (if 65 \<le> (of_char c :: nat) \<and> of_char c \<le> (90 :: nat) then of_char c + 32 else of_char c :: nat)"
      by (simp add: to_ascii_lowercase_def Let_def)
    moreover have "of_char (CHR '' '') = (32 :: nat)" "to_ascii_lowercase (CHR '' '') = CHR '' ''"
      by (simp_all add: to_ascii_lowercase_def Let_def)
    ultimately show ?thesis by (metis add_is_0 add_cancel_left_left not_numeral_le_zero of_char_eq_iff)
  qed
  show ?thesis using sp by (cases t) (auto simp: eq_ignore_ascii_case_def)
qed

lemma output_matches_iff:
  "output_matches n tgt \<longleftrightarrow> eq_ignore_ascii_case tgt (on_connector n) \<or>
     (\<not> missing_mms n \<and> eq_ignore_ascii_case tgt (format_make_model_serial n))"
proof -
  have "(case (do { rest \<leftarrow> take_field (or_unknown (on_make n)) tgt;
               rest \<leftarrow> take_space rest;
               rest \<leftarrow> take_field (or_unknown (on_model n)) rest;
               take_space rest }) of
          None \<Rightarrow> False | Some rest \<Rightarrow> eq_ignore_ascii_case rest (or_unknown (on_serial n))) \<longleftrightarrow>
      eq_ignore_ascii_case tgt (format_make_model_serial n)"
    (is "(case ?m of None \<Rightarrow> False | Some r \<Rightarrow> ?P r) \<longleftrightarrow> _")
  proof -
    have "(case ?m of None \<Rightarrow> False | Some r \<Rightarrow> ?P r) \<longleftrightarrow> (\<exists>r. ?m = Some r \<and> ?P r)"
      by (simp split: option.split)
    also have "\<dots> \<longleftrightarrow> eq_ignore_ascii_case tgt (format_make_model_serial n)"
      unfolding format_make_model_serial_def append_Cons append_Nil bind_eq_Some_conv take_field_iff take_space_iff
        eq_ignore_append_iff eq_ignore_space by blast
    finally show ?thesis .
  qed
  then show ?thesis by (simp add: output_matches_def)
qed

end
