(* ===== verification/Layout_Workspace.thy ===== *)
theory Layout_Workspace
  imports Layout_Scrolling_View Config_Layout Config_Output
begin

text \<open>
  A workspace (\<^verbatim>\<open>src/layout/workspace.rs\<close>): a scrolling and a floating layout, which of the two has the
  focus, and the output it is on. Windows move between the two layouts when they are made floating
  or tiled, and when floating windows become fullscreen or maximized.

  An output is a handle \<open>'o\<close> that is shared with the compositor: what it currently is comes from the
  record \<open>OutputEnv\<close>, the properties that \<^verbatim>\<open>smithay\<close> keeps. Messages to a window about the outputs it is
  on, the shadow and the background of the workspace, closing animations, unmap snapshots and
  rendering are left out. A function that panics is \<^term>\<open>None\<close>.
\<close>

section \<open>State\<close>

record OutputScale =
  sc_integer :: i32
  sc_fractional :: real

record 'o OutputEnv =
  out_name :: "'o \<Rightarrow> OutputName"
  out_scale :: "'o \<Rightarrow> OutputScale"
  out_transform :: "'o \<Rightarrow> Transform"
  out_size :: "'o \<Rightarrow> Size"
  out_working_area :: "'o \<Rightarrow> Rect"

datatype FloatingActive = FloatingNo | FloatingNoButRaised | FloatingYes

definition floating_active_get :: "FloatingActive \<Rightarrow> bool" where
  "floating_active_get a \<longleftrightarrow> a = FloatingYes"

datatype ActivateWindow = ActivateYes | ActivateSmart | ActivateNo

text \<open>The heuristic is only looked at if asked for.\<close>

definition map_smart :: "bool option \<Rightarrow> ActivateWindow \<Rightarrow> bool option" where
  "map_smart f a = (case a of ActivateYes \<Rightarrow> Some True | ActivateSmart \<Rightarrow> f | ActivateNo \<Rightarrow> Some False)"

datatype 'id WorkspaceAddWindowTarget = AddAuto | AddNewColumnAt nat | AddNextTo "'id"

record WorkspaceConfig =
  wcf_name :: string
  wcf_open_on_output :: "string option"
  wcf_layout :: "LayoutPart option"

record ('w, 'id, 'o) LayoutWorkspace =
  wk_scrolling :: "('w, 'id) Space"
  wk_floating :: "('w, 'id) FloatingSpace"
  wk_floating_is_active :: FloatingActive
  wk_original_output :: string
  wk_output :: "'o option"
  wk_scale :: OutputScale
  wk_transform :: Transform
  wk_view_size :: Size
  wk_working_area :: Rect
  wk_base_options :: Options
  wk_options :: Options
  wk_name :: "string option"
  wk_layout_config :: "LayoutPart option"
  wk_id :: nat

abbreviation wk_fractional_scale :: "('w, 'id, 'o) LayoutWorkspace \<Rightarrow> real" where
  "wk_fractional_scale w \<equiv> sc_fractional (wk_scale w)"

abbreviation floating_focused :: "('w, 'id, 'o) LayoutWorkspace \<Rightarrow> bool" where
  "floating_focused w \<equiv> floating_active_get (wk_floating_is_active w)"

section \<open>Construction and configuration\<close>

definition workspace_options :: "LayoutPart option \<Rightarrow> real \<Rightarrow> Options \<Rightarrow> Options" where
  "workspace_options part scale base = options_adjusted_for_scale scale (with_merged_layout part base)"

text \<open>What the two constructors share; \<open>i\<close> is the next workspace id.\<close>

definition workspace_on ::
    "('w, 'id) LayoutEnv \<Rightarrow> OutputScale \<Rightarrow> Transform \<Rightarrow> Size \<Rightarrow> Rect \<Rightarrow> 'o option \<Rightarrow> string \<Rightarrow>
     WorkspaceConfig option \<Rightarrow> Options \<Rightarrow> nat \<Rightarrow> ('w, 'id, 'o) LayoutWorkspace" where
  "workspace_on E scale transform view_size working_area output original config base i =
     (let layout_config = Option.bind config wcf_layout;
          opts = workspace_options layout_config (sc_fractional scale) base
      in \<lparr>wk_scrolling = space_new E view_size working_area (sc_fractional scale) opts,
          wk_floating = floating_new view_size working_area (sc_fractional scale) opts,
          wk_floating_is_active = FloatingNo, wk_original_output = original, wk_output = output,
          wk_scale = scale, wk_transform = transform, wk_view_size = view_size,
          wk_working_area = working_area, wk_base_options = base, wk_options = opts,
          wk_name = map_option wcf_name config, wk_layout_config = layout_config, wk_id = i\<rparr>)"

definition workspace_new_with_config ::
    "('w, 'id) LayoutEnv \<Rightarrow> 'o OutputEnv \<Rightarrow> 'o \<Rightarrow> WorkspaceConfig option \<Rightarrow> Options \<Rightarrow> nat \<Rightarrow>
     ('w, 'id, 'o) LayoutWorkspace" where
  "workspace_new_with_config E O' output config base i =
     workspace_on E (out_scale O' output) (out_transform O' output) (out_size O' output)
       (out_working_area O' output) (Some output)
       (case Option.bind config wcf_open_on_output of
          Some name \<Rightarrow> name | None \<Rightarrow> format_make_model_serial_or_connector (out_name O' output))
       config base i"

definition workspace_new ::
    "('w, 'id) LayoutEnv \<Rightarrow> 'o OutputEnv \<Rightarrow> 'o \<Rightarrow> Options \<Rightarrow> nat \<Rightarrow> ('w, 'id, 'o) LayoutWorkspace" where
  "workspace_new E O' output opts i = workspace_new_with_config E O' output None opts i"

definition workspace_new_with_config_no_outputs ::
    "('w, 'id) LayoutEnv \<Rightarrow> WorkspaceConfig option \<Rightarrow> Options \<Rightarrow> nat \<Rightarrow> ('w, 'id, 'o) LayoutWorkspace" where
  "workspace_new_with_config_no_outputs E config base i =
     workspace_on E \<lparr>sc_integer = 1, sc_fractional = 1\<rparr> TNormal \<lparr>sw = 1280, sh = 720\<rparr>
       \<lparr>r_loc = point_zero, r_size = \<lparr>sw = 1280, sh = 720\<rparr>\<rparr> None
       (case Option.bind config wcf_open_on_output of Some name \<Rightarrow> name | None \<Rightarrow> '''') config base i"

definition workspace_new_no_outputs ::
    "('w, 'id) LayoutEnv \<Rightarrow> Options \<Rightarrow> nat \<Rightarrow> ('w, 'id, 'o) LayoutWorkspace" where
  "workspace_new_no_outputs E opts i = workspace_new_with_config_no_outputs E None opts i"

definition workspace_unname :: "('w, 'id, 'o) LayoutWorkspace \<Rightarrow> ('w, 'id, 'o) LayoutWorkspace" where
  "workspace_unname w = w\<lparr>wk_name := None\<rparr>"

text \<open>Both layouts take the current size, area and scale of the workspace with new options.\<close>

definition reconfigure_spaces ::
    "('w, 'id) LayoutEnv \<Rightarrow> Options \<Rightarrow> ('w, 'id, 'o) LayoutWorkspace \<Rightarrow> ('w, 'id, 'o) LayoutWorkspace option" where
  "reconfigure_spaces E opts w =
     do { s \<leftarrow> space_update_config E (wk_view_size w) (wk_working_area w) (wk_fractional_scale w) opts (wk_scrolling w);
          let f = floating_update_config E (wk_view_size w) (wk_working_area w) (wk_fractional_scale w) opts (wk_floating w);
          Some (w\<lparr>wk_scrolling := s, wk_floating := f\<rparr>) }"

definition workspace_update_config ::
    "('w, 'id) LayoutEnv \<Rightarrow> Options \<Rightarrow> ('w, 'id, 'o) LayoutWorkspace \<Rightarrow> ('w, 'id, 'o) LayoutWorkspace option" where
  "workspace_update_config E base w =
     do { let opts = workspace_options (wk_layout_config w) (wk_fractional_scale w) base;
          w \<leftarrow> reconfigure_spaces E opts w;
          Some (w\<lparr>wk_base_options := base, wk_options := opts\<rparr>) }"

definition workspace_update_layout_config ::
    "('w, 'id) LayoutEnv \<Rightarrow> LayoutPart option \<Rightarrow> ('w, 'id, 'o) LayoutWorkspace \<Rightarrow>
     ('w, 'id, 'o) LayoutWorkspace option" where
  "workspace_update_layout_config E part w =
     (if wk_layout_config w = part then Some w
      else workspace_update_config E (wk_base_options w) (w\<lparr>wk_layout_config := part\<rparr>))"

definition set_view_size ::
    "('w, 'id) LayoutEnv \<Rightarrow> OutputScale \<Rightarrow> Transform \<Rightarrow> Size \<Rightarrow> Rect \<Rightarrow> ('w, 'id, 'o) LayoutWorkspace \<Rightarrow>
     ('w, 'id, 'o) LayoutWorkspace option" where
  "set_view_size E scale transform view_size working_area w =
     (let scale_transform_changed = (wk_transform w \<noteq> transform \<or> sc_integer (wk_scale w) \<noteq> sc_integer scale \<or>
            sc_fractional (wk_scale w) \<noteq> sc_fractional scale)
      in if \<not> scale_transform_changed \<and> wk_view_size w = view_size \<and> wk_working_area w = working_area
         then Some w
         else
           let fractional_scale_changed = (sc_fractional (wk_scale w) \<noteq> sc_fractional scale);
               w = w\<lparr>wk_scale := scale, wk_transform := transform, wk_view_size := view_size,
                      wk_working_area := working_area\<rparr>
           in if fractional_scale_changed then workspace_update_config E (wk_base_options w) w
              else reconfigure_spaces E (wk_options w) w)"

definition update_output_size ::
    "('w, 'id) LayoutEnv \<Rightarrow> 'o OutputEnv \<Rightarrow> ('w, 'id, 'o) LayoutWorkspace \<Rightarrow> ('w, 'id, 'o) LayoutWorkspace option" where
  "update_output_size E O' w =
     do { output \<leftarrow> wk_output w;
          set_view_size E (out_scale O' output) (out_transform O' output) (out_size O' output)
            (out_working_area O' output) w }"

definition set_output ::
    "('w, 'id) LayoutEnv \<Rightarrow> 'o OutputEnv \<Rightarrow> 'o option \<Rightarrow> ('w, 'id, 'o) LayoutWorkspace \<Rightarrow>
     ('w, 'id, 'o) LayoutWorkspace option" where
  "set_output E O' output w =
     (if wk_output w = output then Some w
      else
        let w = w\<lparr>wk_output := output\<rparr>
        in case output of
             None \<Rightarrow> Some w
           | Some o' \<Rightarrow>
               let w = (if output_matches (out_name O' o') (wk_original_output w)
                        then w\<lparr>wk_original_output := format_make_model_serial_or_connector (out_name O' o')\<rparr>
                        else w)
               in update_output_size E O' w)"

section \<open>Queries\<close>

definition has_floating :: "('w, 'id) LayoutEnv \<Rightarrow> 'id \<Rightarrow> ('w, 'id, 'o) LayoutWorkspace \<Rightarrow> bool" where
  "has_floating E i w \<longleftrightarrow> floating_has_window E i (wk_floating w)"

definition workspace_tiles :: "('w, 'id, 'o) LayoutWorkspace \<Rightarrow> 'w Tile list" where
  "workspace_tiles w = space_tiles (wk_scrolling w) @ fl_tiles (wk_floating w)"

definition workspace_has_window :: "('w, 'id) LayoutEnv \<Rightarrow> 'id \<Rightarrow> ('w, 'id, 'o) LayoutWorkspace \<Rightarrow> bool" where
  "workspace_has_window E i w \<longleftrightarrow> list_ex (\<lambda>t. el_id E (tl_window t) = i) (workspace_tiles w)"

definition has_windows :: "('w, 'id, 'o) LayoutWorkspace \<Rightarrow> bool" where
  "has_windows w \<longleftrightarrow> workspace_tiles w \<noteq> []"

definition has_windows_or_name :: "('w, 'id, 'o) LayoutWorkspace \<Rightarrow> bool" where
  "has_windows_or_name w \<longleftrightarrow> has_windows w \<or> wk_name w \<noteq> None"

definition workspace_active_window ::
    "('w, 'id) LayoutEnv \<Rightarrow> ('w, 'id, 'o) LayoutWorkspace \<Rightarrow> 'w option option" where
  "workspace_active_window E w =
     (if floating_focused w then Some (floating_active_window E (wk_floating w))
      else space_active_window (wk_scrolling w))"

definition is_active_pending_fullscreen :: "('w, 'id, 'o) LayoutWorkspace \<Rightarrow> bool option" where
  "is_active_pending_fullscreen w = space_is_active_pending_fullscreen (wk_scrolling w)"

definition workspace_are_animations_ongoing :: "('w, 'id) LayoutEnv \<Rightarrow> ('w, 'id, 'o) LayoutWorkspace \<Rightarrow> bool" where
  "workspace_are_animations_ongoing E w \<longleftrightarrow>
     space_are_animations_ongoing E (wk_scrolling w) \<or> floating_are_animations_ongoing E (wk_floating w)"

definition workspace_are_transitions_ongoing :: "('w, 'id) LayoutEnv \<Rightarrow> ('w, 'id, 'o) LayoutWorkspace \<Rightarrow> bool" where
  "workspace_are_transitions_ongoing E w \<longleftrightarrow>
     space_are_transitions_ongoing E (wk_scrolling w) \<or> floating_are_transitions_ongoing E (wk_floating w)"

text \<open>While a fullscreen window of the scrolling layout has the focus, floating windows are hidden.\<close>

definition is_floating_visible :: "('w, 'id, 'o) LayoutWorkspace \<Rightarrow> bool option" where
  "is_floating_visible w =
     (if wk_floating_is_active w \<in> {FloatingYes, FloatingNoButRaised} then Some True
      else map_option Not (render_above_top_layer (wk_scrolling w)))"

definition workspace_tiles_with_render_positions ::
    "('w, 'id) LayoutEnv \<Rightarrow> ('w, 'id, 'o) LayoutWorkspace \<Rightarrow> ('w Tile \<times> Point \<times> bool) list option" where
  "workspace_tiles_with_render_positions E w =
     do { scrolling \<leftarrow> space_tiles_with_render_positions E (wk_scrolling w);
          visible \<leftarrow> is_floating_visible w;
          Some (map (\<lambda>(t, pos). (t, pos, visible)) (floating_tiles_with_render_positions E (wk_floating w)) @
                scrolling) }"

text \<open>The tiles of the floating layout with their indices and positions, rounded if asked for.\<close>

definition floating_tiles_with_render_positions_mut ::
    "('w, 'id) LayoutEnv \<Rightarrow> bool \<Rightarrow> ('w, 'id) FloatingSpace \<Rightarrow> (nat \<times> 'w Tile \<times> Point) list" where
  "floating_tiles_with_render_positions_mut E rnd s =
     map (\<lambda>(i, t, offset). let pos = point_add offset (tile_render_offset E t)
            in (i, t, if rnd then round_point E (fl_scale s) pos else pos))
       (enumerate 0 (tiles_with_offsets s))"

definition workspace_tiles_with_ipc_layouts ::
    "('w, 'id) LayoutEnv \<Rightarrow> ('w, 'id, 'o) LayoutWorkspace \<Rightarrow> ('w Tile \<times> WindowLayout) list" where
  "workspace_tiles_with_ipc_layouts E w =
     floating_tiles_with_ipc_layouts E (wk_floating w) @ space_tiles_with_ipc_layouts E (wk_scrolling w)"

definition workspace_active_window_visual_rectangle ::
    "('w, 'id) LayoutEnv \<Rightarrow> (Rect \<Rightarrow> Rect \<Rightarrow> Rect option) \<Rightarrow> ('w, 'id, 'o) LayoutWorkspace \<Rightarrow> Rect option option" where
  "workspace_active_window_visual_rectangle E isect w =
     (if floating_focused w then Some (active_window_visual_rectangle E isect (wk_floating w))
      else space_active_window_visual_rectangle E isect (wk_scrolling w))"

definition workspace_popup_target_rect ::
    "('w, 'id) LayoutEnv \<Rightarrow> 'id \<Rightarrow> ('w, 'id, 'o) LayoutWorkspace \<Rightarrow> Rect option" where
  "workspace_popup_target_rect E i w =
     (if has_floating E i w then floating_popup_target_rect E i (wk_floating w)
      else space_popup_target_rect E i (wk_scrolling w))"

definition workspace_scroll_amount_to_activate ::
    "('w, 'id) LayoutEnv \<Rightarrow> 'id \<Rightarrow> ('w, 'id, 'o) LayoutWorkspace \<Rightarrow> real option" where
  "workspace_scroll_amount_to_activate E i w =
     (if has_floating E i w then Some 0 else scroll_amount_to_activate E i (wk_scrolling w))"

section \<open>Sizes of new windows\<close>

definition resolve_default_width ::
    "PresetSize option option \<Rightarrow> bool \<Rightarrow> ('w, 'id, 'o) LayoutWorkspace \<Rightarrow> PresetSize option" where
  "resolve_default_width default_width as_floating w =
     (case default_width of
        Some d \<Rightarrow> d
      | None \<Rightarrow> if as_floating then None else lc_default_column_width (op_layout (wk_options w)))"

definition resolve_default_height :: "PresetSize option option \<Rightarrow> PresetSize option" where
  "resolve_default_height default_height = (case default_height of Some d \<Rightarrow> d | None \<Rightarrow> None)"

definition apply_min_size :: "WindowRules \<Rightarrow> ISize \<Rightarrow> ISize" where
  "apply_min_size rules s =
     (let s = (case wr_min_width rules of None \<Rightarrow> s | Some x \<Rightarrow> s\<lparr>iw := max (iw s) (uint x)\<rparr>)
      in case wr_min_height rules of None \<Rightarrow> s | Some x \<Rightarrow> s\<lparr>ih := max (ih s) (uint x)\<rparr>)"

definition apply_max_dimension :: "u16 option \<Rightarrow> i32 \<Rightarrow> i32" where
  "apply_max_dimension rule x =
     (case rule of None \<Rightarrow> x
      | Some m \<Rightarrow> if x = 0 then uint m else if 0 < m then min x (uint m) else x)"

definition apply_max_size :: "WindowRules \<Rightarrow> ISize \<Rightarrow> ISize" where
  "apply_max_size rules s =
     \<lparr>iw = apply_max_dimension (wr_max_width rules) (iw s), ih = apply_max_dimension (wr_max_height rules) (ih s)\<rparr>"

definition apply_min_max_size :: "WindowRules \<Rightarrow> ISize \<Rightarrow> ISize \<Rightarrow> ISize \<times> ISize" where
  "apply_min_max_size rules min_size max_size = (apply_min_size rules min_size, apply_max_size rules max_size)"

definition workspace_new_window_size ::
    "PresetSize option \<Rightarrow> PresetSize option \<Rightarrow> bool \<Rightarrow> WindowRules \<Rightarrow> ISize \<times> ISize \<Rightarrow>
     ('w, 'id, 'o) LayoutWorkspace \<Rightarrow> ISize" where
  "workspace_new_window_size width height as_floating rules limits w =
     (let s = (if as_floating then floating_new_window_size width height rules (wk_floating w)
               else space_new_window_size width height rules (wk_scrolling w));
          (min_size, max_size) = apply_min_max_size rules (fst limits) (snd limits);
          s = s\<lparr>iw := ensure_min_max_size_maybe_zero (iw s) (iw min_size) (iw max_size)\<rparr>
      in if ih min_size = ih max_size then s\<lparr>ih := ensure_min_max_size (ih s) (ih min_size) (ih max_size)\<rparr>
         else if 0 < ih s then s\<lparr>ih := max (ih s) (ih min_size)\<rparr>
         else s)"

definition resolve_scrolling_width ::
    "('w, 'id) LayoutEnv \<Rightarrow> 'w \<Rightarrow> PresetSize option \<Rightarrow> ('w, 'id, 'o) LayoutWorkspace \<Rightarrow> ColumnWidth" where
  "resolve_scrolling_width E window width w =
     (case (case width of Some p \<Rightarrow> p | None \<Rightarrow> PresetFixed (iw (el_size E window))) of
        PresetFixed fixed \<Rightarrow>
          let border = border_merge_with (wr_border (el_rules E window)) (lc_border (op_layout (wk_options w)))
          in Fixed (if b_off border then of_int fixed else of_int fixed + b_width border * 2)
      | PresetProportion prop \<Rightarrow> Proportion prop)"

definition make_tile :: "('w, 'id) LayoutEnv \<Rightarrow> 'w \<Rightarrow> ('w, 'id, 'o) LayoutWorkspace \<Rightarrow> 'w Tile" where
  "make_tile E window w = tile_new E window (wk_view_size w) (wk_fractional_scale w) (wk_options w)"

section \<open>Acting on one of the layouts\<close>

definition on_scrolling ::
    "(('w, 'id) Space \<Rightarrow> ('w, 'id) Space option) \<Rightarrow> ('w, 'id, 'o) LayoutWorkspace \<Rightarrow>
     ('w, 'id, 'o) LayoutWorkspace option" where
  "on_scrolling f w = map_option (\<lambda>s. w\<lparr>wk_scrolling := s\<rparr>) (f (wk_scrolling w))"

definition on_floating ::
    "(('w, 'id) FloatingSpace \<Rightarrow> ('w, 'id) FloatingSpace option) \<Rightarrow> ('w, 'id, 'o) LayoutWorkspace \<Rightarrow>
     ('w, 'id, 'o) LayoutWorkspace option" where
  "on_floating f w = map_option (\<lambda>s. w\<lparr>wk_floating := s\<rparr>) (f (wk_floating w))"

definition on_scrolling_ret ::
    "(('w, 'id) Space \<Rightarrow> ('a \<times> ('w, 'id) Space) option) \<Rightarrow> ('w, 'id, 'o) LayoutWorkspace \<Rightarrow>
     ('a \<times> ('w, 'id, 'o) LayoutWorkspace) option" where
  "on_scrolling_ret f w = map_option (\<lambda>(r, s). (r, w\<lparr>wk_scrolling := s\<rparr>)) (f (wk_scrolling w))"

definition on_floating_ret ::
    "(('w, 'id) FloatingSpace \<Rightarrow> ('a \<times> ('w, 'id) FloatingSpace) option) \<Rightarrow> ('w, 'id, 'o) LayoutWorkspace \<Rightarrow>
     ('a \<times> ('w, 'id, 'o) LayoutWorkspace) option" where
  "on_floating_ret f w = map_option (\<lambda>(r, s). (r, w\<lparr>wk_floating := s\<rparr>)) (f (wk_floating w))"

text \<open>The layout that has the focus; or the layout of the window that is named.\<close>

definition is_on_floating :: "('w, 'id) LayoutEnv \<Rightarrow> 'id option \<Rightarrow> ('w, 'id, 'o) LayoutWorkspace \<Rightarrow> bool" where
  "is_on_floating E window w =
     (case window of None \<Rightarrow> floating_focused w | Some i \<Rightarrow> has_floating E i w)"

definition activated :: "bool \<Rightarrow> FloatingActive \<Rightarrow> ('w, 'id, 'o) LayoutWorkspace \<Rightarrow> ('w, 'id, 'o) LayoutWorkspace" where
  "activated activate a w = (if activate then w\<lparr>wk_floating_is_active := a\<rparr> else w)"

definition workspace_advance_animations ::
    "('w, 'id) LayoutEnv \<Rightarrow> ('w, 'id, 'o) LayoutWorkspace \<Rightarrow> ('w, 'id, 'o) LayoutWorkspace" where
  "workspace_advance_animations E w =
     w\<lparr>wk_scrolling := space_advance_animations E (wk_scrolling w),
       wk_floating := floating_advance_animations E (wk_floating w)\<rparr>"

section \<open>Adding\<close>

definition floating_is_empty :: "('w, 'id) FloatingSpace \<Rightarrow> bool" where
  "floating_is_empty s \<longleftrightarrow> fl_tiles s = []"

definition space_is_empty :: "('w, 'id) Space \<Rightarrow> bool" where
  "space_is_empty s \<longleftrightarrow> sp_columns s = []"

text \<open>A tile that becomes floating next to a tiled window, centered over it.\<close>

definition place_over ::
    "('w, 'id) LayoutEnv \<Rightarrow> 'id \<Rightarrow> 'w Tile \<Rightarrow> ('w, 'id, 'o) LayoutWorkspace \<Rightarrow> 'w Tile option" where
  "place_over E next_to tile w =
     do { tiles \<leftarrow> space_tiles_with_render_positions E (wk_scrolling w);
          (next_to_tile, render_pos, _) \<leftarrow> List.find (\<lambda>(t, _, _). el_id E (tl_window t) = next_to) tiles;
          let tile_sz = tile_size E tile;
          let next_sz = tile_size E next_to_tile;
          let pos = point_add render_pos
                      \<lparr>px = (sw next_sz - sw tile_sz) / 2, py = (sh next_sz - sh tile_sz) / 2\<rparr>;
          let pos = clamp_within_working_area pos tile_sz (wk_floating w);
          Some (tile\<lparr>tl_floating_pos := Some (logical_to_size_frac pos (wk_floating w))\<rparr>) }"

definition workspace_add_tile ::
    "('w, 'id) LayoutEnv \<Rightarrow> 'w Tile \<Rightarrow> 'id WorkspaceAddWindowTarget \<Rightarrow> ActivateWindow \<Rightarrow> ColumnWidth \<Rightarrow> bool \<Rightarrow>
     bool \<Rightarrow> ('w, 'id, 'o) LayoutWorkspace \<Rightarrow> ('w, 'id, 'o) LayoutWorkspace option" where
  "workspace_add_tile E tile tgt activate width is_full_width as_floating w =
     (let tile = tile\<lparr>tl_restore_to_floating := as_floating\<rparr>;
          floats = (as_floating \<and> is_normal (el_pending_sizing_mode E (tl_window tile)))
      in case tgt of
           AddAuto \<Rightarrow>
             do { activate \<leftarrow> map_smart (map_option Not (is_active_pending_fullscreen w)) activate;
                  if floats
                  then do { w \<leftarrow> on_floating (floating_add_tile E tile activate) w;
                            Some (activated (activate \<or> space_is_empty (wk_scrolling w)) FloatingYes w) }
                  else do { w \<leftarrow> on_scrolling (add_tile E None tile activate width is_full_width None) w;
                            Some (activated activate FloatingNo w) } }
         | AddNewColumnAt col_idx \<Rightarrow>
             do { activate \<leftarrow> map_smart (Some False) activate;
                  w \<leftarrow> on_scrolling (add_tile E (Some col_idx) tile activate width is_full_width None) w;
                  Some (activated activate FloatingNo w) }
         | AddNextTo next_to \<Rightarrow>
             do { activate \<leftarrow> map_smart
                    (do { a \<leftarrow> workspace_active_window E w; win \<leftarrow> a; Some (el_id E win = next_to) }) activate;
                  let floating_has_window = has_floating E next_to w;
                  if floats
                  then do {
                    w \<leftarrow> (if floating_has_window
                          then on_floating (floating_add_tile_above E next_to tile activate) w
                          else do { tile \<leftarrow> place_over E next_to tile w;
                                    on_floating (floating_add_tile E tile activate) w });
                    Some (activated (activate \<or> space_is_empty (wk_scrolling w)) FloatingYes w) }
                  else if floating_has_window
                  then do { w \<leftarrow> on_scrolling (add_tile E None tile activate width is_full_width None) w;
                            Some (activated activate FloatingNo w) }
                  else do { w \<leftarrow> on_scrolling (add_tile_right_of E next_to tile activate width is_full_width) w;
                            Some (activated activate FloatingNo w) } })"

definition workspace_add_tile_to_column ::
    "('w, 'id) LayoutEnv \<Rightarrow> nat \<Rightarrow> nat option \<Rightarrow> 'w Tile \<Rightarrow> bool \<Rightarrow> ('w, 'id, 'o) LayoutWorkspace \<Rightarrow>
     ('w, 'id, 'o) LayoutWorkspace option" where
  "workspace_add_tile_to_column E col_idx tile_idx tile activate w =
     map_option (activated activate FloatingNo)
       (on_scrolling (add_tile_to_column E col_idx tile_idx tile activate) w)"

definition workspace_add_column ::
    "('w, 'id) LayoutEnv \<Rightarrow> 'w Column \<Rightarrow> bool \<Rightarrow> ('w, 'id, 'o) LayoutWorkspace \<Rightarrow>
     ('w, 'id, 'o) LayoutWorkspace option" where
  "workspace_add_column E column activate w =
     map_option (activated activate FloatingNo) (on_scrolling (add_column E None column activate None) w)"

section \<open>Removing\<close>

definition update_focus_floating_tiling_after_removing ::
    "bool \<Rightarrow> ('w, 'id, 'o) LayoutWorkspace \<Rightarrow> ('w, 'id, 'o) LayoutWorkspace" where
  "update_focus_floating_tiling_after_removing removed_from_floating w =
     (if removed_from_floating
      then if floating_is_empty (wk_floating w) then w\<lparr>wk_floating_is_active := FloatingNo\<rparr> else w
      else if space_is_empty (wk_scrolling w) \<and> \<not> floating_is_empty (wk_floating w)
           then w\<lparr>wk_floating_is_active := FloatingYes\<rparr> else w)"

definition workspace_remove_tile ::
    "('w, 'id) LayoutEnv \<Rightarrow> 'id \<Rightarrow> ('w, 'id, 'o) LayoutWorkspace \<Rightarrow>
     ('w RemovedTile \<times> ('w, 'id, 'o) LayoutWorkspace) option" where
  "workspace_remove_tile E i w =
     do { let from_floating = has_floating E i w;
          (removed, w) \<leftarrow> (if from_floating then on_floating_ret (floating_remove_tile E i) w
                          else on_scrolling_ret (remove_tile E i) w);
          Some (removed, update_focus_floating_tiling_after_removing from_floating w) }"

definition workspace_remove_active_tile ::
    "('w, 'id) LayoutEnv \<Rightarrow> ('w, 'id, 'o) LayoutWorkspace \<Rightarrow>
     ('w RemovedTile option \<times> ('w, 'id, 'o) LayoutWorkspace) option" where
  "workspace_remove_active_tile E w =
     do { let from_floating = floating_focused w;
          (removed, w) \<leftarrow> (if from_floating then on_floating_ret (floating_remove_active_tile E) w
                          else on_scrolling_ret (remove_active_tile E) w);
          Some (removed, if removed = None then w
                         else update_focus_floating_tiling_after_removing from_floating w) }"

definition workspace_remove_active_column ::
    "('w, 'id) LayoutEnv \<Rightarrow> ('w, 'id, 'o) LayoutWorkspace \<Rightarrow>
     ('w Column option \<times> ('w, 'id, 'o) LayoutWorkspace) option" where
  "workspace_remove_active_column E w =
     (if floating_focused w then Some (None, w)
      else do { (column, w) \<leftarrow> on_scrolling_ret (remove_active_column E) w;
                Some (column, if column = None then w
                              else update_focus_floating_tiling_after_removing False w) })"

section \<open>Actions of the focused layout\<close>

definition by_focus ::
    "(('w, 'id) FloatingSpace \<Rightarrow> ('w, 'id) FloatingSpace option) \<Rightarrow> (('w, 'id) Space \<Rightarrow> ('w, 'id) Space option) \<Rightarrow>
     ('w, 'id, 'o) LayoutWorkspace \<Rightarrow> ('w, 'id, 'o) LayoutWorkspace option" where
  "by_focus f g w = (if floating_focused w then on_floating f w else on_scrolling g w)"

definition by_focus_ret ::
    "(('w, 'id) FloatingSpace \<Rightarrow> ('a \<times> ('w, 'id) FloatingSpace) option) \<Rightarrow>
     (('w, 'id) Space \<Rightarrow> ('a \<times> ('w, 'id) Space) option) \<Rightarrow>
     ('w, 'id, 'o) LayoutWorkspace \<Rightarrow> ('a \<times> ('w, 'id, 'o) LayoutWorkspace) option" where
  "by_focus_ret f g w = (if floating_focused w then on_floating_ret f w else on_scrolling_ret g w)"

definition by_window ::
    "('w, 'id) LayoutEnv \<Rightarrow> 'id option \<Rightarrow> (('w, 'id) FloatingSpace \<Rightarrow> ('w, 'id) FloatingSpace option) \<Rightarrow>
     (('w, 'id) Space \<Rightarrow> ('w, 'id) Space option) \<Rightarrow>
     ('w, 'id, 'o) LayoutWorkspace \<Rightarrow> ('w, 'id, 'o) LayoutWorkspace option" where
  "by_window E window f g w = (if is_on_floating E window w then on_floating f w else on_scrolling g w)"

definition workspace_focus_left ::
    "('w, 'id) LayoutEnv \<Rightarrow> ('w, 'id, 'o) LayoutWorkspace \<Rightarrow> (bool \<times> ('w, 'id, 'o) LayoutWorkspace) option" where
  "workspace_focus_left E = by_focus_ret (floating_focus_left E) (focus_left E)"

definition workspace_focus_right ::
    "('w, 'id) LayoutEnv \<Rightarrow> ('w, 'id, 'o) LayoutWorkspace \<Rightarrow> (bool \<times> ('w, 'id, 'o) LayoutWorkspace) option" where
  "workspace_focus_right E = by_focus_ret (floating_focus_right E) (focus_right E)"

definition workspace_focus_column_first ::
    "('w, 'id) LayoutEnv \<Rightarrow> ('w, 'id, 'o) LayoutWorkspace \<Rightarrow> ('w, 'id, 'o) LayoutWorkspace option" where
  "workspace_focus_column_first E = by_focus (focus_leftmost E) (focus_column_first E)"

definition workspace_focus_column_last ::
    "('w, 'id) LayoutEnv \<Rightarrow> ('w, 'id, 'o) LayoutWorkspace \<Rightarrow> ('w, 'id, 'o) LayoutWorkspace option" where
  "workspace_focus_column_last E = by_focus (focus_rightmost E) (focus_column_last E)"

definition or_else ::
    "('s \<Rightarrow> (bool \<times> 's) option) \<Rightarrow> ('s \<Rightarrow> 's option) \<Rightarrow> 's \<Rightarrow> 's option" where
  "or_else f g w = do { (b, w) \<leftarrow> f w; if b then Some w else g w }"

definition focus_column_right_or_first ::
    "('w, 'id) LayoutEnv \<Rightarrow> ('w, 'id, 'o) LayoutWorkspace \<Rightarrow> ('w, 'id, 'o) LayoutWorkspace option" where
  "focus_column_right_or_first E = or_else (workspace_focus_right E) (workspace_focus_column_first E)"

definition focus_column_left_or_last ::
    "('w, 'id) LayoutEnv \<Rightarrow> ('w, 'id, 'o) LayoutWorkspace \<Rightarrow> ('w, 'id, 'o) LayoutWorkspace option" where
  "focus_column_left_or_last E = or_else (workspace_focus_left E) (workspace_focus_column_last E)"

definition switch_focus_floating_tiling :: "('w, 'id, 'o) LayoutWorkspace \<Rightarrow> ('w, 'id, 'o) LayoutWorkspace" where
  "switch_focus_floating_tiling w =
     (if floating_is_empty (wk_floating w) then w
      else if space_is_empty (wk_scrolling w) then w
      else w\<lparr>wk_floating_is_active := (if floating_focused w then FloatingNo else FloatingYes)\<rparr>)"

definition focus_floating :: "('w, 'id, 'o) LayoutWorkspace \<Rightarrow> ('w, 'id, 'o) LayoutWorkspace" where
  "focus_floating w = (if floating_focused w then w else switch_focus_floating_tiling w)"

definition focus_tiling :: "('w, 'id, 'o) LayoutWorkspace \<Rightarrow> ('w, 'id, 'o) LayoutWorkspace" where
  "focus_tiling w = (if floating_focused w then switch_focus_floating_tiling w else w)"

definition workspace_focus_column ::
    "('w, 'id) LayoutEnv \<Rightarrow> nat \<Rightarrow> ('w, 'id, 'o) LayoutWorkspace \<Rightarrow> ('w, 'id, 'o) LayoutWorkspace option" where
  "workspace_focus_column E index w = on_scrolling (focus_column E index) (focus_tiling w)"

text \<open>What is only for tiled windows.\<close>

definition unless_floating ::
    "(('w, 'id) Space \<Rightarrow> ('w, 'id) Space option) \<Rightarrow> ('w, 'id, 'o) LayoutWorkspace \<Rightarrow>
     ('w, 'id, 'o) LayoutWorkspace option" where
  "unless_floating f w = (if floating_focused w then Some w else on_scrolling f w)"

definition unless_on_floating ::
    "('w, 'id) LayoutEnv \<Rightarrow> 'id option \<Rightarrow> (('w, 'id) Space \<Rightarrow> ('w, 'id) Space option) \<Rightarrow>
     ('w, 'id, 'o) LayoutWorkspace \<Rightarrow> ('w, 'id, 'o) LayoutWorkspace option" where
  "unless_on_floating E window f w = (if is_on_floating E window w then Some w else on_scrolling f w)"

definition workspace_focus_window_in_column ::
    "u8 \<Rightarrow> ('w, 'id, 'o) LayoutWorkspace \<Rightarrow> ('w, 'id, 'o) LayoutWorkspace option" where
  "workspace_focus_window_in_column index = unless_floating (focus_window_in_column index)"

definition workspace_focus_down ::
    "('w, 'id) LayoutEnv \<Rightarrow> ('w, 'id, 'o) LayoutWorkspace \<Rightarrow> (bool \<times> ('w, 'id, 'o) LayoutWorkspace) option" where
  "workspace_focus_down E = by_focus_ret (floating_focus_down E) focus_down"

definition workspace_focus_up ::
    "('w, 'id) LayoutEnv \<Rightarrow> ('w, 'id, 'o) LayoutWorkspace \<Rightarrow> (bool \<times> ('w, 'id, 'o) LayoutWorkspace) option" where
  "workspace_focus_up E = by_focus_ret (floating_focus_up E) focus_up"

definition no_answer :: "('s \<Rightarrow> ('a \<times> 's) option) \<Rightarrow> 's \<Rightarrow> 's option" where
  "no_answer f s = map_option snd (f s)"

definition workspace_focus_down_or_left ::
    "('w, 'id) LayoutEnv \<Rightarrow> ('w, 'id, 'o) LayoutWorkspace \<Rightarrow> ('w, 'id, 'o) LayoutWorkspace option" where
  "workspace_focus_down_or_left E = by_focus (no_answer (floating_focus_down E)) (focus_down_or_left E)"

definition workspace_focus_down_or_right ::
    "('w, 'id) LayoutEnv \<Rightarrow> ('w, 'id, 'o) LayoutWorkspace \<Rightarrow> ('w, 'id, 'o) LayoutWorkspace option" where
  "workspace_focus_down_or_right E = by_focus (no_answer (floating_focus_down E)) (focus_down_or_right E)"

definition workspace_focus_up_or_left ::
    "('w, 'id) LayoutEnv \<Rightarrow> ('w, 'id, 'o) LayoutWorkspace \<Rightarrow> ('w, 'id, 'o) LayoutWorkspace option" where
  "workspace_focus_up_or_left E = by_focus (no_answer (floating_focus_up E)) (focus_up_or_left E)"

definition workspace_focus_up_or_right ::
    "('w, 'id) LayoutEnv \<Rightarrow> ('w, 'id, 'o) LayoutWorkspace \<Rightarrow> ('w, 'id, 'o) LayoutWorkspace option" where
  "workspace_focus_up_or_right E = by_focus (no_answer (floating_focus_up E)) (focus_up_or_right E)"

definition focus_window_top ::
    "('w, 'id) LayoutEnv \<Rightarrow> ('w, 'id, 'o) LayoutWorkspace \<Rightarrow> ('w, 'id, 'o) LayoutWorkspace option" where
  "focus_window_top E = by_focus (focus_topmost E) focus_top"

definition focus_window_bottom ::
    "('w, 'id) LayoutEnv \<Rightarrow> ('w, 'id, 'o) LayoutWorkspace \<Rightarrow> ('w, 'id, 'o) LayoutWorkspace option" where
  "focus_window_bottom E = by_focus (focus_bottommost E) focus_bottom"

definition focus_window_down_or_top ::
    "('w, 'id) LayoutEnv \<Rightarrow> ('w, 'id, 'o) LayoutWorkspace \<Rightarrow> ('w, 'id, 'o) LayoutWorkspace option" where
  "focus_window_down_or_top E = or_else (workspace_focus_down E) (focus_window_top E)"

definition focus_window_up_or_bottom ::
    "('w, 'id) LayoutEnv \<Rightarrow> ('w, 'id, 'o) LayoutWorkspace \<Rightarrow> ('w, 'id, 'o) LayoutWorkspace option" where
  "focus_window_up_or_bottom E = or_else (workspace_focus_up E) (focus_window_bottom E)"

text \<open>Moving a floating window always succeeds.\<close>

definition always_true :: "('s \<Rightarrow> 's option) \<Rightarrow> 's \<Rightarrow> (bool \<times> 's) option" where
  "always_true f s = map_option (Pair True) (f s)"

definition workspace_move_left ::
    "('w, 'id) LayoutEnv \<Rightarrow> ('w, 'id, 'o) LayoutWorkspace \<Rightarrow> (bool \<times> ('w, 'id, 'o) LayoutWorkspace) option" where
  "workspace_move_left E = by_focus_ret (always_true (floating_move_left E)) (move_left E)"

definition workspace_move_right ::
    "('w, 'id) LayoutEnv \<Rightarrow> ('w, 'id, 'o) LayoutWorkspace \<Rightarrow> (bool \<times> ('w, 'id, 'o) LayoutWorkspace) option" where
  "workspace_move_right E = by_focus_ret (always_true (floating_move_right E)) (move_right E)"

definition workspace_move_down ::
    "('w, 'id) LayoutEnv \<Rightarrow> ('w, 'id, 'o) LayoutWorkspace \<Rightarrow> (bool \<times> ('w, 'id, 'o) LayoutWorkspace) option" where
  "workspace_move_down E = by_focus_ret (always_true (floating_move_down E)) (move_down E)"

definition workspace_move_up ::
    "('w, 'id) LayoutEnv \<Rightarrow> ('w, 'id, 'o) LayoutWorkspace \<Rightarrow> (bool \<times> ('w, 'id, 'o) LayoutWorkspace) option" where
  "workspace_move_up E = by_focus_ret (always_true (floating_move_up E)) (move_up E)"

definition workspace_move_column_to_first ::
    "('w, 'id) LayoutEnv \<Rightarrow> ('w, 'id, 'o) LayoutWorkspace \<Rightarrow> ('w, 'id, 'o) LayoutWorkspace option" where
  "workspace_move_column_to_first E = unless_floating (move_column_to_first E)"

definition workspace_move_column_to_last ::
    "('w, 'id) LayoutEnv \<Rightarrow> ('w, 'id, 'o) LayoutWorkspace \<Rightarrow> ('w, 'id, 'o) LayoutWorkspace option" where
  "workspace_move_column_to_last E = unless_floating (move_column_to_last E)"

definition workspace_move_column_to_index ::
    "('w, 'id) LayoutEnv \<Rightarrow> nat \<Rightarrow> ('w, 'id, 'o) LayoutWorkspace \<Rightarrow> ('w, 'id, 'o) LayoutWorkspace option" where
  "workspace_move_column_to_index E index = unless_floating (move_column_to_index E index)"

definition workspace_consume_or_expel_window_left ::
    "('w, 'id) LayoutEnv \<Rightarrow> 'id option \<Rightarrow> ('w, 'id, 'o) LayoutWorkspace \<Rightarrow> ('w, 'id, 'o) LayoutWorkspace option" where
  "workspace_consume_or_expel_window_left E window =
     unless_on_floating E window (consume_or_expel_window_left E window)"

definition workspace_consume_or_expel_window_right ::
    "('w, 'id) LayoutEnv \<Rightarrow> 'id option \<Rightarrow> ('w, 'id, 'o) LayoutWorkspace \<Rightarrow> ('w, 'id, 'o) LayoutWorkspace option" where
  "workspace_consume_or_expel_window_right E window =
     unless_on_floating E window (consume_or_expel_window_right E window)"

definition workspace_consume_into_column ::
    "('w, 'id) LayoutEnv \<Rightarrow> ('w, 'id, 'o) LayoutWorkspace \<Rightarrow> ('w, 'id, 'o) LayoutWorkspace option" where
  "workspace_consume_into_column E = unless_floating (consume_into_column E)"

definition workspace_expel_from_column ::
    "('w, 'id) LayoutEnv \<Rightarrow> ('w, 'id, 'o) LayoutWorkspace \<Rightarrow> ('w, 'id, 'o) LayoutWorkspace option" where
  "workspace_expel_from_column E = unless_floating (expel_from_column E)"

definition workspace_swap_window_in_direction ::
    "('w, 'id) LayoutEnv \<Rightarrow> ScrollDirection \<Rightarrow> ('w, 'id, 'o) LayoutWorkspace \<Rightarrow>
     ('w, 'id, 'o) LayoutWorkspace option" where
  "workspace_swap_window_in_direction E direction = unless_floating (swap_window_in_direction E direction)"

definition workspace_toggle_column_tabbed_display ::
    "('w, 'id) LayoutEnv \<Rightarrow> ('w, 'id, 'o) LayoutWorkspace \<Rightarrow> ('w, 'id, 'o) LayoutWorkspace option" where
  "workspace_toggle_column_tabbed_display E = unless_floating (toggle_column_tabbed_display E)"

definition workspace_set_column_display ::
    "('w, 'id) LayoutEnv \<Rightarrow> ColumnDisplay \<Rightarrow> ('w, 'id, 'o) LayoutWorkspace \<Rightarrow>
     ('w, 'id, 'o) LayoutWorkspace option" where
  "workspace_set_column_display E display = unless_floating (set_column_display E display)"

definition workspace_center_column ::
    "('w, 'id) LayoutEnv \<Rightarrow> ('w, 'id, 'o) LayoutWorkspace \<Rightarrow> ('w, 'id, 'o) LayoutWorkspace option" where
  "workspace_center_column E = by_focus (floating_center_window E None) (center_column E)"

definition workspace_center_window ::
    "('w, 'id) LayoutEnv \<Rightarrow> 'id option \<Rightarrow> ('w, 'id, 'o) LayoutWorkspace \<Rightarrow> ('w, 'id, 'o) LayoutWorkspace option" where
  "workspace_center_window E window = by_window E window (floating_center_window E window) (center_window E window)"

definition workspace_center_visible_columns ::
    "('w, 'id) LayoutEnv \<Rightarrow> ('w, 'id, 'o) LayoutWorkspace \<Rightarrow> ('w, 'id, 'o) LayoutWorkspace option" where
  "workspace_center_visible_columns E = unless_floating (center_visible_columns E)"

definition workspace_align_visible_columns_left ::
    "('w, 'id) LayoutEnv \<Rightarrow> ('w, 'id, 'o) LayoutWorkspace \<Rightarrow> ('w, 'id, 'o) LayoutWorkspace option" where
  "workspace_align_visible_columns_left E = unless_floating (align_visible_columns_left E)"

section \<open>Sizes\<close>

definition workspace_toggle_width ::
    "('w, 'id) LayoutEnv \<Rightarrow> bool \<Rightarrow> ('w, 'id, 'o) LayoutWorkspace \<Rightarrow> ('w, 'id, 'o) LayoutWorkspace option" where
  "workspace_toggle_width E forwards =
     by_focus (floating_toggle_window_width E None forwards) (toggle_width E forwards)"

definition workspace_toggle_full_width ::
    "('w, 'id) LayoutEnv \<Rightarrow> ('w, 'id, 'o) LayoutWorkspace \<Rightarrow> ('w, 'id, 'o) LayoutWorkspace option" where
  "workspace_toggle_full_width E = unless_floating (toggle_full_width E)"

definition workspace_set_column_width ::
    "('w, 'id) LayoutEnv \<Rightarrow> SizeChange \<Rightarrow> ('w, 'id, 'o) LayoutWorkspace \<Rightarrow> ('w, 'id, 'o) LayoutWorkspace option" where
  "workspace_set_column_width E change =
     by_focus (floating_set_window_width E None change True) (set_window_width E None change)"

definition workspace_set_window_width ::
    "('w, 'id) LayoutEnv \<Rightarrow> 'id option \<Rightarrow> SizeChange \<Rightarrow> ('w, 'id, 'o) LayoutWorkspace \<Rightarrow>
     ('w, 'id, 'o) LayoutWorkspace option" where
  "workspace_set_window_width E window change =
     by_window E window (floating_set_window_width E window change True) (set_window_width E window change)"

definition workspace_set_window_height ::
    "('w, 'id) LayoutEnv \<Rightarrow> 'id option \<Rightarrow> SizeChange \<Rightarrow> ('w, 'id, 'o) LayoutWorkspace \<Rightarrow>
     ('w, 'id, 'o) LayoutWorkspace option" where
  "workspace_set_window_height E window change =
     by_window E window (floating_set_window_height E window change True) (set_window_height E window change)"

definition workspace_reset_window_height ::
    "('w, 'id) LayoutEnv \<Rightarrow> 'id option \<Rightarrow> ('w, 'id, 'o) LayoutWorkspace \<Rightarrow> ('w, 'id, 'o) LayoutWorkspace option" where
  "workspace_reset_window_height E window = unless_on_floating E window (reset_window_height E window)"

definition workspace_toggle_window_width ::
    "('w, 'id) LayoutEnv \<Rightarrow> 'id option \<Rightarrow> bool \<Rightarrow> ('w, 'id, 'o) LayoutWorkspace \<Rightarrow>
     ('w, 'id, 'o) LayoutWorkspace option" where
  "workspace_toggle_window_width E window forwards =
     by_window E window (floating_toggle_window_width E window forwards) (toggle_window_width E window forwards)"

definition workspace_toggle_window_height ::
    "('w, 'id) LayoutEnv \<Rightarrow> 'id option \<Rightarrow> bool \<Rightarrow> ('w, 'id, 'o) LayoutWorkspace \<Rightarrow>
     ('w, 'id, 'o) LayoutWorkspace option" where
  "workspace_toggle_window_height E window forwards =
     by_window E window (floating_toggle_window_height E window forwards) (toggle_window_height E window forwards)"

definition workspace_expand_column_to_available_width ::
    "('w, 'id) LayoutEnv \<Rightarrow> ('w, 'id, 'o) LayoutWorkspace \<Rightarrow> ('w, 'id, 'o) LayoutWorkspace option" where
  "workspace_expand_column_to_available_width E = unless_floating (expand_column_to_available_width E)"

section \<open>Between the two layouts\<close>

text \<open>A tile animates from where it was drawn before; floating tiles are looked at first.\<close>

definition animate_window_from ::
    "('w, 'id) LayoutEnv \<Rightarrow> 'id \<Rightarrow> Point \<Rightarrow> ('w, 'id, 'o) LayoutWorkspace \<Rightarrow>
     ('w, 'id, 'o) LayoutWorkspace option" where
  "animate_window_from E i render_pos w =
     (case List.find (\<lambda>(k, t, pos). el_id E (tl_window t) = i)
             (floating_tiles_with_render_positions_mut E False (wk_floating w)) of
        Some (k, t, pos) \<Rightarrow>
          do { ts \<leftarrow> vec_modify k (animate_move_from E (point_sub render_pos pos)) (fl_tiles (wk_floating w));
               Some (w\<lparr>wk_floating := (wk_floating w)\<lparr>fl_tiles := ts\<rparr>\<rparr>) }
      | None \<Rightarrow>
          do { tiles \<leftarrow> space_tiles_with_render_positions_mut E False (wk_scrolling w);
               ((ci, ti), t, pos) \<leftarrow> List.find (\<lambda>(k, t, pos). el_id E (tl_window t) = i) tiles;
               on_scrolling (with_column ci (\<lambda>c. do {
                 ts \<leftarrow> vec_modify ti (animate_move_from E (point_sub render_pos pos)) (c_tiles c);
                 Some (c\<lparr>c_tiles := ts\<rparr>) })) w })"

definition float_to_scrolling ::
    "('w, 'id) LayoutEnv \<Rightarrow> 'id \<Rightarrow> bool \<Rightarrow> ('w, 'id, 'o) LayoutWorkspace \<Rightarrow> ('w, 'id, 'o) LayoutWorkspace option" where
  "float_to_scrolling E i target_is_active w =
     do { (removed, w) \<leftarrow> on_floating_ret (floating_remove_tile E i) w;
          w \<leftarrow> on_scrolling (add_tile E None (rm_tile removed) target_is_active (rm_width removed)
                              (rm_is_full_width removed) None) w;
          Some (activated target_is_active FloatingNo w) }"

text \<open>Without a stored or configured position the window floats near where it was tiled.\<close>

definition float_near ::
    "('w, 'id) LayoutEnv \<Rightarrow> Point \<Rightarrow> 'w Tile \<Rightarrow> ('w, 'id, 'o) LayoutWorkspace \<Rightarrow> 'w Tile" where
  "float_near E render_pos tile w =
     (if stored_or_default_tile_pos E tile (wk_floating w) \<noteq> None then tile
      else
        let offset = (if lc_center_focused_column (op_layout (wk_options w)) = CenterAlways
                      then point_zero else \<lparr>px = 50, py = 50\<rparr>);
            pos = clamp_within_working_area (point_add render_pos offset) (tile_size E tile) (wk_floating w)
        in tile\<lparr>tl_floating_pos := Some (logical_to_size_frac pos (wk_floating w))\<rparr>)"

definition scrolling_to_float ::
    "('w, 'id) LayoutEnv \<Rightarrow> 'id \<Rightarrow> bool \<Rightarrow> Point \<Rightarrow> ('w, 'id, 'o) LayoutWorkspace \<Rightarrow>
     ('w, 'id, 'o) LayoutWorkspace option" where
  "scrolling_to_float E i target_is_active render_pos w =
     do { (removed, w) \<leftarrow> on_scrolling_ret (remove_tile E i) w;
          let tile = float_near E render_pos (stop_move_animations (rm_tile removed)) w;
          w \<leftarrow> on_floating (floating_add_tile E tile target_is_active) w;
          Some (activated target_is_active FloatingYes w) }"

definition toggle_window_floating ::
    "('w, 'id) LayoutEnv \<Rightarrow> 'id option \<Rightarrow> ('w, 'id, 'o) LayoutWorkspace \<Rightarrow> ('w, 'id, 'o) LayoutWorkspace option" where
  "toggle_window_floating E window w =
     do { active \<leftarrow> workspace_active_window E w;
          let active_id = map_option (el_id E) active;
          let target_is_active = (case window of None \<Rightarrow> True | Some i \<Rightarrow> Some i = active_id);
          case (case window of Some i \<Rightarrow> Some i | None \<Rightarrow> active_id) of
            None \<Rightarrow> Some w
          | Some i \<Rightarrow>
              do { tiles \<leftarrow> workspace_tiles_with_render_positions E w;
                   (_, render_pos, _) \<leftarrow> List.find (\<lambda>(t, _, _). el_id E (tl_window t) = i) tiles;
                   w \<leftarrow> (if has_floating E i w then float_to_scrolling E i target_is_active w
                         else scrolling_to_float E i target_is_active render_pos w);
                   animate_window_from E i render_pos w } }"

definition set_window_floating ::
    "('w, 'id) LayoutEnv \<Rightarrow> 'id option \<Rightarrow> bool \<Rightarrow> ('w, 'id, 'o) LayoutWorkspace \<Rightarrow>
     ('w, 'id, 'o) LayoutWorkspace option" where
  "set_window_floating E window floating w =
     (if is_on_floating E window w = floating then Some w else toggle_window_floating E window w)"

section \<open>Fullscreen and maximized\<close>

text \<open>The tile of a window in the scrolling layout, to read and to change.\<close>

definition tiled :: "('w, 'id) LayoutEnv \<Rightarrow> 'id \<Rightarrow> ('w, 'id, 'o) LayoutWorkspace \<Rightarrow> 'w Tile option" where
  "tiled E i w = List.find (\<lambda>t. el_id E (tl_window t) = i) (space_tiles (wk_scrolling w))"

definition change_tiled ::
    "('w, 'id) LayoutEnv \<Rightarrow> 'id option \<Rightarrow> ('w Tile \<Rightarrow> 'w Tile) \<Rightarrow> ('w, 'id) Space \<Rightarrow> ('w, 'id) Space option" where
  "change_tiled E window f s =
     do { (ci, ti) \<leftarrow> source_of E window s;
          with_column ci (\<lambda>c. do { ts \<leftarrow> vec_modify ti (\<lambda>t. Some (f t)) (c_tiles c);
                                  Some (c\<lparr>c_tiles := ts\<rparr>) }) s }"

text \<open>
  What \<^verbatim>\<open>set_fullscreen\<close> and \<^verbatim>\<open>set_maximized\<close> end with, for a tiled window: a window that leaves the normal
  mode remembers whether it is to float again.
\<close>

definition set_mode_remembering ::
    "('w, 'id) LayoutEnv \<Rightarrow> ('id \<Rightarrow> bool \<Rightarrow> ('w, 'id) Space \<Rightarrow> (bool \<times> ('w, 'id) Space) option) \<Rightarrow>
     'id \<Rightarrow> bool \<Rightarrow> bool \<Rightarrow> ('w, 'id, 'o) LayoutWorkspace \<Rightarrow> ('w, 'id, 'o) LayoutWorkspace option" where
  "set_mode_remembering E set_mode window on restore_to_floating w =
     do { tile \<leftarrow> tiled E window w;
          let was_normal = is_normal (el_pending_sizing_mode E (tl_window tile));
          w \<leftarrow> on_scrolling (no_answer (set_mode window on)) w;
          on_scrolling (change_tiled E (Some window)
            (\<lambda>t. if was_normal \<and> \<not> is_normal (el_pending_sizing_mode E (tl_window t))
                 then t\<lparr>tl_restore_to_floating := restore_to_floating\<rparr> else t)) w }"

definition workspace_set_fullscreen ::
    "('w, 'id) LayoutEnv \<Rightarrow> 'id \<Rightarrow> bool \<Rightarrow> ('w, 'id, 'o) LayoutWorkspace \<Rightarrow> ('w, 'id, 'o) LayoutWorkspace option" where
  "workspace_set_fullscreen E window on w =
     (if has_floating E window w
      then if on
           then do { w \<leftarrow> toggle_window_floating E (Some window) w;
                     set_mode_remembering E (set_fullscreen E) window True True w }
           else Some w
      else if \<not> on
      then do { col \<leftarrow> List.find (column_contains E window) (sp_columns (wk_scrolling w));
                restore \<leftarrow> (if c_is_pending_fullscreen col \<and> \<not> c_is_pending_maximized col
                            then map_option tl_restore_to_floating
                                   (List.find (\<lambda>t. el_id E (tl_window t) = window) (c_tiles col))
                            else Some False);
                if restore then toggle_window_floating E (Some window) w
                else set_mode_remembering E (set_fullscreen E) window False False w }
      else set_mode_remembering E (set_fullscreen E) window True False w)"

definition workspace_set_maximized ::
    "('w, 'id) LayoutEnv \<Rightarrow> 'id \<Rightarrow> bool \<Rightarrow> ('w, 'id, 'o) LayoutWorkspace \<Rightarrow> ('w, 'id, 'o) LayoutWorkspace option" where
  "workspace_set_maximized E window maximize w =
     (if has_floating E window w
      then if maximize
           then do { w \<leftarrow> toggle_window_floating E (Some window) w;
                     set_mode_remembering E (set_maximized E) window True True w }
           else Some w
      else if \<not> maximize
      then do { tile \<leftarrow> tiled E window w;
                if is_maximized (el_pending_sizing_mode E (tl_window tile)) \<and> tl_restore_to_floating tile
                then toggle_window_floating E (Some window) w
                else set_mode_remembering E (set_maximized E) window False False w }
      else set_mode_remembering E (set_maximized E) window True False w)"

definition workspace_toggle_fullscreen ::
    "('w, 'id) LayoutEnv \<Rightarrow> 'id \<Rightarrow> ('w, 'id, 'o) LayoutWorkspace \<Rightarrow> ('w, 'id, 'o) LayoutWorkspace option" where
  "workspace_toggle_fullscreen E window w =
     do { tile \<leftarrow> List.find (\<lambda>t. el_id E (tl_window t) = window) (workspace_tiles w);
          workspace_set_fullscreen E window
            (\<not> is_fullscreen (el_pending_sizing_mode E (tl_window tile))) w }"

definition workspace_toggle_maximized ::
    "('w, 'id) LayoutEnv \<Rightarrow> 'id \<Rightarrow> ('w, 'id, 'o) LayoutWorkspace \<Rightarrow> ('w, 'id, 'o) LayoutWorkspace option" where
  "workspace_toggle_maximized E window w =
     (let current = (case List.find (column_contains E window) (sp_columns (wk_scrolling w)) of
                       Some col \<Rightarrow> c_is_pending_maximized col | None \<Rightarrow> False)
      in workspace_set_maximized E window (\<not> current) w)"

section \<open>Floating positions\<close>

fun sets_position :: "PositionChange \<Rightarrow> bool" where
  "sets_position (PosSetFixed x) = True"
| "sets_position (PosSetProportion p) = True"
| "sets_position _ = False"

text \<open>For a tiled window the position is the one it will float at.\<close>

definition moved_floating_pos ::
    "('w, 'id) LayoutEnv \<Rightarrow> PositionChange \<Rightarrow> PositionChange \<Rightarrow> ('w, 'id) FloatingSpace \<Rightarrow> 'w Tile \<Rightarrow> 'w Tile" where
  "moved_floating_pos E x y f t =
     (let pos = (case stored_or_default_tile_pos E t f of
                   Some p \<Rightarrow> Some p
                 | None \<Rightarrow> if sets_position x \<and> sets_position y then Some point_zero else None)
      in case pos of
           None \<Rightarrow> t
         | Some pos \<Rightarrow>
             let area = fl_working_area f;
                 pos = \<lparr>px = moved_coordinate x (px pos) (sw (r_size area)) (px (r_loc area)),
                        py = moved_coordinate y (py pos) (sh (r_size area)) (py (r_loc area))\<rparr>
             in t\<lparr>tl_floating_pos := Some (logical_to_size_frac pos f)\<rparr>)"

definition move_floating_window ::
    "('w, 'id) LayoutEnv \<Rightarrow> 'id option \<Rightarrow> PositionChange \<Rightarrow> PositionChange \<Rightarrow> bool \<Rightarrow>
     ('w, 'id, 'o) LayoutWorkspace \<Rightarrow> ('w, 'id, 'o) LayoutWorkspace option" where
  "move_floating_window E window x y animate w =
     (if is_on_floating E window w then on_floating (floating_move_window E window x y animate) w
      else if window = None \<and> space_is_empty (wk_scrolling w) then Some w
      else on_scrolling (change_tiled E window (moved_floating_pos E x y (wk_floating w))) w)"

section \<open>Windows\<close>

definition workspace_start_open_animation ::
    "('w, 'id) LayoutEnv \<Rightarrow> 'id \<Rightarrow> ('w, 'id, 'o) LayoutWorkspace \<Rightarrow> (bool \<times> ('w, 'id, 'o) LayoutWorkspace) option" where
  "workspace_start_open_animation E i w =
     do { (b, w) \<leftarrow> on_scrolling_ret (space_start_open_animation E i) w;
          if b then Some (True, w) else on_floating_ret (floating_start_open_animation E i) w }"

definition workspace_descendants_added ::
    "('w, 'id) LayoutEnv \<Rightarrow> 'id \<Rightarrow> ('w, 'id, 'o) LayoutWorkspace \<Rightarrow> (bool \<times> ('w, 'id, 'o) LayoutWorkspace) option" where
  "workspace_descendants_added E i w = on_floating_ret (descendants_added E i) w"

definition workspace_update_window ::
    "('w, 'id) LayoutEnv \<Rightarrow> 'id \<Rightarrow> nat option \<Rightarrow> ('w, 'id, 'o) LayoutWorkspace \<Rightarrow>
     ('w, 'id, 'o) LayoutWorkspace option" where
  "workspace_update_window E window serial w =
     do { (b, w) \<leftarrow> on_floating_ret (floating_update_window E window serial) w;
          if b then Some w else on_scrolling (update_window E window serial) w }"

definition workspace_activate_window ::
    "('w, 'id) LayoutEnv \<Rightarrow> 'id \<Rightarrow> ('w, 'id, 'o) LayoutWorkspace \<Rightarrow> (bool \<times> ('w, 'id, 'o) LayoutWorkspace) option" where
  "workspace_activate_window E window w =
     do { (b, w) \<leftarrow> on_floating_ret (floating_activate_window E window) w;
          if b then Some (True, w\<lparr>wk_floating_is_active := FloatingYes\<rparr>)
          else do {
            (b, w) \<leftarrow> on_scrolling_ret (activate_window E window) w;
            if b then Some (True, w\<lparr>wk_floating_is_active := FloatingNo\<rparr>) else Some (False, w) } }"

definition workspace_activate_window_without_raising ::
    "('w, 'id) LayoutEnv \<Rightarrow> 'id \<Rightarrow> ('w, 'id, 'o) LayoutWorkspace \<Rightarrow> (bool \<times> ('w, 'id, 'o) LayoutWorkspace) option" where
  "workspace_activate_window_without_raising E window w =
     do { (b, w) \<leftarrow> on_floating_ret (\<lambda>s. Some (activate_window_without_raising E window s)) w;
          if b then Some (True, w\<lparr>wk_floating_is_active := FloatingYes\<rparr>)
          else do {
            (b, w) \<leftarrow> on_scrolling_ret (activate_window E window) w;
            if b then Some (True, w\<lparr>wk_floating_is_active :=
                       (case wk_floating_is_active w of
                          FloatingNo \<Rightarrow> FloatingNo
                        | FloatingNoButRaised \<Rightarrow> FloatingNoButRaised
                        | FloatingYes \<Rightarrow> FloatingNoButRaised)\<rparr>)
            else Some (False, w) } }"

section \<open>Gestures\<close>

definition workspace_view_offset_gesture_begin ::
    "('w, 'id) LayoutEnv \<Rightarrow> bool \<Rightarrow> ('w, 'id, 'o) LayoutWorkspace \<Rightarrow> ('w, 'id, 'o) LayoutWorkspace option" where
  "workspace_view_offset_gesture_begin E is_touchpad =
     on_scrolling (\<lambda>s. Some (view_offset_gesture_begin E is_touchpad s))"

definition workspace_view_offset_gesture_update ::
    "real \<Rightarrow> nanos \<Rightarrow> bool \<Rightarrow> ('w, 'id, 'o) LayoutWorkspace \<Rightarrow>
     (bool option \<times> ('w, 'id, 'o) LayoutWorkspace) option" where
  "workspace_view_offset_gesture_update delta_x timestamp is_touchpad =
     on_scrolling_ret (view_offset_gesture_update delta_x timestamp is_touchpad)"

definition workspace_view_offset_gesture_end ::
    "('w, 'id) LayoutEnv \<Rightarrow> bool option \<Rightarrow> ('w, 'id, 'o) LayoutWorkspace \<Rightarrow>
     (bool \<times> ('w, 'id, 'o) LayoutWorkspace) option" where
  "workspace_view_offset_gesture_end E is_touchpad = on_scrolling_ret (view_offset_gesture_end E is_touchpad)"

definition workspace_dnd_scroll_gesture_begin ::
    "('w, 'id) LayoutEnv \<Rightarrow> ('w, 'id, 'o) LayoutWorkspace \<Rightarrow> ('w, 'id, 'o) LayoutWorkspace option" where
  "workspace_dnd_scroll_gesture_begin E = on_scrolling (\<lambda>s. Some (dnd_scroll_gesture_begin E s))"

text \<open>
  How far into the trigger area at the left or right edge the pointer is, as a share of its width;
  \<^verbatim>\<open>clamp\<close> panics on an area of negative width.
\<close>

definition dnd_scroll_delta :: "real \<Rightarrow> real \<Rightarrow> real \<Rightarrow> real option" where
  "dnd_scroll_delta trigger_width width x =
     do { x \<leftarrow> clamp_checked 0 width x;
          trigger_width \<leftarrow> clamp_checked 0 (width / 2) trigger_width;
          let delta = (if x < trigger_width then - (trigger_width - x)
                       else if width - x < trigger_width then trigger_width - (width - x)
                       else 0);
          Some (if trigger_width < 1 / 100 then 0 else delta / trigger_width) }"

definition workspace_dnd_scroll_gesture_scroll ::
    "('w, 'id) LayoutEnv \<Rightarrow> Point \<Rightarrow> real \<Rightarrow> ('w, 'id, 'o) LayoutWorkspace \<Rightarrow>
     (bool \<times> ('w, 'id, 'o) LayoutWorkspace) option" where
  "workspace_dnd_scroll_gesture_scroll E pos speed w =
     do { delta \<leftarrow> dnd_scroll_delta (dv_trigger_width (op_dnd_edge_view_scroll (wk_options w)))
                     (sw (r_size (wk_working_area w))) (px pos - px (r_loc (wk_working_area w)));
          on_scrolling_ret (dnd_scroll_gesture_scroll E (delta * speed)) w }"

definition workspace_dnd_scroll_gesture_end ::
    "('w, 'id) LayoutEnv \<Rightarrow> ('w, 'id, 'o) LayoutWorkspace \<Rightarrow> ('w, 'id, 'o) LayoutWorkspace option" where
  "workspace_dnd_scroll_gesture_end E = on_scrolling (dnd_scroll_gesture_end E)"

definition by_window_ret ::
    "('w, 'id) LayoutEnv \<Rightarrow> 'id \<Rightarrow> (('w, 'id) FloatingSpace \<Rightarrow> ('a \<times> ('w, 'id) FloatingSpace) option) \<Rightarrow>
     (('w, 'id) Space \<Rightarrow> ('a \<times> ('w, 'id) Space) option) \<Rightarrow>
     ('w, 'id, 'o) LayoutWorkspace \<Rightarrow> ('a \<times> ('w, 'id, 'o) LayoutWorkspace) option" where
  "by_window_ret E window f g w = (if has_floating E window w then on_floating_ret f w else on_scrolling_ret g w)"

definition workspace_interactive_resize_begin ::
    "('w, 'id) LayoutEnv \<Rightarrow> 'id \<Rightarrow> ResizeEdge \<Rightarrow> ('w, 'id, 'o) LayoutWorkspace \<Rightarrow>
     (bool \<times> ('w, 'id, 'o) LayoutWorkspace) option" where
  "workspace_interactive_resize_begin E window edges =
     by_window_ret E window (floating_interactive_resize_begin E window edges) (interactive_resize_begin E window edges)"

definition workspace_interactive_resize_update ::
    "('w, 'id) LayoutEnv \<Rightarrow> 'id \<Rightarrow> Point \<Rightarrow> ('w, 'id, 'o) LayoutWorkspace \<Rightarrow>
     (bool \<times> ('w, 'id, 'o) LayoutWorkspace) option" where
  "workspace_interactive_resize_update E window delta =
     by_window_ret E window (floating_interactive_resize_update E window delta)
       (interactive_resize_update E window delta)"

definition workspace_interactive_resize_end ::
    "('w, 'id) LayoutEnv \<Rightarrow> 'id option \<Rightarrow> ('w, 'id, 'o) LayoutWorkspace \<Rightarrow>
     ('w, 'id, 'o) LayoutWorkspace option" where
  "workspace_interactive_resize_end E window w =
     (let ends_floating = on_floating (\<lambda>s. Some (floating_interactive_resize_end window s));
          ends_scrolling = on_scrolling (interactive_resize_end E window)
      in case window of
           Some i \<Rightarrow> if has_floating E i w then ends_floating w else ends_scrolling w
         | None \<Rightarrow> do { w \<leftarrow> ends_floating w; ends_scrolling w })"

end
