(* ===== verification/Layout_Workspace_Inv.thy ===== *)
theory Layout_Workspace_Inv
  imports Layout_Workspace Layout_Scrolling_Props Layout_Floating_Reach
begin

text \<open>
  The invariant of a workspace, the assertions of its \<^verbatim>\<open>verify_invariants\<close> with those of its two
  layouts, and the contract that the layouts and the workspace have in common: operations that keep
  an invariant, the surroundings and the windows.
\<close>

section \<open>The contract of a space of windows\<close>

definition preserved ::
    "('s \<Rightarrow> bool) \<Rightarrow> ('s \<Rightarrow> 's \<Rightarrow> bool) \<Rightarrow> ('s \<Rightarrow> 'id multiset) \<Rightarrow> 's \<Rightarrow> 's \<Rightarrow> bool" where
  "preserved ok frame ids s s' \<longleftrightarrow> ok s' \<and> frame s s' \<and> ids s' = ids s"

locale window_space =
  fixes ok :: "'s \<Rightarrow> bool" and frame :: "'s \<Rightarrow> 's \<Rightarrow> bool" and ids :: "'s \<Rightarrow> 'id multiset"
    and is_empty :: "'s \<Rightarrow> bool"
  assumes frame_refl: "frame s s"
    and frame_trans: "frame s t \<Longrightarrow> frame t u \<Longrightarrow> frame s u"
    and empty_iff: "ok s \<Longrightarrow> is_empty s \<longleftrightarrow> ids s = {#}"
begin

lemma refl: "ok s \<Longrightarrow> preserved ok frame ids s s"
  by (simp add: preserved_def frame_refl)

lemma trans: "preserved ok frame ids s t \<Longrightarrow> preserved ok frame ids t u \<Longrightarrow> preserved ok frame ids s u"
  by (auto simp: preserved_def intro: frame_trans)

lemma same_empty: "ok s \<Longrightarrow> preserved ok frame ids s t \<Longrightarrow> is_empty t \<longleftrightarrow> is_empty s"
  by (simp add: preserved_def empty_iff)

lemma runs_preserved:
  "preserved ok frame ids s t \<Longrightarrow> runs m (preserved ok frame ids t) \<Longrightarrow> runs m (preserved ok frame ids s)"
  by (erule runs_mono) (rule trans)

lemma seq:
  assumes "runs m (preserved ok frame ids s)" and "\<And>t. ok t \<Longrightarrow> runs (g t) (preserved ok frame ids t)"
  shows "runs (m \<bind> g) (preserved ok frame ids s)"
  unfolding runs_bind
proof (rule runs_mono [OF assms(1)])
  fix t assume t: "preserved ok frame ids s t"
  then have "ok t" by (simp add: preserved_def)
  from runs_preserved [OF t assms(2) [OF this]] show "runs (g t) (preserved ok frame ids s)" .
qed

lemma or_else:
  assumes "runs (f s) (\<lambda>(b, t). preserved ok frame ids s t)"
    and "\<And>t. ok t \<Longrightarrow> runs (g t) (preserved ok frame ids t)"
  shows "runs (or_else f g s) (preserved ok frame ids s)"
  unfolding or_else_def runs_bind
proof (rule runs_mono [OF assms(1)])
  fix x :: "bool \<times> 's" assume x: "case x of (b, t) \<Rightarrow> preserved ok frame ids s t"
  obtain b t where [simp]: "x = (b, t)" by (cases x)
  have t: "preserved ok frame ids s t" using x by simp
  then have "ok t" by (simp add: preserved_def)
  from runs_preserved [OF t assms(2) [OF this]] t
  show "runs (case x of (b, t) \<Rightarrow> if b then Some t else g t) (preserved ok frame ids s)" by simp
qed

text \<open>Any number of steps, one after the other.\<close>

lemma all_steps:
  assumes "ok s" and "\<And>x t. x \<in> set xs \<Longrightarrow> ok t \<Longrightarrow> runs (f x t) (preserved ok frame ids t)"
  shows "runs (for_each f xs s) (preserved ok frame ids s)"
  using assms
proof (induction xs arbitrary: s)
  case Nil
  then show ?case by (simp add: refl)
next
  case (Cons x xs)
  have "runs (f x s) (preserved ok frame ids s)" using Cons.prems by simp
  then show ?case unfolding for_each.simps by (rule seq) (rule Cons.IH, simp_all add: Cons.prems)
qed

end

text \<open>The two layouts fulfil it.\<close>

lemma space_empty_iff: "space_inv E s \<Longrightarrow> space_is_empty s \<longleftrightarrow> windows E s = {#}"
  using column_nonempty [of E s 0] by (cases "sp_columns s") (auto simp: space_is_empty_def windows_def space_tiles_def)

interpretation scrolling: window_space "space_inv E" space_env "windows E" space_is_empty for E
  by unfold_locales (auto intro: space_env_trans simp: space_empty_iff)

interpretation floating: window_space "floating_inv E" floating_env "\<lambda>s. mset (floating_ids E s)" floating_is_empty for E
  by unfold_locales (auto intro: floating_env_trans simp: floating_is_empty_def floating_ids_def)

lemma keeps_preserved: "keeps E s = preserved (space_inv E) space_env (windows E) s"
  by (simp add: fun_eq_iff keeps_def preserved_def)

lemma floating_keeps_preserved:
  "floating_keeps E s = preserved (floating_inv E) floating_env (\<lambda>s. mset (floating_ids E s)) s"
  by (simp add: fun_eq_iff floating_keeps_def preserved_def)

section \<open>The invariant\<close>

definition focus_ok :: "bool \<Rightarrow> bool \<Rightarrow> FloatingActive \<Rightarrow> bool" where
  "focus_ok scrolling_empty floating_empty a \<longleftrightarrow>
     (if floating_empty then \<not> floating_active_get a else scrolling_empty \<longrightarrow> floating_active_get a)"

definition workspace_ids :: "('w, 'id) LayoutEnv \<Rightarrow> ('w, 'id, 'o) LayoutWorkspace \<Rightarrow> 'id multiset" where
  "workspace_ids E w = windows E (wk_scrolling w) + mset (floating_ids E (wk_floating w))"

text \<open>The layouts have the size, the area, the scale and the options of the workspace.\<close>

definition linked :: "('w, 'id, 'o) LayoutWorkspace \<Rightarrow> bool" where
  "linked w \<longleftrightarrow>
     (let s = wk_scrolling w; f = wk_floating w
      in sp_view_size s = wk_view_size w \<and> sp_parent_area s = wk_working_area w \<and>
         sp_scale s = wk_fractional_scale w \<and> sp_options s = wk_options w \<and>
         fl_view_size f = wk_view_size w \<and> fl_working_area f = wk_working_area w \<and>
         fl_scale f = wk_fractional_scale w \<and> fl_options f = wk_options w)"

definition workspace_config_ok :: "('w, 'id, 'o) LayoutWorkspace \<Rightarrow> bool" where
  "workspace_config_ok w \<longleftrightarrow> 0 < wk_fractional_scale w \<and> options_ok (wk_base_options w) \<and>
     option_ok layout_part_ok (wk_layout_config w) \<and>
     wk_options w = workspace_options (wk_layout_config w) (wk_fractional_scale w) (wk_base_options w)"

definition workspace_inv :: "('w, 'id) LayoutEnv \<Rightarrow> ('w, 'id, 'o) LayoutWorkspace \<Rightarrow> bool" where
  "workspace_inv E w \<longleftrightarrow> space_inv E (wk_scrolling w) \<and> floating_inv E (wk_floating w) \<and> linked w \<and>
     workspace_config_ok w \<and>
     focus_ok (space_is_empty (wk_scrolling w)) (floating_is_empty (wk_floating w)) (wk_floating_is_active w) \<and>
     (\<forall>i. count (workspace_ids E w) i \<le> 1)"

definition workspace_env :: "('w, 'id, 'o) LayoutWorkspace \<Rightarrow> ('w, 'id, 'o) LayoutWorkspace \<Rightarrow> bool" where
  "workspace_env w w' \<longleftrightarrow> wk_original_output w' = wk_original_output w \<and> wk_output w' = wk_output w \<and>
     wk_scale w' = wk_scale w \<and> wk_transform w' = wk_transform w \<and> wk_view_size w' = wk_view_size w \<and>
     wk_working_area w' = wk_working_area w \<and> wk_base_options w' = wk_base_options w \<and>
     wk_options w' = wk_options w \<and> wk_name w' = wk_name w \<and>
     wk_layout_config w' = wk_layout_config w \<and> wk_id w' = wk_id w"

definition workspace_is_empty :: "('w, 'id, 'o) LayoutWorkspace \<Rightarrow> bool" where
  "workspace_is_empty w \<longleftrightarrow> \<not> has_windows w"

lemma workspace_env_refl [simp]: "workspace_env w w"
  by (simp add: workspace_env_def)

lemma workspace_env_trans: "workspace_env u v \<Longrightarrow> workspace_env v w \<Longrightarrow> workspace_env u w"
  by (simp add: workspace_env_def)

interpretation workspace: window_space "workspace_inv E" workspace_env "workspace_ids E" workspace_is_empty for E
  by unfold_locales
     (auto intro: workspace_env_trans simp: workspace_is_empty_def has_windows_def workspace_tiles_def
       workspace_ids_def windows_def floating_ids_def)

abbreviation workspace_keeps :: "('w, 'id) LayoutEnv \<Rightarrow> ('w, 'id, 'o) LayoutWorkspace \<Rightarrow> ('w, 'id, 'o) LayoutWorkspace \<Rightarrow> bool" where
  "workspace_keeps E \<equiv> preserved (workspace_inv E) workspace_env (workspace_ids E)"

lemma workspace_invD:
  assumes "workspace_inv E w"
  shows "space_inv E (wk_scrolling w)" "floating_inv E (wk_floating w)" "linked w" "workspace_config_ok w"
    "focus_ok (space_is_empty (wk_scrolling w)) (floating_is_empty (wk_floating w)) (wk_floating_is_active w)"
    "count (workspace_ids E w) i \<le> 1"
  using assms by (simp_all add: workspace_inv_def)

text \<open>Changes of one layout, of the other, and of the focus.\<close>

lemma workspace_set_scrolling:
  assumes inv: "workspace_inv E w" and s: "keeps E (wk_scrolling w) s"
  shows "workspace_keeps E w (w\<lparr>wk_scrolling := s\<rparr>)"
proof -
  note I = workspace_invD [OF inv] and S = s [unfolded keeps_def]
  have e: "space_is_empty s = space_is_empty (wk_scrolling w)"
    using scrolling.same_empty [OF I(1)] s by (simp add: keeps_preserved)
  have ids: "workspace_ids E (w\<lparr>wk_scrolling := s\<rparr>) = workspace_ids E w" using S by (simp add: workspace_ids_def)
  have "linked (w\<lparr>wk_scrolling := s\<rparr>)" using I(3) S by (simp add: linked_def space_env_def Let_def)
  then show ?thesis
    using I S e ids by (simp add: preserved_def workspace_inv_def workspace_env_def workspace_config_ok_def)
qed

lemma workspace_set_floating:
  assumes inv: "workspace_inv E w" and s: "floating_keeps E (wk_floating w) s"
  shows "workspace_keeps E w (w\<lparr>wk_floating := s\<rparr>)"
proof -
  note I = workspace_invD [OF inv] and S = s [unfolded floating_keeps_def]
  have e: "floating_is_empty s = floating_is_empty (wk_floating w)"
    using floating.same_empty [OF I(2)] s by (simp add: floating_keeps_preserved)
  have ids: "workspace_ids E (w\<lparr>wk_floating := s\<rparr>) = workspace_ids E w" using S by (simp add: workspace_ids_def)
  have "linked (w\<lparr>wk_floating := s\<rparr>)" using I(3) S by (simp add: linked_def floating_env_def Let_def)
  then show ?thesis
    using I S e ids by (simp add: preserved_def workspace_inv_def workspace_env_def workspace_config_ok_def)
qed

lemma workspace_set_focus:
  assumes inv: "workspace_inv E w"
    and "focus_ok (space_is_empty (wk_scrolling w)) (floating_is_empty (wk_floating w)) a"
  shows "workspace_keeps E w (w\<lparr>wk_floating_is_active := a\<rparr>)"
  using assms by (simp add: preserved_def workspace_inv_def workspace_env_def workspace_config_ok_def workspace_ids_def
      linked_def Let_def)

lemma on_scrolling_keeps:
  assumes "workspace_inv E w" and "runs (f (wk_scrolling w)) (keeps E (wk_scrolling w))"
  shows "runs (on_scrolling f w) (workspace_keeps E w)"
  unfolding on_scrolling_def runs_map_option
  by (rule runs_mono [OF assms(2)]) (rule workspace_set_scrolling [OF assms(1)])

lemma on_floating_keeps:
  assumes "workspace_inv E w" and "runs (f (wk_floating w)) (floating_keeps E (wk_floating w))"
  shows "runs (on_floating f w) (workspace_keeps E w)"
  unfolding on_floating_def runs_map_option
  by (rule runs_mono [OF assms(2)]) (rule workspace_set_floating [OF assms(1)])

lemma on_scrolling_ret_keeps:
  assumes "workspace_inv E w" and "runs (map_option snd (f (wk_scrolling w))) (keeps E (wk_scrolling w))"
  shows "runs (on_scrolling_ret f w) (\<lambda>(r, w'). workspace_keeps E w w')"
  using assms(2) unfolding on_scrolling_ret_def runs_map_option
  by (elim runs_mono) (auto intro: workspace_set_scrolling [OF assms(1)])

lemma on_floating_ret_keeps:
  assumes "workspace_inv E w" and "runs (map_option snd (f (wk_floating w))) (floating_keeps E (wk_floating w))"
  shows "runs (on_floating_ret f w) (\<lambda>(r, w'). workspace_keeps E w w')"
  using assms(2) unfolding on_floating_ret_def runs_map_option
  by (elim runs_mono) (auto intro: workspace_set_floating [OF assms(1)])

text \<open>Where a window is.\<close>

lemma has_floating_iff: "has_floating E i w \<longleftrightarrow> i \<in># mset (floating_ids E (wk_floating w))"
  by (auto simp: has_floating_def floating_has_window_def floating_ids_def list_ex_iff)

lemma space_has_iff: "space_has E i s \<longleftrightarrow> i \<in># windows E s"
  by (auto simp: space_has_def windows_def space_tiles_def column_contains_def)

lemma in_workspace_cases:
  assumes "i \<in># workspace_ids E w"
  obtains "has_floating E i w" | "\<not> has_floating E i w" "space_has E i (wk_scrolling w)"
  using assms unfolding workspace_ids_def has_floating_iff space_has_iff by auto

lemma not_in_both:
  assumes "workspace_inv E w" and "space_has E i (wk_scrolling w)" shows "\<not> has_floating E i w"
proof -
  have "0 < count (windows E (wk_scrolling w)) i" using assms(2) by (simp add: space_has_iff)
  moreover have "count (windows E (wk_scrolling w)) i + count (mset (floating_ids E (wk_floating w))) i \<le> 1"
    using workspace_invD(6) [OF assms(1), of i] by (simp add: workspace_ids_def)
  ultimately have "count (mset (floating_ids E (wk_floating w))) i = 0" by linarith
  then show ?thesis by (simp add: has_floating_iff not_in_iff)
qed

section \<open>The window that has the focus\<close>

definition g_focused :: "'id Grid \<Rightarrow> 'id option" where
  "g_focused g = (if g_cols g = [] then None
     else Some (fst (g_cols g ! g_active g) ! snd (g_cols g ! g_active g)))"

definition workspace_focus :: "('w, 'id) LayoutEnv \<Rightarrow> ('w, 'id, 'o) LayoutWorkspace \<Rightarrow> 'id option" where
  "workspace_focus E w =
     (if floating_focused w then fl_active_window_id (wk_floating w) else g_focused (grid E (wk_scrolling w)))"

lemma g_focused_add:
  assumes "k \<le> length (g_cols g)" shows "g_focused (g_add k ([i], 0) True g) = Some i"
proof -
  have "list_insert k ([i], 0) (g_cols g) ! k = ([i], 0)" using assms by (simp add: nth_append)
  moreover have "list_insert k ([i], 0) (g_cols g) \<noteq> []" by simp
  ultimately show ?thesis by (simp add: g_focused_def g_add_def Let_def g_activate_def)
qed

lemma g_focused_add_to:
  assumes "ci < length (g_cols g)" and "option_ok (\<lambda>i. i \<le> length (fst (g_cols g ! ci))) ti"
  shows "g_focused (g_add_to ci ti i True g) = Some i"
proof -
  obtain ids a where c: "g_cols g ! ci = (ids, a)" by (cases "g_cols g ! ci")
  define k where "k = (case ti of Some i \<Rightarrow> i | None \<Rightarrow> length ids)"
  have k: "k \<le> length ids" using assms(2) c by (cases ti) (simp_all add: k_def)
  then have n: "list_insert k i ids ! k = i" by (simp add: nth_append)
  have ne: "g_cols g \<noteq> []" using assms(1) by auto
  show ?thesis
    using assms(1) n ne
    by (simp add: g_focused_def g_add_to_def c Let_def g_activate_def flip: k_def)
qed

section \<open>Positions\<close>

lemma in_render_order_ok:
  assumes "a < length xs"
  shows "runs (in_render_order a xs) (\<lambda>ys. set ys = set xs \<and> length ys = length xs)"
proof -
  have "set (xs ! a # take a xs @ drop (Suc a) xs) = set (take a xs @ xs ! a # drop (Suc a) xs)" by auto
  also have "\<dots> = set xs" using id_take_nth_drop [OF assms] by simp
  finally show ?thesis using assms by (simp add: in_render_order_def)
qed

lemma map_fst_zip_longer: "length xs \<le> length ys \<Longrightarrow> fst ` set (zip xs ys) = set xs"
  by (simp add: map_fst_zip_take flip: list.set_map)

lemma mem_enumerate: "(i, x) \<in> set (enumerate 0 xs) \<longleftrightarrow> i < length xs \<and> x = xs ! i"
  by (auto simp: in_set_enumerate_eq)

text \<open>Every tile of a column is drawn, under its index.\<close>

lemma tiles_in_render_order_ok:
  assumes "column_inv E c"
  shows "runs (tiles_in_render_order c) (\<lambda>ts.
     (\<lambda>(i, t, off, v). (i, t)) ` set ts = {(i, t). i < length (c_tiles c) \<and> t = c_tiles c ! i})"
proof -
  note D = column_invD [OF assms]
  have a: "c_active_tile_idx c < length (c_tiles c)" and n: "length (c_data c) = length (c_tiles c)"
    using D by simp_all
  obtain offs where offs: "in_render_order (c_active_tile_idx c) (tile_offsets c) = Some offs"
      "length offs = length (c_tiles c) + 1"
    using in_render_order_ok [of "c_active_tile_idx c" "tile_offsets c"] a n by (auto simp: runs_iff)
  obtain ts where ts: "in_render_order (c_active_tile_idx c) (enumerate 0 (c_tiles c)) = Some ts"
      "set ts = set (enumerate 0 (c_tiles c))" "length ts = length (c_tiles c)"
    using in_render_order_ok [of "c_active_tile_idx c" "enumerate 0 (c_tiles c)"] a by (auto simp: runs_iff)
  have "fst ` set (zip ts offs) = set (enumerate 0 (c_tiles c))"
    using map_fst_zip_longer [of ts offs] offs(2) ts by simp
  then have "(\<lambda>x. fst x) ` set (zip ts offs) = {(i, t). i < length (c_tiles c) \<and> t = c_tiles c ! i}"
    by (auto simp: mem_enumerate set_eq_iff)
  then show ?thesis
    by (simp add: tiles_in_render_order_def offs ts image_image split_def)
qed

lemma positioned_column_ok:
  assumes "column_inv E c"
  shows "runs (positioned_column E r sc vx ((ci, c), x)) (\<lambda>ps.
     (\<lambda>(i, t, pos, v). (i, t)) ` set ps = {((ci, ti), c_tiles c ! ti) |ti. ti < length (c_tiles c)})"
proof -
  obtain ts where ts: "tiles_in_render_order c = Some ts"
      "(\<lambda>(i, t, off, v). (i, t)) ` set ts = {(i, t). i < length (c_tiles c) \<and> t = c_tiles c ! i}"
    using tiles_in_render_order_ok [OF assms] by (auto simp: runs_iff)
  have "(\<lambda>(i, t, off, v). ((ci, i), t)) ` set ts = (\<lambda>(i, t). ((ci, i), t)) ` ((\<lambda>(i, t, off, v). (i, t)) ` set ts)"
    by (force simp: image_image split_def)
  also have "\<dots> = {((ci, ti), c_tiles c ! ti) |ti. ti < length (c_tiles c)}"
    unfolding ts(2) by auto
  finally show ?thesis by (simp add: positioned_column_def ts(1) image_image split_def Let_def)
qed

lemma columns_in_render_order_ok:
  assumes "space_inv E s"
  shows "runs (columns_in_render_order s) (\<lambda>cs.
     fst ` set cs = {(ci, c). ci < length (sp_columns s) \<and> c = sp_columns s ! ci})"
proof -
  note P = space_inv_parts [OF assms]
  have n: "length (column_xs s) = length (sp_columns s) + 1"
    using space_partsD(2) [OF P] by simp
  have a: "sp_active_column_idx s \<le> length (sp_columns s)"
    using space_inv_core [OF assms] by (auto simp: space_core_def split: if_splits)
  obtain xs where xs: "in_render_order (sp_active_column_idx s) (column_xs s) = Some xs"
      "length xs = length (sp_columns s) + 1"
    using in_render_order_ok [of "sp_active_column_idx s" "column_xs s"] a n by (auto simp: runs_iff)
  show ?thesis
  proof (cases "sp_columns s = []")
    case True
    then show ?thesis by (simp add: columns_in_render_order_def column_xs_in_render_order_def xs)
  next
    case False
    then have "sp_active_column_idx s < length (sp_columns s)"
      using space_inv_core [OF assms] by (simp add: space_core_def)
    then obtain cs where cs: "in_render_order (sp_active_column_idx s) (enumerate 0 (sp_columns s)) = Some cs"
        "set cs = set (enumerate 0 (sp_columns s))" "length cs = length (sp_columns s)"
      using in_render_order_ok [of "sp_active_column_idx s" "enumerate 0 (sp_columns s)"] by (auto simp: runs_iff)
    have "fst ` set (zip cs xs) = set (enumerate 0 (sp_columns s))"
      using map_fst_zip_longer [of cs xs] xs(2) cs by simp
    then show ?thesis using False
      by (auto simp: columns_in_render_order_def column_xs_in_render_order_def xs cs mem_enumerate set_eq_iff)
  qed
qed

lemma positioned_tiles_ok:
  assumes inv: "space_inv E s"
  shows "runs (positioned_tiles E r s) (\<lambda>ps. (\<lambda>(i, t, pos, v). (i, t)) ` set ps =
     {((ci, ti), c_tiles (sp_columns s ! ci) ! ti) |ci ti. ci < length (sp_columns s) \<and>
        ti < length (c_tiles (sp_columns s ! ci))})"
proof -
  note P = space_inv_parts [OF inv]
  let ?Q = "\<lambda>((ci, c), x) ps. (\<lambda>(i, t, pos, v). (i, t)) ` set ps =
     {((ci, ti), c_tiles c ! ti) |ti. ti < length (c_tiles c)}"
  have a: "sp_active_column_idx s \<le> length (sp_columns s)"
    using space_inv_core [OF inv] by (auto simp: space_core_def split: if_splits)
  obtain vx where vx: "view_pos E s = Some vx"
    using space_reads(1) [OF P a] by (simp add: view_pos_def)
  obtain cs where cs: "columns_in_render_order s = Some cs"
      "fst ` set cs = {(ci, c). ci < length (sp_columns s) \<and> c = sp_columns s ! ci}"
    using columns_in_render_order_ok [OF inv] by (auto simp: runs_iff)
  have "runs (positioned_column E r (sp_scale s) vx x) (?Q x)" if x: "x \<in> set cs" for x
  proof -
    obtain ci c off where [simp]: "x = ((ci, c), off)" by (cases x) auto
    have "(ci, c) \<in> fst ` set cs" using x by force
    then have "c \<in> set (sp_columns s)" unfolding cs(2) by auto
    then have "column_inv E c" using space_columns_inv [OF P] by blast
    then show ?thesis using positioned_column_ok by simp
  qed
  then have "runs (map_opt (positioned_column E r (sp_scale s) vx) cs) (\<lambda>pss. list_all2 ?Q cs pss)"
    by (rule runs_map_opt)
  then obtain pss where
    pss: "map_opt (positioned_column E r (sp_scale s) vx) cs = Some pss" "list_all2 ?Q cs pss"
    by (rule runsE)
  have "(\<lambda>(i, t, pos, v). (i, t)) ` set (concat pss) = (\<Union>ps \<in> set pss. (\<lambda>(i, t, pos, v). (i, t)) ` set ps)"
    by (simp only: set_concat image_UN)
  also have "\<dots> = (\<Union>((ci, c), x) \<in> set cs. {((ci, ti), c_tiles c ! ti) |ti. ti < length (c_tiles c)})"
    using pss(2) by (induction rule: list_all2_induct) (simp_all add: split_def)
  also have "\<dots> = (\<Union>(ci, c) \<in> fst ` set cs. {((ci, ti), c_tiles c ! ti) |ti. ti < length (c_tiles c)})"
    by force
  also have "\<dots> = {((ci, ti), c_tiles (sp_columns s ! ci) ! ti) |ci ti. ci < length (sp_columns s) \<and>
        ti < length (c_tiles (sp_columns s ! ci))}"
    unfolding cs(2) by auto
  finally show ?thesis by (simp add: positioned_tiles_def vx cs(1) pss(1))
qed

end
