(* ===== verification/Layout_Workspace_Moves.thy ===== *)
theory Layout_Workspace_Moves
  imports Layout_Workspace_Inv
begin

text \<open>
  Construction and configuration of a workspace, and the operations that add, remove or move windows
  between its two layouts.
\<close>

section \<open>A removed tile keeps its window\<close>

lemma map_opt_same:
  "map_opt f xs = Some ys \<Longrightarrow> (\<And>x y. x \<in> set xs \<Longrightarrow> f x = Some y \<Longrightarrow> h y = h x) \<Longrightarrow> map h ys = map h xs"
  by (induction xs arbitrary: ys) (auto simp: bind_eq_Some_conv)

lemma map_slice_same:
  assumes "map_slice lo hi f xs = Some ys" and "\<And>x y. f x = Some y \<Longrightarrow> h y = h x"
  shows "map h ys = map h xs"
proof -
  obtain zs where zs: "lo \<le> hi" "hi \<le> length xs" "map_opt f (take (hi - lo) (drop lo xs)) = Some zs"
    "ys = take lo xs @ zs @ drop hi xs"
    using assms(1) by (auto simp: map_slice_def bind_eq_Some_conv split: if_splits)
  have "xs = take lo xs @ take (hi - lo) (drop lo xs) @ drop hi xs"
    using zs(1,2) by (metis append_take_drop_id drop_drop le_add_diff_inverse2)
  then have "map h xs = map h (take lo xs) @ map h (take (hi - lo) (drop lo xs)) @ map h (drop hi xs)"
    by (metis map_append)
  then show ?thesis using map_opt_same [OF zs(3), of h] assms(2) zs(4) by simp
qed

lemma vec_modify_same:
  "vec_modify i f xs = Some ys \<Longrightarrow> (\<And>x y. f x = Some y \<Longrightarrow> h y = h x) \<Longrightarrow> map h ys = map h xs"
  by (auto simp: vec_modify_def vec_get_def bind_eq_Some_conv map_update list_update_same_conv split: if_splits)

lemma animated_window:
  "animate_move_y_from E o' t = Some t' \<Longrightarrow> tl_window t' = tl_window t"
  "animate_alpha E a b cfg t = Some t' \<Longrightarrow> tl_window t' = tl_window t"
  by (auto simp: animate_move_y_from_def animate_move_y_from_with_config_def animate_alpha_def bind_eq_Some_conv)

lemma remove_from_column_window:
  assumes "remove_from_column E i cfg c = Some (t, c')"
  shows "tl_window t \<in> tl_window ` set (c_tiles c)"
proof -
  obtain o' ts us where ts: "map_slice (i + 1) (length (c_tiles c)) (animate_move_y_from E o') (c_tiles c) = Some ts"
    and us: "(if is_tabbed c \<and> i \<noteq> c_active_tile_idx c then vec_modify i (animate_alpha E 0 1 cfg) ts else Some ts) = Some us"
    and t: "i < length us" "t = us ! i"
    using assms unfolding remove_from_column_def Let_def bind_eq_Some_conv split_def
    by (elim exE conjE) (rule that, assumption, assumption, auto simp: vec_remove_def split: if_splits)
  have "map tl_window ts = map tl_window (c_tiles c)"
    by (rule map_slice_same [OF ts]) (rule animated_window(1))
  moreover have "vec_modify i (animate_alpha E 0 1 cfg) ts = Some us \<Longrightarrow> map tl_window us = map tl_window ts"
    by (erule vec_modify_same) (rule animated_window(2))
  then have "map tl_window us = map tl_window ts" using us by (auto split: if_splits)
  ultimately have "set (map tl_window us) = set (map tl_window (c_tiles c))" by simp
  moreover have "tl_window t \<in> set (map tl_window us)" using t by simp
  ultimately show ?thesis by simp
qed

lemma remove_column_by_idx_tiles:
  assumes "remove_column_by_idx E i cfg s = Some (c, s')"
  shows "i < length (sp_columns s) \<and> c_tiles c = c_tiles (sp_columns s ! i)"
proof -
  obtain o' o'' cfg' t where "(if sp_active_column_idx s \<le> i then animate_columns E (i + 1) (length (sp_columns s)) o' cfg' s
      else animate_columns E 0 i o'' cfg' s) = Some t" and ti: "i < length (sp_columns t)" "c = sp_columns t ! i"
    using assms unfolding remove_column_by_idx_def Let_def bind_eq_Some_conv split_def
    by (elim exE conjE) (rule that, assumption, auto simp: vec_remove_def bind_eq_Some_conv split: if_splits)
  then obtain lo hi d where t: "animate_columns E lo hi d cfg' s = Some t" by (auto split: if_splits)
  have "map c_tiles (sp_columns t) = map c_tiles (sp_columns s)"
    using t unfolding animate_columns_def bind_eq_Some_conv
    by (auto elim!: map_slice_same simp: column_animate_move_from_with_config_def bind_eq_Some_conv)
  then show ?thesis using ti by (metis length_map nth_map)
qed

lemma remove_tile_by_idx_window:
  assumes "remove_tile_by_idx E ci ti cfg s = Some (r, s')"
  shows "tl_window (rm_tile r) \<in> tl_window ` set (space_tiles s)"
proof -
  have ci: "ci < length (sp_columns s)"
    using assms by (auto simp: remove_tile_by_idx_def bind_eq_Some_conv vec_get_def split: if_splits)
  have sub: "set (c_tiles (sp_columns s ! ci)) \<subseteq> set (space_tiles s)"
    using nth_mem [OF ci] by (auto simp: space_tiles_def)
  have "tl_window (rm_tile r) \<in> tl_window ` set (c_tiles (sp_columns s ! ci))"
  proof (cases "length (c_tiles (sp_columns s ! ci)) = 1")
    case True
    then obtain c s1 where c: "remove_column_by_idx E ci cfg s = Some (c, s1)" "ti < length (c_tiles c)" "rm_tile r = c_tiles c ! ti"
      using assms ci by (auto simp: remove_tile_by_idx_def bind_eq_Some_conv vec_get_def vec_remove_def split: if_splits)
    with remove_column_by_idx_tiles [OF c(1)] show ?thesis by auto
  next
    case False
    then obtain cfg' t c where "remove_from_column E ti cfg' (sp_columns s ! ci) = Some (t, c)" "rm_tile r = t"
      using assms ci by (auto simp: remove_tile_by_idx_def bind_eq_Some_conv vec_get_def Let_def split: if_splits)
    then show ?thesis using remove_from_column_window by metis
  qed
  then show ?thesis using sub by blast
qed

lemma remove_tile_window:
  "remove_tile E i s = Some (r, s') \<Longrightarrow> tl_window (rm_tile r) \<in> tl_window ` set (space_tiles s)"
  by (auto simp: remove_tile_def bind_eq_Some_conv dest: remove_tile_by_idx_window)

lemma floating_remove_options:
  assumes inv: "floating_inv E s" and r: "floating_remove_tile E i s = Some (r, s')"
  shows "tl_options (rm_tile r) = fl_options s"
proof -
  obtain k d where k: "k < length (fl_tiles s)" "rm_tile r = store_floating E d (fl_tiles s ! k)"
    using r by (auto simp: floating_remove_tile_def floating_remove_tile_by_idx_def bind_eq_Some_conv vec_remove_def
        Let_def split: if_splits)
  have "tl_options (store_floating E d t) = tl_options t" for t :: "'a Tile"
    by (simp add: store_floating_def Let_def split: option.split)
  then show ?thesis using floating_tile_at(1) [OF inv k(1)] k(2) by (simp add: floating_tile_ok_def)
qed

section \<open>Changing tiles in place\<close>

lemma find_mem: "List.find P xs = Some x \<Longrightarrow> x \<in> set xs \<and> P x"
  by (induction xs) (auto split: if_splits)

lemma find_ex: "x \<in> set xs \<Longrightarrow> P x \<Longrightarrow> \<exists>y. List.find P xs = Some y"
  by (induction xs) auto

context layout_element
begin

lemma modify_tile_acts:
  assumes inv: "space_inv E s" and ci: "ci < length (sp_columns s)" and ti: "ti < length (c_tiles (sp_columns s ! ci))"
    and f: "\<And>t. tile_ok E t \<Longrightarrow> animates E f t"
  shows "runs (with_column ci (\<lambda>c. do { ts \<leftarrow> vec_modify ti f (c_tiles c); Some (c\<lparr>c_tiles := ts\<rparr>) }) s) (acts E s id)"
proof -
  let ?f = "\<lambda>c. do { ts \<leftarrow> vec_modify ti f (c_tiles c); Some (c\<lparr>c_tiles := ts\<rparr>) }"
  have c: "column_inv E (sp_columns s ! ci)" using space_partsD(3) [OF space_inv_parts [OF inv] ci] .
  have "runs (?f (sp_columns s ! ci)) (column_cosmetic E (sp_columns s ! ci))"
    using vec_modify_cosmetic [OF c ti f] by simp
  from with_column_cosmetic [OF space_inv_parts [OF inv] ci, where f = ?f, OF this] show ?thesis
    by (rule runs_mono) (rule acts_cosmetic [OF inv])
qed

lemma change_tiled_keeps:
  assumes inv: "space_inv E s" and ne: "sp_columns s \<noteq> []" and i: "targets E s window"
    and f: "\<And>t. tile_ok E t \<Longrightarrow> tile_ok E (f t) \<and> tile_same t (f t)"
  shows "runs (change_tiled E window f s) (keeps E s)"
proof -
  have "option_ok (\<lambda>w. space_has E w s) window" using i by (simp add: targets_def)
  from source_of_has [OF inv ne this] obtain ci ti where src: "source_of E window s = Some (ci, ti)" .
  note b = source_of_bounds [OF inv ne src]
  show ?thesis
    unfolding change_tiled_def src Option.bind.bind_lunit prod.case
    by (rule runs_keeps_id, rule modify_tile_acts [OF inv b]) (simp add: f)
qed

lemma modify_floating_steady:
  assumes inv: "floating_inv E s" and k: "k < length (fl_tiles s)" and f: "animates E f (fl_tiles s ! k)"
  shows "runs (vec_modify k f (fl_tiles s)) (\<lambda>ts. floating_steady E s (s\<lparr>fl_tiles := ts\<rparr>))"
proof -
  note t = floating_tile_at [OF inv k]
  obtain u where u: "f (fl_tiles s ! k) = Some u" "tile_ok E u" "tile_same (fl_tiles s ! k) u"
    using f by (auto simp: runs_iff)
  have "floating_steady E s (s\<lparr>fl_tiles := (fl_tiles s)[k := u]\<rparr>)"
    by (rule floating_set_tile_only [OF inv k tile_same_frame [OF u(3)] floating_tile_ok_same [OF t(1) u(2,3)]])
  then show ?thesis using k u(1) by (simp add: vec_modify_def vec_get_def)
qed

end

text \<open>Only cosmetic changes: the columns, their tiles and the stacking order stay, and so does the focus.\<close>

definition workspace_steady :: "('w, 'id) LayoutEnv \<Rightarrow> ('w, 'id, 'o) LayoutWorkspace \<Rightarrow> ('w, 'id, 'o) LayoutWorkspace \<Rightarrow> bool" where
  "workspace_steady E w w' \<longleftrightarrow> workspace_keeps E w w' \<and> grid E (wk_scrolling w') = grid E (wk_scrolling w) \<and>
     floating_ids E (wk_floating w') = floating_ids E (wk_floating w) \<and>
     fl_active_window_id (wk_floating w') = fl_active_window_id (wk_floating w) \<and>
     wk_floating_is_active w' = wk_floating_is_active w"

lemma workspace_steady_floating:
  assumes "workspace_inv E w" and "floating_steady E (wk_floating w) f"
  shows "workspace_steady E w (w\<lparr>wk_floating := f\<rparr>)"
  using workspace_set_floating [OF assms(1) floating_steady_keeps [OF assms(2)]] assms(2)
  by (simp add: workspace_steady_def floating_steady_def)

lemma on_scrolling_steady:
  assumes "workspace_inv E w" and "runs (f (wk_scrolling w)) (acts E (wk_scrolling w) id)"
  shows "runs (on_scrolling f w) (workspace_steady E w)"
  unfolding on_scrolling_def runs_map_option
proof (rule runs_mono [OF assms(2)])
  fix s assume s: "acts E (wk_scrolling w) id s"
  from workspace_set_scrolling [OF assms(1) keeps_id [OF s]] s
  show "workspace_steady E w (w\<lparr>wk_scrolling := s\<rparr>)" by (simp add: workspace_steady_def acts_def)
qed

text \<open>The animation of a window that is in the workspace.\<close>

context layout_element
begin

lemma animate_window_steady:
  assumes inv: "workspace_inv E w" and i: "i \<in># workspace_ids E w"
  shows "runs (animate_window_from E i p w) (workspace_steady E w)"
proof -
  note I = workspace_invD [OF inv]
  let ?fl = "floating_tiles_with_render_positions_mut E False (wk_floating w)"
  let ?P = "\<lambda>(k, t, pos). el_id E (tl_window t) = i"
  show ?thesis
  proof (cases "List.find ?P ?fl")
    case (Some x)
    obtain k t pos where [simp]: "x = (k, t, pos)" by (cases x)
    have "(k, t, pos) \<in> set ?fl" using find_mem [OF Some] by simp
    then have k: "k < length (fl_tiles (wk_floating w))"
      by (auto simp: floating_tiles_with_render_positions_mut_def tiles_with_offsets_def Let_def mem_enumerate)
    have "runs (vec_modify k (animate_move_from E (point_sub p pos)) (fl_tiles (wk_floating w)))
        (\<lambda>ts. floating_steady E (wk_floating w) ((wk_floating w)\<lparr>fl_tiles := ts\<rparr>))"
      by (rule modify_floating_steady [OF I(2) k, where f = "animate_move_from E (point_sub p pos)",
            OF animate_move_from_ok [OF floating_tile_at(2) [OF I(2) k]]])
    then have "runs (vec_modify k (animate_move_from E (point_sub p pos)) (fl_tiles (wk_floating w)))
        (\<lambda>ts. workspace_steady E w (w\<lparr>wk_floating := (wk_floating w)\<lparr>fl_tiles := ts\<rparr>\<rparr>))"
      by (rule runs_mono) (rule workspace_steady_floating [OF inv])
    then show ?thesis by (simp add: animate_window_from_def Some)
  next
    case None
    have not: "\<not> has_floating E i w"
    proof
      assume "has_floating E i w"
      then obtain k where k: "k < length (fl_tiles (wk_floating w))" "el_id E (tl_window (fl_tiles (wk_floating w) ! k)) = i"
        by (auto simp: has_floating_iff floating_ids_def in_set_conv_nth)
      let ?x = "tiles_with_offsets (wk_floating w) ! k"
      have n: "length (tiles_with_offsets (wk_floating w)) = length (fl_tiles (wk_floating w))"
        using floating_invD(4) [OF I(2)] by (simp add: tiles_with_offsets_def)
      have x: "fst ?x = fl_tiles (wk_floating w) ! k"
        using k(1) floating_invD(4) [OF I(2)] by (simp add: tiles_with_offsets_def)
      have "(k, ?x) \<in> set (enumerate 0 (tiles_with_offsets (wk_floating w)))" using k(1) n by (simp add: mem_enumerate)
      then have "(k, fst ?x, point_add (snd ?x) (tile_render_offset E (fst ?x))) \<in> set ?fl"
        unfolding floating_tiles_with_render_positions_mut_def set_map
        by (intro image_eqI [where x = "(k, ?x)"]) (simp_all add: split_def Let_def)
      then show False using None x k(2) by (auto simp: find_None_iff)
    qed
    then have has: "space_has E i (wk_scrolling w)" using i by (auto elim: in_workspace_cases)
    obtain ps where ps: "positioned_tiles E False (wk_scrolling w) = Some ps"
      "(\<lambda>(i, t, pos, v). (i, t)) ` set ps =
        {((ci, ti), c_tiles (sp_columns (wk_scrolling w) ! ci) ! ti) |ci ti. ci < length (sp_columns (wk_scrolling w)) \<and>
        ti < length (c_tiles (sp_columns (wk_scrolling w) ! ci))}"
      using positioned_tiles_ok [OF I(1)] by (rule runsE)
    let ?ps = "map (\<lambda>(i, t, pos, visible). (i, t, pos)) ps"
    obtain ci ti where c: "ci < length (sp_columns (wk_scrolling w))"
        "ti < length (c_tiles (sp_columns (wk_scrolling w) ! ci))"
        "el_id E (tl_window (c_tiles (sp_columns (wk_scrolling w) ! ci) ! ti)) = i"
      using has by (auto simp: space_has_def column_contains_def in_set_conv_nth)
    then have "((ci, ti), c_tiles (sp_columns (wk_scrolling w) ! ci) ! ti) \<in> (\<lambda>(i, t, pos, v). (i, t)) ` set ps"
      unfolding ps(2) by blast
    then obtain pos v where "((ci, ti), c_tiles (sp_columns (wk_scrolling w) ! ci) ! ti, pos, v) \<in> set ps" by auto
    then have "((ci, ti), c_tiles (sp_columns (wk_scrolling w) ! ci) ! ti, pos) \<in> set ?ps"
      unfolding set_map by (rule rev_image_eqI) simp
    then have "\<exists>x \<in> set ?ps. ?P x" by (rule rev_bexI) (simp add: c(3))
    then have "List.find ?P ?ps \<noteq> None" unfolding find_None_iff by blast
    then obtain x where x: "List.find ?P ?ps = Some x" by blast
    obtain cj tj t q where [simp]: "x = ((cj, tj), t, q)" by (cases x) auto
    have "((cj, tj), t, q) \<in> set ?ps" using find_mem [OF x] by simp
    then obtain v where "((cj, tj), t, q, v) \<in> set ps" by auto
    then have "((cj, tj), t) \<in> (\<lambda>(i, t, pos, v). (i, t)) ` set ps" by (rule rev_image_eqI) simp
    then have b: "cj < length (sp_columns (wk_scrolling w))" "tj < length (c_tiles (sp_columns (wk_scrolling w) ! cj))"
      unfolding ps(2) by auto
    have "runs (on_scrolling (with_column cj (\<lambda>c. do {
            ts \<leftarrow> vec_modify tj (animate_move_from E (point_sub p q)) (c_tiles c); Some (c\<lparr>c_tiles := ts\<rparr>) })) w)
        (workspace_steady E w)"
      by (rule on_scrolling_steady [OF inv], rule modify_tile_acts [OF I(1) b], rule animate_move_from_ok)
    then show ?thesis
      by (simp add: animate_window_from_def None space_tiles_with_render_positions_mut_def ps(1) x)
  qed
qed

end

section \<open>Both layouts at once\<close>

lemma workspace_change:
  assumes inv: "workspace_inv E w" and s: "space_inv E s" "space_env (wk_scrolling w) s"
    and f: "floating_inv E f" "floating_env (wk_floating w) f"
    and a: "focus_ok (space_is_empty s) (floating_is_empty f) a"
    and ids: "\<And>i. count (windows E s + mset (floating_ids E f)) i \<le> 1"
  shows "workspace_inv E (w\<lparr>wk_scrolling := s, wk_floating := f, wk_floating_is_active := a\<rparr>)"
    and "workspace_env w (w\<lparr>wk_scrolling := s, wk_floating := f, wk_floating_is_active := a\<rparr>)"
    and "workspace_ids E (w\<lparr>wk_scrolling := s, wk_floating := f, wk_floating_is_active := a\<rparr>) =
      windows E s + mset (floating_ids E f)"
proof -
  note I = workspace_invD [OF inv]
  have "linked (w\<lparr>wk_scrolling := s, wk_floating := f, wk_floating_is_active := a\<rparr>)"
    using I(3) s(2) f(2) by (simp add: linked_def space_env_def floating_env_def Let_def)
  then show "workspace_inv E (w\<lparr>wk_scrolling := s, wk_floating := f, wk_floating_is_active := a\<rparr>)"
    using I(4) s f a ids by (simp add: workspace_inv_def workspace_config_ok_def workspace_ids_def)
qed (simp_all add: workspace_env_def workspace_ids_def)

text \<open>The emptiness of a layout follows from its windows.\<close>

lemma space_not_empty: "space_inv E s \<Longrightarrow> i \<in># windows E s \<Longrightarrow> \<not> space_is_empty s"
  by (auto simp: space_empty_iff)

lemma floating_not_empty: "i \<in># mset (floating_ids E s) \<Longrightarrow> \<not> floating_is_empty s"
  by (auto simp: floating_is_empty_def floating_ids_def)

lemma fresh_count:
  assumes "\<And>i. count m i \<le> (1 :: nat)" and "j \<notin># m" shows "count (add_mset j m) i \<le> 1"
  using assms(1) [of i] assms(2) by (auto simp: not_in_iff)

section \<open>Adding\<close>

text \<open>A window was added to the floating or the scrolling layout, and got the focus if it was asked for.\<close>

definition window_added ::
    "('w, 'id) LayoutEnv \<Rightarrow> 'id \<Rightarrow> bool \<Rightarrow> bool \<Rightarrow> ('w, 'id, 'o) LayoutWorkspace \<Rightarrow>
     ('w, 'id, 'o) LayoutWorkspace \<Rightarrow> bool" where
  "window_added E i floats focus w w' \<longleftrightarrow> workspace_inv E w' \<and> workspace_env w w' \<and>
     workspace_ids E w' = add_mset i (workspace_ids E w) \<and> 
     (\<forall>j. has_floating E j w' \<longleftrightarrow> (if j = i then floats else has_floating E j w)) \<and>
     (focus \<longrightarrow> workspace_focus E w' = Some i)"

lemma window_added_mono:
  "window_added E i b f w w' \<Longrightarrow> (f' \<Longrightarrow> f) \<Longrightarrow> window_added E i b f' w w'"
  by (simp add: window_added_def)

lemma added_to_scrolling:
  assumes inv: "workspace_inv E w" and new: "i \<notin># workspace_ids E w"
    and s: "space_inv E s" "space_env (wk_scrolling w) s" "windows E s = add_mset i (windows E (wk_scrolling w))"
    and foc: "act \<Longrightarrow> g_focused (grid E s) = Some i"
  shows "window_added E i False act w (activated act FloatingNo (w\<lparr>wk_scrolling := s\<rparr>))"
proof -
  note I = workspace_invD [OF inv]
  define a where "a = (if act then FloatingNo else wk_floating_is_active w)"
  have e: "\<not> space_is_empty s" using space_not_empty [OF s(1), of i] s(3) by simp
  have a: "focus_ok (space_is_empty s) (floating_is_empty (wk_floating w)) a"
    using I(5) e by (auto simp: focus_ok_def a_def floating_active_get_def)
  have m: "windows E s + mset (floating_ids E (wk_floating w)) = add_mset i (workspace_ids E w)"
    using s(3) by (simp add: workspace_ids_def)
  note C = workspace_change [OF inv s(1,2) I(2) floating_env_refl a, unfolded m, OF fresh_count [OF I(6) new]]
  have "activated act FloatingNo (w\<lparr>wk_scrolling := s\<rparr>) =
      w\<lparr>wk_scrolling := s, wk_floating := wk_floating w, wk_floating_is_active := a\<rparr>"
    by (simp add: activated_def a_def)
  with C new foc show ?thesis
    by (simp add: window_added_def has_floating_iff workspace_ids_def workspace_focus_def a_def floating_active_get_def)
qed

lemma added_to_floating:
  assumes inv: "workspace_inv E w" and new: "i \<notin># workspace_ids E w"
    and f: "floating_inv E f" "floating_env (wk_floating w) f"
      "mset (floating_ids E f) = add_mset i (mset (floating_ids E (wk_floating w)))"
    and foc: "act \<Longrightarrow> fl_active_window_id f = Some i"
  shows "window_added E i True act w (activated (act \<or> space_is_empty (wk_scrolling w)) FloatingYes (w\<lparr>wk_floating := f\<rparr>))"
proof -
  note I = workspace_invD [OF inv]
  let ?b = "act \<or> space_is_empty (wk_scrolling w)"
  define a where "a = (if ?b then FloatingYes else wk_floating_is_active w)"
  have "i \<in># mset (floating_ids E f)" using f(3) by simp
  then have e: "\<not> floating_is_empty f" by (rule floating_not_empty)
  have a: "focus_ok (space_is_empty (wk_scrolling w)) (floating_is_empty f) a"
    using e by (auto simp: focus_ok_def a_def floating_active_get_def)
  have m: "windows E (wk_scrolling w) + mset (floating_ids E f) = add_mset i (workspace_ids E w)"
    using f(3) by (simp add: workspace_ids_def)
  note C = workspace_change [OF inv I(1) space_env_refl f(1,2) a, unfolded m, OF fresh_count [OF I(6) new]]
  have "activated ?b FloatingYes (w\<lparr>wk_floating := f\<rparr>) =
      w\<lparr>wk_scrolling := wk_scrolling w, wk_floating := f, wk_floating_is_active := a\<rparr>"
    by (simp add: activated_def a_def)
  moreover have "set_mset (mset (floating_ids E f)) = insert i (set_mset (mset (floating_ids E (wk_floating w))))"
    unfolding f(3) by simp
  ultimately show ?thesis using C foc
    by (simp add: window_added_def has_floating_iff workspace_focus_def a_def floating_active_get_def)
qed

text \<open>The window that has the focus, if there is one.\<close>

definition focused_in ::
    "('w, 'id) LayoutEnv \<Rightarrow> ('w, 'id, 'o) LayoutWorkspace \<Rightarrow> 'w option \<Rightarrow> bool" where
  "focused_in E w a \<longleftrightarrow> (case a of None \<Rightarrow> workspace_ids E w = {#}
     | Some win \<Rightarrow> if floating_focused w then has_floating E (el_id E win) w
                   else space_has E (el_id E win) (wk_scrolling w))"

lemma workspace_active_window_ok:
  assumes inv: "workspace_inv E w"
  shows "runs (workspace_active_window E w) (focused_in E w)"
proof -
  note I = workspace_invD [OF inv]
  show ?thesis
  proof (cases "floating_focused w")
    case True
    then have ne: "\<not> floating_is_empty (wk_floating w)" using I(5) by (auto simp: focus_ok_def split: if_splits)
    have core: "floating_core E (wk_floating w)" by (rule floating_invD(8) [OF I(2)])
    obtain i where i: "fl_active_window_id (wk_floating w) = Some i" "i \<in> set (floating_ids E (wk_floating w))"
      using core ne by (auto simp: floating_core_def floating_is_empty_def split: option.splits)
    then obtain t where "t \<in> set (fl_tiles (wk_floating w))" "el_id E (tl_window t) = i" by (auto simp: floating_ids_def)
    then obtain u where u: "List.find (\<lambda>t. el_id E (tl_window t) = i) (fl_tiles (wk_floating w)) = Some u"
      using find_ex [of t _ "\<lambda>t. el_id E (tl_window t) = i"] by blast
    have "el_id E (tl_window u) = i" using find_mem [OF u] by simp
    then show ?thesis using True i u
      by (simp add: workspace_active_window_def floating_active_window_def focused_in_def has_floating_iff)
  next
    case False
    show ?thesis
    proof (cases "sp_columns (wk_scrolling w) = []")
      case True
      then have "floating_is_empty (wk_floating w)" using False I(5) by (auto simp: focus_ok_def space_is_empty_def split: if_splits)
      then have "workspace_ids E w = {#}"
        using True by (simp add: workspace_ids_def windows_def space_tiles_def floating_is_empty_def floating_ids_def)
      then show ?thesis using False True by (simp add: workspace_active_window_def space_active_window_def focused_in_def)
    next
      case ne: False
      let ?c = "sp_columns (wk_scrolling w) ! sp_active_column_idx (wk_scrolling w)"
      have a: "sp_active_column_idx (wk_scrolling w) < length (sp_columns (wk_scrolling w))"
        by (rule space_core_active [OF space_inv_core [OF I(1)] ne])
      then have c: "?c \<in> set (sp_columns (wk_scrolling w))" by simp
      have k: "c_active_tile_idx ?c < length (c_tiles ?c)"
        using column_invD(2) [OF space_partsD(3) [OF space_inv_parts [OF I(1)] a]] .
      then have "column_contains E (el_id E (tl_window (c_tiles ?c ! c_active_tile_idx ?c))) ?c"
        by (auto simp: column_contains_def)
      then have "space_has E (el_id E (tl_window (c_tiles ?c ! c_active_tile_idx ?c))) (wk_scrolling w)"
        using c by (auto simp: space_has_def)
      then show ?thesis using False ne a k
        by (simp add: workspace_active_window_def space_active_window_def focused_in_def vec_get_def)
    qed
  qed
qed

lemma is_active_pending_fullscreen_ok:
  assumes "workspace_inv E w" shows "\<exists>b. is_active_pending_fullscreen w = Some b"
proof -
  note I = workspace_invD [OF assms]
  show ?thesis using space_core_active [OF space_inv_core [OF I(1)]]
    by (auto simp: is_active_pending_fullscreen_def space_is_active_pending_fullscreen_def vec_get_def)
qed

lemma render_above_ok:
  assumes "space_inv E s" shows "\<exists>b. render_above_top_layer s = Some b"
  using space_core_active [OF space_inv_core [OF assms]]
  by (auto simp: render_above_top_layer_def vec_get_def)

text \<open>The positions of the tiles of a workspace, to find a window in.\<close>

lemma workspace_positions_ok:
  assumes inv: "workspace_inv E w" and i: "i \<in># workspace_ids E w"
  shows "runs (workspace_tiles_with_render_positions E w)
     (\<lambda>ps. \<exists>x. List.find (\<lambda>(t, _, _). el_id E (tl_window t) = i) ps = Some x)"
proof -
  note I = workspace_invD [OF inv]
  obtain ps where ps: "positioned_tiles E True (wk_scrolling w) = Some ps"
    "(\<lambda>(i, t, pos, v). (i, t)) ` set ps =
      {((ci, ti), c_tiles (sp_columns (wk_scrolling w) ! ci) ! ti) |ci ti. ci < length (sp_columns (wk_scrolling w)) \<and>
      ti < length (c_tiles (sp_columns (wk_scrolling w) ! ci))}"
    using positioned_tiles_ok [OF I(1)] by (rule runsE)
  obtain v where v: "is_floating_visible w = Some v"
    using render_above_ok [OF I(1)] that unfolding is_floating_visible_def by (cases "wk_floating_is_active w") auto
  let ?fl = "map (\<lambda>(t, pos). (t, pos, v)) (floating_tiles_with_render_positions E (wk_floating w))"
  have eq: "workspace_tiles_with_render_positions E w = Some (?fl @ map snd ps)"
    by (simp add: workspace_tiles_with_render_positions_def space_tiles_with_render_positions_def ps(1) v)
  have "\<exists>t pos u. (t, pos, u) \<in> set (?fl @ map snd ps) \<and> el_id E (tl_window t) = i"
    using i
  proof (rule in_workspace_cases)
    assume "has_floating E i w"
    then obtain k where k: "k < length (fl_tiles (wk_floating w))" "el_id E (tl_window (fl_tiles (wk_floating w) ! k)) = i"
      by (auto simp: has_floating_iff floating_ids_def in_set_conv_nth)
    have "(fl_tiles (wk_floating w) ! k, fd_logical_pos (fl_data (wk_floating w) ! k)) \<in> set (tiles_with_offsets (wk_floating w))"
      unfolding tiles_with_offsets_def set_zip using k(1) floating_invD(4) [OF I(2)] by auto
    then have "\<exists>pos. (fl_tiles (wk_floating w) ! k, pos, v) \<in> set ?fl"
      unfolding floating_tiles_with_render_positions_def by force
    then show ?thesis using k(2) unfolding set_append by blast
  next
    assume "space_has E i (wk_scrolling w)"
    then obtain ci ti where c: "ci < length (sp_columns (wk_scrolling w))"
        "ti < length (c_tiles (sp_columns (wk_scrolling w) ! ci))"
        "el_id E (tl_window (c_tiles (sp_columns (wk_scrolling w) ! ci) ! ti)) = i"
      by (auto simp: space_has_def column_contains_def in_set_conv_nth)
    then have "((ci, ti), c_tiles (sp_columns (wk_scrolling w) ! ci) ! ti) \<in> (\<lambda>(i, t, pos, v). (i, t)) ` set ps"
      unfolding ps(2) by blast
    then obtain pos u where "((ci, ti), c_tiles (sp_columns (wk_scrolling w) ! ci) ! ti, pos, u) \<in> set ps" by auto
    then have "(c_tiles (sp_columns (wk_scrolling w) ! ci) ! ti, pos, u) \<in> set (map snd ps)"
      unfolding set_map by (rule rev_image_eqI) simp
    then show ?thesis using c(3) unfolding set_append by blast
  qed
  then obtain t pos u where t: "(t, pos, u) \<in> set (?fl @ map snd ps)" "el_id E (tl_window t) = i" by blast
  have "\<exists>x. List.find (\<lambda>(t, _, _). el_id E (tl_window t) = i) (?fl @ map snd ps) = Some x"
    by (rule find_ex [OF t(1)], unfold prod.case, rule t(2))
  then show ?thesis using eq by simp
qed

context layout_element
begin

lemma add_scrolling_added:
  assumes inv: "workspace_inv E w" and t: "tile_fits E (wk_scrolling w) t" and k: "insert_idx k (wk_scrolling w) \<le> length (sp_columns (wk_scrolling w))"
    and new: "el_id E (tl_window t) \<notin># workspace_ids E w"
  shows "runs (on_scrolling (add_tile E k t act wd fw None) w)
     (\<lambda>w'. window_added E (el_id E (tl_window t)) False act w (activated act FloatingNo w'))"
  unfolding on_scrolling_def runs_map_option
proof (rule runs_mono [OF add_tile_ok [OF workspace_invD(1) [OF inv] t k, of None act wd fw, unfolded option.case, OF TrueI]], elim conjE)
  fix s assume s: "space_inv E s" "space_env (wk_scrolling w) s"
    "grid E s = g_add (insert_idx k (wk_scrolling w)) ([el_id E (tl_window t)], 0) act (grid E (wk_scrolling w))"
  have "windows E s = add_mset (el_id E (tl_window t)) (windows E (wk_scrolling w))"
    unfolding windows_grid s(3) g_windows_add by simp
  moreover have "act \<Longrightarrow> g_focused (grid E s) = Some (el_id E (tl_window t))"
    unfolding s(3) using k by (simp add: g_focused_add)
  ultimately show "window_added E (el_id E (tl_window t)) False act w (activated act FloatingNo (w\<lparr>wk_scrolling := s\<rparr>))"
    by (rule added_to_scrolling [OF inv new s(1,2)])
qed

lemma add_right_added:
  assumes inv: "workspace_inv E w" and t: "tile_fits E (wk_scrolling w) t" and i: "space_has E i (wk_scrolling w)"
    and new: "el_id E (tl_window t) \<notin># workspace_ids E w"
  shows "runs (on_scrolling (add_tile_right_of E i t act wd fw) w)
     (\<lambda>w'. window_added E (el_id E (tl_window t)) False act w (activated act FloatingNo w'))"
proof -
  obtain k where k: "space_column_of E i (wk_scrolling w) = Some k" using i by (auto simp: space_column_of_has)
  then have "insert_idx (Some (k + 1)) (wk_scrolling w) \<le> length (sp_columns (wk_scrolling w))"
    using vec_position_SomeD [of "column_contains E i" "sp_columns (wk_scrolling w)" k] by (simp add: space_column_of_def)
  from add_scrolling_added [OF inv t this new] show ?thesis
    by (simp add: on_scrolling_def add_tile_right_of_def k)
qed

lemma add_floating_added:
  assumes inv: "workspace_inv E w" and t: "tile_ok E t" and k: "k \<le> length (fl_tiles (wk_floating w))"
    and new: "el_id E (tl_window t) \<notin># workspace_ids E w"
    and kin: "kin_ok E (tl_window t # map tl_window (fl_tiles (wk_floating w)))"
  shows "runs (on_floating (floating_add_tile_at E k t act) w)
     (\<lambda>w'. window_added E (el_id E (tl_window t)) True act w
        (activated (act \<or> space_is_empty (wk_scrolling w')) FloatingYes w'))"
  unfolding on_floating_def runs_map_option
proof (rule runs_mono [OF floating_add_tile_at_ok [OF workspace_invD(2) [OF inv] k t _ kin]], goal_cases)
  case 1
  then show ?case using new by (simp add: workspace_ids_def)
next
  case (2 f)
  then show ?case using added_to_floating [OF inv new, of f act] by simp
qed

end

text \<open>What may be asked of adding a tile: the column is in range, the neighbour is in the workspace.\<close>

fun add_target_ok :: "('w, 'id) LayoutEnv \<Rightarrow> 'id WorkspaceAddWindowTarget \<Rightarrow> ('w, 'id, 'o) LayoutWorkspace \<Rightarrow> bool" where
  "add_target_ok E AddAuto w = True"
| "add_target_ok E (AddNewColumnAt k) w = (k \<le> length (sp_columns (wk_scrolling w)))"
| "add_target_ok E (AddNextTo i) w = (i \<in># workspace_ids E w)"

lemma map_smart_Some: "m \<noteq> None \<Longrightarrow> \<exists>b. map_smart m act = Some b"
  by (cases act) (auto simp: map_smart_def)

lemma tile_ok_floating_fields [simp]:
  "tile_ok E (t\<lparr>tl_restore_to_floating := b\<rparr>) = tile_ok E t" "tile_ok E (t\<lparr>tl_floating_pos := p\<rparr>) = tile_ok E t"
  "tile_fits E s (t\<lparr>tl_restore_to_floating := b\<rparr>) = tile_fits E s t" "tile_fits E s (t\<lparr>tl_floating_pos := p\<rparr>) = tile_fits E s t"
  by (simp_all add: tile_ok_def presets_ok_def tile_fits_def cong: option.case_cong)

lemma space_position_ok:
  assumes inv: "space_inv E s" and i: "space_has E i s"
  shows "runs (space_tiles_with_render_positions E s)
     (\<lambda>ps. \<exists>x. List.find (\<lambda>(t, _, _). el_id E (tl_window t) = i) ps = Some x)"
proof -
  obtain ps where ps: "positioned_tiles E True s = Some ps"
    "(\<lambda>(i, t, pos, v). (i, t)) ` set ps = {((ci, ti), c_tiles (sp_columns s ! ci) ! ti) |ci ti.
       ci < length (sp_columns s) \<and> ti < length (c_tiles (sp_columns s ! ci))}"
    using positioned_tiles_ok [OF inv] by (rule runsE)
  obtain ci ti where c: "ci < length (sp_columns s)" "ti < length (c_tiles (sp_columns s ! ci))"
      "el_id E (tl_window (c_tiles (sp_columns s ! ci) ! ti)) = i"
    using i by (auto simp: space_has_def column_contains_def in_set_conv_nth)
  then have "((ci, ti), c_tiles (sp_columns s ! ci) ! ti) \<in> (\<lambda>(i, t, pos, v). (i, t)) ` set ps"
    unfolding ps(2) by blast
  then obtain pos u where "((ci, ti), c_tiles (sp_columns s ! ci) ! ti, pos, u) \<in> set ps" by auto
  then have t: "(c_tiles (sp_columns s ! ci) ! ti, pos, u) \<in> set (map snd ps)"
    unfolding set_map by (rule rev_image_eqI) simp
  have "\<exists>x. List.find (\<lambda>(t, _, _). el_id E (tl_window t) = i) (map snd ps) = Some x"
    by (rule find_ex [OF t], unfold prod.case, rule c(3))
  then show ?thesis by (simp add: space_tiles_with_render_positions_def ps(1))
qed

context layout_element
begin

lemma place_over_ok:
  assumes inv: "workspace_inv E w" and i: "space_has E i (wk_scrolling w)"
  shows "runs (place_over E i t w) (\<lambda>t'. \<exists>p. t' = t\<lparr>tl_floating_pos := Some p\<rparr>)"
proof -
  obtain ps x where ps: "space_tiles_with_render_positions E (wk_scrolling w) = Some ps"
    "List.find (\<lambda>(t, _, _). el_id E (tl_window t) = i) ps = Some x"
    using space_position_ok [OF workspace_invD(1) [OF inv] i] by (auto simp: runs_iff)
  then show ?thesis by (cases x) (auto simp: place_over_def Let_def)
qed

lemma smart_next_ok:
  assumes inv: "workspace_inv E w" and i: "i \<in># workspace_ids E w"
  shows "\<exists>b. map_smart (do { a \<leftarrow> workspace_active_window E w; win \<leftarrow> a; Some (el_id E win = j) }) act = Some b"
proof -
  obtain a where a: "workspace_active_window E w = Some a" "focused_in E w a"
    using workspace_active_window_ok [OF inv] by (rule runsE)
  then obtain win where "a = Some win" using i by (cases a) (auto simp: focused_in_def)
  then show ?thesis using a(1) by (intro map_smart_Some) simp
qed

lemma workspace_add_tile_ok:
  assumes inv: "workspace_inv E w" and fits: "tile_fits E (wk_scrolling w) t" and tgt: "add_target_ok E tgt w"
    and new: "el_id E (tl_window t) \<notin># workspace_ids E w"
    and kin: "kin_ok E (tl_window t # map tl_window (fl_tiles (wk_floating w)))"
  shows "runs (workspace_add_tile E t tgt act wd fw fl w) (window_added E (el_id E (tl_window t))
     (fl \<and> is_normal (el_pending_sizing_mode E (tl_window t)) \<and> (\<forall>k. tgt \<noteq> AddNewColumnAt k)) (act = ActivateYes) w)"
proof -
  define u where "u = t\<lparr>tl_restore_to_floating := fl\<rparr>"
  define floats where "floats = (fl \<and> is_normal (el_pending_sizing_mode E (tl_window u)))"
  have u: "tile_fits E (wk_scrolling w) u" "tile_ok E u" "tl_window u = tl_window t"
    using fits by (simp_all add: u_def tile_fits_def)
  note new' = new [folded u(3)] and kin' = kin [folded u(3)]
  have fl: "floats \<longleftrightarrow> fl \<and> is_normal (el_pending_sizing_mode E (tl_window t))" by (simp add: floats_def u(3))
  have scr: "runs (do { w \<leftarrow> on_scrolling (add_tile E k u a wd fw None) w; Some (activated a FloatingNo w) })
      (window_added E (el_id E (tl_window t)) False (act = ActivateYes) w)"
    if k: "insert_idx k (wk_scrolling w) \<le> length (sp_columns (wk_scrolling w))" and a: "act = ActivateYes \<Longrightarrow> a" for k a
  proof -
    have "runs (do { w \<leftarrow> on_scrolling (add_tile E k u a wd fw None) w; Some (activated a FloatingNo w) })
        (window_added E (el_id E (tl_window t)) False a w)"
      using add_scrolling_added [OF inv u(1) k new', of a wd fw] u(3) by simp
    then show ?thesis by (rule runs_mono) (erule window_added_mono, rule a)
  qed
  have right: "runs (do { w \<leftarrow> on_scrolling (add_tile_right_of E i u a wd fw) w; Some (activated a FloatingNo w) })
      (window_added E (el_id E (tl_window t)) False (act = ActivateYes) w)"
    if i: "space_has E i (wk_scrolling w)" and a: "act = ActivateYes \<Longrightarrow> a" for i a
  proof -
    have "runs (do { w \<leftarrow> on_scrolling (add_tile_right_of E i u a wd fw) w; Some (activated a FloatingNo w) })
        (window_added E (el_id E (tl_window t)) False a w)"
      using add_right_added [OF inv u(1) i new', of a wd fw] u(3) by simp
    then show ?thesis by (rule runs_mono) (erule window_added_mono, rule a)
  qed
  have auto_idx: "insert_idx None (wk_scrolling w) \<le> length (sp_columns (wk_scrolling w))"
    using space_core_active [OF space_inv_core [OF workspace_invD(1) [OF inv]]] by auto
  have flo: "runs (do { w \<leftarrow> on_floating (floating_add_tile_at E k (u\<lparr>tl_floating_pos := p\<rparr>) a) w;
        Some (activated (a \<or> space_is_empty (wk_scrolling w)) FloatingYes w) })
      (window_added E (el_id E (tl_window t)) True (act = ActivateYes) w)"
    if k: "k \<le> length (fl_tiles (wk_floating w))" and a: "act = ActivateYes \<Longrightarrow> a" for k p a
  proof -
    have "runs (do { w \<leftarrow> on_floating (floating_add_tile_at E k (u\<lparr>tl_floating_pos := p\<rparr>) a) w;
          Some (activated (a \<or> space_is_empty (wk_scrolling w)) FloatingYes w) })
        (window_added E (el_id E (tl_window t)) True a w)"
      using add_floating_added [OF inv, of "u\<lparr>tl_floating_pos := p\<rparr>" k a] u that new' kin' by simp
    then show ?thesis by (rule runs_mono) (erule window_added_mono, rule a)
  qed
  have flo0: "runs (do { w \<leftarrow> on_floating (floating_add_tile E u a) w;
        Some (activated (a \<or> space_is_empty (wk_scrolling w)) FloatingYes w) })
      (window_added E (el_id E (tl_window t)) True (act = ActivateYes) w)" if "act = ActivateYes \<Longrightarrow> a" for a
    using flo [of 0 a "tl_floating_pos u", OF _ that] by (simp add: floating_add_tile_def [abs_def])
  have smart: "map_smart m act = Some a \<Longrightarrow> act = ActivateYes \<Longrightarrow> a" for m a by (simp add: map_smart_def)
  show ?thesis
  proof (cases tgt)
    case AddAuto
    obtain b where b: "is_active_pending_fullscreen w = Some b" using is_active_pending_fullscreen_ok [OF inv] ..
    obtain a where a: "map_smart (map_option Not (is_active_pending_fullscreen w)) act = Some a"
      using map_smart_Some [of "map_option Not (is_active_pending_fullscreen w)" act] b by auto
    have "workspace_add_tile E t tgt act wd fw fl w =
        (if floats then do { w \<leftarrow> on_floating (floating_add_tile E u a) w;
                             Some (activated (a \<or> space_is_empty (wk_scrolling w)) FloatingYes w) }
         else do { w \<leftarrow> on_scrolling (add_tile E None u a wd fw None) w; Some (activated a FloatingNo w) })"
      by (simp add: workspace_add_tile_def AddAuto u_def [symmetric] floats_def [symmetric] a)
    then show ?thesis using flo0 [OF smart [OF a]] scr [OF auto_idx smart [OF a]] AddAuto
      by (cases floats) (simp_all add: fl [symmetric] del: runs_bind)
  next
    case (AddNewColumnAt k)
    obtain a where a: "map_smart (Some False) act = Some a"
      using map_smart_Some [of "Some False" act] by auto
    then show ?thesis using scr [of "Some k" a, OF _ smart [OF a]] tgt
      by (simp add: workspace_add_tile_def AddNewColumnAt u_def [symmetric] del: runs_bind)
  next
    case (AddNextTo i)
    then have i: "i \<in># workspace_ids E w" using tgt by simp
    obtain a where a: "map_smart (do { a \<leftarrow> workspace_active_window E w; win \<leftarrow> a; Some (el_id E win = i) }) act = Some a"
      using smart_next_ok [OF inv i] by blast
    have eq: "workspace_add_tile E t tgt act wd fw fl w =
        (if floats
         then do {
           w \<leftarrow> (if has_floating E i w then on_floating (floating_add_tile_above E i u a) w
                 else do { u \<leftarrow> place_over E i u w; on_floating (floating_add_tile E u a) w });
           Some (activated (a \<or> space_is_empty (wk_scrolling w)) FloatingYes w) }
         else if has_floating E i w
         then do { w \<leftarrow> on_scrolling (add_tile E None u a wd fw None) w; Some (activated a FloatingNo w) }
         else do { w \<leftarrow> on_scrolling (add_tile_right_of E i u a wd fw) w; Some (activated a FloatingNo w) })"
      by (simp add: workspace_add_tile_def AddNextTo u_def [symmetric] floats_def [symmetric] a)
    show ?thesis
    proof (cases "has_floating E i w")
      case True
      then obtain k where k: "floating_idx_of E i (wk_floating w) = Some k"
        using idx_of_mem [of i E "wk_floating w"] by (auto simp: has_floating_iff)
      note b = idx_ofD(1) [OF k] and n = floating_invD(4) [OF workspace_invD(2) [OF inv]]
      obtain p where p: "floating_add_tile_above E i u a (wk_floating w) =
          floating_add_tile_at E k (u\<lparr>tl_floating_pos := p\<rparr>) a (wk_floating w)"
        using b n by (auto simp: floating_add_tile_above_def k Let_def vec_get_def)
      have "on_floating (floating_add_tile_above E i u a) w = on_floating (floating_add_tile_at E k (u\<lparr>tl_floating_pos := p\<rparr>) a) w"
        by (simp add: on_floating_def p)
      then show ?thesis unfolding eq
        using True flo [of k a p, OF _ smart [OF a]] b scr [OF auto_idx smart [OF a]] AddNextTo
        by (cases floats) (simp_all add: fl [symmetric] del: runs_bind)
    next
      case False
      then have i: "space_has E i (wk_scrolling w)" using i by (auto elim: in_workspace_cases)
      obtain v p where "place_over E i u w = Some v" "v = u\<lparr>tl_floating_pos := Some p\<rparr>"
        using place_over_ok [OF inv i, of u] by (auto simp: runs_iff)
      then show ?thesis unfolding eq
        using False flo0 [of a] flo [of 0 a "Some p", OF _ smart [OF a]] right [OF i smart [OF a]] AddNextTo
        by (cases floats) (simp_all add: floating_add_tile_def [abs_def] fl [symmetric])
    qed
  qed
qed

end

end
