(* ===== verification/Layout_Workspace_Switch.thy ===== *)
theory Layout_Workspace_Switch
  imports Layout_Workspace_Moves
begin

text \<open>
  Windows that change between the scrolling and the floating layout of a workspace, and the modes
  (fullscreen, maximized) that make them do so.
\<close>

section \<open>The window that has the focus\<close>

definition named_or_focused ::
    "('w, 'id) LayoutEnv \<Rightarrow> 'id option \<Rightarrow> ('w, 'id, 'o) LayoutWorkspace \<Rightarrow> 'id option" where
  "named_or_focused E window w = (case window of Some i \<Rightarrow> Some i | None \<Rightarrow> workspace_focus E w)"

lemma g_focused_in:
  assumes "space_inv E s" and "g_focused (grid E s) = Some j" shows "j \<in># windows E s"
proof -
  have ne: "sp_columns s \<noteq> []" using assms(2) by (auto simp: g_focused_def)
  let ?c = "sp_columns s ! sp_active_column_idx s"
  have a: "sp_active_column_idx s < length (sp_columns s)" by (rule space_core_active [OF space_inv_core [OF assms(1)] ne])
  have k: "c_active_tile_idx ?c < length (c_tiles ?c)"
    using column_invD(2) [OF space_partsD(3) [OF space_inv_parts [OF assms(1)] a]] .
  have "j = el_id E (tl_window (c_tiles ?c ! c_active_tile_idx ?c))"
    using assms(2) ne a k by (simp add: g_focused_def column_cell_def)
  then have "column_contains E j ?c" using k by (auto simp: column_contains_def)
  then show ?thesis using a by (auto simp: space_has_def simp flip: space_has_iff)
qed

lemma workspace_focus_in:
  assumes inv: "workspace_inv E w" and "workspace_focus E w = Some j"
  shows "if floating_focused w then has_floating E j w else j \<in># windows E (wk_scrolling w)"
  using assms(2) floating_active_ids [OF floating_invD(8) [OF workspace_invD(2) [OF inv]]]
    g_focused_in [OF workspace_invD(1) [OF inv]]
  by (auto simp: workspace_focus_def has_floating_iff)

lemma workspace_focus_ids: "workspace_inv E w \<Longrightarrow> workspace_focus E w = Some j \<Longrightarrow> j \<in># workspace_ids E w"
  by (drule (1) workspace_focus_in) (auto simp: workspace_ids_def has_floating_iff split: if_splits)

lemma active_window_focus:
  assumes inv: "workspace_inv E w"
  shows "\<exists>a. workspace_active_window E w = Some a \<and> map_option (el_id E) a = workspace_focus E w"
proof (cases "floating_focused w")
  case True
  have "map_option (el_id E) (floating_active_window E (wk_floating w)) = fl_active_window_id (wk_floating w)"
  proof (cases "fl_active_window_id (wk_floating w)")
    case None
    then show ?thesis by (simp add: floating_active_window_def)
  next
    case (Some i)
    then have "i \<in> set (floating_ids E (wk_floating w))"
      using floating_active_ids [OF floating_invD(8) [OF workspace_invD(2) [OF inv]]] by simp
    then obtain t where "t \<in> set (fl_tiles (wk_floating w))" "el_id E (tl_window t) = i" by (auto simp: floating_ids_def)
    then obtain u where u: "List.find (\<lambda>t. el_id E (tl_window t) = i) (fl_tiles (wk_floating w)) = Some u"
      using find_ex [of t _ "\<lambda>t. el_id E (tl_window t) = i"] by blast
    with find_mem [OF u] Some show ?thesis by (simp add: floating_active_window_def)
  qed
  then show ?thesis using True by (simp add: workspace_active_window_def workspace_focus_def)
next
  case False
  note I = workspace_invD(1) [OF inv]
  show ?thesis
  proof (cases "sp_columns (wk_scrolling w) = []")
    case True
    then show ?thesis using False
      by (simp add: workspace_active_window_def space_active_window_def workspace_focus_def g_focused_def)
  next
    case ne: False
    have a: "sp_active_column_idx (wk_scrolling w) < length (sp_columns (wk_scrolling w))"
      by (rule space_core_active [OF space_inv_core [OF I] ne])
    have "c_active_tile_idx (sp_columns (wk_scrolling w) ! sp_active_column_idx (wk_scrolling w)) <
        length (c_tiles (sp_columns (wk_scrolling w) ! sp_active_column_idx (wk_scrolling w)))"
      using column_invD(2) [OF space_partsD(3) [OF space_inv_parts [OF I] a]] .
    then show ?thesis using False ne a
      by (simp add: workspace_active_window_def space_active_window_def vec_get_def workspace_focus_def g_focused_def
          column_cell_def)
  qed
qed

section \<open>Taking a tile out\<close>

context layout_element
begin

lemma take_scrolling:
  assumes inv: "space_inv E s" and has: "i \<in># windows E s"
  shows "runs (remove_tile E i s) (\<lambda>(r, s'). space_inv E s' \<and> space_env s s' \<and>
     el_id E (tl_window (rm_tile r)) = i \<and> windows E s = add_mset i (windows E s') \<and> tile_fits E s (rm_tile r) \<and>
     tl_window (rm_tile r) \<in> tl_window ` set (space_tiles s))"
proof -
  have has': "space_has E i s" using has by (simp add: space_has_iff)
  obtain r s' where r: "remove_tile E i s = Some (r, s')" "space_inv E s'" "space_env s s'"
      "el_id E (tl_window (rm_tile r)) = i" "windows E s = add_mset i (windows E s')"
    using remove_tile_ok [OF inv has'] by (auto simp: runs_iff)
  obtain ci ti where k: "space_column_of E i s = Some ci" "column_position E i (sp_columns s ! ci) = Some ti"
      "remove_tile_by_idx E ci ti None s = Some (r, s')"
    using r(1) by (auto simp: remove_tile_def bind_eq_Some_conv vec_get_def split: if_splits)
  have "ci < length (sp_columns s)"
    using k(1) vec_position_SomeD [of "column_contains E i" "sp_columns s" ci] by (simp add: space_column_of_def)
  from runs_SomeD [OF remove_tile_by_idx_ok [OF inv this conjunct1 [OF column_position_SomeD [OF k(2)]], of None] k(3)]
  have "tile_fits E s (rm_tile r)" by simp
  then show ?thesis using r remove_tile_window [OF r(1)] by simp
qed

lemma take_floating:
  assumes inv: "workspace_inv E w" and has: "has_floating E i w"
  shows "runs (floating_remove_tile E i (wk_floating w)) (\<lambda>(r, f). floating_inv E f \<and> floating_env (wk_floating w) f \<and>
     el_id E (tl_window (rm_tile r)) = i \<and> tile_fits E (wk_scrolling w) (rm_tile r) \<and>
     mset (floating_ids E (wk_floating w)) = add_mset i (mset (floating_ids E f)))"
proof -
  note I = workspace_invD [OF inv]
  have i: "i \<in> set (floating_ids E (wk_floating w))" using has by (simp add: has_floating_iff)
  obtain r f where r: "floating_remove_tile E i (wk_floating w) = Some (r, f)" "floating_inv E f"
      "floating_env (wk_floating w) f" "floating_ids E f = remove1 i (floating_ids E (wk_floating w))"
      "tile_ok E (rm_tile r)" "el_id E (tl_window (rm_tile r)) = i"
    using floating_remove_ok [OF I(2) i] by (auto simp: runs_iff)
  have "tl_options (rm_tile r) = sp_options (wk_scrolling w)"
    using floating_remove_options [OF I(2) r(1)] I(3) by (simp add: linked_def Let_def)
  then show ?thesis using r i by (simp add: tile_fits_def)
qed

end

section \<open>Changing the layout\<close>

text \<open>A window changed its layout; all others stayed, and it kept the focus if it had it.\<close>

definition switched ::
    "('w, 'id) LayoutEnv \<Rightarrow> 'id \<Rightarrow> ('w, 'id, 'o) LayoutWorkspace \<Rightarrow> ('w, 'id, 'o) LayoutWorkspace \<Rightarrow> bool" where
  "switched E i w w' \<longleftrightarrow> workspace_keeps E w w' \<and>
     (if has_floating E i w then windows E (wk_scrolling w') = add_mset i (windows E (wk_scrolling w))
      else windows E (wk_scrolling w) = add_mset i (windows E (wk_scrolling w'))) \<and>
     (workspace_focus E w = Some i \<longrightarrow> workspace_focus E w' = Some i)"

lemma switchedD:
  assumes "switched E i w w'"
  shows "workspace_keeps E w w'" and "workspace_inv E w'" and "workspace_ids E w' = workspace_ids E w"
    and "has_floating E i w \<Longrightarrow> space_has E i (wk_scrolling w')"
    and "workspace_focus E w = Some i \<Longrightarrow> workspace_focus E w' = Some i"
  using assms by (auto simp: switched_def preserved_def space_has_iff)

lemma switched_floating:
  assumes inv: "workspace_inv E w" and "switched E i w w'"
  shows "has_floating E i w' \<longleftrightarrow> \<not> has_floating E i w"
    and "j \<noteq> i \<Longrightarrow> has_floating E j w' \<longleftrightarrow> has_floating E j w"
proof -
  have ids: "windows E (wk_scrolling w') + mset (floating_ids E (wk_floating w')) =
      windows E (wk_scrolling w) + mset (floating_ids E (wk_floating w))"
    using switchedD(3) [OF assms(2)] by (simp add: workspace_ids_def)
  have "has_floating E i w \<Longrightarrow> \<not> has_floating E i w'"
    using not_in_both [OF switchedD(2) [OF assms(2)]] switchedD(4) [OF assms(2)] by simp
  moreover have "has_floating E i w'" if "\<not> has_floating E i w"
  proof -
    have "windows E (wk_scrolling w) = add_mset i (windows E (wk_scrolling w'))"
      using assms(2) that by (simp add: switched_def)
    with ids have "mset (floating_ids E (wk_floating w')) = add_mset i (mset (floating_ids E (wk_floating w)))" by simp
    then show ?thesis unfolding has_floating_iff by simp
  qed
  ultimately show "has_floating E i w' \<longleftrightarrow> \<not> has_floating E i w" by blast
  assume j: "j \<noteq> i"
  have "count (windows E (wk_scrolling w')) j = count (windows E (wk_scrolling w)) j"
    using assms(2) j by (auto simp: switched_def split: if_splits)
  moreover have "count (windows E (wk_scrolling w') + mset (floating_ids E (wk_floating w'))) j =
      count (windows E (wk_scrolling w) + mset (floating_ids E (wk_floating w))) j"
    unfolding ids ..
  ultimately have "count (mset (floating_ids E (wk_floating w'))) j = count (mset (floating_ids E (wk_floating w))) j"
    by simp
  then show "has_floating E j w' \<longleftrightarrow> has_floating E j w" unfolding has_floating_iff by (metis count_eq_zero_iff)
qed

lemma switched_steady:
  assumes "switched E i w v" and "workspace_steady E v w'" shows "switched E i w w'"
  using assms workspace.trans [of E w v w']
  by (auto simp: switched_def workspace_steady_def windows_grid workspace_focus_def)

context layout_element
begin

lemma float_to_scrolling_ok:
  assumes inv: "workspace_inv E w" and has: "has_floating E i w" and act: "act \<longleftrightarrow> workspace_focus E w = Some i"
  shows "runs (float_to_scrolling E i act w) (switched E i w)"
proof -
  note I = workspace_invD [OF inv]
  let ?s = "wk_scrolling w" and ?f = "wk_floating w"
  obtain r f where r: "floating_remove_tile E i ?f = Some (r, f)" "floating_inv E f" "floating_env ?f f"
      "el_id E (tl_window (rm_tile r)) = i" "tile_fits E ?s (rm_tile r)"
      "mset (floating_ids E ?f) = add_mset i (mset (floating_ids E f))"
    using take_floating [OF inv has] by (auto simp: runs_iff)
  have k: "insert_idx None ?s \<le> length (sp_columns ?s)"
    using space_core_active [OF space_inv_core [OF I(1)]] by auto
  obtain s where s: "add_tile E None (rm_tile r) act (rm_width r) (rm_is_full_width r) None ?s = Some s"
      "space_inv E s" "space_env ?s s" "grid E s = g_add (insert_idx None ?s) ([i], 0) act (grid E ?s)"
    using add_tile_ok [OF I(1) r(5) k, of None act "rm_width r" "rm_is_full_width r"] r(4) by (auto simp: runs_iff)
  have ws: "windows E s = add_mset i (windows E ?s)" unfolding windows_grid s(4) g_windows_add by simp
  define a where "a = (if act then FloatingNo else wk_floating_is_active w)"
  define w' where "w' = w\<lparr>wk_scrolling := s, wk_floating := f, wk_floating_is_active := a\<rparr>"
  have "\<not> floating_active_get a" if "floating_is_empty f"
  proof
    assume a': "floating_active_get a"
    then have foc: "floating_focused w" "\<not> act" by (auto simp: a_def floating_active_get_def split: if_splits)
    obtain j where j: "fl_active_window_id ?f = Some j" "j \<in># mset (floating_ids E ?f)"
      using floating_invD(8) [OF I(2)] has by (auto simp: floating_core_def has_floating_iff floating_ids_def split: option.splits)
    then have "j \<noteq> i" using foc act by (simp add: workspace_focus_def)
    then have "j \<in># mset (floating_ids E f)" using j(2) r(6) by simp
    from floating_not_empty [OF this] show False using that by simp
  qed
  then have foc: "focus_ok (space_is_empty s) (floating_is_empty f) a"
    using space_not_empty [OF s(2), of i] ws by (simp add: focus_ok_def)
  have m: "windows E s + mset (floating_ids E f) = workspace_ids E w"
    using ws r(6) by (simp add: workspace_ids_def)
  note C = workspace_change [OF inv s(2,3) r(2,3) foc, unfolded m, OF I(6), folded w'_def]
  have "workspace_focus E w' = Some i" if "workspace_focus E w = Some i"
    using that act s(4) k by (simp add: workspace_focus_def w'_def a_def floating_active_get_def g_focused_add)
  then have "switched E i w w'" using C has ws by (simp add: switched_def preserved_def w'_def)
  moreover have "activated act FloatingNo (w\<lparr>wk_floating := f, wk_scrolling := s\<rparr>) = w'"
    by (cases act) (simp_all add: activated_def w'_def a_def)
  ultimately show ?thesis using r(1) s(1) by (simp add: float_to_scrolling_def on_floating_ret_def on_scrolling_def)
qed

lemma float_near_ok:
  "tile_ok E (float_near E p t w) = tile_ok E t" "tl_window (float_near E p t w) = tl_window t"
  by (simp_all add: float_near_def Let_def)

lemma stop_moves_ok:
  "tile_ok E t \<Longrightarrow> tile_ok E (stop_move_animations t)" "tl_window (stop_move_animations t) = tl_window t"
  by (simp_all add: stop_move_animations_def tile_ok_def)

lemma scrolling_to_float_ok:
  assumes inv: "workspace_inv E w" and has: "i \<in># windows E (wk_scrolling w)"
    and act: "act \<longleftrightarrow> workspace_focus E w = Some i" and kin: "kin_ok E (map tl_window (workspace_tiles w))"
  shows "runs (scrolling_to_float E i act p w) (switched E i w)"
proof -
  note I = workspace_invD [OF inv]
  let ?s = "wk_scrolling w" and ?f = "wk_floating w"
  have not: "\<not> has_floating E i w" using not_in_both [OF inv] has by (simp add: space_has_iff)
  obtain r s where r: "remove_tile E i ?s = Some (r, s)" "space_inv E s" "space_env ?s s"
      "el_id E (tl_window (rm_tile r)) = i" "windows E ?s = add_mset i (windows E s)" "tile_ok E (rm_tile r)"
      "tl_window (rm_tile r) \<in> tl_window ` set (space_tiles ?s)"
    using take_scrolling [OF I(1) has] by (auto simp: runs_iff tile_fits_def)
  define t where "t = float_near E p (stop_move_animations (rm_tile r)) (w\<lparr>wk_scrolling := s\<rparr>)"
  have t: "tile_ok E t" "tl_window t = tl_window (rm_tile r)"
    using r(6) by (simp_all add: t_def float_near_ok stop_moves_ok)
  have new: "el_id E (tl_window t) \<notin> set (floating_ids E ?f)" using not t(2) r(4) by (simp add: has_floating_iff)
  have "set (tl_window t # map tl_window (fl_tiles ?f)) \<subseteq> set (map tl_window (workspace_tiles w))"
    using r(7) t(2) by (auto simp: workspace_tiles_def)
  then have kin': "kin_ok E (tl_window t # map tl_window (fl_tiles ?f))" by (rule kin_ok_subset [OF kin])
  obtain f where f: "floating_add_tile E t act ?f = Some f" "floating_inv E f" "floating_env ?f f"
      "mset (floating_ids E f) = add_mset i (mset (floating_ids E ?f))"
      "fl_active_window_id f = (if act \<or> fl_tiles ?f = [] then Some i else fl_active_window_id ?f)"
    using floating_add_tile_at_ok [OF I(2) le0 t(1) new kin', of act] t(2) r(4)
    unfolding floating_add_tile_def runs_iff by metis
  define a where "a = (if act then FloatingYes else wk_floating_is_active w)"
  define w' where "w' = w\<lparr>wk_scrolling := s, wk_floating := f, wk_floating_is_active := a\<rparr>"
  have "floating_active_get a" if "space_is_empty s"
  proof (rule ccontr)
    assume "\<not> floating_active_get a"
    then have a': "\<not> act" "\<not> floating_focused w" by (auto simp: a_def floating_active_get_def split: if_splits)
    have "sp_columns ?s \<noteq> []" using has by (auto simp: windows_def space_tiles_def)
    then obtain j where j: "workspace_focus E w = Some j" using a'(2) by (auto simp: workspace_focus_def g_focused_def)
    then have "j \<in># windows E ?s" "j \<noteq> i" using workspace_focus_in [OF inv j] a' act by auto
    then have "j \<in># windows E s" using r(5) by simp
    from space_not_empty [OF r(2) this] show False using that by simp
  qed
  moreover have "i \<in># mset (floating_ids E f)" using f(4) by simp
  note floating_not_empty [OF this]
  ultimately have foc: "focus_ok (space_is_empty s) (floating_is_empty f) a" by (simp add: focus_ok_def)
  have m: "windows E s + mset (floating_ids E f) = workspace_ids E w"
    using f(4) r(5) by (simp add: workspace_ids_def)
  note C = workspace_change [OF inv r(2,3) f(2,3) foc, unfolded m, OF I(6), folded w'_def]
  have "workspace_focus E w' = Some i" if "workspace_focus E w = Some i"
    using that act f(5) by (simp add: workspace_focus_def w'_def a_def floating_active_get_def)
  then have "switched E i w w'" using C not r(5) by (simp add: switched_def preserved_def w'_def)
  moreover have "activated act FloatingYes (w\<lparr>wk_scrolling := s, wk_floating := f\<rparr>) = w'"
    by (cases act) (simp_all add: activated_def w'_def a_def)
  ultimately show ?thesis
    using r(1) f(1) by (simp add: scrolling_to_float_def on_floating_def on_scrolling_ret_def t_def)
qed

lemma toggle_window_floating_ok:
  assumes inv: "workspace_inv E w" and kin: "kin_ok E (map tl_window (workspace_tiles w))"
    and target: "option_ok (\<lambda>i. i \<in># workspace_ids E w) window"
  shows "runs (toggle_window_floating E window w) (\<lambda>w'. case named_or_focused E window w of
     None \<Rightarrow> w' = w | Some i \<Rightarrow> switched E i w w')"
proof -
  obtain a where a: "workspace_active_window E w = Some a" "map_option (el_id E) a = workspace_focus E w"
    using active_window_focus [OF inv] by blast
  show ?thesis
  proof (cases "named_or_focused E window w")
    case None
    then have "window = None" "workspace_focus E w = None" by (auto simp: named_or_focused_def split: option.splits)
    then show ?thesis using a by (simp add: toggle_window_floating_def named_or_focused_def)
  next
    case (Some i)
    have i: "i \<in># workspace_ids E w"
      using Some target workspace_focus_ids [OF inv] by (auto simp: named_or_focused_def split: option.splits)
    define act where "act = (case window of None \<Rightarrow> True | Some i \<Rightarrow> Some i = workspace_focus E w)"
    have act: "act \<longleftrightarrow> workspace_focus E w = Some i"
      using Some by (auto simp: act_def named_or_focused_def split: option.splits)
    obtain ps t p v where ps: "workspace_tiles_with_render_positions E w = Some ps"
        "List.find (\<lambda>(t, _, _). el_id E (tl_window t) = i) ps = Some (t, p, v)"
      using workspace_positions_ok [OF inv i] by (auto simp: runs_iff)
    let ?m = "if has_floating E i w then float_to_scrolling E i act w else scrolling_to_float E i act p w"
    have "runs ?m (switched E i w)"
      using float_to_scrolling_ok [OF inv _ act] scrolling_to_float_ok [OF inv _ act kin] i
      by (auto simp: space_has_iff elim: in_workspace_cases)
    then have "runs (do { w \<leftarrow> ?m; animate_window_from E i p w }) (switched E i w)"
    proof (rule runs_seq)
      fix w1 assume w1: "switched E i w w1"
      then have "workspace_inv E w1" "i \<in># workspace_ids E w1" using i switchedD(2,3) [OF w1] by simp_all
      from animate_window_steady [OF this]
      show "runs (animate_window_from E i p w1) (switched E i w)" by (rule runs_mono) (rule switched_steady [OF w1])
    qed
    moreover have "toggle_window_floating E window w = do { w \<leftarrow> ?m; animate_window_from E i p w }"
      using Some a ps by (simp add: toggle_window_floating_def named_or_focused_def act_def)
    ultimately show ?thesis using Some by simp
  qed
qed

lemma toggle_floating_keeps:
  assumes inv: "workspace_inv E w" and "kin_ok E (map tl_window (workspace_tiles w))"
    and "option_ok (\<lambda>i. i \<in># workspace_ids E w) window"
  shows "runs (toggle_window_floating E window w) (workspace_keeps E w)"
  by (rule runs_mono [OF toggle_window_floating_ok [OF assms]])
     (auto simp: workspace.refl [OF inv] split: option.splits dest: switchedD(1))

text \<open>The window that is named is found.\<close>

lemma find_tiled:
  assumes "space_has E i (wk_scrolling w)"
  shows "\<exists>t. tiled E i w = Some t" and "\<exists>c. List.find (column_contains E i) (sp_columns (wk_scrolling w)) = Some c"
proof -
  obtain c t where c: "c \<in> set (sp_columns (wk_scrolling w))" "t \<in> set (c_tiles c)" "el_id E (tl_window t) = i"
    using assms by (auto simp: space_has_def column_contains_def)
  then show "\<exists>t. tiled E i w = Some t" unfolding tiled_def by (intro find_ex [of t]) (auto simp: space_tiles_def)
  show "\<exists>c. List.find (column_contains E i) (sp_columns (wk_scrolling w)) = Some c"
    by (rule find_ex [OF c(1)]) (use c in \<open>auto simp: column_contains_def\<close>)
qed

lemma workspace_ids_tiles: "workspace_ids E w = mset (map (\<lambda>t. el_id E (tl_window t)) (workspace_tiles w))"
  by (simp add: workspace_ids_def windows_def floating_ids_def workspace_tiles_def)

lemma find_in_workspace:
  assumes "i \<in># workspace_ids E w"
  shows "\<exists>t. List.find (\<lambda>t. el_id E (tl_window t) = i) (workspace_tiles w) = Some t"
proof -
  obtain t where t: "t \<in> set (workspace_tiles w)" "el_id E (tl_window t) = i"
    using assms by (auto simp: workspace_ids_tiles)
  show ?thesis by (rule find_ex [OF t(1)], rule t(2))
qed

lemma keeps_has: "keeps E s s' \<Longrightarrow> space_has E i s' \<longleftrightarrow> space_has E i s"
  by (simp add: keeps_def space_has_iff)

lemma set_mode_remembering_keeps:
  assumes inv: "workspace_inv E w" and has: "space_has E i (wk_scrolling w)"
    and mode: "runs (map_option snd (set_mode i b (wk_scrolling w))) (keeps E (wk_scrolling w))"
  shows "runs (set_mode_remembering E set_mode i b restore w)
     (\<lambda>w'. workspace_keeps E w w' \<and> space_has E i (wk_scrolling w'))"
proof -
  obtain t where t: "tiled E i w = Some t" using find_tiled(1) [OF has] ..
  obtain r s where s: "set_mode i b (wk_scrolling w) = Some (r, s)" "keeps E (wk_scrolling w) s"
    using mode by (auto simp: runs_iff)
  define w1 where "w1 = w\<lparr>wk_scrolling := s\<rparr>"
  have w1: "workspace_keeps E w w1" unfolding w1_def by (rule workspace_set_scrolling [OF inv s(2)])
  then have inv1: "workspace_inv E w1" by (simp add: preserved_def)
  have has1: "space_has E i (wk_scrolling w1)" using has keeps_has [OF s(2)] by (simp add: w1_def)
  have ne: "sp_columns (wk_scrolling w1) \<noteq> []" using has1 by (auto simp: space_has_def)
  define f where "f = (\<lambda>u :: 'w Tile. if is_normal (el_pending_sizing_mode E (tl_window t)) \<and>
      \<not> is_normal (el_pending_sizing_mode E (tl_window u)) then u\<lparr>tl_restore_to_floating := restore\<rparr> else u)"
  have f: "tile_ok E (f u) \<and> tile_same u (f u)" if "tile_ok E u" for u
    using that by (simp add: f_def tile_same_def)
  have targets: "targets E (wk_scrolling w1) (Some i)" using has1 by (simp add: targets_def)
  have "runs (on_scrolling (change_tiled E (Some i) f) w1)
      (\<lambda>w'. workspace_keeps E w w' \<and> space_has E i (wk_scrolling w'))"
    unfolding on_scrolling_def runs_map_option
  proof (rule runs_mono [OF change_tiled_keeps [OF workspace_invD(1) [OF inv1] ne targets, where f = f, OF f]], assumption)
    fix s' assume s': "keeps E (wk_scrolling w1) s'"
    show "workspace_keeps E w (w1\<lparr>wk_scrolling := s'\<rparr>) \<and> space_has E i (wk_scrolling (w1\<lparr>wk_scrolling := s'\<rparr>))"
      using workspace.trans [OF w1 workspace_set_scrolling [OF inv1 s']] has1 keeps_has [OF s'] by simp
  qed
  then show ?thesis
    using t s(1) by (simp add: set_mode_remembering_def on_scrolling_def no_answer_def w1_def f_def)
qed

text \<open>Fullscreen and maximized: a window that is to have such a mode is tiled afterwards.\<close>

lemma remembering_modes:
  assumes "workspace_inv E w" and "space_has E i (wk_scrolling w)"
  shows "runs (set_mode_remembering E (set_fullscreen E) i b restore w)
     (\<lambda>w'. workspace_keeps E w w' \<and> (b \<longrightarrow> space_has E i (wk_scrolling w')))"
    and "runs (set_mode_remembering E (set_maximized E) i b restore w)
     (\<lambda>w'. workspace_keeps E w w' \<and> (b \<longrightarrow> space_has E i (wk_scrolling w')))"
proof -
  note m = set_modes_keep [OF workspace_invD(1) [OF assms(1)] assms(2)]
  show "runs (set_mode_remembering E (set_fullscreen E) i b restore w)
     (\<lambda>w'. workspace_keeps E w w' \<and> (b \<longrightarrow> space_has E i (wk_scrolling w')))"
    by (rule runs_mono [OF set_mode_remembering_keeps [where set_mode = "set_fullscreen E", OF assms m(1)]]) simp
  show "runs (set_mode_remembering E (set_maximized E) i b restore w)
     (\<lambda>w'. workspace_keeps E w w' \<and> (b \<longrightarrow> space_has E i (wk_scrolling w')))"
    by (rule runs_mono [OF set_mode_remembering_keeps [where set_mode = "set_maximized E", OF assms m(2)]]) simp
qed

lemma unfloat_then:
  assumes inv: "workspace_inv E w" and kin: "kin_ok E (map tl_window (workspace_tiles w))" and has: "has_floating E i w"
    and m: "\<And>v. workspace_inv E v \<Longrightarrow> space_has E i (wk_scrolling v) \<Longrightarrow>
      runs (f v) (\<lambda>w'. workspace_keeps E v w' \<and> space_has E i (wk_scrolling w'))"
  shows "runs (toggle_window_floating E (Some i) w \<bind> f)
     (\<lambda>w'. workspace_keeps E w w' \<and> space_has E i (wk_scrolling w'))"
  unfolding runs_bind
proof (rule runs_mono [OF toggle_window_floating_ok [OF inv kin]])
  show "option_ok (\<lambda>i. i \<in># workspace_ids E w) (Some i)" using has by (simp add: workspace_ids_def has_floating_iff)
next
  fix v assume "case named_or_focused E (Some i) w of None \<Rightarrow> v = w | Some i \<Rightarrow> switched E i w v"
  then have v: "switched E i w v" by (simp add: named_or_focused_def)
  note D = switchedD [OF v]
  show "runs (f v) (\<lambda>w'. workspace_keeps E w w' \<and> space_has E i (wk_scrolling w'))"
    by (rule runs_mono [OF m [OF D(2) D(4) [OF has]]]) (use workspace.trans [OF D(1)] in blast)
qed

lemma toggle_named_keeps:
  "workspace_inv E w \<Longrightarrow> kin_ok E (map tl_window (workspace_tiles w)) \<Longrightarrow> i \<in># workspace_ids E w \<Longrightarrow>
     runs (toggle_window_floating E (Some i) w) (workspace_keeps E w)"
  by (rule toggle_floating_keeps) simp_all

lemma workspace_set_fullscreen_ok:
  assumes inv: "workspace_inv E w" and kin: "kin_ok E (map tl_window (workspace_tiles w))" and i: "i \<in># workspace_ids E w"
  shows "runs (workspace_set_fullscreen E i b w)
     (\<lambda>w'. workspace_keeps E w w' \<and> (b \<longrightarrow> space_has E i (wk_scrolling w')))"
  using i
proof (rule in_workspace_cases)
  assume has: "has_floating E i w"
  show ?thesis
  proof (cases b)
    case True
    have "runs (toggle_window_floating E (Some i) w \<bind> set_mode_remembering E (set_fullscreen E) i True True)
      (\<lambda>w'. workspace_keeps E w w' \<and> space_has E i (wk_scrolling w'))"
      by (rule unfloat_then [OF inv kin has]) (use remembering_modes(1) [where b = True] in simp)
    then show ?thesis using has True by (simp add: workspace_set_fullscreen_def)
  qed (simp add: workspace_set_fullscreen_def has workspace.refl [OF inv])
next
  assume not: "\<not> has_floating E i w" and has: "space_has E i (wk_scrolling w)"
  note R = remembering_modes(1) [OF inv has]
  show ?thesis
  proof (cases b)
    case False
    obtain c where c: "List.find (column_contains E i) (sp_columns (wk_scrolling w)) = Some c"
      using find_tiled(2) [OF has] ..
    have "column_contains E i c" using find_mem [OF c] by simp
    then obtain t where "t \<in> set (c_tiles c)" "el_id E (tl_window t) = i" by (auto simp: column_contains_def)
    then obtain u where u: "List.find (\<lambda>t. el_id E (tl_window t) = i) (c_tiles c) = Some u"
      using find_ex [of t _ "\<lambda>t. el_id E (tl_window t) = i"] by blast
    let ?r = "c_is_pending_fullscreen c \<and> \<not> c_is_pending_maximized c \<and> tl_restore_to_floating u"
    have "workspace_set_fullscreen E i b w = (if ?r then toggle_window_floating E (Some i) w
        else set_mode_remembering E (set_fullscreen E) i False False w)"
      using not False c u by (simp add: workspace_set_fullscreen_def)
    then show ?thesis
      using False R [of False False] toggle_named_keeps [OF inv kin i] by (cases ?r) simp_all
  qed (use R [of True False] not in \<open>simp add: workspace_set_fullscreen_def\<close>)
qed

lemma workspace_set_maximized_ok:
  assumes inv: "workspace_inv E w" and kin: "kin_ok E (map tl_window (workspace_tiles w))" and i: "i \<in># workspace_ids E w"
  shows "runs (workspace_set_maximized E i b w)
     (\<lambda>w'. workspace_keeps E w w' \<and> (b \<longrightarrow> space_has E i (wk_scrolling w')))"
  using i
proof (rule in_workspace_cases)
  assume has: "has_floating E i w"
  show ?thesis
  proof (cases b)
    case True
    have "runs (toggle_window_floating E (Some i) w \<bind> set_mode_remembering E (set_maximized E) i True True)
      (\<lambda>w'. workspace_keeps E w w' \<and> space_has E i (wk_scrolling w'))"
      by (rule unfloat_then [OF inv kin has]) (use remembering_modes(2) [where b = True] in simp)
    then show ?thesis using has True by (simp add: workspace_set_maximized_def)
  qed (simp add: workspace_set_maximized_def has workspace.refl [OF inv])
next
  assume not: "\<not> has_floating E i w" and has: "space_has E i (wk_scrolling w)"
  note R = remembering_modes(2) [OF inv has]
  obtain t where t: "tiled E i w = Some t" using find_tiled(1) [OF has] ..
  show ?thesis
  proof (cases b)
    case False
    then show ?thesis
      using not t R [of False False] toggle_named_keeps [OF inv kin i] by (simp add: workspace_set_maximized_def)
  qed (use R [of True False] not in \<open>simp add: workspace_set_maximized_def\<close>)
qed

lemma workspace_modes_keep:
  assumes inv: "workspace_inv E w" and kin: "kin_ok E (map tl_window (workspace_tiles w))" and i: "i \<in># workspace_ids E w"
  shows "runs (workspace_set_fullscreen E i b w) (workspace_keeps E w)"
    and "runs (workspace_set_maximized E i b w) (workspace_keeps E w)"
    and "runs (workspace_toggle_fullscreen E i w) (workspace_keeps E w)"
    and "runs (workspace_toggle_maximized E i w) (workspace_keeps E w)"
proof -
  show full: "runs (workspace_set_fullscreen E i b w) (workspace_keeps E w)" for b
    by (rule runs_mono [OF workspace_set_fullscreen_ok [OF assms]]) simp
  show maxi: "runs (workspace_set_maximized E i b w) (workspace_keeps E w)" for b
    by (rule runs_mono [OF workspace_set_maximized_ok [OF assms]]) simp
  obtain t where "List.find (\<lambda>t. el_id E (tl_window t) = i) (workspace_tiles w) = Some t"
    using find_in_workspace [OF i] ..
  then show "runs (workspace_toggle_fullscreen E i w) (workspace_keeps E w)"
    using full by (simp add: workspace_toggle_fullscreen_def)
  show "runs (workspace_toggle_maximized E i w) (workspace_keeps E w)"
    unfolding workspace_toggle_maximized_def Let_def by (rule maxi)
qed

lemma set_window_floating_keeps:
  assumes inv: "workspace_inv E w" and kin: "kin_ok E (map tl_window (workspace_tiles w))"
    and target: "option_ok (\<lambda>i. i \<in># workspace_ids E w) window"
  shows "runs (set_window_floating E window b w) (workspace_keeps E w)"
  using toggle_floating_keeps [OF assms] workspace.refl [OF inv] by (simp add: set_window_floating_def)

end

end
