(* ===== verification/Layout_Workspace_Run.thy ===== *)
theory Layout_Workspace_Run
  imports Layout_Workspace_Switch
begin

text \<open>
  The workspace as a whole: its actions as a datatype, what the callers ensure for each, adding,
  removing and configuring, and the states that are reachable from an empty workspace.
\<close>

section \<open>The actions\<close>

datatype WorkspaceFocusAction =
    WkFocusLeft | WkFocusRight | WkFocusFirst | WkFocusLast | WkFocusRightOrFirst
  | WkFocusLeftOrLast | WkFocusColumn nat | WkFocusWindowInColumn u8 | WkFocusDown | WkFocusUp
  | WkFocusDownOrLeft | WkFocusDownOrRight | WkFocusUpOrLeft | WkFocusUpOrRight | WkFocusTop
  | WkFocusBottom | WkFocusDownOrTop | WkFocusUpOrBottom | WkSwitchFocus | WkFocusFloating
  | WkFocusTiling

datatype 'id WorkspaceArrangeAction =
    WkMoveLeft | WkMoveRight | WkMoveDown | WkMoveUp | WkMoveColumnToFirst | WkMoveColumnToLast
  | WkMoveColumnToIndex nat | WkConsumeOrExpelLeft "'id option" | WkConsumeOrExpelRight "'id option"
  | WkConsumeInto | WkExpelFrom | WkSwapInDirection ScrollDirection | WkCenterColumn
  | WkCenterWindow "'id option" | WkCenterVisible | WkAlignVisibleLeft | WkToggleWidth bool
  | WkToggleFullWidth | WkSetColumnWidth SizeChange | WkSetWidth "'id option" SizeChange
  | WkSetHeight "'id option" SizeChange | WkResetHeight "'id option"
  | WkToggleWindowWidth "'id option" bool | WkToggleWindowHeight "'id option" bool | WkExpandWidth
  | WkToggleTabbed | WkSetColumnDisplay ColumnDisplay

datatype 'id WorkspaceWindowAction =
    WkSetFullscreen "'id" bool | WkSetMaximized "'id" bool | WkToggleFullscreen "'id"
  | WkToggleMaximized "'id" | WkToggleFloating "'id option" | WkSetFloating "'id option" bool
  | WkMoveFloating "'id option" PositionChange PositionChange bool | WkActivate "'id"
  | WkActivateWithoutRaising "'id" | WkStartOpen "'id" | WkDescendantsAdded "'id"
  | WkCommit "'id" "nat option"

datatype 'id WorkspaceGestureAction =
    WkGestureBegin bool | WkGestureUpdate real nanos bool | WkGestureEnd "bool option" | WkDndBegin
  | WkDndScroll Point real | WkDndEnd | WkResizeBegin "'id" ResizeEdge | WkResizeUpdate "'id" Point
  | WkResizeEnd "'id option" | WkAdvance

datatype 'id WorkspaceAction =
    WkFocus WorkspaceFocusAction | WkArrange "'id WorkspaceArrangeAction" | WkWindow "'id WorkspaceWindowAction"
  | WkGesture "'id WorkspaceGestureAction"

fun run_workspace_focus ::
    "('w, 'id) LayoutEnv \<Rightarrow> WorkspaceFocusAction \<Rightarrow> ('w, 'id, 'o) LayoutWorkspace \<Rightarrow>
     ('w, 'id, 'o) LayoutWorkspace option" where
  "run_workspace_focus E WkFocusLeft = no_answer (workspace_focus_left E)"
| "run_workspace_focus E WkFocusRight = no_answer (workspace_focus_right E)"
| "run_workspace_focus E WkFocusFirst = workspace_focus_column_first E"
| "run_workspace_focus E WkFocusLast = workspace_focus_column_last E"
| "run_workspace_focus E WkFocusRightOrFirst = focus_column_right_or_first E"
| "run_workspace_focus E WkFocusLeftOrLast = focus_column_left_or_last E"
| "run_workspace_focus E (WkFocusColumn n) = workspace_focus_column E n"
| "run_workspace_focus E (WkFocusWindowInColumn k) = workspace_focus_window_in_column k"
| "run_workspace_focus E WkFocusDown = no_answer (workspace_focus_down E)"
| "run_workspace_focus E WkFocusUp = no_answer (workspace_focus_up E)"
| "run_workspace_focus E WkFocusDownOrLeft = workspace_focus_down_or_left E"
| "run_workspace_focus E WkFocusDownOrRight = workspace_focus_down_or_right E"
| "run_workspace_focus E WkFocusUpOrLeft = workspace_focus_up_or_left E"
| "run_workspace_focus E WkFocusUpOrRight = workspace_focus_up_or_right E"
| "run_workspace_focus E WkFocusTop = focus_window_top E"
| "run_workspace_focus E WkFocusBottom = focus_window_bottom E"
| "run_workspace_focus E WkFocusDownOrTop = focus_window_down_or_top E"
| "run_workspace_focus E WkFocusUpOrBottom = focus_window_up_or_bottom E"
| "run_workspace_focus E WkSwitchFocus = (\<lambda>w. Some (switch_focus_floating_tiling w))"
| "run_workspace_focus E WkFocusFloating = (\<lambda>w. Some (focus_floating w))"
| "run_workspace_focus E WkFocusTiling = (\<lambda>w. Some (focus_tiling w))"

fun run_workspace_arrange ::
    "('w, 'id) LayoutEnv \<Rightarrow> 'id WorkspaceArrangeAction \<Rightarrow> ('w, 'id, 'o) LayoutWorkspace \<Rightarrow>
     ('w, 'id, 'o) LayoutWorkspace option" where
  "run_workspace_arrange E WkMoveLeft = no_answer (workspace_move_left E)"
| "run_workspace_arrange E WkMoveRight = no_answer (workspace_move_right E)"
| "run_workspace_arrange E WkMoveDown = no_answer (workspace_move_down E)"
| "run_workspace_arrange E WkMoveUp = no_answer (workspace_move_up E)"
| "run_workspace_arrange E WkMoveColumnToFirst = workspace_move_column_to_first E"
| "run_workspace_arrange E WkMoveColumnToLast = workspace_move_column_to_last E"
| "run_workspace_arrange E (WkMoveColumnToIndex n) = workspace_move_column_to_index E n"
| "run_workspace_arrange E (WkConsumeOrExpelLeft i) = workspace_consume_or_expel_window_left E i"
| "run_workspace_arrange E (WkConsumeOrExpelRight i) = workspace_consume_or_expel_window_right E i"
| "run_workspace_arrange E WkConsumeInto = workspace_consume_into_column E"
| "run_workspace_arrange E WkExpelFrom = workspace_expel_from_column E"
| "run_workspace_arrange E (WkSwapInDirection d) = workspace_swap_window_in_direction E d"
| "run_workspace_arrange E WkCenterColumn = workspace_center_column E"
| "run_workspace_arrange E (WkCenterWindow i) = workspace_center_window E i"
| "run_workspace_arrange E WkCenterVisible = workspace_center_visible_columns E"
| "run_workspace_arrange E WkAlignVisibleLeft = workspace_align_visible_columns_left E"
| "run_workspace_arrange E (WkToggleWidth b) = workspace_toggle_width E b"
| "run_workspace_arrange E WkToggleFullWidth = workspace_toggle_full_width E"
| "run_workspace_arrange E (WkSetColumnWidth ch) = workspace_set_column_width E ch"
| "run_workspace_arrange E (WkSetWidth i ch) = workspace_set_window_width E i ch"
| "run_workspace_arrange E (WkSetHeight i ch) = workspace_set_window_height E i ch"
| "run_workspace_arrange E (WkResetHeight i) = workspace_reset_window_height E i"
| "run_workspace_arrange E (WkToggleWindowWidth i b) = workspace_toggle_window_width E i b"
| "run_workspace_arrange E (WkToggleWindowHeight i b) = workspace_toggle_window_height E i b"
| "run_workspace_arrange E WkExpandWidth = workspace_expand_column_to_available_width E"
| "run_workspace_arrange E WkToggleTabbed = workspace_toggle_column_tabbed_display E"
| "run_workspace_arrange E (WkSetColumnDisplay d) = workspace_set_column_display E d"

fun run_workspace_window ::
    "('w, 'id) LayoutEnv \<Rightarrow> 'id WorkspaceWindowAction \<Rightarrow> ('w, 'id, 'o) LayoutWorkspace \<Rightarrow>
     ('w, 'id, 'o) LayoutWorkspace option" where
  "run_workspace_window E (WkSetFullscreen i b) = workspace_set_fullscreen E i b"
| "run_workspace_window E (WkSetMaximized i b) = workspace_set_maximized E i b"
| "run_workspace_window E (WkToggleFullscreen i) = workspace_toggle_fullscreen E i"
| "run_workspace_window E (WkToggleMaximized i) = workspace_toggle_maximized E i"
| "run_workspace_window E (WkToggleFloating i) = toggle_window_floating E i"
| "run_workspace_window E (WkSetFloating i b) = set_window_floating E i b"
| "run_workspace_window E (WkMoveFloating i x y b) = move_floating_window E i x y b"
| "run_workspace_window E (WkActivate i) = no_answer (workspace_activate_window E i)"
| "run_workspace_window E (WkActivateWithoutRaising i) = no_answer (workspace_activate_window_without_raising E i)"
| "run_workspace_window E (WkStartOpen i) = no_answer (workspace_start_open_animation E i)"
| "run_workspace_window E (WkDescendantsAdded i) = no_answer (workspace_descendants_added E i)"
| "run_workspace_window E (WkCommit i serial) = workspace_update_window E i serial"

fun run_workspace_gesture ::
    "('w, 'id) LayoutEnv \<Rightarrow> 'id WorkspaceGestureAction \<Rightarrow> ('w, 'id, 'o) LayoutWorkspace \<Rightarrow>
     ('w, 'id, 'o) LayoutWorkspace option" where
  "run_workspace_gesture E (WkGestureBegin b) = workspace_view_offset_gesture_begin E b"
| "run_workspace_gesture E (WkGestureUpdate x t b) = no_answer (workspace_view_offset_gesture_update x t b)"
| "run_workspace_gesture E (WkGestureEnd b) = no_answer (workspace_view_offset_gesture_end E b)"
| "run_workspace_gesture E WkDndBegin = workspace_dnd_scroll_gesture_begin E"
| "run_workspace_gesture E (WkDndScroll p speed) = no_answer (workspace_dnd_scroll_gesture_scroll E p speed)"
| "run_workspace_gesture E WkDndEnd = workspace_dnd_scroll_gesture_end E"
| "run_workspace_gesture E (WkResizeBegin i edges) = no_answer (workspace_interactive_resize_begin E i edges)"
| "run_workspace_gesture E (WkResizeUpdate i d) = no_answer (workspace_interactive_resize_update E i d)"
| "run_workspace_gesture E (WkResizeEnd i) = workspace_interactive_resize_end E i"
| "run_workspace_gesture E WkAdvance = (\<lambda>w. Some (workspace_advance_animations E w))"

fun run_workspace ::
    "('w, 'id) LayoutEnv \<Rightarrow> 'id WorkspaceAction \<Rightarrow> ('w, 'id, 'o) LayoutWorkspace \<Rightarrow>
     ('w, 'id, 'o) LayoutWorkspace option" where
  "run_workspace E (WkFocus a) = run_workspace_focus E a"
| "run_workspace E (WkArrange a) = run_workspace_arrange E a"
| "run_workspace E (WkWindow a) = run_workspace_window E a"
| "run_workspace E (WkGesture a) = run_workspace_gesture E a"

text \<open>
  The windows an action names are in the workspace, the parents of its windows form no cycle, the
  timestamps are not within 150 ms of the end of \<^verbatim>\<open>Duration\<close>, and the working area has no negative
  width.
\<close>

definition window_known :: "('w, 'id) LayoutEnv \<Rightarrow> 'id option \<Rightarrow> ('w, 'id, 'o) LayoutWorkspace \<Rightarrow> bool" where
  "window_known E window w \<longleftrightarrow> option_ok (\<lambda>i. i \<in># workspace_ids E w) window"

definition kin_known :: "('w, 'id) LayoutEnv \<Rightarrow> ('w, 'id, 'o) LayoutWorkspace \<Rightarrow> bool" where
  "kin_known E w \<longleftrightarrow> kin_ok E (map tl_window (workspace_tiles w))"

fun workspace_allows_arrange ::
    "('w, 'id) LayoutEnv \<Rightarrow> 'id WorkspaceArrangeAction \<Rightarrow> ('w, 'id, 'o) LayoutWorkspace \<Rightarrow> bool" where
  "workspace_allows_arrange E (WkConsumeOrExpelLeft i) w = window_known E i w"
| "workspace_allows_arrange E (WkConsumeOrExpelRight i) w = window_known E i w"
| "workspace_allows_arrange E (WkCenterWindow i) w = window_known E i w"
| "workspace_allows_arrange E (WkSetWidth i ch) w = window_known E i w"
| "workspace_allows_arrange E (WkSetHeight i ch) w = window_known E i w"
| "workspace_allows_arrange E (WkResetHeight i) w = window_known E i w"
| "workspace_allows_arrange E (WkToggleWindowWidth i b) w = window_known E i w"
| "workspace_allows_arrange E (WkToggleWindowHeight i b) w = window_known E i w"
| "workspace_allows_arrange E a w = True"

fun workspace_allows_window ::
    "('w, 'id) LayoutEnv \<Rightarrow> 'id WorkspaceWindowAction \<Rightarrow> ('w, 'id, 'o) LayoutWorkspace \<Rightarrow> bool" where
  "workspace_allows_window E (WkSetFullscreen i b) w = (i \<in># workspace_ids E w \<and> kin_known E w)"
| "workspace_allows_window E (WkSetMaximized i b) w = (i \<in># workspace_ids E w \<and> kin_known E w)"
| "workspace_allows_window E (WkToggleFullscreen i) w = (i \<in># workspace_ids E w \<and> kin_known E w)"
| "workspace_allows_window E (WkToggleMaximized i) w = (i \<in># workspace_ids E w \<and> kin_known E w)"
| "workspace_allows_window E (WkToggleFloating i) w = (window_known E i w \<and> kin_known E w)"
| "workspace_allows_window E (WkSetFloating i b) w = (window_known E i w \<and> kin_known E w)"
| "workspace_allows_window E (WkMoveFloating i x y b) w = window_known E i w"
| "workspace_allows_window E (WkCommit i serial) w = (i \<in># workspace_ids E w)"
| "workspace_allows_window E a w = True"

fun workspace_allows_gesture ::
    "('w, 'id) LayoutEnv \<Rightarrow> 'id WorkspaceGestureAction \<Rightarrow> ('w, 'id, 'o) LayoutWorkspace \<Rightarrow> bool" where
  "workspace_allows_gesture E (WkGestureUpdate x t b) w = (t + HISTORY_LIMIT \<le> DURATION_MAX)"
| "workspace_allows_gesture E (WkGestureEnd b) w = clock_fits E"
| "workspace_allows_gesture E (WkDndScroll p speed) w = (clock_fits E \<and> 0 \<le> sw (r_size (wk_working_area w)))"
| "workspace_allows_gesture E WkDndEnd w = clock_fits E"
| "workspace_allows_gesture E (WkResizeBegin i edges) w = (i \<in># workspace_ids E w)"
| "workspace_allows_gesture E a w = True"

fun workspace_allows :: "('w, 'id) LayoutEnv \<Rightarrow> 'id WorkspaceAction \<Rightarrow> ('w, 'id, 'o) LayoutWorkspace \<Rightarrow> bool" where
  "workspace_allows E (WkFocus a) w = True"
| "workspace_allows E (WkArrange a) w = workspace_allows_arrange E a w"
| "workspace_allows E (WkWindow a) w = workspace_allows_window E a w"
| "workspace_allows E (WkGesture a) w = workspace_allows_gesture E a w"

section \<open>Delegation to the two layouts\<close>

lemma no_answer_by [simp]:
  "no_answer (by_focus_ret f g) = by_focus (no_answer f) (no_answer g)"
  "no_answer (always_true h) = h"
  by (auto simp: fun_eq_iff no_answer_def by_focus_ret_def by_focus_def on_floating_ret_def on_scrolling_ret_def
      on_floating_def on_scrolling_def always_true_def option.map_comp comp_def split_def option.map_ident)

lemma no_answer_on [simp]:
  "no_answer (on_scrolling_ret g) = on_scrolling (no_answer g)"
  "no_answer (on_floating_ret f) = on_floating (no_answer f)"
  "no_answer (by_window_ret E i f g) = by_window E (Some i) (no_answer f) (no_answer g)"
  by (auto simp: fun_eq_iff no_answer_def on_floating_ret_def on_scrolling_ret_def by_window_ret_def by_window_def
      is_on_floating_def on_floating_def on_scrolling_def option.map_comp comp_def split_def)

lemma as_run_floating:
  "no_answer (floating_focus_left E) = run_floating E FlFocusLeft"
  "no_answer (floating_focus_right E) = run_floating E FlFocusRight"
  "no_answer (floating_focus_up E) = run_floating E FlFocusUp"
  "no_answer (floating_focus_down E) = run_floating E FlFocusDown"
  "focus_leftmost E = run_floating E FlFocusLeftmost" "focus_rightmost E = run_floating E FlFocusRightmost"
  "focus_topmost E = run_floating E FlFocusTopmost" "focus_bottommost E = run_floating E FlFocusBottommost"
  "floating_move_left E = run_floating E FlMoveLeft" "floating_move_right E = run_floating E FlMoveRight"
  "floating_move_up E = run_floating E FlMoveUp" "floating_move_down E = run_floating E FlMoveDown"
  "floating_center_window E oi = run_floating E (FlCenterWindow oi)"
  "floating_move_window E oi x y b = run_floating E (FlMoveWindow oi x y b)"
  "floating_set_window_width E oi ch b = run_floating E (FlSetWidth oi ch b)"
  "floating_set_window_height E oi ch b = run_floating E (FlSetHeight oi ch b)"
  "floating_toggle_window_width E oi b = run_floating E (FlToggleWidth oi b)"
  "floating_toggle_window_height E oi b = run_floating E (FlToggleHeight oi b)"
  "no_answer (floating_interactive_resize_begin E i edges) = run_floating E (FlResizeBegin i edges)"
  "no_answer (floating_interactive_resize_update E i d) = run_floating E (FlResizeUpdate i d)"
  "(\<lambda>s. Some (floating_interactive_resize_end oi s)) = run_floating E (FlResizeEnd oi)"
  "no_answer (descendants_added E i) = run_floating E (FlDescendantsAdded i)"
  by (simp_all add: fun_eq_iff no_answer_def)

lemma as_run_space:
  "no_answer (focus_left E) = run_space E DoFocusLeft" "no_answer (focus_right E) = run_space E DoFocusRight"
  "focus_column E n = run_space E (DoFocusColumn n)" "focus_column_first E = run_space E DoFocusFirst"
  "focus_column_last E = run_space E DoFocusLast" "no_answer focus_up = run_space E DoFocusUp"
  "no_answer focus_down = run_space E DoFocusDown" "focus_top = run_space E DoFocusTop"
  "focus_bottom = run_space E DoFocusBottom" "focus_window_in_column k = run_space E (DoFocusWindowInColumn k)"
  "focus_down_or_left E = run_space E DoFocusDownOrLeft" "focus_down_or_right E = run_space E DoFocusDownOrRight"
  "focus_up_or_left E = run_space E DoFocusUpOrLeft" "focus_up_or_right E = run_space E DoFocusUpOrRight"
  "no_answer (move_left E) = run_space E DoMoveLeft" "no_answer (move_right E) = run_space E DoMoveRight"
  "move_column_to_index E n = run_space E (DoMoveColumnToIndex n)"
  "move_column_to_first E = run_space E DoMoveColumnToFirst" "move_column_to_last E = run_space E DoMoveColumnToLast"
  "no_answer (move_up E) = run_space E DoMoveUp" "no_answer (move_down E) = run_space E DoMoveDown"
  "consume_or_expel_window_left E oi = run_space E (DoConsumeOrExpelLeft oi)"
  "consume_or_expel_window_right E oi = run_space E (DoConsumeOrExpelRight oi)"
  "consume_into_column E = run_space E DoConsumeInto" "expel_from_column E = run_space E DoExpelFrom"
  "swap_window_in_direction E d = run_space E (DoSwapInDirection d)"
  "center_column E = run_space E DoCenterColumn" "center_window E oi = run_space E (DoCenterWindow oi)"
  "center_visible_columns E = run_space E DoCenterVisible"
  "align_visible_columns_left E = run_space E DoAlignVisibleLeft" "toggle_width E b = run_space E (DoToggleWidth b)"
  "toggle_full_width E = run_space E DoToggleFullWidth" "set_window_width E oi ch = run_space E (DoSetWidth oi ch)"
  "set_window_height E oi ch = run_space E (DoSetHeight oi ch)"
  "reset_window_height E oi = run_space E (DoResetHeight oi)"
  "toggle_window_width E oi b = run_space E (DoToggleWindowWidth oi b)"
  "toggle_window_height E oi b = run_space E (DoToggleWindowHeight oi b)"
  "expand_column_to_available_width E = run_space E DoExpandWidth"
  "toggle_column_tabbed_display E = run_space E DoToggleTabbed"
  "set_column_display E cd = run_space E (DoSetColumnDisplay cd)"
  "no_answer (interactive_resize_begin E i edges) = run_space E (DoResizeBegin i edges)"
  "no_answer (interactive_resize_update E i p) = run_space E (DoResizeUpdate i p)"
  "interactive_resize_end E oi = run_space E (DoResizeEnd oi)"
  "(\<lambda>s. Some (view_offset_gesture_begin E b s)) = run_space E (DoGestureBegin b)"
  "no_answer (view_offset_gesture_update x t b) = run_space E (DoGestureUpdate x t b)"
  "no_answer (view_offset_gesture_end E ob) = run_space E (DoGestureEnd ob)"
  "(\<lambda>s. Some (dnd_scroll_gesture_begin E s)) = run_space E DoDndBegin"
  "no_answer (dnd_scroll_gesture_scroll E x) = run_space E (DoDndScroll x)"
  "dnd_scroll_gesture_end E = run_space E DoDndEnd"
  by (simp_all add: fun_eq_iff no_answer_def)

text \<open>No window is in the scrolling layout twice.\<close>

lemma workspace_windows_once:
  assumes "workspace_inv E w" shows "windows_once E (wk_scrolling w)"
  unfolding windows_once_def
proof
  fix i
  show "count (windows E (wk_scrolling w)) i \<le> 1"
    using workspace_invD(6) [OF assms, of i] by (simp add: workspace_ids_def)
qed

text \<open>A window that is in the workspace is in the layout that is asked.\<close>

lemma known_targets:
  assumes "window_known E window w"
  shows "is_on_floating E window w \<Longrightarrow> floating_targets E window (wk_floating w)"
    and "\<not> is_on_floating E window w \<Longrightarrow> targets E (wk_scrolling w) window"
  using assms
  by (auto simp: window_known_def is_on_floating_def floating_targets_def targets_def has_floating_iff space_has_iff
      workspace_ids_def split: option.splits)

lemma targets_None [simp]: "floating_targets E None f" "targets E s None"
  by (simp_all add: floating_targets_def targets_def)

context layout_element
begin

lemma scrolling_runs:
  assumes "workspace_inv E w" and "space_allows E b (wk_scrolling w)"
  shows "runs (on_scrolling (run_space E b) w) (workspace_keeps E w)"
  by (rule on_scrolling_keeps [OF assms(1)], rule run_space_keeps [OF workspace_invD(1) [OF assms(1)] assms(2)])

lemma floating_runs:
  assumes "workspace_inv E w" and "floating_allows E a (wk_floating w)"
  shows "runs (on_floating (run_floating E a) w) (workspace_keeps E w)"
  by (rule on_floating_keeps [OF assms(1)], rule run_floating_keeps [OF workspace_invD(2) [OF assms(1)] assms(2)])

lemma by_focus_runs:
  assumes "workspace_inv E w" and "floating_allows E a (wk_floating w)" and "space_allows E b (wk_scrolling w)"
  shows "runs (by_focus (run_floating E a) (run_space E b) w) (workspace_keeps E w)"
  using scrolling_runs [OF assms(1,3)] floating_runs [OF assms(1,2)] by (simp add: by_focus_def)

lemma by_window_runs:
  assumes "workspace_inv E w" and "is_on_floating E window w \<Longrightarrow> floating_allows E a (wk_floating w)"
    and "\<not> is_on_floating E window w \<Longrightarrow> space_allows E b (wk_scrolling w)"
  shows "runs (by_window E window (run_floating E a) (run_space E b) w) (workspace_keeps E w)"
  using scrolling_runs [OF assms(1,3)] floating_runs [OF assms(1,2)] by (simp add: by_window_def)

lemma unless_floating_runs:
  assumes "workspace_inv E w" and "space_allows E b (wk_scrolling w)"
  shows "runs (unless_floating (run_space E b) w) (workspace_keeps E w)"
  using scrolling_runs [OF assms] workspace.refl [OF assms(1)] by (simp add: unless_floating_def)

lemma unless_on_floating_runs:
  assumes "workspace_inv E w" and "\<not> is_on_floating E window w \<Longrightarrow> space_allows E b (wk_scrolling w)"
  shows "runs (unless_on_floating E window (run_space E b) w) (workspace_keeps E w)"
  using scrolling_runs [OF assms] workspace.refl [OF assms(1)] by (simp add: unless_on_floating_def)

text \<open>Focus.\<close>

lemma switch_focus_keeps:
  assumes inv: "workspace_inv E w"
  shows "workspace_keeps E w (switch_focus_floating_tiling w)" and "workspace_keeps E w (focus_floating w)"
    and "workspace_keeps E w (focus_tiling w)"
proof -
  show s: "workspace_keeps E w (switch_focus_floating_tiling w)"
    using workspace_set_focus [OF inv] workspace.refl [OF inv]
    by (simp add: switch_focus_floating_tiling_def focus_ok_def floating_active_get_def)
  then show "workspace_keeps E w (focus_floating w)" "workspace_keeps E w (focus_tiling w)"
    using workspace.refl [OF inv] by (simp_all add: focus_floating_def focus_tiling_def)
qed

lemma runs_pairs: "runs (no_answer f s) P \<Longrightarrow> runs (f s) (\<lambda>(b, s'). P s')"
  by (simp add: no_answer_def split_def)

lemma focus_keep:
  assumes inv: "workspace_inv E w" shows "runs (run_workspace_focus E a w) (workspace_keeps E w)"
proof -
  note defs = workspace_focus_left_def workspace_focus_right_def workspace_focus_column_first_def
    workspace_focus_column_last_def workspace_focus_window_in_column_def workspace_focus_down_def workspace_focus_up_def
    workspace_focus_down_or_left_def workspace_focus_down_or_right_def workspace_focus_up_or_left_def
    workspace_focus_up_or_right_def focus_window_top_def focus_window_bottom_def no_answer_by as_run_floating as_run_space [where E = E]
  have one: "runs (no_answer (workspace_focus_left E) v) (workspace_keeps E v)"
    "runs (no_answer (workspace_focus_right E) v) (workspace_keeps E v)"
    "runs (workspace_focus_column_first E v) (workspace_keeps E v)"
    "runs (workspace_focus_column_last E v) (workspace_keeps E v)"
    "runs (workspace_focus_window_in_column k v) (workspace_keeps E v)"
    "runs (no_answer (workspace_focus_down E) v) (workspace_keeps E v)"
    "runs (no_answer (workspace_focus_up E) v) (workspace_keeps E v)"
    "runs (workspace_focus_down_or_left E v) (workspace_keeps E v)"
    "runs (workspace_focus_down_or_right E v) (workspace_keeps E v)"
    "runs (workspace_focus_up_or_left E v) (workspace_keeps E v)"
    "runs (workspace_focus_up_or_right E v) (workspace_keeps E v)"
    "runs (focus_window_top E v) (workspace_keeps E v)" "runs (focus_window_bottom E v) (workspace_keeps E v)"
    if "workspace_inv E v" for v :: "('w, 'id, 'o) LayoutWorkspace" and k
    unfolding defs by (rule by_focus_runs unless_floating_runs, rule that; simp)+
  have two: "runs (focus_column_right_or_first E w) (workspace_keeps E w)"
    "runs (focus_column_left_or_last E w) (workspace_keeps E w)"
    "runs (focus_window_down_or_top E w) (workspace_keeps E w)"
    "runs (focus_window_up_or_bottom E w) (workspace_keeps E w)"
    unfolding focus_column_right_or_first_def focus_column_left_or_last_def focus_window_down_or_top_def
      focus_window_up_or_bottom_def
    by (rule workspace.or_else [OF runs_pairs]; rule one; (assumption | rule inv))+
  have "runs (workspace_focus_column E n w) (workspace_keeps E w)" for n
  proof -
    note t = switch_focus_keeps(3) [OF inv]
    then have "workspace_inv E (focus_tiling w)" by (simp add: preserved_def)
    then have "runs (workspace_focus_column E n w) (workspace_keeps E (focus_tiling w))"
      unfolding workspace_focus_column_def as_run_space by (rule scrolling_runs) simp
    then show ?thesis by (rule workspace.runs_preserved [OF t])
  qed
  note three = this switch_focus_keeps [OF inv]
  show ?thesis by (cases a; simp only: run_workspace_focus.simps runs_Some three one [OF inv] two)
qed

text \<open>Arranging windows and changing their sizes.\<close>

lemma arrange_keep:
  assumes inv: "workspace_inv E w" and ok: "workspace_allows_arrange E a w"
  shows "runs (run_workspace_arrange E a w) (workspace_keeps E w)"
proof -
  note defs = workspace_move_left_def workspace_move_right_def workspace_move_down_def workspace_move_up_def
    workspace_move_column_to_first_def workspace_move_column_to_last_def workspace_move_column_to_index_def
    workspace_consume_or_expel_window_left_def workspace_consume_or_expel_window_right_def
    workspace_consume_into_column_def workspace_expel_from_column_def workspace_swap_window_in_direction_def
    workspace_center_column_def workspace_center_window_def workspace_center_visible_columns_def
    workspace_align_visible_columns_left_def workspace_toggle_width_def workspace_toggle_full_width_def
    workspace_set_column_width_def workspace_set_window_width_def workspace_set_window_height_def
    workspace_reset_window_height_def workspace_toggle_window_width_def workspace_toggle_window_height_def
    workspace_expand_column_to_available_width_def workspace_toggle_column_tabbed_display_def
    workspace_set_column_display_def
  note run = run_workspace_arrange.simps no_answer_by as_run_floating as_run_space [where E = E]
  show ?thesis
    by (insert ok, cases a; simp only: run; simp only: defs run; rule by_focus_runs [OF inv]
        unless_floating_runs [OF inv] unless_on_floating_runs [OF inv] by_window_runs [OF inv];
        simp add: known_targets workspace_windows_once [OF inv])
qed

text \<open>Actions on a window that is named.\<close>

lemma moved_floating_pos_ok: "tile_ok E t \<Longrightarrow> tile_ok E (moved_floating_pos E x y f t) \<and> tile_same t (moved_floating_pos E x y f t)"
  by (simp add: moved_floating_pos_def Let_def tile_same_def split: option.split)

lemma move_floating_keeps:
  assumes inv: "workspace_inv E w" and known: "window_known E window w"
  shows "runs (move_floating_window E window x y animate w) (workspace_keeps E w)"
proof (cases "is_on_floating E window w")
  case True
  have "runs (on_floating (run_floating E (FlMoveWindow window x y animate)) w) (workspace_keeps E w)"
    by (rule floating_runs [OF inv]) (simp add: known_targets(1) [OF known True])
  then show ?thesis using True by (simp add: move_floating_window_def as_run_floating)
next
  case False
  note t = known_targets(2) [OF known False]
  show ?thesis
  proof (cases "window = None \<and> space_is_empty (wk_scrolling w)")
    case True
    then show ?thesis using False workspace.refl [OF inv] by (simp add: move_floating_window_def)
  next
    case empty: False
    have ne: "sp_columns (wk_scrolling w) \<noteq> []"
      using empty t by (cases window) (auto simp: space_is_empty_def targets_def space_has_def)
    have "runs (on_scrolling (change_tiled E window (moved_floating_pos E x y (wk_floating w))) w) (workspace_keeps E w)"
      by (rule on_scrolling_keeps [OF inv], rule change_tiled_keeps [OF workspace_invD(1) [OF inv] ne t])
        (rule moved_floating_pos_ok)
    then show ?thesis using False workspace.refl [OF inv] by (simp add: move_floating_window_def)
  qed
qed

lemma activate_keeps:
  assumes inv: "workspace_inv E w"
  shows "runs (workspace_activate_window E i w)
      (\<lambda>(b, w'). workspace_keeps E w w' \<and> b = (i \<in># workspace_ids E w))"
    and "runs (workspace_activate_window_without_raising E i w)
      (\<lambda>(b, w'). workspace_keeps E w w' \<and> b = (i \<in># workspace_ids E w))"
proof -
  note I = workspace_invD [OF inv]
  let ?s = "wk_scrolling w" and ?f = "wk_floating w"
  have fl: "workspace_keeps E w (w\<lparr>wk_floating := f, wk_floating_is_active := FloatingYes\<rparr>)"
    if f: "floating_keeps E ?f f" and i: "has_floating E i w" for f
  proof -
    have w1: "workspace_keeps E w (w\<lparr>wk_floating := f\<rparr>)" by (rule workspace_set_floating [OF inv f])
    then have inv1: "workspace_inv E (w\<lparr>wk_floating := f\<rparr>)" by (simp add: preserved_def)
    have "i \<in># mset (floating_ids E f)" using f i by (simp add: floating_keeps_def has_floating_iff)
    then have "focus_ok (space_is_empty ?s) (floating_is_empty f) FloatingYes"
      using floating_not_empty [of i E f] by (simp add: focus_ok_def floating_active_get_def)
    then show ?thesis using workspace.trans [OF w1 workspace_set_focus [OF inv1, of FloatingYes]] by simp
  qed
  have sc: "workspace_keeps E w (w\<lparr>wk_scrolling := s, wk_floating_is_active := a\<rparr>)"
    if s: "keeps E ?s s" and i: "space_has E i ?s" and a: "\<not> floating_active_get a" for s a
  proof -
    have w1: "workspace_keeps E w (w\<lparr>wk_scrolling := s\<rparr>)" by (rule workspace_set_scrolling [OF inv s])
    then have inv1: "workspace_inv E (w\<lparr>wk_scrolling := s\<rparr>)" by (simp add: preserved_def)
    have "sp_columns s \<noteq> []" using i keeps_has [OF s] by (auto simp: space_has_def)
    then have "focus_ok (space_is_empty s) (floating_is_empty ?f) a" using a by (simp add: focus_ok_def space_is_empty_def)
    then show ?thesis using workspace.trans [OF w1 workspace_set_focus [OF inv1, of a]] by simp
  qed
  obtain s b where s: "activate_window E i ?s = Some (b, s)" "b = space_has E i ?s" "keeps E ?s s"
    using activate_window_acts [OF I(1), of i] focus_keeps(6) [OF I(1), of i] by (auto simp: runs_iff)
  obtain c f where f: "floating_activate_window E i ?f = Some (c, f)" "floating_keeps E ?f f" "c = has_floating E i w"
      "\<not> c \<Longrightarrow> f = ?f"
    using floating_activate_ok [OF I(2), of i] by (auto simp: runs_iff has_floating_iff split: if_splits)
  have ids: "i \<in># workspace_ids E w \<longleftrightarrow> has_floating E i w \<or> space_has E i ?s"
    by (auto simp: workspace_ids_def has_floating_iff space_has_iff)
  show "runs (workspace_activate_window E i w) (\<lambda>(b, w'). workspace_keeps E w w' \<and> b = (i \<in># workspace_ids E w))"
    using s f fl sc [of s FloatingNo] ids workspace_set_scrolling [OF inv s(3)]
    by (simp add: workspace_activate_window_def on_floating_ret_def on_scrolling_ret_def floating_active_get_def)
  have r: "snd (activate_window_without_raising E i ?f) = ?f" if "\<not> has_floating E i w"
    using that idx_of_mem [of i E ?f] by (auto simp: activate_window_without_raising_def floating_contains_def has_floating_iff)
  have b: "fst (activate_window_without_raising E i ?f) = has_floating E i w"
    using idx_of_mem [of i E ?f] by (auto simp: activate_window_without_raising_def floating_contains_def has_floating_iff)
  obtain c g where g: "activate_window_without_raising E i ?f = (c, g)" by (cases "activate_window_without_raising E i ?f")
  have n: "\<not> floating_active_get (case a of FloatingNo \<Rightarrow> FloatingNo | FloatingNoButRaised \<Rightarrow> FloatingNoButRaised
      | FloatingYes \<Rightarrow> FloatingNoButRaised)" for a
    by (cases a) (simp_all add: floating_active_get_def)
  show "runs (workspace_activate_window_without_raising E i w)
      (\<lambda>(b, w'). workspace_keeps E w w' \<and> b = (i \<in># workspace_ids E w))"
    using s g b r fl [of g] without_raising_keeps [OF I(2), of i] sc [OF s(3) _ n] ids workspace_set_scrolling [OF inv s(3)]
    by (simp add: workspace_activate_window_without_raising_def on_floating_ret_def on_scrolling_ret_def)
qed

lemma start_open_keeps:
  assumes inv: "workspace_inv E w"
  shows "runs (no_answer (workspace_start_open_animation E i) w) (workspace_keeps E w)"
proof -
  let ?s = "wk_scrolling w" and ?f = "wk_floating w"
  obtain b s where s: "space_start_open_animation E i ?s = Some (b, s)" "keeps E ?s s"
    using resize_keeps(4) [OF workspace_invD(1) [OF inv], of i] by (auto simp: runs_iff)
  obtain c f where f: "floating_start_open_animation E i ?f = Some (c, f)" "floating_keeps E ?f f"
    using floating_start_open_ok [OF workspace_invD(2) [OF inv], of i] by (auto simp: runs_iff floating_steady_keeps)
  have w1: "workspace_keeps E w (w\<lparr>wk_scrolling := s\<rparr>)" by (rule workspace_set_scrolling [OF inv s(2)])
  then have inv1: "workspace_inv E (w\<lparr>wk_scrolling := s\<rparr>)" by (simp add: preserved_def)
  have "workspace_keeps E w (w\<lparr>wk_scrolling := s, wk_floating := f\<rparr>)"
    using workspace.trans [OF w1 workspace_set_floating [OF inv1]] f(2) by simp
  then show ?thesis using s(1) f(1) w1
    by (simp add: no_answer_def workspace_start_open_animation_def on_floating_ret_def on_scrolling_ret_def)
qed

lemma commit_keeps:
  assumes inv: "workspace_inv E w" and i: "i \<in># workspace_ids E w"
  shows "runs (workspace_update_window E i serial w) (workspace_keeps E w)"
proof -
  let ?s = "wk_scrolling w" and ?f = "wk_floating w"
  obtain c f where f: "floating_update_window E i serial ?f = Some (c, f)" "floating_keeps E ?f f" "c = has_floating E i w"
    using floating_commit_ok [OF workspace_invD(2) [OF inv], of i serial]
    by (auto simp: runs_iff floating_steady_keeps has_floating_iff)
  have w1: "workspace_keeps E w (w\<lparr>wk_floating := f\<rparr>)" by (rule workspace_set_floating [OF inv f(2)])
  then have inv1: "workspace_inv E (w\<lparr>wk_floating := f\<rparr>)" by (simp add: preserved_def)
  have "runs (on_scrolling (update_window E i serial) (w\<lparr>wk_floating := f\<rparr>)) (workspace_keeps E w)"
    if "\<not> has_floating E i w"
  proof -
    have "space_has E i ?s" using i that by (auto elim: in_workspace_cases)
    then have "runs (on_scrolling (update_window E i serial) (w\<lparr>wk_floating := f\<rparr>))
        (workspace_keeps E (w\<lparr>wk_floating := f\<rparr>))"
      by (intro on_scrolling_keeps [OF inv1] view_keeps [OF workspace_invD(1) [OF inv1]]) simp
    then show ?thesis by (rule workspace.runs_preserved [OF w1])
  qed
  then show ?thesis using f(1,3) w1 by (simp add: workspace_update_window_def on_floating_ret_def)
qed

lemma window_keep:
  assumes inv: "workspace_inv E w" and ok: "workspace_allows_window E a w"
  shows "runs (run_workspace_window E a w) (workspace_keeps E w)"
proof -
  have act: "runs (no_answer (workspace_activate_window E i) w) (workspace_keeps E w)"
    "runs (no_answer (workspace_activate_window_without_raising E i) w) (workspace_keeps E w)" for i
    using activate_keeps [OF inv, of i] by (auto simp: no_answer_def elim!: runs_mono)
  have desc: "runs (no_answer (workspace_descendants_added E i) w) (workspace_keeps E w)" for i
    using floating_runs [OF inv, of "FlDescendantsAdded i"]
    by (simp add: workspace_descendants_added_def [abs_def] as_run_floating)
  show ?thesis
    using ok workspace_modes_keep [OF inv] toggle_floating_keeps [OF inv] set_window_floating_keeps [OF inv]
      move_floating_keeps [OF inv] act start_open_keeps [OF inv] desc commit_keeps [OF inv]
    by (cases a) (simp_all add: window_known_def kin_known_def)
qed

text \<open>Gestures.\<close>

lemma dnd_scroll_delta_ok: "0 \<le> width \<Longrightarrow> \<exists>d. dnd_scroll_delta trigger width x = Some d"
  by (simp add: dnd_scroll_delta_def clamp_checked_def)

lemma gesture_keep:
  assumes inv: "workspace_inv E w" and ok: "workspace_allows_gesture E a w"
  shows "runs (run_workspace_gesture E a w) (workspace_keeps E w)"
proof -
  note defs = workspace_view_offset_gesture_begin_def workspace_view_offset_gesture_update_def
    workspace_view_offset_gesture_end_def workspace_dnd_scroll_gesture_begin_def workspace_dnd_scroll_gesture_end_def
    workspace_interactive_resize_begin_def workspace_interactive_resize_update_def
  note run = run_workspace_gesture.simps no_answer_on as_run_floating [where E = E] as_run_space [where E = E]
  have scroll: "runs (no_answer (workspace_dnd_scroll_gesture_scroll E p speed) w) (workspace_keeps E w)"
    if c: "clock_fits E" and n: "0 \<le> sw (r_size (wk_working_area w))" for p speed
  proof -
    obtain d where d: "dnd_scroll_delta (dv_trigger_width (op_dnd_edge_view_scroll (wk_options w)))
        (sw (r_size (wk_working_area w))) (px p - px (r_loc (wk_working_area w))) = Some d"
      using dnd_scroll_delta_ok [OF n] by blast
    have eq: "no_answer (workspace_dnd_scroll_gesture_scroll E p speed) w =
        no_answer (on_scrolling_ret (dnd_scroll_gesture_scroll E (d * speed))) w"
      by (simp add: no_answer_def [of "workspace_dnd_scroll_gesture_scroll E p speed"]
          no_answer_def [of "on_scrolling_ret f" for f] workspace_dnd_scroll_gesture_scroll_def d del: no_answer_on)
    show ?thesis unfolding eq no_answer_on as_run_space by (rule scrolling_runs [OF inv]) (simp add: c)
  qed
  have ends: "runs (workspace_interactive_resize_end E i w) (workspace_keeps E w)" for i
  proof -
    have sc: "runs (on_scrolling (interactive_resize_end E i) v) (workspace_keeps E v)"
      if "workspace_inv E v" for v :: "('w, 'id, 'o) LayoutWorkspace"
      unfolding as_run_space by (rule scrolling_runs [OF that]) simp
    have fl: "runs (on_floating (\<lambda>s. Some (floating_interactive_resize_end i s)) w) (workspace_keeps E w)"
      unfolding as_run_floating [where E = E] by (rule floating_runs [OF inv]) simp
    from workspace.seq [OF fl sc] sc [OF inv] fl show ?thesis
      by (cases i) (simp_all add: workspace_interactive_resize_end_def Let_def)
  qed
  have adv: "workspace_keeps E w (workspace_advance_animations E w)"
  proof -
    have w1: "workspace_keeps E w (w\<lparr>wk_scrolling := space_advance_animations E (wk_scrolling w)\<rparr>)"
      by (rule workspace_set_scrolling [OF inv keeps_id [OF space_advance_acts [OF workspace_invD(1) [OF inv]]]])
    then have "workspace_inv E (w\<lparr>wk_scrolling := space_advance_animations E (wk_scrolling w)\<rparr>)"
      by (simp add: preserved_def)
    from workspace_set_floating [OF this, of "floating_advance_animations E (wk_floating w)"]
    show ?thesis using workspace.trans [OF w1] floating_steady_keeps [OF floating_advance_ok [OF workspace_invD(2) [OF inv]]]
      by (simp add: workspace_advance_animations_def)
  qed
  have known: "window_known E (Some i) w" if "i \<in># workspace_ids E w" for i using that by (simp add: window_known_def)
  note targets = known_targets [OF known, unfolded floating_targets_def targets_def option.case]
  have "runs (no_answer (workspace_interactive_resize_begin E i edges) w) (workspace_keeps E w)"
    if "i \<in># workspace_ids E w" for i edges
    unfolding workspace_interactive_resize_begin_def run
    by (rule by_window_runs [OF inv]) (use targets [OF that] in simp_all)
  note other = this scroll ends adv
  show ?thesis
    by (insert ok, cases a; simp only: run; (simp add: other; fail)?; simp only: defs run;
        rule scrolling_runs [OF inv] by_window_runs [OF inv]; simp)
qed

theorem run_workspace_keeps:
  assumes inv: "workspace_inv E w" and ok: "workspace_allows E a w"
  shows "runs (run_workspace E a w) (workspace_keeps E w)"
  using ok focus_keep [OF inv] arrange_keep [OF inv] window_keep [OF inv] gesture_keep [OF inv] by (cases a) simp_all

end

end
