(* ===== verification/Layout_Workspace_Family.thy ===== *)
theory Layout_Workspace_Family
  imports Layout_Workspace_Run
begin

text \<open>
  Windows of a workspace that change their parent. The layout is told about a new parent only
  (\<^verbatim>\<open>parent_changed\<close> in \<^verbatim>\<open>src/handlers/xdg_shell.rs\<close> calls \<^verbatim>\<open>descendants_added\<close>), and only the
  floating layout has an order to restore; a tiled window may still become a child of a floating one
  and be moved to the floating layout later.
\<close>

section \<open>A floating window\<close>

definition reparent_floating ::
    "('w, 'id) LayoutEnv \<Rightarrow> nat \<Rightarrow> 'w \<Rightarrow> 'id option \<Rightarrow> ('w, 'id, 'o) LayoutWorkspace \<Rightarrow>
     ('w, 'id, 'o) LayoutWorkspace option" where
  "reparent_floating E k v p = on_floating (floating_reparent E k v p)"

lemma reparent_floating_keeps:
  assumes inv: "workspace_inv E w" and k: "k < length (fl_tiles (wk_floating w))"
    and v: "new_parent E p (tl_window (fl_tiles (wk_floating w) ! k)) v"
    and kin: "kin_ok E (map tl_window (fl_tiles (reparent E k v (wk_floating w))))"
  shows "runs (reparent_floating E k v p w) (workspace_keeps E w)"
  unfolding reparent_floating_def
  by (rule on_floating_keeps [OF inv], rule floating_reparent_ok [OF workspace_invD(2) [OF inv] k v kin])

section \<open>A tiled window\<close>

definition replace_tiled :: "nat \<Rightarrow> nat \<Rightarrow> 'w \<Rightarrow> ('w, 'id) Space \<Rightarrow> ('w, 'id) Space" where
  "replace_tiled ci ti v s =
     (let c = sp_columns s ! ci; t = c_tiles c ! ti
      in s\<lparr>sp_columns := (sp_columns s)[ci := c\<lparr>c_tiles := (c_tiles c)[ti := t\<lparr>tl_window := v\<rparr>]\<rparr>]\<rparr>)"

definition reparent_tiled ::
    "('w, 'id) LayoutEnv \<Rightarrow> nat \<Rightarrow> nat \<Rightarrow> 'w \<Rightarrow> 'id option \<Rightarrow> ('w, 'id, 'o) LayoutWorkspace \<Rightarrow>
     ('w, 'id, 'o) LayoutWorkspace option" where
  "reparent_tiled E ci ti v p w =
     (let w = w\<lparr>wk_scrolling := replace_tiled ci ti v (wk_scrolling w)\<rparr>
      in case p of None \<Rightarrow> Some w | Some p \<Rightarrow> no_answer (workspace_descendants_added E p) w)"

lemma new_parent_tile:
  assumes v: "new_parent E p (tl_window t) v"
  shows "el_id E v = el_id E (tl_window t)" and "tile_ok E t \<Longrightarrow> tile_ok E (t\<lparr>tl_window := v\<rparr>)"
    and "tile_in E c t d \<Longrightarrow> tile_in E c (t\<lparr>tl_window := v\<rparr>) d"
    and "requested_as E m t \<Longrightarrow> requested_as E m (t\<lparr>tl_window := v\<rparr>)"
  using v
  by (auto simp: new_parent_def same_requests_def tile_ok_def tile_in_def td_fresh_def height_ok_def
      requested_as_def tile_size_def tile_size_of_def window_size_def effective_border_width_def)

lemma replace_tiled_column:
  assumes c: "column_inv E c" and ti: "ti < length (c_tiles c)" and v: "new_parent E p (tl_window (c_tiles c ! ti)) v"
  defines "c' \<equiv> c\<lparr>c_tiles := (c_tiles c)[ti := (c_tiles c ! ti)\<lparr>tl_window := v\<rparr>]\<rparr>"
  shows "column_inv E c'" and "column_fixed c c'" and "column_px_width c' = column_px_width c"
    and "column_cell E c' = column_cell E c" and "column_sizing_mode c' = column_sizing_mode c"
proof -
  let ?t = "(c_tiles c ! ti)\<lparr>tl_window := v\<rparr>"
  note N = new_parent_tile [OF v]
  show "column_fixed c c'" by (simp add: c'_def column_fixed_def)
  show "column_cell E c' = column_cell E c"
    using ti N(1) by (simp add: c'_def column_cell_def map_update list_update_same_conv)
  have "map tl_sizing_mode (c_tiles c') = map tl_sizing_mode (c_tiles c)"
    using ti by (simp add: c'_def map_update list_update_same_conv)
  then have "tl_sizing_mode ` set (c_tiles c') = tl_sizing_mode ` set (c_tiles c)" by (metis list.set_map)
  then have "(\<exists>t \<in> set (c_tiles c'). tl_sizing_mode t = m) \<longleftrightarrow> (\<exists>t \<in> set (c_tiles c). tl_sizing_mode t = m)" for m
    by (metis imageE imageI)
  then show mode: "column_sizing_mode c' = column_sizing_mode c" by (simp add: column_sizing_mode_def)
  have "c_data c' = c_data c" "is_tabbed c' = is_tabbed c" "c_tab_indicator c' = c_tab_indicator c"
    "length (c_tiles c') = length (c_tiles c)" "c_scale c' = c_scale c"
    by (simp_all add: c'_def is_tabbed_def)
  then show "column_px_width c' = column_px_width c" by (simp only: column_px_width_def mode)
  have pre: "column_pre E c" by (rule column_inv_pre [OF c])
  have tiles: "list_all2 (tile_in E c) (c_tiles c) (c_data c)" and len: "length (c_data c) = length (c_tiles c)"
    using pre column_core_length [of E c] by (simp_all add: column_pre_def column_core_defs)
  have "list_all2 (tile_in E c) ((c_tiles c)[ti := ?t]) ((c_data c)[ti := c_data c ! ti])"
    by (rule list_all2_update_cong [OF tiles]) (use N(3) list_all2_nthD [OF tiles ti] in simp)
  moreover have "tile_in E c' = tile_in E c" by (simp add: c'_def fun_eq_iff tile_in_def height_ok_def)
  ultimately have "list_all2 (tile_in E c') (c_tiles c') (c_data c')" by (simp add: c'_def)
  then have "column_core E c'" using pre by (simp add: column_pre_def column_core_defs c'_def)
  moreover have "\<forall>t \<in> set (c_tiles c'). requested_as E (column_pending_sizing_mode c') t"
  proof
    fix t assume "t \<in> set (c_tiles c')"
    then have "t = ?t \<or> t \<in> set (c_tiles c)"
      using set_update_subset_insert [of "c_tiles c" ti ?t] by (auto simp: c'_def)
    moreover have "column_pending_sizing_mode c' = column_pending_sizing_mode c"
      by (simp add: c'_def column_pending_sizing_mode_def)
    ultimately show "requested_as E (column_pending_sizing_mode c') t"
      using c N(4) ti by (auto simp: column_inv_def)
  qed
  ultimately show "column_inv E c'"
    using pre by (simp add: column_inv_def column_pre_def c'_def column_pending_sizing_mode_def is_tabbed_def)
qed

lemma replace_tiled_keeps:
  assumes inv: "space_inv E s" and ci: "ci < length (sp_columns s)" and ti: "ti < length (c_tiles (sp_columns s ! ci))"
    and v: "new_parent E p (tl_window (c_tiles (sp_columns s ! ci) ! ti)) v"
  shows "keeps E s (replace_tiled ci ti v s)"
proof -
  note P = space_partsD [OF space_inv_parts [OF inv]]
  let ?c = "sp_columns s ! ci"
  define c' where "c' = ?c\<lparr>c_tiles := (c_tiles ?c)[ti := (c_tiles ?c ! ti)\<lparr>tl_window := v\<rparr>]\<rparr>"
  note R = replace_tiled_column [OF P(3) [OF ci] ti v, folded c'_def]
  let ?s = "s\<lparr>sp_columns := (sp_columns s)[ci := c'], sp_data := (sp_data s)[ci := sp_data s ! ci]\<rparr>"
  have eq: "replace_tiled ci ti v s = ?s" by (simp add: replace_tiled_def Let_def c'_def)
  have "column_fits E s c'" by (rule column_fits_fixed [OF P(4) [OF ci] R(1,2)])
  then have "space_parts E ?s"
    using cols_ok_update [of E s c' "sp_data s ! ci" ci] space_inv_parts [OF inv] P(5) [OF ci] R(3)
    by (simp add: space_parts_def)
  then have "space_inv E ?s" using R(4,5) by (intro space_inv_replace [OF inv ci]) (simp_all add: column_cell_def)
  moreover have "(map (column_cell E) (sp_columns s))[ci := column_cell E c'] = map (column_cell E) (sp_columns s)"
    using R(4) ci by (intro list_update_same_conv [THEN iffD2]) simp_all
  then have "grid E ?s = grid E s" by (simp add: column_cells_update)
  ultimately show ?thesis unfolding eq by (simp add: keeps_def windows_grid space_env_def)
qed

lemma reparent_tiled_keeps:
  assumes el: "layout_element E" and inv: "workspace_inv E w" and ci: "ci < length (sp_columns (wk_scrolling w))"
    and ti: "ti < length (c_tiles (sp_columns (wk_scrolling w) ! ci))"
    and v: "new_parent E p (tl_window (c_tiles (sp_columns (wk_scrolling w) ! ci) ! ti)) v"
  shows "runs (reparent_tiled E ci ti v p w) (workspace_keeps E w)"
proof -
  define w' where "w' = w\<lparr>wk_scrolling := replace_tiled ci ti v (wk_scrolling w)\<rparr>"
  have w': "workspace_keeps E w w'"
    unfolding w'_def by (rule workspace_set_scrolling [OF inv replace_tiled_keeps [OF workspace_invD(1) [OF inv] ci ti v]])
  then have "workspace_inv E w'" by (simp add: preserved_def)
  then have "runs (run_workspace E (WkWindow (WkDescendantsAdded q)) w') (workspace_keeps E w')" for q
    by (intro layout_element.run_workspace_keeps [OF el]) simp_all
  then have "runs (no_answer (workspace_descendants_added E q) w') (workspace_keeps E w)" for q
    by (intro workspace.runs_preserved [OF w']) simp
  then show ?thesis using w' by (simp add: reparent_tiled_def Let_def w'_def split: option.split)
qed

end
