(* ===== verification/Layout_Workspace_Reach.thy ===== *)
theory Layout_Workspace_Reach
  imports Layout_Workspace_Family
begin

text \<open>
  New workspaces, changes of their configuration and of their output, adding and removing windows, and
  the workspaces that are reachable by all of that.
\<close>

section \<open>Construction\<close>

lemma workspace_options_ok:
  "options_ok base \<Longrightarrow> 0 < scale \<Longrightarrow> option_ok layout_part_ok part \<Longrightarrow> options_ok (workspace_options part scale base)"
  unfolding workspace_options_def by (rule adjusted_options_ok [OF merged_options_ok])

lemma workspace_on_inv:
  assumes "options_ok base" and "0 < sc_fractional scale" and "option_ok layout_part_ok (Option.bind config wcf_layout)"
  shows "workspace_inv E (workspace_on E scale transform vs wa output original config base i)"
proof -
  define opts where "opts = workspace_options (Option.bind config wcf_layout) (sc_fractional scale) base"
  define w where "w = workspace_on E scale transform vs wa output original config base i"
  have opts: "options_ok opts" unfolding opts_def by (rule workspace_options_ok [OF assms])
  have sp: "wk_scrolling w = space_new E vs wa (sc_fractional scale) opts"
    "wk_floating w = floating_new vs wa (sc_fractional scale) opts"
    by (simp_all add: w_def workspace_on_def Let_def opts_def)
  have "workspace_config_ok w"
    using assms by (simp add: w_def workspace_on_def Let_def workspace_config_ok_def)
  moreover have "linked w"
    by (simp add: linked_def Let_def sp space_new_def floating_new_def) (simp add: w_def workspace_on_def opts_def Let_def)
  moreover have "focus_ok (space_is_empty (wk_scrolling w)) (floating_is_empty (wk_floating w)) (wk_floating_is_active w)"
    by (simp add: sp space_new_def floating_new_def space_is_empty_def floating_is_empty_def focus_ok_def)
      (simp add: w_def workspace_on_def Let_def floating_active_get_def)
  moreover have "workspace_ids E w = {#}"
    by (simp add: workspace_ids_def sp windows_def space_tiles_def floating_ids_def space_new_def floating_new_def)
  ultimately have "workspace_inv E w"
    using space_new_inv [OF opts, of E] floating_new_inv [OF opts, of E] by (simp add: workspace_inv_def sp)
  then show ?thesis by (simp add: w_def)
qed

section \<open>Configuration\<close>

text \<open>What holds of a workspace while its layouts are still to be given its configuration.\<close>

definition parts_ok :: "('w, 'id) LayoutEnv \<Rightarrow> ('w, 'id, 'o) LayoutWorkspace \<Rightarrow> bool" where
  "parts_ok E w \<longleftrightarrow> space_inv E (wk_scrolling w) \<and> floating_inv E (wk_floating w) \<and>
     focus_ok (space_is_empty (wk_scrolling w)) (floating_is_empty (wk_floating w)) (wk_floating_is_active w) \<and>
     (\<forall>i. count (workspace_ids E w) i \<le> 1)"

definition only_reconfigured :: "('w, 'id) LayoutEnv \<Rightarrow> ('w, 'id, 'o) LayoutWorkspace \<Rightarrow> ('w, 'id, 'o) LayoutWorkspace \<Rightarrow> bool" where
  "only_reconfigured E w w' \<longleftrightarrow> workspace_inv E w' \<and> workspace_ids E w' = workspace_ids E w \<and>
     wk_id w' = wk_id w \<and> wk_name w' = wk_name w \<and> wk_output w' = wk_output w \<and>
     wk_original_output w' = wk_original_output w"

text \<open>A workspace that comes to an output it belongs to takes the full name of it.\<close>

definition moved_to_output ::
    "('w, 'id) LayoutEnv \<Rightarrow> 'o OutputEnv \<Rightarrow> 'o option \<Rightarrow> ('w, 'id, 'o) LayoutWorkspace \<Rightarrow> ('w, 'id, 'o) LayoutWorkspace \<Rightarrow> bool" where
  "moved_to_output E O' output w w' \<longleftrightarrow> workspace_inv E w' \<and> workspace_ids E w' = workspace_ids E w \<and>
     wk_id w' = wk_id w \<and> wk_name w' = wk_name w \<and> wk_output w' = output \<and>
     wk_original_output w' =
       (case output of
          None \<Rightarrow> wk_original_output w
        | Some o' \<Rightarrow> if wk_output w \<noteq> output \<and> output_matches (out_name O' o') (wk_original_output w)
                     then format_make_model_serial_or_connector (out_name O' o') else wk_original_output w)"

context layout_element
begin

lemma inv_parts: "workspace_inv E w \<Longrightarrow> parts_ok E w"
  by (simp add: workspace_inv_def parts_ok_def)

lemma reconfigure_spaces_ok:
  assumes parts: "parts_ok E w" and opts: "options_ok opts"
    and tall: "\<forall>c \<in> set (sp_columns (wk_scrolling w)). reconfigurable E opts c"
  shows "runs (reconfigure_spaces E opts w) (\<lambda>w'. parts_ok E w' \<and> workspace_ids E w' = workspace_ids E w \<and>
     linked (w'\<lparr>wk_options := opts\<rparr>) \<and> workspace_env w w')"
proof -
  let ?vs = "wk_view_size w" and ?wa = "wk_working_area w" and ?sc = "wk_fractional_scale w"
  have P: "space_inv E (wk_scrolling w)" "floating_inv E (wk_floating w)"
    using parts by (simp_all add: parts_ok_def)
  obtain s where s: "space_update_config E ?vs ?wa ?sc opts (wk_scrolling w) = Some s" "space_inv E s"
      "grid E s = grid E (wk_scrolling w)" "space_reconfigured ?vs ?wa ?sc opts s"
    using space_update_config_ok [OF P(1) opts tall, of ?vs ?wa ?sc] by (auto simp: runs_iff)
  define f where "f = floating_update_config E ?vs ?wa ?sc opts (wk_floating w)"
  note F = floating_update_config_ok [OF P(2) opts, of ?vs ?wa ?sc, folded f_def]
  define w' where "w' = w\<lparr>wk_scrolling := s, wk_floating := f\<rparr>"
  have ids: "workspace_ids E w' = workspace_ids E w"
    using s(3) F(2) by (simp add: workspace_ids_def w'_def windows_grid)
  have "space_is_empty s = space_is_empty (wk_scrolling w)"
    using s(3) by (auto simp: space_is_empty_def grid_def)
  moreover have "floating_is_empty f = floating_is_empty (wk_floating w)"
    using arg_cong [OF F(2), of length] by (auto simp: floating_is_empty_def floating_ids_def)
  ultimately have "parts_ok E w'"
    using parts s(2) F(1) ids by (simp add: parts_ok_def w'_def)
  moreover have "linked (w'\<lparr>wk_options := opts\<rparr>)"
    using s(4) by (simp add: linked_def Let_def w'_def space_reconfigured_def f_def floating_update_config_def)
  moreover have "workspace_env w w'" by (simp add: workspace_env_def w'_def)
  ultimately show ?thesis using s(1) ids by (simp add: reconfigure_spaces_def Let_def f_def w'_def)
qed

lemma workspace_update_config_ok:
  assumes parts: "parts_ok E (w :: ('w, 'id, 'o) LayoutWorkspace)" and base: "options_ok base" and sc: "0 < wk_fractional_scale w"
    and part: "option_ok layout_part_ok (wk_layout_config w)"
    and tall: "\<forall>c \<in> set (sp_columns (wk_scrolling w)).
      reconfigurable E (workspace_options (wk_layout_config w) (wk_fractional_scale w) base) c"
  shows "runs (workspace_update_config E base w) (\<lambda>w'. only_reconfigured E w w' \<and> wk_base_options w' = base \<and>
     wk_layout_config w' = wk_layout_config w \<and> wk_scale w' = wk_scale w \<and> wk_view_size w' = wk_view_size w)"
proof -
  let ?opts = "workspace_options (wk_layout_config w) (wk_fractional_scale w) base"
  have opts: "options_ok ?opts" by (rule workspace_options_ok [OF base sc part])
  have ids: "workspace_ids E (w'\<lparr>wk_base_options := b, wk_options := q\<rparr>) = workspace_ids E w'"
    for w' :: "('w, 'id, 'o) LayoutWorkspace" and b q by (simp add: workspace_ids_def)
  have fin: "only_reconfigured E w (w'\<lparr>wk_base_options := base, wk_options := ?opts\<rparr>) \<and>
      wk_layout_config w' = wk_layout_config w \<and> wk_scale w' = wk_scale w \<and> wk_view_size w' = wk_view_size w"
    if w': "parts_ok E w' \<and> workspace_ids E w' = workspace_ids E w \<and>
     linked (w'\<lparr>wk_options := ?opts\<rparr>) \<and> workspace_env w w'" for w' :: "('w, 'id, 'o) LayoutWorkspace"
    using w' base sc part parts [unfolded parts_ok_def]
    by (simp add: only_reconfigured_def workspace_inv_def parts_ok_def workspace_env_def workspace_config_ok_def
        linked_def Let_def ids)
  show ?thesis
    unfolding workspace_update_config_def Let_def runs_bind
    by (rule runs_mono [OF reconfigure_spaces_ok [OF parts opts tall]], drule fin) simp
qed

text \<open>The presets for heights do not depend on the scale.\<close>

lemma workspace_options_heights:
  "lc_preset_window_heights (op_layout (workspace_options part sc base)) =
   lc_preset_window_heights (op_layout (workspace_options part sc' base))"
  by (simp add: workspace_options_def options_adjusted_for_scale_def)

lemma same_heights_reconfigurable:
  assumes inv: "workspace_inv E w"
    and same: "lc_preset_window_heights (op_layout opts) = lc_preset_window_heights (op_layout (wk_options w))"
  shows "\<forall>c \<in> set (sp_columns (wk_scrolling w)). reconfigurable E opts c"
proof
  fix c assume "c \<in> set (sp_columns (wk_scrolling w))"
  then obtain i where i: "i < length (sp_columns (wk_scrolling w))" "c = sp_columns (wk_scrolling w) ! i"
    by (auto simp: in_set_conv_nth)
  then have "c_options c = wk_options w"
    using space_partsD(4) [OF space_inv_parts [OF workspace_invD(1) [OF inv]] i(1)] workspace_invD(3) [OF inv]
    by (simp add: column_fits_def linked_def Let_def)
  then show "reconfigurable E opts c" using same by (simp add: reconfigurable_def)
qed

lemma set_view_size_ok:
  assumes inv: "workspace_inv E (w :: ('w, 'id, 'o) LayoutWorkspace)" and sc: "0 < sc_fractional scale"
  shows "runs (set_view_size E scale transform vs wa w) (\<lambda>w'. only_reconfigured E w w' \<and>
     wk_scale w' = scale \<and> wk_view_size w' = vs)"
proof (cases "wk_transform w = transform \<and> wk_scale w = scale \<and> wk_view_size w = vs \<and> wk_working_area w = wa")
  case True
  then show ?thesis using inv by (simp add: set_view_size_def only_reconfigured_def Let_def)
next
  case False
  note C = workspace_invD(4) [OF inv, unfolded workspace_config_ok_def]
  define v where "v = w\<lparr>wk_scale := scale, wk_transform := transform, wk_view_size := vs, wk_working_area := wa\<rparr>"
  have parts: "parts_ok E v" using inv_parts [OF inv] by (simp add: parts_ok_def v_def workspace_ids_def)
  have ids: "workspace_ids E v = workspace_ids E w" by (simp add: v_def workspace_ids_def)
  have eq: "set_view_size E scale transform vs wa w =
      (if wk_fractional_scale w \<noteq> sc_fractional scale then workspace_update_config E (wk_base_options v) v
       else reconfigure_spaces E (wk_options v) v)"
    using False by (auto simp: set_view_size_def v_def Let_def)
  show ?thesis
  proof (cases "wk_fractional_scale w = sc_fractional scale")
    case True
    have opts: "options_ok (wk_options v)" using workspace_options_ok C by (simp add: v_def)
    have tall: "\<forall>c \<in> set (sp_columns (wk_scrolling v)). reconfigurable E (wk_options v) c"
      using same_heights_reconfigurable [OF inv] by (simp add: v_def)
    have "only_reconfigured E w w' \<and> wk_scale w' = scale \<and> wk_view_size w' = vs"
      if "parts_ok E w' \<and> workspace_ids E w' = workspace_ids E v \<and> linked (w'\<lparr>wk_options := wk_options v\<rparr>) \<and> workspace_env v w'"
      for w' :: "('w, 'id, 'o) LayoutWorkspace"
      using that C True ids workspace_invD(6) [OF inv]
      by (simp add: only_reconfigured_def workspace_inv_def parts_ok_def workspace_env_def workspace_config_ok_def
          linked_def Let_def v_def)
    then show ?thesis using True unfolding eq
      by (simp, intro runs_mono [OF reconfigure_spaces_ok [OF parts opts tall]])
  next
    case False
    have v: "options_ok (wk_base_options v)" "0 < wk_fractional_scale v" "option_ok layout_part_ok (wk_layout_config v)"
      using C sc by (simp_all add: v_def)
    have "\<forall>c \<in> set (sp_columns (wk_scrolling w)).
        reconfigurable E (workspace_options (wk_layout_config v) (wk_fractional_scale v) (wk_base_options v)) c"
      by (rule same_heights_reconfigurable [OF inv]) (simp add: v_def C workspace_options_heights [of _ "sc_fractional scale" _ "wk_fractional_scale w"])
    then have tall: "\<forall>c \<in> set (sp_columns (wk_scrolling v)).
        reconfigurable E (workspace_options (wk_layout_config v) (wk_fractional_scale v) (wk_base_options v)) c"
      by (simp add: v_def)
    show ?thesis using False unfolding eq
      by (simp, intro runs_mono [OF workspace_update_config_ok [OF parts v tall]])
        (auto simp: only_reconfigured_def ids, auto simp: v_def)
  qed
qed

lemma update_output_size_ok:
  assumes "workspace_inv E w" and "wk_output w = Some o'" and "0 < sc_fractional (out_scale O' o')"
  shows "runs (update_output_size E O' w) (only_reconfigured E w)"
  using assms(2) unfolding update_output_size_def
  by simp (rule runs_mono [OF set_view_size_ok [OF assms(1,3)]], simp)

lemma set_output_ok:
  assumes inv: "workspace_inv E w" and sc: "option_ok (\<lambda>o'. 0 < sc_fractional (out_scale O' o')) output"
  shows "runs (set_output E O' output w) (moved_to_output E O' output w)"
proof (cases "wk_output w = output")
  case True
  then show ?thesis using inv by (simp add: set_output_def moved_to_output_def split: option.split)
next
  case ne: False
  have set: "workspace_inv E (w\<lparr>wk_output := q, wk_original_output := n\<rparr>)" "workspace_ids E (w\<lparr>wk_output := q, wk_original_output := n\<rparr>) = workspace_ids E w"
    for q n using inv
    by (simp_all add: workspace_inv_def workspace_config_ok_def linked_def Let_def workspace_ids_def)
  show ?thesis
  proof (cases "output")
    case None
    then show ?thesis using inv ne set [where q = None and n = "wk_original_output w"] by (simp add: set_output_def moved_to_output_def)
  next
    case (Some o')
    define n where "n = (if output_matches (out_name O' o') (wk_original_output w)
      then format_make_model_serial_or_connector (out_name O' o') else wk_original_output w)"
    define v where "v = w\<lparr>wk_output := output, wk_original_output := n\<rparr>"
    have "runs (update_output_size E O' v) (only_reconfigured E v)"
      by (rule update_output_size_ok [where o' = o']) (use set Some sc in \<open>simp_all add: v_def\<close>)
    moreover have "set_output E O' output w = update_output_size E O' v"
      using ne Some by (simp add: set_output_def Let_def v_def n_def)
    ultimately show ?thesis
      using set [where q = "output" and n = n] ne Some
      by (auto simp: moved_to_output_def only_reconfigured_def v_def n_def elim!: runs_mono)
  qed
qed

text \<open>A change of the layout part of a workspace.\<close>

lemma workspace_update_layout_config_ok:
  assumes inv: "workspace_inv E (w :: ('w, 'id, 'o) LayoutWorkspace)" and part: "option_ok layout_part_ok part"
    and tall: "\<forall>c \<in> set (sp_columns (wk_scrolling w)).
      reconfigurable E (workspace_options part (wk_fractional_scale w) (wk_base_options w)) c"
  shows "runs (workspace_update_layout_config E part w) (\<lambda>w'. only_reconfigured E w w' \<and> wk_layout_config w' = part)"
proof (cases "wk_layout_config w = part")
  case True
  then show ?thesis using inv by (simp add: workspace_update_layout_config_def only_reconfigured_def)
next
  case False
  note C = workspace_invD(4) [OF inv, unfolded workspace_config_ok_def]
  define v where "v = w\<lparr>wk_layout_config := part\<rparr>"
  have parts: "parts_ok E v" using inv_parts [OF inv] by (simp add: parts_ok_def v_def workspace_ids_def)
  have ids: "workspace_ids E v = workspace_ids E w" by (simp add: v_def workspace_ids_def)
  have "runs (workspace_update_config E (wk_base_options w) v)
      (\<lambda>w'. only_reconfigured E w w' \<and> wk_layout_config w' = part)"
    by (rule runs_mono [OF workspace_update_config_ok [OF parts]])
      (use C part tall ids in \<open>auto simp: v_def only_reconfigured_def\<close>)
  then show ?thesis using False by (simp add: workspace_update_layout_config_def v_def)
qed

end

section \<open>Adding to a column, and whole columns\<close>

lemma added_windows:
  assumes inv: "workspace_inv E w" and new: "\<And>i. count (m + workspace_ids E w) i \<le> 1" and ne: "m \<noteq> {#}"
    and s: "space_inv E s" "space_env (wk_scrolling w) s" "windows E s = m + windows E (wk_scrolling w)"
  shows "workspace_inv E (activated act FloatingNo (w\<lparr>wk_scrolling := s\<rparr>)) \<and>
     workspace_env w (activated act FloatingNo (w\<lparr>wk_scrolling := s\<rparr>)) \<and>
     workspace_ids E (activated act FloatingNo (w\<lparr>wk_scrolling := s\<rparr>)) = m + workspace_ids E w"
proof -
  note I = workspace_invD [OF inv]
  define a where "a = (if act then FloatingNo else wk_floating_is_active w)"
  have "\<not> space_is_empty s" using space_empty_iff [OF s(1)] s(3) ne by simp
  then have a: "focus_ok (space_is_empty s) (floating_is_empty (wk_floating w)) a"
    using I(5) by (auto simp: focus_ok_def a_def floating_active_get_def)
  have m: "windows E s + mset (floating_ids E (wk_floating w)) = m + workspace_ids E w"
    using s(3) by (simp add: workspace_ids_def)
  note C = workspace_change [OF inv s(1,2) I(2) floating_env_refl a, unfolded m, OF new]
  have "activated act FloatingNo (w\<lparr>wk_scrolling := s\<rparr>) =
      w\<lparr>wk_scrolling := s, wk_floating := wk_floating w, wk_floating_is_active := a\<rparr>"
    by (simp add: activated_def a_def)
  with C show ?thesis by simp
qed

context layout_element
begin

lemma workspace_add_tile_to_column_ok:
  assumes inv: "workspace_inv E w" and ci: "ci < length (sp_columns (wk_scrolling w))" and t: "tile_ok E t"
    and ti: "option_ok (\<lambda>i. i \<le> length (c_tiles (sp_columns (wk_scrolling w) ! ci))) ti"
    and new: "el_id E (tl_window t) \<notin># workspace_ids E w"
  shows "runs (workspace_add_tile_to_column E ci ti t act w) (window_added E (el_id E (tl_window t)) False act w)"
proof -
  obtain s where s: "add_tile_to_column E ci ti t act (wk_scrolling w) = Some s" "space_inv E s"
      "space_env (wk_scrolling w) s" "grid E s = g_add_to ci ti (el_id E (tl_window t)) act (grid E (wk_scrolling w))"
    using add_tile_to_column_ok [OF workspace_invD(1) [OF inv] ci t ti, of act] by (auto simp: runs_iff)
  have "windows E s = add_mset (el_id E (tl_window t)) (windows E (wk_scrolling w))"
    unfolding windows_grid s(4) by (rule g_windows_add_to) (simp add: ci)
  moreover have "act \<Longrightarrow> g_focused (grid E s) = Some (el_id E (tl_window t))"
    unfolding s(4) using ci ti by (auto intro!: g_focused_add_to simp: column_cell_def split: option.splits)
  ultimately have "window_added E (el_id E (tl_window t)) False act w (activated act FloatingNo (w\<lparr>wk_scrolling := s\<rparr>))"
    by (rule added_to_scrolling [OF inv new s(2,3)])
  then show ?thesis using s(1)
    by (simp add: workspace_add_tile_to_column_def on_scrolling_def)
qed

lemma workspace_add_column_ok:
  assumes inv: "workspace_inv E w" and c: "column_inv E c" "reconfigurable E (wk_options w) c"
    and new: "\<And>i. count (mset (column_ids E c) + workspace_ids E w) i \<le> 1"
  shows "runs (workspace_add_column E c act w) (\<lambda>w'. workspace_inv E w' \<and> workspace_env w w' \<and>
     workspace_ids E w' = mset (column_ids E c) + workspace_ids E w)"
proof -
  note I = workspace_invD [OF inv]
  let ?s = "wk_scrolling w"
  have k: "insert_idx None ?s \<le> length (sp_columns ?s)"
    using space_core_active [OF space_inv_core [OF I(1)]] by auto
  have "sp_options ?s = wk_options w" using I(3) by (simp add: linked_def Let_def)
  then have "reconfigurable E (sp_options ?s) c" using c(2) by simp
  then obtain s where s: "add_column E None c act None ?s = Some s" "space_inv E s"
      "space_env ?s s" "grid E s = g_add (insert_idx None ?s) (column_cell E c) act (grid E ?s)"
    using add_column_ok [OF I(1) c(1) _ k, of None act] by (auto simp: runs_iff)
  have "windows E s = mset (column_ids E c) + windows E ?s"
    unfolding windows_grid s(4) g_windows_add by (simp add: column_cell_def)
  moreover have "mset (column_ids E c) \<noteq> {#}" using column_invD(2) [OF c(1)] by auto
  ultimately show ?thesis
    using added_windows [OF inv new _ s(2,3), of act] s(1) by (simp add: workspace_add_column_def on_scrolling_def)
qed

end

section \<open>Removing\<close>

lemma removed_from_floating:
  assumes inv: "workspace_inv E w" and f: "floating_inv E f" "floating_env (wk_floating w) f"
    and ids: "mset (floating_ids E (wk_floating w)) = add_mset i (mset (floating_ids E f))"
  shows "workspace_inv E (update_focus_floating_tiling_after_removing True (w\<lparr>wk_floating := f\<rparr>)) \<and>
     workspace_env w (update_focus_floating_tiling_after_removing True (w\<lparr>wk_floating := f\<rparr>)) \<and>
     workspace_ids E w = add_mset i (workspace_ids E (update_focus_floating_tiling_after_removing True (w\<lparr>wk_floating := f\<rparr>)))"
proof -
  note I = workspace_invD [OF inv]
  define a where "a = (if floating_is_empty f then FloatingNo else wk_floating_is_active w)"
  have "i \<in># mset (floating_ids E (wk_floating w))" using ids by simp
  then have ne: "\<not> floating_is_empty (wk_floating w)" by (rule floating_not_empty)
  have foc: "focus_ok (space_is_empty (wk_scrolling w)) (floating_is_empty f) a"
    using I(5) ne by (auto simp: focus_ok_def a_def floating_active_get_def)
  have m: "workspace_ids E w = add_mset i (windows E (wk_scrolling w) + mset (floating_ids E f))"
    using ids by (simp add: workspace_ids_def)
  have "count (windows E (wk_scrolling w) + mset (floating_ids E f)) j \<le> count (workspace_ids E w) j" for j
    unfolding m by simp
  then have "count (windows E (wk_scrolling w) + mset (floating_ids E f)) j \<le> 1" for j
    using I(6) [of j] order_trans by blast
  note C = workspace_change [OF inv I(1) space_env_refl f foc this]
  have "update_focus_floating_tiling_after_removing True (w\<lparr>wk_floating := f\<rparr>) =
      w\<lparr>wk_scrolling := wk_scrolling w, wk_floating := f, wk_floating_is_active := a\<rparr>"
    by (simp add: update_focus_floating_tiling_after_removing_def a_def)
  with C m show ?thesis by simp
qed

lemma removed_from_scrolling:
  assumes inv: "workspace_inv E w" and s: "space_inv E s" "space_env (wk_scrolling w) s"
    and ids: "windows E (wk_scrolling w) = m + windows E s"
  shows "workspace_inv E (update_focus_floating_tiling_after_removing False (w\<lparr>wk_scrolling := s\<rparr>)) \<and>
     workspace_env w (update_focus_floating_tiling_after_removing False (w\<lparr>wk_scrolling := s\<rparr>)) \<and>
     workspace_ids E w = m + workspace_ids E (update_focus_floating_tiling_after_removing False (w\<lparr>wk_scrolling := s\<rparr>))"
proof -
  note I = workspace_invD [OF inv]
  define a where "a = (if space_is_empty s \<and> \<not> floating_is_empty (wk_floating w) then FloatingYes else wk_floating_is_active w)"
  have foc: "focus_ok (space_is_empty s) (floating_is_empty (wk_floating w)) a"
    using I(5) by (auto simp: focus_ok_def a_def floating_active_get_def split: if_splits)
  have m: "workspace_ids E w = m + (windows E s + mset (floating_ids E (wk_floating w)))"
    using ids by (simp add: workspace_ids_def add.assoc)
  have "count (windows E s + mset (floating_ids E (wk_floating w))) j \<le> 1" for j
    using I(6) [of j] unfolding m by simp
  note C = workspace_change [OF inv s I(2) floating_env_refl foc this]
  have "update_focus_floating_tiling_after_removing False (w\<lparr>wk_scrolling := s\<rparr>) =
      w\<lparr>wk_scrolling := s, wk_floating := wk_floating w, wk_floating_is_active := a\<rparr>"
    by (simp add: update_focus_floating_tiling_after_removing_def a_def)
  with C m show ?thesis by simp
qed

definition window_removed ::
    "('w, 'id) LayoutEnv \<Rightarrow> 'id \<Rightarrow> ('w, 'id, 'o) LayoutWorkspace \<Rightarrow> ('w, 'id, 'o) LayoutWorkspace \<Rightarrow> bool" where
  "window_removed E i w w' \<longleftrightarrow> workspace_inv E w' \<and> workspace_env w w' \<and>
     workspace_ids E w = add_mset i (workspace_ids E w')"

context layout_element
begin

lemma workspace_remove_tile_ok:
  assumes inv: "workspace_inv E w" and i: "i \<in># workspace_ids E w"
  shows "runs (workspace_remove_tile E i w)
     (\<lambda>(r, w'). window_removed E i w w' \<and> el_id E (tl_window (rm_tile r)) = i)"
  using i
proof (rule in_workspace_cases)
  assume has: "has_floating E i w"
  obtain r f where r: "floating_remove_tile E i (wk_floating w) = Some (r, f)" "floating_inv E f"
      "floating_env (wk_floating w) f" "el_id E (tl_window (rm_tile r)) = i"
      "mset (floating_ids E (wk_floating w)) = add_mset i (mset (floating_ids E f))"
    using take_floating [OF inv has] by (auto simp: runs_iff)
  from removed_from_floating [OF inv r(2,3,5)] show ?thesis
    using has r(1,4) by (simp add: workspace_remove_tile_def on_floating_ret_def window_removed_def)
next
  assume not: "\<not> has_floating E i w" and has: "space_has E i (wk_scrolling w)"
  obtain r s where r: "remove_tile E i (wk_scrolling w) = Some (r, s)" "space_inv E s"
      "space_env (wk_scrolling w) s" "el_id E (tl_window (rm_tile r)) = i"
      "windows E (wk_scrolling w) = add_mset i (windows E s)"
    using take_scrolling [OF workspace_invD(1) [OF inv] has [unfolded space_has_iff]] by (auto simp: runs_iff)
  from removed_from_scrolling [OF inv r(2,3), of "{#i#}"] show ?thesis
    using not r(1,4,5) by (simp add: workspace_remove_tile_def on_scrolling_ret_def window_removed_def)
qed

text \<open>The window with the focus, or its column.\<close>

lemma remove_focused_tile:
  assumes inv: "space_inv E s"
  shows "runs (remove_active_tile E s) (\<lambda>(ro, s'). case ro of None \<Rightarrow> s' = s \<and> windows E s = {#}
     | Some r \<Rightarrow> space_inv E s' \<and> space_env s s' \<and> g_focused (grid E s) = Some (el_id E (tl_window (rm_tile r))) \<and>
         windows E s = add_mset (el_id E (tl_window (rm_tile r))) (windows E s'))"
proof (cases "sp_columns s = []")
  case True
  then show ?thesis by (simp add: remove_active_tile_def windows_def space_tiles_def)
next
  case False
  let ?c = "sp_columns s ! sp_active_column_idx s"
  note a = space_core_active [OF space_inv_core [OF inv] False]
  note t = column_invD(2) [OF space_partsD(3) [OF space_inv_parts [OF inv] a]]
  have b: "sp_active_column_idx s < length (g_cols (grid E s))"
    "c_active_tile_idx ?c < length (fst (g_cols (grid E s) ! sp_active_column_idx s))"
    using a t by (simp_all add: column_cell_def)
  have f: "g_focused (grid E s) = Some (column_ids E ?c ! c_active_tile_idx ?c)"
    using False a by (simp add: g_focused_def column_cell_def)
  have "runs (remove_tile_by_idx E (sp_active_column_idx s) (c_active_tile_idx ?c) None s) (\<lambda>(r, s').
      space_inv E s' \<and> space_env s s' \<and> g_focused (grid E s) = Some (el_id E (tl_window (rm_tile r))) \<and>
      windows E s = add_mset (el_id E (tl_window (rm_tile r))) (windows E s'))"
    by (rule runs_mono [OF remove_tile_acts [OF inv a t]])
      (use g_windows_remove_tile [OF b] f a t in \<open>auto simp: acts_def tile_taken_def windows_grid column_cell_def\<close>)
  then show ?thesis
    using False a by (simp add: remove_active_tile_def vec_get_def split_def)
qed

lemma remove_focused_column:
  assumes inv: "space_inv E s"
  shows "runs (remove_active_column E s) (\<lambda>(co, s'). case co of None \<Rightarrow> s' = s
     | Some c \<Rightarrow> space_inv E s' \<and> space_env s s' \<and> windows E s = mset (column_ids E c) + windows E s')"
proof (cases "sp_columns s = []")
  case False
  note a = space_core_active [OF space_inv_core [OF inv] False]
  let ?i = "sp_active_column_idx s"
  have "g_cols (g_remove_col ?i (grid E s)) = list_remove ?i (g_cols (grid E s))"
    by (simp add: g_remove_col_def g_neighbour_def g_activate_def Let_def)
  moreover have l: "?i < length (g_cols (grid E s))" using a by simp
  ultimately have g: "g_windows (grid E s) = mset (fst (g_cols (grid E s) ! ?i)) + g_windows (g_remove_col ?i (grid E s))"
    using ws_remove [OF l] by (simp only: g_windows_def)
  obtain c s' where c: "remove_column_by_idx E ?i None s = Some (c, s')" "space_inv E s'" "space_env s s'"
      "grid E s' = g_remove_col ?i (grid E s)" "column_cosmetic E (sp_columns s ! ?i) c"
    using remove_column_ok [OF inv a, of None] by (auto simp: runs_iff)
  have "column_ids E c = column_ids E (sp_columns s ! ?i)" using c(5) by (simp add: column_cosmetic_def column_cell_def)
  then have "fst (g_cols (grid E s) ! ?i) = column_ids E c" using a by (simp add: column_cell_def)
  then have "windows E s = mset (column_ids E c) + windows E s'" using c(4) g by (simp add: windows_grid)
  then show ?thesis using False c by (simp add: remove_active_column_def)
qed (simp add: remove_active_column_def)

lemma workspace_remove_active_tile_ok:
  assumes inv: "workspace_inv E w"
  shows "runs (workspace_remove_active_tile E w) (\<lambda>(ro, w'). case ro of None \<Rightarrow> w' = w \<and> workspace_ids E w = {#}
     | Some r \<Rightarrow> window_removed E (el_id E (tl_window (rm_tile r))) w w' \<and>
         workspace_focus E w = Some (el_id E (tl_window (rm_tile r))))"
proof (cases "floating_focused w")
  case True
  note I = workspace_invD [OF inv]
  have "\<not> floating_is_empty (wk_floating w)" using True I(5) by (auto simp: focus_ok_def split: if_splits)
  then obtain i where i: "fl_active_window_id (wk_floating w) = Some i" "i \<in> set (floating_ids E (wk_floating w))"
    using floating_invD(8) [OF I(2)] by (auto simp: floating_core_def floating_is_empty_def split: option.splits)
  then have has: "has_floating E i w" by (simp add: has_floating_iff)
  obtain r f where r: "floating_remove_tile E i (wk_floating w) = Some (r, f)" "floating_inv E f"
      "floating_env (wk_floating w) f" "el_id E (tl_window (rm_tile r)) = i"
      "mset (floating_ids E (wk_floating w)) = add_mset i (mset (floating_ids E f))"
    using take_floating [OF inv has] by (auto simp: runs_iff)
  from removed_from_floating [OF inv r(2,3,5)] show ?thesis
    using True i r(1,4) by (simp add: workspace_remove_active_tile_def on_floating_ret_def floating_remove_active_tile_def
        window_removed_def workspace_focus_def)
next
  case False
  note I = workspace_invD [OF inv]
  obtain ro s where r: "remove_active_tile E (wk_scrolling w) = Some (ro, s)"
    "case ro of None \<Rightarrow> s = wk_scrolling w \<and> windows E (wk_scrolling w) = {#}
     | Some r \<Rightarrow> space_inv E s \<and> space_env (wk_scrolling w) s \<and>
         g_focused (grid E (wk_scrolling w)) = Some (el_id E (tl_window (rm_tile r))) \<and>
         windows E (wk_scrolling w) = add_mset (el_id E (tl_window (rm_tile r))) (windows E s)"
    using remove_focused_tile [OF I(1)] by (auto simp: runs_iff)
  show ?thesis
  proof (cases ro)
    case None
    have "floating_is_empty (wk_floating w)"
      using I(5) False r(2) None space_empty_iff [OF I(1)] by (auto simp: focus_ok_def split: if_splits)
    then have "workspace_ids E w = {#}" using r(2) None
      by (simp add: workspace_ids_def floating_is_empty_def floating_ids_def)
    then show ?thesis using False r None by (simp add: workspace_remove_active_tile_def on_scrolling_ret_def)
  next
    case (Some t)
    then show ?thesis
      using False r removed_from_scrolling [OF inv, of s "{#el_id E (tl_window (rm_tile t))#}"]
      by (simp add: workspace_remove_active_tile_def on_scrolling_ret_def window_removed_def workspace_focus_def)
  qed
qed

lemma workspace_remove_active_column_ok:
  assumes inv: "workspace_inv E w"
  shows "runs (workspace_remove_active_column E w) (\<lambda>(co, w'). workspace_inv E w' \<and> workspace_env w w' \<and>
     workspace_ids E w = (case co of None \<Rightarrow> {#} | Some c \<Rightarrow> mset (column_ids E c)) + workspace_ids E w')"
proof (cases "floating_focused w")
  case True
  then show ?thesis using inv by (simp add: workspace_remove_active_column_def)
next
  case False
  obtain co s where r: "remove_active_column E (wk_scrolling w) = Some (co, s)"
    "case co of None \<Rightarrow> s = wk_scrolling w | Some c \<Rightarrow> space_inv E s \<and> space_env (wk_scrolling w) s \<and>
       windows E (wk_scrolling w) = mset (column_ids E c) + windows E s"
    using remove_focused_column [OF workspace_invD(1) [OF inv]] by (auto simp: runs_iff)
  show ?thesis
  proof (cases co)
    case None
    then show ?thesis using False r inv by (simp add: workspace_remove_active_column_def on_scrolling_ret_def)
  next
    case (Some c)
    then show ?thesis
      using False r removed_from_scrolling [OF inv, of s "mset (column_ids E c)"]
      by (simp add: workspace_remove_active_column_def on_scrolling_ret_def)
  qed
qed

end

section \<open>Reachable workspaces\<close>

text \<open>
  From a new workspace, on an output or on none, by any action, by adding windows and columns that are
  not there yet, by removing them, by windows that change their parent, and by changes of the
  configuration and the output. As for the scrolling layout, new presets for heights need columns
  without tiles of height 0. A window joins the floating layout only where the parents form no cycle.
\<close>

inductive workspace_reachable :: "('w, 'id) LayoutEnv \<Rightarrow> ('w, 'id, 'o) LayoutWorkspace \<Rightarrow> bool" for E where
  new: "options_ok base \<Longrightarrow> option_ok layout_part_ok (Option.bind config wcf_layout) \<Longrightarrow>
     0 < sc_fractional (out_scale O' o') \<Longrightarrow>
     workspace_reachable E (workspace_new_with_config E O' o' config base i)"
| new_no_outputs: "options_ok base \<Longrightarrow> option_ok layout_part_ok (Option.bind config wcf_layout) \<Longrightarrow>
     workspace_reachable E (workspace_new_with_config_no_outputs E config base i)"
| act: "workspace_reachable E w \<Longrightarrow> workspace_allows E a w \<Longrightarrow> run_workspace E a w = Some w' \<Longrightarrow>
     workspace_reachable E w'"
| add: "workspace_reachable E w \<Longrightarrow> tile_fits E (wk_scrolling w) t \<Longrightarrow> add_target_ok E tgt w \<Longrightarrow>
     el_id E (tl_window t) \<notin># workspace_ids E w \<Longrightarrow>
     kin_ok E (tl_window t # map tl_window (fl_tiles (wk_floating w))) \<Longrightarrow>
     workspace_add_tile E t tgt activate width fw fl w = Some w' \<Longrightarrow> workspace_reachable E w'"
| add_to: "workspace_reachable E w \<Longrightarrow> ci < length (sp_columns (wk_scrolling w)) \<Longrightarrow> tile_ok E t \<Longrightarrow>
     option_ok (\<lambda>i. i \<le> length (c_tiles (sp_columns (wk_scrolling w) ! ci))) ti \<Longrightarrow>
     el_id E (tl_window t) \<notin># workspace_ids E w \<Longrightarrow>
     workspace_add_tile_to_column E ci ti t act w = Some w' \<Longrightarrow> workspace_reachable E w'"
| add_column: "workspace_reachable E w \<Longrightarrow> column_inv E c \<Longrightarrow> reconfigurable E (wk_options w) c \<Longrightarrow>
     (\<And>i. count (mset (column_ids E c) + workspace_ids E w) i \<le> 1) \<Longrightarrow>
     workspace_add_column E c act w = Some w' \<Longrightarrow> workspace_reachable E w'"
| remove: "workspace_reachable E w \<Longrightarrow> i \<in># workspace_ids E w \<Longrightarrow>
     workspace_remove_tile E i w = Some (r, w') \<Longrightarrow> workspace_reachable E w'"
| remove_active: "workspace_reachable E w \<Longrightarrow> workspace_remove_active_tile E w = Some (ro, w') \<Longrightarrow>
     workspace_reachable E w'"
| remove_column: "workspace_reachable E w \<Longrightarrow> workspace_remove_active_column E w = Some (co, w') \<Longrightarrow>
     workspace_reachable E w'"
| configure: "workspace_reachable E w \<Longrightarrow> options_ok base \<Longrightarrow>
     (\<And>c. c \<in> set (sp_columns (wk_scrolling w)) \<Longrightarrow>
       reconfigurable E (workspace_options (wk_layout_config w) (wk_fractional_scale w) base) c) \<Longrightarrow>
     workspace_update_config E base w = Some w' \<Longrightarrow> workspace_reachable E w'"
| configure_layout: "workspace_reachable E w \<Longrightarrow> option_ok layout_part_ok part \<Longrightarrow>
     (\<And>c. c \<in> set (sp_columns (wk_scrolling w)) \<Longrightarrow>
       reconfigurable E (workspace_options part (wk_fractional_scale w) (wk_base_options w)) c) \<Longrightarrow>
     workspace_update_layout_config E part w = Some w' \<Longrightarrow> workspace_reachable E w'"
| resize: "workspace_reachable E w \<Longrightarrow> wk_output w = Some o' \<Longrightarrow> 0 < sc_fractional (out_scale O' o') \<Longrightarrow>
     update_output_size E O' w = Some w' \<Longrightarrow> workspace_reachable E w'"
| move: "workspace_reachable E w \<Longrightarrow> option_ok (\<lambda>o'. 0 < sc_fractional (out_scale O' o')) output \<Longrightarrow>
     set_output E O' output w = Some w' \<Longrightarrow> workspace_reachable E w'"
| unname: "workspace_reachable E w \<Longrightarrow> workspace_reachable E (workspace_unname w)"
| reparent_floating: "workspace_reachable E w \<Longrightarrow> k < length (fl_tiles (wk_floating w)) \<Longrightarrow>
     new_parent E p (tl_window (fl_tiles (wk_floating w) ! k)) v \<Longrightarrow>
     kin_ok E (map tl_window (fl_tiles (reparent E k v (wk_floating w)))) \<Longrightarrow>
     reparent_floating E k v p w = Some w' \<Longrightarrow> workspace_reachable E w'"
| reparent_tiled: "workspace_reachable E w \<Longrightarrow> ci < length (sp_columns (wk_scrolling w)) \<Longrightarrow>
     ti < length (c_tiles (sp_columns (wk_scrolling w) ! ci)) \<Longrightarrow>
     new_parent E p (tl_window (c_tiles (sp_columns (wk_scrolling w) ! ci) ! ti)) v \<Longrightarrow>
     reparent_tiled E ci ti v p w = Some w' \<Longrightarrow> workspace_reachable E w'"

context layout_element
begin

lemma workspace_reachable_inv: "workspace_reachable E w \<Longrightarrow> workspace_inv E w"
proof (induction rule: workspace_reachable.induct)
  case (new base config O' o' i)
  then show ?case unfolding workspace_new_with_config_def by (intro workspace_on_inv)
next
  case (new_no_outputs base config i)
  then show ?case unfolding workspace_new_with_config_no_outputs_def by (intro workspace_on_inv) simp_all
next
  case (act w a w')
  from runs_SomeD [OF run_workspace_keeps [OF act.IH act.hyps(2)] act.hyps(3)] show ?case by (simp add: preserved_def)
next
  case (add w t tgt activate width fw fl w')
  from runs_SomeD [OF workspace_add_tile_ok [OF add.IH add.hyps(2-5)] add.hyps(6)] show ?case by (simp add: window_added_def)
next
  case (add_to w ci t ti act w')
  from runs_SomeD [OF workspace_add_tile_to_column_ok [OF add_to.IH add_to.hyps(2-5)] add_to.hyps(6)]
  show ?case by (simp add: window_added_def)
next
  case (add_column w c act w')
  from runs_SomeD [OF workspace_add_column_ok [OF add_column.IH add_column.hyps(2-4)] add_column.hyps(5)] show ?case by simp
next
  case (remove w i r w')
  from runs_SomeD [OF workspace_remove_tile_ok [OF remove.IH remove.hyps(2)] remove.hyps(3)]
  show ?case by (simp add: window_removed_def)
next
  case (remove_active w ro w')
  from runs_SomeD [OF workspace_remove_active_tile_ok [OF remove_active.IH] remove_active.hyps(2)] remove_active.IH
  show ?case by (cases ro) (simp_all add: window_removed_def)
next
  case (remove_column w co w')
  from runs_SomeD [OF workspace_remove_active_column_ok [OF remove_column.IH] remove_column.hyps(2)] show ?case by simp
next
  case (configure w base w')
  note C = workspace_invD(4) [OF configure.IH, unfolded workspace_config_ok_def]
  have "runs (workspace_update_config E base w) (\<lambda>w'. only_reconfigured E w w' \<and> wk_base_options w' = base \<and>
     wk_layout_config w' = wk_layout_config w \<and> wk_scale w' = wk_scale w \<and> wk_view_size w' = wk_view_size w)"
    by (rule workspace_update_config_ok [OF inv_parts [OF configure.IH] configure.hyps(2)])
      (use C configure.hyps(3) in auto)
  from runs_SomeD [OF this configure.hyps(4)] show ?case by (simp add: only_reconfigured_def)
next
  case (configure_layout w part w')
  have "\<forall>c \<in> set (sp_columns (wk_scrolling w)).
      reconfigurable E (workspace_options part (wk_fractional_scale w) (wk_base_options w)) c"
    using configure_layout.hyps(3) by blast
  from runs_SomeD [OF workspace_update_layout_config_ok [OF configure_layout.IH configure_layout.hyps(2) this]
      configure_layout.hyps(4)]
  show ?case by (simp add: only_reconfigured_def)
next
  case (resize w o' O' w')
  from runs_SomeD [OF update_output_size_ok [OF resize.IH resize.hyps(2,3)] resize.hyps(4)]
  show ?case by (simp add: only_reconfigured_def)
next
  case (move w O' q w')
  from runs_SomeD [OF set_output_ok [OF move.IH move.hyps(2)] move.hyps(3)] show ?case by (simp add: moved_to_output_def)
next
  case (unname w)
  then show ?case
    by (simp add: workspace_unname_def workspace_inv_def workspace_config_ok_def linked_def Let_def workspace_ids_def)
next
  case (reparent_floating w k p v w')
  from runs_SomeD [OF reparent_floating_keeps [OF reparent_floating.IH reparent_floating.hyps(2-4)] reparent_floating.hyps(5)]
  show ?case by (simp add: preserved_def)
next
  case (reparent_tiled w ci ti p v w')
  have el: "layout_element E" by unfold_locales
  from runs_SomeD [OF reparent_tiled_keeps [OF el reparent_tiled.IH reparent_tiled.hyps(2-4)] reparent_tiled.hyps(5)]
  show ?case by (simp add: preserved_def)
qed

end

end
