(* ===== verification/Layout_Workspace_Claims.thy ===== *)
theory Layout_Workspace_Claims
  imports Layout_Workspace_Reach
begin

text \<open>
  The properties of a workspace over its reachable states, each with a witness on a sample with a tiled
  and a floating window, and what the merging of configurations and the matching of outputs promise.
\<close>

section \<open>A sample\<close>

text \<open>The test windows, none of them a child of another.\<close>

definition flat_env :: "(TestWindow, nat) LayoutEnv" where
  "flat_env = sample_env\<lparr>el_is_child_of := \<lambda>v w. False\<rparr>"

definition sample_config :: WorkspaceConfig where
  "sample_config = \<lparr>wcf_name = ''chat'', wcf_open_on_output = Some ''DP-1'', wcf_layout = None\<rparr>"

definition sample_workspace :: "(TestWindow, nat, unit) LayoutWorkspace" where
  "sample_workspace = workspace_new_with_config_no_outputs flat_env (Some sample_config) sample_options 1"

definition sample_outputs :: "unit OutputEnv" where
  "sample_outputs =
     \<lparr>out_name = \<lambda>_. \<lparr>on_connector = ''DP-1'', on_make = Some ''Some Company'', on_model = None, on_serial = None\<rparr>,
      out_scale = \<lambda>_. \<lparr>sc_integer = 2, sc_fractional = 2\<rparr>, out_transform = \<lambda>_. TNormal,
      out_size = \<lambda>_. sample_size, out_working_area = \<lambda>_. sample_area\<rparr>"

lemma flat_element: "layout_element flat_env"
  unfolding flat_env_def sample_env_def
  by unfold_locales
     (auto simp: test_env_def same_look_def same_requests_def same_family_def tw_request_size_def Let_def)

lemma flat_kin [simp]: "kin_ok flat_env vs"
  by (simp add: kin_ok_def flat_env_def)

lemma flat_tile_ok: "tile_ok flat_env (sample_tile i)" "el_id flat_env (tl_window (sample_tile i)) = i"
  "el_pending_sizing_mode flat_env (tl_window (sample_tile i)) = Normal"
  using sample_options_ok
  by (simp_all add: tile_ok_def presets_ok_def sample_tile_def tile_new_def flat_env_def sample_env_def test_env_def
      sample_window_def)

lemma sample_workspace_reachable: "workspace_reachable flat_env sample_workspace"
  unfolding sample_workspace_def
  by (rule workspace_reachable.new_no_outputs [OF sample_options_ok]) (simp add: sample_config_def)

lemma sample_workspace_fields:
  "workspace_ids flat_env sample_workspace = {#}" "wk_original_output sample_workspace = ''DP-1''"
  "wk_output sample_workspace = None" "wk_options sample_workspace = options_adjusted_for_scale 1 sample_options"
  by (simp_all add: sample_workspace_def workspace_new_with_config_no_outputs_def workspace_on_def Let_def sample_config_def
      workspace_ids_def windows_def space_tiles_def floating_ids_def space_new_def floating_new_def workspace_options_def
      with_merged_layout_def)

lemma sample_fits:
  assumes "workspace_inv flat_env w" and "workspace_env sample_workspace w"
  shows "tile_fits flat_env (wk_scrolling w) (sample_tile i)"
proof -
  have "sp_options (wk_scrolling w) = options_adjusted_for_scale 1 sample_options"
    using workspace_invD(3) [OF assms(1)] assms(2) sample_workspace_fields(4)
    by (simp add: linked_def Let_def workspace_env_def)
  then show ?thesis
    using flat_tile_ok(1) by (simp add: tile_fits_def options_adjusted_for_scale_def sample_tile_def tile_new_def)
qed

lemma sample_pair:
  obtains w :: "(TestWindow, nat, unit) LayoutWorkspace" where "workspace_reachable flat_env w" and "workspace_ids flat_env w = {#1, 2#}"
    and "\<not> has_floating flat_env 1 w" and "has_floating flat_env 2 w" and "workspace_focus flat_env w = Some 2"
    and "wk_output w = None" and "wk_original_output w = ''DP-1''"
proof -
  note el = flat_element and r0 = sample_workspace_reachable
  note inv0 = layout_element.workspace_reachable_inv [OF el r0]
  have e0: "workspace_env sample_workspace sample_workspace" by simp
  have n0: "el_id flat_env (tl_window (sample_tile 1)) \<notin># workspace_ids flat_env sample_workspace"
    by (simp add: sample_workspace_fields)
  have tgt: "add_target_ok flat_env AddAuto w" for w :: "(TestWindow, nat, unit) LayoutWorkspace" by simp
  obtain w1 where w1: "workspace_add_tile flat_env (sample_tile 1) AddAuto ActivateYes (Proportion (1 / 2)) False False
      sample_workspace = Some w1" "window_added flat_env 1 False True sample_workspace w1"
    using runsD [OF layout_element.workspace_add_tile_ok [OF el inv0 sample_fits [OF inv0 e0] tgt n0 flat_kin,
          of ActivateYes "Proportion (1 / 2)" False False]] flat_tile_ok(2,3) by fastforce
  have r1: "workspace_reachable flat_env w1"
    by (rule workspace_reachable.add [OF r0 sample_fits [OF inv0 e0] tgt n0 flat_kin w1(1)])
  have inv1: "workspace_inv flat_env w1" and e1: "workspace_env sample_workspace w1"
    and i1: "workspace_ids flat_env w1 = {#1#}" and f1: "\<not> has_floating flat_env 1 w1"
    using w1(2) by (auto simp: window_added_def sample_workspace_fields)
  have n1: "el_id flat_env (tl_window (sample_tile 2)) \<notin># workspace_ids flat_env w1"
    using i1 flat_tile_ok(2) by simp
  obtain w2 where w2: "workspace_add_tile flat_env (sample_tile 2) AddAuto ActivateYes (Proportion (1 / 2)) False True w1 = Some w2"
      "window_added flat_env 2 True True w1 w2"
    using runsD [OF layout_element.workspace_add_tile_ok [OF el inv1 sample_fits [OF inv1 e1] tgt n1 flat_kin,
          of ActivateYes "Proportion (1 / 2)" False True]] flat_tile_ok(2,3) by fastforce
  have r2: "workspace_reachable flat_env w2"
    by (rule workspace_reachable.add [OF r1 sample_fits [OF inv1 e1] tgt n1 flat_kin w2(1)])
  have i2: "workspace_ids flat_env w2 = {#1, 2#}" and f2: "has_floating flat_env 2 w2" "\<not> has_floating flat_env 1 w2"
    and foc: "workspace_focus flat_env w2 = Some 2" and e2: "workspace_env w1 w2"
    using w2(2) i1 f1 by (simp_all add: window_added_def add_mset_commute)
  have "wk_output w2 = None" "wk_original_output w2 = ''DP-1''"
    using e1 e2 by (simp_all add: workspace_env_def sample_workspace_fields)
  then show thesis using that r2 i2 f2 foc by blast
qed

section \<open>The properties\<close>

text \<open>C4. In every reachable state of a workspace its invariant holds, what its \<^verbatim>\<open>verify_invariants\<close>
  asserts and what its code relies on: both layouts are well-formed and have the size, the area, the
  scale and the merged options of the workspace, no window is in both of them or in one twice, and the
  focus is on a layout that has windows whenever there are any. The steps are all actions (changes of
  the display mode of a column included), adding and removing windows and columns, windows that change
  their parent, and changes of the configuration and the output. Of the surroundings they suppose: the
  windows that are added are new and have the preset heights of the layout, the windows that are named
  are there, parents form no cycle where a window joins the floating layout or changes its parent, and
  new preset heights do not meet a tile of height 0.\<close>

theorem workspace_invariant:
  assumes "layout_element E" and "workspace_reachable E w"
  shows "workspace_inv E w"
  by (rule layout_element.workspace_reachable_inv [OF assms])

theorem workspace_invariant_witness:
  "\<exists>w :: (TestWindow, nat, unit) LayoutWorkspace. workspace_ids flat_env w = {#1, 2#} \<and>
     has_floating flat_env 2 w \<and> workspace_inv flat_env w"
  by (rule sample_pair) (use workspace_invariant [OF flat_element] in blast)

text \<open>C5. No action on a workspace panics in a reachable state - among them all that move a window
  between the two layouts and those that change the display mode of a column - and none of them loses,
  duplicates or adds a window or changes the output, the size or the options of the workspace. What
  \<^term>\<open>workspace_allows\<close> asks of the caller: a window that the action names is in the workspace; where
  a window may change the layout (fullscreen, maximized, floating), parents form no cycle, as Wayland
  guarantees; timestamps are more than 150 ms below the largest \<^verbatim>\<open>Duration\<close>; and while a window is
  dragged to scroll, the width of the working area is not negative.\<close>

theorem workspace_actions_never_panic:
  assumes "layout_element E" and "workspace_reachable E w" and "workspace_allows E a w"
  shows "\<exists>w'. run_workspace E a w = Some w' \<and> workspace_reachable E w' \<and>
     workspace_ids E w' = workspace_ids E w \<and> workspace_env w w'"
proof -
  have "runs (run_workspace E a w) (workspace_keeps E w)"
    by (rule layout_element.run_workspace_keeps [OF assms(1) layout_element.workspace_reachable_inv [OF assms(1,2)] assms(3)])
  then show ?thesis using workspace_reachable.act [OF assms(2,3)] by (auto simp: runs_iff preserved_def)
qed

theorem workspace_actions_never_panic_witness:
  "\<exists>w w' :: (TestWindow, nat, unit) LayoutWorkspace.
     run_workspace flat_env (WkWindow (WkSetFullscreen 2 True)) w = Some w' \<and> has_floating flat_env 2 w \<and>
     workspace_ids flat_env w' = {#1, 2#}"
proof (rule sample_pair)
  fix w :: "(TestWindow, nat, unit) LayoutWorkspace"
  assume w: "workspace_reachable flat_env w" "workspace_ids flat_env w = {#1, 2#}" "has_floating flat_env 2 w"
  have "workspace_allows flat_env (WkWindow (WkSetFullscreen 2 True)) w" by (simp add: w(2) kin_known_def)
  from workspace_actions_never_panic [OF flat_element w(1) this] show ?thesis using w(2,3) by metis
qed

text \<open>C14. Toggling whether a window floats never panics; it moves exactly this window to the other
  layout, and the window keeps the focus if it had it.\<close>

theorem toggle_floating_switches:
  assumes "layout_element E" and "workspace_reachable E w" and "i \<in># workspace_ids E w" and "kin_known E w"
  shows "\<exists>w'. toggle_window_floating E (Some i) w = Some w' \<and> workspace_ids E w' = workspace_ids E w \<and>
     (\<forall>j. has_floating E j w' \<longleftrightarrow> (if j = i then \<not> has_floating E j w else has_floating E j w)) \<and>
     (workspace_focus E w = Some i \<longrightarrow> workspace_focus E w' = Some i)"
proof -
  have inv: "workspace_inv E w" by (rule layout_element.workspace_reachable_inv [OF assms(1,2)])
  have "option_ok (\<lambda>i. i \<in># workspace_ids E w) (Some i)" using assms(3) by simp
  from layout_element.toggle_window_floating_ok [OF assms(1) inv assms(4) [unfolded kin_known_def] this]
  obtain w' where w': "toggle_window_floating E (Some i) w = Some w'" "switched E i w w'"
    by (auto simp: runs_iff named_or_focused_def)
  show ?thesis
    using w'(1) switchedD(3,5) [OF w'(2)] switched_floating [OF inv w'(2)] by auto
qed

theorem toggle_floating_switches_witness:
  "\<exists>w w' :: (TestWindow, nat, unit) LayoutWorkspace. toggle_window_floating flat_env (Some 2) w = Some w' \<and>
     has_floating flat_env 2 w \<and> \<not> has_floating flat_env 2 w' \<and> workspace_focus flat_env w' = Some 2"
proof (rule sample_pair)
  fix w :: "(TestWindow, nat, unit) LayoutWorkspace"
  assume w: "workspace_reachable flat_env w" "workspace_ids flat_env w = {#1, 2#}" "has_floating flat_env 2 w"
    "workspace_focus flat_env w = Some 2"
  have i: "2 \<in># workspace_ids flat_env w" by (simp add: w(2))
  have k: "kin_known flat_env w" by (simp add: kin_known_def)
  from toggle_floating_switches [OF flat_element w(1) i k]
  obtain w' where "toggle_window_floating flat_env (Some 2) w = Some w'" "\<not> has_floating flat_env 2 w'"
    "workspace_focus flat_env w' = Some 2"
    using w(3,4) by auto
  then show ?thesis using w(3) by blast
qed

text \<open>C15. Adding a window never panics, for every kind of target: it adds exactly this window, to the
  floating layout exactly when it is to float, is neither fullscreen nor maximized and no column is asked
  for; it gets the focus when asked to.\<close>

theorem workspace_add_exact:
  assumes "layout_element E" and "workspace_reachable E w" and "tile_fits E (wk_scrolling w) t"
    and "add_target_ok E tgt w" and "el_id E (tl_window t) \<notin># workspace_ids E w"
    and "kin_ok E (tl_window t # map tl_window (fl_tiles (wk_floating w)))"
  shows "\<exists>w'. workspace_add_tile E t tgt act wd fw fl w = Some w' \<and>
     workspace_ids E w' = add_mset (el_id E (tl_window t)) (workspace_ids E w) \<and>
     (\<forall>j. has_floating E j w' \<longleftrightarrow>
        (if j = el_id E (tl_window t)
         then fl \<and> is_normal (el_pending_sizing_mode E (tl_window t)) \<and> (\<forall>k. tgt \<noteq> AddNewColumnAt k)
         else has_floating E j w)) \<and>
     (act = ActivateYes \<longrightarrow> workspace_focus E w' = Some (el_id E (tl_window t)))"
  using layout_element.workspace_add_tile_ok [OF assms(1) layout_element.workspace_reachable_inv [OF assms(1,2)] assms(3-6),
      of act wd fw fl]
  by (auto simp: runs_iff window_added_def)

theorem workspace_add_exact_witness:
  "\<exists>w'. workspace_add_tile flat_env (sample_tile 5) AddAuto ActivateYes (Proportion (1 / 2)) False True sample_workspace = Some w' \<and>
     workspace_ids flat_env w' = {#5#} \<and> has_floating flat_env 5 w' \<and> workspace_focus flat_env w' = Some 5"
proof -
  note inv = layout_element.workspace_reachable_inv [OF flat_element sample_workspace_reachable]
  have t: "add_target_ok flat_env AddAuto sample_workspace" by simp
  have n: "el_id flat_env (tl_window (sample_tile 5)) \<notin># workspace_ids flat_env sample_workspace"
    by (simp add: sample_workspace_fields)
  show ?thesis
    using workspace_add_exact [OF flat_element sample_workspace_reachable sample_fits [OF inv workspace_env_refl] t n flat_kin,
        of ActivateYes "Proportion (1 / 2)" False True]
    by (auto simp: flat_tile_ok sample_workspace_fields)
qed

text \<open>C20. A workspace that is moved to an output keeps its windows and takes the full name of the output
  as the name of its original output exactly when the old name matches it; so whether it belongs to
  this output is the same before and after, and stays so when it loses the output again.\<close>

theorem original_output_settles:
  assumes "layout_element E" and "workspace_reachable E w" and "0 < sc_fractional (out_scale O' o')"
    and "wk_output w \<noteq> Some o'"
  shows "\<exists>w1 w2. set_output E O' (Some o') w = Some w1 \<and> set_output E O' None w1 = Some w2 \<and>
     workspace_ids E w2 = workspace_ids E w \<and> wk_output w1 = Some o' \<and> wk_output w2 = None \<and>
     wk_original_output w2 = (if output_matches (out_name O' o') (wk_original_output w)
       then format_make_model_serial_or_connector (out_name O' o') else wk_original_output w) \<and>
     (output_matches (out_name O' o') (wk_original_output w2) \<longleftrightarrow>
      output_matches (out_name O' o') (wk_original_output w))"
proof -
  have inv: "workspace_inv E w" by (rule layout_element.workspace_reachable_inv [OF assms(1,2)])
  have sc: "option_ok (\<lambda>o'. 0 < sc_fractional (out_scale O' o')) (Some o')" using assms(3) by simp
  obtain w1 where w1: "set_output E O' (Some o') w = Some w1" "moved_to_output E O' (Some o') w w1"
    using layout_element.set_output_ok [OF assms(1) inv sc] by (auto simp: runs_iff)
  then have inv1: "workspace_inv E w1" by (simp add: moved_to_output_def)
  have "option_ok (\<lambda>o'. 0 < sc_fractional (out_scale O' o')) None" by simp
  from layout_element.set_output_ok [OF assms(1) inv1 this]
  obtain w2 where w2: "set_output E O' None w1 = Some w2" "moved_to_output E O' None w1 w2" by (auto simp: runs_iff)
  have "output_matches n (format_make_model_serial_or_connector n)" for n
    by (simp add: output_matches_iff format_make_model_serial_or_connector_def)
  then show ?thesis using w1 w2 assms(4) by (simp add: moved_to_output_def)
qed

theorem original_output_settles_witness:
  "\<exists>w1 w2. set_output flat_env sample_outputs (Some ()) sample_workspace = Some w1 \<and>
     set_output flat_env sample_outputs None w1 = Some w2 \<and>
     wk_original_output sample_workspace = ''DP-1'' \<and> wk_original_output w2 = ''Some Company Unknown Unknown''"
proof -
  have m: "output_matches (out_name sample_outputs ()) ''DP-1''"
    by (simp add: output_matches_iff sample_outputs_def)
  have f: "format_make_model_serial_or_connector (out_name sample_outputs ()) = ''Some Company Unknown Unknown''"
    by (simp add: format_make_model_serial_or_connector_def format_make_model_serial_def missing_mms_def or_unknown_def
        sample_outputs_def)
  have "0 < sc_fractional (out_scale sample_outputs ())" by (simp add: sample_outputs_def)
  from original_output_settles [OF flat_element sample_workspace_reachable this]
  show ?thesis using m f by (auto simp: sample_workspace_fields)
qed

text \<open>C21. Merging the parts of the layout configuration - of an output, then of a workspace - keeps the
  options well-formed, the preset sizes never empty. Every field ends with the value that the innermost
  part decides on, and with the old one when no part says anything about it; an empty list of presets
  decides on the default ones. The other options stay, and merging a part twice is merging it once.\<close>

theorem layout_merge_settles:
  assumes "options_ok opts" and "\<forall>p \<in> set ps. layout_part_ok p"
  shows "options_ok (merge_parts ps opts) \<and>
     layout_decided ps (op_layout opts) (op_layout (merge_parts ps opts)) \<and>
     op_animations (merge_parts ps opts) = op_animations opts \<and>
     op_dnd_edge_view_scroll (merge_parts ps opts) = op_dnd_edge_view_scroll opts \<and>
     with_merged_layout part (with_merged_layout part opts) = with_merged_layout part opts"
  using merge_parts_ok [OF assms] by (simp add: layout_merge_idem with_merged_layout_def split: option.split)

definition silent_part :: LayoutPart where
  "silent_part =
     \<lparr>lp_border = None, lp_tab_indicator = None, lp_preset_column_widths = None, lp_default_column_width = None,
      lp_preset_window_heights = None, lp_center_focused_column = None, lp_always_center_single_column = None,
      lp_empty_workspace_above_first = None, lp_default_column_display = None, lp_gaps = None, lp_struts = None\<rparr>"

definition output_part :: LayoutPart where
  "output_part = silent_part\<lparr>lp_border := Some \<lparr>br_off = False, br_on = True, br_width = Some 2\<rparr>,
     lp_preset_window_heights := Some [], lp_gaps := Some 8, lp_center_focused_column := Some CenterAlways\<rparr>"

definition workspace_part :: LayoutPart where
  "workspace_part = silent_part\<lparr>lp_border := Some \<lparr>br_off = False, br_on = False, br_width = Some 6\<rparr>,
     lp_gaps := Some 4\<rparr>"

theorem layout_merge_settles_witness:
  "options_ok (merge_parts [output_part, workspace_part] sample_options) \<and>
   (let c = op_layout (merge_parts [output_part, workspace_part] sample_options)
    in lc_border c = \<lparr>b_off = False, b_width = 6\<rparr> \<and> lc_gaps c = 4 \<and> lc_preset_window_heights c = default_presets \<and>
       lc_preset_column_widths c = [PresetProportion (1 / 2)] \<and> lc_center_focused_column c = CenterAlways)"
proof -
  have "\<forall>p \<in> set [output_part, workspace_part]. layout_part_ok p"
    by (simp add: layout_part_ok_def output_part_def workspace_part_def silent_part_def)
  note merged = layout_merge_settles [OF sample_options_ok this, of None]
  define m where "m = merge_parts [output_part, workspace_part] sample_options"
  have d: "options_ok m" "layout_decided [output_part, workspace_part] sample_layout (op_layout m)"
    using merged by (simp_all add: m_def sample_options_def)
  have "lc_border (op_layout m) = \<lparr>b_off = False, b_width = 6\<rparr>"
    using d(2) by (intro Border.equality) (simp_all add: decided_defs merge_field_simps switched_off_def
        output_part_def workspace_part_def silent_part_def sample_layout_def)
  moreover have "lc_gaps (op_layout m) = 4" "lc_preset_window_heights (op_layout m) = default_presets"
    "lc_preset_column_widths (op_layout m) = [PresetProportion (1 / 2)]" "lc_center_focused_column (op_layout m) = CenterAlways"
    using d(2) by (simp_all add: decided_defs merge_field_simps or_default_def output_part_def
        workspace_part_def silent_part_def sample_layout_def)
  ultimately show ?thesis using d(1) by (simp add: m_def Let_def)
qed

end
