(* ===== verification/Spec2Isabelle.thy ===== *)
theory Spec2Isabelle
  imports Ipc_Clients Layout_Scrolling_Claims Layout_Floating_Claims Layout_Workspace_Claims
begin

text \<open>
  A verification library for tiri, a scrollable-tiling Wayland compositor written in Rust.

  The parts of the program and how they interact. The layout (\<^verbatim>\<open>src/layout\<close>) arranges windows: a
  monitor has workspaces (\<^verbatim>\<open>workspace.rs\<close>), a workspace has a scrolling layout (\<^verbatim>\<open>scrolling.rs\<close>) of columns
  of tiles and a floating layout (\<^verbatim>\<open>floating.rs\<close>) of stacked tiles (\<^verbatim>\<open>tile.rs\<close>), one of which has the focus,
  and every tile wraps a window through the trait \<^verbatim>\<open>LayoutElement\<close>. Outputs and workspaces may override parts
  of the layout configuration (\<^verbatim>\<open>niri-config\<close>), which a workspace merges into its options. Everything that moves
  is an animation (\<^verbatim>\<open>src/animation\<close>) read off an adjustable clock; touchpad gestures go through the swipe
  tracker (\<^verbatim>\<open>src/input/swipe_tracker.rs\<close>). The IPC server (\<^verbatim>\<open>src/ipc/server.rs\<close>) compares the layout with
  a replicated state (\<^verbatim>\<open>niri-ipc/src/state.rs\<close>) after every change and sends the differences as events
  to its clients, who rebuild the state from them.

  The theories, in the order they build on each other.

  \<^item> \<^verbatim>\<open>Niri_Prelude\<close>: panics as \<^term>\<open>None\<close>, the predicate \<open>runs\<close> (a computation does not panic and its result
    satisfies a predicate) with the equations that push it through code, vectors, loops over lists and
    slices.
  \<^item> \<^verbatim>\<open>Ipc_Types\<close>: the protocol types and the parsers of command line arguments (\<^verbatim>\<open>niri-ipc/src/lib.rs\<close>),
    with round trips and the exact conditions under which they fail.
  \<^item> \<^verbatim>\<open>Ipc_State\<close>: the replicated state, its \<^verbatim>\<open>apply\<close> and \<^verbatim>\<open>replicate\<close>. \<^verbatim>\<open>Ipc_Server\<close>: clients, the fan-out of an
    event, and the refreshes. \<^verbatim>\<open>Ipc_Windows\<close> and \<^verbatim>\<open>Ipc_Clients\<close>: the refreshes are exact, and the
    server with its clients as a step relation, in which every client stays in step.
  \<^item> \<^verbatim>\<open>Anim_Clock\<close>, \<^verbatim>\<open>Anim_Animation\<close>: the lazy and the adjustable clock (nanoseconds as naturals, saturating and
    checked as in the code), easing curves, springs, the bisection of the cubic Bezier curve.
  \<^item> \<^verbatim>\<open>Input_Swipe\<close>: the swipe tracker.
  \<^item> \<^verbatim>\<open>Layout_Types\<close>: geometry, options, the trait \<^verbatim>\<open>LayoutElement\<close> as a record of operations, its laws as the
    locale \<open>layout_element\<close>, and the test window of the repository, on which the locale is
    interpreted. \<^verbatim>\<open>Layout_Tile\<close>: a tile. \<^verbatim>\<open>Layout_Column\<close>: a column and its tab indicator, with the
    distribution of heights; \<^verbatim>\<open>Layout_Column_Inv\<close> and \<^verbatim>\<open>Layout_Column_Ops\<close>: the invariant of a column and that
    every operation keeps it.
  \<^item> \<^verbatim>\<open>Layout_Scrolling\<close>, \<^verbatim>\<open>Layout_Scrolling_Actions\<close>, \<^verbatim>\<open>Layout_Scrolling_Gesture\<close>: the scrolling layout
    (\<^verbatim>\<open>ScrollingSpace\<close>): the view offset, adding and removing, the actions, gestures and snapping.
  \<^item> \<^verbatim>\<open>Layout_Scrolling_Inv\<close>, \<^verbatim>\<open>Layout_Scrolling_Ops\<close>, \<^verbatim>\<open>Layout_Scrolling_Refine\<close>, \<^verbatim>\<open>Layout_Scrolling_Snap\<close>,
    \<^verbatim>\<open>Layout_Scrolling_Commit\<close>: the invariant of the scrolling layout, and that every operation refines an
    operation on an abstract grid of window names (\<open>acts\<close>): which windows are in which column, the
    active window of each, the active column, and whether the previous column is to be activated on
    removal. \<^verbatim>\<open>Layout_Scrolling_Windows\<close> derives what happens to the multiset of windows,
    \<^verbatim>\<open>Layout_Scrolling_Run\<close> puts the actions into one datatype, \<^verbatim>\<open>Layout_Scrolling_Props\<close> defines the reachable
    states and a sample, \<^verbatim>\<open>Layout_Scrolling_Claims\<close> states the properties.
  \<^item> \<^verbatim>\<open>Layout_Floating\<close>: the floating layout (\<^verbatim>\<open>FloatingSpace\<close>). \<^verbatim>\<open>Layout_Floating_Stack\<close> is the theory of
    its stacking order as a list of names with the parent relation, \<^verbatim>\<open>Layout_Floating_Inv\<close> its invariant,
    \<^verbatim>\<open>Layout_Floating_Ops\<close> that adding, removing and raising keep it, \<^verbatim>\<open>Layout_Floating_Run\<close> the same for
    sizes, moves, commits, configuration and focus, \<^verbatim>\<open>Layout_Floating_Reach\<close> the actions as one datatype
    with the change of a parent that the client requests in between, and the reachable states,
    \<^verbatim>\<open>Layout_Floating_Claims\<close> the properties.
  \<^item> \<^verbatim>\<open>Config_Layout\<close>: the merging of a part of the layout configuration into the options
    (\<^verbatim>\<open>niri-config/src/layout.rs\<close>, \<^verbatim>\<open>appearance.rs\<close>). \<^verbatim>\<open>Config_Output\<close>: the names of outputs and how a configured
    name matches them (\<^verbatim>\<open>niri-config/src/output.rs\<close>). \<^verbatim>\<open>Layout_Scrolling_View\<close>: where the scrolling layout
    shows its tiles and what sizes it proposes to new windows.
  \<^item> \<^verbatim>\<open>Layout_Workspace\<close>: a workspace (\<^verbatim>\<open>Workspace\<close>). \<^verbatim>\<open>Layout_Workspace_Inv\<close>: its invariant, and the locale
    \<open>window_space\<close>, the contract that the scrolling layout, the floating layout and the workspace share
    (an operation that keeps the invariant, the windows and the environment can be repeated and composed),
    interpreted on all three. \<^verbatim>\<open>Layout_Workspace_Moves\<close>: adding, removing, configuration and outputs;
    \<^verbatim>\<open>Layout_Workspace_Switch\<close>: the moves between the two layouts, fullscreen and maximized;
    \<^verbatim>\<open>Layout_Workspace_Run\<close>: the actions as one datatype; \<^verbatim>\<open>Layout_Workspace_Reach\<close>: the reachable states;
    \<^verbatim>\<open>Layout_Workspace_Claims\<close>: the properties.

  How the state corresponds. A Rust struct is the record of the same name with prefixed fields
  (\<^verbatim>\<open>ScrollingSpace\<close> is \<open>Space\<close>), an enum a datatype; \<^verbatim>\<open>&mut self\<close> is the state returned updated, and every
  index, \<^verbatim>\<open>unwrap\<close>, \<^verbatim>\<open>clamp\<close> with crossed bounds and checked arithmetic is a \<^term>\<open>None\<close> of the result, so that
  a theorem saying that an operation returns a value says that it does not panic. \<^verbatim>\<open>f64\<close> is modelled by the
  reals; sizes in pixels are integers, IPC numbers are words of their width. The rounding of the
  rendering scale, the two easing functions of the crate \<^verbatim>\<open>keyframe\<close>, the iteration order of hash maps, the
  sending half of a channel, and the name, scale, size and area of an output, which Smithay keeps, are
  parameters. The two loops whose length the code does not bound
  syntactically are bounded structurally: the distribution of heights by the number of automatic
  tiles (each round fixes one), and the bisection by its 32 halvings.

  What the groups of lemmas show: for the event stream, that clients reconstruct exactly the state of
  the server; for animations, end points, ranges and the shift by an offset; for the clock, its speed and
  that it is frozen between clears; for the scrolling layout, that no action panics in a reachable
  state, that the invariant of the repository's own randomised tests holds, that windows are neither
  lost nor duplicated, and what each action does to order and focus; for the floating layout, the same with
  its stacking order, positions and directional focus; for a workspace, that its two layouts agree with
  each other and with the output, that no window is ever in both, and that moving a window between them keeps
  the others and the focus; for configuration and outputs, that merging keeps the options well-formed
  and happens once only, and that a workspace settles on its original output.

  Not modelled: rendering, hit testing and anything that draws (OpenGL); the Wayland protocol
  implementations and backends (calls into Smithay and the kernel); D-Bus and PipeWire; the dispatch of input
  events; the decoding of the configuration, which is derived code; monitors and the layout above
  workspaces. Of a workspace, the messages to windows about outputs, the shadow and background, closing
  animations and unmap snapshots. \<^verbatim>\<open>set_column_display\<close> is modelled for columns, the scrolling layout and
  workspaces but is not among the actions of \<^verbatim>\<open>Layout_Scrolling_Run\<close> and \<^verbatim>\<open>Layout_Workspace_Run\<close>, and the part of
  \<^verbatim>\<open>verify_invariants\<close> on physical pixels and on the sum of requested heights is not part of the
  invariant. The parents of windows change only together with the call of \<^verbatim>\<open>descendants_added\<close> that the
  compositor makes then; in a workspace, where tiled and floating windows may be related, a window is made
  floating only while all windows of the workspace have consistent parents (\<open>kin_known\<close>). A configuration
  that changes the preset heights is applied to columns whose tiles are not flat (\<open>reconfigurable\<close>): the
  code takes ratios of tile heights then.
\<close>

end
